(* ===== verification/Prelude.thy ===== *)
theory Prelude
  imports Main "HOL-Library.Word" "HOL-Library.Code_Target_Nat"
begin

text \<open>
  What every component of the model shares: JavaScript values as they cross a JSON
  boundary, results that may be a thrown error, 32-bit bitwise operators on JavaScript
  numbers, digit strings in a base, and the library's hint collections.

  A JavaScript \<open>bigint\<close> is an \<open>int\<close>. A JavaScript \<open>number\<close> the code treats as an
  integer is an \<open>int\<close> too; a number with no integer value (a fraction, NaN or an
  infinity) is the constructor \<open>JFrac\<close>, which no integer test accepts.
\<close>

unbundle bit_operations_syntax

section \<open>Thrown errors and results\<close>

text \<open>\<open>FlurboErrorCode\<close> of errors.ts, one constructor per string of the union.\<close>

datatype flurbo_code =
    Unauthenticated | Invite_required | Forbidden | Not_found | Invalid_input | Conflict
  | Unsupported_claim | Cross_pool | Market_closed | Quote_unavailable | Stale_quote
  | Invalid_forecast | Rate_limited | Timeout | Aborted | Network | Unavailable
  | Invalid_response | Provider_unavailable

text \<open>
  \<open>FlurboError\<close>: its code and its two optional fields. The display message is left out;
  no code branches on it.
\<close>

record flurbo_error =
  err_code :: flurbo_code
  err_status :: "int option"
  err_retry :: "int option"

text \<open>
  A thrown value: a \<open>FlurboError\<close>, or an error the language or the shared module throws
  (\<open>TypeError\<close>, \<open>RangeError\<close>, \<open>SyntaxError\<close>, plain \<open>Error\<close>).
\<close>

datatype js_error = Flurbo flurbo_error | Other_error string

type_synonym 'a res = "js_error + 'a"

definition flurbo :: "flurbo_code \<Rightarrow> js_error" where
  "flurbo c = Flurbo \<lparr>err_code = c, err_status = None, err_retry = None\<rparr>"

abbreviation throw :: "flurbo_code \<Rightarrow> 'a res" where
  "throw c \<equiv> Inl (flurbo c)"

abbreviation ok :: "'a \<Rightarrow> 'a res" where
  "ok x \<equiv> Inr x"

named_theorems res_simps \<open>evaluation of the result combinators\<close>

definition bindE :: "'a res \<Rightarrow> ('a \<Rightarrow> 'b res) \<Rightarrow> 'b res" where
  "bindE m f = (case m of Inl e \<Rightarrow> Inl e | Inr x \<Rightarrow> f x)"

lemma bindE_simps [simp, res_simps]:
  "bindE (Inl e) f = Inl e"
  "bindE (Inr x) f = f x"
  by (simp_all add: bindE_def)

lemma bindE_Inr_iff [simp]: "bindE m f = Inr y \<longleftrightarrow> (\<exists>x. m = Inr x \<and> f x = Inr y)"
  by (cases m) auto

lemma bindE_Inl_iff: "bindE m f = Inl e \<longleftrightarrow> m = Inl e \<or> (\<exists>x. m = Inr x \<and> f x = Inl e)"
  by (cases m) auto

lemma bindE_assoc: "bindE (bindE m f) g = bindE m (\<lambda>x. bindE (f x) g)"
  by (cases m) auto

lemma bindE_cong [fundef_cong]:
  "m = m' \<Longrightarrow> (\<And>x. m' = Inr x \<Longrightarrow> f x = f' x) \<Longrightarrow> bindE m f = bindE m' f'"
  by (cases m') auto

text \<open>A check that throws: \<open>if (!p) throw\<close>.\<close>

definition guardE :: "bool \<Rightarrow> js_error \<Rightarrow> unit res" where
  "guardE p e = (if p then Inr () else Inl e)"

lemma guardE_simps [simp, res_simps]:
  "guardE True e = Inr ()"
  "guardE False e = Inl e"
  by (simp_all add: guardE_def)

lemma guardE_Inr_iff [simp]: "guardE p e = Inr u \<longleftrightarrow> p"
  by (simp add: guardE_def)

lemma guardE_Inl_iff [simp]: "guardE p e = Inl e' \<longleftrightarrow> \<not> p \<and> e' = e"
  by (auto simp: guardE_def)

text \<open>The loop over an array whose body may throw: the first throw ends it.\<close>

fun mapE :: "('a \<Rightarrow> 'b res) \<Rightarrow> 'a list \<Rightarrow> 'b list res" where
  "mapE f [] = Inr []"
| "mapE f (x # xs) = bindE (f x) (\<lambda>y. bindE (mapE f xs) (\<lambda>ys. Inr (y # ys)))"

lemma mapE_Inr_iff: "mapE f xs = Inr ys \<longleftrightarrow> list_all2 (\<lambda>x y. f x = Inr y) xs ys"
proof (induction xs arbitrary: ys)
  case Nil
  then show ?case by auto
next
  case (Cons x xs)
  then show ?case by (auto simp: list_all2_Cons1)
qed

lemma mapE_total: "(\<And>x. x \<in> set xs \<Longrightarrow> f x = Inr (g x)) \<Longrightarrow> mapE f xs = Inr (map g xs)"
  by (induction xs) auto

lemma mapE_length: "mapE f xs = Inr ys \<Longrightarrow> length ys = length xs"
  by (auto simp: mapE_Inr_iff dest: list_all2_lengthD)

fun foldE :: "('s \<Rightarrow> 'a \<Rightarrow> 's res) \<Rightarrow> 's \<Rightarrow> 'a list \<Rightarrow> 's res" where
  "foldE f s [] = Inr s"
| "foldE f s (x # xs) = bindE (f s x) (\<lambda>t. foldE f t xs)"

lemma foldE_total: "(\<And>s x. x \<in> set xs \<Longrightarrow> f s x = Inr (g s x)) \<Longrightarrow> foldE f s xs = Inr (foldl g s xs)"
  by (induction xs arbitrary: s) auto

text \<open>The first result that is not None, as a loop that returns early.\<close>

fun findE :: "('a \<Rightarrow> 'b option res) \<Rightarrow> 'a list \<Rightarrow> 'b option res" where
  "findE f [] = Inr None"
| "findE f (x # xs) = bindE (f x) (\<lambda>r. case r of Some y \<Rightarrow> Inr (Some y) | None \<Rightarrow> findE f xs)"

lemma findE_SomeD: "findE f xs = Inr (Some y) \<Longrightarrow> \<exists>x\<in>set xs. f x = Inr (Some y)"
  by (induction xs) (auto split: option.splits)

lemma findE_complete:
  "(\<And>x. x \<in> set xs \<Longrightarrow> \<exists>r. f x = Inr r) \<Longrightarrow> z \<in> set xs \<Longrightarrow> f z = Inr (Some w) \<Longrightarrow>
    \<exists>y. findE f xs = Inr (Some y)"
proof (induction xs)
  case Nil
  then show ?case by simp
next
  case (Cons x xs)
  obtain r where r: "f x = Inr r" using Cons.prems(1) [of x] by auto
  then show ?case using Cons by (cases r) auto
qed

definition sumE :: "('a \<Rightarrow> int res) \<Rightarrow> 'a list \<Rightarrow> int res" where
  "sumE f xs = bindE (mapE f xs) (\<lambda>vs. Inr (sum_list vs))"

lemma sumE_Nil [simp]: "sumE f [] = Inr 0"
  by (simp add: sumE_def)

lemma sumE_Cons [simp]:
  "sumE f (x # xs) = bindE (f x) (\<lambda>v. bindE (sumE f xs) (\<lambda>w. Inr (v + w)))"
  by (cases "f x"; cases "mapE f xs") (auto simp: sumE_def)

text \<open>The value of a result that is known not to be an error.\<close>

definition value_of :: "int res \<Rightarrow> int" where
  "value_of r = (case r of Inl _ \<Rightarrow> 0 | Inr v \<Rightarrow> v)"

lemma value_of_Inr [simp]: "value_of (Inr v) = v"
  by (simp add: value_of_def)

lemma sumE_InrD:
  "sumE f xs = Inr s \<Longrightarrow> s = sum_list (map (\<lambda>x. value_of (f x)) xs) \<and> (\<forall>x\<in>set xs. \<exists>v. f x = Inr v)"
  by (induction xs arbitrary: s) auto

lemma sumE_total: "(\<And>x. x \<in> set xs \<Longrightarrow> f x = Inr (g x)) \<Longrightarrow> sumE f xs = Inr (sum_list (map g xs))"
  by (simp add: sumE_def mapE_total)

section \<open>JSON values\<close>

datatype json =
    JUndef
  | JNull
  | JBool bool
  | JInt int
  | JFrac
  | JStr string
  | JArr "json list"
  | JObj "(string \<times> json) list"

text \<open>\<open>v.k\<close>: a missing property reads as undefined, also on a value with no properties.\<close>

definition jget :: "json \<Rightarrow> string \<Rightarrow> json" where
  "jget v k = (case v of JObj kvs \<Rightarrow> (case map_of kvs k of Some x \<Rightarrow> x | None \<Rightarrow> JUndef) | _ \<Rightarrow> JUndef)"

definition jhas :: "json \<Rightarrow> string \<Rightarrow> bool" where
  "jhas v k = (case v of JObj kvs \<Rightarrow> map_of kvs k \<noteq> None | _ \<Rightarrow> False)"

fun is_jstr :: "json \<Rightarrow> bool" where
  "is_jstr (JStr _) = True"
| "is_jstr _ = False"

fun is_jbool :: "json \<Rightarrow> bool" where
  "is_jbool (JBool _) = True"
| "is_jbool _ = False"

fun is_jint :: "json \<Rightarrow> bool" where
  "is_jint (JInt _) = True"
| "is_jint _ = False"

definition max_safe :: int where
  "max_safe = 2 ^ 53 - 1"

text \<open>\<open>Number.isSafeInteger\<close>.\<close>

fun is_safe_int :: "json \<Rightarrow> bool" where
  "is_safe_int (JInt i) = (- max_safe \<le> i \<and> i \<le> max_safe)"
| "is_safe_int _ = False"

fun jint_val :: "json \<Rightarrow> int" where
  "jint_val (JInt i) = i"
| "jint_val _ = 0"

section \<open>Bitwise operators on JavaScript numbers\<close>

text \<open>
  \<open>&\<close>, \<open>|\<close>, \<open>^\<close> and \<open><<\<close> convert their operands to 32 bits and read the result as a
  signed 32-bit integer; the shift distance is taken modulo 32.
\<close>

definition to_int32 :: "int \<Rightarrow> int" where
  "to_int32 a = signed_take_bit 31 a"

definition js_and :: "int \<Rightarrow> int \<Rightarrow> int" where
  "js_and a b = to_int32 (a AND b)"

definition js_or :: "int \<Rightarrow> int \<Rightarrow> int" where
  "js_or a b = to_int32 (a OR b)"

definition js_xor :: "int \<Rightarrow> int \<Rightarrow> int" where
  "js_xor a b = to_int32 (a XOR b)"

definition js_shl :: "int \<Rightarrow> nat \<Rightarrow> int" where
  "js_shl a n = to_int32 (push_bit (n mod 32) a)"

text \<open>The test \<open>v & (1 << i)\<close> as a condition.\<close>

definition js_bit :: "int \<Rightarrow> nat \<Rightarrow> bool" where
  "js_bit v i = (js_and v (js_shl 1 i) \<noteq> 0)"

lemma to_int32_id: "- (2 ^ 31) \<le> a \<Longrightarrow> a < 2 ^ 31 \<Longrightarrow> to_int32 a = a"
  unfolding to_int32_def by (rule signed_take_bit_int_eq_self) auto

lemma bit_to_int32: "bit (to_int32 a) i \<longleftrightarrow> bit a (min 31 i)"
  by (simp add: to_int32_def bit_signed_take_bit_iff)

lemma bit_js_shl_1: "i < 32 \<Longrightarrow> bit (js_shl 1 i) n \<longleftrightarrow> (min 31 n = i)"
  by (auto simp: js_shl_def bit_to_int32 push_bit_eq_mult bit_exp_iff)

lemma js_bit_iff: "i < 32 \<Longrightarrow> js_bit v i \<longleftrightarrow> bit v i"
proof -
  assume i: "i < 32"
  have "js_and v (js_shl 1 i) \<noteq> 0 \<longleftrightarrow> (\<exists>n. bit (js_and v (js_shl 1 i)) n)"
    by (metis bit_0_eq bot_apply bot_bool_def bit_eqI)
  also have "\<dots> \<longleftrightarrow> (\<exists>n. bit v (min 31 n) \<and> min 31 n = i)"
    using i by (simp add: js_and_def bit_to_int32 bit_and_iff bit_js_shl_1)
  also have "\<dots> \<longleftrightarrow> bit v i"
    using i by (auto intro: exI [of _ i] simp: min_absorb2 less_Suc_eq_le numeral_eq_Suc)
  finally show ?thesis by (simp add: js_bit_def)
qed

text \<open>Equations that evaluate the operators by division.\<close>

lemma to_int32_code [code]: "to_int32 a = (let r = a mod 4294967296 in if r < 2147483648 then r else r - 4294967296)"
proof -
  have "to_int32 a = (a + 2147483648) mod 4294967296 - 2147483648"
    by (simp add: to_int32_def signed_take_bit_eq_take_bit_shift take_bit_eq_mod)
  also have "(a + 2147483648) mod 4294967296 = (a mod 4294967296 + 2147483648) mod 4294967296"
    by (simp add: mod_add_left_eq)
  also have "\<dots> - 2147483648 = (let r = a mod 4294967296 in if r < 2147483648 then r else r - 4294967296)"
  proof (cases "a mod 4294967296 < 2147483648")
    case True
    moreover have "0 \<le> a mod 4294967296" by simp
    ultimately show ?thesis by (simp add: mod_pos_pos_trivial)
  next
    case False
    moreover have "a mod 4294967296 < 4294967296" by simp
    ultimately have "(a mod 4294967296 + 2147483648) mod 4294967296 = a mod 4294967296 - 2147483648"
      using mod_pos_pos_trivial [of "a mod 4294967296 - 2147483648" 4294967296]
        mod_add_self2 [of "a mod 4294967296 - 2147483648" 4294967296]
      by (simp add: add.commute)
    with False show ?thesis by simp
  qed
  finally show ?thesis .
qed

lemma js_shl_code [code]: "js_shl a n = to_int32 (a * 2 ^ (n mod 32))"
  by (simp add: js_shl_def push_bit_eq_mult)

lemma js_bit_code [code]: "js_bit v i = odd (v div 2 ^ (i mod 32))"
proof -
  have "js_bit v i = js_bit v (i mod 32)" by (simp add: js_bit_def js_shl_def)
  then show ?thesis by (simp add: js_bit_iff bit_iff_odd)
qed

end
