(* ===== verification/Digits.thy ===== *)
theory Digits
  imports Prelude
begin

text \<open>
  Digit strings: \<open>toString\<close>, \<open>BigInt\<close>, \<open>padStart\<close> and the regular expressions the code
  tests strings with. A JavaScript string is a \<open>string\<close>; the strings the code looks into
  are digits, hexadecimal text and ASCII labels.

  The interface of a textual codec (locale \<open>codec\<close>) says that reading what was written
  gives the value back; its lemmas are used wherever values cross a JSON or ABI boundary.
\<close>

section \<open>The codec interface\<close>

locale codec =
  fixes enc :: "'a \<Rightarrow> 'b"
    and dec :: "'b \<Rightarrow> 'a option"
    and dom_ok :: "'a \<Rightarrow> bool"
  assumes dec_enc: "dom_ok x \<Longrightarrow> dec (enc x) = Some x"
begin

lemma enc_inject: "dom_ok x \<Longrightarrow> dom_ok y \<Longrightarrow> enc x = enc y \<longleftrightarrow> x = y"
  by (metis dec_enc option.inject)

lemma dec_map_enc: "list_all dom_ok xs \<Longrightarrow> map (\<lambda>x. dec (enc x)) xs = map Some xs"
  by (induction xs) (auto simp: dec_enc)

lemma enc_neq: "dom_ok x \<Longrightarrow> dom_ok y \<Longrightarrow> x \<noteq> y \<Longrightarrow> enc x \<noteq> enc y"
  by (simp add: enc_inject)

end

text \<open>A codec whose decoder accepts nothing but what the encoder writes.\<close>

locale canonical_codec = codec +
  assumes enc_dec: "dec s = Some x \<Longrightarrow> dom_ok x \<and> enc x = s"
begin

lemma dec_inject: "dec s = Some x \<Longrightarrow> dec t = Some x \<Longrightarrow> s = t"
  using enc_dec by metis

lemma dec_eq_iff: "dec s = Some x \<longleftrightarrow> dom_ok x \<and> s = enc x"
  using enc_dec dec_enc by metis

end

section \<open>Numbers in a base\<close>

function to_base :: "nat \<Rightarrow> nat \<Rightarrow> nat list" where
  "to_base b n = (if b < 2 \<or> n < b then [n] else to_base b (n div b) @ [n mod b])"
  by pat_completeness auto
termination
  by (relation "measure snd") auto

declare to_base.simps [simp del]

definition from_base :: "nat \<Rightarrow> nat list \<Rightarrow> nat" where
  "from_base b ds = foldl (\<lambda>a d. b * a + d) 0 ds"

lemma from_base_Nil [simp]: "from_base b [] = 0"
  by (simp add: from_base_def)

lemma from_base_snoc [simp]: "from_base b (ds @ [d]) = b * from_base b ds + d"
  by (simp add: from_base_def)

lemma from_base_single [simp]: "from_base b [d] = d"
  by (simp add: from_base_def)

lemma from_base_append: "from_base b (ds @ es) = b ^ length es * from_base b ds + from_base b es"
proof (induction es rule: rev_induct)
  case Nil
  then show ?case by simp
next
  case (snoc e es)
  then show ?case
    by (simp add: append_assoc [symmetric] algebra_simps del: append_assoc)
qed

lemma from_base_zeros: "from_base b (replicate k 0 @ ds) = from_base b ds"
proof -
  have "from_base b (replicate k 0) = 0"
    by (induction k) (simp_all add: from_base_def)
  then show ?thesis by (simp add: from_base_append)
qed

lemma from_base_less: "\<forall>d\<in>set ds. d < b \<Longrightarrow> from_base b ds < b ^ length ds"
proof (induction ds rule: rev_induct)
  case Nil
  then show ?case by simp
next
  case (snoc d ds)
  then have ih: "Suc (from_base b ds) \<le> b ^ length ds" and d: "d < b" by auto
  have "b * from_base b ds + d < b * from_base b ds + b" using d by simp
  also have "\<dots> = b * Suc (from_base b ds)" by simp
  also have "\<dots> \<le> b * b ^ length ds" using ih by (rule mult_le_mono2)
  finally show ?case by simp
qed

text \<open>A digit list with no superfluous leading zero.\<close>

definition canon_digits :: "nat \<Rightarrow> nat list \<Rightarrow> bool" where
  "canon_digits b ds = (ds \<noteq> [] \<and> list_all (\<lambda>d. d < b) ds \<and> (hd ds = 0 \<longrightarrow> length ds = 1))"

lemma to_base_nonempty [simp]: "to_base b n \<noteq> []"
  by (subst to_base.simps) simp

lemma from_to_base: "2 \<le> b \<Longrightarrow> from_base b (to_base b n) = n"
proof (induction b n rule: to_base.induct)
  case (1 b n)
  then show ?case by (subst to_base.simps) auto
qed

lemma to_base_digits: "2 \<le> b \<Longrightarrow> \<forall>d\<in>set (to_base b n). d < b"
proof (induction b n rule: to_base.induct)
  case (1 b n)
  then show ?case by (subst to_base.simps) auto
qed

lemma hd_to_base: "2 \<le> b \<Longrightarrow> hd (to_base b n) = 0 \<Longrightarrow> n = 0"
proof (induction b n rule: to_base.induct)
  case (1 b n)
  show ?case
  proof (cases "n < b")
    case True
    with 1 show ?thesis by (simp add: to_base.simps [of b n])
  next
    case False
    with 1 have "hd (to_base b (n div b)) = 0" by (simp add: to_base.simps [of b n])
    with 1 False have "n div b = 0" by auto
    with False 1 show ?thesis by (simp add: div_eq_0_iff)
  qed
qed

lemma canon_to_base: "2 \<le> b \<Longrightarrow> canon_digits b (to_base b n)"
proof -
  assume b: "2 \<le> b"
  have "length (to_base b n) = 1" if "hd (to_base b n) = 0"
    using hd_to_base [OF b that] b by (simp add: to_base.simps)
  then show ?thesis
    using to_base_digits [OF b, of n] by (simp add: canon_digits_def list_all_iff)
qed

lemma canon_snoc:
  assumes "canon_digits b (ds @ [d])" and "ds \<noteq> []"
  shows "canon_digits b ds \<and> 0 < from_base b ds \<and> d < b"
proof -
  have digits: "\<forall>x\<in>set ds. x < b" "d < b" and hd: "hd ds \<noteq> 0"
    using assms by (auto simp: canon_digits_def list_all_iff)
  obtain h t where ds: "ds = h # t" using assms(2) by (cases ds) auto
  have "0 < b" using digits(2) by simp
  then have "0 < from_base b ds"
    using hd from_base_append [of b "[h]" t] by (simp add: ds)
  then show ?thesis using assms(2) digits hd by (simp add: canon_digits_def list_all_iff)
qed

lemma to_from_base: "2 \<le> b \<Longrightarrow> canon_digits b ds \<Longrightarrow> to_base b (from_base b ds) = ds"
proof (induction ds rule: rev_induct)
  case Nil
  then show ?case by (simp add: canon_digits_def)
next
  case (snoc d ds)
  show ?case
  proof (cases "ds = []")
    case True
    with snoc.prems show ?thesis by (simp add: canon_digits_def to_base.simps)
  next
    case False
    note c = canon_snoc [OF snoc.prems(2) False]
    let ?m = "from_base b ds"
    have big: "\<not> b * ?m + d < b" using c by (cases ?m) auto
    have "to_base b (b * ?m + d) = to_base b ((b * ?m + d) div b) @ [(b * ?m + d) mod b]"
      using big snoc.prems(1) by (subst to_base.simps) simp
    also have "\<dots> = to_base b ?m @ [d]" using c snoc.prems(1) by simp
    also have "\<dots> = ds @ [d]" using snoc.IH c snoc.prems(1) by simp
    finally show ?thesis by simp
  qed
qed

lemma length_to_base: "2 \<le> b \<Longrightarrow> n < b ^ k \<Longrightarrow> 0 < k \<Longrightarrow> length (to_base b n) \<le> k"
proof (induction b n arbitrary: k rule: to_base.induct)
  case (1 b n)
  show ?case
  proof (cases "n < b")
    case True
    with 1 show ?thesis by (simp add: to_base.simps [of b n])
  next
    case False
    have k: "1 < k"
    proof (rule ccontr)
      assume "\<not> 1 < k"
      with 1 have "k = 1" by simp
      with 1 False show False by simp
    qed
    then obtain k' where k': "k = Suc k'" "0 < k'" by (cases k) auto
    have "n div b < b ^ k'" using 1 k' by (simp add: less_mult_imp_div_less mult.commute)
    then have "length (to_base b (n div b)) \<le> k'" using "1.IH" [of k'] 1 False k' by simp
    with k' False 1 show ?thesis by (simp add: to_base.simps [of b n])
  qed
qed

section \<open>Characters and regular expressions\<close>

definition code :: "char \<Rightarrow> nat" where
  "code c = of_char c"

definition digit_char :: "nat \<Rightarrow> char" where
  "digit_char d = char_of (if d < 10 then 48 + d else 87 + d)"

definition digit_val :: "char \<Rightarrow> nat" where
  "digit_val c = (let k = code c in
     if 48 \<le> k \<and> k \<le> 57 then k - 48
     else if 97 \<le> k \<and> k \<le> 102 then k - 87
     else if 65 \<le> k \<and> k \<le> 70 then k - 55 else 0)"

text \<open>\<open>[0-9]\<close>, \<open>[0-9a-f]\<close> and \<open>[0-9a-fA-F]\<close>.\<close>

definition is_dec :: "char \<Rightarrow> bool" where
  "is_dec c = (48 \<le> code c \<and> code c \<le> 57)"

definition is_lhex :: "char \<Rightarrow> bool" where
  "is_lhex c = (is_dec c \<or> 97 \<le> code c \<and> code c \<le> 102)"

definition is_hex :: "char \<Rightarrow> bool" where
  "is_hex c = (is_lhex c \<or> 65 \<le> code c \<and> code c \<le> 70)"

lemma code_char_of: "n < 256 \<Longrightarrow> code (char_of n) = n"
  by (simp add: code_def)

lemma code_inject: "code c = code d \<longleftrightarrow> c = d"
  by (simp add: code_def)

lemma code_digit_char: "d < 16 \<Longrightarrow> code (digit_char d) = (if d < 10 then 48 + d else 87 + d)"
  by (simp add: digit_char_def code_char_of)

lemma digit_val_char [simp]: "d < 16 \<Longrightarrow> digit_val (digit_char d) = d"
  by (auto simp: digit_val_def code_digit_char Let_def)

lemma is_lhex_digit_char [simp]: "d < 16 \<Longrightarrow> is_lhex (digit_char d)"
  by (auto simp: is_lhex_def is_dec_def code_digit_char)

lemma is_dec_digit_char: "d < 16 \<Longrightarrow> is_dec (digit_char d) \<longleftrightarrow> d < 10"
  by (auto simp: is_dec_def code_digit_char)

lemma digit_val_lhex: "is_lhex c \<Longrightarrow> digit_val c < 16"
  by (auto simp: is_lhex_def is_dec_def digit_val_def Let_def)

lemma digit_val_dec: "is_dec c \<Longrightarrow> digit_val c < 10"
  by (auto simp: is_dec_def digit_val_def Let_def)

lemma is_dec_imp_lhex: "is_dec c \<Longrightarrow> is_lhex c"
  by (simp add: is_lhex_def)

lemma digit_char_val [simp]: "is_lhex c \<Longrightarrow> digit_char (digit_val c) = c"
proof -
  assume c: "is_lhex c"
  have "code (digit_char (digit_val c)) = code c"
    using c digit_val_lhex [OF c]
    by (simp add: code_digit_char) (auto simp: is_lhex_def is_dec_def digit_val_def Let_def)
  then show ?thesis by (simp add: code_inject)
qed

lemma digit_char_0 [simp]: "digit_char 0 = CHR ''0''"
  by (simp add: digit_char_def char_of_def bit_numeral_rec bit_0)

lemma digit_char_eq_0: "d < 16 \<Longrightarrow> digit_char d = CHR ''0'' \<longleftrightarrow> d = 0"
  using digit_val_char [of d] digit_val_char [of 0] by (metis digit_char_0 zero_less_numeral)

lemma digit_val_0 [simp]: "digit_val CHR ''0'' = 0"
  using digit_val_char [of 0] by simp

lemma is_lhex_0 [simp]: "is_lhex CHR ''0''"
  using is_lhex_digit_char [of 0] by simp

lemma is_dec_0 [simp]: "is_dec CHR ''0''"
  using is_dec_digit_char [of 0] by simp

section \<open>Decimal strings\<close>

text \<open>\<open>BigInt.prototype.toString\<close> of a non-negative and of any integer.\<close>

definition nat_str :: "nat \<Rightarrow> string" where
  "nat_str n = map digit_char (to_base 10 n)"

definition int_str :: "int \<Rightarrow> string" where
  "int_str i = (if i < 0 then CHR ''-'' # nat_str (nat (- i)) else nat_str (nat i))"

text \<open>\<open>BigInt(s)\<close> of a string of decimal digits.\<close>

definition str_nat :: "string \<Rightarrow> nat" where
  "str_nat s = from_base 10 (map digit_val s)"

text \<open>
  \<open>/^(0|[1-9][0-9]*)$/\<close>; with \<open>k\<close>, \<open>/^(0|[1-9][0-9]{0,k})$/\<close>. (A JavaScript \<open>$\<close>
  without the m flag matches at the end of the string only.)
\<close>

definition is_canon_dec :: "string \<Rightarrow> bool" where
  "is_canon_dec s = (s \<noteq> [] \<and> list_all is_dec s \<and> (hd s = CHR ''0'' \<longrightarrow> length s = 1))"

definition is_canon_dec_upto :: "nat \<Rightarrow> string \<Rightarrow> bool" where
  "is_canon_dec_upto k s = (is_canon_dec s \<and> length s \<le> k + 1)"

lemma is_canon_dec_iff: "is_canon_dec s \<longleftrightarrow> list_all is_dec s \<and> canon_digits 10 (map digit_val s)"
proof (cases s)
  case Nil
  then show ?thesis by (simp add: is_canon_dec_def canon_digits_def)
next
  case (Cons c cs)
  have "list_all (\<lambda>d. d < 10) (map digit_val s)" if "list_all is_dec s"
    using that by (auto simp: list_all_iff intro: digit_val_dec)
  moreover have "digit_val c = 0 \<longleftrightarrow> c = CHR ''0''" if "is_dec c"
    using that by (metis digit_char_val digit_char_0 is_dec_imp_lhex digit_val_0)
  ultimately show ?thesis using Cons by (auto simp: is_canon_dec_def canon_digits_def)
qed

lemma map_digit_char_val: "list_all is_lhex s \<Longrightarrow> map digit_char (map digit_val s) = s"
  by (induction s) auto

lemma map_digit_val_char: "\<forall>d\<in>set ds. d < 16 \<Longrightarrow> map digit_val (map digit_char ds) = ds"
  by (induction ds) auto

lemma to_base_10_less_16: "\<forall>d\<in>set (to_base 10 n). d < 16"
  using to_base_digits [of 10 n] by auto

lemma canon_nat_str [simp]: "is_canon_dec (nat_str n)"
proof -
  have "list_all is_dec (nat_str n)"
    using to_base_digits [of 10 n] by (auto simp: nat_str_def list_all_iff is_dec_digit_char)
  moreover have "map digit_val (nat_str n) = to_base 10 n"
    unfolding nat_str_def by (rule map_digit_val_char [OF to_base_10_less_16])
  ultimately show ?thesis by (simp add: is_canon_dec_iff canon_to_base)
qed

lemma str_nat_str [simp]: "str_nat (nat_str n) = n"
  unfolding str_nat_def nat_str_def
  by (simp only: map_digit_val_char [OF to_base_10_less_16]) (simp add: from_to_base)

lemma nat_str_nat [simp]: "is_canon_dec s \<Longrightarrow> nat_str (str_nat s) = s"
proof -
  assume s: "is_canon_dec s"
  then have "list_all is_lhex s"
    by (auto simp: is_canon_dec_iff list_all_iff is_dec_imp_lhex)
  with s show ?thesis
    by (simp add: nat_str_def str_nat_def is_canon_dec_iff to_from_base map_digit_char_val
        del: map_map)
qed

lemma nat_str_inject [simp]: "nat_str m = nat_str n \<longleftrightarrow> m = n"
  by (metis str_nat_str)

lemma nat_str_nonempty [simp]: "nat_str n \<noteq> []"
  by (simp add: nat_str_def)

lemma length_nat_str: "n < 10 ^ k \<Longrightarrow> 0 < k \<Longrightarrow> length (nat_str n) \<le> k"
  by (simp add: nat_str_def length_to_base)

lemma str_nat_append: "str_nat (s @ t) = str_nat s * 10 ^ length t + str_nat t"
  by (simp add: str_nat_def from_base_append mult.commute)

lemma str_nat_less: "list_all is_dec s \<Longrightarrow> str_nat s < 10 ^ length s"
  using from_base_less [of "map digit_val s" 10]
  by (auto simp: str_nat_def list_all_iff digit_val_dec)

lemma nat_str_all_dec: "list_all is_dec (nat_str n)"
  using canon_nat_str [of n] by (simp add: is_canon_dec_def)

lemma nat_str_no_minus: "hd (nat_str n) \<noteq> CHR ''-''"
proof
  assume h: "hd (nat_str n) = CHR ''-''"
  have "is_dec (hd (nat_str n))"
    using nat_str_all_dec [of n] by (cases "nat_str n") auto
  with h show False by (simp add: is_dec_def code_def)
qed

lemma int_str_inject: "int_str i = int_str j \<longleftrightarrow> i = j"
proof -
  have "nat_str m \<noteq> CHR ''-'' # s" for m s
    using nat_str_no_minus [of m] by auto
  then show ?thesis
    by (auto simp: int_str_def dest: not_sym)
qed

section \<open>Hexadecimal strings\<close>

definition hex_str :: "nat \<Rightarrow> string" where
  "hex_str n = map digit_char (to_base 16 n)"

definition hex_val :: "string \<Rightarrow> nat" where
  "hex_val s = from_base 16 (map digit_val s)"

text \<open>\<open>s.padStart(n, '0')\<close>.\<close>

definition pad_start :: "nat \<Rightarrow> string \<Rightarrow> string" where
  "pad_start n s = replicate (n - length s) CHR ''0'' @ s"

lemma length_pad_start: "length s \<le> n \<Longrightarrow> length (pad_start n s) = n"
  by (simp add: pad_start_def)

lemma hex_val_pad [simp]: "hex_val (pad_start n s) = hex_val s"
  by (simp add: hex_val_def pad_start_def from_base_zeros)

lemma to_base_16_less: "\<forall>d\<in>set (to_base 16 n). d < 16"
  using to_base_digits [of 16 n] by auto

lemma hex_val_str [simp]: "hex_val (hex_str n) = n"
  unfolding hex_val_def hex_str_def
  by (simp only: map_digit_val_char [OF to_base_16_less]) (simp add: from_to_base)

lemma hex_str_all: "list_all is_lhex (hex_str n)"
  using to_base_16_less [of n] by (auto simp: hex_str_def list_all_iff)

lemma length_hex_str: "n < 16 ^ k \<Longrightarrow> 0 < k \<Longrightarrow> length (hex_str n) \<le> k"
  by (simp add: hex_str_def length_to_base)

lemma hex_val_less: "list_all is_lhex s \<Longrightarrow> hex_val s < 16 ^ length s"
  using from_base_less [of "map digit_val s" 16]
  by (auto simp: hex_val_def list_all_iff digit_val_lhex)

lemma from_base_inject:
  "length ds = length es \<Longrightarrow> \<forall>d\<in>set ds. d < b \<Longrightarrow> \<forall>d\<in>set es. d < b \<Longrightarrow>
    from_base b ds = from_base b es \<Longrightarrow> ds = es"
proof (induction ds arbitrary: es rule: rev_induct)
  case Nil
  then show ?case by simp
next
  case (snoc d ds)
  from snoc.prems(1) obtain e es' where es: "es = es' @ [e]"
    by (cases es rule: rev_cases) auto
  have eq: "b * from_base b ds + d = b * from_base b es' + e" and lt: "d < b" "e < b"
    using snoc.prems es by auto
  have "d = e" using arg_cong [OF eq, of "\<lambda>x. x mod b"] lt by simp
  moreover have "from_base b ds = from_base b es'"
    using arg_cong [OF eq, of "\<lambda>x. x div b"] lt by simp
  ultimately show ?case using snoc.IH [of es'] snoc.prems es by auto
qed

lemma hex_val_inject:
  assumes "length s = length t" "list_all is_lhex s" "list_all is_lhex t" "hex_val s = hex_val t"
  shows "s = t"
proof -
  have "map digit_val s = map digit_val t"
    using assms by (intro from_base_inject [of _ _ 16])
      (auto simp: hex_val_def list_all_iff digit_val_lhex)
  then show ?thesis using map_digit_char_val assms by metis
qed

lemma pad_hex_val: "list_all is_lhex s \<Longrightarrow> length s = n \<Longrightarrow> 0 < n \<Longrightarrow> pad_start n (hex_str (hex_val s)) = s"
proof -
  assume s: "list_all is_lhex s" "length s = n" "0 < n"
  have "length (hex_str (hex_val s)) \<le> n"
    using s hex_val_less [OF s(1)] by (simp add: length_hex_str)
  moreover have "list_all is_lhex (pad_start n (hex_str (hex_val s)))"
    using hex_str_all by (auto simp: pad_start_def list_all_iff)
  ultimately show ?thesis
    using s by (intro hex_val_inject) (simp_all add: length_pad_start)
qed

text \<open>\<open>/^0x[0-9a-f]{n}$/\<close> and \<open>/^0x[0-9a-fA-F]{n}$/\<close>.\<close>

definition is_0x_lhex :: "nat \<Rightarrow> string \<Rightarrow> bool" where
  "is_0x_lhex n s = (take 2 s = ''0x'' \<and> length s = n + 2 \<and> list_all is_lhex (drop 2 s))"

definition is_0x_hex :: "nat \<Rightarrow> string \<Rightarrow> bool" where
  "is_0x_hex n s = (take 2 s = ''0x'' \<and> length s = n + 2 \<and> list_all is_hex (drop 2 s))"

text \<open>\<open>/^[0-9a-f]{n}$/\<close>.\<close>

definition is_lhex_n :: "nat \<Rightarrow> string \<Rightarrow> bool" where
  "is_lhex_n n s = (length s = n \<and> list_all is_lhex s)"

text \<open>\<open>toLowerCase\<close> on ASCII text.\<close>

definition lower_char :: "char \<Rightarrow> char" where
  "lower_char c = (if 65 \<le> code c \<and> code c \<le> 90 then char_of (code c + 32) else c)"

definition lower :: "string \<Rightarrow> string" where
  "lower s = map lower_char s"

lemma length_lower [simp]: "length (lower s) = length s"
  by (simp add: lower_def)

lemma lower_char_lhex [simp]: "is_lhex c \<Longrightarrow> lower_char c = c"
  by (auto simp: lower_char_def is_lhex_def is_dec_def)

lemma lower_char_hex: "is_hex c \<Longrightarrow> is_lhex (lower_char c)"
  by (auto simp: lower_char_def is_hex_def is_lhex_def is_dec_def code_char_of)

lemma lower_char_idem [simp]: "lower_char (lower_char c) = lower_char c"
  by (auto simp: lower_char_def code_char_of)

lemma lower_idem [simp]: "lower (lower s) = lower s"
  by (simp add: lower_def)

lemma lower_lhex: "list_all is_lhex s \<Longrightarrow> lower s = s"
  by (induction s) (auto simp: lower_def)

lemma lower_0x_lhex [simp]: "is_0x_lhex n s \<Longrightarrow> lower s = s"
proof -
  assume s: "is_0x_lhex n s"
  then have "s = ''0x'' @ drop 2 s" by (metis append_take_drop_id is_0x_lhex_def)
  then obtain t where t: "s = ''0x'' @ t" "list_all is_lhex t"
    using s by (auto simp: is_0x_lhex_def)
  have "lower_char CHR ''0'' = CHR ''0''" "lower_char CHR ''x'' = CHR ''x''"
    by (simp_all add: lower_char_def code_def)
  with t lower_lhex [OF t(2)] show ?thesis by (simp add: lower_def)
qed

end
