(* ===== verification/Amounts.thy ===== *)
theory Amounts
  imports Digits
begin

text \<open>
  Exact token amounts: packages/sdk/src/amounts.ts, and the limit arithmetic of
  packages/sdk/src/protocol.ts. Amounts are bigints (\<open>int\<close>) inside and decimal strings
  at the JSON boundary. Bigint division truncates towards zero.
\<close>

section \<open>Bigint division\<close>

definition tdiv :: "int \<Rightarrow> int \<Rightarrow> int" where
  "tdiv a b = sgn a * sgn b * (\<bar>a\<bar> div \<bar>b\<bar>)"

definition tmod :: "int \<Rightarrow> int \<Rightarrow> int" where
  "tmod a b = a - b * tdiv a b"

text \<open>\<open>a / b\<close> on bigints throws a \<open>RangeError\<close> when \<open>b\<close> is zero.\<close>

definition big_div :: "int \<Rightarrow> int \<Rightarrow> int res" where
  "big_div a b = (if b = 0 then Inl (Other_error ''RangeError'') else ok (tdiv a b))"

lemma tdiv_nonneg [simp]: "0 \<le> a \<Longrightarrow> 0 < b \<Longrightarrow> tdiv a b = a div b"
  by (cases "a = 0") (simp_all add: tdiv_def)

lemma tmod_nonneg [simp]: "0 \<le> a \<Longrightarrow> 0 < b \<Longrightarrow> tmod a b = a mod b"
  by (simp add: tmod_def minus_mult_div_eq_mod)

lemma tdiv_neg: "a < 0 \<Longrightarrow> 0 < b \<Longrightarrow> tdiv a b = - ((- a) div b)"
  by (simp add: tdiv_def)

lemma big_div_pos [simp]: "0 < b \<Longrightarrow> big_div a b = ok (tdiv a b)"
  by (simp add: big_div_def)

section \<open>Constants\<close>

definition UINT128_MAX :: int where
  "UINT128_MAX = 2 ^ 128 - 1"

definition AUSD_DECIMALS :: nat where
  "AUSD_DECIMALS = 6"

definition ONE_SHARE :: int where
  "ONE_SHARE = 1000000"

definition PPM :: int where
  "PPM = 1000000"

section \<open>Atoms as decimal strings\<close>

definition parseAtoms :: "json \<Rightarrow> int res" where
  "parseAtoms v = (case v of
     JStr s \<Rightarrow>
       (if \<not> is_canon_dec_upto 38 s then throw Invalid_input
        else let atoms = int (str_nat s) in
          if atoms > UINT128_MAX then throw Invalid_input else ok atoms)
   | _ \<Rightarrow> throw Invalid_input)"

definition atomsToString :: "int \<Rightarrow> string res" where
  "atomsToString atoms = (if atoms < 0 then throw Invalid_input else ok (int_str atoms))"

text \<open>\<open>BigInt(s)\<close> of an optionally negative digit string.\<close>

definition str_int :: "string \<Rightarrow> int" where
  "str_int s = (if s \<noteq> [] \<and> hd s = CHR ''-'' then - int (str_nat (tl s)) else int (str_nat s))"

definition unsigned_part :: "string \<Rightarrow> string" where
  "unsigned_part s = (if s \<noteq> [] \<and> hd s = CHR ''-'' then tl s else s)"

definition parseSignedAtoms :: "json \<Rightarrow> int res" where
  "parseSignedAtoms v = (case v of
     JStr s \<Rightarrow>
       (if \<not> is_canon_dec_upto 38 (unsigned_part s) \<or> s = ''-0'' then throw Invalid_input
        else ok (str_int s))
   | _ \<Rightarrow> throw Invalid_input)"

text \<open>White space as \<open>trim\<close> removes it (within Latin-1).\<close>

definition is_ws :: "char \<Rightarrow> bool" where
  "is_ws c = (9 \<le> code c \<and> code c \<le> 13 \<or> code c = 32 \<or> code c = 160)"

definition js_trim :: "string \<Rightarrow> string" where
  "js_trim s = rev (dropWhile is_ws (rev (dropWhile is_ws s)))"

text \<open>
  The integer a string spells for \<open>BigInt\<close> and \<open>Number\<close>: blank, an optionally signed run of
  digits, or unsigned digits after 0x, 0o or 0b.
\<close>

definition prefixed :: "char \<Rightarrow> char \<Rightarrow> string \<Rightarrow> bool" where
  "prefixed c d t = (take 2 t = [CHR ''0'', c] \<or> take 2 t = [CHR ''0'', d])"

definition str_integer :: "string \<Rightarrow> int option" where
  "str_integer s = (let t = js_trim s; r = drop 2 t in
     if t = [] then Some 0
     else if list_all is_dec t then Some (int (str_nat t))
     else if hd t = CHR ''-'' \<and> tl t \<noteq> [] \<and> list_all is_dec (tl t) then Some (- int (str_nat (tl t)))
     else if hd t = CHR ''+'' \<and> tl t \<noteq> [] \<and> list_all is_dec (tl t) then Some (int (str_nat (tl t)))
     else if prefixed CHR ''x'' CHR ''X'' t \<and> r \<noteq> [] \<and> list_all is_hex r then Some (int (hex_val r))
     else if prefixed CHR ''o'' CHR ''O'' t \<and> r \<noteq> [] \<and> list_all (\<lambda>c. is_dec c \<and> digit_val c < 8) r
       then Some (int (from_base 8 (map digit_val r)))
     else if prefixed CHR ''b'' CHR ''B'' t \<and> r \<noteq> [] \<and> list_all (\<lambda>c. is_dec c \<and> digit_val c < 2) r
       then Some (int (from_base 2 (map digit_val r)))
     else None)"

text \<open>\<open>BigInt(s)\<close> of a string: a \<open>SyntaxError\<close> unless it spells an integer.\<close>

definition big_of_string :: "string \<Rightarrow> int res" where
  "big_of_string s = (case str_integer s of Some i \<Rightarrow> ok i | None \<Rightarrow> Inl (Other_error ''SyntaxError''))"

text \<open>\<open>s.padEnd(n, '0')\<close>.\<close>

definition pad_end :: "nat \<Rightarrow> string \<Rightarrow> string" where
  "pad_end n s = s @ replicate (n - length s) CHR ''0''"

text \<open>The two groups of \<open>/^(0|[1-9][0-9]{0,30})(?:\.([0-9]+))?$/\<close>, or None for no match.\<close>

definition match_decimal :: "string \<Rightarrow> (string \<times> string) option" where
  "match_decimal s =
     (let whole = takeWhile (\<lambda>c. c \<noteq> CHR ''.'') s; rest = dropWhile (\<lambda>c. c \<noteq> CHR ''.'') s in
      if \<not> is_canon_dec_upto 30 whole then None
      else (case rest of
          [] \<Rightarrow> Some (whole, [])
        | _ # f \<Rightarrow> if f \<noteq> [] \<and> list_all is_dec f then Some (whole, f) else None))"

definition parseDecimal :: "string \<Rightarrow> nat \<Rightarrow> int res" where
  "parseDecimal v decimals = (case match_decimal (js_trim v) of
     None \<Rightarrow> throw Invalid_input
   | Some (whole, fraction) \<Rightarrow>
       (if length fraction > decimals then throw Invalid_input
        else ok (int (str_nat whole) * 10 ^ decimals + int (str_nat (pad_end decimals fraction)))))"

text \<open>\<open>s.replace(/0+$/, '')\<close>.\<close>

definition strip_zeros :: "string \<Rightarrow> string" where
  "strip_zeros s = rev (dropWhile (\<lambda>c. c = CHR ''0'') (rev s))"

definition formatAtoms :: "int \<Rightarrow> nat \<Rightarrow> string" where
  "formatAtoms atoms decimals =
     (let negative = atoms < 0;
          v = (if negative then - atoms else atoms);
          unit = 10 ^ decimals;
          whole = tdiv v unit;
          fraction = strip_zeros (pad_start decimals (int_str (tmod v unit)))
      in (if negative then ''-'' else []) @ int_str whole
         @ (if fraction \<noteq> [] then CHR ''.'' # fraction else []))"

definition ceilDiv :: "int \<Rightarrow> int \<Rightarrow> int res" where
  "ceilDiv a b = (if b \<le> 0 \<or> a < 0 then throw Invalid_input else ok (tdiv (a + b - 1) b))"

definition formatPpm :: "int \<Rightarrow> string" where
  "formatPpm ppm =
     (let tenths = tdiv (ppm * 1000 + tdiv PPM 2) PPM
      in int_str (tdiv tenths 10) @ ''.'' @ int_str (tmod tenths 10) @ ''%'')"

section \<open>Limit arithmetic (protocol.ts)\<close>

definition buyLimit :: "int \<Rightarrow> int \<Rightarrow> int" where
  "buyLimit quote bps = tdiv (quote * (10000 + bps) + 9999) 10000"

definition sellMinimum :: "int \<Rightarrow> int \<Rightarrow> int" where
  "sellMinimum quote bps = tdiv (quote * (10000 - bps)) 10000"

section \<open>Lemmas\<close>

lemma UINT128_MAX_less: "a \<le> UINT128_MAX \<Longrightarrow> nat a < 10 ^ 39"
  by (simp add: UINT128_MAX_def)

lemma str_int_nat_str: "str_int (nat_str n) = int n"
  using nat_str_no_minus [of n] by (simp add: str_int_def)

lemma str_int_int_str [simp]: "str_int (int_str i) = i"
  by (cases "i < 0") (auto simp: int_str_def str_int_def nat_str_no_minus)

lemma int_str_nonneg: "0 \<le> i \<Longrightarrow> int_str i = nat_str (nat i)"
  by (simp add: int_str_def)

lemma unsigned_part_int_str: "unsigned_part (int_str i) = nat_str (nat \<bar>i\<bar>)"
  using nat_str_no_minus [of "nat i"] by (auto simp: unsigned_part_def int_str_def)

lemma canon_upto_nat_str: "n < 10 ^ (k + 1) \<Longrightarrow> is_canon_dec_upto k (nat_str n)"
  unfolding is_canon_dec_upto_def using length_nat_str [of n "k + 1"] by simp

text \<open>The decimal codec of amounts, as an instance of the codec interface.\<close>

definition atoms_in_range :: "int \<Rightarrow> bool" where
  "atoms_in_range a = (0 \<le> a \<and> a \<le> UINT128_MAX)"

definition read_atoms :: "string \<Rightarrow> int option" where
  "read_atoms s = (case parseAtoms (JStr s) of Inl _ \<Rightarrow> None | Inr a \<Rightarrow> Some a)"

lemma parseAtoms_int_str:
  assumes "atoms_in_range a"
  shows "parseAtoms (JStr (int_str a)) = ok a"
proof -
  have s: "int_str a = nat_str (nat a)" using assms by (simp add: int_str_def atoms_in_range_def)
  have "nat a < 10 ^ (38 + 1)"
    using assms UINT128_MAX_less [of a] by (simp add: atoms_in_range_def)
  then have "is_canon_dec_upto 38 (int_str a)" unfolding s by (rule canon_upto_nat_str)
  with assms show ?thesis by (simp add: parseAtoms_def s atoms_in_range_def Let_def)
qed

lemma parseAtoms_okD:
  assumes "parseAtoms v = ok a"
  shows "v = JStr (int_str a) \<and> atoms_in_range a"
  using assms
  by (auto simp: parseAtoms_def Let_def is_canon_dec_upto_def int_str_def atoms_in_range_def
      split: json.splits if_splits)

interpretation atoms_codec: canonical_codec int_str read_atoms atoms_in_range
proof unfold_locales
  fix x assume "atoms_in_range x"
  then show "read_atoms (int_str x) = Some x" by (simp add: read_atoms_def parseAtoms_int_str)
next
  fix s x assume "read_atoms s = Some x"
  then have "parseAtoms (JStr s) = ok x" by (auto simp: read_atoms_def split: sum.splits)
  then show "atoms_in_range x \<and> int_str x = s" by (auto dest: parseAtoms_okD)
qed

lemma parseSignedAtoms_int_str:
  assumes "\<bar>a\<bar> < 10 ^ 39"
  shows "parseSignedAtoms (JStr (int_str a)) = ok a"
proof -
  have "nat \<bar>a\<bar> < 10 ^ (38 + 1)" using assms by simp
  then have "is_canon_dec_upto 38 (unsigned_part (int_str a))"
    unfolding unsigned_part_int_str by (rule canon_upto_nat_str)
  moreover have "int_str a \<noteq> ''-0''"
  proof
    assume e: "int_str a = ''-0''"
    then have "str_int (int_str a) = 0" by (simp add: str_int_def str_nat_def)
    then have "a = 0" by simp
    then show False using e nat_str_no_minus [of 0] by (simp add: int_str_def)
  qed
  ultimately show ?thesis by (simp add: parseSignedAtoms_def)
qed

lemma ceilDiv_ok_iff:
  "ceilDiv a b = ok q \<longleftrightarrow> 0 < b \<and> 0 \<le> a \<and> a \<le> q * b \<and> (q - 1) * b < a"
proof (cases "0 < b \<and> 0 \<le> a")
  case True
  then have "tdiv (a + b - 1) b = (a + b - 1) div b" by simp
  moreover have "(a + b - 1) div b = q \<longleftrightarrow> a \<le> q * b \<and> (q - 1) * b < a"
  proof
    assume q: "(a + b - 1) div b = q"
    let ?r = "(a + b - 1) mod b"
    have "a + b - 1 = b * q + ?r" using q mult_div_mod_eq [of b "a + b - 1"] by simp
    moreover have "0 \<le> ?r \<and> ?r < b" using True by simp
    ultimately have "b * q \<le> a + b - 1 \<and> a + b - 1 < b * q + b" by linarith
    then show "a \<le> q * b \<and> (q - 1) * b < a" by (simp add: algebra_simps)
  next
    assume q: "a \<le> q * b \<and> (q - 1) * b < a"
    have "a + b - 1 = (a + b - 1 - q * b) + q * b" by simp
    moreover have "0 \<le> a + b - 1 - q * b" "a + b - 1 - q * b < b"
      using q by (simp_all add: algebra_simps)
    ultimately show "(a + b - 1) div b = q"
      using True by (metis div_mult_self3 div_pos_pos_trivial add.right_neutral less_irrefl add.commute)
  qed
  ultimately show ?thesis using True by (simp add: ceilDiv_def)
next
  case False
  then show ?thesis by (auto simp: ceilDiv_def)
qed

lemma buyLimit_ceilDiv:
  "0 \<le> quote \<Longrightarrow> 0 \<le> bps \<Longrightarrow> ceilDiv (quote * (10000 + bps)) 10000 = ok (buyLimit quote bps)"
  by (simp add: ceilDiv_def buyLimit_def add.commute not_less)

lemma buyLimit_ge: "0 \<le> quote \<Longrightarrow> 0 \<le> bps \<Longrightarrow> quote \<le> buyLimit quote bps"
proof -
  assume a: "0 \<le> quote" "0 \<le> bps"
  then have "quote * 10000 \<le> quote * (10000 + bps)" by (simp add: mult_left_mono)
  with a show ?thesis by (simp add: buyLimit_def)
qed

lemma sellMinimum_le: "0 \<le> quote \<Longrightarrow> 0 \<le> bps \<Longrightarrow> bps \<le> 10000 \<Longrightarrow> sellMinimum quote bps \<le> quote"
proof -
  assume a: "0 \<le> quote" "0 \<le> bps" "bps \<le> 10000"
  then have "quote * (10000 - bps) \<le> quote * 10000" by (simp add: mult_left_mono)
  with a show ?thesis by (simp add: sellMinimum_def)
qed

section \<open>Display and parsing of decimals\<close>

lemma is_dec_not_ws: "is_dec c \<Longrightarrow> \<not> is_ws c"
  by (auto simp: is_dec_def is_ws_def)

lemma is_dec_not_dot: "is_dec c \<Longrightarrow> c \<noteq> CHR ''.''"
  by (auto simp: is_dec_def code_def)

lemma js_trim_id:
  assumes "s \<noteq> []" "\<not> is_ws (hd s)" "\<not> is_ws (last s)"
  shows "js_trim s = s"
proof -
  have "dropWhile is_ws s = s" using assms(1,2) by (cases s) auto
  moreover have "dropWhile is_ws (rev s) = rev s"
    using assms(1,3) by (cases "rev s") (auto simp: hd_rev [symmetric] rev_swap)
  ultimately show ?thesis by (simp add: js_trim_def)
qed

lemma big_of_canon: "is_canon_dec s \<Longrightarrow> big_of_string s = ok (int (str_nat s))"
proof -
  assume s: "is_canon_dec s"
  then have "s \<noteq> []" "list_all is_dec s" by (simp_all add: is_canon_dec_def)
  then have "is_dec (hd s)" "is_dec (last s)" by (auto simp: list_all_iff)
  then have "js_trim s = s" using \<open>s \<noteq> []\<close> by (intro js_trim_id) (auto dest: is_dec_not_ws)
  then show ?thesis using \<open>s \<noteq> []\<close> \<open>list_all is_dec s\<close> by (simp add: big_of_string_def str_integer_def)
qed

lemma strip_zeros_append: "\<exists>k. s = strip_zeros s @ replicate k CHR ''0''"
proof -
  have "\<forall>c\<in>set (takeWhile (\<lambda>c. c = CHR ''0'') (rev s)). c = CHR ''0''"
    by (auto dest: set_takeWhileD)
  then have t: "takeWhile (\<lambda>c. c = CHR ''0'') (rev s)
      = replicate (length (takeWhile (\<lambda>c. c = CHR ''0'') (rev s))) CHR ''0''"
    by (simp add: list_eq_iff_nth_eq)
  have "rev s = takeWhile (\<lambda>c. c = CHR ''0'') (rev s) @ dropWhile (\<lambda>c. c = CHR ''0'') (rev s)"
    by simp
  then have "s = strip_zeros s @ rev (takeWhile (\<lambda>c. c = CHR ''0'') (rev s))"
    unfolding strip_zeros_def by (metis rev_append rev_rev_ident)
  with t show ?thesis by (metis rev_replicate)
qed

lemma pad_end_strip_zeros: "length s = n \<Longrightarrow> pad_end n (strip_zeros s) = s"
proof -
  assume n: "length s = n"
  obtain k where k: "s = strip_zeros s @ replicate k CHR ''0''" using strip_zeros_append by blast
  have "length s = length (strip_zeros s) + k" using k by (metis length_append length_replicate)
  with n have "n - length (strip_zeros s) = k" by simp
  with k show ?thesis by (simp add: pad_end_def)
qed

lemma strip_zeros_dec: "list_all is_dec s \<Longrightarrow> list_all is_dec (strip_zeros s)"
  using strip_zeros_append [of s] by (metis list_all_append)

lemma str_nat_pad_start [simp]: "str_nat (pad_start n s) = str_nat s"
  by (simp add: str_nat_def pad_start_def from_base_zeros)

lemma pad_start_dec: "list_all is_dec s \<Longrightarrow> list_all is_dec (pad_start n s)"
  by (auto simp: pad_start_def list_all_iff)

lemma match_decimal_join:
  assumes w: "is_canon_dec_upto 30 w" and f: "list_all is_dec f"
  shows "match_decimal (w @ (if f \<noteq> [] then CHR ''.'' # f else [])) = Some (w, f)"
proof -
  have nodot: "\<forall>c\<in>set w. c \<noteq> CHR ''.''"
    using w is_dec_not_dot by (auto simp: is_canon_dec_upto_def is_canon_dec_def list_all_iff)
  then have tw: "takeWhile (\<lambda>c. c \<noteq> CHR ''.'') (w @ r) = w @ takeWhile (\<lambda>c. c \<noteq> CHR ''.'') r"
    and dw: "dropWhile (\<lambda>c. c \<noteq> CHR ''.'') (w @ r) = dropWhile (\<lambda>c. c \<noteq> CHR ''.'') r" for r
    by (auto simp: takeWhile_append2 dropWhile_append2)
  show ?thesis using w f by (simp add: match_decimal_def tw dw Let_def)
qed

lemma parse_formatted:
  assumes w: "is_canon_dec_upto 30 w" and f: "list_all is_dec f" "length f \<le> d"
  shows "parseDecimal (w @ (if f \<noteq> [] then CHR ''.'' # f else [])) d
    = ok (int (str_nat w) * 10 ^ d + int (str_nat (pad_end d f)))"
proof -
  let ?s = "w @ (if f \<noteq> [] then CHR ''.'' # f else [])"
  have wd: "w \<noteq> []" "list_all is_dec w"
    using w by (auto simp: is_canon_dec_upto_def is_canon_dec_def)
  then have "is_dec (hd ?s)" by (cases w) auto
  moreover have "is_dec (last ?s)"
    using wd f by (auto simp: list_all_iff last_append)
  ultimately have "js_trim ?s = ?s" using wd by (intro js_trim_id) (auto dest: is_dec_not_ws)
  then show ?thesis
    using match_decimal_join [OF w f(1)] f(2) by (simp add: parseDecimal_def)
qed

lemma parseDecimal_formatAtoms:
  assumes "0 \<le> a" and "a div 10 ^ d < 10 ^ 31"
  shows "parseDecimal (formatAtoms a d) d = ok a"
proof -
  let ?w = "nat_str (nat (a div 10 ^ d))" and ?m = "a mod 10 ^ d"
  let ?p = "pad_start d (nat_str (nat ?m))"
  have "?m < 10 ^ d" "0 \<le> ?m" by simp_all
  then have m: "nat ?m < 10 ^ d" by (simp add: nat_less_iff)
  have w: "is_canon_dec_upto 30 ?w"
    using assms by (intro canon_upto_nat_str) (simp add: nat_less_iff)
  have p: "list_all is_dec ?p" by (simp add: pad_start_dec nat_str_all_dec)
  have fmt: "formatAtoms a d = ?w @ (if strip_zeros ?p \<noteq> [] then CHR ''.'' # strip_zeros ?p else [])"
    using assms by (simp add: formatAtoms_def int_str_nonneg pos_imp_zdiv_nonneg_iff Let_def)
  have frac: "length (strip_zeros ?p) \<le> d \<and> str_nat (pad_end d (strip_zeros ?p)) = nat ?m"
  proof (cases "d = 0")
    case True
    have "nat_str 0 = ''0''" by (simp add: nat_str_def to_base.simps)
    with True show ?thesis by (simp add: pad_start_def strip_zeros_def pad_end_def str_nat_def)
  next
    case False
    then have "length ?p = d" using m by (simp add: length_pad_start length_nat_str)
    moreover obtain k where "?p = strip_zeros ?p @ replicate k CHR ''0''"
      using strip_zeros_append by blast
    ultimately show ?thesis
      by (metis pad_end_strip_zeros str_nat_pad_start str_nat_str length_append le_add1)
  qed
  have "parseDecimal (formatAtoms a d) d = ok (int (nat (a div 10 ^ d)) * 10 ^ d + int (nat ?m))"
    unfolding fmt using parse_formatted [OF w strip_zeros_dec [OF p], of d] frac by simp
  also have "\<dots> = ok a"
    using assms div_mult_mod_eq [of a "10 ^ d"] by (simp add: pos_imp_zdiv_nonneg_iff)
  finally show ?thesis .
qed

section \<open>Properties\<close>

text \<open>An amount read from JSON is a uint128, and each amount has exactly one spelling:
  the reader accepts a value when, and only when, it is the decimal string the writer makes
  of that amount.\<close>

theorem atoms_one_spelling:
  "(parseAtoms v = ok a) = (v = JStr (int_str a) \<and> 0 \<le> a \<and> a \<le> UINT128_MAX)"
proof
  assume "parseAtoms v = ok a"
  then show "v = JStr (int_str a) \<and> 0 \<le> a \<and> a \<le> UINT128_MAX"
    using parseAtoms_okD [of v a] by (simp add: atoms_in_range_def)
next
  assume "v = JStr (int_str a) \<and> 0 \<le> a \<and> a \<le> UINT128_MAX"
  then show "parseAtoms v = ok a" using parseAtoms_int_str [of a] by (simp add: atoms_in_range_def)
qed

text \<open>A decimal shown for an amount reads back as the same amount, whatever the number of
  decimals, as long as its whole part has at most 31 digits.\<close>

theorem decimal_display_round_trip:
  assumes "0 \<le> a" and "a div 10 ^ d < 10 ^ 31"
  shows "parseDecimal (formatAtoms a d) d = ok a"
  using assms by (rule parseDecimal_formatAtoms)

theorem decimal_display_round_trip_witness: "parseDecimal (formatAtoms 1250000 6) 6 = ok 1250000"
  by (rule decimal_display_round_trip) simp_all

text \<open>The limit of a buy is the least amount that covers the quote and its slippage, the
  minimum of a sell the greatest amount the slippage leaves: rounding never loosens either.\<close>

theorem limits_are_tight:
  assumes "0 \<le> quote" and "0 \<le> bps" and "bps \<le> 10000"
  shows "(buyLimit quote bps \<le> x) = (quote * (10000 + bps) \<le> x * 10000)
    \<and> (x \<le> sellMinimum quote bps) = (x * 10000 \<le> quote * (10000 - bps))
    \<and> sellMinimum quote bps \<le> quote \<and> quote \<le> buyLimit quote bps"
proof -
  note b = buyLimit_ceilDiv [OF assms(1,2), unfolded ceilDiv_ok_iff]
  have s: "sellMinimum quote bps = quote * (10000 - bps) div 10000" using assms by (simp add: sellMinimum_def)
  have "(buyLimit quote bps \<le> x) = (quote * (10000 + bps) \<le> x * 10000)"
  proof
    assume "buyLimit quote bps \<le> x"
    then have "buyLimit quote bps * 10000 \<le> x * 10000" by simp
    with b show "quote * (10000 + bps) \<le> x * 10000" by linarith
  next
    assume "quote * (10000 + bps) \<le> x * 10000"
    with b have "(buyLimit quote bps - 1) * 10000 < x * 10000" by linarith
    then show "buyLimit quote bps \<le> x" by simp
  qed
  moreover have "(x \<le> sellMinimum quote bps) = (x * 10000 \<le> quote * (10000 - bps))"
    unfolding s by linarith
  ultimately show ?thesis using sellMinimum_le buyLimit_ge assms by blast
qed

theorem limits_are_tight_witness:
  "(buyLimit 1000001 50 \<le> 1005002) = (1000001 * (10000 + 50) \<le> (1005002::int) * 10000)
    \<and> (1005002 \<le> sellMinimum 1000001 50) = ((1005002::int) * 10000 \<le> 1000001 * (10000 - 50))
    \<and> sellMinimum 1000001 50 \<le> 1000001 \<and> 1000001 \<le> buyLimit 1000001 50"
  by (rule limits_are_tight) simp_all

end
