(* ===== verification/Claims.thy ===== *)
theory Claims
  imports Amounts "HOL-Library.Multiset"
begin

text \<open>
  Claims: the canonical combination model (apps/web/shared/claims.mjs) and the SDK's
  wrapper around it (packages/sdk/src/claims.ts). A claim names one to three events of a
  pool by a scope bit set and pays in the local states whose bit of the mask is set. Local
  bit \<open>j\<close> is the answer of the \<open>j\<close>-th scoped event in ascending order.
\<close>

section \<open>The canonical encoder (claims.mjs)\<close>

datatype claim_rule = R_AND | R_OR | R_EXACTLY_ONE | R_AT_LEAST_TWO

definition CLAIM_RULES :: "claim_rule list" where
  "CLAIM_RULES = [R_AND, R_OR, R_EXACTLY_ONE, R_AT_LEAST_TWO]"

record answer =
  ans_event :: int
  ans_yes :: bool

abbreviation plain_error :: "'a res" where
  "plain_error \<equiv> Inl (Other_error ''Error'')"

text \<open>The value \<open>ruleMatches\<close> returns, for a non-empty list.\<close>

fun rule_holds :: "claim_rule \<Rightarrow> bool list \<Rightarrow> bool" where
  "rule_holds R_AND ms = (length (filter id ms) = length ms)"
| "rule_holds R_OR ms = (length (filter id ms) > 0)"
| "rule_holds R_EXACTLY_ONE ms = (length (filter id ms) = 1)"
| "rule_holds R_AT_LEAST_TWO ms = (length (filter id ms) \<ge> 2)"

definition ruleMatches :: "claim_rule \<Rightarrow> bool list \<Rightarrow> bool res" where
  "ruleMatches rule ms = (if ms = [] then plain_error else ok (rule_holds rule ms))"

definition claimEvents :: "int \<Rightarrow> nat list res" where
  "claimEvents scope =
     (if scope \<le> 0 \<or> scope \<ge> 2 ^ 4 then plain_error
      else ok (filter (\<lambda>i. js_bit scope i) [0, 1, 2, 3]))"

text \<open>\<open>/^[1-9][0-9]{0,2}$/\<close>.\<close>

definition is_mask_str :: "string \<Rightarrow> bool" where
  "is_mask_str s = (is_canon_dec_upto 2 s \<and> hd s \<noteq> CHR ''0'')"

definition validateClaim :: "int \<Rightarrow> string \<Rightarrow> int \<Rightarrow> nat list res" where
  "validateClaim scope mask_s events =
     (if \<not> List.member [2, 3, 4] events \<or> \<not> is_mask_str mask_s then plain_error
      else bindE (claimEvents scope) (\<lambda>legs.
        if scope \<ge> 2 ^ nat events \<or> length legs > 3
           \<or> int (str_nat mask_s) \<ge> 2 ^ (2 ^ length legs) - 1
        then plain_error else ok legs))"

text \<open>The local answers of a state: \<open>Boolean(state & (1 << i)) === l.yes\<close> for each leg.\<close>

definition leg_matches :: "answer list \<Rightarrow> nat \<Rightarrow> bool list" where
  "leg_matches legs state = map (\<lambda>(i, l). js_bit (int state) i = ans_yes l) (enumerate 0 legs)"

definition encode_mask :: "claim_rule \<Rightarrow> answer list \<Rightarrow> int res" where
  "encode_mask rule legs = foldE (\<lambda>m state.
     bindE (ruleMatches rule (leg_matches legs state)) (\<lambda>wins.
       ok (if wins then m OR push_bit state 1 else m))) 0 [0..<2 ^ length legs]"

definition encode_scope :: "answer list \<Rightarrow> int" where
  "encode_scope legs = foldl (\<lambda>s l. js_or s (js_shl 1 (nat (ans_event l)))) 0 legs"

definition encodeClaim :: "int \<Rightarrow> answer list \<Rightarrow> claim_rule \<Rightarrow> (int \<times> string) res" where
  "encodeClaim events legs rule =
     (if length legs < 1 \<or> length legs > 3 then plain_error
      else let sorted_legs = sort_key ans_event legs in
        if \<not> distinct (map ans_event sorted_legs)
           \<or> list_ex (\<lambda>l. ans_event l < 0 \<or> ans_event l \<ge> events) sorted_legs then plain_error
        else if rule = R_AT_LEAST_TWO \<and> length legs < 2 then plain_error
        else let scope = encode_scope sorted_legs in
          bindE (encode_mask rule sorted_legs) (\<lambda>m.
          bindE (validateClaim scope (int_str m) events) (\<lambda>_.
          ok (scope, int_str m))))"

definition state_answers :: "nat list \<Rightarrow> nat \<Rightarrow> answer list" where
  "state_answers selected state =
     map (\<lambda>(i, event). \<lparr>ans_event = int event, ans_yes = js_bit (int state) i\<rparr>) (enumerate 0 selected)"

text \<open>One record per local state: its answers and whether the claim wins there.\<close>

definition claimScenarios :: "int \<Rightarrow> string \<Rightarrow> int \<Rightarrow> (nat \<times> answer list \<times> bool) list res" where
  "claimScenarios scope mask_s events =
     bindE (validateClaim scope mask_s events) (\<lambda>selected.
       ok (map (\<lambda>state. (state, state_answers selected state,
           (int (str_nat mask_s) AND push_bit state 1) \<noteq> 0)) [0..<2 ^ length selected]))"

definition decodeClaim :: "int \<Rightarrow> string \<Rightarrow> int \<Rightarrow> (claim_rule \<times> answer list) option res" where
  "decodeClaim scope mask_s events =
     bindE (validateClaim scope mask_s events) (\<lambda>selected.
       findE (\<lambda>(rule, state).
         if rule = R_AT_LEAST_TWO \<and> length selected < 2 then ok None
         else let legs = state_answers selected state in
           bindE (encodeClaim events legs rule) (\<lambda>(_, m).
             ok (if m = mask_s then Some (rule, legs) else None)))
       (concat (map (\<lambda>rule. map (Pair rule) (rev [0..<2 ^ length selected])) CLAIM_RULES)))"

section \<open>Claims of the SDK (claims.ts)\<close>

definition CHAIN_ID :: int where
  "CHAIN_ID = 10143"

record claim =
  claim_chain :: int
  claim_pool :: string
  claim_scope :: int
  claim_mask :: int

text \<open>\<open>bitCount\<close>: \<open>for (v = value; v; v &= v - 1) n++\<close>. From the first step on, \<open>v\<close> is a
  32-bit integer.\<close>

function word_bit_count :: "32 word \<Rightarrow> nat" where
  "word_bit_count w = (if w = 0 then 0 else Suc (word_bit_count (w AND (w - 1))))"
  by pat_completeness auto
termination
proof (relation "measure unat")
  show "wf (measure unat)" by simp
next
  fix w :: "32 word"
  assume w: "w \<noteq> 0"
  have "unat (w AND (w - 1)) \<le> unat (w - 1)"
    using word_and_le1 [of w "w - 1"] by (simp add: word_le_nat_alt)
  also have "\<dots> < unat w" using w by (simp add: unat_minus_one unat_gt_0)
  finally show "(w AND (w - 1), w) \<in> measure unat" by simp
qed

declare word_bit_count.simps [simp del]

definition bitCount :: "int \<Rightarrow> nat" where
  "bitCount v = (if v = 0 then 0
     else Suc (word_bit_count (word_of_int v AND word_of_int (v - 1))))"

definition scopeEvents :: "int \<Rightarrow> nat list" where
  "scopeEvents scope = filter (\<lambda>i. js_bit scope i) [0..<31]"

text \<open>\<open>canonical\<close>: whatever the shared module throws becomes \<open>unsupported_claim\<close>.\<close>

definition canonical :: "'a res \<Rightarrow> 'a res" where
  "canonical r = (case r of Inl _ \<Rightarrow> throw Unsupported_claim | Inr x \<Rightarrow> ok x)"

definition assertClaim :: "claim \<Rightarrow> int \<Rightarrow> claim res" where
  "assertClaim c eventCount =
     (if claim_chain c \<noteq> CHAIN_ID then throw Unsupported_claim
      else if \<not> is_0x_lhex 40 (claim_pool c) then throw Unsupported_claim
      else if claim_mask c \<le> 0 then throw Unsupported_claim
      else bindE (canonical (validateClaim (claim_scope c) (int_str (claim_mask c)) eventCount))
        (\<lambda>_. ok c))"

definition assertSamePool :: "claim list \<Rightarrow> string res" where
  "assertSamePool cs = (let pools = remdups (map claim_pool cs) in
     if length pools \<noteq> 1 then throw Cross_pool else ok (hd pools))"

definition encode :: "string \<Rightarrow> int \<Rightarrow> answer list \<Rightarrow> claim_rule \<Rightarrow> claim res" where
  "encode pool eventCount answers rule =
     bindE (canonical (encodeClaim eventCount answers rule)) (\<lambda>(scope, m).
       assertClaim \<lparr>claim_chain = CHAIN_ID, claim_pool = pool, claim_scope = scope,
         claim_mask = int (str_nat m)\<rparr> eventCount)"

definition allOf :: "string \<Rightarrow> int \<Rightarrow> answer list \<Rightarrow> claim res" where
  "allOf pool n answers = encode pool n answers R_AND"

definition anyOf :: "string \<Rightarrow> int \<Rightarrow> answer list \<Rightarrow> claim res" where
  "anyOf pool n answers =
     (if length answers < 2 then throw Unsupported_claim else encode pool n answers R_OR)"

definition exactlyOne :: "string \<Rightarrow> int \<Rightarrow> answer list \<Rightarrow> claim res" where
  "exactlyOne pool n answers = encode pool n answers R_EXACTLY_ONE"

definition atLeastTwo :: "string \<Rightarrow> int \<Rightarrow> answer list \<Rightarrow> claim res" where
  "atLeastTwo pool n answers = encode pool n answers R_AT_LEAST_TWO"

definition single :: "string \<Rightarrow> int \<Rightarrow> answer \<Rightarrow> claim res" where
  "single pool n a = encode pool n [a] R_AND"

definition describe :: "claim \<Rightarrow> int \<Rightarrow> (claim_rule \<times> answer list) option res" where
  "describe c n = canonical (decodeClaim (claim_scope c) (int_str (claim_mask c)) n)"

datatype claim_shape = Single_shape | Rule_shape claim_rule | Other_shape

definition claimShape :: "claim \<Rightarrow> int \<Rightarrow> claim_shape res" where
  "claimShape c n =
     (if bitCount (claim_scope c) = 1 then ok Single_shape
      else bindE (describe c n) (\<lambda>r. ok (case r of Some (rule, _) \<Rightarrow> Rule_shape rule | None \<Rightarrow> Other_shape)))"

definition winningCombinations :: "claim \<Rightarrow> int \<Rightarrow> answer list list res" where
  "winningCombinations c n =
     bindE (canonical (claimScenarios (claim_scope c) (int_str (claim_mask c)) n)) (\<lambda>ss.
       ok (map (\<lambda>(_, answers, _). answers) (filter (\<lambda>(_, _, wins). wins) ss)))"

text \<open>The loop of \<open>paysIn\<close>: the local index of a full-pool state.\<close>

fun local_index :: "int \<Rightarrow> nat list \<Rightarrow> nat \<Rightarrow> int \<Rightarrow> int" where
  "local_index state [] index l = l"
| "local_index state (e # es) index l =
     local_index state es (Suc index) (if js_bit state e then js_or l (js_shl 1 index) else l)"

definition paysIn :: "claim \<Rightarrow> int \<Rightarrow> bool" where
  "paysIn c state =
     ((claim_mask c AND push_bit (nat (local_index state (scopeEvents (claim_scope c)) 0 0)) 1) \<noteq> 0)"

definition claimKey :: "claim \<Rightarrow> string" where
  "claimKey c = int_str (claim_chain c) @ '':'' @ claim_pool c @ '':''
     @ int_str (claim_scope c) @ '':'' @ int_str (claim_mask c)"

definition claimToJSON :: "claim \<Rightarrow> json" where
  "claimToJSON c = JObj [(''chainId'', JInt (claim_chain c)), (''pool'', JStr (claim_pool c)),
     (''scope'', JInt (claim_scope c)), (''mask'', JStr (int_str (claim_mask c)))]"

text \<open>
  \<open>Number(v)\<close> where the result is an integer; everything else is \<open>JFrac\<close>, also the
  strings that spell a number with a fraction or an exponent.
\<close>

definition number_of_string :: "string \<Rightarrow> json" where
  "number_of_string s = (case str_integer s of Some i \<Rightarrow> JInt i | None \<Rightarrow> JFrac)"

fun js_number :: "json \<Rightarrow> json" where
  "js_number JUndef = JFrac"
| "js_number JNull = JInt 0"
| "js_number (JBool b) = JInt (if b then 1 else 0)"
| "js_number (JInt i) = JInt i"
| "js_number JFrac = JFrac"
| "js_number (JStr s) = number_of_string s"
| "js_number (JArr []) = JInt 0"
| "js_number (JArr [v]) = (case v of JUndef \<Rightarrow> JInt 0 | JNull \<Rightarrow> JInt 0 | JBool _ \<Rightarrow> JFrac | _ \<Rightarrow> js_number v)"
| "js_number (JArr _) = JFrac"
| "js_number (JObj _) = JFrac"

definition claimFromJSON :: "json \<Rightarrow> int \<Rightarrow> claim res" where
  "claimFromJSON v eventCount =
     (case (jget v ''pool'', jget v ''mask'', jget v ''scope'') of
        (JStr pool, JStr m, JInt scope) \<Rightarrow>
          (if \<not> is_mask_str m then throw Unsupported_claim
           else (case js_number (jget v ''chainId'') of
             JInt chain \<Rightarrow> assertClaim \<lparr>claim_chain = chain, claim_pool = lower pool, claim_scope = scope,
               claim_mask = int (str_nat m)\<rparr> eventCount
           | _ \<Rightarrow> throw Unsupported_claim))
      | _ \<Rightarrow> throw Unsupported_claim)"

record resolution =
  yesMask :: int
  voidMask :: int

definition payoutFraction :: "claim \<Rightarrow> int \<Rightarrow> resolution \<Rightarrow> (int \<times> int) res" where
  "payoutFraction c eventCount r =
     bindE (assertClaim c eventCount) (\<lambda>_.
       let all_states = 2 ^ nat eventCount - 1;
           known = js_xor all_states (voidMask r) in
       if js_and (yesMask r) (voidMask r) \<noteq> 0 \<or> yesMask r > all_states \<or> voidMask r > all_states
       then throw Invalid_input
       else ok (foldl (\<lambda>(num, den) state.
           if js_and state known \<noteq> yesMask r then (num, den)
           else (if paysIn c state then num + 1 else num, den + 1))
         (0, 0) (map int [0..<2 ^ nat eventCount])))"

end
