(* ===== verification/Claim_Laws.thy ===== *)
theory Claim_Laws
  imports Claims
begin

text \<open>
  What the claim encoder guarantees: an encoded claim pays in exactly the states in which
  its payout rule holds of its answers, decoding gives an equal claim back, and payout
  fractions after resolution are conserved.
\<close>

section \<open>Bits of a local index\<close>

lemma js_shl_1: "i < 31 \<Longrightarrow> js_shl 1 i = 2 ^ i"
proof -
  assume i: "i < 31"
  have "(2::int) ^ i < 2 ^ 31" using i by (intro power_strict_increasing) auto
  moreover have "- (2 ^ 31) \<le> (2::int) ^ i" by (rule order_trans [of _ 0]) simp_all
  ultimately have "to_int32 (2 ^ i) = 2 ^ i" by (intro to_int32_id)
  then show ?thesis using i by (simp add: js_shl_def push_bit_eq_mult)
qed

lemma or_disjoint_pow: "0 \<le> l \<Longrightarrow> l < 2 ^ i \<Longrightarrow> l OR 2 ^ i = l + (2::int) ^ i"
proof -
  assume l: "0 \<le> l" "l < 2 ^ i"
  have "l AND 2 ^ i = 0"
  proof (rule bit_eqI)
    fix n
    have "\<not> (bit l n \<and> n = i)"
      using l take_bit_int_eq_self [of l i] bit_take_bit_iff [of i l n] by auto
    then show "bit (l AND 2 ^ i) n = bit (0::int) n"
      by (auto simp: bit_and_iff bit_exp_iff)
  qed
  then show ?thesis by (simp add: disjunctive_add_eq_or)
qed

lemma js_or_pow:
  assumes "0 \<le> l" "l < 2 ^ i" "i < 31"
  shows "js_or l (js_shl 1 i) = l + 2 ^ i"
proof -
  have "l + 2 ^ i < 2 ^ Suc i" using assms by simp
  also have "\<dots> \<le> (2::int) ^ 31" using assms by (intro power_increasing) auto
  finally show ?thesis
    using assms by (simp add: js_or_def js_shl_1 or_disjoint_pow to_int32_id)
qed

definition local_state :: "int \<Rightarrow> nat list \<Rightarrow> nat" where
  "local_state state es = horner_sum of_bool 2 (map (bit state) es)"

lemma local_state_Nil [simp]: "local_state state [] = 0"
  by (simp add: local_state_def)

lemma local_state_Cons [simp]:
  "local_state state (e # es) = of_bool (bit state e) + 2 * local_state state es"
  by (simp add: local_state_def)

lemma local_state_less: "local_state state es < 2 ^ length es"
  using horner_sum_of_bool_2_less [of "map (bit state) es", where ?'a = nat]
  by (simp add: local_state_def)

lemma bit_local_state: "bit (local_state state es) j \<longleftrightarrow> j < length es \<and> bit state (es ! j)"
  by (auto simp: local_state_def bit_horner_sum_bit_iff)

lemma local_index_eq:
  assumes "index + length es \<le> 31" "list_all (\<lambda>e. e < 32) es" "0 \<le> l" "l < 2 ^ index"
  shows "local_index state es index l = l + 2 ^ index * int (local_state state es)"
  using assms
proof (induction es arbitrary: index l)
  case Nil
  then show ?case by simp
next
  case (Cons e es)
  let ?l = "if js_bit state e then js_or l (js_shl 1 index) else l"
  have l: "?l = l + 2 ^ index * of_bool (bit state e)"
    using Cons.prems by (auto simp: js_bit_iff js_or_pow)
  have "l + 2 ^ index * of_bool (bit state e) < 2 ^ Suc index"
    using Cons.prems by (auto simp: of_bool_def)
  then have "local_index state es (Suc index) ?l
      = l + 2 ^ index * of_bool (bit state e) + 2 ^ Suc index * int (local_state state es)"
    using Cons.prems by (subst Cons.IH) (simp_all add: l)
  then show ?case by (simp add: algebra_simps)
qed

lemma scopeEvents_less: "list_all (\<lambda>e. e < 32) (scopeEvents scope)"
  by (auto simp: scopeEvents_def list_all_iff)

lemma length_scopeEvents: "length (scopeEvents scope) \<le> 31"
  unfolding scopeEvents_def by (rule order_trans [OF length_filter_le]) simp

lemma scopeEvents_eq: "scopeEvents scope = filter (bit scope) [0..<31]"
  unfolding scopeEvents_def by (rule filter_cong) (auto simp: js_bit_iff)

lemma and_pow_neq_0: "(m AND 2 ^ n \<noteq> 0) = bit (m::int) n"
  by (simp add: bit_iff_and_push_bit_not_eq_0)

lemma paysIn_code [code]: "paysIn c state
    = odd (claim_mask c div 2 ^ nat (local_index state (scopeEvents (claim_scope c)) 0 0))"
  by (simp add: paysIn_def and_pow_neq_0 bit_iff_odd)

text \<open>\<open>paysIn\<close> reads the mask at the local index of the state.\<close>

lemma paysIn_iff: "paysIn c state \<longleftrightarrow> bit (claim_mask c) (local_state state (scopeEvents (claim_scope c)))"
proof -
  have "local_index state (scopeEvents (claim_scope c)) 0 0
      = int (local_state state (scopeEvents (claim_scope c)))"
    using length_scopeEvents scopeEvents_less by (subst local_index_eq) simp_all
  then show ?thesis by (simp add: paysIn_def and_pow_neq_0)
qed

section \<open>Scopes\<close>

lemma bit_small_nat: "0 \<le> (v::int) \<Longrightarrow> v < 2 ^ k \<Longrightarrow> bit v i \<Longrightarrow> i < k"
  using take_bit_int_eq_self [of v k] bit_take_bit_iff [of k v i] by auto

lemma to_int32_idem [simp]: "to_int32 (to_int32 a) = to_int32 a"
  by (rule bit_eqI) (simp add: bit_to_int32)

lemma bit_int32_min: "to_int32 s = s \<Longrightarrow> bit s (min 31 i) = bit s i"
  by (metis bit_to_int32)

lemma bit_foldl_scope:
  assumes "list_all (\<lambda>l. 0 \<le> ans_event l \<and> ans_event l < 31) legs" "to_int32 s = s"
  shows "bit (foldl (\<lambda>s l. js_or s (js_shl 1 (nat (ans_event l)))) s legs) i
    \<longleftrightarrow> bit s i \<or> (\<exists>l\<in>set legs. nat (ans_event l) = i)"
  using assms
proof (induction legs arbitrary: s)
  case Nil
  then show ?case by simp
next
  case (Cons l legs)
  then have "nat (ans_event l) < 31" by (auto simp: nat_less_iff)
  then have "bit (js_or s (js_shl 1 (nat (ans_event l)))) i \<longleftrightarrow> bit s i \<or> nat (ans_event l) = i"
    using bit_int32_min [OF Cons.prems(2), of i]
    by (simp add: js_or_def bit_to_int32 bit_or_iff bit_js_shl_1) (auto simp: min_def)
  moreover have "to_int32 (js_or s (js_shl 1 (nat (ans_event l)))) = js_or s (js_shl 1 (nat (ans_event l)))"
    by (simp add: js_or_def)
  ultimately show ?case using Cons by auto
qed

lemma bit_encode_scope:
  "list_all (\<lambda>l. 0 \<le> ans_event l \<and> ans_event l < 31) legs \<Longrightarrow>
    bit (encode_scope legs) i \<longleftrightarrow> (\<exists>l\<in>set legs. nat (ans_event l) = i)"
  unfolding encode_scope_def by (subst bit_foldl_scope) (simp_all add: to_int32_def)

lemma encode_scope_range:
  assumes "list_all (\<lambda>l. 0 \<le> ans_event l \<and> ans_event l < int n) legs" "n \<le> 31" "legs \<noteq> []"
  shows "0 < encode_scope legs \<and> encode_scope legs < 2 ^ n"
proof -
  have r: "list_all (\<lambda>l. 0 \<le> ans_event l \<and> ans_event l < 31) legs"
    using assms by (auto simp: list_all_iff)
  have "take_bit n (encode_scope legs) = encode_scope legs"
    by (rule bit_eqI) (use assms in \<open>auto simp: bit_take_bit_iff bit_encode_scope [OF r] list_all_iff nat_less_iff\<close>)
  then have "0 \<le> encode_scope legs \<and> encode_scope legs < 2 ^ n"
    by (metis take_bit_int_less_exp take_bit_nonnegative)
  moreover have "encode_scope legs \<noteq> 0"
    using assms(3) bit_encode_scope [OF r, of "nat (ans_event (hd legs))"] by auto
  ultimately show ?thesis by linarith
qed

lemma scopeEvents_encode_scope:
  assumes "sorted (map ans_event legs)" "distinct (map ans_event legs)"
    and range: "list_all (\<lambda>l. 0 \<le> ans_event l \<and> ans_event l < 31) legs"
  shows "scopeEvents (encode_scope legs) = map (\<lambda>l. nat (ans_event l)) legs"
proof (rule sorted_distinct_set_unique)
  show "sorted (scopeEvents (encode_scope legs))"
    unfolding scopeEvents_eq by (rule sorted_wrt_filter) simp
  show "distinct (scopeEvents (encode_scope legs))" unfolding scopeEvents_eq by simp
  have m: "map (\<lambda>l. nat (ans_event l)) legs = map nat (map ans_event legs)" by simp
  have nn: "\<forall>e\<in>set (map ans_event legs). 0 \<le> e" using range by (auto simp: list_all_iff)
  show "sorted (map (\<lambda>l. nat (ans_event l)) legs)"
    unfolding m using assms(1) by (auto simp: sorted_map intro: sorted_wrt_mono_rel [rotated])
  have "inj_on nat (set (map ans_event legs))"
    using nn by (intro inj_onI) (metis eq_nat_nat_iff)
  then show "distinct (map (\<lambda>l. nat (ans_event l)) legs)"
    unfolding m using assms(2) by (simp only: distinct_map)
  have "nat (ans_event l) < 31" if "l \<in> set legs" for l
    using range that by (auto simp: list_all_iff nat_less_iff)
  then show "set (scopeEvents (encode_scope legs)) = set (map (\<lambda>l. nat (ans_event l)) legs)"
    by (auto simp: scopeEvents_eq bit_encode_scope [OF range])
qed

section \<open>Masks\<close>

definition mask_of :: "claim_rule \<Rightarrow> answer list \<Rightarrow> nat \<Rightarrow> int" where
  "mask_of rule legs n = foldl (\<lambda>m state.
     if rule_holds rule (leg_matches legs state) then m OR push_bit state 1 else m) 0 [0..<n]"

lemma mask_of_0 [simp]: "mask_of rule legs 0 = 0"
  by (simp add: mask_of_def)

lemma mask_of_Suc: "mask_of rule legs (Suc n) =
    (if rule_holds rule (leg_matches legs n) then mask_of rule legs n OR 2 ^ n else mask_of rule legs n)"
  by (simp add: mask_of_def)

lemma length_leg_matches [simp]: "length (leg_matches legs s) = length legs"
  by (simp add: leg_matches_def)

lemma encode_mask_eq: "legs \<noteq> [] \<Longrightarrow> encode_mask rule legs = ok (mask_of rule legs (2 ^ length legs))"
proof -
  assume legs: "legs \<noteq> []"
  have "leg_matches legs s \<noteq> []" for s
    using legs by (metis length_0_conv length_leg_matches)
  then show ?thesis
    unfolding encode_mask_def mask_of_def by (intro foldE_total) (simp add: ruleMatches_def)
qed

lemma bit_mask_of: "bit (mask_of rule legs n) i \<longleftrightarrow> i < n \<and> rule_holds rule (leg_matches legs i)"
  by (induction n) (auto simp: mask_of_Suc bit_or_iff bit_exp_iff less_Suc_eq)

lemma mask_of_nonneg: "0 \<le> mask_of rule legs n"
  by (induction n) (auto simp: mask_of_Suc)

lemma mask_of_take_bit: "take_bit n (mask_of rule legs n) = mask_of rule legs n"
  by (rule bit_eqI) (auto simp: bit_take_bit_iff bit_mask_of)

lemma mask_of_less: "mask_of rule legs n < 2 ^ n"
  using mask_of_take_bit by (metis take_bit_int_less_exp)

lemma mask_of_pos: "s < n \<Longrightarrow> rule_holds rule (leg_matches legs s) \<Longrightarrow> 0 < mask_of rule legs n"
proof -
  assume "s < n" "rule_holds rule (leg_matches legs s)"
  then have "mask_of rule legs n \<noteq> 0" using bit_mask_of [of rule legs n s] by auto
  then show ?thesis using mask_of_nonneg [of rule legs n] by linarith
qed

lemma mask_of_not_full: "s < n \<Longrightarrow> \<not> rule_holds rule (leg_matches legs s) \<Longrightarrow> mask_of rule legs n < 2 ^ n - 1"
proof -
  assume s: "s < n" "\<not> rule_holds rule (leg_matches legs s)"
  have "mask_of rule legs n \<noteq> mask n"
    using s bit_mask_of [of rule legs n s] bit_mask_iff [of n s, where ?'a = int] by auto
  then show ?thesis using mask_of_less [of rule legs n] by (simp add: mask_eq_exp_minus_1)
qed

section \<open>The answers of a local state\<close>

lemma leg_matches_local:
  assumes "length legs \<le> 31"
  shows "leg_matches legs (local_state state (map (\<lambda>l. nat (ans_event l)) legs))
    = map (\<lambda>l. bit state (nat (ans_event l)) = ans_yes l) legs"
proof (rule nth_equalityI)
  show "length (leg_matches legs (local_state state (map (\<lambda>l. nat (ans_event l)) legs)))
      = length (map (\<lambda>l. bit state (nat (ans_event l)) = ans_yes l) legs)" by simp
next
  fix i assume "i < length (leg_matches legs (local_state state (map (\<lambda>l. nat (ans_event l)) legs)))"
  then have i: "i < length legs" "i < 32" using assms by auto
  then show "leg_matches legs (local_state state (map (\<lambda>l. nat (ans_event l)) legs)) ! i
      = map (\<lambda>l. bit state (nat (ans_event l)) = ans_yes l) legs ! i"
    by (simp add: leg_matches_def nth_enumerate_eq js_bit_iff bit_of_nat_iff_bit bit_local_state)
qed

lemma rule_holds_perm: "mset ms = mset ns \<Longrightarrow> rule_holds rule ms = rule_holds rule ns"
proof -
  assume m: "mset ms = mset ns"
  then have "length ms = length ns" by (metis size_mset)
  moreover have "length (filter id ms) = length (filter id ns)"
    using m by (metis mset_filter size_mset)
  ultimately show ?thesis by (cases rule) auto
qed

text \<open>The state that answers each leg as asked, or as not asked.\<close>

definition target_state :: "(nat \<Rightarrow> bool) \<Rightarrow> answer list \<Rightarrow> nat" where
  "target_state p legs = horner_sum of_bool 2 (map (\<lambda>(i, l). ans_yes l = p i) (enumerate 0 legs))"

lemma target_state_less: "target_state p legs < 2 ^ length legs"
  using horner_sum_of_bool_2_less [of "map (\<lambda>(i, l). ans_yes l = p i) (enumerate 0 legs)", where ?'a = nat]
  by (simp add: target_state_def)

lemma leg_matches_target:
  "length legs \<le> 31 \<Longrightarrow> leg_matches legs (target_state p legs) = map p [0..<length legs]"
  by (rule nth_equalityI)
    (auto simp: leg_matches_def nth_enumerate_eq js_bit_iff bit_of_nat_iff_bit target_state_def
      bit_horner_sum_bit_iff)

lemma count_singleton: "0 < n \<Longrightarrow> length (filter id (map (\<lambda>i. i = 0) [0..<n])) = 1"
  by (induction n) (auto simp: upt_conv_Cons filter_map o_def)

lemma rule_can_win:
  assumes "legs \<noteq> []" "length legs \<le> 31" "rule = R_AT_LEAST_TWO \<longrightarrow> 2 \<le> length legs"
  shows "\<exists>s<2 ^ length legs. rule_holds rule (leg_matches legs s)"
proof (cases "rule = R_EXACTLY_ONE")
  case True
  have "rule_holds rule (leg_matches legs (target_state (\<lambda>i. i = 0) legs))"
    using True assms count_singleton [of "length legs"] by (simp add: leg_matches_target)
  then show ?thesis using target_state_less by blast
next
  case False
  have f: "filter id (map (\<lambda>i. True) [0..<n]) = map (\<lambda>i. True) [0..<n]" for n :: nat
    by (auto intro: filter_True)
  have "rule_holds rule (leg_matches legs (target_state (\<lambda>_. True) legs))"
    using False assms by (cases rule) (simp_all add: leg_matches_target f)
  then show ?thesis using target_state_less by blast
qed

lemma rule_can_lose:
  assumes "legs \<noteq> []" "length legs \<le> 31"
  shows "\<exists>s<2 ^ length legs. \<not> rule_holds rule (leg_matches legs s)"
proof -
  have f: "filter id (map (\<lambda>i. False) [0..<n]) = []" for n :: nat
    by (auto intro: filter_False)
  have "\<not> rule_holds rule (leg_matches legs (target_state (\<lambda>_. False) legs))"
    using assms by (cases rule) (simp_all add: leg_matches_target f)
  then show ?thesis using target_state_less by blast
qed

section \<open>When validation and encoding succeed\<close>

lemma claimEvents_iff: "claimEvents scope = ok es \<longleftrightarrow> 0 < scope \<and> scope < 16 \<and> es = scopeEvents scope"
proof -
  have "filter (js_bit scope) [0, 1, 2, 3] = scopeEvents scope" if "0 < scope" "scope < 16"
  proof -
    have none: "filter (bit scope) [4..<31] = []"
      using that bit_small_nat [of scope 4] by (fastforce intro: filter_False)
    have n: "(31::nat) = 4 + 27" by simp
    have "[0..<31] = [0..<4] @ [4..<31::nat]"
      unfolding n by (rule upt_add_eq_append) simp
    then have "scopeEvents scope = filter (bit scope) [0..<4]"
      unfolding scopeEvents_eq by (simp only: filter_append none append_Nil2)
    moreover have "[0..<4] = [0, 1, 2, 3::nat]" by (simp add: upt_rec)
    ultimately show ?thesis by (simp add: js_bit_iff)
  qed
  then show ?thesis by (auto simp: claimEvents_def)
qed

lemma validateClaim_iff:
  "validateClaim scope m events = ok es \<longleftrightarrow>
    (events = 2 \<or> events = 3 \<or> events = 4) \<and> is_mask_str m \<and> 0 < scope \<and> scope < 2 ^ nat events \<and>
    es = scopeEvents scope \<and> length es \<le> 3 \<and> int (str_nat m) < 2 ^ (2 ^ length es) - 1"
proof -
  have "(2::int) ^ nat events \<le> 16" if "events = 2 \<or> events = 3 \<or> events = 4"
    using that by auto
  then show ?thesis
    by (auto simp: validateClaim_def claimEvents_iff)
qed

lemma is_mask_str_int_str: "0 < m \<Longrightarrow> m < 1000 \<Longrightarrow> is_mask_str (int_str m)"
proof -
  assume m: "0 < m" "m < 1000"
  then have "nat m < 10 ^ (2 + 1)" by (simp add: nat_less_iff)
  then have "is_canon_dec_upto 2 (int_str m)"
    unfolding int_str_nonneg [OF less_imp_le [OF m(1)]] by (rule canon_upto_nat_str)
  moreover have "hd (int_str m) \<noteq> CHR ''0''"
  proof
    assume h: "hd (int_str m) = CHR ''0''"
    have "is_canon_dec (int_str m)" using m by (simp add: int_str_nonneg)
    then obtain c where "int_str m = [c]" using h
      by (auto simp: is_canon_dec_def length_Suc_conv)
    then have "int_str m = ''0''" using h by simp
    then have "str_int (int_str m) = 0" by (simp add: str_int_def str_nat_def)
    with m show False by simp
  qed
  ultimately show ?thesis by (simp add: is_mask_str_def)
qed

lemma str_nat_int_str: "0 \<le> m \<Longrightarrow> int (str_nat (int_str m)) = m"
  by (simp add: int_str_nonneg)

text \<open>What \<open>encodeClaim\<close> asks of the answers.\<close>

definition legs_ok :: "int \<Rightarrow> answer list \<Rightarrow> claim_rule \<Rightarrow> bool" where
  "legs_ok events legs rule =
     ((events = 2 \<or> events = 3 \<or> events = 4) \<and> 1 \<le> length legs \<and> length legs \<le> 3
      \<and> distinct (map ans_event legs)
      \<and> list_all (\<lambda>l. 0 \<le> ans_event l \<and> ans_event l < events) legs
      \<and> (rule = R_AT_LEAST_TWO \<longrightarrow> 2 \<le> length legs))"

abbreviation sort_legs :: "answer list \<Rightarrow> answer list" where
  "sort_legs \<equiv> sort_key ans_event"

definition legs_mask :: "answer list \<Rightarrow> claim_rule \<Rightarrow> int" where
  "legs_mask legs rule = mask_of rule (sort_legs legs) (2 ^ length legs)"

lemma set_sort_legs [simp]: "set (sort_legs legs) = set legs"
  by simp

lemma sort_legs_Nil [simp]: "sort_legs legs = [] \<longleftrightarrow> legs = []"
  by (metis length_0_conv length_sort)

lemma legs_okD:
  assumes "legs_ok events legs rule"
  shows "list_all (\<lambda>l. 0 \<le> ans_event l \<and> ans_event l < 31) (sort_legs legs)"
    and "sorted (map ans_event (sort_legs legs))" and "distinct (map ans_event (sort_legs legs))"
    and "sort_legs legs \<noteq> []" and "length legs \<le> 3"
  using assms by (auto simp: legs_ok_def list_all_iff distinct_map)

lemma legs_mask_range:
  assumes "legs_ok events legs rule"
  shows "0 < legs_mask legs rule \<and> legs_mask legs rule < 2 ^ (2 ^ length legs) - 1"
proof -
  have c: "sort_legs legs \<noteq> []" "length (sort_legs legs) \<le> 31"
      "rule = R_AT_LEAST_TWO \<longrightarrow> 2 \<le> length (sort_legs legs)"
    using assms legs_okD [OF assms] by (auto simp: legs_ok_def)
  show ?thesis
    using rule_can_win [OF c] rule_can_lose [OF c(1,2), of rule]
    by (auto simp: legs_mask_def intro: mask_of_pos mask_of_not_full)
qed

lemma legs_scope:
  assumes "legs_ok events legs rule"
  shows "0 < encode_scope (sort_legs legs) \<and> encode_scope (sort_legs legs) < 2 ^ nat events
    \<and> scopeEvents (encode_scope (sort_legs legs)) = map (\<lambda>l. nat (ans_event l)) (sort_legs legs)"
proof -
  have "list_all (\<lambda>l. 0 \<le> ans_event l \<and> ans_event l < int (nat events)) (sort_legs legs)"
    using assms by (auto simp: legs_ok_def list_all_iff)
  moreover have "nat events \<le> 31" using assms by (auto simp: legs_ok_def)
  ultimately show ?thesis
    using encode_scope_range [of "nat events"] scopeEvents_encode_scope legs_okD [OF assms] by blast
qed

lemma legs_validate:
  assumes "legs_ok events legs rule"
  shows "validateClaim (encode_scope (sort_legs legs)) (int_str (legs_mask legs rule)) events
    = ok (map (\<lambda>l. nat (ans_event l)) (sort_legs legs))"
proof -
  have "(2::int) ^ (2 ^ length legs) \<le> 2 ^ 8"
    using legs_okD(5) [OF assms] power_increasing [of "length legs" 3 "2::nat"]
    by (intro power_increasing) auto
  then have "is_mask_str (int_str (legs_mask legs rule))"
    using legs_mask_range [OF assms] by (intro is_mask_str_int_str) auto
  then show ?thesis
    using legs_scope [OF assms] legs_mask_range [OF assms] legs_okD(5) [OF assms] assms
    by (auto simp: validateClaim_iff str_nat_int_str legs_ok_def)
qed

text \<open>\<open>encodeClaim\<close> succeeds exactly on such answers, with that scope and mask.\<close>

lemma encodeClaim_iff:
  "encodeClaim events legs rule = ok (scope, m) \<longleftrightarrow>
    legs_ok events legs rule \<and> scope = encode_scope (sort_legs legs) \<and> m = int_str (legs_mask legs rule)"
  (is "?lhs \<longleftrightarrow> ?rhs")
proof
  assume ?rhs
  then have r: "legs_ok events legs rule" by simp
  note legs_validate [OF r, unfolded legs_mask_def]
  with \<open>?rhs\<close> legs_okD [OF r] show ?lhs
    by (auto simp: encodeClaim_def legs_ok_def list_ex_iff list_all_iff Let_def encode_mask_eq
        legs_mask_def not_less not_le distinct_map)
next
  assume l: ?lhs
  then have "legs \<noteq> []" by (auto simp: encodeClaim_def)
  then have "1 \<le> length legs" by (cases legs) auto
  with l have pre: "1 \<le> length legs" "length legs \<le> 3" "distinct (map ans_event legs)"
      "list_all (\<lambda>l. 0 \<le> ans_event l \<and> ans_event l < events) legs"
      "rule = R_AT_LEAST_TWO \<longrightarrow> 2 \<le> length legs"
    by (auto simp: encodeClaim_def Let_def list_ex_iff list_all_iff distinct_map split: if_splits)
  then have ne: "sort_legs legs \<noteq> []" by auto
  with l pre have v: "\<exists>es. validateClaim (encode_scope (sort_legs legs)) m events = ok es"
    and sm: "scope = encode_scope (sort_legs legs)" "m = int_str (legs_mask legs rule)"
    by (auto simp: encodeClaim_def Let_def encode_mask_eq legs_mask_def split: if_splits)
  then show ?rhs using pre by (auto simp: validateClaim_iff legs_ok_def)
qed

section \<open>Encoding keeps the payout rule\<close>

text \<open>The answers a full-pool state gives to each leg, and whether the rule holds of them.\<close>

definition rule_pays :: "claim_rule \<Rightarrow> answer list \<Rightarrow> int \<Rightarrow> bool" where
  "rule_pays rule legs state = rule_holds rule (map (\<lambda>l. bit state (nat (ans_event l)) = ans_yes l) legs)"

lemma legs_mask_pays:
  assumes ok: "legs_ok events legs rule"
    and s: "claim_scope c = encode_scope (sort_legs legs)" and m: "claim_mask c = legs_mask legs rule"
  shows "paysIn c state = rule_pays rule legs state"
proof -
  let ?es = "map (\<lambda>l. nat (ans_event l)) (sort_legs legs)"
  let ?f = "\<lambda>l. bit state (nat (ans_event l)) = ans_yes l"
  have "length (sort_legs legs) \<le> 31" using legs_okD(5) [OF ok] by simp
  then have lm: "leg_matches (sort_legs legs) (local_state state ?es) = map ?f (sort_legs legs)"
    by (rule leg_matches_local)
  have "paysIn c state = bit (legs_mask legs rule) (local_state state ?es)"
    using legs_scope [OF ok] by (simp add: paysIn_iff s m)
  also have "\<dots> = rule_holds rule (map ?f (sort_legs legs))"
    using local_state_less [of state ?es] by (simp add: legs_mask_def bit_mask_of lm)
  also have "\<dots> = rule_holds rule (map ?f legs)" by (rule rule_holds_perm) simp
  finally show ?thesis by (simp add: rule_pays_def)
qed

lemma canonical_ok [simp]: "canonical r = ok x \<longleftrightarrow> r = ok x"
  by (auto simp: canonical_def split: sum.splits)

lemma assertClaim_ok_iff:
  "assertClaim c n = ok d \<longleftrightarrow> d = c \<and> claim_chain c = CHAIN_ID \<and> is_0x_lhex 40 (claim_pool c) \<and>
    0 < claim_mask c \<and> (\<exists>es. validateClaim (claim_scope c) (int_str (claim_mask c)) n = ok es)"
  by (auto simp: assertClaim_def)

text \<open>The claims a pool of \<open>n\<close> events accepts.\<close>

definition wf_claim :: "int \<Rightarrow> claim \<Rightarrow> bool" where
  "wf_claim n c = (assertClaim c n = ok c)"

lemma wf_claimD:
  assumes "wf_claim n c"
  shows "claim_chain c = CHAIN_ID" "is_0x_lhex 40 (claim_pool c)" "0 < claim_mask c"
    "n = 2 \<or> n = 3 \<or> n = 4" "0 < claim_scope c" "claim_scope c < 2 ^ nat n"
    "length (scopeEvents (claim_scope c)) \<le> 3"
    "claim_mask c < 2 ^ (2 ^ length (scopeEvents (claim_scope c))) - 1"
    "is_mask_str (int_str (claim_mask c))"
  using assms by (auto simp: wf_claim_def assertClaim_ok_iff validateClaim_iff str_nat_int_str)

lemma encode_ok_iff:
  "encode pool n legs rule = ok c \<longleftrightarrow>
    legs_ok n legs rule \<and> is_0x_lhex 40 pool \<and>
    c = \<lparr>claim_chain = CHAIN_ID, claim_pool = pool, claim_scope = encode_scope (sort_legs legs),
      claim_mask = legs_mask legs rule\<rparr>"
proof -
  have *: "assertClaim \<lparr>claim_chain = CHAIN_ID, claim_pool = pool, claim_scope = encode_scope (sort_legs legs),
      claim_mask = legs_mask legs rule\<rparr> n = ok d \<longleftrightarrow> is_0x_lhex 40 pool \<and>
      d = \<lparr>claim_chain = CHAIN_ID, claim_pool = pool, claim_scope = encode_scope (sort_legs legs),
      claim_mask = legs_mask legs rule\<rparr>" if "legs_ok n legs rule" for d
    using legs_validate [OF that] legs_mask_range [OF that] by (auto simp: assertClaim_ok_iff)
  show ?thesis
    using legs_mask_range [of n legs rule]
    by (auto simp: encode_def encodeClaim_iff * str_nat_int_str)
qed

lemma encode_wf: "encode pool n legs rule = ok c \<Longrightarrow> wf_claim n c"
  unfolding wf_claim_def
  using legs_validate [of n legs rule] legs_mask_range [of n legs rule]
  by (auto simp: encode_ok_iff assertClaim_ok_iff)

lemma encode_pays_rule: "encode pool n legs rule = ok c \<Longrightarrow> paysIn c state = rule_pays rule legs state"
  by (rule legs_mask_pays [of n]) (auto simp: encode_ok_iff)

section \<open>Decoding\<close>

lemma sorted_scopeEvents: "sorted (scopeEvents s)" and distinct_scopeEvents: "distinct (scopeEvents s)"
  unfolding scopeEvents_eq by (auto intro: sorted_wrt_filter)

lemma state_answers_events: "map ans_event (state_answers es s) = map int es"
  by (rule nth_equalityI) (auto simp: state_answers_def nth_enumerate_eq)

lemma length_state_answers [simp]: "length (state_answers es s) = length es"
  by (simp add: state_answers_def)

lemma state_answers_target:
  assumes "length legs \<le> 31" "list_all (\<lambda>l. 0 \<le> ans_event l) legs"
  shows "state_answers (map (\<lambda>l. nat (ans_event l)) legs) (target_state (\<lambda>_. True) legs) = legs"
proof (rule nth_equalityI)
  fix i assume "i < length (state_answers (map (\<lambda>l. nat (ans_event l)) legs) (target_state (\<lambda>_. True) legs))"
  then have i: "i < length legs" "i < 32" and "0 \<le> ans_event (legs ! i)"
    using assms by (auto simp: list_all_length)
  then show "state_answers (map (\<lambda>l. nat (ans_event l)) legs) (target_state (\<lambda>_. True) legs) ! i = legs ! i"
    by (simp add: state_answers_def nth_enumerate_eq js_bit_iff bit_of_nat_iff_bit target_state_def
        bit_horner_sum_bit_iff)
qed simp

lemma sort_legs_idem: "sorted (map ans_event legs) \<Longrightarrow> sort_legs legs = legs"
  by (simp add: sorted_sort_id sort_key_id_if_sorted)

lemma legs_ok_sort: "legs_ok events legs rule \<Longrightarrow> legs_ok events (sort_legs legs) rule"
  by (auto simp: legs_ok_def list_all_iff distinct_map)

lemma legs_mask_sort: "legs_mask (sort_legs legs) rule = legs_mask legs rule"
  by (simp add: legs_mask_def sort_legs_idem)

lemma encode_scope_of_events:
  assumes "map ans_event legs = map int (scopeEvents scope)" "0 \<le> scope" "scope < 2 ^ 31"
  shows "encode_scope legs = scope"
proof (rule bit_eqI)
  fix i
  have ev: "ans_event ` set legs = int ` {i. i < 31 \<and> bit scope i}"
  proof -
    have "set (map ans_event legs) = set (map int (scopeEvents scope))" by (simp only: assms(1))
    then show ?thesis by (auto simp: scopeEvents_eq)
  qed
  have "\<forall>e\<in>ans_event ` set legs. 0 \<le> e \<and> e < 31" unfolding ev by auto
  then have r: "list_all (\<lambda>l. 0 \<le> ans_event l \<and> ans_event l < 31) legs"
    by (auto simp: list_all_iff)
  have "bit (encode_scope legs) i \<longleftrightarrow> int i \<in> ans_event ` set legs"
    unfolding bit_encode_scope [OF r] image_iff
    by (rule bex_cong) (use r in \<open>auto simp: list_all_iff\<close>)
  also have "\<dots> \<longleftrightarrow> bit scope i"
    unfolding ev using bit_small_nat [OF assms(2,3), of i] by auto
  finally show "bit (encode_scope legs) i = bit scope i" .
qed

text \<open>The answers \<open>decodeClaim\<close> tries are always encodable.\<close>

lemma state_answers_ok:
  assumes "wf_claim n c" "rule = R_AT_LEAST_TWO \<longrightarrow> 2 \<le> length (scopeEvents (claim_scope c))"
  shows "legs_ok n (state_answers (scopeEvents (claim_scope c)) s) rule"
proof -
  let ?es = "scopeEvents (claim_scope c)"
  note w = wf_claimD [OF assms(1)]
  have lt: "e < nat n" if "e \<in> set ?es" for e
    using that w(5,6) by (auto simp: scopeEvents_eq dest: bit_small_nat [rotated 2])
  have "?es \<noteq> []"
  proof
    assume "?es = []"
    then have "encode_scope [] = claim_scope c"
      using w by (intro encode_scope_of_events) auto
    then show False using w(5) by (simp add: encode_scope_def)
  qed
  then have len: "1 \<le> length ?es" by (cases ?es) auto
  have "distinct (map int ?es)" by (simp add: distinct_map distinct_scopeEvents inj_on_def)
  moreover have "list_all (\<lambda>e. 0 \<le> e \<and> e < n) (map int ?es)"
    using lt w(4) by (fastforce simp: list_all_iff)
  ultimately have "distinct (map ans_event (state_answers ?es s))"
    "list_all (\<lambda>e. 0 \<le> e \<and> e < n) (map ans_event (state_answers ?es s))"
    by (simp_all only: state_answers_events)
  then show ?thesis
    using w(4,7) len assms(2) by (auto simp: legs_ok_def list_all_iff)
qed

lemma sorted_state_answers: "sort_legs (state_answers (scopeEvents sc) s) = state_answers (scopeEvents sc) s"
  by (rule sort_legs_idem) (simp add: state_answers_events sorted_scopeEvents sorted_map sorted_wrt_mono_rel)

definition decode_try :: "int \<Rightarrow> string \<Rightarrow> nat list \<Rightarrow> claim_rule \<times> nat \<Rightarrow> (claim_rule \<times> answer list) option res" where
  "decode_try n m es = (\<lambda>(rule, state).
     if rule = R_AT_LEAST_TWO \<and> length es < 2 then ok None
     else let legs = state_answers es state in
       bindE (encodeClaim n legs rule) (\<lambda>(_, m'). ok (if m' = m then Some (rule, legs) else None)))"

lemma describe_unfold:
  assumes "wf_claim n c"
  shows "describe c n = canonical (findE (decode_try n (int_str (claim_mask c)) (scopeEvents (claim_scope c)))
    (concat (map (\<lambda>rule. map (Pair rule) (rev [0..<2 ^ length (scopeEvents (claim_scope c))])) CLAIM_RULES)))"
proof -
  have "validateClaim (claim_scope c) (int_str (claim_mask c)) n = ok (scopeEvents (claim_scope c))"
    using assms by (auto simp: wf_claim_def assertClaim_ok_iff validateClaim_iff)
  then show ?thesis by (simp add: describe_def decodeClaim_def decode_try_def)
qed

lemma describe_sound:
  assumes "wf_claim n c" "describe c n = ok (Some (rule, legs))"
  shows "encode (claim_pool c) n legs rule = ok c"
proof -
  let ?es = "scopeEvents (claim_scope c)"
  note w = wf_claimD [OF assms(1)]
  from assms(2) obtain r s where t: "decode_try n (int_str (claim_mask c)) ?es (r, s) = ok (Some (rule, legs))"
    unfolding describe_unfold [OF assms(1)] by (auto dest: findE_SomeD)
  then have legs: "legs = state_answers ?es s" and r: "r = rule"
    and cond: "rule = R_AT_LEAST_TWO \<longrightarrow> 2 \<le> length ?es"
    and e: "\<exists>sc. encodeClaim n legs rule = ok (sc, int_str (claim_mask c))"
    by (auto simp: decode_try_def Let_def split: if_splits)
  have ok: "legs_ok n legs rule" unfolding legs by (rule state_answers_ok [OF assms(1) cond])
  have "encode_scope (sort_legs legs) = claim_scope c"
    unfolding legs sorted_state_answers using w
    by (intro encode_scope_of_events) (auto simp: state_answers_events intro: less_trans)
  moreover have "legs_mask legs rule = claim_mask c"
    using e by (auto simp: encodeClaim_iff int_str_inject)
  ultimately show ?thesis using ok w by (simp add: encode_ok_iff)
qed

lemma describe_encoded:
  assumes "encode pool n legs rule = ok c"
  shows "\<exists>rule' legs'. describe c n = ok (Some (rule', legs'))"
proof -
  let ?es = "scopeEvents (claim_scope c)" and ?s = "target_state (\<lambda>_. True) (sort_legs legs)"
  have w: "wf_claim n c" using assms by (rule encode_wf)
  have ok: "legs_ok n legs rule" and sc: "claim_scope c = encode_scope (sort_legs legs)"
    and mk: "claim_mask c = legs_mask legs rule"
    using assms by (auto simp: encode_ok_iff)
  have es: "?es = map (\<lambda>l. nat (ans_event l)) (sort_legs legs)" using legs_scope [OF ok] sc by simp
  have sa: "state_answers ?es ?s = sort_legs legs"
    unfolding es using legs_okD(1,5) [OF ok]
    by (intro state_answers_target) (auto simp: list_all_iff)
  let ?xs = "concat (map (\<lambda>rule. map (Pair rule) (rev [0..<2 ^ length ?es])) CLAIM_RULES)"
  have mem: "(rule, ?s) \<in> set ?xs"
    using target_state_less [of "\<lambda>_. True" "sort_legs legs"]
    by (cases rule) (auto simp: CLAIM_RULES_def es)
  have len: "length ?es = length legs" by (simp add: es)
  have hit: "decode_try n (int_str (claim_mask c)) ?es (rule, ?s) = ok (Some (rule, sort_legs legs))"
    using encodeClaim_iff [of n "sort_legs legs" rule, THEN iffD2, OF conjI [OF legs_ok_sort [OF ok] conjI [OF refl refl]]]
      ok by (auto simp: decode_try_def sa Let_def legs_mask_sort mk len legs_ok_def)
  have total: "\<exists>r. decode_try n (int_str (claim_mask c)) ?es x = ok r" for x
  proof (cases x)
    case (Pair r s)
    show ?thesis
    proof (cases "r = R_AT_LEAST_TWO \<and> length ?es < 2")
      case True
      with Pair show ?thesis by (simp add: decode_try_def)
    next
      case False
      then have "legs_ok n (state_answers ?es s) r" by (intro state_answers_ok [OF w]) auto
      then show ?thesis using Pair by (auto simp: decode_try_def Let_def encodeClaim_iff)
    qed
  qed
  obtain y where "findE (decode_try n (int_str (claim_mask c)) ?es) ?xs = ok (Some y)"
    using findE_complete [where f = "decode_try n (int_str (claim_mask c)) ?es" and xs = ?xs,
        OF total mem hit] by blast
  then show ?thesis unfolding describe_unfold [OF w] by (cases y) auto
qed

section \<open>JSON\<close>

lemma claimFromJSON_toJSON: "wf_claim n c \<Longrightarrow> claimFromJSON (claimToJSON c) n = ok c"
proof -
  assume w: "wf_claim n c"
  note d = wf_claimD [OF w]
  have rec: "\<lparr>claim_chain = claim_chain c, claim_pool = claim_pool c, claim_scope = claim_scope c,
      claim_mask = claim_mask c\<rparr> = c"
    by (cases c) simp
  have "lower (claim_pool c) = claim_pool c" using d(2) by (rule lower_0x_lhex)
  then have "claimFromJSON (claimToJSON c) n = assertClaim \<lparr>claim_chain = claim_chain c,
      claim_pool = claim_pool c, claim_scope = claim_scope c, claim_mask = claim_mask c\<rparr> n"
    using d(3,9) by (simp add: claimFromJSON_def claimToJSON_def jget_def str_nat_int_str)
  also have "\<dots> = ok c" using w unfolding rec wf_claim_def .
  finally show ?thesis .
qed

lemma claimFromJSON_wf: "claimFromJSON v n = ok c \<Longrightarrow> wf_claim n c"
  by (auto simp: claimFromJSON_def wf_claim_def assertClaim_ok_iff split: json.splits if_splits)

section \<open>Winning combinations\<close>

lemma leg_answers_iff:
  "(\<forall>a\<in>set (state_answers es s). bit state (nat (ans_event a)) = ans_yes a) \<longleftrightarrow>
    (\<forall>i<length es. bit state (es ! i) = js_bit (int s) i)"
  by (simp add: state_answers_def all_set_conv_all_nth nth_enumerate_eq)

lemma state_answers_match:
  assumes "s < 2 ^ length es" "length es \<le> 31"
  shows "(\<forall>a\<in>set (state_answers es s). bit state (nat (ans_event a)) = ans_yes a) \<longleftrightarrow> s = local_state state es"
proof -
  have small: "bit s i \<longrightarrow> i < length es" for i
    using assms(1) by (metis bit_take_bit_iff take_bit_nat_eq_self)
  have "(\<forall>a\<in>set (state_answers es s). bit state (nat (ans_event a)) = ans_yes a)
      \<longleftrightarrow> (\<forall>i<length es. bit state (es ! i) = bit s i)"
    unfolding leg_answers_iff using assms(2) by (auto simp: js_bit_iff bit_of_nat_iff_bit)
  also have "\<dots> \<longleftrightarrow> (\<forall>i. bit s i = bit (local_state state es) i)"
    using small by (auto simp: bit_local_state)
  finally show ?thesis by (auto intro: bit_eqI)
qed

lemma winningCombinations_eq:
  assumes "wf_claim n c"
  shows "winningCombinations c n = ok (map (state_answers (scopeEvents (claim_scope c)))
    (filter (\<lambda>s. bit (claim_mask c) s) [0..<2 ^ length (scopeEvents (claim_scope c))]))"
proof -
  have v: "validateClaim (claim_scope c) (int_str (claim_mask c)) n = ok (scopeEvents (claim_scope c))"
    using assms by (auto simp: wf_claim_def assertClaim_ok_iff validateClaim_iff)
  have "0 \<le> claim_mask c" using wf_claimD(3) [OF assms] by simp
  then show ?thesis
    by (simp add: winningCombinations_def claimScenarios_def v str_nat_int_str filter_map o_def
        and_pow_neq_0)
qed

section \<open>Keys\<close>

lemma takeWhile_no_colon: "list_all (\<lambda>c. c \<noteq> x) s \<Longrightarrow> takeWhile (\<lambda>c. c \<noteq> x) (s @ x # t) = s"
  by (induction s) auto

lemma split_at_colon:
  assumes "list_all (\<lambda>c. c \<noteq> x) s" "list_all (\<lambda>c. c \<noteq> x) s'" "s @ x # t = s' @ x # t'"
  shows "s = s' \<and> t = t'"
  using assms takeWhile_no_colon [of x s t] takeWhile_no_colon [of x s' t'] by auto

lemma int_str_no_colon: "list_all (\<lambda>c. c \<noteq> CHR '':'') (int_str i)"
proof -
  have "list_all (\<lambda>c. c \<noteq> CHR '':'') (nat_str n)" for n
    using nat_str_all_dec [of n] by (auto simp: list_all_iff is_dec_def code_def)
  then show ?thesis by (simp add: int_str_def)
qed

lemma claimKey_inject:
  assumes "length (claim_pool c) = length (claim_pool d)" "claimKey c = claimKey d"
  shows "c = d"
proof -
  let ?i = int_str
  have a: "?i (claim_chain c) @ CHR '':'' # (claim_pool c @ CHR '':'' # ?i (claim_scope c) @ CHR '':'' # ?i (claim_mask c))
      = ?i (claim_chain d) @ CHR '':'' # (claim_pool d @ CHR '':'' # ?i (claim_scope d) @ CHR '':'' # ?i (claim_mask d))"
    using assms(2) by (simp add: claimKey_def)
  note b = split_at_colon [OF int_str_no_colon int_str_no_colon a]
  then have pool: "claim_pool c = claim_pool d"
    and "?i (claim_scope c) @ CHR '':'' # ?i (claim_mask c) = ?i (claim_scope d) @ CHR '':'' # ?i (claim_mask d)"
    using assms(1) by auto
  note e = split_at_colon [OF int_str_no_colon int_str_no_colon this(2)]
  show ?thesis using b pool e by (cases c; cases d) (simp add: int_str_inject)
qed

section \<open>Properties\<close>

text \<open>C31: A claim built by the encoder pays in a full-pool state exactly when its payout
  rule (all, at least one, exactly one, at least two) holds of its answers in that state.\<close>

theorem encode_pays:
  assumes "encode pool n legs rule = ok c"
  shows "paysIn c state
    = rule_holds rule (map (\<lambda>l. bit state (nat (ans_event l)) = ans_yes l) legs)"
  using encode_pays_rule [OF assms] by (simp add: rule_pays_def)

definition example_pool :: string where
  "example_pool = ''0x00000000000000000000000000000000f1c7a0e0''"

definition example_legs :: "answer list" where
  "example_legs = [\<lparr>ans_event = 2, ans_yes = True\<rparr>, \<lparr>ans_event = 0, ans_yes = False\<rparr>]"

lemma example_encode: "encode example_pool 3 example_legs R_OR
  = ok \<lparr>claim_chain = 10143, claim_pool = example_pool, claim_scope = 5, claim_mask = 13\<rparr>"
  unfolding example_pool_def example_legs_def by code_simp

theorem encode_pays_witness:
  "paysIn \<lparr>claim_chain = 10143, claim_pool = example_pool, claim_scope = 5, claim_mask = 13\<rparr> 4
    = rule_holds R_OR (map (\<lambda>l. bit (4::int) (nat (ans_event l)) = ans_yes l) example_legs)"
  by (rule encode_pays [OF example_encode])

text \<open>The encoder accepts exactly the answers the model allows: a pool address, two to
  four events, one to three answers on distinct events of the pool, and at least two answers
  for "at least two". It never builds a claim that always or never pays.\<close>

theorem encode_accepts:
  "(\<exists>c. encode pool n legs rule = ok c) =
    (is_0x_lhex 40 pool \<and> n \<in> {2, 3, 4} \<and> length legs \<in> {1, 2, 3} \<and> distinct (map ans_event legs)
     \<and> list_all (\<lambda>l. 0 \<le> ans_event l \<and> ans_event l < n) legs
     \<and> \<not> (rule = R_AT_LEAST_TWO \<and> length legs < 2))"
  by (auto simp: encode_ok_iff legs_ok_def)

text \<open>Every encoded claim is described by a name, and the named reading encodes back to
  the identical claim.\<close>

theorem describe_round_trip:
  assumes "encode pool n legs rule = ok c"
  shows "\<exists>rule' legs'. describe c n = ok (Some (rule', legs')) \<and> encode pool n legs' rule' = ok c"
proof -
  obtain rule' legs' where d: "describe c n = ok (Some (rule', legs'))"
    using describe_encoded [OF assms] by blast
  moreover have "claim_pool c = pool" using assms by (auto simp: encode_ok_iff)
  ultimately show ?thesis using describe_sound [OF encode_wf [OF assms] d] by auto
qed

theorem describe_round_trip_witness:
  "\<exists>rule' legs'. describe \<lparr>claim_chain = 10143, claim_pool = example_pool, claim_scope = 5, claim_mask = 13\<rparr> 3
      = ok (Some (rule', legs'))
    \<and> encode example_pool 3 legs' rule'
      = ok \<lparr>claim_chain = 10143, claim_pool = example_pool, claim_scope = 5, claim_mask = 13\<rparr>"
  by (rule describe_round_trip [OF example_encode])

lemma example_wf: "wf_claim 3 \<lparr>claim_chain = 10143, claim_pool = example_pool, claim_scope = 5, claim_mask = 13\<rparr>"
  by (rule encode_wf [OF example_encode])

text \<open>The winning combinations listed for a claim are its exact winning condition: the
  claim pays in a state when, and only when, the state gives all answers of one of them.\<close>

theorem winning_combinations_exact:
  assumes "wf_claim n c"
  shows "\<exists>combos. winningCombinations c n = ok combos \<and>
    (\<forall>state. paysIn c state =
      (\<exists>as\<in>set combos. \<forall>a\<in>set as. bit state (nat (ans_event a)) = ans_yes a))"
proof -
  let ?es = "scopeEvents (claim_scope c)"
  have "paysIn c state = (\<exists>as\<in>set (map (state_answers ?es) (filter (\<lambda>s. bit (claim_mask c) s) [0..<2 ^ length ?es])).
      \<forall>a\<in>set as. bit state (nat (ans_event a)) = ans_yes a)" for state
    using wf_claimD(7) [OF assms] local_state_less [of state ?es]
    by (auto simp: paysIn_iff state_answers_match)
  then show ?thesis using winningCombinations_eq [OF assms] by blast
qed

theorem winning_combinations_exact_witness:
  "\<exists>combos. winningCombinations \<lparr>claim_chain = 10143, claim_pool = example_pool, claim_scope = 5, claim_mask = 13\<rparr> 3 = ok combos \<and>
    paysIn \<lparr>claim_chain = 10143, claim_pool = example_pool, claim_scope = 5, claim_mask = 13\<rparr> 4 =
      list_ex (list_all (\<lambda>a. bit (4 :: int) (nat (ans_event a)) = ans_yes a)) combos"
  using winning_combinations_exact [OF example_wf] unfolding list_ex_iff list_all_iff by blast

text \<open>A claim a pool accepts crosses JSON unchanged, and reading JSON never yields a claim
  the pool would not accept.\<close>

theorem claim_json_round_trip:
  "(wf_claim n c \<longrightarrow> claimFromJSON (claimToJSON c) n = ok c)
    \<and> (claimFromJSON v n = ok d \<longrightarrow> wf_claim n d)"
  by (auto intro: claimFromJSON_toJSON claimFromJSON_wf)

theorem claim_json_round_trip_witness:
  "claimFromJSON (claimToJSON \<lparr>claim_chain = 10143, claim_pool = example_pool, claim_scope = 5, claim_mask = 13\<rparr>) 3
    = ok \<lparr>claim_chain = 10143, claim_pool = example_pool, claim_scope = 5, claim_mask = 13\<rparr>"
  using claim_json_round_trip [of 3 "\<lparr>claim_chain = 10143, claim_pool = example_pool, claim_scope = 5, claim_mask = 13\<rparr>"]
    example_wf by blast

text \<open>Claims of accepted pools have the same key only when they are the same claim, so the
  maps keyed by \<open>claimKey\<close> never mix two claims.\<close>

theorem claim_key_injective:
  assumes "wf_claim n c" and "wf_claim m d" and "claimKey c = claimKey d"
  shows "c = d"
proof (rule claimKey_inject [OF _ assms(3)])
  show "length (claim_pool c) = length (claim_pool d)"
    using wf_claimD(2) [OF assms(1)] wf_claimD(2) [OF assms(2)] by (simp add: is_0x_lhex_def)
qed

theorem claim_key_injective_witness:
  "\<lparr>claim_chain = 10143, claim_pool = example_pool, claim_scope = 5, claim_mask = 13\<rparr>
    = \<lparr>claim_chain = 10143, claim_pool = example_pool, claim_scope = 5, claim_mask = 13\<rparr>"
  by (rule claim_key_injective [OF example_wf example_wf refl])

end
