(* ===== verification/Payouts.thy ===== *)
theory Payouts
  imports Claim_Laws
begin

text \<open>
  Payout fractions after resolution (\<open>payoutFraction\<close> of claims.ts): the states an outcome
  with VOID events leaves open, their number, and conservation between a claim and its
  complement.
\<close>

section \<open>The states a resolution leaves open\<close>

text \<open>A resolution as the pool publishes it: disjoint sets of Yes and VOID events.\<close>

definition valid_resolution :: "int \<Rightarrow> resolution \<Rightarrow> bool" where
  "valid_resolution n r =
     (0 \<le> yesMask r \<and> yesMask r < 2 ^ nat n \<and> 0 \<le> voidMask r \<and> voidMask r < 2 ^ nat n
      \<and> yesMask r AND voidMask r = 0)"

definition open_state :: "int \<Rightarrow> resolution \<Rightarrow> int \<Rightarrow> bool" where
  "open_state n r state = (js_and state (js_xor (2 ^ nat n - 1) (voidMask r)) = yesMask r)"

definition states :: "int \<Rightarrow> int list" where
  "states n = map int [0..<2 ^ nat n]"

lemma set_states: "set (states n) = {s. 0 \<le> s \<and> s < 2 ^ nat n}"
proof -
  have "s \<in> int ` {0..<2 ^ nat n}" if "0 \<le> s" "s < 2 ^ nat n" for s
    using that by (intro image_eqI [of _ _ "nat s"]) (auto simp: nat_less_iff)
  then show ?thesis by (auto simp: states_def)
qed

lemma distinct_states: "distinct (states n)"
  by (simp add: states_def distinct_map)

lemma count_foldl:
  "foldl (\<lambda>(num, den) s. if \<not> P s then (num, den) else (if Q s then num + 1 else num, den + 1)) (a, b) xs
    = (a + int (length (filter (\<lambda>s. P s \<and> Q s) xs)), b + int (length (filter P xs)))"
  by (induction xs arbitrary: a b) auto

lemma payoutFraction_ok_iff:
  "payoutFraction c n r = ok (num, den) \<longleftrightarrow>
    wf_claim n c \<and> js_and (yesMask r) (voidMask r) = 0 \<and> yesMask r < 2 ^ nat n \<and> voidMask r < 2 ^ nat n \<and>
    num = int (length (filter (\<lambda>s. open_state n r s \<and> paysIn c s) (states n))) \<and>
    den = int (length (filter (open_state n r) (states n)))"
proof -
  have "foldl (\<lambda>(num, den) s. if js_and s (js_xor (2 ^ nat n - 1) (voidMask r)) \<noteq> yesMask r then (num, den)
      else (if paysIn c s then num + 1 else num, den + 1)) (0, 0) (map int [0..<2 ^ nat n])
    = (int (length (filter (\<lambda>s. open_state n r s \<and> paysIn c s) (states n))),
       int (length (filter (open_state n r) (states n))))"
    unfolding states_def open_state_def by (subst count_foldl) simp
  then show ?thesis
    by (auto simp: payoutFraction_def wf_claim_def assertClaim_ok_iff Let_def)
qed

section \<open>Bitwise facts of small masks\<close>

lemma to_int32_small: "0 \<le> v \<Longrightarrow> v < 2 ^ k \<Longrightarrow> k \<le> 31 \<Longrightarrow> to_int32 v = v"
proof -
  assume v: "0 \<le> v" "v < 2 ^ k" "k \<le> 31"
  have "(2::int) ^ k \<le> 2 ^ 31" using v(3) by (intro power_increasing) auto
  with v show ?thesis by (intro to_int32_id) (auto intro: order_trans [of _ 0])
qed

lemma valid_n: "wf_claim n c \<Longrightarrow> nat n \<le> 4"
  by (auto dest: wf_claimD(4))

lemma bit_known:
  assumes "nat n \<le> 4" "valid_resolution n r"
  shows "bit (js_xor (2 ^ nat n - 1) (voidMask r)) i \<longleftrightarrow> i < nat n \<and> \<not> bit (voidMask r) i"
proof -
  have v: "0 \<le> voidMask r" "voidMask r < 2 ^ nat n" using assms(2) by (auto simp: valid_resolution_def)
  have m: "(2::int) ^ nat n - 1 = mask (nat n)" by (simp add: mask_eq_exp_minus_1)
  have "take_bit (nat n) (mask (nat n) XOR voidMask r) = mask (nat n) XOR voidMask r"
    using v by (simp add: take_bit_xor take_bit_int_eq_self)
  then have "0 \<le> mask (nat n) XOR voidMask r" "mask (nat n) XOR voidMask r < 2 ^ nat n"
    by (metis take_bit_nonnegative, metis take_bit_int_less_exp)
  then have "js_xor (2 ^ nat n - 1) (voidMask r) = mask (nat n) XOR voidMask r"
    unfolding js_xor_def m using assms(1) by (intro to_int32_small [of _ "nat n"]) auto
  moreover have "bit (voidMask r) i \<longrightarrow> i < nat n" using v by (auto dest: bit_small_nat [rotated 2])
  ultimately show ?thesis by (auto simp: bit_xor_iff bit_mask_iff)
qed

lemma open_state_iff:
  assumes "nat n \<le> 4" "valid_resolution n r" "0 \<le> s" "s < 2 ^ nat n"
  shows "open_state n r s \<longleftrightarrow> (\<forall>i<nat n. \<not> bit (voidMask r) i \<longrightarrow> bit s i = bit (yesMask r) i)"
proof -
  let ?k = "js_xor (2 ^ nat n - 1) (voidMask r)"
  have y: "0 \<le> yesMask r" "yesMask r < 2 ^ nat n" "yesMask r AND voidMask r = 0"
    using assms(2) by (auto simp: valid_resolution_def)
  have "take_bit (nat n) (s AND ?k) = s AND ?k"
    using assms(3,4) by (intro bit_eqI) (auto simp: bit_take_bit_iff bit_and_iff dest: bit_small_nat [rotated 2])
  then have "0 \<le> s AND ?k" "s AND ?k < 2 ^ nat n"
    by (metis take_bit_nonnegative, metis take_bit_int_less_exp)
  then have j: "js_and s ?k = s AND ?k"
    unfolding js_and_def using assms(1) by (intro to_int32_small [of _ "nat n"]) auto
  have yb: "bit (yesMask r) i \<longrightarrow> i < nat n \<and> \<not> bit (voidMask r) i" for i
    using y bit_small_nat [OF y(1,2), of i] by (metis bit_0_eq bit_and_iff bot_apply bot_bool_def)
  have "open_state n r s \<longleftrightarrow> (\<forall>i. bit (s AND ?k) i = bit (yesMask r) i)"
    unfolding open_state_def j by (metis bit_eqI)
  also have "\<dots> \<longleftrightarrow> (\<forall>i<nat n. \<not> bit (voidMask r) i \<longrightarrow> bit s i = bit (yesMask r) i)"
    using yb by (auto simp: bit_and_iff bit_known [OF assms(1,2)])
  finally show ?thesis .
qed

definition state_of_bits :: "nat \<Rightarrow> (nat \<Rightarrow> bool) \<Rightarrow> int" where
  "state_of_bits n p = horner_sum of_bool 2 (map p [0..<n])"

lemma bit_state_of_bits: "bit (state_of_bits n p) i \<longleftrightarrow> i < n \<and> p i"
  by (auto simp: state_of_bits_def bit_horner_sum_bit_iff)

lemma state_of_bits_range: "0 \<le> state_of_bits n p \<and> state_of_bits n p < 2 ^ n"
proof -
  have "take_bit n (state_of_bits n p) = state_of_bits n p"
    by (rule bit_eqI) (auto simp: bit_take_bit_iff bit_state_of_bits)
  then show ?thesis by (metis take_bit_nonnegative take_bit_int_less_exp)
qed

text \<open>One open state for each way to answer the VOID events.\<close>

lemma card_open_states:
  assumes "nat n \<le> 4" "valid_resolution n r"
  shows "length (filter (open_state n r) (states n)) = 2 ^ card {i. bit (voidMask r) i}"
proof -
  let ?V = "{i. bit (voidMask r) i}" and ?S = "set (filter (open_state n r) (states n))"
  have v: "0 \<le> voidMask r" "voidMask r < 2 ^ nat n" using assms(2) by (auto simp: valid_resolution_def)
  then have V: "?V \<subseteq> {..<nat n}" by (auto dest: bit_small_nat [rotated 2])
  have "bij_betw (\<lambda>s. {i. bit s i} \<inter> ?V) ?S (Pow ?V)"
  proof (rule bij_betwI')
    fix s t assume "s \<in> ?S" "t \<in> ?S"
    then have st: "0 \<le> s" "s < 2 ^ nat n" "0 \<le> t" "t < 2 ^ nat n" and "open_state n r s" "open_state n r t"
      by (auto simp: set_states)
    then have known: "\<forall>i<nat n. \<not> bit (voidMask r) i \<longrightarrow> bit s i = bit t i"
      by (auto simp: open_state_iff [OF assms])
    show "({i. bit s i} \<inter> ?V = {i. bit t i} \<inter> ?V) = (s = t)"
    proof
      assume eq: "{i. bit s i} \<inter> ?V = {i. bit t i} \<inter> ?V"
      show "s = t"
      proof (rule bit_eqI)
        fix i
        show "bit s i = bit t i"
          using eq known bit_small_nat [OF st(1,2), of i] bit_small_nat [OF st(3,4), of i] by blast
      qed
    qed simp
  next
    fix s show "{i. bit s i} \<inter> ?V \<in> Pow ?V" by auto
  next
    fix A assume A: "A \<in> Pow ?V"
    let ?s = "state_of_bits (nat n) (\<lambda>i. i \<in> A \<or> bit (yesMask r) i \<and> \<not> bit (voidMask r) i)"
    have r: "0 \<le> ?s" "?s < 2 ^ nat n" using state_of_bits_range by auto
    have "?s \<in> ?S" using r A by (auto simp: set_states open_state_iff [OF assms] bit_state_of_bits)
    moreover have "A = {i. bit ?s i} \<inter> ?V" using A V by (auto simp: bit_state_of_bits)
    ultimately show "\<exists>s\<in>?S. A = {i. bit s i} \<inter> ?V" by blast
  qed
  then have "card ?S = card (Pow ?V)" by (rule bij_betw_same_card)
  also have "\<dots> = 2 ^ card ?V" using V by (intro card_Pow) (auto intro: finite_subset)
  finally show ?thesis by (metis distinct_card distinct_filter distinct_states)
qed

section \<open>Complements\<close>

text \<open>The claim that pays exactly where \<open>c\<close> does not.\<close>

definition complement :: "claim \<Rightarrow> claim" where
  "complement c = c\<lparr>claim_mask := 2 ^ (2 ^ length (scopeEvents (claim_scope c))) - 1 - claim_mask c\<rparr>"

lemma bit_complement:
  assumes "0 \<le> m" "m < 2 ^ k" "j < k"
  shows "bit (2 ^ k - 1 - m :: int) j \<longleftrightarrow> \<not> bit m j"
proof -
  have "2 ^ k - 1 - m = take_bit k (NOT m)"
    using assms(1,2) by (simp add: take_bit_not_eq_mask_diff take_bit_int_eq_self mask_eq_exp_minus_1)
  then show ?thesis using assms(3) by (simp add: bit_take_bit_iff bit_not_iff)
qed

lemma paysIn_complement: "wf_claim n c \<Longrightarrow> paysIn (complement c) s \<longleftrightarrow> \<not> paysIn c s"
  using wf_claimD(3,8) [of n c] local_state_less [of s "scopeEvents (claim_scope c)"]
  by (simp add: paysIn_iff complement_def bit_complement)

lemma wf_complement:
  assumes "wf_claim n c"
  shows "wf_claim n (complement c)"
proof -
  note w = wf_claimD [OF assms]
  let ?m = "claim_mask (complement c)" and ?N = "2 ^ length (scopeEvents (claim_scope c)) :: nat"
  have "?N \<le> 2 ^ 3" using w(7) by (intro power_increasing) auto
  then have "(2::int) ^ ?N \<le> 2 ^ 8" by (intro power_increasing) auto
  then have m: "0 < ?m" "?m < 1000" "?m < 2 ^ ?N - 1" using w(3,8) by (auto simp: complement_def)
  then have "is_mask_str (int_str ?m)" by (intro is_mask_str_int_str)
  then show ?thesis
    using w m by (auto simp: wf_claim_def assertClaim_ok_iff validateClaim_iff str_nat_int_str complement_def)
qed

lemma filter_split: "length (filter (\<lambda>s. P s \<and> Q s) xs) + length (filter (\<lambda>s. P s \<and> \<not> Q s) xs)
    = length (filter P xs)"
  by (induction xs) auto

lemma floor_shares: "0 < d \<Longrightarrow> a + b = d \<Longrightarrow> 0 \<le> q \<Longrightarrow> (q * a) div d + (q * b) div d \<le> (q::int)"
proof -
  assume d: "0 < d" "a + b = d" "0 \<le> q"
  have "d * ((q * a) div d) \<le> q * a" "d * ((q * b) div d) \<le> q * b"
    using d(1) mult_div_mod_eq [of d "q * a"] mult_div_mod_eq [of d "q * b"]
      pos_mod_sign [of d "q * a"] pos_mod_sign [of d "q * b"] by linarith+
  then have "d * ((q * a) div d + (q * b) div d) \<le> q * a + q * b" by (simp add: distrib_left)
  also have "\<dots> = d * q" using d(2) by (metis distrib_left mult.commute)
  finally show ?thesis using d(1) by simp
qed

section \<open>Properties\<close>

lemma payout_counts:
  assumes "wf_claim n c" and "valid_resolution n r"
  shows "payoutFraction c n r = ok (int (card {s. 0 \<le> s \<and> s < 2 ^ nat n \<and> open_state n r s \<and> paysIn c s}),
    2 ^ card {i. bit (voidMask r) i})"
proof -
  have r: "yesMask r < 2 ^ nat n" "voidMask r < 2 ^ nat n" "js_and (yesMask r) (voidMask r) = 0"
    using assms(2) by (auto simp: valid_resolution_def js_and_def to_int32_def)
  have "{s. 0 \<le> s \<and> s < 2 ^ nat n \<and> open_state n r s \<and> paysIn c s}
      = set (filter (\<lambda>s. open_state n r s \<and> paysIn c s) (states n))"
    by (auto simp: set_states)
  also have "card \<dots> = length (filter (\<lambda>s. open_state n r s \<and> paysIn c s) (states n))"
    by (rule distinct_card) (simp add: distinct_states)
  finally show ?thesis
    using assms(1) r card_open_states [OF valid_n [OF assms(1)] assms(2)]
    by (simp add: payoutFraction_ok_iff)
qed

text \<open>Under a published resolution a claim's payout fraction exists: its denominator
  counts the outcomes the VOID events leave open, one for each way to answer them, and its
  numerator those of them in which the claim pays.\<close>

theorem payout_fraction_counts:
  assumes "wf_claim n c" and "valid_resolution n r"
  shows "payoutFraction c n r = ok (int (card {s. 0 \<le> s \<and> s < 2 ^ nat n \<and> open_state n r s \<and> paysIn c s}),
    2 ^ card {i. bit (voidMask r) i})"
  using assms by (rule payout_counts)

definition example_claim :: claim where
  "example_claim = \<lparr>claim_chain = 10143, claim_pool = ''0x00000000000000000000000000000000f1c7a0e0'',
     claim_scope = 3, claim_mask = 8\<rparr>"

lemma example_claim_wf: "wf_claim 3 example_claim"
  unfolding wf_claim_def example_claim_def by code_simp

lemma example_resolution: "valid_resolution 3 \<lparr>yesMask = 1, voidMask = 2\<rparr>"
  by (simp add: valid_resolution_def)

theorem payout_fraction_counts_witness:
  "payoutFraction example_claim 3 \<lparr>yesMask = 1, voidMask = 2\<rparr>
    = ok (int (card {s. 0 \<le> s \<and> s < 2 ^ nat 3 \<and> open_state 3 \<lparr>yesMask = 1, voidMask = 2\<rparr> s \<and> paysIn example_claim s}),
      2 ^ card {i. bit (voidMask \<lparr>yesMask = 1, voidMask = 2\<rparr>) i})"
  by (rule payout_fraction_counts [OF example_claim_wf example_resolution])

text \<open>Without VOID events the payout is all or nothing, decided by \<open>paysIn\<close> at the
  resolved state.\<close>

theorem payout_without_void:
  assumes "wf_claim n c" and "0 \<le> y" and "y < 2 ^ nat n"
  shows "payoutFraction c n \<lparr>yesMask = y, voidMask = 0\<rparr> = ok (if paysIn c y then 1 else 0, 1)"
proof -
  let ?r = "\<lparr>yesMask = y, voidMask = 0\<rparr>"
  have v: "valid_resolution n ?r" using assms by (simp add: valid_resolution_def)
  have "open_state n ?r s \<longleftrightarrow> s = y" if "0 \<le> s" "s < 2 ^ nat n" for s
  proof -
    have "open_state n ?r s \<longleftrightarrow> (\<forall>i<nat n. bit s i = bit y i)"
      using open_state_iff [OF valid_n [OF assms(1)] v that] by simp
    also have "\<dots> \<longleftrightarrow> (\<forall>i. bit s i = bit y i)"
      using bit_small_nat [OF that] bit_small_nat [OF assms(2,3)] by blast
    finally show ?thesis by (auto intro: bit_eqI)
  qed
  then have "{s. 0 \<le> s \<and> s < 2 ^ nat n \<and> open_state n ?r s \<and> paysIn c s} = (if paysIn c y then {y} else {})"
    using assms(2,3) by auto
  then show ?thesis using payout_counts [OF assms(1) v] by simp
qed

theorem payout_without_void_witness:
  "payoutFraction example_claim 3 \<lparr>yesMask = 7, voidMask = 0\<rparr>
    = ok (if paysIn example_claim 7 then 1 else 0, 1)"
  using payout_without_void [OF example_claim_wf, of 7] by simp

text \<open>C33: Whatever the resolution, a claim and its complement share the whole payout between
  them: together they never pay more than the shares bought, and the fractions add up to one.\<close>

theorem payout_conserved:
  assumes "payoutFraction c n r = ok (num, den)"
  shows "payoutFraction (complement c) n r = ok (den - num, den) \<and> 0 \<le> num \<and> num \<le> den
    \<and> (0 < den \<longrightarrow> (\<forall>q\<ge>0. tdiv (q * num) den + tdiv (q * (den - num)) den \<le> q))"
proof -
  have w: "wf_claim n c" using assms by (simp add: payoutFraction_ok_iff)
  let ?P = "open_state n r" and ?Q = "paysIn c"
  have split: "length (filter (\<lambda>s. ?P s \<and> ?Q s) (states n)) + length (filter (\<lambda>s. ?P s \<and> \<not> ?Q s) (states n))
      = length (filter ?P (states n))" by (rule filter_split)
  have 1: "payoutFraction (complement c) n r = ok (den - num, den)" "0 \<le> num" "num \<le> den"
    using assms split by (auto simp: payoutFraction_ok_iff wf_complement [OF w] paysIn_complement [OF w])
  have "tdiv (q * num) den + tdiv (q * (den - num)) den \<le> q" if "0 < den" "0 \<le> q" for q
    using that 1 floor_shares [of den num "den - num" q] by simp
  with 1 show ?thesis by blast
qed

theorem payout_conserved_witness:
  "payoutFraction (complement example_claim) 3 \<lparr>yesMask = 1, voidMask = 2\<rparr> = ok (2 - 1, 2)
    \<and> tdiv (7 * 1) 2 + tdiv (7 * (2 - 1)) 2 \<le> 7"
proof -
  have "payoutFraction example_claim 3 \<lparr>yesMask = 1, voidMask = 2\<rparr> = ok (1, 2)"
    unfolding example_claim_def by code_simp
  from payout_conserved [OF this] show ?thesis by simp
qed

end
