(* ===== verification/Distribution.thy ===== *)
theory Distribution
  imports Payouts "HOL-Library.Product_Lexorder"
begin

text \<open>
  Joint forecasts (packages/sdk/src/distribution.ts): a distribution over every Yes/No
  combination of one to four events, in integer parts per million. State \<open>s\<close> has bit \<open>j\<close>
  set when the \<open>j\<close>-th event, in ascending order, is Yes.
\<close>

section \<open>The code\<close>

record joint =
  joint_events :: "int list"
  joint_states :: "int list"

text \<open>One event of the list breaks the order or the range.\<close>

definition bad_event :: "int list \<Rightarrow> int option \<Rightarrow> nat \<Rightarrow> bool" where
  "bad_event events eventCount i =
     (events ! i < 0 \<or> (case eventCount of None \<Rightarrow> False | Some n \<Rightarrow> events ! i \<ge> n)
      \<or> (i > 0 \<and> events ! (i - 1) \<ge> events ! i))"

definition assertJoint :: "joint \<Rightarrow> int option \<Rightarrow> joint res" where
  "assertJoint j eventCount =
     (let events = joint_events j; ps = joint_states j in
      if length events < 1 \<or> length events > 4 then throw Invalid_forecast
      else if list_ex (bad_event events eventCount) [0..<length events] then throw Invalid_forecast
      else if length ps \<noteq> 2 ^ length events \<or> list_ex (\<lambda>p. p < 0) ps then throw Invalid_forecast
      else if foldl (+) 0 ps \<noteq> PPM then throw Invalid_forecast
      else ok j)"

text \<open>\<open>indexOf\<close>: the first position of a value.\<close>

fun index_of :: "'a \<Rightarrow> 'a list \<Rightarrow> nat option" where
  "index_of x [] = None"
| "index_of x (y # ys) = (if x = y then Some 0 else map_option Suc (index_of x ys))"

definition event_index :: "joint \<Rightarrow> int \<Rightarrow> nat res" where
  "event_index j event = (case index_of event (joint_events j) of
     None \<Rightarrow> throw Invalid_forecast | Some i \<Rightarrow> ok i)"

text \<open>\<open>states.reduce((sum, p, s) => (test(s) ? sum + p : sum), 0n)\<close>.\<close>

definition reduce_where :: "(nat \<Rightarrow> bool) \<Rightarrow> int list \<Rightarrow> int" where
  "reduce_where P ps = foldl (\<lambda>sum (s, p). if P s then sum + p else sum) 0 (enumerate 0 ps)"

definition marginal :: "joint \<Rightarrow> int \<Rightarrow> int res" where
  "marginal j event = bindE (event_index j event) (\<lambda>i.
     let b = js_shl 1 i in ok (reduce_where (\<lambda>s. js_and (int s) b \<noteq> 0) (joint_states j)))"

definition both :: "joint \<Rightarrow> int \<Rightarrow> int \<Rightarrow> int res" where
  "both j a b = bindE (event_index j a) (\<lambda>i. bindE (event_index j b) (\<lambda>k.
     let bits = js_or (js_shl 1 i) (js_shl 1 k)
     in ok (reduce_where (\<lambda>s. js_and (int s) bits = bits) (joint_states j))))"

text \<open>The inner loop over the positions is the one of \<open>paysIn\<close>.\<close>

definition claimProbability :: "joint \<Rightarrow> claim \<Rightarrow> int res" where
  "claimProbability j c =
     bindE (mapE (\<lambda>e. event_index j (int e)) (scopeEvents (claim_scope c))) (\<lambda>positions.
       ok (reduce_where (\<lambda>s. claim_mask c AND push_bit (nat (local_index (int s) positions 0 0)) 1 \<noteq> 0)
         (joint_states j)))"

definition covers :: "joint \<Rightarrow> claim \<Rightarrow> bool" where
  "covers j c = list_all (\<lambda>e. List.member (joint_events j) (int e)) (scopeEvents (claim_scope c))"

definition bad_probability :: "int \<Rightarrow> bool" where
  "bad_probability p = (p < 0 \<or> p > PPM)"

definition frechetBounds :: "int \<Rightarrow> int \<Rightarrow> (int \<times> int) res" where
  "frechetBounds pA pB =
     (if list_ex bad_probability [pA, pB] then throw Invalid_forecast
      else let low = pA + pB - PPM in
        ok (if low > 0 then low else 0, if pA < pB then pA else pB))"

definition jointFromPair :: "int \<Rightarrow> int \<Rightarrow> int \<Rightarrow> int \<Rightarrow> int \<Rightarrow> joint res" where
  "jointFromPair a b pA pB pBoth =
     (if a = b then throw Invalid_forecast
      else bindE (frechetBounds pA pB) (\<lambda>(low, high).
        if pBoth < low \<or> pBoth > high then throw Invalid_forecast
        else let (first, second, pFirst, pSecond) = (if a < b then (a, b, pA, pB) else (b, a, pB, pA));
                 ps = [PPM - pFirst - pSecond + pBoth, pFirst - pBoth, pSecond - pBoth, pBoth]
          in assertJoint \<lparr>joint_events = [first, second], joint_states = ps\<rparr> None))"

text \<open>The product of the chances of a state: bit \<open>j\<close> picks \<open>p\<close> or its complement.\<close>

definition state_product :: "int list \<Rightarrow> nat \<Rightarrow> int" where
  "state_product ps s = foldl (\<lambda>product (j, p). product * (if js_bit (int s) j then p else PPM - p))
     1 (enumerate 0 ps)"

record raw_state =
  raw_s :: nat
  raw_whole :: int
  raw_rest :: int

definition raw_states :: "int list \<Rightarrow> int \<Rightarrow> raw_state list" where
  "raw_states ps scale = map (\<lambda>s. let product = state_product ps s in
     \<lparr>raw_s = s, raw_whole = tdiv product scale, raw_rest = tmod product scale\<rparr>) [0..<2 ^ length ps]"

text \<open>The largest remainders first; equal remainders in the order of their states.\<close>

fun top_up :: "raw_state list \<Rightarrow> int \<Rightarrow> int list \<Rightarrow> int list" where
  "top_up [] missing ps = ps"
| "top_up (r # rs) missing ps =
     (if missing \<le> 0 then ps
      else top_up rs (missing - 1) (ps[raw_s r := ps ! raw_s r + 1]))"

definition independentJoint :: "int list \<Rightarrow> int list \<Rightarrow> joint res" where
  "independentJoint events marginals =
     (if length events \<noteq> length marginals then throw Invalid_forecast
      else let order = sort_key fst (zip events marginals); ps = map snd order in
        if list_ex bad_probability ps then throw Invalid_forecast
        else if ps = [] then Inl (Other_error ''RangeError'')
        else let raw = raw_states ps (PPM ^ (length ps - 1));
                 missing = PPM - foldl (\<lambda>a r. a + raw_whole r) 0 raw;
                 final = top_up (sort_key (\<lambda>r. (- raw_rest r, raw_s r)) raw) missing (map raw_whole raw)
          in assertJoint \<lparr>joint_events = map fst order, joint_states = final\<rparr> None)"

definition jointToJSON :: "joint \<Rightarrow> json" where
  "jointToJSON j = JObj [(''events'', JArr (map JInt (joint_events j))),
     (''statesPpm'', JArr (map (\<lambda>p. JStr (int_str p)) (joint_states j)))]"

text \<open>\<open>/^(0|[1-9][0-9]{0,6})$/\<close> on a string.\<close>

fun is_ppm_str :: "json \<Rightarrow> bool" where
  "is_ppm_str (JStr s) = is_canon_dec_upto 6 s"
| "is_ppm_str _ = False"

fun jstr_val :: "json \<Rightarrow> string" where
  "jstr_val (JStr s) = s"
| "jstr_val _ = []"

text \<open>
  An event that is no integer fails the first check of \<open>assertJoint\<close>; it is tested here, where
  the list is still JSON. Every failure throws the same code.
\<close>

definition jointFromJSON :: "json \<Rightarrow> int option \<Rightarrow> joint res" where
  "jointFromJSON v eventCount =
     (case (jget v ''events'', jget v ''statesPpm'') of
        (JArr es, JArr ps) \<Rightarrow>
          (if \<not> list_all is_ppm_str ps then throw Invalid_forecast
           else if \<not> list_all is_jint es then throw Invalid_forecast
           else assertJoint \<lparr>joint_events = map jint_val es,
             joint_states = map (\<lambda>p. int (str_nat (jstr_val p))) ps\<rparr> eventCount)
      | _ \<Rightarrow> throw Invalid_forecast)"

end
