(* ===== verification/Distribution_Laws.thy ===== *)
theory Distribution_Laws
  imports Distribution
begin

text \<open>
  What a joint forecast guarantees: its marginals and joint chances obey the Frechet bounds,
  a forecast built from a pair reproduces the pair, an independent baseline sums to exactly
  one million with every state less than one part off the exact product, and a claim's chance
  is the chance of its payout rule.
\<close>

section \<open>Sums over states\<close>

lemma reduce_where_snoc:
  "reduce_where P (ps @ [p]) = reduce_where P ps + (if P (length ps) then p else 0)"
  by (simp add: reduce_where_def enumerate_append_eq)

lemma reduce_where_sum: "reduce_where P ps = (\<Sum>s | s < length ps \<and> P s. ps ! s)"
proof (induction ps rule: rev_induct)
  case Nil
  then show ?case by (simp add: reduce_where_def)
next
  case (snoc p ps)
  let ?S = "{s. s < length ps \<and> P s}"
  have "{s. s < length (ps @ [p]) \<and> P s} = ?S \<union> (if P (length ps) then {length ps} else {})"
    by (auto simp: less_Suc_eq)
  moreover have "(\<Sum>s\<in>?S. (ps @ [p]) ! s) = (\<Sum>s\<in>?S. ps ! s)"
    by (rule sum.cong) (auto simp: nth_append)
  ultimately show ?case using snoc
    by (auto simp: reduce_where_snoc sum.union_disjoint nth_append)
qed

lemma foldl_plus: "foldl (+) a ps = a + sum_list (ps :: int list)"
  by (induction ps arbitrary: a) auto

lemma reduce_where_True: "reduce_where (\<lambda>_. True) ps = sum_list ps"
  by (simp add: reduce_where_sum sum_list_sum_nth atLeast0LessThan lessThan_def)

lemma reduce_where_not:
  "reduce_where P ps + reduce_where (\<lambda>s. \<not> P s) ps = sum_list ps"
  by (induction ps rule: rev_induct) (auto simp: reduce_where_snoc, simp_all add: reduce_where_def)

lemma reduce_where_nonneg: "list_all (\<lambda>p. 0 \<le> p) ps \<Longrightarrow> 0 \<le> reduce_where P ps"
  by (induction ps rule: rev_induct) (auto simp: reduce_where_snoc, simp_all add: reduce_where_def)

lemma reduce_where_mono:
  "list_all (\<lambda>p. 0 \<le> p) ps \<Longrightarrow> (\<And>s. s < length ps \<Longrightarrow> P s \<Longrightarrow> Q s) \<Longrightarrow> reduce_where P ps \<le> reduce_where Q ps"
  unfolding reduce_where_sum by (rule sum_mono2) (auto simp: list_all_length)

lemma reduce_where_cong:
  "(\<And>s. s < length ps \<Longrightarrow> P s = Q s) \<Longrightarrow> reduce_where P ps = reduce_where Q ps"
  unfolding reduce_where_sum by (rule sum.cong) auto

lemma reduce_where_inter:
  "reduce_where P ps + reduce_where Q ps
    = reduce_where (\<lambda>s. P s \<or> Q s) ps + reduce_where (\<lambda>s. P s \<and> Q s) ps"
  by (induction ps rule: rev_induct) (auto simp: reduce_where_snoc, simp_all add: reduce_where_def)

section \<open>Accepted forecasts\<close>

lemma index_of_Some: "index_of x xs = Some i \<Longrightarrow> i < length xs \<and> xs ! i = x"
  by (induction xs arbitrary: i) (auto split: if_splits)

lemma index_of_None [simp]: "index_of x xs = None \<longleftrightarrow> x \<notin> set xs"
  by (induction xs) auto

lemma index_of_member: "x \<in> set xs \<Longrightarrow> \<exists>i. index_of x xs = Some i"
  by (induction xs) auto

lemma member_le_total: "list_all (\<lambda>p. 0 \<le> p) ps \<Longrightarrow> p \<in> set ps \<Longrightarrow> p \<le> sum_list (ps :: int list)"
proof (induction ps)
  case (Cons q ps)
  then have "0 \<le> sum_list ps" by (auto simp: list_all_iff intro: sum_list_nonneg)
  with Cons show ?case by auto
qed simp

definition wf_joint :: "int option \<Rightarrow> joint \<Rightarrow> bool" where
  "wf_joint n j = (assertJoint j n = ok j)"

lemma assertJoint_ok_iff:
  "assertJoint j n = ok k \<longleftrightarrow> k = j \<and> joint_events j \<noteq> [] \<and> length (joint_events j) \<le> 4
    \<and> (\<forall>i<length (joint_events j). \<not> bad_event (joint_events j) n i)
    \<and> length (joint_states j) = 2 ^ length (joint_events j)
    \<and> list_all (\<lambda>p. 0 \<le> p) (joint_states j) \<and> sum_list (joint_states j) = PPM"
  by (auto simp: assertJoint_def Let_def foldl_plus list_ex_iff list_all_iff not_less not_le)

lemma wf_jointD:
  assumes "wf_joint n j"
  shows "joint_events j \<noteq> []" "length (joint_events j) \<le> 4"
    and "length (joint_states j) = 2 ^ length (joint_events j)"
    and "list_all (\<lambda>p. 0 \<le> p) (joint_states j)" "sum_list (joint_states j) = PPM"
  using assms by (auto simp: wf_joint_def assertJoint_ok_iff)

lemma event_index_ok:
  "event_index j e = ok i \<Longrightarrow> i < length (joint_events j) \<and> joint_events j ! i = e"
  by (auto simp: event_index_def dest: index_of_Some split: option.splits)

lemma js_bit_state: "i < 32 \<Longrightarrow> (js_and (int s) (js_shl 1 i) \<noteq> 0) = bit s i"
  using js_bit_iff [of i "int s"] by (simp add: js_bit_def bit_of_nat_iff_bit)

lemma bit_two_flags: "i < 31 \<Longrightarrow> k < 31 \<Longrightarrow> bit (js_or (js_shl 1 i) (js_shl 1 k)) m \<longleftrightarrow> m = i \<or> m = k"
  by (auto simp: js_or_def bit_to_int32 bit_or_iff bit_js_shl_1)

lemma js_both_bits:
  assumes "i < 31" "k < 31"
  shows "(js_and (int s) (js_or (js_shl 1 i) (js_shl 1 k)) = js_or (js_shl 1 i) (js_shl 1 k))
    \<longleftrightarrow> bit s i \<and> bit s k"
proof -
  have "bit (js_and (int s) (js_or (js_shl 1 i) (js_shl 1 k))) m \<longleftrightarrow> bit s m \<and> (m = i \<or> m = k)" for m
    using assms by (cases "m < 31")
      (auto simp: js_and_def bit_to_int32 bit_and_iff bit_two_flags bit_of_nat_iff_bit min_def)
  then show ?thesis
    using assms unfolding bit_eq_iff [of "js_and _ _"] by (auto simp: bit_two_flags)
qed

lemma marginal_ok:
  assumes "wf_joint n j" "marginal j e = ok p"
  obtains i where "event_index j e = ok i" "i < length (joint_events j)"
    "p = reduce_where (\<lambda>s. bit s i) (joint_states j)"
proof -
  obtain i where i: "event_index j e = ok i"
    and p: "p = reduce_where (\<lambda>s. js_and (int s) (js_shl 1 i) \<noteq> 0) (joint_states j)"
    using assms(2) by (auto simp: marginal_def Let_def)
  have l: "i < length (joint_events j)" using event_index_ok [OF i] by simp
  then have "i < 32" using wf_jointD(2) [OF assms(1)] by simp
  with p have "p = reduce_where (\<lambda>s. bit s i) (joint_states j)" by (simp only: js_bit_state)
  with i l show ?thesis by (rule that)
qed

lemma both_eq:
  assumes "wf_joint n j" "event_index j a = ok i" "event_index j b = ok k"
  shows "both j a b = ok (reduce_where (\<lambda>s. bit s i \<and> bit s k) (joint_states j))"
proof -
  have "i < 31" "k < 31"
    using event_index_ok [OF assms(2)] event_index_ok [OF assms(3)] wf_jointD(2) [OF assms(1)] by simp_all
  then show ?thesis by (simp only: both_def assms bindE_simps Let_def js_both_bits)
qed

lemma frechetBounds_ok_iff:
  "frechetBounds pA pB = ok (low, high) \<longleftrightarrow> 0 \<le> pA \<and> pA \<le> PPM \<and> 0 \<le> pB \<and> pB \<le> PPM
    \<and> low = max 0 (pA + pB - PPM) \<and> high = min pA pB"
  by (auto simp: frechetBounds_def bad_probability_def Let_def)

lemma joint_pair_bounds:
  assumes "wf_joint n j" "marginal j a = ok pA" "marginal j b = ok pB" "both j a b = ok pAB"
  shows "0 \<le> pA \<and> pA \<le> PPM \<and> 0 \<le> pB \<and> pB \<le> PPM \<and> max 0 (pA + pB - PPM) \<le> pAB \<and> pAB \<le> min pA pB"
proof -
  let ?ps = "joint_states j"
  note nn = wf_jointD(4) [OF assms(1)] and total = wf_jointD(5) [OF assms(1)]
  obtain i k where i: "event_index j a = ok i" "pA = reduce_where (\<lambda>s. bit s i) ?ps"
    and k: "event_index j b = ok k" "pB = reduce_where (\<lambda>s. bit s k) ?ps"
    using marginal_ok [OF assms(1,2)] marginal_ok [OF assms(1,3)] by metis
  have pAB: "pAB = reduce_where (\<lambda>s. bit s i \<and> bit s k) ?ps"
    using both_eq [OF assms(1) i(1) k(1)] assms(4) by simp
  have top: "reduce_where P ?ps \<le> PPM" for P
    using reduce_where_mono [OF nn, of P "\<lambda>_. True"] by (simp add: reduce_where_True total)
  have "pA + pB = reduce_where (\<lambda>s. bit s i \<or> bit s k) ?ps + pAB"
    unfolding i k pAB by (rule reduce_where_inter)
  moreover have "pAB \<le> pA" "pAB \<le> pB"
    unfolding i k pAB by (rule reduce_where_mono [OF nn], simp)+
  ultimately show ?thesis
    using top [of "\<lambda>s. bit s i \<or> bit s k"] top [of "\<lambda>s. bit s i"] top [of "\<lambda>s. bit s k"]
      reduce_where_nonneg [OF nn] pAB i(2) k(2) by (simp add: max_def min_def)
qed


section \<open>A pair of events\<close>

lemma reduce_where_4:
  "reduce_where P [a, b, c, d] = (if P 0 then a else 0) + (if P 1 then b else 0)
    + (if P 2 then c else 0) + (if P 3 then d else 0)"
  by (simp add: reduce_where_def numeral_2_eq_2 numeral_3_eq_3)

lemma pair_joint_wf:
  assumes "0 \<le> e" "e < f" "0 \<le> w" "0 \<le> x" "0 \<le> y" "0 \<le> z" "w + x + y + z = PPM"
  shows "wf_joint None \<lparr>joint_events = [e, f], joint_states = [w, x, y, z]\<rparr>"
  using assms by (auto simp: wf_joint_def assertJoint_ok_iff bad_event_def less_Suc_eq nth_Cons')

lemma event_index_pair:
  "e \<noteq> f \<Longrightarrow> event_index \<lparr>joint_events = [e, f], joint_states = ps\<rparr> e = ok 0"
  "e \<noteq> f \<Longrightarrow> event_index \<lparr>joint_events = [e, f], joint_states = ps\<rparr> f = ok 1"
  by (auto simp: event_index_def)

lemma pair_joint_marginals:
  assumes "wf_joint n \<lparr>joint_events = [e, f], joint_states = [w, x, y, z]\<rparr>" "e \<noteq> f"
  shows "marginal \<lparr>joint_events = [e, f], joint_states = [w, x, y, z]\<rparr> e = ok (x + z)"
    and "marginal \<lparr>joint_events = [e, f], joint_states = [w, x, y, z]\<rparr> f = ok (y + z)"
    and "both \<lparr>joint_events = [e, f], joint_states = [w, x, y, z]\<rparr> e f = ok z"
    and "both \<lparr>joint_events = [e, f], joint_states = [w, x, y, z]\<rparr> f e = ok z"
proof -
  note i = event_index_pair [OF assms(2)]
  have b3: "bit (3::nat) 0" "bit (3::nat) 1" "bit (2::nat) 1" "\<not> bit (2::nat) 0" "bit (Suc 0) 0" "\<not> bit (Suc 0) (Suc 0)"
    by (simp_all add: bit_numeral_rec bit_0 bit_Suc)
  have j01: "(js_and (int s) (js_shl 1 0) \<noteq> 0) = bit s 0" "(js_and (int s) (js_shl 1 1) \<noteq> 0) = bit s 1" for s
    by (rule js_bit_state, simp)+
  show "marginal \<lparr>joint_events = [e, f], joint_states = [w, x, y, z]\<rparr> e = ok (x + z)"
    "marginal \<lparr>joint_events = [e, f], joint_states = [w, x, y, z]\<rparr> f = ok (y + z)"
    unfolding marginal_def i bindE_simps Let_def j01 by (simp_all add: reduce_where_4 b3)
  show "both \<lparr>joint_events = [e, f], joint_states = [w, x, y, z]\<rparr> e f = ok z"
    "both \<lparr>joint_events = [e, f], joint_states = [w, x, y, z]\<rparr> f e = ok z"
    using both_eq [OF assms(1) i(1) i(2)] both_eq [OF assms(1) i(2) i(1)] b3
    by (simp_all add: reduce_where_4 bit_1_iff)
qed

lemma jointFromPair_ok_iff:
  "jointFromPair a b pA pB pAB = ok j \<longleftrightarrow> a \<noteq> b \<and> 0 \<le> a \<and> 0 \<le> b
    \<and> 0 \<le> pA \<and> pA \<le> PPM \<and> 0 \<le> pB \<and> pB \<le> PPM \<and> max 0 (pA + pB - PPM) \<le> pAB \<and> pAB \<le> min pA pB
    \<and> j = (if a < b then \<lparr>joint_events = [a, b], joint_states = [PPM - pA - pB + pAB, pA - pAB, pB - pAB, pAB]\<rparr>
           else \<lparr>joint_events = [b, a], joint_states = [PPM - pB - pA + pAB, pB - pAB, pA - pAB, pAB]\<rparr>)"
proof (cases "a = b")
  case True
  then show ?thesis by (simp add: jointFromPair_def)
next
  case False
  have low: "assertJoint \<lparr>joint_events = [e, f], joint_states = ps\<rparr> None = ok j \<longrightarrow> 0 \<le> e \<and> e < f" for e f ps
    by (auto simp: assertJoint_ok_iff bad_event_def less_Suc_eq)
  have acc: "assertJoint \<lparr>joint_events = [e, f], joint_states = [PPM - p - q + r, p - r, q - r, r]\<rparr> None = ok j
      \<longleftrightarrow> 0 \<le> e \<and> j = \<lparr>joint_events = [e, f], joint_states = [PPM - p - q + r, p - r, q - r, r]\<rparr>"
    if "e < f" "0 \<le> r" "p + q - PPM \<le> r" "r \<le> p" "r \<le> q" for e f p q r
    using that pair_joint_wf [of e f "PPM - p - q + r" "p - r" "q - r" r] low
    by (auto simp: wf_joint_def)
  show ?thesis
    using False acc [of a b pAB pA pB] acc [of b a pAB pB pA]
    by (auto simp: jointFromPair_def frechetBounds_ok_iff not_less split: if_splits)
qed


section \<open>The independent baseline\<close>

lemma state_product_snoc:
  "state_product (ps @ [p]) s = state_product ps s * (if js_bit (int s) (length ps) then p else PPM - p)"
  by (simp add: state_product_def enumerate_append_eq)

lemma state_product_prod:
  "length ps \<le> 31 \<Longrightarrow> state_product ps s = (\<Prod>i<length ps. if bit s i then ps ! i else PPM - ps ! i)"
proof (induction ps rule: rev_induct)
  case Nil
  then show ?case by (simp add: state_product_def)
next
  case (snoc p ps)
  have "js_bit (int s) (length ps) = bit s (length ps)"
    using snoc.prems by (simp add: js_bit_iff bit_of_nat_iff_bit)
  moreover have "(\<Prod>i<length ps. if bit s i then (ps @ [p]) ! i else PPM - (ps @ [p]) ! i)
      = (\<Prod>i<length ps. if bit s i then ps ! i else PPM - ps ! i)"
    by (rule prod.cong) (auto simp: nth_append)
  ultimately show ?case using snoc by (simp add: state_product_snoc)
qed

lemma state_product_nonneg:
  assumes "length ps \<le> 31" "list_all (\<lambda>p. \<not> bad_probability p) ps"
  shows "0 \<le> state_product ps s"
proof -
  have "0 \<le> ps ! i \<and> ps ! i \<le> PPM" if "i < length ps" for i
    using assms(2) that by (auto simp: list_all_length bad_probability_def)
  then show ?thesis unfolding state_product_prod [OF assms(1)] by (intro prod_nonneg) auto
qed

lemma sum_double: "(\<Sum>s<2 * m. f s) = (\<Sum>s<m. f s) + (\<Sum>s<m. f (s + m :: nat))"
proof -
  have "{..<2 * m} = {..<m} \<union> (\<lambda>s. s + m) ` {..<m}"
  proof (rule set_eqI)
    fix x
    show "x \<in> {..<2 * m} \<longleftrightarrow> x \<in> {..<m} \<union> (\<lambda>s. s + m) ` {..<m}"
      by (cases "x < m") (auto intro: image_eqI [of _ _ "x - m"])
  qed
  moreover have "{..<m} \<inter> (\<lambda>s. s + m) ` {..<m} = {}" by auto
  ultimately show ?thesis
    by (simp add: sum.union_disjoint sum.reindex inj_on_def o_def)
qed

lemma bit_add_high: "s < 2 ^ k \<Longrightarrow> bit (s + 2 ^ k :: nat) i \<longleftrightarrow> (if i < k then bit s i else i = k)"
proof -
  assume s: "s < 2 ^ k"
  then have small: "bit s i \<Longrightarrow> i < k" for i
    by (metis bit_take_bit_iff take_bit_nat_eq_self)
  have "s AND 2 ^ k = 0" using small [of k] by (auto intro!: bit_eqI simp: bit_and_iff bit_exp_iff)
  then have "s + 2 ^ k = s OR 2 ^ k" by (simp add: disjunctive_add_eq_or)
  then show ?thesis using small by (auto simp: bit_or_iff bit_exp_iff)
qed

lemma state_product_total:
  "length ps \<le> 31 \<Longrightarrow> (\<Sum>s<2 ^ length ps. state_product ps s) = PPM ^ length ps"
proof (induction ps rule: rev_induct)
  case Nil
  then show ?case by (simp add: state_product_def)
next
  case (snoc p ps)
  let ?k = "length ps"
  have low: "state_product (ps @ [p]) s = state_product ps s * (PPM - p)" if "s < 2 ^ ?k" for s
  proof -
    have "\<not> bit s ?k" using that by (metis bit_take_bit_iff take_bit_nat_eq_self less_irrefl)
    then show ?thesis using snoc.prems
      by (simp add: state_product_snoc js_bit_iff bit_of_nat_iff_bit)
  qed
  have high: "state_product (ps @ [p]) (s + 2 ^ ?k) = state_product ps s * p" if "s < 2 ^ ?k" for s
  proof -
    have "state_product ps (s + 2 ^ ?k) = state_product ps s"
      using snoc.prems that by (simp add: state_product_prod bit_add_high)
    moreover have "js_bit (int (s + 2 ^ ?k)) ?k"
      using snoc.prems bit_add_high [OF that, of ?k]
      by (simp only: js_bit_iff bit_of_nat_iff_bit length_append) simp
    ultimately show ?thesis by (simp only: state_product_snoc if_True)
  qed
  have "(\<Sum>s<2 ^ length (ps @ [p]). state_product (ps @ [p]) s)
      = (\<Sum>s<2 ^ ?k. state_product ps s * (PPM - p)) + (\<Sum>s<2 ^ ?k. state_product ps s * p)"
    by (simp add: sum_double low high)
  also have "\<dots> = (\<Sum>s<2 ^ ?k. state_product ps s) * PPM"
    by (simp add: sum_distrib_right [symmetric] distrib_left [symmetric])
  finally show ?case using snoc by simp
qed

lemma length_top_up [simp]: "length (top_up rs m ps) = length ps"
  by (induction rs m ps rule: top_up.induct) auto

lemma nth_top_up:
  assumes "distinct (map raw_s rs)" "\<forall>r\<in>set rs. raw_s r < length ps" "s < length ps"
  shows "top_up rs m ps ! s = ps ! s + (if s \<in> raw_s ` set (take (nat m) rs) then 1 else 0)"
  using assms
proof (induction rs m ps rule: top_up.induct)
  case (1 m ps)
  then show ?case by simp
next
  case (2 r rs m ps)
  show ?case
  proof (cases "m \<le> 0")
    case True
    then show ?thesis by simp
  next
    case False
    let ?T = "raw_s ` set (take (nat (m - 1)) rs)"
    have take: "raw_s ` set (take (nat m) (r # rs)) = insert (raw_s r) ?T"
      using False by (simp add: take_Cons' nat_diff_distrib)
    have notin: "raw_s r \<notin> ?T" using "2.prems"(1) by (auto dest: in_set_takeD)
    have "top_up (r # rs) m ps ! s = ps[raw_s r := ps ! raw_s r + 1] ! s + (if s \<in> ?T then 1 else 0)"
      using False "2.IH" "2.prems" by simp
    also have "\<dots> = ps ! s + (if s \<in> insert (raw_s r) ?T then 1 else 0)"
      using notin "2.prems"(3) by (cases "s = raw_s r") auto
    finally show ?thesis unfolding take .
  qed
qed


text \<open>Remainders below \<open>c\<close> that sum to \<open>m\<close> times \<open>c\<close>: the \<open>m\<close> largest are positive.\<close>

lemma largest_remainders_positive:
  assumes desc: "sorted_wrt (\<ge>) (ds :: int list)" and range: "\<forall>d\<in>set ds. 0 \<le> d \<and> d < c"
    and total: "sum_list ds = m * c" and c: "0 < c"
  shows "0 \<le> m \<and> nat m \<le> length ds \<and> (\<forall>i<nat m. 0 < ds ! i)"
proof -
  have bound: "sum_list xs \<le> int (length xs) * c" if "set xs \<subseteq> set ds" for xs
    using that range by (induction xs) (auto simp: distrib_right)
  have "0 \<le> sum_list ds" using range by (intro sum_list_nonneg) auto
  then have m: "0 \<le> m" using total c by (simp add: zero_le_mult_iff)
  have "m * c \<le> int (length ds) * c" using bound [of ds] total by simp
  then have len: "m \<le> int (length ds)" using c by simp
  have "0 < ds ! i" if i: "i < nat m" for i
  proof (rule ccontr)
    assume neg: "\<not> 0 < ds ! i"
    have il: "i < length ds" using i len by simp
    have "\<forall>d\<in>set (drop i ds). d \<le> 0"
    proof
      fix d assume "d \<in> set (drop i ds)"
      then obtain k where k: "d = ds ! (i + k)" "i + k < length ds"
        by (auto simp: in_set_conv_nth)
      have "ds ! (i + k) \<le> ds ! i"
        using desc k il by (cases k) (auto simp: sorted_wrt_iff_nth_less)
      then show "d \<le> 0" using neg k by simp
    qed
    then have "sum_list (drop i ds) \<le> 0" by (intro sum_list_nonpos) auto
    moreover have "sum_list ds = sum_list (take i ds) + sum_list (drop i ds)"
      by (metis append_take_drop_id sum_list_append)
    moreover have "sum_list (take i ds) \<le> int (length (take i ds)) * c"
      by (rule bound) (auto dest: in_set_takeD)
    then have "sum_list (take i ds) \<le> int i * c" using il by simp
    ultimately have "m * c \<le> int i * c" using total by simp
    then show False using c i by simp
  qed
  with m len show ?thesis by auto
qed

lemma foldl_whole: "foldl (\<lambda>a r. a + raw_whole r) a raw = a + sum_list (map raw_whole raw)"
  by (induction raw arbitrary: a) auto

definition rest_order :: "raw_state list \<Rightarrow> raw_state list" where
  "rest_order raw = sort_key (\<lambda>r. (- raw_rest r, raw_s r)) raw"

lemma sorted_rests:
  "sorted_wrt (\<ge>) (map raw_rest (rest_order raw))"
proof -
  have "sorted_wrt (\<lambda>a b. (- raw_rest a, raw_s a) \<le> (- raw_rest b, raw_s b))
      (sort_key (\<lambda>r. (- raw_rest r, raw_s r)) raw)"
    using sorted_sort_key [of "\<lambda>r. (- raw_rest r, raw_s r)" raw] by (simp add: sorted_map)
  then show ?thesis unfolding sorted_wrt_map rest_order_def
    by (rule sorted_wrt_mono_rel [rotated]) (auto simp: less_eq_prod_def)
qed

lemma sum_list_nth_upto: "sum_list (map f [0..<n]) = (\<Sum>s<n. f s :: int)"
  by (simp add: interv_sum_list_conv_sum_set_nat atLeast0LessThan)


lemma sum_list_update_int: "k < length xs \<Longrightarrow> sum_list (xs[k := x]) = sum_list xs + x - (xs ! k :: int)"
  by (induction xs arbitrary: k) (auto split: nat.splits)

lemma sum_list_top_up:
  assumes "0 \<le> m" "m \<le> int (length rs)" "\<forall>r\<in>set rs. raw_s r < length ps"
  shows "sum_list (top_up rs m ps) = sum_list ps + m"
  using assms
proof (induction rs m ps rule: top_up.induct)
  case (1 m ps)
  then show ?case by simp
next
  case (2 r rs m ps)
  show ?case
  proof (cases "m \<le> 0")
    case True
    with 2 show ?thesis by simp
  next
    case False
    then have "sum_list (top_up rs (m - 1) (ps[raw_s r := ps ! raw_s r + 1]))
        = sum_list (ps[raw_s r := ps ! raw_s r + 1]) + (m - 1)"
      using "2.IH" "2.prems" by simp
    moreover have "sum_list (ps[raw_s r := ps ! raw_s r + 1]) = sum_list ps + 1"
      using "2.prems"(3) by (simp add: sum_list_update_int)
    ultimately show ?thesis using False by simp
  qed
qed

lemma raw_states_eq:
  assumes "length ps \<le> 31" "list_all (\<lambda>p. \<not> bad_probability p) ps" "0 < c"
  shows "raw_states ps c = map (\<lambda>s. \<lparr>raw_s = s, raw_whole = state_product ps s div c,
      raw_rest = state_product ps s mod c\<rparr>) [0..<2 ^ length ps]"
  using assms state_product_nonneg [OF assms(1,2)] by (simp add: raw_states_def Let_def)

lemma raw_states_facts:
  assumes ps: "1 \<le> length ps" "length ps \<le> 31" "list_all (\<lambda>p. \<not> bad_probability p) ps"
    and c: "c = PPM ^ (length ps - 1)"
  defines "raw \<equiv> raw_states ps c"
  shows "map raw_s raw = [0..<2 ^ length ps]" and "\<forall>r\<in>set raw. 0 \<le> raw_rest r \<and> raw_rest r < c"
    and "sum_list (map raw_rest raw) = (PPM - sum_list (map raw_whole raw)) * c"
    and "\<And>s. s < 2 ^ length ps \<Longrightarrow> map raw_whole raw ! s = state_product ps s div c"
    and "\<And>r. r \<in> set raw \<Longrightarrow> raw_rest r = state_product ps (raw_s r) mod c"
proof -
  have cp: "0 < c" by (simp add: c PPM_def)
  note eq = raw_states_eq [OF ps(2,3) cp, folded raw_def]
  show "map raw_s raw = [0..<2 ^ length ps]" unfolding eq map_map o_def by (simp add: map_idI)
  show "\<forall>r\<in>set raw. 0 \<le> raw_rest r \<and> raw_rest r < c" using cp unfolding eq by auto
  show "\<And>s. s < 2 ^ length ps \<Longrightarrow> map raw_whole raw ! s = state_product ps s div c" unfolding eq by simp
  show "\<And>r. r \<in> set raw \<Longrightarrow> raw_rest r = state_product ps (raw_s r) mod c" unfolding eq by auto
  have w: "sum_list (map raw_whole raw) = (\<Sum>s<2 ^ length ps. state_product ps s div c)"
    unfolding eq map_map o_def by (simp add: sum_list_nth_upto)
  have r: "sum_list (map raw_rest raw) = (\<Sum>s<2 ^ length ps. state_product ps s mod c)"
    unfolding eq map_map o_def by (simp add: sum_list_nth_upto)
  have "sum_list (map raw_whole raw) * c + sum_list (map raw_rest raw)
      = (\<Sum>s<2 ^ length ps. state_product ps s div c * c + state_product ps s mod c)"
    unfolding w r sum.distrib sum_distrib_right ..
  also have "\<dots> = (\<Sum>s<2 ^ length ps. state_product ps s)" by simp
  also have "\<dots> = PPM * c" unfolding state_product_total [OF ps(2)] c using ps(1)
    by (cases "length ps") auto
  finally show "sum_list (map raw_rest raw) = (PPM - sum_list (map raw_whole raw)) * c"
    by (simp add: left_diff_distrib)
qed

lemma mset_rest_order: "mset (map f (rest_order raw)) = mset (map f raw)"
  by (simp add: rest_order_def)

lemma set_rest_order [simp]: "set (rest_order raw) = set raw"
  by (simp add: rest_order_def)

lemma length_rest_order [simp]: "length (rest_order raw) = length raw"
  by (simp add: rest_order_def)

text \<open>What the rounding gives, for any number of probabilities the machine word allows.\<close>

lemma rounded_states:
  assumes ps: "1 \<le> length ps" "length ps \<le> 31" "list_all (\<lambda>p. \<not> bad_probability p) ps"
    and c: "c = PPM ^ (length ps - 1)" and raw: "raw = raw_states ps c"
    and final: "final = top_up (rest_order raw) (PPM - sum_list (map raw_whole raw)) (map raw_whole raw)"
  shows "length final = 2 ^ length ps" and "sum_list final = PPM"
    and "\<And>s. s < 2 ^ length ps \<Longrightarrow> 0 \<le> final ! s \<and> \<bar>final ! s * c - state_product ps s\<bar> < c"
proof -
  let ?M = "PPM - sum_list (map raw_whole raw)"
  note f = raw_states_facts [OF ps c, folded raw]
  have cp: "0 < c" by (simp add: c PPM_def)
  have lenraw: "length raw = 2 ^ length ps" using arg_cong [OF f(1), of length] by simp
  have "sum_list (map raw_rest (rest_order raw)) = sum_list (map raw_rest raw)"
    using mset_rest_order [of raw_rest raw] by (metis sum_mset_sum_list)
  then have rests: "sum_list (map raw_rest (rest_order raw)) = ?M * c" using f(3) by simp
  have range: "\<forall>d\<in>set (map raw_rest (rest_order raw)). 0 \<le> d \<and> d < c" using f(2) by auto
  note big = largest_remainders_positive [OF sorted_rests range rests cp]
  have small: "\<forall>r\<in>set (rest_order raw). raw_s r < length (map raw_whole raw)"
  proof
    fix r assume "r \<in> set (rest_order raw)"
    then have "raw_s r \<in> set (map raw_s raw)" by simp
    then show "raw_s r < length (map raw_whole raw)" unfolding f(1) by (simp add: lenraw)
  qed
  have dist: "distinct (map raw_s (rest_order raw))"
    using mset_rest_order [of raw_s raw] unfolding f(1) by (metis mset_eq_imp_distinct_iff distinct_upt)
  show "length final = 2 ^ length ps" by (simp add: final lenraw)
  have "sum_list final = sum_list (map raw_whole raw) + ?M"
    unfolding final using big small by (intro sum_list_top_up) auto
  then show "sum_list final = PPM" by simp
  fix s :: nat assume s: "s < 2 ^ length ps"
  let ?p = "state_product ps s" and ?T = "raw_s ` set (take (nat ?M) (rest_order raw))"
  have fin: "final ! s = ?p div c + (if s \<in> ?T then 1 else 0)"
    unfolding final using s nth_top_up [OF dist small, of s ?M] f(4) [OF s] by (simp add: lenraw)
  have q: "?p = ?p div c * c + ?p mod c" "0 \<le> ?p mod c" "?p mod c < c" "0 \<le> ?p div c"
    using cp state_product_nonneg [OF ps(2,3), of s] by (simp_all add: pos_imp_zdiv_nonneg_iff)
  have nn: "0 \<le> final ! s" using fin q(4) by simp
  show "0 \<le> final ! s \<and> \<bar>final ! s * c - ?p\<bar> < c"
  proof (cases "s \<in> ?T")
    case False
    then have "final ! s * c = ?p div c * c" using fin by simp
    then have "final ! s * c - ?p = - (?p mod c)" using q(1) by linarith
    then show ?thesis using nn q by linarith
  next
    case True
    then obtain i where i: "i < nat ?M" "i < length (rest_order raw)" "s = raw_s (rest_order raw ! i)"
      by (auto simp: in_set_conv_nth)
    have "rest_order raw ! i \<in> set raw" using i(2) nth_mem set_rest_order by metis
    then have "raw_rest (rest_order raw ! i) = ?p mod c" using f(5) i(3) by simp
    then have pos: "0 < ?p mod c" using big i(1,2) by (metis nth_map)
    have "final ! s * c = ?p div c * c + c" using fin True by (simp add: distrib_right)
    then have "final ! s * c - ?p = c - ?p mod c" using q(1) by linarith
    then show ?thesis using nn q pos by linarith
  qed
qed


lemma sorted_zip_facts:
  assumes "length events = length ms"
  defines "order \<equiv> sort_key fst (zip events ms)"
  shows "map fst order = sort events" and "set (map snd order) = set ms"
    and "length order = length events"
proof -
  have m: "mset order = mset (zip events ms)" by (simp add: order_def)
  then have "mset (map fst order) = mset events" using assms(1) by (metis map_fst_zip mset_map)
  moreover have "sorted (map fst order)" by (simp add: order_def)
  ultimately show "map fst order = sort events" by (metis properties_for_sort)
  have "mset (map snd order) = mset ms" using m assms(1) by (metis map_snd_zip mset_map)
  then show "set (map snd order) = set ms" by (rule mset_eq_setD)
  show "length order = length events" using assms(1) by (simp add: order_def)
qed

lemma sorted_events_ok:
  assumes "sorted es" "distinct es" "\<forall>e\<in>set es. 0 \<le> e" "i < length es"
  shows "\<not> bad_event es None i"
proof -
  have "es ! (i - 1) < es ! i" if "0 < i"
  proof -
    have "es ! (i - 1) \<le> es ! i" using assms(1,4) by (intro sorted_nth_mono) auto
    moreover have "es ! (i - 1) \<noteq> es ! i" using assms(2,4) that by (simp add: nth_eq_iff_index_eq)
    ultimately show ?thesis by simp
  qed
  moreover have "0 \<le> es ! i" using assms(3,4) by simp
  ultimately show ?thesis by (auto simp: bad_event_def)
qed

lemma independentJoint_ok:
  assumes len: "length events = length ms" "events \<noteq> []" "length events \<le> 4"
    and es: "distinct events" "\<forall>e\<in>set events. 0 \<le> e" and ms: "\<forall>p\<in>set ms. 0 \<le> p \<and> p \<le> PPM"
  defines "ps \<equiv> map snd (sort_key fst (zip events ms))"
  shows "\<exists>final. independentJoint events ms = ok \<lparr>joint_events = sort events, joint_states = final\<rparr>
    \<and> length final = 2 ^ length events \<and> sum_list final = PPM
    \<and> (\<forall>s<2 ^ length events. 0 \<le> final ! s
        \<and> \<bar>final ! s * PPM ^ (length events - 1) - state_product ps s\<bar> < PPM ^ (length events - 1))"
proof -
  note z = sorted_zip_facts [OF len(1)]
  have l: "length ps = length events" using z(3) by (simp add: ps_def)
  have good: "list_all (\<lambda>p. \<not> bad_probability p) ps"
    using z(2) ms by (auto simp: ps_def list_all_iff bad_probability_def)
  let ?c = "PPM ^ (length ps - 1)"
  define final where "final = top_up (rest_order (raw_states ps ?c))
    (PPM - sum_list (map raw_whole (raw_states ps ?c))) (map raw_whole (raw_states ps ?c))"
  have n: "1 \<le> length ps" "length ps \<le> 31" using l len by (cases events, auto)+
  note r = rounded_states [OF n good refl refl final_def]
  have nonneg: "list_all (\<lambda>p. 0 \<le> p) final" using r(1,3) by (auto simp: list_all_length)
  have ne: "sort events \<noteq> []" using len(2) by (metis length_0_conv length_sort)
  have "assertJoint \<lparr>joint_events = sort events, joint_states = final\<rparr> None
      = ok \<lparr>joint_events = sort events, joint_states = final\<rparr>"
    unfolding assertJoint_ok_iff using ne len es l r(1,2) nonneg sorted_events_ok [of "sort events"]
    by (simp add: sorted_zip_facts)
  moreover have "\<not> list_ex bad_probability ps" using good by (auto simp: list_all_iff list_ex_iff)
  moreover have "ps \<noteq> []" using l len(2) by auto
  ultimately have "independentJoint events ms = ok \<lparr>joint_events = sort events, joint_states = final\<rparr>"
    using len(1) z(1)
    by (simp add: independentJoint_def Let_def ps_def [symmetric] foldl_whole final_def rest_order_def)
  then show ?thesis using r l by auto
qed

section \<open>The chance of a claim\<close>

lemma claimProbability_eq:
  assumes "wf_joint n j" "claimProbability j c = ok p"
  obtains positions where "mapE (\<lambda>e. event_index j (int e)) (scopeEvents (claim_scope c)) = ok positions"
    "length positions = length (scopeEvents (claim_scope c))"
    "p = reduce_where (\<lambda>s. bit (claim_mask c) (local_state (int s) positions)) (joint_states j)"
proof -
  obtain ps where m: "mapE (\<lambda>e. event_index j (int e)) (scopeEvents (claim_scope c)) = ok ps"
    and p: "reduce_where (\<lambda>s. claim_mask c AND push_bit (nat (local_index (int s) ps 0 0)) 1 \<noteq> 0) (joint_states j) = p"
    using assms(2) unfolding claimProbability_def bindE_Inr_iff sum.inject by blast
  have len: "length ps = length (scopeEvents (claim_scope c))" using m by (rule mapE_length)
  have "list_all (\<lambda>i. i < 32) ps"
  proof -
    have "i < 32" if i: "i \<in> set ps" for i
    proof -
      obtain k where k: "k < length ps" "i = ps ! k" using i unfolding in_set_conv_nth by blast
      then have "event_index j (int (scopeEvents (claim_scope c) ! k)) = ok i"
        using m len unfolding mapE_Inr_iff list_all2_conv_all_nth by metis
      then have "i < length (joint_events j)" using event_index_ok by blast
      then show ?thesis using wf_jointD(2) [OF assms(1)] by simp
    qed
    then show ?thesis by (simp add: list_all_iff)
  qed
  then have li: "local_index (int s) ps 0 0 = int (local_state (int s) ps)" for s
    using len length_scopeEvents [of "claim_scope c"] by (subst local_index_eq) simp_all
  have "p = reduce_where (\<lambda>s. bit (claim_mask c) (local_state (int s) ps)) (joint_states j)"
    unfolding p [symmetric] li nat_int push_bit_of_1 and_pow_neq_0 ..
  with m len show ?thesis by (rule that)
qed

lemma claimProbability_complement:
  assumes "wf_joint m j" "wf_claim n c" "claimProbability j c = ok p"
  shows "claimProbability j (complement c) = ok (PPM - p) \<and> 0 \<le> p \<and> p \<le> PPM"
proof -
  let ?es = "scopeEvents (claim_scope c)"
  obtain ps where ps: "mapE (\<lambda>e. event_index j (int e)) ?es = ok ps" "length ps = length ?es"
    and p: "p = reduce_where (\<lambda>s. bit (claim_mask c) (local_state (int s) ps)) (joint_states j)"
    using claimProbability_eq [OF assms(1,3)] .
  have sc: "claim_scope (complement c) = claim_scope c" by (simp add: complement_def)
  obtain q where q: "claimProbability j (complement c) = ok q"
    using ps(1) by (simp add: claimProbability_def sc)
  obtain qs where qs: "mapE (\<lambda>e. event_index j (int e)) ?es = ok qs"
    and q': "q = reduce_where (\<lambda>s. bit (claim_mask (complement c)) (local_state (int s) qs)) (joint_states j)"
    using claimProbability_eq [OF assms(1) q] unfolding sc by blast
  have "qs = ps" using qs ps(1) by simp
  have "bit (claim_mask (complement c)) (local_state (int s) ps) \<longleftrightarrow> \<not> bit (claim_mask c) (local_state (int s) ps)" for s
    using local_state_less [of "int s" ps] wf_claimD(3,8) [OF assms(2)]
    by (simp add: complement_def bit_complement ps(2))
  then have "q = reduce_where (\<lambda>s. \<not> bit (claim_mask c) (local_state (int s) ps)) (joint_states j)"
    unfolding q' \<open>qs = ps\<close> by (intro reduce_where_cong) simp
  then have "p + q = PPM"
    using reduce_where_not [of "\<lambda>s. bit (claim_mask c) (local_state (int s) ps)" "joint_states j"]
      wf_jointD(5) [OF assms(1)] p by simp
  moreover have "0 \<le> p" "0 \<le> q"
    unfolding p q' by (rule reduce_where_nonneg [OF wf_jointD(4) [OF assms(1)]])+
  ultimately show ?thesis using q by auto
qed


text \<open>The answer a forecast state gives to an event.\<close>

definition event_yes :: "joint \<Rightarrow> nat \<Rightarrow> int \<Rightarrow> bool" where
  "event_yes j s e = (case index_of e (joint_events j) of None \<Rightarrow> False | Some i \<Rightarrow> bit s i)"

lemma covers_mapE:
  "covers j c \<Longrightarrow> mapE (\<lambda>e. event_index j (int e)) (scopeEvents (claim_scope c))
    = ok (map (\<lambda>e. the (index_of (int e) (joint_events j))) (scopeEvents (claim_scope c)))"
proof (rule mapE_total)
  fix e assume c: "covers j c" and e: "e \<in> set (scopeEvents (claim_scope c))"
  have "int e \<in> set (joint_events j)" using c e by (auto simp: covers_def list_all_iff)
  then obtain i where "index_of (int e) (joint_events j) = Some i" using index_of_member by fast
  then show "event_index j (int e) = ok (the (index_of (int e) (joint_events j)))"
    by (simp add: event_index_def)
qed

lemma rule_chance:
  assumes j: "wf_joint m j" and c: "encode pool n legs rule = ok c" and cov: "covers j c"
  shows "claimProbability j c = ok (reduce_where
    (\<lambda>s. rule_holds rule (map (\<lambda>l. event_yes j s (ans_event l) = ans_yes l) legs)) (joint_states j))"
proof -
  let ?es = "scopeEvents (claim_scope c)"
  let ?ps = "map (\<lambda>e. the (index_of (int e) (joint_events j))) ?es"
  have ok: "legs_ok n legs rule" and sc: "claim_scope c = encode_scope (sort_legs legs)"
    using c by (auto simp: encode_ok_iff)
  have es: "?es = map (\<lambda>l. nat (ans_event l)) (sort_legs legs)" using legs_scope [OF ok] sc by simp
  have m: "mapE (\<lambda>e. event_index j (int e)) ?es = ok ?ps" by (rule covers_mapE [OF cov])
  obtain p where p: "claimProbability j c = ok p" using m by (simp add: claimProbability_def)
  obtain qs where qs: "mapE (\<lambda>e. event_index j (int e)) ?es = ok qs"
    and p': "p = reduce_where (\<lambda>s. bit (claim_mask c) (local_state (int s) qs)) (joint_states j)"
    by (rule claimProbability_eq [OF j p])
  have "qs = ?ps" using qs m by simp
  have "bit (claim_mask c) (local_state (int s) ?ps)
      = rule_holds rule (map (\<lambda>l. event_yes j s (ans_event l) = ans_yes l) legs)" for s
  proof -
    let ?F = "state_of_bits 31 (\<lambda>e. event_yes j s (int e))"
    have ev: "event_yes j s (int e) = bit s (the (index_of (int e) (joint_events j)))" if "e \<in> set ?es" for e
    proof -
      have "int e \<in> set (joint_events j)" using cov that by (auto simp: covers_def list_all_iff)
      then obtain i where "index_of (int e) (joint_events j) = Some i" using index_of_member by fast
      then show ?thesis by (simp add: event_yes_def)
    qed
    have "map (bit (int s)) ?ps = map (bit ?F) ?es"
      using ev by (auto simp: bit_state_of_bits bit_of_nat_iff_bit scopeEvents_def)
    then have "local_state (int s) ?ps = local_state ?F ?es" by (simp only: local_state_def)
    then have "bit (claim_mask c) (local_state (int s) ?ps) = rule_pays rule legs ?F"
      using encode_pays_rule [OF c, of ?F] by (simp only: paysIn_iff)
    also have "\<dots> = rule_holds rule (map (\<lambda>l. event_yes j s (ans_event l) = ans_yes l) legs)"
      using ok unfolding rule_pays_def legs_ok_def
      by (intro arg_cong [of _ _ "rule_holds rule"] map_cong) (auto simp: bit_state_of_bits list_all_iff)
    finally show ?thesis .
  qed
  then show ?thesis unfolding p p' \<open>qs = ?ps\<close> by (simp only:)
qed

section \<open>JSON\<close>

lemma jointFromJSON_toJSON:
  assumes "wf_joint n j"
  shows "jointFromJSON (jointToJSON j) n = ok j"
proof -
  note w = wf_jointD [OF assms]
  have range: "0 \<le> p \<and> p \<le> PPM" if "p \<in> set (joint_states j)" for p
    using w(4) member_le_total [OF w(4) that] that unfolding w(5) by (auto simp: list_all_iff)
  have "is_canon_dec_upto 6 (int_str p)" if "p \<in> set (joint_states j)" for p
  proof -
    have "nat p < 10 ^ (6 + 1)" using range [OF that] by (simp add: PPM_def nat_less_iff)
    then show ?thesis using range [OF that] by (simp only: int_str_nonneg canon_upto_nat_str)
  qed
  then have 1: "list_all is_ppm_str (map (\<lambda>p. JStr (int_str p)) (joint_states j))"
    by (simp add: list_all_iff)
  have 2: "map (\<lambda>p. int (str_nat (jstr_val p))) (map (\<lambda>p. JStr (int_str p)) (joint_states j)) = joint_states j"
    using range by (auto simp: str_nat_int_str intro!: map_idI)
  have 3: "map jint_val (map JInt (joint_events j)) = joint_events j" "list_all is_jint (map JInt (joint_events j))"
    by (auto simp: list_all_iff intro!: map_idI)
  have 4: "\<lparr>joint_events = joint_events j, joint_states = joint_states j\<rparr> = j" by (cases j) simp
  show ?thesis
    using assms 1 unfolding jointFromJSON_def jointToJSON_def wf_joint_def
    by (simp add: jget_def 2 [unfolded map_map] 3 [unfolded map_map] 4)
qed

lemma jointFromJSON_wf: "jointFromJSON v n = ok j \<Longrightarrow> wf_joint n j"
  by (auto simp: jointFromJSON_def wf_joint_def assertJoint_ok_iff split: json.splits if_splits)

section \<open>Properties\<close>

text \<open>In every accepted forecast the chance of two events together respects the Frechet
  bounds of their chances, the ones the code shows to users.\<close>

theorem joint_within_frechet_bounds:
  assumes "wf_joint n j" and "marginal j a = ok pA" and "marginal j b = ok pB" and "both j a b = ok pAB"
  shows "\<exists>low high. frechetBounds pA pB = ok (low, high) \<and> low \<le> pAB \<and> pAB \<le> high"
  using joint_pair_bounds [OF assms] by (simp add: frechetBounds_ok_iff)

definition example_joint :: joint where
  "example_joint = \<lparr>joint_events = [0, 2], joint_states = [100000, 300000, 400000, 200000]\<rparr>"

lemma example_joint_wf: "wf_joint (Some 3) example_joint"
  unfolding wf_joint_def example_joint_def by code_simp

theorem joint_within_frechet_bounds_witness:
  "\<exists>low high. frechetBounds 500000 600000 = ok (low, high) \<and> low \<le> 200000 \<and> 200000 \<le> high"
proof (rule joint_within_frechet_bounds [OF example_joint_wf])
  show "marginal example_joint 0 = ok 500000" unfolding example_joint_def by code_simp
  show "marginal example_joint 2 = ok 600000" unfolding example_joint_def by code_simp
  show "both example_joint 0 2 = ok 200000" unfolding example_joint_def by code_simp
qed

text \<open>A forecast of two events is built from their chances and their joint chance exactly
  when the three are coherent, and then it gives the same three numbers back.\<close>

theorem pair_forecast_coherent:
  "(\<exists>j. jointFromPair a b pA pB pAB = ok j) =
      (a \<noteq> b \<and> 0 \<le> a \<and> 0 \<le> b \<and> 0 \<le> pA \<and> pA \<le> PPM \<and> 0 \<le> pB \<and> pB \<le> PPM
       \<and> max 0 (pA + pB - PPM) \<le> pAB \<and> pAB \<le> min pA pB)
    \<and> (\<exists>j. jointFromPair a b pA pB pAB = ok j) =
      (\<exists>j. jointFromPair a b pA pB pAB = ok j \<and> marginal j a = ok pA \<and> marginal j b = ok pB
        \<and> both j a b = ok pAB)"
proof -
  have "marginal j a = ok pA \<and> marginal j b = ok pB \<and> both j a b = ok pAB"
    if "jointFromPair a b pA pB pAB = ok j" for j
  proof -
    note d = that [unfolded jointFromPair_ok_iff]
    show ?thesis
    proof (cases "a < b")
      case True
      have w: "wf_joint None \<lparr>joint_events = [a, b], joint_states = [PPM - pA - pB + pAB, pA - pAB, pB - pAB, pAB]\<rparr>"
        using d True by (intro pair_joint_wf) auto
      show ?thesis using pair_joint_marginals [OF w] d True by simp
    next
      case False
      have w: "wf_joint None \<lparr>joint_events = [b, a], joint_states = [PPM - pB - pA + pAB, pB - pAB, pA - pAB, pAB]\<rparr>"
        using d False by (intro pair_joint_wf) auto
      show ?thesis using pair_joint_marginals [OF w] d False by simp
    qed
  qed
  then show ?thesis unfolding jointFromPair_ok_iff by blast
qed

text \<open>The independent baseline of one to four distinct events always exists, sums to
  exactly one million, and every state is less than one part per million off the exact
  product of its chances.\<close>

theorem independent_baseline_rounding:
  assumes "length events = length ms" and "events \<noteq> []" and "length events \<le> 4"
    and "distinct events" and "list_all (\<lambda>e. 0 \<le> e) events" and "list_all (\<lambda>p. 0 \<le> p \<and> p \<le> PPM) ms"
  shows "\<exists>final. independentJoint events ms = ok \<lparr>joint_events = sort events, joint_states = final\<rparr>
    \<and> sum_list final = PPM
    \<and> (\<forall>s<2 ^ length events. \<bar>final ! s * PPM ^ (length events - 1)
        - (\<Prod>i<length events. let p = map snd (sort_key fst (zip events ms)) ! i in if bit s i then p else PPM - p)\<bar>
        < PPM ^ (length events - 1))"
proof -
  let ?ps = "map snd (sort_key fst (zip events ms))"
  have l: "length ?ps = length events" using sorted_zip_facts(3) [OF assms(1)] by simp
  have "state_product ?ps s = (\<Prod>i<length events. let p = ?ps ! i in if bit s i then p else PPM - p)" for s
    using state_product_prod [of ?ps s] l assms(3) by (simp add: Let_def del: nth_map)
  then show ?thesis
    using independentJoint_ok [OF assms(1-4)] assms(5,6) by (auto simp: list_all_iff)
qed

theorem independent_baseline_rounding_witness:
  "\<exists>final. independentJoint [2, 0] [333333, 500001] = ok \<lparr>joint_events = sort [2, 0], joint_states = final\<rparr>
    \<and> sum_list final = PPM"
  using independent_baseline_rounding [of "[2, 0]" "[333333, 500001]"] by (auto simp: PPM_def)

text \<open>The chance of an encoded claim is the total of the forecast states in which its
  payout rule holds of its answers.\<close>

theorem claim_chance_is_rule_chance:
  assumes "wf_joint m j" and "encode pool n legs rule = ok c" and "covers j c"
  shows "claimProbability j c = ok (\<Sum>s | s < length (joint_states j)
    \<and> rule_holds rule (map (\<lambda>l. event_yes j s (ans_event l) = ans_yes l) legs). joint_states j ! s)"
  unfolding rule_chance [OF assms] reduce_where_sum ..

theorem claim_chance_is_rule_chance_witness:
  "claimProbability example_joint \<lparr>claim_chain = 10143, claim_pool = example_pool, claim_scope = 5, claim_mask = 13\<rparr>
    = ok (\<Sum>s | s < length (joint_states example_joint)
    \<and> rule_holds R_OR (map (\<lambda>l. event_yes example_joint s (ans_event l) = ans_yes l) example_legs). joint_states example_joint ! s)"
  by (rule claim_chance_is_rule_chance [OF example_joint_wf example_encode])
    (simp add: example_joint_def, code_simp)

text \<open>A claim and its complement share the whole chance: their chances are between zero
  and one million and add up to exactly one million.\<close>

theorem claim_chance_complement:
  assumes "wf_joint m j" and "wf_claim n c" and "claimProbability j c = ok p"
  shows "claimProbability j (complement c) = ok (PPM - p) \<and> 0 \<le> p \<and> p \<le> PPM"
  using assms by (rule claimProbability_complement)

theorem claim_chance_complement_witness:
  "claimProbability example_joint (complement \<lparr>claim_chain = 10143, claim_pool = example_pool, claim_scope = 5, claim_mask = 13\<rparr>)
    = ok (PPM - 700000) \<and> (0 :: int) \<le> 700000 \<and> 700000 \<le> PPM"
  by (rule claim_chance_complement [OF example_joint_wf example_wf])
    (simp add: example_joint_def, code_simp)

text \<open>An accepted forecast crosses JSON unchanged, and reading JSON never yields a forecast
  that is not a distribution.\<close>

theorem joint_json_round_trip:
  "(wf_joint n j \<longrightarrow> jointFromJSON (jointToJSON j) n = ok j)
    \<and> (jointFromJSON v n = ok k \<longrightarrow> wf_joint n k)"
  by (auto intro: jointFromJSON_toJSON jointFromJSON_wf)

theorem joint_json_round_trip_witness:
  "jointFromJSON (jointToJSON example_joint) (Some 3) = ok example_joint"
  using joint_json_round_trip example_joint_wf by blast

end
