(* ===== verification/Policy.thy ===== *)
theory Policy
  imports Payouts
begin

text \<open>
  The deterministic execution policy (packages/sdk/src/policy.ts): what a runtime checks, under
  the journal's lock, before it plans a transaction. Amounts are decimal strings, as the
  configuration and the journal hold them; times and counters are integers.
\<close>

section \<open>Data\<close>

datatype journal_status =
    Planned | Signed | Broadcast | Confirmed | Reverted | Mismatch | Replaced | Expired | Abandoned

definition UNFINISHED :: "journal_status list" where
  "UNFINISHED = [Planned, Signed, Broadcast]"

datatype journal_action = Approve | Buy | Sell | Redeem

record claim_ref =
  cr_scope :: int
  cr_mask :: string

record spend_window =
  win_seconds :: int
  win_atoms :: string

record policy_config =
  pc_markets :: "string list"
  pc_maxQuantity :: string
  pc_maxTradeCost :: string
  pc_maxSlippageBps :: int
  pc_spendTotal :: string
  pc_windows :: "spend_window list"
  pc_maxPosition :: string
  pc_maxWorstCaseLoss :: string
  pc_gasMaxFee :: string
  pc_gasReserve :: string
  pc_quoteMaxAge :: int
  pc_minBeforeClose :: int
  pc_maxPending :: int
  pc_allowSell :: bool
  pc_allowRedeem :: bool

record policy_entry =
  pe_action :: journal_action
  pe_namespace :: string
  pe_claim :: "claim_ref option"
  pe_quantity :: string
  pe_limit :: string
  pe_cost :: "string option"
  pe_status :: journal_status
  pe_plannedAt :: int

record policy_market =
  pm_namespace :: string
  pm_pool :: string
  pm_eventCount :: int
  pm_closesAt :: int
  pm_open :: bool
  pm_resolved :: bool

record holding =
  h_claim :: claim_ref
  h_quantity :: string

record candidate =
  ca_action :: journal_action
  ca_namespace :: string
  ca_claim :: claim_ref
  ca_quantity :: string
  ca_limit :: string
  ca_slippageBps :: int
  ca_quoteTime :: int
  ca_gasLimit :: string
  ca_maxFeePerGas :: string

record policy_input =
  pi_policy :: policy_config
  pi_now :: int
  pi_market :: policy_market
  pi_native :: string
  pi_holdings :: "holding list"
  pi_journal :: "policy_entry list"
  pi_candidate :: candidate

datatype violation =
    SERVICE_LIMIT | MARKET_NOT_ALLOWED | MARKET_CLOSED | MARKET_NOT_RESOLVED | TOO_CLOSE_TO_CLOSE
  | ACTION_DISABLED | HOLDINGS_INSUFFICIENT | QUANTITY_LIMIT | TRADE_COST_LIMIT | SLIPPAGE_LIMIT
  | QUOTE_STALE | TOTAL_SPEND_LIMIT | WINDOW_SPEND_LIMIT | POSITION_LIMIT | WORST_CASE_LOSS_LIMIT
  | GAS_FEE_LIMIT | GAS_RESERVE | PENDING_LIMIT

definition VIOLATIONS :: "violation list" where
  "VIOLATIONS = [SERVICE_LIMIT, MARKET_NOT_ALLOWED, MARKET_CLOSED, MARKET_NOT_RESOLVED, TOO_CLOSE_TO_CLOSE,
     ACTION_DISABLED, HOLDINGS_INSUFFICIENT, QUANTITY_LIMIT, TRADE_COST_LIMIT, SLIPPAGE_LIMIT, QUOTE_STALE,
     TOTAL_SPEND_LIMIT, WINDOW_SPEND_LIMIT, POSITION_LIMIT, WORST_CASE_LOSS_LIMIT, GAS_FEE_LIMIT,
     GAS_RESERVE, PENDING_LIMIT]"

definition SERVICE_MAX_ATOMS :: int where
  "SERVICE_MAX_ATOMS = 100000000"

definition SERVICE_SLIPPAGE_BPS :: "int list" where
  "SERVICE_SLIPPAGE_BPS = [10, 50, 100]"

section \<open>Amounts and spending\<close>

text \<open>\<open>n\<close>: a canonical decimal string, or \<open>invalid_input\<close>.\<close>

definition n_of :: "string \<Rightarrow> int res" where
  "n_of v = (if \<not> is_canon_dec v then throw Invalid_input else ok (int (str_nat v)))"

definition same_claim :: "claim_ref option \<Rightarrow> claim_ref \<Rightarrow> bool" where
  "same_claim a b = (case a of None \<Rightarrow> False | Some x \<Rightarrow> cr_scope x = cr_scope b \<and> cr_mask x = cr_mask b)"

definition unfinished :: "journal_status \<Rightarrow> bool" where
  "unfinished s = List.member UNFINISHED s"

definition cost_or_zero :: "string option \<Rightarrow> string" where
  "cost_or_zero c = (case c of None \<Rightarrow> ''0'' | Some s \<Rightarrow> s)"

definition spendOf :: "policy_entry \<Rightarrow> int res" where
  "spendOf e =
     (if pe_action e \<noteq> Buy then ok 0
      else if pe_status e = Confirmed then n_of (cost_or_zero (pe_cost e))
      else if unfinished (pe_status e) \<or> pe_status e = Mismatch then n_of (pe_limit e)
      else ok 0)"

section \<open>Worst-case loss\<close>

record position =
  pos_scope :: int
  pos_mask :: int
  pos_quantity :: int

definition position_key :: "claim_ref \<Rightarrow> string" where
  "position_key c = int_str (cr_scope c) @ '':'' @ cr_mask c"

text \<open>\<open>add\<close>: the Map keeps the order in which its keys were first set.\<close>

fun add_position :: "claim_ref \<Rightarrow> int \<Rightarrow> (string \<times> position) list \<Rightarrow> (string \<times> position) list res" where
  "add_position c q [] = bindE (big_of_string (cr_mask c)) (\<lambda>m.
     ok [(position_key c, \<lparr>pos_scope = cr_scope c, pos_mask = m, pos_quantity = 0 + q\<rparr>)])"
| "add_position c q ((k, p) # ps) =
     (if k = position_key c then ok ((k, p\<lparr>pos_quantity := pos_quantity p + q\<rparr>) # ps)
      else bindE (add_position c q ps) (\<lambda>qs. ok ((k, p) # qs)))"

text \<open>One journal entry of the loop.\<close>

definition loss_step :: "string \<Rightarrow> (string \<times> position) list \<times> int \<Rightarrow> policy_entry
    \<Rightarrow> ((string \<times> position) list \<times> int) res" where
  "loss_step namespace = (\<lambda>(ps, cost) e.
     case pe_claim e of
       None \<Rightarrow> ok (ps, cost)
     | Some c \<Rightarrow>
         if pe_namespace e \<noteq> namespace then ok (ps, cost)
         else if pe_action e = Buy \<and> pe_status e = Confirmed then
           bindE (n_of (pe_quantity e)) (\<lambda>q. bindE (add_position c q ps) (\<lambda>ps'.
           bindE (n_of (cost_or_zero (pe_cost e))) (\<lambda>k. ok (ps', cost + k))))
         else if pe_action e = Buy \<and> unfinished (pe_status e) then
           bindE (n_of (pe_quantity e)) (\<lambda>q. bindE (add_position c q ps) (\<lambda>ps'.
           bindE (n_of (pe_limit e)) (\<lambda>k. ok (ps', cost + k))))
         else if (pe_action e = Sell \<or> pe_action e = Redeem) \<and> pe_status e = Confirmed then
           bindE (n_of (pe_quantity e)) (\<lambda>q. bindE (add_position c (- q) ps) (\<lambda>ps'. ok (ps', cost)))
         else ok (ps, cost))"

definition position_pays :: "string \<Rightarrow> position \<Rightarrow> int \<Rightarrow> bool" where
  "position_pays pool p state = paysIn \<lparr>claim_chain = 10143, claim_pool = pool, claim_scope = pos_scope p,
     claim_mask = pos_mask p\<rparr> state"

definition state_payout :: "string \<Rightarrow> position list \<Rightarrow> int \<Rightarrow> int" where
  "state_payout pool ps state = foldl (\<lambda>payout p.
     if pos_quantity p > 0 \<and> position_pays pool p state then payout + pos_quantity p else payout) 0 ps"

text \<open>The lowest total payout over the outcomes, or null when there is none.\<close>

definition lowest_payout :: "string \<Rightarrow> position list \<Rightarrow> int \<Rightarrow> int option" where
  "lowest_payout pool ps eventCount = foldl (\<lambda>floor state.
     let payout = state_payout pool ps state in
     case floor of None \<Rightarrow> Some payout | Some f \<Rightarrow> if payout < f then Some payout else floor)
     None (states eventCount)"

definition worstCaseLoss :: "policy_input \<Rightarrow> int res" where
  "worstCaseLoss inp =
     (let market = pi_market inp; c = pi_candidate inp in
      bindE (foldE (loss_step (pm_namespace market)) ([], 0) (pi_journal inp)) (\<lambda>(ps, cost).
      bindE (n_of (ca_quantity c)) (\<lambda>q. bindE (add_position (ca_claim c) q ps) (\<lambda>ps'.
      bindE (n_of (ca_limit c)) (\<lambda>l.
        ok (cost + l - (case lowest_payout (pm_pool market) (map snd ps') (pm_eventCount market) of
          None \<Rightarrow> 0 | Some f \<Rightarrow> f)))))))"

section \<open>The policy check\<close>

definition flag :: "violation \<Rightarrow> bool \<Rightarrow> violation list" where
  "flag v b = (if b then [v] else [])"

text \<open>\<open>b && x > n(v)\<close>: the limit is read only when \<open>b\<close> holds.\<close>

definition exceeds_when :: "bool \<Rightarrow> int \<Rightarrow> string \<Rightarrow> bool res" where
  "exceeds_when b x v = (if b then bindE (n_of v) (\<lambda>m. ok (x > m)) else ok False)"

text \<open>What only a buy is checked for.\<close>

definition buy_violations :: "policy_input \<Rightarrow> int \<Rightarrow> int \<Rightarrow> int \<Rightarrow> violation list res" where
  "buy_violations inp quantity limit held =
     (let p = pi_policy inp; c = pi_candidate inp; journal = pi_journal inp in
      bindE (sumE spendOf journal) (\<lambda>spent.
      bindE (n_of (pc_spendTotal p)) (\<lambda>totalMax.
      bindE (mapE (\<lambda>w.
          bindE (sumE spendOf (filter (\<lambda>e. pe_plannedAt e \<ge> pi_now inp - win_seconds w) journal)) (\<lambda>s.
          bindE (n_of (win_atoms w)) (\<lambda>m. ok (s + limit > m)))) (pc_windows p)) (\<lambda>windowHits.
      bindE (sumE (\<lambda>e. n_of (pe_quantity e)) (filter (\<lambda>e. pe_action e = Buy \<and> unfinished (pe_status e)
          \<and> pe_namespace e = ca_namespace c \<and> same_claim (pe_claim e) (ca_claim c)) journal)) (\<lambda>pendingSame.
      bindE (n_of (pc_maxPosition p)) (\<lambda>maxPosition.
      bindE (worstCaseLoss inp) (\<lambda>loss.
      bindE (n_of (pc_maxWorstCaseLoss p)) (\<lambda>maxLoss.
        ok (flag TOTAL_SPEND_LIMIT (spent + limit > totalMax)
          @ flag WINDOW_SPEND_LIMIT (list_ex id windowHits)
          @ flag POSITION_LIMIT (held + pendingSame + quantity > maxPosition)
          @ flag WORST_CASE_LOSS_LIMIT (loss > maxLoss))))))))))"

definition evaluatePolicy :: "policy_input \<Rightarrow> violation list res" where
  "evaluatePolicy inp =
     (let p = pi_policy inp; now = pi_now inp; market = pi_market inp; journal = pi_journal inp;
          c = pi_candidate inp; action = ca_action c in
      bindE (n_of (ca_quantity c)) (\<lambda>quantity. bindE (n_of (ca_limit c)) (\<lambda>limit.
      let buy = (action = Buy); trade = (buy \<or> action = Sell);
          closed = (\<not> pm_open market \<or> now \<ge> pm_closesAt market);
          early = flag SERVICE_LIMIT (quantity < 1 \<or> quantity > SERVICE_MAX_ATOMS \<or> limit > SERVICE_MAX_ATOMS
                \<or> (trade \<and> \<not> List.member SERVICE_SLIPPAGE_BPS (ca_slippageBps c)))
            @ flag MARKET_NOT_ALLOWED (\<not> List.member (pc_markets p) (ca_namespace c) \<or> ca_namespace c \<noteq> pm_namespace market)
            @ flag MARKET_CLOSED (trade \<and> closed)
            @ flag MARKET_NOT_RESOLVED (action = Redeem \<and> \<not> pm_resolved market)
            @ flag TOO_CLOSE_TO_CLOSE (trade \<and> \<not> closed \<and> pm_closesAt market - now < pc_minBeforeClose p)
            @ flag ACTION_DISABLED ((action = Sell \<and> \<not> pc_allowSell p) \<or> (action = Redeem \<and> \<not> pc_allowRedeem p))
      in bindE (sumE (\<lambda>h. n_of (h_quantity h)) (filter (\<lambda>h. same_claim (Some (h_claim h)) (ca_claim c)) (pi_holdings inp))) (\<lambda>held.
      bindE (n_of (pc_maxQuantity p)) (\<lambda>maxQuantity.
      bindE (exceeds_when buy limit (pc_maxTradeCost p)) (\<lambda>overCost.
      let middle = flag HOLDINGS_INSUFFICIENT (\<not> buy \<and> held < quantity)
            @ flag QUANTITY_LIMIT (quantity > maxQuantity)
            @ flag TRADE_COST_LIMIT overCost
            @ flag SLIPPAGE_LIMIT (trade \<and> ca_slippageBps c > pc_maxSlippageBps p)
            @ flag QUOTE_STALE (trade \<and> now - ca_quoteTime c > pc_quoteMaxAge p)
      in bindE (if buy then buy_violations inp quantity limit held else ok []) (\<lambda>buyFound.
      bindE (n_of (ca_gasLimit c)) (\<lambda>gasLimit. bindE (n_of (ca_maxFeePerGas c)) (\<lambda>feePerGas.
      let fee = gasLimit * feePerGas in
      bindE (n_of (pc_gasMaxFee p)) (\<lambda>maxFee. bindE (n_of (pi_native inp)) (\<lambda>native.
      bindE (n_of (pc_gasReserve p)) (\<lambda>reserve.
      let found = early @ middle @ buyFound @ flag GAS_FEE_LIMIT (fee > maxFee)
            @ flag GAS_RESERVE (native - fee < reserve)
            @ flag PENDING_LIMIT (int (length (filter (\<lambda>e. unfinished (pe_status e)) journal)) \<ge> pc_maxPending p)
      in ok (filter (List.member found) VIOLATIONS)))))))))))))"

section \<open>Tightening by the published policy\<close>

record published_policy =
  fp_paused :: bool
  fp_liveEnabled :: bool
  fp_maxTradeCost :: "string option"
  fp_windows :: "spend_window list"

datatype live_block = Local_paper_mode | Live_disabled | Paused | Policy_stale

record effective =
  ef_maxTradeCost :: string
  ef_windows :: "spend_window list"
  ef_reason :: "live_block option"

text \<open>\<open>liveAllowed\<close> is \<open>reason === null\<close>.\<close>

definition effectivePolicy :: "bool \<Rightarrow> string \<Rightarrow> spend_window list \<Rightarrow> published_policy option
    \<Rightarrow> int option \<Rightarrow> int \<Rightarrow> int \<Rightarrow> effective res" where
  "effectivePolicy live localMax localWindows published readAt now maxAge =
     (let serverMax = (case published of None \<Rightarrow> None | Some f \<Rightarrow> fp_maxTradeCost f);
          windows = localWindows @ (case published of None \<Rightarrow> [] | Some f \<Rightarrow> fp_windows f);
          stale = (case readAt of None \<Rightarrow> True | Some r \<Rightarrow> now - r > maxAge);
          reason = (if \<not> live then Some Local_paper_mode
            else case published of
              None \<Rightarrow> Some Policy_stale
            | Some f \<Rightarrow> if \<not> fp_liveEnabled f then Some Live_disabled
                else if fp_paused f then Some Paused
                else if stale then Some Policy_stale else None)
      in bindE (case serverMax of
            None \<Rightarrow> ok localMax
          | Some s \<Rightarrow> bindE (n_of s) (\<lambda>a. bindE (n_of localMax) (\<lambda>b. ok (if a < b then s else localMax)))) (\<lambda>maxCost.
         ok \<lparr>ef_maxTradeCost = maxCost, ef_windows = windows, ef_reason = reason\<rparr>))"

end
