(* ===== verification/Recovery.thy ===== *)
theory Recovery
  imports Policy
begin

text \<open>
  One recovery step of a journal entry (packages/sdk/src/recovery.ts), a pure function of the
  entry and of what the chain shows.
\<close>

datatype recovery_action = No_action | Release | Verify | Poll | Rebroadcast

text \<open>\<open>receiptStatus\<close> is 1, 0 or null: \<open>Some True\<close>, \<open>Some False\<close> or \<open>None\<close>.\<close>

record chain_view =
  cv_txFound :: bool
  cv_receiptStatus :: "bool option"
  cv_nonceLatest :: int

record recovery_entry =
  re_status :: journal_status
  re_nonce :: "int option"
  re_deadline :: "int option"

definition FINAL :: "journal_status list" where
  "FINAL = [Confirmed, Reverted, Mismatch, Replaced, Expired, Abandoned]"

definition recoveryStep :: "recovery_entry \<Rightarrow> chain_view \<Rightarrow> int \<Rightarrow> journal_status \<times> recovery_action" where
  "recoveryStep entry chain now =
     (if List.member FINAL (re_status entry) then (re_status entry, No_action)
      else if re_status entry = Planned then (Abandoned, Release)
      else if cv_receiptStatus chain = Some True then (Broadcast, Verify)
      else if cv_receiptStatus chain = Some False then (Reverted, Release)
      else if cv_txFound chain then (Broadcast, Poll)
      else if (case re_nonce entry of None \<Rightarrow> False | Some n \<Rightarrow> cv_nonceLatest chain > n) then (Replaced, Release)
      else if (case re_deadline entry of None \<Rightarrow> False | Some d \<Rightarrow> now > d) then (Expired, Release)
      else (re_status entry, Rebroadcast))"

lemma unfinished_iff: "unfinished s \<longleftrightarrow> s = Planned \<or> s = Signed \<or> s = Broadcast"
  by (auto simp: unfinished_def UNFINISHED_def)

lemma final_iff: "List.member FINAL s \<longleftrightarrow> \<not> unfinished s"
  by (cases s) (auto simp: FINAL_def unfinished_iff)

end
