(* ===== verification/Policy_Laws.thy ===== *)
theory Policy_Laws
  imports Recovery
begin

text \<open>
  What the execution policy guarantees: an accepted buy keeps the spending, position and gas
  limits, its loss is bounded in every outcome, and the published policy only tightens the
  local one.
\<close>

section \<open>Amounts\<close>

lemma n_of_ok_iff: "n_of v = ok a \<longleftrightarrow> is_canon_dec v \<and> a = int (str_nat v)"
  by (auto simp: n_of_def)

lemma n_of_nonneg: "n_of v = ok a \<Longrightarrow> 0 \<le> a"
  by (simp add: n_of_ok_iff)

lemma n_of_int_str [simp]: "0 \<le> i \<Longrightarrow> n_of (int_str i) = ok i"
  by (simp add: n_of_ok_iff int_str_nonneg)

lemma spendOf_nonneg: "spendOf e = ok a \<Longrightarrow> 0 \<le> a"
  by (auto simp: spendOf_def dest: n_of_nonneg split: if_splits)

lemma sumE_nonneg: "sumE f xs = ok s \<Longrightarrow> (\<And>x a. x \<in> set xs \<Longrightarrow> f x = ok a \<Longrightarrow> 0 \<le> a) \<Longrightarrow> 0 \<le> s"
  by (induction xs arbitrary: s) (auto, metis add_nonneg_nonneg)

section \<open>Positions\<close>

text \<open>
  The abstract book of the agent: a list of changes to the number of shares it holds of a
  claim. \<open>net\<close> is what the changes leave.
\<close>

definition net :: "(claim_ref \<times> int) list \<Rightarrow> claim_ref \<Rightarrow> int" where
  "net book c = sum_list (map snd (filter (\<lambda>(d, _). d = c) book))"

lemma net_snoc: "net (book @ [(d, q)]) c = net book c + (if d = c then q else 0)"
  by (simp add: net_def)

lemma position_key_inject: "position_key c = position_key d \<longleftrightarrow> c = d"
proof
  assume "position_key c = position_key d"
  then have "int_str (cr_scope c) @ CHR '':'' # cr_mask c = int_str (cr_scope d) @ CHR '':'' # cr_mask d"
    by (simp add: position_key_def)
  note split_at_colon [OF int_str_no_colon int_str_no_colon this]
  then show "c = d" by (cases c; cases d) (simp add: int_str_inject)
qed simp

text \<open>The Map of positions stands for a book.\<close>

definition book_pos :: "(claim_ref \<times> int) list \<Rightarrow> string \<times> position \<Rightarrow> bool" where
  "book_pos book = (\<lambda>(k, p). \<exists>c. k = position_key c \<and> pos_scope p = cr_scope c
     \<and> big_of_string (cr_mask c) = ok (pos_mask p) \<and> pos_quantity p = net book c)"

definition stands_for :: "(string \<times> position) list \<Rightarrow> (claim_ref \<times> int) list \<Rightarrow> bool" where
  "stands_for ps book = (distinct (map fst ps) \<and> fst ` set ps = position_key ` fst ` set book
     \<and> list_all (book_pos book) ps)"

lemma stands_for_Nil: "stands_for [] []"
  by (simp add: stands_for_def)

lemma add_position_new:
  "add_position c q ps = ok ps' \<Longrightarrow> position_key c \<notin> fst ` set ps \<Longrightarrow>
    \<exists>m. big_of_string (cr_mask c) = ok m
      \<and> ps' = ps @ [(position_key c, \<lparr>pos_scope = cr_scope c, pos_mask = m, pos_quantity = q\<rparr>)]"
  by (induction c q ps arbitrary: ps' rule: add_position.induct) auto

lemma add_position_old:
  "add_position c q ps = ok ps' \<Longrightarrow> distinct (map fst ps) \<Longrightarrow> position_key c \<in> fst ` set ps \<Longrightarrow>
    ps' = map (\<lambda>(k, p). (k, if k = position_key c then p\<lparr>pos_quantity := pos_quantity p + q\<rparr> else p)) ps"
proof (induction c q ps arbitrary: ps' rule: add_position.induct)
  case (1 c q)
  then show ?case by simp
next
  case (2 c q k p ps)
  show ?case
  proof (cases "k = position_key c")
    case True
    then have "map (\<lambda>(k, p). (k, if k = position_key c then p\<lparr>pos_quantity := pos_quantity p + q\<rparr> else p)) ps = ps"
      using 2(3) by (intro map_idI) (auto simp: rev_image_eqI)
    with True 2(2) show ?thesis by simp
  next
    case False
    then show ?thesis using 2 by auto
  qed
qed

lemma net_notin: "c \<notin> fst ` set book \<Longrightarrow> net book c = 0"
  unfolding net_def by (induction book) auto

lemma add_position_stands_for:
  assumes s: "stands_for ps book" and a: "add_position c q ps = ok ps'"
  shows "stands_for ps' (book @ [(c, q)])"
proof (cases "position_key c \<in> fst ` set ps")
  case False
  then have new: "c \<notin> fst ` set book" using s by (auto simp: stands_for_def)
  obtain m where m: "big_of_string (cr_mask c) = ok m"
    and ps': "ps' = ps @ [(position_key c, \<lparr>pos_scope = cr_scope c, pos_mask = m, pos_quantity = q\<rparr>)]"
    using add_position_new [OF a False] by blast
  have "book_pos (book @ [(c, q)]) x" if x: "x \<in> set ps" for x
  proof -
    have "fst x \<noteq> position_key c" using x False by (metis image_eqI)
    moreover have "book_pos book x" using s x by (simp add: stands_for_def list_all_iff)
    ultimately obtain d where "fst x = position_key d" "d \<noteq> c" "pos_scope (snd x) = cr_scope d"
      "big_of_string (cr_mask d) = ok (pos_mask (snd x))" "pos_quantity (snd x) = net book d"
      by (auto simp: book_pos_def position_key_inject)
    then show ?thesis by (auto simp: book_pos_def net_snoc split_beta intro!: exI [of _ d])
  qed
  then show ?thesis using s False m net_notin [OF new]
    by (auto simp: stands_for_def ps' list_all_iff book_pos_def net_snoc)
next
  case True
  have d: "distinct (map fst ps)" using s by (simp add: stands_for_def)
  note ps' = add_position_old [OF a d True]
  have keys: "map fst ps' = map fst ps" unfolding ps' by auto
  have "book_pos (book @ [(c, q)]) x" if x: "x \<in> set ps'" for x
  proof -
    obtain k p where kp: "(k, p) \<in> set ps"
      and x': "x = (k, if k = position_key c then p\<lparr>pos_quantity := pos_quantity p + q\<rparr> else p)"
      using x by (auto simp: ps')
    have "book_pos book (k, p)" using s kp by (auto simp: stands_for_def list_all_iff)
    then show ?thesis by (auto simp: x' book_pos_def net_snoc position_key_inject)
  qed
  moreover have "fst ` set ps' = position_key ` fst ` set (book @ [(c, q)])"
    using s True arg_cong [OF keys, of set] by (auto simp: stands_for_def)
  ultimately show ?thesis using d keys by (simp add: stands_for_def list_all_iff)
qed


section \<open>The worst case\<close>

definition amt :: "string \<Rightarrow> int" where
  "amt s = int (str_nat s)"

lemma n_of_amt: "n_of v = ok a \<Longrightarrow> a = amt v"
  by (simp add: n_of_ok_iff amt_def)

text \<open>What a journal entry adds to the agent's book: shares of a claim, and their cost.\<close>

definition loss_effect :: "string \<Rightarrow> policy_entry \<Rightarrow> (claim_ref \<times> int \<times> int) option" where
  "loss_effect ns e = (case pe_claim e of
     None \<Rightarrow> None
   | Some c \<Rightarrow>
       if pe_namespace e \<noteq> ns then None
       else if pe_action e = Buy \<and> pe_status e = Confirmed then Some (c, amt (pe_quantity e), amt (cost_or_zero (pe_cost e)))
       else if pe_action e = Buy \<and> unfinished (pe_status e) then Some (c, amt (pe_quantity e), amt (pe_limit e))
       else if (pe_action e = Sell \<or> pe_action e = Redeem) \<and> pe_status e = Confirmed then Some (c, - amt (pe_quantity e), 0)
       else None)"

definition effects :: "policy_input \<Rightarrow> (claim_ref \<times> int \<times> int) list" where
  "effects inp = List.map_filter (loss_effect (pm_namespace (pi_market inp))) (pi_journal inp)
     @ [(ca_claim (pi_candidate inp), amt (ca_quantity (pi_candidate inp)), amt (ca_limit (pi_candidate inp)))]"

definition agent_book :: "policy_input \<Rightarrow> (claim_ref \<times> int) list" where
  "agent_book inp = map (\<lambda>(c, q, _). (c, q)) (effects inp)"

definition agent_cost :: "policy_input \<Rightarrow> int" where
  "agent_cost inp = sum_list (map (\<lambda>(_, _, k). k) (effects inp))"

definition ref_pays :: "string \<Rightarrow> claim_ref \<Rightarrow> int \<Rightarrow> bool" where
  "ref_pays pool c state = paysIn \<lparr>claim_chain = CHAIN_ID, claim_pool = pool, claim_scope = cr_scope c,
     claim_mask = value_of (big_of_string (cr_mask c))\<rparr> state"

text \<open>What the agent's shares pay in a state, one share at a time: the claims it holds a positive
  number of and that win.\<close>

definition agent_payout :: "policy_input \<Rightarrow> int \<Rightarrow> int" where
  "agent_payout inp state = (\<Sum>c\<in>fst ` set (agent_book inp).
     if net (agent_book inp) c > 0 \<and> ref_pays (pm_pool (pi_market inp)) c state then net (agent_book inp) c else 0)"

lemma loss_step_stands_for:
  assumes "loss_step ns (ps, cost) e = ok (ps', cost')" "stands_for ps book"
  shows "stands_for ps' (book @ map (\<lambda>(c, q, _). (c, q)) (List.map_filter (loss_effect ns) [e]))
    \<and> cost' = cost + sum_list (map (\<lambda>(_, _, k). k) (List.map_filter (loss_effect ns) [e]))"
  using assms
  by (auto simp: loss_step_def loss_effect_def map_filter_simps dest!: n_of_amt
      intro: add_position_stands_for split: option.splits if_splits)

lemma loss_fold_stands_for:
  "foldE (loss_step ns) (ps, cost) js = ok (ps', cost') \<Longrightarrow> stands_for ps book \<Longrightarrow>
    stands_for ps' (book @ map (\<lambda>(c, q, _). (c, q)) (List.map_filter (loss_effect ns) js))
    \<and> cost' = cost + sum_list (map (\<lambda>(_, _, k). k) (List.map_filter (loss_effect ns) js))"
proof (induction js arbitrary: ps cost book)
  case Nil
  then show ?case by (simp add: map_filter_simps)
next
  case (Cons e js)
  obtain ps1 cost1 where 1: "loss_step ns (ps, cost) e = ok (ps1, cost1)"
    and 2: "foldE (loss_step ns) (ps1, cost1) js = ok (ps', cost')"
    using Cons.prems(1) by (auto simp del: split_paired_All)
  note a = loss_step_stands_for [OF 1 Cons.prems(2)]
  have "List.map_filter (loss_effect ns) (e # js)
      = List.map_filter (loss_effect ns) [e] @ List.map_filter (loss_effect ns) js"
    by (simp add: map_filter_simps split: option.splits)
  then show ?case using Cons.IH [OF 2 conjunct1 [OF a]] a by simp
qed

lemma state_payout_sum:
  "state_payout pool ps s = (\<Sum>p\<leftarrow>ps. if pos_quantity p > 0 \<and> position_pays pool p s then pos_quantity p else 0)"
proof -
  have "foldl (\<lambda>a p. if P p then a + f p else a) a ps = a + (\<Sum>p\<leftarrow>ps. if P p then f p else 0)"
    for P and f :: "position \<Rightarrow> int" and a
    by (induction ps arbitrary: a) auto
  then show ?thesis by (simp add: state_payout_def)
qed

lemma stands_for_payout:
  assumes s: "stands_for ps book"
  shows "state_payout pool (map snd ps) state = (\<Sum>c\<in>fst ` set book.
     if net book c > 0 \<and> ref_pays pool c state then net book c else 0)"
proof -
  let ?g = "\<lambda>p. if pos_quantity p > 0 \<and> position_pays pool p state then pos_quantity p else 0"
  let ?h = "\<lambda>c. if net book c > 0 \<and> ref_pays pool c state then net book c else 0"
  have d: "distinct (map fst ps)" and keys: "fst ` set ps = position_key ` fst ` set book"
    and all: "\<And>x. x \<in> set ps \<Longrightarrow> book_pos book x"
    using s by (auto simp: stands_for_def list_all_iff)
  have g: "?g (the (map_of ps (position_key c))) = ?h c" if "c \<in> fst ` set book" for c
  proof -
    have "position_key c \<in> fst ` set ps" using that keys by simp
    then obtain p where p: "(position_key c, p) \<in> set ps" by auto
    then have m: "map_of ps (position_key c) = Some p" using d by simp
    have "book_pos book (position_key c, p)" using all p by blast
    then show ?thesis
      by (auto simp: m book_pos_def position_key_inject ref_pays_def position_pays_def CHAIN_ID_def)
  qed
  have "state_payout pool (map snd ps) state = (\<Sum>x\<leftarrow>ps. ?g (snd x))"
    by (simp add: state_payout_sum o_def)
  also have "\<dots> = (\<Sum>x\<in>set ps. ?g (snd x))"
    using d by (intro sum_list_distinct_conv_sum_set) (simp add: distinct_map)
  also have "\<dots> = (\<Sum>x\<in>set ps. ?g (the (map_of ps (fst x))))"
    using d by (intro sum.cong) auto
  also have "\<dots> = (\<Sum>k\<in>fst ` set ps. ?g (the (map_of ps k)))"
    using d by (simp add: sum.reindex distinct_map)
  also have "\<dots> = (\<Sum>c\<in>fst ` set book. ?g (the (map_of ps (position_key c))))"
    unfolding keys by (rule sum.reindex [unfolded o_def]) (simp add: inj_on_def position_key_inject)
  also have "\<dots> = (\<Sum>c\<in>fst ` set book. ?h c)" by (rule sum.cong [OF refl g])
  finally show ?thesis .
qed

lemma lowest_payout_Some:
  "xs \<noteq> [] \<Longrightarrow> \<exists>m. foldl (\<lambda>floor s. let p = f s in
      case floor of None \<Rightarrow> Some p | Some v \<Rightarrow> if p < v then Some p else floor) None xs = Some m
    \<and> m \<in> f ` set xs \<and> (\<forall>s\<in>set xs. m \<le> (f s :: int))"
proof (induction xs rule: rev_induct)
  case Nil
  then show ?case by simp
next
  case (snoc x xs)
  show ?case
  proof (cases "xs = []")
    case True
    then show ?thesis by simp
  next
    case False
    then show ?thesis using snoc.IH
      by (auto simp: Let_def) (meson less_imp_le less_le_trans)
  qed
qed

lemma states_nonempty [simp]: "states n \<noteq> []"
  by (simp add: states_def)

text \<open>The worst-case loss is the greatest loss over all outcomes.\<close>

lemma worstCaseLoss_eq:
  assumes "worstCaseLoss inp = ok loss"
  shows "(\<forall>s\<in>set (states (pm_eventCount (pi_market inp))). agent_cost inp - agent_payout inp s \<le> loss)
    \<and> (\<exists>s\<in>set (states (pm_eventCount (pi_market inp))). agent_cost inp - agent_payout inp s = loss)"
proof -
  let ?c = "pi_candidate inp" and ?pool = "pm_pool (pi_market inp)" and ?n = "pm_eventCount (pi_market inp)"
  obtain ps cost q ps' l where 1: "foldE (loss_step (pm_namespace (pi_market inp))) ([], 0) (pi_journal inp) = ok (ps, cost)"
    and q: "n_of (ca_quantity ?c) = ok q" and 2: "add_position (ca_claim ?c) q ps = ok ps'"
    and l: "n_of (ca_limit ?c) = ok l"
    and loss: "loss = cost + l - (case lowest_payout ?pool (map snd ps') ?n of None \<Rightarrow> 0 | Some f \<Rightarrow> f)"
    using assms by (auto simp: worstCaseLoss_def Let_def)
  note j = loss_fold_stands_for [OF 1 stands_for_Nil]
  have "stands_for ps' (agent_book inp)"
    using add_position_stands_for [OF conjunct1 [OF j] 2] n_of_amt [OF q]
    by (simp add: agent_book_def effects_def)
  then have pay: "state_payout ?pool (map snd ps') s = agent_payout inp s" for s
    unfolding agent_payout_def by (rule stands_for_payout)
  have cost: "agent_cost inp = cost + l"
    using j n_of_amt [OF l] by (simp add: agent_cost_def effects_def)
  obtain m where m: "lowest_payout ?pool (map snd ps') ?n = Some m"
    "m \<in> agent_payout inp ` set (states ?n)" "\<forall>s\<in>set (states ?n). m \<le> agent_payout inp s"
    using lowest_payout_Some [OF states_nonempty, of "agent_payout inp" ?n]
    unfolding lowest_payout_def pay by blast
  then show ?thesis using loss cost by auto
qed


section \<open>Acceptance\<close>

lemma flag_Nil [simp]: "flag v b = [] \<longleftrightarrow> \<not> b"
  by (simp add: flag_def)

lemma flag_member [simp]: "List.member (flag v b) x \<longleftrightarrow> b \<and> x = v"
  by (auto simp: flag_def)

lemma no_violations_iff: "filter (List.member found) VIOLATIONS = [] \<longleftrightarrow> found = []"
proof -
  have "v \<in> set VIOLATIONS" for v by (cases v) (simp_all add: VIOLATIONS_def)
  then show ?thesis by (cases found) (auto simp: filter_empty_conv)
qed

text \<open>A window's limit holds: what counts within it, with the candidate, fits.\<close>

definition window_ok :: "policy_input \<Rightarrow> int \<Rightarrow> spend_window \<Rightarrow> bool" where
  "window_ok inp limit w = (\<exists>s m. sumE spendOf (filter (\<lambda>e. pe_plannedAt e \<ge> pi_now inp - win_seconds w) (pi_journal inp)) = ok s
     \<and> n_of (win_atoms w) = ok m \<and> s + limit \<le> m)"

lemma mapE_no_hit:
  "(\<exists>hits. mapE f ws = ok hits \<and> \<not> list_ex id hits) \<longleftrightarrow> list_all (\<lambda>w. f w = ok False) ws"
proof (induction ws)
  case Nil
  then show ?case by simp
next
  case (Cons w ws)
  have "(\<exists>hits. mapE f (w # ws) = ok hits \<and> \<not> list_ex id hits)
      \<longleftrightarrow> f w = ok False \<and> (\<exists>hits. mapE f ws = ok hits \<and> \<not> list_ex id hits)"
    by (cases "f w"; cases "mapE f ws") auto
  then show ?case unfolding Cons.IH by (simp only: list.pred_inject)
qed

lemma windows_ok_iff:
  "(\<exists>hits. mapE (\<lambda>w. bindE (sumE spendOf (filter (\<lambda>e. pe_plannedAt e \<ge> pi_now inp - win_seconds w) (pi_journal inp)))
      (\<lambda>s. bindE (n_of (win_atoms w)) (\<lambda>m. ok (s + limit > m)))) ws = ok hits \<and> \<not> list_ex id hits)
    \<longleftrightarrow> list_all (window_ok inp limit) ws"
proof -
  have "(bindE (sumE spendOf (filter (\<lambda>e. pe_plannedAt e \<ge> pi_now inp - win_seconds w) (pi_journal inp)))
      (\<lambda>s. bindE (n_of (win_atoms w)) (\<lambda>m. ok (s + limit > m))) = ok False) = window_ok inp limit w" for w
    by (auto simp: window_ok_def not_less)
  then show ?thesis unfolding mapE_no_hit by simp
qed

definition buy_ok :: "policy_input \<Rightarrow> int \<Rightarrow> int \<Rightarrow> int \<Rightarrow> bool" where
  "buy_ok inp quantity limit held = (let p = pi_policy inp; c = pi_candidate inp in
     (\<exists>spent total pending maxPosition loss maxLoss.
       sumE spendOf (pi_journal inp) = ok spent \<and> n_of (pc_spendTotal p) = ok total \<and> spent + limit \<le> total
     \<and> list_all (window_ok inp limit) (pc_windows p)
     \<and> sumE (\<lambda>e. n_of (pe_quantity e)) (filter (\<lambda>e. pe_action e = Buy \<and> unfinished (pe_status e)
          \<and> pe_namespace e = ca_namespace c \<and> same_claim (pe_claim e) (ca_claim c)) (pi_journal inp)) = ok pending
     \<and> n_of (pc_maxPosition p) = ok maxPosition \<and> held + pending + quantity \<le> maxPosition
     \<and> worstCaseLoss inp = ok loss \<and> n_of (pc_maxWorstCaseLoss p) = ok maxLoss \<and> loss \<le> maxLoss))"

lemma buy_violations_none:
  "buy_violations inp quantity limit held = ok [] \<longleftrightarrow> buy_ok inp quantity limit held"
  unfolding buy_violations_def buy_ok_def Let_def bindE_Inr_iff windows_ok_iff [symmetric]
  by (simp add: not_less) blast


text \<open>What the policy accepts, limit by limit. \<open>quantity\<close>, \<open>limit\<close> and \<open>held\<close> are the
  candidate's amounts and the shares the wallet holds of its claim.\<close>

definition common_ok :: "policy_input \<Rightarrow> int \<Rightarrow> int \<Rightarrow> int \<Rightarrow> bool" where
  "common_ok inp quantity limit held = (let p = pi_policy inp; c = pi_candidate inp; m = pi_market inp;
      buy = (ca_action c = Buy); trade = (buy \<or> ca_action c = Sell) in
    (\<exists>maxQuantity gasLimit feePerGas maxFee native reserve.
       n_of (ca_quantity c) = ok quantity \<and> n_of (ca_limit c) = ok limit
     \<and> 1 \<le> quantity \<and> quantity \<le> SERVICE_MAX_ATOMS \<and> limit \<le> SERVICE_MAX_ATOMS
     \<and> (trade \<longrightarrow> ca_slippageBps c \<in> {10, 50, 100} \<and> ca_slippageBps c \<le> pc_maxSlippageBps p
         \<and> pm_open m \<and> pi_now inp < pm_closesAt m \<and> pc_minBeforeClose p \<le> pm_closesAt m - pi_now inp
         \<and> pi_now inp - ca_quoteTime c \<le> pc_quoteMaxAge p)
     \<and> ca_namespace c \<in> set (pc_markets p) \<and> ca_namespace c = pm_namespace m
     \<and> (ca_action c = Redeem \<longrightarrow> pm_resolved m \<and> pc_allowRedeem p) \<and> (ca_action c = Sell \<longrightarrow> pc_allowSell p)
     \<and> sumE (\<lambda>h. n_of (h_quantity h)) (filter (\<lambda>h. same_claim (Some (h_claim h)) (ca_claim c)) (pi_holdings inp)) = ok held
     \<and> (buy \<or> quantity \<le> held)
     \<and> n_of (pc_maxQuantity p) = ok maxQuantity \<and> quantity \<le> maxQuantity
     \<and> n_of (ca_gasLimit c) = ok gasLimit \<and> n_of (ca_maxFeePerGas c) = ok feePerGas
     \<and> n_of (pc_gasMaxFee p) = ok maxFee \<and> n_of (pi_native inp) = ok native \<and> n_of (pc_gasReserve p) = ok reserve
     \<and> gasLimit * feePerGas \<le> maxFee \<and> reserve \<le> native - gasLimit * feePerGas
     \<and> int (length (filter (\<lambda>e. unfinished (pe_status e)) (pi_journal inp))) < pc_maxPending p))"

definition trade_cost_ok :: "policy_input \<Rightarrow> int \<Rightarrow> bool" where
  "trade_cost_ok inp limit = (\<exists>maxCost. n_of (pc_maxTradeCost (pi_policy inp)) = ok maxCost \<and> limit \<le> maxCost)"

definition accepts :: "policy_input \<Rightarrow> bool" where
  "accepts inp = (\<exists>quantity limit held. common_ok inp quantity limit held
     \<and> (ca_action (pi_candidate inp) = Buy \<longrightarrow> trade_cost_ok inp limit \<and> buy_ok inp quantity limit held))"

lemma evaluatePolicy_accepts: "evaluatePolicy inp = ok [] \<longleftrightarrow> accepts inp"
  unfolding evaluatePolicy_def accepts_def common_ok_def trade_cost_ok_def Let_def
  apply (cases "n_of (ca_quantity (pi_candidate inp))", simp, simp)
  apply (cases "n_of (ca_limit (pi_candidate inp))", simp, simp)
  apply (cases "sumE (\<lambda>h. n_of (h_quantity h)) (filter (\<lambda>h. same_claim (Some (h_claim h)) (ca_claim (pi_candidate inp))) (pi_holdings inp))", simp, simp)
  apply (cases "n_of (pc_maxQuantity (pi_policy inp))", simp, simp)
  apply (cases "n_of (ca_gasLimit (pi_candidate inp))", simp, simp)
  apply (cases "n_of (ca_maxFeePerGas (pi_candidate inp))", simp, simp)
  apply (cases "n_of (pc_gasMaxFee (pi_policy inp))", simp, simp)
  apply (cases "n_of (pi_native inp)", simp, simp)
  apply (cases "n_of (pc_gasReserve (pi_policy inp))", simp, simp)
  apply (cases "ca_action (pi_candidate inp)")
  apply (simp_all add: no_violations_iff SERVICE_SLIPPAGE_BPS_def exceeds_when_def buy_violations_none
      ex_bool_eq not_less not_le)
  apply (safe; simp)+
  done


section \<open>The published policy\<close>

lemma effectivePolicy_ok:
  assumes "effectivePolicy live localMax localWindows published readAt now maxAge = ok ef"
  shows "\<exists>extra. ef_windows ef = localWindows @ extra"
    and "ef_maxTradeCost ef = localMax \<or> (\<exists>a b. n_of (ef_maxTradeCost ef) = ok a \<and> n_of localMax = ok b \<and> a < b)"
    and "ef_reason ef = None \<Longrightarrow> live \<and> (\<exists>f r. published = Some f \<and> fp_liveEnabled f \<and> \<not> fp_paused f
          \<and> readAt = Some r \<and> now - r \<le> maxAge)"
  using assms by (auto simp: effectivePolicy_def Let_def not_less split: option.splits if_splits)

lemma accepts_loosen:
  assumes acc: "accepts (inp\<lparr>pi_policy := p\<lparr>pc_maxTradeCost := cost, pc_windows := windows\<rparr>\<rparr>)"
    and windows: "windows = pc_windows p @ extra"
    and cost: "cost = pc_maxTradeCost p \<or> (\<exists>a b. n_of cost = ok a \<and> n_of (pc_maxTradeCost p) = ok b \<and> a < b)"
  shows "accepts (inp\<lparr>pi_policy := p\<rparr>)"
proof -
  have loss: "worstCaseLoss (inp\<lparr>pi_policy := q\<rparr>) = worstCaseLoss inp" for q
    by (simp add: worstCaseLoss_def)
  have win: "window_ok (inp\<lparr>pi_policy := q\<rparr>) = window_ok inp" for q
    by (intro ext) (simp add: window_ok_def)
  have buy: "buy_ok (inp\<lparr>pi_policy := p\<lparr>pc_maxTradeCost := cost, pc_windows := windows\<rparr>\<rparr>) q l h
      \<Longrightarrow> buy_ok (inp\<lparr>pi_policy := p\<rparr>) q l h" for q l h
    unfolding buy_ok_def Let_def loss win windows by simp blast
  have common: "common_ok (inp\<lparr>pi_policy := p\<lparr>pc_maxTradeCost := cost, pc_windows := windows\<rparr>\<rparr>) q l h
      = common_ok (inp\<lparr>pi_policy := p\<rparr>) q l h" for q l h
    by (simp add: common_ok_def Let_def)
  have lim: "trade_cost_ok (inp\<lparr>pi_policy := p\<lparr>pc_maxTradeCost := cost, pc_windows := windows\<rparr>\<rparr>) l
      \<Longrightarrow> trade_cost_ok (inp\<lparr>pi_policy := p\<rparr>) l" for l
    using cost by (auto simp: trade_cost_ok_def)
  show ?thesis using acc unfolding accepts_def common by (auto dest: buy lim)
qed

section \<open>Properties\<close>

text \<open>The policy check passes exactly the actions that keep every limit of the
  configuration and of the service: amounts, slippage, market and timing, holdings, spending in
  total and in each window, position, worst-case loss, gas and pending transactions.\<close>

theorem policy_accepts_exactly: "(evaluatePolicy inp = ok []) = accepts inp"
  by (rule evaluatePolicy_accepts)

text \<open>C34: The worst-case loss is exactly the greatest loss over all outcomes of the market: what
  the agent's journal and the candidate cost, less what the shares they leave would pay there.\<close>

theorem worst_case_loss_exact:
  assumes "worstCaseLoss inp = ok loss"
  shows "loss = Max ((\<lambda>s. agent_cost inp - agent_payout inp s) ` set (states (pm_eventCount (pi_market inp))))"
proof (rule sym, rule Max_eqI)
  show "finite ((\<lambda>s. agent_cost inp - agent_payout inp s) ` set (states (pm_eventCount (pi_market inp))))" by simp
qed (use worstCaseLoss_eq [OF assms] in auto)

definition example_policy :: policy_config where
  "example_policy = \<lparr>pc_markets = [''pilot''], pc_maxQuantity = ''5000000'', pc_maxTradeCost = ''3000000'',
     pc_maxSlippageBps = 50, pc_spendTotal = ''10000000'', pc_windows = [\<lparr>win_seconds = 86400, win_atoms = ''5000000''\<rparr>],
     pc_maxPosition = ''8000000'', pc_maxWorstCaseLoss = ''6000000'', pc_gasMaxFee = ''1000000'', pc_gasReserve = ''500'',
     pc_quoteMaxAge = 60, pc_minBeforeClose = 600, pc_maxPending = 2, pc_allowSell = True, pc_allowRedeem = True\<rparr>"

definition example_input :: policy_input where
  "example_input = \<lparr>pi_policy = example_policy, pi_now = 1000,
     pi_market = \<lparr>pm_namespace = ''pilot'', pm_pool = example_pool, pm_eventCount = 3, pm_closesAt = 90000,
       pm_open = True, pm_resolved = False\<rparr>,
     pi_native = ''10000000'', pi_holdings = [\<lparr>h_claim = \<lparr>cr_scope = 5, cr_mask = ''13''\<rparr>, h_quantity = ''2000000''\<rparr>],
     pi_journal = [\<lparr>pe_action = Buy, pe_namespace = ''pilot'', pe_claim = Some \<lparr>cr_scope = 5, cr_mask = ''13''\<rparr>,
       pe_quantity = ''2000000'', pe_limit = ''1500000'', pe_cost = Some ''1400000'', pe_status = Confirmed, pe_plannedAt = 900\<rparr>],
     pi_candidate = \<lparr>ca_action = Buy, ca_namespace = ''pilot'', ca_claim = \<lparr>cr_scope = 3, cr_mask = ''8''\<rparr>,
       ca_quantity = ''1000000'', ca_limit = ''400000'', ca_slippageBps = 50, ca_quoteTime = 990,
       ca_gasLimit = ''100'', ca_maxFeePerGas = ''200''\<rparr>\<rparr>"

lemmas n_of_eval = n_of_def is_canon_dec_def is_dec_def code_def str_nat_def digit_val_def from_base_def Let_def

definition example_positions :: "(string \<times> position) list" where
  "example_positions = [(''5:13'', \<lparr>pos_scope = 5, pos_mask = 13, pos_quantity = 2000000\<rparr>),
     (''3:8'', \<lparr>pos_scope = 3, pos_mask = 8, pos_quantity = 1000000\<rparr>)]"

lemma example_loss: "worstCaseLoss example_input = ok 1800000"
proof -
  have "foldE (loss_step ''pilot'') ([], 0) (pi_journal example_input)
      = ok ([(''5:13'', \<lparr>pos_scope = 5, pos_mask = 13, pos_quantity = 2000000\<rparr>)], 1400000)"
    unfolding example_input_def policy_input.simps by code_simp
  moreover have "add_position \<lparr>cr_scope = 3, cr_mask = ''8''\<rparr> 1000000
      [(''5:13'', \<lparr>pos_scope = 5, pos_mask = 13, pos_quantity = 2000000\<rparr>)] = ok example_positions"
    unfolding example_positions_def by code_simp
  moreover have "lowest_payout example_pool (map snd example_positions) 3 = Some 0"
    unfolding example_positions_def by code_simp
  moreover have "n_of ''1000000'' = ok 1000000" "n_of ''400000'' = ok 400000" by code_simp+
  ultimately show ?thesis by (simp add: worstCaseLoss_def example_input_def)
qed

lemma example_spent: "sumE spendOf (pi_journal example_input) = ok 1400000"
  unfolding example_input_def policy_input.simps by code_simp

lemma example_accepted: "evaluatePolicy example_input = ok []"
proof -
  have "common_ok example_input 1000000 400000 0"
    by (simp add: common_ok_def example_input_def example_policy_def n_of_eval same_claim_def
        SERVICE_MAX_ATOMS_def unfinished_iff)
  moreover have "trade_cost_ok example_input 400000"
    by (simp add: trade_cost_ok_def example_input_def example_policy_def n_of_eval)
  moreover have "window_ok example_input 400000 \<lparr>win_seconds = 86400, win_atoms = ''5000000''\<rparr>"
    using example_spent by (simp add: window_ok_def example_input_def n_of_eval)
  then have "buy_ok example_input 1000000 400000 0"
    using example_loss example_spent
    by (simp add: buy_ok_def Let_def) (simp add: example_input_def example_policy_def n_of_eval same_claim_def)
  ultimately show ?thesis unfolding evaluatePolicy_accepts accepts_def by blast
qed

theorem worst_case_loss_exact_witness:
  "1800000 = Max ((\<lambda>s. agent_cost example_input - agent_payout example_input s) ` set (states (pm_eventCount (pi_market example_input))))"
  by (rule worst_case_loss_exact [OF example_loss])

text \<open>C35: A buy the policy accepts keeps the agent's money bounded: with it reserved, total
  spending stays within the configured total, and in every outcome of the market the loss
  stays within the configured worst case.\<close>

theorem accepted_buy_is_bounded:
  assumes "evaluatePolicy inp = ok []" and "ca_action (pi_candidate inp) = Buy"
  shows "\<exists>spent limit. sumE spendOf (pi_journal inp) = ok spent \<and> n_of (ca_limit (pi_candidate inp)) = ok limit
    \<and> spent + limit \<le> amt (pc_spendTotal (pi_policy inp))
    \<and> (\<forall>s. 0 \<le> s \<and> s < 2 ^ nat (pm_eventCount (pi_market inp)) \<longrightarrow>
        agent_cost inp - agent_payout inp s \<le> amt (pc_maxWorstCaseLoss (pi_policy inp)))"
proof -
  obtain q limit h where l: "n_of (ca_limit (pi_candidate inp)) = ok limit" and b: "buy_ok inp q limit h"
    using assms unfolding evaluatePolicy_accepts accepts_def common_ok_def Let_def by blast
  obtain spent total loss m where 1: "sumE spendOf (pi_journal inp) = ok spent" "n_of (pc_spendTotal (pi_policy inp)) = ok total"
      "spent + limit \<le> total"
    and 2: "worstCaseLoss inp = ok loss" "n_of (pc_maxWorstCaseLoss (pi_policy inp)) = ok m" "loss \<le> m"
    using b unfolding buy_ok_def Let_def by auto
  have "agent_cost inp - agent_payout inp s \<le> m"
    if "s \<in> set (states (pm_eventCount (pi_market inp)))" for s
    using worstCaseLoss_eq [OF 2(1)] 2(3) that by force
  then show ?thesis using l 1 n_of_amt [OF 1(2)] n_of_amt [OF 2(2)] by (auto simp: set_states)
qed

theorem accepted_buy_is_bounded_witness:
  "\<exists>spent limit. sumE spendOf (pi_journal example_input) = ok spent \<and> n_of (ca_limit (pi_candidate example_input)) = ok limit
    \<and> spent + limit \<le> amt (pc_spendTotal (pi_policy example_input))"
  using accepted_buy_is_bounded [OF example_accepted] by (auto simp: example_input_def)

text \<open>The published policy only tightens the local one: what passes under the effective
  limits passes under the local limits, and live execution is allowed only in live mode with a
  fresh published policy that enables it and is not paused.\<close>

theorem published_policy_tightens:
  assumes "effectivePolicy live (pc_maxTradeCost p) (pc_windows p) published readAt now maxAge = ok ef"
    and "evaluatePolicy (inp\<lparr>pi_policy := p\<lparr>pc_maxTradeCost := ef_maxTradeCost ef, pc_windows := ef_windows ef\<rparr>\<rparr>) = ok []"
  shows "evaluatePolicy (inp\<lparr>pi_policy := p\<rparr>) = ok []
    \<and> (ef_reason ef = None \<longrightarrow> live \<and> (\<exists>f r. published = Some f \<and> fp_liveEnabled f \<and> \<not> fp_paused f
          \<and> readAt = Some r \<and> now - r \<le> maxAge))"
proof -
  obtain extra where "ef_windows ef = pc_windows p @ extra" using effectivePolicy_ok(1) [OF assms(1)] by blast
  then have "accepts (inp\<lparr>pi_policy := p\<rparr>)"
    using accepts_loosen [OF assms(2) [unfolded evaluatePolicy_accepts] _ effectivePolicy_ok(2) [OF assms(1)]] by blast
  then show ?thesis using effectivePolicy_ok(3) [OF assms(1)] by (simp add: evaluatePolicy_accepts)
qed

definition example_published :: published_policy where
  "example_published = \<lparr>fp_paused = False, fp_liveEnabled = True, fp_maxTradeCost = None, fp_windows = []\<rparr>"

theorem published_policy_tightens_witness: "evaluatePolicy (example_input\<lparr>pi_policy := example_policy\<rparr>) = ok []"
proof (rule conjunct1 [OF published_policy_tightens])
  show "effectivePolicy True (pc_maxTradeCost example_policy) (pc_windows example_policy)
      (Some example_published) (Some 990) 1000 120
    = ok \<lparr>ef_maxTradeCost = pc_maxTradeCost example_policy, ef_windows = pc_windows example_policy, ef_reason = None\<rparr>"
    by (simp add: effectivePolicy_def example_published_def)
  have "example_input\<lparr>pi_policy := example_policy\<rparr> = example_input" by (simp add: example_input_def)
  then show "evaluatePolicy (example_input\<lparr>pi_policy := example_policy\<lparr>
      pc_maxTradeCost := ef_maxTradeCost \<lparr>ef_maxTradeCost = pc_maxTradeCost example_policy, ef_windows = pc_windows example_policy, ef_reason = None\<rparr>,
      pc_windows := ef_windows \<lparr>ef_maxTradeCost = pc_maxTradeCost example_policy, ef_windows = pc_windows example_policy, ef_reason = None\<rparr>\<rparr>\<rparr>) = ok []"
    using example_accepted by simp
qed

end
