(* ===== verification/Systems.thy ===== *)
theory Systems
  imports Main
begin

text \<open>
  Interfaces of stateful components: a store of records found by their key, and a transition
  system with an invariant and a relation every step keeps. Their lemmas are proved once here
  and used through the interpretations on the components' own definitions.
\<close>

section \<open>Stores keyed by a field\<close>

locale keyed_store =
  fixes key :: "'v \<Rightarrow> 'k"
    and lookup :: "'s \<Rightarrow> 'k \<Rightarrow> 'v option"
    and update :: "'k \<Rightarrow> ('v \<Rightarrow> 'v) \<Rightarrow> 's \<Rightarrow> 's"
    and add :: "'v \<Rightarrow> 's \<Rightarrow> 's"
  assumes lookup_update: "(\<And>v. key (f v) = key v) \<Longrightarrow>
      lookup (update k f s) k' = (if k' = k then map_option f (lookup s k) else lookup s k')"
    and lookup_add: "lookup (add v s) k = (case lookup s k of None \<Rightarrow> if key v = k then Some v else None | Some w \<Rightarrow> Some w)"
begin

lemma lookup_update_same: "(\<And>v. key (f v) = key v) \<Longrightarrow> lookup (update k f s) k = map_option f (lookup s k)"
  by (simp add: lookup_update)

lemma lookup_update_other: "(\<And>v. key (f v) = key v) \<Longrightarrow> k' \<noteq> k \<Longrightarrow> lookup (update k f s) k' = lookup s k'"
  by (simp add: lookup_update)

lemma present_after_update: "(\<And>v. key (f v) = key v) \<Longrightarrow> lookup (update k f s) k' = None \<longleftrightarrow> lookup s k' = None"
  by (auto simp: lookup_update)

lemma present_after_add: "lookup s k = Some v \<Longrightarrow> lookup (add w s) k = Some v"
  by (simp add: lookup_add)

lemma update_tracks:
  assumes "\<And>v. key (f v) = key v" "lookup s k' = Some v" "\<And>v. R v v" "\<And>v. lookup s k = Some v \<Longrightarrow> R v (f v)"
  shows "\<exists>w. lookup (update k f s) k' = Some w \<and> R v w"
  using assms by (auto simp: lookup_update)

end

text \<open>The list of records, searched from the front.\<close>

definition lookup_by :: "('v \<Rightarrow> 'k) \<Rightarrow> 'v list \<Rightarrow> 'k \<Rightarrow> 'v option" where
  "lookup_by key xs k = List.find (\<lambda>x. key x = k) xs"

fun update_by :: "('v \<Rightarrow> 'k) \<Rightarrow> 'k \<Rightarrow> ('v \<Rightarrow> 'v) \<Rightarrow> 'v list \<Rightarrow> 'v list" where
  "update_by key k f [] = []"
| "update_by key k f (x # xs) = (if key x = k then f x # xs else x # update_by key k f xs)"

definition add_last :: "'v \<Rightarrow> 'v list \<Rightarrow> 'v list" where
  "add_last v xs = xs @ [v]"

lemma lookup_by_simps [simp]:
  "lookup_by key [] k = None"
  "lookup_by key (x # xs) k = (if key x = k then Some x else lookup_by key xs k)"
  by (simp_all add: lookup_by_def)

lemma lookup_by_SomeD: "lookup_by key xs k = Some x \<Longrightarrow> x \<in> set xs \<and> key x = k"
  by (induction xs) (auto split: if_splits)

lemma lookup_by_None: "lookup_by key xs k = None \<longleftrightarrow> k \<notin> key ` set xs"
  by (induction xs) auto

lemma lookup_by_member: "distinct (map key xs) \<Longrightarrow> x \<in> set xs \<Longrightarrow> lookup_by key xs (key x) = Some x"
  by (induction xs) (auto simp: rev_image_eqI)

lemma lookup_by_update:
  "(\<And>v. key (f v) = key v) \<Longrightarrow>
    lookup_by key (update_by key k f xs) k' = (if k' = k then map_option f (lookup_by key xs k) else lookup_by key xs k')"
  by (induction xs) auto

lemma lookup_by_add: "lookup_by key (xs @ [v]) k = (case lookup_by key xs k of
    None \<Rightarrow> if key v = k then Some v else None | Some w \<Rightarrow> Some w)"
  by (induction xs) auto

lemma map_key_update: "(\<And>v. key (f v) = key v) \<Longrightarrow> map key (update_by key k f xs) = map key xs"
  by (induction xs) auto

lemma update_by_absent: "lookup_by key xs k = None \<Longrightarrow> update_by key k f xs = xs"
  by (induction xs) (auto split: if_splits)

lemma sum_update_by:
  "lookup_by key xs k = Some x \<Longrightarrow>
    sum_list (map g (update_by key k f xs)) = sum_list (map g xs) - g x + (g (f x) :: int)"
  by (induction xs) (auto split: if_splits)

lemma set_update_by: "lookup_by key xs k = Some x \<Longrightarrow> set (update_by key k f xs) \<subseteq> insert (f x) (set xs)"
  by (induction xs) (auto split: if_splits)

lemma update_by_cases:
  "distinct (map key xs) \<Longrightarrow> y \<in> set (update_by key k f xs) \<Longrightarrow>
    (y \<in> set xs \<and> key y \<noteq> k) \<or> (\<exists>x. lookup_by key xs k = Some x \<and> y = f x)"
proof (induction xs)
  case Nil
  then show ?case by simp
next
  case (Cons a xs)
  then have "y \<in> set xs \<Longrightarrow> key y \<noteq> key a" by (auto simp: image_iff)
  with Cons show ?case by (auto split: if_splits)
qed

section \<open>Transition systems\<close>

locale invariant_system =
  fixes init :: "'s \<Rightarrow> bool" and step :: "'s \<Rightarrow> 's \<Rightarrow> bool" and inv :: "'s \<Rightarrow> bool"
  assumes inv_init: "init s \<Longrightarrow> inv s"
    and inv_step: "inv s \<Longrightarrow> step s t \<Longrightarrow> inv t"
begin

lemma inv_run: "step\<^sup>*\<^sup>* s t \<Longrightarrow> inv s \<Longrightarrow> inv t"
  by (induction rule: rtranclp_induct) (auto intro: inv_step)

lemma reachable_inv: "init s \<Longrightarrow> step\<^sup>*\<^sup>* s t \<Longrightarrow> inv t"
  using inv_run inv_init by blast

end

text \<open>A relation between earlier and later states: what no run takes back.\<close>

locale tracked_system = invariant_system +
  fixes later :: "'s \<Rightarrow> 's \<Rightarrow> bool"
  assumes later_refl: "later s s"
    and later_trans: "later s t \<Longrightarrow> later t u \<Longrightarrow> later s u"
    and later_step: "inv s \<Longrightarrow> step s t \<Longrightarrow> later s t"
begin

lemma later_run: "step\<^sup>*\<^sup>* s t \<Longrightarrow> inv s \<Longrightarrow> later s t"
proof (induction rule: rtranclp_induct)
  case base
  show ?case by (rule later_refl)
next
  case (step t u)
  then have "later t u" using inv_run later_step by blast
  with step show ?case using later_trans by blast
qed

end

end
