(* ===== verification/Journal.thy ===== *)
theory Journal
  imports Policy_Laws Systems
begin

text \<open>
  The runtime's journal of transaction intents (packages/sdk/src/node/journal.ts): its
  entries, the file they are kept in, and the lock under which every change happens.
\<close>

section \<open>Entries\<close>

record receipt_note =
  rn_blockNumber :: string
  rn_gasUsed :: string
  rn_gasPrice :: "string option"

datatype report_status = Rep_none | Rep_pending | Rep_accepted | Rep_rejected

record report_note =
  rp_status :: report_status
  rp_attempts :: int
  rp_flurboStatus :: "string option"

record journal_entry =
  je_id :: string
  je_action :: journal_action
  je_namespace :: string
  je_pool :: string
  je_claim :: "claim_ref option"
  je_quantity :: string
  je_limit :: string
  je_deadline :: "int option"
  je_status :: journal_status
  je_plannedAt :: int
  je_decisionId :: "string option"
  je_to :: string
  je_data :: string
  je_gas :: "string option"
  je_maxFee :: "string option"
  je_priorityFee :: "string option"
  je_nonce :: "int option"
  je_raw :: "string option"
  je_hash :: "string option"
  je_signedAt :: "int option"
  je_broadcastAt :: "int option"
  je_finalAt :: "int option"
  je_cost :: "string option"
  je_receipt :: "receipt_note option"
  je_note :: "string option"
  je_owner :: "int \<times> string"  \<comment> \<open>process id and host\<close>
  je_report :: report_note

definition isFinal :: "journal_entry \<Rightarrow> bool" where
  "isFinal e = (\<not> List.member UNFINISHED (je_status e))"

definition policy_entry_of :: "journal_entry \<Rightarrow> policy_entry" where
  "policy_entry_of e = \<lparr>pe_action = je_action e, pe_namespace = je_namespace e, pe_claim = je_claim e,
     pe_quantity = je_quantity e, pe_limit = je_limit e, pe_cost = je_cost e, pe_status = je_status e,
     pe_plannedAt = je_plannedAt e\<rparr>"

definition policyEntries :: "journal_entry list \<Rightarrow> policy_entry list" where
  "policyEntries es = map policy_entry_of es"

section \<open>The file\<close>

record journal_file =
  jf_schema :: string
  jf_wallet :: string
  jf_chainId :: int
  jf_entries :: "journal_entry list"

text \<open>\<open>read\<close>: no file is an empty journal; a foreign file is refused.\<close>

definition read_journal :: "string \<Rightarrow> journal_file option \<Rightarrow> journal_file res" where
  "read_journal wallet store = (case store of
     None \<Rightarrow> ok \<lparr>jf_schema = ''flurbo.agent-journal.v1'', jf_wallet = wallet, jf_chainId = 10143, jf_entries = []\<rparr>
   | Some j \<Rightarrow>
       if jf_schema j \<noteq> ''flurbo.agent-journal.v1'' \<or> jf_chainId j \<noteq> 10143 then throw Invalid_input
       else if jf_wallet j \<noteq> wallet then throw Invalid_input
       else ok j)"

text \<open>\<open>locked\<close>, once the lock is held: the journal is written only when the function returns; a
  throw leaves the file as it was.\<close>

definition locked :: "string \<Rightarrow> (journal_entry list \<Rightarrow> ('a \<times> journal_entry list) res)
    \<Rightarrow> journal_file option \<Rightarrow> 'a res \<times> journal_file option" where
  "locked wallet f store = (case read_journal wallet store of
     Inl e \<Rightarrow> (Inl e, store)
   | Inr j \<Rightarrow> (case f (jf_entries j) of
       Inl e \<Rightarrow> (Inl e, store)
     | Inr (r, es) \<Rightarrow> (ok r, Some (j\<lparr>jf_entries := es\<rparr>))))"

section \<open>The lock file\<close>

record lock_info =
  lk_pid :: int
  lk_host :: string
  lk_at :: int

datatype lock_decision = Lock_taken | Lock_unlink | Lock_timeout | Lock_wait

text \<open>
  One turn of the loop of \<open>acquire\<close>: the exclusive creation succeeds when no file is there;
  otherwise a stale lock is removed, the deadline is checked, or the loop sleeps. \<open>alive\<close>
  tells which processes of this host run.
\<close>

definition acquire_turn :: "lock_info option \<Rightarrow> (int \<Rightarrow> bool) \<Rightarrow> string \<Rightarrow> int \<Rightarrow> int \<Rightarrow> int \<Rightarrow> lock_decision" where
  "acquire_turn lock alive host now staleMs deadline = (case lock of
     None \<Rightarrow> Lock_taken
   | Some held \<Rightarrow>
       let orphaned = (if lk_host held = host then \<not> alive (lk_pid held) else False) in
       if now - lk_at held > staleMs \<and> (orphaned \<or> now - lk_at held > staleMs * 4) then Lock_unlink
       else if now > deadline then Lock_timeout else Lock_wait)"

section \<open>The list of entries as a store\<close>

definition find_entry :: "journal_entry list \<Rightarrow> string \<Rightarrow> journal_entry option" where
  "find_entry es i = lookup_by je_id es i"

definition update_entry :: "string \<Rightarrow> (journal_entry \<Rightarrow> journal_entry) \<Rightarrow> journal_entry list \<Rightarrow> journal_entry list" where
  "update_entry i f es = update_by je_id i f es"

definition push_entry :: "journal_entry \<Rightarrow> journal_entry list \<Rightarrow> journal_entry list" where
  "push_entry e es = es @ [e]"

interpretation entries: keyed_store je_id find_entry update_entry push_entry
  by unfold_locales (simp_all add: find_entry_def update_entry_def push_entry_def lookup_by_update lookup_by_add)

lemma isFinal_iff: "isFinal e \<longleftrightarrow> \<not> unfinished (je_status e)"
  by (simp add: isFinal_def unfinished_def)

text \<open>A throw under the lock loses nothing.\<close>

lemma locked_error: "fst (locked wallet f store) = Inl e \<Longrightarrow> snd (locked wallet f store) = store"
  by (auto simp: locked_def split: sum.splits)

lemma locked_ok:
  "locked wallet f store = (ok r, store') \<longleftrightarrow> (\<exists>j es. read_journal wallet store = ok j \<and> f (jf_entries j) = ok (r, es)
    \<and> store' = Some (j\<lparr>jf_entries := es\<rparr>))"
  by (auto simp: locked_def split: sum.splits)

end
