(* ===== verification/Abi.thy ===== *)
theory Abi
  imports Amounts
begin

text \<open>
  Contract calls and logs (packages/sdk/src/abi.ts): the selector followed by one 32-byte word
  per argument, and the two pool events. Encoding and decoding are inverse to each other.
\<close>

section \<open>Functions and kinds\<close>

datatype fn_name =
    Fn_buy | Fn_sell | Fn_redeem | Fn_quoteBuy | Fn_quoteSell | Fn_holdings | Fn_payoutFraction
  | Fn_closesAt | Fn_eventCount | Fn_collateral | Fn_collateralDecimals | Fn_settlementRulesHash
  | Fn_resolved | Fn_resolvedState | Fn_voidMask | Fn_funded | Fn_approve | Fn_allowance
  | Fn_balanceOf | Fn_decimals

text \<open>The keys of \<open>SELECTORS\<close> in their order.\<close>

definition FN_NAMES :: "fn_name list" where
  "FN_NAMES = [Fn_buy, Fn_sell, Fn_redeem, Fn_quoteBuy, Fn_quoteSell, Fn_holdings, Fn_payoutFraction,
     Fn_closesAt, Fn_eventCount, Fn_collateral, Fn_collateralDecimals, Fn_settlementRulesHash,
     Fn_resolved, Fn_resolvedState, Fn_voidMask, Fn_funded, Fn_approve, Fn_allowance, Fn_balanceOf, Fn_decimals]"

fun SELECTORS :: "fn_name \<Rightarrow> string" where
  "SELECTORS Fn_buy = ''0x3e6b6cde''"
| "SELECTORS Fn_sell = ''0xc39849c5''"
| "SELECTORS Fn_redeem = ''0xdf992423''"
| "SELECTORS Fn_quoteBuy = ''0xa6a83dde''"
| "SELECTORS Fn_quoteSell = ''0xf29d0ba9''"
| "SELECTORS Fn_holdings = ''0x90fc2c7b''"
| "SELECTORS Fn_payoutFraction = ''0xf0f54950''"
| "SELECTORS Fn_closesAt = ''0x39a3a99a''"
| "SELECTORS Fn_eventCount = ''0x71be2e4a''"
| "SELECTORS Fn_collateral = ''0xd8dfeb45''"
| "SELECTORS Fn_collateralDecimals = ''0xec9c6c30''"
| "SELECTORS Fn_settlementRulesHash = ''0x03a79426''"
| "SELECTORS Fn_resolved = ''0x3f6fa655''"
| "SELECTORS Fn_resolvedState = ''0x1bb51c6a''"
| "SELECTORS Fn_voidMask = ''0x91187684''"
| "SELECTORS Fn_funded = ''0xf3a504f2''"
| "SELECTORS Fn_approve = ''0x095ea7b3''"
| "SELECTORS Fn_allowance = ''0xdd62ed3e''"
| "SELECTORS Fn_balanceOf = ''0x70a08231''"
| "SELECTORS Fn_decimals = ''0x313ce567''"

datatype kind = K_uint8 | K_uint32 | K_uint128 | K_uint256 | K_address | K_bool

fun SIGNATURES :: "fn_name \<Rightarrow> kind list" where
  "SIGNATURES Fn_buy = [K_uint32, K_uint256, K_uint128, K_uint128, K_uint256]"
| "SIGNATURES Fn_sell = [K_uint32, K_uint256, K_uint128, K_uint128, K_uint256]"
| "SIGNATURES Fn_redeem = [K_uint32, K_uint256, K_uint128]"
| "SIGNATURES Fn_quoteBuy = [K_uint32, K_uint256, K_uint128]"
| "SIGNATURES Fn_quoteSell = [K_uint32, K_uint256, K_uint128]"
| "SIGNATURES Fn_holdings = [K_address, K_uint32, K_uint256]"
| "SIGNATURES Fn_payoutFraction = [K_uint32, K_uint256]"
| "SIGNATURES Fn_approve = [K_address, K_uint256]"
| "SIGNATURES Fn_allowance = [K_address, K_address]"
| "SIGNATURES Fn_balanceOf = [K_address]"
| "SIGNATURES _ = []"

fun BITS :: "kind \<Rightarrow> nat" where
  "BITS K_uint8 = 8"
| "BITS K_uint32 = 32"
| "BITS K_uint128 = 128"
| "BITS K_uint256 = 256"
| "BITS K_address = 160"
| "BITS K_bool = 1"

definition TOPIC_Traded :: string where
  "TOPIC_Traded = ''0xfafd4a382ead0cb54fe827af5995137a1a8b433ebfd5a8d13def35a83adfb9b5''"

definition TOPIC_Redeemed :: string where
  "TOPIC_Redeemed = ''0x3e24bbc5ae535f3f571a815b8ba9fc70c94ad494d812f0210c3da99fad2173ae''"

section \<open>Encoding\<close>

text \<open>\<open>Word\<close>: a bigint, a string, a boolean or a number.\<close>

datatype word_arg = A_big int | A_str string | A_bool bool | A_num json

definition word_value :: "kind \<Rightarrow> word_arg \<Rightarrow> int res" where
  "word_value k v = (case k of
     K_address \<Rightarrow> (case v of A_str s \<Rightarrow> if is_0x_hex 40 s then ok (int (hex_val (drop 2 s))) else throw Invalid_input
       | _ \<Rightarrow> throw Invalid_input)
   | K_bool \<Rightarrow> (case v of A_bool b \<Rightarrow> ok (if b then 1 else 0) | _ \<Rightarrow> throw Invalid_input)
   | _ \<Rightarrow> (case v of
       A_num j \<Rightarrow> if is_safe_int j then ok (jint_val j) else throw Invalid_input
     | A_big n \<Rightarrow> ok n
     | A_str s \<Rightarrow> if is_canon_dec s then ok (int (str_nat s)) else throw Invalid_input
     | A_bool _ \<Rightarrow> throw Invalid_input))"

definition hex64 :: "int \<Rightarrow> string" where
  "hex64 n = pad_start 64 (hex_str (nat n))"

definition word_of :: "kind \<Rightarrow> word_arg \<Rightarrow> string res" where
  "word_of k v = bindE (word_value k v) (\<lambda>n.
     if n < 0 \<or> n \<ge> 2 ^ BITS k then throw Invalid_input else ok (hex64 n))"

definition encodeCall :: "fn_name \<Rightarrow> word_arg list \<Rightarrow> string res" where
  "encodeCall name args = (let kinds = SIGNATURES name in
     if length args \<noteq> length kinds then throw Invalid_input
     else bindE (mapE (\<lambda>(k, a). word_of k a) (zip kinds args)) (\<lambda>ws. ok (SELECTORS name @ concat ws)))"

section \<open>Decoding\<close>

text \<open>\<open>/^0x[0-9a-f]*$/\<close>.\<close>

definition is_0x_lhex_any :: "string \<Rightarrow> bool" where
  "is_0x_lhex_any s = (take 2 s = ''0x'' \<and> list_all is_lhex (drop 2 s))"

text \<open>The 64 characters at word \<open>i\<close>, read as \<open>BigInt('0x' + ...)\<close>.\<close>

definition word_at :: "string \<Rightarrow> nat \<Rightarrow> int" where
  "word_at body i = int (hex_val (take 64 (drop (i * 64) body)))"

definition decodeCall :: "string \<Rightarrow> (fn_name \<times> int list) res" where
  "decodeCall data = (let hex = lower data in
     if \<not> is_0x_lhex_any hex \<or> length hex < 10 then throw Invalid_input
     else case List.find (\<lambda>n. SELECTORS n = take 10 hex) FN_NAMES of
       None \<Rightarrow> throw Invalid_input
     | Some name \<Rightarrow> (let kinds = SIGNATURES name; body = drop 10 hex in
         if length body \<noteq> length kinds * 64 then throw Invalid_input
         else let args = map (word_at body) [0..<length kinds] in
           if list_ex (\<lambda>(k, v). v \<ge> 2 ^ BITS k) (zip kinds args) then throw Invalid_input
           else ok (name, args)))"

definition addressFromWord :: "int \<Rightarrow> string" where
  "addressFromWord v = ''0x'' @ pad_start 40 (hex_str (nat v))"

definition decodeWords :: "string \<Rightarrow> nat \<Rightarrow> int list res" where
  "decodeWords data count = (let hex = lower data in
     if \<not> is_0x_lhex_any hex \<or> length hex \<noteq> 2 + count * 64 then throw Invalid_response
     else ok (map (word_at (drop 2 hex)) [0..<count]))"

section \<open>Pool events\<close>

record chain_log =
  lg_address :: string
  lg_topics :: "string list"
  lg_data :: string

record pool_trade =
  ev_address :: string
  ev_who :: string
  ev_scope :: int
  ev_mask :: int
  ev_quantity :: int
  ev_collateral :: int

text \<open>\<open>Traded\<close> with \<open>isBuy\<close>, or \<open>Redeemed\<close>; the trader and the owner are \<open>ev_who\<close>.\<close>

datatype pool_event = Ev_Traded bool pool_trade | Ev_Redeemed pool_trade

definition topic_int :: "string \<Rightarrow> int" where
  "topic_int t = int (hex_val (drop 2 t))"

definition decodePoolLog :: "chain_log \<Rightarrow> pool_event option" where
  "decodePoolLog log = (case map lower (lg_topics log) of
     [t0, t1, t2, t3] \<Rightarrow>
       (if \<not> list_all (is_0x_lhex 64) [t0, t1, t2, t3] then None
        else let who = topic_int t1; scope = topic_int t2; m = topic_int t3; address = lower (lg_address log) in
          if who \<ge> 2 ^ 160 \<or> scope \<ge> 2 ^ 32 then None
          else if t0 = TOPIC_Traded then
            (case decodeWords (lg_data log) 3 of
               Inr [isBuy, quantity, amount] \<Rightarrow>
                 if isBuy > 1 \<or> quantity \<ge> 2 ^ 128 \<or> amount \<ge> 2 ^ 128 then None
                 else Some (Ev_Traded (isBuy = 1) \<lparr>ev_address = address, ev_who = addressFromWord who,
                   ev_scope = scope, ev_mask = m, ev_quantity = quantity, ev_collateral = amount\<rparr>)
             | _ \<Rightarrow> None)
          else if t0 = TOPIC_Redeemed then
            (case decodeWords (lg_data log) 2 of
               Inr [quantity, amount] \<Rightarrow>
                 if quantity \<ge> 2 ^ 128 \<or> amount \<ge> 2 ^ 128 then None
                 else Some (Ev_Redeemed \<lparr>ev_address = address, ev_who = addressFromWord who,
                   ev_scope = scope, ev_mask = m, ev_quantity = quantity, ev_collateral = amount\<rparr>)
             | _ \<Rightarrow> None)
          else None)
   | _ \<Rightarrow> None)"

section \<open>Words\<close>

definition in_word :: "int \<Rightarrow> bool" where
  "in_word v = (0 \<le> v \<and> v < 2 ^ 256)"

definition read_word :: "string \<Rightarrow> int option" where
  "read_word s = (if is_lhex_n 64 s then Some (int (hex_val s)) else None)"

lemma length_hex64: "in_word v \<Longrightarrow> length (hex64 v) = 64"
proof -
  assume "in_word v"
  then have "nat v < 2 ^ 256" by (simp add: in_word_def nat_less_iff)
  also have "(2 :: nat) ^ 256 = 16 ^ 64" by simp
  finally have "nat v < 16 ^ 64" .
  then have "length (hex_str (nat v)) \<le> 64" by (intro length_hex_str) auto
  then show ?thesis unfolding hex64_def by (rule length_pad_start)
qed

lemma hex64_lhex: "list_all is_lhex (hex64 v)"
  using hex_str_all [of "nat v"] by (auto simp: hex64_def pad_start_def list_all_iff)

lemma hex_val_hex64 [simp]: "hex_val (hex64 v) = nat v"
  by (simp add: hex64_def)

interpretation word_codec: canonical_codec hex64 read_word in_word
proof unfold_locales
  fix x assume "in_word x"
  then show "read_word (hex64 x) = Some x"
    using length_hex64 [of x] hex64_lhex [of x] by (simp add: read_word_def is_lhex_n_def in_word_def)
next
  fix s x assume "read_word s = Some x"
  then have s: "length s = 64" "list_all is_lhex s" "x = int (hex_val s)"
    by (auto simp: read_word_def is_lhex_n_def split: if_splits)
  have "hex_val s < 16 ^ 64" using hex_val_less [OF s(2)] s(1) by simp
  also have "(16 :: nat) ^ 64 = 2 ^ 256" by simp
  finally have "int (hex_val s) < 2 ^ 256" by (metis of_nat_less_iff of_nat_numeral of_nat_power)
  then show "in_word x \<and> hex64 x = s"
    using pad_hex_val [OF s(2,1)] s(3) by (simp add: in_word_def hex64_def)
qed


section \<open>Calldata\<close>

definition calldata :: "fn_name \<Rightarrow> int list \<Rightarrow> string" where
  "calldata name vs = SELECTORS name @ concat (map hex64 vs)"

definition args_ok :: "fn_name \<Rightarrow> int list \<Rightarrow> bool" where
  "args_ok name vs = list_all2 (\<lambda>k v. 0 \<le> v \<and> v < 2 ^ BITS k) (SIGNATURES name) vs"

lemma BITS_le: "BITS k \<le> 256"
  by (cases k) simp_all

lemma in_word_BITS: "0 \<le> v \<Longrightarrow> v < 2 ^ BITS k \<Longrightarrow> in_word v"
  using power_increasing [OF BITS_le [of k], of "2 :: int"] by (simp add: in_word_def)

lemma args_ok_words: "args_ok name vs \<Longrightarrow> list_all in_word vs"
  by (auto simp: args_ok_def list_all2_conv_all_nth list_all_length intro: in_word_BITS)

lemma selector_props:
  "length (SELECTORS n) = 10" "take 2 (SELECTORS n) = ''0x''" "list_all is_lhex (drop 2 (SELECTORS n))"
  by (cases n; simp add: is_lhex_def is_dec_def code_def)+

lemma find_selector: "List.find (\<lambda>n. SELECTORS n = SELECTORS m) FN_NAMES = Some m"
  by (cases m) (simp_all add: FN_NAMES_def)

lemma lower_0x: "take 2 s = ''0x'' \<Longrightarrow> list_all is_lhex (drop 2 s) \<Longrightarrow> lower s = s"
  by (rule lower_0x_lhex [of "length s - 2"])
    (auto simp: is_0x_lhex_def dest: arg_cong [of _ _ length])

lemma calldata_shape:
  "take 2 (calldata name vs) = ''0x''" "list_all is_lhex (drop 2 (calldata name vs))"
  "take 10 (calldata name vs) = SELECTORS name" "drop 10 (calldata name vs) = concat (map hex64 vs)"
  using selector_props [of name] hex64_lhex by (auto simp: calldata_def list_all_iff)

lemma lower_calldata [simp]: "lower (calldata name vs) = calldata name vs"
  by (rule lower_0x) (rule calldata_shape)+

lemma chunk_concat:
  "\<forall>w\<in>set ws. length w = k \<Longrightarrow> i < length ws \<Longrightarrow> take k (drop (i * k) (concat ws)) = ws ! i"
proof (induction ws arbitrary: i)
  case Nil
  then show ?case by simp
next
  case (Cons w ws)
  then show ?case by (cases i) (auto simp: add.commute)
qed

lemma concat_chunks: "length body = n * k \<Longrightarrow> concat (map (\<lambda>i. take k (drop (i * k) body)) [0..<n]) = body"
proof (induction n arbitrary: body)
  case 0
  then show ?case by simp
next
  case (Suc n)
  have "concat (map (\<lambda>i. take k (drop (i * k) (take (n * k) body))) [0..<n]) = take (n * k) body"
    using Suc by simp
  moreover have "take k (drop (i * k) (take (n * k) body)) = take k (drop (i * k) body)" if "i < n" for i
  proof -
    have "i * k + k \<le> n * k" using that by (metis Suc_leI add.commute mult_Suc mult_le_mono1)
    then show ?thesis by (simp add: take_drop min_absorb1 add.commute)
  qed
  then have "concat (map (\<lambda>i. take k (drop (i * k) (take (n * k) body))) [0..<n])
      = concat (map (\<lambda>i. take k (drop (i * k) body)) [0..<n])"
    by (intro arg_cong [of _ _ concat] map_cong) auto
  moreover have "take k (drop (n * k) body) = drop (n * k) body" using Suc.prems by simp
  ultimately show ?case by simp
qed

lemma concat_hex64_length: "list_all in_word vs \<Longrightarrow> length (concat (map hex64 vs)) = length vs * 64"
  by (induction vs) (auto simp: length_hex64)

lemma word_at_concat: "list_all in_word vs \<Longrightarrow> i < length vs \<Longrightarrow> word_at (concat (map hex64 vs)) i = vs ! i"
proof -
  assume vs: "list_all in_word vs" and i: "i < length vs"
  then have "\<forall>w\<in>set (map hex64 vs). length w = 64" by (auto simp: list_all_iff length_hex64)
  then have "take 64 (drop (i * 64) (concat (map hex64 vs))) = hex64 (vs ! i)"
    using chunk_concat [of "map hex64 vs" 64 i] i by simp
  moreover have "0 \<le> vs ! i" using vs i by (simp add: list_all_length in_word_def)
  ultimately show ?thesis by (simp add: word_at_def)
qed

lemma hex64_word_at:
  assumes "list_all is_lhex body" "length body = n * 64" "i < n"
  shows "hex64 (word_at body i) = take 64 (drop (i * 64) body)"
proof -
  let ?w = "take 64 (drop (i * 64) body)"
  have "length ?w = 64" using assms(2,3) by simp
  moreover have "list_all is_lhex ?w" using assms(1) by (auto simp: list_all_iff dest: in_set_takeD in_set_dropD)
  ultimately have "read_word ?w = Some (word_at body i)" by (simp add: read_word_def is_lhex_n_def word_at_def)
  then show ?thesis using word_codec.enc_dec by blast
qed

text \<open>The decoder accepts a string exactly when it is the calldata of the call it returns.\<close>

lemma decodeCall_iff: "decodeCall data = ok (name, vs) \<longleftrightarrow> args_ok name vs \<and> lower data = calldata name vs"
proof
  assume d: "decodeCall data = ok (name, vs)"
  let ?hex = "lower data" and ?ks = "SIGNATURES name" and ?body = "drop 10 (lower data)"
  have hex: "take 2 ?hex = ''0x''" "list_all is_lhex (drop 2 ?hex)" "10 \<le> length ?hex"
    and find: "List.find (\<lambda>n. SELECTORS n = take 10 ?hex) FN_NAMES = Some name"
    and len: "length ?body = length ?ks * 64" and vs: "vs = map (word_at ?body) [0..<length ?ks]"
    and range: "\<forall>(k, v)\<in>set (zip ?ks vs). v < 2 ^ BITS k"
    using d unfolding decodeCall_def Let_def
    by (auto simp: is_0x_lhex_any_def list_ex_iff not_less split: if_splits option.splits)
  have sel: "take 10 ?hex = SELECTORS name" using find by (auto simp: find_Some_iff)
  have "list_all is_lhex ?body" using hex(2) by (metis drop_drop list_all_append append_take_drop_id numeral_plus_numeral semiring_norm(2,3,4,5,6))
  then have "map hex64 vs = map (\<lambda>i. take 64 (drop (i * 64) ?body)) [0..<length ?ks]"
    using hex64_word_at [OF _ len] by (simp add: vs)
  then have "concat (map hex64 vs) = ?body" using concat_chunks [OF len] by simp
  then have "lower data = calldata name vs" using sel by (metis append_take_drop_id calldata_def)
  moreover have "vs ! i < 2 ^ BITS (?ks ! i)" if i: "i < length ?ks" for i
  proof -
    have "zip ?ks vs ! i \<in> set (zip ?ks vs)" using i vs by (intro nth_mem) simp
    then show ?thesis using range i vs by auto
  qed
  then have "args_ok name vs"
    using vs by (auto simp: args_ok_def list_all2_conv_all_nth word_at_def)
  ultimately show "args_ok name vs \<and> lower data = calldata name vs" by simp
next
  assume a: "args_ok name vs \<and> lower data = calldata name vs"
  then have w: "list_all in_word vs" and l: "length vs = length (SIGNATURES name)"
    using args_ok_words a by (blast, auto simp: args_ok_def dest: list_all2_lengthD)
  have "map (word_at (concat (map hex64 vs))) [0..<length (SIGNATURES name)] = vs"
    using w l by (intro nth_equalityI) (auto simp: word_at_concat)
  moreover have "\<not> list_ex (\<lambda>(k, v). v \<ge> 2 ^ BITS k) (zip (SIGNATURES name) vs)"
    using a by (auto simp: args_ok_def list_all2_conv_all_nth list_ex_iff set_zip not_le)
  ultimately show "decodeCall data = ok (name, vs)"
    using a calldata_shape [of name vs] concat_hex64_length [OF w] l selector_props(1) [of name]
    by (simp add: decodeCall_def Let_def is_0x_lhex_any_def find_selector) (simp add: calldata_def)
qed

text \<open>Calls as a codec: the decoder of lower-case calldata, read as an option.\<close>

definition read_call :: "string \<Rightarrow> (fn_name \<times> int list) option" where
  "read_call s = (if lower s \<noteq> s then None else case decodeCall s of Inl _ \<Rightarrow> None | Inr c \<Rightarrow> Some c)"

interpretation call_codec: canonical_codec "\<lambda>(name, vs). calldata name vs" read_call "\<lambda>(name, vs). args_ok name vs"
proof unfold_locales
  fix x :: "fn_name \<times> int list"
  obtain name vs where x: "x = (name, vs)" by (cases x)
  assume "case x of (name, vs) \<Rightarrow> args_ok name vs"
  then have "decodeCall (calldata name vs) = ok x" by (simp add: x decodeCall_iff)
  then show "read_call (case x of (name, vs) \<Rightarrow> calldata name vs) = Some x"
    by (simp add: read_call_def x)
next
  fix s and x :: "fn_name \<times> int list"
  assume "read_call s = Some x"
  then have "lower s = s" "decodeCall s = ok x" by (auto simp: read_call_def split: if_splits sum.splits)
  moreover obtain name vs where "x = (name, vs)" by (cases x)
  ultimately show "(case x of (name, vs) \<Rightarrow> args_ok name vs) \<and> (case x of (name, vs) \<Rightarrow> calldata name vs) = s"
    by (simp add: decodeCall_iff)
qed

lemma word_of_ok_iff:
  "word_of k v = ok w \<longleftrightarrow> (\<exists>n. word_value k v = ok n \<and> 0 \<le> n \<and> n < 2 ^ BITS k \<and> w = hex64 n)"
  by (auto simp: word_of_def not_le not_less split: if_splits)

lemma encodeCall_ok_iff:
  "encodeCall name args = ok data \<longleftrightarrow>
    (\<exists>vs. args_ok name vs \<and> data = calldata name vs \<and> length args = length (SIGNATURES name)
      \<and> list_all2 (\<lambda>(k, a) v. word_value k a = ok v) (zip (SIGNATURES name) args) vs)"
  (is "?lhs \<longleftrightarrow> ?rhs")
proof
  assume l: ?lhs
  then obtain ws where len: "length args = length (SIGNATURES name)"
    and ws: "list_all2 (\<lambda>x w. (case x of (k, a) \<Rightarrow> word_of k a) = ok w) (zip (SIGNATURES name) args) ws"
    and data: "data = SELECTORS name @ concat ws"
    unfolding encodeCall_def Let_def mapE_Inr_iff bindE_Inr_iff by (auto split: if_splits simp: mapE_Inr_iff)
  define vs where "vs = map (\<lambda>w. int (hex_val w)) ws"
  have lw: "length ws = length (SIGNATURES name)" using ws len by (auto dest: list_all2_lengthD)
  have each: "word_value (SIGNATURES name ! i) (args ! i) = ok (vs ! i) \<and> 0 \<le> vs ! i
      \<and> vs ! i < 2 ^ BITS (SIGNATURES name ! i) \<and> ws ! i = hex64 (vs ! i)" if "i < length ws" for i
    using ws that lw len by (auto simp: list_all2_conv_all_nth word_of_ok_iff vs_def)
  then have "ws = map hex64 vs" by (intro nth_equalityI) (auto simp: vs_def)
  moreover have "args_ok name vs" using each lw by (auto simp: args_ok_def list_all2_conv_all_nth vs_def)
  moreover have "list_all2 (\<lambda>(k, a) v. word_value k a = ok v) (zip (SIGNATURES name) args) vs"
    using each lw len by (auto simp: list_all2_conv_all_nth vs_def)
  ultimately show ?rhs using data len by (auto simp: calldata_def)
next
  assume ?rhs
  then obtain vs where ok: "args_ok name vs" and data: "data = calldata name vs"
    and len: "length args = length (SIGNATURES name)"
    and vs: "list_all2 (\<lambda>(k, a) v. word_value k a = ok v) (zip (SIGNATURES name) args) vs" by blast
  have "mapE (\<lambda>(k, a). word_of k a) (zip (SIGNATURES name) args) = ok (map hex64 vs)"
    using vs ok by (auto simp: mapE_Inr_iff list_all2_conv_all_nth word_of_ok_iff args_ok_def split_beta)
  then show ?lhs using len data by (simp add: encodeCall_def Let_def calldata_def)
qed

lemma encodeCall_decodeCall: "encodeCall name args = ok data \<Longrightarrow> \<exists>vs. decodeCall data = ok (name, vs)
    \<and> list_all2 (\<lambda>(k, a) v. word_value k a = ok v) (zip (SIGNATURES name) args) vs"
  by (auto simp: encodeCall_ok_iff decodeCall_iff)


section \<open>Properties\<close>

text \<open>Calldata is canonical: a string decodes to a call exactly when, up to letter case, it is
  the one encoding of that call with every argument in range; dirty high bits, wrong lengths and
  unknown selectors are rejected.\<close>

theorem calldata_is_canonical:
  "(decodeCall data = ok (name, vs)) =
    (lower data = SELECTORS name @ concat (map hex64 vs)
     \<and> list_all2 (\<lambda>k v. 0 \<le> v \<and> v < 2 ^ BITS k) (SIGNATURES name) vs)"
  unfolding decodeCall_iff args_ok_def calldata_def by blast

text \<open>What is encoded decodes to the same function with the values of the same arguments.\<close>

theorem call_round_trip:
  assumes "encodeCall name args = ok data"
  shows "\<exists>vs. decodeCall data = ok (name, vs) \<and> length args = length vs
    \<and> map (\<lambda>(k, a). word_value k a) (zip (SIGNATURES name) args) = map ok vs"
proof -
  obtain vs where vs: "decodeCall data = ok (name, vs)" "length args = length (SIGNATURES name)"
    "list_all2 (\<lambda>(k, a) v. word_value k a = ok v) (zip (SIGNATURES name) args) vs"
    using assms by (auto simp: encodeCall_ok_iff decodeCall_iff)
  then have "map (\<lambda>(k, a). word_value k a) (zip (SIGNATURES name) args) = map ok vs"
    by (intro nth_equalityI) (auto simp: list_all2_conv_all_nth split_beta)
  then show ?thesis using vs by (auto dest!: list_all2_lengthD)
qed

theorem call_round_trip_witness:
  "\<exists>vs. decodeCall (calldata Fn_payoutFraction [5, 13]) = ok (Fn_payoutFraction, vs) \<and> length [A_num (JInt 5), A_big 13] = length vs
    \<and> map (\<lambda>(k, a). word_value k a) (zip (SIGNATURES Fn_payoutFraction) [A_num (JInt 5), A_big 13]) = map ok vs"
  by (rule call_round_trip) (simp add: encodeCall_def calldata_def word_of_def word_value_def max_safe_def)

end
