(* ===== verification/Effects.thy ===== *)
theory Effects
  imports Abi
begin

text \<open>
  Whether a mined receipt shows exactly the reported intent (packages/sdk/src/effects.ts).
\<close>

datatype exec_action = X_buy | X_sell | X_redeem | X_approve

record exec_intent =
  xi_action :: exec_action
  xi_wallet :: string
  xi_pool :: string
  xi_claim :: "(int \<times> string) option"
  xi_quantity :: string
  xi_limit :: string

text \<open>\<open>confirmed\<close> with the collateral moved (null for an approval), or \<open>mismatch\<close>.\<close>

datatype effect_result = Effect_confirmed "string option" | Effect_mismatch

fun event_trade :: "pool_event \<Rightarrow> pool_trade" where
  "event_trade (Ev_Traded _ t) = t"
| "event_trade (Ev_Redeemed t) = t"

text \<open>The body of the loop: the result of a log that shows the intent.\<close>

definition log_effect :: "exec_action \<Rightarrow> string \<Rightarrow> string \<Rightarrow> int \<Rightarrow> int \<Rightarrow> int \<Rightarrow> int \<Rightarrow> chain_log \<Rightarrow> effect_result option" where
  "log_effect action wallet pool scope m quantity limit log =
     (if lower (lg_address log) \<noteq> pool then None
      else case decodePoolLog log of
        None \<Rightarrow> None
      | Some e \<Rightarrow> (let t = event_trade e in
          if ev_scope t \<noteq> scope \<or> ev_mask t \<noteq> m \<or> ev_quantity t \<noteq> quantity then None
          else (case e of
            Ev_Traded isBuy _ \<Rightarrow>
              if ev_who t \<noteq> wallet then None
              else if action = X_buy \<and> isBuy \<and> ev_collateral t \<le> limit then Some (Effect_confirmed (Some (int_str (ev_collateral t))))
              else if action = X_sell \<and> \<not> isBuy \<and> ev_collateral t \<ge> limit then Some (Effect_confirmed (Some (int_str (ev_collateral t))))
              else None
          | Ev_Redeemed _ \<Rightarrow>
              if action = X_redeem \<and> ev_who t = wallet then Some (Effect_confirmed (Some (int_str (ev_collateral t))))
              else None)))"

fun first_effect :: "(chain_log \<Rightarrow> effect_result option) \<Rightarrow> chain_log list \<Rightarrow> effect_result" where
  "first_effect f [] = Effect_mismatch"
| "first_effect f (l # ls) = (case f l of Some r \<Rightarrow> r | None \<Rightarrow> first_effect f ls)"

text \<open>The status of the receipt is 1 or 0.\<close>

definition verifyEffect :: "exec_intent \<Rightarrow> int \<Rightarrow> chain_log list \<Rightarrow> string option \<Rightarrow> effect_result res" where
  "verifyEffect it status logs allowanceAfter =
     (if status \<noteq> 1 then ok Effect_mismatch
      else bindE (big_of_string (xi_limit it)) (\<lambda>limit.
        let wallet = lower (xi_wallet it); pool = lower (xi_pool it) in
        if xi_action it = X_approve then
          (case allowanceAfter of
             None \<Rightarrow> ok Effect_mismatch
           | Some a \<Rightarrow> ok (if is_canon_dec a \<and> int (str_nat a) \<ge> limit then Effect_confirmed None else Effect_mismatch))
        else case xi_claim it of
          None \<Rightarrow> ok Effect_mismatch
        | Some (scope, ms) \<Rightarrow>
            bindE (big_of_string ms) (\<lambda>m. bindE (big_of_string (xi_quantity it)) (\<lambda>quantity.
              ok (first_effect (log_effect (xi_action it) wallet pool scope m quantity limit) logs)))))"

section \<open>What a confirmation shows\<close>

lemma first_effect_confirmed:
  assumes "\<And>l r. f l = Some r \<Longrightarrow> \<exists>c. r = Effect_confirmed c"
  shows "(\<exists>c. first_effect f logs = Effect_confirmed c) \<longleftrightarrow> (\<exists>l\<in>set logs. f l \<noteq> None)"
proof (induction logs)
  case Nil
  then show ?case by simp
next
  case (Cons l logs)
  then show ?case using assms by (cases "f l") auto
qed

lemma first_effect_SomeD:
  "first_effect f logs = Effect_confirmed c \<Longrightarrow> \<exists>l\<in>set logs. f l = Some (Effect_confirmed c)"
  by (induction logs) (auto split: option.splits)

text \<open>A log that shows the trade or redemption of the intent, and the collateral it moved.\<close>

definition log_shows :: "exec_action \<Rightarrow> string \<Rightarrow> string \<Rightarrow> int \<Rightarrow> int \<Rightarrow> int \<Rightarrow> int \<Rightarrow> chain_log \<Rightarrow> int \<Rightarrow> bool" where
  "log_shows action wallet pool scope m quantity limit log amount =
     (lower (lg_address log) = pool \<and>
      (case decodePoolLog log of None \<Rightarrow> False
       | Some e \<Rightarrow> ev_who (event_trade e) = wallet \<and> ev_scope (event_trade e) = scope \<and> ev_mask (event_trade e) = m
           \<and> ev_quantity (event_trade e) = quantity \<and> ev_collateral (event_trade e) = amount
           \<and> (case e of Ev_Traded isBuy _ \<Rightarrow>
                 (action = X_buy \<and> isBuy \<and> amount \<le> limit) \<or> (action = X_sell \<and> \<not> isBuy \<and> limit \<le> amount)
              | Ev_Redeemed _ \<Rightarrow> action = X_redeem)))"

lemma log_effect_iff:
  "log_effect action wallet pool scope m quantity limit log = Some r \<longleftrightarrow>
    (\<exists>amount. log_shows action wallet pool scope m quantity limit log amount \<and> r = Effect_confirmed (Some (int_str amount)))"
  by (auto simp: log_effect_def log_shows_def Let_def split: option.splits pool_event.splits if_splits)

lemma verifyEffect_trade:
  assumes "verifyEffect it status logs allowance = ok (Effect_confirmed c)" "xi_action it \<noteq> X_approve"
  shows "\<exists>limit scope ms m quantity log amount. status = 1 \<and> big_of_string (xi_limit it) = ok limit
    \<and> xi_claim it = Some (scope, ms) \<and> big_of_string ms = ok m \<and> big_of_string (xi_quantity it) = ok quantity
    \<and> log \<in> set logs \<and> log_shows (xi_action it) (lower (xi_wallet it)) (lower (xi_pool it)) scope m quantity limit log amount
    \<and> c = Some (int_str amount)"
proof -
  obtain limit scope ms m quantity where 1: "status = 1" "big_of_string (xi_limit it) = ok limit"
      "xi_claim it = Some (scope, ms)" "big_of_string ms = ok m" "big_of_string (xi_quantity it) = ok quantity"
    and f: "first_effect (log_effect (xi_action it) (lower (xi_wallet it)) (lower (xi_pool it)) scope m quantity limit) logs
      = Effect_confirmed c"
    using assms by (auto simp: verifyEffect_def Let_def split: if_splits option.splits)
  obtain log where l: "log \<in> set logs"
    "log_effect (xi_action it) (lower (xi_wallet it)) (lower (xi_pool it)) scope m quantity limit log = Some (Effect_confirmed c)"
    using first_effect_SomeD [OF f] by blast
  from l(2) obtain amount where
    "log_shows (xi_action it) (lower (xi_wallet it)) (lower (xi_pool it)) scope m quantity limit log amount"
    "c = Some (int_str amount)"
    unfolding log_effect_iff by auto
  with 1 l(1) show ?thesis by blast
qed

lemma decoded_collateral_nonneg: "decodePoolLog log = Some e \<Longrightarrow> 0 \<le> ev_collateral (event_trade e)"
  by (auto simp: decodePoolLog_def decodeWords_def Let_def word_at_def
      split: list.splits if_splits sum.splits)

lemma log_shows_nonneg: "log_shows action wallet pool scope m quantity limit log amount \<Longrightarrow> 0 \<le> amount"
  by (auto simp: log_shows_def dest: decoded_collateral_nonneg split: option.splits)

text \<open>A confirmed buy cost no more than its limit.\<close>

lemma confirmed_buy_cost:
  assumes "verifyEffect it status logs allowance = ok (Effect_confirmed c)" "xi_action it = X_buy"
  obtains amount limit where "c = Some (int_str amount)" "0 \<le> amount" "big_of_string (xi_limit it) = ok limit" "amount \<le> limit"
proof -
  obtain limit scope ms m quantity log amount where "big_of_string (xi_limit it) = ok limit"
    and s: "log_shows X_buy (lower (xi_wallet it)) (lower (xi_pool it)) scope m quantity limit log amount"
    and "c = Some (int_str amount)"
    using verifyEffect_trade [OF assms(1)] assms(2) by auto
  moreover have "amount \<le> limit" using s by (auto simp: log_shows_def split: option.splits pool_event.splits)
  ultimately show ?thesis using log_shows_nonneg [OF s] that by blast
qed


section \<open>Properties\<close>

text \<open>A mined trade or redemption is confirmed exactly when the receipt succeeded and one of its
  logs is the pool's own event for this wallet with the reported claim and quantity, at a cost
  within the limit of a buy or proceeds above the minimum of a sell.\<close>

theorem effect_confirmed_exactly:
  assumes "xi_action it \<noteq> X_approve" and "xi_claim it = Some (scope, ms)"
    and "big_of_string (xi_limit it) = ok limit" and "big_of_string ms = ok m"
    and "big_of_string (xi_quantity it) = ok quantity"
  shows "(\<exists>c. verifyEffect it status logs allowance = ok (Effect_confirmed c)) =
    (status = 1 \<and> (\<exists>log\<in>set logs. \<exists>amount.
       log_shows (xi_action it) (lower (xi_wallet it)) (lower (xi_pool it)) scope m quantity limit log amount))"
proof -
  let ?f = "log_effect (xi_action it) (lower (xi_wallet it)) (lower (xi_pool it)) scope m quantity limit"
  have "(\<exists>c. verifyEffect it status logs allowance = ok (Effect_confirmed c))
      = (status = 1 \<and> (\<exists>c. first_effect ?f logs = Effect_confirmed c))"
    using assms by (auto simp: verifyEffect_def)
  also have "(\<exists>c. first_effect ?f logs = Effect_confirmed c) \<longleftrightarrow> (\<exists>l\<in>set logs. ?f l \<noteq> None)"
    by (rule first_effect_confirmed) (auto simp: log_effect_iff)
  finally show ?thesis by (simp add: log_effect_iff)
qed

definition example_effect :: exec_intent where
  "example_effect = \<lparr>xi_action = X_buy, xi_wallet = ''0x00000000000000000000000000000000000000Aa'',
     xi_pool = ''0x00000000000000000000000000000000f1c7a0e0'', xi_claim = Some (5, ''13''),
     xi_quantity = ''1000000'', xi_limit = ''400000''\<rparr>"

definition example_log :: chain_log where
  "example_log = \<lparr>lg_address = ''0x00000000000000000000000000000000F1C7A0E0'',
     lg_topics = [TOPIC_Traded,
       ''0x00000000000000000000000000000000000000000000000000000000000000aa'',
       ''0x0000000000000000000000000000000000000000000000000000000000000005'',
       ''0x000000000000000000000000000000000000000000000000000000000000000d''],
     lg_data = ''0x'' @ concat (map hex64 [1, 1000000, 390000])\<rparr>"

theorem effect_confirmed_exactly_witness:
  "\<exists>log\<in>set [example_log]. \<exists>amount.
    log_shows X_buy (lower (xi_wallet example_effect)) (lower (xi_pool example_effect)) 5 13 1000000 400000 log amount"
proof -
  have "\<exists>c. verifyEffect example_effect 1 [example_log] None = ok (Effect_confirmed c)"
    by (rule exI [of _ "Some ''390000''"], unfold example_effect_def example_log_def, code_simp)
  moreover have "big_of_string ''400000'' = ok 400000" "big_of_string ''13'' = ok 13" "big_of_string ''1000000'' = ok 1000000"
    by code_simp+
  ultimately show ?thesis
    using effect_confirmed_exactly [of example_effect 5 "''13''" 400000 13 1000000 1 "[example_log]" None]
    by (simp add: example_effect_def)
qed

end
