(* ===== verification/Protocol.thy ===== *)
theory Protocol
  imports Claims
begin

text \<open>
  The deployment record a runtime accepts (\<open>parseDeployment\<close> of packages/sdk/src/protocol.ts,
  with \<open>isNamespace\<close> of market.ts), and the protocol's constants.
\<close>

definition COLLATERAL :: string where
  "COLLATERAL = ''0xa9012a055bd4e0edff8ce09f960291c09d5322dc''"

definition COLLATERAL_DECIMALS :: int where
  "COLLATERAL_DECIMALS = 6"

definition max_quantity_atoms :: int where
  "max_quantity_atoms = 100000000"

definition max_limit_atoms :: int where
  "max_limit_atoms = 100000000"

text \<open>The codes after which a runtime starts nothing new.\<close>

definition STOP_CODES :: "string list" where
  "STOP_CODES = [''UNAUTHENTICATED'', ''CREDENTIAL_EXPIRED'', ''CREDENTIAL_REVOKED'', ''INVITE_REQUIRED'',
     ''AGENT_ARCHIVED'', ''SCOPE_REQUIRED'']"

text \<open>\<open>/^practice-[0-9a-f]{40}$/\<close> or the pilot.\<close>

definition is_namespace :: "string \<Rightarrow> bool" where
  "is_namespace s = (s = ''pilot'' \<or> (take 9 s = ''practice-'' \<and> is_lhex_n 40 (drop 9 s)))"

fun isNamespace :: "json \<Rightarrow> bool" where
  "isNamespace (JStr s) = is_namespace s"
| "isNamespace _ = False"

text \<open>The interface, the chain, the collateral and the limits are constants of every accepted
  record; the fields that vary are kept.\<close>

record deployment =
  dep_namespace :: string
  dep_chainId :: int
  dep_pool :: string
  dep_resolver :: string
  dep_collateral :: string
  dep_poolCode :: string
  dep_resolverCode :: string
  dep_rulesHash :: string
  dep_closesAt :: int
  dep_eventCount :: int

definition bad_deployment :: "'a res" where
  "bad_deployment = throw Invalid_response"

fun addr :: "json \<Rightarrow> string res" where
  "addr (JStr s) = (if is_0x_lhex 40 s then ok s else bad_deployment)"
| "addr _ = bad_deployment"

fun hash32 :: "json \<Rightarrow> string res" where
  "hash32 (JStr s) = (if is_0x_lhex 64 s then ok s else bad_deployment)"
| "hash32 _ = bad_deployment"

fun jstr_of :: "json \<Rightarrow> string" where
  "jstr_of (JStr s) = s"
| "jstr_of _ = []"

definition limits_ok :: "json \<Rightarrow> bool" where
  "limits_ok l = (jget l ''maxQuantityAtoms'' = JStr ''100000000'' \<and> jget l ''maxLimitAtoms'' = JStr ''100000000''
     \<and> jget l ''slippageBps'' = JArr [JInt 10, JInt 50, JInt 100] \<and> jget l ''maxDeadlineSeconds'' = JInt 300)"

definition parseDeployment :: "json \<Rightarrow> deployment res" where
  "parseDeployment d =
     (if jget d ''schema'' \<noteq> JStr ''flurbo.agent-deployment.v1'' then bad_deployment
      else if jget d ''interface'' \<noteq> JStr ''flurbo.pilot-pool.v1'' then bad_deployment
      else if jget d ''chainId'' \<noteq> JInt CHAIN_ID then bad_deployment
      else if \<not> isNamespace (jget d ''namespace'') then bad_deployment
      else bindE (addr (jget (jget d ''collateral'') ''address'')) (\<lambda>collateral.
        if collateral \<noteq> COLLATERAL \<or> jget (jget d ''collateral'') ''decimals'' \<noteq> JInt COLLATERAL_DECIMALS then bad_deployment
        else if \<not> is_safe_int (jget d ''closesAt'') \<or> \<not> List.member [JInt 2, JInt 3, JInt 4] (jget d ''eventCount'') then bad_deployment
        else if \<not> limits_ok (jget d ''limits'') then bad_deployment
        else bindE (addr (jget d ''pool'')) (\<lambda>pool. bindE (addr (jget d ''resolver'')) (\<lambda>resolver.
          bindE (hash32 (jget (jget d ''codeHashes'') ''pool'')) (\<lambda>poolCode.
          bindE (hash32 (jget (jget d ''codeHashes'') ''resolver'')) (\<lambda>resolverCode.
          bindE (hash32 (jget d ''rulesHash'')) (\<lambda>rules.
            ok \<lparr>dep_namespace = jstr_of (jget d ''namespace''), dep_chainId = CHAIN_ID, dep_pool = pool,
              dep_resolver = resolver, dep_collateral = COLLATERAL, dep_poolCode = poolCode,
              dep_resolverCode = resolverCode, dep_rulesHash = rules, dep_closesAt = jint_val (jget d ''closesAt''),
              dep_eventCount = jint_val (jget d ''eventCount'')\<rparr>)))))))"

definition wf_deployment :: "deployment \<Rightarrow> bool" where
  "wf_deployment d = (dep_chainId d = CHAIN_ID \<and> is_namespace (dep_namespace d) \<and> is_0x_lhex 40 (dep_pool d)
     \<and> is_0x_lhex 40 (dep_resolver d) \<and> dep_collateral d = COLLATERAL \<and> is_0x_lhex 64 (dep_poolCode d)
     \<and> is_0x_lhex 64 (dep_resolverCode d) \<and> is_0x_lhex 64 (dep_rulesHash d)
     \<and> (dep_eventCount d = 2 \<or> dep_eventCount d = 3 \<or> dep_eventCount d = 4))"

lemma addr_ok: "addr j = ok s \<longleftrightarrow> j = JStr s \<and> is_0x_lhex 40 s"
  by (cases j) (auto simp: bad_deployment_def)

lemma hash32_ok: "hash32 j = ok s \<longleftrightarrow> j = JStr s \<and> is_0x_lhex 64 s"
  by (cases j) (auto simp: bad_deployment_def)

lemma isNamespace_iff: "isNamespace j \<longleftrightarrow> (\<exists>s. j = JStr s \<and> is_namespace s)"
  by (cases j) auto

lemma parseDeployment_wf: "parseDeployment v = ok d \<Longrightarrow> wf_deployment d"
  by (auto simp: parseDeployment_def wf_deployment_def addr_ok hash32_ok isNamespace_iff bad_deployment_def
      split: if_splits)

end
