(* ===== verification/Transaction.thy ===== *)
theory Transaction
  imports Abi Protocol Claim_Laws
begin

text \<open>
  The only transactions a runtime signs (packages/sdk/src/transaction.ts): built from an
  intent, and checked again on the final bytes immediately before signing.
\<close>

datatype trade_side = Side_buy | Side_sell

datatype intent =
    Trade_intent trade_side int int int int int  \<comment> \<open>scope, mask, quantity, limit, deadline\<close>
  | Redeem_intent int int int  \<comment> \<open>scope, mask, quantity\<close>
  | Approve_intent int  \<comment> \<open>amount\<close>

record tx_request =
  tx_chainId :: int
  tx_from :: string
  tx_to :: string
  tx_data :: string
  tx_value :: int

fun side_fn :: "trade_side \<Rightarrow> fn_name" where
  "side_fn Side_buy = Fn_buy"
| "side_fn Side_sell = Fn_sell"

fun intent_fn :: "intent \<Rightarrow> fn_name" where
  "intent_fn (Trade_intent side _ _ _ _ _) = side_fn side"
| "intent_fn (Redeem_intent _ _ _) = Fn_redeem"
| "intent_fn (Approve_intent _) = Fn_approve"

definition refuse :: "'a res" where
  "refuse = throw Invalid_input"

definition check :: "bool \<Rightarrow> unit res" where
  "check p = (if p then ok () else refuse)"

lemma check_ok [simp]: "check p = ok u \<longleftrightarrow> p"
  by (simp add: check_def refuse_def)

text \<open>The claim and quantity checks shared by trades and redemptions.\<close>

definition check_position :: "deployment \<Rightarrow> int \<Rightarrow> int \<Rightarrow> int \<Rightarrow> int \<Rightarrow> int \<Rightarrow> int \<Rightarrow> unit res" where
  "check_position d scope m quantity iscope imask iquantity =
     bindE (check (scope = iscope \<and> m = imask \<and> quantity = iquantity)) (\<lambda>_.
     bindE (assertClaim \<lparr>claim_chain = 10143, claim_pool = dep_pool d, claim_scope = scope, claim_mask = m\<rparr>
       (dep_eventCount d)) (\<lambda>_.
     check (1 \<le> quantity \<and> quantity \<le> max_quantity_atoms)))"

definition validateTransaction :: "tx_request \<Rightarrow> intent \<Rightarrow> deployment \<Rightarrow> string \<Rightarrow> unit res" where
  "validateTransaction tx it d wallet =
     bindE (check (tx_chainId tx = 10143 \<and> dep_chainId d = 10143)) (\<lambda>_.
     bindE (check (tx_value tx = 0)) (\<lambda>_.
     bindE (check (lower (tx_from tx) = lower wallet)) (\<lambda>_.
     bindE (decodeCall (tx_data tx)) (\<lambda>(name, args).
     bindE (check (name = intent_fn it)) (\<lambda>_.
     case it of
       Approve_intent amount \<Rightarrow>
         bindE (check (lower (tx_to tx) = COLLATERAL)) (\<lambda>_.
         bindE (check (addressFromWord (args ! 0) = dep_pool d)) (\<lambda>_.
         check (args ! 1 = amount \<and> args ! 1 \<noteq> 0 \<and> args ! 1 \<le> max_limit_atoms)))
     | Redeem_intent scope m quantity \<Rightarrow>
         bindE (check (lower (tx_to tx) = dep_pool d)) (\<lambda>_.
         check_position d (args ! 0) (args ! 1) (args ! 2) scope m quantity)
     | Trade_intent side scope m quantity limit deadline \<Rightarrow>
         bindE (check (lower (tx_to tx) = dep_pool d)) (\<lambda>_.
         bindE (check_position d (args ! 0) (args ! 1) (args ! 2) scope m quantity) (\<lambda>_.
         bindE (check (args ! 3 = limit \<and> args ! 3 \<le> max_limit_atoms \<and> \<not> (side = Side_buy \<and> args ! 3 = 0))) (\<lambda>_.
         check (args ! 4 = deadline \<and> deadline < dep_closesAt d)))))))))"

text \<open>The destination and the call of an intent.\<close>

fun intent_call :: "intent \<Rightarrow> deployment \<Rightarrow> (string \<times> string) res" where
  "intent_call (Approve_intent amount) d =
     bindE (encodeCall Fn_approve [A_str (dep_pool d), A_big amount]) (\<lambda>data. ok (COLLATERAL, data))"
| "intent_call (Redeem_intent scope m quantity) d =
     bindE (encodeCall Fn_redeem [A_num (JInt scope), A_big m, A_big quantity]) (\<lambda>data. ok (dep_pool d, data))"
| "intent_call (Trade_intent side scope m quantity limit deadline) d =
     bindE (encodeCall (side_fn side) [A_num (JInt scope), A_big m, A_big quantity, A_big limit, A_big deadline])
       (\<lambda>data. ok (dep_pool d, data))"

definition buildTransaction :: "intent \<Rightarrow> deployment \<Rightarrow> string \<Rightarrow> tx_request res" where
  "buildTransaction it d wallet = (let from = lower wallet in
     bindE (intent_call it d) (\<lambda>(to, data).
       let request = \<lparr>tx_chainId = 10143, tx_from = from, tx_to = to, tx_data = data, tx_value = 0\<rparr> in
       bindE (validateTransaction request it d wallet) (\<lambda>_. ok request)))"


section \<open>What is signed\<close>

fun intent_to :: "intent \<Rightarrow> deployment \<Rightarrow> string" where
  "intent_to (Approve_intent _) d = COLLATERAL"
| "intent_to _ d = dep_pool d"

fun intent_args :: "intent \<Rightarrow> deployment \<Rightarrow> int list" where
  "intent_args (Approve_intent amount) d = [int (hex_val (drop 2 (dep_pool d))), amount]"
| "intent_args (Redeem_intent scope m quantity) d = [scope, m, quantity]"
| "intent_args (Trade_intent side scope m quantity limit deadline) d = [scope, m, quantity, limit, deadline]"

definition position_ok :: "deployment \<Rightarrow> int \<Rightarrow> int \<Rightarrow> int \<Rightarrow> bool" where
  "position_ok d scope m quantity =
     (wf_claim (dep_eventCount d) \<lparr>claim_chain = 10143, claim_pool = dep_pool d, claim_scope = scope, claim_mask = m\<rparr>
      \<and> 1 \<le> quantity \<and> quantity \<le> max_quantity_atoms)"

fun intent_limits :: "intent \<Rightarrow> deployment \<Rightarrow> bool" where
  "intent_limits (Approve_intent amount) d = (1 \<le> amount \<and> amount \<le> max_limit_atoms)"
| "intent_limits (Redeem_intent scope m quantity) d = position_ok d scope m quantity"
| "intent_limits (Trade_intent side scope m quantity limit deadline) d =
     (position_ok d scope m quantity \<and> limit \<le> max_limit_atoms \<and> \<not> (side = Side_buy \<and> limit = 0)
      \<and> deadline < dep_closesAt d)"

text \<open>An intent that may be signed: its amounts fit their words and keep the service limits.\<close>

definition intent_ok :: "intent \<Rightarrow> deployment \<Rightarrow> bool" where
  "intent_ok it d = (args_ok (intent_fn it) (intent_args it d) \<and> intent_limits it d)"

definition signed_shape :: "tx_request \<Rightarrow> intent \<Rightarrow> deployment \<Rightarrow> string \<Rightarrow> bool" where
  "signed_shape tx it d wallet =
     (tx_chainId tx = 10143 \<and> tx_value tx = 0 \<and> lower (tx_from tx) = lower wallet
      \<and> lower (tx_to tx) = intent_to it d \<and> lower (tx_data tx) = calldata (intent_fn it) (intent_args it d))"

lemma assertClaim_wf: "(\<exists>c'. assertClaim c n = ok c') \<longleftrightarrow> wf_claim n c"
  unfolding wf_claim_def by (auto simp: assertClaim_ok_iff)

lemma check_position_ok:
  "check_position d scope m q is im iq = ok u \<longleftrightarrow> scope = is \<and> m = im \<and> q = iq \<and> position_ok d scope m q"
  unfolding check_position_def position_ok_def bindE_Inr_iff check_ok assertClaim_wf [symmetric] by auto

lemma address_word:
  assumes "0 \<le> v" "v < 2 ^ 160" "is_0x_lhex 40 p"
  shows "addressFromWord v = p \<longleftrightarrow> v = int (hex_val (drop 2 p))"
proof -
  have p: "p = ''0x'' @ drop 2 p" "list_all is_lhex (drop 2 p)" "length (drop 2 p) = 40"
    using assms(3) append_take_drop_id [of 2 p] by (simp_all add: is_0x_lhex_def)
  have "pad_start 40 (hex_str (hex_val (drop 2 p))) = drop 2 p" using pad_hex_val [OF p(2,3)] by simp
  moreover have "hex_val (pad_start 40 (hex_str (nat v))) = nat v" by simp
  ultimately show ?thesis unfolding addressFromWord_def
    using assms(1) p(1) by (metis append_same_eq int_nat_eq nat_int same_append_eq)
qed

lemma args2: "args_ok Fn_approve vs \<longleftrightarrow> (\<exists>a b. vs = [a, b] \<and> 0 \<le> a \<and> a < 2 ^ 160 \<and> 0 \<le> b \<and> b < 2 ^ 256)"
  by (auto simp: args_ok_def list_all2_Cons1)

lemma args3: "args_ok Fn_redeem vs \<longleftrightarrow> (\<exists>a b c. vs = [a, b, c] \<and> 0 \<le> a \<and> a < 2 ^ 32 \<and> 0 \<le> b \<and> b < 2 ^ 256
    \<and> 0 \<le> c \<and> c < 2 ^ 128)"
  by (auto simp: args_ok_def list_all2_Cons1)

lemma args5: "args_ok (side_fn s) vs \<longleftrightarrow> (\<exists>a b c d e. vs = [a, b, c, d, e] \<and> 0 \<le> a \<and> a < 2 ^ 32 \<and> 0 \<le> b \<and> b < 2 ^ 256
    \<and> 0 \<le> c \<and> c < 2 ^ 128 \<and> 0 \<le> d \<and> d < 2 ^ 128 \<and> 0 \<le> e \<and> e < 2 ^ 256)"
  by (cases s) (auto simp: args_ok_def list_all2_Cons1)

lemma validate_common:
  "validateTransaction tx it d w = ok u \<Longrightarrow> tx_chainId tx = 10143 \<and> dep_chainId d = 10143 \<and> tx_value tx = 0
    \<and> lower (tx_from tx) = lower w
    \<and> (\<exists>args. args_ok (intent_fn it) args \<and> lower (tx_data tx) = calldata (intent_fn it) args)"
  by (auto simp: validateTransaction_def decodeCall_iff split_beta)

lemma calldata_inject:
  "args_ok n vs \<Longrightarrow> args_ok n ws \<Longrightarrow> calldata n vs = calldata n ws \<longleftrightarrow> vs = ws"
  using call_codec.enc_inject [of "(n, vs)" "(n, ws)"] by simp


text \<open>The checks after the decoder, on decoded arguments.\<close>

lemma validate_decoded:
  assumes d: "wf_deployment d" and a: "args_ok (intent_fn it) args" and data: "lower (tx_data tx) = calldata (intent_fn it) args"
  shows "validateTransaction tx it d w = ok () \<longleftrightarrow>
    tx_chainId tx = 10143 \<and> tx_value tx = 0 \<and> lower (tx_from tx) = lower w \<and> lower (tx_to tx) = intent_to it d
    \<and> args = intent_args it d \<and> intent_limits it d"
proof -
  have dec: "decodeCall (tx_data tx) = ok (intent_fn it, args)" using a data by (simp add: decodeCall_iff)
  have ch: "dep_chainId d = 10143" and pool: "is_0x_lhex 40 (dep_pool d)"
    using d by (simp_all add: wf_deployment_def CHAIN_ID_def)
  show ?thesis
  proof (cases it)
    case (Approve_intent amount)
    then obtain s b where sb: "args = [s, b]" "0 \<le> s" "s < 2 ^ 160" "0 \<le> b" using a by (auto simp: args2)
    show ?thesis using address_word [OF sb(2,3) pool] sb(1,4)
      by (auto simp: validateTransaction_def dec ch Approve_intent)
  next
    case (Redeem_intent scope m q)
    then obtain x y z where "args = [x, y, z]" using a by (auto simp: args3)
    then show ?thesis by (auto simp: validateTransaction_def dec ch Redeem_intent check_position_ok)
  next
    case (Trade_intent side scope m q l t)
    then obtain a1 a2 a3 a4 a5 where "args = [a1, a2, a3, a4, a5]" using a by (auto simp: args5)
    then show ?thesis
      by (auto simp: validateTransaction_def dec ch Trade_intent check_position_ok numeral_eq_Suc)
  qed
qed

lemma validate_iff:
  assumes "wf_deployment d"
  shows "validateTransaction tx it d w = ok () \<longleftrightarrow> signed_shape tx it d w \<and> intent_ok it d"
proof
  assume v: "validateTransaction tx it d w = ok ()"
  then obtain args where "args_ok (intent_fn it) args" "lower (tx_data tx) = calldata (intent_fn it) args"
    using validate_common by blast
  then show "signed_shape tx it d w \<and> intent_ok it d"
    using validate_decoded [OF assms] v by (auto simp: signed_shape_def intent_ok_def)
next
  assume s: "signed_shape tx it d w \<and> intent_ok it d"
  then show "validateTransaction tx it d w = ok ()"
    using validate_decoded [OF assms, of it "intent_args it d" tx w] by (simp add: signed_shape_def intent_ok_def)
qed

lemma word_value_simps [simp]:
  "word_value K_uint256 (A_big v) = ok v" "word_value K_uint128 (A_big v) = ok v"
  "word_value K_uint32 (A_num (JInt v)) = (if - max_safe \<le> v \<and> v \<le> max_safe then ok v else throw Invalid_input)"
  "word_value K_address (A_str s) = (if is_0x_hex 40 s then ok (int (hex_val (drop 2 s))) else throw Invalid_input)"
  by (simp_all add: word_value_def)

lemma is_0x_hex_lhex: "is_0x_lhex n s \<Longrightarrow> is_0x_hex n s"
  by (auto simp: is_0x_lhex_def is_0x_hex_def is_hex_def list_all_iff)

lemma small_scope: "0 \<le> (v :: int) \<Longrightarrow> v < 2 ^ 32 \<Longrightarrow> v \<le> max_safe"
  by (simp add: max_safe_def)

lemma intent_call_ok:
  assumes d: "wf_deployment d"
  shows "intent_call it d = ok (to, data) \<longleftrightarrow>
    args_ok (intent_fn it) (intent_args it d) \<and> to = intent_to it d \<and> data = calldata (intent_fn it) (intent_args it d)"
proof -
  have pool: "is_0x_hex 40 (dep_pool d)" using d by (simp add: wf_deployment_def is_0x_hex_lhex)
  show ?thesis
  proof (cases it)
    case (Approve_intent amount)
    then show ?thesis using pool by (auto simp: encodeCall_ok_iff list_all2_Cons1 args2)
  next
    case (Redeem_intent scope m q)
    then show ?thesis using small_scope [of scope]
      by (auto simp: encodeCall_ok_iff list_all2_Cons1 args3 split: if_splits)
  next
    case (Trade_intent side scope m q l t)
    have "SIGNATURES (side_fn side) = [K_uint32, K_uint256, K_uint128, K_uint128, K_uint256]" by (cases side) simp_all
    then show ?thesis using small_scope [of scope]
      by (auto simp: Trade_intent encodeCall_ok_iff list_all2_Cons1 args5 split: if_splits)
  qed
qed

lemma lower_constants: "wf_deployment d \<Longrightarrow> lower (intent_to it d) = intent_to it d"
proof -
  assume "wf_deployment d"
  then have "is_0x_lhex 40 (dep_pool d)" by (simp add: wf_deployment_def)
  moreover have "is_0x_lhex 40 COLLATERAL" unfolding COLLATERAL_def by code_simp
  ultimately have "is_0x_lhex 40 (intent_to it d)" by (cases it) simp_all
  then show ?thesis by (rule lower_0x_lhex)
qed

lemma buildTransaction_iff:
  assumes "wf_deployment d"
  shows "buildTransaction it d w = ok tx \<longleftrightarrow> intent_ok it d \<and> tx = \<lparr>tx_chainId = 10143, tx_from = lower w,
    tx_to = intent_to it d, tx_data = calldata (intent_fn it) (intent_args it d), tx_value = 0\<rparr>"
proof -
  let ?tx = "\<lparr>tx_chainId = 10143, tx_from = lower w, tx_to = intent_to it d,
    tx_data = calldata (intent_fn it) (intent_args it d), tx_value = 0\<rparr>"
  have shape: "signed_shape ?tx it d w" by (simp add: signed_shape_def lower_constants [OF assms])
  have "buildTransaction it d w = ok tx \<longleftrightarrow> args_ok (intent_fn it) (intent_args it d)
      \<and> validateTransaction ?tx it d w = ok () \<and> tx = ?tx"
    unfolding buildTransaction_def Let_def bindE_Inr_iff
    by (auto simp: intent_call_ok [OF assms] split: prod.splits)
  then show ?thesis using shape by (auto simp: validate_iff [OF assms] intent_ok_def)
qed


section \<open>Properties\<close>

text \<open>The check before signing passes exactly the transactions that carry the intent: zero
  value on Monad testnet, from the agent's wallet, to the pool (or the collateral for an
  approval), with the one calldata of the intent's call, and with a supported claim and amounts
  inside the service limits.\<close>

theorem validated_is_intended:
  assumes "wf_deployment d"
  shows "(validateTransaction tx it d wallet = ok ()) =
    (tx_chainId tx = 10143 \<and> tx_value tx = 0 \<and> lower (tx_from tx) = lower wallet
     \<and> lower (tx_to tx) = intent_to it d \<and> lower (tx_data tx) = calldata (intent_fn it) (intent_args it d)
     \<and> args_ok (intent_fn it) (intent_args it d) \<and> intent_limits it d)"
  unfolding validate_iff [OF assms] by (auto simp: signed_shape_def intent_ok_def)

definition example_deployment :: deployment where
  "example_deployment = \<lparr>dep_namespace = ''pilot'', dep_chainId = 10143,
     dep_pool = ''0x00000000000000000000000000000000f1c7a0e0'', dep_resolver = ''0x00000000000000000000000000000000f1c7a0e1'',
     dep_collateral = COLLATERAL,
     dep_poolCode = ''0x00000000000000000000000000000000000000000000000000000000f1c7a0e2'',
     dep_resolverCode = ''0x00000000000000000000000000000000000000000000000000000000f1c7a0e3'',
     dep_rulesHash = ''0x00000000000000000000000000000000000000000000000000000000f1c7a0e4'',
     dep_closesAt = 90000, dep_eventCount = 3\<rparr>"

lemma example_deployment_wf: "wf_deployment example_deployment"
  unfolding example_deployment_def by code_simp

theorem validated_is_intended_witness:
  "(validateTransaction \<lparr>tx_chainId = 10143, tx_from = ''0xAb'', tx_to = COLLATERAL, tx_data = ''0x'', tx_value = 1\<rparr>
      (Approve_intent 5) example_deployment ''0xab'' = ok ()) =
    (tx_chainId \<lparr>tx_chainId = 10143, tx_from = ''0xAb'', tx_to = COLLATERAL, tx_data = ''0x'', tx_value = 1\<rparr> = 10143 \<and> False)"
  using validated_is_intended [OF example_deployment_wf,
    of "\<lparr>tx_chainId = 10143, tx_from = ''0xAb'', tx_to = COLLATERAL, tx_data = ''0x'', tx_value = 1\<rparr>" "Approve_intent 5" "''0xab''"]
  by simp

text \<open>An intent builds a transaction exactly when its amounts fit and keep the service limits,
  and the transaction built passes the check before signing.\<close>

theorem build_accepts_and_validates:
  assumes "wf_deployment d"
  shows "(\<exists>tx. buildTransaction it d wallet = ok tx) = (args_ok (intent_fn it) (intent_args it d) \<and> intent_limits it d)
    \<and> (\<exists>tx. buildTransaction it d wallet = ok tx) =
      (\<exists>tx. buildTransaction it d wallet = ok tx \<and> validateTransaction tx it d wallet = ok ())"
  by (auto simp: buildTransaction_iff [OF assms] validate_iff [OF assms] signed_shape_def intent_ok_def
      lower_constants [OF assms])

theorem build_accepts_and_validates_witness:
  "\<exists>tx. buildTransaction (Approve_intent 5) example_deployment ''0xab'' = ok tx"
  using build_accepts_and_validates [OF example_deployment_wf, of "Approve_intent 5"]
  by (simp add: args2 max_limit_atoms_def example_deployment_def hex_val_def from_base_def digit_val_def code_def Let_def)

end
