(* ===== verification/Executor.thy ===== *)
theory Executor
  imports Journal Effects Transaction
begin

text \<open>
  Live execution (packages/sdk/src/node/executor.ts): planning under the lock, signing under
  the lock, broadcasting, reconciling with the chain by compare-and-set, and reporting. What
  the chain, the signer and the Flurbo API answer is a parameter of each operation.
\<close>

section \<open>Planning\<close>

definition MAX_GAS :: int where
  "MAX_GAS = 15000000"

fun intent_action :: "intent \<Rightarrow> journal_action" where
  "intent_action (Trade_intent Side_buy _ _ _ _ _) = Buy"
| "intent_action (Trade_intent Side_sell _ _ _ _ _) = Sell"
| "intent_action (Redeem_intent _ _ _) = Redeem"
| "intent_action (Approve_intent _) = Approve"

fun intent_claim :: "intent \<Rightarrow> claim_ref option" where
  "intent_claim (Trade_intent _ scope m _ _ _) = Some \<lparr>cr_scope = scope, cr_mask = int_str m\<rparr>"
| "intent_claim (Redeem_intent scope m _) = Some \<lparr>cr_scope = scope, cr_mask = int_str m\<rparr>"
| "intent_claim (Approve_intent _) = None"

fun intent_quantity :: "intent \<Rightarrow> string" where
  "intent_quantity (Trade_intent _ _ _ quantity _ _) = int_str quantity"
| "intent_quantity (Redeem_intent _ _ quantity) = int_str quantity"
| "intent_quantity (Approve_intent _) = ''0''"

fun intent_limit :: "intent \<Rightarrow> string" where
  "intent_limit (Trade_intent _ _ _ _ limit _) = int_str limit"
| "intent_limit (Redeem_intent _ _ _) = ''0''"
| "intent_limit (Approve_intent amount) = int_str amount"

fun intent_deadline :: "intent \<Rightarrow> int option" where
  "intent_deadline (Trade_intent _ _ _ _ _ deadline) = Some deadline"
| "intent_deadline _ = None"

text \<open>What a plan reads from the chain, the clock and the configuration; a read that may fail is
  an option.\<close>

record plan_env =
  en_simulates :: bool
  en_gasEstimate :: "int option"
  en_maxFeePerGas :: int
  en_priorityFee :: int
  en_native :: int
  en_headTime :: int
  en_resolved :: bool
  en_holdings :: "int \<Rightarrow> int \<Rightarrow> int res"
  en_policy :: policy_config
  en_now :: int
  en_id :: string
  en_owner :: "int \<times> string"

datatype plan_result = Plan_entry journal_entry | Plan_rejected "violation list" | Plan_simulation_failed

text \<open>The claims whose holdings are read: those of the journal in this market, and the intent's.
  A Map keeps the place of a key that is set again.\<close>

definition claims_to_read :: "deployment \<Rightarrow> intent \<Rightarrow> journal_entry list \<Rightarrow> claim_ref list" where
  "claims_to_read d it snapshot = rev (remdups (rev (
     List.map_filter (\<lambda>e. if je_namespace e = dep_namespace d then je_claim e else None) snapshot
     @ (case intent_claim it of None \<Rightarrow> [] | Some c \<Rightarrow> [c]))))"

definition read_holding :: "plan_env \<Rightarrow> claim_ref \<Rightarrow> holding res" where
  "read_holding env c = bindE (big_of_string (cr_mask c)) (\<lambda>m. bindE (en_holdings env (cr_scope c) m) (\<lambda>q.
     ok \<lparr>h_claim = c, h_quantity = int_str q\<rparr>))"

definition plan_market :: "deployment \<Rightarrow> plan_env \<Rightarrow> policy_market" where
  "plan_market d env = \<lparr>pm_namespace = dep_namespace d, pm_pool = dep_pool d, pm_eventCount = dep_eventCount d,
     pm_closesAt = dep_closesAt d, pm_open = (\<not> en_resolved env \<and> en_headTime env < dep_closesAt d),
     pm_resolved = en_resolved env\<rparr>"

text \<open>The checks of an approval, which is no trade.\<close>

definition approve_violations :: "deployment \<Rightarrow> plan_env \<Rightarrow> int \<Rightarrow> int \<Rightarrow> journal_entry list \<Rightarrow> violation list res" where
  "approve_violations d env amount gas es = (let p = en_policy env; fee = gas * en_maxFeePerGas env in
     bindE (big_of_string (pc_gasMaxFee p)) (\<lambda>maxFee. bindE (big_of_string (pc_gasReserve p)) (\<lambda>reserve.
       ok (flag SERVICE_LIMIT (amount < 1 \<or> amount > 100000000)
         @ flag MARKET_NOT_ALLOWED (\<not> List.member (pc_markets p) (dep_namespace d))
         @ flag GAS_FEE_LIMIT (fee > maxFee)
         @ flag GAS_RESERVE (en_native env - fee < reserve)
         @ flag PENDING_LIMIT (int (length (filter (\<lambda>e. \<not> isFinal e) es)) \<ge> pc_maxPending p)))))"

definition plan_input :: "deployment \<Rightarrow> intent \<Rightarrow> int option \<Rightarrow> int \<Rightarrow> plan_env \<Rightarrow> int \<Rightarrow> holding list
    \<Rightarrow> journal_entry list \<Rightarrow> claim_ref \<Rightarrow> policy_input" where
  "plan_input d it quoteTime slippage env gas holdings es c =
     \<lparr>pi_policy = en_policy env, pi_now = en_now env, pi_market = plan_market d env,
      pi_native = int_str (en_native env), pi_holdings = holdings, pi_journal = policyEntries es,
      pi_candidate = \<lparr>ca_action = intent_action it, ca_namespace = dep_namespace d, ca_claim = c,
        ca_quantity = intent_quantity it, ca_limit = intent_limit it, ca_slippageBps = slippage,
        ca_quoteTime = (case quoteTime of None \<Rightarrow> en_now env | Some t \<Rightarrow> t),
        ca_gasLimit = int_str gas, ca_maxFeePerGas = int_str (en_maxFeePerGas env)\<rparr>\<rparr>"

definition plan_violations :: "deployment \<Rightarrow> intent \<Rightarrow> int option \<Rightarrow> int \<Rightarrow> plan_env \<Rightarrow> int \<Rightarrow> holding list
    \<Rightarrow> journal_entry list \<Rightarrow> violation list res" where
  "plan_violations d it quoteTime slippage env gas holdings es = (case it of
     Approve_intent amount \<Rightarrow> approve_violations d env amount gas es
   | _ \<Rightarrow> (case intent_claim it of
       None \<Rightarrow> ok []
     | Some c \<Rightarrow> evaluatePolicy (plan_input d it quoteTime slippage env gas holdings es c)))"

definition new_entry :: "deployment \<Rightarrow> intent \<Rightarrow> string \<Rightarrow> plan_env \<Rightarrow> int \<Rightarrow> tx_request \<Rightarrow> journal_entry" where
  "new_entry d it decisionId env gas tx =
     \<lparr>je_id = en_id env, je_action = intent_action it, je_namespace = dep_namespace d, je_pool = dep_pool d,
      je_claim = intent_claim it, je_quantity = intent_quantity it, je_limit = intent_limit it,
      je_deadline = intent_deadline it, je_status = Planned, je_plannedAt = en_now env,
      je_decisionId = Some decisionId, je_to = tx_to tx, je_data = tx_data tx, je_gas = Some (int_str gas),
      je_maxFee = Some (int_str (en_maxFeePerGas env)), je_priorityFee = Some (int_str (en_priorityFee env)),
      je_nonce = None, je_raw = None, je_hash = None, je_signedAt = None, je_broadcastAt = None,
      je_finalAt = None, je_cost = None, je_receipt = None, je_note = None, je_owner = en_owner env,
      je_report = \<lparr>rp_status = Rep_none, rp_attempts = 0, rp_flurboStatus = None\<rparr>\<rparr>"

text \<open>\<open>snapshot\<close> is the journal read before the lock, \<open>es\<close> the journal under the lock: the policy
  check and the reservation are one step.\<close>

definition plan :: "string \<Rightarrow> deployment \<Rightarrow> intent \<Rightarrow> string \<Rightarrow> int option \<Rightarrow> int \<Rightarrow> plan_env
    \<Rightarrow> journal_entry list \<Rightarrow> journal_entry list \<Rightarrow> (plan_result \<times> journal_entry list) res" where
  "plan wallet d it decisionId quoteTime slippage env snapshot es =
     bindE (buildTransaction it d wallet) (\<lambda>tx.
     if \<not> en_simulates env then ok (Plan_simulation_failed, es)
     else case en_gasEstimate env of
       None \<Rightarrow> ok (Plan_simulation_failed, es)
     | Some estimate \<Rightarrow>
         let gas = tdiv (estimate * 120) 100 in
         if gas \<le> 0 \<or> gas > MAX_GAS then ok (Plan_simulation_failed, es)
         else bindE (mapE (read_holding env) (claims_to_read d it snapshot)) (\<lambda>holdings.
           bindE (plan_violations d it quoteTime slippage env gas holdings es) (\<lambda>violations.
           if violations \<noteq> [] then ok (Plan_rejected violations, es)
           else let e = new_entry d it decisionId env gas tx in ok (Plan_entry e, push_entry e es))))"

section \<open>Signing\<close>

abbreviation type_error :: "'a res" where
  "type_error \<equiv> Inl (Other_error ''TypeError'')"

text \<open>\<open>BigInt(v!)\<close> of a field that may be null.\<close>

definition big_of_field :: "string option \<Rightarrow> int res" where
  "big_of_field v = (case v of None \<Rightarrow> type_error | Some s \<Rightarrow> big_of_string s)"

text \<open>\<open>intentOf\<close>. A missing claim or deadline throws a \<open>TypeError\<close>, here or at its first use.\<close>

definition intentOf :: "journal_entry \<Rightarrow> intent res" where
  "intentOf e =
     (if je_action e = Approve then bindE (big_of_string (je_limit e)) (\<lambda>a. ok (Approve_intent a))
      else case je_claim e of
        None \<Rightarrow> type_error
      | Some c \<Rightarrow> bindE (big_of_string (cr_mask c)) (\<lambda>m. bindE (big_of_string (je_quantity e)) (\<lambda>q.
          if je_action e = Redeem then ok (Redeem_intent (cr_scope c) m q)
          else bindE (big_of_string (je_limit e)) (\<lambda>l. case je_deadline e of
              None \<Rightarrow> type_error
            | Some t \<Rightarrow> ok (Trade_intent (if je_action e = Buy then Side_buy else Side_sell) (cr_scope c) m q l t)))))"

record unsigned_tx =
  ut_chainId :: int
  ut_nonce :: int
  ut_to :: string
  ut_data :: string
  ut_value :: int
  ut_gas :: int
  ut_maxFee :: int
  ut_priorityFee :: int

record sign_env =
  sg_allowed :: bool
  sg_reason :: "string option"
  sg_semantic :: "string option"
  sg_pendingNonce :: int
  sg_now :: int
  sg_signer :: "unsigned_tx \<Rightarrow> string"
  sg_hash :: "string \<Rightarrow> string"

text \<open>\<open>Math.max(-1, ...)\<close> over the nonces of unfinished entries.\<close>

definition highest_nonce :: "journal_entry list \<Rightarrow> int" where
  "highest_nonce es = foldl max (-1) (List.map_filter je_nonce (filter (\<lambda>e. \<not> isFinal e) es))"

definition next_nonce :: "sign_env \<Rightarrow> journal_entry list \<Rightarrow> int" where
  "next_nonce env es = max (sg_pendingNonce env) (highest_nonce es + 1)"

definition abandon :: "int \<Rightarrow> string \<Rightarrow> journal_entry \<Rightarrow> journal_entry" where
  "abandon now note e = e\<lparr>je_status := Abandoned, je_finalAt := Some now, je_note := Some note\<rparr>"

definition mark_signed :: "sign_env \<Rightarrow> int \<Rightarrow> string \<Rightarrow> journal_entry \<Rightarrow> journal_entry" where
  "mark_signed env nonce raw e = e\<lparr>je_status := Signed, je_nonce := Some nonce, je_raw := Some raw,
     je_hash := Some (lower (sg_hash env raw)), je_signedAt := Some (sg_now env)\<rparr>"

definition sign :: "string \<Rightarrow> deployment \<Rightarrow> sign_env \<Rightarrow> string \<Rightarrow> journal_entry list
    \<Rightarrow> (journal_entry option \<times> journal_entry list) res" where
  "sign wallet d env entryId es = (case find_entry es entryId of
     None \<Rightarrow> ok (None, es)
   | Some e \<Rightarrow>
       if je_status e \<noteq> Planned then ok (None, es)
       else if \<not> sg_allowed env then
         ok (None, update_entry entryId (abandon (sg_now env)
           (''not signed: '' @ (case sg_reason env of None \<Rightarrow> ''null'' | Some r \<Rightarrow> r))) es)
       else if je_action e = Buy \<and> je_claim e = None then type_error
       else if je_action e = Buy \<and> sg_semantic env \<noteq> None then
         ok (None, update_entry entryId (abandon (sg_now env) (the (sg_semantic env))) es)
       else bindE (intentOf e) (\<lambda>it.
         bindE (validateTransaction \<lparr>tx_chainId = 10143, tx_from = wallet, tx_to = je_to e, tx_data = je_data e,
           tx_value = 0\<rparr> it d wallet) (\<lambda>_.
         bindE (big_of_field (je_gas e)) (\<lambda>gas. bindE (big_of_field (je_maxFee e)) (\<lambda>maxFee.
         bindE (big_of_field (je_priorityFee e)) (\<lambda>priority.
           let nonce = next_nonce env es;
               raw = sg_signer env \<lparr>ut_chainId = 10143, ut_nonce = nonce, ut_to = je_to e, ut_data = je_data e,
                 ut_value = 0, ut_gas = gas, ut_maxFee = maxFee, ut_priorityFee = priority\<rparr>
           in ok (Some (mark_signed env nonce raw e), update_entry entryId (mark_signed env nonce raw) es)))))))"

section \<open>Broadcasting\<close>

definition mark_broadcast :: "int \<Rightarrow> journal_entry \<Rightarrow> journal_entry" where
  "mark_broadcast now e = (if je_status e = Signed then e\<lparr>je_status := Broadcast, je_broadcastAt := Some now\<rparr> else e)"

text \<open>After the bytes were sent; when sending throws, nothing is written.\<close>

definition broadcast_done :: "string \<Rightarrow> int \<Rightarrow> journal_entry list \<Rightarrow> journal_entry list" where
  "broadcast_done entryId now es = update_entry entryId (mark_broadcast now) es"


section \<open>Reconciling\<close>

record chain_receipt =
  cr_status :: int
  cr_block :: int
  cr_gasUsed :: int
  cr_gasPrice :: "int option"
  cr_logs :: "chain_log list"

record rec_env =
  rc_headNumber :: int
  rc_headTime :: int
  rc_receipt :: "chain_receipt option"
  rc_txPresent :: bool
  rc_nonceLatest :: int
  rc_allowance :: int
  rc_now :: int
  rc_pid :: int

datatype entry_update =
    Upd_verify journal_status "string option" receipt_note int
  | Upd_release journal_status "receipt_note option" int
  | Upd_poll int

datatype rec_outcome = Rec_null | Rec_keep | Rec_resend | Rec_update entry_update

definition note_of :: "chain_receipt \<Rightarrow> receipt_note" where
  "note_of r = \<lparr>rn_blockNumber = int_str (cr_block r), rn_gasUsed = int_str (cr_gasUsed r),
     rn_gasPrice = map_option int_str (cr_gasPrice r)\<rparr>"

fun exec_action_of :: "journal_action \<Rightarrow> exec_action" where
  "exec_action_of Approve = X_approve"
| "exec_action_of Buy = X_buy"
| "exec_action_of Sell = X_sell"
| "exec_action_of Redeem = X_redeem"

definition exec_intent_of :: "string \<Rightarrow> journal_entry \<Rightarrow> exec_intent" where
  "exec_intent_of wallet e = \<lparr>xi_action = exec_action_of (je_action e), xi_wallet = wallet, xi_pool = je_pool e,
     xi_claim = map_option (\<lambda>c. (cr_scope c, cr_mask c)) (je_claim e), xi_quantity = je_quantity e,
     xi_limit = (if je_action e = Redeem then ''0'' else je_limit e)\<rparr>"

text \<open>A receipt counts once one more block is built on it.\<close>

definition settled :: "rec_env \<Rightarrow> chain_receipt option \<Rightarrow> chain_receipt option" where
  "settled env receipt = (case receipt of
     None \<Rightarrow> None | Some r \<Rightarrow> if rc_headNumber env \<ge> cr_block r + 1 then Some r else None)"

text \<open>The step taken for the entry that was read, before the lock.\<close>

definition reconcile_read :: "string \<Rightarrow> rec_env \<Rightarrow> journal_entry option \<Rightarrow> rec_outcome res" where
  "reconcile_read wallet env found = (case found of
     None \<Rightarrow> ok Rec_null
   | Some e \<Rightarrow>
       if isFinal e then ok Rec_keep
       else if je_status e = Planned \<and> rc_now env - je_plannedAt e < 60 \<and> fst (je_owner e) \<noteq> rc_pid env then ok Rec_keep
       else
         let receipt = (if je_hash e = None then None else rc_receipt env);
             txFound = (je_hash e \<noteq> None \<and> (receipt \<noteq> None \<or> rc_txPresent env));
             (status, action) = recoveryStep \<lparr>re_status = je_status e, re_nonce = je_nonce e, re_deadline = je_deadline e\<rparr>
               \<lparr>cv_txFound = txFound, cv_receiptStatus = map_option (\<lambda>r. cr_status r = 1) (settled env receipt),
                cv_nonceLatest = rc_nonceLatest env\<rparr> (rc_headTime env)
         in case (action, receipt) of
            (Verify, Some r) \<Rightarrow>
              bindE (verifyEffect (exec_intent_of wallet e) (cr_status r) (cr_logs r)
                (if je_action e = Approve then Some (int_str (rc_allowance env)) else None)) (\<lambda>effect.
              ok (Rec_update (case effect of
                  Effect_confirmed c \<Rightarrow> Upd_verify Confirmed c (note_of r) (rc_now env)
                | Effect_mismatch \<Rightarrow> Upd_verify Mismatch None (note_of r) (rc_now env))))
          | (Release, _) \<Rightarrow> ok (Rec_update (Upd_release status (map_option note_of receipt) (rc_now env)))
          | (Rebroadcast, _) \<Rightarrow> ok Rec_resend
          | (Poll, _) \<Rightarrow> ok (if je_status e = Signed then Rec_update (Upd_poll (rc_now env)) else Rec_keep)
          | _ \<Rightarrow> ok Rec_keep)"

fun apply_update :: "entry_update \<Rightarrow> journal_entry \<Rightarrow> journal_entry" where
  "apply_update (Upd_verify status cost note now) e =
     e\<lparr>je_status := status, je_finalAt := Some now, je_cost := cost, je_receipt := Some note\<rparr>"
| "apply_update (Upd_release status note now) e =
     e\<lparr>je_status := status, je_finalAt := Some now,
       je_receipt := (case note of None \<Rightarrow> je_receipt e | Some n \<Rightarrow> Some n)\<rparr>"
| "apply_update (Upd_poll now) e = e\<lparr>je_status := Broadcast, je_broadcastAt := Some now\<rparr>"

text \<open>Under the lock: the update is applied only if the status is still the one that was read.\<close>

definition reconcile_apply :: "string \<Rightarrow> journal_status \<Rightarrow> entry_update \<Rightarrow> journal_entry list \<Rightarrow> journal_entry list" where
  "reconcile_apply entryId status u es = (case find_entry es entryId of
     None \<Rightarrow> es
   | Some x \<Rightarrow> if je_status x \<noteq> status then es else update_entry entryId (apply_update u) es)"

section \<open>Reporting\<close>

text \<open>What is reported: transactions that reached the network, until Flurbo's status is final.\<close>

definition landed :: "journal_entry \<Rightarrow> bool" where
  "landed x = (je_hash x \<noteq> None \<and> List.member [Broadcast, Confirmed, Reverted, Mismatch] (je_status x))"

definition needs_report :: "journal_entry \<Rightarrow> bool" where
  "needs_report x = (landed x \<and>
     (\<not> List.member [Rep_accepted, Rep_rejected] (rp_status (je_report x))
      \<or> (rp_status (je_report x) = Rep_accepted
          \<and> \<not> List.member [''confirmed'', ''reverted'', ''mismatch'', ''attributed-elsewhere'']
               (case rp_flurboStatus (je_report x) of None \<Rightarrow> [] | Some s \<Rightarrow> s))))"

text \<open>The API's answer: a status, or an error with its code when it is one of the API's own.\<close>

datatype report_reply = Reply_status "string option" | Reply_error "string option"

definition reported :: "report_reply \<Rightarrow> journal_entry \<Rightarrow> journal_entry" where
  "reported reply x = x\<lparr>je_report := (case reply of
     Reply_status s \<Rightarrow> \<lparr>rp_status = Rep_accepted, rp_attempts = rp_attempts (je_report x) + 1, rp_flurboStatus = s\<rparr>
   | Reply_error err \<Rightarrow> \<lparr>rp_status = (if err = Some ''HASH_CONFLICT'' then Rep_rejected else Rep_pending),
       rp_attempts = rp_attempts (je_report x) + 1,
       rp_flurboStatus = Some (case err of None \<Rightarrow> ''NETWORK'' | Some c \<Rightarrow> c)\<rparr>)\<rparr>"

definition report_done :: "string \<Rightarrow> report_reply \<Rightarrow> journal_entry list \<Rightarrow> journal_entry list" where
  "report_done entryId reply es = update_entry entryId (reported reply) es"

section \<open>Deciding a trade\<close>

record trade_candidate =
  tc_action :: journal_action
  tc_scope :: int
  tc_mask :: int
  tc_quantity :: int
  tc_slippageBps :: int
  tc_quote :: int
  tc_quoteTime :: int

definition deadline_for :: "deployment \<Rightarrow> int \<Rightarrow> int" where
  "deadline_for d blockTime = min (blockTime + 300) (dep_closesAt d - 1)"

text \<open>\<open>precheck\<close>: every limit that does not depend on gas.\<close>

definition precheck :: "deployment \<Rightarrow> intent \<Rightarrow> int \<Rightarrow> int \<Rightarrow> plan_env \<Rightarrow> journal_entry list \<Rightarrow> violation list res" where
  "precheck d it quoteTime slippage env es = (case intent_claim it of
     None \<Rightarrow> ok []
   | Some c \<Rightarrow> bindE (big_of_string (cr_mask c)) (\<lambda>m. bindE (en_holdings env (cr_scope c) m) (\<lambda>held.
       bindE (evaluatePolicy \<lparr>pi_policy = en_policy env, pi_now = en_now env, pi_market = plan_market d env,
         pi_native = ''0'', pi_holdings = [\<lparr>h_claim = c, h_quantity = int_str held\<rparr>], pi_journal = policyEntries es,
         pi_candidate = \<lparr>ca_action = Buy, ca_namespace = dep_namespace d, ca_claim = c,
           ca_quantity = intent_quantity it, ca_limit = intent_limit it, ca_slippageBps = slippage,
           ca_quoteTime = quoteTime, ca_gasLimit = ''0'', ca_maxFeePerGas = ''0''\<rparr>\<rparr>) (\<lambda>vs.
       ok (filter (\<lambda>v. \<not> List.member [GAS_FEE_LIMIT, GAS_RESERVE] v) vs)))))"

text \<open>
  The decision of \<open>execute\<close> up to its first transaction: run the intent, approve first, or stop.
  The semantic check, the allowance and the early policy check are answers of the environment
  and of \<open>precheck\<close>.
\<close>

datatype exec_decision =
    Do_blocked string
  | Do_run intent "int option" int  \<comment> \<open>intent, quote time, slippage\<close>
  | Do_approval_pending
  | Do_rejected "violation list"
  | Do_approve_first intent intent  \<comment> \<open>the approval, and the buy it is for\<close>

definition execute_decision :: "deployment \<Rightarrow> trade_candidate \<Rightarrow> bool \<Rightarrow> string option \<Rightarrow> string option \<Rightarrow> int
    \<Rightarrow> plan_env \<Rightarrow> journal_entry list \<Rightarrow> exec_decision res" where
  "execute_decision d c allowed reason semantic allowance env es =
     (if \<not> allowed then ok (Do_blocked (case reason of None \<Rightarrow> ''blocked'' | Some r \<Rightarrow> r))
      else if tc_action c = Redeem then ok (Do_run (Redeem_intent (tc_scope c) (tc_mask c) (tc_quantity c)) None 0)
      else if tc_action c = Sell then
        ok (Do_run (Trade_intent Side_sell (tc_scope c) (tc_mask c) (tc_quantity c)
          (sellMinimum (tc_quote c) (tc_slippageBps c)) (deadline_for d (tc_quoteTime c))) (Some (tc_quoteTime c)) (tc_slippageBps c))
      else case semantic of
        Some r \<Rightarrow> ok (Do_blocked r)
      | None \<Rightarrow>
          let limit = buyLimit (tc_quote c) (tc_slippageBps c);
              it = Trade_intent Side_buy (tc_scope c) (tc_mask c) (tc_quantity c) limit (deadline_for d (tc_quoteTime c)) in
          if list_ex (\<lambda>e. je_action e = Approve \<and> je_pool e = dep_pool d \<and> \<not> isFinal e) es then ok Do_approval_pending
          else bindE (precheck d it (tc_quoteTime c) (tc_slippageBps c) env es) (\<lambda>early.
            if early \<noteq> [] then ok (Do_rejected early)
            else if allowance < limit then ok (Do_approve_first (Approve_intent limit) it)
            else ok (Do_run it (Some (tc_quoteTime c)) (tc_slippageBps c))))"

text \<open>After a confirmed approval: a newer quote, never at a higher cost.\<close>

datatype requote_decision = Re_unavailable | Re_price_moved | Re_run intent int

definition requote :: "deployment \<Rightarrow> trade_candidate \<Rightarrow> int \<Rightarrow> int option \<Rightarrow> int \<Rightarrow> requote_decision" where
  "requote d c limit again blockTime = (case again of
     None \<Rightarrow> Re_unavailable
   | Some q \<Rightarrow> if buyLimit q (tc_slippageBps c) > limit then Re_price_moved
       else Re_run (Trade_intent Side_buy (tc_scope c) (tc_mask c) (tc_quantity c) (buyLimit q (tc_slippageBps c))
         (deadline_for d blockTime)) blockTime)"

end
