(* ===== verification/Runtime.thy ===== *)
theory Runtime
  imports Executor
begin

text \<open>
  The runtime as a transition system: several processes plan, sign, broadcast, reconcile and
  report on one journal, in any interleaving. A reconciliation reads the entry before the lock
  and applies its update later, so an update in flight is part of the state.
\<close>

section \<open>Steps\<close>

record runtime =
  rt_entries :: "journal_entry list"
  rt_updates :: "(string \<times> journal_status \<times> entry_update) list"

definition runtime_init :: "runtime \<Rightarrow> bool" where
  "runtime_init s = (rt_entries s = [] \<and> rt_updates s = [])"

text \<open>
  \<open>budget\<close> and \<open>maxPending\<close> are the configured total spend and pending limit, which the published
  policy does not change. The id of a new entry is fresh, as \<open>randomUUID\<close> makes it. A crash of a
  process between two steps is the absence of its next step: every write is one step.
\<close>

inductive runtime_step :: "string \<Rightarrow> string \<Rightarrow> int \<Rightarrow> runtime \<Rightarrow> runtime \<Rightarrow> bool"
  for wallet :: string and budget :: string and maxPending :: int where
  step_plan: "plan wallet d it decisionId quoteTime slippage env snapshot (rt_entries s) = ok (r, es) \<Longrightarrow>
    wf_deployment d \<Longrightarrow> pc_spendTotal (en_policy env) = budget \<Longrightarrow> pc_maxPending (en_policy env) = maxPending \<Longrightarrow>
    find_entry (rt_entries s) (en_id env) = None \<Longrightarrow>
    runtime_step wallet budget maxPending s (s\<lparr>rt_entries := es\<rparr>)"
| step_sign: "sign wallet d senv i (rt_entries s) = ok (out, es) \<Longrightarrow>
    runtime_step wallet budget maxPending s (s\<lparr>rt_entries := es\<rparr>)"
| step_broadcast: "runtime_step wallet budget maxPending s (s\<lparr>rt_entries := broadcast_done i now (rt_entries s)\<rparr>)"
| step_read: "find_entry (rt_entries s) i = Some e \<Longrightarrow> reconcile_read wallet renv (Some e) = ok (Rec_update u) \<Longrightarrow>
    runtime_step wallet budget maxPending s (s\<lparr>rt_updates := (i, je_status e, u) # rt_updates s\<rparr>)"
| step_apply: "(i, st, u) \<in> set (rt_updates s) \<Longrightarrow>
    runtime_step wallet budget maxPending s (s\<lparr>rt_entries := reconcile_apply i st u (rt_entries s)\<rparr>)"
| step_report: "runtime_step wallet budget maxPending s (s\<lparr>rt_entries := report_done i reply (rt_entries s)\<rparr>)"

inductive_cases runtime_stepE [elim]: "runtime_step wallet budget maxPending s t"

section \<open>What an entry may become\<close>

text \<open>The statuses an entry may reach.\<close>

fun may_become :: "journal_status \<Rightarrow> journal_status \<Rightarrow> bool" where
  "may_become Planned _ = True"
| "may_become Signed t = (t \<noteq> Planned \<and> t \<noteq> Abandoned)"
| "may_become Broadcast t = (t \<noteq> Planned \<and> t \<noteq> Signed \<and> t \<noteq> Abandoned)"
| "may_become s t = (t = s)"

lemma may_become_refl [simp]: "may_become s s"
  by (cases s) simp_all

lemma may_become_trans: "may_become s t \<Longrightarrow> may_become t u \<Longrightarrow> may_become s u"
  by (cases s; cases t) simp_all

definition same_intent :: "journal_entry \<Rightarrow> journal_entry \<Rightarrow> bool" where
  "same_intent x y = (je_id y = je_id x \<and> je_action y = je_action x \<and> je_namespace y = je_namespace x
     \<and> je_pool y = je_pool x \<and> je_claim y = je_claim x \<and> je_quantity y = je_quantity x \<and> je_limit y = je_limit x
     \<and> je_deadline y = je_deadline x \<and> je_to y = je_to x \<and> je_data y = je_data x \<and> je_gas y = je_gas x
     \<and> je_maxFee y = je_maxFee x \<and> je_priorityFee y = je_priorityFee x \<and> je_plannedAt y = je_plannedAt x)"

text \<open>The intent never changes, signed bytes never change, and a final entry only has its report
  updated.\<close>

definition evolves :: "journal_entry \<Rightarrow> journal_entry \<Rightarrow> bool" where
  "evolves x y = (same_intent x y \<and> may_become (je_status x) (je_status y)
     \<and> (je_status x \<noteq> Planned \<longrightarrow> je_nonce y = je_nonce x \<and> je_raw y = je_raw x \<and> je_hash y = je_hash x)
     \<and> (isFinal x \<longrightarrow> y\<lparr>je_report := je_report x\<rparr> = x))"

lemma evolves_refl [simp]: "evolves x x"
  by (simp add: evolves_def same_intent_def)

lemma final_stays: "may_become s t \<Longrightarrow> \<not> unfinished s \<Longrightarrow> t = s"
  by (cases s) (auto simp: unfinished_iff)

lemma planned_start: "may_become s Planned \<Longrightarrow> s = Planned"
  by (cases s) auto

lemma evolves_trans:
  assumes xy: "evolves x y" and yz: "evolves y z"
  shows "evolves x z"
proof -
  have "je_status y \<noteq> Planned" if "je_status x \<noteq> Planned"
    using that xy planned_start by (auto simp: evolves_def)
  then have bytes: "je_status x \<noteq> Planned \<longrightarrow> je_nonce z = je_nonce x \<and> je_raw z = je_raw x \<and> je_hash z = je_hash x"
    using xy yz by (simp add: evolves_def)
  have fin: "z\<lparr>je_report := je_report x\<rparr> = x" if f: "isFinal x"
  proof -
    have "je_status y = je_status x" using xy f final_stays by (auto simp: evolves_def isFinal_iff)
    then have "isFinal y" using f by (simp add: isFinal_iff)
    then have "z\<lparr>je_report := je_report y\<rparr> = y" "y\<lparr>je_report := je_report x\<rparr> = x"
      using xy yz f by (simp_all add: evolves_def)
    then show ?thesis by (cases x; cases y; cases z) simp
  qed
  show ?thesis using xy yz bytes fin may_become_trans
    by (auto simp: evolves_def same_intent_def)
qed


section \<open>What each operation does to an entry\<close>

lemma plan_cases:
  assumes "plan wallet d it decisionId quoteTime slippage env snapshot es = ok (r, es')"
  obtains (unchanged) "es' = es"
  | (added) tx gas holdings where "es' = push_entry (new_entry d it decisionId env gas tx) es"
      "buildTransaction it d wallet = ok tx" "plan_violations d it quoteTime slippage env gas holdings es = ok []"
      "0 < gas" "gas \<le> MAX_GAS"
  using assms unfolding plan_def
  by (auto simp: Let_def split: if_splits option.splits)

lemma sign_cases:
  assumes "sign wallet d senv i es = ok (out, es')"
  obtains (unchanged) "es' = es" "out = None"
  | (abandoned) e msg where "find_entry es i = Some e" "je_status e = Planned" "out = None"
      "es' = update_entry i (abandon (sg_now senv) msg) es"
  | (signed) e it gas maxFee priority raw where "find_entry es i = Some e" "je_status e = Planned"
      "sg_allowed senv" "je_action e = Buy \<longrightarrow> sg_semantic senv = None" "intentOf e = ok it"
      "validateTransaction \<lparr>tx_chainId = 10143, tx_from = wallet, tx_to = je_to e, tx_data = je_data e, tx_value = 0\<rparr>
         it d wallet = ok ()"
      "raw = sg_signer senv \<lparr>ut_chainId = 10143, ut_nonce = next_nonce senv es, ut_to = je_to e, ut_data = je_data e,
         ut_value = 0, ut_gas = gas, ut_maxFee = maxFee, ut_priorityFee = priority\<rparr>"
      "out = Some (mark_signed senv (next_nonce senv es) raw e)"
      "es' = update_entry i (mark_signed senv (next_nonce senv es) raw) es"
proof (cases "find_entry es i")
  case None
  then show thesis using assms by (intro unchanged) (simp_all add: sign_def)
next
  case (Some e)
  note d = assms [unfolded sign_def Some option.case]
  show thesis
  proof (cases "je_status e = Planned")
    case False
    then show thesis using d by (intro unchanged) simp_all
  next
    case planned: True
    show thesis
    proof (cases "\<not> sg_allowed senv \<or> (je_action e = Buy \<and> sg_semantic senv \<noteq> None)")
      case True
      then show thesis using d planned by (auto intro: abandoned [OF Some planned] split: if_splits)
    next
      case False
      then have ok: "sg_allowed senv" "je_action e = Buy \<longrightarrow> sg_semantic senv = None" by auto
      have claim: "\<not> (je_action e = Buy \<and> je_claim e = None)"
        using d planned ok by (auto split: if_splits)
      let ?raw = "\<lambda>gas maxFee priority. sg_signer senv \<lparr>ut_chainId = 10143, ut_nonce = next_nonce senv es,
        ut_to = je_to e, ut_data = je_data e, ut_value = 0, ut_gas = gas, ut_maxFee = maxFee, ut_priorityFee = priority\<rparr>"
      have "\<exists>it gas maxFee priority. intentOf e = ok it
        \<and> validateTransaction \<lparr>tx_chainId = 10143, tx_from = wallet, tx_to = je_to e, tx_data = je_data e, tx_value = 0\<rparr>
            it d wallet = ok ()
        \<and> out = Some (mark_signed senv (next_nonce senv es) (?raw gas maxFee priority) e)
        \<and> es' = update_entry i (mark_signed senv (next_nonce senv es) (?raw gas maxFee priority)) es"
        using d planned ok claim unfolding Let_def by (simp split: if_splits) blast
      then show thesis using signed [OF Some planned ok] by blast
    qed
  qed
qed

text \<open>The updates a reconciliation can put in flight.\<close>

definition update_fits :: "string \<Rightarrow> journal_entry \<Rightarrow> entry_update \<Rightarrow> bool" where
  "update_fits wallet e u = (case u of
     Upd_verify st c note now \<Rightarrow> (je_status e = Signed \<or> je_status e = Broadcast)
       \<and> (st = Mismatch \<or> st = Confirmed \<and> (\<exists>status logs allowance.
            verifyEffect (exec_intent_of wallet e) status logs allowance = ok (Effect_confirmed c)))
   | Upd_release st note now \<Rightarrow> (je_status e = Planned \<and> st = Abandoned)
       \<or> ((je_status e = Signed \<or> je_status e = Broadcast) \<and> (st = Reverted \<or> st = Replaced \<or> st = Expired))
   | Upd_poll now \<Rightarrow> je_status e = Signed)"

lemma recoveryStep_cases:
  "recoveryStep e v now = (st, a) \<Longrightarrow>
    (a = Release \<longrightarrow> (re_status e = Planned \<and> st = Abandoned)
       \<or> ((re_status e = Signed \<or> re_status e = Broadcast) \<and> (st = Reverted \<or> st = Replaced \<or> st = Expired)))
    \<and> (a = Verify \<longrightarrow> re_status e = Signed \<or> re_status e = Broadcast)"
  by (cases "re_status e") (auto simp: recoveryStep_def FINAL_def split: if_splits option.splits)

lemma reconcile_read_fits:
  assumes "reconcile_read wallet env (Some e) = ok (Rec_update u)"
  shows "update_fits wallet e u \<and> \<not> isFinal e"
proof -
  have nf: "\<not> isFinal e" using assms by (auto simp: reconcile_read_def)
  define receipt where "receipt = (if je_hash e = None then None else rc_receipt env)"
  obtain st a where r: "recoveryStep \<lparr>re_status = je_status e, re_nonce = je_nonce e, re_deadline = je_deadline e\<rparr>
      \<lparr>cv_txFound = (je_hash e \<noteq> None \<and> (receipt \<noteq> None \<or> rc_txPresent env)),
       cv_receiptStatus = map_option (\<lambda>r. cr_status r = 1) (settled env receipt),
       cv_nonceLatest = rc_nonceLatest env\<rparr> (rc_headTime env) = (st, a)"
    by (cases "recoveryStep \<lparr>re_status = je_status e, re_nonce = je_nonce e, re_deadline = je_deadline e\<rparr>
      \<lparr>cv_txFound = (je_hash e \<noteq> None \<and> (receipt \<noteq> None \<or> rc_txPresent env)),
       cv_receiptStatus = map_option (\<lambda>r. cr_status r = 1) (settled env receipt),
       cv_nonceLatest = rc_nonceLatest env\<rparr> (rc_headTime env)") auto
  note cases = recoveryStep_cases [OF r, simplified]
  note out = assms [unfolded reconcile_read_def option.case Let_def receipt_def [symmetric] r prod.case]
  have "update_fits wallet e u"
  proof (cases "a = Verify \<and> receipt \<noteq> None")
    case True
    then obtain rc effect al where eff: "verifyEffect (exec_intent_of wallet e) (cr_status rc) (cr_logs rc) al = ok effect"
      and u: "u = (case effect of Effect_confirmed c \<Rightarrow> Upd_verify Confirmed c (note_of rc) (rc_now env)
         | Effect_mismatch \<Rightarrow> Upd_verify Mismatch None (note_of rc) (rc_now env))"
      using out nf by (auto split: if_splits)
    have "je_status e = Signed \<or> je_status e = Broadcast" using cases True by simp
    then show ?thesis using eff by (cases effect) (auto simp: u update_fits_def)
  next
    case False
    then show ?thesis using out nf cases
      by (cases a; cases receipt) (auto simp: update_fits_def split: if_splits)
  qed
  then show ?thesis using nf by simp
qed


section \<open>The invariant\<close>

text \<open>What an entry counts toward spending: \<open>spendOf\<close> without the parsing.\<close>

definition spend :: "journal_entry \<Rightarrow> int" where
  "spend e = (if je_action e \<noteq> Buy then 0
     else if je_status e = Confirmed then amt (cost_or_zero (je_cost e))
     else if unfinished (je_status e) \<or> je_status e = Mismatch then amt (je_limit e) else 0)"

lemma spendOf_spend: "spendOf (policy_entry_of e) = ok a \<Longrightarrow> a = spend e"
  by (auto simp: spendOf_def spend_def policy_entry_of_def dest: n_of_amt split: if_splits)

definition money :: "journal_entry list \<Rightarrow> int" where
  "money es = sum_list (map spend es)"

definition pending :: "journal_entry list \<Rightarrow> int" where
  "pending es = sum_list (map (\<lambda>e. if isFinal e then 0 else 1) es)"

lemma pending_count: "pending es = int (length (filter (\<lambda>e. \<not> isFinal e) es))"
  by (induction es) (auto simp: pending_def)

lemma sumE_spend: "sumE spendOf (policyEntries es) = ok a \<Longrightarrow> a = money es"
  by (induction es arbitrary: a) (auto simp: policyEntries_def money_def dest: spendOf_spend)

definition entry_inv :: "journal_entry \<Rightarrow> bool" where
  "entry_inv e = ((je_action e = Buy \<longrightarrow> is_canon_dec (je_limit e)
       \<and> (je_status e = Confirmed \<longrightarrow> is_canon_dec (cost_or_zero (je_cost e))
            \<and> amt (cost_or_zero (je_cost e)) \<le> amt (je_limit e)))
     \<and> (je_status e = Planned \<longrightarrow> je_nonce e = None \<and> je_raw e = None \<and> je_hash e = None)
     \<and> (je_status e = Signed \<or> je_status e = Broadcast \<longrightarrow> je_nonce e \<noteq> None \<and> je_raw e \<noteq> None \<and> je_hash e \<noteq> None))"

lemma spendOf_entry: "entry_inv e \<Longrightarrow> spendOf (policy_entry_of e) = ok (spend e)"
  by (cases "je_action e")
    (auto simp: spendOf_def spend_def policy_entry_of_def entry_inv_def n_of_ok_iff amt_def)

lemma sumE_entries: "list_all entry_inv es \<Longrightarrow> sumE spendOf (policyEntries es) = ok (money es)"
  by (induction es) (simp_all add: policyEntries_def money_def spendOf_entry sumE_Cons)

text \<open>No two unfinished entries have the same nonce.\<close>

definition nonces_unique :: "journal_entry list \<Rightarrow> bool" where
  "nonces_unique es = (\<forall>x\<in>set es. \<forall>y\<in>set es. \<not> isFinal x \<and> \<not> isFinal y \<and> je_nonce x \<noteq> None
     \<and> je_nonce x = je_nonce y \<longrightarrow> je_id x = je_id y)"

definition update_inv :: "string \<Rightarrow> journal_entry list \<Rightarrow> string \<times> journal_status \<times> entry_update \<Rightarrow> bool" where
  "update_inv wallet es = (\<lambda>(i, st, u). \<exists>e x. find_entry es i = Some x \<and> evolves e x \<and> je_status e = st
     \<and> \<not> isFinal e \<and> update_fits wallet e u)"

definition runtime_inv :: "string \<Rightarrow> string \<Rightarrow> int \<Rightarrow> runtime \<Rightarrow> bool" where
  "runtime_inv wallet budget maxPending s = (let es = rt_entries s in
     distinct (map je_id es) \<and> list_all entry_inv es \<and> money es \<le> amt budget \<and> pending es \<le> max 0 maxPending
     \<and> nonces_unique es \<and> list_all (update_inv wallet es) (rt_updates s))"

definition runtime_later :: "runtime \<Rightarrow> runtime \<Rightarrow> bool" where
  "runtime_later s t = (\<forall>i x. find_entry (rt_entries s) i = Some x \<longrightarrow>
     (\<exists>y. find_entry (rt_entries t) i = Some y \<and> evolves x y))"

lemma runtime_later_refl: "runtime_later s s"
  by (auto simp: runtime_later_def)

lemma runtime_later_trans: "runtime_later s t \<Longrightarrow> runtime_later t u \<Longrightarrow> runtime_later s u"
  unfolding runtime_later_def using evolves_trans by blast

lemma evolves_id: "evolves x y \<Longrightarrow> je_id y = je_id x"
  by (simp add: evolves_def same_intent_def)

lemma evolves_final: "evolves x y \<Longrightarrow> isFinal x \<Longrightarrow> isFinal y"
  unfolding evolves_def isFinal_iff using final_stays by metis

text \<open>An update in flight stays valid when the entries evolve.\<close>

lemma update_inv_later:
  assumes "list_all (update_inv wallet es) us"
    and "\<And>i x. find_entry es i = Some x \<Longrightarrow> \<exists>y. find_entry es' i = Some y \<and> evolves x y"
  shows "list_all (update_inv wallet es') us"
  using assms evolves_trans unfolding list_all_iff update_inv_def by (fast dest: assms(2))

text \<open>One entry changes.\<close>

lemma inv_update:
  assumes inv: "runtime_inv wallet budget maxPending s" and x: "find_entry (rt_entries s) i = Some x"
    and key: "\<And>v. je_id (f v) = je_id v" and ev: "evolves x (f x)" and good: "entry_inv (f x)"
    and cheap: "spend (f x) \<le> spend x"
    and nonce: "isFinal (f x) \<or> je_nonce (f x) = je_nonce x
      \<or> (\<forall>y\<in>set (rt_entries s). \<not> isFinal y \<longrightarrow> je_nonce y \<noteq> je_nonce (f x))"
  shows "runtime_inv wallet budget maxPending (s\<lparr>rt_entries := update_entry i f (rt_entries s)\<rparr>)
    \<and> runtime_later s (s\<lparr>rt_entries := update_entry i f (rt_entries s)\<rparr>)"
proof -
  let ?es = "rt_entries s" and ?es' = "update_entry i f (rt_entries s)"
  note I = inv [unfolded runtime_inv_def Let_def]
  have x': "lookup_by je_id ?es i = Some x" using x by (simp add: find_entry_def)
  have xin: "x \<in> set ?es" using lookup_by_SomeD [OF x'] by simp
  have later: "\<exists>y. find_entry ?es' k = Some y \<and> evolves v y" if "find_entry ?es k = Some v" for k v
    using that x by (intro entries.update_tracks) (auto simp: key ev)
  have members: "y \<in> set ?es' \<Longrightarrow> (y \<in> set ?es \<and> je_id y \<noteq> i) \<or> y = f x" for y
    using update_by_cases [of je_id ?es y i f] I x' by (auto simp: update_entry_def)
  have "distinct (map je_id ?es')" using I by (simp add: update_entry_def map_key_update key)
  moreover have "list_all entry_inv ?es'" using I good members by (auto simp: list_all_iff)
  moreover have "money ?es' \<le> amt budget"
    using I cheap sum_update_by [OF x', of spend f] by (simp add: money_def update_entry_def)
  moreover have "pending ?es' \<le> pending ?es"
    using sum_update_by [OF x', of "\<lambda>e. if isFinal e then 0 else 1" f] evolves_final [OF ev]
    by (auto simp: pending_def update_entry_def)
  moreover have "nonces_unique ?es'"
    unfolding nonces_unique_def
  proof (intro ballI impI)
    fix y z assume yz: "y \<in> set ?es'" "z \<in> set ?es'"
      and h: "\<not> isFinal y \<and> \<not> isFinal z \<and> je_nonce y \<noteq> None \<and> je_nonce y = je_nonce z"
    have old: "je_id u = je_id v" if "u \<in> set ?es" "v \<in> set ?es" "\<not> isFinal u" "\<not> isFinal v"
        "je_nonce u \<noteq> None" "je_nonce u = je_nonce v" for u v
      using I that unfolding nonces_unique_def by blast
    have "\<not> isFinal x" if "\<not> isFinal (f x)" using that ev evolves_final by blast
    then show "je_id y = je_id z"
      using members [OF yz(1)] members [OF yz(2)] h old xin nonce key by metis
  qed
  moreover have "list_all (update_inv wallet ?es') (rt_updates s)"
    by (rule update_inv_later [OF _ later]) (use I in auto)
  ultimately show ?thesis
    using I later by (auto simp: runtime_inv_def Let_def runtime_later_def)
qed


section \<open>Every step keeps the invariant\<close>

lemma inv_unchanged:
  "runtime_inv wallet budget maxPending s \<Longrightarrow>
    runtime_inv wallet budget maxPending (s\<lparr>rt_entries := rt_entries s\<rparr>) \<and> runtime_later s (s\<lparr>rt_entries := rt_entries s\<rparr>)"
  by (simp add: runtime_later_refl)

lemma inv_entry: "runtime_inv wallet budget maxPending s \<Longrightarrow> find_entry (rt_entries s) i = Some x \<Longrightarrow> entry_inv x"
  using lookup_by_SomeD [of je_id "rt_entries s" i x]
  by (auto simp: runtime_inv_def Let_def list_all_iff find_entry_def)

lemma amt_nonneg [simp]: "0 \<le> amt s"
  by (simp add: amt_def)

lemma spend_nonneg: "0 \<le> spend e"
  by (simp add: spend_def)

lemma int_str_canon: "is_canon_dec (int_str v) \<Longrightarrow> 0 \<le> v"
proof (rule ccontr)
  assume c: "is_canon_dec (int_str v)" and "\<not> 0 \<le> v"
  then have "is_dec CHR ''-''" by (simp add: int_str_def is_canon_dec_def)
  then show False by (simp add: is_dec_def code_def)
qed

lemma amt_int_str [simp]: "0 \<le> v \<Longrightarrow> amt (int_str v) = v"
  by (simp add: amt_def int_str_nonneg)

text \<open>An accepted plan leaves room for the entry it adds.\<close>

lemma plan_violations_room:
  assumes "plan_violations d it quoteTime slippage env gas holdings es = ok []"
  shows "pending es < pc_maxPending (en_policy env)"
    and "intent_action it = Buy \<Longrightarrow> is_canon_dec (intent_limit it)
      \<and> money es + amt (intent_limit it) \<le> amt (pc_spendTotal (en_policy env))"
proof -
  have count: "length (filter (\<lambda>e. unfinished (pe_status e)) (policyEntries es)) = length (filter (\<lambda>e. \<not> isFinal e) es)"
    by (induction es) (auto simp: policyEntries_def policy_entry_of_def isFinal_iff)
  have trade: "pending es < pc_maxPending (en_policy env) \<and> (intent_action it = Buy \<longrightarrow> is_canon_dec (intent_limit it)
      \<and> money es + amt (intent_limit it) \<le> amt (pc_spendTotal (en_policy env)))"
    if acc: "evaluatePolicy (plan_input d it quoteTime slippage env gas holdings es c) = ok []" for c
  proof -
    let ?inp = "plan_input d it quoteTime slippage env gas holdings es c"
    obtain q l h where co: "common_ok ?inp q l h" and bo: "ca_action (pi_candidate ?inp) = Buy \<longrightarrow> buy_ok ?inp q l h"
      using acc unfolding evaluatePolicy_accepts accepts_def by blast
    have 1: "pending es < pc_maxPending (en_policy env)" and l: "n_of (intent_limit it) = ok l"
      using co by (auto simp: common_ok_def Let_def plan_input_def count pending_count)
    have "is_canon_dec (intent_limit it) \<and> money es + amt (intent_limit it) \<le> amt (pc_spendTotal (en_policy env))"
      if buy: "intent_action it = Buy"
    proof -
      have "buy_ok ?inp q l h" using bo buy by (simp add: plan_input_def)
      then obtain spent t where s: "sumE spendOf (policyEntries es) = ok spent"
        and t: "n_of (pc_spendTotal (en_policy env)) = ok t" and le: "spent + l \<le> t"
        unfolding buy_ok_def Let_def plan_input_def by auto
      show ?thesis using sumE_spend [OF s] n_of_amt [OF t] n_of_amt [OF l] l le by (simp add: n_of_ok_iff)
    qed
    with 1 show ?thesis by blast
  qed
  have all: "pending es < pc_maxPending (en_policy env) \<and> (intent_action it = Buy \<longrightarrow> is_canon_dec (intent_limit it)
      \<and> money es + amt (intent_limit it) \<le> amt (pc_spendTotal (en_policy env)))"
  proof (cases it)
    case (Approve_intent a)
    then show ?thesis using assms
      by (auto simp: plan_violations_def approve_violations_def Let_def pending_count not_le)
  next
    case (Redeem_intent sc m q)
    then show ?thesis using assms trade by (simp add: plan_violations_def)
  next
    case (Trade_intent side sc m q l t)
    then show ?thesis using assms trade by (simp add: plan_violations_def)
  qed
  show "pending es < pc_maxPending (en_policy env)" using all by blast
  show "intent_action it = Buy \<Longrightarrow> is_canon_dec (intent_limit it)
      \<and> money es + amt (intent_limit it) \<le> amt (pc_spendTotal (en_policy env))" using all by blast
qed

lemma inv_push:
  assumes inv: "runtime_inv wallet budget maxPending s" and fresh: "find_entry (rt_entries s) (je_id e) = None"
    and e: "je_status e = Planned" "entry_inv e" "money (rt_entries s) + spend e \<le> amt budget"
      "pending (rt_entries s) < maxPending"
  shows "runtime_inv wallet budget maxPending (s\<lparr>rt_entries := push_entry e (rt_entries s)\<rparr>)
    \<and> runtime_later s (s\<lparr>rt_entries := push_entry e (rt_entries s)\<rparr>)"
proof -
  let ?es = "rt_entries s" and ?es' = "push_entry e (rt_entries s)"
  note I = inv [unfolded runtime_inv_def Let_def]
  have later: "\<exists>y. find_entry ?es' k = Some y \<and> evolves v y" if "find_entry ?es k = Some v" for k v
    using entries.present_after_add [OF that] by auto
  have nf: "\<not> isFinal e" using e(1) by (simp add: isFinal_iff unfinished_iff)
  have "je_id e \<notin> je_id ` set ?es" using fresh by (simp add: find_entry_def lookup_by_None)
  then have "distinct (map je_id ?es')" using I by (simp add: push_entry_def)
  moreover have "je_nonce e = None" using e by (simp add: entry_inv_def)
  have "nonces_unique ?es'"
    unfolding nonces_unique_def
  proof (intro ballI impI)
    fix y z assume yz: "y \<in> set ?es'" "z \<in> set ?es'"
      and h: "\<not> isFinal y \<and> \<not> isFinal z \<and> je_nonce y \<noteq> None \<and> je_nonce y = je_nonce z"
    have "y \<in> set ?es" "z \<in> set ?es"
      using yz h \<open>je_nonce e = None\<close> by (auto simp: push_entry_def)
    then show "je_id y = je_id z" using I h unfolding nonces_unique_def by blast
  qed
  moreover have "list_all entry_inv ?es'" using I e(2) by (simp add: push_entry_def)
  moreover have "money ?es' \<le> amt budget" using e(3) by (simp add: money_def push_entry_def)
  moreover have "pending ?es' \<le> max 0 maxPending" using e(4) nf by (simp add: pending_def push_entry_def)
  moreover have "runtime_later s (s\<lparr>rt_entries := ?es'\<rparr>)" using later by (simp add: runtime_later_def)
  moreover have "list_all (update_inv wallet ?es') (rt_updates s)"
    by (rule update_inv_later [OF _ later]) (use I in auto)
  ultimately show ?thesis by (simp add: runtime_inv_def Let_def)
qed

lemma inv_plan:
  assumes inv: "runtime_inv wallet budget maxPending s"
    and p: "plan w d it decisionId quoteTime slippage env snapshot (rt_entries s) = ok (r, es)"
      "pc_spendTotal (en_policy env) = budget" "pc_maxPending (en_policy env) = maxPending"
      "find_entry (rt_entries s) (en_id env) = None"
  shows "runtime_inv wallet budget maxPending (s\<lparr>rt_entries := es\<rparr>) \<and> runtime_later s (s\<lparr>rt_entries := es\<rparr>)"
  using p(1)
proof (cases rule: plan_cases)
  case unchanged
  then show ?thesis using inv_unchanged [OF inv] by simp
next
  case (added tx gas holdings)
  let ?e = "new_entry d it decisionId env gas tx"
  note room = plan_violations_room [OF added(3)]
  have "entry_inv ?e" using room(2) by (auto simp: entry_inv_def new_entry_def)
  moreover have "money (rt_entries s) + spend ?e \<le> amt budget"
  proof (cases "intent_action it = Buy")
    case True
    then show ?thesis using room(2) p(2) by (simp add: spend_def new_entry_def unfinished_iff)
  next
    case False
    then show ?thesis using inv by (simp add: runtime_inv_def Let_def spend_def new_entry_def)
  qed
  ultimately show ?thesis unfolding added(1)
    using room(1) p by (intro inv_push [OF inv]) (simp_all add: new_entry_def)
qed


lemma entry_kept [simp]:
  "je_id (abandon now msg e) = je_id e" "je_id (mark_signed senv n raw e) = je_id e"
  "je_id (mark_broadcast now e) = je_id e" "je_id (apply_update u e) = je_id e" "je_id (reported reply e) = je_id e"
  by (simp_all add: abandon_def mark_signed_def mark_broadcast_def reported_def, cases u, simp_all)

lemma highest_nonce_ge:
  assumes "x \<in> set es" "\<not> isFinal x" "je_nonce x = Some n"
  shows "n \<le> highest_nonce es"
proof -
  have ge: "a \<le> foldl max a ns \<and> (\<forall>n\<in>set ns. n \<le> foldl max a ns)" for a :: int and ns
    by (induction ns arbitrary: a) (auto, fastforce+)
  have "n \<in> set (List.map_filter je_nonce (filter (\<lambda>e. \<not> isFinal e) es))"
    using assms by (auto simp: map_filter_def intro!: image_eqI [of _ _ x])
  then show ?thesis using ge unfolding highest_nonce_def by blast
qed

lemma next_nonce_fresh:
  "x \<in> set es \<Longrightarrow> \<not> isFinal x \<Longrightarrow> je_nonce x \<noteq> Some (next_nonce senv es)"
  using highest_nonce_ge [of x es "next_nonce senv es"] by (auto simp: next_nonce_def)

lemma next_nonce_above:
  assumes "x \<in> set es" "\<not> isFinal x" "je_nonce x = Some n"
  shows "n < next_nonce senv es"
  using highest_nonce_ge [OF assms] by (simp add: next_nonce_def less_max_iff_disj)

lemma inv_sign:
  assumes inv: "runtime_inv wallet budget maxPending s" and p: "sign w d senv i (rt_entries s) = ok (out, es)"
  shows "runtime_inv wallet budget maxPending (s\<lparr>rt_entries := es\<rparr>) \<and> runtime_later s (s\<lparr>rt_entries := es\<rparr>)"
  using p
proof (cases rule: sign_cases)
  case unchanged
  then show ?thesis using inv_unchanged [OF inv] by simp
next
  case (abandoned e msg)
  note e = inv_entry [OF inv abandoned(1)]
  show ?thesis unfolding abandoned(4)
    using e abandoned(2) spend_nonneg [of e]
    by (intro inv_update [OF inv abandoned(1)])
      (auto simp: abandon_def evolves_def same_intent_def entry_inv_def isFinal_iff unfinished_iff spend_def)
next
  case (signed e it gas maxFee priority raw)
  note e = inv_entry [OF inv signed(1)]
  show ?thesis unfolding signed(9)
    using e signed(2) next_nonce_fresh [of _ "rt_entries s" senv]
    by (intro inv_update [OF inv signed(1)])
      (auto simp: mark_signed_def evolves_def same_intent_def entry_inv_def isFinal_iff unfinished_iff spend_def)
qed

lemma update_absent: "find_entry es i = None \<Longrightarrow> update_entry i f es = es"
  by (simp add: find_entry_def update_entry_def update_by_absent)

lemma inv_broadcast:
  assumes inv: "runtime_inv wallet budget maxPending s"
  shows "runtime_inv wallet budget maxPending (s\<lparr>rt_entries := broadcast_done i now (rt_entries s)\<rparr>)
    \<and> runtime_later s (s\<lparr>rt_entries := broadcast_done i now (rt_entries s)\<rparr>)"
proof (cases "find_entry (rt_entries s) i")
  case None
  then show ?thesis using inv_unchanged [OF inv] by (simp add: broadcast_done_def update_absent)
next
  case (Some e)
  note e = inv_entry [OF inv Some]
  show ?thesis unfolding broadcast_done_def
    using e by (intro inv_update [OF inv Some])
      (auto simp: mark_broadcast_def evolves_def same_intent_def entry_inv_def isFinal_iff unfinished_iff spend_def)
qed

lemma inv_report:
  assumes inv: "runtime_inv wallet budget maxPending s"
  shows "runtime_inv wallet budget maxPending (s\<lparr>rt_entries := report_done i reply (rt_entries s)\<rparr>)
    \<and> runtime_later s (s\<lparr>rt_entries := report_done i reply (rt_entries s)\<rparr>)"
proof (cases "find_entry (rt_entries s) i")
  case None
  then show ?thesis using inv_unchanged [OF inv] by (simp add: report_done_def update_absent)
next
  case (Some e)
  note e = inv_entry [OF inv Some]
  show ?thesis unfolding report_done_def
    using e by (intro inv_update [OF inv Some])
      (auto simp: reported_def evolves_def same_intent_def entry_inv_def isFinal_iff spend_def)
qed

text \<open>A confirmed buy cost at most the limit it was reserved with.\<close>

lemma confirmed_within_limit:
  assumes "verifyEffect (exec_intent_of wallet e) status logs allowance = ok (Effect_confirmed c)"
    and "je_action e = Buy" and "is_canon_dec (je_limit e)"
  shows "is_canon_dec (cost_or_zero c) \<and> amt (cost_or_zero c) \<le> amt (je_limit e)"
proof -
  have x: "xi_action (exec_intent_of wallet e) = X_buy" "xi_limit (exec_intent_of wallet e) = je_limit e"
    using assms(2) by (simp_all add: exec_intent_of_def)
  obtain amount limit where a: "c = Some (int_str amount)" "0 \<le> amount"
    and l: "big_of_string (xi_limit (exec_intent_of wallet e)) = ok limit" "amount \<le> limit"
    using confirmed_buy_cost [OF assms(1) x(1)] .
  have "limit = amt (je_limit e)" using l(1) x(2) assms(3) by (simp add: big_of_canon amt_def)
  moreover have "is_canon_dec (int_str amount)" using a(2) by (simp add: int_str_nonneg)
  ultimately show ?thesis using a l(2) by (simp add: cost_or_zero_def)
qed

lemma fits_transfer:
  assumes "evolves e x" "je_status x = je_status e" "update_fits wallet e u"
  shows "update_fits wallet x u"
proof -
  have "exec_intent_of wallet x = exec_intent_of wallet e"
    using assms(1) by (simp add: evolves_def same_intent_def exec_intent_of_def)
  then show ?thesis using assms(2,3) by (cases u) (simp_all add: update_fits_def)
qed

lemma inv_apply:
  assumes inv: "runtime_inv wallet budget maxPending s" and u: "(i, st, u) \<in> set (rt_updates s)"
  shows "runtime_inv wallet budget maxPending (s\<lparr>rt_entries := reconcile_apply i st u (rt_entries s)\<rparr>)
    \<and> runtime_later s (s\<lparr>rt_entries := reconcile_apply i st u (rt_entries s)\<rparr>)"
proof -
  obtain e x where x: "find_entry (rt_entries s) i = Some x" and ev: "evolves e x" "je_status e = st"
    and fits: "update_fits wallet e u"
    using inv u unfolding runtime_inv_def Let_def list_all_iff update_inv_def by fast
  show ?thesis
  proof (cases "je_status x = st")
    case False
    then show ?thesis using inv_unchanged [OF inv] x by (simp add: reconcile_apply_def)
  next
    case True
    have f: "update_fits wallet x u" using fits_transfer [OF ev(1)] True ev(2) fits by simp
    note good = inv_entry [OF inv x]
    have "evolves x (apply_update u x) \<and> entry_inv (apply_update u x) \<and> spend (apply_update u x) \<le> spend x
        \<and> je_nonce (apply_update u x) = je_nonce x"
    proof (cases u)
      case (Upd_verify status c msg now)
      have st: "je_status x = Signed \<or> je_status x = Broadcast" "status = Mismatch \<or> status = Confirmed"
        using f by (auto simp: Upd_verify update_fits_def)
      have "is_canon_dec (cost_or_zero c) \<and> amt (cost_or_zero c) \<le> amt (je_limit x)" if cb: "status = Confirmed" "je_action x = Buy"
      proof -
        obtain rs logs al where "verifyEffect (exec_intent_of wallet x) rs logs al = ok (Effect_confirmed c)"
          using f cb(1) by (auto simp: Upd_verify update_fits_def)
        then show ?thesis using good cb(2) by (intro confirmed_within_limit) (auto simp: entry_inv_def)
      qed
      then show ?thesis using st good unfolding Upd_verify apply_update.simps
        by (auto simp: evolves_def same_intent_def entry_inv_def isFinal_iff unfinished_iff spend_def)
    next
      case (Upd_release status msg now)
      have st: "(je_status x = Planned \<and> status = Abandoned)
          \<or> ((je_status x = Signed \<or> je_status x = Broadcast)
              \<and> (status = Reverted \<or> status = Replaced \<or> status = Expired))"
        using f by (simp add: Upd_release update_fits_def)
      have final: "\<not> unfinished status" "status \<noteq> Mismatch" "status \<noteq> Confirmed"
        using st by (auto simp: unfinished_iff)
      have "may_become (je_status x) status" "unfinished (je_status x)" using st by (auto simp: unfinished_iff)
      then have "evolves x (apply_update u x)"
        unfolding Upd_release apply_update.simps by (simp add: evolves_def same_intent_def isFinal_iff)
      moreover have "spend (apply_update u x) = 0"
        unfolding Upd_release apply_update.simps using final by (simp add: spend_def)
      moreover have "entry_inv (apply_update u x)"
        using good final unfolding Upd_release apply_update.simps by (auto simp: entry_inv_def unfinished_iff)
      moreover have "je_nonce (apply_update u x) = je_nonce x" unfolding Upd_release by simp
      ultimately show ?thesis using spend_nonneg by simp
    next
      case (Upd_poll now)
      have st: "je_status x = Signed" using f by (simp add: Upd_poll update_fits_def)
      show ?thesis using good st unfolding Upd_poll apply_update.simps
        by (simp add: evolves_def same_intent_def entry_inv_def isFinal_iff unfinished_iff spend_def)
    qed
    then show ?thesis using True x
      by (simp add: reconcile_apply_def inv_update [OF inv x])
  qed
qed

lemma inv_read:
  assumes inv: "runtime_inv wallet budget maxPending s" and e: "find_entry (rt_entries s) i = Some e"
    and r: "reconcile_read wallet renv (Some e) = ok (Rec_update u)"
  shows "runtime_inv wallet budget maxPending (s\<lparr>rt_updates := (i, je_status e, u) # rt_updates s\<rparr>)"
proof -
  have "update_inv wallet (rt_entries s) (i, je_status e, u)"
    using e reconcile_read_fits [OF r] evolves_refl unfolding update_inv_def by blast
  then show ?thesis using inv by (simp add: runtime_inv_def Let_def)
qed

lemma inv_runtime_step:
  assumes "runtime_step wallet budget maxPending s t" "runtime_inv wallet budget maxPending s"
  shows "runtime_inv wallet budget maxPending t \<and> runtime_later s t"
  using assms
proof (induction rule: runtime_step.induct)
  case (step_plan d it decisionId quoteTime slippage env snapshot s r es)
  then show ?case by (intro inv_plan) auto
next
  case (step_sign d senv i s out es)
  then show ?case by (intro inv_sign)
next
  case (step_broadcast s i now)
  then show ?case by (intro inv_broadcast)
next
  case (step_read s i e renv u)
  then show ?case using inv_read [OF step_read(3,1,2)] by (auto simp: runtime_later_def)
next
  case (step_apply i st u s)
  then show ?case by (intro inv_apply)
next
  case (step_report s i reply)
  then show ?case by (intro inv_report)
qed

interpretation runtime_system: tracked_system runtime_init "runtime_step wallet budget maxPending"
  "runtime_inv wallet budget maxPending" runtime_later for wallet budget maxPending
proof unfold_locales
  fix s assume "runtime_init s"
  then show "runtime_inv wallet budget maxPending s"
    by (simp add: runtime_init_def runtime_inv_def Let_def money_def pending_def nonces_unique_def)
next
  fix s show "runtime_later s s" by (rule runtime_later_refl)
qed (use inv_runtime_step runtime_later_trans in blast)+

end
