(* ===== verification/Runtime_Laws.thy ===== *)
theory Runtime_Laws
  imports Runtime
begin

text \<open>
  What every run of the runtime keeps: the spending limits, the pending limit, one transaction
  per nonce, and a history that is never rewritten; and what each signature and each
  reconciliation guarantees.
\<close>

section \<open>An example run\<close>

text \<open>A buy is planned on an empty journal and signed.\<close>

definition example_trade :: intent where
  "example_trade = Trade_intent Side_buy 3 8 1000000 400000 1290"

definition example_env :: plan_env where
  "example_env = \<lparr>en_simulates = True, en_gasEstimate = Some 100000, en_maxFeePerGas = 2, en_priorityFee = 1,
     en_native = 10000000, en_headTime = 1000, en_resolved = False, en_holdings = (\<lambda>_ _. ok 0),
     en_policy = example_policy, en_now = 1000, en_id = ''a'', en_owner = (7, ''host'')\<rparr>"

definition example_wallet :: string where
  "example_wallet = ''0x00000000000000000000000000000000000000aa''"

definition example_holdings :: "holding list" where
  "example_holdings = [\<lparr>h_claim = \<lparr>cr_scope = 3, cr_mask = ''8''\<rparr>, h_quantity = ''0''\<rparr>]"

definition example_tx :: tx_request where
  "example_tx = \<lparr>tx_chainId = 10143, tx_from = lower example_wallet, tx_to = intent_to example_trade example_deployment,
     tx_data = calldata (intent_fn example_trade) (intent_args example_trade example_deployment), tx_value = 0\<rparr>"

definition example_entry :: journal_entry where
  "example_entry = new_entry example_deployment example_trade ''d'' example_env 120000 example_tx"

lemma example_trade_ok: "intent_ok example_trade example_deployment"
proof -
  have "args_ok Fn_buy [3, 8, 1000000, 400000, 1290]" by code_simp
  moreover have "\<exists>c'. assertClaim \<lparr>claim_chain = 10143, claim_pool = dep_pool example_deployment, claim_scope = 3,
      claim_mask = 8\<rparr> 3 = ok c'"
    unfolding example_deployment_def deployment.simps by (rule exI) code_simp
  ultimately show ?thesis
    by (simp add: intent_ok_def example_trade_def position_ok_def assertClaim_wf [symmetric] max_quantity_atoms_def
        max_limit_atoms_def) (simp add: example_deployment_def)
qed

lemma example_built: "buildTransaction example_trade example_deployment example_wallet = ok example_tx"
  using example_trade_ok by (simp add: buildTransaction_iff [OF example_deployment_wf] example_tx_def)

lemma example_strings:
  "int_str 8 = ''8''" "int_str 0 = ''0''" "int_str 1000000 = ''1000000''" "int_str 400000 = ''400000''"
  "int_str 120000 = ''120000''" "int_str 2 = ''2''" "int_str 1 = ''1''" "int_str 10000000 = ''10000000''"
  by code_simp+

text \<open>The same buy on an empty journal, with the gas of a plan or of an early check.\<close>

definition example_buy_input :: "string \<Rightarrow> string \<Rightarrow> string \<Rightarrow> string \<Rightarrow> policy_input" where
  "example_buy_input reserve native gas fee = \<lparr>pi_policy = example_policy\<lparr>pc_gasReserve := reserve\<rparr>, pi_now = 1000,
     pi_market = \<lparr>pm_namespace = ''pilot'', pm_pool = example_pool, pm_eventCount = 3, pm_closesAt = 90000,
       pm_open = True, pm_resolved = False\<rparr>,
     pi_native = native, pi_holdings = example_holdings, pi_journal = [],
     pi_candidate = \<lparr>ca_action = Buy, ca_namespace = ''pilot'', ca_claim = \<lparr>cr_scope = 3, cr_mask = ''8''\<rparr>,
       ca_quantity = ''1000000'', ca_limit = ''400000'', ca_slippageBps = 50, ca_quoteTime = 990,
       ca_gasLimit = gas, ca_maxFeePerGas = fee\<rparr>\<rparr>"

lemma example_buy_loss: "worstCaseLoss (example_buy_input reserve native gas fee) = ok 400000"
proof -
  have "add_position \<lparr>cr_scope = 3, cr_mask = ''8''\<rparr> 1000000 []
      = ok [(''3:8'', \<lparr>pos_scope = 3, pos_mask = 8, pos_quantity = 1000000\<rparr>)]" by code_simp
  moreover have "lowest_payout example_pool [\<lparr>pos_scope = 3, pos_mask = 8, pos_quantity = 1000000\<rparr>] 3 = Some 0"
    by code_simp
  moreover have "n_of ''1000000'' = ok 1000000" "n_of ''400000'' = ok 400000" by code_simp+
  ultimately show ?thesis by (simp add: worstCaseLoss_def example_buy_input_def)
qed

lemma example_buy_accepted:
  assumes "n_of reserve = ok r" "n_of native = ok n" "n_of gas = ok g" "n_of fee = ok f" "g * f \<le> 1000000" "r \<le> n - g * f"
  shows "evaluatePolicy (example_buy_input reserve native gas fee) = ok []"
proof -
  have "common_ok (example_buy_input reserve native gas fee) 1000000 400000 0"
  proof -
    have n: "n_of ''1000000'' = ok 1000000" "n_of ''400000'' = ok 400000" "n_of ''5000000'' = ok 5000000" "n_of ''0'' = ok 0"
      by code_simp+
    show ?thesis using assms
      by (simp add: common_ok_def example_buy_input_def example_policy_def example_holdings_def n same_claim_def
          SERVICE_MAX_ATOMS_def)
  qed
  moreover have "trade_cost_ok (example_buy_input reserve native gas fee) 400000"
    by (simp add: trade_cost_ok_def example_buy_input_def example_policy_def n_of_eval)
  moreover have "window_ok (example_buy_input reserve native gas fee) 400000 \<lparr>win_seconds = 86400, win_atoms = ''5000000''\<rparr>"
    by (simp add: window_ok_def example_buy_input_def n_of_eval)
  then have "buy_ok (example_buy_input reserve native gas fee) 1000000 400000 0"
    using example_buy_loss
    by (simp add: buy_ok_def Let_def) (simp add: example_buy_input_def example_policy_def n_of_eval)
  ultimately show ?thesis unfolding evaluatePolicy_accepts accepts_def by blast
qed

lemma example_no_violations:
  "plan_violations example_deployment example_trade (Some 990) 50 example_env 120000 example_holdings [] = ok []"
proof -
  have "plan_input example_deployment example_trade (Some 990) 50 example_env 120000 example_holdings []
      \<lparr>cr_scope = 3, cr_mask = ''8''\<rparr> = example_buy_input ''500'' ''10000000'' ''120000'' ''2''"
    by (simp add: plan_input_def plan_market_def example_buy_input_def example_deployment_def example_trade_def
        example_env_def example_strings policyEntries_def example_pool_def)
      (simp add: example_policy_def)
  moreover have "evaluatePolicy (example_buy_input ''500'' ''10000000'' ''120000'' ''2'') = ok []"
    by (rule example_buy_accepted [of _ 500 _ 10000000 _ 120000 _ 2]; code_simp)
  ultimately show ?thesis
    by (simp add: plan_violations_def example_trade_def example_strings)
qed

lemma example_plan:
  "plan example_wallet example_deployment example_trade ''d'' (Some 990) 50 example_env [] []
    = ok (Plan_entry example_entry, [example_entry])"
proof -
  have "mapE (read_holding example_env) (claims_to_read example_deployment example_trade []) = ok example_holdings"
  proof -
    have "big_of_string ''8'' = ok 8" by code_simp
    then show ?thesis
      by (simp add: claims_to_read_def example_trade_def example_strings read_holding_def example_env_def
          example_holdings_def)
  qed
  moreover have "tdiv (100000 * 120) 100 = 120000" by code_simp
  ultimately show ?thesis using example_built example_no_violations
    by (simp add: plan_def example_env_def [THEN arg_cong, of en_simulates] example_env_def [THEN arg_cong, of en_gasEstimate]
        MAX_GAS_def push_entry_def example_entry_def Let_def)
qed

definition example_sign_env :: sign_env where
  "example_sign_env = \<lparr>sg_allowed = True, sg_reason = None, sg_semantic = None, sg_pendingNonce = 4, sg_now = 1001,
     sg_signer = (\<lambda>tx. ''0x02'' @ drop 2 (ut_data tx)), sg_hash = (\<lambda>raw. take 10 raw)\<rparr>"

lemma example_intent: "intentOf example_entry = ok example_trade"
proof -
  have "big_of_string ''8'' = ok 8" "big_of_string ''1000000'' = ok 1000000" "big_of_string ''400000'' = ok 400000"
    by code_simp+
  then show ?thesis by (simp add: intentOf_def example_entry_def new_entry_def example_trade_def example_strings)
qed

definition example_signed :: journal_entry where
  "example_signed = mark_signed example_sign_env 4 (''0x02'' @ drop 2 (je_data example_entry)) example_entry"

lemma example_sign:
  "sign example_wallet example_deployment example_sign_env ''a'' [example_entry] = ok (Some example_signed, [example_signed])"
proof -
  have e: "je_id example_entry = ''a''" "je_status example_entry = Planned" "je_action example_entry = Buy"
      "je_claim example_entry \<noteq> None" "je_to example_entry = tx_to example_tx" "je_data example_entry = tx_data example_tx"
      "je_gas example_entry = Some ''120000''" "je_maxFee example_entry = Some ''2''" "je_priorityFee example_entry = Some ''1''"
      "je_nonce example_entry = None"
    by (simp_all add: example_entry_def new_entry_def example_trade_def example_env_def example_strings)
  have v: "validateTransaction \<lparr>tx_chainId = 10143, tx_from = example_wallet, tx_to = tx_to example_tx,
      tx_data = tx_data example_tx, tx_value = 0\<rparr> example_trade example_deployment example_wallet = ok ()"
    using example_trade_ok by (simp add: validate_iff [OF example_deployment_wf]
        signed_shape_def example_tx_def lower_constants [OF example_deployment_wf])
  have "big_of_string ''120000'' = ok 120000" "big_of_string ''2'' = ok 2" "big_of_string ''1'' = ok 1" by code_simp+
  moreover have "next_nonce example_sign_env [example_entry] = 4"
    using e by (simp add: next_nonce_def highest_nonce_def example_sign_env_def isFinal_iff unfinished_iff map_filter_def)
  ultimately show ?thesis using e v example_intent
    by (simp add: sign_def find_entry_def update_entry_def big_of_field_def example_signed_def)
       (simp add: example_sign_env_def Let_def)
qed

definition example_before :: runtime where
  "example_before = \<lparr>rt_entries = [], rt_updates = []\<rparr>"

definition example_after :: runtime where
  "example_after = \<lparr>rt_entries = [example_signed], rt_updates = []\<rparr>"

abbreviation example_step :: "runtime \<Rightarrow> runtime \<Rightarrow> bool" where
  "example_step \<equiv> runtime_step example_wallet (pc_spendTotal example_policy) (pc_maxPending example_policy)"

lemma example_run: "example_step\<^sup>*\<^sup>* example_before example_after"
proof -
  let ?m = "\<lparr>rt_entries = [example_entry], rt_updates = []\<rparr>"
  have "example_step example_before (example_before\<lparr>rt_entries := [example_entry]\<rparr>)"
    using example_plan
    by (intro step_plan [where snapshot = "[]" and env = example_env and d = example_deployment])
      (simp_all add: example_before_def example_deployment_wf find_entry_def, simp_all add: example_env_def)
  moreover have "example_step ?m (?m\<lparr>rt_entries := [example_signed]\<rparr>)"
    by (rule step_sign [where d = example_deployment and senv = example_sign_env and i = "''a''"])
      (simp add: example_sign)
  ultimately show ?thesis by (simp add: example_before_def example_after_def)
qed

lemma example_init: "runtime_init example_before"
  by (simp add: runtime_init_def example_before_def)


section \<open>Properties\<close>

text \<open>C2: However planning, signing, broadcasting, reconciling and reporting interleave, the
  spending the policy counts over the journal (the limits of open and mismatched buys, the costs of
  confirmed ones) stays within the configured total, no more transactions than configured are
  unfinished, and no two unfinished transactions share a nonce.\<close>

theorem runtime_keeps_limits:
  assumes "runtime_init s" and "(runtime_step wallet budget maxPending)\<^sup>*\<^sup>* s t"
  shows "(\<exists>spent. sumE spendOf (policyEntries (rt_entries t)) = ok spent \<and> spent \<le> amt budget)
    \<and> int (length (filter (\<lambda>e. \<not> isFinal e) (rt_entries t))) \<le> max 0 maxPending
    \<and> nonces_unique (rt_entries t)"
proof -
  have "runtime_inv wallet budget maxPending t" by (rule runtime_system.reachable_inv [OF assms])
  then show ?thesis by (simp add: runtime_inv_def Let_def sumE_entries pending_count)
qed

theorem runtime_keeps_limits_witness:
  "\<exists>spent. sumE spendOf (policyEntries (rt_entries example_after)) = ok spent \<and> spent \<le> amt (pc_spendTotal example_policy)"
  by (rule conjunct1 [OF runtime_keeps_limits [OF example_init example_run]])

text \<open>C5: No run rewrites the journal's history: an entry stays, its intent never changes, the
  nonce, bytes and hash of a signed entry never change, and a final entry only has its report
  updated. So one intent is sent as at most one transaction.\<close>

theorem runtime_keeps_history:
  assumes "runtime_init r" and "(runtime_step wallet budget maxPending)\<^sup>*\<^sup>* r s"
    and "(runtime_step wallet budget maxPending)\<^sup>*\<^sup>* s t" and "find_entry (rt_entries s) i = Some x"
  shows "\<exists>y. find_entry (rt_entries t) i = Some y \<and> same_intent x y \<and> may_become (je_status x) (je_status y)
    \<and> (je_status x \<noteq> Planned \<longrightarrow> je_nonce y = je_nonce x \<and> je_raw y = je_raw x \<and> je_hash y = je_hash x)
    \<and> (isFinal x \<longrightarrow> y\<lparr>je_report := je_report x\<rparr> = x)"
proof -
  have "runtime_inv wallet budget maxPending s" by (rule runtime_system.reachable_inv [OF assms(1,2)])
  then have "runtime_later s t" by (rule runtime_system.later_run [OF assms(3)])
  then show ?thesis using assms(4) by (simp add: runtime_later_def evolves_def)
qed

theorem runtime_keeps_history_witness:
  "\<exists>y. find_entry (rt_entries example_after) ''a'' = Some y \<and> same_intent example_signed y"
proof -
  have "find_entry (rt_entries example_after) ''a'' = Some example_signed"
    by (simp add: example_after_def find_entry_def example_signed_def mark_signed_def example_entry_def new_entry_def
        example_env_def)
  then show ?thesis
    using runtime_keeps_history [OF example_init example_run rtranclp.rtrancl_refl] by blast
qed

text \<open>C21: What is signed is what was planned: the transaction signed carries exactly the intent of
  a planned entry, from the agent's wallet, within the service limits, only while live execution is
  allowed (and, for a buy, the market's semantics still hold), with a nonce that is at least the
  chain's pending nonce and above the nonce of every unfinished entry.\<close>

theorem sign_only_intended:
  assumes "wf_deployment d" and "sign wallet d senv i es = ok (Some signed_entry, es')"
  shows "\<exists>e it gas fee priority. find_entry es i = Some e \<and> je_status e = Planned \<and> intentOf e = ok it
    \<and> sg_allowed senv \<and> (je_action e = Buy \<longrightarrow> sg_semantic senv = None)
    \<and> signed_shape \<lparr>tx_chainId = 10143, tx_from = wallet, tx_to = je_to e, tx_data = je_data e, tx_value = 0\<rparr> it d wallet
    \<and> intent_ok it d
    \<and> sg_pendingNonce senv \<le> next_nonce senv es
    \<and> list_all (\<lambda>x. isFinal x \<or> (case je_nonce x of None \<Rightarrow> True | Some n \<Rightarrow> n < next_nonce senv es)) es
    \<and> signed_entry = mark_signed senv (next_nonce senv es) (sg_signer senv \<lparr>ut_chainId = 10143,
        ut_nonce = next_nonce senv es, ut_to = je_to e, ut_data = je_data e, ut_value = 0, ut_gas = gas,
        ut_maxFee = fee, ut_priorityFee = priority\<rparr>) e
    \<and> find_entry es' i = Some signed_entry"
  using assms(2)
proof (cases rule: sign_cases)
  case unchanged
  then show ?thesis by simp
next
  case abandoned
  then show ?thesis by simp
next
  case (signed e it gas fee priority raw)
  have "je_id (mark_signed senv n r x) = je_id x" for n r x by simp
  then have "find_entry es' i = Some (mark_signed senv (next_nonce senv es) raw e)"
    using signed(1,9) by (simp add: entries.lookup_update_same)
  moreover have "list_all (\<lambda>x. isFinal x \<or> (case je_nonce x of None \<Rightarrow> True | Some n \<Rightarrow> n < next_nonce senv es)) es"
    using next_nonce_above [of _ es] by (auto simp: list_all_iff split: option.splits)
  moreover have "sg_pendingNonce senv \<le> next_nonce senv es" by (simp add: next_nonce_def)
  ultimately show ?thesis using signed validate_iff [OF assms(1)] by blast
qed

theorem sign_only_intended_witness:
  "\<exists>e it. find_entry [example_entry] ''a'' = Some e \<and> intentOf e = ok it \<and> intent_ok it example_deployment"
  using sign_only_intended [OF example_deployment_wf example_sign] by blast


text \<open>Amounts written by \<open>plan\<close> never make the verification throw.\<close>

lemma verify_total:
  assumes "is_canon_dec (je_limit e)" "is_canon_dec (je_quantity e)"
    and "case je_claim e of None \<Rightarrow> True | Some c \<Rightarrow> is_canon_dec (cr_mask c)"
  shows "\<exists>effect. verifyEffect (exec_intent_of wallet e) status logs allowance = ok effect"
proof -
  have "big_of_string (xi_limit (exec_intent_of wallet e)) \<noteq> Inl err" for err
    using assms(1) big_of_canon [of "''0''"]
    by (simp add: exec_intent_of_def big_of_canon is_canon_dec_def is_dec_def code_def)
  then show ?thesis using assms(2,3)
    by (cases "big_of_string (xi_limit (exec_intent_of wallet e))")
      (auto simp: verifyEffect_def exec_intent_of_def big_of_canon split: option.splits)
qed

text \<open>C38: Once one more block is built on a transaction's receipt, one reconciliation finalises its
  entry: confirmed with what the receipt shows when it shows the intent, mismatch when it does not,
  and reverted when the transaction failed.\<close>

theorem settled_receipt_finalises:
  assumes "find_entry es i = Some e" and "je_status e = Signed \<or> je_status e = Broadcast" and "je_hash e \<noteq> None"
    and "rc_receipt env = Some r" and "cr_block r + 1 \<le> rc_headNumber env"
    and "is_canon_dec (je_limit e)" and "is_canon_dec (je_quantity e)"
    and "case je_claim e of None \<Rightarrow> True | Some c \<Rightarrow> is_canon_dec (cr_mask c)"
  shows "\<exists>u y effect. reconcile_read wallet env (Some e) = ok (Rec_update u)
    \<and> find_entry (reconcile_apply i (je_status e) u es) i = Some y \<and> isFinal y
    \<and> verifyEffect (exec_intent_of wallet e) (cr_status r) (cr_logs r)
        (if je_action e = Approve then Some (int_str (rc_allowance env)) else None) = ok effect
    \<and> (je_status y, je_cost y) = (if cr_status r \<noteq> 1 then (Reverted, je_cost e)
        else case effect of Effect_confirmed c \<Rightarrow> (Confirmed, c) | Effect_mismatch \<Rightarrow> (Mismatch, None))"
proof -
  obtain effect where v: "verifyEffect (exec_intent_of wallet e) (cr_status r) (cr_logs r)
      (if je_action e = Approve then Some (int_str (rc_allowance env)) else None) = ok effect"
    using verify_total [OF assms(6-8)] by blast
  define u where "u = (if cr_status r \<noteq> 1 then Upd_release Reverted (Some (note_of r)) (rc_now env)
    else case effect of Effect_confirmed c \<Rightarrow> Upd_verify Confirmed c (note_of r) (rc_now env)
      | Effect_mismatch \<Rightarrow> Upd_verify Mismatch None (note_of r) (rc_now env))"
  have "\<not> isFinal e" "je_status e \<noteq> Planned" using assms(2) by (auto simp: isFinal_iff unfinished_iff)
  moreover have "\<not> List.member FINAL (je_status e)" using assms(2) by (auto simp: FINAL_def)
  ultimately have "reconcile_read wallet env (Some e) = ok (Rec_update u)"
    using assms(3-5) v
    by (cases "je_action e = Approve"; cases "cr_status r = 1")
      (auto simp: reconcile_read_def Let_def settled_def recoveryStep_def u_def)
  moreover have "find_entry (reconcile_apply i (je_status e) u es) i = Some (apply_update u e)"
    using assms(1) by (simp add: reconcile_apply_def entries.lookup_update_same)
  moreover have "isFinal (apply_update u e)"
    by (cases effect) (simp_all add: u_def isFinal_iff unfinished_iff)
  moreover have "(je_status (apply_update u e), je_cost (apply_update u e)) = (if cr_status r \<noteq> 1 then (Reverted, je_cost e)
        else case effect of Effect_confirmed c \<Rightarrow> (Confirmed, c) | Effect_mismatch \<Rightarrow> (Mismatch, None))"
    by (cases effect) (simp_all add: u_def)
  ultimately show ?thesis using v by blast
qed

definition example_receipt :: chain_receipt where
  "example_receipt = \<lparr>cr_status = 0, cr_block = 50, cr_gasUsed = 90000, cr_gasPrice = None, cr_logs = []\<rparr>"

definition example_rec_env :: rec_env where
  "example_rec_env = \<lparr>rc_headNumber = 51, rc_headTime = 1010, rc_receipt = Some example_receipt, rc_txPresent = True,
     rc_nonceLatest = 5, rc_allowance = 0, rc_now = 1011, rc_pid = 7\<rparr>"

lemma example_signed_fields:
  "je_id example_signed = ''a''" "je_status example_signed = Signed" "je_hash example_signed \<noteq> None"
  "is_canon_dec (je_limit example_signed)" "is_canon_dec (je_quantity example_signed)"
  "case je_claim example_signed of None \<Rightarrow> True | Some c \<Rightarrow> is_canon_dec (cr_mask c)"
  by (simp_all add: example_signed_def mark_signed_def example_entry_def new_entry_def example_env_def example_trade_def
      int_str_nonneg)

theorem settled_receipt_finalises_witness:
  "\<exists>u y. reconcile_read example_wallet example_rec_env (Some example_signed) = ok (Rec_update u)
    \<and> find_entry (reconcile_apply ''a'' (je_status example_signed) u [example_signed]) ''a'' = Some y \<and> je_status y = Reverted"
proof -
  have "find_entry [example_signed] ''a'' = Some example_signed" by (simp add: find_entry_def example_signed_fields)
  then show ?thesis
    using settled_receipt_finalises [of "[example_signed]" "''a''" example_signed example_rec_env example_receipt example_wallet]
      example_signed_fields by (fastforce simp: example_rec_env_def example_receipt_def)
qed

text \<open>A reservation is released without a success only when the transaction can no longer
  succeed: nothing was signed, or its settled receipt failed, or it is unknown to the chain and its
  nonce was used by another transaction or its deadline has passed.\<close>

theorem release_is_safe:
  assumes "reconcile_read wallet env (Some e) = ok (Rec_update (Upd_release status note now))"
  shows "(je_status e = Planned \<and> status = Abandoned)
    \<or> ((je_status e = Signed \<or> je_status e = Broadcast)
       \<and> ((status = Reverted \<and> je_hash e \<noteq> None
             \<and> (\<exists>r. rc_receipt env = Some r \<and> cr_block r + 1 \<le> rc_headNumber env \<and> cr_status r \<noteq> 1))
          \<or> (((je_hash e = None) \<or> (rc_receipt env = None \<and> \<not> rc_txPresent env))
             \<and> ((status = Replaced \<and> (\<exists>n. je_nonce e = Some n \<and> n < rc_nonceLatest env))
                \<or> (status = Expired \<and> (\<exists>t. je_deadline e = Some t \<and> t < rc_headTime env))))))"
proof -
  have "\<not> isFinal e" using assms by (auto simp: reconcile_read_def)
  then have st: "je_status e = Planned \<or> je_status e = Signed \<or> je_status e = Broadcast"
    by (auto simp: isFinal_iff unfinished_iff)
  show ?thesis
  proof (cases "je_status e = Planned")
    case True
    then show ?thesis using assms
      by (auto simp: reconcile_read_def Let_def recoveryStep_def FINAL_def split: if_splits option.splits)
  next
    case False
    then have "\<not> List.member FINAL (je_status e)" using st by (auto simp: FINAL_def)
    then show ?thesis using assms False st
      by (auto simp: reconcile_read_def Let_def recoveryStep_def settled_def
          split: if_splits option.splits recovery_action.splits effect_result.splits)
  qed
qed

theorem release_is_safe_witness:
  "\<exists>r. rc_receipt example_rec_env = Some r \<and> cr_block r + 1 \<le> rc_headNumber example_rec_env \<and> cr_status r \<noteq> 1"
proof -
  have "reconcile_read example_wallet example_rec_env (Some example_signed)
      = ok (Rec_update (Upd_release Reverted (Some (note_of example_receipt)) 1011))"
    using example_signed_fields(2,3)
    by (simp add: reconcile_read_def Let_def recoveryStep_def FINAL_def settled_def isFinal_iff unfinished_iff
        example_rec_env_def) (simp add: example_receipt_def)
  then show ?thesis using release_is_safe [of example_wallet example_rec_env example_signed] example_signed_fields(2,3)
    by fastforce
qed


text \<open>A buy asks for an approval only when it could run: live execution is allowed, the market's
  semantics hold, no approval of the pool is unfinished and every limit that does not depend on gas
  passes. The approval is for exactly the buy's limit, and the buy that follows it, at a newer
  quote, never has a higher limit nor a deadline after the close.\<close>

theorem approval_is_exact:
  assumes "execute_decision d c allowed reason semantic allowance env es = ok (Do_approve_first approval purchase)"
  shows "allowed \<and> semantic = None
    \<and> \<not> list_ex (\<lambda>e. je_action e = Approve \<and> je_pool e = dep_pool d \<and> \<not> isFinal e) es
    \<and> precheck d purchase (tc_quoteTime c) (tc_slippageBps c) env es = ok []
    \<and> (let limit = buyLimit (tc_quote c) (tc_slippageBps c) in
        allowance < limit \<and> approval = Approve_intent limit
        \<and> purchase = Trade_intent Side_buy (tc_scope c) (tc_mask c) (tc_quantity c) limit (deadline_for d (tc_quoteTime c))
        \<and> (\<forall>again blockTime second t. requote d c limit again blockTime = Re_run second t \<longrightarrow>
            (\<exists>l dl. second = Trade_intent Side_buy (tc_scope c) (tc_mask c) (tc_quantity c) l dl
              \<and> l \<le> limit \<and> dl \<le> blockTime + 300 \<and> dl < dep_closesAt d)))"
  using assms
  by (auto simp: execute_decision_def requote_def deadline_for_def Let_def split: if_splits option.splits)

definition example_candidate :: trade_candidate where
  "example_candidate = \<lparr>tc_action = Buy, tc_scope = 3, tc_mask = 8, tc_quantity = 1000000, tc_slippageBps = 50,
     tc_quote = 398009, tc_quoteTime = 990\<rparr>"

definition example_early_env :: plan_env where
  "example_early_env = example_env\<lparr>en_policy := example_policy\<lparr>pc_gasReserve := ''0''\<rparr>\<rparr>"

lemma example_purchase:
  "execute_decision example_deployment example_candidate True None None 0 example_early_env []
    = ok (Do_approve_first (Approve_intent 400000) example_trade)"
proof -
  have "precheck example_deployment example_trade 990 50 example_early_env [] = ok []"
  proof -
    have "evaluatePolicy (example_buy_input ''0'' ''0'' ''0'' ''0'') = ok []"
      by (rule example_buy_accepted [of _ 0 _ 0 _ 0 _ 0]; code_simp)
    moreover have "big_of_string ''8'' = ok 8" by code_simp
    ultimately show ?thesis
      by (simp add: precheck_def example_trade_def example_early_env_def example_env_def example_strings plan_market_def
          policyEntries_def example_deployment_def example_buy_input_def example_holdings_def example_pool_def)
  qed
  moreover have "buyLimit 398009 50 = 400000" "deadline_for example_deployment 990 = 1290"
    by (simp_all add: deadline_for_def example_deployment_def buyLimit_def)
  ultimately show ?thesis
    by (simp add: execute_decision_def example_candidate_def example_trade_def Let_def)
qed

theorem approval_is_exact_witness:
  "precheck example_deployment example_trade 990 50 example_early_env [] = ok []"
  using approval_is_exact [OF example_purchase] by (simp add: example_candidate_def)

end
