(* ===== verification/Market.thy ===== *)
theory Market
  imports Protocol Distribution
begin

text \<open>
  The parsers of the app's API answers (packages/sdk/src/market.ts). What the server sends is
  untrusted: each parser either gives a value of the shape the rest of the SDK relies on or
  throws. Text that is only displayed is kept as the JSON value it was read from; the
  \<open>String\<close> conversion around it decides nothing.
\<close>

section \<open>The code\<close>

definition bad :: "'a res" where
  "bad = throw Invalid_response"

fun obj :: "json \<Rightarrow> json res" where
  "obj (JObj kvs) = ok (JObj kvs)"
| "obj _ = bad"

text \<open>\<open>/^0x[0-9a-fA-F]{40}$/\<close>, then lower case.\<close>

fun addr_any :: "json \<Rightarrow> string res" where
  "addr_any (JStr s) = (if is_0x_hex 40 s then ok (lower s) else bad)"
| "addr_any _ = bad"

definition int_field :: "json \<Rightarrow> int res" where
  "int_field v = (if is_safe_int v then ok (jint_val v) else bad)"

record snapshot =
  sn_chain :: int
  sn_pool :: string
  sn_block :: int
  sn_hash :: string
  sn_time :: int

text \<open>\<open>/^[0-9]{1,20}$/\<close> and \<open>/^0x[0-9a-f]{64}$/i\<close>: case is folded before the match.\<close>

definition is_block_number :: "string \<Rightarrow> bool" where
  "is_block_number s = (1 \<le> length s \<and> length s \<le> 20 \<and> list_all is_dec s)"

definition parseSnapshot :: "json \<Rightarrow> string \<Rightarrow> snapshot res" where
  "parseSnapshot v pool = bindE (obj v) (\<lambda>s.
     case (jget s ''blockNumber'', jget s ''blockHash'') of
       (JStr n, JStr h) \<Rightarrow>
         (if \<not> is_block_number n \<or> \<not> is_0x_lhex 64 (lower h) then bad
          else bindE (int_field (jget s ''timestamp'')) (\<lambda>t.
            ok \<lparr>sn_chain = CHAIN_ID, sn_pool = pool, sn_block = int (str_nat n), sn_hash = lower h, sn_time = t\<rparr>))
     | _ \<Rightarrow> bad)"

text \<open>A value in tenths of a percentage point, or null when the server could not certify it.\<close>

definition tenths :: "json \<Rightarrow> int option res" where
  "tenths x = (if x = JNull then ok None else if is_safe_int x then ok (Some (jint_val x)) else bad)"

record claim_implied =
  ci_pool :: string
  ci_claim :: claim
  ci_snapshot :: snapshot
  ci_expires :: int
  ci_market :: "int option"
  ci_independent :: "int option"
  ci_difference :: "int option"

definition parseClaimImplied :: "json \<Rightarrow> string \<Rightarrow> int \<Rightarrow> claim_implied res" where
  "parseClaimImplied v pool eventCount =
     bindE (obj v) (\<lambda>r. bindE (obj (jget r ''values'')) (\<lambda>vals.
       if jget r ''schema'' \<noteq> JStr ''flurbo.claim-analytics.v1'' \<or> jget r ''chainId'' \<noteq> JInt CHAIN_ID then bad
       else bindE (addr_any (jget r ''pool'')) (\<lambda>p.
         if p \<noteq> pool \<or> jget r ''unit'' \<noteq> JStr ''tenths_of_percentage_point'' then bad
         else bindE (int_field (jget r ''scope'')) (\<lambda>scope.
           bindE (if is_jstr (jget r ''mask'') then parseAtoms (jget r ''mask'') else bad) (\<lambda>m.
           bindE (assertClaim \<lparr>claim_chain = CHAIN_ID, claim_pool = pool, claim_scope = scope, claim_mask = m\<rparr> eventCount) (\<lambda>c.
           bindE (parseSnapshot (jget r ''snapshot'') pool) (\<lambda>sn.
           bindE (int_field (jget r ''expiresAt'')) (\<lambda>ex.
           bindE (tenths (jget vals ''market'')) (\<lambda>a.
           bindE (tenths (jget vals ''independent'')) (\<lambda>b.
           bindE (tenths (jget vals ''difference'')) (\<lambda>d.
             ok \<lparr>ci_pool = pool, ci_claim = c, ci_snapshot = sn, ci_expires = ex, ci_market = a,
               ci_independent = b, ci_difference = d\<rparr>)))))))))))"

record directory_entry =
  de_namespace :: string
  de_label :: string
  de_pool :: string
  de_closesAt :: int

definition parse_entry :: "json \<Rightarrow> directory_entry res" where
  "parse_entry raw = bindE (obj raw) (\<lambda>m.
     if \<not> isNamespace (jget m ''namespace'') \<or> \<not> is_jstr (jget m ''label'') then bad
     else bindE (addr_any (jget m ''pool'')) (\<lambda>p. bindE (int_field (jget m ''closesAt'')) (\<lambda>t.
       ok \<lparr>de_namespace = jstr_of (jget m ''namespace''), de_label = jstr_of (jget m ''label''),
         de_pool = p, de_closesAt = t\<rparr>)))"

definition parseDirectory :: "json \<Rightarrow> directory_entry list res" where
  "parseDirectory v = bindE (obj v) (\<lambda>d.
     if jget d ''schema'' \<noteq> JStr ''flurbo.market-directory.v1'' then bad
     else (case jget d ''markets'' of JArr ms \<Rightarrow> mapE parse_entry ms | _ \<Rightarrow> bad))"

record market_event =
  me_index :: nat
  me_id :: string
  me_question :: string
  me_yesRule :: json
  me_noRule :: json
  me_observationEndsAt :: int
  me_source :: "(string option \<times> string) option"

record market =
  mk_namespace :: string
  mk_pool :: string
  mk_rulesHash :: json
  mk_title :: json
  mk_closesAt :: int
  mk_open :: bool
  mk_resolved :: bool
  mk_events :: "market_event list"
  mk_snapshot :: snapshot
  mk_prices :: "(int option \<times> int option) list"

text \<open>\<open>x ?? ''\<close>.\<close>

definition or_empty :: "json \<Rightarrow> json" where
  "or_empty x = (if x = JUndef \<or> x = JNull then JStr '''' else x)"

definition event_source :: "json \<Rightarrow> (string option \<times> string) option" where
  "event_source src = (case jget src ''referenceUrl'' of
     JStr u \<Rightarrow> (if take 8 u = ''https://''
       then Some (case jget src ''publisher'' of JStr p \<Rightarrow> Some p | _ \<Rightarrow> None, u) else None)
   | _ \<Rightarrow> None)"

definition parse_event :: "nat \<times> json \<Rightarrow> market_event res" where
  "parse_event = (\<lambda>(index, raw). bindE (obj raw) (\<lambda>e.
     if \<not> is_jstr (jget e ''id'') \<or> \<not> is_jstr (jget e ''question'') then bad
     else bindE (int_field (jget e ''observationEndsAt'')) (\<lambda>t.
       ok \<lparr>me_index = index, me_id = jstr_of (jget e ''id''), me_question = jstr_of (jget e ''question''),
         me_yesRule = or_empty (jget e ''yesRule''), me_noRule = or_empty (jget e ''noRule''),
         me_observationEndsAt = t, me_source = event_source (jget e ''source'')\<rparr>)))"

definition read_price :: "json \<Rightarrow> int option res" where
  "read_price x = (if x = JNull then ok None else bindE (parseAtoms x) (\<lambda>a. ok (Some a)))"

definition parse_price :: "json \<Rightarrow> (int option \<times> int option) res" where
  "parse_price raw = bindE (obj raw) (\<lambda>p.
     bindE (read_price (jget p ''yes'')) (\<lambda>y. bindE (read_price (jget p ''no'')) (\<lambda>n. ok (y, n))))"

fun jbool_val :: "json \<Rightarrow> bool" where
  "jbool_val (JBool b) = b"
| "jbool_val _ = False"

definition wrong_pool :: "string \<Rightarrow> string \<Rightarrow> bool" where
  "wrong_pool namespace pool = (take 9 namespace = ''practice-'' \<and> pool \<noteq> ''0x'' @ drop 9 namespace)"

definition parseMarket :: "json \<Rightarrow> string \<Rightarrow> market res" where
  "parseMarket v namespace =
     bindE (obj v) (\<lambda>m. bindE (obj (jget m ''manifest'')) (\<lambda>manifest.
     bindE (obj (jget manifest ''publication'')) (\<lambda>publication. bindE (obj (jget publication ''draft'')) (\<lambda>draft.
       if jget manifest ''chainId'' \<noteq> JInt CHAIN_ID then bad
       else (case (jget draft ''events'', jget m ''prices'') of
         (JArr es, JArr ps) \<Rightarrow>
           if \<not> is_jbool (jget m ''open'') \<or> \<not> is_jbool (jget m ''resolved'') then bad
           else bindE (addr_any (jget manifest ''pool'')) (\<lambda>pool.
             if wrong_pool namespace pool then throw Cross_pool
             else bindE (mapE parse_event (enumerate 0 es)) (\<lambda>events.
               bindE (mapE parse_price ps) (\<lambda>prices.
               if length prices \<noteq> length events then bad
               else bindE (int_field (jget draft ''closesAt'')) (\<lambda>closesAt.
                 bindE (parseSnapshot (jget m ''snapshot'') pool) (\<lambda>sn.
                   ok \<lparr>mk_namespace = namespace, mk_pool = pool, mk_rulesHash = jget manifest ''rulesHash'',
                     mk_title = or_empty (jget draft ''title''), mk_closesAt = closesAt,
                     mk_open = jbool_val (jget m ''open''), mk_resolved = jbool_val (jget m ''resolved''),
                     mk_events = events, mk_snapshot = sn, mk_prices = prices\<rparr>)))))
       | _ \<Rightarrow> bad)))))"

record pair_implied =
  im_pool :: string
  im_a :: int
  im_b :: int
  im_snapshot :: snapshot
  im_expires :: int
  im_a_yes :: "int option"
  im_b_yes :: "int option"
  im_both :: "int option"
  im_independent :: "int option"
  im_difference :: "int option"

definition parsePairAnalytics :: "json \<Rightarrow> string \<Rightarrow> pair_implied res" where
  "parsePairAnalytics v pool =
     bindE (obj v) (\<lambda>r. bindE (obj (jget r ''values'')) (\<lambda>vals.
       if jget r ''schema'' \<noteq> JStr ''flurbo.pair-analytics.v1'' \<or> jget r ''chainId'' \<noteq> JInt CHAIN_ID then bad
       else bindE (addr_any (jget r ''pool'')) (\<lambda>p.
         if p \<noteq> pool \<or> jget r ''unit'' \<noteq> JStr ''tenths_of_percentage_point'' then bad
         else bindE (int_field (jget r ''a'')) (\<lambda>a. bindE (int_field (jget r ''b'')) (\<lambda>b.
           bindE (parseSnapshot (jget r ''snapshot'') pool) (\<lambda>sn.
           bindE (int_field (jget r ''expiresAt'')) (\<lambda>ex.
           bindE (tenths (jget vals ''a'')) (\<lambda>va. bindE (tenths (jget vals ''b'')) (\<lambda>vb.
           bindE (tenths (jget vals ''joint'')) (\<lambda>vj. bindE (tenths (jget vals ''independent'')) (\<lambda>vi.
           bindE (tenths (jget vals ''difference'')) (\<lambda>vd.
             ok \<lparr>im_pool = pool, im_a = a, im_b = b, im_snapshot = sn, im_expires = ex, im_a_yes = va,
               im_b_yes = vb, im_both = vj, im_independent = vi, im_difference = vd\<rparr>))))))))))))"

datatype side = Buy_side | Sell_side

datatype quote_source = Pool_quoteBuy | Pool_quoteSell | Fixture_quote

record quote =
  q_claim :: claim
  q_side :: side
  q_quantity :: int
  q_amount :: int
  q_snapshot :: snapshot
  q_expires :: int
  q_source :: quote_source

datatype unavailable = Un_market_closed | Un_unsupported_claim | Un_quantity_limit | Un_quote_unavailable

datatype quote_result = Quoted quote | Unavailable_quote unavailable json

definition unavailable_of :: "json \<Rightarrow> unavailable res" where
  "unavailable_of r =
     (if r = JStr ''market_closed'' then ok Un_market_closed
      else if r = JStr ''unsupported_claim'' then ok Un_unsupported_claim
      else if r = JStr ''quantity_limit'' then ok Un_quantity_limit
      else if r = JStr ''quote_unavailable'' then ok Un_quote_unavailable else bad)"

definition side_of :: "json \<Rightarrow> side res" where
  "side_of s = (if s = JStr ''buy'' then ok Buy_side else if s = JStr ''sell'' then ok Sell_side else bad)"

text \<open>The label the server gave is kept: a fixture stays marked as one.\<close>

definition source_of :: "json \<Rightarrow> side \<Rightarrow> quote_source res" where
  "source_of src s =
     (if src = JStr ''fixture'' then ok Fixture_quote
      else if src = (if s = Buy_side then JStr ''pool.quoteBuy'' else JStr ''pool.quoteSell'')
      then ok (if s = Buy_side then Pool_quoteBuy else Pool_quoteSell)
      else bad)"

definition parse_quote :: "json \<Rightarrow> int \<Rightarrow> quote res" where
  "parse_quote v eventCount =
     bindE (obj v) (\<lambda>q.
       if jget q ''schema'' \<noteq> JStr ''flurbo.agent-quote.v1'' then bad
       else bindE (side_of (jget q ''side'')) (\<lambda>s. bindE (source_of (jget q ''source'') s) (\<lambda>source.
         bindE (claimFromJSON (jget q ''claim'') eventCount) (\<lambda>c.
         bindE (parseSnapshot (jget q ''snapshot'') (claim_pool c)) (\<lambda>sn.
         bindE (parseAtoms (jget q ''quantityAtoms'')) (\<lambda>quantity.
         bindE (parseAtoms (jget q ''amountAtoms'')) (\<lambda>amount.
           if quantity = 0 \<or> (s = Buy_side \<and> (amount = 0 \<or> amount > quantity)) then bad
           else bindE (int_field (jget q ''expiresAt'')) (\<lambda>ex.
             ok \<lparr>q_claim = c, q_side = s, q_quantity = quantity, q_amount = amount, q_snapshot = sn,
               q_expires = ex, q_source = source\<rparr>))))))))"

definition parseQuoteResult :: "json \<Rightarrow> int \<Rightarrow> quote_result res" where
  "parseQuoteResult v eventCount = bindE (obj v) (\<lambda>r.
     if jget r ''status'' = JStr ''unavailable'' then
       bindE (unavailable_of (jget r ''reason'')) (\<lambda>u. ok (Unavailable_quote u (or_empty (jget r ''detail''))))
     else if jget r ''status'' \<noteq> JStr ''ok'' then bad
     else bindE (parse_quote (jget r ''quote'') eventCount) (\<lambda>q. ok (Quoted q)))"

definition quote_side_str :: "side \<Rightarrow> string" where
  "quote_side_str s = (case s of Buy_side \<Rightarrow> ''buy'' | Sell_side \<Rightarrow> ''sell'')"

definition source_str :: "quote_source \<Rightarrow> string" where
  "source_str s = (case s of Pool_quoteBuy \<Rightarrow> ''pool.quoteBuy'' | Pool_quoteSell \<Rightarrow> ''pool.quoteSell''
     | Fixture_quote \<Rightarrow> ''fixture'')"

definition quoteToJSON :: "quote \<Rightarrow> json" where
  "quoteToJSON q = JObj [(''schema'', JStr ''flurbo.agent-quote.v1''),
     (''claim'', JObj [(''chainId'', JInt (claim_chain (q_claim q))), (''pool'', JStr (claim_pool (q_claim q))),
        (''scope'', JInt (claim_scope (q_claim q))), (''mask'', JStr (int_str (claim_mask (q_claim q))))]),
     (''side'', JStr (quote_side_str (q_side q))), (''quantityAtoms'', JStr (int_str (q_quantity q))),
     (''amountAtoms'', JStr (int_str (q_amount q))),
     (''snapshot'', JObj [(''blockNumber'', JStr (int_str (sn_block (q_snapshot q)))),
        (''blockHash'', JStr (sn_hash (q_snapshot q))), (''timestamp'', JInt (sn_time (q_snapshot q)))]),
     (''expiresAt'', JInt (q_expires q)), (''source'', JStr (source_str (q_source q)))]"

record review =
  rv_action :: json
  rv_owner :: string
  rv_claim :: "claim option"
  rv_quantity :: "int option"
  rv_amount :: int
  rv_expires :: int
  rv_snapshot :: snapshot
  rv_approvalFirst :: bool

definition review_claim :: "bool \<Rightarrow> string \<Rightarrow> json \<Rightarrow> int \<Rightarrow> claim option res" where
  "review_claim trade pool requested eventCount =
     (if \<not> trade then ok None
      else bindE (int_field (jget requested ''scope'')) (\<lambda>scope. bindE (parseAtoms (jget requested ''mask'')) (\<lambda>m.
        bindE (assertClaim \<lparr>claim_chain = CHAIN_ID, claim_pool = pool, claim_scope = scope, claim_mask = m\<rparr> eventCount)
          (\<lambda>c. ok (Some c)))))"

definition parseReview :: "json \<Rightarrow> int \<Rightarrow> review res" where
  "parseReview v eventCount =
     bindE (obj v) (\<lambda>r. bindE (obj (jget r ''requested'')) (\<lambda>requested. bindE (obj (jget r ''manifest'')) (\<lambda>manifest.
     bindE (obj (jget r ''transaction'')) (\<lambda>tx.
       if jget r ''schema'' \<noteq> JStr ''flurbo.pilot-review.v1'' \<or> jget tx ''chainId'' \<noteq> JStr ''0x279f''
          \<or> jget tx ''value'' \<noteq> JStr ''0x0'' then bad
       else bindE (addr_any (jget manifest ''pool'')) (\<lambda>pool. bindE (addr_any (jget requested ''owner'')) (\<lambda>owner.
         bindE (addr_any (jget tx ''from'')) (\<lambda>sender.
         if sender \<noteq> owner then bad
         else let trade = List.member [JStr ''buy'', JStr ''sell''] (jget requested ''action'') in
           bindE (review_claim trade pool requested eventCount) (\<lambda>c.
           bindE (if trade then bindE (parseAtoms (jget requested ''quantity'')) (\<lambda>a. ok (Some a)) else ok None) (\<lambda>quantity.
           bindE (parseAtoms (jget r ''amountAtoms'')) (\<lambda>amount.
           bindE (int_field (jget r ''expiresAt'')) (\<lambda>ex.
           bindE (parseSnapshot (jget r ''snapshot'') pool) (\<lambda>sn.
             ok \<lparr>rv_action = jget r ''action'', rv_owner = owner, rv_claim = c, rv_quantity = quantity,
               rv_amount = amount, rv_expires = ex, rv_snapshot = sn,
               rv_approvalFirst = (jget r ''action'' = JStr ''approve'')\<rparr>))))))))))))"

end
