(* ===== verification/Market_Laws.thy ===== *)
theory Market_Laws
  imports Market Claim_Laws Distribution_Laws
begin

text \<open>
  What the parsers of market.ts guarantee about an answer they accept: the invariant of every
  record they build, and that a quote survives its own JSON form.
\<close>

section \<open>Well-formed values\<close>

definition is_safe :: "int \<Rightarrow> bool" where
  "is_safe i = (- max_safe \<le> i \<and> i \<le> max_safe)"

definition wf_snapshot :: "string \<Rightarrow> snapshot \<Rightarrow> bool" where
  "wf_snapshot pool s = (sn_chain s = CHAIN_ID \<and> sn_pool s = pool \<and> 0 \<le> sn_block s \<and> sn_block s < 10 ^ 20
     \<and> is_0x_lhex 64 (sn_hash s) \<and> is_safe (sn_time s))"

definition source_fits :: "side \<Rightarrow> quote_source \<Rightarrow> bool" where
  "source_fits s src = (case src of Fixture_quote \<Rightarrow> True | Pool_quoteBuy \<Rightarrow> s = Buy_side | Pool_quoteSell \<Rightarrow> s = Sell_side)"

definition wf_quote :: "int \<Rightarrow> quote \<Rightarrow> bool" where
  "wf_quote n q = (wf_claim n (q_claim q) \<and> wf_snapshot (claim_pool (q_claim q)) (q_snapshot q)
     \<and> 0 < q_quantity q \<and> q_quantity q \<le> UINT128_MAX \<and> 0 \<le> q_amount q \<and> q_amount q \<le> UINT128_MAX
     \<and> (q_side q = Buy_side \<longrightarrow> 0 < q_amount q \<and> q_amount q \<le> q_quantity q)
     \<and> is_safe (q_expires q) \<and> source_fits (q_side q) (q_source q))"

definition wf_price :: "int option \<Rightarrow> bool" where
  "wf_price p = (case p of None \<Rightarrow> True | Some a \<Rightarrow> atoms_in_range a)"

definition wf_market :: "market \<Rightarrow> bool" where
  "wf_market m = (is_0x_lhex 40 (mk_pool m) \<and> \<not> wrong_pool (mk_namespace m) (mk_pool m)
     \<and> wf_snapshot (mk_pool m) (mk_snapshot m) \<and> is_safe (mk_closesAt m)
     \<and> map me_index (mk_events m) = [0..<length (mk_events m)]
     \<and> length (mk_prices m) = length (mk_events m)
     \<and> list_all (\<lambda>(y, n). wf_price y \<and> wf_price n) (mk_prices m))"

section \<open>The field readers\<close>

named_theorems read_ok \<open>when a field reader accepts a value\<close>

lemma obj_ok [read_ok]: "obj v = ok w \<longleftrightarrow> w = v \<and> (\<exists>kvs. v = JObj kvs)"
  by (cases v) (auto simp: bad_def)

lemma obj_JObj [simp]: "obj (JObj kvs) = ok (JObj kvs)"
  by simp

lemma is_0x_hex_lower: "is_0x_hex n s \<Longrightarrow> is_0x_lhex n (lower s)"
proof -
  assume h: "is_0x_hex n s"
  have "lower_char CHR ''0'' = CHR ''0''" "lower_char CHR ''x'' = CHR ''x''" by code_simp+
  then have "take 2 (lower s) = ''0x''" using h by (simp add: lower_def take_map is_0x_hex_def)
  moreover have "list_all is_lhex (drop 2 (lower s))"
    using h by (auto simp: lower_def drop_map is_0x_hex_def list_all_iff lower_char_hex)
  ultimately show ?thesis using h by (simp add: is_0x_lhex_def is_0x_hex_def)
qed

lemma addr_any_okD: "addr_any v = ok a \<Longrightarrow> is_0x_lhex 40 a"
  by (cases v) (auto simp: bad_def is_0x_hex_lower split: if_splits)

lemma int_field_ok [read_ok]: "int_field v = ok i \<longleftrightarrow> v = JInt i \<and> is_safe i"
  by (cases v) (auto simp: int_field_def bad_def is_safe_def)

lemma tenths_ok [read_ok]:
  "tenths v = ok r \<longleftrightarrow> (v = JNull \<and> r = None) \<or> (\<exists>i. v = JInt i \<and> is_safe i \<and> r = Some i)"
  by (cases v) (auto simp: tenths_def bad_def is_safe_def)

lemma bad_not_ok [simp]: "bad \<noteq> ok x"
  by (simp add: bad_def)

lemma bad_not_ok' [simp]: "ok x \<noteq> bad"
  by (simp add: bad_def)

lemma is_jstr_iff: "is_jstr v \<longleftrightarrow> (\<exists>s. v = JStr s)"
  by (cases v) auto

lemma is_jbool_iff: "is_jbool v \<longleftrightarrow> (\<exists>b. v = JBool b)"
  by (cases v) auto

section \<open>Snapshots\<close>

lemma parseSnapshot_wf: "parseSnapshot v pool = ok s \<Longrightarrow> wf_snapshot pool s"
proof -
  assume "parseSnapshot v pool = ok s"
  then obtain n h t where p: "is_block_number n" "is_0x_lhex 64 (lower h)" "is_safe t"
    and s: "s = \<lparr>sn_chain = CHAIN_ID, sn_pool = pool, sn_block = int (str_nat n), sn_hash = lower h, sn_time = t\<rparr>"
    by (auto simp: parseSnapshot_def read_ok split: json.splits if_splits)
  have "str_nat n < 10 ^ length n" using p(1) by (intro str_nat_less) (simp add: is_block_number_def)
  also have "(10::nat) ^ length n \<le> 10 ^ 20" using p(1) by (intro power_increasing) (simp_all add: is_block_number_def)
  finally have "int (str_nat n) < int (10 ^ 20)" unfolding of_nat_less_iff .
  then show ?thesis using p by (simp add: s wf_snapshot_def)
qed

definition snapshotJSON :: "snapshot \<Rightarrow> json" where
  "snapshotJSON s = JObj [(''blockNumber'', JStr (int_str (sn_block s))), (''blockHash'', JStr (sn_hash s)),
     (''timestamp'', JInt (sn_time s))]"

lemma is_block_number_int_str:
  assumes "0 \<le> b" "b < 10 ^ 20" shows "is_block_number (int_str b)"
proof -
  have "nat b < 10 ^ 20" using assms by (simp add: nat_less_iff)
  then show ?thesis using assms length_nat_str [of "nat b" 20] nat_str_all_dec [of "nat b"] nat_str_nonempty [of "nat b"]
    unfolding is_block_number_def by (cases "nat_str (nat b)") (auto simp: int_str_nonneg)
qed

lemma parseSnapshot_JSON: "wf_snapshot pool s \<Longrightarrow> parseSnapshot (snapshotJSON s) pool = ok s"
  by (auto simp: parseSnapshot_def snapshotJSON_def jget_def wf_snapshot_def is_block_number_int_str read_ok
      str_nat_int_str)

section \<open>Quotes\<close>

lemma source_of_ok: "source_of v s = ok src \<longleftrightarrow> v = JStr (source_str src) \<and> source_fits s src"
  by (cases src; cases s) (auto simp: source_of_def source_str_def source_fits_def)

lemma side_of_ok: "side_of v = ok s \<longleftrightarrow> v = JStr (quote_side_str s)"
  by (cases s) (auto simp: side_of_def quote_side_str_def)

lemma parse_quote_wf:
  assumes "parse_quote v n = ok q" shows "wf_quote n q"
  using assms
  by (auto simp: parse_quote_def wf_quote_def read_ok side_of_ok source_of_ok atoms_in_range_def
      dest!: parseAtoms_okD dest: claimFromJSON_wf parseSnapshot_wf split: if_splits)

lemma quoteToJSON_fields:
  "jget (quoteToJSON q) ''schema'' = JStr ''flurbo.agent-quote.v1''"
  "jget (quoteToJSON q) ''claim'' = claimToJSON (q_claim q)"
  "jget (quoteToJSON q) ''side'' = JStr (quote_side_str (q_side q))"
  "jget (quoteToJSON q) ''quantityAtoms'' = JStr (int_str (q_quantity q))"
  "jget (quoteToJSON q) ''amountAtoms'' = JStr (int_str (q_amount q))"
  "jget (quoteToJSON q) ''snapshot'' = snapshotJSON (q_snapshot q)"
  "jget (quoteToJSON q) ''expiresAt'' = JInt (q_expires q)"
  "jget (quoteToJSON q) ''source'' = JStr (source_str (q_source q))"
  by (simp_all add: quoteToJSON_def jget_def claimToJSON_def snapshotJSON_def)

lemma quoteToJSON_obj: "obj (quoteToJSON q) = ok (quoteToJSON q)"
  by (simp add: quoteToJSON_def)

lemma parse_quote_toJSON:
  assumes "wf_quote n q" shows "parse_quote (quoteToJSON q) n = ok q"
proof -
  have a: "atoms_in_range (q_quantity q)" "atoms_in_range (q_amount q)"
    using assms by (simp_all add: wf_quote_def atoms_in_range_def)
  have src: "source_of (JStr (source_str (q_source q))) (q_side q) = ok (q_source q)"
    and sd: "side_of (JStr (quote_side_str (q_side q))) = ok (q_side q)"
    and ex: "int_field (JInt (q_expires q)) = ok (q_expires q)"
    using assms by (simp_all add: source_of_ok side_of_ok int_field_ok wf_quote_def)
  have c: "claimFromJSON (claimToJSON (q_claim q)) n = ok (q_claim q)"
    and s: "parseSnapshot (snapshotJSON (q_snapshot q)) (claim_pool (q_claim q)) = ok (q_snapshot q)"
    using assms by (simp_all add: wf_quote_def claimFromJSON_toJSON parseSnapshot_JSON)
  have "\<not> (q_quantity q = 0 \<or> (q_side q = Buy_side \<and> (q_amount q = 0 \<or> q_amount q > q_quantity q)))"
    using assms by (auto simp: wf_quote_def)
  then show ?thesis
    unfolding parse_quote_def quoteToJSON_obj
    by (simp add: quoteToJSON_fields src sd ex c s parseAtoms_int_str [OF a(1)] parseAtoms_int_str [OF a(2)])
qed

section \<open>Markets\<close>

lemma mapE_parse_event: "mapE parse_event (enumerate k es) = ok evs \<Longrightarrow> map me_index evs = [k..<k + length evs]"
proof (induction es arbitrary: k evs)
  case Nil
  then show ?case by simp
next
  case (Cons e es)
  then obtain x xs where x: "parse_event (k, e) = ok x" and xs: "mapE parse_event (enumerate (Suc k) es) = ok xs"
    and evs: "evs = x # xs" by auto
  have "me_index x = k" using x by (auto simp: parse_event_def read_ok split: if_splits)
  moreover have "[k..<k + length evs] = k # [Suc k..<Suc k + length xs]"
    using evs by (simp add: upt_conv_Cons del: upt_Suc)
  ultimately show ?case using Cons.IH [OF xs] evs by (simp del: upt_Suc)
qed

lemma read_price_wf: "read_price v = ok p \<Longrightarrow> wf_price p"
  by (auto simp: read_price_def wf_price_def dest!: parseAtoms_okD split: if_splits)

lemma parse_price_wf: "parse_price v = ok (y, n) \<Longrightarrow> wf_price y \<and> wf_price n"
  by (auto simp: parse_price_def dest: read_price_wf)

lemma mapE_parse_price: "mapE parse_price ps = ok prices \<Longrightarrow> list_all (\<lambda>(y, n). wf_price y \<and> wf_price n) prices"
  by (induction ps arbitrary: prices) (auto dest: parse_price_wf)

lemma parseMarket_wf:
  assumes "parseMarket v ns = ok m" shows "wf_market m \<and> mk_namespace m = ns"
proof -
  have "\<not> wrong_pool ns p" if "wrong_pool ns p = False" for p using that by simp
  with assms show ?thesis
    by (auto simp: parseMarket_def wf_market_def read_ok split: json.splits if_splits
        dest: addr_any_okD parseSnapshot_wf mapE_parse_event mapE_parse_price)
qed

section \<open>Properties\<close>

text \<open>C40: A quote the SDK accepts from the server is well formed: its claim is one the pool's encoder
  accepts, its snapshot is of the claim's own pool with a real block number and hash, its quantity
  is positive and fits 128 bits, a buy costs something and at most the full payout, and the
  source it names fits its side.\<close>

theorem quote_result_typed:
  assumes "parseQuoteResult v n = ok (Quoted q)"
  shows "wf_quote n q"
  using assms by (auto simp: parseQuoteResult_def intro: parse_quote_wf split: if_splits)

definition example_quote :: quote where
  "example_quote = \<lparr>q_claim = \<lparr>claim_chain = 10143, claim_pool = example_pool, claim_scope = 5, claim_mask = 13\<rparr>,
     q_side = Buy_side, q_quantity = 1000000, q_amount = 420000,
     q_snapshot = \<lparr>sn_chain = 10143, sn_pool = example_pool, sn_block = 77,
       sn_hash = ''0x'' @ replicate 64 CHR ''a'', sn_time = 1700000000\<rparr>,
     q_expires = 1700000060, q_source = Pool_quoteBuy\<rparr>"

lemma example_quote_wf: "wf_quote 3 example_quote"
  unfolding wf_quote_def example_quote_def by code_simp

theorem quote_result_typed_witness: "wf_quote 3 example_quote"
proof (rule quote_result_typed)
  show "parseQuoteResult (JObj [(''status'', JStr ''ok''), (''quote'', quoteToJSON example_quote)]) 3
    = ok (Quoted example_quote)"
    using parse_quote_toJSON [OF example_quote_wf] by (simp add: parseQuoteResult_def jget_def)
qed

text \<open>A quote and its wire form determine each other: exactly the well-formed quotes are read back,
  unchanged, from the JSON they are sent as.\<close>

theorem quote_round_trip: "(parse_quote (quoteToJSON q) n = ok q) = wf_quote n q"
  using parse_quote_toJSON parse_quote_wf by blast

end
