(* ===== verification/Dates.thy ===== *)
theory Dates
  imports Amounts
begin

text \<open>
  \<open>Date.parse\<close> on the ISO forms the code lets through: a date, a time with optional seconds and
  milliseconds, and \<open>Z\<close>. An instant is its number of milliseconds since 1970. As the engine
  reads it, the day is 1 to 31 and a day past the end of its month runs into the next one.
\<close>

text \<open>A pattern of literal characters, with \<open>#\<close> for a decimal digit.\<close>

definition fits :: "string \<Rightarrow> string \<Rightarrow> bool" where
  "fits pat s = list_all2 (\<lambda>p c. if p = CHR ''#'' then is_dec c else c = p) pat s"

definition number_at :: "nat \<Rightarrow> nat \<Rightarrow> string \<Rightarrow> int" where
  "number_at i n s = int (str_nat (take n (drop i s)))"

definition month_days :: "int list" where
  "month_days = [0, 31, 59, 90, 120, 151, 181, 212, 243, 273, 304, 334]"

definition leap_year :: "int \<Rightarrow> bool" where
  "leap_year y = (4 dvd y \<and> (\<not> 100 dvd y \<or> 400 dvd y))"

definition day_from_year :: "int \<Rightarrow> int" where
  "day_from_year y = 365 * (y - 1970) + (y - 1969) div 4 - (y - 1901) div 100 + (y - 1601) div 400"

definition make_day :: "int \<Rightarrow> int \<Rightarrow> int \<Rightarrow> int" where
  "make_day y m d = day_from_year y + month_days ! nat (m - 1)
     + (if m > 2 \<and> leap_year y then 1 else 0) + (d - 1)"

definition make_time :: "int \<Rightarrow> int \<Rightarrow> int \<Rightarrow> int \<Rightarrow> int" where
  "make_time h mi s ms = ((h * 60 + mi) * 60 + s) * 1000 + ms"

definition ISO_FORMS :: "string list" where
  "ISO_FORMS = [''####-##-##T##:##Z'', ''####-##-##T##:##:##Z'', ''####-##-##T##:##:##.#Z'',
     ''####-##-##T##:##:##.##Z'', ''####-##-##T##:##:##.###Z'']"

definition is_iso :: "string \<Rightarrow> bool" where
  "is_iso s = list_ex (\<lambda>p. fits p s) ISO_FORMS"

definition iso_millis :: "string \<Rightarrow> int" where
  "iso_millis s = int (str_nat (pad_end 3 (take (length s - 21) (drop 20 s))))"

definition date_parse :: "string \<Rightarrow> int option" where
  "date_parse t =
     (let y = number_at 0 4 t; m = number_at 5 2 t; d = number_at 8 2 t; h = number_at 11 2 t;
          mi = number_at 14 2 t; s = (if length t > 17 then number_at 17 2 t else 0);
          ms = (if length t > 20 then iso_millis t else 0) in
      if m < 1 \<or> m > 12 \<or> d < 1 \<or> d > 31 then None
      else if (h > 23 \<or> mi > 59 \<or> s > 59) \<and> \<not> (h = 24 \<and> mi = 0 \<and> s = 0 \<and> ms = 0) then None
      else Some (make_day y m d * 86400000 + make_time h mi s ms))"

end
