(* ===== verification/Forecast.thy ===== *)
theory Forecast
  imports Distribution_Laws Dates Protocol
begin

text \<open>
  Structured forecasts (packages/sdk/src/forecast.ts): parsing what a forecaster sends, counting
  fresh evidence, and asking a provider. The platform's \<open>URL\<close> parser is a parameter. A time
  is held as its instant in milliseconds; its text is the ISO form of the instant.
\<close>

section \<open>The code\<close>

record url =
  url_protocol :: string
  url_username :: string
  url_password :: string
  url_hostname :: string
  url_href :: string

type_synonym url_parser = "string \<Rightarrow> url option"

record evidence =
  ev_id :: string
  ev_title :: string
  ev_source :: string
  ev_url :: "string option"
  ev_observedAt :: int
  ev_text :: string

datatype source_kind = User_source | Fixture_source | Provider_source

datatype confidence = Low_confidence | Medium_confidence | High_confidence

record forecast =
  fc_pool :: string
  fc_joint :: joint
  fc_evidence :: "evidence list"
  fc_assumptions :: "string list"
  fc_uncertainty :: string
  fc_explanation :: string
  fc_confidence :: "confidence option"
  fc_source :: "source_kind \<times> string"
  fc_createdAt :: int

text \<open>The control characters a text loses: all below 32 except tab, line feed and return, and 127.\<close>

definition is_control :: "char \<Rightarrow> bool" where
  "is_control c = (code c \<le> 8 \<or> code c = 11 \<or> code c = 12 \<or> (14 \<le> code c \<and> code c \<le> 31) \<or> code c = 127)"

definition clean :: "string \<Rightarrow> string" where
  "clean s = js_trim (filter (\<lambda>c. \<not> is_control c) s)"

definition text_field :: "json \<Rightarrow> nat \<Rightarrow> nat \<Rightarrow> string res" where
  "text_field v mx mn = (case v of
     JStr s \<Rightarrow> (let t = clean s in if length t < mn \<or> length t > mx then throw Invalid_forecast else ok t)
   | _ \<Rightarrow> throw Invalid_forecast)"

definition isoTime :: "json \<Rightarrow> int res" where
  "isoTime v = (case v of
     JStr s \<Rightarrow> (if \<not> is_iso s then throw Invalid_forecast
       else (case date_parse s of None \<Rightarrow> throw Invalid_forecast | Some t \<Rightarrow> ok t))
   | _ \<Rightarrow> throw Invalid_forecast)"

definition evidenceUrl :: "url_parser \<Rightarrow> json \<Rightarrow> string option res" where
  "evidenceUrl parse v =
     (if v = JNull \<or> v = JUndef \<or> v = JStr [] then ok None
      else (case v of
        JStr s \<Rightarrow>
          (if length s > 512 \<or> list_ex (\<lambda>c. is_ws c \<or> code c \<le> 31 \<or> code c = 127) s then throw Invalid_forecast
           else (case parse s of
             None \<Rightarrow> throw Invalid_forecast
           | Some u \<Rightarrow> (if url_protocol u \<noteq> ''https:'' \<or> url_username u \<noteq> [] \<or> url_password u \<noteq> []
                 \<or> \<not> List.member (url_hostname u) CHR ''.'' then throw Invalid_forecast
               else ok (Some (url_href u)))))
      | _ \<Rightarrow> throw Invalid_forecast))"

text \<open>\<open>v ?? d\<close>.\<close>

definition nullish :: "json \<Rightarrow> json \<Rightarrow> json" where
  "nullish v d = (if v = JUndef \<or> v = JNull then d else v)"

definition parse_evidence :: "url_parser \<Rightarrow> int \<Rightarrow> nat \<times> json \<Rightarrow> evidence res" where
  "parse_evidence parse now = (\<lambda>(i, e).
     bindE (isoTime (jget e ''observedAt'')) (\<lambda>t.
       if t > now + 5 * 60000 then throw Invalid_forecast
       else bindE (text_field (nullish (jget e ''id'') (JStr (''evidence-'' @ nat_str (i + 1)))) 64 1) (\<lambda>ident.
         bindE (text_field (jget e ''title'') 160 3) (\<lambda>title.
         bindE (text_field (jget e ''source'') 120 2) (\<lambda>source.
         bindE (evidenceUrl parse (jget e ''url'')) (\<lambda>u.
         bindE (text_field (nullish (jget e ''note'') (JStr [])) 600 0) (\<lambda>n.
           ok \<lparr>ev_id = ident, ev_title = title, ev_source = source, ev_url = u, ev_observedAt = t, ev_text = n\<rparr>)))))))"

definition confidence_of :: "json \<Rightarrow> confidence option res" where
  "confidence_of v =
     (if v = JUndef \<or> v = JNull then ok None
      else if v = JStr ''low'' then ok (Some Low_confidence)
      else if v = JStr ''medium'' then ok (Some Medium_confidence)
      else if v = JStr ''high'' then ok (Some High_confidence)
      else throw Invalid_forecast)"

definition source_kind_of :: "json \<Rightarrow> source_kind res" where
  "source_kind_of v =
     (if v = JStr ''user'' then ok User_source
      else if v = JStr ''fixture'' then ok Fixture_source
      else if v = JStr ''provider'' then ok Provider_source
      else throw Invalid_forecast)"

text \<open>\<open>Array.isArray(v)\<close>, and what is done with the items.\<close>

definition with_array :: "json \<Rightarrow> (json list \<Rightarrow> 'a res) \<Rightarrow> 'a res" where
  "with_array v f = (case v of JArr xs \<Rightarrow> f xs | _ \<Rightarrow> throw Invalid_forecast)"

text \<open>The fields after the evidence and the assumptions, and the record.\<close>

definition parse_rest :: "json \<Rightarrow> string \<Rightarrow> joint \<Rightarrow> evidence list \<Rightarrow> string list \<Rightarrow> forecast res" where
  "parse_rest v pool j evidence assumptions =
     bindE (confidence_of (jget v ''selfReportedConfidence'')) (\<lambda>conf.
     bindE (source_kind_of (jget (jget v ''source'') ''kind'')) (\<lambda>kind.
     bindE (text_field (jget v ''uncertainty'') 600 3) (\<lambda>uncertainty.
     bindE (text_field (jget v ''explanation'') 1200 10) (\<lambda>explanation.
     bindE (text_field (jget (jget v ''source'') ''name'') 64 1) (\<lambda>name.
     bindE (isoTime (jget v ''createdAt'')) (\<lambda>created.
       ok \<lparr>fc_pool = pool, fc_joint = j, fc_evidence = evidence, fc_assumptions = assumptions,
         fc_uncertainty = uncertainty, fc_explanation = explanation, fc_confidence = conf,
         fc_source = (kind, name), fc_createdAt = created\<rparr>))))))"

definition parseForecast :: "url_parser \<Rightarrow> json \<Rightarrow> int \<Rightarrow> string \<Rightarrow> int \<Rightarrow> forecast res" where
  "parseForecast parse v eventCount pool now =
     (if \<not> (case v of JObj _ \<Rightarrow> True | _ \<Rightarrow> False) then throw Invalid_forecast
      else if jget v ''schema'' \<noteq> JStr ''flurbo.agent-forecast.v1'' then throw Invalid_forecast
      else if \<not> is_jstr (jget v ''pool'') \<or> lower (jstr_of (jget v ''pool'')) \<noteq> pool then throw Cross_pool
      else bindE (jointFromJSON (jget v ''joint'') (Some eventCount)) (\<lambda>j.
        with_array (jget v ''evidence'') (\<lambda>es.
          if length es > 12 then throw Invalid_forecast
          else bindE (mapE (parse_evidence parse now) (enumerate 0 es)) (\<lambda>evidence.
            with_array (jget v ''assumptions'') (\<lambda>as.
              bindE (mapE (\<lambda>a. text_field a 300 3) (take 8 as)) (\<lambda>assumptions.
                if length as > 8 then throw Invalid_forecast
                else parse_rest v pool j evidence assumptions))))))"

text \<open>The evidence observed at most \<open>maxAgeDays\<close> days before \<open>now\<close> (total, fresh).\<close>

definition evidenceSummary :: "forecast \<Rightarrow> int \<Rightarrow> int \<Rightarrow> nat \<times> nat" where
  "evidenceSummary f now maxAgeDays =
     (length (fc_evidence f),
      length (filter (\<lambda>e. now - ev_observedAt e \<le> maxAgeDays * 86400000) (fc_evidence f)))"

datatype abstain_provider = Provider_timeout | Provider_rate_limited | Provider_gone | Provider_invalid

datatype provider_outcome = Forecast_ok forecast | Provider_abstains abstain_provider

definition is_rate_limited :: "js_error \<Rightarrow> bool" where
  "is_rate_limited e = (case e of Flurbo f \<Rightarrow> err_code f = Rate_limited | Other_error _ \<Rightarrow> False)"

text \<open>
  \<open>requestForecast\<close>: \<open>answer\<close> is what the provider returned or threw, \<open>timed_out\<close> whether its
  time had run out by then.
\<close>

definition requestForecast :: "url_parser \<Rightarrow> json res \<Rightarrow> bool \<Rightarrow> int \<Rightarrow> string \<Rightarrow> int \<Rightarrow> provider_outcome" where
  "requestForecast parse answer timed_out eventCount pool now =
     (case answer of
        Inl e \<Rightarrow>
          (if timed_out then Provider_abstains Provider_timeout
           else if is_rate_limited e then Provider_abstains Provider_rate_limited
           else Provider_abstains Provider_gone)
      | Inr raw \<Rightarrow> (case parseForecast parse raw eventCount pool now of
          Inl _ \<Rightarrow> Provider_abstains Provider_invalid
        | Inr f \<Rightarrow> Forecast_ok f))"

text \<open>The offline provider: the key of a request, and one answer with the request counted.\<close>

fun join_commas :: "string list \<Rightarrow> string" where
  "join_commas [] = []"
| "join_commas [x] = x"
| "join_commas (x # xs) = x @ '','' @ join_commas xs"

definition fixture_key :: "string \<Rightarrow> nat list \<Rightarrow> string" where
  "fixture_key pool events = pool @ '':'' @ join_commas (map nat_str events)"

definition fixture_forecast :: "(string \<times> json) list \<Rightarrow> nat \<Rightarrow> string \<Rightarrow> nat list \<Rightarrow> json res \<times> nat" where
  "fixture_forecast fixtures requests pool events =
     (case map_of fixtures (fixture_key pool events) of
        None \<Rightarrow> throw Provider_unavailable | Some f \<Rightarrow> ok f, requests + 1)"

definition makeForecast :: "forecast \<Rightarrow> forecast res" where
  "makeForecast inp = bindE (assertJoint (fc_joint inp) None) (\<lambda>_. ok inp)"

section \<open>What a parsed forecast satisfies\<close>

definition clean_text :: "nat \<Rightarrow> nat \<Rightarrow> string \<Rightarrow> bool" where
  "clean_text mn mx s = (mn \<le> length s \<and> length s \<le> mx \<and> list_all (\<lambda>c. \<not> is_control c) s)"

definition wf_evidence :: "int \<Rightarrow> evidence \<Rightarrow> bool" where
  "wf_evidence now e = (clean_text 1 64 (ev_id e) \<and> clean_text 3 160 (ev_title e) \<and> clean_text 2 120 (ev_source e)
     \<and> clean_text 0 600 (ev_text e) \<and> ev_observedAt e \<le> now + 300000)"

definition wf_forecast :: "int \<Rightarrow> string \<Rightarrow> int \<Rightarrow> forecast \<Rightarrow> bool" where
  "wf_forecast eventCount pool now f = (fc_pool f = pool \<and> wf_joint (Some eventCount) (fc_joint f)
     \<and> length (fc_evidence f) \<le> 12 \<and> list_all (wf_evidence now) (fc_evidence f)
     \<and> length (fc_assumptions f) \<le> 8 \<and> list_all (clean_text 3 300) (fc_assumptions f)
     \<and> clean_text 3 600 (fc_uncertainty f) \<and> clean_text 10 1200 (fc_explanation f)
     \<and> clean_text 1 64 (snd (fc_source f)))"

lemma set_js_trim: "set (js_trim s) \<subseteq> set s"
  unfolding js_trim_def by (auto dest!: set_dropWhileD)

lemma text_field_ok: "text_field v mx mn = ok t \<Longrightarrow> clean_text mn mx t"
  using set_js_trim by (auto simp: text_field_def clean_text_def clean_def Let_def list_all_iff
      split: json.splits if_splits dest!: subsetD [OF set_js_trim])

lemma parse_evidence_wf: "parse_evidence parse now x = ok e \<Longrightarrow> wf_evidence now e"
  by (cases x) (auto simp: parse_evidence_def wf_evidence_def dest: text_field_ok split: if_splits)

lemma mapE_all: "mapE f xs = ok ys \<Longrightarrow> (\<And>x y. f x = ok y \<Longrightarrow> P y) \<Longrightarrow> list_all P ys"
  by (induction xs arbitrary: ys) auto

lemma with_array_ok: "with_array v f = ok r \<longleftrightarrow> (\<exists>xs. v = JArr xs \<and> f xs = ok r)"
  by (cases v) (auto simp: with_array_def)

lemma parse_rest_ok:
  assumes "parse_rest v pool j es as = ok f"
  shows "fc_pool f = pool \<and> fc_joint f = j \<and> fc_evidence f = es \<and> fc_assumptions f = as
    \<and> clean_text 3 600 (fc_uncertainty f) \<and> clean_text 10 1200 (fc_explanation f) \<and> clean_text 1 64 (snd (fc_source f))"
  using assms by (auto simp: parse_rest_def dest: text_field_ok)

lemma parseForecast_wf:
  assumes "parseForecast parse v n pool now = ok f" shows "wf_forecast n pool now f"
proof -
  obtain j es as evs ass where f: "jointFromJSON (jget v ''joint'') (Some n) = ok j" "length es \<le> 12"
    "mapE (parse_evidence parse now) (enumerate 0 es) = ok evs"
    "mapE (\<lambda>a. text_field a 300 3) (take 8 as) = ok ass" "length as \<le> 8" "parse_rest v pool j evs ass = ok f"
    using assms by (auto simp: parseForecast_def with_array_ok not_less split: if_splits)
  then have "list_all (wf_evidence now) evs" "list_all (clean_text 3 300) ass"
    by (auto intro: mapE_all [OF f(3)] mapE_all [OF f(4)] parse_evidence_wf text_field_ok)
  then show ?thesis
    using f(2,5) mapE_length [OF f(3)] mapE_length [OF f(4)] jointFromJSON_wf [OF f(1)] parse_rest_ok [OF f(6)]
    by (simp add: wf_forecast_def)
qed

section \<open>Which errors\<close>

text \<open>A result whose only errors are the two the forecast parser is allowed to throw.\<close>

definition forecast_errors :: "'a res \<Rightarrow> bool" where
  "forecast_errors r = (case r of Inr _ \<Rightarrow> True | Inl e \<Rightarrow> e = flurbo Invalid_forecast \<or> e = flurbo Cross_pool)"

lemma forecast_errors_simps [simp]:
  "forecast_errors (ok x)"
  "forecast_errors (throw Invalid_forecast)"
  "forecast_errors (throw Cross_pool)"
  by (simp_all add: forecast_errors_def)

lemma forecast_errors_bind: "forecast_errors m \<Longrightarrow> (\<And>x. m = ok x \<Longrightarrow> forecast_errors (f x)) \<Longrightarrow> forecast_errors (bindE m f)"
  by (cases m) (auto simp: forecast_errors_def)

lemma forecast_errors_mapE: "(\<And>x. forecast_errors (f x)) \<Longrightarrow> forecast_errors (mapE f xs)"
  by (induction xs) (auto intro!: forecast_errors_bind)

lemma forecast_errors_text: "forecast_errors (text_field v mx mn)"
  by (simp add: text_field_def Let_def split: json.split)

lemma forecast_errors_time: "forecast_errors (isoTime v)"
  by (simp add: isoTime_def split: json.split option.split)

lemma forecast_errors_url: "forecast_errors (evidenceUrl parse v)"
  by (simp add: evidenceUrl_def split: json.split option.split)

lemma forecast_errors_choice: "forecast_errors (confidence_of v)" "forecast_errors (source_kind_of v)"
  by (simp_all add: confidence_of_def source_kind_of_def)

lemma forecast_errors_joint: "forecast_errors (jointFromJSON v n)"
  by (simp add: jointFromJSON_def assertJoint_def Let_def split: json.split)

lemmas forecast_errors_intros = forecast_errors_bind forecast_errors_mapE forecast_errors_text forecast_errors_time
  forecast_errors_url forecast_errors_choice forecast_errors_joint

lemma forecast_errors_evidence: "forecast_errors (parse_evidence parse now x)"
  by (cases x) (auto simp: parse_evidence_def intro!: forecast_errors_intros)

lemma forecast_errors_rest: "forecast_errors (parse_rest v pool j es as)"
  by (auto simp: parse_rest_def intro!: forecast_errors_intros)

lemma forecast_errors_array: "(\<And>xs. forecast_errors (f xs)) \<Longrightarrow> forecast_errors (with_array v f)"
  by (simp add: with_array_def split: json.split)

section \<open>Properties\<close>

text \<open>Whatever a forecaster sends, reading it ends in a well-formed forecast for the asked pool, or in
  one of two errors: the forecast is invalid, or it belongs to another pool. No other error and
  no malformed forecast gets through: the joint distribution is coherent, every text is bounded
  and free of control characters, and no evidence lies more than five minutes in the future.\<close>

theorem forecast_parse_total:
  "case parseForecast parse v n pool now of
     Inr f \<Rightarrow> wf_forecast n pool now f
   | Inl e \<Rightarrow> e = flurbo Invalid_forecast \<or> e = flurbo Cross_pool"
proof -
  have "forecast_errors (parseForecast parse v n pool now)"
    by (auto simp: parseForecast_def
        intro!: forecast_errors_intros forecast_errors_array forecast_errors_evidence forecast_errors_rest)
  then show ?thesis using parseForecast_wf [of parse v n pool now]
    by (simp add: forecast_errors_def split: sum.splits)
qed

end
