(* ===== verification/Strategy.thy ===== *)
theory Strategy
  imports Market_Laws Forecast "HOL-Library.AList" "HOL-Library.List_Lexorder" "HOL-Library.Char_ord"
begin

text \<open>
  The reference strategy "joint-edge" (packages/sdk/src/strategy.ts): which claims it considers,
  what it computes for each from a forecast and the pool's quotes, and the one purchase it
  proposes or its reasons to abstain. The \<open>typeof\<close> tests of \<open>assertConfig\<close> hold by the types of
  the record; texts that are only displayed (schema, assumptions, explanation) are left out.
\<close>

record strategy_config =
  sc_quantity :: int
  sc_slippageBps :: int
  sc_minEdgeBps :: int
  sc_minEdge :: int
  sc_maxCost :: int
  sc_minEvidence :: int
  sc_maxEvidenceAgeDays :: int
  sc_includeSingles :: bool

definition DEFAULT_CONFIG :: strategy_config where
  "DEFAULT_CONFIG = \<lparr>sc_quantity = 1000000, sc_slippageBps = 50, sc_minEdgeBps = 500, sc_minEdge = 10000,
     sc_maxCost = 5000000, sc_minEvidence = 1, sc_maxEvidenceAgeDays = 14, sc_includeSingles = True\<rparr>"

definition assertConfig :: "strategy_config \<Rightarrow> int option \<Rightarrow> strategy_config res" where
  "assertConfig c maxTradeQuantity =
     (if sc_quantity c < 10000 \<or> sc_quantity c > 100000000 then throw Invalid_input
      else if (case maxTradeQuantity of None \<Rightarrow> False | Some m \<Rightarrow> sc_quantity c > m) then throw Invalid_input
      else if \<not> List.member [10, 50, 100] (sc_slippageBps c) then throw Invalid_input
      else if sc_minEdgeBps c < 0 \<or> sc_minEdgeBps c > 10000 then throw Invalid_input
      else if sc_minEdge c < 0 then throw Invalid_input
      else if sc_maxCost c \<le> 0 \<or> sc_maxCost c > 1000000000 then throw Invalid_input
      else if sc_minEvidence c < 0 \<or> sc_minEvidence c > 12 then throw Invalid_input
      else if sc_maxEvidenceAgeDays c < 1 \<or> sc_maxEvidenceAgeDays c > 365 then throw Invalid_input
      else ok c)"

datatype abstain_reason =
    Reason_market_closed | Reason_insufficient_evidence | Reason_no_supported_claim
  | Reason_quote_unavailable | Reason_quote_expired | Reason_budget_exceeded
  | Reason_edge_below_threshold | Reason_cross_pool

datatype evaluation_status =
    Eligible | Status_quote_unavailable | Status_quote_expired | Status_budget_exceeded | Status_edge_below

record evaluation =
  el_claim :: claim
  el_shape :: claim_shape
  el_forecastPpm :: int
  el_status :: evaluation_status
  el_quote :: "int option"
  el_worstCost :: "int option"
  el_averagePpm :: "int option"
  el_expectedPayout :: "int option"
  el_edge :: "int option"
  el_edgeBps :: "int option"

record proposal =
  pp_claim :: claim
  pp_quantity :: int
  pp_quote :: int
  pp_worstCost :: int
  pp_slippageBps :: int
  pp_quoteExpiresAt :: int
  pp_forecastPpm :: int
  pp_averagePpm :: int
  pp_expectedPayout :: int
  pp_edge :: int
  pp_edgeBps :: int
  pp_winning :: "answer list list"

record relationship =
  re_a :: int
  re_b :: int
  re_forecastBoth :: int
  re_forecastIndependent :: int
  re_impliedAvailable :: bool
  re_impliedBoth :: "int option"
  re_impliedIndependent :: "int option"

record decision =
  dc_pool :: string
  dc_decidedAt :: int
  dc_snapshot :: snapshot
  dc_reasons :: "abstain_reason list"
  dc_proposal :: "proposal option"
  dc_evaluations :: "evaluation list"
  dc_relationship :: "relationship option"

text \<open>The decision proposes exactly when it has a proposal; \<open>outcome\<close> repeats that.\<close>

section \<open>Candidate claims\<close>

type_synonym claim_table = "(string \<times> claim) list"

text \<open>\<open>out.set(claimKey(c), c)\<close>: a Map keeps its keys in the order they were first set.\<close>

definition add_claim :: "claim_table \<Rightarrow> claim res \<Rightarrow> claim_table res" where
  "add_claim out r = bindE r (\<lambda>c. ok (AList.update (claimKey c) c out))"

definition yes_no :: "int \<Rightarrow> bool \<Rightarrow> answer" where
  "yes_no e b = \<lparr>ans_event = e, ans_yes = b\<rparr>"

fun pairs_of :: "'a list \<Rightarrow> ('a \<times> 'a) list" where
  "pairs_of [] = []"
| "pairs_of (x # xs) = map (Pair x) xs @ pairs_of xs"

definition single_candidates :: "string \<Rightarrow> int \<Rightarrow> int list \<Rightarrow> claim res list" where
  "single_candidates pool n events = concat (map (\<lambda>e. map (\<lambda>b. allOf pool n [yes_no e b]) [True, False]) events)"

definition pair_candidates :: "string \<Rightarrow> int \<Rightarrow> int \<times> int \<Rightarrow> claim res list" where
  "pair_candidates pool n = (\<lambda>(a, b).
     concat (map (\<lambda>ya. map (\<lambda>yb. allOf pool n [yes_no a ya, yes_no b yb]) [True, False]) [True, False])
     @ [anyOf pool n [yes_no a True, yes_no b True], exactlyOne pool n [yes_no a True, yes_no b True]])"

definition candidateClaims :: "string \<Rightarrow> int \<Rightarrow> int list \<Rightarrow> bool \<Rightarrow> claim list res" where
  "candidateClaims pool n events includeSingles =
     bindE (foldE add_claim []
       ((if includeSingles then single_candidates pool n events else [])
        @ concat (map (pair_candidates pool n) (pairs_of events))))
     (\<lambda>out. ok (take 24 (map snd out)))"

section \<open>The decision\<close>

text \<open>The pool's implied pair values are used only for the forecast's own two events.\<close>

definition usable_implied :: "forecast \<Rightarrow> int \<Rightarrow> int \<Rightarrow> pair_implied option \<Rightarrow> pair_implied option" where
  "usable_implied f a b implied = (case implied of
     None \<Rightarrow> None
   | Some m \<Rightarrow> if im_pool m = fc_pool f \<and> ((im_a m = a \<and> im_b m = b) \<or> (im_a m = b \<and> im_b m = a)) then Some m else None)"

definition pairRelationship :: "forecast \<Rightarrow> pair_implied option \<Rightarrow> relationship option res" where
  "pairRelationship f implied = (case joint_events (fc_joint f) of
     [a, b] \<Rightarrow>
       bindE (marginal (fc_joint f) a) (\<lambda>pa. bindE (marginal (fc_joint f) b) (\<lambda>pb.
       bindE (both (fc_joint f) a b) (\<lambda>ab.
         let usable = usable_implied f a b implied in
         ok (Some \<lparr>re_a = a, re_b = b, re_forecastBoth = ab, re_forecastIndependent = tdiv (pa * pb) PPM,
           re_impliedAvailable = (usable \<noteq> None),
           re_impliedBoth = Option.bind usable im_both, re_impliedIndependent = Option.bind usable im_independent\<rparr>))))
   | _ \<Rightarrow> ok None)"

record decide_input =
  di_market :: market
  di_forecast :: forecast
  di_config :: strategy_config
  di_now :: int
  di_quotes :: "string \<Rightarrow> quote_result option"
  di_implied :: "pair_implied option"

definition no_numbers :: "claim \<Rightarrow> claim_shape \<Rightarrow> int \<Rightarrow> evaluation_status \<Rightarrow> evaluation" where
  "no_numbers c shape p st = \<lparr>el_claim = c, el_shape = shape, el_forecastPpm = p, el_status = st,
     el_quote = None, el_worstCost = None, el_averagePpm = None, el_expectedPayout = None, el_edge = None, el_edgeBps = None\<rparr>"

text \<open>The quote is one this decision may use: a buy of this claim and quantity, of the market's block.\<close>

definition quote_matches :: "decide_input \<Rightarrow> claim \<Rightarrow> quote \<Rightarrow> bool" where
  "quote_matches inp c q = (q_side q = Buy_side \<and> q_quantity q = sc_quantity (di_config inp)
     \<and> claimKey (q_claim q) = claimKey c \<and> sn_hash (q_snapshot q) = sn_hash (mk_snapshot (di_market inp)))"

definition evaluate_quoted :: "decide_input \<Rightarrow> claim \<Rightarrow> claim_shape \<Rightarrow> int \<Rightarrow> quote \<Rightarrow> evaluation res" where
  "evaluate_quoted inp c shape p q =
     (let cfg = di_config inp in
      bindE (ceilDiv (q_amount q * (10000 + sc_slippageBps cfg)) 10000) (\<lambda>worst.
      let expected = tdiv (sc_quantity cfg * p) PPM; edge = expected - worst in
      bindE (big_div (edge * 10000) worst) (\<lambda>bps.
      bindE (big_div (q_amount q * PPM) (sc_quantity cfg)) (\<lambda>average.
      ok \<lparr>el_claim = c, el_shape = shape, el_forecastPpm = p,
        el_status = (if worst > sc_maxCost cfg then Status_budget_exceeded
          else if bps < sc_minEdgeBps cfg \<or> edge < sc_minEdge cfg then Status_edge_below else Eligible),
        el_quote = Some (q_amount q), el_worstCost = Some worst, el_averagePpm = Some average,
        el_expectedPayout = Some expected, el_edge = Some edge, el_edgeBps = Some bps\<rparr>))))"

fun evaluate_result :: "decide_input \<Rightarrow> claim \<Rightarrow> claim_shape \<Rightarrow> int \<Rightarrow> quote_result option \<Rightarrow> evaluation res" where
  "evaluate_result inp c shape p (Some (Quoted q)) =
     (if \<not> quote_matches inp c q then ok (no_numbers c shape p Status_quote_unavailable)
      else if di_now inp \<ge> q_expires q then ok (no_numbers c shape p Status_quote_expired)
      else evaluate_quoted inp c shape p q)"
| "evaluate_result inp c shape p _ = ok (no_numbers c shape p Status_quote_unavailable)"

definition evaluate_claim :: "decide_input \<Rightarrow> claim \<Rightarrow> evaluation res" where
  "evaluate_claim inp c =
     (let n = int (length (mk_events (di_market inp))) in
      bindE (assertClaim c n) (\<lambda>_.
      bindE (claimProbability (fc_joint (di_forecast inp)) c) (\<lambda>p.
      bindE (claimShape c n) (\<lambda>shape.
      evaluate_result inp c shape p (di_quotes inp (claimKey c))))))"

text \<open>The order of the eligible: the largest edge first, equal edges by the claim's key.\<close>

definition edge_of :: "evaluation \<Rightarrow> int" where
  "edge_of e = (case el_edge e of None \<Rightarrow> 0 | Some x \<Rightarrow> x)"

definition best_first :: "evaluation list \<Rightarrow> evaluation list" where
  "best_first = sort_key (\<lambda>e. (- edge_of e, claimKey (el_claim e)))"

definition status_reasons :: "(abstain_reason \<times> evaluation_status) list" where
  "status_reasons = [(Reason_quote_expired, Status_quote_expired), (Reason_quote_unavailable, Status_quote_unavailable),
     (Reason_budget_exceeded, Status_budget_exceeded), (Reason_edge_below_threshold, Status_edge_below)]"

definition abstain :: "decide_input \<Rightarrow> abstain_reason list \<Rightarrow> evaluation list \<Rightarrow> relationship option \<Rightarrow> decision" where
  "abstain inp reasons evaluations rel = \<lparr>dc_pool = mk_pool (di_market inp), dc_decidedAt = di_now inp,
     dc_snapshot = mk_snapshot (di_market inp), dc_reasons = reasons, dc_proposal = None,
     dc_evaluations = evaluations, dc_relationship = rel\<rparr>"

definition propose :: "decide_input \<Rightarrow> evaluation \<Rightarrow> proposal res" where
  "propose inp best =
     (let expires = (case di_quotes inp (claimKey (el_claim best)) of
        Some (Quoted q) \<Rightarrow> q_expires q | _ \<Rightarrow> di_now inp) in
      bindE (winningCombinations (el_claim best) (int (length (mk_events (di_market inp))))) (\<lambda>winning.
      ok \<lparr>pp_claim = el_claim best, pp_quantity = sc_quantity (di_config inp), pp_quote = the (el_quote best),
        pp_worstCost = the (el_worstCost best), pp_slippageBps = sc_slippageBps (di_config inp),
        pp_quoteExpiresAt = expires, pp_forecastPpm = el_forecastPpm best, pp_averagePpm = the (el_averagePpm best),
        pp_expectedPayout = the (el_expectedPayout best), pp_edge = the (el_edge best),
        pp_edgeBps = the (el_edgeBps best), pp_winning = winning\<rparr>))"

definition decide_best :: "decide_input \<Rightarrow> relationship option \<Rightarrow> evaluation list \<Rightarrow> decision res" where
  "decide_best inp rel evaluations =
     (case best_first (filter (\<lambda>e. el_status e = Eligible) evaluations) of
        [] \<Rightarrow> ok (abstain inp (map fst (filter (\<lambda>(_, s). List.member (map el_status evaluations) s) status_reasons))
            evaluations rel)
      | best # _ \<Rightarrow> bindE (propose inp best) (\<lambda>p.
          ok \<lparr>dc_pool = mk_pool (di_market inp), dc_decidedAt = di_now inp, dc_snapshot = mk_snapshot (di_market inp),
            dc_reasons = [], dc_proposal = Some p, dc_evaluations = evaluations, dc_relationship = rel\<rparr>))"

definition trading_closed :: "market \<Rightarrow> int \<Rightarrow> bool" where
  "trading_closed m now = (\<not> mk_open m \<or> mk_resolved m \<or> now \<ge> mk_closesAt m)"

definition decide :: "decide_input \<Rightarrow> decision res" where
  "decide inp =
     (let m = di_market inp; f = di_forecast inp; cfg = di_config inp; now = di_now inp in
      bindE (assertConfig cfg None) (\<lambda>_.
      if fc_pool f \<noteq> mk_pool m then ok (abstain inp [Reason_cross_pool] [] None)
      else bindE (pairRelationship f (di_implied inp)) (\<lambda>rel.
        if trading_closed m now then ok (abstain inp [Reason_market_closed] [] rel)
        else if int (snd (evidenceSummary f (now * 1000) (sc_maxEvidenceAgeDays cfg))) < sc_minEvidence cfg
        then ok (abstain inp [Reason_insufficient_evidence] [] rel)
        else bindE (candidateClaims (mk_pool m) (int (length (mk_events m))) (joint_events (fc_joint f)) (sc_includeSingles cfg))
          (\<lambda>all. let candidates = filter (covers (fc_joint f)) all in
            if candidates = [] then ok (abstain inp [Reason_no_supported_claim] [] rel)
            else bindE (mapE (evaluate_claim inp) candidates) (decide_best inp rel)))))"

end
