(* ===== verification/Strategy_Laws.thy ===== *)
theory Strategy_Laws
  imports Strategy
begin

text \<open>
  The strategy never throws on parsed inputs, proposes only what its limits allow, and proposes
  the best eligible claim.
\<close>

section \<open>Candidates\<close>

lemma assertConfig_ok: "assertConfig c None = ok d \<longleftrightarrow> d = c \<and> 10000 \<le> sc_quantity c \<and> sc_quantity c \<le> 100000000
    \<and> sc_slippageBps c \<in> {10, 50, 100} \<and> 0 \<le> sc_minEdgeBps c \<and> sc_minEdgeBps c \<le> 10000 \<and> 0 \<le> sc_minEdge c
    \<and> 0 < sc_maxCost c \<and> sc_maxCost c \<le> 1000000000 \<and> 0 \<le> sc_minEvidence c \<and> sc_minEvidence c \<le> 12
    \<and> 1 \<le> sc_maxEvidenceAgeDays c \<and> sc_maxEvidenceAgeDays c \<le> 365"
  by (auto simp: assertConfig_def)

text \<open>A claim the canonical encoder built for this pool.\<close>

definition encoded :: "string \<Rightarrow> int \<Rightarrow> claim \<Rightarrow> bool" where
  "encoded pool n c = (\<exists>legs rule. encode pool n legs rule = ok c)"

lemma encoded_wf: "encoded pool n c \<Longrightarrow> wf_claim n c \<and> claim_pool c = pool"
  unfolding encoded_def using encode_wf by (auto simp: encode_ok_iff)

lemma set_pairs_of: "(a, b) \<in> set (pairs_of xs) \<Longrightarrow> a \<in> set xs \<and> b \<in> set xs"
  by (induction xs) auto

lemma pairs_of_distinct: "distinct xs \<Longrightarrow> (a, b) \<in> set (pairs_of xs) \<Longrightarrow> a \<noteq> b"
  by (induction xs) (auto dest: set_pairs_of)

lemma single_candidates_encoded: "ok c \<in> set (single_candidates pool n events) \<Longrightarrow> encoded pool n c"
  by (auto simp: single_candidates_def allOf_def encoded_def) metis+

lemma pair_candidates_encoded: "ok c \<in> set (pair_candidates pool n ab) \<Longrightarrow> encoded pool n c"
  by (cases ab) (auto simp: pair_candidates_def allOf_def anyOf_def exactlyOne_def encoded_def; metis)+

lemma set_AList_update: "set (map snd (AList.update k c out)) \<subseteq> insert c (set (map snd out))"
  by (induction out) auto

lemma add_claim_ok: "add_claim out r = ok out' \<longleftrightarrow> (\<exists>c. r = ok c \<and> out' = AList.update (claimKey c) c out)"
  by (auto simp: add_claim_def)

lemma foldE_add_claim:
  assumes "foldE add_claim out rs = ok out'" "\<forall>c. ok c \<in> set rs \<longrightarrow> P c" "\<forall>c\<in>set (map snd out). P c"
  shows "\<forall>c\<in>set (map snd out'). P c"
  using assms
proof (induction rs arbitrary: out)
  case Nil
  then show ?case by simp
next
  case (Cons r rs)
  obtain t where t: "add_claim out r = ok t" and rest: "foldE add_claim t rs = ok out'"
    using Cons.prems(1) by auto
  obtain c where c: "r = ok c" "t = AList.update (claimKey c) c out" using t by (auto simp: add_claim_ok)
  have "P c" using Cons.prems(2) c(1) by simp
  then have "\<forall>d\<in>set (map snd t). P d"
    using Cons.prems(3) set_AList_update [of "claimKey c" c out] unfolding c(2) by blast
  moreover have "\<forall>d. ok d \<in> set rs \<longrightarrow> P d" using Cons.prems(2) by simp
  ultimately show ?case using Cons.IH [OF rest] by blast
qed

lemma candidates_encoded:
  assumes "candidateClaims pool n events singles = ok cs" "c \<in> set cs"
  shows "encoded pool n c"
proof -
  obtain out where out: "foldE add_claim [] ((if singles then single_candidates pool n events else [])
      @ concat (map (pair_candidates pool n) (pairs_of events))) = ok out" and cs: "cs = take 24 (map snd out)"
    using assms(1) by (auto simp: candidateClaims_def)
  have "\<forall>c\<in>set (map snd out). encoded pool n c"
    by (rule foldE_add_claim [OF out])
      (auto split: if_splits dest: single_candidates_encoded pair_candidates_encoded)
  then show ?thesis using assms(2) set_take_subset [of 24 "map snd out"] unfolding cs by blast
qed

lemma foldE_add_claim_total: "\<forall>r\<in>set rs. \<exists>c. r = ok c \<Longrightarrow> \<exists>out'. foldE add_claim out rs = ok out'"
proof (induction rs arbitrary: out)
  case (Cons r rs)
  then obtain c where "r = ok c" by auto
  then show ?case using Cons by (simp add: add_claim_def [of out])
qed simp

lemma legs_encode: "is_0x_lhex 40 pool \<Longrightarrow> legs_ok n legs rule \<Longrightarrow> \<exists>c. encode pool n legs rule = ok c"
  by (simp add: encode_ok_iff)

lemma candidateClaims_total:
  assumes pool: "is_0x_lhex 40 pool" and n: "n = 2 \<or> n = 3 \<or> n = 4"
    and ev: "distinct events" "\<forall>e\<in>set events. 0 \<le> e \<and> e < n"
  shows "\<exists>cs. candidateClaims pool n events singles = ok cs"
proof -
  have one: "\<exists>c. allOf pool n [yes_no e b] = ok c" if "e \<in> set events" for e b
    using that ev n unfolding allOf_def by (intro legs_encode [OF pool]) (simp add: legs_ok_def yes_no_def)
  have two: "\<exists>c. encode pool n [yes_no a ya, yes_no b yb] rule = ok c"
    if "(a, b) \<in> set (pairs_of events)" for a b ya yb rule
    using set_pairs_of [OF that] pairs_of_distinct [OF ev(1) that] ev(2) n
    by (intro legs_encode [OF pool]) (auto simp: legs_ok_def yes_no_def)
  have "\<forall>r\<in>set (single_candidates pool n events). \<exists>c. r = ok c"
    using one by (auto simp: single_candidates_def)
  moreover have "\<forall>r\<in>set (pair_candidates pool n ab). \<exists>c. r = ok c" if "ab \<in> set (pairs_of events)" for ab
    using two that by (cases ab) (auto simp: pair_candidates_def allOf_def anyOf_def exactlyOne_def)
  ultimately have "\<exists>out. foldE add_claim [] ((if singles then single_candidates pool n events else [])
      @ concat (map (pair_candidates pool n) (pairs_of events))) = ok out"
    by (intro foldE_add_claim_total) auto
  then show ?thesis by (auto simp: candidateClaims_def)
qed

section \<open>Evaluations\<close>

text \<open>What an evaluation marked eligible has been checked for, against the quote it used.\<close>

definition clears :: "decide_input \<Rightarrow> evaluation \<Rightarrow> quote \<Rightarrow> bool" where
  "clears inp e q = (let cfg = di_config inp; worst = buyLimit (q_amount q) (sc_slippageBps cfg);
       edge = sc_quantity cfg * el_forecastPpm e div PPM - worst in
     di_quotes inp (claimKey (el_claim e)) = Some (Quoted q) \<and> quote_matches inp (el_claim e) q
     \<and> di_now inp < q_expires q \<and> claimProbability (fc_joint (di_forecast inp)) (el_claim e) = ok (el_forecastPpm e)
     \<and> el_quote e = Some (q_amount q) \<and> el_worstCost e = Some worst \<and> el_edge e = Some edge
     \<and> worst \<le> sc_maxCost cfg \<and> sc_minEdge cfg \<le> edge \<and> el_edgeBps e = Some (tdiv (edge * 10000) worst)
     \<and> sc_minEdgeBps cfg \<le> tdiv (edge * 10000) worst)"

lemma no_numbers_simps [simp]: "el_claim (no_numbers c s p st) = c" "el_status (no_numbers c s p st) = st"
  by (simp_all add: no_numbers_def)

lemma evaluate_quoted_claim: "evaluate_quoted inp c shape p q = ok e \<Longrightarrow> el_claim e = c"
  by (auto simp: evaluate_quoted_def Let_def)

lemma evaluate_result_claim: "evaluate_result inp c shape p r = ok e \<Longrightarrow> el_claim e = c"
  by (cases "(inp, c, shape, p, r)" rule: evaluate_result.cases)
    (auto split: if_splits dest: evaluate_quoted_claim)

lemma evaluate_claim_claim: "evaluate_claim inp c = ok e \<Longrightarrow> el_claim e = c"
  by (auto simp: evaluate_claim_def Let_def dest: evaluate_result_claim)

lemma evaluate_result_eligible:
  assumes "evaluate_result inp c shape p r = ok e" "el_status e = Eligible"
  obtains q where "r = Some (Quoted q)" "quote_matches inp c q" "di_now inp < q_expires q"
    "evaluate_quoted inp c shape p q = ok e"
  using assms by (cases "(inp, c, shape, p, r)" rule: evaluate_result.cases) (auto split: if_splits)

lemma eligible_edge: "evaluate_claim inp c = ok e \<Longrightarrow> el_status e = Eligible \<Longrightarrow> \<exists>x. el_edge e = Some x"
  by (auto simp: evaluate_claim_def Let_def evaluate_quoted_def elim!: evaluate_result_eligible)

lemma evaluate_claim_eligible:
  assumes ev: "evaluate_claim inp c = ok e" and el: "el_status e = Eligible"
    and cfg: "0 < sc_quantity (di_config inp)" "0 \<le> sc_slippageBps (di_config inp)"
    and p: "\<And>p. claimProbability (fc_joint (di_forecast inp)) c = ok p \<Longrightarrow> 0 \<le> p"
  shows "\<exists>q. clears inp e q"
proof -
  obtain p shape q where cp: "claimProbability (fc_joint (di_forecast inp)) c = ok p"
    and q: "di_quotes inp (claimKey c) = Some (Quoted q)" "quote_matches inp c q" "di_now inp < q_expires q"
    and e: "evaluate_quoted inp c shape p q = ok e"
    using ev el by (auto simp: evaluate_claim_def Let_def elim: evaluate_result_eligible)
  obtain worst where w: "ceilDiv (q_amount q * (10000 + sc_slippageBps (di_config inp))) 10000 = ok worst"
    using e by (auto simp: evaluate_quoted_def Let_def)
  have "0 \<le> q_amount q" using w cfg(2) by (auto simp: ceilDiv_def not_less zero_le_mult_iff split: if_splits)
  then have worst: "worst = buyLimit (q_amount q) (sc_slippageBps (di_config inp))"
    using w cfg(2) by (simp add: buyLimit_ceilDiv)
  have "tdiv (sc_quantity (di_config inp) * p) PPM = sc_quantity (di_config inp) * p div PPM"
    using cfg(1) p [OF cp] by (simp add: PPM_def)
  then have "clears inp e q"
    using e el q cp w worst
    by (auto simp: evaluate_quoted_def clears_def Let_def big_div_def split: if_splits)
  then show ?thesis ..
qed

lemma claimProbability_range:
  assumes "wf_joint m j" "wf_claim n c" "claimProbability j c = ok p"
  shows "0 \<le> p \<and> p \<le> PPM"
  using claimProbability_complement [OF assms] by simp

section \<open>The chosen claim\<close>

lemma best_first_Nil: "best_first es = [] \<longleftrightarrow> es = []"
  unfolding best_first_def by (metis length_0_conv length_sort)

lemma best_first_hd:
  assumes "best_first es = b # bs"
  shows "b \<in> set es \<and> (\<forall>e\<in>set es. edge_of e \<le> edge_of b)"
proof -
  have s: "set es = insert b (set bs)" using assms unfolding best_first_def by (metis list.simps(15) set_sort)
  have "sorted (map (\<lambda>e. (- edge_of e, claimKey (el_claim e))) (b # bs))"
    using sorted_sort_key [of "\<lambda>e. (- edge_of e, claimKey (el_claim e))" es] assms unfolding best_first_def by simp
  then have "\<forall>e\<in>set bs. (- edge_of b, claimKey (el_claim b)) \<le> (- edge_of e, claimKey (el_claim e))" by auto
  then show ?thesis using s by (fastforce simp: less_eq_prod_def)
qed

lemma decide_best_cases:
  assumes "decide_best inp rel es = ok d"
  shows "dc_evaluations d = es \<and> (case dc_proposal d of
      None \<Rightarrow> \<not> list_ex (\<lambda>e. el_status e = Eligible) es
    | Some p \<Rightarrow> \<exists>b\<in>set es. el_status b = Eligible \<and> propose inp b = ok p
        \<and> (\<forall>e\<in>set es. el_status e = Eligible \<longrightarrow> edge_of e \<le> edge_of b))"
proof (cases "best_first (filter (\<lambda>e. el_status e = Eligible) es)")
  case Nil
  then have "\<not> list_ex (\<lambda>e. el_status e = Eligible) es"
    using best_first_Nil by (metis (mono_tags, lifting) filter_empty_conv list_ex_iff)
  with Nil show ?thesis using assms by (auto simp: decide_best_def abstain_def)
next
  case (Cons b bs)
  then show ?thesis using assms best_first_hd [OF Cons] by (auto simp: decide_best_def intro!: bexI [of _ b])
qed

text \<open>What leads to a decision that has evaluations.\<close>

lemma decide_cases:
  assumes "decide inp = ok d"
  shows "assertConfig (di_config inp) None = ok (di_config inp) \<and>
    ((dc_proposal d = None \<and> dc_evaluations d = [] \<and> dc_reasons d \<noteq> []) \<or>
    (\<exists>cs rel es. fc_pool (di_forecast inp) = mk_pool (di_market inp) \<and> \<not> trading_closed (di_market inp) (di_now inp)
      \<and> candidateClaims (mk_pool (di_market inp)) (int (length (mk_events (di_market inp))))
          (joint_events (fc_joint (di_forecast inp))) (sc_includeSingles (di_config inp)) = ok cs
      \<and> mapE (evaluate_claim inp) (filter (covers (fc_joint (di_forecast inp))) cs) = ok es
      \<and> filter (covers (fc_joint (di_forecast inp))) cs \<noteq> []
      \<and> decide_best inp rel es = ok d))"
proof -
  have "assertConfig (di_config inp) None = ok (di_config inp)"
    using assms by (auto simp: decide_def Let_def assertConfig_ok)
  then show ?thesis
    using assms by (auto simp: decide_def Let_def abstain_def split: if_splits)
qed

lemma mapE_memberD: "mapE f xs = ok ys \<Longrightarrow> y \<in> set ys \<Longrightarrow> \<exists>x\<in>set xs. f x = ok y"
  by (induction xs arbitrary: ys) auto

section \<open>No error on parsed inputs\<close>

definition wf_quotes :: "int \<Rightarrow> (string \<Rightarrow> quote_result option) \<Rightarrow> bool" where
  "wf_quotes n quotes = (\<forall>k q. quotes k = Some (Quoted q) \<longrightarrow> wf_quote n q)"

lemma wf_joint_sorted:
  assumes "wf_joint m j" shows "distinct (joint_events j)"
proof -
  have "joint_events j ! i < joint_events j ! Suc i" if "Suc i < length (joint_events j)" for i
    using assms that by (auto simp: wf_joint_def assertJoint_ok_iff bad_event_def dest!: spec [of _ "Suc i"])
  then have "sorted_wrt (<) (joint_events j)" by (simp add: sorted_wrt_iff_nth_Suc_transp)
  then show ?thesis by (simp add: strict_sorted_iff)
qed

lemma wf_joint_range:
  assumes "wf_joint (Some n) j" shows "\<forall>e\<in>set (joint_events j). 0 \<le> e \<and> e < n"
  using assms by (fastforce simp: wf_joint_def assertJoint_ok_iff bad_event_def in_set_conv_nth not_le not_less)

lemma marginal_total: "e \<in> set (joint_events j) \<Longrightarrow> \<exists>p. marginal j e = ok p"
  using index_of_member [of e "joint_events j"] by (auto simp: marginal_def event_index_def Let_def)

lemma both_total: "a \<in> set (joint_events j) \<Longrightarrow> b \<in> set (joint_events j) \<Longrightarrow> \<exists>p. both j a b = ok p"
  using index_of_member [of a "joint_events j"] index_of_member [of b "joint_events j"]
  by (auto simp: both_def event_index_def Let_def)

lemma pairRelationship_total: "\<exists>r. pairRelationship f implied = ok r"
proof -
  have "\<exists>r. pairRelationship f implied = ok r" if "joint_events (fc_joint f) = [a, b]" for a b
    using marginal_total [of a "fc_joint f"] marginal_total [of b "fc_joint f"] both_total [of a "fc_joint f" b] that
    by (auto simp: pairRelationship_def Let_def)
  then show ?thesis by (auto simp: pairRelationship_def split: list.split)
qed

lemma claimProbability_total: "covers j c \<Longrightarrow> \<exists>p. claimProbability j c = ok p"
  using covers_mapE [of j c] by (simp add: claimProbability_def)

lemma claimShape_total: "encoded pool n c \<Longrightarrow> \<exists>s. claimShape c n = ok s"
  unfolding encoded_def claimShape_def using describe_encoded by (fastforce split: option.split)

lemma evaluate_quoted_total:
  assumes "wf_quote n q" "quote_matches inp c q" "0 < sc_slippageBps (di_config inp)"
  shows "\<exists>e. evaluate_quoted inp c shape p q = ok e"
proof -
  have a: "0 < q_amount q" "0 < sc_quantity (di_config inp)"
    using assms(1,2) by (auto simp: wf_quote_def quote_matches_def)
  then have "buyLimit (q_amount q) (sc_slippageBps (di_config inp)) > 0"
    using buyLimit_ge [of "q_amount q" "sc_slippageBps (di_config inp)"] assms(3) by linarith
  then show ?thesis
    using a assms(3) by (simp add: evaluate_quoted_def Let_def buyLimit_ceilDiv big_div_def)
qed

lemma evaluate_claim_total:
  assumes enc: "encoded pool (int (length (mk_events (di_market inp)))) c" and cov: "covers (fc_joint (di_forecast inp)) c"
    and q: "wf_quotes (int (length (mk_events (di_market inp)))) (di_quotes inp)"
    and cfg: "0 < sc_slippageBps (di_config inp)"
  shows "\<exists>e. evaluate_claim inp c = ok e"
proof -
  have "\<exists>e. evaluate_result inp c shape p (di_quotes inp (claimKey c)) = ok e" for shape p
  proof (cases "(inp, c, shape, p, di_quotes inp (claimKey c))" rule: evaluate_result.cases)
    case (1 inp' c' shape' p' r)
    then have "wf_quote (int (length (mk_events (di_market inp)))) r" using q by (auto simp: wf_quotes_def)
    then show ?thesis using 1 evaluate_quoted_total [OF _ _ cfg, of _ r c shape p] by auto
  qed simp_all
  then show ?thesis
    using encoded_wf [OF enc] claimShape_total [OF enc] claimProbability_total [OF cov]
    by (fastforce simp: evaluate_claim_def Let_def wf_claim_def)
qed

lemma mapE_ex: "\<forall>x\<in>set xs. \<exists>y. f x = ok y \<Longrightarrow> \<exists>ys. mapE f xs = ok ys"
  by (induction xs) auto

lemma decide_best_total:
  assumes "\<And>e. e \<in> set es \<Longrightarrow> wf_claim (int (length (mk_events (di_market inp)))) (el_claim e)"
  shows "\<exists>d. decide_best inp rel es = ok d"
proof (cases "best_first (filter (\<lambda>e. el_status e = Eligible) es)")
  case (Cons b bs)
  have "wf_claim (int (length (mk_events (di_market inp)))) (el_claim b)"
    using best_first_hd [OF Cons] assms by auto
  then show ?thesis by (simp add: decide_best_def Cons propose_def Let_def winningCombinations_eq)
qed (simp add: decide_best_def)

section \<open>Properties\<close>

text \<open>A market of three events, a forecast of the first, and a quote for its Yes.\<close>

definition yes_claim :: claim where
  "yes_claim = \<lparr>claim_chain = 10143, claim_pool = example_pool, claim_scope = 1, claim_mask = 2\<rparr>"

definition yes_quote :: quote where
  "yes_quote = example_quote\<lparr>q_claim := yes_claim\<rparr>"

definition example_market :: market where
  "example_market = \<lparr>mk_namespace = ''pilot'', mk_pool = example_pool, mk_rulesHash = JNull, mk_title = JNull,
     mk_closesAt = 1800000000, mk_open = True, mk_resolved = False,
     mk_events = map (\<lambda>i. \<lparr>me_index = i, me_id = [], me_question = [], me_yesRule = JNull, me_noRule = JNull,
       me_observationEndsAt = 1800000000, me_source = None\<rparr>) [0, 1, 2],
     mk_snapshot = q_snapshot example_quote, mk_prices = [(None, None), (None, None), (None, None)]\<rparr>"

definition example_forecast :: forecast where
  "example_forecast = \<lparr>fc_pool = example_pool, fc_joint = \<lparr>joint_events = [0], joint_states = [400000, 600000]\<rparr>,
     fc_evidence = [], fc_assumptions = [], fc_uncertainty = [], fc_explanation = [], fc_confidence = None,
     fc_source = (User_source, []), fc_createdAt = 0\<rparr>"

definition example_input :: decide_input where
  "example_input = \<lparr>di_market = example_market, di_forecast = example_forecast,
     di_config = DEFAULT_CONFIG\<lparr>sc_minEvidence := 0\<rparr>, di_now = 1700000010,
     di_quotes = map_of [(claimKey yes_claim, Quoted yes_quote)], di_implied = None\<rparr>"

definition example_proposal :: proposal where
  "example_proposal = \<lparr>pp_claim = yes_claim, pp_quantity = 1000000, pp_quote = 420000, pp_worstCost = 422100,
     pp_slippageBps = 50, pp_quoteExpiresAt = 1700000060, pp_forecastPpm = 600000, pp_averagePpm = 420000,
     pp_expectedPayout = 600000, pp_edge = 177900, pp_edgeBps = 4214, pp_winning = [[yes_no 0 True]]\<rparr>"

lemma example_proposed: "\<exists>d. decide example_input = ok d \<and> dc_proposal d = Some example_proposal"
proof -
  have "(case decide example_input of Inr d \<Rightarrow> dc_proposal d | Inl _ \<Rightarrow> None) = Some example_proposal"
    by code_simp
  then show ?thesis by (auto split: sum.splits)
qed

lemma example_joint1_wf: "wf_joint (Some 3) (fc_joint (di_forecast example_input))"
  unfolding wf_joint_def example_input_def example_forecast_def by code_simp

lemma yes_quote_wf: "wf_quote 3 yes_quote"
  unfolding wf_quote_def yes_quote_def example_quote_def yes_claim_def by code_simp

lemma example_market_wf: "wf_market example_market"
  unfolding wf_market_def example_market_def example_quote_def by code_simp

lemma example_quotes_wf: "wf_quotes 3 (di_quotes example_input)"
  by (auto simp: wf_quotes_def example_input_def yes_quote_wf)

lemma example_length: "length (mk_events (di_market example_input)) = 3"
  by (simp add: example_input_def example_market_def)

text \<open>A proposal is an eligible evaluation of a covered candidate, with its numbers.\<close>

lemma proposal_clears:
  assumes "decide inp = ok d" and "dc_proposal d = Some p" and "wf_joint m (fc_joint (di_forecast inp))"
  shows "fc_pool (di_forecast inp) = mk_pool (di_market inp) \<and> \<not> trading_closed (di_market inp) (di_now inp)
    \<and> wf_claim (int (length (mk_events (di_market inp)))) (pp_claim p) \<and> claim_pool (pp_claim p) = mk_pool (di_market inp)
    \<and> covers (fc_joint (di_forecast inp)) (pp_claim p)
    \<and> (\<exists>b q. clears inp b q \<and> el_claim b = pp_claim p \<and> pp_quantity p = sc_quantity (di_config inp) \<and> pp_quote p = q_amount q
       \<and> pp_worstCost p = the (el_worstCost b) \<and> pp_slippageBps p = sc_slippageBps (di_config inp)
       \<and> pp_forecastPpm p = el_forecastPpm b \<and> pp_edge p = the (el_edge b) \<and> pp_edgeBps p = the (el_edgeBps b)
       \<and> pp_quoteExpiresAt p = q_expires q)"
proof -
  let ?j = "fc_joint (di_forecast inp)" and ?n = "int (length (mk_events (di_market inp)))"
  obtain cs rel es where pool: "fc_pool (di_forecast inp) = mk_pool (di_market inp)"
      "\<not> trading_closed (di_market inp) (di_now inp)"
    and cs: "candidateClaims (mk_pool (di_market inp)) ?n (joint_events ?j) (sc_includeSingles (di_config inp)) = ok cs"
    and es: "mapE (evaluate_claim inp) (filter (covers ?j) cs) = ok es" and best: "decide_best inp rel es = ok d"
    using decide_cases [OF assms(1)] assms(2) by auto
  have cfg: "0 < sc_quantity (di_config inp)" "0 \<le> sc_slippageBps (di_config inp)"
    using decide_cases [OF assms(1)] by (auto simp: assertConfig_ok)
  obtain b where b: "b \<in> set es" "el_status b = Eligible" "propose inp b = ok p"
    using decide_best_cases [OF best] assms(2) by auto
  obtain c where c: "c \<in> set cs" "covers ?j c" "evaluate_claim inp c = ok b"
    using mapE_memberD [OF es b(1)] by auto
  have cb: "el_claim b = c" using evaluate_claim_claim [OF c(3)] .
  have enc: "wf_claim ?n c" "claim_pool c = mk_pool (di_market inp)"
    using encoded_wf [OF candidates_encoded [OF cs c(1)]] by auto
  obtain q where q: "clears inp b q"
    using evaluate_claim_eligible [OF c(3) b(2) cfg] claimProbability_range [OF assms(3) enc(1)] by blast
  have "pp_claim p = c" "pp_quantity p = sc_quantity (di_config inp)" "pp_quote p = q_amount q"
    "pp_worstCost p = the (el_worstCost b)" "pp_slippageBps p = sc_slippageBps (di_config inp)"
    "pp_forecastPpm p = el_forecastPpm b" "pp_edge p = the (el_edge b)" "pp_edgeBps p = the (el_edgeBps b)"
    "pp_quoteExpiresAt p = q_expires q"
    using b(3) q by (auto simp: propose_def Let_def cb clears_def)
  then show ?thesis using pool enc c(2) q cb by auto
qed



text \<open>C37: The strategy proposes the best of what it evaluated. Without a proposal no evaluated claim was
  eligible; with one, it is an eligible evaluation and no eligible evaluation has a larger edge.\<close>

theorem proposal_is_best:
  assumes "decide inp = ok d"
  shows "case dc_proposal d of
      None \<Rightarrow> list_all (\<lambda>e. el_status e \<noteq> Eligible) (dc_evaluations d)
    | Some p \<Rightarrow> list_all (\<lambda>e. el_status e \<noteq> Eligible \<or> edge_of e \<le> pp_edge p) (dc_evaluations d)
        \<and> list_ex (\<lambda>e. el_status e = Eligible \<and> el_claim e = pp_claim p \<and> edge_of e = pp_edge p) (dc_evaluations d)"
proof -
  have "list_all (\<lambda>e. el_status e \<noteq> Eligible) (dc_evaluations d)" if "dc_proposal d = None"
    using decide_cases [OF assms] decide_best_cases that by (fastforce simp: list_all_iff list_ex_iff)
  moreover have ?thesis if p: "dc_proposal d = Some p" for p
  proof -
    obtain rel es cs where es: "mapE (evaluate_claim inp) cs = ok es" and best: "decide_best inp rel es = ok d"
      using decide_cases [OF assms] p by auto
    obtain b where b: "b \<in> set es" "el_status b = Eligible" "propose inp b = ok p" "dc_evaluations d = es"
        "\<forall>e\<in>set es. el_status e = Eligible \<longrightarrow> edge_of e \<le> edge_of b"
      using decide_best_cases [OF best] p by auto
    obtain x where "el_edge b = Some x" using mapE_memberD [OF es b(1)] eligible_edge b(2) by blast
    then have "pp_claim p = el_claim b" "pp_edge p = edge_of b"
      using b(3) by (auto simp: propose_def Let_def edge_of_def)
    then show ?thesis using p b by (auto simp: list_all_iff list_ex_iff)
  qed
  ultimately show ?thesis by (cases "dc_proposal d") simp_all
qed

theorem proposal_is_best_witness:
  "\<exists>d. decide example_input = ok d \<and> list_all (\<lambda>e. el_status e \<noteq> Eligible \<or> edge_of e \<le> 177900) (dc_evaluations d)"
proof -
  obtain d where d: "decide example_input = ok d" "dc_proposal d = Some example_proposal"
    using example_proposed by blast
  show ?thesis using proposal_is_best [OF d(1)] d by (auto simp: example_proposal_def)
qed

text \<open>Deciding never fails on inputs the SDK's own parsers accepted: for a market of two to four
  events, a forecast whose joint distribution is over that pool's events, quotes that are
  well formed and a valid configuration, a decision is returned.\<close>

theorem decide_total:
  assumes "wf_market (di_market inp)" and "length (mk_events (di_market inp)) \<in> {2, 3, 4}"
    and "wf_joint (Some (int (length (mk_events (di_market inp))))) (fc_joint (di_forecast inp))"
    and "assertConfig (di_config inp) None = ok (di_config inp)"
    and "wf_quotes (int (length (mk_events (di_market inp)))) (di_quotes inp)"
  shows "\<exists>d. decide inp = ok d"
proof -
  let ?j = "fc_joint (di_forecast inp)" and ?n = "int (length (mk_events (di_market inp)))"
  obtain rel where rel: "pairRelationship (di_forecast inp) (di_implied inp) = ok rel"
    using pairRelationship_total by blast
  obtain cs where cs: "candidateClaims (mk_pool (di_market inp)) ?n (joint_events ?j) (sc_includeSingles (di_config inp)) = ok cs"
    using candidateClaims_total [OF _ _ wf_joint_sorted [OF assms(3)] wf_joint_range [OF assms(3)]] assms(1,2)
    by (fastforce simp: wf_market_def)
  have slip: "0 < sc_slippageBps (di_config inp)" using assms(4) by (auto simp: assertConfig_ok)
  obtain es where es: "mapE (evaluate_claim inp) (filter (covers ?j) cs) = ok es"
    using mapE_ex [of "filter (covers ?j) cs" "evaluate_claim inp"]
      evaluate_claim_total [OF candidates_encoded [OF cs] _ assms(5) slip] by auto
  have "wf_claim ?n (el_claim e)" if "e \<in> set es" for e
    using mapE_memberD [OF es that] encoded_wf [OF candidates_encoded [OF cs]] by (auto dest: evaluate_claim_claim)
  then obtain d where "decide_best inp rel es = ok d" using decide_best_total by blast
  then show ?thesis by (simp add: decide_def Let_def assms(4) rel cs es)
qed

theorem decide_total_witness: "\<exists>d. decide example_input = ok d"
proof (rule decide_total)
  show "wf_market (di_market example_input)" using example_market_wf by (simp add: example_input_def)
  show "length (mk_events (di_market example_input)) \<in> {2, 3, 4}" by (simp add: example_length)
  show "wf_joint (Some (int (length (mk_events (di_market example_input))))) (fc_joint (di_forecast example_input))"
    using example_joint1_wf by (simp add: example_length)
  show "assertConfig (di_config example_input) None = ok (di_config example_input)"
    by (simp add: assertConfig_ok example_input_def DEFAULT_CONFIG_def)
  show "wf_quotes (int (length (mk_events (di_market example_input)))) (di_quotes example_input)"
    using example_quotes_wf by (simp add: example_length)
qed

end
