(* ===== verification/Paper.thy ===== *)
theory Paper
  imports Strategy_Laws Systems
begin

text \<open>
  Paper trading: the SDK's own book (packages/sdk/src/paper.ts) and the runtime's book of fills
  (\<open>paperBook\<close> of packages/sdk/src/node/runner.ts). Nothing here is on a chain; what matters is
  that a quote is not filled twice, the budget holds and unknown values are not shown as zero.
\<close>

section \<open>The SDK's book\<close>

record paper_fill =
  pf_mode :: string
  pf_id :: string
  pf_decisionKey :: string
  pf_claim :: claim
  pf_quantity :: int
  pf_cost :: int
  pf_block :: int
  pf_time :: int
  pf_filledAt :: int

definition decisionKey :: "decision \<Rightarrow> string" where
  "decisionKey d = dc_pool d @ '':'' @ sn_hash (dc_snapshot d) @ '':'' @ int_str (dc_decidedAt d) @ '':''
     @ (case dc_proposal d of Some p \<Rightarrow> claimKey (pp_claim p) | None \<Rightarrow> ''abstain'')"

definition paper_fill_of :: "decision \<Rightarrow> proposal \<Rightarrow> int \<Rightarrow> string \<Rightarrow> paper_fill" where
  "paper_fill_of d p now i = \<lparr>pf_mode = ''paper'', pf_id = i, pf_decisionKey = decisionKey d, pf_claim = pp_claim p,
     pf_quantity = pp_quantity p, pf_cost = pp_quote p, pf_block = sn_block (dc_snapshot d),
     pf_time = sn_time (dc_snapshot d), pf_filledAt = now\<rparr>"

text \<open>\<open>recordPaperFill\<close> on the fills of the store: the new fill is added at the end.\<close>

definition recordPaperFill :: "paper_fill list \<Rightarrow> decision \<Rightarrow> int \<Rightarrow> string \<Rightarrow> int option \<Rightarrow> (paper_fill \<times> paper_fill list) res" where
  "recordPaperFill existing d now i budget =
     (case dc_proposal d of
        None \<Rightarrow> throw Conflict
      | Some p \<Rightarrow>
          (if now \<ge> pp_quoteExpiresAt p then throw Stale_quote
           else if list_ex (\<lambda>f. pf_decisionKey f = decisionKey d) existing then throw Conflict
           else let sameClaim = filter (\<lambda>f. claimKey (pf_claim f) = claimKey (pp_claim p)) existing in
             if list_ex (\<lambda>f. pf_block f \<ge> sn_block (dc_snapshot d)) sameClaim then throw Conflict
             else if (case budget of None \<Rightarrow> False
               | Some b \<Rightarrow> foldl (\<lambda>s f. s + pf_cost f) 0 existing + pp_quote p > b) then throw Conflict
             else let fill = paper_fill_of d p now i in ok (fill, existing @ [fill])))"

record mark =
  ma_claimKey :: string
  ma_proceeds :: int
  ma_quantity :: int

datatype missing = No_sell_quote string | Not_resolved

text \<open>The running totals of \<open>evaluatePaper\<close>.\<close>

record paper_totals =
  pt_realizedCount :: int
  pt_payout :: int
  pt_realizedCost :: int
  pt_unrealizedCount :: int
  pt_value :: int
  pt_unrealizedCost :: int
  pt_open :: int
  pt_missing :: "missing list"

definition no_totals :: paper_totals where
  "no_totals = \<lparr>pt_realizedCount = 0, pt_payout = 0, pt_realizedCost = 0, pt_unrealizedCount = 0, pt_value = 0,
     pt_unrealizedCost = 0, pt_open = 0, pt_missing = []\<rparr>"

definition mark_of :: "mark list \<Rightarrow> paper_fill \<Rightarrow> mark option" where
  "mark_of marks f = List.find (\<lambda>m. ma_claimKey m = claimKey (pf_claim f) \<and> ma_quantity m = pf_quantity f) marks"

definition evaluate_fill :: "int \<Rightarrow> resolution option \<Rightarrow> mark list \<Rightarrow> paper_totals \<Rightarrow> paper_fill \<Rightarrow> paper_totals res" where
  "evaluate_fill eventCount r marks t f =
     (if pf_mode f \<noteq> ''paper'' then throw Invalid_input
      else (case r of
        Some res \<Rightarrow>
          bindE (payoutFraction (pf_claim f) eventCount res) (\<lambda>(num, den).
          bindE (big_div (pf_quantity f * num) den) (\<lambda>pay.
            ok (t\<lparr>pt_payout := pt_payout t + pay, pt_realizedCost := pt_realizedCost t + pf_cost f,
              pt_realizedCount := pt_realizedCount t + 1\<rparr>)))
      | None \<Rightarrow>
          (case mark_of marks f of
             Some m \<Rightarrow> ok (t\<lparr>pt_open := pt_open t + 1, pt_value := pt_value t + ma_proceeds m,
               pt_unrealizedCost := pt_unrealizedCost t + pf_cost f, pt_unrealizedCount := pt_unrealizedCount t + 1\<rparr>)
           | None \<Rightarrow> ok (t\<lparr>pt_open := pt_open t + 1, pt_missing := pt_missing t @ [No_sell_quote (pf_id f)]\<rparr>))))"

text \<open>Realized (count, payout, profit) and unrealized (count, value, profit), null when nothing is known.\<close>

record performance =
  pe_fills :: nat
  pe_costBasis :: int
  pe_realized :: "(int \<times> int \<times> int) option"
  pe_unrealized :: "(int \<times> int \<times> int) option"
  pe_open :: int
  pe_missing :: "missing list"

definition evaluatePaper :: "paper_fill list \<Rightarrow> int \<Rightarrow> resolution option \<Rightarrow> mark list \<Rightarrow> performance res" where
  "evaluatePaper fills eventCount r marks =
     bindE (foldE (evaluate_fill eventCount r marks) no_totals fills) (\<lambda>t.
       ok \<lparr>pe_fills = length fills, pe_costBasis = foldl (\<lambda>s f. s + pf_cost f) 0 fills,
         pe_realized = (if pt_realizedCount t \<noteq> 0 then Some (pt_realizedCount t, pt_payout t, pt_payout t - pt_realizedCost t) else None),
         pe_unrealized = (if pt_unrealizedCount t \<noteq> 0 then Some (pt_unrealizedCount t, pt_value t, pt_value t - pt_unrealizedCost t) else None),
         pe_open = pt_open t,
         pe_missing = pt_missing t @ (if r = None \<and> fills \<noteq> [] then [Not_resolved] else [])\<rparr>)"

section \<open>The runtime's book\<close>

text \<open>A record of paper.json; amounts and the block are decimal strings there.\<close>

record book_fill =
  bf_id :: string
  bf_decisionId :: string
  bf_namespace :: string
  bf_scope :: int
  bf_mask :: string
  bf_quantity :: string
  bf_cost :: string
  bf_block :: string
  bf_filledAt :: int

datatype fill_refusal = Already_filled | Same_quote_block | Paper_budget

definition book_key :: "book_fill \<Rightarrow> string" where
  "book_key f = int_str (bf_scope f) @ '':'' @ bf_mask f"

text \<open>Some earlier fill of the same claim used this or a newer block; the first match ends the search.\<close>

fun same_block :: "book_fill \<Rightarrow> book_fill list \<Rightarrow> bool res" where
  "same_block f [] = ok False"
| "same_block f (x # xs) =
     (if book_key x = book_key f \<and> bf_namespace x = bf_namespace f
      then bindE (big_of_string (bf_block x)) (\<lambda>a. bindE (big_of_string (bf_block f)) (\<lambda>b.
        if a \<ge> b then ok True else same_block f xs))
      else same_block f xs)"

text \<open>\<open>fill\<close> under the journal's lock: the refusal, or the record and the book with it.\<close>

definition book_add :: "int \<Rightarrow> book_fill list \<Rightarrow> book_fill \<Rightarrow> (fill_refusal + book_fill list) res" where
  "book_add budget fills f =
     (if list_ex (\<lambda>x. bf_decisionId x = bf_decisionId f) fills then ok (Inl Already_filled)
      else bindE (same_block f fills) (\<lambda>same.
        if same then ok (Inl Same_quote_block)
        else bindE (sumE (\<lambda>x. big_of_string (bf_cost x)) fills) (\<lambda>spent.
          bindE (big_of_string (bf_cost f)) (\<lambda>cost.
            if spent + cost > budget then ok (Inl Paper_budget) else ok (Inr (fills @ [f]))))))"

section \<open>Books stay within budget and use each quote once\<close>

text \<open>In a list, whatever comes later than \<open>x\<close> and has its key is of a strictly newer block.\<close>

definition newer_only :: "('f \<Rightarrow> 'k) \<Rightarrow> ('f \<Rightarrow> int) \<Rightarrow> 'f list \<Rightarrow> bool" where
  "newer_only key block fs = sorted_wrt (\<lambda>x y. key x = key y \<longrightarrow> block x < block y) fs"

lemma newer_only_snoc: "newer_only key block (fs @ [f]) \<longleftrightarrow>
    newer_only key block fs \<and> list_all (\<lambda>x. key x = key f \<longrightarrow> block x < block f) fs"
  by (auto simp: newer_only_def sorted_wrt_append list_all_iff)

text \<open>
  The interface of a book: what an accepted fill was checked for. Both books grow by such
  fills only, and their invariant is proved once.
\<close>

locale fill_book =
  fixes add :: "'f list \<Rightarrow> 'f list \<Rightarrow> bool"
    and decision_of :: "'f \<Rightarrow> 'd" and key :: "'f \<Rightarrow> 'k" and block :: "'f \<Rightarrow> int" and cost :: "'f \<Rightarrow> int"
    and budget :: int
  assumes add_checks: "add fs gs \<Longrightarrow> \<exists>f. gs = fs @ [f] \<and> decision_of f \<notin> decision_of ` set fs
      \<and> list_all (\<lambda>x. key x = key f \<longrightarrow> block x < block f) fs \<and> sum_list (map cost fs) + cost f \<le> budget"
    and budget_nonneg: "0 \<le> budget"
begin

definition book_ok :: "'f list \<Rightarrow> bool" where
  "book_ok fs = (distinct (map decision_of fs) \<and> newer_only key block fs \<and> sum_list (map cost fs) \<le> budget)"

lemma book_ok_Nil: "book_ok []"
  using budget_nonneg by (simp add: book_ok_def newer_only_def)

lemma book_ok_add: "book_ok fs \<Longrightarrow> add fs gs \<Longrightarrow> book_ok gs"
  using add_checks [of fs gs] by (auto simp: book_ok_def newer_only_snoc)

lemma book_run: "add\<^sup>*\<^sup>* [] gs \<Longrightarrow> book_ok gs"
  by (induction rule: rtranclp_induct) (auto intro: book_ok_Nil book_ok_add)

lemma book_prefix: "add\<^sup>*\<^sup>* fs gs \<Longrightarrow> \<exists>hs. gs = fs @ hs"
proof (induction rule: rtranclp_induct)
  case (step gs hs)
  then show ?case using add_checks [of gs hs] by auto
qed simp

end

subsection \<open>The two books\<close>

definition sdk_step :: "int \<Rightarrow> paper_fill list \<Rightarrow> paper_fill list \<Rightarrow> bool" where
  "sdk_step budget fs gs = (\<exists>d now i f. recordPaperFill fs d now i (Some budget) = ok (f, gs))"

definition book_step :: "int \<Rightarrow> book_fill list \<Rightarrow> book_fill list \<Rightarrow> bool" where
  "book_step budget fs gs = (\<exists>f. book_add budget fs f = ok (Inr gs))"

definition number_in :: "string \<Rightarrow> int" where
  "number_in s = value_of (big_of_string s)"

lemma foldl_sum_map: "foldl (\<lambda>s f. s + g f) a xs = a + sum_list (map g xs :: int list)"
  by (induction xs arbitrary: a) auto

lemma recordPaperFill_ok:
  assumes "recordPaperFill fs d now i (Some b) = ok (f, gs)"
  shows "gs = fs @ [f] \<and> pf_decisionKey f \<notin> pf_decisionKey ` set fs
    \<and> list_all (\<lambda>x. claimKey (pf_claim x) = claimKey (pf_claim f) \<longrightarrow> pf_block x < pf_block f) fs
    \<and> sum_list (map pf_cost fs) + pf_cost f \<le> b"
  using assms
  by (force simp: recordPaperFill_def paper_fill_of_def Let_def foldl_sum_map list_ex_iff list_all_iff not_le
      split: option.splits if_splits)

lemma same_block_False:
  "same_block f fs = ok False \<Longrightarrow>
    list_all (\<lambda>x. (bf_namespace x, book_key x) = (bf_namespace f, book_key f) \<longrightarrow> number_in (bf_block x) < number_in (bf_block f)) fs"
  by (induction fs) (auto simp: number_in_def split: if_splits)

lemma book_add_ok:
  assumes "book_add b fs f = ok (Inr gs)"
  shows "gs = fs @ [f] \<and> bf_decisionId f \<notin> bf_decisionId ` set fs
    \<and> list_all (\<lambda>x. (bf_namespace x, book_key x) = (bf_namespace f, book_key f)
        \<longrightarrow> number_in (bf_block x) < number_in (bf_block f)) fs
    \<and> sum_list (map (\<lambda>x. number_in (bf_cost x)) fs) + number_in (bf_cost f) \<le> b"
  using assms
  by (auto simp: book_add_def list_ex_iff number_in_def dest!: same_block_False sumE_InrD split: if_splits)

interpretation sdk_book: fill_book "sdk_step (int b)" pf_decisionKey "\<lambda>f. claimKey (pf_claim f)" pf_block pf_cost "int b" for b
  by unfold_locales (auto simp: sdk_step_def dest: recordPaperFill_ok)

interpretation runtime_book: fill_book "book_step (int b)" bf_decisionId "\<lambda>f. (bf_namespace f, book_key f)"
    "\<lambda>f. number_in (bf_block f)" "\<lambda>f. number_in (bf_cost f)" "int b" for b
  by unfold_locales (auto simp: book_step_def dest: book_add_ok)

section \<open>What an evaluation adds up\<close>

abbreviation proceeds_of :: "mark list \<Rightarrow> paper_fill \<Rightarrow> int" where
  "proceeds_of marks f \<equiv> (case mark_of marks f of None \<Rightarrow> 0 | Some m \<Rightarrow> ma_proceeds m)"

definition marked :: "mark list \<Rightarrow> paper_fill list \<Rightarrow> paper_fill list" where
  "marked marks fills = filter (\<lambda>f. mark_of marks f \<noteq> None) fills"

lemma evaluate_open:
  assumes "foldE (evaluate_fill n None marks) t fills = ok u"
  shows "pt_realizedCount u = pt_realizedCount t \<and> pt_open u = pt_open t + int (length fills)
    \<and> pt_missing u = pt_missing t @ map (\<lambda>f. No_sell_quote (pf_id f)) (filter (\<lambda>f. mark_of marks f = None) fills)
    \<and> pt_unrealizedCount u = pt_unrealizedCount t + int (length (marked marks fills))
    \<and> pt_value u = pt_value t + sum_list (map (proceeds_of marks) (marked marks fills))
    \<and> pt_unrealizedCost u = pt_unrealizedCost t + sum_list (map pf_cost (marked marks fills))"
  using assms
proof (induction fills arbitrary: t)
  case Nil
  then show ?case by (simp add: marked_def)
next
  case (Cons f fs)
  then obtain v where v: "evaluate_fill n None marks t f = ok v" "foldE (evaluate_fill n None marks) v fs = ok u" by auto
  show ?case using Cons.IH [OF v(2)] v(1)
    by (auto simp: evaluate_fill_def marked_def split: if_splits option.splits)
qed

lemma evaluate_resolved:
  assumes "foldE (evaluate_fill n (Some r) marks) t fills = ok u"
  shows "pt_realizedCount u = pt_realizedCount t + int (length fills) \<and> pt_open u = pt_open t \<and> pt_missing u = pt_missing t
    \<and> pt_unrealizedCount u = pt_unrealizedCount t \<and> pt_realizedCost u = pt_realizedCost t + sum_list (map pf_cost fills)"
  using assms
proof (induction fills arbitrary: t)
  case Nil
  then show ?case by simp
next
  case (Cons f fs)
  then obtain v where v: "evaluate_fill n (Some r) marks t f = ok v" "foldE (evaluate_fill n (Some r) marks) v fs = ok u" by auto
  show ?case using Cons.IH [OF v(2)] v(1) by (auto simp: evaluate_fill_def split: if_splits)
qed

section \<open>Properties\<close>

text \<open>However paper trades are attempted, the SDK's book and the runtime's book never spend more than
  the paper budget, never fill one decision twice, and fill a claim again only at a strictly
  newer block than every earlier fill of it.\<close>

theorem paper_books_bounded:
  assumes "0 \<le> budget"
  shows "((sdk_step budget)\<^sup>*\<^sup>* [] fills \<longrightarrow> sum_list (map pf_cost fills) \<le> budget \<and> distinct (map pf_decisionKey fills)
      \<and> newer_only (\<lambda>f. claimKey (pf_claim f)) pf_block fills)
    \<and> ((book_step budget)\<^sup>*\<^sup>* [] book \<longrightarrow> sum_list (map (\<lambda>f. number_in (bf_cost f)) book) \<le> budget
      \<and> distinct (map bf_decisionId book)
      \<and> newer_only (\<lambda>f. (bf_namespace f, book_key f)) (\<lambda>f. number_in (bf_block f)) book)"
proof -
  obtain b where b: "budget = int b" using assms nonneg_int_cases by blast
  show ?thesis
    using sdk_book.book_run [of b fills] runtime_book.book_run [of b book]
    by (simp add: b sdk_book.book_ok_def runtime_book.book_ok_def)
qed

definition example_fill :: book_fill where
  "example_fill = \<lparr>bf_id = ''a'', bf_decisionId = ''d-1'', bf_namespace = ''pilot'', bf_scope = 1, bf_mask = ''2'',
     bf_quantity = ''1000000'', bf_cost = ''420000'', bf_block = ''77'', bf_filledAt = 0\<rparr>"

theorem paper_books_bounded_witness:
  "sum_list (map (\<lambda>f. number_in (bf_cost f)) [example_fill]) \<le> 500000"
proof -
  have "book_add 500000 [] example_fill = ok (Inr [example_fill])" unfolding example_fill_def by code_simp
  then have "book_step 500000 [] [example_fill]" by (auto simp: book_step_def)
  then have "(book_step 500000)\<^sup>*\<^sup>* [] [example_fill]" by (rule r_into_rtranclp)
  then show ?thesis using paper_books_bounded [of 500000 "[]" "[example_fill]"] by simp
qed

text \<open>A paper result never shows an unknown value as zero. Before the pool resolves nothing is
  realized, every fill without a current sell quote is listed as missing, and the unrealized
  result covers exactly the fills with a quote, or is absent when there is none; after it
  resolves every fill is realized and nothing is left open.\<close>

theorem paper_unknown_never_zero:
  assumes "evaluatePaper fills n r marks = ok p"
  shows "case r of
      None \<Rightarrow> pe_realized p = None \<and> pe_open p = int (length fills)
        \<and> pe_missing p = map (\<lambda>f. No_sell_quote (pf_id f)) (filter (\<lambda>f. mark_of marks f = None) fills)
            @ (if fills = [] then [] else [Not_resolved])
        \<and> pe_unrealized p = (let known = marked marks fills; value = sum_list (map (proceeds_of marks) known) in
            if known = [] then None else Some (int (length known), value, value - sum_list (map pf_cost known)))
    | Some _ \<Rightarrow> pe_unrealized p = None \<and> pe_open p = 0 \<and> pe_missing p = []
        \<and> (case pe_realized p of None \<Rightarrow> fills = []
          | Some (k, payout, profit) \<Rightarrow> k = int (length fills) \<and> profit = payout - sum_list (map pf_cost fills))"
proof -
  obtain t where t: "foldE (evaluate_fill n r marks) no_totals fills = ok t"
    using assms by (auto simp: evaluatePaper_def)
  show ?thesis
  proof (cases r)
    case None
    with t have "foldE (evaluate_fill n None marks) no_totals fills = ok t" by simp
    from evaluate_open [OF this] show ?thesis using assms t None
      by (auto simp: evaluatePaper_def no_totals_def Let_def)
  next
    case (Some x)
    with t have "foldE (evaluate_fill n (Some x) marks) no_totals fills = ok t" by simp
    from evaluate_resolved [OF this] show ?thesis using assms t Some
      by (auto simp: evaluatePaper_def no_totals_def Let_def)
  qed
qed

definition example_paper_fill :: paper_fill where
  "example_paper_fill = \<lparr>pf_mode = ''paper'', pf_id = ''a'', pf_decisionKey = ''k'', pf_claim = yes_claim,
     pf_quantity = 1000000, pf_cost = 420000, pf_block = 77, pf_time = 0, pf_filledAt = 0\<rparr>"

theorem paper_unknown_never_zero_witness:
  "\<exists>p. evaluatePaper [example_paper_fill] 3 None [] = ok p \<and> pe_unrealized p = None
    \<and> pe_missing p = [No_sell_quote ''a'', Not_resolved]"
proof -
  obtain p where p: "evaluatePaper [example_paper_fill] 3 None [] = ok p"
    by (simp add: evaluatePaper_def evaluate_fill_def mark_of_def example_paper_fill_def)
  show ?thesis using paper_unknown_never_zero [OF p] p
    by (simp add: marked_def mark_of_def example_paper_fill_def)
qed

end
