(* ===== verification/Semantics.thy ===== *)
theory Semantics
  imports Claim_Laws
begin

text \<open>
  The check of the server's semantic assessment before a purchase
  (packages/sdk/src/semantics.ts): a fresh answer bound to this claim, with a matrix that lists
  for every outcome whether it can happen and whether the claim pays in it.
\<close>

section \<open>The code\<close>

record expectation =
  ex_pool :: string
  ex_rulesHash :: string
  ex_eventCount :: int
  ex_scope :: int
  ex_mask :: string
  ex_quantity :: string

datatype semantic_refusal = SEMANTICS_UNAVAILABLE | SEMANTIC_COLLISION | SEMANTICS_UNKNOWN

text \<open>The text a regular expression sees of a value; only these can print as 64 hex digits.\<close>

fun tested_text :: "json \<Rightarrow> string" where
  "tested_text (JStr s) = s"
| "tested_text (JArr [v]) = tested_text v"
| "tested_text _ = []"

definition unbound :: "json \<Rightarrow> expectation \<Rightarrow> int \<Rightarrow> bool" where
  "unbound r e now =
     (jget r ''schema'' \<noteq> JStr ''flurbo.semantic-assessment.v1'' \<or> jget r ''pool'' \<noteq> JStr (ex_pool e)
      \<or> jget r ''rulesHash'' \<noteq> JStr (ex_rulesHash e) \<or> jget r ''scope'' \<noteq> JInt (ex_scope e)
      \<or> jget r ''mask'' \<noteq> JStr (ex_mask e) \<or> jget r ''quantityAtoms'' \<noteq> JStr (ex_quantity e)
      \<or> \<not> is_safe_int (jget r ''checkedAt'') \<or> \<not> is_safe_int (jget r ''expiresAt'')
      \<or> jint_val (jget r ''checkedAt'') > now + 15 \<or> jint_val (jget r ''expiresAt'') \<le> now
      \<or> jint_val (jget r ''expiresAt'') - jint_val (jget r ''checkedAt'') \<noteq> 60
      \<or> \<not> is_jstr (jget r ''configRevision'') \<or> \<not> is_lhex_n 64 (tested_text (jget r ''configRevision'')))"

definition matrix_rows :: "json \<Rightarrow> json list option" where
  "matrix_rows r = (case jget r ''matrix'' of JArr rows \<Rightarrow> Some rows | _ \<Rightarrow> None)"

definition malformed :: "json \<Rightarrow> expectation \<Rightarrow> bool" where
  "malformed r e =
     (jget r ''mode'' \<noteq> JStr ''enforced'' \<or> \<not> is_lhex_n 64 (tested_text (jget r ''rulesDigest''))
      \<or> \<not> List.member [JStr ''collision'', JStr ''unknown'', JStr ''no_declared_collision''] (jget r ''status'')
      \<or> \<not> List.member [JStr ''unknown'', JStr ''partial'', JStr ''complete''] (jget r ''coverage'')
      \<or> (case matrix_rows r of None \<Rightarrow> True | Some rows \<Rightarrow> length rows \<noteq> 2 ^ nat (ex_eventCount e)))"

definition expected_events :: "expectation \<Rightarrow> nat list" where
  "expected_events e = filter (\<lambda>i. js_bit (ex_scope e) i) [0..<nat (ex_eventCount e)]"

text \<open>The row of a state disagrees with the claim; the mask is read only when all else agrees.\<close>

definition bad_row :: "expectation \<Rightarrow> nat \<times> json \<Rightarrow> bool res" where
  "bad_row e = (\<lambda>(state, row).
     if jget row ''state'' \<noteq> JInt (int state) \<or> \<not> is_jbool (jget row ''admissible'') then ok True
     else bindE (big_of_string (ex_mask e)) (\<lambda>m.
       ok (jget row ''pays'' \<noteq> JBool ((m AND push_bit (nat (local_index (int state) (expected_events e) 0 0)) 1) \<noteq> 0))))"

fun someE :: "('a \<Rightarrow> bool res) \<Rightarrow> 'a list \<Rightarrow> bool res" where
  "someE p [] = ok False"
| "someE p (x # xs) = bindE (p x) (\<lambda>b. if b then ok True else someE p xs)"

text \<open>Truthiness of a row's fields; a checked matrix has booleans there.\<close>

definition admissible :: "json \<Rightarrow> bool" where
  "admissible row = (jget row ''admissible'' = JBool True)"

definition pays :: "json \<Rightarrow> bool" where
  "pays row = (jget row ''pays'' = JBool True)"

definition semanticError :: "json \<Rightarrow> expectation \<Rightarrow> int \<Rightarrow> bool \<Rightarrow> semantic_refusal option res" where
  "semanticError r e now requireCoverage =
     (if ex_eventCount e < 2 \<or> ex_eventCount e > 4 then ok (Some SEMANTICS_UNAVAILABLE)
      else if unbound r e now then ok (Some SEMANTICS_UNAVAILABLE)
      else if jget r ''mode'' = JStr ''disabled'' then ok None
      else if malformed r e then ok (Some SEMANTICS_UNAVAILABLE)
      else let rows = the (matrix_rows r) in
        bindE (someE (bad_row e) (enumerate 0 rows)) (\<lambda>disagrees.
          if disagrees \<or> \<not> list_ex admissible rows then ok (Some SEMANTICS_UNAVAILABLE)
          else let collision = \<not> list_ex (\<lambda>row. admissible row \<and> pays row) rows in
            if collision \<noteq> (jget r ''status'' = JStr ''collision'') then ok (Some SEMANTICS_UNAVAILABLE)
            else if collision then ok (Some SEMANTIC_COLLISION)
            else if requireCoverage \<and> length (expected_events e) > 1
              \<and> (jget r ''coverage'' \<noteq> JStr ''complete'' \<or> jget r ''status'' = JStr ''unknown'') then ok (Some SEMANTICS_UNKNOWN)
            else ok None))"

definition semanticsDisabled :: "json \<Rightarrow> bool" where
  "semanticsDisabled r = (jget r ''mode'' = JStr ''disabled'')"

section \<open>What passing means\<close>

lemma someE_False: "someE p xs = ok False \<Longrightarrow> x \<in> set xs \<Longrightarrow> p x = ok False"
  by (induction xs) (auto split: if_splits)

text \<open>The expectation the runtime builds for a claim of a market of \<open>n\<close> events.\<close>

definition expect_claim :: "string \<Rightarrow> int \<Rightarrow> claim \<Rightarrow> string \<Rightarrow> expectation" where
  "expect_claim rules n c quantity = \<lparr>ex_pool = claim_pool c, ex_rulesHash = rules, ex_eventCount = n,
     ex_scope = claim_scope c, ex_mask = int_str (claim_mask c), ex_quantity = quantity\<rparr>"

lemma expected_events_claim:
  assumes "wf_claim n c"
  shows "expected_events (expect_claim rules n c q) = scopeEvents (claim_scope c)"
proof -
  note w = wf_claimD [OF assms]
  have small: "i < nat n" if "bit (claim_scope c) i" for i
    using bit_small_nat [of "claim_scope c" "nat n" i] w(5,6) that by simp
  have n: "nat n \<le> 31" using w(4) by auto
  have "filter (bit (claim_scope c)) [0..<31] = filter (bit (claim_scope c)) ([0..<nat n] @ [nat n..<31])"
    using n by (metis le0 upt_add_eq_append le_add_diff_inverse add_0)
  also have "\<dots> = filter (bit (claim_scope c)) [0..<nat n]" using small by (fastforce simp: filter_empty_conv)
  also have "\<dots> = filter (js_bit (claim_scope c)) [0..<nat n]"
    using n by (intro filter_cong) (auto simp: js_bit_iff)
  finally show ?thesis by (simp add: scopeEvents_eq expected_events_def expect_claim_def)
qed

lemma row_pays:
  assumes "wf_claim n c" "bad_row (expect_claim rules n c q) (state, row) = ok False"
  shows "jget row ''state'' = JInt (int state) \<and> jget row ''pays'' = JBool (paysIn c (int state))"
proof -
  have "is_canon_dec (int_str (claim_mask c))" using wf_claimD(3) [OF assms(1)] by (simp add: int_str_nonneg)
  then have "big_of_string (int_str (claim_mask c)) = ok (claim_mask c)"
    using wf_claimD(3) [OF assms(1)] by (simp add: big_of_canon str_nat_int_str)
  then show ?thesis
    using assms(2) expected_events_claim [OF assms(1), of rules q]
    by (auto simp: bad_row_def expect_claim_def paysIn_def split: if_splits)
qed

section \<open>Properties\<close>

text \<open>An enforced assessment that passes proves the purchase can win: it is fresh and bound to this
  pool and claim, its matrix agrees with the claim's own payout in every outcome, some outcome
  it calls possible pays the claim, and for a combination its rules cover every outcome.\<close>

theorem semantic_pass_can_win:
  assumes "semanticError r (expect_claim rules n c q) now True = ok None" and "\<not> semanticsDisabled r" and "wf_claim n c"
  shows "\<exists>rows. matrix_rows r = Some rows \<and> length rows = 2 ^ nat n
    \<and> (\<forall>state < 2 ^ nat n. pays (rows ! state) = paysIn c (int state))
    \<and> (\<exists>state < 2 ^ nat n. admissible (rows ! state) \<and> paysIn c (int state))
    \<and> (length (scopeEvents (claim_scope c)) > 1 \<longrightarrow> jget r ''coverage'' = JStr ''complete'')
    \<and> jint_val (jget r ''checkedAt'') \<le> now + 15 \<and> now < jint_val (jget r ''expiresAt'')
    \<and> jget r ''pool'' = JStr (claim_pool c) \<and> jget r ''mask'' = JStr (int_str (claim_mask c))"
proof -
  let ?e = "expect_claim rules n c q"
  obtain rows where rows: "matrix_rows r = Some rows" "length rows = 2 ^ nat n"
    and some: "someE (bad_row ?e) (enumerate 0 rows) = ok False"
    and win: "list_ex (\<lambda>row. admissible row \<and> pays row) rows"
    and cov: "length (expected_events ?e) > 1 \<longrightarrow> jget r ''coverage'' = JStr ''complete''"
    and un: "\<not> unbound r ?e now"
    using assms(1,2) unfolding semanticError_def semanticsDisabled_def
    by (auto simp: Let_def malformed_def expect_claim_def split: if_splits option.splits)
  have agree: "pays (rows ! state) = paysIn c (int state)" if "state < 2 ^ nat n" for state
  proof -
    have "(state, rows ! state) \<in> set (enumerate 0 rows)" using that rows(2) by (simp add: in_set_enumerate_eq)
    then have "bad_row ?e (state, rows ! state) = ok False" using some someE_False by fast
    then show ?thesis using row_pays [OF assms(3)] by (fastforce simp: pays_def)
  qed
  moreover have "\<exists>state < 2 ^ nat n. admissible (rows ! state) \<and> paysIn c (int state)"
    using win agree rows(2) by (fastforce simp: list_ex_iff in_set_conv_nth)
  ultimately show ?thesis
    using rows cov un expected_events_claim [OF assms(3), of rules q]
    by (intro exI [of _ rows]) (auto simp: unbound_def expect_claim_def)
qed

definition example_rows :: "json list" where
  "example_rows = map (\<lambda>s. JObj [(''state'', JInt (int s)), (''admissible'', JBool (s \<noteq> 7)),
     (''pays'', JBool (s \<in> {0, 2, 4, 5, 6, 7}))]) [0..<8]"

definition example_assessment :: json where
  "example_assessment = JObj [(''schema'', JStr ''flurbo.semantic-assessment.v1''), (''pool'', JStr example_pool),
     (''rulesHash'', JStr ''0xab''), (''scope'', JInt 5), (''mask'', JStr ''13''), (''quantityAtoms'', JStr ''1000000''),
     (''checkedAt'', JInt 1700000000), (''expiresAt'', JInt 1700000060),
     (''configRevision'', JStr (replicate 64 CHR ''a'')), (''mode'', JStr ''enforced''),
     (''rulesDigest'', JStr (replicate 64 CHR ''b'')), (''status'', JStr ''no_declared_collision''),
     (''coverage'', JStr ''complete''), (''matrix'', JArr example_rows)]"

lemma example_assessment_ok:
  "semanticError example_assessment (expect_claim ''0xab'' 3
    \<lparr>claim_chain = 10143, claim_pool = example_pool, claim_scope = 5, claim_mask = 13\<rparr> ''1000000'') 1700000010 True = ok None"
  unfolding example_assessment_def example_rows_def expect_claim_def by code_simp

theorem semantic_pass_can_win_witness:
  "list_ex (\<lambda>s. paysIn \<lparr>claim_chain = 10143, claim_pool = example_pool, claim_scope = 5, claim_mask = 13\<rparr> (int s)) [0..<8]"
proof -
  have "\<not> semanticsDisabled example_assessment"
    by (simp add: semanticsDisabled_def example_assessment_def jget_def)
  from semantic_pass_can_win [OF example_assessment_ok this example_wf] obtain s where
    "s < (2::nat) ^ nat 3" "paysIn \<lparr>claim_chain = 10143, claim_pool = example_pool, claim_scope = 5, claim_mask = 13\<rparr> (int s)"
    by blast
  then show ?thesis by (auto simp: list_ex_iff)
qed

end
