(* ===== verification/Scheduler.thy ===== *)
theory Scheduler
  imports Complex_Main Amounts Systems
begin

text \<open>
  The client's request scheduler (packages/sdk/src/request-scheduler.ts): how many requests run at
  once, how many start in a window of time, how many wait, and the pause after a 429. Times are
  milliseconds; a fractional Retry-After makes them fractions. Every block of code that runs
  without awaiting is one operation on the state; the steps at the end interleave them freely.
\<close>

section \<open>The code\<close>

record limits =
  li_concurrency :: nat
  li_queueLimit :: nat
  li_perWindow :: nat
  li_windowMs :: rat

record sched =
  sd_active :: nat
  sd_waiting :: nat
  sd_blockedUntil :: rat
  sd_starts :: "rat list"

definition idle :: sched where
  "idle = \<lparr>sd_active = 0, sd_waiting = 0, sd_blockedUntil = 0, sd_starts = []\<rparr>"

text \<open>\<open>/^\d+(?:\.\d+)?$/\<close>: the digits before and after the point.\<close>

definition decimal_parts :: "string \<Rightarrow> (string \<times> string) option" where
  "decimal_parts s =
     (let whole = takeWhile is_dec s; rest = dropWhile is_dec s in
      if whole = [] then None
      else if rest = [] then Some (whole, [])
      else if hd rest = CHR ''.'' \<and> tl rest \<noteq> [] \<and> list_all is_dec (tl rest) then Some (whole, tl rest)
      else None)"

definition decimal_value :: "string \<times> string \<Rightarrow> rat" where
  "decimal_value = (\<lambda>(whole, fraction).
     of_nat (str_nat whole) + of_nat (str_nat fraction) / 10 ^ length fraction)"

text \<open>\<open>parse_date\<close> is the engine's \<open>Date.parse\<close>, which reads HTTP dates in its own way.\<close>

definition retryAfterMs :: "(string \<Rightarrow> rat option) \<Rightarrow> string option \<Rightarrow> rat \<Rightarrow> rat" where
  "retryAfterMs parse_date v now = (case v of
     None \<Rightarrow> 0
   | Some s \<Rightarrow> (if s = [] then 0
       else (case decimal_parts (js_trim s) of
         Some parts \<Rightarrow> max 0 (decimal_value parts * 1000)
       | None \<Rightarrow> (case parse_date s of None \<Rightarrow> 0 | Some t \<Rightarrow> max 0 (t - now)))))"

definition cooldown :: "(string \<Rightarrow> rat option) \<Rightarrow> string option \<Rightarrow> rat \<Rightarrow> sched \<Rightarrow> sched" where
  "cooldown parse_date v now s =
     (let wait = retryAfterMs parse_date v now in
      s\<lparr>sd_blockedUntil := max (sd_blockedUntil s) (now + (if wait = 0 then 1000 else wait))\<rparr>)"

text \<open>\<open>run\<close>, in its pieces: entering the queue, one turn of the loop, leaving on abort, finishing.\<close>

definition enter :: "limits \<Rightarrow> sched \<Rightarrow> sched res" where
  "enter l s = (if sd_waiting s \<ge> li_queueLimit l then Inl (Other_error ''Error'')
     else ok (s\<lparr>sd_waiting := sd_waiting s + 1\<rparr>))"

definition recent :: "limits \<Rightarrow> rat \<Rightarrow> rat list \<Rightarrow> rat list" where
  "recent l t starts = dropWhile (\<lambda>x. x \<le> t - li_windowMs l) starts"

definition attempt :: "limits \<Rightarrow> rat \<Rightarrow> sched \<Rightarrow> bool \<times> sched" where
  "attempt l t s =
     (let starts = recent l t (sd_starts s) in
      if sd_active s < li_concurrency l \<and> length starts < li_perWindow l \<and> t \<ge> sd_blockedUntil s
      then (True, s\<lparr>sd_active := sd_active s + 1, sd_waiting := sd_waiting s - 1, sd_starts := starts @ [t]\<rparr>)
      else (False, s\<lparr>sd_starts := starts\<rparr>))"

definition pause_ms :: "limits \<Rightarrow> rat \<Rightarrow> sched \<Rightarrow> rat" where
  "pause_ms l t s = min 1000 (max 10 (max (sd_blockedUntil s - t)
     (if length (sd_starts s) \<ge> li_perWindow l then hd (sd_starts s) + li_windowMs l - t else 10)))"

definition give_up :: "sched \<Rightarrow> sched" where
  "give_up s = s\<lparr>sd_waiting := sd_waiting s - 1\<rparr>"

definition finish :: "sched \<Rightarrow> sched" where
  "finish s = s\<lparr>sd_active := sd_active s - 1\<rparr>"

text \<open>One scheduler per lane and origin; \<open>origin_of\<close> is the URL parser's origin.\<close>

definition lane_limits :: "string \<Rightarrow> limits" where
  "lane_limits lane = \<lparr>li_concurrency = (if lane = ''rpc'' then 4 else 6), li_queueLimit = 64,
     li_perWindow = (if lane = ''rpc'' then 600 else 100), li_windowMs = 60000\<rparr>"

definition schedulerFor :: "(string \<Rightarrow> string) \<Rightarrow> (string \<times> limits) list \<Rightarrow> string \<Rightarrow> string
    \<Rightarrow> (string \<times> (string \<times> limits) list) res" where
  "schedulerFor origin_of schedulers url lane =
     (let origin = lane @ '':'' @ origin_of url in
      if map_of schedulers origin \<noteq> None then ok (origin, schedulers)
      else if length schedulers \<ge> 64 then Inl (Other_error ''Error'')
      else ok (origin, schedulers @ [(origin, lane_limits lane)]))"

section \<open>Interleavings\<close>

text \<open>The state, the times at which requests started so far, and the clock, which never runs back.\<close>

type_synonym history = "sched \<times> rat list \<times> rat"

inductive sched_step :: "limits \<Rightarrow> history \<Rightarrow> history \<Rightarrow> bool" for l where
  tick: "now \<le> t \<Longrightarrow> sched_step l (s, hist, now) (s, hist, t)"
| entered: "enter l s = ok s' \<Longrightarrow> sched_step l (s, hist, now) (s', hist, now)"
| started: "0 < sd_waiting s \<Longrightarrow> attempt l now s = (True, s') \<Longrightarrow> sched_step l (s, hist, now) (s', hist @ [now], now)"
| held: "0 < sd_waiting s \<Longrightarrow> attempt l now s = (False, s') \<Longrightarrow> sched_step l (s, hist, now) (s', hist, now)"
| aborted: "0 < sd_waiting s \<Longrightarrow> sched_step l (s, hist, now) (give_up s, hist, now)"
| finished: "0 < sd_active s \<Longrightarrow> sched_step l (s, hist, now) (finish s, hist, now)"
| cooled: "sched_step l (s, hist, now) (cooldown parse_date v now s, hist, now)"

inductive_cases sched_stepE: "sched_step l h h'"

definition in_window :: "limits \<Rightarrow> rat \<Rightarrow> rat list \<Rightarrow> rat list" where
  "in_window l u hist = filter (\<lambda>x. u - li_windowMs l < x \<and> x \<le> u) hist"

definition sched_inv :: "limits \<Rightarrow> history \<Rightarrow> bool" where
  "sched_inv l = (\<lambda>(s, hist, now). sd_active s \<le> li_concurrency l \<and> sd_waiting s \<le> li_queueLimit l
     \<and> sorted hist \<and> (\<forall>x\<in>set hist. x \<le> now) \<and> (\<forall>u. length (in_window l u hist) \<le> li_perWindow l)
     \<and> (\<exists>c\<le>now - li_windowMs l. sd_starts s = filter (\<lambda>x. c < x) hist))"

lemma dropWhile_sorted: "sorted xs \<Longrightarrow> dropWhile (\<lambda>x. x \<le> c) xs = filter (\<lambda>x. (c::rat) < x) xs"
proof (induction xs)
  case (Cons x xs)
  show ?case
  proof (cases "x \<le> c")
    case False
    then have "\<forall>y\<in>set (x # xs). c < y" using Cons.prems by force
    then show ?thesis by (simp del: set_simps) (simp add: filter_id_conv)
  qed (use Cons in auto)
qed simp

lemma recent_eq:
  assumes "sorted hist" "c \<le> t - li_windowMs l"
  shows "recent l t (filter (\<lambda>x. c < x) hist) = filter (\<lambda>x. t - li_windowMs l < x) hist"
proof -
  have "recent l t (filter (\<lambda>x. c < x) hist) = filter (\<lambda>x. t - li_windowMs l < x) (filter (\<lambda>x. c < x) hist)"
    unfolding recent_def by (rule dropWhile_sorted) (simp add: sorted_wrt_filter assms(1))
  also have "\<dots> = filter (\<lambda>x. t - li_windowMs l < x) hist" using assms(2) by (auto intro: filter_cong)
  finally show ?thesis .
qed

lemma length_filter_mono: "(\<And>x. x \<in> set xs \<Longrightarrow> P x \<Longrightarrow> Q x) \<Longrightarrow> length (filter P xs) \<le> length (filter Q xs)"
  by (induction xs) (auto simp: le_SucI)

lemma window_after_start:
  assumes hist: "\<forall>x\<in>set hist. x \<le> now" and old: "length (in_window l u hist) \<le> li_perWindow l"
    and few: "length (filter (\<lambda>x. now - li_windowMs l < x) hist) < li_perWindow l"
  shows "length (in_window l u (hist @ [now])) \<le> li_perWindow l"
proof (cases "now \<le> u")
  case True
  have "length (in_window l u hist) \<le> length (filter (\<lambda>x. now - li_windowMs l < x) hist)"
    unfolding in_window_def using True by (intro length_filter_mono) auto
  then show ?thesis using few by (simp add: in_window_def)
next
  case False
  then show ?thesis using old by (simp add: in_window_def)
qed

lemma attempt_inv:
  assumes inv: "sched_inv l (s, hist, now)" and att: "attempt l now s = (b, s')" and w: "0 < li_windowMs l"
  shows "sched_inv l (s', if b then hist @ [now] else hist, now)"
proof -
  obtain c where c: "c \<le> now - li_windowMs l" "sd_starts s = filter (\<lambda>x. c < x) hist"
    using inv by (auto simp: sched_inv_def)
  have hist: "sorted hist" "\<forall>x\<in>set hist. x \<le> now" using inv by (auto simp: sched_inv_def)
  have starts: "recent l now (sd_starts s) = filter (\<lambda>x. now - li_windowMs l < x) hist"
    unfolding c(2) by (rule recent_eq [OF hist(1) c(1)])
  show ?thesis
  proof (cases b)
    case True
    then have few: "length (filter (\<lambda>x. now - li_windowMs l < x) hist) < li_perWindow l"
      and s': "s' = s\<lparr>sd_active := sd_active s + 1, sd_waiting := sd_waiting s - 1,
        sd_starts := filter (\<lambda>x. now - li_windowMs l < x) hist @ [now]\<rparr>" and act: "sd_active s < li_concurrency l"
      using att by (auto simp: attempt_def starts Let_def split: if_splits)
    have "\<forall>u. length (in_window l u (hist @ [now])) \<le> li_perWindow l"
      using inv few window_after_start [OF hist(2)] by (auto simp: sched_inv_def)
    moreover have "\<exists>c\<le>now - li_windowMs l. sd_starts s' = filter (\<lambda>x. c < x) (hist @ [now])"
      using w by (intro exI [of _ "now - li_windowMs l"]) (simp add: s')
    moreover have "sorted (hist @ [now])" using hist by (simp add: sorted_append)
    moreover have "sd_active s' \<le> li_concurrency l" "sd_waiting s' \<le> li_queueLimit l" "\<forall>x\<in>set (hist @ [now]). x \<le> now"
      using act inv hist(2) by (auto simp: s' sched_inv_def)
    ultimately show ?thesis using True unfolding sched_inv_def by (simp only: prod.case if_True) blast
  next
    case False
    then have "s' = s\<lparr>sd_starts := filter (\<lambda>x. now - li_windowMs l < x) hist\<rparr>"
      using att by (auto simp: attempt_def starts Let_def split: if_splits)
    then have "\<exists>c\<le>now - li_windowMs l. sd_starts s' = filter (\<lambda>x. c < x) hist" "sd_active s' = sd_active s" "sd_waiting s' = sd_waiting s"
      by (auto intro: exI [of _ "now - li_windowMs l"])
    then show ?thesis using inv False by (simp add: sched_inv_def)
  qed
qed

lemma sched_inv_step:
  assumes "0 < li_windowMs l" "sched_inv l h" "sched_step l h h'"
  shows "sched_inv l h'"
  using assms(3)
proof cases
  case (tick now t s hist)
  then obtain c where "c \<le> now - li_windowMs l" "sd_starts s = filter (\<lambda>x. c < x) hist"
    using assms(2) by (auto simp: sched_inv_def)
  then have "\<exists>c\<le>t - li_windowMs l. sd_starts s = filter (\<lambda>x. c < x) hist" using tick by (intro exI [of _ c]) simp
  moreover have "\<forall>x\<in>set hist. x \<le> t" using assms(2) tick by (auto simp: sched_inv_def)
  ultimately show ?thesis using assms(2) tick by (simp add: sched_inv_def)
next
  case (started s now s' hist)
  then show ?thesis using attempt_inv [of l s hist now True s'] assms(1,2) by simp
next
  case (held s now s' hist)
  then show ?thesis using attempt_inv [of l s hist now False s'] assms(1,2) by simp
qed (use assms(2) in \<open>auto simp: sched_inv_def enter_def give_up_def finish_def cooldown_def Let_def split: if_splits\<close>)

text \<open>The schedulers the code makes, one per lane.\<close>

interpretation lane_sched: invariant_system "\<lambda>h. h = (idle, [], t0)" "sched_step (lane_limits lane)" "sched_inv (lane_limits lane)"
  for t0 lane
proof unfold_locales
  fix h :: history assume "h = (idle, [], t0)"
  then show "sched_inv (lane_limits lane) h"
    by (auto simp: sched_inv_def idle_def in_window_def intro: exI [of _ "t0 - li_windowMs (lane_limits lane)"])
next
  fix h h' assume "sched_inv (lane_limits lane) h" "sched_step (lane_limits lane) h h'"
  then show "sched_inv (lane_limits lane) h'"
    by (rule sched_inv_step [rotated]) (simp_all add: lane_limits_def)
qed

section \<open>Properties\<close>

text \<open>C39: However requests arrive, wait, abort and finish, and however the clock advances, a lane never
  has more requests running than its concurrency, never more than 64 waiting, and in no window
  of a minute, wherever it is placed, do more requests start than the lane allows.\<close>

theorem scheduler_bounds:
  assumes "(sched_step (lane_limits lane))\<^sup>*\<^sup>* (idle, [], t0) (s, hist, now)"
  shows "sd_active s \<le> (if lane = ''rpc'' then 4 else 6) \<and> sd_waiting s \<le> 64
    \<and> (\<forall>u. length (filter (\<lambda>x. u - 60000 < x \<and> x \<le> u) hist) \<le> (if lane = ''rpc'' then 600 else 100))"
proof -
  have "sched_inv (lane_limits lane) (s, hist, now)" using lane_sched.reachable_inv [OF refl assms] .
  then show ?thesis by (simp add: sched_inv_def in_window_def lane_limits_def)
qed

theorem scheduler_bounds_witness:
  "length (filter (\<lambda>x. 60000 - 60000 < x \<and> x \<le> 60000) [5 :: rat]) \<le> (if ''rpc'' = ''rpc'' then 600 else 100)"
proof -
  let ?s1 = "idle\<lparr>sd_waiting := 1\<rparr>" and ?s2 = "idle\<lparr>sd_active := 1, sd_starts := [5]\<rparr>"
  have "sched_step (lane_limits ''rpc'') (idle, [], 5) (?s1, [], 5)"
    by (rule sched_step.entered) (simp add: enter_def idle_def lane_limits_def)
  moreover have "attempt (lane_limits ''rpc'') 5 ?s1 = (True, ?s2)"
    by (simp add: attempt_def recent_def idle_def lane_limits_def Let_def)
  then have "sched_step (lane_limits ''rpc'') (?s1, [], 5) (?s2, [] @ [5], 5)"
    by (intro sched_step.started) simp_all
  ultimately have "(sched_step (lane_limits ''rpc''))\<^sup>*\<^sup>* (idle, [], 5) (?s2, [5], 5)" by simp
  from scheduler_bounds [OF this] show ?thesis by blast
qed

end
