(* ===== verification/Price_Feed.thy ===== *)
theory Price_Feed
  imports Complex_Main Amounts
begin

text \<open>
  The Chainlink price-feed workflow (workflows/cre/src/price-feed.ts and the control flow of
  price-feed-main.ts): the exact threshold comparison, the search for the first block at or
  after the observation time, and the evidence built from the reads at that block. The ABI
  codecs and the hash of viem, the chain reads and the report writer of the CRE runtime are
  parameters.
\<close>

section \<open>Configuration\<close>

definition error_of :: "'a res" where
  "error_of = Inl (Other_error ''Error'')"

record feed_rule =
  fr_event :: int
  fr_label :: string
  fr_feed :: string
  fr_threshold :: string

record feed_config =
  cf_chainId :: int
  cf_pool :: string
  cf_rulesHash :: string
  cf_closesAt :: int
  cf_observationAt :: int
  cf_sourceChainId :: int
  cf_eventCount :: int
  cf_feeds :: "feed_rule list"
  cf_attestation :: "string option"

definition valid_address :: "string \<Rightarrow> bool" where
  "valid_address v = (is_0x_hex 40 v \<and> v \<noteq> ''0x'' @ replicate 40 CHR ''0'')"

definition valid_hash :: "string \<Rightarrow> bool" where
  "valid_hash v = is_0x_hex 64 v"

definition valid_timestamp :: "int \<Rightarrow> bool" where
  "valid_timestamp t = (0 < t \<and> t \<le> max_safe)"

definition label_char :: "char \<Rightarrow> bool" where
  "label_char c = (is_dec c \<or> (65 \<le> code c \<and> code c \<le> 90) \<or> (97 \<le> code c \<and> code c \<le> 122)
     \<or> List.member '' ./()_-'' c)"

text \<open>\<open>/^(0|[1-9]\d*)(?:\.(\d+))?$/\<close>: the whole digits and the digits after the point.\<close>

definition threshold_parts :: "string \<Rightarrow> (string \<times> string) option" where
  "threshold_parts s =
     (let whole = takeWhile is_dec s; rest = dropWhile is_dec s in
      if \<not> is_canon_dec whole then None
      else if rest = [] then Some (whole, [])
      else if hd rest = CHR ''.'' \<and> tl rest \<noteq> [] \<and> list_all is_dec (tl rest) then Some (whole, tl rest)
      else None)"

definition valid_threshold :: "string \<Rightarrow> bool" where
  "valid_threshold s = (case threshold_parts s of
     None \<Rightarrow> False | Some (whole, fraction) \<Rightarrow> length whole \<le> 18 \<and> length fraction \<le> 18)"

definition valid_rule :: "feed_rule \<Rightarrow> bool" where
  "valid_rule r = (0 \<le> fr_event r \<and> fr_event r \<le> 31 \<and> 1 \<le> length (fr_label r) \<and> length (fr_label r) \<le> 48
     \<and> list_all label_char (fr_label r) \<and> valid_address (fr_feed r) \<and> valid_threshold (fr_threshold r))"

definition valid_config :: "feed_config \<Rightarrow> bool" where
  "valid_config c =
     (cf_chainId c = 10143 \<and> valid_address (cf_pool c) \<and> valid_hash (cf_rulesHash c)
      \<and> valid_timestamp (cf_closesAt c) \<and> valid_timestamp (cf_observationAt c) \<and> cf_sourceChainId c = 143
      \<and> 2 \<le> cf_eventCount c \<and> cf_eventCount c \<le> 4
      \<and> 2 \<le> length (cf_feeds c) \<and> length (cf_feeds c) \<le> 4 \<and> list_all valid_rule (cf_feeds c)
      \<and> (case cf_attestation c of None \<Rightarrow> True | Some a \<Rightarrow> valid_address a)
      \<and> distinct (map fr_event (cf_feeds c))
      \<and> list_all (\<lambda>r. fr_event r < cf_eventCount c) (cf_feeds c)
      \<and> distinct (map (\<lambda>r. lower (fr_feed r)) (cf_feeds c))
      \<and> cf_observationAt c > cf_closesAt c)"

section \<open>Deciding a threshold\<close>

definition MAX_DECIMALS :: int where
  "MAX_DECIMALS = 36"

definition decideGte :: "int \<Rightarrow> int \<Rightarrow> string \<Rightarrow> bool res" where
  "decideGte answer decimals threshold = (case threshold_parts threshold of
     None \<Rightarrow> error_of
   | Some (whole, fraction) \<Rightarrow>
       (if decimals < 0 \<or> decimals > MAX_DECIMALS then error_of
        else ok (answer * 10 ^ length fraction \<ge> int (str_nat (whole @ fraction)) * 10 ^ nat decimals)))"

definition mask_step :: "int \<times> int list \<Rightarrow> int \<times> bool \<Rightarrow> (int \<times> int list) res" where
  "mask_step = (\<lambda>(m, seen) (event, yes).
     if event < 0 \<or> event > 31 \<or> List.member seen event then error_of
     else ok (if yes then m + 2 ^ nat event else m, event # seen))"

definition yesMaskFrom :: "(int \<times> bool) list \<Rightarrow> int res" where
  "yesMaskFrom results = bindE (foldE mask_step (0, []) results) (\<lambda>(m, _). ok m)"

section \<open>Reads\<close>

record feed_observation =
  fo_event :: int
  fo_feed :: string
  fo_round :: int
  fo_answer :: int
  fo_updatedAt :: int
  fo_decimals :: int

record pool_state =
  ps_rulesHash :: string
  ps_closesAt :: int
  ps_eventCount :: int
  ps_resolved :: bool
  ps_resolvedState :: int
  ps_voidMask :: int
  ps_attested :: "(int \<times> int) option"

record block_ref =
  br_number :: int
  br_hash :: string
  br_time :: int

text \<open>The codecs of viem for the functions these modules call.\<close>

record viem =
  vi_call :: "string \<Rightarrow> string list \<Rightarrow> string"
  vi_aggregate :: "(string \<times> string) list \<Rightarrow> string"
  vi_rows :: "string \<Rightarrow> (bool \<times> string) list res"
  vi_int :: "string \<Rightarrow> int res"
  vi_round :: "string \<Rightarrow> (int \<times> int \<times> int) res"
  vi_hash :: "string \<Rightarrow> string res"
  vi_bool :: "string \<Rightarrow> bool res"
  vi_attestation :: "string \<Rightarrow> (int \<times> int) res"
  vi_observations :: "int \<Rightarrow> string \<Rightarrow> int \<Rightarrow> feed_observation list \<Rightarrow> string"
  vi_report :: "int \<Rightarrow> int \<Rightarrow> string \<Rightarrow> string \<Rightarrow> int \<Rightarrow> string \<Rightarrow> int \<Rightarrow> string"

definition unpack :: "viem \<Rightarrow> string \<Rightarrow> nat \<Rightarrow> string list res" where
  "unpack v d expected = bindE (vi_rows v d) (\<lambda>rows.
     if length rows \<noteq> expected \<or> list_ex (\<lambda>(success, _). \<not> success) rows then error_of
     else ok (map snd rows))"

definition feed_calls :: "viem \<Rightarrow> feed_rule \<Rightarrow> (string \<times> string) list" where
  "feed_calls v r = map (\<lambda>f. (fr_feed r, vi_call v f [])) [''latestAnswer'', ''latestRoundData'', ''decimals'']"

definition encodeFeedMulticall :: "viem \<Rightarrow> feed_rule list \<Rightarrow> string" where
  "encodeFeedMulticall v feeds = vi_aggregate v (concat (map (feed_calls v) feeds))"

definition decode_feed :: "viem \<Rightarrow> string list \<Rightarrow> nat \<times> feed_rule \<Rightarrow> feed_observation res" where
  "decode_feed v rows = (\<lambda>(i, r).
     bindE (vi_int v (rows ! (i * 3))) (\<lambda>latest.
     bindE (vi_round v (rows ! (i * 3 + 1))) (\<lambda>(round_id, answer, updatedAt).
     bindE (vi_int v (rows ! (i * 3 + 2))) (\<lambda>decimals.
       if latest \<noteq> answer \<or> answer \<le> 0 then error_of
       else ok \<lparr>fo_event = fr_event r, fo_feed = fr_feed r, fo_round = round_id, fo_answer = answer,
         fo_updatedAt = updatedAt, fo_decimals = decimals\<rparr>))))"

definition decodeFeedMulticall :: "viem \<Rightarrow> string \<Rightarrow> feed_rule list \<Rightarrow> feed_observation list res" where
  "decodeFeedMulticall v d feeds = bindE (unpack v d (length feeds * 3)) (\<lambda>rows.
     mapE (decode_feed v rows) (enumerate 0 feeds))"

definition encodePoolMulticall :: "viem \<Rightarrow> string \<Rightarrow> string option \<Rightarrow> string" where
  "encodePoolMulticall v pool attestation = vi_aggregate v
     (map (\<lambda>f. (pool, vi_call v f []))
        [''settlementRulesHash'', ''closesAt'', ''eventCount'', ''resolved'', ''resolvedState'', ''voidMask'']
      @ (case attestation of None \<Rightarrow> [] | Some a \<Rightarrow> [(a, vi_call v ''attestations'' [pool])]))"

definition decodePoolMulticall :: "viem \<Rightarrow> string \<Rightarrow> bool \<Rightarrow> pool_state res" where
  "decodePoolMulticall v d withAttestation =
     bindE (unpack v d (if withAttestation then 7 else 6)) (\<lambda>rows.
     bindE (if withAttestation then bindE (vi_attestation v (rows ! 6)) (\<lambda>a. ok (Some a)) else ok None) (\<lambda>attested.
     bindE (vi_hash v (rows ! 0)) (\<lambda>rules. bindE (vi_int v (rows ! 1)) (\<lambda>closes.
     bindE (vi_int v (rows ! 2)) (\<lambda>events. bindE (vi_bool v (rows ! 3)) (\<lambda>resolved.
     bindE (vi_int v (rows ! 4)) (\<lambda>st. bindE (vi_int v (rows ! 5)) (\<lambda>void.
       ok \<lparr>ps_rulesHash = rules, ps_closesAt = closes, ps_eventCount = events, ps_resolved = resolved,
         ps_resolvedState = st, ps_voidMask = void, ps_attested = attested\<rparr>))))))))"

section \<open>The observation block\<close>

definition nextProbe :: "int \<Rightarrow> block_ref \<Rightarrow> block_ref \<Rightarrow> int res" where
  "nextProbe target lo hi =
     (if \<not> br_time lo < target \<or> \<not> br_time hi \<ge> target \<or> br_number hi - br_number lo < 2 then error_of
      else let gap = br_number hi - br_number lo in
        bindE (if gap \<le> 8 then ok (br_number lo + tdiv gap 2)
          else bindE (big_div ((target - br_time lo) * gap) (br_time hi - br_time lo)) (\<lambda>d. ok (br_number lo + d)))
        (\<lambda>probe0.
          let probe1 = (if probe0 \<le> br_number lo then br_number lo + 1 else probe0) in
          ok (if probe1 \<ge> br_number hi then br_number hi - 1 else probe1)))"

text \<open>
  \<open>findObservationBlock\<close>: \<open>left\<close> is the number of reads still allowed. The first loop steps back
  to a block before the target, the second narrows the bracket.
\<close>

type_synonym reader = "int \<Rightarrow> block_ref res"

fun step_back :: "reader \<Rightarrow> int \<Rightarrow> nat \<Rightarrow> block_ref \<Rightarrow> int \<Rightarrow> (block_ref \<times> block_ref \<times> nat) res" where
  "step_back read target left hi stride =
     (if br_number hi \<le> 1 then error_of
      else let guess = (if br_number hi > stride then br_number hi - stride else 1) in
        (case left of
           0 \<Rightarrow> error_of
         | Suc rest \<Rightarrow> bindE (read guess) (\<lambda>header.
             if br_time header < target then ok (header, hi, rest)
             else step_back read target rest header (stride * 2))))"

fun narrow :: "reader \<Rightarrow> int \<Rightarrow> nat \<Rightarrow> block_ref \<Rightarrow> block_ref \<Rightarrow> (block_ref \<times> block_ref) res" where
  "narrow read target left lo hi =
     (if br_number hi - br_number lo > 1 then
        bindE (nextProbe target lo hi) (\<lambda>probe.
          case left of
            0 \<Rightarrow> error_of
          | Suc rest \<Rightarrow> bindE (read probe) (\<lambda>header.
              if br_time header < target then narrow read target rest header hi
              else narrow read target rest lo header))
      else ok (hi, lo))"

declare step_back.simps [simp del] narrow.simps [simp del]

definition first_step :: "int \<Rightarrow> block_ref \<Rightarrow> int" where
  "first_step target hi = max 8 ((br_time hi - target + 1) * 3)"

text \<open>The result is the block and the one before it.\<close>

definition findObservationBlock :: "int \<Rightarrow> block_ref res \<Rightarrow> reader \<Rightarrow> nat \<Rightarrow> (block_ref \<times> block_ref) res" where
  "findObservationBlock target finalized read maxReads =
     (case maxReads of
        0 \<Rightarrow> error_of
      | Suc left \<Rightarrow> bindE finalized (\<lambda>hi.
          if br_time hi < target then error_of
          else bindE (step_back read target left hi (first_step target hi)) (\<lambda>(lo, hi', rest).
            narrow read target rest lo hi')))"

definition MAX_HEADER_READS :: nat where
  "MAX_HEADER_READS = 12"

section \<open>Evidence\<close>

definition observationsHash :: "viem \<Rightarrow> feed_observation list \<Rightarrow> block_ref \<Rightarrow> string" where
  "observationsHash v obs b = vi_observations v (br_number b) (br_hash b) (br_time b) (sort_key fo_event obs)"

definition encodeReport :: "viem \<Rightarrow> feed_config \<Rightarrow> int \<Rightarrow> string \<Rightarrow> int \<Rightarrow> string" where
  "encodeReport v c observedAt obsHash yesMask =
     vi_report v 2 (cf_chainId c) (cf_pool c) (cf_rulesHash c) observedAt obsHash yesMask"

definition shouldAttest :: "feed_config \<Rightarrow> pool_state \<Rightarrow> bool" where
  "shouldAttest c p = (cf_attestation c \<noteq> None \<and> (case ps_attested p of None \<Rightarrow> False | Some (_, t) \<Rightarrow> t = 0))"

record price_evidence =
  ce_block :: block_ref
  ce_prev :: block_ref
  ce_rows :: "(feed_rule \<times> feed_observation \<times> bool) list"
  ce_yesMask :: int
  ce_hash :: string
  ce_report :: string
  ce_onchain :: "(int \<times> int \<times> bool) option"

definition evidence_row :: "feed_observation list \<Rightarrow> feed_rule \<Rightarrow> (feed_rule \<times> feed_observation \<times> bool) res" where
  "evidence_row obs r = (case List.find (\<lambda>x. fo_event x = fr_event r) obs of
     None \<Rightarrow> error_of
   | Some seen \<Rightarrow>
       (if lower (fo_feed seen) \<noteq> lower (fr_feed r) then error_of
        else bindE (decideGte (fo_answer seen) (fo_decimals seen) (fr_threshold r)) (\<lambda>yes. ok (r, seen, yes))))"

definition buildEvidence :: "viem \<Rightarrow> feed_config \<Rightarrow> pool_state \<Rightarrow> block_ref \<Rightarrow> block_ref \<Rightarrow> feed_observation list \<Rightarrow> price_evidence res" where
  "buildEvidence v c p b prev obs =
     (if lower (ps_rulesHash p) \<noteq> lower (cf_rulesHash c) then error_of
      else if ps_closesAt p \<noteq> cf_closesAt c then error_of
      else if ps_eventCount p \<noteq> cf_eventCount c then error_of
      else if br_time b < cf_observationAt c then error_of
      else if br_time prev \<ge> cf_observationAt c \<or> br_number prev + 1 \<noteq> br_number b then error_of
      else if length obs \<noteq> length (cf_feeds c) then error_of
      else bindE (mapE (evidence_row obs) (cf_feeds c)) (\<lambda>rows.
        bindE (yesMaskFrom (map (\<lambda>(r, _, yes). (fr_event r, yes)) rows)) (\<lambda>m.
          let h = observationsHash v obs b in
          ok \<lparr>ce_block = b, ce_prev = prev, ce_rows = rows, ce_yesMask = m, ce_hash = h,
            ce_report = encodeReport v c (br_time b) h m,
            ce_onchain = (if ps_resolved p then Some (ps_resolvedState p, ps_voidMask p,
              ps_resolvedState p = m \<and> ps_voidMask p = 0) else None)\<rparr>)))"

section \<open>The workflow\<close>

text \<open>What the runtime reads and writes: headers, the two multicalls, and the report writer, whose
  answer is whether the transaction succeeded and its hash.\<close>

record cre_env =
  en_finalized :: "block_ref res"
  en_header :: reader
  en_feeds :: "string \<Rightarrow> int \<Rightarrow> string res"
  en_pool :: "string \<Rightarrow> string res"
  en_write :: "string \<Rightarrow> string \<Rightarrow> (bool \<times> string) res"

definition attest :: "cre_env \<Rightarrow> string \<Rightarrow> price_evidence \<Rightarrow> string res" where
  "attest env contract e = bindE (en_write env contract (ce_report e)) (\<lambda>(success, h).
     if \<not> success then error_of else ok h)"

text \<open>The evidence, and the transaction of the attestation when one was sent.\<close>

definition observe :: "viem \<Rightarrow> cre_env \<Rightarrow> feed_config \<Rightarrow> block_ref \<Rightarrow> block_ref \<Rightarrow> (price_evidence \<times> string option) res" where
  "observe v env c b prev =
     bindE (en_feeds env (encodeFeedMulticall v (cf_feeds c)) (br_number b)) (\<lambda>fd.
     bindE (decodeFeedMulticall v fd (cf_feeds c)) (\<lambda>obs.
     bindE (en_pool env (encodePoolMulticall v (cf_pool c) (cf_attestation c))) (\<lambda>pd.
     bindE (decodePoolMulticall v pd (cf_attestation c \<noteq> None)) (\<lambda>p.
     bindE (buildEvidence v c p b prev obs) (\<lambda>e.
       if shouldAttest c p then bindE (attest env (the (cf_attestation c)) e) (\<lambda>h. ok (e, Some h))
       else ok (e, None))))))"

definition onHttp :: "viem \<Rightarrow> cre_env \<Rightarrow> feed_config \<Rightarrow> string \<Rightarrow> (price_evidence \<times> string option) res" where
  "onHttp v env c observationBlock =
     (if \<not> (is_canon_dec_upto 15 observationBlock \<and> observationBlock \<noteq> ''0'') then error_of
      else let number = int (str_nat observationBlock) in
        bindE (en_header env number) (\<lambda>b. bindE (en_header env (number - 1)) (\<lambda>prev.
        bindE (en_finalized env) (\<lambda>f.
          if br_number f < number then error_of else observe v env c b prev))))"

text \<open>None is the answer "waiting".\<close>

definition onCron :: "viem \<Rightarrow> cre_env \<Rightarrow> feed_config \<Rightarrow> int \<Rightarrow> (price_evidence \<times> string option) option res" where
  "onCron v env c now =
     (if now < cf_observationAt c + 60 then ok None
      else bindE (findObservationBlock (cf_observationAt c) (en_finalized env) (en_header env) MAX_HEADER_READS) (\<lambda>(b, prev).
        bindE (observe v env c b prev) (\<lambda>r. ok (Some r))))"

end
