(* ===== verification/Price_Feed_Laws.thy ===== *)
theory Price_Feed_Laws
  imports Price_Feed
begin

text \<open>
  The threshold comparison is the comparison of the two decimals, the search returns the first
  block at or after the observation time and ends when the chain reaches back far enough, and
  the evidence says of every question what its feed said at that block.
\<close>

section \<open>Thresholds\<close>

text \<open>The value a feed or a threshold stands for.\<close>

definition feed_value :: "int \<Rightarrow> int \<Rightarrow> rat" where
  "feed_value answer decimals = of_int answer / 10 ^ nat decimals"

definition threshold_value :: "string \<Rightarrow> rat" where
  "threshold_value t = (case threshold_parts t of None \<Rightarrow> 0
     | Some (whole, fraction) \<Rightarrow> of_nat (str_nat whole) + of_nat (str_nat fraction) / 10 ^ length fraction)"

lemma decideGte_value:
  assumes "decideGte answer decimals t = ok b"
  shows "b \<longleftrightarrow> threshold_value t \<le> feed_value answer decimals"
proof -
  obtain w f where p: "threshold_parts t = Some (w, f)"
    and b: "b \<longleftrightarrow> answer * 10 ^ length f \<ge> int (str_nat (w @ f)) * 10 ^ nat decimals"
    using assms by (auto simp: decideGte_def error_of_def split: option.splits if_splits)
  let ?p = "(10 :: rat) ^ length f" and ?q = "(10 :: rat) ^ nat decimals"
  let ?s = "of_nat (str_nat (w @ f)) :: rat"
  have pos: "0 < ?p" "0 < ?q" by simp_all
  have "threshold_value t = ?s / ?p"
    by (simp add: threshold_value_def p str_nat_append add_divide_distrib)
  then have "threshold_value t \<le> feed_value answer decimals \<longleftrightarrow> ?s * ?q \<le> of_int answer * ?p"
    using pos by (simp add: feed_value_def divide_le_eq le_divide_eq mult.commute)
  also have "\<dots> \<longleftrightarrow> (of_int (int (str_nat (w @ f)) * 10 ^ nat decimals) :: rat) \<le> of_int (answer * 10 ^ length f)"
    by simp
  also have "\<dots> \<longleftrightarrow> b" unfolding b of_int_le_iff ..
  finally show ?thesis by blast
qed

section \<open>The mask\<close>

lemma mask_step_ok: "mask_step (m, seen) (e, y) = ok (m', seen') \<longleftrightarrow>
    0 \<le> e \<and> e \<le> 31 \<and> e \<notin> set seen \<and> seen' = e # seen \<and> m' = (if y then m + 2 ^ nat e else m)"
  by (auto simp: mask_step_def error_of_def)

lemma bit_add_pow:
  assumes "\<not> bit m k" "0 \<le> (m :: int)"
  shows "bit (m + 2 ^ k) i \<longleftrightarrow> bit m i \<or> i = k"
proof -
  have "m AND 2 ^ k = 0" using assms(1) by (intro bit_eqI) (auto simp: bit_and_iff bit_exp_iff)
  then have "m + 2 ^ k = m OR 2 ^ k" by (rule disjunctive_add_eq_or)
  then show ?thesis by (auto simp: bit_or_iff bit_exp_iff)
qed

lemma foldE_mask:
  assumes "foldE mask_step (m, seen) rs = ok (m', seen')" "0 \<le> m" "\<forall>i. bit m i \<longrightarrow> int i \<in> set seen"
  shows "0 \<le> m' \<and> (\<forall>i. bit m' i \<longleftrightarrow> bit m i \<or> (int i, True) \<in> set rs)"
  using assms
proof (induction rs arbitrary: m seen)
  case Nil
  then show ?case by simp
next
  case (Cons r rs)
  obtain e y where r: "r = (e, y)" by (cases r)
  obtain m1 seen1 where m1: "mask_step (m, seen) r = ok (m1, seen1)" and rest: "foldE mask_step (m1, seen1) rs = ok (m', seen')"
    using Cons.prems(1) by auto
  have e: "0 \<le> e" "e \<notin> set seen" "seen1 = e # seen" "m1 = (if y then m + 2 ^ nat e else m)"
    using m1 by (auto simp: r mask_step_ok)
  have nb: "\<not> bit m (nat e)" using e(1,2) Cons.prems(3) by fastforce
  have bits: "bit m1 i \<longleftrightarrow> bit m i \<or> (y \<and> int i = e)" for i
    using e(1,4) bit_add_pow [OF nb Cons.prems(2), of i] by auto
  have "0 \<le> m1" using e(4) Cons.prems(2) by simp
  moreover have "\<forall>i. bit m1 i \<longrightarrow> int i \<in> set seen1" using bits Cons.prems(3) e(3) by auto
  ultimately show ?case using Cons.IH [OF rest] bits r by auto
qed

lemma yesMaskFrom_bits:
  assumes "yesMaskFrom rs = ok m"
  shows "0 \<le> m \<and> (\<forall>i. bit m i \<longleftrightarrow> (int i, True) \<in> set rs)"
  using assms foldE_mask [of 0 "[]" rs] by (fastforce simp: yesMaskFrom_def)

section \<open>The search\<close>

text \<open>Headers carry the number they were asked for.\<close>

definition honest :: "reader \<Rightarrow> bool" where
  "honest read = (\<forall>n h. read n = ok h \<longrightarrow> br_number h = n)"

definition genuine :: "reader \<Rightarrow> block_ref \<Rightarrow> bool" where
  "genuine read h = (read (br_number h) = ok h)"

lemma read_genuine: "honest read \<Longrightarrow> read n = ok h \<Longrightarrow> genuine read h"
  by (auto simp: genuine_def honest_def)

lemma error_of_simps [simp]: "error_of \<noteq> ok x" "ok x \<noteq> error_of" "bindE error_of f = error_of"
  by (simp_all add: error_of_def)

lemma nextProbe_range: "nextProbe target lo hi = ok p \<Longrightarrow> br_number lo < p \<and> p < br_number hi"
  by (auto simp: nextProbe_def Let_def split: if_splits)

lemma nextProbe_total:
  assumes "br_time lo < target" "target \<le> br_time hi" "br_number hi - br_number lo > 1"
  shows "\<exists>p. nextProbe target lo hi = ok p"
  using assms by (auto simp: nextProbe_def Let_def big_div_def)

lemma step_back_ok:
  assumes "step_back read target left hi stride = ok (lo, hi', rest)" "honest read" "0 < stride" "target \<le> br_time hi" "genuine read hi"
  shows "br_time lo < target \<and> target \<le> br_time hi' \<and> br_number lo < br_number hi' \<and> genuine read lo \<and> genuine read hi'"
  using assms
proof (induction left arbitrary: hi stride)
  case 0
  then show ?case by (simp add: step_back.simps split: if_splits)
next
  case (Suc left)
  let ?guess = "if br_number hi > stride then br_number hi - stride else 1"
  have hi: "1 < br_number hi" using Suc.prems(1) by (simp add: step_back.simps [of _ _ "Suc left"] split: if_splits)
  obtain h where h: "read ?guess = ok h"
    using Suc.prems(1) hi by (auto simp: step_back.simps [of _ _ "Suc left"] Let_def split: if_splits)
  have num: "br_number h = ?guess" using h Suc.prems(2) by (auto simp: honest_def)
  show ?case
  proof (cases "br_time h < target")
    case True
    then show ?thesis using Suc.prems hi h num read_genuine [OF Suc.prems(2) h]
      by (auto simp: step_back.simps [of _ _ "Suc left"] Let_def split: if_splits)
  next
    case False
    then have "step_back read target left h (stride * 2) = ok (lo, hi', rest)"
      using Suc.prems(1) hi h by (auto simp: step_back.simps [of _ _ "Suc left"] Let_def split: if_splits)
    then show ?thesis using Suc.IH Suc.prems False read_genuine [OF Suc.prems(2) h] by simp
  qed
qed

lemma narrow_ok:
  assumes "narrow read target left lo hi = ok (b, prev)" "honest read"
    "br_time lo < target" "target \<le> br_time hi" "br_number lo < br_number hi"
    "genuine read lo" "genuine read hi"
  shows "br_time prev < target \<and> target \<le> br_time b \<and> br_number prev + 1 = br_number b \<and> genuine read prev \<and> genuine read b"
  using assms
proof (induction left arbitrary: lo hi)
  case 0
  then show ?case by (auto simp: narrow.simps [of _ _ 0] split: if_splits)
next
  case (Suc left)
  show ?case
  proof (cases "br_number hi - br_number lo > 1")
    case False
    then show ?thesis using Suc.prems by (auto simp: narrow.simps [of _ _ "Suc left"] split: if_splits)
  next
    case True
    then obtain p h where p: "nextProbe target lo hi = ok p" and h: "read p = ok h"
      and rest: "(if br_time h < target then narrow read target left h hi else narrow read target left lo h) = ok (b, prev)"
      using Suc.prems(1) by (auto simp: narrow.simps [of _ _ "Suc left"])
    have "br_number h = p" using h Suc.prems(2) by (auto simp: honest_def)
    then show ?thesis using Suc.IH [of h hi] Suc.IH [of lo h] rest Suc.prems nextProbe_range [OF p]
        read_genuine [OF Suc.prems(2) h]
      by (auto split: if_splits)
  qed
qed

lemma find_ok:
  assumes "findObservationBlock target finalized read maxReads = ok (b, prev)" "honest read"
    "\<And>f. finalized = ok f \<Longrightarrow> genuine read f"
  shows "br_time prev < target \<and> target \<le> br_time b \<and> br_number prev + 1 = br_number b \<and> genuine read prev \<and> genuine read b"
proof -
  obtain left f lo hi rest where f: "finalized = ok f" "target \<le> br_time f"
    and stepped: "step_back read target left f (first_step target f) = ok (lo, hi, rest)"
    and narrowed: "narrow read target rest lo hi = ok (b, prev)"
    using assms(1) by (auto simp: findObservationBlock_def split: nat.splits if_splits)
  have "0 < first_step target f" by (simp add: first_step_def)
  from step_back_ok [OF stepped assms(2) this f(2) assms(3) [OF f(1)]] narrow_ok [OF narrowed assms(2)] show ?thesis by blast
qed

section \<open>Termination of the search\<close>

text \<open>A chain of \<open>N\<close> finalized blocks: every header up to it can be read, and time never runs back.\<close>

definition chain :: "reader \<Rightarrow> int \<Rightarrow> (int \<Rightarrow> int) \<Rightarrow> bool" where
  "chain read N tm = (\<forall>n. 1 \<le> n \<and> n \<le> N \<longrightarrow> (\<exists>h. read n = ok h \<and> br_number h = n \<and> br_time h = tm n))"

lemma step_back_total:
  assumes "chain read N tm" "tm 1 < target" "1 \<le> br_number hi" "br_number hi \<le> N" "target \<le> br_time hi"
    "br_time hi = tm (br_number hi)" "0 < stride" "br_number hi \<le> int left"
  shows "\<exists>lo hi' rest. step_back read target left hi stride = ok (lo, hi', rest)
    \<and> int left - int rest \<le> br_number hi - br_number lo \<and> br_number hi' \<le> br_number hi \<and> 1 \<le> br_number lo
    \<and> br_time lo = tm (br_number lo) \<and> br_time hi' = tm (br_number hi')"
  using assms
proof (induction left arbitrary: hi stride)
  case 0
  then show ?case by simp
next
  case (Suc left)
  let ?guess = "if br_number hi > stride then br_number hi - stride else 1"
  have hi: "1 < br_number hi" using Suc.prems(2,3,5,6) by (cases "br_number hi = 1") auto
  have g: "1 \<le> ?guess" "?guess < br_number hi" "?guess \<le> N" using hi Suc.prems(4,7) by auto
  then obtain h where h: "read ?guess = ok h" "br_number h = ?guess" "br_time h = tm ?guess"
    using Suc.prems(1) unfolding chain_def by blast
  show ?case
  proof (cases "br_time h < target")
    case True
    then have "step_back read target (Suc left) hi stride = ok (h, hi, left)"
      using hi h(1) by (simp add: step_back.simps [of _ _ "Suc left"] Let_def)
    then show ?thesis using h g Suc.prems(6) by auto
  next
    case False
    then have e: "step_back read target (Suc left) hi stride = step_back read target left h (stride * 2)"
      using hi h(1) by (simp add: step_back.simps [of _ _ "Suc left"] Let_def)
    have "1 \<le> br_number h" "br_number h \<le> N" "target \<le> br_time h" "br_time h = tm (br_number h)" "0 < stride * 2"
      "br_number h \<le> int left"
      using False h g Suc.prems(7,8) by auto
    from Suc.IH [OF Suc.prems(1,2) this] obtain lo hi' rest where
      r: "step_back read target left h (stride * 2) = ok (lo, hi', rest)"
        "int left - int rest \<le> br_number h - br_number lo" "br_number hi' \<le> br_number h" "1 \<le> br_number lo"
        "br_time lo = tm (br_number lo)" "br_time hi' = tm (br_number hi')" by blast
    moreover have "br_number h < br_number hi" using h(2) g(2) by simp
    ultimately show ?thesis unfolding e by (intro exI [of _ lo] exI [of _ hi'] exI [of _ rest]) auto
  qed
qed

lemma narrow_total:
  assumes "chain read N tm" "1 \<le> br_number lo" "br_number hi \<le> N" "br_time lo < target" "target \<le> br_time hi"
    "br_number hi - br_number lo \<le> int left + 1" "br_time lo = tm (br_number lo)" "br_time hi = tm (br_number hi)"
    "br_number lo < br_number hi"
  shows "\<exists>b prev. narrow read target left lo hi = ok (b, prev) \<and> br_time b = tm (br_number b)
    \<and> br_time prev = tm (br_number prev) \<and> 1 \<le> br_number prev \<and> br_number b \<le> N"
  using assms
proof (induction left arbitrary: lo hi)
  case 0
  then have "\<not> br_number hi - br_number lo > 1" by simp
  then show ?case using 0 by (simp add: narrow.simps [of _ _ 0])
next
  case (Suc left)
  show ?case
  proof (cases "br_number hi - br_number lo > 1")
    case False
    then show ?thesis using Suc.prems by (simp add: narrow.simps [of _ _ "Suc left"])
  next
    case True
    obtain p where p: "nextProbe target lo hi = ok p" using nextProbe_total Suc.prems(4,5) True by blast
    have range: "br_number lo < p" "p < br_number hi" using nextProbe_range [OF p] by auto
    then obtain h where h: "read p = ok h" "br_number h = p" "br_time h = tm p"
      using Suc.prems(1-3) unfolding chain_def by (metis less_imp_le order.trans)
    have e: "narrow read target (Suc left) lo hi
        = (if br_time h < target then narrow read target left h hi else narrow read target left lo h)"
      using True p h(1) by (simp add: narrow.simps [of _ _ "Suc left"])
    show ?thesis
    proof (cases "br_time h < target")
      case True
      then show ?thesis using Suc.IH [of h hi] Suc.prems h range e by simp
    next
      case False
      then show ?thesis using Suc.IH [of lo h] Suc.prems h range e by simp
    qed
  qed
qed

lemma find_total:
  assumes chain: "chain read N tm" and h: "honest read" and f: "br_number f = N" "br_time f = tm N" "1 \<le> N" "genuine read f"
    and target: "tm 1 < target" "target \<le> tm N" and reads: "2 * N + 1 \<le> int maxReads"
  shows "\<exists>b prev. findObservationBlock target (ok f) read maxReads = ok (b, prev)
    \<and> br_time b = tm (br_number b) \<and> br_time prev = tm (br_number prev) \<and> 1 \<le> br_number prev \<and> br_number b \<le> N"
proof -
  obtain left where left: "maxReads = Suc left" "2 * N \<le> int left" using reads f(3) by (cases maxReads) auto
  have s: "0 < first_step target f" by (simp add: first_step_def)
  obtain lo hi rest where stepped: "step_back read target left f (first_step target f) = ok (lo, hi, rest)"
    and r: "int left - int rest \<le> br_number f - br_number lo" "br_number hi \<le> br_number f" "1 \<le> br_number lo"
      "br_time lo = tm (br_number lo)" "br_time hi = tm (br_number hi)"
    using step_back_total [OF chain target(1), of f "first_step target f" left] f target left(2) s by auto
  have t: "br_time lo < target" "target \<le> br_time hi" "br_number lo < br_number hi"
    using step_back_ok [OF stepped h s _ f(4)] f target by auto
  have gap: "br_number hi - br_number lo \<le> int rest + 1" using r left(2) f(1) by linarith
  have "br_number hi \<le> N" using r(2) f(1) by simp
  then obtain b prev where "narrow read target rest lo hi = ok (b, prev)" "br_time b = tm (br_number b)"
      "br_time prev = tm (br_number prev)" "1 \<le> br_number prev" "br_number b \<le> N"
    using narrow_total [OF chain r(3) _ t(1,2) gap r(4,5) t(3)] by blast
  then show ?thesis using stepped f target left(1) by (simp add: findObservationBlock_def)
qed

section \<open>Evidence\<close>

lemma evidence_row_ok:
  assumes "evidence_row obs r = ok (r', seen, yes)"
  shows "r' = r \<and> seen \<in> set obs \<and> fo_event seen = fr_event r \<and> lower (fo_feed seen) = lower (fr_feed r)
    \<and> decideGte (fo_answer seen) (fo_decimals seen) (fr_threshold r) = ok yes"
  using assms by (auto simp: evidence_row_def find_Some_iff split: option.splits if_splits)

lemma evidence_rows_ok:
  assumes "mapE (evidence_row obs) rs = ok rows"
  shows "map fst rows = rs \<and> list_all (\<lambda>(r, seen, yes). seen \<in> set obs \<and> fo_event seen = fr_event r
    \<and> decideGte (fo_answer seen) (fo_decimals seen) (fr_threshold r) = ok yes) rows"
  using assms
proof (induction rs arbitrary: rows)
  case Nil
  then show ?case by simp
next
  case (Cons r rs)
  obtain row rest where "evidence_row obs r = ok row" "mapE (evidence_row obs) rs = ok rest" "rows = row # rest"
    using Cons.prems by auto
  then show ?case using Cons.IH evidence_row_ok by (cases row) fastforce
qed

lemma buildEvidence_ok:
  assumes "buildEvidence v c p b prev obs = ok e"
  shows "ce_block e = b \<and> ce_prev e = prev \<and> cf_observationAt c \<le> br_time b \<and> br_time prev < cf_observationAt c
    \<and> br_number prev + 1 = br_number b \<and> map fst (ce_rows e) = cf_feeds c
    \<and> list_all (\<lambda>(r, seen, yes). fo_event seen = fr_event r
        \<and> decideGte (fo_answer seen) (fo_decimals seen) (fr_threshold r) = ok yes) (ce_rows e)
    \<and> 0 \<le> ce_yesMask e \<and> (\<forall>i. bit (ce_yesMask e) i \<longleftrightarrow> (\<exists>r seen. (r, seen, True) \<in> set (ce_rows e) \<and> fr_event r = int i))
    \<and> ce_report e = encodeReport v c (br_time b) (observationsHash v obs b) (ce_yesMask e)"
proof -
  obtain rows m where rows: "mapE (evidence_row obs) (cf_feeds c) = ok rows"
    and m: "yesMaskFrom (map (\<lambda>(r, _, yes). (fr_event r, yes)) rows) = ok m"
    and e: "ce_block e = b" "ce_prev e = prev" "ce_rows e = rows" "ce_yesMask e = m"
      "ce_report e = encodeReport v c (br_time b) (observationsHash v obs b) m"
    and t: "cf_observationAt c \<le> br_time b" "br_time prev < cf_observationAt c" "br_number prev + 1 = br_number b"
    using assms by (auto simp: buildEvidence_def Let_def split: if_splits)
  have "0 \<le> m \<and> (\<forall>i. bit m i \<longleftrightarrow> (\<exists>r seen. (r, seen, True) \<in> set rows \<and> fr_event r = int i))"
    using yesMaskFrom_bits [OF m] by (force simp: image_iff)
  then show ?thesis using evidence_rows_ok [OF rows] t unfolding e by (auto simp: list_all_iff)
qed

lemma observe_ok:
  assumes "observe v env c b prev = ok (e, tx)"
  shows "\<exists>p obs. buildEvidence v c p b prev obs = ok e \<and> (tx \<noteq> None \<longrightarrow> shouldAttest c p)"
  using assms by (fastforce simp: observe_def split: if_splits)

section \<open>Properties\<close>

text \<open>The threshold decision is exact: it is Yes just when the feed's answer, as a decimal with the
  feed's decimals, is at least the committed threshold, with no rounding anywhere.\<close>

theorem threshold_decision_exact:
  assumes "decideGte answer decimals threshold = ok yes"
  shows "yes = (threshold_value threshold \<le> feed_value answer decimals)"
  using decideGte_value [OF assms] by blast

theorem threshold_decision_exact_witness:
  "True = (threshold_value ''2.50'' \<le> feed_value 250000000 8)"
proof (rule threshold_decision_exact)
  show "decideGte 250000000 8 ''2.50'' = ok True" by code_simp
qed

text \<open>When the search returns a block it is the first one at or after the observation time: the block
  before it is earlier, and so is every earlier block, provided headers carry the numbers they
  were asked for and block time never runs back.\<close>

theorem observation_block_first:
  assumes "findObservationBlock target (ok f) read maxReads = ok (b, prev)"
    and "honest read" and "genuine read f"
    and "\<And>m n h k. read m = ok h \<Longrightarrow> read n = ok k \<Longrightarrow> m \<le> n \<Longrightarrow> br_time h \<le> br_time k"
  shows "read (br_number b) = ok b \<and> target \<le> br_time b \<and> br_number prev + 1 = br_number b
    \<and> (\<forall>m h. read m = ok h \<and> m < br_number b \<longrightarrow> br_time h < target)"
proof -
  have f: "br_time prev < target" "target \<le> br_time b" "br_number prev + 1 = br_number b" "genuine read prev" "genuine read b"
    using find_ok [OF assms(1,2)] assms(3) by auto
  have "br_time h < target" if "read m = ok h" "m < br_number b" for m h
    using assms(4) [OF that(1) f(4) [unfolded genuine_def]] that(2) f(1,3) by linarith
  then show ?thesis using f by (auto simp: genuine_def)
qed

text \<open>A chain whose block \<open>n\<close> has time \<open>10 n\<close>, of one hundred blocks.\<close>

definition example_block :: "int \<Rightarrow> block_ref" where
  "example_block n = \<lparr>br_number = n, br_hash = [], br_time = 10 * n\<rparr>"

definition example_reader :: reader where
  "example_reader n = (if 1 \<le> n \<and> n \<le> 100 then ok (example_block n) else error_of)"

lemma example_reader_honest: "honest example_reader" "genuine example_reader (example_block 100)"
  by (auto simp: honest_def genuine_def example_reader_def example_block_def error_of_def split: if_splits)

theorem observation_block_first_witness:
  "example_reader 51 = ok (example_block 51) \<and> br_number (example_block 50) + 1 = br_number (example_block 51)"
proof -
  have "findObservationBlock 505 (ok (example_block 100)) example_reader MAX_HEADER_READS
      = ok (example_block 51, example_block 50)" by code_simp
  from observation_block_first [OF this example_reader_honest] show ?thesis
    by (auto simp: example_reader_def example_block_def error_of_def split: if_splits)
qed

text \<open>The search ends with a block as soon as it may read twice the height of the chain and once
  more: each step back and each probe shrinks what is left, whatever the block times are, given
  that the first block is before the observation time and the last finalized one is not.\<close>

theorem observation_search_terminates:
  assumes "chain read N tm" and "honest read" and "read N = ok f" and "1 \<le> N"
    and "tm 1 < target" and "target \<le> tm N" and "2 * N + 1 \<le> int maxReads"
  shows "\<exists>b prev. findObservationBlock target (ok f) read maxReads = ok (b, prev)"
proof -
  have f: "br_number f = N" "br_time f = tm N"
    using assms(1,3,4) by (fastforce simp: chain_def)+
  then have "genuine read f" using assms(3) by (simp add: genuine_def)
  from find_total [OF assms(1,2) f assms(4) this assms(5-7)] show ?thesis by blast
qed

theorem observation_search_terminates_witness:
  "\<exists>b prev. findObservationBlock 505 (ok (example_block 100)) example_reader 201 = ok (b, prev)"
proof (rule observation_search_terminates [where N = 100 and tm = "\<lambda>n. 10 * n"])
  show "chain example_reader 100 (\<lambda>n. 10 * n)"
    by (auto simp: chain_def example_reader_def example_block_def)
qed (use example_reader_honest in \<open>simp_all add: example_reader_def\<close>)


text \<open>Two feeds at 3.00 with thresholds 2.50 and 3.01, on the chain above, with codecs that read labels.\<close>

definition example_viem :: viem where
  "example_viem = \<lparr>vi_call = (\<lambda>f _. f), vi_aggregate = (\<lambda>cs. if length cs = 6 \<and> fst (hd cs) = ''feed a'' then ''feeds'' else ''pool''),
     vi_rows = (\<lambda>d. ok (map (Pair True) (if d = ''feeds'' then [''answer'', ''round'', ''decimals'', ''answer'', ''round'', ''decimals'']
       else [''rules'', ''closes'', ''count'', ''open'', ''zero'', ''zero'']))),
     vi_int = (\<lambda>s. ok (if s = ''answer'' then 300 else if s = ''decimals'' then 2 else if s = ''closes'' then 400
       else if s = ''count'' then 2 else 0)),
     vi_round = (\<lambda>_. ok (9, 300, 500)), vi_hash = (\<lambda>_. ok ''rules''), vi_bool = (\<lambda>_. ok False),
     vi_attestation = (\<lambda>_. ok (0, 0)), vi_observations = (\<lambda>_ _ _ _. ''hash''), vi_report = (\<lambda>_ _ _ _ _ _ m. int_str m)\<rparr>"

definition example_feeds :: feed_config where
  "example_feeds = \<lparr>cf_chainId = 10143, cf_pool = ''pool'', cf_rulesHash = ''rules'', cf_closesAt = 400, cf_observationAt = 505,
     cf_sourceChainId = 143, cf_eventCount = 2,
     cf_feeds = [\<lparr>fr_event = 0, fr_label = ''A'', fr_feed = ''feed a'', fr_threshold = ''2.50''\<rparr>,
       \<lparr>fr_event = 1, fr_label = ''B'', fr_feed = ''feed b'', fr_threshold = ''3.01''\<rparr>], cf_attestation = None\<rparr>"

definition example_env :: cre_env where
  "example_env = \<lparr>en_finalized = ok (example_block 100), en_header = example_reader, en_feeds = (\<lambda>d _. ok d),
     en_pool = (\<lambda>d. ok d), en_write = (\<lambda>_ _. error_of)\<rparr>"

lemma example_cron: "\<exists>e. onCron example_viem example_env example_feeds 600 = ok (Some (e, None)) \<and> ce_yesMask e = 1
    \<and> ce_block e = example_block 51"
proof -
  have "(case onCron example_viem example_env example_feeds 600 of Inr (Some (e, None)) \<Rightarrow> (ce_yesMask e, ce_block e) = (1, example_block 51)
      | _ \<Rightarrow> False)" by code_simp
  then show ?thesis by (auto split: sum.splits option.splits prod.splits)
qed


end
