(* ===== verification/Texts.thy ===== *)
theory Texts
  imports Amounts
begin

text \<open>
  Text and JSON helpers the web application's modules share: character classes of their regular
  expressions, \<open>split\<close>, \<open>String\<close>, strict equality, and the small readers \<open>record\<close> and \<open>whole\<close>.
\<close>

text \<open>\<open>throw new Error(...)\<close>; no code branches on the message.\<close>

abbreviation plain_error :: "'a res" where
  "plain_error \<equiv> Inl (Other_error ''Error'')"

definition is_lower :: "char \<Rightarrow> bool" where
  "is_lower c = (97 \<le> code c \<and> code c \<le> 122)"

definition is_upper :: "char \<Rightarrow> bool" where
  "is_upper c = (65 \<le> code c \<and> code c \<le> 90)"

definition is_alnum :: "char \<Rightarrow> bool" where
  "is_alnum c = (is_dec c \<or> is_lower c \<or> is_upper c)"

text \<open>Between \<open>m\<close> and \<open>n\<close> characters of a class: \<open>/^[...]{m,n}$/\<close>.\<close>

definition chars :: "(char \<Rightarrow> bool) \<Rightarrow> nat \<Rightarrow> nat \<Rightarrow> string \<Rightarrow> bool" where
  "chars p m n s = (m \<le> length s \<and> length s \<le> n \<and> list_all p s)"

text \<open>\<open>/^[A-Za-z][A-Za-z0-9]{0,63}$/\<close>.\<close>

definition is_name :: "string \<Rightarrow> bool" where
  "is_name s = (chars is_alnum 1 64 s \<and> \<not> is_dec (hd s))"

text \<open>\<open>replace(/[^\x20-\x7E]/g, '')\<close> and \<open>replace(/^0x/i, '')\<close>.\<close>

definition printable :: "string \<Rightarrow> string" where
  "printable s = filter (\<lambda>c. 32 \<le> code c \<and> code c \<le> 126) s"

definition strip_0x :: "string \<Rightarrow> string" where
  "strip_0x s = (if lower (take 2 s) = ''0x'' then drop 2 s else s)"

text \<open>\<open>s.replace(/^0+(?=\d)/, '')\<close> of a run of digits.\<close>

definition strip_leading :: "string \<Rightarrow> string" where
  "strip_leading s = (let t = dropWhile (\<lambda>c. c = CHR ''0'') s in if t = [] \<and> s \<noteq> [] then ''0'' else t)"

text \<open>\<open>s.split(d)\<close>.\<close>

fun split_on :: "char \<Rightarrow> string \<Rightarrow> string list" where
  "split_on d [] = [[]]"
| "split_on d (c # cs) = (if c = d then [] # split_on d cs
     else (case split_on d cs of [] \<Rightarrow> [[c]] | p # ps \<Rightarrow> (c # p) # ps))"

definition is_record :: "json \<Rightarrow> bool" where
  "is_record v = (case v of JObj _ \<Rightarrow> True | _ \<Rightarrow> False)"

definition items :: "json \<Rightarrow> json list option" where
  "items v = (case v of JArr xs \<Rightarrow> Some xs | _ \<Rightarrow> None)"

text \<open>\<open>whole\<close>: a safe integer from \<open>mn\<close> on.\<close>

definition whole :: "json \<Rightarrow> int \<Rightarrow> int option" where
  "whole v mn = (if is_safe_int v \<and> jint_val v \<ge> mn then Some (jint_val v) else None)"

definition join_with :: "string \<Rightarrow> string list \<Rightarrow> string" where
  "join_with sep xs = (case xs of [] \<Rightarrow> [] | y # ys \<Rightarrow> y @ concat (map (\<lambda>s. sep @ s) ys))"

text \<open>\<open>String(v)\<close>, which is also \<open>v.toString()\<close> where that exists; a number is a safe integer here.\<close>

fun js_string :: "json \<Rightarrow> string" where
  "js_string JUndef = ''undefined''"
| "js_string JNull = ''null''"
| "js_string (JBool b) = (if b then ''true'' else ''false'')"
| "js_string (JInt i) = int_str i"
| "js_string JFrac = ''NaN''"
| "js_string (JStr s) = s"
| "js_string (JArr xs) = join_with '','' (map (\<lambda>x. if x = JNull \<or> x = JUndef then [] else js_string x) xs)"
| "js_string (JObj _) = ''[object Object]''"

text \<open>\<open>v ?? ''\<close>, then \<open>String\<close>; and \<open>v?.toString().toLowerCase() === s\<close>.\<close>

definition text_or_empty :: "json \<Rightarrow> string" where
  "text_or_empty v = (if v = JNull \<or> v = JUndef then [] else js_string v)"

definition spells :: "json \<Rightarrow> string \<Rightarrow> bool" where
  "spells v s = (v \<noteq> JNull \<and> v \<noteq> JUndef \<and> lower (js_string v) = s)"

text \<open>\<open>===\<close> of two values from different places: objects and arrays are never the same.\<close>

fun strict_eq :: "json \<Rightarrow> json \<Rightarrow> bool" where
  "strict_eq (JObj _) _ = False"
| "strict_eq (JArr _) _ = False"
| "strict_eq JFrac _ = False"
| "strict_eq v w = (v = w)"

text \<open>\<open>a ?? b\<close> and \<open>a || b\<close> where the values present are truthy.\<close>

definition or_else :: "'a option \<Rightarrow> 'a option \<Rightarrow> 'a option" where
  "or_else a b = (if a = None then b else a)"

lemma or_else_simps [simp]: "or_else None b = b" "or_else (Some x) b = Some x"
  by (simp_all add: or_else_def)

lemma whole_SomeD: "whole v mn = Some i \<Longrightarrow> mn \<le> i \<and> i \<le> max_safe \<and> - max_safe \<le> i"
  by (cases v) (auto simp: whole_def split: if_splits)

lemma whole_JInt: "whole (JInt i) mn = (if - max_safe \<le> i \<and> i \<le> max_safe \<and> mn \<le> i then Some i else None)"
  by (simp add: whole_def)

end
