(* ===== verification/Cre_Settlement.thy ===== *)
theory Cre_Settlement
  imports Price_Feed_Laws Dates Texts
begin

text \<open>
  The settlement workflows besides the price feed: preparing a report from finalised
  observations (workflows/cre/src/settlement.ts), event drafts (event-draft.ts), observing a
  software release (github-release.ts), market batches (market-batch.ts) and comparing deployed
  with compiled code (pilot-verification.ts). Inputs are typed records; what zod checks beyond
  their types is written out. ABI encoding, keccak256, \<open>URL\<close> and \<open>JSON.parse\<close> are parameters.
\<close>

section \<open>Text and numbers the schemas accept\<close>

definition lower_or_digit :: "char \<Rightarrow> bool" where
  "lower_or_digit c = (is_dec c \<or> (97 \<le> code c \<and> code c \<le> 122))"

text \<open>\<open>/^[a-z0-9][a-z0-9:_-]{0,95}$/\<close>.\<close>

definition is_identifier :: "string \<Rightarrow> bool" where
  "is_identifier s = (s \<noteq> [] \<and> length s \<le> 96 \<and> lower_or_digit (hd s)
     \<and> list_all (\<lambda>c. lower_or_digit c \<or> List.member '':_-'' c) s)"

definition natural_timestamp :: "int \<Rightarrow> bool" where
  "natural_timestamp t = (0 \<le> t \<and> t \<le> max_safe)"

section \<open>Settlement reports (settlement.ts)\<close>

record fixture_event =
  fe_id :: string
  fe_source :: string

record settle_config =
  st_version :: "int option"
  st_chainId :: int
  st_pool :: string
  st_closesAt :: int
  st_events :: "fixture_event list"

record outcome_observation =
  oo_eventId :: string
  oo_source :: string
  oo_outcome :: bool
  oo_finalizedAt :: int

text \<open>\<open>/^fixture:[a-z0-9:_-]{1,88}$/\<close>.\<close>

definition fixture_source :: "string \<Rightarrow> bool" where
  "fixture_source s = (take 8 s = ''fixture:'' \<and> 1 \<le> length (drop 8 s) \<and> length (drop 8 s) \<le> 88
     \<and> list_all (\<lambda>c. lower_or_digit c \<or> List.member '':_-'' c) (drop 8 s))"

definition configSchema :: "settle_config \<Rightarrow> bool" where
  "configSchema c =
     ((case st_version c of None \<Rightarrow> True | Some v \<Rightarrow> v = 1 \<or> v = 2)
      \<and> natural_timestamp (st_chainId c) \<and> st_chainId c > 0
      \<and> is_0x_lhex 40 (st_pool c) \<and> st_pool c \<noteq> ''0x'' @ replicate 40 CHR ''0''
      \<and> natural_timestamp (st_closesAt c)
      \<and> 1 \<le> length (st_events c) \<and> length (st_events c) \<le> 32
      \<and> list_all (\<lambda>e. is_identifier (fe_id e) \<and> fixture_source (fe_source e)) (st_events c)
      \<and> distinct (map fe_id (st_events c))
      \<and> (st_version c = Some 2 \<or> length (st_events c) \<le> 3))"

definition evidenceSchema :: "outcome_observation list \<Rightarrow> bool" where
  "evidenceSchema obs = (1 \<le> length obs \<and> length obs \<le> 32
     \<and> list_all (\<lambda>e. is_identifier (oo_eventId e) \<and> natural_timestamp (oo_finalizedAt e)) obs)"

text \<open>ABI encoders of the rules, the evidence and the report (version 2 uses the factored layout), and keccak256.\<close>

record report_codec =
  rc_rules :: "settle_config \<Rightarrow> string"
  rc_evidence :: "int \<Rightarrow> string \<Rightarrow> int \<Rightarrow> outcome_observation list \<Rightarrow> string"
  rc_report :: "bool \<Rightarrow> int \<Rightarrow> settle_config \<Rightarrow> string \<Rightarrow> int \<Rightarrow> string \<Rightarrow> int \<Rightarrow> string"
  rc_keccak :: "string \<Rightarrow> string"

record settlement_result =
  sr_rulesHash :: string
  sr_observationsHash :: string
  sr_observedAt :: int
  sr_terminalState :: int
  sr_report :: string

text \<open>\<open>new Map(obs.map(...)).get\<close>: of equal ids the last observation counts.\<close>

definition by_id :: "outcome_observation list \<Rightarrow> string \<Rightarrow> outcome_observation option" where
  "by_id obs i = List.find (\<lambda>x. oo_eventId x = i) (rev obs)"

definition settle_event :: "settle_config \<Rightarrow> outcome_observation list \<Rightarrow> int \<Rightarrow> int \<times> outcome_observation list
    \<Rightarrow> nat \<times> fixture_event \<Rightarrow> (int \<times> outcome_observation list) res" where
  "settle_event c obs now = (\<lambda>(state, seen) (k, e).
     case by_id obs (fe_id e) of
       None \<Rightarrow> error_of
     | Some x \<Rightarrow>
         (if oo_source x \<noteq> fe_source e then error_of
          else if oo_finalizedAt x < st_closesAt c \<or> oo_finalizedAt x > now then error_of
          else ok (if oo_outcome x then state + 2 ^ k else state, seen @ [x])))"

definition rulesPreimage :: "report_codec \<Rightarrow> settle_config \<Rightarrow> string res" where
  "rulesPreimage k c = (if \<not> configSchema c then Inl (Other_error ''ZodError'') else ok (rc_rules k c))"

definition prepareSettlement :: "report_codec \<Rightarrow> settle_config \<Rightarrow> outcome_observation list \<Rightarrow> int \<Rightarrow> settlement_result res" where
  "prepareSettlement k c obs now =
     (if \<not> configSchema c \<or> \<not> evidenceSchema obs \<or> \<not> natural_timestamp now then Inl (Other_error ''ZodError'')
      else if now < st_closesAt c then error_of
      else if length obs \<noteq> length (st_events c) then error_of
      else if card (set (map oo_eventId obs)) \<noteq> length obs then error_of
      else bindE (foldE (settle_event c obs now) (0, []) (enumerate 0 (st_events c))) (\<lambda>(state, seen).
        bindE (rulesPreimage k c) (\<lambda>rules.
          let rulesHash = rc_keccak k rules;
              version = (case st_version c of None \<Rightarrow> 1 | Some v \<Rightarrow> v);
              obsHash = rc_keccak k (rc_evidence k version rulesHash now seen)
          in ok \<lparr>sr_rulesHash = rulesHash, sr_observationsHash = obsHash, sr_observedAt = now, sr_terminalState = state,
               sr_report = rc_report k (st_version c = Some 2) version c rulesHash now obsHash state\<rparr>)))"

section \<open>Event drafts (event-draft.ts)\<close>

definition bounded_text :: "nat \<Rightarrow> string \<Rightarrow> bool" where
  "bounded_text mx s = (1 \<le> length s \<and> length s \<le> mx \<and> s = js_trim s
     \<and> list_all (\<lambda>c. 32 \<le> code c \<and> code c \<noteq> 127) s)"

record ref_url =
  ru_protocol :: string
  ru_username :: string
  ru_password :: string
  ru_hash :: string
  ru_search :: string
  ru_port :: string
  ru_hostname :: string

text \<open>\<open>/^\d+(\.\d+){3}$/\<close> and \<open>/(^|\.)(localhost|...)$/\<close> on a host name.\<close>

definition is_ipv4 :: "string \<Rightarrow> bool" where
  "is_ipv4 h = (length (split_on CHR ''.'' h) = 4 \<and> list_all (\<lambda>p. p \<noteq> [] \<and> list_all is_dec p) (split_on CHR ''.'' h))"

definition private_host :: "string \<Rightarrow> bool" where
  "private_host h = List.member [''localhost'', ''local'', ''internal'', ''test'', ''invalid'', ''example'']
     (last (split_on CHR ''.'' h))"

definition is_reference :: "(string \<Rightarrow> ref_url option) \<Rightarrow> string \<Rightarrow> bool" where
  "is_reference parse_url v = (bounded_text 2048 v \<and> (case parse_url v of
     None \<Rightarrow> False
   | Some u \<Rightarrow> ru_protocol u = ''https:'' \<and> ru_username u = [] \<and> ru_password u = [] \<and> ru_hash u = []
       \<and> ru_search u = [] \<and> (ru_port u = [] \<or> ru_port u = ''443'') \<and> List.member (ru_hostname u) CHR ''.''
       \<and> list_all (\<lambda>c. \<not> List.member ''[]:'' c) (ru_hostname u) \<and> \<not> is_ipv4 (ru_hostname u)
       \<and> \<not> private_host (ru_hostname u)))"

record draft_source =
  ds_publisher :: string
  ds_referenceUrl :: string
  ds_recordId :: string
  ds_selectionRule :: string
  ds_finalityRule :: string
  ds_revisionRule :: string

record draft_event =
  dv_id :: string
  dv_question :: string
  dv_yesRule :: string
  dv_noRule :: string
  dv_startsAt :: int
  dv_endsAt :: int
  dv_source :: draft_source

datatype dispute_model = Undecided | Reviewer_panel | External_oracle | Permissionless_voting

record event_draft =
  dr_chainId :: int
  dr_clusterId :: string
  dr_title :: string
  dr_closesAt :: int
  dr_events :: "draft_event list"
  dr_exceptionPolicy :: "string option"
  dr_disputeModel :: dispute_model
  dr_disputePolicy :: "string option"

definition valid_source :: "(string \<Rightarrow> ref_url option) \<Rightarrow> draft_source \<Rightarrow> bool" where
  "valid_source parse_url s = (bounded_text 160 (ds_publisher s) \<and> is_reference parse_url (ds_referenceUrl s)
     \<and> bounded_text 256 (ds_recordId s) \<and> bounded_text 2048 (ds_selectionRule s)
     \<and> bounded_text 2048 (ds_finalityRule s) \<and> bounded_text 2048 (ds_revisionRule s))"

definition valid_event :: "(string \<Rightarrow> ref_url option) \<Rightarrow> int \<Rightarrow> draft_event \<Rightarrow> bool" where
  "valid_event parse_url closesAt e = (is_identifier (dv_id e) \<and> bounded_text 512 (dv_question e)
     \<and> bounded_text 2048 (dv_yesRule e) \<and> bounded_text 2048 (dv_noRule e)
     \<and> valid_timestamp (dv_startsAt e) \<and> valid_timestamp (dv_endsAt e) \<and> valid_source parse_url (dv_source e)
     \<and> closesAt < dv_startsAt e \<and> dv_endsAt e > dv_startsAt e \<and> dv_yesRule e \<noteq> dv_noRule e)"

definition optional_text :: "nat \<Rightarrow> string option \<Rightarrow> bool" where
  "optional_text mx v = (case v of None \<Rightarrow> True | Some s \<Rightarrow> bounded_text mx s)"

definition eventDraftSchema :: "(string \<Rightarrow> ref_url option) \<Rightarrow> event_draft \<Rightarrow> bool" where
  "eventDraftSchema parse_url d = (dr_chainId d = 10143 \<and> is_identifier (dr_clusterId d) \<and> bounded_text 240 (dr_title d)
     \<and> valid_timestamp (dr_closesAt d) \<and> 2 \<le> length (dr_events d) \<and> length (dr_events d) \<le> 4
     \<and> list_all (valid_event parse_url (dr_closesAt d)) (dr_events d) \<and> distinct (map dv_id (dr_events d))
     \<and> optional_text 4096 (dr_exceptionPolicy d) \<and> optional_text 4096 (dr_disputePolicy d)
     \<and> \<not> (dr_disputeModel d = Undecided \<and> dr_disputePolicy d \<noteq> None))"

datatype blocker =
    No_source_report | Rules_need_review | No_controller | Binding_outstanding
  | Close_has_passed | No_exception_policy | No_dispute_authority | No_dispute_policy

definition draft_blockers :: "event_draft \<Rightarrow> int \<Rightarrow> blocker list" where
  "draft_blockers d now = [No_source_report, Rules_need_review, No_controller, Binding_outstanding]
     @ (if dr_closesAt d \<le> now then [Close_has_passed] else [])
     @ (if dr_exceptionPolicy d = None then [No_exception_policy] else [])
     @ (if dr_disputeModel d = Undecided then [No_dispute_authority] else [])
     @ (if dr_disputePolicy d = None then [No_dispute_policy] else [])"

text \<open>The draft's hash, its event bits and its blockers; \<open>deployable\<close> is always false.\<close>

definition prepareEventDraft :: "(string \<Rightarrow> ref_url option) \<Rightarrow> (event_draft \<Rightarrow> string) \<Rightarrow> (string \<Rightarrow> string) \<Rightarrow> event_draft \<Rightarrow> int
    \<Rightarrow> (string \<times> (nat \<times> string) list \<times> blocker list) res" where
  "prepareEventDraft parse_url encode_draft keccak d now =
     (if \<not> eventDraftSchema parse_url d \<or> \<not> valid_timestamp now then Inl (Other_error ''ZodError'')
      else ok (keccak (encode_draft d), enumerate 0 (map dv_id (dr_events d)), draft_blockers d now))"

section \<open>Observing a release (github-release.ts)\<close>

record release_target =
  rt_repository :: string
  rt_tag :: string

definition up_to_four_digits :: "string \<Rightarrow> bool" where
  "up_to_four_digits p = (1 \<le> length p \<and> length p \<le> 4 \<and> list_all is_dec p)"

text \<open>\<open>/^v\d{1,4}\.\d{1,4}\.\d{1,4}$/\<close>.\<close>

definition releaseTargetSchema :: "release_target \<Rightarrow> bool" where
  "releaseTargetSchema t = (List.member [''ethereum/go-ethereum'', ''paradigmxyz/reth''] (rt_repository t)
     \<and> take 1 (rt_tag t) = ''v'' \<and> length (split_on CHR ''.'' (drop 1 (rt_tag t))) = 3
     \<and> list_all up_to_four_digits (split_on CHR ''.'' (drop 1 (rt_tag t))))"

definition releaseEndpoint :: "release_target \<Rightarrow> string res" where
  "releaseEndpoint t = (if \<not> releaseTargetSchema t then Inl (Other_error ''ZodError'')
     else ok (''https://api.github.com/repos/'' @ rt_repository t @ ''/releases/tags/'' @ rt_tag t))"

definition source_rule :: string where
  "source_rule = ''github-stable-release-publication.v1''"

definition releaseEvent :: "release_target \<Rightarrow> string \<Rightarrow> int \<Rightarrow> int \<Rightarrow> draft_event res" where
  "releaseEvent t i startsAt endsAt = (if \<not> releaseTargetSchema t then Inl (Other_error ''ZodError'')
     else ok \<lparr>dv_id = i,
       dv_question = ''Will '' @ rt_repository t @ '' publish stable release '' @ rt_tag t @ '' during the specified observation window?'',
       dv_yesRule = ''YES requires the exact tagged release to be public, not a draft or prerelease, with published_at in [observationStartsAt, observationEndsAt).'',
       dv_noRule = ''NO requires reviewed evidence that no qualifying publication occurred throughout the full window. A missing API response is not proof of NO.'',
       dv_startsAt = startsAt, dv_endsAt = endsAt,
       dv_source = \<lparr>ds_publisher = hd (split_on CHR ''/'' (rt_repository t)),
         ds_referenceUrl = ''https://github.com/'' @ rt_repository t @ ''/releases'',
         ds_recordId = rt_repository t @ ''@'' @ rt_tag t,
         ds_selectionRule = source_rule @ '': match exact repository, tag, release ID and canonical API/HTML URLs.'',
         ds_finalityRule = ''A retrieved release is candidate evidence only. Finalization requires the selected dispute oracle and completed challenge process.'',
         ds_revisionRule = ''Release edits, deletion or conflicting snapshots require review under the committed exception policy; never silently replace previously recorded evidence.''\<rparr>\<rparr>)"

text \<open>\<open>recordId.split('@')\<close> gives the repository and the tag, and nothing more; without an at sign the
  tag is undefined and the target's schema refuses it.\<close>

definition releaseTargetForEvent :: "(string \<Rightarrow> ref_url option) \<Rightarrow> event_draft \<Rightarrow> string \<Rightarrow> (release_target \<times> draft_event) res" where
  "releaseTargetForEvent parse_url d eventId =
     (if \<not> eventDraftSchema parse_url d then Inl (Other_error ''ZodError'')
      else (case List.find (\<lambda>e. dv_id e = eventId) (dr_events d) of
        None \<Rightarrow> error_of
      | Some e \<Rightarrow> (case split_on CHR ''@'' (ds_recordId (dv_source e)) of
          [repo, tag] \<Rightarrow>
            (let t = \<lparr>rt_repository = repo, rt_tag = tag\<rparr> in
             bindE (releaseEvent t (dv_id e) (dv_startsAt e) (dv_endsAt e)) (\<lambda>expected.
               if dv_question e \<noteq> dv_question expected \<or> dv_yesRule e \<noteq> dv_yesRule expected
                  \<or> dv_noRule e \<noteq> dv_noRule expected \<or> dv_source e \<noteq> dv_source expected then error_of
               else ok (t, e)))
        | [_] \<Rightarrow> Inl (Other_error ''ZodError'')
        | _ \<Rightarrow> error_of)))"

record release_body =
  rb_id :: int
  rb_url :: string
  rb_html_url :: string
  rb_tag_name :: string
  rb_draft :: bool
  rb_prerelease :: bool
  rb_published_at :: "string option"

datatype release_review = Not_found_review | Not_stable | Outside_window

datatype release_unavailable = Request_failed | Too_large | Malformed | Mismatched | Bad_timestamp

text \<open>What an observation says; only the last constructor carries an outcome, and that is Yes.\<close>

datatype release_observation =
    Needs_review release_review
  | Release_unavailable release_unavailable
  | Candidate_yes int int string string

text \<open>\<open>releaseSchema\<close> on the parsed body.\<close>

definition string_field :: "json \<Rightarrow> string \<Rightarrow> string option" where
  "string_field v k = (case jget v k of JStr s \<Rightarrow> Some s | _ \<Rightarrow> None)"

definition parse_release :: "json \<Rightarrow> release_body option" where
  "parse_release v =
     (case (jget v ''id'', jget v ''url'', jget v ''html_url'', jget v ''tag_name'', jget v ''draft'',
        jget v ''prerelease'', jget v ''published_at'') of
        (JInt i, JStr u, JStr h, JStr t, JBool d, JBool p, pub) \<Rightarrow>
          (if i < 1 \<or> i > max_safe then None
           else if pub = JNull then Some \<lparr>rb_id = i, rb_url = u, rb_html_url = h, rb_tag_name = t, rb_draft = d,
             rb_prerelease = p, rb_published_at = None\<rparr>
           else (case pub of JStr s \<Rightarrow> Some \<lparr>rb_id = i, rb_url = u, rb_html_url = h, rb_tag_name = t, rb_draft = d,
             rb_prerelease = p, rb_published_at = Some s\<rparr> | _ \<Rightarrow> None))
      | _ \<Rightarrow> None)"

text \<open>
  The publication time in seconds when the text has the exact form and names a real date: the
  engine's reading written back (\<open>toISOString\<close>) gives the same text, so the day exists in its
  month and the hour is below 24.
\<close>

definition days_in_month :: "int \<Rightarrow> int \<Rightarrow> int" where
  "days_in_month y m = (if m = 2 then (if leap_year y then 29 else 28)
     else if m = 4 \<or> m = 6 \<or> m = 9 \<or> m = 11 then 30 else 31)"

definition publication_time :: "string \<Rightarrow> int option" where
  "publication_time s =
     (if \<not> fits ''####-##-##T##:##:##Z'' s then None
      else if number_at 8 2 s > days_in_month (number_at 0 4 s) (number_at 5 2 s) \<or> number_at 11 2 s > 23 then None
      else map_option (\<lambda>ms. ms div 1000) (date_parse s))"

record release_hosts =
  rh_url :: "string \<Rightarrow> ref_url option"
  rh_encode_draft :: "event_draft \<Rightarrow> string"
  rh_keccak :: "string \<Rightarrow> string"
  rh_json :: "string \<Rightarrow> json option"
  rh_evidence :: "string \<Rightarrow> string \<Rightarrow> string \<Rightarrow> int \<Rightarrow> int \<Rightarrow> int \<Rightarrow> string \<Rightarrow> string"

definition MAX_RELEASE_BYTES :: nat where
  "MAX_RELEASE_BYTES = 1000000"

definition judge_release :: "release_hosts \<Rightarrow> string \<Rightarrow> string \<Rightarrow> release_target \<Rightarrow> draft_event \<Rightarrow> string \<Rightarrow> int \<Rightarrow> release_body
    \<Rightarrow> release_observation" where
  "judge_release hosts draftHash endpoint t e body fetchedAt r =
     (if rb_tag_name r \<noteq> rt_tag t
         \<or> rb_url r \<noteq> ''https://api.github.com/repos/'' @ rt_repository t @ ''/releases/'' @ int_str (rb_id r)
         \<or> rb_html_url r \<noteq> ''https://github.com/'' @ rt_repository t @ ''/releases/tag/'' @ rt_tag t
      then Release_unavailable Mismatched
      else (case rb_published_at r of
        None \<Rightarrow> Needs_review Not_stable
      | Some s \<Rightarrow>
          (if rb_draft r \<or> rb_prerelease r then Needs_review Not_stable
           else (case publication_time s of
             None \<Rightarrow> Release_unavailable Bad_timestamp
           | Some t' \<Rightarrow>
               (if t' > fetchedAt then Release_unavailable Bad_timestamp
                else if t' < dv_startsAt e \<or> t' \<ge> dv_endsAt e then Needs_review Outside_window
                else let payload = rh_keccak hosts body;
                         preimage = rh_evidence hosts draftHash (dv_id e) endpoint fetchedAt (rb_id r) t' payload
                  in Candidate_yes (rb_id r) t' payload (rh_keccak hosts preimage))))))"

text \<open>The body's length is counted in bytes; the strings of the model are ASCII.\<close>

definition observeRelease :: "release_hosts \<Rightarrow> event_draft \<Rightarrow> string \<Rightarrow> int \<Rightarrow> string \<Rightarrow> int \<Rightarrow> release_observation res" where
  "observeRelease hosts d eventId httpStatus body fetchedAt =
     bindE (prepareEventDraft (rh_url hosts) (rh_encode_draft hosts) (rh_keccak hosts) d fetchedAt) (\<lambda>(draftHash, _, _).
     bindE (releaseTargetForEvent (rh_url hosts) d eventId) (\<lambda>(t, e).
     bindE (releaseEndpoint t) (\<lambda>endpoint.
       if httpStatus = 404 then ok (Needs_review Not_found_review)
       else if httpStatus \<noteq> 200 then ok (Release_unavailable Request_failed)
       else if length body > MAX_RELEASE_BYTES then ok (Release_unavailable Too_large)
       else (case Option.bind (rh_json hosts body) parse_release of
         None \<Rightarrow> ok (Release_unavailable Malformed)
       | Some r \<Rightarrow> ok (judge_release hosts draftHash endpoint t e body fetchedAt r)))))"

section \<open>Market batches (market-batch.ts)\<close>

text \<open>A time of a batch file: seconds, or an ISO text (\<open>T##:##Z\<close> or with seconds).\<close>

datatype batch_time = At_seconds int | At_text string

definition valid_time :: "batch_time \<Rightarrow> bool" where
  "valid_time t = (case t of At_seconds n \<Rightarrow> 0 < n
     | At_text s \<Rightarrow> fits ''####-##-##T##:##Z'' s \<or> fits ''####-##-##T##:##:##Z'' s)"

definition batch_seconds :: "batch_time \<Rightarrow> int option" where
  "batch_seconds t = (case t of At_seconds n \<Rightarrow> Some n | At_text s \<Rightarrow> map_option (\<lambda>ms. ms div 1000) (date_parse s))"

text \<open>\<open>value.split('.')\<close>; the fraction is padded to six digits, also when it is missing.\<close>

definition ausd :: "string \<Rightarrow> bool" where
  "ausd s = (case threshold_parts s of None \<Rightarrow> False
     | Some (w, fraction) \<Rightarrow> length w \<le> 7 \<and> length fraction \<le> 6)"

definition batch_atoms :: "string \<Rightarrow> string" where
  "batch_atoms v = (let parts = split_on CHR ''.'' v; fraction = (case parts of _ # f # _ \<Rightarrow> f | _ \<Rightarrow> []) in
     int_str (int (str_nat (hd parts)) * 1000000 + int (str_nat (pad_end 6 fraction))))"

definition fundingAtoms :: "string \<Rightarrow> int \<Rightarrow> string" where
  "fundingAtoms liquidityAtoms questions =
     int_str (tdiv (int (str_nat liquidityAtoms) * questions * 693147180559945310 + 10 ^ 18 - 1) (10 ^ 18))"

datatype check_verdict = Check_ok | Expected_pending | Blocked

record check_source =
  cs_result :: string
  cs_reason :: "string option"

definition judgeCheck :: "string \<Rightarrow> check_source list option \<Rightarrow> string list \<Rightarrow> check_verdict" where
  "judgeCheck st sources expected =
     (if st = ''ok'' then Check_ok
      else if st = ''source-error'' \<and> (case sources of None \<Rightarrow> False
        | Some ss \<Rightarrow> list_all (\<lambda>s. cs_result s \<noteq> ''source-error''
            \<or> (case cs_reason s of None \<Rightarrow> False | Some r \<Rightarrow> r \<noteq> [] \<and> List.member expected r)) ss) then Expected_pending
      else Blocked)"

section \<open>Deployed pools (pilot-config.ts, pilot-verification.ts)\<close>

definition validLiquidityAtoms :: "string \<Rightarrow> bool" where
  "validLiquidityAtoms v = (is_canon_dec v \<and> v \<noteq> ''0''
     \<and> int (str_nat v) \<ge> 10000000 \<and> int (str_nat v) \<le> 1000000000000)"

text \<open>The funding a verifier accepts for \<open>events\<close> questions and this depth.\<close>

definition funding_accepted :: "int \<Rightarrow> int \<Rightarrow> int \<Rightarrow> bool" where
  "funding_accepted liquidity events funding =
     (let exact = events * liquidity * 693147180559945309;
          minimum = tdiv exact (10 ^ 18) + (if tmod exact (10 ^ 18) \<noteq> 0 then 1 else 0)
      in \<not> (funding < minimum \<or> funding > minimum + events))"

record immutable_ref =
  ir_start :: int
  ir_length :: int

record runtime_match =
  rm_actual :: string
  rm_expected :: string
  rm_used :: "nat list"

definition blank :: "nat \<Rightarrow> nat \<Rightarrow> string \<Rightarrow> string" where
  "blank i n s = take i s @ replicate n CHR ''0'' @ drop (i + n) s"

definition match_ref :: "string option \<times> runtime_match \<Rightarrow> immutable_ref \<Rightarrow> (string option \<times> runtime_match) res" where
  "match_ref = (\<lambda>(first, m) r.
     if ir_start r < 0 \<or> ir_length r \<noteq> 32 \<or> 2 * (ir_start r + ir_length r) > int (length (rm_actual m)) then error_of
     else let i = nat (2 * ir_start r); n = nat (2 * ir_length r); v = take n (drop i (rm_actual m)) in
       if first \<noteq> None \<and> first \<noteq> Some v then error_of
       else if list_ex (\<lambda>k. List.member (rm_used m) k) [i..<i + n] then error_of
       else ok (Some v, \<lparr>rm_actual = blank i n (rm_actual m), rm_expected = blank i n (rm_expected m),
         rm_used = [i..<i + n] @ rm_used m\<rparr>))"

definition match_group :: "runtime_match \<Rightarrow> immutable_ref list \<Rightarrow> runtime_match res" where
  "match_group m refs = (if refs = [] then error_of else bindE (foldE match_ref (None, m) refs) (\<lambda>(_, m'). ok m'))"

text \<open>\<open>/^0x(?:[a-f0-9]{2})+$/i\<close>.\<close>

definition is_code :: "string \<Rightarrow> bool" where
  "is_code c = (take 2 (lower c) = ''0x'' \<and> length c > 2 \<and> even (length c) \<and> list_all is_lhex (drop 2 (lower c)))"

definition matchPilotRuntime :: "(string \<Rightarrow> string) \<Rightarrow> string \<Rightarrow> string \<Rightarrow> immutable_ref list list \<Rightarrow> string res" where
  "matchPilotRuntime keccak deployed compiled groups =
     (if \<not> is_code deployed \<or> length deployed \<noteq> length compiled then error_of
      else bindE (foldE match_group \<lparr>rm_actual = lower (drop 2 deployed), rm_expected = lower (drop 2 compiled), rm_used = []\<rparr> groups)
        (\<lambda>m. if rm_actual m \<noteq> rm_expected m then error_of else ok (keccak deployed)))"

end
