(* ===== verification/Cre_Settlement_Laws.thy ===== *)
theory Cre_Settlement_Laws
  imports Cre_Settlement
begin

text \<open>
  A prepared report is the outcome of a complete, final set of observations; a release is a
  candidate Yes only inside its window; prepared funding is what the verifier accepts; a code
  match means the deployed code differs from the compiled one in consistent immutables only.
\<close>

section \<open>Reports\<close>

lemma str_nat_int_str': "0 \<le> i \<Longrightarrow> int (str_nat (int_str i)) = i"
  by (simp add: int_str_nonneg)

definition in_time :: "settle_config \<Rightarrow> int \<Rightarrow> outcome_observation \<Rightarrow> bool" where
  "in_time c now x = (st_closesAt c \<le> oo_finalizedAt x \<and> oo_finalizedAt x \<le> now)"

lemma by_id_SomeD: "by_id obs i = Some x \<Longrightarrow> x \<in> set obs \<and> oo_eventId x = i"
  by (auto simp: by_id_def find_Some_iff rev_nth)

lemma settle_event_ok:
  assumes "settle_event c obs now (m, seen) (k, e) = ok (m', seen')"
  obtains x where "x \<in> set obs" "oo_eventId x = fe_id e" "oo_source x = fe_source e" "in_time c now x"
    "seen' = seen @ [x]" "m' = (if oo_outcome x then m + 2 ^ k else m)"
proof -
  obtain x where x: "by_id obs (fe_id e) = Some x" using assms by (auto simp: settle_event_def split: option.splits)
  show thesis
    by (rule that [of x]) (use assms x by_id_SomeD [OF x] in \<open>auto simp: settle_event_def in_time_def split: if_splits\<close>)
qed

lemma foldE_settle:
  assumes "foldE (settle_event c obs now) (m, seen) (enumerate (length seen) es) = ok (m', seen')"
    and "0 \<le> m" "\<forall>i. bit m i \<longleftrightarrow> i < length seen \<and> oo_outcome (seen ! i)"
  shows "\<exists>xs. seen' = seen @ xs \<and> map oo_eventId xs = map fe_id es \<and> map oo_source xs = map fe_source es
    \<and> set xs \<subseteq> set obs \<and> list_all (in_time c now) xs
    \<and> 0 \<le> m' \<and> (\<forall>i. bit m' i \<longleftrightarrow> i < length seen' \<and> oo_outcome (seen' ! i))"
  using assms
proof (induction es arbitrary: m seen)
  case Nil
  then show ?case by simp
next
  case (Cons e es)
  obtain m1 seen1 where s: "settle_event c obs now (m, seen) (length seen, e) = ok (m1, seen1)"
    and rest: "foldE (settle_event c obs now) (m1, seen1) (enumerate (Suc (length seen)) es) = ok (m', seen')"
    using Cons.prems(1) by auto
  from s obtain x where x: "x \<in> set obs" "oo_eventId x = fe_id e" "oo_source x = fe_source e" "in_time c now x"
    "seen1 = seen @ [x]" "m1 = (if oo_outcome x then m + 2 ^ length seen else m)" by (rule settle_event_ok)
  have nb: "\<not> bit m (length seen)" using Cons.prems(3) by simp
  have bits: "bit m1 i \<longleftrightarrow> i < length seen1 \<and> oo_outcome (seen1 ! i)" for i
    using Cons.prems(3) x(6) bit_add_pow [OF nb Cons.prems(2), of i]
    by (cases "i = length seen") (simp_all add: x(5) nth_append less_Suc_eq)
  have "0 \<le> m1" using x(6) Cons.prems(2) by simp
  moreover have "foldE (settle_event c obs now) (m1, seen1) (enumerate (length seen1) es) = ok (m', seen')"
    using rest x(5) by simp
  ultimately obtain xs where "seen' = seen1 @ xs \<and> map oo_eventId xs = map fe_id es \<and> map oo_source xs = map fe_source es
    \<and> set xs \<subseteq> set obs \<and> list_all (in_time c now) xs
    \<and> 0 \<le> m' \<and> (\<forall>i. bit m' i \<longleftrightarrow> i < length seen' \<and> oo_outcome (seen' ! i))"
    using Cons.IH [of m1 seen1] bits by blast
  then have "seen' = seen @ (x # xs)" "map oo_eventId (x # xs) = map fe_id (e # es)" "map oo_source (x # xs) = map fe_source (e # es)"
    "set (x # xs) \<subseteq> set obs" "list_all (in_time c now) (x # xs)"
    "0 \<le> m' \<and> (\<forall>i. bit m' i \<longleftrightarrow> i < length seen' \<and> oo_outcome (seen' ! i))"
    using x(1-5) by simp_all
  then show ?case by blast
qed

section \<open>Runtime code\<close>

text \<open>The positions a reference covers in the text without \<open>0x\<close>.\<close>

definition covers_pos :: "immutable_ref \<Rightarrow> nat \<Rightarrow> bool" where
  "covers_pos r k = (nat (2 * ir_start r) \<le> k \<and> k < nat (2 * ir_start r) + 64)"

definition segment :: "string \<Rightarrow> immutable_ref \<Rightarrow> string" where
  "segment s r = take 64 (drop (nat (2 * ir_start r)) s)"

text \<open>The state of the comparison: both texts with the used positions blanked.\<close>

definition blanked :: "string \<Rightarrow> nat list \<Rightarrow> string" where
  "blanked s used = map (\<lambda>k. if k \<in> set used then CHR ''0'' else s ! k) [0..<length s]"

definition match_state :: "string \<Rightarrow> string \<Rightarrow> runtime_match \<Rightarrow> bool" where
  "match_state a e m = (rm_actual m = blanked a (rm_used m) \<and> rm_expected m = blanked e (rm_used m))"

lemma length_blanked [simp]: "length (blanked s used) = length s"
  by (simp add: blanked_def)

lemma blank_blanked:
  assumes "i + n \<le> length s"
  shows "blank i n (blanked s used) = blanked s ([i..<i + n] @ used)"
proof (rule nth_equalityI)
  show "length (blank i n (blanked s used)) = length (blanked s ([i..<i + n] @ used))"
    using assms by (simp add: blank_def)
  fix k assume "k < length (blank i n (blanked s used))"
  then show "blank i n (blanked s used) ! k = blanked s ([i..<i + n] @ used) ! k"
    using assms by (auto simp: blank_def blanked_def nth_append)
qed

lemma match_ref_ok:
  assumes st: "match_state a e m" and len: "length a = length e" and r: "match_ref (first, m) r = ok (first', m')"
  shows "match_state a e m' \<and> first' = Some (segment a r) \<and> (first \<noteq> None \<longrightarrow> first = first')
    \<and> (\<forall>k. k \<in> set (rm_used m') \<longleftrightarrow> k \<in> set (rm_used m) \<or> covers_pos r k)"
proof -
  let ?i = "nat (2 * ir_start r)"
  have g: "\<not> ir_start r < 0" "ir_length r = 32" "\<not> 2 * (ir_start r + ir_length r) > int (length (rm_actual m))"
    and free: "\<forall>k\<in>set [?i..<?i + 64]. k \<notin> set (rm_used m)"
    and m': "m' = \<lparr>rm_actual = blank ?i 64 (rm_actual m), rm_expected = blank ?i 64 (rm_expected m),
         rm_used = [?i..<?i + 64] @ rm_used m\<rparr>"
    and first': "first' = Some (take 64 (drop ?i (rm_actual m)))" "first \<noteq> None \<longrightarrow> first = first'"
    using r by (auto simp: match_ref_def Let_def list_ex_iff split: if_splits)
  have bound: "?i + 64 \<le> length a" using g st by (simp add: match_state_def)
  have "take 64 (drop ?i (blanked a (rm_used m))) = segment a r"
  proof (rule nth_equalityI)
    show "length (take 64 (drop ?i (blanked a (rm_used m)))) = length (segment a r)" by (simp add: segment_def)
    fix k assume "k < length (take 64 (drop ?i (blanked a (rm_used m))))"
    then have k: "k < 64" "?i + k < length a" by auto
    then have "?i + k \<notin> set (rm_used m)" using free by auto
    then show "take 64 (drop ?i (blanked a (rm_used m))) ! k = segment a r ! k"
      using k by (simp add: segment_def blanked_def)
  qed
  then have "first' = Some (segment a r)" using first'(1) st by (simp add: match_state_def)
  moreover have "match_state a e m'"
    using st bound len by (simp add: match_state_def m' blank_blanked)
  moreover have "k \<in> set (rm_used m') \<longleftrightarrow> k \<in> set (rm_used m) \<or> covers_pos r k" for k
    by (auto simp: m' covers_pos_def)
  ultimately show ?thesis using first'(2) by blast
qed

lemma foldE_match_ref:
  assumes "match_state a e m" "length a = length e" "foldE match_ref (first, m) refs = ok (first', m')"
  shows "match_state a e m' \<and> (\<forall>r\<in>set refs. first' = Some (segment a r)) \<and> (first \<noteq> None \<longrightarrow> first = first')
    \<and> (\<forall>k. k \<in> set (rm_used m') \<longleftrightarrow> k \<in> set (rm_used m) \<or> (\<exists>r\<in>set refs. covers_pos r k))"
  using assms(1,3)
proof (induction refs arbitrary: first m)
  case Nil
  then show ?case by simp
next
  case (Cons r refs)
  obtain first1 m1 where s: "match_ref (first, m) r = ok (first1, m1)" and rest: "foldE match_ref (first1, m1) refs = ok (first', m')"
    using Cons.prems(2) by auto
  note one = match_ref_ok [OF Cons.prems(1) assms(2) s]
  then have "match_state a e m'" "\<forall>r\<in>set refs. first' = Some (segment a r)" "first1 = first'"
    "\<forall>k. k \<in> set (rm_used m') \<longleftrightarrow> k \<in> set (rm_used m1) \<or> (\<exists>r\<in>set refs. covers_pos r k)"
    using Cons.IH [OF _ rest] by auto
  then show ?case using one by auto
qed

lemma match_group_ok: "match_group m g = ok m' \<longleftrightarrow> g \<noteq> [] \<and> (\<exists>f. foldE match_ref (None, m) g = ok (f, m'))"
  by (auto simp: match_group_def)

lemma foldE_match_group:
  assumes "match_state a e m" "length a = length e" "foldE match_group m groups = ok m'"
  shows "match_state a e m' \<and> (\<forall>g\<in>set groups. \<forall>r\<in>set g. \<forall>s\<in>set g. segment a r = segment a s)
    \<and> (\<forall>k. k \<in> set (rm_used m') \<longleftrightarrow> k \<in> set (rm_used m) \<or> (\<exists>g\<in>set groups. \<exists>r\<in>set g. covers_pos r k))"
  using assms(1,3)
proof (induction groups arbitrary: m)
  case Nil
  then show ?case by simp
next
  case (Cons g groups)
  obtain first1 m1 where s: "foldE match_ref (None, m) g = ok (first1, m1)" and rest: "foldE match_group m1 groups = ok m'"
    using Cons.prems(2) by (auto simp: match_group_ok)
  have one: "match_state a e m1" "\<forall>r\<in>set g. first1 = Some (segment a r)"
    "\<And>k. k \<in> set (rm_used m1) \<longleftrightarrow> k \<in> set (rm_used m) \<or> (\<exists>r\<in>set g. covers_pos r k)"
    using foldE_match_ref [OF Cons.prems(1) assms(2) s] by blast+
  have same: "segment a r = segment a s" if "r \<in> set g" "s \<in> set g" for r s
    using one(2) that by (metis option.inject)
  have ih: "match_state a e m'" "\<forall>g\<in>set groups. \<forall>r\<in>set g. \<forall>s\<in>set g. segment a r = segment a s"
    "\<And>k. k \<in> set (rm_used m') \<longleftrightarrow> k \<in> set (rm_used m1) \<or> (\<exists>g\<in>set groups. \<exists>r\<in>set g. covers_pos r k)"
    using Cons.IH [OF one(1) rest] by blast+
  have used: "k \<in> set (rm_used m') \<longleftrightarrow> k \<in> set (rm_used m) \<or> (\<exists>g\<in>set (g # groups). \<exists>r\<in>set g. covers_pos r k)" for k
    unfolding ih(3) one(3) by auto
  have copies: "\<forall>g\<in>set (g # groups). \<forall>r\<in>set g. \<forall>s\<in>set g. segment a r = segment a s"
  proof (intro ballI)
    fix h r s assume h: "h \<in> set (g # groups)" "r \<in> set h" "s \<in> set h"
    show "segment a r = segment a s"
    proof (cases "h = g")
      case True
      then show ?thesis using h by (intro same) auto
    next
      case False
      then have "h \<in> set groups" using h(1) by simp
      then show ?thesis using ih(2) h(2,3) by blast
    qed
  qed
  show ?case by (intro conjI allI ih(1) copies used)
qed

section \<open>Properties\<close>

text \<open>A settlement report states the outcome of a complete set of final observations: there is exactly
  one observation for every event, of the event's own source and finalised between the close and
  now, and bit \<open>i\<close> of the terminal state is the outcome of event \<open>i\<close>, with no other bit set.\<close>

theorem settlement_report_complete:
  assumes "prepareSettlement k c obs now = ok r"
  shows "st_closesAt c \<le> now \<and> (\<exists>seen. set seen = set obs \<and> map oo_eventId seen = map fe_id (st_events c)
    \<and> map oo_source seen = map fe_source (st_events c) \<and> list_all (in_time c now) seen
    \<and> (\<forall>i. bit (sr_terminalState r) i = (i < length (st_events c) \<and> oo_outcome (seen ! i)))
    \<and> sr_report r = rc_report k (st_version c = Some 2) (case st_version c of None \<Rightarrow> 1 | Some v \<Rightarrow> v) c
        (sr_rulesHash r) now (sr_observationsHash r) (sr_terminalState r))"
proof -
  obtain state seen rules where now: "st_closesAt c \<le> now" and n: "length obs = length (st_events c)"
    and ids: "card (set (map oo_eventId obs)) = length obs"
    and f: "foldE (settle_event c obs now) (0, []) (enumerate 0 (st_events c)) = ok (state, seen)"
    and r: "sr_terminalState r = state" "sr_report r = rc_report k (st_version c = Some 2)
        (case st_version c of None \<Rightarrow> 1 | Some v \<Rightarrow> v) c (sr_rulesHash r) now (sr_observationsHash r) state"
    using assms by (auto simp: prepareSettlement_def Let_def split: if_splits)
  have s: "map oo_eventId seen = map fe_id (st_events c)" "map oo_source seen = map fe_source (st_events c)"
    "set seen \<subseteq> set obs" "list_all (in_time c now) seen"
    "\<forall>i. bit state i \<longleftrightarrow> i < length seen \<and> oo_outcome (seen ! i)"
    using foldE_settle [of c obs now 0 "[]" "st_events c" state seen] f by auto
  have len: "length seen = length (st_events c)" using s(1) by (metis length_map)
  have "distinct (map fe_id (st_events c))"
    using assms by (auto simp: prepareSettlement_def configSchema_def split: if_splits)
  then have "distinct seen" using s(1) by (metis distinct_map)
  then have "card (set seen) = length obs" using len n distinct_card by fastforce
  moreover have "card (set obs) \<le> length obs" by (rule card_length)
  ultimately have "set seen = set obs" using s(3) by (intro card_seteq) simp_all
  then show ?thesis using now s r len by (intro conjI exI [of _ seen]) simp_all
qed

text \<open>Two fixture events, the second of which came out Yes.\<close>

definition demo_codec :: report_codec where
  "demo_codec = \<lparr>rc_rules = (\<lambda>c. st_pool c), rc_evidence = (\<lambda>v h t seen. h), rc_report = (\<lambda>factored v c h t o' s. int_str s),
     rc_keccak = (\<lambda>x. x)\<rparr>"

definition demo_settle :: settle_config where
  "demo_settle = \<lparr>st_version = Some 2, st_chainId = 10143, st_pool = ''0x'' @ replicate 40 CHR ''a'', st_closesAt = 100,
     st_events = [\<lparr>fe_id = ''a'', fe_source = ''fixture:a''\<rparr>, \<lparr>fe_id = ''b'', fe_source = ''fixture:b''\<rparr>]\<rparr>"

definition demo_outcomes :: "outcome_observation list" where
  "demo_outcomes = [\<lparr>oo_eventId = ''b'', oo_source = ''fixture:b'', oo_outcome = True, oo_finalizedAt = 120\<rparr>,
     \<lparr>oo_eventId = ''a'', oo_source = ''fixture:a'', oo_outcome = False, oo_finalizedAt = 100\<rparr>]"

lemma demo_settlement: "prepareSettlement demo_codec demo_settle demo_outcomes 200 = ok \<lparr>sr_rulesHash = st_pool demo_settle,
    sr_observationsHash = st_pool demo_settle, sr_observedAt = 200, sr_terminalState = 2, sr_report = ''2''\<rparr>"
  by code_simp

lemma settlement_report_complete_witness:
  "\<exists>seen. set seen = set demo_outcomes \<and> map oo_eventId seen = [''a'', ''b''] \<and> bit (2 :: int) (1 :: nat)"
  using settlement_report_complete [OF demo_settlement] by (auto simp: demo_settle_def)

text \<open>Observing a release never infers No and only calls a Yes candidate on full evidence: the source
  answered 200, the draft and the event are the supported template, the body is the requested
  stable release, and it was published inside the event's window and not after it was fetched.\<close>

theorem release_candidate_evidence:
  assumes "observeRelease hosts d eventId httpStatus body fetchedAt = ok (Candidate_yes i t payload h)"
  shows "httpStatus = 200 \<and> eventDraftSchema (rh_url hosts) d \<and> (\<exists>target e r. e \<in> set (dr_events d) \<and> dv_id e = eventId
    \<and> releaseTargetForEvent (rh_url hosts) d eventId = ok (target, e)
    \<and> Option.bind (rh_json hosts body) parse_release = Some r
    \<and> rb_id r = i \<and> rb_tag_name r = rt_tag target \<and> \<not> rb_draft r \<and> \<not> rb_prerelease r
    \<and> Option.bind (rb_published_at r) publication_time = Some t
    \<and> dv_startsAt e \<le> t \<and> t < dv_endsAt e \<and> t \<le> fetchedAt)"
proof -
  obtain draftHash endpoint target e r where d: "eventDraftSchema (rh_url hosts) d"
    and te: "releaseTargetForEvent (rh_url hosts) d eventId = ok (target, e)" and st: "httpStatus = 200"
    and r: "Option.bind (rh_json hosts body) parse_release = Some r"
    and j: "judge_release hosts draftHash endpoint target e body fetchedAt r = Candidate_yes i t payload h"
    using assms by (auto simp: observeRelease_def prepareEventDraft_def split: if_splits option.splits)
  have e: "e \<in> set (dr_events d)" "dv_id e = eventId"
    using te by (auto simp: releaseTargetForEvent_def Let_def find_Some_iff split: if_splits option.splits list.splits)
  have "rb_id r = i \<and> rb_tag_name r = rt_tag target \<and> \<not> rb_draft r \<and> \<not> rb_prerelease r
    \<and> Option.bind (rb_published_at r) publication_time = Some t \<and> dv_startsAt e \<le> t \<and> t < dv_endsAt e \<and> t \<le> fetchedAt"
    using j by (auto simp: judge_release_def Let_def split: if_splits option.splits)
  then show ?thesis using d te st r e by blast
qed

text \<open>A release published inside the window of its event.\<close>

definition demo_target :: release_target where
  "demo_target = \<lparr>rt_repository = ''ethereum/go-ethereum'', rt_tag = ''v1.14.0''\<rparr>"

definition demo_release_event :: "string \<Rightarrow> draft_event" where
  "demo_release_event i = (case releaseEvent demo_target i 1767225600 1767312000 of Inr e \<Rightarrow> e)"

definition demo_draft :: event_draft where
  "demo_draft = \<lparr>dr_chainId = 10143, dr_clusterId = ''releases'', dr_title = ''Releases'', dr_closesAt = 1767225000,
     dr_events = [demo_release_event ''geth'', demo_release_event ''geth-2''], dr_exceptionPolicy = None,
     dr_disputeModel = Undecided, dr_disputePolicy = None\<rparr>"

definition demo_hosts :: release_hosts where
  "demo_hosts = \<lparr>rh_url = (\<lambda>u. Some \<lparr>ru_protocol = ''https:'', ru_username = [], ru_password = [], ru_hash = [], ru_search = [],
       ru_port = [], ru_hostname = ''github.com''\<rparr>),
     rh_encode_draft = (\<lambda>d. dr_title d), rh_keccak = (\<lambda>x. x),
     rh_json = (\<lambda>b. Some (JObj [(''id'', JInt 7), (''url'', JStr ''https://api.github.com/repos/ethereum/go-ethereum/releases/7''),
       (''html_url'', JStr ''https://github.com/ethereum/go-ethereum/releases/tag/v1.14.0''), (''tag_name'', JStr ''v1.14.0''),
       (''draft'', JBool False), (''prerelease'', JBool False), (''published_at'', JStr ''2026-01-01T12:00:00Z'')])),
     rh_evidence = (\<lambda>h i u f r p b. b)\<rparr>"

lemma demo_observation: "observeRelease demo_hosts demo_draft ''geth'' 200 ''body'' 1767300000
    = ok (Candidate_yes 7 1767268800 ''body'' ''body'')"
  by code_simp

lemma release_candidate_evidence_witness:
  "eventDraftSchema (rh_url demo_hosts) demo_draft \<and> (\<exists>e. e \<in> set (dr_events demo_draft) \<and> dv_id e = ''geth''
    \<and> dv_startsAt e \<le> 1767268800 \<and> 1767268800 < dv_endsAt e)"
  using release_candidate_evidence [OF demo_observation] by blast

text \<open>The funding a batch computes for a pool is funding the deployment check accepts, for every depth
  the preparation allows and two to four questions, although the two modules round \<open>ln 2\<close> in
  different directions.\<close>

theorem prepared_funding_accepted:
  assumes "validLiquidityAtoms v" and "2 \<le> n" and "n \<le> 4"
  shows "funding_accepted (int (str_nat v)) n (int (str_nat (fundingAtoms v n)))"
proof -
  define x where "x = int (str_nat v) * n"
  have v: "10000000 \<le> int (str_nat v)" "int (str_nat v) \<le> 1000000000000"
    using assms(1) by (simp_all add: validLiquidityAtoms_def)
  have x: "0 < x" "x \<le> 4000000000000"
    using v assms(2,3) mult_mono [of "int (str_nat v)" 1000000000000 n 4] by (simp_all add: x_def)
  define f where "f = (x * 693147180559945310 + 10 ^ 18 - 1) div 10 ^ 18"
  define q where "q = (x * 693147180559945309) div 10 ^ 18"
  define s where "s = (x * 693147180559945309) mod 10 ^ 18"
  have qs: "x * 693147180559945309 = q * 10 ^ 18 + s" "0 \<le> s" "s < 10 ^ 18"
    by (simp_all add: q_def s_def)
  have fr: "f * 10 ^ 18 \<le> x * 693147180559945310 + 10 ^ 18 - 1" "x * 693147180559945310 + 10 ^ 18 - 1 < f * 10 ^ 18 + 10 ^ 18"
    unfolding f_def by (simp_all add: div_mod_decomp_int [symmetric] minus_mod_eq_div_mult [symmetric])
  have funding: "int (str_nat (fundingAtoms v n)) = f"
    using x(1) by (simp add: fundingAtoms_def f_def x_def [symmetric] str_nat_int_str')
  have e: "n * int (str_nat v) * 693147180559945309 = x * 693147180559945309" by (simp add: x_def ac_simps)
  have "f \<ge> q + (if s \<noteq> 0 then 1 else 0)" "f \<le> q + (if s \<noteq> 0 then 1 else 0) + n"
    using qs fr x assms(2) by (auto split: if_splits)
  then show ?thesis
    using x(1) unfolding funding funding_accepted_def e by (simp add: Let_def q_def s_def)
qed

lemma prepared_funding_accepted_witness:
  "funding_accepted (int (str_nat ''250000000'')) 2 (int (str_nat (fundingAtoms ''250000000'' 2)))"
proof -
  have "validLiquidityAtoms ''250000000''" by code_simp
  then show ?thesis by (rule prepared_funding_accepted) simp_all
qed

text \<open>A deployment that matches is the compiled contract: the code has the compiled length, it agrees
  with the compiled code at every position outside the immutable references, and all copies of
  an immutable hold the same value.\<close>

theorem runtime_match_exact:
  assumes "matchPilotRuntime keccak deployed compiled groups = ok h"
  shows "length deployed = length compiled \<and> h = keccak deployed
    \<and> (\<forall>k. k < length (drop 2 deployed) \<and> \<not> list_ex (list_ex (\<lambda>r. covers_pos r k)) groups
        \<longrightarrow> lower (drop 2 deployed) ! k = lower (drop 2 compiled) ! k)
    \<and> (\<forall>g\<in>set groups. \<forall>r\<in>set g. \<forall>s\<in>set g. segment (lower (drop 2 deployed)) r = segment (lower (drop 2 deployed)) s)"
proof -
  let ?a = "lower (drop 2 deployed)" and ?e = "lower (drop 2 compiled)"
  obtain m where len: "length deployed = length compiled" and m: "foldE match_group \<lparr>rm_actual = ?a, rm_expected = ?e, rm_used = []\<rparr> groups = ok m"
    and eq: "rm_actual m = rm_expected m" and h: "h = keccak deployed"
    using assms by (auto simp: matchPilotRuntime_def split: if_splits)
  have "blanked s [] = s" for s by (simp add: blanked_def map_nth)
  then have init: "match_state ?a ?e \<lparr>rm_actual = ?a, rm_expected = ?e, rm_used = []\<rparr>" by (simp add: match_state_def)
  have l: "length ?a = length ?e" using len by simp
  note all = foldE_match_group [OF init l m]
  have "?a ! k = ?e ! k" if "k < length (drop 2 deployed)" "\<not> list_ex (list_ex (\<lambda>r. covers_pos r k)) groups" for k
  proof -
    have free: "k \<notin> set (rm_used m)" using all that(2) by (auto simp: list_ex_iff)
    have "blanked ?a (rm_used m) ! k = blanked ?e (rm_used m) ! k" using all eq unfolding match_state_def by metis
    then show ?thesis using free that(1) l by (simp add: blanked_def)
  qed
  then show ?thesis using len h all by blast
qed

text \<open>One byte of code and an immutable word, which the deployment has filled in.\<close>

definition demo_code :: "char \<Rightarrow> string" where
  "demo_code c = ''0x60'' @ replicate 64 c"

definition demo_refs :: "immutable_ref list list" where
  "demo_refs = [[\<lparr>ir_start = 1, ir_length = 32\<rparr>]]"

lemma demo_match: "matchPilotRuntime (\<lambda>x. take 4 x) (demo_code CHR ''a'') (demo_code CHR ''0'') demo_refs = ok ''0x60''"
  by code_simp

lemma runtime_match_exact_witness:
  "length (demo_code CHR ''a'') = length (demo_code CHR ''0'') \<and> take 4 (demo_code CHR ''a'') = ''0x60''"
  using runtime_match_exact [OF demo_match] by metis

end
