(* ===== verification/Perpl.thy ===== *)
theory Perpl
  imports Texts
begin

text \<open>
  The Perpl client (apps/web/src/perpl.ts): reading the exchange's context, enrolling an API key,
  building order frames, and the desk that follows one order through the frames of the trading
  socket. Ed25519, \<open>hashTypedData\<close> and the HTTP answers are parameters. A number the code tests
  with \<open>isSafeInteger\<close> is an \<open>int\<close>; one with no integer value fails the test as an unsafe one does.
\<close>

definition PERPL_CHAIN_ID :: int where
  "PERPL_CHAIN_ID = 10143"

definition PERPL_EXCHANGE :: string where
  "PERPL_EXCHANGE = ''0x1964c32f0be608e7d29302aff5e61268e72080cc''"

definition PERPL_AUSD :: string where
  "PERPL_AUSD = ''0xa9012a055bd4e0edff8ce09f960291c09d5322dc''"

definition PERPL_API_URL :: string where
  "PERPL_API_URL = ''https://testnet.perpl.xyz/api''"

definition PERPL_SCOPE_TRADE :: int where
  "PERPL_SCOPE_TRADE = 3"

section \<open>The exchange's context\<close>

record perpl_market =
  pm_id :: int
  pm_symbol :: string
  pm_name :: string
  pm_open :: bool
  pm_mark :: int
  pm_priceDecimals :: int
  pm_sizeDecimals :: int
  pm_orderTtlBlocks :: int
  pm_initialMargin :: int
  pm_fundingRate :: "int option"
  pm_fundingInterval :: "int option"
  pm_dailyVolume :: "string option"
  pm_openInterest :: "int option"
  pm_tvl :: "string option"

record perpl_context =
  px_instanceId :: int
  px_minimumDeposit :: string
  px_markets :: "perpl_market list"

definition digits_text :: "json \<Rightarrow> string option" where
  "digits_text v = (case v of JStr s \<Rightarrow> if chars is_dec 1 40 s then Some s else None | _ \<Rightarrow> None)"

definition upper_or_digit :: "char \<Rightarrow> bool" where
  "upper_or_digit c = (is_dec c \<or> is_upper c)"

definition parse_perpl_market :: "json \<Rightarrow> perpl_market res" where
  "parse_perpl_market m =
     (let config = jget m ''config''; state = jget m ''state''; rate = jget (jget m ''funding'') ''rate'' in
      case (whole (jget m ''id'') 1, whole (jget state ''mrk'') 1, whole (jget config ''price_decimals'') 0,
        whole (jget config ''size_decimals'') 0, whole (jget m ''order_ttl_blocks'') 1,
        whole (jget config ''initial_margin'') 1, jget config ''is_open'') of
        (Some i, Some mark, Some pd, Some sd, Some ttl, Some margin, JBool isopen) \<Rightarrow>
          (if \<not> is_record m \<or> pd > 8 \<or> sd > 8 \<or> \<not> chars upper_or_digit 1 12 (text_or_empty (jget m ''symbol'')) then plain_error
           else ok \<lparr>pm_id = i, pm_symbol = js_string (jget m ''symbol''), pm_name = js_string (jget m ''symbol'') @ '' perpetual'',
             pm_open = isopen, pm_mark = mark, pm_priceDecimals = pd, pm_sizeDecimals = sd, pm_orderTtlBlocks = ttl,
             pm_initialMargin = margin,
             pm_fundingRate = (if is_safe_int rate then Some (jint_val rate) else None),
             pm_fundingInterval = whole (jget m ''funding_interval_sec'') 1,
             pm_dailyVolume = digits_text (jget state ''dva''),
             pm_openInterest = whole (jget state ''oi'') 0,
             pm_tvl = digits_text (jget state ''tvl'')\<rparr>)
      | _ \<Rightarrow> plain_error)"

text \<open>\<open>/^[1-9]\d{0,20}$/\<close>.\<close>

definition is_positive_dec :: "string \<Rightarrow> bool" where
  "is_positive_dec s = (chars is_dec 1 21 s \<and> hd s \<noteq> CHR ''0'')"

text \<open>\<open>find(item => item?.id === ...)\<close>: what is not an object reads as null, whose id is undefined.\<close>

definition collateral_ok :: "json list \<Rightarrow> json \<Rightarrow> bool" where
  "collateral_ok tokens want = (case List.find (\<lambda>t. strict_eq (jget t ''id'') want) tokens of
     None \<Rightarrow> False
   | Some t \<Rightarrow> spells (jget t ''address'') PERPL_AUSD \<and> jget t ''decimals'' = JInt 6 \<and> jget t ''symbol'' = JStr ''AUSD'')"

definition parsePerplContext :: "json \<Rightarrow> perpl_context res" where
  "parsePerplContext body =
     (case (items (jget body ''tokens''), items (jget body ''instances''), items (jget body ''markets'')) of
        (Some tokens, Some instances, Some markets) \<Rightarrow>
          (if jget (jget body ''chain'') ''chain_id'' \<noteq> JInt PERPL_CHAIN_ID then plain_error
           else (case filter (\<lambda>i. spells (jget i ''address'') PERPL_EXCHANGE) instances of
             [instance] \<Rightarrow>
               (case whole (jget instance ''id'') 1 of
                  None \<Rightarrow> plain_error
                | Some instanceId \<Rightarrow>
                    (let deposit = text_or_empty (jget instance ''min_account_open_amount'') in
                     if \<not> is_positive_dec deposit then plain_error
                     else if \<not> collateral_ok tokens (jget instance ''collateral_token_id'') then plain_error
                     else bindE (mapE parse_perpl_market (filter (\<lambda>m. jget m ''instance_id'' = JInt instanceId) markets)) (\<lambda>ms.
                       if ms = [] \<or> length ms > 100 \<or> \<not> distinct (map pm_id ms) then plain_error
                       else ok \<lparr>px_instanceId = instanceId, px_minimumDeposit = deposit, px_markets = ms\<rparr>)))
           | _ \<Rightarrow> plain_error))
      | _ \<Rightarrow> plain_error)"

section \<open>Amounts and sizes\<close>

definition formatScaled :: "int \<Rightarrow> int \<Rightarrow> string" where
  "formatScaled v decimals =
     (if \<not> is_safe_int (JInt v) \<or> v < 0 \<or> decimals < 0 \<or> decimals > 8 then []
      else let d = nat decimals; raw = pad_start (d + 1) (int_str v);
               frac = (if d = 0 then [] else strip_zeros (drop (length raw - d) raw))
           in take (length raw - d) raw @ (if frac \<noteq> [] then CHR ''.'' # frac else []))"

definition collateralAmount :: "string \<Rightarrow> string" where
  "collateralAmount raw =
     (if \<not> chars is_dec 1 24 raw then []
      else let wholePart = (if length raw > 6 then strip_leading (take (length raw - 6) raw) else ''0'');
               p = pad_start 7 raw; frac = strip_zeros (drop (length p - 6) p)
           in if frac \<noteq> [] then wholePart @ CHR ''.'' # frac else wholePart)"

definition tradeLeverage :: "int \<Rightarrow> int res" where
  "tradeLeverage initialMargin =
     (if \<not> is_safe_int (JInt initialMargin) \<or> initialMargin \<le> 0 \<or> initialMargin > 10000 then plain_error
      else if 1000000 div initialMargin < 100 then plain_error else ok 100)"

definition nextRequestId :: "int \<Rightarrow> int \<Rightarrow> int res" where
  "nextRequestId lastForwarded previous =
     (if \<not> is_safe_int (JInt lastForwarded) \<or> lastForwarded < 0 \<or> \<not> is_safe_int (JInt previous) \<or> previous < 0 then plain_error
      else if \<not> is_safe_int (JInt (max lastForwarded previous + 1)) then plain_error
      else ok (max lastForwarded previous + 1))"

text \<open>\<open>/^\d+(?:\.\d+)?$/\<close> and its two halves.\<close>

definition size_parts :: "string \<Rightarrow> (string \<times> string) option" where
  "size_parts s = (let w = takeWhile is_dec s; rest = dropWhile is_dec s in
     if w = [] then None else if rest = [] then Some (w, [])
     else if hd rest = CHR ''.'' \<and> tl rest \<noteq> [] \<and> list_all is_dec (tl rest) then Some (w, tl rest) else None)"

definition scaleUnits :: "string \<Rightarrow> int \<Rightarrow> int res" where
  "scaleUnits text' decimals =
     (if decimals < 0 \<or> decimals > 8 then plain_error
      else (case size_parts (js_trim text') of
        None \<Rightarrow> plain_error
      | Some (w, frac) \<Rightarrow>
          (if int (length frac) > decimals then plain_error
           else let scaled = int (str_nat w) * 10 ^ nat decimals + int (str_nat (pad_end (nat decimals) frac)) in
             if scaled < 1 \<or> scaled > max_safe then plain_error else ok scaled)))"

text \<open>\<open>/^(?:[1-9]\d{0,11}|0)(?:\.\d{1,6})?$/\<close>; the number is positive when some digit is.\<close>

definition collateralText :: "string \<Rightarrow> string res" where
  "collateralText t = (let amount = js_trim t in case size_parts amount of
     None \<Rightarrow> plain_error
   | Some (w, frac) \<Rightarrow>
       (if \<not> is_canon_dec w \<or> length w > 12 \<or> length frac > 6 \<or> list_all (\<lambda>c. c = CHR ''0'') (w @ frac) then plain_error
        else ok amount))"

section \<open>Enrolling an API key\<close>

definition token_char :: "char \<Rightarrow> bool" where
  "token_char c = (is_alnum c \<or> List.member ''._~+/=-'' c)"

definition parseApiToken :: "string \<Rightarrow> string res" where
  "parseApiToken v = (let token = js_trim v in
     if chars is_hex 64 64 (strip_0x token) then plain_error
     else if \<not> chars token_char 16 512 token then plain_error
     else ok token)"

text \<open>The secret's 64 hexadecimal digits; the code turns them into bytes.\<close>

definition parseApiSecret :: "string \<Rightarrow> string res" where
  "parseApiSecret v = (let hex = lower (strip_0x (js_trim v)) in
     if \<not> is_lhex_n 64 hex then plain_error else ok hex)"

definition parseWalletAddress :: "string \<Rightarrow> string res" where
  "parseWalletAddress v = (if is_0x_hex 40 v then ok v else plain_error)"

definition hexOf :: "json \<Rightarrow> nat \<Rightarrow> bool" where
  "hexOf v bytes = (case v of JStr s \<Rightarrow> is_0x_hex (bytes * 2) s | _ \<Rightarrow> False)"

record typed_data =
  td_types :: "(string \<times> (string \<times> string) list) list"
  td_primaryType :: string
  td_domain :: json
  td_message :: json

definition type_char :: "char \<Rightarrow> bool" where
  "type_char c = (is_alnum c \<or> c = CHR ''['' \<or> c = CHR '']'')"

definition parse_typed_field :: "json \<Rightarrow> (string \<times> string) res" where
  "parse_typed_field row = (case (jget row ''name'', jget row ''type'') of
     (JStr n, JStr t) \<Rightarrow> (if is_name n \<and> chars type_char 1 64 t then ok (n, t) else plain_error)
   | _ \<Rightarrow> plain_error)"

definition parse_typed_entry :: "string \<times> json \<Rightarrow> (string \<times> (string \<times> string) list) res" where
  "parse_typed_entry = (\<lambda>(n, v). case items v of
     None \<Rightarrow> plain_error
   | Some rows \<Rightarrow> (if \<not> is_name n \<or> length rows > 32 then plain_error
       else bindE (mapE parse_typed_field rows) (\<lambda>fs. ok (n, fs))))"

definition entries_of :: "json \<Rightarrow> (string \<times> json) list" where
  "entries_of v = (case v of JObj kvs \<Rightarrow> kvs | _ \<Rightarrow> [])"

definition parseEnrollmentPayload :: "json \<Rightarrow> (typed_data \<times> json \<times> string) res" where
  "parseEnrollmentPayload body =
     (let typed = jget body ''typed_data''; types = jget typed ''types''; domain = jget typed ''domain'';
          message' = jget typed ''message'';
          primary = (case jget typed ''primaryType'' of JStr s \<Rightarrow> s | _ \<Rightarrow> []) in
      if \<not> is_record typed \<or> \<not> is_record types \<or> \<not> is_record domain \<or> \<not> is_record message' \<or> \<not> is_name primary
         \<or> items (jget types primary) = None \<or> items (jget types primary) = Some [] then plain_error
      else if \<not> hexOf (jget body ''mac'') 32 then plain_error
      else bindE (mapE parse_typed_entry (entries_of types)) (\<lambda>fields.
        ok (\<lparr>td_types = fields, td_primaryType = primary, td_domain = domain, td_message = message'\<rparr>, typed,
          js_string (jget body ''mac''))))"

text \<open>A chain id the wallet wrote as text becomes a number before hashing; \<open>BigInt\<close> may throw.\<close>

definition numeric_chain :: "json \<Rightarrow> json res" where
  "numeric_chain domain = (case jget domain ''chainId'' of
     JStr s \<Rightarrow> (case str_integer s of
         None \<Rightarrow> Inl (Other_error ''SyntaxError'')
       | Some i \<Rightarrow> ok (JObj (map (\<lambda>(k, v). if k = ''chainId'' then (k, JInt i) else (k, v)) (entries_of domain))))
   | _ \<Rightarrow> ok domain)"

definition enrollmentDigest :: "(typed_data \<Rightarrow> string) \<Rightarrow> typed_data \<Rightarrow> string res" where
  "enrollmentDigest hash_typed td =
     (let types = filter (\<lambda>(n, _). n \<noteq> ''EIP712Domain'') (td_types td) in
      case map_of types (td_primaryType td) of
        Some (f # fs) \<Rightarrow> bindE (numeric_chain (td_domain td)) (\<lambda>domain.
          ok (hash_typed (td\<lparr>td_types := types, td_domain := domain\<rparr>)))
      | _ \<Rightarrow> plain_error)"

definition parseEnrolledToken :: "json \<Rightarrow> string res" where
  "parseEnrolledToken body = (case jget (jget body ''api_key'') ''api_key'' of
     JStr s \<Rightarrow> parseApiToken s
   | _ \<Rightarrow> (case jget body ''api_key'' of JStr s \<Rightarrow> parseApiToken s | _ \<Rightarrow> parseApiToken []))"

definition enrollmentFailure :: "int \<Rightarrow> json \<Rightarrow> string" where
  "enrollmentFailure status v =
     (if status = 401 then ''Sign in again to enroll a Perpl key.''
      else if status = 409 then ''This public key is already registered on Perpl. Try again to create a new key.''
      else if status = 423 then ''This wallet already has 16 Perpl keys. Revoke one at Perpl, then try again.''
      else if status = 404 then ''Perpl has no profile for this wallet. Open the Perpl testnet app first.''
      else if status = 403 then ''Perpl has not approved enrollment from this site.''
      else if status = 451 then ''Perpl blocked the key request for regional or legal reasons. Your MetaMask connection on Perpl is separate from that block.''
      else let m = (case jget v ''error'' of JStr s \<Rightarrow> take 160 (printable s) | _ \<Rightarrow> []) in
        if m \<noteq> [] then m else ''Perpl enrollment is unavailable. Try again shortly.'')"

definition enrollmentEndpoint :: "string \<Rightarrow> string \<Rightarrow> string" where
  "enrollmentEndpoint path pageOrigin =
     (if pageOrigin = ''https://flurbo.singu.online'' then PERPL_API_URL @ ''/v1/api-key/'' @ path
      else ''/api/perpl/api-key/'' @ path)"

text \<open>
  What an enrollment needs from outside: the fresh key pair, the answers of the two endpoints
  (a body that is not JSON reads as null), the wallet and the two cryptographic functions.
\<close>

record enroll_request =
  eq_address :: string
  eq_publicKey :: string
  eq_scope :: int
  eq_label :: string

record enroll_submission =
  es_address :: string
  es_typed :: json
  es_mac :: string
  es_signature :: string
  es_pop :: string

record enroll_env =
  ee_publicKey :: string
  ee_secret :: string
  ee_payload :: "enroll_request \<Rightarrow> int \<times> json"
  ee_sign_typed :: "json \<Rightarrow> json res"
  ee_hash_typed :: "typed_data \<Rightarrow> string"
  ee_ed_sign :: "string \<Rightarrow> string \<Rightarrow> string"
  ee_enroll :: "enroll_submission \<Rightarrow> int \<times> json"

definition http_ok :: "int \<Rightarrow> bool" where
  "http_ok s = (200 \<le> s \<and> s < 300)"

definition is_signature :: "json \<Rightarrow> bool" where
  "is_signature v = (case v of JStr s \<Rightarrow> take 2 s = ''0x'' \<and> chars is_hex 128 144 (drop 2 s) | _ \<Rightarrow> False)"

definition enrollApiKey :: "enroll_env \<Rightarrow> string \<Rightarrow> string option \<Rightarrow> (string \<times> string) res" where
  "enrollApiKey env address label =
     bindE (parseWalletAddress address) (\<lambda>a.
       let (status, body) = ee_payload env \<lparr>eq_address = a, eq_publicKey = ee_publicKey env, eq_scope = PERPL_SCOPE_TRADE,
             eq_label = (case label of None \<Rightarrow> ''Flurbo'' | Some l \<Rightarrow> l)\<rparr> in
       if \<not> http_ok status then Inl (Other_error (enrollmentFailure status body))
       else bindE (parseEnrollmentPayload body) (\<lambda>(td, raw, mac).
         bindE (ee_sign_typed env raw) (\<lambda>signature.
           if \<not> is_signature signature then plain_error
           else bindE (enrollmentDigest (ee_hash_typed env) td) (\<lambda>digest.
             let (status', body') = ee_enroll env \<lparr>es_address = a, es_typed = raw, es_mac = mac, es_signature = js_string signature,
                   es_pop = ee_ed_sign env digest (ee_secret env)\<rparr> in
             if \<not> http_ok status' then Inl (Other_error (enrollmentFailure status' body'))
             else bindE (parseEnrolledToken body') (\<lambda>token. ok (token, ee_secret env))))))"

text \<open>\<open>PERPL_CHAIN_ID\<close>, a label, the time and the nonce, one a line; then the frame with the signature.\<close>

definition wsSignInCanonical :: "string \<Rightarrow> string \<Rightarrow> string res" where
  "wsSignInCanonical timestamp nonce =
     (if \<not> chars is_dec 10 16 timestamp \<or> \<not> chars (\<lambda>c. is_alnum c \<or> c = CHR ''_'' \<or> c = CHR ''-'') 8 64 nonce then plain_error
      else ok (join_with [char_of (10 :: nat)] [int_str PERPL_CHAIN_ID, ''trading-ws-signin'', timestamp, nonce]))"

record sign_in_frame =
  si_token :: string
  si_timestamp :: string
  si_nonce :: string
  si_signature :: string

definition apiKeySignIn :: "(string \<Rightarrow> string) \<Rightarrow> string \<Rightarrow> int \<Rightarrow> string \<Rightarrow> sign_in_frame res" where
  "apiKeySignIn sign token now nonce = bindE (wsSignInCanonical (int_str now) nonce) (\<lambda>m.
     ok \<lparr>si_token = token, si_timestamp = int_str now, si_nonce = nonce, si_signature = sign m\<rparr>)"

section \<open>Order frames\<close>

record order_input =
  oi_action :: int
  oi_marketId :: int
  oi_accountId :: int
  oi_requestId :: int
  oi_serial :: int
  oi_leverage :: int
  oi_size :: "int option"
  oi_price :: "int option"
  oi_orderId :: "int option"
  oi_amount :: "string option"

record order_frame =
  of_sn :: int
  of_rq :: int
  of_mkt :: int
  of_acc :: int
  of_t :: int
  of_oid :: "int option"
  of_p :: "int option"
  of_s :: int
  of_fl :: int
  of_lv :: int
  of_a :: "string option"

definition positive_safe :: "int \<Rightarrow> bool" where
  "positive_safe i = (0 < i \<and> i \<le> max_safe)"

definition positive_id :: "int option \<Rightarrow> bool" where
  "positive_id v = (case v of None \<Rightarrow> False | Some i \<Rightarrow> positive_safe i)"

definition orderRequest :: "order_input \<Rightarrow> order_frame res" where
  "orderRequest i =
     (let base = \<lparr>of_sn = oi_serial i, of_rq = oi_requestId i, of_mkt = oi_marketId i, of_acc = oi_accountId i,
            of_t = oi_action i, of_oid = None, of_p = None, of_s = 0, of_fl = 0, of_lv = 0, of_a = None\<rparr>;
          size' = (case oi_size i of None \<Rightarrow> 0 | Some s \<Rightarrow> s); price = (case oi_price i of None \<Rightarrow> 0 | Some p \<Rightarrow> p) in
      if \<not> list_all positive_safe [oi_action i, oi_marketId i, oi_accountId i, oi_requestId i, oi_serial i, oi_leverage i]
      then plain_error
      else if oi_action i > 7 then plain_error
      else if oi_action i = 5 then
        (if \<not> positive_id (oi_orderId i) then plain_error else ok (base\<lparr>of_oid := oi_orderId i\<rparr>))
      else if oi_action i = 6 then
        bindE (collateralText (case oi_amount i of None \<Rightarrow> [] | Some t \<Rightarrow> t)) (\<lambda>a.
          ok (base\<lparr>of_lv := oi_leverage i, of_a := Some a\<rparr>))
      else if \<not> positive_safe size' \<or> \<not> is_safe_int (JInt price) \<or> price < 0 then plain_error
      else if oi_action i = 7 then
        (if \<not> positive_id (oi_orderId i) \<or> price < 1 then plain_error
         else ok (base\<lparr>of_oid := oi_orderId i, of_p := Some price, of_s := size', of_lv := oi_leverage i\<rparr>))
      else ok (base\<lparr>of_p := Some price, of_s := size', of_fl := (if price = 0 then 4 else 0), of_lv := oi_leverage i\<rparr>))"

definition minimumLong :: "order_input \<Rightarrow> order_frame res" where
  "minimumLong i = orderRequest (i\<lparr>oi_action := 1, oi_size := Some 1, oi_price := Some 0\<rparr>)"

section \<open>The desk\<close>

datatype order_phase = Sent | Admitted | Filled | Failed | Closed

record perpl_fill =
  pf_price :: "int option"
  pf_size :: int
  pf_txid :: "string option"
  pf_block :: "int option"

record early_fill = perpl_fill +
  ef_oid :: int
  ef_market :: int
  ef_account :: int

record perpl_order =
  po_serial :: int
  po_requestId :: int
  po_marketId :: int
  po_accountId :: int
  po_action :: int
  po_orderId :: "int option"
  po_phase :: order_phase
  po_gateway :: "string option"
  po_status :: "int option"
  po_reason :: "int option"
  po_txid :: "string option"
  po_block :: "int option"
  po_fill :: "perpl_fill option"

record perpl_account =
  pa_id :: int
  pa_instanceId :: int
  pa_forwarding :: bool
  pa_frozen :: bool
  pa_lastRequest :: int
  pa_balance :: string

record perpl_desk =
  pk_instanceId :: int
  pk_accounts :: "perpl_account list"
  pk_head :: int
  pk_serial :: int
  pk_stale :: bool
  pk_lastSequence :: "int option"
  pk_listed :: bool
  pk_order :: "perpl_order option"
  pk_earlyFills :: "early_fill list"

definition emptyDesk :: "int \<Rightarrow> perpl_desk" where
  "emptyDesk i = \<lparr>pk_instanceId = i, pk_accounts = [], pk_head = 0, pk_serial = 0, pk_stale = False,
     pk_lastSequence = None, pk_listed = False, pk_order = None, pk_earlyFills = []\<rparr>"

definition resumeDesk :: "perpl_desk option \<Rightarrow> int \<Rightarrow> perpl_desk" where
  "resumeDesk previous i = (case previous of
     None \<Rightarrow> emptyDesk i
   | Some p \<Rightarrow> (case (if pk_instanceId p = i then pk_order p else None) of
       None \<Rightarrow> emptyDesk i
     | Some ord \<Rightarrow> (if po_phase ord = Failed \<or> po_phase ord = Closed then emptyDesk i
         else (emptyDesk i)\<lparr>pk_accounts := pk_accounts p, pk_serial := pk_serial p, pk_order := Some ord,
           pk_earlyFills := pk_earlyFills p\<rparr>)))"

definition flag :: "json \<Rightarrow> bool option" where
  "flag v = (if v = JBool True \<or> v = JInt 1 then Some True else if v = JBool False \<or> v = JInt 0 then Some False else None)"

definition balance_text :: "json \<Rightarrow> string" where
  "balance_text v = (case v of JStr s \<Rightarrow> s
     | _ \<Rightarrow> (case whole v 0 of Some i \<Rightarrow> int_str i | None \<Rightarrow> []))"

definition accountFrom :: "json \<Rightarrow> int \<Rightarrow> perpl_account option" where
  "accountFrom row i =
     (case (whole (jget row ''id'') 1, whole (jget row ''in'') 1, whole (jget row ''lfr'') 0,
        flag (jget row ''fw''), flag (jget row ''fr'')) of
        (Some a, Some instance, Some lastRequest, Some forwarding, Some frozen) \<Rightarrow>
          (if instance \<noteq> i \<or> \<not> chars is_dec 1 40 (balance_text (jget row ''b'')) then None
           else Some \<lparr>pa_id = a, pa_instanceId = instance, pa_forwarding = forwarding, pa_frozen = frozen,
             pa_lastRequest = lastRequest, pa_balance = balance_text (jget row ''b'')\<rparr>)
      | _ \<Rightarrow> None)"

definition keepProgress :: "perpl_account option \<Rightarrow> perpl_account \<Rightarrow> perpl_account" where
  "keepProgress previous next = (case previous of None \<Rightarrow> next
     | Some p \<Rightarrow> next\<lparr>pa_lastRequest := max (pa_lastRequest p) (pa_lastRequest next)\<rparr>)"

definition txHash :: "json \<Rightarrow> string option" where
  "txHash v = (case v of
     JStr s \<Rightarrow> (let body = strip_0x (js_trim s) in if chars is_hex 64 64 body then Some (''0x'' @ lower body) else None)
   | _ \<Rightarrow> None)"

fun txidOf :: "json list \<Rightarrow> string option \<times> int option" where
  "txidOf [] = (None, None)"
| "txidOf (v # vs) = (let (txid, block) = txidOf vs in
     (or_else (txHash (jget v ''txid'')) txid, or_else (whole (jget v ''b'') 0) block))"

definition beginOrder :: "perpl_desk \<Rightarrow> perpl_order \<Rightarrow> perpl_desk" where
  "beginOrder desk ord = desk\<lparr>pk_serial := po_serial ord, pk_earlyFills := [], pk_order := Some ord,
     pk_accounts := map (\<lambda>a. if pa_id a = po_accountId ord
       then a\<lparr>pa_lastRequest := max (pa_lastRequest a) (po_requestId ord)\<rparr> else a) (pk_accounts desk)\<rparr>"

definition fail_order :: "perpl_order \<Rightarrow> int option \<Rightarrow> string option \<Rightarrow> perpl_order" where
  "fail_order ord reason gateway = ord\<lparr>po_phase := Failed, po_reason := or_else reason (po_reason ord),
     po_gateway := or_else gateway (po_gateway ord)\<rparr>"

definition ACCEPTED :: string where
  "ACCEPTED = ''Accepted for forwarding.''"

text \<open>Frame 19: the account list. Frame 21: one account. Frame 100: a heartbeat with its sequence number.\<close>

definition accounts_frame :: "perpl_desk \<Rightarrow> json \<Rightarrow> perpl_desk" where
  "accounts_frame desk frame =
     (let rows = (case items (jget frame ''as'') of None \<Rightarrow> [] | Some xs \<Rightarrow> xs) in
      desk\<lparr>pk_accounts := map (\<lambda>a. keepProgress (List.find (\<lambda>b. pa_id b = pa_id a) (pk_accounts desk)) a)
             (List.map_filter (\<lambda>r. accountFrom r (pk_instanceId desk)) rows),
           pk_listed := True, pk_lastSequence := or_else (whole (jget frame ''sn'') 0) (pk_lastSequence desk)\<rparr>)"

definition account_frame :: "perpl_desk \<Rightarrow> json \<Rightarrow> perpl_desk" where
  "account_frame desk frame = (case accountFrom frame (pk_instanceId desk) of
     None \<Rightarrow> desk
   | Some next \<Rightarrow> desk\<lparr>pk_accounts := (if list_ex (\<lambda>a. pa_id a = pa_id next) (pk_accounts desk)
       then map (\<lambda>a. if pa_id a = pa_id next then keepProgress (Some a) next else a) (pk_accounts desk)
       else pk_accounts desk @ [next])\<rparr>)"

definition head_frame :: "perpl_desk \<Rightarrow> json \<Rightarrow> perpl_desk" where
  "head_frame desk frame =
     (let sequence = whole (jget frame ''sn'') 0;
          gap = (case (pk_lastSequence desk, sequence) of (Some l, Some s) \<Rightarrow> s \<noteq> l + 1 | _ \<Rightarrow> False) in
      desk\<lparr>pk_head := (case whole (jget frame ''h'') 0 of None \<Rightarrow> pk_head desk | Some h \<Rightarrow> h),
           pk_stale := (pk_stale desk \<or> gap),
           pk_lastSequence := (if \<not> gap \<and> sequence \<noteq> None then sequence else pk_lastSequence desk)\<rparr>)"

text \<open>Frame 3: the gateway's answer to the frame that was sent.\<close>

definition status_frame :: "perpl_desk \<Rightarrow> perpl_order \<Rightarrow> json \<Rightarrow> perpl_desk" where
  "status_frame desk ord frame =
     (if whole (jget frame ''cid'') 1 \<noteq> Some (po_serial ord) then desk
      else let status = jget frame ''status'' in
        (case whole (jget status ''code'') 0 of
           None \<Rightarrow> desk
         | Some c \<Rightarrow>
             (if c = 0 then desk\<lparr>pk_order := Some (ord\<lparr>po_phase := Admitted, po_gateway := Some ACCEPTED\<rparr>)\<rparr>
              else let t = (case jget status ''error'' of JStr s \<Rightarrow> take 160 (printable s) | _ \<Rightarrow> []) in
                desk\<lparr>pk_order := Some (fail_order ord None
                  (Some (if t \<noteq> [] then t else ''Perpl rejected the order before it reached the chain.'')))\<rparr>)))"

definition fill_txid :: "perpl_order \<Rightarrow> string option" where
  "fill_txid ord = Option.bind (po_fill ord) pf_txid"

definition fill_block :: "perpl_order \<Rightarrow> int option" where
  "fill_block ord = Option.bind (po_fill ord) pf_block"

text \<open>Frame 24, one row: the order's status on the chain.\<close>

definition order_status :: "perpl_order \<Rightarrow> int option \<Rightarrow> int option \<Rightarrow> int option \<Rightarrow> string option \<Rightarrow> int option \<Rightarrow> perpl_order" where
  "order_status ord orderId status reason txid block =
     (let next = ord\<lparr>po_orderId := orderId, po_status := status, po_reason := reason, po_txid := txid, po_block := block\<rparr>;
          cancelDone = (po_action ord = 5 \<and> status = Some 5) in
      if cancelDone then next\<lparr>po_phase := Closed\<rparr>
      else if status = Some 5 \<or> status = Some 6 \<or> status = Some 7 then fail_order next reason None
      else next)"

definition early_of :: "perpl_desk \<Rightarrow> int option \<Rightarrow> early_fill option" where
  "early_of desk orderId = (case orderId of None \<Rightarrow> None | Some i \<Rightarrow> List.find (\<lambda>f. ef_oid f = i) (pk_earlyFills desk))"

fun drop_first :: "('a \<Rightarrow> bool) \<Rightarrow> 'a list \<Rightarrow> 'a list" where
  "drop_first p [] = []"
| "drop_first p (x # xs) = (if p x then xs else x # drop_first p xs)"

definition fill_early :: "perpl_order \<Rightarrow> early_fill \<Rightarrow> string option \<Rightarrow> int option \<Rightarrow> perpl_order" where
  "fill_early ord f txid block = ord\<lparr>po_phase := Filled, po_fill := Some \<lparr>pf_price = pf_price f, pf_size = pf_size f,
     pf_txid = or_else (pf_txid f) txid, pf_block = or_else (pf_block f) block\<rparr>\<rparr>"

definition restamp :: "perpl_desk \<Rightarrow> perpl_order \<Rightarrow> int option \<Rightarrow> string option \<Rightarrow> int option \<Rightarrow> perpl_desk" where
  "restamp next ord orderId txid block =
     (if orderId = po_orderId ord \<and> txid \<noteq> None \<and> txid \<noteq> fill_txid ord
      then next\<lparr>pk_order := Some (ord\<lparr>po_txid := txid, po_block := block,
        po_fill := map_option (\<lambda>f. f\<lparr>pf_txid := txid, pf_block := block\<rparr>) (po_fill ord)\<rparr>)\<rparr>
      else next)"

definition progress :: "perpl_desk \<Rightarrow> perpl_order \<Rightarrow> int option \<Rightarrow> string option \<Rightarrow> int option \<Rightarrow> perpl_desk" where
  "progress next ord orderId txid block = (case early_of next orderId of
     None \<Rightarrow> next\<lparr>pk_order := Some ord\<rparr>
   | Some f \<Rightarrow> next\<lparr>pk_earlyFills := drop_first (\<lambda>g. Some (ef_oid g) = orderId) (pk_earlyFills next),
       pk_order := Some (if po_phase ord \<noteq> Failed then fill_early ord f txid block else ord)\<rparr>)"

definition order_row :: "perpl_desk \<Rightarrow> json \<Rightarrow> perpl_desk" where
  "order_row next item = (case pk_order next of
     None \<Rightarrow> next
   | Some ord \<Rightarrow>
       (if whole (jget item ''rq'') 0 \<noteq> Some (po_requestId ord) then next
        else let orderId = whole (jget item ''oid'') 1;
                 stamp = txidOf [jget item ''at'', jget item ''c''];
                 txid = or_else (fst stamp) (or_else (po_txid ord) (fill_txid ord));
                 block = or_else (snd stamp) (or_else (po_block ord) (fill_block ord)) in
          if po_phase ord = Filled then restamp next ord orderId txid block
          else progress next (order_status ord orderId (whole (jget item ''st'') 0) (whole (jget item ''sr'') 0) txid block)
            orderId txid block))"

text \<open>Frame 25, one row: a fill on the order's market and account.\<close>

definition last_eight :: "'a list \<Rightarrow> 'a list" where
  "last_eight xs = drop (length xs - 8) xs"

definition no_order_id :: "perpl_order \<Rightarrow> bool" where
  "no_order_id ord = (po_orderId ord = None \<or> po_orderId ord = Some 0)"

definition refill :: "perpl_order \<Rightarrow> early_fill \<Rightarrow> perpl_order" where
  "refill ord f = ord\<lparr>po_txid := pf_txid f, po_block := pf_block f,
     po_fill := Some \<lparr>pf_price = or_else (Option.bind (po_fill ord) pf_price) (pf_price f),
       pf_size = (case po_fill ord of Some g \<Rightarrow> pf_size g | None \<Rightarrow> pf_size f),
       pf_txid = pf_txid f, pf_block = or_else (fill_block ord) (pf_block f)\<rparr>\<rparr>"

definition fill_now :: "perpl_order \<Rightarrow> early_fill \<Rightarrow> perpl_order" where
  "fill_now ord f = ord\<lparr>po_phase := Filled, po_txid := pf_txid f, po_block := pf_block f,
     po_fill := Some \<lparr>pf_price = pf_price f, pf_size = pf_size f, pf_txid = pf_txid f, pf_block = pf_block f\<rparr>\<rparr>"

definition take_fill :: "perpl_desk \<Rightarrow> perpl_order \<Rightarrow> early_fill \<Rightarrow> perpl_desk" where
  "take_fill next ord f =
     (if po_phase ord = Filled then
        (if po_orderId ord = Some (ef_oid f) \<and> pf_txid f \<noteq> None \<and> pf_txid f \<noteq> fill_txid ord
         then next\<lparr>pk_order := Some (refill ord f)\<rparr> else next)
      else if no_order_id ord then next\<lparr>pk_earlyFills := last_eight (pk_earlyFills next @ [f])\<rparr>
      else if po_orderId ord = Some (ef_oid f) then next\<lparr>pk_order := Some (fill_now ord f)\<rparr>
      else next)"

definition fill_of :: "json \<Rightarrow> json \<Rightarrow> perpl_order \<Rightarrow> early_fill option" where
  "fill_of frame item ord =
     (case (whole (jget item ''oid'') 1, whole (jget item ''mkt'') 1, whole (jget item ''acc'') 1, whole (jget item ''s'') 0) of
        (Some oid, Some market, Some account, Some size') \<Rightarrow>
          (if market \<noteq> po_marketId ord \<or> account \<noteq> po_accountId ord then None
           else let stamp = txidOf [jget item ''at'', jget frame ''at''] in
             Some \<lparr>pf_price = whole (jget item ''p'') 0, pf_size = size', pf_txid = or_else (fst stamp) (po_txid ord),
               pf_block = or_else (snd stamp) (po_block ord), ef_oid = oid, ef_market = market, ef_account = account\<rparr>)
      | _ \<Rightarrow> None)"

definition fill_row :: "json \<Rightarrow> perpl_desk \<Rightarrow> json \<Rightarrow> perpl_desk" where
  "fill_row frame next item = (case pk_order next of
     None \<Rightarrow> next
   | Some ord \<Rightarrow> (case fill_of frame item ord of None \<Rightarrow> next | Some f \<Rightarrow> take_fill next ord f))"

text \<open>Frames about the order reach it only while it is not failed or closed, and while a fill lacks its hash.\<close>

definition order_open :: "perpl_order \<Rightarrow> int \<Rightarrow> bool" where
  "order_open ord kind = (po_phase ord \<noteq> Failed \<and> po_phase ord \<noteq> Closed
     \<and> \<not> (po_phase ord = Filled \<and> (fill_txid ord \<noteq> None \<or> (kind \<noteq> 24 \<and> kind \<noteq> 25))))"

definition apply_kind :: "perpl_desk \<Rightarrow> json \<Rightarrow> int \<Rightarrow> perpl_desk" where
  "apply_kind desk frame kind =
     (if kind = 19 then accounts_frame desk frame
      else if kind = 21 then account_frame desk frame
      else if kind = 100 then head_frame desk frame
      else (case pk_order desk of
        None \<Rightarrow> desk
      | Some ord \<Rightarrow>
          (if \<not> order_open ord kind then desk
           else if kind = 3 then status_frame desk ord frame
           else (case items (jget frame ''d'') of
             None \<Rightarrow> desk
           | Some rows \<Rightarrow>
               (if kind = 24 then foldl order_row desk rows
                else if kind = 25 then foldl (fill_row frame) desk rows
                else desk)))))"

definition applyFrame :: "perpl_desk \<Rightarrow> json \<Rightarrow> perpl_desk" where
  "applyFrame desk frame = (case whole (jget frame ''mt'') 1 of None \<Rightarrow> desk | Some kind \<Rightarrow> apply_kind desk frame kind)"

section \<open>What the page says about the order\<close>

datatype tone = Tone_ok | Tone_done | Tone_bad | Tone_wait

definition failed_text :: "perpl_order \<Rightarrow> string" where
  "failed_text ord =
     (if po_reason ord = Some 34 then ''Order forwarding is off. Turn on one-click trading in the Perpl testnet app, then reconnect.''
      else if po_reason ord = Some 32 then ''That request id was already used. Reconnect and place the order once more.''
      else if po_reason ord = Some 14 then ''The order expired before Perpl submitted it. This is not a fill.''
      else (case po_gateway ord of
        Some g \<Rightarrow> if g \<noteq> ACCEPTED \<and> g \<noteq> [] then g else ''Perpl rejected the order. This is not a fill.''
      | None \<Rightarrow> ''Perpl rejected the order. This is not a fill.''))"

definition orderOutcome :: "perpl_order option \<Rightarrow> bool \<Rightarrow> (tone \<times> string \<times> string option) option" where
  "orderOutcome order stale = (case order of
     None \<Rightarrow> None
   | Some ord \<Rightarrow> Some (
       if po_phase ord = Filled \<and> po_fill ord \<noteq> None then
         (let txid = or_else (fill_txid ord) (po_txid ord) in
          (Tone_ok, if txid \<noteq> None then ''Filled on Perpl.'' else ''Filled on Perpl. The transaction hash has not arrived yet.'', txid))
       else if po_phase ord = Closed then (Tone_done, ''Perpl canceled that order. This is not a fill.'', None)
       else if po_phase ord = Failed then (Tone_bad, failed_text ord, None)
       else if stale then (Tone_bad, ''The stream skipped an update. Reconnect before treating this order as final.'', None)
       else if po_phase ord = Admitted then
         (Tone_wait, ''Accepted for forwarding. This is not a fill yet.''
            @ (if po_status ord = Some 4 then '' The order reports filled. Still waiting for the fill record.''
               else if po_status ord = Some 2 then '' The order is open and has not filled.'' else []), None)
       else (Tone_wait, ''Order sent. Waiting for Perpl to accept or reject it.'', None)))"

end
