(* ===== verification/Perpl_Laws.thy ===== *)
theory Perpl_Laws
  imports Perpl
begin

text \<open>
  What the desk promises about its one order: a fill comes from a fill record of the order's own
  market, account and order id; a decided order stays as it was decided. And the sizes the page
  writes are the sizes it reads back.
\<close>

section \<open>Fills are reported\<close>

definition reports :: "json \<Rightarrow> int \<Rightarrow> int \<Rightarrow> int \<Rightarrow> int \<Rightarrow> bool" where
  "reports frame market account oid size' = (whole (jget frame ''mt'') 1 = Some 25
     \<and> (case items (jget frame ''d'') of None \<Rightarrow> False | Some rows \<Rightarrow> list_ex (\<lambda>row. whole (jget row ''oid'') 1 = Some oid
          \<and> whole (jget row ''mkt'') 1 = Some market \<and> whole (jget row ''acc'') 1 = Some account
          \<and> whole (jget row ''s'') 0 = Some size') rows))"

definition reported :: "json list \<Rightarrow> perpl_order \<Rightarrow> int \<Rightarrow> int \<Rightarrow> bool" where
  "reported frames ord oid size' = list_ex (\<lambda>f. reports f (po_marketId ord) (po_accountId ord) oid size') frames"

text \<open>The request an order stands for; no frame changes it.\<close>

definition same_request :: "perpl_order \<Rightarrow> perpl_order \<Rightarrow> bool" where
  "same_request a b = (po_serial a = po_serial b \<and> po_requestId a = po_requestId b \<and> po_marketId a = po_marketId b
     \<and> po_accountId a = po_accountId b \<and> po_action a = po_action b)"

definition fill_reported :: "json list \<Rightarrow> perpl_order \<Rightarrow> bool" where
  "fill_reported frames ord = (po_phase ord = Filled \<longrightarrow>
     (\<exists>oid f. po_orderId ord = Some oid \<and> po_fill ord = Some f \<and> reported frames ord oid (pf_size f)))"

definition desk_inv :: "json list \<Rightarrow> perpl_order \<Rightarrow> perpl_desk \<Rightarrow> bool" where
  "desk_inv frames ord desk = (\<exists>cur. pk_order desk = Some cur \<and> same_request ord cur \<and> fill_reported frames cur
     \<and> (\<forall>f\<in>set (pk_earlyFills desk). reported frames ord (ef_oid f) (pf_size f)))"

lemma same_request_refl [simp]: "same_request a a"
  by (simp add: same_request_def)

lemma same_request_trans: "same_request a b \<Longrightarrow> same_request b c \<Longrightarrow> same_request a c"
  by (simp add: same_request_def)

lemma reported_same: "same_request a b \<Longrightarrow> reported frames b = reported frames a"
  by (rule ext)+ (simp add: reported_def same_request_def)

lemma reported_mono: "reported frames ord oid s \<Longrightarrow> reported (frames @ later) ord oid s"
  by (simp add: reported_def)

lemma desk_inv_mono: "desk_inv frames ord desk \<Longrightarrow> desk_inv (frames @ later) ord desk"
  unfolding desk_inv_def fill_reported_def using reported_mono by blast

lemma set_drop_first: "set (drop_first p xs) \<subseteq> set xs"
  by (induction xs) auto

lemma order_status_request [simp]: "same_request ord (order_status ord i s r t b)"
  by (simp add: same_request_def order_status_def fail_order_def Let_def)

lemma order_status_orderId [simp]: "po_orderId (order_status ord i s r t b) = i"
  by (simp add: order_status_def fail_order_def Let_def)

lemma order_status_not_filled: "po_phase ord \<noteq> Filled \<Longrightarrow> po_phase (order_status ord i s r t b) \<noteq> Filled"
  by (simp add: order_status_def fail_order_def Let_def)

lemma early_of_SomeD: "early_of desk i = Some f \<Longrightarrow> f \<in> set (pk_earlyFills desk) \<and> i = Some (ef_oid f)"
  by (auto simp: early_of_def find_Some_iff split: option.splits)

lemma desk_inv_setI:
  assumes "desk_inv frames ord desk" "same_request ord new" "fill_reported frames new"
  shows "desk_inv frames ord (desk\<lparr>pk_order := Some new\<rparr>)"
  using assms by (auto simp: desk_inv_def)

lemma fill_reported_open: "po_phase ord \<noteq> Filled \<Longrightarrow> fill_reported frames ord"
  by (simp add: fill_reported_def)

lemma order_row_cases:
  assumes "pk_order desk = Some cur"
  obtains (skip) "order_row desk item = desk"
    | (stamp) i t b where "po_phase cur = Filled" "order_row desk item = restamp desk cur i t b"
    | (step) i s r t b where "po_phase cur \<noteq> Filled" "order_row desk item = progress desk (order_status cur i s r t b) i t b"
proof (cases "whole (jget item ''rq'') 0 = Some (po_requestId cur)")
  case True
  then show thesis
    using assms stamp step by (cases "po_phase cur = Filled") (simp_all add: order_row_def Let_def)
next
  case False
  then show thesis using assms skip by (simp add: order_row_def)
qed

lemma restamp_inv:
  assumes inv: "desk_inv frames ord desk" and cur: "pk_order desk = Some cur" "po_phase cur = Filled"
  shows "desk_inv frames ord (restamp desk cur i t b)"
proof -
  let ?new = "cur\<lparr>po_txid := t, po_block := b, po_fill := map_option (\<lambda>f. f\<lparr>pf_txid := t, pf_block := b\<rparr>) (po_fill cur)\<rparr>"
  have req: "same_request ord ?new" "fill_reported frames cur"
    using inv cur by (auto simp: desk_inv_def same_request_def)
  then have "fill_reported frames ?new" using cur(2) by (auto simp: fill_reported_def reported_def)
  then show ?thesis using inv desk_inv_setI [OF inv req(1)] by (simp add: restamp_def)
qed

lemma progress_inv:
  assumes inv: "desk_inv frames ord desk" and cur: "same_request ord cur" "po_phase cur \<noteq> Filled" "po_orderId cur = i"
  shows "desk_inv frames ord (progress desk cur i t b)"
proof (cases "early_of desk i")
  case None
  then show ?thesis using desk_inv_setI [OF inv cur(1) fill_reported_open [OF cur(2)]] by (simp add: progress_def)
next
  case (Some f)
  note f = early_of_SomeD [OF Some]
  have early: "\<forall>g\<in>set (pk_earlyFills desk). reported frames ord (ef_oid g) (pf_size g)"
    using inv by (auto simp: desk_inv_def)
  let ?new = "if po_phase cur \<noteq> Failed then fill_early cur f t b else cur"
  have req: "same_request ord ?new" using cur(1) by (simp add: fill_early_def same_request_def)
  moreover have "fill_reported frames ?new"
    unfolding fill_reported_def reported_same [OF req] using f early cur by (simp add: fill_early_def)
  moreover have "\<forall>g\<in>set (drop_first p (pk_earlyFills desk)). reported frames ord (ef_oid g) (pf_size g)" for p
    using early by (meson set_drop_first subsetD)
  ultimately show ?thesis using Some by (simp add: progress_def desk_inv_def)
qed

lemma order_row_inv:
  assumes inv: "desk_inv frames ord desk"
  shows "desk_inv frames ord (order_row desk item)"
proof -
  obtain cur where cur: "pk_order desk = Some cur" "same_request ord cur" using inv by (auto simp: desk_inv_def)
  show ?thesis
  proof (rule order_row_cases [OF cur(1), of item])
    show ?thesis if "order_row desk item = desk" using inv that by simp
    show ?thesis if "po_phase cur = Filled" "order_row desk item = restamp desk cur i t b" for i t b
      using restamp_inv [OF inv cur(1) that(1)] that(2) by simp
    show ?thesis if "po_phase cur \<noteq> Filled" "order_row desk item = progress desk (order_status cur i s r t b) i t b" for i s r t b
      using progress_inv [OF inv same_request_trans [OF cur(2) order_status_request] order_status_not_filled [OF that(1)]
        order_status_orderId] that(2) by simp
  qed
qed

lemma fill_of_SomeD:
  assumes "fill_of frame row ord = Some f"
  shows "whole (jget row ''oid'') 1 = Some (ef_oid f) \<and> whole (jget row ''mkt'') 1 = Some (po_marketId ord)
    \<and> whole (jget row ''acc'') 1 = Some (po_accountId ord) \<and> whole (jget row ''s'') 0 = Some (pf_size f)"
  using assms by (simp add: fill_of_def Let_def split: option.splits if_splits) auto

lemma take_fill_cases:
  obtains (skip) "take_fill desk cur f = desk"
    | (refill) "po_phase cur = Filled" "pf_txid f \<noteq> None" "take_fill desk cur f = desk\<lparr>pk_order := Some (refill cur f)\<rparr>"
    | (keep) "po_phase cur \<noteq> Filled" "take_fill desk cur f = desk\<lparr>pk_earlyFills := last_eight (pk_earlyFills desk @ [f])\<rparr>"
    | (now) "po_phase cur \<noteq> Filled" "po_orderId cur = Some (ef_oid f)" "take_fill desk cur f = desk\<lparr>pk_order := Some (fill_now cur f)\<rparr>"
proof (cases "take_fill desk cur f = desk")
  case False
  have "po_phase cur = Filled \<and> pf_txid f \<noteq> None \<and> take_fill desk cur f = desk\<lparr>pk_order := Some (refill cur f)\<rparr>
    \<or> po_phase cur \<noteq> Filled \<and> take_fill desk cur f = desk\<lparr>pk_earlyFills := last_eight (pk_earlyFills desk @ [f])\<rparr>
    \<or> po_phase cur \<noteq> Filled \<and> po_orderId cur = Some (ef_oid f) \<and> take_fill desk cur f = desk\<lparr>pk_order := Some (fill_now cur f)\<rparr>"
    using False unfolding take_fill_def by (auto simp del: not_None_eq split: if_split_asm)
  then show thesis using refill keep now by blast
qed (rule skip)

lemma take_fill_inv:
  assumes inv: "desk_inv frames ord desk" and cur: "pk_order desk = Some cur" and rep: "reported frames cur (ef_oid f) (pf_size f)"
  shows "desk_inv frames ord (take_fill desk cur f)"
proof (cases rule: take_fill_cases [of desk cur f])
  case skip
  then show ?thesis using inv by simp
next
  case refill
  have "same_request ord (refill cur f)" "fill_reported frames (refill cur f)"
    using inv cur refill(1) by (auto simp: desk_inv_def same_request_def fill_reported_def reported_def refill_def)
  then show ?thesis unfolding refill(3) by (rule desk_inv_setI [OF inv])
next
  case keep
  have "\<forall>g\<in>set (last_eight (pk_earlyFills desk @ [f])). reported frames ord (ef_oid g) (pf_size g)"
    using inv cur rep reported_same by (auto simp: desk_inv_def last_eight_def dest!: in_set_dropD) 
  then show ?thesis using inv cur unfolding keep(2) by (simp add: desk_inv_def)
next
  case now
  have "same_request ord (fill_now cur f)" "fill_reported frames (fill_now cur f)"
    using inv cur rep now(2) by (auto simp: desk_inv_def same_request_def fill_reported_def reported_def fill_now_def)
  then show ?thesis unfolding now(3) by (rule desk_inv_setI [OF inv])
qed

lemma fill_row_inv:
  assumes inv: "desk_inv frames ord desk" and frame: "whole (jget frame ''mt'') 1 = Some 25"
    and rows: "items (jget frame ''d'') = Some rows" "row \<in> set rows" and mem: "frame \<in> set frames"
  shows "desk_inv frames ord (fill_row frame desk row)"
proof -
  obtain cur where cur: "pk_order desk = Some cur" using inv by (auto simp: desk_inv_def)
  show ?thesis
  proof (cases "fill_of frame row cur")
    case None
    then show ?thesis using inv cur by (simp add: fill_row_def)
  next
    case (Some f)
    have "reported frames cur (ef_oid f) (pf_size f)"
      using fill_of_SomeD [OF Some] frame rows unfolding reported_def reports_def list_ex_iff
      by (intro bexI [OF _ mem]) auto
    from take_fill_inv [OF inv cur this] show ?thesis using cur Some by (simp add: fill_row_def)
  qed
qed

lemma foldl_inv: "(\<And>s x. x \<in> set xs \<Longrightarrow> I s \<Longrightarrow> I (f s x)) \<Longrightarrow> I s \<Longrightarrow> I (foldl f s xs)"
  by (induction xs arbitrary: s) auto

text \<open>Frames that say nothing about the order leave it and the fills kept for it alone.\<close>

lemma side_frames [simp]:
  "pk_order (accounts_frame desk frame) = pk_order desk" "pk_earlyFills (accounts_frame desk frame) = pk_earlyFills desk"
  "pk_order (account_frame desk frame) = pk_order desk" "pk_earlyFills (account_frame desk frame) = pk_earlyFills desk"
  "pk_order (head_frame desk frame) = pk_order desk" "pk_earlyFills (head_frame desk frame) = pk_earlyFills desk"
  by (simp_all add: accounts_frame_def account_frame_def head_frame_def Let_def split: option.split)

lemma status_frame_inv:
  assumes inv: "desk_inv frames ord desk" and cur: "pk_order desk = Some cur" "po_phase cur \<noteq> Filled"
  shows "desk_inv frames ord (status_frame desk cur frame)"
proof -
  have req: "same_request ord cur" using inv cur(1) by (simp add: desk_inv_def)
  have set_open: "desk_inv frames ord (desk\<lparr>pk_order := Some new\<rparr>)" if "same_request cur new" "po_phase new \<noteq> Filled" for new
    using that req same_request_trans by (intro desk_inv_setI [OF inv] fill_reported_open) blast+
  show ?thesis
    using inv by (auto simp: status_frame_def Let_def fail_order_def same_request_def intro!: set_open split: option.splits json.splits)
qed

lemma applyFrame_inv:
  assumes inv: "desk_inv frames ord desk"
  shows "desk_inv (frames @ [frame]) ord (applyFrame desk frame)"
proof (cases "whole (jget frame ''mt'') 1")
  case None
  then show ?thesis using desk_inv_mono [OF inv] by (simp add: applyFrame_def)
next
  case (Some kind)
  obtain cur where cur: "pk_order desk = Some cur" using inv by (auto simp: desk_inv_def)
  note inv' = desk_inv_mono [OF inv, of "[frame]"]
  have side: "desk_inv (frames @ [frame]) ord d" if "pk_order d = pk_order desk" "pk_earlyFills d = pk_earlyFills desk" for d
    using inv' that by (simp add: desk_inv_def)
  have rows24: "desk_inv (frames @ [frame]) ord (foldl order_row desk rows)" for rows
    by (rule foldl_inv [where I = "desk_inv (frames @ [frame]) ord"]) (simp_all add: order_row_inv inv')
  have rows25: "desk_inv (frames @ [frame]) ord (foldl (fill_row frame) desk rows)"
    if "kind = 25" "items (jget frame ''d'') = Some rows" for rows
    by (rule foldl_inv [where I = "desk_inv (frames @ [frame]) ord"]) (use Some that inv' fill_row_inv in auto)
  have gate: "desk_inv (frames @ [frame]) ord (status_frame desk cur frame)" if "order_open cur 3"
    using that by (intro status_frame_inv [OF inv' cur]) (simp add: order_open_def)
  show ?thesis
    using Some cur inv' rows24 rows25 gate by (auto simp: applyFrame_def apply_kind_def side split: option.splits)
qed

lemma frames_inv:
  assumes "desk_inv seen ord desk"
  shows "desk_inv (seen @ frames) ord (foldl applyFrame desk frames)"
  using assms
proof (induction frames arbitrary: seen desk)
  case Nil
  then show ?case by simp
next
  case (Cons frame frames)
  show ?case using Cons.IH [OF applyFrame_inv [OF Cons.prems]] by simp
qed

section \<open>Decided orders\<close>

text \<open>What is decided about an order: nothing yet, a failure, a cancellation, or a fill of an order id and a size.\<close>

definition decided_as :: "perpl_order \<Rightarrow> perpl_order \<Rightarrow> bool" where
  "decided_as a b = (same_request a b \<and> (po_phase a = Failed \<or> po_phase a = Closed \<longrightarrow> b = a)
     \<and> (po_phase a = Filled \<longrightarrow> po_phase b = Filled \<and> po_orderId b = po_orderId a
          \<and> (po_fill a \<noteq> None \<longrightarrow> map_option pf_size (po_fill b) = map_option pf_size (po_fill a))
          \<and> (fill_txid a \<noteq> None \<longrightarrow> fill_txid b \<noteq> None)))"

definition keeps_decision :: "perpl_order \<Rightarrow> perpl_desk \<Rightarrow> bool" where
  "keeps_decision a desk = (\<exists>b. pk_order desk = Some b \<and> decided_as a b)"

lemma decided_as_filled:
  assumes "po_phase a = Filled" "decided_as a b" "po_fill b \<noteq> None \<or> po_fill a = None"
    and "same_request b c" "po_phase c = Filled" "po_orderId c = po_orderId b" "map_option pf_size (po_fill c) = map_option pf_size (po_fill b)"
    and "fill_txid b \<noteq> None \<Longrightarrow> fill_txid c \<noteq> None"
  shows "decided_as a c"
  using assms same_request_trans unfolding decided_as_def by auto

lemma keeps_decisionE:
  assumes "keeps_decision a desk" "po_phase a = Filled" "po_fill a \<noteq> None"
  obtains b f where "pk_order desk = Some b" "decided_as a b" "po_phase b = Filled" "po_fill b = Some f"
  using assms by (auto simp: keeps_decision_def decided_as_def)

lemma order_row_keeps:
  assumes k: "keeps_decision a desk" and a: "po_phase a = Filled" "po_fill a \<noteq> None"
  shows "keeps_decision a (order_row desk item)"
proof -
  obtain b f where b: "pk_order desk = Some b" "decided_as a b" "po_phase b = Filled" "po_fill b = Some f"
    using keeps_decisionE [OF assms] by blast
  have stamp: "keeps_decision a (restamp desk b i t n)" for i t n
  proof (cases "i = po_orderId b \<and> t \<noteq> None \<and> t \<noteq> fill_txid b")
    case True
    let ?c = "b\<lparr>po_txid := t, po_block := n, po_fill := map_option (\<lambda>f. f\<lparr>pf_txid := t, pf_block := n\<rparr>) (po_fill b)\<rparr>"
    have "decided_as a ?c"
      by (rule decided_as_filled [OF a(1) b(2)]) (use b True in \<open>simp_all add: same_request_def fill_txid_def\<close>)
    then show ?thesis using True by (simp add: restamp_def keeps_decision_def)
  next
    case False
    then show ?thesis using k by (auto simp: restamp_def)
  qed
  show ?thesis
    by (rule order_row_cases [OF b(1), of item]) (use k stamp b(3) in simp_all)
qed

lemma fill_row_keeps:
  assumes k: "keeps_decision a desk" and a: "po_phase a = Filled" "po_fill a \<noteq> None"
  shows "keeps_decision a (fill_row frame desk row)"
proof -
  obtain b g where b: "pk_order desk = Some b" "decided_as a b" "po_phase b = Filled" "po_fill b = Some g"
    using keeps_decisionE [OF assms] by blast
  have "keeps_decision a (take_fill desk b f)" for f
  proof (cases rule: take_fill_cases [of desk b f])
    case refill
    have "decided_as a (refill b f)"
      by (rule decided_as_filled [OF a(1) b(2)]) (use b refill(2) in \<open>simp_all add: refill_def same_request_def fill_txid_def\<close>)
    then show ?thesis by (simp add: refill(3) keeps_decision_def)
  qed (use k b in simp_all)
  then show ?thesis using k b(1) by (auto simp: fill_row_def split: option.splits)
qed

lemma decided_as_refl: "decided_as a a"
  by (simp add: decided_as_def)

lemma applyFrame_decided:
  assumes "pk_order desk = Some a" "po_phase a = Failed \<or> po_phase a = Closed"
  shows "pk_order (applyFrame desk frame) = Some a"
  using assms by (auto simp: applyFrame_def apply_kind_def order_open_def split: option.splits)

lemma applyFrame_keeps:
  assumes k: "keeps_decision a desk" and a: "po_phase a = Filled" "po_fill a \<noteq> None"
  shows "keeps_decision a (applyFrame desk frame)"
proof -
  obtain b where b: "pk_order desk = Some b" "decided_as a b" "po_phase b = Filled"
    using k a by (auto simp: keeps_decision_def decided_as_def)
  have side: "keeps_decision a d" if "pk_order d = pk_order desk" for d
    using k that by (simp add: keeps_decision_def)
  have rows: "keeps_decision a (foldl order_row desk rows)" "keeps_decision a (foldl (fill_row frame) desk rows)" for rows
    by (rule foldl_inv [where I = "keeps_decision a"]; simp add: k order_row_keeps [OF _ a] fill_row_keeps [OF _ a])+
  have "\<not> order_open b 3" using b(3) by (simp add: order_open_def)
  then show ?thesis
    using b k rows by (auto simp: applyFrame_def apply_kind_def side split: option.splits)
qed

section \<open>Sizes\<close>

lemma size_parts_written:
  assumes "w \<noteq> []" "list_all is_dec w" "list_all is_dec f"
  shows "size_parts (w @ (if f \<noteq> [] then CHR ''.'' # f else [])) = Some (w, f)"
proof -
  have "\<not> is_dec CHR ''.''" by (simp add: is_dec_def code_def)
  then have "takeWhile is_dec (w @ (if f \<noteq> [] then CHR ''.'' # f else [])) = w"
    "dropWhile is_dec (w @ (if f \<noteq> [] then CHR ''.'' # f else [])) = (if f \<noteq> [] then CHR ''.'' # f else [])"
    using assms(2) by (simp_all add: list_all_iff)
  then show ?thesis using assms by (simp add: size_parts_def Let_def)
qed

lemma dec_not_ws: "is_dec c \<Longrightarrow> \<not> is_ws c"
  by (auto simp: is_dec_def is_ws_def code_def)

text \<open>The whole digits and the stripped fraction of a scaled number.\<close>

lemma formatScaled_parts:
  assumes "0 \<le> v" "v \<le> max_safe" "d \<le> 8"
  obtains w f where "formatScaled v (int d) = w @ (if f \<noteq> [] then CHR ''.'' # f else [])" "w \<noteq> []" "list_all is_dec w"
    "list_all is_dec f" "length f \<le> d" "int (str_nat w) * 10 ^ d + int (str_nat (pad_end d f)) = v"
proof -
  define raw where "raw = pad_start (d + 1) (int_str v)"
  define w where "w = take (length raw - d) raw"
  define t where "t = drop (length raw - d) raw"
  define f where "f = strip_zeros t"
  have len: "d + 1 \<le> length raw" by (simp add: raw_def pad_start_def)
  have dec: "list_all is_dec raw" using assms(1) by (simp add: raw_def pad_start_dec nat_str_all_dec int_str_nonneg)
  have wt: "w \<noteq> []" "list_all is_dec w" "list_all is_dec t" "length t = d" "raw = w @ t"
    using len dec by (auto simp: w_def t_def list_all_iff dest: in_set_takeD in_set_dropD)
  have f: "list_all is_dec f" "pad_end d f = t" "length f \<le> d"
    using wt strip_zeros_append [of t] by (auto simp: f_def strip_zeros_dec pad_end_strip_zeros intro!: exI)
      (metis length_append le_add1 wt(4))
  have "int (str_nat raw) = v" using assms(1) by (simp add: raw_def int_str_nonneg)
  then have sum: "int (str_nat w) * 10 ^ d + int (str_nat (pad_end d f)) = v"
    unfolding f(2) wt(5) str_nat_append wt(4) by simp
  have "formatScaled v (int d) = w @ (if f \<noteq> [] then CHR ''.'' # f else [])"
    using assms wt(4) by (auto simp: formatScaled_def Let_def max_safe_def w_def t_def f_def raw_def strip_zeros_def)
  then show thesis using that wt(1,2) f(1,3) sum by blast
qed

section \<open>Properties\<close>

text \<open>An order the desk shows as filled was filled: whatever frames arrive after it was sent, there is
  among them a fill record of the order's own market and account, with the order id the chain gave
  this request and the size that is shown.\<close>

theorem perpl_fill_is_reported:
  assumes "po_phase ord = Sent" and "pk_order (foldl applyFrame (beginOrder desk ord) frames) = Some now" and "po_phase now = Filled"
  shows "same_request ord now \<and> (\<exists>oid f. po_orderId now = Some oid \<and> po_fill now = Some f \<and> reported frames now oid (pf_size f))"
proof -
  have "desk_inv [] ord (beginOrder desk ord)"
    using assms(1) by (simp add: desk_inv_def beginOrder_def fill_reported_def)
  from frames_inv [OF this, of frames] show ?thesis
    using assms(2,3) by (auto simp: desk_inv_def fill_reported_def)
qed

text \<open>An order whose fill record arrives before the row that tells its order id.\<close>

definition demo_order :: perpl_order where
  "demo_order = \<lparr>po_serial = 1, po_requestId = 9, po_marketId = 3, po_accountId = 4, po_action = 1, po_orderId = None,
     po_phase = Sent, po_gateway = None, po_status = None, po_reason = None, po_txid = None, po_block = None, po_fill = None\<rparr>"

definition demo_perpl_frames :: "json list" where
  "demo_perpl_frames = [
     JObj [(''mt'', JInt 25), (''d'', JArr [JObj [(''oid'', JInt 77), (''mkt'', JInt 3), (''acc'', JInt 4), (''s'', JInt 5), (''p'', JInt 100)]])],
     JObj [(''mt'', JInt 24), (''d'', JArr [JObj [(''rq'', JInt 9), (''oid'', JInt 77), (''st'', JInt 4)]])]]"

definition demo_filled :: perpl_order where
  "demo_filled = demo_order\<lparr>po_orderId := Some 77, po_status := Some 4, po_phase := Filled,
     po_fill := Some \<lparr>pf_price = Some 100, pf_size = 5, pf_txid = None, pf_block = None\<rparr>\<rparr>"

lemma demo_fill: "pk_order (foldl applyFrame (beginOrder (emptyDesk 1) demo_order) demo_perpl_frames) = Some demo_filled"
  by code_simp

lemma perpl_fill_is_reported_witness: "reported demo_perpl_frames demo_filled 77 5"
proof -
  have "po_phase demo_order = Sent" "po_phase demo_filled = Filled" by (simp_all add: demo_order_def demo_filled_def)
  from perpl_fill_is_reported [OF this(1) demo_fill this(2)] show ?thesis by (simp add: demo_filled_def)
qed

text \<open>What is decided about an order stays decided: a failed or cancelled order is not touched by any
  later frame, and a filled one keeps its request, its order id, its size and, once it has one, a
  transaction hash.\<close>

theorem perpl_decision_final:
  assumes "pk_order desk = Some ord" and "po_phase ord = Failed \<or> po_phase ord = Closed \<or> po_phase ord = Filled \<and> po_fill ord \<noteq> None"
  shows "\<exists>now. pk_order (foldl applyFrame desk frames) = Some now \<and> decided_as ord now"
proof (cases "po_phase ord = Filled")
  case True
  have "keeps_decision ord (foldl applyFrame desk frames)"
    by (rule foldl_inv) (use assms True applyFrame_keeps in \<open>auto simp: keeps_decision_def decided_as_refl\<close>)
  then show ?thesis by (simp add: keeps_decision_def)
next
  case False
  have "pk_order (foldl applyFrame desk frames) = Some ord"
    by (rule foldl_inv [where I = "\<lambda>d. pk_order d = Some ord"]) (use assms False applyFrame_decided in auto)
  then show ?thesis by (simp add: decided_as_refl)
qed

lemma perpl_decision_final_witness:
  "\<exists>now. pk_order (foldl applyFrame (foldl applyFrame (beginOrder (emptyDesk 1) demo_order) demo_perpl_frames) demo_perpl_frames) = Some now
    \<and> decided_as demo_filled now"
  by (rule perpl_decision_final [OF demo_fill]) (simp add: demo_filled_def)

text \<open>A size the page writes reads back as the same number of units, for every positive safe integer and
  every number of decimals a market may have.\<close>

theorem perpl_size_round_trip:
  assumes "1 \<le> v" and "v \<le> max_safe" and "0 \<le> d" and "d \<le> 8"
  shows "scaleUnits (formatScaled v d) d = ok v"
proof -
  obtain w f where s: "formatScaled v (int (nat d)) = w @ (if f \<noteq> [] then CHR ''.'' # f else [])" "w \<noteq> []" "list_all is_dec w"
    "list_all is_dec f" "length f \<le> nat d" "int (str_nat w) * 10 ^ nat d + int (str_nat (pad_end (nat d) f)) = v"
    using assms by (elim formatScaled_parts [of v "nat d", rotated 3]) auto
  let ?t = "w @ (if f \<noteq> [] then CHR ''.'' # f else [])"
  have "is_dec (hd ?t)" "is_dec (last ?t)" using s(2-4) by (auto simp: list_all_iff)
  then have "js_trim ?t = ?t" using s(2) by (intro js_trim_id) (auto dest: dec_not_ws)
  moreover have "size_parts ?t = Some (w, f)" by (rule size_parts_written [OF s(2-4)])
  moreover have "int (length f) \<le> d" using s(5) assms(3) by simp
  ultimately show ?thesis using s(1,6) assms by (simp add: scaleUnits_def)
qed

lemma perpl_size_round_trip_witness: "scaleUnits (formatScaled 1050 3) 3 = ok 1050"
  by (rule perpl_size_round_trip) (simp_all add: max_safe_def)

end
