(* ===== verification/Loader.thy ===== *)
theory Loader
  imports Texts
begin

text \<open>
  The page loader's state machine (apps/web/src/loading/load-gate.ts). It moves only on events the
  host reports; times are milliseconds. The theorems say that it finishes only when the host was
  ready, and that once shown it stays for the minimum time.
\<close>

datatype loader_phase = Idle | Armed | Entering | Waiting | Resolving | Complete | Exiting | Failed_load

record loader_timing =
  tm_fastWindow :: int
  tm_resolve :: int
  tm_resolveFast :: int
  tm_dot :: int
  tm_settle :: int
  tm_hold :: int
  tm_minVisible :: int
  tm_reducedMinVisible :: int

definition TIMING :: loader_timing where
  "TIMING = \<lparr>tm_fastWindow = 300, tm_resolve = 240, tm_resolveFast = 180, tm_dot = 60, tm_settle = 100, tm_hold = 40,
     tm_minVisible = 400, tm_reducedMinVisible = 200\<rparr>"

record loader_state =
  ld_phase :: loader_phase
  ld_label :: string
  ld_stage :: int
  ld_stages :: int
  ld_error :: "string option"
  ld_slow :: bool
  ld_shownAt :: "int option"
  ld_readyAt :: "int option"
  ld_fast :: bool

datatype loader_event =
    Open string int int
  | Progress string int int
  | Show int
  | Entered
  | Ready int
  | Resolved
  | Held
  | Exited
  | Fail string int
  | Slow
  | Retry
  | Abandon
  | Reset

definition initialLoaderState :: loader_state where
  "initialLoaderState = \<lparr>ld_phase = Idle, ld_label = [], ld_stage = 0, ld_stages = 1, ld_error = None, ld_slow = False,
     ld_shownAt = None, ld_readyAt = None, ld_fast = False\<rparr>"

definition visible :: "loader_phase \<Rightarrow> bool" where
  "visible p = (p = Entering \<or> p = Waiting \<or> p = Resolving \<or> p = Complete \<or> p = Failed_load)"

definition labelled :: "loader_state \<Rightarrow> string \<Rightarrow> int \<Rightarrow> int \<Rightarrow> loader_state" where
  "labelled s label stage stages = s\<lparr>ld_label := label, ld_stage := stage, ld_stages := stages\<rparr>"

definition resolving :: "loader_state \<Rightarrow> int \<Rightarrow> loader_state" where
  "resolving s now = s\<lparr>ld_phase := Resolving, ld_readyAt := Some now, ld_error := None,
     ld_fast := (case ld_shownAt s of None \<Rightarrow> False | Some t \<Rightarrow> now - t < tm_fastWindow TIMING)\<rparr>"

fun reduceLoader :: "loader_state \<Rightarrow> loader_event \<Rightarrow> loader_state" where
  "reduceLoader s (Open label stage stages) =
     (if ld_phase s \<noteq> Idle then labelled s label stage stages
      else (labelled initialLoaderState label stage stages)\<lparr>ld_phase := Armed\<rparr>)"
| "reduceLoader s (Progress label stage stages) =
     (if ld_phase s = Idle \<or> ld_label s = label \<and> ld_stage s = stage \<and> ld_stages s = stages then s
      else labelled s label stage stages)"
| "reduceLoader s (Show now) = (if ld_phase s = Armed then s\<lparr>ld_phase := Entering, ld_shownAt := Some now\<rparr> else s)"
| "reduceLoader s Entered = (if ld_phase s = Entering then s\<lparr>ld_phase := Waiting\<rparr> else s)"
| "reduceLoader s (Ready now) =
     (if ld_phase s = Armed then initialLoaderState
      else if ld_phase s = Entering \<or> ld_phase s = Waiting then resolving s now else s)"
| "reduceLoader s Resolved = (if ld_phase s = Resolving then s\<lparr>ld_phase := Complete\<rparr> else s)"
| "reduceLoader s Held = (if ld_phase s = Complete then s\<lparr>ld_phase := Exiting\<rparr> else s)"
| "reduceLoader s Exited = (if ld_phase s = Exiting then initialLoaderState else s)"
| "reduceLoader s (Fail error now) =
     (if ld_phase s = Idle \<or> ld_phase s = Exiting \<or> ld_phase s = Resolving \<or> ld_phase s = Complete then s
      else s\<lparr>ld_phase := Failed_load, ld_error := Some error, ld_shownAt := or_else (ld_shownAt s) (Some now)\<rparr>)"
| "reduceLoader s Slow = (if ld_phase s = Waiting \<or> ld_phase s = Entering then s\<lparr>ld_slow := True\<rparr> else s)"
| "reduceLoader s Retry = (if ld_phase s = Failed_load then s\<lparr>ld_phase := Waiting, ld_error := None, ld_slow := False\<rparr> else s)"
| "reduceLoader s Abandon =
     (if ld_phase s = Armed then initialLoaderState
      else if visible (ld_phase s) then s\<lparr>ld_phase := Exiting\<rparr> else s)"
| "reduceLoader s Reset = initialLoaderState"

definition shown_at :: "loader_state \<Rightarrow> int \<Rightarrow> int" where
  "shown_at s now = (case ld_shownAt s of None \<Rightarrow> now | Some t \<Rightarrow> t)"

definition holdFor :: "loader_state \<Rightarrow> int \<Rightarrow> bool \<Rightarrow> int" where
  "holdFor s now reduced =
     (let mn = (if reduced then tm_reducedMinVisible TIMING else tm_minVisible TIMING);
          settle = (if reduced then 0 else tm_dot TIMING + tm_settle TIMING + tm_hold TIMING)
      in max settle (mn - (now - shown_at s now)))"

definition resolveDuration :: "loader_state \<Rightarrow> bool \<Rightarrow> int" where
  "resolveDuration s reduced =
     (if reduced then 0 else if ld_fast s then tm_resolveFast TIMING else tm_resolve TIMING)"

section \<open>Lemmas\<close>

text \<open>The states the loader reaches, as a transition relation.\<close>

inductive loader_reach :: "loader_state \<Rightarrow> bool" where
  start: "loader_reach initialLoaderState"
| step: "loader_reach s \<Longrightarrow> loader_reach (reduceLoader s e)"

lemma loader_run_reach: "loader_reach s \<Longrightarrow> loader_reach (foldl reduceLoader s es)"
  by (induction es arbitrary: s) (auto intro: loader_reach.step)

text \<open>A visible loader has the time it was shown; resolving and complete ones the time of the report.\<close>

definition loader_inv :: "loader_state \<Rightarrow> bool" where
  "loader_inv s = ((visible (ld_phase s) \<longrightarrow> ld_shownAt s \<noteq> None)
     \<and> (ld_phase s = Failed_load \<longrightarrow> ld_error s \<noteq> None)
     \<and> (ld_phase s = Idle \<longrightarrow> s = initialLoaderState)
     \<and> (ld_phase s = Resolving \<or> ld_phase s = Complete \<longrightarrow> ld_readyAt s \<noteq> None \<and> ld_error s = None))"

lemma loader_inv_initial [simp]: "loader_inv initialLoaderState"
  by (simp add: loader_inv_def initialLoaderState_def visible_def)

lemma loader_inv_step: "loader_inv s \<Longrightarrow> loader_inv (reduceLoader s e)"
  by (cases e; cases "ld_phase s")
    (simp_all add: loader_inv_def labelled_def resolving_def visible_def or_else_def initialLoaderState_def)

lemma loader_reach_inv: "loader_reach s \<Longrightarrow> loader_inv s"
  by (induction rule: loader_reach.induct) (simp_all add: loader_inv_step)

definition finishing :: "loader_state \<Rightarrow> bool" where
  "finishing s = (ld_phase s = Resolving \<or> ld_phase s = Complete)"

text \<open>A step that starts finishing is a readiness report in a waiting state; others keep the report's time.\<close>

lemma finishing_step:
  assumes "finishing (reduceLoader s e)"
  shows "(\<exists>t. e = Ready t \<and> (ld_phase s = Entering \<or> ld_phase s = Waiting) \<and> ld_readyAt (reduceLoader s e) = Some t)
    \<or> finishing s \<and> ld_readyAt (reduceLoader s e) = ld_readyAt s"
  using assms by (cases e; cases "ld_phase s")
    (simp_all add: finishing_def labelled_def resolving_def visible_def initialLoaderState_def split: if_splits)

section \<open>Properties\<close>

text \<open>The loader finishes only on real readiness: if it is resolving or complete after some events, then
  the host reported readiness while the loader was entering or waiting, the time it holds is that
  report's, and from the report on it was resolving or complete.\<close>

theorem loader_finishes_when_ready:
  assumes "finishing (foldl reduceLoader initialLoaderState es)"
  shows "\<exists>before t rest. es = before @ Ready t # rest
    \<and> ld_phase (foldl reduceLoader initialLoaderState before) \<in> {Entering, Waiting}
    \<and> ld_readyAt (foldl reduceLoader initialLoaderState es) = Some t
    \<and> (\<forall>k. finishing (foldl reduceLoader initialLoaderState (before @ Ready t # take k rest)))"
  using assms
proof (induction es rule: rev_induct)
  case Nil
  then show ?case by (simp add: finishing_def initialLoaderState_def)
next
  case (snoc e es)
  let ?s = "foldl reduceLoader initialLoaderState es"
  from finishing_step [of ?s e] snoc.prems
  consider (now) t where "e = Ready t" "ld_phase ?s = Entering \<or> ld_phase ?s = Waiting" "ld_readyAt (reduceLoader ?s e) = Some t"
    | (earlier) "finishing ?s" "ld_readyAt (reduceLoader ?s e) = ld_readyAt ?s" by auto
  then show ?case
  proof cases
    case now
    then show ?thesis using snoc.prems by (intro exI [of _ es] exI [of _ t] exI [of _ "[]"]) simp
  next
    case earlier
    obtain before t rest where b: "es = before @ Ready t # rest"
      "ld_phase (foldl reduceLoader initialLoaderState before) \<in> {Entering, Waiting}"
      "ld_readyAt ?s = Some t" "\<And>k. finishing (foldl reduceLoader initialLoaderState (before @ Ready t # take k rest))"
      using snoc.IH [OF earlier(1)] by blast
    have "finishing (foldl reduceLoader initialLoaderState (before @ Ready t # take k (rest @ [e])))" for k
      using b(4) [of k] snoc.prems b(1) by (cases "k \<le> length rest") (simp_all add: not_le)
    then show ?thesis using b earlier(2) by (intro exI [of _ before] exI [of _ t] exI [of _ "rest @ [e]"]) simp
  qed
qed

lemma loader_finishes_when_ready_witness:
  "finishing (foldl reduceLoader initialLoaderState [Open ''Load'' 0 1, Show 5, Ready 9, Resolved])
   \<and> (\<exists>before t rest. [Open ''Load'' 0 1, Show 5, Ready 9, Resolved] = before @ Ready t # rest)"
proof -
  have f: "finishing (foldl reduceLoader initialLoaderState [Open ''Load'' 0 1, Show 5, Ready 9, Resolved])" by code_simp
  from loader_finishes_when_ready [OF this] f show ?thesis by blast
qed

text \<open>In every state the loader reaches, being visible means having been shown, failing means having an
  error, and idle means nothing is left of the last load; and a loader held for the time computed has
  been visible for at least the minimum.\<close>

theorem loader_reachable_states:
  assumes "loader_reach s"
  shows "(visible (ld_phase s) \<longrightarrow> (\<exists>t. ld_shownAt s = Some t
      \<and> now + holdFor s now reduced \<ge> t + (if reduced then tm_reducedMinVisible TIMING else tm_minVisible TIMING)))
    \<and> (ld_phase s = Failed_load \<longrightarrow> ld_error s \<noteq> None) \<and> (ld_phase s = Idle \<longrightarrow> s = initialLoaderState)
    \<and> (finishing s \<longrightarrow> ld_readyAt s \<noteq> None \<and> ld_error s = None)"
  using loader_reach_inv [OF assms] by (auto simp: loader_inv_def finishing_def holdFor_def Let_def shown_at_def)

lemma loader_reachable_states_witness:
  "ld_error (foldl reduceLoader initialLoaderState [Open ''Load'' 0 1, Fail ''offline'' 7]) \<noteq> None"
proof -
  have p: "ld_phase (foldl reduceLoader initialLoaderState [Open ''Load'' 0 1, Fail ''offline'' 7]) = Failed_load" by code_simp
  show ?thesis
    using loader_reachable_states [OF loader_run_reach [OF loader_reach.start, of "[Open ''Load'' 0 1, Fail ''offline'' 7]"]] p by blast
qed

end
