(* ===== verification/Settlement_Calendar.thy ===== *)
theory Settlement_Calendar
  imports Texts Dates
begin

text \<open>
  When settlement work is due and who wakes up for it: the schedule of resolver actions
  (apps/web/shared/settlement-calendar.mjs), the planner of the resolution worker
  (nextResolutionAction in server/resolution-worker.mjs) and the alarm's decision
  (alarmDecision and alarmHealth in server/settlement-alarm.mjs). Times are seconds; the decimal
  strings of the chain state are read as integers.
\<close>

section \<open>Resolver state and the calendar\<close>

record resolver_case =
  kc_phase :: int
  kc_proposal :: int
  kc_asserter :: string
  kc_evidenceHash :: string
  kc_challengeUntil :: int
  kc_voteUntil :: int
  kc_assertionDeadline :: int

record resolver_state =
  rv_pool :: string
  rv_mode :: string
  rv_ends :: "int list"
  rv_cases :: "resolver_case list"
  rv_delivered :: bool
  rv_blockNumber :: string
  rv_timestamp :: int
  rv_poolCash :: int
  rv_required :: int

datatype resolver_action = Deliver | Finalize | Evidence

record calendar_entry =
  ce_action :: resolver_action
  ce_event :: "nat option"
  ce_readyAt :: int
  ce_deadline :: "int option"

datatype watch_reason = Own_assertion | Foreign_assertion | Dispute | Assertion_timeout | Assertion_window | Delivery_pending

record watch_item =
  wi_event :: "nat option"
  wi_reason :: watch_reason
  wi_until :: "int option"

record settlement_calendar =
  sc_pool :: string
  sc_timestamp :: int
  sc_complete :: bool
  sc_entries :: "calendar_entry list"
  sc_watch :: "watch_item list"

definition time :: "int \<Rightarrow> int res" where
  "time v = (if is_safe_int (JInt v) \<and> 0 \<le> v then ok v else plain_error)"

text \<open>What the worker's journal says it proposed: the evidence hash and the outcome, per event.\<close>

type_synonym owned = "nat \<Rightarrow> (string \<times> int) option"

definition same_account :: "string \<Rightarrow> string \<Rightarrow> bool" where
  "same_account owner a = (owner \<noteq> [] \<and> lower a = lower owner)"

definition is_owned :: "owned \<Rightarrow> nat \<Rightarrow> resolver_case \<Rightarrow> bool" where
  "is_owned owned event c = (owned event = Some (kc_evidenceHash c, kc_proposal c))"

definition watch_case :: "int \<Rightarrow> string \<Rightarrow> nat \<times> resolver_case \<times> int \<Rightarrow> watch_item list res" where
  "watch_case now owner = (\<lambda>(event, c, ends).
     if kc_phase c = 1 then bindE (time (kc_challengeUntil c)) (\<lambda>u.
       ok [\<lparr>wi_event = Some event, wi_reason = (if same_account owner (kc_asserter c) then Own_assertion else Foreign_assertion),
         wi_until = Some u\<rparr>])
     else if kc_phase c = 2 then bindE (time (kc_voteUntil c)) (\<lambda>u.
       ok [\<lparr>wi_event = Some event, wi_reason = Dispute, wi_until = Some u\<rparr>])
     else if kc_phase c = 0 then bindE (time ends) (\<lambda>e.
       if now < e then ok []
       else bindE (time (kc_assertionDeadline c)) (\<lambda>d.
         ok [\<lparr>wi_event = Some event, wi_reason = (if now \<ge> d then Assertion_timeout else Assertion_window), wi_until = Some d\<rparr>]))
     else ok [])"

definition entry :: "resolver_action \<Rightarrow> nat option \<Rightarrow> int \<Rightarrow> int option \<Rightarrow> calendar_entry" where
  "entry a e t d = \<lparr>ce_action = a, ce_event = e, ce_readyAt = t, ce_deadline = d\<rparr>"

text \<open>The published rehearsal keeps its dispute and no-assertion exercises, events 1 and 2, free of proposals.\<close>

definition proposes :: "string \<Rightarrow> nat \<Rightarrow> bool" where
  "proposes mode event = (\<not> (mode = ''rehearsal'' \<and> event \<noteq> 0 \<and> event \<noteq> 3))"

definition entries_case :: "string \<Rightarrow> string \<Rightarrow> owned option \<Rightarrow> bool \<Rightarrow> nat \<times> resolver_case \<times> int \<Rightarrow> calendar_entry list res" where
  "entries_case mode owner owned evidence = (\<lambda>(event, c, ends).
     if kc_phase c = 0 then bindE (time (kc_assertionDeadline c)) (\<lambda>d.
       bindE (if evidence \<and> proposes mode event then bindE (time ends) (\<lambda>e. ok [entry Evidence (Some event) e (Some d)]) else ok [])
         (\<lambda>es. ok (es @ [entry Finalize (Some event) d None])))
     else if kc_phase c = 1 then
       (if same_account owner (kc_asserter c) \<and> (case owned of None \<Rightarrow> True | Some ow \<Rightarrow> is_owned ow event c)
        then bindE (time (kc_challengeUntil c)) (\<lambda>u. ok [entry Finalize (Some event) u None]) else ok [])
     else if kc_phase c = 2 then bindE (time (kc_voteUntil c)) (\<lambda>u. ok [entry Finalize (Some event) u None])
     else ok [])"

definition events_of :: "resolver_state \<Rightarrow> (nat \<times> resolver_case \<times> int) list" where
  "events_of st = enumerate 0 (zip (rv_cases st) (rv_ends st))"

definition all_final :: "resolver_state \<Rightarrow> bool" where
  "all_final st = list_all (\<lambda>c. kc_phase c = 3) (rv_cases st)"

definition settlementCalendar :: "resolver_state \<Rightarrow> string \<Rightarrow> owned option \<Rightarrow> bool \<Rightarrow> settlement_calendar res" where
  "settlementCalendar st owner owned evidence =
     (if length (rv_cases st) \<noteq> length (rv_ends st) then plain_error
      else bindE (time (rv_timestamp st)) (\<lambda>now.
        if rv_delivered st then ok \<lparr>sc_pool = rv_pool st, sc_timestamp = now, sc_complete = True, sc_entries = [], sc_watch = []\<rparr>
        else bindE (mapE (watch_case now owner) (events_of st)) (\<lambda>ws.
          bindE (mapE (entries_case (rv_mode st) owner owned evidence) (events_of st)) (\<lambda>es.
            ok \<lparr>sc_pool = rv_pool st, sc_timestamp = now, sc_complete = False,
              sc_entries = (if all_final st then [entry Deliver None 0 None] else []) @ concat es,
              sc_watch = concat ws @ (if all_final st then [\<lparr>wi_event = None, wi_reason = Delivery_pending, wi_until = None\<rparr>] else [])\<rparr>))))"

definition is_due :: "int \<Rightarrow> calendar_entry \<Rightarrow> bool" where
  "is_due now e = (ce_readyAt e \<le> now \<and> (case ce_deadline e of None \<Rightarrow> True | Some d \<Rightarrow> now < d))"

definition dueEntries :: "settlement_calendar \<Rightarrow> int \<Rightarrow> calendar_entry list" where
  "dueEntries cal now = filter (is_due now) (sc_entries cal)"

definition min_of :: "int list \<Rightarrow> int option" where
  "min_of xs = (if xs = [] then None else Some (fold min xs (hd xs)))"

definition max_of :: "int list \<Rightarrow> int option" where
  "max_of xs = (if xs = [] then None else Some (fold max xs (hd xs)))"

definition nextWake :: "settlement_calendar list \<Rightarrow> int \<Rightarrow> int option" where
  "nextWake cals now = min_of (filter (\<lambda>t. now < t) (concat (map (\<lambda>c. map ce_readyAt (sc_entries c)) cals)))"

definition priority :: "calendar_entry \<Rightarrow> int \<times> int" where
  "priority e = (case ce_deadline e of None \<Rightarrow> max_safe | Some d \<Rightarrow> d, ce_readyAt e)"

section \<open>The worker's planner\<close>

datatype plan = Complete_plan | Transact resolver_action "nat option" | Gather nat | Wait_plan

definition finishes :: "int \<Rightarrow> string \<Rightarrow> owned \<Rightarrow> nat \<Rightarrow> resolver_case \<Rightarrow> bool" where
  "finishes now owner owned event c =
     (kc_phase c = 0 \<and> now \<ge> kc_assertionDeadline c \<or> kc_phase c = 2 \<and> now \<ge> kc_voteUntil c
      \<or> kc_phase c = 1 \<and> now \<ge> kc_challengeUntil c \<and> lower (kc_asserter c) = lower owner \<and> is_owned owned event c)"

definition is_deferred :: "(nat \<Rightarrow> int option) \<Rightarrow> nat \<Rightarrow> int \<Rightarrow> bool" where
  "is_deferred deferred event now = (case deferred event of None \<Rightarrow> False | Some t \<Rightarrow> t > now)"

fun plan_from :: "int \<Rightarrow> string \<Rightarrow> string \<Rightarrow> owned \<Rightarrow> (nat \<Rightarrow> int option) \<Rightarrow> bool \<Rightarrow> (nat \<times> resolver_case \<times> int) list \<Rightarrow> plan" where
  "plan_from now mode owner owned deferred evidence [] = Wait_plan"
| "plan_from now mode owner owned deferred evidence ((event, c, ends) # rest) =
     (if kc_phase c = 3 then plan_from now mode owner owned deferred evidence rest
      else if finishes now owner owned event c then Transact Finalize (Some event)
      else if evidence \<and> kc_phase c = 0 \<and> now \<ge> ends \<and> \<not> is_deferred deferred event now \<and> proposes mode event then Gather event
      else plan_from now mode owner owned deferred evidence rest)"

definition nextResolutionAction :: "resolver_state \<Rightarrow> string \<Rightarrow> owned \<Rightarrow> (nat \<Rightarrow> int option) \<Rightarrow> bool \<Rightarrow> plan res" where
  "nextResolutionAction st owner owned deferred evidence =
     (if rv_delivered st then ok Complete_plan
      else if rv_poolCash st < rv_required st then plain_error
      else if all_final st then ok (Transact Deliver None)
      else ok (plan_from (rv_timestamp st) (rv_mode st) owner owned deferred evidence (events_of st)))"

section \<open>The alarm\<close>

record alarm_config =
  ac_minRedispatch :: int
  ac_recovery :: int
  ac_maxSkew :: int
  ac_stuckRun :: int
  ac_monitorInterval :: int
  ac_monitorAlert :: int
  ac_preflightInterval :: int
  ac_monitorWorkflow :: string
  ac_workerWorkflow :: string

text \<open>A workflow run; its times are ISO texts of the form GitHub writes.\<close>

record workflow_run =
  wr_workflow :: string
  wr_status :: string
  wr_conclusion :: "string option"
  wr_created :: string
  wr_updated :: string

definition ACTIVE :: "string list" where
  "ACTIVE = [''queued'', ''in_progress'', ''waiting'', ''requested'', ''pending'']"

definition iso_seconds :: "string \<Rightarrow> int option" where
  "iso_seconds s = (if is_iso s then map_option (\<lambda>ms. ms div 1000) (date_parse s) else None)"

definition is_active :: "workflow_run \<Rightarrow> bool" where
  "is_active r = List.member ACTIVE (wr_status r)"

text \<open>A comparison with a time that is not a number is false.\<close>

definition older_than :: "int \<Rightarrow> int \<Rightarrow> int option \<Rightarrow> bool" where
  "older_than now age t = (case t of None \<Rightarrow> False | Some s \<Rightarrow> now - s > age)"

datatype alarm_reason =
    Run_history_unavailable | Stuck_run | In_flight | Recovery | Stale_calendar | Calendar_unavailable
  | Due_work | Monitor_refresh | Backing_off | Recently_dispatched | Monitor_retry_wait | Idle_alarm

record alarm_decision =
  ad_dispatch :: bool
  ad_reason :: alarm_reason
  ad_failed :: "string list"
  ad_workerStuck :: bool
  ad_lastSuccess :: "int option"
  ad_due :: "(string \<times> calendar_entry) list"
  ad_attempts :: "nat option"
  ad_watching :: "string list"
  ad_monitorOverdue :: bool
  ad_nextWake :: "int option"

definition monitor_runs :: "alarm_config \<Rightarrow> workflow_run list \<Rightarrow> workflow_run list" where
  "monitor_runs cfg runs = filter (\<lambda>r. wr_workflow r = ac_monitorWorkflow cfg) runs"

definition last_success :: "alarm_config \<Rightarrow> workflow_run list \<Rightarrow> int option" where
  "last_success cfg runs = max_of (List.map_filter (\<lambda>r. iso_seconds (wr_updated r))
     (filter (\<lambda>r. wr_conclusion r = Some ''success'') (monitor_runs cfg runs)))"

definition run_starts :: "alarm_config \<Rightarrow> workflow_run list \<Rightarrow> int list" where
  "run_starts cfg runs = List.map_filter (\<lambda>r. iso_seconds (wr_created r)) (monitor_runs cfg runs)"

text \<open>\<open>sinceLastRun >= d\<close>, where no run at all is infinitely long ago.\<close>

definition since_at_least :: "int \<Rightarrow> int option \<Rightarrow> int \<Rightarrow> bool" where
  "since_at_least now lastRun d = (case lastRun of None \<Rightarrow> True | Some t \<Rightarrow> now - t \<ge> d)"

definition oldest_start :: "workflow_run list \<Rightarrow> int option" where
  "oldest_start rs = (if list_ex (\<lambda>r. iso_seconds (wr_created r) = None) rs then None
     else min_of (List.map_filter (\<lambda>r. iso_seconds (wr_created r)) rs))"

definition age_at_least :: "int \<Rightarrow> int option \<Rightarrow> int \<Rightarrow> bool" where
  "age_at_least now t d = (case t of None \<Rightarrow> True | Some s \<Rightarrow> now - s \<ge> d)"

definition due_of :: "settlement_calendar list \<Rightarrow> int \<Rightarrow> (string \<times> calendar_entry) list" where
  "due_of cals now = concat (map (\<lambda>c. map (\<lambda>e. (sc_pool c, e)) (dueEntries c now)) cals)"

definition decide_due :: "alarm_config \<Rightarrow> int \<Rightarrow> int list \<Rightarrow> bool \<Rightarrow> alarm_decision \<Rightarrow> alarm_decision" where
  "decide_due cfg now starts monitorStale d =
     (let lastRun = max_of starts;
          newest = the (max_of (map (\<lambda>(_, e). ce_readyAt e) (ad_due d)));
          attempts = length (filter (\<lambda>t. newest \<le> t) starts);
          interval = (if attempts \<ge> 3 then ac_recovery cfg else ac_minRedispatch cfg) in
      if \<not> ((case lastRun of None \<Rightarrow> False | Some t \<Rightarrow> newest \<le> t) \<and> \<not> since_at_least now lastRun interval)
      then d\<lparr>ad_dispatch := True, ad_reason := Due_work\<rparr>
      else if monitorStale \<and> since_at_least now lastRun (ac_minRedispatch cfg)
      then d\<lparr>ad_dispatch := True, ad_reason := Monitor_refresh, ad_attempts := Some attempts\<rparr>
      else d\<lparr>ad_reason := (if attempts \<ge> 3 then Backing_off else Recently_dispatched), ad_attempts := Some attempts\<rparr>)"

text \<open>Without a calendar to trust, the alarm wakes the monitor at a slow cadence.\<close>

definition recover :: "alarm_config \<Rightarrow> int \<Rightarrow> int option \<Rightarrow> alarm_reason \<Rightarrow> alarm_decision \<Rightarrow> alarm_decision" where
  "recover cfg now lastRun why d =
     (if since_at_least now lastRun (ac_recovery cfg) then d\<lparr>ad_dispatch := True, ad_reason := Recovery\<rparr>
      else d\<lparr>ad_reason := why\<rparr>)"

definition refresh :: "alarm_config \<Rightarrow> int \<Rightarrow> int option \<Rightarrow> bool \<Rightarrow> alarm_decision \<Rightarrow> alarm_decision" where
  "refresh cfg now lastRun monitorStale d =
     (if monitorStale then
        (if since_at_least now lastRun (ac_minRedispatch cfg) then d\<lparr>ad_dispatch := True, ad_reason := Monitor_refresh\<rparr>
         else d\<lparr>ad_reason := Monitor_retry_wait\<rparr>)
      else d\<lparr>ad_reason := Idle_alarm\<rparr>)"

definition decide_calendars :: "alarm_config \<Rightarrow> int \<Rightarrow> int list \<Rightarrow> settlement_calendar list \<Rightarrow> alarm_decision \<Rightarrow> alarm_decision" where
  "decide_calendars cfg now starts cals context =
     (if list_ex (\<lambda>c. \<bar>now - sc_timestamp c\<bar> > ac_maxSkew cfg) cals then recover cfg now (max_of starts) Stale_calendar context
      else let watching = map sc_pool (filter (\<lambda>c. sc_watch c \<noteq> []) cals) @ ad_failed context;
               monitorStale = (watching \<noteq> [] \<and> age_at_least now (ad_lastSuccess context) (ac_monitorInterval cfg));
               common = context\<lparr>ad_watching := watching,
                 ad_monitorOverdue := (watching \<noteq> [] \<and> age_at_least now (ad_lastSuccess context) (ac_monitorAlert cfg)),
                 ad_nextWake := nextWake cals now\<rparr> in
         if due_of cals now \<noteq> [] then decide_due cfg now starts monitorStale (common\<lparr>ad_due := due_of cals now\<rparr>)
         else refresh cfg now (max_of starts) monitorStale common)"

definition no_decision :: alarm_decision where
  "no_decision = \<lparr>ad_dispatch = False, ad_reason = Run_history_unavailable, ad_failed = [], ad_workerStuck = False,
     ad_lastSuccess = None, ad_due = [], ad_attempts = None, ad_watching = [], ad_monitorOverdue = False, ad_nextWake = None\<rparr>"

definition worker_stuck :: "alarm_config \<Rightarrow> int \<Rightarrow> workflow_run list \<Rightarrow> bool" where
  "worker_stuck cfg now rs = list_ex (\<lambda>r. wr_workflow r = ac_workerWorkflow cfg \<and> is_active r
     \<and> older_than now (ac_stuckRun cfg) (iso_seconds (wr_created r))) rs"

definition alarmDecision :: "alarm_config \<Rightarrow> int \<Rightarrow> settlement_calendar list option \<Rightarrow> string list \<Rightarrow> bool
    \<Rightarrow> workflow_run list option \<Rightarrow> alarm_decision" where
  "alarmDecision cfg now calendars failed calendarError runs = (case runs of
     None \<Rightarrow> no_decision
   | Some rs \<Rightarrow>
       (let context = no_decision\<lparr>ad_failed := failed, ad_workerStuck := worker_stuck cfg now rs, ad_lastSuccess := last_success cfg rs\<rparr>;
            active = filter is_active (monitor_runs cfg rs); starts = run_starts cfg rs in
        if active \<noteq> [] then
          context\<lparr>ad_reason := (if older_than now (ac_stuckRun cfg) (oldest_start active) then Stuck_run else In_flight)\<rparr>
        else (case (if calendarError then None else calendars) of
          None \<Rightarrow> recover cfg now (max_of starts) Calendar_unavailable context
        | Some cals \<Rightarrow> decide_calendars cfg now starts cals context)))"

datatype alarm_action = Alarm_failed | Dispatch_failed bool | Decided

datatype preflight = Preflight_clear | Holds_position | Guard_missing | Guard_unavailable

datatype alarm_health = Health_ok | Degraded | Health_fail

definition DEGRADED :: "alarm_reason list" where
  "DEGRADED = [Run_history_unavailable, Calendar_unavailable, Stale_calendar, Recovery, Stuck_run, Backing_off]"

definition alarmHealth :: "alarm_action \<Rightarrow> alarm_decision \<Rightarrow> preflight option \<Rightarrow> bool \<Rightarrow> alarm_health" where
  "alarmHealth act d check dispatchEnabled =
     (case act of
        Alarm_failed \<Rightarrow> Health_fail
      | Dispatch_failed retryable \<Rightarrow> (if retryable then Degraded else Health_fail)
      | Decided \<Rightarrow>
          (if List.member DEGRADED (ad_reason d) then Degraded
           else if check = Some Holds_position then Health_fail
           else if check \<noteq> None \<and> check \<noteq> Some Preflight_clear then Degraded
           else if ad_failed d \<noteq> [] \<or> ad_workerStuck d then Degraded
           else if dispatchEnabled \<and> ad_monitorOverdue d then Degraded
           else Health_ok))"

end
