(* ===== verification/Calendar_Laws.thy ===== *)
theory Calendar_Laws
  imports Settlement_Calendar
begin

text \<open>
  The calendar mirrors the planner: what the planner would do is due in the calendar, and when it
  waits, nothing but deferred proposals is due. The alarm wakes the worker for due work, never
  while a monitor run is active, and not more often than its configuration says.
\<close>

section \<open>The calendar and the planner\<close>

lemma mapE_mem: "mapE f xs = ok ys \<Longrightarrow> x \<in> set xs \<Longrightarrow> \<exists>y\<in>set ys. f x = ok y"
  by (induction xs arbitrary: ys) auto

lemma mapE_memD: "mapE f xs = ok ys \<Longrightarrow> y \<in> set ys \<Longrightarrow> \<exists>x\<in>set xs. f x = ok y"
  by (induction xs arbitrary: ys) auto

lemma time_ok [simp]: "time v = ok t \<longleftrightarrow> t = v \<and> is_safe_int (JInt v) \<and> 0 \<le> v"
  by (auto simp: time_def)

text \<open>What one case puts on the calendar, once its times are readable.\<close>

definition case_entries :: "string \<Rightarrow> string \<Rightarrow> owned option \<Rightarrow> bool \<Rightarrow> nat \<Rightarrow> resolver_case \<Rightarrow> int \<Rightarrow> calendar_entry list" where
  "case_entries mode owner owned evidence event c ends =
     (if kc_phase c = 0 then (if evidence \<and> proposes mode event then [entry Evidence (Some event) ends (Some (kc_assertionDeadline c))] else [])
        @ [entry Finalize (Some event) (kc_assertionDeadline c) None]
      else if kc_phase c = 1 then
        (if same_account owner (kc_asserter c) \<and> (case owned of None \<Rightarrow> True | Some ow \<Rightarrow> is_owned ow event c)
         then [entry Finalize (Some event) (kc_challengeUntil c) None] else [])
      else if kc_phase c = 2 then [entry Finalize (Some event) (kc_voteUntil c) None]
      else [])"

lemma entries_case_ok: "entries_case mode owner owned evidence (event, c, ends) = ok es \<Longrightarrow> es = case_entries mode owner owned evidence event c ends"
  by (auto simp: entries_case_def case_entries_def split: if_splits)

lemma settlementCalendar_ok:
  assumes "settlementCalendar st owner owned evidence = ok cal"
  shows "sc_timestamp cal = rv_timestamp st \<and> 0 \<le> rv_timestamp st \<and> sc_complete cal = rv_delivered st
    \<and> (rv_delivered st \<longrightarrow> sc_entries cal = [])
    \<and> (\<not> rv_delivered st \<longrightarrow> set (sc_entries cal) = (if all_final st then {entry Deliver None 0 None} else {})
        \<union> (\<Union>(event, c, ends)\<in>set (events_of st). set (case_entries (rv_mode st) owner owned evidence event c ends)))
    \<and> length (rv_cases st) = length (rv_ends st)"
proof (cases "rv_delivered st")
  case True
  then show ?thesis using assms by (auto simp: settlementCalendar_def split: if_splits)
next
  case False
  obtain es where es: "mapE (entries_case (rv_mode st) owner owned evidence) (events_of st) = ok es"
    and cal: "sc_entries cal = (if all_final st then [entry Deliver None 0 None] else []) @ concat es"
      "sc_timestamp cal = rv_timestamp st" "0 \<le> rv_timestamp st" "\<not> sc_complete cal" "length (rv_cases st) = length (rv_ends st)"
    using assms False by (auto simp: settlementCalendar_def split: if_splits)
  have "set (concat es) = (\<Union>(event, c, ends)\<in>set (events_of st). set (case_entries (rv_mode st) owner owned evidence event c ends))"
  proof (intro equalityI subsetI)
    fix x assume "x \<in> set (concat es)"
    then obtain l where l: "l \<in> set es" "x \<in> set l" by auto
    obtain e where e: "e \<in> set (events_of st)" "entries_case (rv_mode st) owner owned evidence e = ok l"
      using mapE_memD [OF es l(1)] by blast
    then show "x \<in> (\<Union>(event, c, ends)\<in>set (events_of st). set (case_entries (rv_mode st) owner owned evidence event c ends))"
      using l(2) by (cases e) (auto dest!: entries_case_ok)
  next
    fix x assume "x \<in> (\<Union>(event, c, ends)\<in>set (events_of st). set (case_entries (rv_mode st) owner owned evidence event c ends))"
    then obtain event c ends where e: "(event, c, ends) \<in> set (events_of st)" "x \<in> set (case_entries (rv_mode st) owner owned evidence event c ends)"
      by auto
    obtain l where l: "entries_case (rv_mode st) owner owned evidence (event, c, ends) = ok l" "l \<in> set es"
      using mapE_mem [OF es e(1)] by blast
    then have "x \<in> set l" using e(2) entries_case_ok [OF l(1)] by simp
    then show "x \<in> set (concat es)" using l(2) by auto
  qed
  then show ?thesis using cal False by simp
qed

text \<open>The planner's loop: its answer comes from one case, and waiting means no case had one.\<close>

definition gathers :: "int \<Rightarrow> string \<Rightarrow> (nat \<Rightarrow> int option) \<Rightarrow> bool \<Rightarrow> nat \<Rightarrow> resolver_case \<Rightarrow> int \<Rightarrow> bool" where
  "gathers now mode deferred evidence event c ends =
     (evidence \<and> kc_phase c = 0 \<and> now \<ge> ends \<and> \<not> is_deferred deferred event now \<and> proposes mode event)"

lemma plan_from_cases:
  "case plan_from now mode owner owned deferred evidence es of
     Complete_plan \<Rightarrow> False
   | Transact a e \<Rightarrow> a = Finalize \<and> (\<exists>event c ends. e = Some event \<and> (event, c, ends) \<in> set es \<and> finishes now owner owned event c)
   | Gather event \<Rightarrow> \<exists>c ends. (event, c, ends) \<in> set es \<and> gathers now mode deferred evidence event c ends \<and> \<not> finishes now owner owned event c
   | Wait_plan \<Rightarrow> \<forall>(event, c, ends)\<in>set es. kc_phase c \<noteq> 3 \<longrightarrow> \<not> finishes now owner owned event c \<and> \<not> gathers now mode deferred evidence event c ends"
proof (induction es)
  case Nil
  then show ?case by simp
next
  case (Cons x es)
  obtain event c ends where x: "x = (event, c, ends)" by (cases x)
  show ?case
    using Cons.IH by (auto simp: x gathers_def split: plan.splits)
qed

lemma finish_entry:
  assumes "owner \<noteq> []" "finishes now owner owned event c"
  shows "\<exists>en\<in>set (case_entries mode owner (Some owned) evidence event c ends).
    ce_action en = Finalize \<and> ce_event en = Some event \<and> is_due now en"
proof -
  consider "kc_phase c = 0" "now \<ge> kc_assertionDeadline c" | "kc_phase c = 2" "now \<ge> kc_voteUntil c"
    | "kc_phase c = 1" "now \<ge> kc_challengeUntil c" "lower (kc_asserter c) = lower owner" "is_owned owned event c"
    using assms(2) by (auto simp: finishes_def)
  then show ?thesis
    using assms(1) by cases (auto simp: case_entries_def entry_def is_due_def same_account_def)
qed

lemma gather_entry:
  assumes "gathers now mode deferred evidence event c ends" "\<not> finishes now owner owned event c"
  shows "\<exists>en\<in>set (case_entries mode owner (Some owned) evidence event c ends).
    ce_action en = Evidence \<and> ce_event en = Some event \<and> is_due now en"
  using assms by (auto simp: gathers_def finishes_def case_entries_def entry_def is_due_def)

lemma waiting_entry:
  assumes "en \<in> set (case_entries mode owner (Some owned) evidence event c ends)" "is_due now en"
    and "kc_phase c \<noteq> 3 \<longrightarrow> \<not> finishes now owner owned event c \<and> \<not> gathers now mode deferred evidence event c ends"
  shows "ce_action en = Evidence \<and> ce_event en = Some event \<and> is_deferred deferred event now"
proof -
  consider "kc_phase c = 0" | "kc_phase c = 1" | "kc_phase c = 2" | "kc_phase c \<notin> {0, 1, 2}" by auto
  then show ?thesis
    using assms by cases (auto simp: case_entries_def entry_def is_due_def finishes_def gathers_def same_account_def split: if_splits)
qed

section \<open>The alarm\<close>

definition valid_alarm :: "alarm_config \<Rightarrow> bool" where
  "valid_alarm cfg = (0 < ac_minRedispatch cfg \<and> ac_minRedispatch cfg \<le> ac_recovery cfg)"

lemma since_weaken: "d' \<le> d \<Longrightarrow> since_at_least now t d \<Longrightarrow> since_at_least now t d'"
  by (auto simp: since_at_least_def split: option.splits)

lemma fold_max_ge: "y \<in> insert x (set xs) \<Longrightarrow> y \<le> fold max xs (x :: int)"
  by (induction xs arbitrary: x y) (auto intro: order_trans [OF max.cobounded2] order_trans [OF max.cobounded1])

lemma fold_max_in: "fold max xs (x :: int) \<in> insert x (set xs)"
  by (induction xs arbitrary: x) (auto simp: max_def)

lemma max_of_in: "xs \<noteq> [] \<Longrightarrow> \<exists>m\<in>set xs. max_of xs = Some m"
  using fold_max_in [of xs "hd xs"] by (auto simp: max_of_def insert_absorb)

lemma recover_dispatch: "ad_dispatch (recover cfg now lastRun why d) \<longleftrightarrow> since_at_least now lastRun (ac_recovery cfg) \<or> ad_dispatch d"
  by (simp add: recover_def)

lemma refresh_dispatch:
  "ad_dispatch (refresh cfg now lastRun stale d) \<longleftrightarrow> stale \<and> since_at_least now lastRun (ac_minRedispatch cfg) \<or> ad_dispatch d"
  by (simp add: refresh_def)

lemma decide_due_dispatch:
  assumes "valid_alarm cfg" "ad_dispatch (decide_due cfg now starts stale d)" "\<not> ad_dispatch d"
  shows "since_at_least now (max_of starts) (ac_minRedispatch cfg)
    \<or> (\<exists>t. max_of starts = Some t \<and> t < the (max_of (map (\<lambda>(_, e). ce_readyAt e) (ad_due d))))"
proof (cases "max_of starts")
  case None
  then show ?thesis by (simp add: since_at_least_def)
next
  case (Some t)
  then show ?thesis
    using assms since_weaken [of "ac_minRedispatch cfg" "ac_recovery cfg" now "Some t"]
    by (auto simp: decide_due_def Let_def valid_alarm_def not_le split: if_splits)
qed

lemma decide_due_recovers:
  assumes "valid_alarm cfg" "since_at_least now (max_of starts) (ac_recovery cfg)"
  shows "ad_dispatch (decide_due cfg now starts stale d)"
  using assms since_weaken [of "ac_minRedispatch cfg" "ac_recovery cfg" now "max_of starts"]
  by (simp add: decide_due_def Let_def valid_alarm_def)

lemma decide_calendars_due:
  assumes "\<not> list_ex (\<lambda>c. \<bar>now - sc_timestamp c\<bar> > ac_maxSkew cfg) cals" "due_of cals now \<noteq> []"
  shows "\<exists>stale d'. decide_calendars cfg now starts cals d = decide_due cfg now starts stale d'
    \<and> ad_due d' = due_of cals now \<and> ad_dispatch d' = ad_dispatch d"
  unfolding decide_calendars_def Let_def if_not_P [OF assms(1)] if_P [OF assms(2)]
  by (intro exI conjI, rule refl) simp_all

lemma decide_calendars_dispatch:
  assumes "valid_alarm cfg" "ad_dispatch (decide_calendars cfg now starts cals d)" "\<not> ad_dispatch d"
  shows "since_at_least now (max_of starts) (ac_minRedispatch cfg)
    \<or> (\<exists>t. max_of starts = Some t \<and> (\<exists>(p, e)\<in>set (due_of cals now). t < ce_readyAt e))"
proof (cases "list_ex (\<lambda>c. \<bar>now - sc_timestamp c\<bar> > ac_maxSkew cfg) cals")
  case True
  then show ?thesis
    using assms since_weaken [of "ac_minRedispatch cfg" "ac_recovery cfg" now "max_of starts"]
    by (simp add: decide_calendars_def recover_dispatch valid_alarm_def)
next
  case fresh: False
  show ?thesis
  proof (cases "due_of cals now = []")
    case True
    then show ?thesis using assms fresh by (simp add: decide_calendars_def Let_def refresh_dispatch)
  next
    case False
    obtain stale d' where dd: "decide_calendars cfg now starts cals d = decide_due cfg now starts stale d'"
      and d': "ad_due d' = due_of cals now" "\<not> ad_dispatch d'"
      using decide_calendars_due [OF fresh False] assms(3) by metis
    have "\<exists>m\<in>set (map (\<lambda>(_, e). ce_readyAt e) (due_of cals now)). max_of (map (\<lambda>(_, e). ce_readyAt e) (due_of cals now)) = Some m"
      using False by (intro max_of_in) simp
    then obtain p e where pe: "(p, e) \<in> set (due_of cals now)" "max_of (map (\<lambda>(_, e). ce_readyAt e) (due_of cals now)) = Some (ce_readyAt e)"
      by auto
    show ?thesis
      using decide_due_dispatch [OF assms(1) assms(2) [unfolded dd] d'(2)] pe unfolding d'(1) by force
  qed
qed

section \<open>Properties\<close>

text \<open>C32: The calendar mirrors the worker's planner on the same state and journal: a transaction the planner
  would send and evidence it would gather are due entries of the calendar, a complete plan is a
  complete calendar, and when the planner waits every due entry is a proposal it has deferred. So a
  pool whose calendar shows nothing due can be left alone.\<close>

theorem calendar_mirrors_planner:
  assumes "owner \<noteq> []" and "settlementCalendar st owner (Some owned) evidence = ok cal"
    and "nextResolutionAction st owner owned deferred evidence = ok plan"
  shows "case plan of
      Complete_plan \<Rightarrow> sc_complete cal
    | Transact a e \<Rightarrow> \<exists>en\<in>set (dueEntries cal (rv_timestamp st)). ce_action en = a \<and> ce_event en = e
    | Gather event \<Rightarrow> \<exists>en\<in>set (dueEntries cal (rv_timestamp st)). ce_action en = Evidence \<and> ce_event en = Some event
    | Wait_plan \<Rightarrow> \<forall>en\<in>set (dueEntries cal (rv_timestamp st)). ce_action en = Evidence
        \<and> (\<exists>event. ce_event en = Some event \<and> is_deferred deferred event (rv_timestamp st))"
proof -
  let ?now = "rv_timestamp st" and ?listed = "case_entries (rv_mode st) owner (Some owned) evidence"
  note cal = settlementCalendar_ok [OF assms(2)]
  consider (finished) "rv_delivered st" "plan = Complete_plan"
    | (deliver) "\<not> rv_delivered st" "all_final st" "plan = Transact Deliver None"
    | (loop) "\<not> rv_delivered st" "\<not> all_final st"
        "plan = plan_from ?now (rv_mode st) owner owned deferred evidence (events_of st)"
    using assms(3) by (auto simp: nextResolutionAction_def split: if_splits)
  then show ?thesis
  proof cases
    case finished
    then show ?thesis using cal by simp
  next
    case deliver
    then have "entry Deliver None 0 None \<in> set (dueEntries cal ?now)"
      using cal by (simp add: dueEntries_def is_due_def entry_def)
    then show ?thesis using deliver(3) by (force simp: entry_def)
  next
    case loop
    have entries: "en \<in> set (dueEntries cal ?now) \<longleftrightarrow> is_due ?now en \<and> (\<exists>(event, c, ends)\<in>set (events_of st). en \<in> set (?listed event c ends))" for en
      using cal loop(1,2) by (auto simp: dueEntries_def)
    have due: "\<exists>en\<in>set (dueEntries cal ?now). Q en"
      if "(event, c, ends) \<in> set (events_of st)" "\<exists>en\<in>set (?listed event c ends). Q en \<and> is_due ?now en" for Q event c ends
      using that entries by fastforce
    note loop_case = plan_from_cases [where now = ?now and mode = "rv_mode st" and owner = owner and owned = owned
      and deferred = deferred and evidence = evidence and es = "events_of st", folded loop(3)]
    show ?thesis
    proof (cases plan)
      case Complete_plan
      then show ?thesis using loop_case by simp
    next
      case (Transact a e)
      then obtain event c ends where e: "a = Finalize" "e = Some event" "(event, c, ends) \<in> set (events_of st)" "finishes ?now owner owned event c"
        using loop_case by auto
      show ?thesis
        using due [OF e(3), of "\<lambda>en. ce_action en = a \<and> ce_event en = e"] finish_entry [OF assms(1) e(4)] e(1,2) Transact by auto
    next
      case (Gather event)
      then obtain c ends where e: "(event, c, ends) \<in> set (events_of st)" "gathers ?now (rv_mode st) deferred evidence event c ends"
        "\<not> finishes ?now owner owned event c" using loop_case by auto
      show ?thesis
        using due [OF e(1), of "\<lambda>en. ce_action en = Evidence \<and> ce_event en = Some event"] gather_entry [OF e(2,3)] Gather by auto
    next
      case Wait_plan
      have "ce_action en = Evidence \<and> (\<exists>event. ce_event en = Some event \<and> is_deferred deferred event ?now)"
        if en: "en \<in> set (dueEntries cal ?now)" for en
      proof -
        obtain event c ends where e: "is_due ?now en" "(event, c, ends) \<in> set (events_of st)" "en \<in> set (?listed event c ends)"
          using en entries by auto
        have "kc_phase c \<noteq> 3 \<longrightarrow> \<not> finishes ?now owner owned event c \<and> \<not> gathers ?now (rv_mode st) deferred evidence event c ends"
          using loop_case Wait_plan e(2) by auto
        from waiting_entry [OF e(3,1) this] show ?thesis by blast
      qed
      then show ?thesis using Wait_plan by simp
    qed
  qed
qed

definition demo_case :: "int \<Rightarrow> resolver_case" where
  "demo_case phase = \<lparr>kc_phase = phase, kc_proposal = 2, kc_asserter = ''0xAB'', kc_evidenceHash = ''0x1'',
     kc_challengeUntil = 500, kc_voteUntil = 0, kc_assertionDeadline = 900\<rparr>"

definition demo_resolver :: resolver_state where
  "demo_resolver = \<lparr>rv_pool = ''0xp'', rv_mode = ''release'', rv_ends = [300, 300], rv_cases = [demo_case 1, demo_case 0],
     rv_delivered = False, rv_blockNumber = ''7'', rv_timestamp = 600, rv_poolCash = 10, rv_required = 10\<rparr>"

definition demo_owned :: owned where
  "demo_owned event = (if event = 0 then Some (''0x1'', 2) else None)"

definition demo_calendar :: settlement_calendar where
  "demo_calendar = (case settlementCalendar demo_resolver ''0xab'' (Some demo_owned) True of Inr c \<Rightarrow> c)"

lemma demo_calendar: "settlementCalendar demo_resolver ''0xab'' (Some demo_owned) True = ok demo_calendar"
  "nextResolutionAction demo_resolver ''0xab'' demo_owned (\<lambda>_. None) True = ok (Transact Finalize (Some 0))"
  by code_simp+

lemma calendar_mirrors_planner_witness:
  "\<exists>en\<in>set (dueEntries demo_calendar 600). ce_action en = Finalize \<and> ce_event en = Some 0"
proof -
  have t: "rv_timestamp demo_resolver = 600" by (simp add: demo_resolver_def)
  show ?thesis using calendar_mirrors_planner [OF _ demo_calendar] t by simp
qed

text \<open>The alarm never wakes the monitor while one of its runs is active or without its history, and it does
  not repeat itself: a dispatch for a monitor run that started less than the retry interval ago is for
  work that became due after that run.\<close>

theorem alarm_never_overlaps:
  assumes "valid_alarm cfg" and "ad_dispatch (alarmDecision cfg now calendars failed err runs)"
  shows "\<exists>rs. runs = Some rs \<and> filter is_active (monitor_runs cfg rs) = []
    \<and> (case max_of (run_starts cfg rs) of None \<Rightarrow> True | Some t \<Rightarrow> now - t \<ge> ac_minRedispatch cfg
        \<or> (\<exists>cals. calendars = Some cals \<and> (\<exists>(p, e)\<in>set (due_of cals now). t < ce_readyAt e)))"
proof -
  obtain rs where rs: "runs = Some rs" using assms(2) by (cases runs) (simp_all add: alarmDecision_def no_decision_def)
  let ?lastRun = "max_of (run_starts cfg rs)"
  let ?base = "no_decision\<lparr>ad_failed := failed, ad_workerStuck := worker_stuck cfg now rs, ad_lastSuccess := last_success cfg rs\<rparr>"
  have nd: "\<not> ad_dispatch ?base" by (simp add: no_decision_def)
  have idle: "filter is_active (monitor_runs cfg rs) = []"
    using assms(2) rs by (auto simp: alarmDecision_def Let_def no_decision_def split: if_splits)
  consider (blind) "ad_dispatch (recover cfg now ?lastRun Calendar_unavailable ?base)"
    | (seen) cals where "calendars = Some cals" "ad_dispatch (decide_calendars cfg now (run_starts cfg rs) cals ?base)"
    using assms(2) rs idle by (auto simp: alarmDecision_def Let_def split: if_splits option.splits)
  then have "since_at_least now ?lastRun (ac_minRedispatch cfg)
    \<or> (\<exists>t cals. ?lastRun = Some t \<and> calendars = Some cals \<and> (\<exists>(p, e)\<in>set (due_of cals now). t < ce_readyAt e))"
  proof cases
    case blind
    then show ?thesis
      using assms(1) nd since_weaken [of "ac_minRedispatch cfg" "ac_recovery cfg" now ?lastRun]
      by (simp add: recover_dispatch valid_alarm_def)
  next
    case seen
    then show ?thesis using decide_calendars_dispatch [OF assms(1) seen(2) nd] by blast
  qed
  then show ?thesis using rs idle by (auto simp: since_at_least_def split: option.splits)
qed

definition demo_alarm :: alarm_config where
  "demo_alarm = \<lparr>ac_minRedispatch = 600, ac_recovery = 1800, ac_maxSkew = 300, ac_stuckRun = 1800, ac_monitorInterval = 600,
     ac_monitorAlert = 1800, ac_preflightInterval = 600, ac_monitorWorkflow = ''monitor.yml'', ac_workerWorkflow = ''worker.yml''\<rparr>"

definition demo_runs :: "workflow_run list" where
  "demo_runs = [\<lparr>wr_workflow = ''monitor.yml'', wr_status = ''completed'', wr_conclusion = Some ''success'',
     wr_created = ''1970-01-01T00:01:00Z'', wr_updated = ''1970-01-01T00:02:00Z''\<rparr>]"

lemma demo_dispatch: "valid_alarm demo_alarm" "ad_dispatch (alarmDecision demo_alarm 700 (Some [demo_calendar]) [] False (Some demo_runs))"
  "max_of (run_starts demo_alarm demo_runs) = Some 60"
  by code_simp+

lemma alarm_never_overlaps_witness:
  "filter is_active (monitor_runs demo_alarm demo_runs) = [] \<and> (700 - 60 \<ge> ac_minRedispatch demo_alarm
    \<or> (\<exists>(p, e)\<in>set (due_of [demo_calendar] 700). 60 < ce_readyAt e))"
  using alarm_never_overlaps [OF demo_dispatch(1,2)] demo_dispatch(3) by simp



end
