(* ===== verification/Pilot_Calls.thy ===== *)
theory Pilot_Calls
  imports Texts
begin

text \<open>
  Which pool and resolver calls the application builds, signs or relays
  (apps/web/shared/pilot.mjs) and which shares a question's outcome decides
  (apps/web/shared/holder-challenge.mjs). ABI decoding and encoding and \<open>URL\<close> are parameters.
\<close>

section \<open>Claims as bit sets\<close>

text \<open>\<open>n.toString(2).replace(/0/g, '').length\<close>; a minus sign counts as one more character.\<close>

function ones :: "nat \<Rightarrow> nat" where
  "ones n = (if n = 0 then 0 else n mod 2 + ones (n div 2))"
  by pat_completeness auto
termination by (relation "measure id") auto

declare ones.simps [simp del]

definition popcount :: "int \<Rightarrow> nat" where
  "popcount v = (if v < 0 then Suc (ones (nat (- v))) else ones (nat v))"

definition not_const :: "nat \<Rightarrow> int \<Rightarrow> bool" where
  "not_const width mask' = (mask' > 0 \<and> mask' < 2 ^ (2 ^ width) - 1)"

definition validClaim :: "int \<Rightarrow> int \<Rightarrow> nat \<Rightarrow> bool" where
  "validClaim scope mask' count' = (scope > 0 \<and> scope < 2 ^ count' \<and> popcount scope \<le> 3 \<and> not_const (popcount scope) mask')"

text \<open>
  A share depends on a question when flipping the question's local bit changes the truth table
  somewhere.
\<close>

definition local_bit :: "int \<Rightarrow> nat \<Rightarrow> nat" where
  "local_bit scope event = 2 ^ popcount (js_and scope (2 ^ event - 1))"

definition dependsOnEvent :: "int \<Rightarrow> int \<Rightarrow> int \<Rightarrow> nat \<Rightarrow> bool" where
  "dependsOnEvent scope mask' event count' =
     (scope > 0 \<and> scope < 2 ^ count' \<and> 0 \<le> event \<and> event < int count' \<and> js_bit scope (nat event)
      \<and> popcount scope \<le> 3 \<and> not_const (popcount scope) mask'
      \<and> list_ex (\<lambda>i. bit mask' i \<noteq> bit mask' (i XOR local_bit scope (nat event))) [0..<2 ^ popcount scope])"

section \<open>How far combinations may link questions\<close>

text \<open>Eliminating a question joins the pending scopes that contain it; it may join at most three questions.\<close>

definition joined_scope :: "int \<Rightarrow> int list \<Rightarrow> int" where
  "joined_scope b pending = foldl (\<lambda>j p. if js_and p b \<noteq> 0 then js_or j p else j) b pending"

definition eliminate :: "int list \<Rightarrow> nat \<Rightarrow> int list option" where
  "eliminate pending index =
     (let b = js_shl 1 index; joined = joined_scope b pending in
      if int (popcount joined) - 1 > 2 then None
      else Some (map (\<lambda>p. if js_and p b \<noteq> 0 then 0 else p) pending @ [js_and joined (NOT b)]))"

fun eliminate_all :: "int list \<Rightarrow> nat list \<Rightarrow> bool" where
  "eliminate_all pending [] = True"
| "eliminate_all pending (i # order) = (case eliminate pending i of None \<Rightarrow> False | Some p \<Rightarrow> eliminate_all p order)"

definition combinationFits :: "nat \<Rightarrow> nat list \<Rightarrow> int list \<Rightarrow> int \<Rightarrow> bool" where
  "combinationFits events order scopes scope =
     (if length order \<noteq> events then False
      else if List.member scopes scope then True
      else eliminate_all (scopes @ [scope]) order)"

section \<open>Calls\<close>

record eligibility =
  el_accountCommitment :: string
  el_challenger :: string
  el_holder :: string
  el_scope :: int
  el_mask :: int
  el_wrapped :: bool
  el_nonce :: int
  el_deadline :: int

text \<open>The decoded functions of the three contracts; every other function is \<open>Other_call\<close>.\<close>

datatype pilot_call =
    Assert_outcome int int string string
  | Dispute_outcome int int string string "(eligibility \<times> string) option"
  | Vote_outcome int int string string
  | Finalize_event int
  | Deliver_result
  | Withdraw_bond
  | Approve_cash string int
  | Buy_claim int int int int int
  | Sell_claim int int int int int
  | Redeem_claim int int int
  | Wrap_base int bool int
  | Unwrap_base int bool int
  | Other_call

record pilot_manifest =
  pl_chainId :: int
  pl_pool :: string
  pl_resolver :: string
  pl_rulesHash :: string
  pl_creator :: string
  pl_reviewers :: "string list"
  pl_mode :: string
  pl_bond :: int
  pl_events :: nat
  pl_challengePolicy :: bool

datatype pilot_target = Resolver_abi | Pool_abi | Cash_abi

text \<open>viem's decoder and encoder for an ABI, and \<open>new URL\<close> (protocol, host name, user, password).\<close>

record pilot_abi =
  pb_decode :: "pilot_target \<Rightarrow> bool \<Rightarrow> string \<Rightarrow> pilot_call option"
  pb_encode :: "pilot_target \<Rightarrow> bool \<Rightarrow> pilot_call \<Rightarrow> string"
  pb_url :: "string \<Rightarrow> (string \<times> string \<times> string \<times> string) option"

definition pilotCash :: string where
  "pilotCash = ''0xa9012a055bd4e0edff8ce09f960291c09d5322dc''"

definition CALL_LIMIT :: int where
  "CALL_LIMIT = 100000000"

definition uri_char :: "char \<Rightarrow> bool" where
  "uri_char c = (code c > 32 \<and> code c \<noteq> 127 \<and> code c \<noteq> 160)"

definition evidenceURI :: "pilot_abi \<Rightarrow> string \<Rightarrow> bool" where
  "evidenceURI abi v = (length v \<le> 512 \<and> list_all uri_char v \<and> (case pb_url abi v of
     None \<Rightarrow> False
   | Some (protocol, hostname, user, password) \<Rightarrow>
       (protocol = ''https:'' \<or> protocol = ''ipfs:'') \<and> hostname \<noteq> [] \<and> user = [] \<and> password = []))"

definition zero_hash :: "nat \<Rightarrow> string \<Rightarrow> bool" where
  "zero_hash n s = (lower (take 2 s) = ''0x'' \<and> take 1 s = ''0'' \<and> drop 2 s = replicate n CHR ''0'')"

definition outcome_ok :: "pilot_abi \<Rightarrow> pilot_manifest \<Rightarrow> int \<Rightarrow> int \<Rightarrow> string \<Rightarrow> string \<Rightarrow> bool" where
  "outcome_ok abi m event outcome evidence uri =
     (event < int (pl_events m) \<and> 1 \<le> outcome \<and> outcome \<le> 3 \<and> evidence \<noteq> ''0x'' @ replicate 64 CHR ''0'' \<and> evidenceURI abi uri)"

definition eligible :: "pilot_manifest \<Rightarrow> int \<Rightarrow> (eligibility \<times> string) option \<Rightarrow> bool" where
  "eligible m event el = (case el of
     None \<Rightarrow> False
   | Some (e, signature) \<Rightarrow> dependsOnEvent (el_scope e) (el_mask e) event (pl_events m)
       \<and> take 2 (lower signature) = ''0x'' \<and> length signature = 132 \<and> list_all is_lhex (drop 2 (lower signature))
       \<and> el_deadline e > 0 \<and> \<not> zero_hash 40 (el_holder e) \<and> \<not> zero_hash 40 (el_challenger e))"

text \<open>The checks on a decoded call, by contract.\<close>

definition resolver_call_ok :: "pilot_abi \<Rightarrow> pilot_manifest \<Rightarrow> pilot_call \<Rightarrow> bool" where
  "resolver_call_ok abi m c = (case c of
     Assert_outcome event outcome h uri \<Rightarrow> outcome_ok abi m event outcome h uri
   | Dispute_outcome event outcome h uri el \<Rightarrow> outcome_ok abi m event outcome h uri \<and> (pl_challengePolicy m \<longrightarrow> eligible m event el)
   | Vote_outcome event outcome h uri \<Rightarrow> outcome_ok abi m event outcome h uri
   | Finalize_event event \<Rightarrow> event < int (pl_events m)
   | Deliver_result \<Rightarrow> True
   | Withdraw_bond \<Rightarrow> True
   | _ \<Rightarrow> False)"

definition cash_call_ok :: "pilot_manifest \<Rightarrow> pilot_call \<Rightarrow> bool" where
  "cash_call_ok m c = (case c of
     Approve_cash spender amount \<Rightarrow> (lower spender = pl_pool m \<or> lower spender = pl_resolver m)
       \<and> amount \<le> (if lower spender = pl_resolver m then pl_bond m else CALL_LIMIT)
   | _ \<Rightarrow> False)"

definition amount_ok :: "int \<Rightarrow> bool" where
  "amount_ok a = (0 < a \<and> a \<le> CALL_LIMIT)"

definition pool_call_ok :: "pilot_manifest \<Rightarrow> pilot_call \<Rightarrow> bool" where
  "pool_call_ok m c = (case c of
     Buy_claim scope mask' quantity limit deadline \<Rightarrow> validClaim scope mask' (pl_events m) \<and> amount_ok quantity \<and> limit \<le> CALL_LIMIT
   | Sell_claim scope mask' quantity limit deadline \<Rightarrow> validClaim scope mask' (pl_events m) \<and> amount_ok quantity \<and> limit \<le> CALL_LIMIT
   | Redeem_claim scope mask' quantity \<Rightarrow> validClaim scope mask' (pl_events m) \<and> amount_ok quantity
   | Wrap_base event yes quantity \<Rightarrow> event < int (pl_events m) \<and> amount_ok quantity
   | Unwrap_base event yes quantity \<Rightarrow> event < int (pl_events m) \<and> amount_ok quantity
   | _ \<Rightarrow> False)"

definition target_abi :: "pilot_manifest \<Rightarrow> string \<Rightarrow> pilot_target option" where
  "target_abi m to' =
     (if lower to' = pl_resolver m then Some Resolver_abi
      else if lower to' = pl_pool m then Some Pool_abi
      else if lower to' = pilotCash then Some Cash_abi
      else None)"

definition call_ok :: "pilot_abi \<Rightarrow> pilot_manifest \<Rightarrow> pilot_target \<Rightarrow> pilot_call \<Rightarrow> bool" where
  "call_ok abi m t c = (case t of
     Resolver_abi \<Rightarrow> resolver_call_ok abi m c
   | Cash_abi \<Rightarrow> cash_call_ok m c
   | Pool_abi \<Rightarrow> pool_call_ok m c)"

text \<open>Decoded, re-encoded to the same bytes, and within the limits; anything that throws is refused.\<close>

definition pilotCall :: "pilot_abi \<Rightarrow> pilot_manifest \<Rightarrow> string \<Rightarrow> string \<Rightarrow> pilot_call option" where
  "pilotCall abi m to' data = (case target_abi m to' of
     None \<Rightarrow> None
   | Some t \<Rightarrow> (case pb_decode abi t (pl_challengePolicy m) data of
       None \<Rightarrow> None
     | Some c \<Rightarrow> (if lower (pb_encode abi t (pl_challengePolicy m) c) \<noteq> lower data then None
         else if call_ok abi m t c then Some c else None)))"

section \<open>Lemmas\<close>

text \<open>What a call can move: the quantity it trades, the collateral it may take, or the cash it approves.\<close>

definition call_stake :: "pilot_call \<Rightarrow> int" where
  "call_stake c = (case c of
     Approve_cash spender amount \<Rightarrow> amount
   | Buy_claim scope mask' quantity limit deadline \<Rightarrow> max quantity limit
   | Sell_claim scope mask' quantity limit deadline \<Rightarrow> quantity
   | Redeem_claim scope mask' quantity \<Rightarrow> quantity
   | Wrap_base event yes quantity \<Rightarrow> quantity
   | Unwrap_base event yes quantity \<Rightarrow> quantity
   | _ \<Rightarrow> 0)"

lemma pilotCall_SomeD:
  assumes "pilotCall abi m to' data = Some c"
  obtains t where "target_abi m to' = Some t" "pb_decode abi t (pl_challengePolicy m) data = Some c"
    "lower (pb_encode abi t (pl_challengePolicy m) c) = lower data" "call_ok abi m t c"
  using assms by (auto simp: pilotCall_def split: option.splits if_splits)

lemma call_ok_stake: "call_ok abi m t c \<Longrightarrow> call_stake c \<le> max CALL_LIMIT (pl_bond m)"
  by (cases t; cases c)
    (auto simp: call_ok_def call_stake_def resolver_call_ok_def cash_call_ok_def pool_call_ok_def amount_ok_def CALL_LIMIT_def split: if_splits)

section \<open>Properties\<close>

text \<open>Every call the shared decoder lets through goes to the pool, its resolver or the test cash, has
  canonical calldata, and can move at most 100 test AUSD, or approve the resolver's exact bond.\<close>

theorem pilot_call_bounded:
  assumes "pilotCall abi m to' data = Some c"
  shows "lower to' \<in> {pl_resolver m, pl_pool m, pilotCash} \<and> call_stake c \<le> max CALL_LIMIT (pl_bond m)
    \<and> (\<exists>t. lower (pb_encode abi t (pl_challengePolicy m) c) = lower data)
    \<and> (\<forall>spender amount. c = Approve_cash spender amount \<longrightarrow>
         lower spender = pl_resolver m \<and> amount \<le> pl_bond m \<or> lower spender = pl_pool m \<and> amount \<le> CALL_LIMIT)"
proof (rule pilotCall_SomeD [OF assms])
  fix t
  assume t: "target_abi m to' = Some t" "lower (pb_encode abi t (pl_challengePolicy m) c) = lower data" "call_ok abi m t c"
  have "lower to' \<in> {pl_resolver m, pl_pool m, pilotCash}" using t(1) by (auto simp: target_abi_def split: if_splits)
  moreover have "lower spender = pl_resolver m \<and> amount \<le> pl_bond m \<or> lower spender = pl_pool m \<and> amount \<le> CALL_LIMIT"
    if "c = Approve_cash spender amount" for spender amount
    using t(3) that by (cases t) (auto simp: call_ok_def resolver_call_ok_def cash_call_ok_def pool_call_ok_def split: if_splits)
  ultimately show ?thesis using call_ok_stake [OF t(3)] t(2) by blast
qed

definition demo_pilot :: pilot_manifest where
  "demo_pilot = \<lparr>pl_chainId = 10143, pl_pool = ''0xpool'', pl_resolver = ''0xres'', pl_rulesHash = ''0xr'', pl_creator = ''0xc'',
     pl_reviewers = [], pl_mode = ''release'', pl_bond = 5000000, pl_events = 3, pl_challengePolicy = False\<rparr>"

definition demo_abi :: pilot_abi where
  "demo_abi = \<lparr>pb_decode = (\<lambda>t p d. Some (Buy_claim 3 8 1000000 900000 1000)), pb_encode = (\<lambda>t p c. ''0xabc''),
     pb_url = (\<lambda>u. Some (''https:'', ''h'', [], []))\<rparr>"

lemma demo_buy: "pilotCall demo_abi demo_pilot ''0xPOOL'' ''0xABC'' = Some (Buy_claim 3 8 1000000 900000 1000)"
  by code_simp

lemma pilot_call_bounded_witness: "call_stake (Buy_claim 3 8 1000000 900000 1000) \<le> max CALL_LIMIT (pl_bond demo_pilot)"
  using pilot_call_bounded [OF demo_buy] by blast

end
