(* ===== verification/Resolution.thy ===== *)
theory Resolution
  imports Pilot_Calls Settlement_Calendar
begin

text \<open>
  The resolution worker (apps/web/server/resolution-worker.mjs): one tick reconciles the pending
  transaction of the signer's journal or plans, checks, signs, records and broadcasts one new one.
  A tick is a function of what the outside answers in it; its effects on the journal and the chain
  are listed in the order they happen, also when it throws. The clock is the same for the whole
  tick. Signing, hashing, parsing and the draft validators are parameters.
\<close>

section \<open>Journal and effects\<close>

record pending_tx =
  px_hash :: string
  px_raw :: string
  px_action :: string
  px_event :: "nat option"
  px_outcome :: "int option"
  px_evidenceHash :: "string option"
  px_evidenceURI :: "string option"
  px_lastBroadcastAt :: "int option"
  px_attempts :: "int option"

record pool_journal =
  pj_schema :: string
  pj_pool :: string
  pj_rulesHash :: string
  pj_pending :: "pending_tx option"
  pj_owned :: owned
  pj_deferred :: "nat \<Rightarrow> int option"
  pj_last :: "(string \<times> bool \<times> int) option"

type_synonym journal_book = "string \<Rightarrow> pool_journal option"

text \<open>What the store holds: nothing, one pool's journal of the first version, or the book of all pools.\<close>

datatype stored_journal = Nothing_stored | Legacy_journal pool_journal | Book_stored "string list" journal_book

datatype effect = Save pool_journal | Renew | Broadcast string | Sign_request | Release

type_synonym 'a act = "effect list \<times> 'a res"

definition bindA :: "'a act \<Rightarrow> ('a \<Rightarrow> 'b act) \<Rightarrow> 'b act" where
  "bindA m f = (case m of (es, Inl e) \<Rightarrow> (es, Inl e) | (es, Inr x) \<Rightarrow> (case f x of (es', r) \<Rightarrow> (es @ es', r)))"

definition liftA :: "'a res \<Rightarrow> 'a act" where
  "liftA r = ([], r)"

definition doA :: "effect \<Rightarrow> unit act" where
  "doA e = ([e], ok ())"

definition guardA :: "bool \<Rightarrow> unit act" where
  "guardA p = ([], if p then ok () else plain_error)"

section \<open>What the outside answers\<close>

record signed_tx =
  tx_to :: "string option"
  tx_data :: string
  tx_chainId :: int
  tx_value :: int
  tx_nonce :: int
  tx_gas :: int
  tx_gasPrice :: int

record worker_review =
  vr_schema :: string
  vr_pool :: string
  vr_rulesHash :: string
  vr_from :: string
  vr_to :: string
  vr_data :: string
  vr_chainId :: int
  vr_value :: int
  vr_expiresAt :: int
  vr_timestamp :: int
  vr_requested :: string
  vr_req_event :: "nat option"
  vr_req_outcome :: "int option"
  vr_req_hash :: "string option"
  vr_req_uri :: "string option"
  vr_action :: string
  vr_amount :: int
  vr_gasLimit :: int
  vr_gasPrice :: int

record receipt =
  rc_confirmed :: bool
  rc_success :: bool

record retry_status =
  ry_known :: "bool option"
  ry_latest :: int
  ry_pending :: int

datatype guard_status = Guard_clear | Guard_blocked

record proposal =
  pr_outcome :: int
  pr_hash :: string
  pr_uri :: string

record worker_input =
  wk_action :: string
  wk_event :: "nat option"
  wk_outcome :: "int option"
  wk_hash :: "string option"
  wk_uri :: "string option"

text \<open>The independent monitor's stored report: its checkpoint and the alerts not yet delivered.\<close>

record monitor_state =
  mo_identity :: string
  mo_status :: string
  mo_checkedAt :: int
  mo_queue :: nat

record tick_host =
  th_abi :: pilot_abi
  th_keccak :: "string \<Rightarrow> string"
  th_parse :: "string \<Rightarrow> signed_tx res"
  th_recover :: "string \<Rightarrow> string res"
  th_valid_draft :: "pilot_manifest \<Rightarrow> unit res"
  th_stored :: "stored_journal res"
  th_receipt :: "receipt option res"
  th_can_retry :: bool
  th_retry :: "retry_status option res"
  th_monitor :: "monitor_state option res"
  th_guards :: "guard_status \<times> guard_status"
  th_verify_pending :: "unit res"
  th_states :: "resolver_state res \<times> resolver_state res"
  th_evidence :: "nat \<Rightarrow> proposal option res"
  th_review :: "worker_input \<Rightarrow> worker_review res"
  th_sign :: "worker_review \<Rightarrow> string res"
  th_reported :: "string option res"
  th_renews :: "unit res"
  th_saves :: "unit res"
  th_now :: int

definition DETERMINISTIC_MODE :: string where
  "DETERMINISTIC_MODE = ''deterministic-source-v1''"

text \<open>The outcomes a worker may propose in a mode: a release is only ever proposed as Yes.\<close>

definition source_mode :: "pilot_manifest \<Rightarrow> bool" where
  "source_mode m = (pl_mode m = ''ethereum-activity'' \<or> pl_mode m = DETERMINISTIC_MODE)"

definition outcome_allowed :: "pilot_manifest \<Rightarrow> int \<Rightarrow> bool" where
  "outcome_allowed m o' = (if source_mode m then o' = 1 \<or> o' = 2 else o' = 2)"

section \<open>Checks before signing and before resending\<close>

definition monitorIdentity :: "pilot_manifest \<Rightarrow> string" where
  "monitorIdentity m = join_with '':'' [int_str (pl_chainId m), pl_pool m, pl_resolver m, pl_rulesHash m]"

definition healthy_monitor :: "pilot_manifest \<Rightarrow> int \<Rightarrow> monitor_state \<Rightarrow> bool" where
  "healthy_monitor m now s = (mo_identity s = monitorIdentity m
     \<and> (mo_status s = ''observed'' \<or> mo_status s = ''attention_required'')
     \<and> is_safe_int (JInt (mo_checkedAt s)) \<and> now - mo_checkedAt s \<le> 900 \<and> mo_checkedAt s \<le> now + 15 \<and> mo_queue s = 0)"

definition requireHealthyMonitor :: "tick_host \<Rightarrow> pilot_manifest \<Rightarrow> unit res" where
  "requireHealthyMonitor h m = bindE (th_monitor h) (\<lambda>st. case st of
     None \<Rightarrow> plain_error
   | Some s \<Rightarrow> (if healthy_monitor m (th_now h) s then ok () else plain_error))"

fun is_gather :: "plan \<Rightarrow> bool" where
  "is_gather (Gather _) = True"
| "is_gather _ = False"


definition worker_actions :: "string list" where
  "worker_actions = [''approve'', ''assertOutcome'', ''finalize'', ''deliver'']"

fun call_name :: "pilot_call \<Rightarrow> string" where
  "call_name (Assert_outcome _ _ _ _) = ''assertOutcome''"
| "call_name (Dispute_outcome _ _ _ _ _) = ''dispute''"
| "call_name (Vote_outcome _ _ _ _) = ''vote''"
| "call_name (Finalize_event _) = ''finalize''"
| "call_name Deliver_result = ''deliver''"
| "call_name Withdraw_bond = ''withdrawBond''"
| "call_name (Approve_cash _ _) = ''approve''"
| "call_name (Buy_claim _ _ _ _ _) = ''buy''"
| "call_name (Sell_claim _ _ _ _ _) = ''sell''"
| "call_name (Redeem_claim _ _ _) = ''redeem''"
| "call_name (Wrap_base _ _ _) = ''wrapBase''"
| "call_name (Unwrap_base _ _ _) = ''unwrapBase''"
| "call_name Other_call = []"

definition is_event :: "nat option \<Rightarrow> int \<Rightarrow> bool" where
  "is_event e v = (case e of None \<Rightarrow> False | Some n \<Rightarrow> int n = v)"

definition gas_ok :: "int \<Rightarrow> int \<Rightarrow> bool" where
  "gas_ok gas price = (0 < gas \<and> gas \<le> 1500000 \<and> 0 < price \<and> price \<le> 500000000000 \<and> gas * price \<le> 100000000000000000)"

definition requested_call_ok :: "pilot_manifest \<Rightarrow> worker_review \<Rightarrow> pilot_call \<Rightarrow> bool" where
  "requested_call_ok m r c = (case c of
     Finalize_event event \<Rightarrow> is_event (vr_req_event r) event
   | Assert_outcome event outcome h uri \<Rightarrow> is_event (vr_req_event r) event \<and> outcome_allowed m outcome
       \<and> vr_req_outcome r = Some outcome \<and> vr_req_hash r = Some h \<and> vr_req_uri r = Some uri
   | Approve_cash spender amount \<Rightarrow> vr_requested r = ''assertOutcome'' \<and> lower (vr_to r) = pilotCash
       \<and> lower spender = pl_resolver m \<and> amount = pl_bond m
   | _ \<Rightarrow> True)"

definition validateWorkerReview :: "tick_host \<Rightarrow> pilot_manifest \<Rightarrow> worker_review \<Rightarrow> string \<Rightarrow> unit res" where
  "validateWorkerReview h m r owner =
     bindE (if source_mode m then th_valid_draft h m else ok ()) (\<lambda>_.
       if vr_schema r \<noteq> ''flurbo.pilot-review.v1'' \<or> vr_pool r \<noteq> pl_pool m \<or> vr_rulesHash r \<noteq> pl_rulesHash m
          \<or> lower (vr_from r) \<noteq> lower owner \<or> vr_chainId r \<noteq> 10143 \<or> vr_value r \<noteq> 0
          \<or> vr_expiresAt r \<le> th_now h \<or> th_now h - vr_timestamp r > 60 \<or> vr_timestamp r > th_now h + 15
          \<or> \<not> List.member [''assertOutcome'', ''finalize'', ''deliver''] (vr_requested r) then plain_error
       else (case pilotCall (th_abi h) m (vr_to r) (vr_data r) of
         None \<Rightarrow> plain_error
       | Some c \<Rightarrow>
           (if call_name c \<noteq> vr_action r \<or> \<not> List.member worker_actions (call_name c) then plain_error
            else if \<not> requested_call_ok m r c then plain_error
            else if vr_amount r > pl_bond m \<or> \<not> gas_ok (vr_gasLimit r) (vr_gasPrice r) then plain_error
            else ok ())))"

definition pending_call_ok :: "pilot_manifest \<Rightarrow> signed_tx \<Rightarrow> pending_tx \<Rightarrow> pilot_call \<Rightarrow> bool" where
  "pending_call_ok m tx p c = (case c of
     Finalize_event event \<Rightarrow> is_event (px_event p) event
   | Assert_outcome event outcome h uri \<Rightarrow> outcome_allowed m outcome \<and> is_event (px_event p) event
       \<and> px_outcome p = Some outcome \<and> px_evidenceHash p = Some h \<and> (px_evidenceURI p = None \<or> px_evidenceURI p = Some uri)
   | Approve_cash spender amount \<Rightarrow> (case tx_to tx of None \<Rightarrow> False | Some t \<Rightarrow> lower t = pilotCash)
       \<and> lower spender = pl_resolver m \<and> amount = pl_bond m
   | _ \<Rightarrow> True)"

definition validatePendingTransaction :: "tick_host \<Rightarrow> pilot_manifest \<Rightarrow> pending_tx \<Rightarrow> string \<Rightarrow> signed_tx res" where
  "validatePendingTransaction h m p owner =
     bindE (if source_mode m then th_valid_draft h m else ok ()) (\<lambda>_.
       if th_keccak h (px_raw p) \<noteq> px_hash p then plain_error
       else bindE (th_parse h (px_raw p)) (\<lambda>tx.
         bindE (th_recover h (px_raw p)) (\<lambda>signer.
           case (case tx_to tx of None \<Rightarrow> None | Some t \<Rightarrow> pilotCall (th_abi h) m t (tx_data tx)) of
             None \<Rightarrow> plain_error
           | Some c \<Rightarrow>
               (if lower signer \<noteq> lower owner \<or> tx_chainId tx \<noteq> 10143 \<or> tx_value tx \<noteq> 0 \<or> \<not> is_safe_int (JInt (tx_nonce tx)) \<or> tx_nonce tx < 0
                   \<or> call_name c \<noteq> px_action p \<or> \<not> List.member worker_actions (call_name c)
                   \<or> \<not> gas_ok (tx_gas tx) (tx_gasPrice tx) then plain_error
                else if \<not> pending_call_ok m tx p c then plain_error
                else ok tx))))"

section \<open>One tick\<close>

datatype tick_status =
    Pending_status string | Proposer_blocked nat | Resubmitted string | Confirmed string | Reverted string
  | Dry_run plan | Nothing_to_do plan | Awaiting_evidence nat | Submitted string

definition valid_journal :: "pool_journal \<Rightarrow> bool" where
  "valid_journal j = (pj_schema j = ''flurbo.resolution-worker.v1'')"

definition open_journal :: "stored_journal \<Rightarrow> pilot_manifest \<Rightarrow> pool_journal res" where
  "open_journal st m =
     (let (pools, book) = (case st of
            Nothing_stored \<Rightarrow> ([], (\<lambda>_. None))
          | Legacy_journal j \<Rightarrow> ([pj_pool j], (\<lambda>p. if p = pj_pool j then Some j else None))
          | Book_stored ps b \<Rightarrow> (ps, b));
          entries = List.map_filter book pools;
          saved = (case book (pl_pool m) of Some j \<Rightarrow> j | None \<Rightarrow> \<lparr>pj_schema = ''flurbo.resolution-worker.v1'',
            pj_pool = pl_pool m, pj_rulesHash = pl_rulesHash m, pj_pending = None, pj_owned = (\<lambda>_. None), pj_deferred = (\<lambda>_. None),
            pj_last = None\<rparr>) in
      if \<not> list_all valid_journal entries then plain_error
      else if list_ex (\<lambda>j. pj_pool j \<noteq> pl_pool m \<and> pj_pending j \<noteq> None) entries then plain_error
      else if \<not> valid_journal saved \<or> pj_pool saved \<noteq> pl_pool m \<or> pj_rulesHash saved \<noteq> pl_rulesHash m then plain_error
      else ok saved)"

definition saveA :: "tick_host \<Rightarrow> pool_journal \<Rightarrow> unit act" where
  "saveA h j = bindA (liftA (th_saves h)) (\<lambda>_. doA (Save j))"

definition renewA :: "tick_host \<Rightarrow> unit act" where
  "renewA h = bindA (liftA (th_renews h)) (\<lambda>_. doA Renew)"

text \<open>Sending is done when the request goes out; the hash the node reports must be the one recorded.\<close>

definition broadcastA :: "tick_host \<Rightarrow> string \<Rightarrow> string \<Rightarrow> unit act" where
  "broadcastA h raw hash = bindA (doA (Broadcast raw)) (\<lambda>_. bindA (liftA (th_reported h)) (\<lambda>reported.
     guardA (case reported of None \<Rightarrow> True | Some r \<Rightarrow> r = [] \<or> lower r = lower hash)))"

definition resend_allowed :: "pending_tx \<Rightarrow> signed_tx \<Rightarrow> retry_status option \<Rightarrow> bool" where
  "resend_allowed p tx retry = (case retry of None \<Rightarrow> False
     | Some r \<Rightarrow> ry_known r = Some False \<and> ry_latest r = tx_nonce tx \<and> ry_pending r = tx_nonce tx
         \<and> (case px_attempts p of None \<Rightarrow> True | Some n \<Rightarrow> n < 8))"

definition count_up :: "pending_tx \<Rightarrow> int \<Rightarrow> pending_tx" where
  "count_up p now = p\<lparr>px_lastBroadcastAt := Some now,
     px_attempts := Some ((case px_attempts p of None \<Rightarrow> 1 | Some n \<Rightarrow> if n = 0 then 1 else n) + 1)\<rparr>"

text \<open>A proposal or its bond approval waits while the proposer holds a position.\<close>

definition guarded_action :: "string \<Rightarrow> bool" where
  "guarded_action a = (a = ''assertOutcome'' \<or> a = ''approve'')"

definition resubmit :: "tick_host \<Rightarrow> pilot_manifest \<Rightarrow> pool_journal \<Rightarrow> pending_tx \<Rightarrow> signed_tx \<Rightarrow> tick_status act" where
  "resubmit h m saved p tx =
     bindA (liftA (th_retry h)) (\<lambda>retry.
       if (case retry of None \<Rightarrow> False | Some r \<Rightarrow> ry_known r = Some True) then liftA (ok (Pending_status (px_hash p)))
       else bindA (guardA (resend_allowed p tx retry)) (\<lambda>_.
         bindA (liftA (requireHealthyMonitor h m)) (\<lambda>_.
           if guarded_action (px_action p) \<and> fst (th_guards h) \<noteq> Guard_clear
           then liftA (ok (Proposer_blocked (case px_event p of None \<Rightarrow> 0 | Some e \<Rightarrow> e)))
           else bindA (liftA (if guarded_action (px_action p) \<and> pl_mode m = DETERMINISTIC_MODE then th_verify_pending h else ok ())) (\<lambda>_.
             bindA (renewA h) (\<lambda>_.
               bindA (saveA h (saved\<lparr>pj_pending := Some (count_up p (th_now h))\<rparr>)) (\<lambda>_.
                 bindA (broadcastA h (px_raw p) (px_hash p)) (\<lambda>_. liftA (ok (Resubmitted (px_hash p))))))))))"

definition settle_pending :: "tick_host \<Rightarrow> pool_journal \<Rightarrow> pending_tx \<Rightarrow> receipt \<Rightarrow> tick_status act" where
  "settle_pending h saved p r =
     (if \<not> rc_confirmed r then liftA (ok (Pending_status (px_hash p)))
      else let mine = (if rc_success r \<and> px_action p = ''assertOutcome'' then
             (case (px_event p, px_evidenceHash p, px_outcome p) of
                (Some e, Some eh, Some oc) \<Rightarrow> (pj_owned saved)(e := Some (eh, oc))
              | _ \<Rightarrow> pj_owned saved) else pj_owned saved) in
        bindA (saveA h (saved\<lparr>pj_owned := mine, pj_last := Some (px_hash p, rc_success r, th_now h), pj_pending := None\<rparr>)) (\<lambda>_.
          liftA (ok (if rc_success r then Confirmed (px_hash p) else Reverted (px_hash p)))))"

definition reconcile :: "tick_host \<Rightarrow> pilot_manifest \<Rightarrow> string \<Rightarrow> bool \<Rightarrow> pool_journal \<Rightarrow> pending_tx \<Rightarrow> tick_status act" where
  "reconcile h m owner enabled saved p =
     bindA (liftA (validatePendingTransaction h m p owner)) (\<lambda>tx.
       bindA (liftA (th_receipt h)) (\<lambda>receipt. case receipt of
         Some r \<Rightarrow> settle_pending h saved p r
       | None \<Rightarrow>
           (if \<not> enabled \<or> \<not> th_can_retry h \<or> th_now h - (case px_lastBroadcastAt p of None \<Rightarrow> 0 | Some t \<Rightarrow> t) < 60
            then liftA (ok (Pending_status (px_hash p)))
            else resubmit h m saved p tx)))"

definition signed_ok :: "tick_host \<Rightarrow> string \<Rightarrow> worker_review \<Rightarrow> string \<Rightarrow> bool" where
  "signed_ok h owner r raw = (case (th_parse h raw, th_recover h raw) of
     (Inr tx, Inr signer) \<Rightarrow> lower signer = lower owner \<and> tx_chainId tx = 10143
       \<and> (case tx_to tx of None \<Rightarrow> False | Some t \<Rightarrow> lower t = lower (vr_to r)) \<and> tx_data tx = vr_data r
       \<and> tx_value tx = 0 \<and> tx_gas tx = vr_gasLimit r \<and> tx_gasPrice tx = vr_gasPrice r
   | _ \<Rightarrow> False)"

definition new_pending :: "tick_host \<Rightarrow> worker_review \<Rightarrow> worker_input \<Rightarrow> string \<Rightarrow> pending_tx" where
  "new_pending h r i raw = \<lparr>px_hash = th_keccak h raw, px_raw = raw, px_action = vr_action r, px_event = wk_event i,
     px_outcome = wk_outcome i, px_evidenceHash = wk_hash i, px_evidenceURI = wk_uri i, px_lastBroadcastAt = Some (th_now h),
     px_attempts = Some 1\<rparr>"

text \<open>Prepare, check, read the chain a second time, sign, check what was signed, record, and only then send.\<close>

definition submit :: "tick_host \<Rightarrow> pilot_manifest \<Rightarrow> string \<Rightarrow> bool \<Rightarrow> pool_journal \<Rightarrow> plan \<Rightarrow> worker_input \<Rightarrow> tick_status act" where
  "submit h m owner allowEvidence saved plan i =
     bindA (liftA (th_review h i)) (\<lambda>r.
       bindA (liftA (validateWorkerReview h m r owner)) (\<lambda>_.
         bindA (liftA (snd (th_states h))) (\<lambda>current.
           bindA (liftA (nextResolutionAction current owner (pj_owned saved) (pj_deferred saved) allowEvidence)) (\<lambda>next.
             bindA (guardA (next = plan)) (\<lambda>_.
               if is_gather plan \<and> snd (th_guards h) \<noteq> Guard_clear
               then liftA (ok (Proposer_blocked (case plan of Gather e \<Rightarrow> e | _ \<Rightarrow> 0)))
               else bindA (renewA h) (\<lambda>_.
                 bindA (doA Sign_request) (\<lambda>_.
                   bindA (liftA (th_sign h r)) (\<lambda>raw.
                     bindA (guardA (signed_ok h owner r raw)) (\<lambda>_.
                       bindA (saveA h (saved\<lparr>pj_pending := Some (new_pending h r i raw)\<rparr>)) (\<lambda>_.
                         bindA (broadcastA h raw (th_keccak h raw)) (\<lambda>_.
                           liftA (ok (Submitted (th_keccak h raw))))))))))))))"

fun action_name :: "resolver_action \<Rightarrow> string" where
  "action_name Deliver = ''deliver''"
| "action_name Finalize = ''finalize''"
| "action_name Evidence = ''evidence''"

definition act_on :: "tick_host \<Rightarrow> pilot_manifest \<Rightarrow> string \<Rightarrow> bool \<Rightarrow> pool_journal \<Rightarrow> plan \<Rightarrow> tick_status act" where
  "act_on h m owner allowEvidence saved plan = (case plan of
     Transact a e \<Rightarrow> submit h m owner allowEvidence saved plan
       \<lparr>wk_action = action_name a, wk_event = e, wk_outcome = None, wk_hash = None, wk_uri = None\<rparr>
   | Gather e \<Rightarrow>
       (if fst (th_guards h) \<noteq> Guard_clear then liftA (ok (Proposer_blocked e))
        else bindA (liftA (th_evidence h e)) (\<lambda>prop. case prop of
          None \<Rightarrow> bindA (saveA h (saved\<lparr>pj_deferred := (pj_deferred saved)(e := Some (th_now h + 600))\<rparr>)) (\<lambda>_.
            liftA (ok (Awaiting_evidence e)))
        | Some pr \<Rightarrow> bindA (guardA (outcome_allowed m (pr_outcome pr))) (\<lambda>_.
            submit h m owner allowEvidence saved plan
              \<lparr>wk_action = ''assertOutcome'', wk_event = Some e, wk_outcome = Some (pr_outcome pr), wk_hash = Some (pr_hash pr),
                wk_uri = Some (pr_uri pr)\<rparr>)))
   | _ \<Rightarrow> liftA (ok (Nothing_to_do plan)))"

definition tick_body :: "tick_host \<Rightarrow> pilot_manifest \<Rightarrow> string \<Rightarrow> bool \<Rightarrow> bool \<Rightarrow> tick_status act" where
  "tick_body h m owner enabled allowEvidence =
     bindA (liftA (th_stored h)) (\<lambda>st.
       bindA (liftA (open_journal st m)) (\<lambda>saved. case pj_pending saved of
         Some p \<Rightarrow> reconcile h m owner enabled saved p
       | None \<Rightarrow>
           bindA (liftA (fst (th_states h))) (\<lambda>state.
             bindA (liftA (nextResolutionAction state owner (pj_owned saved) (pj_deferred saved) allowEvidence)) (\<lambda>plan.
               if \<not> enabled then liftA (ok (Dry_run plan))
               else if plan = Wait_plan \<or> plan = Complete_plan then liftA (ok (Nothing_to_do plan))
               else bindA (liftA (requireHealthyMonitor h m)) (\<lambda>_. act_on h m owner allowEvidence saved plan)))))"

text \<open>The signer must be a dedicated one; the lease is given back at the end, also after a throw.\<close>

definition role_conflict :: "pilot_manifest \<Rightarrow> string \<Rightarrow> bool" where
  "role_conflict m owner = (lower owner = lower (pl_creator m) \<or> list_ex (\<lambda>r. lower r = lower owner) (pl_reviewers m))"

definition resolutionTick :: "tick_host \<Rightarrow> pilot_manifest \<Rightarrow> string \<Rightarrow> bool \<Rightarrow> bool \<Rightarrow> tick_status act" where
  "resolutionTick h m owner enabled allowEvidence =
     (if pl_chainId m \<noteq> 10143 \<or> role_conflict m owner then liftA plain_error
      else (case tick_body h m owner enabled allowEvidence of (es, r) \<Rightarrow> (es @ [Release], r)))"

end
