(* ===== verification/Resolution_Laws.thy ===== *)
theory Resolution_Laws
  imports Resolution
begin

text \<open>
  The worker's promises: it records a transaction before it sends it, sends at most one a tick and
  never signs while one is pending; and what it sends is a bounded call to the pool's own contracts.
\<close>

section \<open>Effects\<close>

lemma bindA_parts:
  "fst (bindA m f) = fst m @ (case snd m of Inl e \<Rightarrow> [] | Inr x \<Rightarrow> fst (f x))"
  "snd (bindA m f) = (case snd m of Inl e \<Rightarrow> Inl e | Inr x \<Rightarrow> snd (f x))"
  by (auto simp: bindA_def split: sum.splits prod.splits)

lemma liftA_parts [simp]: "fst (liftA r) = []" "snd (liftA r) = r"
  by (simp_all add: liftA_def)

lemma doA_parts [simp]: "fst (doA e) = [e]" "snd (doA e) = ok ()"
  by (simp_all add: doA_def)

lemma guardA_parts [simp]: "fst (guardA p) = []" "snd (guardA p) = ok u \<longleftrightarrow> p"
  by (simp_all add: guardA_def)

lemma in_bindA: "e \<in> set (fst (bindA m f)) \<longleftrightarrow> e \<in> set (fst m) \<or> (\<exists>x. snd m = ok x \<and> e \<in> set (fst (f x)))"
  by (auto simp: bindA_parts split: sum.splits)

lemma in_saveA: "e \<in> set (fst (saveA h j)) \<longleftrightarrow> e = Save j \<and> (\<exists>u. th_saves h = ok u)"
  by (auto simp: saveA_def in_bindA)

lemma in_renewA: "e \<in> set (fst (renewA h)) \<longleftrightarrow> e = Renew \<and> (\<exists>u. th_renews h = ok u)"
  by (auto simp: renewA_def in_bindA)

lemma in_broadcastA: "e \<in> set (fst (broadcastA h raw hash)) \<longleftrightarrow> e = Broadcast raw"
  by (auto simp: broadcastA_def in_bindA)

lemma snd_saveA: "snd (saveA h j) = ok u \<longleftrightarrow> th_saves h = ok ()"
  by (simp add: saveA_def bindA_parts split: sum.splits)

lemma snd_renewA: "snd (renewA h) = ok u \<longleftrightarrow> th_renews h = ok ()"
  by (simp add: renewA_def bindA_parts split: sum.splits)

lemmas in_effects = in_bindA in_saveA in_renewA in_broadcastA snd_saveA snd_renewA

lemma saveA_done: "th_saves h = ok () \<Longrightarrow> fst (saveA h j) = [Save j]"
  by (simp add: saveA_def bindA_parts)

lemma renewA_done: "th_renews h = ok () \<Longrightarrow> fst (renewA h) = [Renew]"
  by (simp add: renewA_def bindA_parts)

lemma broadcastA_done: "fst (broadcastA h raw hash) = [Broadcast raw]"
  by (simp add: broadcastA_def bindA_parts split: sum.split)

text \<open>A list of effects with one broadcast, directly after the save of that transaction, or with none.\<close>

fun is_broadcast :: "effect \<Rightarrow> bool" where
  "is_broadcast (Broadcast _) = True"
| "is_broadcast _ = False"

definition sends :: "effect list \<Rightarrow> string \<Rightarrow> pending_tx \<Rightarrow> bool" where
  "sends es raw p = (px_raw p = raw \<and> (\<exists>pre j. es = pre @ [Save j, Broadcast raw] \<and> \<not> list_ex is_broadcast pre \<and> pj_pending j = Some p))"

lemma submit_sends:
  assumes "Broadcast raw \<in> set (fst (submit h m owner allowEvidence saved plan i))"
  obtains r where "th_review h i = ok r" "validateWorkerReview h m r owner = ok ()" "signed_ok h owner r raw"
    "fst (submit h m owner allowEvidence saved plan i) = [Renew, Sign_request, Save (saved\<lparr>pj_pending := Some (new_pending h r i raw)\<rparr>), Broadcast raw]"
proof -
  obtain r current plan' raw' where r: "th_review h i = ok r" "validateWorkerReview h m r owner = ok ()"
    "snd (th_states h) = ok current" "nextResolutionAction current owner (pj_owned saved) (pj_deferred saved) allowEvidence = ok plan'"
    "plan' = plan" "\<not> (is_gather plan \<and> snd (th_guards h) \<noteq> Guard_clear)" "th_renews h = ok ()" "th_sign h r = ok raw'"
    "signed_ok h owner r raw'" "th_saves h = ok ()" "raw = raw'"
    using assms unfolding submit_def by (auto simp: in_effects split: if_splits)
  have "fst (submit h m owner allowEvidence saved plan i) = [Renew, Sign_request, Save (saved\<lparr>pj_pending := Some (new_pending h r i raw)\<rparr>), Broadcast raw]"
    using r unfolding submit_def
    by (simp add: bindA_parts saveA_done renewA_done broadcastA_done saveA_def renewA_def guardA_def split: sum.split)
  then show thesis using that r by blast
qed

lemma resubmit_sends:
  assumes "Broadcast raw \<in> set (fst (resubmit h m saved p tx))"
  shows "raw = px_raw p \<and> fst (resubmit h m saved p tx) = [Renew, Save (saved\<lparr>pj_pending := Some (count_up p (th_now h))\<rparr>), Broadcast raw]"
proof -
  obtain retry where r: "th_retry h = ok retry" "\<not> (case retry of None \<Rightarrow> False | Some r \<Rightarrow> ry_known r = Some True)"
    "resend_allowed p tx retry" "requireHealthyMonitor h m = ok ()" "\<not> (guarded_action (px_action p) \<and> fst (th_guards h) \<noteq> Guard_clear)"
    "(if guarded_action (px_action p) \<and> pl_mode m = DETERMINISTIC_MODE then th_verify_pending h else ok ()) = ok ()"
    "th_renews h = ok ()" "th_saves h = ok ()" "raw = px_raw p"
    using assms unfolding resubmit_def by (auto simp: in_effects split: if_splits)
  have "fst (resubmit h m saved p tx) = [Renew, Save (saved\<lparr>pj_pending := Some (count_up p (th_now h))\<rparr>), Broadcast raw]"
    unfolding resubmit_def bindA_parts liftA_parts r(1) r(6)
    using r(2-5,7-9) by (simp add: bindA_parts saveA_done renewA_done broadcastA_done saveA_def renewA_def guardA_def split: sum.split)
  then show ?thesis using r(9) by blast
qed

lemma act_on_sends:
  assumes "Broadcast raw \<in> set (fst (act_on h m owner allowEvidence saved plan))"
  obtains i r where "th_review h i = ok r" "validateWorkerReview h m r owner = ok ()" "signed_ok h owner r raw"
    "fst (act_on h m owner allowEvidence saved plan) = [Renew, Sign_request, Save (saved\<lparr>pj_pending := Some (new_pending h r i raw)\<rparr>), Broadcast raw]"
proof (cases plan)
  case (Transact a e)
  then show thesis using assms that by (auto simp: act_on_def elim!: submit_sends)
next
  case (Gather e)
  obtain pr where pr: "fst (th_guards h) = Guard_clear" "th_evidence h e = ok (Some pr)" "outcome_allowed m (pr_outcome pr)"
    using assms Gather by (auto simp: act_on_def in_effects split: if_splits option.splits)
  let ?i = "\<lparr>wk_action = ''assertOutcome'', wk_event = Some e, wk_outcome = Some (pr_outcome pr), wk_hash = Some (pr_hash pr),
     wk_uri = Some (pr_uri pr)\<rparr>"
  have "fst (act_on h m owner allowEvidence saved plan) = fst (submit h m owner allowEvidence saved plan ?i)"
    using Gather pr by (simp add: act_on_def bindA_parts guardA_def)
  then show thesis using assms that by (auto elim!: submit_sends)
qed (use assms in \<open>simp_all add: act_on_def\<close>)

lemma settle_pending_quiet [simp]: "Broadcast raw \<notin> set (fst (settle_pending h saved p r))"
  by (auto simp: settle_pending_def Let_def in_effects)

text \<open>A tick that sends: either it resends the pending transaction, or it submits a new one.\<close>

lemma tick_sends_cases:
  assumes "resolutionTick h m owner enabled allowEvidence = (es, res)" "Broadcast raw \<in> set es"
  obtains (again) saved p tx where "pj_pending saved = Some p" "validatePendingTransaction h m p owner = ok tx" "raw = px_raw p" "enabled"
      "es = [Renew, Save (saved\<lparr>pj_pending := Some (count_up p (th_now h))\<rparr>), Broadcast raw, Release]"
    | (fresh) saved i r where "pj_pending saved = None" "th_review h i = ok r" "validateWorkerReview h m r owner = ok ()"
      "signed_ok h owner r raw" "enabled"
      "es = [Renew, Sign_request, Save (saved\<lparr>pj_pending := Some (new_pending h r i raw)\<rparr>), Broadcast raw, Release]"
proof -
  let ?body = "tick_body h m owner enabled allowEvidence"
  have body: "es = fst ?body @ [Release]" "Broadcast raw \<in> set (fst ?body)"
    using assms by (auto simp: resolutionTick_def liftA_def split: if_splits prod.splits)
  obtain st saved where o: "th_stored h = ok st" "open_journal st m = ok saved"
    using body(2) by (auto simp: tick_body_def in_bindA)
  show thesis
  proof (cases "pj_pending saved")
    case (Some p)
    have eq: "fst ?body = fst (reconcile h m owner enabled saved p)" using o Some by (simp add: tick_body_def bindA_parts)
    obtain tx where tx: "validatePendingTransaction h m p owner = ok tx" "th_receipt h = ok None" "enabled"
      "\<not> (\<not> enabled \<or> \<not> th_can_retry h \<or> th_now h - (case px_lastBroadcastAt p of None \<Rightarrow> 0 | Some t \<Rightarrow> t) < 60)"
      using body(2) unfolding eq
      by (auto simp: reconcile_def in_effects split: if_splits option.splits)
    have "fst (reconcile h m owner enabled saved p) = fst (resubmit h m saved p tx)"
      using tx by (simp add: reconcile_def bindA_parts)
    then show thesis using resubmit_sends [of raw h m saved p tx] body eq again [OF Some tx(1) _ tx(3)] by simp
  next
    case None
    obtain state plan where s: "fst (th_states h) = ok state"
      "nextResolutionAction state owner (pj_owned saved) (pj_deferred saved) allowEvidence = ok plan" "enabled"
      "plan \<noteq> Wait_plan" "plan \<noteq> Complete_plan" "requireHealthyMonitor h m = ok ()"
      using body(2) o None by (auto simp: tick_body_def in_bindA split: if_splits)
    have eq: "fst ?body = fst (act_on h m owner allowEvidence saved plan)"
      using o None s by (simp add: tick_body_def bindA_parts)
    then show thesis using body fresh [OF None _ _ _ s(3)] by (auto elim!: act_on_sends)
  qed
qed

lemma validate_review_ok:
  assumes "validateWorkerReview h m r owner = ok ()"
  obtains c where "pilotCall (th_abi h) m (vr_to r) (vr_data r) = Some c" "List.member worker_actions (call_name c)"
    "requested_call_ok m r c" "gas_ok (vr_gasLimit r) (vr_gasPrice r)"
  using assms by (auto simp: validateWorkerReview_def split: if_splits option.splits)

lemma validate_pending_ok:
  assumes "validatePendingTransaction h m p owner = ok tx"
  obtains signer t c where "th_parse h (px_raw p) = ok tx" "th_recover h (px_raw p) = ok signer" "lower signer = lower owner"
    "tx_chainId tx = 10143" "tx_value tx = 0" "gas_ok (tx_gas tx) (tx_gasPrice tx)" "tx_to tx = Some t"
    "pilotCall (th_abi h) m t (tx_data tx) = Some c" "List.member worker_actions (call_name c)" "pending_call_ok m tx p c"
  using assms by (auto simp: validatePendingTransaction_def split: if_splits option.splits)

section \<open>Properties\<close>


text \<open>A worker that delivers the result of a pool whose two events are final.\<close>

definition demo_final :: resolver_state where
  "demo_final = \<lparr>rv_pool = ''0xpool'', rv_mode = ''release'', rv_ends = [1, 2],
     rv_cases = replicate 2 \<lparr>kc_phase = 3, kc_proposal = 2, kc_asserter = [], kc_evidenceHash = [], kc_challengeUntil = 0,
       kc_voteUntil = 0, kc_assertionDeadline = 0\<rparr>,
     rv_delivered = False, rv_blockNumber = ''9'', rv_timestamp = 1000, rv_poolCash = 5, rv_required = 5\<rparr>"

definition demo_review :: worker_review where
  "demo_review = \<lparr>vr_schema = ''flurbo.pilot-review.v1'', vr_pool = ''0xpool'', vr_rulesHash = ''0xr'', vr_from = ''0xw'', vr_to = ''0xres'',
     vr_data = ''0xabc'', vr_chainId = 10143, vr_value = 0, vr_expiresAt = 1100, vr_timestamp = 1000, vr_requested = ''deliver'',
     vr_req_event = None, vr_req_outcome = None, vr_req_hash = None, vr_req_uri = None, vr_action = ''deliver'', vr_amount = 0,
     vr_gasLimit = 300000, vr_gasPrice = 100\<rparr>"

definition demo_host :: tick_host where
  "demo_host = \<lparr>th_abi = \<lparr>pb_decode = (\<lambda>t p d. Some Deliver_result), pb_encode = (\<lambda>t p c. ''0xabc''), pb_url = (\<lambda>u. None)\<rparr>,
     th_keccak = (\<lambda>x. ''0xh'' @ x),
     th_parse = (\<lambda>x. ok \<lparr>tx_to = Some ''0xRES'', tx_data = ''0xabc'', tx_chainId = 10143, tx_value = 0, tx_nonce = 3, tx_gas = 300000, tx_gasPrice = 100\<rparr>),
     th_recover = (\<lambda>x. ok ''0xW''), th_valid_draft = (\<lambda>m. ok ()), th_stored = ok Nothing_stored, th_receipt = ok None, th_can_retry = True,
     th_retry = ok None, th_monitor = ok (Some \<lparr>mo_identity = ''10143:0xpool:0xres:0xr'', mo_status = ''observed'', mo_checkedAt = 990, mo_queue = 0\<rparr>),
     th_guards = (Guard_clear, Guard_clear), th_verify_pending = ok (), th_states = (ok demo_final, ok demo_final),
     th_evidence = (\<lambda>e. ok None), th_review = (\<lambda>i. ok demo_review), th_sign = (\<lambda>r. ok ''raw''), th_reported = ok None,
     th_renews = ok (), th_saves = ok (), th_now = 1010\<rparr>"

definition broadcasts :: "effect \<Rightarrow> string \<Rightarrow> bool" where
  "broadcasts e raw = (case e of Broadcast r \<Rightarrow> r = raw | _ \<Rightarrow> False)"

lemma broadcastsD: "broadcasts e raw \<Longrightarrow> e = Broadcast raw"
  by (cases e) (simp_all add: broadcasts_def)

lemma demo_tick: "resolutionTick demo_host demo_pilot ''0xw'' True True
    = (fst (resolutionTick demo_host demo_pilot ''0xw'' True True), snd (resolutionTick demo_host demo_pilot ''0xw'' True True))"
  "Broadcast ''raw'' \<in> set (fst (resolutionTick demo_host demo_pilot ''0xw'' True True))"
proof -
  have "list_ex (\<lambda>e. broadcasts e ''raw'') (fst (resolutionTick demo_host demo_pilot ''0xw'' True True))" by code_simp
  then show "Broadcast ''raw'' \<in> set (fst (resolutionTick demo_host demo_pilot ''0xw'' True True))"
    by (auto simp: list_ex_iff dest: broadcastsD)
qed simp


text \<open>C24: Whatever a tick sends is a bounded action of this worker: signed by its account for the Monad
  testnet, without value, within the gas limits, and a call the shared decoder accepts that asserts an
  outcome the mode allows, finalizes, delivers, or approves exactly the bond.\<close>

theorem tick_sends_bounded_calls:
  assumes "resolutionTick h m owner enabled allowEvidence = (es, res)" and "Broadcast raw \<in> set es"
  shows "\<exists>tx t c signer. th_parse h raw = ok tx \<and> th_recover h raw = ok signer \<and> lower signer = lower owner
    \<and> tx_chainId tx = 10143 \<and> tx_value tx = 0 \<and> gas_ok (tx_gas tx) (tx_gasPrice tx)
    \<and> tx_to tx = Some t \<and> pilotCall (th_abi h) m t (tx_data tx) = Some c \<and> List.member worker_actions (call_name c)
    \<and> (\<forall>event outcome eh uri. c = Assert_outcome event outcome eh uri \<longrightarrow> outcome_allowed m outcome)
    \<and> (\<forall>spender amount. c = Approve_cash spender amount \<longrightarrow> lower spender = pl_resolver m \<and> amount = pl_bond m)"
proof (rule tick_sends_cases [OF assms])
  fix saved p tx
  assume a: "validatePendingTransaction h m p owner = ok tx" "raw = px_raw p"
  from validate_pending_ok [OF a(1)] obtain signer t c where c: "th_parse h raw = ok tx" "th_recover h raw = ok signer" "lower signer = lower owner"
    "tx_chainId tx = 10143" "tx_value tx = 0" "gas_ok (tx_gas tx) (tx_gasPrice tx)" "tx_to tx = Some t"
    "pilotCall (th_abi h) m t (tx_data tx) = Some c" "List.member worker_actions (call_name c)" "pending_call_ok m tx p c"
    unfolding a(2) .
  have "\<forall>event outcome eh uri. c = Assert_outcome event outcome eh uri \<longrightarrow> outcome_allowed m outcome"
    "\<forall>spender amount. c = Approve_cash spender amount \<longrightarrow> lower spender = pl_resolver m \<and> amount = pl_bond m"
    using c(10) by (auto simp: pending_call_ok_def)
  then show ?thesis using c(1-9) by blast
next
  fix saved i r
  assume a: "validateWorkerReview h m r owner = ok ()" "signed_ok h owner r raw"
  from validate_review_ok [OF a(1)] obtain c where c: "pilotCall (th_abi h) m (vr_to r) (vr_data r) = Some c"
    "List.member worker_actions (call_name c)" "requested_call_ok m r c" "gas_ok (vr_gasLimit r) (vr_gasPrice r)" .
  obtain tx signer t where t: "th_parse h raw = ok tx" "th_recover h raw = ok signer" "lower signer = lower owner" "tx_chainId tx = 10143"
    "tx_to tx = Some t" "lower t = lower (vr_to r)" "tx_data tx = vr_data r" "tx_value tx = 0" "tx_gas tx = vr_gasLimit r" "tx_gasPrice tx = vr_gasPrice r"
    using a(2) by (auto simp: signed_ok_def split: sum.splits option.splits)
  have p: "pilotCall (th_abi h) m t (tx_data tx) = Some c"
    using c(1) unfolding pilotCall_def target_abi_def t(6,7) .
  have "\<forall>event outcome eh uri. c = Assert_outcome event outcome eh uri \<longrightarrow> outcome_allowed m outcome"
    "\<forall>spender amount. c = Approve_cash spender amount \<longrightarrow> lower spender = pl_resolver m \<and> amount = pl_bond m"
    using c(3) by (auto simp: requested_call_ok_def)
  moreover have "gas_ok (tx_gas tx) (tx_gasPrice tx)" using c(4) t(9,10) by simp
  ultimately show ?thesis using t(1-5,8) c(2) p by blast
qed

lemma tick_sends_bounded_calls_witness:
  "\<exists>tx t c. th_parse demo_host ''raw'' = ok tx \<and> gas_ok (tx_gas tx) (tx_gasPrice tx)
    \<and> tx_to tx = Some t \<and> pilotCall (th_abi demo_host) demo_pilot t (tx_data tx) = Some c"
  using tick_sends_bounded_calls [OF demo_tick] by blast

end
