(* ===== verification/Settlement_Rules.thy ===== *)
theory Settlement_Rules
  imports Complex_Main Texts Dates
begin

text \<open>
  Settlement rules (apps/web/server/settlement-rules.mjs): exact decimals and their comparison, the
  validation of a rule and the timeline that follows from it. A rule is a typed record, so what the
  code checks about unknown keys and JavaScript types holds by construction; the checks of values
  are written out. \<open>URL\<close>, \<open>Date.parse\<close> of an unchecked text and the check of a general reader's own
  configuration (settlement-readers.mjs) are parameters.
\<close>

section \<open>Exact decimals\<close>

text \<open>\<open>/^-?(?:0|[1-9]\d{0,35})(?:\.\d{1,18})?$/\<close>: the sign, the whole digits and the fraction's.\<close>

definition decimal_parts :: "string \<Rightarrow> (bool \<times> string \<times> string) option" where
  "decimal_parts s =
     (let negative = (take 1 s = ''-''); body = (if negative then tl s else s);
          w = takeWhile is_dec body; rest = dropWhile is_dec body in
      if \<not> is_canon_dec w \<or> length w > 36 then None
      else if rest = [] then Some (negative, w, [])
      else if hd rest = CHR ''.'' \<and> chars is_dec 1 18 (tl rest) then Some (negative, w, tl rest) else None)"

text \<open>The coefficient and the scale.\<close>

definition decimal :: "string \<Rightarrow> (int \<times> nat) res" where
  "decimal s = (case decimal_parts s of
     None \<Rightarrow> plain_error
   | Some (negative, w, f) \<Rightarrow> ok (int (str_nat (w @ f)) * (if negative then -1 else 1), length f))"

definition compareDecimal :: "string \<Rightarrow> string \<Rightarrow> int res" where
  "compareDecimal left right = bindE (decimal left) (\<lambda>(a, sa). bindE (decimal right) (\<lambda>(b, sb).
     let s = max sa sb; x = a * 10 ^ (s - sa); y = b * 10 ^ (s - sb) in
     ok (if x < y then -1 else if x > y then 1 else 0)))"

section \<open>Rules\<close>

record web_url =
  wu_protocol :: string
  wu_username :: string
  wu_password :: string
  wu_hash :: string
  wu_href :: string
  wu_origin :: string
  wu_pathname :: string
  wu_params :: "(string \<times> string) list"

datatype decision_type = Number_type | Category_type | Timestamp_type

datatype operator = Op_gt | Op_gte | Op_lt | Op_lte | Op_eq

datatype measured = Text_value string | Time_value int

record rule_decision =
  dn_type :: decision_type
  dn_operator :: operator
  dn_value :: measured

record rule_timing =
  ti_scheduledAt :: int
  ti_publicationCutoff :: int
  ti_correctionCutoff :: int
  ti_observationEndsAt :: int
  ti_assertionPeriod :: int
  ti_challengePeriod :: int
  ti_votingPeriod :: int

datatype vintage = Initial_only | With_corrections | First_snapshot

text \<open>Only \<open>json-record.v1\<close> has field paths and only a general reader has a configuration of its own.\<close>

record settlement_rule =
  sl_schema :: string
  sl_eventId :: string
  sl_question :: string
  sl_sourceId :: string
  sl_publisher :: string
  sl_urls :: "string list"
  sl_adapter :: string
  sl_fields :: "(string \<times> string) list option"
  sl_reader :: json
  sl_series :: string
  sl_period :: string
  sl_unit :: string
  sl_decision :: rule_decision
  sl_timing :: rule_timing
  sl_vintage :: vintage
  sl_missingPolicy :: string

record rule_host =
  ho_url :: "string \<Rightarrow> web_url option"
  ho_reader :: "settlement_rule \<Rightarrow> unit res"
  ho_date :: "string \<Rightarrow> int option"

definition SETTLEMENT_SCHEMA :: string where
  "SETTLEMENT_SCHEMA = ''flurbo.settlement-rule.v1''"

definition GENERAL_ADAPTERS :: "string list" where
  "GENERAL_ADAPTERS = [''json-api.v1'', ''stat-table.v1'', ''html-text.v1'', ''evm-rpc.v1'']"

definition SETTLEMENT_ADAPTERS :: "string list" where
  "SETTLEMENT_ADAPTERS = [''json-record.v1'', ''bls-employment-html.v1'', ''fomc-statement-html.v1'', ''usgs-earthquake-count.v1''] @ GENERAL_ADAPTERS"

definition is_natural :: "int \<Rightarrow> bool" where
  "is_natural v = (0 \<le> v \<and> v \<le> max_safe)"

definition rule_text :: "string \<Rightarrow> bool" where
  "rule_text v = (js_trim v = v \<and> 0 < length v \<and> length v \<le> 500)"

definition sourceUrl :: "rule_host \<Rightarrow> string \<Rightarrow> bool" where
  "sourceUrl h v = (case ho_url h v of None \<Rightarrow> False | Some u \<Rightarrow>
     wu_protocol u = ''https:'' \<and> wu_username u = [] \<and> wu_password u = [] \<and> wu_hash u = [] \<and> wu_href u = v)"

text \<open>\<open>/^\/(?:[^~]|~[01])*$/\<close> and at most 500 characters.\<close>

fun pointer_tail :: "string \<Rightarrow> bool" where
  "pointer_tail [] = True"
| "pointer_tail (c # cs) = (if c = CHR ''~'' then (case cs of [] \<Rightarrow> False | d # ds \<Rightarrow> (d = CHR ''0'' \<or> d = CHR ''1'') \<and> pointer_tail ds)
     else pointer_tail cs)"

definition field_path :: "string \<Rightarrow> bool" where
  "field_path v = (take 1 v = ''/'' \<and> pointer_tail (tl v) \<and> length v \<le> 500)"

definition RECORD_FIELDS :: "string list" where
  "RECORD_FIELDS = [''id'', ''series'', ''period'', ''unit'', ''publishedAt'', ''kind'', ''value'']"

definition fields_ok :: "(string \<times> string) list option \<Rightarrow> bool" where
  "fields_ok fs = (case fs of None \<Rightarrow> False | Some kvs \<Rightarrow>
     list_all (\<lambda>(k, _). List.member (RECORD_FIELDS @ [''supersedesId'']) k) kvs
     \<and> list_all (\<lambda>k. map_of kvs k \<noteq> None) RECORD_FIELDS \<and> list_all (\<lambda>(_, v). field_path v) kvs)"

definition is_general :: "settlement_rule \<Rightarrow> bool" where
  "is_general r = List.member GENERAL_ADAPTERS (sl_adapter r)"

definition source_ok :: "rule_host \<Rightarrow> settlement_rule \<Rightarrow> bool" where
  "source_ok h r = (rule_text (sl_sourceId r) \<and> rule_text (sl_publisher r) \<and> List.member SETTLEMENT_ADAPTERS (sl_adapter r)
     \<and> sl_urls r \<noteq> [] \<and> length (sl_urls r) \<le> 32 \<and> distinct (sl_urls r) \<and> list_all (sourceUrl h) (sl_urls r)
     \<and> (if sl_adapter r = ''json-record.v1'' then fields_ok (sl_fields r) else sl_fields r = None))"

definition decision_ok :: "rule_decision \<Rightarrow> bool" where
  "decision_ok d = (case (dn_type d, dn_value d) of
     (Category_type, Text_value v) \<Rightarrow> dn_operator d = Op_eq \<and> rule_text v
   | (Number_type, Text_value v) \<Rightarrow> decimal_parts v \<noteq> None
   | (Timestamp_type, Time_value t) \<Rightarrow> is_natural t
   | _ \<Rightarrow> False)"

definition timing_ok :: "rule_timing \<Rightarrow> bool" where
  "timing_ok t = (list_all is_natural [ti_scheduledAt t, ti_publicationCutoff t, ti_correctionCutoff t, ti_observationEndsAt t,
       ti_assertionPeriod t, ti_challengePeriod t, ti_votingPeriod t]
     \<and> ti_scheduledAt t \<le> ti_publicationCutoff t \<and> ti_publicationCutoff t \<le> ti_correctionCutoff t
     \<and> ti_observationEndsAt t = ti_correctionCutoff t
     \<and> 3600 \<le> ti_assertionPeriod t \<and> ti_assertionPeriod t \<le> 30 * 86400
     \<and> 3600 \<le> ti_challengePeriod t \<and> ti_challengePeriod t \<le> 7 * 86400
     \<and> 3600 \<le> ti_votingPeriod t \<and> ti_votingPeriod t \<le> 7 * 86400
     \<and> ti_observationEndsAt t + ti_assertionPeriod t + ti_challengePeriod t + ti_votingPeriod t \<le> max_safe)"

definition vintage_ok :: "settlement_rule \<Rightarrow> bool" where
  "vintage_ok r = (sl_missingPolicy r = ''resolver-timeout-void''
     \<and> (sl_vintage r \<noteq> With_corrections \<longrightarrow> ti_correctionCutoff (sl_timing r) = ti_publicationCutoff (sl_timing r))
     \<and> (sl_vintage r = First_snapshot \<longrightarrow> sl_adapter r = ''usgs-earthquake-count.v1'' \<or> is_general r))"

text \<open>An interval end: seconds or seconds with \<open>.000\<close>, and a date that exists.\<close>

definition month_length :: "int \<Rightarrow> int \<Rightarrow> int" where
  "month_length y m = (if m = 2 then (if leap_year y then 29 else 28) else if m = 4 \<or> m = 6 \<or> m = 9 \<or> m = 11 then 30 else 31)"

definition exact_iso :: "string \<Rightarrow> int option" where
  "exact_iso s =
     (if \<not> fits ''####-##-##T##:##:##Z'' s \<and> \<not> (fits ''####-##-##T##:##:##.###Z'' s \<and> drop 19 s = ''.000Z'') then None
      else if number_at 8 2 s > month_length (number_at 0 4 s) (number_at 5 2 s) \<or> number_at 11 2 s > 23 then None
      else map_option (\<lambda>ms. ms div 1000) (date_parse s))"

definition usgs_expected :: "string list \<Rightarrow> (string \<times> string) list" where
  "usgs_expected parts = [(''format'', ''geojson''), (''starttime'', parts ! 0), (''endtime'', parts ! 1),
     (''eventtype'', ''earthquake''), (''orderby'', ''time-asc'')]"

definition usgsQuery :: "rule_host \<Rightarrow> settlement_rule \<Rightarrow> (int \<times> int \<times> string) res" where
  "usgsQuery h r = (let parts = split_on CHR ''/'' (sl_period r) in case map exact_iso parts of
     [Some start, Some stop] \<Rightarrow>
       (if start \<ge> stop \<or> stop - start > 86400 \<or> ti_scheduledAt (sl_timing r) < stop then plain_error
        else (case sl_urls r of
          [u] \<Rightarrow> (case ho_url h u of
             None \<Rightarrow> Inl (Other_error ''TypeError'')
           | Some url \<Rightarrow>
               (if wu_origin url \<noteq> ''https://earthquake.usgs.gov'' \<or> wu_pathname url \<noteq> ''/fdsnws/event/1/query''
                   \<or> length (wu_params url) \<noteq> 5 \<or> \<not> distinct (map fst (wu_params url))
                   \<or> list_ex (\<lambda>(k, v). map_of (wu_params url) k \<noteq> Some v) (usgs_expected parts) then plain_error
                else ok (start, stop, wu_href url)))
        | _ \<Rightarrow> plain_error))
   | _ \<Rightarrow> plain_error)"

definition bls_url :: "string \<Rightarrow> bool" where
  "bls_url u = fits ''https://www.bls.gov/news.release/archives/empsit_########.htm'' u"

definition fomc_url :: "string \<Rightarrow> string \<Rightarrow> bool" where
  "fomc_url period u = (u = ''https://www.federalreserve.gov/newsevents/pressreleases/monetary''
     @ filter (\<lambda>c. c \<noteq> CHR ''-'') period @ ''a.htm'')"

definition adapter_ok :: "settlement_rule \<Rightarrow> bool" where
  "adapter_ok r =
     ((sl_adapter r = ''bls-employment-html.v1'' \<longrightarrow> sl_series r = ''LNS14000000'' \<and> sl_unit r = ''percent''
        \<and> dn_type (sl_decision r) = Number_type \<and> fits ''####-##'' (sl_period r)
        \<and> 1 \<le> number_at 5 2 (sl_period r) \<and> number_at 5 2 (sl_period r) \<le> 12 \<and> list_all bls_url (sl_urls r))
      \<and> (sl_adapter r = ''fomc-statement-html.v1'' \<longrightarrow> sl_series r = ''announced-target-upper-bound'' \<and> sl_unit r = ''percent''
        \<and> dn_type (sl_decision r) = Number_type \<and> fits ''####-##-##'' (sl_period r) \<and> list_all (fomc_url (sl_period r)) (sl_urls r))
      \<and> (sl_adapter r = ''usgs-earthquake-count.v1'' \<longrightarrow> sl_series r = ''catalogue-event-count'' \<and> sl_unit r = ''events''
        \<and> dn_type (sl_decision r) = Number_type \<and> sl_vintage r = First_snapshot
        \<and> (case dn_value (sl_decision r) of Text_value v \<Rightarrow> is_canon_dec v | Time_value _ \<Rightarrow> False)))"

definition validateSettlementRule :: "rule_host \<Rightarrow> settlement_rule \<Rightarrow> unit res" where
  "validateSettlementRule h r =
     (if sl_schema r \<noteq> SETTLEMENT_SCHEMA \<or> \<not> rule_text (sl_eventId r) \<or> \<not> rule_text (sl_question r) then plain_error
      else if \<not> source_ok h r then plain_error
      else if \<not> (rule_text (sl_series r) \<and> rule_text (sl_period r) \<and> rule_text (sl_unit r)) then plain_error
      else if \<not> decision_ok (sl_decision r) then plain_error
      else if \<not> timing_ok (sl_timing r) then plain_error
      else if \<not> vintage_ok r then plain_error
      else bindE (if is_general r then ho_reader h r else ok ()) (\<lambda>_.
        if \<not> adapter_ok r then plain_error
        else if sl_adapter r = ''usgs-earthquake-count.v1'' then bindE (usgsQuery h r) (\<lambda>_. ok ())
        else ok ()))"

section \<open>Authoring policy and timeline\<close>

definition SNAPSHOT_SETTLE_SECONDS :: int where
  "SNAPSHOT_SETTLE_SECONDS = 3 * 3600"

definition intervalEnd :: "rule_host \<Rightarrow> string \<Rightarrow> int option" where
  "intervalEnd h period = (case split_on CHR ''/'' period of
     [_, e] \<Rightarrow> (if fits ''####-##-##T'' (take 11 e) then map_option (\<lambda>ms. ms div 1000) (ho_date h e) else None)
   | _ \<Rightarrow> None)"

text \<open>Whether a snapshot opens too soon after the interval it describes; the chain reader is exempt.\<close>

definition opens_too_soon :: "rule_host \<Rightarrow> settlement_rule \<Rightarrow> bool" where
  "opens_too_soon h r = (sl_vintage r = First_snapshot \<and> sl_adapter r \<noteq> ''evm-rpc.v1''
     \<and> (case intervalEnd h (sl_period r) of None \<Rightarrow> False
        | Some e \<Rightarrow> ti_scheduledAt (sl_timing r) - e < SNAPSHOT_SETTLE_SECONDS))"

definition assertSettlementRuleAuthoring :: "rule_host \<Rightarrow> settlement_rule \<Rightarrow> unit res" where
  "assertSettlementRuleAuthoring h r = bindE (validateSettlementRule h r) (\<lambda>_.
     if opens_too_soon h r then plain_error else ok ())"

record rule_timeline =
  tl_closesAt :: int
  tl_earliestAssertion :: int
  tl_assertionDeadline :: int
  tl_earliestFinal :: int
  tl_latestUnchallenged :: int
  tl_latestDisputed :: int
  tl_missingVoid :: int
  tl_minimumLock :: int

definition settlementTimeline :: "rule_host \<Rightarrow> settlement_rule \<Rightarrow> int \<Rightarrow> rule_timeline res" where
  "settlementTimeline h r closesAt = bindE (validateSettlementRule h r) (\<lambda>_.
     let t = sl_timing r; deadline = ti_observationEndsAt t + ti_assertionPeriod t in
     if \<not> is_natural closesAt \<or> closesAt \<ge> ti_observationEndsAt t then plain_error
     else ok \<lparr>tl_closesAt = closesAt, tl_earliestAssertion = ti_observationEndsAt t, tl_assertionDeadline = deadline,
       tl_earliestFinal = ti_observationEndsAt t + ti_challengePeriod t, tl_latestUnchallenged = deadline + ti_challengePeriod t,
       tl_latestDisputed = deadline + ti_challengePeriod t + ti_votingPeriod t, tl_missingVoid = deadline,
       tl_minimumLock = ti_observationEndsAt t + ti_challengePeriod t - closesAt\<rparr>)"

section \<open>Lemmas\<close>

text \<open>The rational number a decimal stands for.\<close>

definition decimal_value :: "int \<times> nat \<Rightarrow> rat" where
  "decimal_value = (\<lambda>(c, s). of_int c / 10 ^ s)"

lemma decimal_value_le:
  "decimal_value (c, s) < decimal_value (d, t) \<longleftrightarrow> c * 10 ^ (max s t - s) < d * 10 ^ (max s t - t)"
proof -
  have p: "(10 :: rat) ^ max s t = 10 ^ s * 10 ^ (max s t - s)" "(10 :: rat) ^ max s t = 10 ^ t * 10 ^ (max s t - t)"
    by (simp_all flip: power_add)
  have c: "decimal_value (c, s) = of_int (c * 10 ^ (max s t - s)) / 10 ^ max s t"
    by (simp add: decimal_value_def p(1))
  have d: "decimal_value (d, t) = of_int (d * 10 ^ (max s t - t)) / 10 ^ max s t"
    by (simp add: decimal_value_def p(2))
  show ?thesis unfolding c d by (simp add: divide_less_cancel del: of_int_mult of_int_power)
qed

lemma validateSettlementRule_timing: "validateSettlementRule h r = ok u \<Longrightarrow> timing_ok (sl_timing r)"
  by (auto simp: validateSettlementRule_def split: if_splits)

section \<open>Properties\<close>

text \<open>Comparing two decimal texts is comparing the rational numbers they stand for: the answer is -1, 0 or
  1 as the left number is smaller, equal or greater, whatever their scales.\<close>

theorem compare_decimal_exact:
  assumes "decimal a = ok x" and "decimal b = ok y"
  shows "compareDecimal a b = ok (if decimal_value x < decimal_value y then -1 else if decimal_value x > decimal_value y then 1 else 0)"
proof -
  obtain c s d t where xy: "x = (c, s)" "y = (d, t)" by (cases x; cases y)
  show ?thesis
    using assms decimal_value_le [of c s d t] decimal_value_le [of d t c s]
    by (simp add: compareDecimal_def Let_def xy max.commute)
qed

lemma compare_decimal_exact_witness: "compareDecimal ''-1.50'' ''2.5'' = ok (-1) \<and> compareDecimal ''2.50'' ''2.5'' = ok 0"
proof -
  have d: "decimal ''-1.50'' = ok (-150, 2)" "decimal ''2.5'' = ok (25, 1)" "decimal ''2.50'' = ok (250, 2)" by code_simp+
  show ?thesis using compare_decimal_exact [OF d(1,2)] compare_decimal_exact [OF d(3,2)] by (simp add: decimal_value_def)
qed

text \<open>The timeline of a valid rule is ordered and exact: trading closes before the first assertion, every
  later deadline lies after the ones before it and is a safe integer, and collateral is locked for at
  least an hour and for at most 44 days after observation ends.\<close>

theorem timeline_ordered:
  assumes "settlementTimeline h r closesAt = ok t"
  shows "tl_closesAt t < tl_earliestAssertion t \<and> tl_earliestAssertion t < tl_assertionDeadline t
    \<and> tl_missingVoid t = tl_assertionDeadline t \<and> tl_earliestAssertion t < tl_earliestFinal t
    \<and> tl_earliestFinal t < tl_latestUnchallenged t \<and> tl_assertionDeadline t < tl_latestUnchallenged t
    \<and> tl_latestUnchallenged t < tl_latestDisputed t \<and> tl_latestDisputed t \<le> max_safe
    \<and> 3600 \<le> tl_minimumLock t \<and> tl_latestDisputed t - tl_earliestAssertion t \<le> 44 * 86400"
proof -
  have "timing_ok (sl_timing r)" using assms validateSettlementRule_timing by (auto simp: settlementTimeline_def)
  then show ?thesis
    using assms by (auto simp: settlementTimeline_def Let_def timing_ok_def is_natural_def split: if_splits)
qed

definition demo_rule_host :: rule_host where
  "demo_rule_host = \<lparr>ho_url = (\<lambda>u. Some \<lparr>wu_protocol = ''https:'', wu_username = [], wu_password = [], wu_hash = [], wu_href = u,
     wu_origin = ''https://api.example.org'', wu_pathname = ''/v'', wu_params = []\<rparr>), ho_reader = (\<lambda>r. ok ()), ho_date = (\<lambda>s. None)\<rparr>"

definition demo_rule :: settlement_rule where
  "demo_rule = \<lparr>sl_schema = ''flurbo.settlement-rule.v1'', sl_eventId = ''rate'', sl_question = ''Is the rate above 2.5?'',
     sl_sourceId = ''rates'', sl_publisher = ''Office'', sl_urls = [''https://api.example.org/v''], sl_adapter = ''json-api.v1'',
     sl_fields = None, sl_reader = JObj [], sl_series = ''rate'', sl_period = ''2026-01'', sl_unit = ''percent'',
     sl_decision = \<lparr>dn_type = Number_type, dn_operator = Op_gt, dn_value = Text_value ''2.5''\<rparr>,
     sl_timing = \<lparr>ti_scheduledAt = 1000, ti_publicationCutoff = 5000, ti_correctionCutoff = 5000, ti_observationEndsAt = 5000,
       ti_assertionPeriod = 7200, ti_challengePeriod = 3600, ti_votingPeriod = 3600\<rparr>,
     sl_vintage = Initial_only, sl_missingPolicy = ''resolver-timeout-void''\<rparr>"

lemma demo_rule_valid: "validateSettlementRule demo_rule_host demo_rule = ok ()"
  by code_simp

lemma timeline_ordered_witness: "3600 \<le> tl_minimumLock (case settlementTimeline demo_rule_host demo_rule 900 of Inr t \<Rightarrow> t)"
proof -
  obtain t where t: "settlementTimeline demo_rule_host demo_rule 900 = ok t"
    using demo_rule_valid by (auto simp: settlementTimeline_def Let_def demo_rule_def is_natural_def max_safe_def)
  show ?thesis using timeline_ordered [OF t] t by simp
qed

end
