(* ===== verification/Settlement_Evidence.thy ===== *)
theory Settlement_Evidence
  imports Settlement_Rules "HOL-Library.List_Lexorder" "HOL-Library.Char_ord"
begin

text \<open>
  Deterministic settlement (apps/web/server/settlement-evidence.mjs): a retained capture becomes a
  checked record, and a rule with its captures becomes an evaluation: waiting, unresolved with a
  reason, timed out, or ready with an outcome and a packet that replays. The readers of pages and of
  the general formats, \<open>JSON.parse\<close> with its duplicate check, the order of \<open>localeCompare\<close> and the
  hashes of rules and packets are parameters. A JSON number with a fraction has no exact text in
  the model; rules and records carry exact decimal strings instead.
\<close>

section \<open>Captures and records\<close>

record capture =
  cp_requestedUrl :: string
  cp_finalUrl :: string
  cp_fetchedAt :: int
  cp_status :: int
  cp_complete :: bool
  cp_body :: string
  cp_bytes :: int
  cp_sha256 :: string
  cp_contentType :: "string option"

text \<open>What a reader extracts; nothing is checked yet.\<close>

record raw_record =
  ra_id :: json
  ra_series :: json
  ra_period :: json
  ra_unit :: json
  ra_publishedAt :: json
  ra_kind :: json
  ra_value :: json
  ra_supersedesId :: json

datatype record_kind = Initial | Correction | Revision | Cancelled | Correction_notice

record source_record =
  so_id :: string
  so_kind :: record_kind
  so_publishedAt :: int
  so_value :: json
  so_supersedesId :: json
  so_fetchedAt :: int
  so_finalUrl :: string

record readers =
  rd_rules :: rule_host
  rd_json :: "string \<Rightarrow> json res"
  rd_general :: "settlement_rule \<Rightarrow> capture \<Rightarrow> raw_record res"
  rd_bls :: "settlement_rule \<Rightarrow> string \<Rightarrow> raw_record res"
  rd_fed :: "settlement_rule \<Rightarrow> string \<Rightarrow> raw_record res"
  rd_digest :: "string \<Rightarrow> string"
  rd_locale :: "string \<Rightarrow> string \<Rightarrow> bool"

abbreviation issue :: "string \<Rightarrow> 'a res" where
  "issue reason \<equiv> Inl (Other_error reason)"

definition MAX_BYTES :: int where
  "MAX_BYTES = 2000000"

text \<open>JSON pointers, as \<open>path.slice(1).split('/')\<close> with \<open>~1\<close> and then \<open>~0\<close> replaced.\<close>

fun replace_pair :: "char \<Rightarrow> char \<Rightarrow> string \<Rightarrow> string" where
  "replace_pair d r [] = []"
| "replace_pair d r (c # cs) = (case cs of [] \<Rightarrow> [c]
     | e # es \<Rightarrow> if c = CHR ''~'' \<and> e = d then r # replace_pair d r es else c # replace_pair d r cs)"

definition pointer_tokens :: "string \<Rightarrow> string list" where
  "pointer_tokens path = map (\<lambda>t. replace_pair CHR ''0'' CHR ''~'' (replace_pair CHR ''1'' CHR ''/'' t)) (split_on CHR ''/'' (tl path))"

text \<open>An own property of an object, or an index or the length of an array.\<close>

definition own :: "json \<Rightarrow> string \<Rightarrow> json option" where
  "own v k = (case v of
     JObj kvs \<Rightarrow> map_of kvs k
   | JArr xs \<Rightarrow> (if is_canon_dec k \<and> str_nat k < length xs then Some (xs ! str_nat k)
       else if k = ''length'' then Some (JInt (int (length xs))) else None)
   | _ \<Rightarrow> None)"

definition pointer :: "json \<Rightarrow> string \<Rightarrow> json res" where
  "pointer doc path = foldE (\<lambda>v t. case own v t of None \<Rightarrow> issue ''EXTRACTION_MISSING_FIELD'' | Some w \<Rightarrow> ok w) doc (pointer_tokens path)"

definition field_of :: "json \<Rightarrow> (string \<times> string) list \<Rightarrow> string \<Rightarrow> json res" where
  "field_of doc fs k = (case map_of fs k of None \<Rightarrow> ok JUndef | Some path \<Rightarrow> pointer doc path)"

definition jsonRecord :: "readers \<Rightarrow> string \<Rightarrow> settlement_rule \<Rightarrow> raw_record res" where
  "jsonRecord rd body r = bindE (rd_json rd body) (\<lambda>doc.
     let fs = (case sl_fields r of None \<Rightarrow> [] | Some f \<Rightarrow> f); get = field_of doc fs in
     bindE (get ''id'') (\<lambda>i. bindE (get ''series'') (\<lambda>s. bindE (get ''period'') (\<lambda>p. bindE (get ''unit'') (\<lambda>u.
     bindE (get ''publishedAt'') (\<lambda>t. bindE (get ''kind'') (\<lambda>k. bindE (get ''value'') (\<lambda>v. bindE (get ''supersedesId'') (\<lambda>x.
       ok \<lparr>ra_id = i, ra_series = s, ra_period = p, ra_unit = u, ra_publishedAt = t, ra_kind = k, ra_value = v,
         ra_supersedesId = x\<rparr>)))))))))"

definition observed :: "settlement_rule \<Rightarrow> json \<Rightarrow> json \<Rightarrow> json \<Rightarrow> raw_record" where
  "observed r i v t = \<lparr>ra_id = i, ra_series = JStr (sl_series r), ra_period = JStr (sl_period r), ra_unit = JStr (sl_unit r),
     ra_publishedAt = t, ra_kind = JStr ''initial'', ra_value = v, ra_supersedesId = JUndef\<rparr>"

definition usgs_feature :: "int \<Rightarrow> int \<Rightarrow> string list \<Rightarrow> json \<Rightarrow> string list res" where
  "usgs_feature start stop ids f = (case (jget f ''id'', jget (jget f ''properties'') ''time'') of
     (JStr i, JInt t) \<Rightarrow>
       (if jget f ''type'' \<noteq> JStr ''Feature'' \<or> i = [] \<or> length i > 128 \<or> List.member ids i
           \<or> jget (jget f ''properties'') ''type'' \<noteq> JStr ''earthquake'' \<or> \<not> is_safe_int (JInt t)
           \<or> t < start * 1000 \<or> t > stop * 1000 then issue ''USGS_EVENT_INVALID''
        else ok (i # ids))
   | _ \<Rightarrow> issue ''USGS_EVENT_INVALID'')"

definition usgsRecord :: "readers \<Rightarrow> string \<Rightarrow> settlement_rule \<Rightarrow> raw_record res" where
  "usgsRecord rd body r = bindE (rd_json rd body) (\<lambda>doc. bindE (usgsQuery (rd_rules rd) r) (\<lambda>(start, stop, href).
     let meta = jget doc ''metadata'' in
     case (items (jget doc ''features''), jget meta ''count'', jget meta ''generated'') of
       (Some fs, JInt n, JInt g) \<Rightarrow>
         (if jget doc ''type'' \<noteq> JStr ''FeatureCollection'' \<or> jget meta ''status'' \<noteq> JInt 200
             \<or> n < 0 \<or> n > 20000 \<or> n \<noteq> int (length fs) \<or> \<not> is_natural g \<or> jget meta ''url'' \<noteq> JStr href
          then issue ''USGS_CATALOGUE_INCOMPLETE''
          else bindE (foldE (usgs_feature start stop) [] fs) (\<lambda>_.
            ok (observed r (JStr (''usgs-catalogue:'' @ int_str g @ '':'' @ rd_digest rd body)) (JStr (int_str n)) (JInt (g div 1000)))))
     | _ \<Rightarrow> issue ''USGS_CATALOGUE_INCOMPLETE''))"

text \<open>\<open>/^application\/(?:json|[^;]+\+json)(?:;|$)/i\<close> and \<open>/^text\/html(?:;|$)/i\<close>.\<close>

definition ends_with :: "string \<Rightarrow> string \<Rightarrow> bool" where
  "ends_with suffix s = (drop (length s - length suffix) s = suffix \<and> length suffix \<le> length s)"

definition media_type :: "string option \<Rightarrow> string" where
  "media_type ct = (case ct of None \<Rightarrow> [] | Some s \<Rightarrow> hd (split_on CHR '';'' (lower s)))"

definition is_json_type :: "string option \<Rightarrow> bool" where
  "is_json_type ct = (let t = media_type ct in take 12 t = ''application/''
     \<and> (drop 12 t = ''json'' \<or> length (drop 12 t) > 5 \<and> ends_with ''+json'' (drop 12 t)))"

definition json_adapter :: "settlement_rule \<Rightarrow> bool" where
  "json_adapter r = (sl_adapter r = ''json-record.v1'' \<or> sl_adapter r = ''usgs-earthquake-count.v1'')"

definition read_record :: "readers \<Rightarrow> settlement_rule \<Rightarrow> capture \<Rightarrow> raw_record res" where
  "read_record rd r c =
     (if is_general r then rd_general rd r c
      else if sl_adapter r = ''json-record.v1'' then jsonRecord rd (cp_body c) r
      else if sl_adapter r = ''usgs-earthquake-count.v1'' then usgsRecord rd (cp_body c) r
      else if sl_adapter r = ''bls-employment-html.v1'' then rd_bls rd r (cp_body c)
      else rd_fed rd r (cp_body c))"

definition kind_of :: "json \<Rightarrow> record_kind option" where
  "kind_of v = (if v = JStr ''initial'' then Some Initial else if v = JStr ''correction'' then Some Correction
     else if v = JStr ''revision'' then Some Revision else if v = JStr ''cancelled'' then Some Cancelled
     else if v = JStr ''correction-notice'' then Some Correction_notice else None)"

definition carries_value :: "record_kind \<Rightarrow> bool" where
  "carries_value k = (k = Initial \<or> k = Correction \<or> k = Revision)"

definition value_ok :: "decision_type \<Rightarrow> json \<Rightarrow> bool" where
  "value_ok t v = (case (t, v) of
     (Number_type, JStr s) \<Rightarrow> decimal_parts s \<noteq> None
   | (Timestamp_type, JInt i) \<Rightarrow> is_natural i
   | (Category_type, JStr s) \<Rightarrow> s \<noteq> [] \<and> length s \<le> 500
   | _ \<Rightarrow> False)"

definition check_record :: "settlement_rule \<Rightarrow> capture \<Rightarrow> raw_record \<Rightarrow> source_record res" where
  "check_record r c w =
     (if ra_series w \<noteq> JStr (sl_series r) \<or> ra_period w \<noteq> JStr (sl_period r) \<or> ra_unit w \<noteq> JStr (sl_unit r)
      then issue ''OBSERVATION_IDENTITY_MISMATCH''
      else (case (ra_id w, kind_of (ra_kind w), ra_publishedAt w) of
        (JStr i, Some k, JInt t) \<Rightarrow>
          (if i = [] \<or> length i > 500 \<or> \<not> is_natural t \<or> t > cp_fetchedAt c then issue ''RECORD_METADATA_INVALID''
           else if (k = Correction \<or> k = Correction_notice)
             \<and> (case ra_supersedesId w of JStr s \<Rightarrow> s = [] \<or> s = i | _ \<Rightarrow> True) then issue ''CORRECTION_TARGET_MISSING''
           else if carries_value k \<and> \<not> value_ok (dn_type (sl_decision r)) (ra_value w) then issue ''VALUE_INVALID''
           else ok \<lparr>so_id = i, so_kind = k, so_publishedAt = t, so_value = ra_value w, so_supersedesId = ra_supersedesId w,
             so_fetchedAt = cp_fetchedAt c, so_finalUrl = cp_finalUrl c\<rparr>)
      | _ \<Rightarrow> issue ''RECORD_METADATA_INVALID''))"

definition parseSettlementCapture :: "readers \<Rightarrow> settlement_rule \<Rightarrow> capture \<Rightarrow> int \<Rightarrow> source_record res" where
  "parseSettlementCapture rd r c now = bindE (validateSettlementRule (rd_rules rd) r) (\<lambda>_.
     if \<not> is_natural now \<or> \<not> is_natural (cp_fetchedAt c) \<or> cp_fetchedAt c > now then issue ''CAPTURE_TIME_INVALID''
     else if \<not> List.member (sl_urls r) (cp_requestedUrl c) \<or> cp_finalUrl c \<noteq> cp_requestedUrl c then issue ''SOURCE_URL_MISMATCH''
     else if cp_status c \<noteq> 200 \<or> \<not> cp_complete c then issue ''CAPTURE_INCOMPLETE''
     else if cp_body c = [] \<or> int (length (cp_body c)) > MAX_BYTES \<or> cp_bytes c \<noteq> int (length (cp_body c))
       \<or> cp_sha256 c \<noteq> rd_digest rd (cp_body c) then issue ''CAPTURE_INTEGRITY_FAILED''
     else if \<not> is_general r \<and> \<not> (if json_adapter r then is_json_type (cp_contentType c) else media_type (cp_contentType c) = ''text/html'')
       then issue ''CONTENT_TYPE_MISMATCH''
     else bindE (read_record rd r c) (check_record r c))"

section \<open>Canonical text\<close>

definition quote_char :: "char \<Rightarrow> string" where
  "quote_char c =
     (let bs = char_of (92 :: nat) in
      if code c = 34 \<or> code c = 92 then [bs, c]
      else if code c = 8 then [bs, CHR ''b''] else if code c = 9 then [bs, CHR ''t''] else if code c = 10 then [bs, CHR ''n'']
      else if code c = 12 then [bs, CHR ''f''] else if code c = 13 then [bs, CHR ''r'']
      else if code c < 32 then bs # CHR ''u'' # pad_start 4 (hex_str (code c))
      else [c])"

definition json_quote :: "string \<Rightarrow> string" where
  "json_quote s = char_of (34 :: nat) # concat (map quote_char s) @ [char_of (34 :: nat)]"

fun canonical_text :: "json \<Rightarrow> string" where
  "canonical_text (JArr xs) = CHR ''['' # join_with '','' (map canonical_text xs) @ '']''"
| "canonical_text (JObj kvs) = CHR ''{'' # join_with '','' (map (\<lambda>(k, s). json_quote k @ CHR '':'' # s)
     (sort_key fst (map (\<lambda>(k, v). (k, canonical_text v)) kvs))) @ ''}''"
| "canonical_text (JStr s) = json_quote s"
| "canonical_text v = js_string v"

section \<open>Evaluation\<close>

record packet =
  kt_ruleHash :: string
  kt_rule :: settlement_rule
  kt_evaluatedAt :: int
  kt_outcome :: int
  kt_replayedAt :: "int option"
  kt_selectedId :: string
  kt_measured :: json
  kt_records :: "source_record list"
  kt_captures :: "capture list"
  kt_excluded :: "source_record list"

datatype evaluation_status = Terminal | Timeout_status | Waiting_status | Unresolved | Ready_status

record evaluation =
  ev_status :: evaluation_status
  ev_reason :: string
  ev_issues :: "string list"
  ev_packet :: "(packet \<times> string) option"

record hashes =
  hs_rule :: "settlement_rule \<Rightarrow> string"
  hs_packet :: "packet \<Rightarrow> string"

definition result :: "evaluation_status \<Rightarrow> string \<Rightarrow> evaluation" where
  "result s reason = \<lparr>ev_status = s, ev_reason = reason, ev_issues = [], ev_packet = None\<rparr>"

text \<open>The reason an error carries; errors of the language carry none.\<close>

fun reason_of :: "js_error \<Rightarrow> string" where
  "reason_of (Other_error r) = (if List.member [''Error'', ''SyntaxError'', ''TypeError''] r then ''CAPTURE_INVALID'' else r)"
| "reason_of (Flurbo _) = ''CAPTURE_INVALID''"

definition identity_of :: "source_record \<Rightarrow> string \<times> record_kind \<times> string \<times> int \<times> string" where
  "identity_of r = (so_id r, so_kind r, canonical_text (so_value r), so_publishedAt r,
     canonical_text (if so_supersedesId r = JUndef \<or> so_supersedesId r = JNull then JStr [] else so_supersedesId r))"

definition is_cancelled :: "rule_timing \<Rightarrow> source_record \<Rightarrow> bool" where
  "is_cancelled t r = (so_kind r = Cancelled \<and> so_publishedAt r \<le> ti_publicationCutoff t)"

text \<open>The initial records a rule may settle on.\<close>

definition first_fetched :: "source_record list \<Rightarrow> source_record list" where
  "first_fetched rs = filter (\<lambda>r. list_all (\<lambda>q. so_fetchedAt r \<le> so_fetchedAt q) rs) rs"

definition in_window :: "rule_timing \<Rightarrow> source_record \<Rightarrow> bool" where
  "in_window t r = (ti_scheduledAt t \<le> so_publishedAt r \<and> ti_scheduledAt t \<le> so_fetchedAt r \<and> so_fetchedAt r \<le> ti_publicationCutoff t)"

definition initials_of :: "settlement_rule \<Rightarrow> source_record list \<Rightarrow> source_record list res" where
  "initials_of r records =
     (let t = sl_timing r; initials = filter (\<lambda>x. so_kind x = Initial \<and> so_publishedAt x \<le> ti_publicationCutoff t) records;
          early = filter (\<lambda>x. so_publishedAt x < ti_scheduledAt t) initials;
          later = filter (\<lambda>x. ti_scheduledAt t \<le> so_publishedAt x) initials in
      if is_general r \<and> sl_vintage r = Initial_only then
        (if later = [] \<and> early \<noteq> [] then issue ''RELEASED_BEFORE_OBSERVATION_WINDOW'' else ok later)
      else if sl_vintage r = First_snapshot then
        (let snapshot = first_fetched (filter (in_window t) initials) in
         if snapshot = [] then issue ''SNAPSHOT_NOT_RETAINED_IN_WINDOW'' else ok snapshot)
      else ok initials)"

definition no_initial_reason :: "rule_timing \<Rightarrow> source_record list \<Rightarrow> string" where
  "no_initial_reason t records =
     (if list_ex (is_cancelled t) records then ''SOURCE_CANCELLED''
      else if list_ex (\<lambda>x. so_kind x = Initial) records then ''RELEASE_AFTER_PUBLICATION_CUTOFF''
      else ''RELEASE_UNAVAILABLE'')"

record correction_state =
  cx_seen :: "(string \<times> (string \<times> record_kind \<times> string \<times> int \<times> string)) list"
  cx_stamps :: "(int \<times> string) list"
  cx_selected :: source_record
  cx_used :: "source_record list"

definition correct :: "correction_state \<Rightarrow> source_record \<Rightarrow> correction_state res" where
  "correct s x = (case map_of (cx_seen s) (so_id x) of
     Some key \<Rightarrow> (if key \<noteq> identity_of x then issue ''CORRECTION_SOURCE_CONFLICT'' else ok s)
   | None \<Rightarrow>
       (if (case map_of (cx_stamps s) (so_publishedAt x) of None \<Rightarrow> False | Some i \<Rightarrow> i \<noteq> so_id x) then issue ''CORRECTION_ORDER_AMBIGUOUS''
        else if so_supersedesId x \<noteq> JStr (so_id (cx_selected s)) \<or> so_publishedAt x < so_publishedAt (cx_selected s)
        then issue ''CORRECTION_CHAIN_INVALID''
        else ok \<lparr>cx_seen = (so_id x, identity_of x) # cx_seen s, cx_stamps = (so_publishedAt x, so_id x) # cx_stamps s,
          cx_selected = x, cx_used = cx_used s @ [x]\<rparr>))"

text \<open>By time, and by id among equal times; both sorts keep the order of equal elements.\<close>

fun insert_by :: "('a \<Rightarrow> 'a \<Rightarrow> bool) \<Rightarrow> 'a \<Rightarrow> 'a list \<Rightarrow> 'a list" where
  "insert_by le x [] = [x]"
| "insert_by le x (y # ys) = (if le x y then x # y # ys else y # insert_by le x ys)"

definition corrections_of :: "readers \<Rightarrow> rule_timing \<Rightarrow> source_record list \<Rightarrow> source_record list" where
  "corrections_of rd t records =
     sort_key so_publishedAt (foldr (insert_by (\<lambda>a b. rd_locale rd (so_id a) (so_id b)))
       (filter (\<lambda>x. (so_kind x = Correction \<or> so_kind x = Correction_notice) \<and> so_publishedAt x \<le> ti_correctionCutoff t) records) [])"

definition follow_corrections :: "readers \<Rightarrow> settlement_rule \<Rightarrow> source_record list \<Rightarrow> source_record \<Rightarrow> (source_record \<times> source_record list) res" where
  "follow_corrections rd r records first =
     (if sl_vintage r = With_corrections then
        bindE (foldE correct \<lparr>cx_seen = [], cx_stamps = [], cx_selected = first, cx_used = [first]\<rparr>
          (corrections_of rd (sl_timing r) records)) (\<lambda>s.
          if so_kind (cx_selected s) = Correction_notice then issue ''CORRECTION_WITHOUT_REPLACEMENT''
          else ok (cx_selected s, cx_used s))
      else ok (first, [first]))"

definition select_record :: "readers \<Rightarrow> settlement_rule \<Rightarrow> source_record list \<Rightarrow> (source_record \<times> source_record list) res" where
  "select_record rd r records = bindE (initials_of r records) (\<lambda>initials.
     if initials = [] then issue (no_initial_reason (sl_timing r) records)
     else if \<not> list_all (\<lambda>x. identity_of x = identity_of (hd initials)) (tl initials) then issue ''INITIAL_SOURCE_CONFLICT''
     else if list_ex (is_cancelled (sl_timing r)) records then issue ''SOURCE_CANCELLED''
     else follow_corrections rd r records (hd initials))"

definition compare_value :: "rule_decision \<Rightarrow> json \<Rightarrow> int res" where
  "compare_value d v = (case (dn_value d, v) of
     (Text_value want, JStr s) \<Rightarrow> (if dn_type d = Number_type then compareDecimal s want
       else ok (if s = want then 0 else if s < want then -1 else 1))
   | (Time_value want, JInt i) \<Rightarrow> ok (if i = want then 0 else if i < want then -1 else 1)
   | _ \<Rightarrow> ok 1)"

fun holds :: "operator \<Rightarrow> int \<Rightarrow> bool" where
  "holds Op_gt c = (c > 0)"
| "holds Op_gte c = (c \<ge> 0)"
| "holds Op_lt c = (c < 0)"
| "holds Op_lte c = (c \<le> 0)"
| "holds Op_eq c = (c = 0)"

definition make_packet :: "hashes \<Rightarrow> settlement_rule \<Rightarrow> capture list \<Rightarrow> int \<Rightarrow> int option \<Rightarrow> source_record list
    \<Rightarrow> source_record \<Rightarrow> source_record list \<Rightarrow> int \<Rightarrow> packet" where
  "make_packet hs r captures now archivedAt records selected used comparison =
     \<lparr>kt_ruleHash = hs_rule hs r, kt_rule = r, kt_evaluatedAt = now,
      kt_outcome = (if holds (dn_operator (sl_decision r)) comparison then 2 else 1), kt_replayedAt = archivedAt,
      kt_selectedId = so_id selected, kt_measured = so_value selected, kt_records = used, kt_captures = captures,
      kt_excluded = filter (\<lambda>x. \<not> List.member used x) records\<rparr>"

definition covers :: "string list \<Rightarrow> capture list \<Rightarrow> (capture \<Rightarrow> bool) \<Rightarrow> bool" where
  "covers urls captures p = list_all (\<lambda>u. list_ex (\<lambda>c. cp_requestedUrl c = u \<and> p c) captures) urls"

definition capture_errors :: "source_record res list \<Rightarrow> string list" where
  "capture_errors read = List.map_filter (\<lambda>v. case v of Inl e \<Rightarrow> Some (reason_of e) | Inr _ \<Rightarrow> None) read"

definition timely_records :: "int \<Rightarrow> source_record res list \<Rightarrow> source_record list" where
  "timely_records now read = filter (\<lambda>x. so_publishedAt x \<le> now) (List.map_filter (\<lambda>v. case v of Inl _ \<Rightarrow> None | Inr x \<Rightarrow> Some x) read)"

definition stale_corrections :: "settlement_rule \<Rightarrow> capture list \<Rightarrow> source_record list \<Rightarrow> bool" where
  "stale_corrections r captures records = (records \<noteq> [] \<and> sl_vintage r = With_corrections
     \<and> \<not> covers (sl_urls r) captures (\<lambda>c. ti_correctionCutoff (sl_timing r) \<le> cp_fetchedAt c))"

definition conclude :: "readers \<Rightarrow> hashes \<Rightarrow> settlement_rule \<Rightarrow> capture list \<Rightarrow> int \<Rightarrow> int option \<Rightarrow> source_record list \<Rightarrow> evaluation res" where
  "conclude rd hs r captures now archivedAt records = (case select_record rd r records of
        Inl e \<Rightarrow> ok (result Unresolved (reason_of e))
      | Inr (selected, used) \<Rightarrow> bindE (compare_value (sl_decision r) (so_value selected)) (\<lambda>comparison.
          let p = make_packet hs r captures now archivedAt records selected used comparison in
          ok ((result Ready_status ''RULE_EVALUATED'')\<lparr>ev_packet := Some (p, hs_packet hs p)\<rparr>)))"

definition evaluate_captures :: "readers \<Rightarrow> hashes \<Rightarrow> settlement_rule \<Rightarrow> capture list \<Rightarrow> int \<Rightarrow> int option \<Rightarrow> evaluation res" where
  "evaluate_captures rd hs r captures now archivedAt =
     (let read = map (\<lambda>c. parseSettlementCapture rd r c (case archivedAt of None \<Rightarrow> now | Some t \<Rightarrow> t)) captures;
          errors = capture_errors read; records = timely_records now read in
      if errors \<noteq> [] then ok ((result Unresolved ''SOURCE_CAPTURE_FAILED'')\<lparr>ev_issues := remdups errors\<rparr>)
      else if stale_corrections r captures records then ok (result Unresolved ''CORRECTION_MONITOR_STALE'')
      else conclude rd hs r captures now archivedAt records)"

definition evaluate :: "readers \<Rightarrow> hashes \<Rightarrow> settlement_rule \<Rightarrow> capture list \<Rightarrow> int \<Rightarrow> bool \<Rightarrow> int option \<Rightarrow> evaluation res" where
  "evaluate rd hs r captures now finalized archivedAt = bindE (validateSettlementRule (rd_rules rd) r) (\<lambda>_.
     let t = sl_timing r in
     if \<not> is_natural now then plain_error
     else if finalized then ok (result Terminal ''ALREADY_FINALIZED'')
     else if now \<ge> ti_observationEndsAt t + ti_assertionPeriod t then ok (result Timeout_status ''ASSERTION_DEADLINE_PASSED'')
     else if now < ti_observationEndsAt t then ok (result Waiting_status ''OBSERVATION_WINDOW_OPEN'')
     else if length captures > 100 then ok (result Unresolved ''CAPTURE_SET_INVALID'')
     else if captures \<noteq> [] \<and> \<not> covers (sl_urls r) captures (\<lambda>_. True) then ok (result Unresolved ''SOURCE_COVERAGE_MISSING'')
     else evaluate_captures rd hs r captures now archivedAt)"

definition evaluateSettlement :: "readers \<Rightarrow> hashes \<Rightarrow> settlement_rule \<Rightarrow> capture list \<Rightarrow> int \<Rightarrow> bool \<Rightarrow> evaluation res" where
  "evaluateSettlement rd hs r captures now finalized = evaluate rd hs r captures now finalized None"

definition replaySettlement :: "readers \<Rightarrow> hashes \<Rightarrow> settlement_rule \<Rightarrow> capture list \<Rightarrow> int \<Rightarrow> int \<Rightarrow> bool \<Rightarrow> evaluation res" where
  "replaySettlement rd hs r captures asOf replayedAt finalized =
     (if \<not> is_natural replayedAt \<or> \<not> is_natural asOf \<or> replayedAt < asOf then plain_error
      else evaluate rd hs r captures asOf finalized (Some replayedAt))"

definition verifySettlementPacket :: "readers \<Rightarrow> hashes \<Rightarrow> packet \<Rightarrow> string \<Rightarrow> string \<Rightarrow> evaluation res" where
  "verifySettlementPacket rd hs p packetHash expectedRuleHash =
     (if kt_replayedAt p \<noteq> None \<or> kt_ruleHash p \<noteq> expectedRuleHash then issue ''PACKET_BINDING_FAILED''
      else bindE (validateSettlementRule (rd_rules rd) (kt_rule p)) (\<lambda>_.
        if hs_rule hs (kt_rule p) \<noteq> expectedRuleHash \<or> hs_packet hs p \<noteq> packetHash then issue ''PACKET_BINDING_FAILED''
        else bindE (evaluateSettlement rd hs (kt_rule p) (kt_captures p) (kt_evaluatedAt p) False) (\<lambda>e.
          if ev_status e \<noteq> Ready_status \<or> map_option snd (ev_packet e) \<noteq> Some packetHash then issue ''PACKET_REPLAY_FAILED''
          else ok e)))"

end
