(* ===== verification/Evidence_Laws.thy ===== *)
theory Evidence_Laws
  imports Settlement_Evidence
begin

text \<open>
  What a ready evaluation stands on: the right time, every capture, a record the rule admits and the
  decision on its value; and its packet verifies, because it replays to itself.
\<close>

section \<open>Selecting a record\<close>

definition admissible_initial :: "settlement_rule \<Rightarrow> source_record \<Rightarrow> bool" where
  "admissible_initial r x = (so_kind x = Initial \<and> so_publishedAt x \<le> ti_publicationCutoff (sl_timing r)
     \<and> (is_general r \<and> sl_vintage r = Initial_only \<longrightarrow> ti_scheduledAt (sl_timing r) \<le> so_publishedAt x)
     \<and> (sl_vintage r = First_snapshot \<longrightarrow> in_window (sl_timing r) x))"

lemma initials_of_ok: "initials_of r records = ok xs \<Longrightarrow> x \<in> set xs \<Longrightarrow> x \<in> set records \<and> admissible_initial r x"
  by (auto simp: initials_of_def admissible_initial_def first_fetched_def Let_def split: if_splits)

lemma correct_ok: "correct s x = ok s' \<Longrightarrow> cx_selected s' = cx_selected s \<or> cx_selected s' = x"
  by (auto simp: correct_def split: option.splits if_splits)

lemma foldE_correct_ok: "foldE correct s xs = ok s' \<Longrightarrow> cx_selected s' \<in> insert (cx_selected s) (set xs)"
proof (induction xs arbitrary: s)
  case Nil
  then show ?case by simp
next
  case (Cons x xs)
  obtain s1 where s1: "correct s x = ok s1" "foldE correct s1 xs = ok s'" using Cons.prems by auto
  show ?case using Cons.IH [OF s1(2)] correct_ok [OF s1(1)] by auto
qed

lemma set_insert_by [simp]: "set (insert_by le x ys) = insert x (set ys)"
  by (induction ys) auto

lemma set_foldr_insert [simp]: "set (foldr (insert_by le) xs []) = set xs"
  by (induction xs) auto

lemma set_corrections: "set (corrections_of rd t records)
    = {x \<in> set records. (so_kind x = Correction \<or> so_kind x = Correction_notice) \<and> so_publishedAt x \<le> ti_correctionCutoff t}"
  by (auto simp: corrections_of_def)

text \<open>An admissible initial record, or a correction published before the cutoff.\<close>

definition admissible :: "settlement_rule \<Rightarrow> source_record \<Rightarrow> bool" where
  "admissible r x = (admissible_initial r x
     \<or> sl_vintage r = With_corrections \<and> so_kind x = Correction \<and> so_publishedAt x \<le> ti_correctionCutoff (sl_timing r))"

lemma select_record_ok:
  assumes "select_record rd r records = ok (sel, used)"
  shows "sel \<in> set records \<and> admissible r sel \<and> \<not> list_ex (is_cancelled (sl_timing r)) records"
proof -
  obtain xs where xs: "initials_of r records = ok xs" "xs \<noteq> []" "\<not> list_ex (is_cancelled (sl_timing r)) records"
    and tail: "follow_corrections rd r records (hd xs) = ok (sel, used)"
    using assms by (auto simp: select_record_def split: if_splits)
  define first where "first = hd xs"
  have first: "first \<in> set records" "admissible_initial r first" using initials_of_ok [OF xs(1), of first] xs(2) by (simp_all add: first_def)
  show ?thesis
  proof (cases "sl_vintage r = With_corrections")
    case False
    then show ?thesis using tail first xs(3) by (simp add: admissible_def follow_corrections_def first_def)
  next
    case True
    obtain s where s: "foldE correct \<lparr>cx_seen = [], cx_stamps = [], cx_selected = first, cx_used = [first]\<rparr>
        (corrections_of rd (sl_timing r) records) = ok s" "sel = cx_selected s" "so_kind sel \<noteq> Correction_notice"
      using tail True by (auto simp: follow_corrections_def first_def split: if_splits)
    have "sel = first \<or> sel \<in> set (corrections_of rd (sl_timing r) records)"
      using foldE_correct_ok [OF s(1)] s(2) by simp
    then show ?thesis using first xs(3) True s(3) by (auto simp: set_corrections admissible_def)
  qed
qed

section \<open>Evaluations\<close>

lemma map_filter_Nil: "List.map_filter f xs = [] \<longleftrightarrow> (\<forall>x\<in>set xs. f x = None)"
  by (induction xs) (auto simp: map_filter_simps split: option.splits)

lemma set_map_filter: "y \<in> set (List.map_filter f xs) \<longleftrightarrow> (\<exists>x\<in>set xs. f x = Some y)"
  by (induction xs) (auto simp: map_filter_simps split: option.splits)

lemma some_right: "(case v of Inl _ \<Rightarrow> None | Inr x \<Rightarrow> Some x) = Some y \<longleftrightarrow> v = Inr y"
  by (cases v) auto

lemma evaluate_captures_ready:
  assumes "evaluate_captures rd hs r captures now None = ok e" "ev_status e = Ready_status"
  obtains p c sel used cmp where "ev_packet e = Some (p, hs_packet hs p)" "kt_rule p = r" "kt_captures p = captures" "kt_evaluatedAt p = now"
    "kt_ruleHash p = hs_rule hs r" "kt_replayedAt p = None"
    "\<forall>d\<in>set captures. \<exists>x. parseSettlementCapture rd r d now = ok x \<and> (so_publishedAt x \<le> now \<longrightarrow> \<not> is_cancelled (sl_timing r) x)"
    "c \<in> set captures" "parseSettlementCapture rd r c now = ok sel" "so_publishedAt sel \<le> now" "admissible r sel"
    "kt_selectedId p = so_id sel" "kt_measured p = so_value sel" "compare_value (sl_decision r) (so_value sel) = ok cmp"
    "kt_outcome p = (if holds (dn_operator (sl_decision r)) cmp then 2 else 1)"
proof -
  define read where "read = map (\<lambda>c. parseSettlementCapture rd r c now) captures"
  define records where "records = timely_records now read"
  have none: "capture_errors read = []" and ev: "conclude rd hs r captures now None records = ok e"
    using assms by (auto simp: evaluate_captures_def Let_def result_def read_def records_def split: if_splits)
  obtain sel used cmp where s: "select_record rd r records = ok (sel, used)" "compare_value (sl_decision r) (so_value sel) = ok cmp"
    and e: "e = (result Ready_status ''RULE_EVALUATED'')\<lparr>ev_packet := Some (make_packet hs r captures now None records sel used cmp,
      hs_packet hs (make_packet hs r captures now None records sel used cmp))\<rparr>"
    using ev assms(2) by (auto simp: conclude_def Let_def result_def split: if_splits sum.splits prod.splits)
  note sel = select_record_ok [OF s(1)]
  have parsed: "\<exists>x. parseSettlementCapture rd r d now = ok x" if "d \<in> set captures" for d
    using none that by (cases "parseSettlementCapture rd r d now") (auto simp: capture_errors_def read_def map_filter_Nil split: sum.splits)
  have rec: "x \<in> set records \<longleftrightarrow> so_publishedAt x \<le> now \<and> (\<exists>d\<in>set captures. parseSettlementCapture rd r d now = ok x)" for x
    by (auto simp: records_def timely_records_def read_def set_map_filter some_right intro!: rev_image_eqI)
  have calm: "\<exists>x. parseSettlementCapture rd r d now = ok x \<and> (so_publishedAt x \<le> now \<longrightarrow> \<not> is_cancelled (sl_timing r) x)"
    if d: "d \<in> set captures" for d
  proof -
    obtain x where x: "parseSettlementCapture rd r d now = ok x" using parsed [OF d] by blast
    then have "so_publishedAt x \<le> now \<longrightarrow> x \<in> set records" using rec d by blast
    then show ?thesis using x sel by (auto simp: list_ex_iff)
  qed
  obtain c where c: "c \<in> set captures" "parseSettlementCapture rd r c now = ok sel" "so_publishedAt sel \<le> now"
    using sel rec by blast
  show thesis
    by (rule that [of "make_packet hs r captures now None records sel used cmp" c sel cmp])
      (use e s(2) c calm sel in \<open>simp_all add: make_packet_def\<close>)
qed

lemma evaluate_ready:
  assumes "evaluateSettlement rd hs r captures now finalized = ok e" "ev_status e = Ready_status"
  shows "validateSettlementRule (rd_rules rd) r = ok () \<and> \<not> finalized \<and> is_natural now
    \<and> ti_observationEndsAt (sl_timing r) \<le> now \<and> now < ti_observationEndsAt (sl_timing r) + ti_assertionPeriod (sl_timing r)
    \<and> length captures \<le> 100 \<and> (captures \<noteq> [] \<longrightarrow> covers (sl_urls r) captures (\<lambda>_. True))
    \<and> evaluate_captures rd hs r captures now None = ok e"
  using assms by (auto simp: evaluateSettlement_def evaluate_def Let_def result_def split: if_splits)

section \<open>Properties\<close>


text \<open>A packet replays: whatever evaluation is ready, verifying its packet under its own hash and the
  hash of the rule repeats the evaluation and accepts it, so a proposal is never refused its own
  evidence.\<close>

theorem ready_packet_verifies:
  assumes "evaluateSettlement rd hs r captures now finalized = ok e" and "ev_status e = Ready_status"
    and "ev_packet e = Some (p, h)"
  shows "verifySettlementPacket rd hs p h (hs_rule hs r) = ok e"
proof -
  note e = evaluate_ready [OF assms(1,2)]
  then have ec: "evaluate_captures rd hs r captures now None = ok e" by simp
  show ?thesis
  proof (rule evaluate_captures_ready [OF ec assms(2)])
    fix q c x used cmp
    assume "ev_packet e = Some (q, hs_packet hs q)" "kt_rule q = r" "kt_captures q = captures" "kt_evaluatedAt q = now"
      "kt_ruleHash q = hs_rule hs r" "kt_replayedAt q = None"
    then have q: "kt_rule p = r" "kt_captures p = captures" "kt_evaluatedAt p = now" "kt_ruleHash p = hs_rule hs r"
      "kt_replayedAt p = None" "h = hs_packet hs p" using assms(3) by simp_all
    have "evaluateSettlement rd hs r captures now False = ok e" using assms(1) e by simp
    then show ?thesis using q e assms(2,3) by (simp add: verifySettlementPacket_def)
  qed
qed

definition demo_readers :: readers where
  "demo_readers = \<lparr>rd_rules = demo_rule_host, rd_json = (\<lambda>b. ok JNull),
     rd_general = (\<lambda>r c. ok (observed r (JStr ''json-api.v1:rates:2000'') (JStr ''2.75'') (JInt 2000))),
     rd_bls = (\<lambda>r b. issue ''X''), rd_fed = (\<lambda>r b. issue ''X''), rd_digest = (\<lambda>b. b), rd_locale = (\<lambda>a b. True)\<rparr>"

definition demo_hashes :: hashes where
  "demo_hashes = \<lparr>hs_rule = (\<lambda>r. sl_eventId r), hs_packet = (\<lambda>p. kt_selectedId p)\<rparr>"

definition demo_capture :: capture where
  "demo_capture = \<lparr>cp_requestedUrl = ''https://api.example.org/v'', cp_finalUrl = ''https://api.example.org/v'', cp_fetchedAt = 3000,
     cp_status = 200, cp_complete = True, cp_body = ''body'', cp_bytes = 4, cp_sha256 = ''body'', cp_contentType = None\<rparr>"

definition demo_evaluation :: evaluation where
  "demo_evaluation = (case evaluateSettlement demo_readers demo_hashes demo_rule [demo_capture] 6000 False of Inr e \<Rightarrow> e)"

definition is_ready :: "evaluation res \<Rightarrow> bool" where
  "is_ready v = (case v of Inr e \<Rightarrow> ev_status e = Ready_status | Inl _ \<Rightarrow> False)"

lemma demo_ready: "evaluateSettlement demo_readers demo_hashes demo_rule [demo_capture] 6000 False = ok demo_evaluation"
  "ev_status demo_evaluation = Ready_status"
proof -
  have r: "is_ready (evaluateSettlement demo_readers demo_hashes demo_rule [demo_capture] 6000 False)" by code_simp
  show "evaluateSettlement demo_readers demo_hashes demo_rule [demo_capture] 6000 False = ok demo_evaluation"
    using r by (simp add: is_ready_def demo_evaluation_def split: sum.splits)
  show "ev_status demo_evaluation = Ready_status"
    using r by (simp add: is_ready_def demo_evaluation_def split: sum.splits)
qed

definition demo_packet :: "packet \<times> string" where
  "demo_packet = (case ev_packet demo_evaluation of Some x \<Rightarrow> x)"

lemma demo_packet: "ev_packet demo_evaluation = Some (fst demo_packet, snd demo_packet)"
  using demo_ready(2) evaluate_captures_ready [OF _ demo_ready(2)] evaluate_ready [OF demo_ready]
  by (metis demo_packet_def option.simps(5) prod.collapse)

lemma ready_packet_verifies_witness:
  "verifySettlementPacket demo_readers demo_hashes (fst demo_packet) (snd demo_packet) (hs_rule demo_hashes demo_rule) = ok demo_evaluation"
  by (rule ready_packet_verifies [OF demo_ready demo_packet])


end
