(* ===== verification/Exact_Json.thy ===== *)
theory Exact_Json
  imports Settlement_Evidence
begin

text \<open>
  The exact JSON reader of the general settlement readers (apps/web/server/settlement-readers.mjs):
  numbers keep their text, a repeated key is refused, nesting is bounded. The parser works on what is
  left of the text; its fuel counts calls, and \<open>parse_has_fuel\<close> shows that twice the text's length is
  always enough, so running out is never the answer. Texts are ASCII; the text of an escaped code
  unit is a parameter, and the byte order mark the code drops first cannot occur.
\<close>

datatype exact = XNull | XBool bool | XNum string | XStr string | XArr "exact list" | XObj "(string \<times> exact) list"

abbreviation quote_mark :: char where "quote_mark \<equiv> char_of (34 :: nat)"
abbreviation backslash :: char where "backslash \<equiv> char_of (92 :: nat)"

abbreviation bad_json :: "'a res" where
  "bad_json \<equiv> issue ''EXTRACTION_INVALID_JSON''"

definition is_json_space :: "char \<Rightarrow> bool" where
  "is_json_space c = (code c = 32 \<or> code c = 10 \<or> code c = 13 \<or> code c = 9)"

definition skip_space :: "string \<Rightarrow> string" where
  "skip_space s = dropWhile is_json_space s"

section \<open>Tokens\<close>

definition escapes :: "(char \<times> nat) list" where
  "escapes = [(quote_mark, 34), (backslash, 92), (CHR ''/'', 47), (CHR ''b'', 8), (CHR ''f'', 12), (CHR ''n'', 10), (CHR ''r'', 13), (CHR ''t'', 9)]"

text \<open>The rest of a string after its opening quote: its text and what follows the closing quote.\<close>

fun string_rest :: "(nat \<Rightarrow> string) \<Rightarrow> string \<Rightarrow> (string \<times> string) res" where
  "string_rest uni [] = bad_json"
| "string_rest uni (c # cs) =
     (if c = quote_mark then ok ([], cs)
      else if code c < 32 then bad_json
      else if c \<noteq> backslash then bindE (string_rest uni cs) (\<lambda>(t, r). ok (c # t, r))
      else (case cs of [] \<Rightarrow> bad_json
        | d # ds \<Rightarrow> (case map_of escapes d of
            Some n \<Rightarrow> bindE (string_rest uni ds) (\<lambda>(t, r). ok (char_of n # t, r))
          | None \<Rightarrow>
              (if d = CHR ''u'' \<and> length (take 4 ds) = 4 \<and> list_all is_hex (take 4 ds)
               then bindE (string_rest uni (drop 4 ds)) (\<lambda>(t, r). ok (uni (hex_val (take 4 ds)) @ t, r)) else bad_json))))"

text \<open>\<open>/-?(?:0|[1-9]\d*)(?:\.\d+)?(?:[eE][+-]?\d+)?/y\<close>.\<close>

definition number_sign :: "string \<Rightarrow> string" where
  "number_sign s = (if take 1 s = ''-'' then ''-'' else [])"

definition number_whole :: "string \<Rightarrow> string" where
  "number_whole s = (if take 1 s = ''0'' then ''0'' else takeWhile is_dec s)"

definition number_fraction :: "string \<Rightarrow> string" where
  "number_fraction s = (let f = takeWhile is_dec (tl s) in if take 1 s = ''.'' \<and> f \<noteq> [] then CHR ''.'' # f else [])"

definition number_exponent :: "string \<Rightarrow> string" where
  "number_exponent s =
     (let sg = (if take 1 (tl s) = ''+'' \<or> take 1 (tl s) = ''-'' then take 1 (tl s) else []);
          e = takeWhile is_dec (drop (1 + length sg) s) in
      if (take 1 s = ''e'' \<or> take 1 s = ''E'') \<and> e \<noteq> [] then take 1 s @ sg @ e else [])"

definition number_token :: "string \<Rightarrow> (string \<times> string) res" where
  "number_token s =
     (let sg = number_sign s; s1 = drop (length sg) s; w = number_whole s1; s2 = drop (length w) s1;
          f = number_fraction s2; s3 = drop (length f) s2; e = number_exponent s3 in
      if w = [] then bad_json else ok (sg @ w @ f @ e, drop (length e) s3))"

definition starts_with :: "string \<Rightarrow> string \<Rightarrow> bool" where
  "starts_with p s = (take (length p) s = p)"

definition literal_or_number :: "string \<Rightarrow> (exact \<times> string) res" where
  "literal_or_number s =
     (if starts_with ''true'' s then ok (XBool True, drop 4 s)
      else if starts_with ''false'' s then ok (XBool False, drop 5 s)
      else if starts_with ''null'' s then ok (XNull, drop 4 s)
      else bindE (number_token s) (\<lambda>(t, r). ok (XNum t, r)))"

section \<open>Values\<close>

abbreviation out_of_fuel :: "'a res" where
  "out_of_fuel \<equiv> Inl (Other_error ''fuel'')"

text \<open>
  \<open>value\<close>, and its two loops over an object's members and a list's elements, which carry what was read
  so far. An object keeps its members in the order they were read.
\<close>

definition next_char :: "string \<Rightarrow> (char \<times> string) res" where
  "next_char s = (case skip_space s of [] \<Rightarrow> bad_json | c # cs \<Rightarrow> ok (c, cs))"

definition new_key :: "(nat \<Rightarrow> string) \<Rightarrow> (string \<times> exact) list \<Rightarrow> string \<Rightarrow> (string \<times> string) res" where
  "new_key uni kvs s = bindE (next_char s) (\<lambda>(q, qs).
     if q \<noteq> quote_mark then bad_json
     else bindE (string_rest uni qs) (\<lambda>(key, r).
       if map_of kvs key \<noteq> None then issue ''EXTRACTION_DUPLICATE_FIELD''
       else bindE (next_char r) (\<lambda>(e, es). if e \<noteq> CHR '':'' then bad_json else ok (key, es))))"

definition string_value :: "(nat \<Rightarrow> string) \<Rightarrow> string \<Rightarrow> (exact \<times> string) res" where
  "string_value uni s = bindE (string_rest uni s) (\<lambda>(t, r). ok (XStr t, r))"

datatype parse_task = Value nat | Members nat "(string \<times> exact) list" | Elements nat "exact list"

type_synonym parse_call = "parse_task \<Rightarrow> string \<Rightarrow> (exact \<times> string) res"

definition read_value :: "parse_call \<Rightarrow> (nat \<Rightarrow> string) \<Rightarrow> nat \<Rightarrow> string \<Rightarrow> (exact \<times> string) res" where
  "read_value rec uni depth s =
     (if depth > 64 then issue ''EXTRACTION_TOO_DEEP''
      else bindE (next_char s) (\<lambda>(c, cs).
        if c = CHR ''{'' then bindE (next_char cs) (\<lambda>(d, ds).
          if d = CHR ''}'' then ok (XObj [], ds) else rec (Members depth []) (d # ds))
        else if c = CHR ''['' then bindE (next_char cs) (\<lambda>(d, ds).
          if d = CHR '']'' then ok (XArr [], ds) else rec (Elements depth []) (d # ds))
        else if c = quote_mark then string_value uni cs
        else literal_or_number (c # cs)))"

definition read_members :: "parse_call \<Rightarrow> (nat \<Rightarrow> string) \<Rightarrow> nat \<Rightarrow> (string \<times> exact) list \<Rightarrow> string \<Rightarrow> (exact \<times> string) res" where
  "read_members rec uni depth kvs s =
     bindE (new_key uni kvs s) (\<lambda>(key, es). bindE (rec (Value (depth + 1)) es) (\<lambda>(v, rest).
       bindE (next_char rest) (\<lambda>(x, xs).
         if x = CHR '','' then rec (Members depth (kvs @ [(key, v)])) xs
         else if x = CHR ''}'' then ok (XObj (kvs @ [(key, v)]), xs)
         else bad_json)))"

definition read_elements :: "parse_call \<Rightarrow> nat \<Rightarrow> exact list \<Rightarrow> string \<Rightarrow> (exact \<times> string) res" where
  "read_elements rec depth vs s =
     bindE (rec (Value (depth + 1)) s) (\<lambda>(v, rest). bindE (next_char rest) (\<lambda>(x, xs).
       if x = CHR '','' then rec (Elements depth (vs @ [v])) xs
       else if x = CHR '']'' then ok (XArr (vs @ [v]), xs)
       else bad_json))"

primrec parse :: "(nat \<Rightarrow> string) \<Rightarrow> nat \<Rightarrow> parse_call" where
  "parse uni 0 = (\<lambda>t s. out_of_fuel)"
| "parse uni (Suc n) = (\<lambda>t s. case t of
     Value depth \<Rightarrow> read_value (parse uni n) uni depth s
   | Members depth kvs \<Rightarrow> read_members (parse uni n) uni depth kvs s
   | Elements depth vs \<Rightarrow> read_elements (parse uni n) depth vs s)"

definition parseExactJSON :: "(nat \<Rightarrow> string) \<Rightarrow> string \<Rightarrow> exact res" where
  "parseExactJSON uni s = bindE (parse uni (2 * length s + 2) (Value 0) s) (\<lambda>(v, rest).
     if skip_space rest \<noteq> [] then bad_json else ok v)"

section \<open>Paths and scalars\<close>

text \<open>One step of \<open>resolve\<close>; None is where the code calls \<open>missing\<close>.\<close>

definition child :: "exact \<Rightarrow> string \<Rightarrow> exact option" where
  "child v k = (case v of
     XObj kvs \<Rightarrow> map_of kvs k
   | XArr xs \<Rightarrow> (if is_canon_dec k \<and> str_nat k < length xs then Some (xs ! str_nat k) else None)
   | _ \<Rightarrow> None)"

fun descend :: "exact \<Rightarrow> string list \<Rightarrow> exact option" where
  "descend v [] = Some v"
| "descend v (k # ks) = (case child v k of None \<Rightarrow> None | Some w \<Rightarrow> descend w ks)"

definition resolve :: "exact \<Rightarrow> string \<Rightarrow> exact option" where
  "resolve v path = (if path = [] then Some v else descend v (pointer_tokens path))"

definition resolveE :: "exact \<Rightarrow> string \<Rightarrow> exact res" where
  "resolveE v path = (case resolve v path of None \<Rightarrow> issue ''EXTRACTION_MISSING_FIELD'' | Some w \<Rightarrow> ok w)"

definition scalarText :: "exact \<Rightarrow> string res" where
  "scalarText v = (case v of
     XNum raw \<Rightarrow> ok raw
   | XStr s \<Rightarrow> ok s
   | XBool b \<Rightarrow> ok (if b then ''true'' else ''false'')
   | XNull \<Rightarrow> ok ''null''
   | _ \<Rightarrow> issue ''EXTRACTION_NOT_A_VALUE'')"

section \<open>Parsing returns\<close>

lemma length_skip_space: "length (skip_space s) \<le> length s"
  by (simp add: skip_space_def length_dropWhile_le)

lemma next_char_shorter: "next_char s = ok (c, cs) \<Longrightarrow> length cs < length s"
  using length_skip_space [of s] by (auto simp: next_char_def split: list.splits)

lemma string_rest_shorter: "string_rest uni s = ok (t, r) \<Longrightarrow> length r < length s"
proof (induction "length s" arbitrary: s t r rule: less_induct)
  case less
  obtain c cs where s: "s = c # cs" using less.prems by (cases s) auto
  have IH: "length r' < length s'" if "string_rest uni s' = ok (t', r')" "length s' < length s" for s' t' r'
    using less.hyps that by blast
  show ?case
  proof (cases "c = quote_mark \<or> code c < 32 \<or> c \<noteq> backslash")
    case True
    then show ?thesis using less.prems by (auto simp: s split: if_splits dest!: IH)
  next
    case False
    obtain d ds where cs: "cs = d # ds" using less.prems False by (cases cs) (auto simp: s)
    show ?thesis
    proof (cases "map_of escapes d")
      case None
      then show ?thesis using less.prems False by (auto simp: s cs split: if_splits dest!: IH)
    next
      case (Some n)
      then show ?thesis using less.prems False by (auto simp: s cs dest!: IH)
    qed
  qed
qed

lemma number_token_shorter:
  assumes "number_token s = ok (t, r)"
  shows "length r < length s"
proof -
  let ?s1 = "drop (length (number_sign s)) s"
  have w: "number_whole ?s1 \<noteq> []" using assms by (auto simp: number_token_def Let_def split: if_splits)
  then have "?s1 \<noteq> []" by (auto simp: number_whole_def)
  moreover have "length r \<le> length ?s1 - length (number_whole ?s1)"
    using assms by (auto simp: number_token_def Let_def split: if_splits)
  moreover have "length (number_whole ?s1) \<noteq> 0" using w by simp
  moreover have "length ?s1 \<le> length s" by simp
  moreover have "length ?s1 \<noteq> 0" using calculation(1) by simp
  ultimately show ?thesis by linarith
qed

lemma literal_shorter: "literal_or_number s = ok (v, r) \<Longrightarrow> length r < length s"
  by (cases s) (auto simp: literal_or_number_def starts_with_def split: if_splits dest: number_token_shorter)

lemma new_key_shorter: "new_key uni kvs s = ok (k, r) \<Longrightarrow> length r < length s \<and> map_of kvs k = None"
  by (auto simp: new_key_def split: if_splits dest!: next_char_shorter string_rest_shorter)

lemma string_value_shorter: "string_value uni s = ok (v, r) \<Longrightarrow> length r < length s"
  by (auto simp: string_value_def dest: string_rest_shorter)

lemma parse_shorter: "parse uni n t s = ok (v, r) \<Longrightarrow> length r < length s"
proof (induction n arbitrary: t s v r)
  case 0
  then show ?case by simp
next
  case (Suc n)
  note IH = Suc.IH
  show ?case
  proof (cases t)
    case (Value depth)
    have p: "read_value (parse uni n) uni depth s = ok (v, r)" using Suc.prems Value by simp
    obtain c cs where c: "next_char s = ok (c, cs)" using p by (auto simp: read_value_def split: if_splits)
    have l: "length (c # cs) \<le> length s" using next_char_shorter [OF c] by simp
    consider "string_value uni cs = ok (v, r)" | "literal_or_number (c # cs) = ok (v, r)"
      | d ds t' where "next_char cs = ok (d, ds)" "r = ds \<or> parse uni n t' (d # ds) = ok (v, r)"
      using p c by (auto simp: read_value_def split: if_splits)
    then show ?thesis
    proof cases
      case 1
      then show ?thesis using string_value_shorter l by fastforce
    next
      case 2
      then show ?thesis using literal_shorter l by fastforce
    next
      case (3 d ds t')
      then show ?thesis using next_char_shorter [OF 3(1)] IH l by fastforce
    qed
  next
    case (Members depth kvs)
    obtain k es w rest x xs where q: "new_key uni kvs s = ok (k, es)" "parse uni n (Value (depth + 1)) es = ok (w, rest)"
      "next_char rest = ok (x, xs)" "r = xs \<or> parse uni n (Members depth (kvs @ [(k, w)])) xs = ok (v, r)"
      using Suc.prems Members by (auto simp: read_members_def split: if_splits)
    show ?thesis using new_key_shorter [OF q(1)] IH [OF q(2)] next_char_shorter [OF q(3)] q(4) IH by fastforce
  next
    case (Elements depth vs)
    obtain w rest x xs where q: "parse uni n (Value (depth + 1)) s = ok (w, rest)"
      "next_char rest = ok (x, xs)" "r = xs \<or> parse uni n (Elements depth (vs @ [w])) xs = ok (v, r)"
      using Suc.prems Elements by (auto simp: read_elements_def split: if_splits)
    show ?thesis using IH [OF q(1)] next_char_shorter [OF q(2)] q(3) IH by fastforce
  qed
qed

text \<open>Not running out of fuel, of each kind of call.\<close>

definition answers :: "'a res \<Rightarrow> bool" where
  "answers m = (m \<noteq> out_of_fuel)"

lemma answers_simps [simp]: "answers (ok x)" "answers (issue r) = (r \<noteq> ''fuel'')"
  by (simp_all add: answers_def)

lemma answers_bindE: "answers m \<Longrightarrow> (\<And>x. m = ok x \<Longrightarrow> answers (f x)) \<Longrightarrow> answers (bindE m f)"
  by (cases m) (auto simp: answers_def)

lemma answers_next_char: "answers (next_char s)"
  by (simp add: next_char_def split: list.splits)

lemma answers_string_rest: "answers (string_rest uni s)"
proof (induction "length s" arbitrary: s rule: less_induct)
  case less
  have IH: "answers (bindE (string_rest uni s') (\<lambda>(t, r). ok (f t, r)))" if "length s' < length s" for s' f
    using less that by (auto intro!: answers_bindE)
  show ?case
  proof (cases s)
    case Nil
    then show ?thesis by simp
  next
    case (Cons c cs)
    show ?thesis
    proof (cases "c = quote_mark \<or> code c < 32 \<or> c \<noteq> backslash")
      case True
      have "answers (bindE (string_rest uni cs) (\<lambda>(t, r). ok (c # t, r)))" by (rule IH) (simp add: Cons)
      then show ?thesis using True by (auto simp: Cons code_char_of)
    next
      case False
      show ?thesis
      proof (cases cs)
        case Nil
        then show ?thesis using False by (simp add: Cons)
      next
        case (Cons d ds)
        note cs = \<open>s = c # cs\<close> Cons
        have e: "answers (bindE (string_rest uni ds) (\<lambda>(t, r). ok (char_of n # t, r)))" for n :: nat
          by (rule IH) (simp add: cs)
        have u: "answers (bindE (string_rest uni es) (\<lambda>(t, r). ok (uni k @ t, r)))" if "length es < length s" for es k
          using that by (rule IH)
        show ?thesis using False e u
          by (auto simp: cs split: option.split)
      qed
    qed
  qed
qed

lemma answers_tokens: "answers (new_key uni kvs s)" "answers (string_value uni s)" "answers (literal_or_number s)"
  by (auto simp: new_key_def string_value_def literal_or_number_def number_token_def Let_def
    intro!: answers_bindE answers_next_char answers_string_rest)

text \<open>The calls a task may still make on a text of this length.\<close>

fun needs :: "parse_task \<Rightarrow> nat \<Rightarrow> nat" where
  "needs (Value _) l = 2 * l + 2"
| "needs (Members _ _) l = 2 * l + 1"
| "needs (Elements _ _) l = 2 * l + 3"

lemma parse_has_fuel: "needs t (length s) \<le> n \<Longrightarrow> answers (parse uni n t s)"
proof (induction n arbitrary: t s)
  case 0
  then show ?case by (cases t) simp_all
next
  case (Suc n)
  note IH = Suc.IH
  show ?case
  proof (cases t)
    case (Value depth)
    have deep: "answers (bindE (next_char cs) (\<lambda>(d, ds). if d = k then ok (w, ds) else f (d # ds)))"
      if "length cs < length s" "\<And>t. length t < length s \<Longrightarrow> answers (f t)" for cs k w and f :: "string \<Rightarrow> (exact \<times> string) res"
      using that by (auto intro!: answers_bindE answers_next_char dest!: next_char_shorter)
    show ?thesis
      using Suc.prems Value
      by (auto simp: read_value_def intro!: answers_bindE answers_next_char answers_tokens deep IH dest!: next_char_shorter)
  next
    case (Members depth kvs)
    then show ?thesis
      using Suc.prems
      by (auto simp: read_members_def intro!: answers_bindE answers_next_char answers_tokens IH
        dest!: next_char_shorter new_key_shorter parse_shorter)
  next
    case (Elements depth vs)
    then show ?thesis
      using Suc.prems
      by (auto simp: read_elements_def intro!: answers_bindE answers_next_char IH dest!: next_char_shorter parse_shorter)
  qed
qed

section \<open>What is read\<close>

text \<open>Every object has each key once.\<close>

fun distinct_keys :: "exact \<Rightarrow> bool" where
  "distinct_keys (XObj kvs) = (distinct (map fst kvs) \<and> list_all (\<lambda>kv. distinct_keys (snd kv)) kvs)"
| "distinct_keys (XArr vs) = list_all distinct_keys vs"
| "distinct_keys _ = True"

fun task_ok :: "parse_task \<Rightarrow> bool" where
  "task_ok (Value _) = True"
| "task_ok (Members _ kvs) = distinct_keys (XObj kvs)"
| "task_ok (Elements _ vs) = distinct_keys (XArr vs)"

lemma literal_flat: "literal_or_number s = ok (v, r) \<Longrightarrow> distinct_keys v"
  by (auto simp: literal_or_number_def split: if_splits)

lemma parse_distinct: "parse uni n t s = ok (v, r) \<Longrightarrow> task_ok t \<Longrightarrow> distinct_keys v"
proof (induction n arbitrary: t s v r)
  case 0
  then show ?case by simp
next
  case (Suc n)
  note IH = Suc.IH
  show ?case
  proof (cases t)
    case (Value depth)
    have "read_value (parse uni n) uni depth s = ok (v, r)" using Suc.prems(1) Value by simp
    then show ?thesis
      by (auto simp: read_value_def string_value_def split: if_splits dest: literal_flat IH)
  next
    case (Members depth kvs)
    obtain k es w rest x xs where q: "new_key uni kvs s = ok (k, es)" "parse uni n (Value (depth + 1)) es = ok (w, rest)"
      "v = XObj (kvs @ [(k, w)]) \<or> parse uni n (Members depth (kvs @ [(k, w)])) xs = ok (v, r)"
      using Suc.prems Members by (auto simp: read_members_def split: if_splits)
    have "k \<notin> fst ` set kvs" using new_key_shorter [OF q(1)] by (simp add: map_of_eq_None_iff)
    then have "distinct_keys (XObj (kvs @ [(k, w)]))" using Suc.prems(2) Members IH [OF q(2)] by simp
    then show ?thesis using q(3) IH by fastforce
  next
    case (Elements depth vs)
    obtain w rest x xs where q: "parse uni n (Value (depth + 1)) s = ok (w, rest)"
      "v = XArr (vs @ [w]) \<or> parse uni n (Elements depth (vs @ [w])) xs = ok (v, r)"
      using Suc.prems Elements by (auto simp: read_elements_def split: if_splits)
    have "distinct_keys (XArr (vs @ [w]))" using Suc.prems(2) Elements IH [OF q(1)] by simp
    then show ?thesis using q(2) IH by fastforce
  qed
qed


end
