(* ===== verification/Exact_Values.thy ===== *)
theory Exact_Values
  imports Exact_Json
begin

text \<open>
  Exact decimals, times and values of the general settlement readers
  (apps/web/server/settlement-readers.mjs). A decimal keeps its value exactly through exponents, scaling
  and sums; \<open>text_value\<close> is the rational number a decimal text stands for.
\<close>

section \<open>Decimals\<close>

text \<open>\<open>/^(-?)(\d+)(?:\.(\d+))?(?:[eE]([+-]?\d+))?$/\<close>: the sign, the digits around the point and the exponent.\<close>

definition exponent_of :: "string \<Rightarrow> int option" where
  "exponent_of s =
     (if s = [] then Some 0
      else if hd s \<noteq> CHR ''e'' \<and> hd s \<noteq> CHR ''E'' then None
      else let t = tl s; signed = (take 1 t = ''+'' \<or> take 1 t = ''-''); ds = (if signed then tl t else t) in
        if ds = [] \<or> \<not> list_all is_dec ds then None
        else Some (if take 1 t = ''-'' then - int (str_nat ds) else int (str_nat ds)))"

definition number_parts :: "string \<Rightarrow> (bool \<times> string \<times> string \<times> int) option" where
  "number_parts s =
     (let negative = (take 1 s = ''-''); b = (if negative then tl s else s);
          w = takeWhile is_dec b; r = dropWhile is_dec b; pointed = (take 1 r = ''.'');
          f = (if pointed then takeWhile is_dec (tl r) else []); e = (if pointed then dropWhile is_dec (tl r) else r) in
      if w = [] \<or> pointed \<and> f = [] then None
      else map_option (\<lambda>shift. (negative, w, f, shift)) (exponent_of e))"

text \<open>The digits with the point moved by the exponent, and where the point is now.\<close>

definition place :: "string \<Rightarrow> int \<Rightarrow> string \<times> nat" where
  "place digits p =
     (if p \<le> 0 then (replicate (nat (1 - p)) CHR ''0'' @ digits, 1)
      else if p > int (length digits) then (digits @ replicate (nat p - length digits) CHR ''0'', nat p)
      else (digits, nat p))"

definition written :: "bool \<Rightarrow> string \<Rightarrow> string \<Rightarrow> string" where
  "written negative w f = (if negative then ''-'' else []) @ w @ (if f \<noteq> [] then CHR ''.'' # f else [])"

definition exactDecimal :: "string \<Rightarrow> string res" where
  "exactDecimal raw = (case number_parts (js_trim raw) of
     None \<Rightarrow> issue ''VALUE_INVALID''
   | Some (negative, w, f, shift) \<Rightarrow>
       if \<bar>shift\<bar> > 60 then issue ''VALUE_INVALID''
       else let (digits, p) = place (w @ f) (int (length w) + shift);
                whole_part = strip_leading (take p digits); fraction = strip_zeros (drop p digits);
                out = written (negative \<and> list_ex (\<lambda>c. c \<noteq> CHR ''0'') (whole_part @ fraction)) whole_part fraction in
         if length fraction > 18 \<or> length whole_part > 36 then issue ''VALUE_PRECISION_UNSUPPORTED''
         else bindE (decimal out) (\<lambda>_. ok out))"

definition scaled :: "string \<Rightarrow> nat \<Rightarrow> string res" where
  "scaled v places = (if places \<noteq> 0 then exactDecimal (v @ ''e-'' @ nat_str places) else ok v)"

definition fromUnits :: "int \<Rightarrow> nat \<Rightarrow> string res" where
  "fromUnits coefficient places =
     (let digits = pad_start (places + 1) (nat_str (nat \<bar>coefficient\<bar>)); n = length digits - places in
      exactDecimal (written (coefficient < 0) (take n digits) (if places \<noteq> 0 then drop n digits else [])))"

definition addDecimal :: "string \<Rightarrow> string \<Rightarrow> string res" where
  "addDecimal a b = bindE (decimal a) (\<lambda>(x, sx). bindE (decimal b) (\<lambda>(y, sy).
     let s = max sx sy in fromUnits (x * 10 ^ (s - sx) + y * 10 ^ (s - sy)) s))"

section \<open>Times and values\<close>

record reader_host =
  rh_date :: "string \<Rightarrow> int option"
  rh_unit :: "nat \<Rightarrow> string"
  rh_page :: "string \<Rightarrow> string"
  rh_matches :: "string \<Rightarrow> string \<Rightarrow> string option list"
  rh_groups :: "string \<Rightarrow> int option"
  rh_json :: "string \<Rightarrow> json option"

definition iso_zone :: "string \<Rightarrow> bool" where
  "iso_zone z = (z = ''Z'' \<or> (take 1 z = ''+'' \<or> take 1 z = ''-'') \<and> (fits ''##:##'' (tl z) \<or> fits ''####'' (tl z)))"

definition iso_shape :: "string \<Rightarrow> bool" where
  "iso_shape s = (fits ''####-##-##T##:##'' (take 16 s) \<and>
     (let r = drop 16 s; q = drop 3 r; n = length (takeWhile is_dec (tl q)) in
      iso_zone r \<or> fits '':##'' (take 3 r) \<and>
        (iso_zone q \<or> take 1 q = ''.'' \<and> 1 \<le> n \<and> n \<le> 9 \<and> iso_zone (dropWhile is_dec (tl q)))))"

definition node_text :: "exact \<Rightarrow> string option" where
  "node_text v = (case v of XNum raw \<Rightarrow> Some raw | XStr s \<Rightarrow> Some (js_trim s) | _ \<Rightarrow> None)"

definition seconds_of :: "reader_host \<Rightarrow> string \<Rightarrow> string \<Rightarrow> int option" where
  "seconds_of h format s =
     (if format = ''unix-seconds'' \<and> chars is_dec 1 12 s then Some (int (str_nat s))
      else if format = ''unix-millis'' \<and> chars is_dec 1 15 s then Some (int (str_nat s) div 1000)
      else if format = ''iso-datetime'' \<and> iso_shape s then map_option (\<lambda>ms. ms div 1000) (rh_date h s)
      else if format = ''date'' \<and> fits ''####-##-##'' s then map_option (\<lambda>ms. ms div 1000) (date_parse (s @ ''T00:00:00Z''))
      else None)"

definition timeValue :: "reader_host \<Rightarrow> exact option \<Rightarrow> string \<Rightarrow> int res" where
  "timeValue h v format = (case Option.bind (Option.bind v node_text) (seconds_of h format) of
     None \<Rightarrow> issue ''TIME_INVALID''
   | Some t \<Rightarrow> if is_natural t then ok t else issue ''TIME_INVALID'')"

text \<open>\<open>replace(/,(?=\d{3}(?:\D|$))/g, '')\<close>.\<close>

fun drop_grouping :: "string \<Rightarrow> string" where
  "drop_grouping [] = []"
| "drop_grouping (c # cs) =
     (if c = CHR '','' \<and> length (take 3 cs) = 3 \<and> list_all is_dec (take 3 cs) \<and> (drop 3 cs = [] \<or> \<not> is_dec (hd (drop 3 cs)))
      then drop_grouping cs else c # drop_grouping cs)"

definition setting :: "settlement_rule \<Rightarrow> string \<Rightarrow> json" where
  "setting r k = jget (sl_reader r) k"

text \<open>A setting is read with the type \<open>validateReaderConfig\<close> checked it to have.\<close>

definition as_text :: "json \<Rightarrow> string" where
  "as_text v = (case v of JStr s \<Rightarrow> s | _ \<Rightarrow> [])"

definition as_list :: "json \<Rightarrow> json list" where
  "as_list v = (case v of JArr xs \<Rightarrow> xs | _ \<Rightarrow> [])"

definition scale_of :: "settlement_rule \<Rightarrow> nat" where
  "scale_of r = nat (jint_val (setting r ''scale''))"

definition valueOf :: "reader_host \<Rightarrow> settlement_rule \<Rightarrow> string \<Rightarrow> exact option \<Rightarrow> json res" where
  "valueOf h r grouping node = (case node of
     None \<Rightarrow> issue ''VALUE_MISSING''
   | Some XNull \<Rightarrow> issue ''VALUE_MISSING''
   | Some v \<Rightarrow> (case dn_type (sl_decision r) of
       Number_type \<Rightarrow> (case v of
           XNum raw \<Rightarrow> bindE (exactDecimal raw) (\<lambda>d. bindE (scaled d (scale_of r)) (\<lambda>s. ok (JStr s)))
         | XStr s \<Rightarrow> bindE (exactDecimal (if grouping = ''comma'' then drop_grouping s else s)) (\<lambda>d.
             bindE (scaled d (scale_of r)) (\<lambda>s. ok (JStr s)))
         | _ \<Rightarrow> issue ''VALUE_INVALID'')
     | Timestamp_type \<Rightarrow> bindE (timeValue h (Some v) (as_text (setting r ''valueFormat''))) (\<lambda>t. ok (JInt t))
     | Category_type \<Rightarrow> (case v of
           XNum raw \<Rightarrow> bindE (exactDecimal raw) (\<lambda>d. ok (JStr d))
         | XBool b \<Rightarrow> ok (JStr (if b then ''true'' else ''false''))
         | XStr s \<Rightarrow> if 1 \<le> length s \<and> length s \<le> 500 then ok (JStr s) else issue ''VALUE_INVALID''
         | _ \<Rightarrow> issue ''VALUE_INVALID'')))"

definition compare_op :: "string \<Rightarrow> int \<Rightarrow> bool" where
  "compare_op op c = (if op = ''gt'' then c > 0 else if op = ''gte'' then c \<ge> 0 else if op = ''lt'' then c < 0 else if op = ''lte'' then c \<le> 0 else False)"

definition matches :: "exact option \<Rightarrow> json \<Rightarrow> bool" where
  "matches node f = (case Option.bind node (\<lambda>v. case scalarText v of Inl _ \<Rightarrow> None | Inr t \<Rightarrow> if v = XNull then None else Some t) of
     None \<Rightarrow> False
   | Some actual \<Rightarrow> (let op = as_text (jget f ''op''); wanted = as_text (jget f ''value'') in
       if op = ''eq'' then actual = wanted
       else if op = ''ne'' then actual \<noteq> wanted
       else (case bindE (exactDecimal actual) (\<lambda>d. compareDecimal d wanted) of Inl _ \<Rightarrow> False | Inr c \<Rightarrow> compare_op op c)))"

section \<open>What a decimal is worth\<close>

definition text_value :: "string \<Rightarrow> rat" where
  "text_value s = (case decimal s of Inl _ \<Rightarrow> 0 | Inr x \<Rightarrow> decimal_value x)"

definition parts_value :: "bool \<times> string \<times> string \<times> int \<Rightarrow> rat" where
  "parts_value = (\<lambda>(negative, w, f, shift).
     (if negative then -1 else 1) * of_nat (str_nat (w @ f)) * 10 powi (shift - int (length f)))"

lemma str_nat_zeros [simp]: "str_nat (replicate n CHR ''0'') = 0"
  by (induction n) (simp_all add: str_nat_def from_base_def digit_val_0)

lemma str_nat_lead_zeros [simp]: "str_nat (replicate n CHR ''0'' @ s) = str_nat s"
  by (simp add: str_nat_append)

lemma dec_zeros: "list_all is_dec (replicate n CHR ''0'')"
  by (simp add: list_all_iff is_dec_def code_def)

lemma place_dec: "list_all is_dec digits \<Longrightarrow> list_all is_dec (fst (place digits p))"
  using dec_zeros by (auto simp: place_def)

lemma place_point: "digits \<noteq> [] \<Longrightarrow> 0 < snd (place digits p) \<and> snd (place digits p) \<le> length (fst (place digits p))"
  by (auto simp: place_def)

lemma place_value:
  "(of_nat (str_nat (fst (place digits p))) :: rat) * 10 powi (int (snd (place digits p)) - int (length (fst (place digits p))))
   = of_nat (str_nat digits) * 10 powi (p - int (length digits))"
proof -
  consider "p \<le> 0" | "p > int (length digits)" | "0 < p" "p \<le> int (length digits)" by linarith
  then show ?thesis
  proof cases
    case 1
    then show ?thesis by (simp add: place_def algebra_simps)
  next
    case 2
    then have "(10 :: rat) powi (p - int (length digits)) = 10 ^ (nat p - length digits)"
      by (simp add: power_int_def nat_diff_distrib)
    then show ?thesis using 2 by (simp add: place_def str_nat_append)
  next
    case 3
    then show ?thesis by (simp add: place_def)
  qed
qed


lemma strip_leading_split: "s \<noteq> [] \<Longrightarrow> \<exists>k. s = replicate k CHR ''0'' @ strip_leading s"
proof -
  assume s: "s \<noteq> []"
  let ?z = "takeWhile (\<lambda>c. c = CHR ''0'') s" and ?t = "dropWhile (\<lambda>c. c = CHR ''0'') s"
  have z: "?z = replicate (length ?z) CHR ''0''" by (induction s) auto
  have split: "s = replicate (length ?z) CHR ''0'' @ ?t" using z by (metis takeWhile_dropWhile_id)
  show ?thesis
  proof (cases "?t = []")
    case True
    have all: "s = replicate (length ?z) CHR ''0''" using split unfolding True append_Nil2 .
    then have "length ?z \<noteq> 0" using s by (metis length_0_conv replicate_empty)
    then obtain k where "length ?z = Suc k" using not0_implies_Suc by blast
    then have "s = replicate (Suc k) CHR ''0''" using all by metis
    then have "s = replicate k CHR ''0'' @ ''0''" by (simp add: replicate_append_same)
    moreover have "strip_leading s = ''0''" using True s by (simp add: strip_leading_def)
    ultimately show ?thesis by metis
  next
    case False
    then show ?thesis using split by (auto simp: strip_leading_def Let_def)
  qed
qed

lemma strip_leading_value: "s \<noteq> [] \<Longrightarrow> str_nat (strip_leading s @ t) = str_nat (s @ t)"
  using strip_leading_split [of s] by (metis append.assoc str_nat_lead_zeros)

lemma strip_leading_canon:
  assumes "list_all is_dec s" "s \<noteq> []"
  shows "is_canon_dec (strip_leading s)"
proof -
  obtain k where k: "s = replicate k CHR ''0'' @ strip_leading s" using strip_leading_split assms(2) by blast
  have "list_all is_dec (strip_leading s)" using assms(1) k by (metis list_all_append)
  moreover have "strip_leading s \<noteq> []" using assms(2) by (simp add: strip_leading_def Let_def)
  moreover have "length (strip_leading s) = 1" if "hd (strip_leading s) = CHR ''0''"
  proof -
    have "dropWhile (\<lambda>c. c = CHR ''0'') s \<noteq> [] \<Longrightarrow> hd (dropWhile (\<lambda>c. c = CHR ''0'') s) \<noteq> CHR ''0''"
      using hd_dropWhile by blast
    then show ?thesis using that assms(2) by (auto simp: strip_leading_def Let_def split: if_splits)
  qed
  ultimately show ?thesis by (simp add: is_canon_dec_def)
qed

lemma strip_leading_id: "is_canon_dec w \<Longrightarrow> strip_leading w = w"
  by (cases w) (auto simp: is_canon_dec_def strip_leading_def)

lemma takeWhile_dec_then:
  "list_all is_dec w \<Longrightarrow> r = [] \<or> \<not> is_dec (hd r) \<Longrightarrow> takeWhile is_dec (w @ r) = w \<and> dropWhile is_dec (w @ r) = r"
  by (induction w) (auto simp: list_all_iff takeWhile_eq_Nil_iff dropWhile_eq_self_iff)

lemma dec_not_mark: "is_dec c \<Longrightarrow> c \<noteq> CHR ''-'' \<and> c \<noteq> CHR ''.''"
  by (auto simp: is_dec_def code_def)

lemma not_dec_dot: "\<not> is_dec CHR ''.''" "\<not> is_dec CHR ''-''"
  by (simp_all add: is_dec_def code_def)

lemma decimal_written:
  assumes "is_canon_dec w" "length w \<le> 36" "list_all is_dec f" "length f \<le> 18"
  shows "decimal (written negative w f) = ok (int (str_nat (w @ f)) * (if negative then -1 else 1), length f)"
proof -
  let ?b = "w @ (if f \<noteq> [] then CHR ''.'' # f else [])"
  have w: "list_all is_dec w" "w \<noteq> []" using assms(1) by (auto simp: is_canon_dec_def)
  have tw: "takeWhile is_dec ?b = w" "dropWhile is_dec ?b = (if f \<noteq> [] then CHR ''.'' # f else [])"
    using takeWhile_dec_then [OF w(1), of "if f \<noteq> [] then CHR ''.'' # f else []"] by (auto simp: not_dec_dot)
  have "take 1 ?b \<noteq> ''-''" using w by (cases w) (auto simp: not_dec_dot)
  then have "decimal_parts (written negative w f) = Some (negative, w, f)"
    using tw assms by (cases negative) (auto simp: decimal_parts_def written_def Let_def chars_def Suc_le_eq split del: if_split split: if_splits)
  then show ?thesis by (simp add: decimal_def)
qed

lemma number_parts_dec:
  assumes "number_parts s = Some (negative, w, f, shift)"
  shows "list_all is_dec w \<and> list_all is_dec f \<and> w \<noteq> []"
  using assms by (auto simp: number_parts_def Let_def list_all_iff dest: set_takeWhileD split: if_splits)

lemma list_ex_nonzero: "list_all is_dec s \<Longrightarrow> list_ex (\<lambda>c. c \<noteq> CHR ''0'') s \<longleftrightarrow> str_nat s \<noteq> 0"
proof (induction s rule: rev_induct)
  case Nil
  then show ?case by (simp add: str_nat_def from_base_def)
next
  case (snoc c s)
  have "is_dec c" using snoc.prems by simp
  have "str_nat [c] = digit_val c" by (simp add: str_nat_def from_base_def)
  moreover have "digit_val c = 0 \<longleftrightarrow> c = CHR ''0''"
    using \<open>is_dec c\<close> by (metis digit_char_val digit_char_0 is_dec_imp_lhex digit_val_0)
  ultimately show ?case using snoc by (auto simp: str_nat_append)
qed

lemma exactDecimal_ok:
  assumes "exactDecimal raw = ok out"
  obtains negative w f shift wp fr where "number_parts (js_trim raw) = Some (negative, w, f, shift)"
    "is_canon_dec wp" "length wp \<le> 36" "list_all is_dec fr" "length fr \<le> 18" "fr = strip_zeros fr"
    "out = written (negative \<and> str_nat (wp @ fr) \<noteq> 0) wp fr"
    "(of_nat (str_nat (wp @ fr)) :: rat) / 10 ^ length fr = of_nat (str_nat (w @ f)) * 10 powi (shift - int (length f))"
proof -
  obtain negative w f shift where p: "number_parts (js_trim raw) = Some (negative, w, f, shift)"
    using assms by (auto simp: exactDecimal_def split: option.splits)
  obtain digits q where q: "place (w @ f) (int (length w) + shift) = (digits, q)" by fastforce
  define wp where "wp = strip_leading (take q digits)"
  define fr where "fr = strip_zeros (drop q digits)"
  have wf: "list_all is_dec (w @ f)" "w @ f \<noteq> []" using number_parts_dec [OF p] by auto
  have d: "list_all is_dec digits" "0 < q" "q \<le> length digits"
    using place_dec [OF wf(1), of "int (length w) + shift"] place_point [OF wf(2), of "int (length w) + shift"] q by simp_all
  then have td: "list_all is_dec (take q digits)" "take q digits \<noteq> []" "list_all is_dec (drop q digits)"
    by (auto simp: list_all_iff dest: in_set_takeD in_set_dropD)
  have wp: "is_canon_dec wp" unfolding wp_def by (rule strip_leading_canon [OF td(1,2)])
  have fr: "list_all is_dec fr" unfolding fr_def by (rule strip_zeros_dec [OF td(3)])
  then have wpfr: "list_all is_dec (wp @ fr)" using wp by (simp add: is_canon_dec_def)
  have len: "length fr \<le> 18" "length wp \<le> 36"
    and out: "out = written (negative \<and> str_nat (wp @ fr) \<noteq> 0) wp fr"
    using assms p q list_ex_nonzero [OF wpfr] by (auto simp: exactDecimal_def wp_def fr_def Let_def split: if_splits)
  obtain k where k: "drop q digits = fr @ replicate k CHR ''0''" unfolding fr_def using strip_zeros_append by blast
  have "str_nat digits = str_nat (take q digits @ drop q digits)" by simp
  also have "\<dots> = str_nat (wp @ fr @ replicate k CHR ''0'')" unfolding wp_def k using strip_leading_value [OF td(2)] by simp
  also have "\<dots> = str_nat (wp @ fr) * 10 ^ k" by (simp add: str_nat_append flip: append_assoc)
  finally have sn: "str_nat digits = str_nat (wp @ fr) * 10 ^ k" .
  have "length digits = q + (length fr + k)" using k d(3) by (metis append_take_drop_id length_append length_replicate length_take min.absorb2)
  then have e: "int q - int (length digits) = - int (length fr + k)" by simp
  have "(of_nat (str_nat digits) :: rat) * 10 powi (int q - int (length digits)) = of_nat (str_nat (wp @ fr)) / 10 ^ length fr"
    unfolding sn e power_int_minus power_int_of_nat by (simp add: power_add field_simps)
  moreover have "(of_nat (str_nat digits) :: rat) * 10 powi (int q - int (length digits)) = of_nat (str_nat (w @ f)) * 10 powi (shift - int (length f))"
    using place_value [of "w @ f" "int (length w) + shift"] q by (simp add: algebra_simps)
  ultimately have v: "(of_nat (str_nat (wp @ fr)) :: rat) / 10 ^ length fr = of_nat (str_nat (w @ f)) * 10 powi (shift - int (length f))" by simp
  have "fr = strip_zeros fr" unfolding fr_def strip_zeros_def by simp
  then show thesis using that p wp len fr out v by blast
qed

lemma text_value_written:
  assumes "is_canon_dec w" "length w \<le> 36" "list_all is_dec f" "length f \<le> 18"
  shows "text_value (written negative w f) = (if negative then -1 else 1) * of_nat (str_nat (w @ f)) / 10 ^ length f"
  using decimal_written [OF assms] by (simp add: text_value_def decimal_value_def)

lemma exactDecimal_value:
  assumes "exactDecimal raw = ok out"
  shows "\<exists>p. number_parts (js_trim raw) = Some p \<and> text_value out = parts_value p \<and> (\<exists>x. decimal out = ok x)"
proof -
  obtain negative w f shift wp fr where p: "number_parts (js_trim raw) = Some (negative, w, f, shift)"
    "is_canon_dec wp" "length wp \<le> 36" "list_all is_dec fr" "length fr \<le> 18" "fr = strip_zeros fr"
    "out = written (negative \<and> str_nat (wp @ fr) \<noteq> 0) wp fr"
    "(of_nat (str_nat (wp @ fr)) :: rat) / 10 ^ length fr = of_nat (str_nat (w @ f)) * 10 powi (shift - int (length f))"
    by (rule exactDecimal_ok [OF assms])
  have "text_value out = parts_value (negative, w, f, shift)"
    using p(8) by (cases "str_nat (wp @ fr) = 0") (auto simp: p(7) text_value_written [OF p(2-5)] parts_value_def)
  then show ?thesis using p(1) decimal_written [OF p(2-5)] p(7) by blast
qed

lemma written_dec:
  assumes "list_all is_dec w" "w \<noteq> []" "list_all is_dec f"
  shows "js_trim (written negative w f) = written negative w f"
proof (rule js_trim_id)
  show "written negative w f \<noteq> []" using assms by (simp add: written_def)
  show "\<not> is_ws (hd (written negative w f))"
    using assms by (cases w) (auto simp: written_def is_ws_def code_def is_dec_def)
  have "is_dec (last (written negative w f))" using assms by (auto simp: written_def list_all_iff)
  then show "\<not> is_ws (last (written negative w f))" by (rule is_dec_not_ws)
qed

lemma number_parts_written:
  assumes "list_all is_dec w" "w \<noteq> []" "list_all is_dec f" "e = [] \<or> hd e = CHR ''e''"
  shows "number_parts (written negative w f @ e) = map_option (\<lambda>shift. (negative, w, f, shift)) (exponent_of e)"
proof -
  let ?r = "(if f \<noteq> [] then CHR ''.'' # f else []) @ e"
  have e: "e = [] \<or> \<not> is_dec (hd e)" "take 1 e \<noteq> ''.''" using assms(4) by (cases e; auto simp: is_dec_def code_def)+
  have r: "?r = [] \<or> \<not> is_dec (hd ?r)" using e by (auto simp: not_dec_dot)
  have w: "takeWhile is_dec (w @ ?r) = w" "dropWhile is_dec (w @ ?r) = ?r" using takeWhile_dec_then [OF assms(1) r] by simp_all
  have f: "takeWhile is_dec (f @ e) = f" "dropWhile is_dec (f @ e) = e" using takeWhile_dec_then [OF assms(3) e(1)] by simp_all
  have b: "take 1 (w @ ?r) \<noteq> ''-''" using assms(1,2) by (cases w) (auto simp: not_dec_dot)
  have "(if take 1 (written negative w f @ e) = ''-'' then tl (written negative w f @ e) else written negative w f @ e) = w @ ?r"
    "take 1 (written negative w f @ e) = ''-'' \<longleftrightarrow> negative"
    using b by (cases negative; simp add: written_def)+
  then show ?thesis using assms(2) w f e by (simp add: number_parts_def Let_def)
qed

text \<open>The canonical texts are the ones the reader leaves alone.\<close>

lemma exactDecimal_canonical:
  assumes "is_canon_dec w" "length w \<le> 36" "list_all is_dec f" "length f \<le> 18" "f = strip_zeros f"
    "negative \<longrightarrow> str_nat (w @ f) \<noteq> 0"
  shows "exactDecimal (written negative w f) = ok (written negative w f)"
proof -
  have w: "list_all is_dec w" "w \<noteq> []" using assms(1) by (auto simp: is_canon_dec_def)
  have n: "number_parts (js_trim (written negative w f)) = Some (negative, w, f, 0)"
    using number_parts_written [OF w assms(3), of "[]" negative] by (simp add: written_dec [OF w assms(3)] exponent_of_def)
  have p: "place (w @ f) (int (length w)) = (w @ f, length w)" using w by (simp add: place_def)
  have "(negative \<and> list_ex (\<lambda>c. c \<noteq> CHR ''0'') (w @ f)) = negative"
    using list_ex_nonzero [of "w @ f"] w assms(3,6) by auto
  then show ?thesis
    using assms(5) [symmetric] assms(2,4) decimal_written [OF assms(1-4)]
    by (simp add: exactDecimal_def n p strip_leading_id [OF assms(1)] del: list_ex_append)
qed

lemma exactDecimal_shape:
  assumes "exactDecimal raw = ok out"
  obtains negative w f where "out = written negative w f" "list_all is_dec w" "w \<noteq> []" "list_all is_dec f" "exactDecimal out = ok out"
proof -
  obtain negative w f shift wp fr where p: "number_parts (js_trim raw) = Some (negative, w, f, shift)"
    "is_canon_dec wp" "length wp \<le> 36" "list_all is_dec fr" "length fr \<le> 18" "fr = strip_zeros fr"
    "out = written (negative \<and> str_nat (wp @ fr) \<noteq> 0) wp fr"
    by (rule exactDecimal_ok [OF assms])
  have "exactDecimal out = ok out" unfolding p(7) by (rule exactDecimal_canonical [OF p(2-6)]) simp
  then show thesis using that [OF p(7)] p(2,4) by (auto simp: is_canon_dec_def)
qed

lemma parts_value_written:
  assumes "list_all is_dec w" "w \<noteq> []" "list_all is_dec f" "exactDecimal (written negative w f) = ok out"
  shows "text_value out = (if negative then -1 else 1) * of_nat (str_nat (w @ f)) / 10 ^ length f"
proof -
  have n: "number_parts (js_trim (written negative w f)) = Some (negative, w, f, 0)"
    using number_parts_written [OF assms(1-3), of "[]" negative] by (simp add: written_dec [OF assms(1-3)] exponent_of_def)
  then show ?thesis
    using exactDecimal_value [OF assms(4)] by (auto simp: parts_value_def power_int_minus power_int_of_nat field_simps)
qed

lemma length_pad_start_ge: "n \<le> length (pad_start n s)"
  by (simp add: pad_start_def)

lemma fromUnits_value:
  assumes "fromUnits c places = ok out"
  shows "text_value out = of_int c / 10 ^ places"
proof -
  let ?d = "pad_start (places + 1) (nat_str (nat \<bar>c\<bar>))"
  let ?n = "length ?d - places" and ?f = "if places \<noteq> 0 then drop (length ?d - places) ?d else []"
  have l: "places + 1 \<le> length ?d" by (rule length_pad_start_ge)
  have d: "list_all is_dec ?d" by (simp add: pad_start_dec nat_str_all_dec)
  have w: "list_all is_dec (take ?n ?d)" "take ?n ?d \<noteq> []" "list_all is_dec ?f" "length ?f = places" "take ?n ?d @ ?f = ?d"
    using d l by (auto simp: list_all_iff dest: in_set_takeD in_set_dropD)
  have "exactDecimal (written (c < 0) (take ?n ?d) ?f) = ok out" using assms unfolding fromUnits_def Let_def .
  from parts_value_written [OF w(1-3) this, unfolded w(4,5)] show ?thesis by simp
qed

lemma addDecimal_value:
  assumes "addDecimal a b = ok out"
  shows "text_value out = text_value a + text_value b"
proof -
  obtain x sx y sy where xy: "decimal a = ok (x, sx)" "decimal b = ok (y, sy)"
    using assms by (auto simp: addDecimal_def split: sum.splits)
  let ?s = "max sx sy"
  have "text_value out = of_int (x * 10 ^ (?s - sx) + y * 10 ^ (?s - sy)) / 10 ^ ?s"
    using assms by (intro fromUnits_value) (simp add: addDecimal_def xy Let_def)
  moreover have "of_int (z * 10 ^ (n - k)) / 10 ^ n = (of_int z / 10 ^ k :: rat)" if "k \<le> n" for z n k
  proof -
    have "(10 :: rat) ^ n = 10 ^ k * 10 ^ (n - k)" using that by (simp flip: power_add)
    then show ?thesis by simp
  qed
  ultimately show ?thesis by (simp add: text_value_def xy decimal_value_def add_divide_distrib)
qed

lemma scaled_value:
  assumes "exactDecimal raw = ok d" "scaled d places = ok out"
  shows "text_value out = text_value d / 10 ^ places"
proof (cases "places = 0")
  case True
  then show ?thesis using assms by (simp add: scaled_def)
next
  case False
  obtain negative w f where d: "d = written negative w f" "list_all is_dec w" "w \<noteq> []" "list_all is_dec f" "exactDecimal d = ok d"
    by (rule exactDecimal_shape [OF assms(1)])
  let ?e = "''e-'' @ nat_str places"
  have x: "exactDecimal (d @ ?e) = ok out" using assms(2) False by (simp add: scaled_def)
  have "is_dec (last (nat_str places))" using nat_str_all_dec [of places] nat_str_nonempty [of places] by (auto simp: list_all_iff)
  then have last: "\<not> is_ws (last (d @ ?e))" by (simp add: is_dec_not_ws)
  have "\<not> is_ws (hd (d @ ?e))"
    using d(2,3) by (cases w) (auto simp: d(1) written_def is_ws_def code_def is_dec_def)
  then have t: "js_trim (d @ ?e) = d @ ?e" using last by (intro js_trim_id) simp_all
  have "exponent_of ?e = Some (- int places)"
    by (simp add: exponent_of_def nat_str_all_dec)
  then have "number_parts (d @ ?e) = Some (negative, w, f, - int places)"
    unfolding d(1) using number_parts_written [OF d(2-4), of ?e negative] by simp
  then have "text_value out = parts_value (negative, w, f, - int places)" using exactDecimal_value [OF x] t by simp
  also have "\<dots> = parts_value (negative, w, f, 0) / 10 ^ places"
    by (simp add: parts_value_def power_int_diff power_int_minus power_int_of_nat field_simps)
  also have "parts_value (negative, w, f, 0) = text_value d"
    using parts_value_written [OF d(2-4), of negative d] d(1,5) by (simp add: parts_value_def power_int_minus power_int_of_nat field_simps)
  finally show ?thesis .
qed

section \<open>Properties\<close>

text \<open>a decimal text read exactly keeps its value: what the reader writes down is worth precisely the
  digits, point and exponent the source wrote, and reading it again changes nothing.\<close>

theorem exact_decimal_exact:
  assumes "exactDecimal raw = ok out"
  shows "\<exists>p. number_parts (js_trim raw) = Some p \<and> text_value out = parts_value p \<and> exactDecimal out = ok out"
  using exactDecimal_value [OF assms] exactDecimal_shape [OF assms] by metis

lemma exact_decimal_exact_witness:
  "exactDecimal '' -012.50e1 '' = ok ''-125'' \<and> (\<exists>p. number_parts ''-012.50e1'' = Some p \<and> text_value ''-125'' = parts_value p)"
proof -
  have "exactDecimal '' -012.50e1 '' = ok ''-125''" "js_trim '' -012.50e1 '' = ''-012.50e1''" by code_simp+
  then show ?thesis using exact_decimal_exact [of "'' -012.50e1 ''" "''-125''"] by auto
qed

end
