(* ===== verification/Reader_Config.thy ===== *)
theory Reader_Config
  imports Exact_Values
begin

text \<open>
  The configuration checks of the general settlement readers (\<open>validateReaderConfig\<close> in
  apps/web/server/settlement-readers.mjs). The configuration is the JSON value of the rule's
  \<open>source.reader\<close>; how many groups a regular expression has is a parameter. A metric names a property of
  an object literal, so the names every object inherits are found there too.
\<close>

definition plain :: "json \<Rightarrow> string list \<Rightarrow> string list \<Rightarrow> bool" where
  "plain v ks required = (case v of
     JObj kvs \<Rightarrow> list_all (\<lambda>(k, _). List.member ks k) kvs \<and> list_all (\<lambda>k. map_of kvs k \<noteq> None) required
   | _ \<Rightarrow> False)"

definition limited_text :: "json \<Rightarrow> nat \<Rightarrow> bool" where
  "limited_text v mx = (case v of JStr s \<Rightarrow> 0 < length s \<and> length s \<le> mx | _ \<Rightarrow> False)"

definition config_pointer :: "json \<Rightarrow> bool" where
  "config_pointer v = (case v of JStr s \<Rightarrow> length s \<le> 300 \<and> (s = [] \<or> take 1 s = ''/'' \<and> pointer_tail (tl s)) | _ \<Rightarrow> False)"

definition config_address :: "json \<Rightarrow> bool" where
  "config_address v = (case v of JStr s \<Rightarrow> is_0x_hex 40 s | _ \<Rightarrow> False)"

definition one_of :: "json \<Rightarrow> string list \<Rightarrow> bool" where
  "one_of v names = (case v of JStr s \<Rightarrow> List.member names s | _ \<Rightarrow> False)"

definition TIME_FORMATS :: "string list" where
  "TIME_FORMATS = [''unix-seconds'', ''unix-millis'', ''iso-datetime'', ''date'']"

definition OPS :: "string list" where
  "OPS = [''eq'', ''ne'', ''gt'', ''gte'', ''lt'', ''lte'']"

abbreviation absent :: "json \<Rightarrow> bool" where
  "absent v \<equiv> v = JUndef"

text \<open>\<open>Boolean(v)\<close>.\<close>

definition truthy :: "json \<Rightarrow> bool" where
  "truthy v = (case v of JUndef \<Rightarrow> False | JNull \<Rightarrow> False | JBool b \<Rightarrow> b | JInt i \<Rightarrow> i \<noteq> 0 | JStr s \<Rightarrow> s \<noteq> [] | _ \<Rightarrow> True)"

definition natural_upto :: "json \<Rightarrow> int \<Rightarrow> int \<Rightarrow> bool" where
  "natural_upto v lo hi = (is_safe_int v \<and> lo \<le> jint_val v \<and> jint_val v \<le> hi)"

definition list_of :: "json \<Rightarrow> nat \<Rightarrow> nat \<Rightarrow> (json \<Rightarrow> bool) \<Rightarrow> bool" where
  "list_of v lo hi P = (case v of JArr xs \<Rightarrow> lo \<le> length xs \<and> length xs \<le> hi \<and> list_all P xs | _ \<Rightarrow> False)"

section \<open>Patterns\<close>

text \<open>
  A repeated group that repeats something inside, \<open>/\((?:[^()\\]|\\.)*[+*](?:[^()\\]|\\.)*\)[+*{]/\<close>: from an
  opening parenthesis, over characters and escapes, to a closing one that is repeated.
\<close>

fun repeats :: "bool \<Rightarrow> string \<Rightarrow> bool" where
  "repeats seen [] = False"
| "repeats seen (c # cs) =
     (if c = CHR '')'' then seen \<and> cs \<noteq> [] \<and> List.member [CHR ''+'', CHR ''*'', CHR ''{''] (hd cs)
      else if c = CHR ''('' then False
      else if c = backslash then (case cs of [] \<Rightarrow> False | d # ds \<Rightarrow> code d \<noteq> 10 \<and> code d \<noteq> 13 \<and> repeats seen ds)
      else repeats (seen \<or> c = CHR ''+'' \<or> c = CHR ''*'') cs)"

fun nested_repeat :: "string \<Rightarrow> bool" where
  "nested_repeat [] = False"
| "nested_repeat (c # cs) = (c = CHR ''('' \<and> repeats False cs \<or> nested_repeat cs)"

text \<open>\<open>/\\[1-9]|\(\?<[=!]/\<close>: a back reference or a look-behind.\<close>

fun looks_back :: "string \<Rightarrow> bool" where
  "looks_back [] = False"
| "looks_back (c # cs) =
     (c = backslash \<and> cs \<noteq> [] \<and> is_dec (hd cs) \<and> hd cs \<noteq> CHR ''0''
      \<or> c = CHR ''('' \<and> (take 3 cs = ''?<='' \<or> take 3 cs = ''?<!'') \<or> looks_back cs)"

definition checkPattern :: "reader_host \<Rightarrow> json \<Rightarrow> bool" where
  "checkPattern h v = (case v of
     JStr s \<Rightarrow> 0 < length s \<and> length s \<le> 300 \<and> \<not> nested_repeat s \<and> \<not> looks_back s \<and> rh_groups h s = Some 1
   | _ \<Rightarrow> False)"

definition checkPublished :: "reader_host \<Rightarrow> json \<Rightarrow> string \<Rightarrow> bool" where
  "checkPublished h v key =
     (absent v \<or> plain v [key, ''format''] [key, ''format''] \<and> one_of (jget v ''format'') TIME_FORMATS
       \<and> (if key = ''path'' then config_pointer (jget v ''path'')
          else if key = ''pattern'' then checkPattern h (jget v ''pattern'')
          else limited_text (jget v key) 200))"

section \<open>The adapters\<close>

definition filter_ok :: "json \<Rightarrow> bool" where
  "filter_ok f = (plain f [''path'', ''op'', ''value''] [''path'', ''op'', ''value''] \<and> config_pointer (jget f ''path'')
     \<and> one_of (jget f ''op'') OPS \<and> limited_text (jget f ''value'') 200
     \<and> (one_of (jget f ''op'') [''eq'', ''ne''] \<or> decimal_parts (as_text (jget f ''value'')) \<noteq> None))"

definition check_ok :: "json \<Rightarrow> bool" where
  "check_ok c = (plain c [''path'', ''equals''] [''path'', ''equals''] \<and> config_pointer (jget c ''path'') \<and> limited_text (jget c ''equals'') 500)"

definition json_config :: "reader_host \<Rightarrow> decision_type \<Rightarrow> json \<Rightarrow> bool" where
  "json_config h type r =
     (let aggregate = jget r ''aggregate''; needsField = one_of aggregate [''only'', ''sum'', ''max'', ''min''] in
      plain r [''select'', ''aggregate'', ''field'', ''filter'', ''checks'', ''publishedAt'', ''scale'', ''valueFormat''] [''select'', ''aggregate'']
      \<and> config_pointer (jget r ''select'') \<and> one_of aggregate [''value'', ''only'', ''count'', ''sum'', ''max'', ''min'']
      \<and> (if needsField then config_pointer (jget r ''field'') else absent (jget r ''field''))
      \<and> (one_of aggregate [''count'', ''sum'', ''max'', ''min''] \<longrightarrow> type = Number_type)
      \<and> (aggregate = JStr ''value'' \<longrightarrow> absent (jget r ''filter''))
      \<and> (absent (jget r ''filter'') \<or> list_of (jget r ''filter'') 1 8 filter_ok)
      \<and> (absent (jget r ''checks'') \<or> list_of (jget r ''checks'') 1 8 check_ok)
      \<and> checkPublished h (jget r ''publishedAt'') ''path'')"

definition selection :: "json \<Rightarrow> (string \<times> json) list" where
  "selection v = (case v of JObj kvs \<Rightarrow> kvs | _ \<Rightarrow> [])"

definition table_config :: "reader_host \<Rightarrow> json \<Rightarrow> bool" where
  "table_config h r =
     (let format = jget r ''format''; chosen = selection (jget r ''select'') in
      plain r [''format'', ''delimiter'', ''select'', ''valueColumn'', ''period'', ''missing'', ''publishedAt'', ''scale'', ''valueFormat''] [''format'', ''select'']
      \<and> one_of format [''csv'', ''sdmx-json'', ''json-stat''] \<and> is_record (jget r ''select'')
      \<and> length chosen \<le> 12 \<and> list_all (\<lambda>(k, v). limited_text (JStr k) 200 \<and> limited_text v 200) chosen
      \<and> (if format = JStr ''csv'' then
           limited_text (jget r ''valueColumn'') 200 \<and> absent (jget r ''period'') \<and> chosen \<noteq> []
           \<and> (absent (jget r ''delimiter'') \<or> one_of (jget r ''delimiter'') ['','', '';'', [char_of (9 :: nat)]])
           \<and> (absent (jget r ''missing'')
              \<or> list_of (jget r ''missing'') 0 10 (\<lambda>m. case m of JStr s \<Rightarrow> length s \<le> 20 | _ \<Rightarrow> False))
           \<and> checkPublished h (jget r ''publishedAt'') ''column''
         else list_all (\<lambda>k. absent (jget r k)) [''valueColumn'', ''delimiter'', ''missing'', ''publishedAt'']
           \<and> (if format = JStr ''sdmx-json'' then limited_text (jget r ''period'') 50 else absent (jget r ''period'') \<and> chosen \<noteq> [])))"

definition page_config :: "reader_host \<Rightarrow> json \<Rightarrow> bool" where
  "page_config h r =
     (plain r [''anchors'', ''pattern'', ''grouping'', ''publishedAt'', ''scale'', ''valueFormat''] [''anchors'', ''pattern'']
      \<and> list_of (jget r ''anchors'') 1 8 (\<lambda>a. case a of JStr s \<Rightarrow> 3 \<le> length s \<and> length s \<le> 300 | _ \<Rightarrow> False)
      \<and> checkPattern h (jget r ''pattern'')
      \<and> (absent (jget r ''grouping'') \<or> one_of (jget r ''grouping'') [''none'', ''comma''])
      \<and> checkPublished h (jget r ''publishedAt'') ''pattern'')"

text \<open>What a metric may be configured with: the entry of the literal, or what its prototype has under that name.\<close>

datatype metric_settings = Settings "string list" | Inherited | No_settings

definition PROTOTYPE :: "string list" where
  "PROTOTYPE = [''constructor'', ''__defineGetter__'', ''__defineSetter__'', ''hasOwnProperty'', ''__lookupGetter__'',
     ''__lookupSetter__'', ''isPrototypeOf'', ''propertyIsEnumerable'', ''toString'', ''valueOf'', ''__proto__'', ''toLocaleString'']"

definition settings_of :: "json \<Rightarrow> metric_settings" where
  "settings_of metric = (case map_of [(''call'', [''call'']), (''balance'', [''address'']), (''nonce'', [''address'']),
       (''block-field'', [''field'']), (''tx-count'', [''stride'']), (''log-count'', [''logs''])] (js_string metric) of
     Some ks \<Rightarrow> Settings ks
   | None \<Rightarrow> if List.member PROTOTYPE (js_string metric) then Inherited else No_settings)"

definition contract_call_ok :: "json \<Rightarrow> bool" where
  "contract_call_ok c = (plain c [''to'', ''data'', ''returns''] [''to'', ''data'', ''returns''] \<and> config_address (jget c ''to'')
     \<and> (let s = js_string (jget c ''data'') in take 2 s = ''0x'' \<and> chars is_hex 8 2048 (drop 2 s) \<and> even (length s))
     \<and> one_of (jget c ''returns'') [''uint256'', ''int256''])"

definition topics_ok :: "json \<Rightarrow> bool" where
  "topics_ok v = (absent v \<or> list_of v 0 4 (\<lambda>t. t = JNull \<or> is_0x_hex 64 (js_string t)))"

definition logs_ok :: "json \<Rightarrow> bool" where
  "logs_ok l = (plain l [''address'', ''topics''] [''address''] \<and> config_address (jget l ''address'') \<and> topics_ok (jget l ''topics''))"

definition metric_ok :: "json \<Rightarrow> bool" where
  "metric_ok r =
     (let metric = jget r ''metric'' in
      (metric = JStr ''call'' \<longrightarrow> contract_call_ok (jget r ''call''))
      \<and> (one_of metric [''balance'', ''nonce''] \<longrightarrow> config_address (jget r ''address''))
      \<and> (metric = JStr ''block-field'' \<longrightarrow> one_of (jget r ''field'') [''gasUsed'', ''gasLimit'', ''baseFeePerGas'', ''transactions''])
      \<and> (metric = JStr ''tx-count'' \<longrightarrow> absent (jget r ''stride'') \<or> natural_upto (jget r ''stride'') 1 10000)
      \<and> (metric = JStr ''log-count'' \<longrightarrow> logs_ok (jget r ''logs'')))"

definition is_range :: "json \<Rightarrow> bool" where
  "is_range r = one_of (jget r ''metric'') [''tx-count'', ''log-count'']"

definition chain_range :: "settlement_rule \<Rightarrow> json \<Rightarrow> bool" where
  "chain_range rule r =
     (let until = jget r ''until''; start = jint_val (jget r ''at'') in
      (if is_range r then is_safe_int until \<and> jint_val until > start \<and> jint_val until - start \<le> 7 * 86400 else absent until)
      \<and> ti_scheduledAt (sl_timing rule) \<ge> (if absent until then start else jint_val until))"

definition chain_config :: "settlement_rule \<Rightarrow> json \<Rightarrow> unit res" where
  "chain_config rule r =
     (if \<not> (plain r [''chainId'', ''at'', ''until'', ''metric'', ''call'', ''address'', ''field'', ''logs'', ''stride'', ''finalitySeconds'', ''scale'']
               [''chainId'', ''at'', ''metric'', ''finalitySeconds'']
             \<and> natural_upto (jget r ''chainId'') 1 max_safe \<and> natural_upto (jget r ''at'') 1 max_safe
             \<and> natural_upto (jget r ''finalitySeconds'') 0 86400 \<and> dn_type (sl_decision rule) = Number_type
             \<and> sl_vintage rule = First_snapshot \<and> length (sl_urls rule) \<le> 3) then plain_error
      else if \<not> chain_range rule r then plain_error
      else (let given = filter (\<lambda>k. \<not> absent (jget r k)) [''call'', ''address'', ''field'', ''logs'', ''stride''] in
        case settings_of (jget r ''metric'') of
          No_settings \<Rightarrow> plain_error
        | Inherited \<Rightarrow> if given \<noteq> [] then Inl (Other_error ''TypeError'') else ok ()
        | Settings allowed \<Rightarrow> if \<not> list_all (List.member allowed) given \<or> \<not> metric_ok r then plain_error else ok ()))"

section \<open>The check\<close>

definition common_config :: "settlement_rule \<Rightarrow> bool" where
  "common_config rule =
     (let r = sl_reader rule; type = dn_type (sl_decision rule) in
      is_record r \<and> (absent (jget r ''scale'') \<or> type = Number_type \<and> natural_upto (jget r ''scale'') 0 36)
      \<and> (type = Timestamp_type) = (\<not> absent (jget r ''valueFormat''))
      \<and> (absent (jget r ''valueFormat'') \<or> one_of (jget r ''valueFormat'') TIME_FORMATS)
      \<and> sl_vintage rule \<noteq> With_corrections)"

definition validateReaderConfig :: "reader_host \<Rightarrow> settlement_rule \<Rightarrow> unit res" where
  "validateReaderConfig h rule =
     (let r = sl_reader rule in
      if \<not> common_config rule then plain_error
      else bindE
        (if sl_adapter rule = ''json-api.v1'' then guardE (json_config h (dn_type (sl_decision rule)) r) (Other_error ''Error'')
         else if sl_adapter rule = ''stat-table.v1'' then guardE (table_config h r) (Other_error ''Error'')
         else if sl_adapter rule = ''html-text.v1'' then guardE (page_config h r) (Other_error ''Error'')
         else if sl_adapter rule = ''evm-rpc.v1'' then chain_config rule r
         else plain_error)
        (\<lambda>_. if sl_vintage rule = Initial_only \<and> \<not> truthy (jget r ''publishedAt'') then plain_error else ok ()))"

end
