(* ===== verification/Text_Readers.thy ===== *)
theory Text_Readers
  imports Reader_Config
begin

text \<open>
  The general settlement readers of text: public JSON, official statistics (CSV, SDMX-JSON, JSON-stat) and
  pages (apps/web/server/settlement-readers.mjs). A reader turns one retained body into a value, or
  into the reason it has none. What a page's text is and what a pattern matches in it are parameters; the
  numbers of a JSON-stat structure are read at their exact value.
\<close>

record reading =
  re_value :: json
  re_publishedAt :: "int option"

abbreviation type_error :: "'a res" where
  "type_error \<equiv> Inl (Other_error ''TypeError'')"

definition reading_of :: "json \<Rightarrow> int option \<Rightarrow> reading" where
  "reading_of v t = \<lparr>re_value = v, re_publishedAt = t\<rparr>"

text \<open>\<open>r.publishedAt ? timeValue(\<dots>, r.publishedAt.format) : null\<close>, and the \<open>{ value, publishedAt }\<close> returned.\<close>

definition published :: "reader_host \<Rightarrow> settlement_rule \<Rightarrow> (json \<Rightarrow> exact option res) \<Rightarrow> json \<Rightarrow> reading res" where
  "published h rule pick v = (let p = setting rule ''publishedAt'' in
     if truthy p then bindE (pick p) (\<lambda>node. bindE (timeValue h node (as_text (jget p ''format''))) (\<lambda>t. ok (reading_of v (Some t))))
     else ok (reading_of v None))"

section \<open>JSON\<close>

definition check_identity :: "exact \<Rightarrow> json \<Rightarrow> unit res" where
  "check_identity doc c = bindE (resolveE doc (as_text (jget c ''path''))) (\<lambda>node. bindE (scalarText node) (\<lambda>s.
     if s \<noteq> as_text (jget c ''equals'') then issue ''OBSERVATION_IDENTITY_MISMATCH'' else ok ()))"

definition selected :: "settlement_rule \<Rightarrow> exact list \<Rightarrow> exact list" where
  "selected rule nodes = filter (\<lambda>node. list_all (\<lambda>f. matches (resolve node (as_text (jget f ''path''))) f) (as_list (setting rule ''filter''))) nodes"

definition field_decimal :: "string \<Rightarrow> exact \<Rightarrow> string res" where
  "field_decimal path node = bindE (resolveE node path) (\<lambda>v. case v of
     XNum raw \<Rightarrow> exactDecimal raw | XStr s \<Rightarrow> exactDecimal s | _ \<Rightarrow> issue ''VALUE_INVALID'')"

definition extreme :: "bool \<Rightarrow> string \<Rightarrow> string \<Rightarrow> string res" where
  "extreme highest a b = bindE (compareDecimal a b) (\<lambda>c. ok (if (c \<ge> 0) = highest then a else b))"

text \<open>\<open>values.reduce(f)\<close>, of a list with a first element.\<close>

definition reduceE :: "('a \<Rightarrow> 'a \<Rightarrow> 'a res) \<Rightarrow> 'a list \<Rightarrow> 'a res" where
  "reduceE f xs = (case xs of [] \<Rightarrow> type_error | y # ys \<Rightarrow> foldE f y ys)"

definition aggregate_list :: "reader_host \<Rightarrow> settlement_rule \<Rightarrow> exact list \<Rightarrow> json res" where
  "aggregate_list h rule nodes =
     (let aggregate = as_text (setting rule ''aggregate''); chosen = selected rule nodes; path = as_text (setting rule ''field'') in
      if length nodes > 50000 then issue ''EXTRACTION_TOO_LARGE''
      else if aggregate = ''count'' then bindE (scaled (nat_str (length chosen)) (scale_of rule)) (\<lambda>s. ok (JStr s))
      else if aggregate = ''only'' then
        (case chosen of [node] \<Rightarrow> bindE (resolveE node path) (\<lambda>v. valueOf h rule ''none'' (Some v))
         | _ \<Rightarrow> issue ''EXTRACTION_AMBIGUOUS_OR_MISSING'')
      else if chosen = [] then issue ''VALUE_MISSING''
      else bindE (mapE (field_decimal path) chosen) (\<lambda>vs.
        bindE (reduceE (if aggregate = ''sum'' then addDecimal else extreme (aggregate = ''max'')) vs) (\<lambda>total.
          bindE (scaled total (scale_of rule)) (\<lambda>s. ok (JStr s)))))"

definition jsonApi :: "reader_host \<Rightarrow> (nat \<Rightarrow> string) \<Rightarrow> string \<Rightarrow> settlement_rule \<Rightarrow> reading res" where
  "jsonApi h uni body rule = bindE (parseExactJSON uni body) (\<lambda>doc.
     bindE (mapE (check_identity doc) (as_list (setting rule ''checks''))) (\<lambda>_.
     bindE (resolveE doc (as_text (setting rule ''select''))) (\<lambda>node.
     bindE (if setting rule ''aggregate'' = JStr ''value'' then valueOf h rule ''none'' (Some node)
            else (case node of XArr nodes \<Rightarrow> aggregate_list h rule nodes | _ \<Rightarrow> issue ''EXTRACTION_NOT_A_LIST''))
       (published h rule (\<lambda>p. bindE (resolveE doc (as_text (jget p ''path''))) (\<lambda>v. ok (Some v)))))))"

section \<open>CSV\<close>

record csv_state =
  cs_rows :: "string list list"
  cs_row :: "string list"
  cs_field :: string
  cs_quoted :: bool
  cs_started :: bool

definition csv_start :: csv_state where
  "csv_start = \<lparr>cs_rows = [], cs_row = [], cs_field = [], cs_quoted = False, cs_started = False\<rparr>"

definition end_field :: "csv_state \<Rightarrow> csv_state" where
  "end_field s = s\<lparr>cs_row := cs_row s @ [cs_field s], cs_field := [], cs_started := False\<rparr>"

definition end_row :: "csv_state \<Rightarrow> csv_state" where
  "end_row s = (let e = end_field s in e\<lparr>cs_rows := cs_rows e @ [cs_row e], cs_row := []\<rparr>)"

definition is_return :: "char \<Rightarrow> bool" where
  "is_return c = (code c = 13)"

definition is_newline :: "char \<Rightarrow> bool" where
  "is_newline c = (code c = 10)"

text \<open>The loop over the characters; two of them are taken at once for a doubled quote and a carriage return with its line feed.\<close>

fun csv_loop :: "char \<Rightarrow> csv_state \<Rightarrow> string \<Rightarrow> csv_state" where
  "csv_loop d s [] = s"
| "csv_loop d s (c # cs) =
     (if cs_quoted s then
        if c = quote_mark then
          (case cs of
            e # es \<Rightarrow> if e = quote_mark then csv_loop d (s\<lparr>cs_field := cs_field s @ [quote_mark]\<rparr>) es
                       else csv_loop d (s\<lparr>cs_quoted := False\<rparr>) cs
          | [] \<Rightarrow> s\<lparr>cs_quoted := False\<rparr>)
        else csv_loop d (s\<lparr>cs_field := cs_field s @ [c]\<rparr>) cs
      else if c = quote_mark \<and> \<not> cs_started s then csv_loop d (s\<lparr>cs_quoted := True, cs_started := True\<rparr>) cs
      else if c = d then csv_loop d (end_field s) cs
      else if is_return c \<or> is_newline c then
        (case cs of
          e # es \<Rightarrow> if is_return c \<and> is_newline e then csv_loop d (end_row s) es else csv_loop d (end_row s) cs
        | [] \<Rightarrow> end_row s)
      else csv_loop d (s\<lparr>cs_field := cs_field s @ [c], cs_started := True\<rparr>) cs)"

definition csv_rows :: "csv_state \<Rightarrow> string list list" where
  "csv_rows s = (if cs_field s \<noteq> [] \<or> cs_row s \<noteq> [] then cs_rows (end_row s) else cs_rows s)"

definition parseCsv :: "string \<Rightarrow> char \<Rightarrow> string list list res" where
  "parseCsv body d =
     (let s = csv_loop d csv_start body in
      if cs_quoted s then issue ''EXTRACTION_INVALID_CSV''
      else if length (csv_rows s) > 200000 then issue ''EXTRACTION_TOO_LARGE''
      else ok (filter (\<lambda>r. length r > 1 \<or> hd r \<noteq> []) (csv_rows s)))"

definition CSV_TYPES :: "string list" where
  "CSV_TYPES = [''text/csv'', ''text/plain'', ''application/csv'', ''application/vnd.ms-excel'', ''application/octet-stream'']"

definition cell_at :: "string list \<Rightarrow> nat \<Rightarrow> string" where
  "cell_at row k = (if k < length row then js_trim (row ! k) else [])"

fun index_from :: "nat \<Rightarrow> ('a \<Rightarrow> bool) \<Rightarrow> 'a list \<Rightarrow> nat option" where
  "index_from k P [] = None"
| "index_from k P (x # xs) = (if P x then Some k else index_from (Suc k) P xs)"

abbreviation findIndex :: "('a \<Rightarrow> bool) \<Rightarrow> 'a list \<Rightarrow> nat option" where
  "findIndex \<equiv> index_from 0"

definition column_of :: "string list \<Rightarrow> string \<Rightarrow> nat res" where
  "column_of columns name = (case findIndex (\<lambda>c. c = name) columns of None \<Rightarrow> issue ''EXTRACTION_MISSING_FIELD'' | Some k \<Rightarrow> ok k)"

definition missing_texts :: "settlement_rule \<Rightarrow> string list" where
  "missing_texts rule = (if absent (setting rule ''missing'') then [[], ''.'', ''NA'', ''NaN'', '':'', ''null'']
     else map as_text (as_list (setting rule ''missing'')))"

definition csvTable :: "reader_host \<Rightarrow> string \<Rightarrow> settlement_rule \<Rightarrow> string option \<Rightarrow> reading res" where
  "csvTable h body rule contentType =
     (let delimiter = setting rule ''delimiter'' in
      if \<not> List.member CSV_TYPES (media_type contentType) then issue ''CONTENT_TYPE_MISMATCH''
      else bindE (parseCsv body (if absent delimiter then CHR '','' else hd (as_text delimiter))) (\<lambda>table.
        let columns = (case table of [] \<Rightarrow> [] | header # _ \<Rightarrow> map js_trim header); rows = tl table in
        if \<not> distinct columns then issue ''EXTRACTION_DUPLICATE_FIELD''
        else bindE (mapE (\<lambda>(column, v). bindE (column_of columns column) (\<lambda>k. ok (k, as_text v))) (selection (setting rule ''select''))) (\<lambda>wanted.
          bindE (column_of columns (as_text (setting rule ''valueColumn''))) (\<lambda>valueAt.
            case filter (\<lambda>row. list_all (\<lambda>(k, v). cell_at row k = v) wanted) rows of
              [] \<Rightarrow> issue ''VALUE_MISSING''
            | [row] \<Rightarrow>
                (let cell = cell_at row valueAt in
                 if List.member (missing_texts rule) cell then issue ''VALUE_MISSING''
                 else bindE (valueOf h rule ''none'' (Some (XStr cell))) (published h rule (\<lambda>p.
                   bindE (column_of columns (as_text (jget p ''column''))) (\<lambda>k. ok (Some (XStr (cell_at row k)))))))
            | _ \<Rightarrow> issue ''EXTRACTION_AMBIGUOUS_OR_MISSING''))))"

section \<open>SDMX-JSON and JSON-stat\<close>

text \<open>\<open>v.k\<close>, which throws on null, and \<open>v?.k\<close>; a text has its characters as properties.\<close>

definition member_at :: "exact \<Rightarrow> string \<Rightarrow> exact option" where
  "member_at v k = (case v of
     XObj kvs \<Rightarrow> map_of kvs k
   | XArr xs \<Rightarrow> (if is_canon_dec k \<and> str_nat k < length xs then Some (xs ! str_nat k) else None)
   | XStr s \<Rightarrow> (if is_canon_dec k \<and> str_nat k < length s then Some (XStr [s ! str_nat k]) else None)
   | _ \<Rightarrow> None)"

definition member_atE :: "exact option \<Rightarrow> string \<Rightarrow> exact option res" where
  "member_atE v k = (case v of None \<Rightarrow> type_error | Some XNull \<Rightarrow> type_error | Some w \<Rightarrow> ok (member_at w k))"

definition optional :: "exact option \<Rightarrow> string \<Rightarrow> exact option" where
  "optional v k = (case v of None \<Rightarrow> None | Some XNull \<Rightarrow> None | Some w \<Rightarrow> member_at w k)"

text \<open>\<open>a ?? b\<close>.\<close>

definition coalesce :: "exact option \<Rightarrow> exact option \<Rightarrow> exact option" where
  "coalesce a b = (if a = None \<or> a = Some XNull then b else a)"

definition falsy :: "exact option \<Rightarrow> bool" where
  "falsy v = (v = None \<or> v = Some XNull \<or> v = Some (XBool False) \<or> v = Some (XStr []))"

definition has_id :: "string \<Rightarrow> exact \<Rightarrow> bool" where
  "has_id i v = (optional (Some v) ''id'' = Some (XStr i))"

text \<open>The property a value names: \<open>String(v)\<close>, which an object with no prototype does not have.\<close>

fun key_text :: "exact \<Rightarrow> string res" where
  "key_text XNull = ok ''null''"
| "key_text (XBool b) = ok (if b then ''true'' else ''false'')"
| "key_text (XNum raw) = ok ''[object Object]''"
| "key_text (XStr s) = ok s"
| "key_text (XArr xs) = bindE (mapE (\<lambda>t. t) (map (\<lambda>x. if x = XNull then ok [] else key_text x) xs)) (\<lambda>ks. ok (join_with '','' ks))"
| "key_text (XObj kvs) = type_error"

definition own_key :: "exact option \<Rightarrow> string res" where
  "own_key v = (case v of None \<Rightarrow> ok ''undefined'' | Some w \<Rightarrow> key_text w)"

text \<open>One component of a series key: the selected value's place in its dimension, or the only one there is.\<close>

definition series_place :: "(string \<times> json) list \<Rightarrow> exact \<Rightarrow> string res" where
  "series_place chosen axis = (case optional (Some axis) ''values'' of
     Some (XArr vs) \<Rightarrow>
       bindE (own_key (member_at axis ''id'')) (\<lambda>key. case map_of chosen key of
          Some want \<Rightarrow> (case findIndex (has_id (as_text want)) vs of None \<Rightarrow> issue ''VALUE_MISSING'' | Some k \<Rightarrow> ok (nat_str k))
        | None \<Rightarrow> if length vs \<noteq> 1 then issue ''SDMX_SERIES_AMBIGUOUS'' else ok ''0'')
   | _ \<Rightarrow> issue ''SDMX_STRUCTURE_INVALID'')"

definition sdmx_value :: "settlement_rule \<Rightarrow> exact \<Rightarrow> exact list \<Rightarrow> exact \<Rightarrow> exact option res" where
  "sdmx_value rule set0 seriesDims obsDim =
     (let chosen = selection (setting rule ''select'') in
      if \<not> list_all (\<lambda>(k, _). list_ex (has_id k) seriesDims) chosen then issue ''OBSERVATION_IDENTITY_MISMATCH''
      else bindE (mapE (series_place chosen) seriesDims) (\<lambda>places.
        bindE (member_atE (Some set0) ''series'') (\<lambda>all. bindE (member_atE (Some obsDim) ''values'') (\<lambda>periods.
          let series = optional all (join_with '':'' places);
              time = (case periods of Some (XArr ps) \<Rightarrow> findIndex (has_id (as_text (setting rule ''period''))) ps | _ \<Rightarrow> None) in
          if (case periods of Some (XObj kvs) \<Rightarrow> coalesce (map_of kvs ''findIndex'') None \<noteq> None | _ \<Rightarrow> False) then type_error
          else case time of
            None \<Rightarrow> issue ''VALUE_MISSING''
          | Some t \<Rightarrow>
              if falsy series then issue ''VALUE_MISSING''
              else (case optional (optional series ''observations'') (nat_str t) of
                Some (XArr (v # _)) \<Rightarrow> ok (Some v)
              | _ \<Rightarrow> ok None)))))"

definition sdmxTable :: "reader_host \<Rightarrow> exact \<Rightarrow> settlement_rule \<Rightarrow> reading res" where
  "sdmxTable h doc rule = bindE (member_atE (Some doc) ''data'') (\<lambda>inner.
     let data = coalesce inner (Some doc); sets = optional data ''dataSets'';
         structure = coalesce (coalesce (optional (optional data ''structures'') ''0'') (member_at doc ''structure'')) (optional data ''structure'');
         dimensions = optional structure ''dimensions'' in
     case (sets, coalesce (optional dimensions ''series'') (Some (XArr [])), optional dimensions ''observation'') of
       (Some (XArr [set0]), Some (XArr seriesDims), Some (XArr [obsDim])) \<Rightarrow>
         bindE (sdmx_value rule set0 seriesDims obsDim) (\<lambda>v. bindE (valueOf h rule ''none'' v) (\<lambda>s. ok (reading_of s None)))
     | _ \<Rightarrow> issue ''SDMX_STRUCTURE_INVALID'')"

text \<open>\<open>Number(x.raw)\<close>, exactly.\<close>

definition numeric :: "exact option \<Rightarrow> rat res" where
  "numeric v = (case v of Some (XNum raw) \<Rightarrow> (case number_parts raw of Some p \<Rightarrow> ok (parts_value p) | None \<Rightarrow> issue ''STRUCTURE_INVALID'')
     | _ \<Rightarrow> issue ''STRUCTURE_INVALID'')"

definition category_place :: "exact option \<Rightarrow> string \<Rightarrow> rat option res" where
  "category_place index want = (case index of
     Some (XArr names) \<Rightarrow> ok (map_option of_nat (findIndex (\<lambda>n. n = XStr want) names))
   | Some (XObj kvs) \<Rightarrow> (case map_of kvs want of None \<Rightarrow> ok None | Some v \<Rightarrow> bindE (numeric (Some v)) (\<lambda>q. ok (Some q)))
   | Some (XStr s) \<Rightarrow> if s \<noteq> [] \<and> (want = ''length'' \<or> member_at (XStr s) want \<noteq> None) then issue ''STRUCTURE_INVALID'' else ok None
   | Some (XNum _) \<Rightarrow> if want = ''raw'' then issue ''STRUCTURE_INVALID'' else ok None
   | _ \<Rightarrow> ok None)"

definition dimension_step :: "exact \<Rightarrow> (string \<times> json) list \<Rightarrow> rat \<Rightarrow> exact \<times> exact \<Rightarrow> rat res" where
  "dimension_step doc chosen position = (\<lambda>(i, sz). bindE (numeric (Some sz)) (\<lambda>size. bindE (key_text i) (\<lambda>axis.
     let index = optional (optional (optional (member_at doc ''dimension'') axis) ''category'') ''index'' in
     case map_of chosen axis of
       Some want \<Rightarrow> bindE (category_place index (as_text want)) (\<lambda>found. case found of
           None \<Rightarrow> issue ''VALUE_MISSING''
         | Some at_place \<Rightarrow> if at_place < 0 \<or> at_place \<ge> size then issue ''VALUE_MISSING'' else ok (position * size + at_place))
     | None \<Rightarrow> if size = 1 then ok (position * size) else issue ''JSONSTAT_DIMENSION_AMBIGUOUS'')))"

definition stat_value :: "exact option \<Rightarrow> rat \<Rightarrow> exact option" where
  "stat_value vs position = (if position = of_int \<lfloor>position\<rfloor> \<and> 0 \<le> position
     then Option.bind vs (\<lambda>v. member_at v (nat_str (nat \<lfloor>position\<rfloor>))) else None)"

definition jsonStat :: "reader_host \<Rightarrow> exact \<Rightarrow> settlement_rule \<Rightarrow> reading res" where
  "jsonStat h doc rule = bindE (member_atE (Some doc) ''class'') (\<lambda>cls. case (member_at doc ''id'', member_at doc ''size'') of
     (Some (XArr ids), Some (XArr sizes)) \<Rightarrow>
       (let chosen = selection (setting rule ''select'') in
        if cls \<noteq> Some (XStr ''dataset'') \<or> length ids \<noteq> length sizes then issue ''JSONSTAT_STRUCTURE_INVALID''
        else if \<not> list_all (\<lambda>(k, _). List.member ids (XStr k)) chosen then issue ''OBSERVATION_IDENTITY_MISMATCH''
        else bindE (foldE (dimension_step doc chosen) 0 (zip ids sizes)) (\<lambda>position.
            bindE (valueOf h rule ''none'' (stat_value (member_at doc ''value'') position)) (\<lambda>s. ok (reading_of s None))))
   | _ \<Rightarrow> issue ''JSONSTAT_STRUCTURE_INVALID'')"

definition statTable :: "reader_host \<Rightarrow> (nat \<Rightarrow> string) \<Rightarrow> string \<Rightarrow> settlement_rule \<Rightarrow> string option \<Rightarrow> reading res" where
  "statTable h uni body rule contentType =
     (let format = setting rule ''format'' in
      if format = JStr ''csv'' then csvTable h body rule contentType
      else if \<not> is_json_type contentType then issue ''CONTENT_TYPE_MISMATCH''
      else bindE (parseExactJSON uni body) (\<lambda>doc.
        if format = JStr ''sdmx-json'' then sdmxTable h doc rule else jsonStat h doc rule))"

section \<open>Pages\<close>

fun page_includes :: "string \<Rightarrow> string \<Rightarrow> bool" where
  "page_includes [] anchor = (anchor = [])"
| "page_includes (c # cs) anchor = (starts_with anchor (c # cs) \<or> page_includes cs anchor)"

definition matched_once :: "reader_host \<Rightarrow> string \<Rightarrow> json \<Rightarrow> exact option res" where
  "matched_once h page pattern = (case rh_matches h (as_text pattern) page of
     [captured] \<Rightarrow> ok (map_option XStr captured) | _ \<Rightarrow> issue ''EXTRACTION_AMBIGUOUS_OR_MISSING'')"

definition htmlText :: "reader_host \<Rightarrow> string \<Rightarrow> settlement_rule \<Rightarrow> string option \<Rightarrow> reading res" where
  "htmlText h body rule contentType =
     (if \<not> List.member [''text/html'', ''application/xhtml+xml''] (media_type contentType) then issue ''CONTENT_TYPE_MISMATCH''
      else let page = rh_page h body in
        if \<not> list_all (\<lambda>a. page_includes page (as_text a)) (as_list (setting rule ''anchors'')) then issue ''OBSERVATION_IDENTITY_MISMATCH''
        else bindE (matched_once h page (setting rule ''pattern'')) (\<lambda>v.
          bindE (valueOf h rule (as_text (setting rule ''grouping'')) v)
            (published h rule (\<lambda>p. matched_once h page (jget p ''pattern'')))))"

end
