(* ===== verification/Evm_Reader.thy ===== *)
theory Evm_Reader
  imports Text_Readers
begin

text \<open>
  The reader of EVM chains and the collection of its evidence (apps/web/server/settlement-readers.mjs). A
  bundle is the list of JSON-RPC exchanges; the reader replays them in order, so what it accepts is
  exactly what the rule asks for. Collecting finds the first block at or after a time by doubling
  steps back from the head and then bisection; the network is a parameter, one reply for each payload and
  attempt. The calls of a batch are made in order, and pauses between attempts are left out. Block
  numbers and times stay below \<open>2 ^ 53\<close>.
\<close>

section \<open>Quantities\<close>

definition MAX_EVM_CALLS :: nat where
  "MAX_EVM_CALLS = 1000"

definition hex :: "nat \<Rightarrow> string" where
  "hex n = ''0x'' @ hex_str n"

definition quantity :: "json \<Rightarrow> nat res" where
  "quantity v = (case v of
     JStr s \<Rightarrow> if take 2 s = ''0x'' \<and> chars is_hex 1 64 (drop 2 s) then ok (hex_val (drop 2 s)) else issue ''EVM_RESPONSE_INVALID''
   | _ \<Rightarrow> issue ''EVM_RESPONSE_INVALID'')"

section \<open>What a metric asks\<close>

type_synonym rpc_call = "string \<times> json list"

definition lowered :: "json \<Rightarrow> json" where
  "lowered v = JStr (lower (as_text v))"

definition steps :: "nat \<Rightarrow> nat \<Rightarrow> nat \<Rightarrow> nat list" where
  "steps first stop stride = map (\<lambda>k. first + k * stride) [0 ..< (stop - first + stride - 1) div stride]"

definition stride_of :: "json \<Rightarrow> nat" where
  "stride_of r = (if absent (jget r ''stride'') then 1 else nat (jint_val (jget r ''stride'')))"

definition log_call :: "json \<Rightarrow> nat \<Rightarrow> nat \<Rightarrow> rpc_call" where
  "log_call r stop n = (let logs = jget r ''logs'' in
     (''eth_getLogs'', [JObj ([(''address'', lowered (jget logs ''address''))]
        @ (if truthy (jget logs ''topics'')
           then [(''topics'', JArr (map (\<lambda>t. if truthy t then lowered t else t) (as_list (jget logs ''topics''))))] else [])
        @ [(''fromBlock'', JStr (hex n)), (''toBlock'', JStr (hex (min stop (n + 100) - 1)))])]))"

definition metricRequests :: "json \<Rightarrow> nat \<Rightarrow> nat option \<Rightarrow> rpc_call list res" where
  "metricRequests r first end' =
     (let start = JStr (hex first); metric = jget r ''metric''; stop = (case end' of None \<Rightarrow> 0 | Some e \<Rightarrow> e) in
      if metric = JStr ''call'' then
        ok [(''eth_call'', [JObj [(''to'', lowered (jget (jget r ''call'') ''to'')), (''data'', lowered (jget (jget r ''call'') ''data''))], start])]
      else if metric = JStr ''balance'' then ok [(''eth_getBalance'', [lowered (jget r ''address''), start])]
      else if metric = JStr ''nonce'' then ok [(''eth_getTransactionCount'', [lowered (jget r ''address''), start])]
      else if metric = JStr ''block-field'' then ok []
      else let calls = (if metric = JStr ''tx-count''
             then map (\<lambda>n. (''eth_getBlockTransactionCountByNumber'', [JStr (hex n)])) (steps first stop (stride_of r))
             else map (log_call r stop) (steps first stop 100)) in
        if length calls > MAX_EVM_CALLS then issue ''EVM_RANGE_TOO_LARGE'' else ok calls)"

section \<open>Replaying a bundle\<close>

definition checkBoundary :: "json \<Rightarrow> json \<Rightarrow> int \<Rightarrow> nat res" where
  "checkBoundary earlier block target =
     (case (jget earlier ''hash'', jget earlier ''parentHash'', jget block ''hash'', jget block ''parentHash'') of
       (JStr beforeHash, JStr _, JStr _, JStr parentHash) \<Rightarrow>
         bindE (quantity (jget earlier ''number'')) (\<lambda>m. bindE (quantity (jget block ''number'')) (\<lambda>n.
           if m + 1 \<noteq> n \<or> lower parentHash \<noteq> lower beforeHash then issue ''EVM_BOUNDARY_INVALID''
           else bindE (quantity (jget earlier ''timestamp'')) (\<lambda>t.
             if \<not> int t < target then issue ''EVM_BOUNDARY_INVALID''
             else bindE (quantity (jget block ''timestamp'')) (\<lambda>u.
               if \<not> int u \<ge> target then issue ''EVM_BOUNDARY_INVALID'' else ok n))))
     | _ \<Rightarrow> issue ''EVM_RESPONSE_INVALID'')"

text \<open>\<open>take\<close>: the next exchange answers this call.\<close>

definition take_exchange :: "rpc_call \<Rightarrow> json list \<Rightarrow> (json \<times> json list) res" where
  "take_exchange call left = (case left of
     [] \<Rightarrow> issue ''EVM_CAPTURE_INVALID''
   | x # xs \<Rightarrow> (let request = jget x ''request''; response = jget x ''response'' in
       if jget request ''method'' \<noteq> JStr (fst call) \<or> jget request ''params'' \<noteq> JArr (snd call)
         \<or> \<not> strict_eq (jget response ''id'') (jget request ''id'') then issue ''EVM_CAPTURE_INVALID''
       else if response = JUndef \<or> response = JNull then type_error
       else if truthy (jget response ''error'') \<or> \<not> jhas response ''result'' then issue ''EVM_CAPTURE_INVALID''
       else ok (jget response ''result'', xs)))"

fun take_all :: "rpc_call list \<Rightarrow> json list \<Rightarrow> (json list \<times> json list) res" where
  "take_all [] left = ok ([], left)"
| "take_all (c # cs) left = bindE (take_exchange c left) (\<lambda>(v, rest). bindE (take_all cs rest) (\<lambda>(vs, done'). ok (v # vs, done')))"

definition block_call :: "json \<Rightarrow> rpc_call" where
  "block_call n = (''eth_getBlockByNumber'', [n, JBool False])"

definition next_param :: "json list \<Rightarrow> json" where
  "next_param left = (case left of [] \<Rightarrow> JUndef | x # _ \<Rightarrow> (case jget (jget x ''request'') ''params'' of JArr (p # _) \<Rightarrow> p | _ \<Rightarrow> JUndef))"

definition blockPair :: "json list \<Rightarrow> ((json \<times> json) \<times> json list) res" where
  "blockPair left = (let earlier = next_param left in
     bindE (take_exchange (block_call earlier) left) (\<lambda>(a, rest).
     bindE (quantity earlier) (\<lambda>n.
     bindE (take_exchange (block_call (JStr (hex (n + 1)))) rest) (\<lambda>(b, left').
     bindE (quantity (jget a ''number'')) (\<lambda>na.
       if na \<noteq> n then issue ''EVM_BOUNDARY_INVALID''
       else bindE (quantity (jget b ''number'')) (\<lambda>nb. if nb \<noteq> n + 1 then issue ''EVM_BOUNDARY_INVALID'' else ok ((a, b), left')))))))"

definition block_field :: "json \<Rightarrow> json \<Rightarrow> int res" where
  "block_field r start = (let v = jget start (as_text (jget r ''field'')) in
     if jget r ''field'' = JStr ''transactions''
     then (case v of JArr xs \<Rightarrow> ok (int (length xs)) | _ \<Rightarrow> issue ''EVM_RESPONSE_INVALID'')
     else bindE (quantity v) (\<lambda>n. ok (int n)))"

definition log_count :: "int \<Rightarrow> json \<Rightarrow> int res" where
  "log_count amount logs = (case logs of
     JArr ls \<Rightarrow> if list_ex (\<lambda>l. jget l ''removed'' = JBool True) ls then issue ''EVM_RESPONSE_INVALID'' else ok (amount + int (length ls))
   | _ \<Rightarrow> issue ''EVM_RESPONSE_INVALID'')"

text \<open>The word a call returned, read as the type the rule names.\<close>

definition call_value :: "json \<Rightarrow> json \<Rightarrow> int res" where
  "call_value r word = (case word of
     JStr s \<Rightarrow> if take 2 s = ''0x'' \<and> length (take 64 (drop 2 s)) = 64 \<and> list_all is_hex (take 64 (drop 2 s))
       then let amount = int (hex_val (take 64 (drop 2 s))) in
         ok (if jget (jget r ''call'') ''returns'' = JStr ''int256'' \<and> amount \<ge> 2 ^ 255 then amount - 2 ^ 256 else amount)
       else issue ''EVM_RESPONSE_INVALID''
   | _ \<Rightarrow> issue ''EVM_RESPONSE_INVALID'')"

definition total_of :: "json \<Rightarrow> json list \<Rightarrow> int res" where
  "total_of r results =
     (if jget r ''metric'' = JStr ''log-count'' then foldE log_count 0 results
      else if jget r ''metric'' = JStr ''call'' then call_value r (case results of [] \<Rightarrow> JUndef | w # _ \<Rightarrow> w)
      else foldE (\<lambda>sum v. bindE (quantity v) (\<lambda>n. ok (sum + int n))) 0 results)"

text \<open>The blocks around the rule's times: the number of the first, the end of a range, and the last block that matters.\<close>

definition boundaries :: "json \<Rightarrow> json list \<Rightarrow> ((json \<times> nat \<times> nat option \<times> json) \<times> json list) res" where
  "boundaries r left = bindE (blockPair left) (\<lambda>((beforeStart, start), rest).
     bindE (checkBoundary beforeStart start (jint_val (jget r ''at''))) (\<lambda>first.
       if absent (jget r ''until'') then ok ((start, first, None, start), rest)
       else bindE (blockPair rest) (\<lambda>((beforeEnd, endBlock), rest').
         bindE (checkBoundary beforeEnd endBlock (jint_val (jget r ''until''))) (\<lambda>e.
           if e \<le> first then issue ''EVM_BOUNDARY_INVALID'' else ok ((start, first, Some e, endBlock), rest')))))"

definition bundle_of :: "reader_host \<Rightarrow> settlement_rule \<Rightarrow> capture \<Rightarrow> json list res" where
  "bundle_of h rule c = (case rh_json h (cp_body c) of
     None \<Rightarrow> issue ''EXTRACTION_INVALID_JSON''
   | Some bundle \<Rightarrow>
       (case jget bundle ''exchanges'' of
         JArr xs \<Rightarrow> if jget bundle ''schema'' \<noteq> JStr ''flurbo.evm-capture.v1'' \<or> jget bundle ''rpc'' \<noteq> JStr (cp_requestedUrl c)
             \<or> jget bundle ''chainId'' \<noteq> setting rule ''chainId'' then issue ''EVM_CAPTURE_INVALID'' else ok xs
       | _ \<Rightarrow> issue ''EVM_CAPTURE_INVALID''))"

definition evmRpc :: "reader_host \<Rightarrow> settlement_rule \<Rightarrow> capture \<Rightarrow> reading res" where
  "evmRpc h rule c = (let r = sl_reader rule in
     bindE (bundle_of h rule c) (\<lambda>exchanges.
     bindE (take_exchange (''eth_chainId'', []) exchanges) (\<lambda>(chain, left).
     bindE (quantity chain) (\<lambda>chainId.
       if int chainId \<noteq> jint_val (jget r ''chainId'') then issue ''EVM_CHAIN_MISMATCH''
       else bindE (boundaries r left) (\<lambda>((start, first, end', last_block), left').
         bindE (if jget r ''metric'' = JStr ''block-field'' then bindE (block_field r start) (\<lambda>amount. ok (amount, left'))
                else bindE (metricRequests r first end') (\<lambda>calls. bindE (take_all calls left') (\<lambda>(results, rest).
                  bindE (total_of r results) (\<lambda>amount. ok (amount, rest))))) (\<lambda>(amount, rest).
           if rest \<noteq> [] then issue ''EVM_CAPTURE_INVALID''
           else bindE (quantity (jget last_block ''timestamp'')) (\<lambda>t.
             if cp_fetchedAt c - int t < jint_val (jget r ''finalitySeconds'') then issue ''EVM_NOT_FINAL''
             else bindE (fromUnits amount (scale_of rule)) (\<lambda>s. ok (reading_of (JStr s) None)))))))))"

section \<open>The first block at or after a time\<close>

text \<open>Steps of 1, 2, 4, \<dots> back from \<open>high\<close>, until a block before the time is found or block 0 is not.\<close>

function back_off :: "(nat \<Rightarrow> 's \<Rightarrow> (int \<times> 's) res) \<Rightarrow> int \<Rightarrow> nat \<Rightarrow> nat \<Rightarrow> 's \<Rightarrow> ((nat option \<times> nat) \<times> 's) res" where
  "back_off probe_at target high j s = (let n = high - 2 ^ j in bindE (probe_at n s) (\<lambda>(t, s').
     if t < target then ok ((Some n, high), s')
     else if n = 0 then ok ((None, 0), s')
     else back_off probe_at target n (Suc j) s'))"
  by pat_completeness auto
termination by (relation "measure (\<lambda>(_, _, high, _, _). high)") (auto simp: Suc_le_eq)

function bisect :: "(nat \<Rightarrow> 's \<Rightarrow> (int \<times> 's) res) \<Rightarrow> int \<Rightarrow> nat \<Rightarrow> nat \<Rightarrow> 's \<Rightarrow> (nat \<times> 's) res" where
  "bisect probe_at target low high s =
     (if high - low > 1 then let mid = low + (high - low) div 2 in bindE (probe_at mid s) (\<lambda>(t, s').
        if t \<ge> target then bisect probe_at target low mid s' else bisect probe_at target mid high s')
      else ok (high, s))"
  by pat_completeness auto
termination by (relation "measure (\<lambda>(_, _, low, high, _). high - low)") auto

declare back_off.simps [simp del] bisect.simps [simp del]

definition firstAtOrAfter :: "(nat \<Rightarrow> 's \<Rightarrow> (int \<times> 's) res) \<Rightarrow> nat \<Rightarrow> int \<Rightarrow> 's \<Rightarrow> (nat \<times> 's) res" where
  "firstAtOrAfter probe_at head target s = bindE (back_off probe_at target head 0 s) (\<lambda>((low, high), s').
     case low of None \<Rightarrow> ok (0, s') | Some l \<Rightarrow> bisect probe_at target l high s')"

section \<open>Collecting a bundle\<close>

record rpc_reply =
  pl_status :: int
  pl_redirected :: bool
  pl_bytes :: int
  pl_parsed :: "json option"

type_synonym network = "string \<Rightarrow> json \<Rightarrow> nat \<Rightarrow> rpc_reply res"

definition payload :: "int \<Rightarrow> rpc_call \<Rightarrow> json" where
  "payload i call = JObj [(''jsonrpc'', JStr ''2.0''), (''id'', JInt i), (''method'', JStr (fst call)), (''params'', JArr (snd call))]"

definition rpc_result :: "int \<Rightarrow> rpc_reply \<Rightarrow> json res" where
  "rpc_result i reply =
     (if pl_status reply \<noteq> 200 \<or> pl_redirected reply then issue ''SOURCE_FETCH_FAILED''
      else if pl_bytes reply > 2000000 then issue ''SOURCE_TOO_LARGE''
      else (case pl_parsed reply of
        None \<Rightarrow> issue ''EVM_RESPONSE_INVALID''
      | Some p \<Rightarrow>
          if jget p ''id'' \<noteq> JInt i \<or> jget p ''jsonrpc'' \<noteq> JStr ''2.0'' then issue ''EVM_RESPONSE_INVALID''
          else if truthy (jget p ''error'') \<or> \<not> jhas p ''result'' then issue ''EVM_RPC_ERROR'' else ok p))"

function rpc :: "network \<Rightarrow> string \<Rightarrow> rpc_call \<Rightarrow> int \<Rightarrow> nat \<Rightarrow> json res" where
  "rpc net url call i attempt = bindE (net url (payload i call) attempt) (\<lambda>reply.
     if List.member [429, 502, 503, 504] (pl_status reply) \<and> attempt < 5 then rpc net url call i (attempt + 1)
     else rpc_result i reply)"
  by pat_completeness auto
termination by (relation "measure (\<lambda>(_, _, _, _, attempt). 5 - attempt)") auto

declare rpc.simps [simp del]

record evm_log =
  eg_id :: int
  eg_exchanges :: "json list"

definition ask :: "network \<Rightarrow> string \<Rightarrow> rpc_call \<Rightarrow> evm_log \<Rightarrow> (json \<times> evm_log) res" where
  "ask net url call s = bindE (rpc net url call (eg_id s) 0) (\<lambda>res. ok (jget res ''result'', s\<lparr>eg_id := eg_id s + 1\<rparr>))"

definition record_call :: "network \<Rightarrow> string \<Rightarrow> rpc_call \<Rightarrow> evm_log \<Rightarrow> (json \<times> evm_log) res" where
  "record_call net url call s = bindE (rpc net url call (eg_id s) 0) (\<lambda>res.
     ok (jget res ''result'', s\<lparr>eg_id := eg_id s + 1,
       eg_exchanges := eg_exchanges s @ [JObj [(''request'', payload (eg_id s) call), (''response'', res)]]\<rparr>))"

definition probe_at :: "network \<Rightarrow> string \<Rightarrow> nat \<Rightarrow> evm_log \<Rightarrow> (int \<times> evm_log) res" where
  "probe_at net url n s = bindE (ask net url (block_call (JStr (hex n))) s) (\<lambda>(block, s').
     if \<not> truthy block then issue ''EVM_BLOCK_NOT_YET_AVAILABLE''
     else bindE (quantity (jget block ''timestamp'')) (\<lambda>t. ok (int t, s')))"

definition pair_at :: "network \<Rightarrow> string \<Rightarrow> nat \<Rightarrow> int \<Rightarrow> evm_log \<Rightarrow> (nat \<times> evm_log) res" where
  "pair_at net url head target s = bindE (firstAtOrAfter (probe_at net url) head target s) (\<lambda>(n, s1).
     if n < 1 then issue ''EVM_BOUNDARY_INVALID''
     else bindE (record_call net url (block_call (JStr (hex (n - 1)))) s1) (\<lambda>(_, s2).
       bindE (record_call net url (block_call (JStr (hex n))) s2) (\<lambda>(_, s3). ok (n, s3))))"

fun record_all :: "network \<Rightarrow> string \<Rightarrow> rpc_call list \<Rightarrow> evm_log \<Rightarrow> evm_log res" where
  "record_all net url [] s = ok s"
| "record_all net url (c # cs) s = bindE (record_call net url c s) (\<lambda>(_, s'). record_all net url cs s')"

text \<open>\<open>JSON.stringify\<close>.\<close>

fun json_text :: "json \<Rightarrow> string" where
  "json_text (JArr xs) = CHR ''['' # join_with '','' (map json_text xs) @ '']''"
| "json_text (JObj kvs) = CHR ''{'' # join_with '','' (map (\<lambda>(k, v). json_quote k @ CHR '':'' # json_text v) kvs) @ ''}''"
| "json_text (JStr s) = json_quote s"
| "json_text v = js_string v"

definition capture_bundle :: "settlement_rule \<Rightarrow> string \<Rightarrow> json list \<Rightarrow> json" where
  "capture_bundle rule url exchanges = JObj [(''schema'', JStr ''flurbo.evm-capture.v1''), (''rpc'', JStr url),
     (''chainId'', setting rule ''chainId''), (''exchanges'', JArr exchanges)]"

definition collect :: "network \<Rightarrow> string \<Rightarrow> settlement_rule \<Rightarrow> evm_log res" where
  "collect net url rule = (let r = sl_reader rule; until = jget r ''until''; start = jint_val (jget r ''at'') in
     bindE (record_call net url (''eth_chainId'', []) \<lparr>eg_id = 1, eg_exchanges = []\<rparr>) (\<lambda>(chain, s1).
     bindE (quantity chain) (\<lambda>chainId.
       if int chainId \<noteq> jint_val (jget r ''chainId'') then issue ''EVM_CHAIN_MISMATCH''
       else bindE (ask net url (block_call (JStr ''latest'')) s1) (\<lambda>(head, s2).
       bindE (quantity (jget head ''number'')) (\<lambda>headNumber. bindE (quantity (jget head ''timestamp'')) (\<lambda>t.
         if int t < (if absent until then start else jint_val until) then issue ''EVM_BLOCK_NOT_YET_AVAILABLE''
         else bindE (pair_at net url headNumber start s2) (\<lambda>(first, s3).
           bindE (if absent until then ok (None, s3)
                  else bindE (pair_at net url headNumber (jint_val until) s3) (\<lambda>(e, s4). ok (Some e, s4))) (\<lambda>(end', s5).
             bindE (metricRequests r first end') (\<lambda>calls. record_all net url calls s5)))))))))"

definition retrieveEvmCapture :: "(string \<Rightarrow> string) \<Rightarrow> network \<Rightarrow> int \<Rightarrow> settlement_rule \<Rightarrow> string \<Rightarrow> capture res" where
  "retrieveEvmCapture digest net now rule url = bindE (collect net url rule) (\<lambda>s.
     let body = json_text (capture_bundle rule url (eg_exchanges s)) in
     if length body > 2000000 then issue ''SOURCE_TOO_LARGE''
     else ok \<lparr>cp_requestedUrl = url, cp_finalUrl = url, cp_fetchedAt = now, cp_status = 200, cp_complete = True, cp_body = body,
       cp_bytes = int (length body), cp_sha256 = digest body, cp_contentType = Some ''application/json''\<rparr>)"

section \<open>Records\<close>

definition readerAccept :: "settlement_rule \<Rightarrow> string" where
  "readerAccept rule =
     (if sl_adapter rule = ''html-text.v1'' then ''text/html''
      else if sl_adapter rule = ''stat-table.v1'' \<and> setting rule ''format'' = JStr ''csv'' then ''text/csv, text/plain;q=0.9''
      else if sl_adapter rule = ''stat-table.v1'' \<and> setting rule ''format'' = JStr ''sdmx-json''
        then ''application/vnd.sdmx.data+json, application/json;q=0.9''
      else ''application/json'')"

definition read_general :: "reader_host \<Rightarrow> settlement_rule \<Rightarrow> capture \<Rightarrow> reading res" where
  "read_general h rule c =
     (if sl_adapter rule = ''json-api.v1'' then
        (if \<not> is_json_type (cp_contentType c) \<and> media_type (cp_contentType c) \<noteq> ''text/json'' then issue ''CONTENT_TYPE_MISMATCH''
         else jsonApi h (rh_unit h) (cp_body c) rule)
      else if sl_adapter rule = ''stat-table.v1'' then statTable h (rh_unit h) (cp_body c) rule (cp_contentType c)
      else if sl_adapter rule = ''html-text.v1'' then htmlText h (cp_body c) rule (cp_contentType c)
      else if sl_adapter rule = ''evm-rpc.v1'' then evmRpc h rule c
      else issue ''ADAPTER_UNSUPPORTED'')"

definition readGeneralRecord :: "reader_host \<Rightarrow> settlement_rule \<Rightarrow> capture \<Rightarrow> raw_record res" where
  "readGeneralRecord h rule c = bindE (read_general h rule c) (\<lambda>read.
     if sl_vintage rule = First_snapshot
     then ok (observed rule (JStr (sl_adapter rule @ '':'' @ cp_sha256 c)) (re_value read) (JInt (cp_fetchedAt c)))
     else (case re_publishedAt read of
       None \<Rightarrow> issue ''RECORD_METADATA_INVALID''
     | Some t \<Rightarrow> ok (observed rule (JStr (sl_adapter rule @ '':'' @ sl_sourceId rule @ '':'' @ int_str t)) (re_value read) (JInt t))))"

end
