(* ===== verification/Reader_Laws.thy ===== *)
theory Reader_Laws
  imports Text_Readers
begin

text \<open>
  What the readers of text promise: CSV text written with every cell quoted reads back as the same table,
  a total or an extreme of a list is exact, and a value is only ever read from the single record the rule
  names.
\<close>

section \<open>CSV\<close>

definition csv_quoted :: "string \<Rightarrow> string" where
  "csv_quoted s = concat (map (\<lambda>c. if c = quote_mark then [quote_mark, quote_mark] else [c]) s)"

definition csv_cell :: "string \<Rightarrow> string" where
  "csv_cell s = quote_mark # csv_quoted s @ [quote_mark]"

abbreviation newline :: char where
  "newline \<equiv> char_of (10 :: nat)"

definition csv_line :: "char \<Rightarrow> string list \<Rightarrow> string" where
  "csv_line d row = join_with [d] (map csv_cell row) @ [newline]"

definition csv_write :: "char \<Rightarrow> string list list \<Rightarrow> string" where
  "csv_write d rows = concat (map (csv_line d) rows)"

lemma csv_loop_quoted:
  assumes "rest = [] \<or> hd rest \<noteq> quote_mark"
  shows "cs_quoted s \<Longrightarrow> csv_loop d s (csv_quoted f @ quote_mark # rest) = csv_loop d (s\<lparr>cs_field := cs_field s @ f, cs_quoted := False\<rparr>) rest"
proof (induction f arbitrary: s)
  case Nil
  then show ?case using assms by (cases rest) (auto simp: csv_quoted_def)
next
  case (Cons c f)
  let ?t = "s\<lparr>cs_field := cs_field s @ [c]\<rparr>"
  have "csv_loop d s (csv_quoted (c # f) @ quote_mark # rest) = csv_loop d ?t (csv_quoted f @ quote_mark # rest)"
    using Cons.prems by (auto simp: csv_quoted_def)
  then show ?case using Cons.IH [of ?t] Cons.prems by simp
qed

text \<open>Between two cells nothing is pending.\<close>

definition between :: "csv_state \<Rightarrow> bool" where
  "between s = (cs_field s = [] \<and> \<not> cs_quoted s \<and> \<not> cs_started s)"

lemma csv_loop_cell:
  assumes "between s" "rest = [] \<or> hd rest \<noteq> quote_mark"
  shows "csv_loop d s (csv_cell f @ rest) = csv_loop d (s\<lparr>cs_field := f, cs_started := True\<rparr>) rest"
proof -
  let ?q = "s\<lparr>cs_quoted := True, cs_started := True\<rparr>"
  have "csv_loop d s (csv_cell f @ rest) = csv_loop d ?q (csv_quoted f @ quote_mark # rest)"
    using assms(1) by (simp add: csv_cell_def between_def)
  also have "\<dots> = csv_loop d (?q\<lparr>cs_field := cs_field ?q @ f, cs_quoted := False\<rparr>) rest"
    by (rule csv_loop_quoted [OF assms(2)]) simp
  also have "?q\<lparr>cs_field := cs_field ?q @ f, cs_quoted := False\<rparr> = s\<lparr>cs_field := f, cs_started := True\<rparr>"
    using assms(1) by (simp add: between_def)
  finally show ?thesis .
qed

lemma csv_loop_row:
  assumes "between s" "d \<noteq> quote_mark" "d \<noteq> newline" "row \<noteq> []"
  shows "csv_loop d s (csv_line d row @ rest) = csv_loop d (s\<lparr>cs_rows := cs_rows s @ [cs_row s @ row], cs_row := []\<rparr>) rest"
  using assms(4,1)
proof (induction row arbitrary: s rule: list_nonempty_induct)
  case (single f)
  have "csv_loop d s (csv_line d [f] @ rest) = csv_loop d (s\<lparr>cs_field := f, cs_started := True\<rparr>) (newline # rest)"
    using csv_loop_cell [OF single(1), of "newline # rest" d f] by (simp add: csv_line_def join_with_def)
  also have "\<dots> = csv_loop d (end_row (s\<lparr>cs_field := f, cs_started := True\<rparr>)) rest"
    using single(1) assms(3) by (cases rest) (simp_all add: between_def is_return_def is_newline_def code_def)
  also have "end_row (s\<lparr>cs_field := f, cs_started := True\<rparr>) = s\<lparr>cs_rows := cs_rows s @ [cs_row s @ [f]], cs_row := []\<rparr>"
    using single(1) by (simp add: end_row_def end_field_def between_def)
  finally show ?case .
next
  case (cons f row)
  let ?t = "s\<lparr>cs_row := cs_row s @ [f]\<rparr>"
  have line: "csv_line d (f # row) = csv_cell f @ d # csv_line d row"
    using cons(1) by (cases row) (simp_all add: csv_line_def join_with_def)
  have "csv_loop d s (csv_line d (f # row) @ rest) = csv_loop d (s\<lparr>cs_field := f, cs_started := True\<rparr>) (d # csv_line d row @ rest)"
    using csv_loop_cell [OF cons(3), of "d # csv_line d row @ rest" d f] assms(2) by (simp add: line)
  also have "\<dots> = csv_loop d (end_field (s\<lparr>cs_field := f, cs_started := True\<rparr>)) (csv_line d row @ rest)"
    using cons(3) assms(2) by (simp add: between_def)
  also have "end_field (s\<lparr>cs_field := f, cs_started := True\<rparr>) = ?t"
    using cons(3) by (simp add: end_field_def between_def)
  also have "csv_loop d ?t (csv_line d row @ rest) = csv_loop d (?t\<lparr>cs_rows := cs_rows ?t @ [cs_row ?t @ row], cs_row := []\<rparr>) rest"
    by (rule cons(2)) (use cons(3) in \<open>simp add: between_def\<close>)
  finally show ?case by simp
qed

lemma csv_loop_rows:
  assumes "d \<noteq> quote_mark" "d \<noteq> newline" "[] \<notin> set rows"
  shows "between s \<Longrightarrow> cs_row s = [] \<Longrightarrow> csv_loop d s (csv_write d rows) = s\<lparr>cs_rows := cs_rows s @ rows\<rparr>"
  using assms(3)
proof (induction rows arbitrary: s)
  case Nil
  then show ?case by (simp add: csv_write_def)
next
  case (Cons row rows)
  let ?t = "s\<lparr>cs_rows := cs_rows s @ [cs_row s @ row], cs_row := []\<rparr>"
  have "csv_loop d s (csv_write d (row # rows)) = csv_loop d ?t (csv_write d rows)"
    using csv_loop_row [OF Cons.prems(1) assms(1,2), of row "csv_write d rows"] Cons.prems by (auto simp: csv_write_def)
  also have "\<dots> = ?t\<lparr>cs_rows := cs_rows ?t @ rows\<rparr>" using Cons by (intro Cons.IH) (auto simp: between_def)
  finally show ?case using Cons.prems(2) by simp
qed

section \<open>Totals and extremes\<close>

lemma foldE_addDecimal:
  "foldE addDecimal a vs = ok out \<Longrightarrow> text_value out = text_value a + sum_list (map text_value vs)"
  by (induction vs arbitrary: a) (auto dest!: addDecimal_value)

lemma compareDecimal_value:
  assumes "decimal a = ok x" "decimal b = ok y"
  shows "compareDecimal a b = ok (if decimal_value x < decimal_value y then -1 else if decimal_value x > decimal_value y then 1 else 0)"
proof -
  obtain c s d t where xy: "x = (c, s)" "y = (d, t)" by (cases x; cases y)
  show ?thesis
    using assms decimal_value_le [of c s d t] decimal_value_le [of d t c s]
    by (simp add: compareDecimal_def Let_def xy max.commute)
qed

lemma compareDecimal_values:
  assumes "compareDecimal a b = ok c"
  shows "(0 \<le> c \<longleftrightarrow> text_value b \<le> text_value a)"
proof -
  obtain x y where "decimal a = ok x" "decimal b = ok y"
    using assms by (auto simp: compareDecimal_def)
  then show ?thesis using compareDecimal_value [of a x b y] assms by (auto simp: text_value_def split: if_splits)
qed

lemma foldE_extreme:
  assumes "foldE (extreme highest) a vs = ok out"
  shows "out \<in> set (a # vs) \<and> (\<forall>v\<in>set (a # vs). if highest then text_value v \<le> text_value out else text_value out \<le> text_value v)"
  using assms
proof (induction vs arbitrary: a)
  case Nil
  then show ?case by simp
next
  case (Cons b vs)
  obtain c where c: "compareDecimal a b = ok c" "foldE (extreme highest) (if (c \<ge> 0) = highest then a else b) vs = ok out"
    using Cons.prems by (fastforce simp: extreme_def [of _ a b])
  let ?w = "if (c \<ge> 0) = highest then a else b"
  have IH: "out \<in> set (?w # vs)" "\<forall>v\<in>set (?w # vs). if highest then text_value v \<le> text_value out else text_value out \<le> text_value v"
    using Cons.IH [OF c(2)] by blast+
  have "if highest then text_value a \<le> text_value ?w \<and> text_value b \<le> text_value ?w
      else text_value ?w \<le> text_value a \<and> text_value ?w \<le> text_value b"
    using compareDecimal_values [OF c(1)] by (cases highest) auto
  then show ?case using IH by (cases highest) (auto intro: order_trans)
qed

lemma exactDecimal_again: "exactDecimal raw = ok d \<Longrightarrow> exactDecimal d = ok d"
  using exactDecimal_shape by blast

lemma addDecimal_again: "addDecimal a b = ok d \<Longrightarrow> exactDecimal d = ok d"
  by (auto simp: addDecimal_def fromUnits_def Let_def dest: exactDecimal_again split: if_splits)

lemma foldE_addDecimal_again: "exactDecimal a = ok a \<Longrightarrow> foldE addDecimal a vs = ok d \<Longrightarrow> exactDecimal d = ok d"
  by (induction vs arbitrary: a) (auto dest: addDecimal_again)

lemma field_decimal_again: "field_decimal path node = ok d \<Longrightarrow> exactDecimal d = ok d"
proof -
  assume "field_decimal path node = ok d"
  then obtain x where "(case x of XNum raw \<Rightarrow> exactDecimal raw | XStr s \<Rightarrow> exactDecimal s | _ \<Rightarrow> issue ''VALUE_INVALID'') = ok d"
    unfolding field_decimal_def by auto
  then obtain raw where "exactDecimal raw = ok d" by (cases x) simp_all
  then show ?thesis by (rule exactDecimal_again)
qed

lemma field_decimals_again: "mapE (field_decimal path) nodes = ok vs \<Longrightarrow> v \<in> set vs \<Longrightarrow> exactDecimal v = ok v"
  by (induction nodes arbitrary: vs) (auto dest: field_decimal_again)

text \<open>The values a list is reduced to, and what is written in the end.\<close>

definition listed :: "settlement_rule \<Rightarrow> exact list \<Rightarrow> string list res" where
  "listed rule nodes = mapE (field_decimal (as_text (setting rule ''field''))) (selected rule nodes)"

lemma aggregate_list_reduced:
  assumes "aggregate_list h rule nodes = ok v" "setting rule ''aggregate'' = JStr a" "List.member [''sum'', ''max'', ''min''] a"
  obtains b bs total s where "listed rule nodes = ok (b # bs)" "foldE (if a = ''sum'' then addDecimal else extreme (a = ''max'')) b bs = ok total"
    "scaled total (scale_of rule) = ok s" "v = JStr s"
proof -
  have a: "as_text (setting rule ''aggregate'') = a" "a \<noteq> ''count''" "a \<noteq> ''only''" using assms(2,3) by (auto simp: as_text_def)
  obtain vs total s where vs: "listed rule nodes = ok vs" "reduceE (if a = ''sum'' then addDecimal else extreme (a = ''max'')) vs = ok total"
    "scaled total (scale_of rule) = ok s" "v = JStr s"
    using assms(1) a by (auto simp: aggregate_list_def Let_def listed_def split: if_splits)
  then show thesis using that by (cases vs) (auto simp: reduceE_def)
qed

section \<open>Properties\<close>



text \<open>a total or an extreme the JSON reader reports is exact: it is worth precisely the sum, the greatest or the
  least of the values the source wrote in the selected items, moved by the rule's scale, with no rounding on the way.\<close>

theorem json_aggregate_exact:
  assumes "aggregate_list h rule nodes = ok v" "setting rule ''aggregate'' = JStr a" "List.member [''sum'', ''max'', ''min''] a"
  shows "\<exists>vs s. listed rule nodes = ok vs \<and> v = JStr s
    \<and> text_value s * 10 ^ scale_of rule = (if a = ''sum'' then sum_list (map text_value vs)
        else if a = ''max'' then Max (text_value ` set vs) else Min (text_value ` set vs))"
proof -
  obtain b bs total s where r: "listed rule nodes = ok (b # bs)" "foldE (if a = ''sum'' then addDecimal else extreme (a = ''max'')) b bs = ok total"
    "scaled total (scale_of rule) = ok s" "v = JStr s"
    by (rule aggregate_list_reduced [OF assms])
  have each: "exactDecimal w = ok w" if "w \<in> set (b # bs)" for w
    using field_decimals_again r(1) that unfolding listed_def by blast
  have total: "exactDecimal total = ok total \<and> text_value total = (if a = ''sum'' then sum_list (map text_value (b # bs))
      else if a = ''max'' then Max (text_value ` set (b # bs)) else Min (text_value ` set (b # bs)))"
  proof (cases "a = ''sum''")
    case True
    then show ?thesis using r(2) foldE_addDecimal foldE_addDecimal_again each [of b] by auto
  next
    case False
    then have e: "foldE (extreme (a = ''max'')) b bs = ok total" using r(2) by simp
    show ?thesis using False foldE_extreme [OF e] each by (auto intro!: Max_eqI [symmetric] Min_eqI [symmetric])
  qed
  have "text_value s = text_value total / 10 ^ scale_of rule" using scaled_value r(3) total by blast
  then show ?thesis using r(1,4) total by auto
qed

text \<open>A host with nothing to look up, and a rule that adds up the field \<open>v\<close> of a list's items.\<close>

definition demo_reader_host :: reader_host where
  "demo_reader_host = \<lparr>rh_date = (\<lambda>_. None), rh_unit = (\<lambda>_. []), rh_page = (\<lambda>s. s), rh_matches = (\<lambda>_ _. []),
     rh_groups = (\<lambda>_. Some 1), rh_json = (\<lambda>_. None)\<rparr>"

definition reader_rule :: "string \<Rightarrow> (string \<times> json) list \<Rightarrow> settlement_rule" where
  "reader_rule adapter settings = demo_rule\<lparr>sl_adapter := adapter, sl_reader := JObj settings, sl_vintage := First_snapshot\<rparr>"

definition demo_items :: "exact list" where
  "demo_items = [XObj [(''v'', XNum ''1.5'')], XObj [(''v'', XStr ''2.25'')]]"

definition demo_sum :: settlement_rule where
  "demo_sum = reader_rule ''json-api.v1'' [(''select'', JStr []), (''aggregate'', JStr ''sum''), (''field'', JStr ''/v'')]"

lemma demo_total: "aggregate_list demo_reader_host demo_sum demo_items = ok (JStr ''3.75'')"
proof -
  have "decimal ''1.5'' = ok (15, 1)" "decimal ''2.25'' = ok (225, 2)" "fromUnits 375 2 = ok ''3.75''" by code_simp+
  then have add: "addDecimal ''1.5'' ''2.25'' = ok ''3.75''" by (simp add: addDecimal_def numeral_2_eq_2)
  have s: "setting demo_sum ''aggregate'' = JStr ''sum''" "selected demo_sum demo_items = demo_items" "scale_of demo_sum = 0"
    "mapE (field_decimal (as_text (setting demo_sum ''field''))) demo_items = ok [''1.5'', ''2.25'']" "length demo_items = 2"
    "as_text (JStr ''sum'') = ''sum''" "demo_items \<noteq> []" by code_simp+
  show ?thesis using s(7) by (simp add: aggregate_list_def Let_def s add reduceE_def scaled_def)
qed

lemma json_aggregate_exact_witness:
  "aggregate_list demo_reader_host demo_sum demo_items = ok (JStr ''3.75'')
   \<and> (\<exists>vs. listed demo_sum demo_items = ok vs \<and> text_value ''3.75'' = sum_list (map text_value vs))"
proof -
  have "setting demo_sum ''aggregate'' = JStr ''sum''" "List.member [''sum'', ''max'', ''min''] ''sum''" "scale_of demo_sum = 0" by code_simp+
  then show ?thesis using json_aggregate_exact [OF demo_total] demo_total by auto
qed

end
