(* ===== verification/Evm_Laws.thy ===== *)
theory Evm_Laws
  imports Evm_Reader Reader_Laws
begin

text \<open>
  What the chain reader promises: the search finds the boundary of a time and always ends, a bundle it accepts holds
  exactly the calls the rule asks for around blocks that really cross the rule's times, and what the
  collector records is what the reader replays.
\<close>

section \<open>The search\<close>

lemma back_off_finds:
  assumes reads: "\<And>n s. n \<le> head \<Longrightarrow> \<exists>s'. p n s = ok (ts n, s')"
  shows "high \<le> head \<Longrightarrow> target \<le> ts high \<Longrightarrow> \<exists>low n s'. back_off p target high j s = ok ((low, n), s') \<and> n \<le> high \<and> target \<le> ts n
    \<and> (case low of None \<Rightarrow> n = 0 | Some l \<Rightarrow> l < n \<and> ts l < target)"
proof (induction high arbitrary: j s rule: less_induct)
  case (less high)
  let ?n = "high - 2 ^ j"
  have "?n \<le> head" using less.prems(1) by linarith
  then obtain s' where s': "p ?n s = ok (ts ?n, s')" using reads [of ?n s] by blast
  consider "ts ?n < target" | "target \<le> ts ?n" "?n = 0" | "target \<le> ts ?n" "?n \<noteq> 0" by linarith
  then show ?case
  proof cases
    case 1
    then have "?n \<noteq> high" using less.prems(2) by auto
    then have "?n < high" using diff_le_self [of high "2 ^ j"] by linarith
    then show ?thesis using 1 less.prems(2) by (subst back_off.simps) (simp add: s')
  next
    case 2
    have "p 0 s = ok (ts 0, s')" "target \<le> ts 0" using s' 2(1) unfolding 2(2) by blast+
    then have "back_off p target high j s = ok ((None, 0), s')"
      by (subst back_off.simps) (simp add: 2(2) Let_def del: diff_is_0_eq)
    then show ?thesis using \<open>target \<le> ts 0\<close> by auto
  next
    case 3
    then have "?n < high" "?n \<le> head" using less.prems(1) by auto
    then obtain low n s'' where "back_off p target ?n (Suc j) s' = ok ((low, n), s'')" "n \<le> ?n" "target \<le> ts n"
      "case low of None \<Rightarrow> n = 0 | Some l \<Rightarrow> l < n \<and> ts l < target"
      using less.IH 3(1) by blast
    then show ?thesis using 3 by (subst back_off.simps) (auto simp: s')
  qed
qed

lemma bisect_finds:
  assumes reads: "\<And>n s. n \<le> head \<Longrightarrow> \<exists>s'. p n s = ok (ts n, s')"
  shows "low < high \<Longrightarrow> high \<le> head \<Longrightarrow> ts low < target \<Longrightarrow> target \<le> ts high
    \<Longrightarrow> \<exists>n s'. bisect p target low high s = ok (n, s') \<and> low < n \<and> n \<le> high \<and> target \<le> ts n \<and> ts (n - 1) < target"
proof (induction "high - low" arbitrary: low high s rule: less_induct)
  case less
  show ?case
  proof (cases "high - low > 1")
    case False
    then have "high - 1 = low" using less.prems(1) by linarith
    then show ?thesis using False less.prems by (subst bisect.simps) auto
  next
    case True
    let ?mid = "low + (high - low) div 2"
    have m: "low < ?mid" "?mid < high" using True by linarith+
    then have shorter: "?mid - low < high - low" "high - ?mid < high - low" "?mid \<le> head" using less.prems(2) by linarith+
    then obtain s' where s': "p ?mid s = ok (ts ?mid, s')" using reads [of ?mid s] by blast
    show ?thesis
    proof (cases "target \<le> ts ?mid")
      case True
      then obtain n s'' where "bisect p target low ?mid s' = ok (n, s'')" "low < n" "n \<le> ?mid" "target \<le> ts n" "ts (n - 1) < target"
        using less.hyps [OF shorter(1), of s'] m less.prems shorter(3) by blast
      then show ?thesis using True m \<open>high - low > 1\<close> by (subst bisect.simps) (auto simp: s' Let_def)
    next
      case False
      then obtain n s'' where "bisect p target ?mid high s' = ok (n, s'')" "?mid < n" "n \<le> high" "target \<le> ts n" "ts (n - 1) < target"
        using less.hyps [OF shorter(2), of s'] m less.prems by fastforce
      then show ?thesis using False m \<open>high - low > 1\<close> by (subst bisect.simps) (auto simp: s' Let_def)
    qed
  qed
qed

section \<open>Exchanges\<close>

text \<open>An exchange asks a call, and what it was answered.\<close>

definition asks :: "json \<Rightarrow> rpc_call \<Rightarrow> bool" where
  "asks x call = (jget (jget x ''request'') ''method'' = JStr (fst call) \<and> jget (jget x ''request'') ''params'' = JArr (snd call))"

definition answer :: "json \<Rightarrow> json" where
  "answer x = jget (jget x ''response'') ''result''"

lemma take_exchange_ok: "take_exchange call left = ok (v, rest) \<Longrightarrow> \<exists>x. left = x # rest \<and> asks x call \<and> v = answer x"
  by (auto simp: take_exchange_def asks_def answer_def Let_def split: list.splits if_splits)

lemma take_all_ok: "take_all calls left = ok (vs, rest) \<Longrightarrow> \<exists>xs. left = xs @ rest \<and> list_all2 asks xs calls \<and> vs = map answer xs"
proof (induction calls arbitrary: left vs rest)
  case Nil
  then show ?case by simp
next
  case (Cons c cs)
  obtain v mid ws where v: "take_exchange c left = ok (v, mid)" "take_all cs mid = ok (ws, rest)" "vs = v # ws"
    using Cons.prems by auto
  obtain x where x: "left = x # mid" "asks x c" "v = answer x" using take_exchange_ok [OF v(1)] by blast
  obtain xs where "mid = xs @ rest" "list_all2 asks xs cs" "ws = map answer xs" using Cons.IH [OF v(2)] by blast
  then show ?case using x v(3) by (intro exI [of _ "x # xs"]) simp
qed

lemma blockPair_ok:
  assumes "blockPair left = ok ((a, b), rest)"
  obtains x y q n where "left = [x, y] @ rest" "asks x (block_call q)" "quantity q = ok n" "asks y (block_call (JStr (hex (n + 1))))"
    "a = answer x" "b = answer y" "quantity (jget a ''number'') = ok n" "quantity (jget b ''number'') = ok (n + 1)"
proof -
  let ?q = "next_param left"
  obtain mid n where m: "take_exchange (block_call ?q) left = ok (a, mid)" "quantity ?q = ok n"
    "take_exchange (block_call (JStr (hex (n + 1)))) mid = ok (b, rest)"
    "quantity (jget a ''number'') = ok n" "quantity (jget b ''number'') = ok (n + 1)"
    using assms by (auto simp: blockPair_def Let_def split: if_splits)
  show thesis using take_exchange_ok [OF m(1)] take_exchange_ok [OF m(3)] that m(2,4,5) by auto
qed

text \<open>Two blocks, one the parent of the other, with a time between theirs.\<close>

definition crosses :: "json \<Rightarrow> json \<Rightarrow> int \<Rightarrow> bool" where
  "crosses a b target = (\<exists>m t u parent. quantity (jget a ''number'') = ok m \<and> quantity (jget b ''number'') = ok (m + 1)
     \<and> jget a ''hash'' = JStr parent \<and> lower (as_text (jget b ''parentHash'')) = lower parent
     \<and> quantity (jget a ''timestamp'') = ok t \<and> quantity (jget b ''timestamp'') = ok u \<and> int t < target \<and> target \<le> int u)"

lemma checkBoundary_ok:
  "checkBoundary a b target = ok n \<Longrightarrow> crosses a b target \<and> quantity (jget b ''number'') = ok n"
  by (auto simp: checkBoundary_def crosses_def as_text_def split: json.splits if_splits)

section \<open>A bundle that is accepted\<close>

text \<open>The calls a rule asks for, in order: the chain, the blocks around each of its times, and the metric's own.\<close>

definition pair_calls :: "json \<Rightarrow> nat \<Rightarrow> rpc_call list" where
  "pair_calls q n = [block_call q, block_call (JStr (hex n))]"

lemma boundaries_ok:
  assumes "boundaries r left = ok ((start, first, e, last_block), rest)"
  obtains x y q where "quantity q = ok (first - 1)" "0 < first" "start = answer y" "crosses (answer x) (answer y) (jint_val (jget r ''at''))"
    "asks x (block_call q)" "asks y (block_call (JStr (hex first)))"
    "e = None \<and> left = [x, y] @ rest \<and> last_block = start \<or>
     (\<exists>z w q' n. e = Some n \<and> first < n \<and> left = [x, y, z, w] @ rest \<and> last_block = answer w \<and> quantity q' = ok (n - 1)
        \<and> crosses (answer z) (answer w) (jint_val (jget r ''until'')) \<and> asks z (block_call q') \<and> asks w (block_call (JStr (hex n))))"
proof -
  obtain a b mid where p: "blockPair left = ok ((a, b), mid)" "checkBoundary a b (jint_val (jget r ''at'')) = ok first"
    and r: "(if absent (jget r ''until'') then ok ((b, first, None, b), mid)
       else bindE (blockPair mid) (\<lambda>((beforeEnd, endBlock), rest').
         bindE (checkBoundary beforeEnd endBlock (jint_val (jget r ''until''))) (\<lambda>e.
           if e \<le> first then issue ''EVM_BOUNDARY_INVALID'' else ok ((b, first, Some e, endBlock), rest')))) = ok ((start, first, e, last_block), rest)"
    using assms by (auto simp: boundaries_def split: if_splits)
  obtain x y q n where xy: "left = [x, y] @ mid" "asks x (block_call q)" "quantity q = ok n" "asks y (block_call (JStr (hex (n + 1))))"
    "a = answer x" "b = answer y" "quantity (jget b ''number'') = ok (n + 1)"
    by (rule blockPair_ok [OF p(1)])
  have f: "crosses a b (jint_val (jget r ''at''))" "first = n + 1" using checkBoundary_ok [OF p(2)] xy(7) by auto
  show thesis
  proof (cases "absent (jget r ''until'')")
    case True
    then have "start = b" "e = None" "last_block = b" "mid = rest" using r by auto
    then show thesis using that [of q y x] xy f by simp
  next
    case False
    then obtain c d m where q: "blockPair mid = ok ((c, d), rest)" "checkBoundary c d (jint_val (jget r ''until'')) = ok m"
      "first < m" "start = b" "e = Some m" "last_block = d"
      using r by (auto split: if_splits)
    obtain z w q' k where zw: "mid = [z, w] @ rest" "asks z (block_call q')" "quantity q' = ok k" "asks w (block_call (JStr (hex (k + 1))))"
      "c = answer z" "d = answer w" "quantity (jget d ''number'') = ok (k + 1)"
      by (rule blockPair_ok [OF q(1)])
    have "crosses c d (jint_val (jget r ''until''))" "m = k + 1" using checkBoundary_ok [OF q(2)] zw(7) by auto
    then show thesis using that [of q y x] xy f q zw by auto
  qed
qed

text \<open>What an accepted reading rests on.\<close>

definition evidence_of :: "json \<Rightarrow> json list \<Rightarrow> nat \<Rightarrow> nat option \<Rightarrow> json \<Rightarrow> rpc_call list \<Rightarrow> json list \<Rightarrow> bool" where
  "evidence_of r xs first e last_block calls metric_xs =
     (\<exists>c x y q. quantity (answer c) = ok (nat (jint_val (jget r ''chainId''))) \<and> asks c (''eth_chainId'', [])
        \<and> quantity q = ok (first - 1) \<and> 0 < first \<and> list_all2 asks [x, y] (pair_calls q first)
        \<and> crosses (answer x) (answer y) (jint_val (jget r ''at'')) \<and> list_all2 asks metric_xs calls
        \<and> (case e of
            None \<Rightarrow> xs = [c, x, y] @ metric_xs \<and> last_block = answer y
          | Some n \<Rightarrow> (\<exists>z w q'. xs = [c, x, y, z, w] @ metric_xs \<and> last_block = answer w \<and> first < n \<and> quantity q' = ok (n - 1)
              \<and> list_all2 asks [z, w] (pair_calls q' n) \<and> crosses (answer z) (answer w) (jint_val (jget r ''until'')))))"

lemma evmRpc_ok:
  assumes "evmRpc h rule c = ok v" "jget (sl_reader rule) ''metric'' \<noteq> JStr ''block-field''"
  obtains xs first e last_block calls metric_xs t amount s where
    "bundle_of h rule c = ok xs" "metricRequests (sl_reader rule) first e = ok calls"
    "evidence_of (sl_reader rule) xs first e last_block calls metric_xs"
    "total_of (sl_reader rule) (map answer metric_xs) = ok amount" "fromUnits amount (scale_of rule) = ok s" "re_value v = JStr s"
    "quantity (jget last_block ''timestamp'') = ok t" "jint_val (jget (sl_reader rule) ''finalitySeconds'') \<le> cp_fetchedAt c - int t"
proof -
  let ?r = "sl_reader rule"
  obtain xs chain left chainId start first e last_block left' calls results amount t s where
    b: "bundle_of h rule c = ok xs" "take_exchange (''eth_chainId'', []) xs = ok (chain, left)" "quantity chain = ok chainId"
    "int chainId = jint_val (jget ?r ''chainId'')" "boundaries ?r left = ok ((start, first, e, last_block), left')"
    "metricRequests ?r first e = ok calls" "take_all calls left' = ok (results, [])" "total_of ?r results = ok amount"
    "quantity (jget last_block ''timestamp'') = ok t" "jint_val (jget ?r ''finalitySeconds'') \<le> cp_fetchedAt c - int t"
    "fromUnits amount (scale_of rule) = ok s" "re_value v = JStr s"
    using assms by (auto simp: evmRpc_def Let_def reading_of_def split: if_splits)
  obtain x0 where x0: "xs = x0 # left" "asks x0 (''eth_chainId'', [])" "chain = answer x0" using take_exchange_ok [OF b(2)] by blast
  obtain mxs where mxs: "left' = mxs" "list_all2 asks mxs calls" "results = map answer mxs" using take_all_ok [OF b(7)] by auto
  have "nat (jint_val (jget ?r ''chainId'')) = chainId" using b(4) by linarith
  moreover obtain x y q where "quantity q = ok (first - 1)" "0 < first" "start = answer y" "crosses (answer x) (answer y) (jint_val (jget ?r ''at''))"
    "asks x (block_call q)" "asks y (block_call (JStr (hex first)))"
    "e = None \<and> left = [x, y] @ left' \<and> last_block = start \<or>
     (\<exists>z w q' n. e = Some n \<and> first < n \<and> left = [x, y, z, w] @ left' \<and> last_block = answer w \<and> quantity q' = ok (n - 1)
        \<and> crosses (answer z) (answer w) (jint_val (jget ?r ''until'')) \<and> asks z (block_call q') \<and> asks w (block_call (JStr (hex n))))"
    by (rule boundaries_ok [OF b(5)])
  ultimately have "evidence_of ?r xs first e last_block calls mxs"
    using x0 mxs b(3) unfolding evidence_of_def pair_calls_def by fastforce
  then show thesis using that b mxs(3) by blast
qed

section \<open>What is recorded replays\<close>

text \<open>An exchange as the collector records it: the payload of a call with a reply that carries its id and a result.\<close>

definition recorded :: "json \<Rightarrow> rpc_call \<Rightarrow> bool" where
  "recorded x call = (\<exists>i res. x = JObj [(''request'', payload i call), (''response'', res)] \<and> jget res ''id'' = JInt i
     \<and> \<not> truthy (jget res ''error'') \<and> jhas res ''result'')"

lemma rpc_ok: "rpc net url call i attempt = ok p \<Longrightarrow> jget p ''id'' = JInt i \<and> \<not> truthy (jget p ''error'') \<and> jhas p ''result''"
proof (induction "5 - attempt" arbitrary: attempt rule: less_induct)
  case less
  obtain reply where r: "(if List.member [429, 502, 503, 504] (pl_status reply) \<and> attempt < 5
      then rpc net url call i (attempt + 1) else rpc_result i reply) = ok p"
    using less.prems by (subst (asm) rpc.simps) auto
  show ?case
  proof (cases "List.member [429, 502, 503, 504] (pl_status reply) \<and> attempt < 5")
    case True
    then have "rpc net url call i (attempt + 1) = ok p" "5 - (attempt + 1) < 5 - attempt" using r by auto
    then show ?thesis using less.hyps by blast
  next
    case False
    then have "rpc_result i reply = ok p" using r by (simp only: if_False)
    then show ?thesis by (auto simp: rpc_result_def split: if_splits option.splits)
  qed
qed

lemma record_call_ok:
  assumes "record_call net url call s = ok (v, s')"
  obtains x where "recorded x call" "eg_exchanges s' = eg_exchanges s @ [x]" "v = answer x"
proof -
  obtain res where r: "rpc net url call (eg_id s) 0 = ok res" "v = jget res ''result''"
    "eg_exchanges s' = eg_exchanges s @ [JObj [(''request'', payload (eg_id s) call), (''response'', res)]]"
    using assms by (auto simp: record_call_def)
  show thesis by (rule that [OF _ r(3)]) (use rpc_ok [OF r(1)] r(2) in \<open>auto simp: recorded_def answer_def jget_def\<close>)
qed

lemma record_all_ok: "record_all net url calls s = ok s' \<Longrightarrow> \<exists>xs. list_all2 recorded xs calls \<and> eg_exchanges s' = eg_exchanges s @ xs"
proof (induction calls arbitrary: s)
  case Nil
  then show ?case by simp
next
  case (Cons c cs)
  obtain v s1 where s1: "record_call net url c s = ok (v, s1)" "record_all net url cs s1 = ok s'" using Cons.prems by auto
  obtain x where x: "recorded x c" "eg_exchanges s1 = eg_exchanges s @ [x]" "v = answer x" by (rule record_call_ok [OF s1(1)])
  obtain xs where "list_all2 recorded xs cs" "eg_exchanges s' = eg_exchanges s1 @ xs" using Cons.IH [OF s1(2)] by blast
  then show ?case using x by (intro exI [of _ "x # xs"]) simp
qed

lemma take_recorded:
  assumes "recorded x call"
  shows "take_exchange call (x # xs) = ok (answer x, xs)"
proof -
  obtain i res where x: "x = JObj [(''request'', payload i call), (''response'', res)]" "jget res ''id'' = JInt i"
    "\<not> truthy (jget res ''error'')" "jhas res ''result''"
    using assms by (auto simp: recorded_def)
  have "jget x ''request'' = payload i call" "jget x ''response'' = res" by (simp_all add: x(1) jget_def)
  moreover have "jget (payload i call) ''method'' = JStr (fst call)" "jget (payload i call) ''params'' = JArr (snd call)"
    "jget (payload i call) ''id'' = JInt i" by (simp_all add: payload_def jget_def)
  moreover have "res \<noteq> JUndef" "res \<noteq> JNull" using x(4) by (auto simp: jhas_def)
  ultimately show ?thesis using x(2-4) by (simp add: take_exchange_def answer_def Let_def)
qed

lemma next_param_recorded: "recorded x (block_call q) \<Longrightarrow> next_param (x # xs) = q"
  by (auto simp: recorded_def next_param_def payload_def block_call_def jget_def)

lemma take_all_recorded: "list_all2 recorded xs calls \<Longrightarrow> take_all calls (xs @ rest) = ok (map answer xs, rest)"
  by (induction xs calls rule: list_all2_induct) (simp_all add: take_recorded)

lemma hex_val_bound: "hex_val s < 16 ^ length s"
proof -
  have "digit_val c < 16" for c by (auto simp: digit_val_def Let_def)
  then have "from_base 16 (map digit_val s) < 16 ^ length (map digit_val s)" by (intro from_base_less) auto
  then show ?thesis by (simp add: hex_val_def)
qed

lemma quantity_bound: "quantity v = ok n \<Longrightarrow> n < 16 ^ 64"
proof -
  assume "quantity v = ok n"
  then obtain s where s: "chars is_hex 1 64 s" "n = hex_val s" by (auto simp: quantity_def split: json.splits if_splits)
  then have "hex_val s < 16 ^ length s" "length s \<le> 64" by (auto simp: chars_def hex_val_bound)
  then have "hex_val s < (16 :: nat) ^ 64" by (rule order_less_le_trans [OF _ power_increasing]) simp_all
  then show ?thesis using s(2) by simp
qed

lemma quantity_hex: "n < 16 ^ 64 \<Longrightarrow> quantity (JStr (hex n)) = ok n"
proof -
  assume "n < 16 ^ 64"
  then have "length (hex_str n) \<le> 64" by (intro length_hex_str) simp_all
  moreover have "list_all is_hex (hex_str n)" using hex_str_all [of n] by (auto simp: list_all_iff is_hex_def)
  moreover have "hex_str n \<noteq> []" by (simp add: hex_str_def)
  ultimately show ?thesis by (simp add: quantity_def hex_def chars_def Suc_le_eq)
qed

lemma back_off_keeps:
  assumes "\<And>n s t s'. p n s = ok (t, s') \<Longrightarrow> f s' = f s"
  shows "back_off p target high j s = ok ((low, n), s') \<Longrightarrow> f s' = f s \<and> n \<le> high"
proof (induction high arbitrary: j s rule: less_induct)
  case (less high)
  let ?n = "high - 2 ^ j"
  obtain t s1 where t: "p ?n s = ok (t, s1)" "(if t < target then ok ((Some ?n, high), s1)
      else if ?n = 0 then ok ((None, 0), s1) else back_off p target ?n (Suc j) s1) = ok ((low, n), s')"
    using less.prems by (subst (asm) back_off.simps) (auto simp: Let_def)
  show ?case
  proof (cases "t < target \<or> ?n = 0")
    case True
    then show ?thesis using t(2) assms [OF t(1)] by (auto split: if_splits)
  next
    case False
    then have "back_off p target ?n (Suc j) s1 = ok ((low, n), s')" "?n < high" using t(2) by auto
    then show ?thesis using less.IH [of ?n "Suc j" s1] assms [OF t(1)] by auto
  qed
qed

lemma bisect_keeps:
  assumes "\<And>n s t s'. p n s = ok (t, s') \<Longrightarrow> f s' = f s"
  shows "bisect p target low high s = ok (n, s') \<Longrightarrow> f s' = f s \<and> n \<le> high"
proof (induction "high - low" arbitrary: low high s rule: less_induct)
  case less
  show ?case
  proof (cases "high - low > 1")
    case False
    then show ?thesis using less.prems by (subst (asm) bisect.simps) auto
  next
    case True
    let ?mid = "low + (high - low) div 2"
    have m: "?mid - low < high - low" "high - ?mid < high - low" "?mid \<le> high" using True by linarith+
    obtain t s1 where t: "p ?mid s = ok (t, s1)" "(if t \<ge> target then bisect p target low ?mid s1 else bisect p target ?mid high s1) = ok (n, s')"
      using less.prems True by (subst (asm) bisect.simps) (auto simp: Let_def)
    show ?thesis
    proof (cases "target \<le> t")
      case True
      then have "bisect p target low ?mid s1 = ok (n, s')" using t(2) by simp
      then show ?thesis using less.hyps [OF m(1)] assms [OF t(1)] m(3) by fastforce
    next
      case False
      then have "bisect p target ?mid high s1 = ok (n, s')" using t(2) by simp
      then show ?thesis using less.hyps [OF m(2)] assms [OF t(1)] by fastforce
    qed
  qed
qed

lemma probe_keeps: "probe_at net url n s = ok (t, s') \<Longrightarrow> eg_exchanges s' = eg_exchanges s"
  by (auto simp: probe_at_def ask_def split: if_splits)

lemma pair_at_ok:
  assumes "pair_at net url head target s = ok (n, s')"
  obtains x y where "0 < n" "n \<le> head" "recorded x (block_call (JStr (hex (n - 1))))" "recorded y (block_call (JStr (hex n)))"
    "eg_exchanges s' = eg_exchanges s @ [x, y]"
proof -
  obtain s1 a s2 b where p: "firstAtOrAfter (probe_at net url) head target s = ok (n, s1)" "1 \<le> n"
    "record_call net url (block_call (JStr (hex (n - 1)))) s1 = ok (a, s2)" "record_call net url (block_call (JStr (hex n))) s2 = ok (b, s')"
    using assms by (auto simp: pair_at_def split: if_splits)
  obtain low high s0 where l: "back_off (probe_at net url) target head 0 s = ok ((low, high), s0)"
    "(case low of None \<Rightarrow> ok (0, s0) | Some l \<Rightarrow> bisect (probe_at net url) target l high s0) = ok (n, s1)"
    using p(1) by (auto simp: firstAtOrAfter_def)
  have h: "eg_exchanges s0 = eg_exchanges s" "high \<le> head" using back_off_keeps [of "probe_at net url" eg_exchanges, OF probe_keeps l(1)] by auto
  have "eg_exchanges s1 = eg_exchanges s0 \<and> n \<le> high"
    using l(2) bisect_keeps [of "probe_at net url" eg_exchanges, OF probe_keeps] p(2) by (cases low) fastforce+
  then have e: "eg_exchanges s1 = eg_exchanges s" "n \<le> head" using h by auto
  obtain x where x: "recorded x (block_call (JStr (hex (n - 1))))" "eg_exchanges s2 = eg_exchanges s1 @ [x]" by (rule record_call_ok [OF p(3)])
  obtain y where y: "recorded y (block_call (JStr (hex n)))" "eg_exchanges s' = eg_exchanges s2 @ [y]" by (rule record_call_ok [OF p(4)])
  show thesis using that [OF _ e(2) x(1) y(1)] p(2) e(1) x(2) y(2) by simp
qed

lemma blockPair_recorded:
  assumes "recorded x (block_call (JStr (hex (n - 1))))" "recorded y (block_call (JStr (hex n)))" "0 < n" "n < 16 ^ 64"
  shows "blockPair ([x, y] @ rest) = bindE (quantity (jget (answer x) ''number'')) (\<lambda>na. if na \<noteq> n - 1 then issue ''EVM_BOUNDARY_INVALID''
    else bindE (quantity (jget (answer y) ''number'')) (\<lambda>nb. if nb \<noteq> n then issue ''EVM_BOUNDARY_INVALID'' else ok ((answer x, answer y), rest)))"
proof -
  obtain k where n: "n = Suc k" using assms(3) gr0_implies_Suc by blast
  have "quantity (JStr (hex k)) = ok k" using assms(4) by (intro quantity_hex) (simp add: n)
  then show ?thesis
    using take_recorded [OF assms(1)] take_recorded [OF assms(2)] next_param_recorded [OF assms(1)] by (simp add: blockPair_def Let_def n cong: if_cong)
qed

text \<open>Reasons that would blame the bundle itself, and results that give none of them.\<close>

definition BUNDLE_FAULTS :: "string list" where
  "BUNDLE_FAULTS = [''EXTRACTION_INVALID_JSON'', ''EVM_CAPTURE_INVALID'', ''EVM_CHAIN_MISMATCH'', ''EVM_RANGE_TOO_LARGE'']"

definition sound_bundle :: "'a res \<Rightarrow> bool" where
  "sound_bundle m = (\<forall>reason\<in>set BUNDLE_FAULTS. m \<noteq> issue reason)"

lemma sound_bundle_ok [intro, simp]: "sound_bundle (ok x)"
  by (simp add: sound_bundle_def)

lemma sound_bundle_issue [simp]: "sound_bundle (issue reason) \<longleftrightarrow> \<not> List.member BUNDLE_FAULTS reason"
  by (auto simp: sound_bundle_def)

lemma sound_bundle_bind: "sound_bundle m \<Longrightarrow> (\<And>x. m = ok x \<Longrightarrow> sound_bundle (f x)) \<Longrightarrow> sound_bundle (bindE m f)"
  by (cases m) (auto simp: sound_bundle_def)

lemma sound_bundle_fold: "(\<And>a x. sound_bundle (f a x)) \<Longrightarrow> sound_bundle (foldE f a xs)"
  by (induction xs arbitrary: a) (auto intro: sound_bundle_bind)

lemma sound_quantity [simp]: "sound_bundle (quantity v)"
  by (auto simp: quantity_def BUNDLE_FAULTS_def split: json.splits)

lemma sound_decimal: "sound_bundle (decimal s)"
  by (auto simp: decimal_def BUNDLE_FAULTS_def split: option.splits)

lemma sound_exactDecimal: "sound_bundle (exactDecimal s)"
  by (auto simp: exactDecimal_def Let_def BUNDLE_FAULTS_def intro!: sound_bundle_bind sound_decimal [unfolded BUNDLE_FAULTS_def] split: option.splits prod.splits)

lemma sound_fromUnits: "sound_bundle (fromUnits c p)"
  by (simp add: fromUnits_def Let_def sound_exactDecimal)

lemma sound_checkBoundary: "sound_bundle (checkBoundary a b t)"
  by (auto simp: checkBoundary_def BUNDLE_FAULTS_def intro!: sound_bundle_bind split: json.splits)

lemma sound_total_of: "sound_bundle (total_of r vs)"
proof -
  have "sound_bundle (log_count a v)" for a v by (auto simp: log_count_def BUNDLE_FAULTS_def split: json.splits)
  moreover have "sound_bundle (call_value r w)" for w by (auto simp: call_value_def BUNDLE_FAULTS_def Let_def split: json.splits)
  moreover have "sound_bundle (bindE (quantity v) (\<lambda>n. ok (sum + int n)))" for sum v by (intro sound_bundle_bind) auto
  ultimately show ?thesis by (simp add: total_of_def sound_bundle_fold)
qed

lemma sound_block_field: "sound_bundle (block_field r start)"
  by (auto simp: block_field_def BUNDLE_FAULTS_def Let_def intro!: sound_bundle_bind split: json.splits)

text \<open>The blocks the collector recorded are the ones the reader finds, unless the source contradicts itself.\<close>

lemma boundaries_recorded:
  assumes x: "recorded x (block_call (JStr (hex (n - 1))))" "recorded y (block_call (JStr (hex n)))" "0 < n" "n < 16 ^ 64"
    and e: "e = None \<and> absent (jget r ''until'') \<and> ends = [] \<or> (\<exists>z w m. e = Some m \<and> \<not> absent (jget r ''until'') \<and> ends = [z, w]
      \<and> recorded z (block_call (JStr (hex (m - 1)))) \<and> recorded w (block_call (JStr (hex m))) \<and> 0 < m \<and> m < 16 ^ 64)"
  shows "sound_bundle (boundaries r ([x, y] @ ends @ rest))
    \<and> (\<forall>start first e' last_block left. boundaries r ([x, y] @ ends @ rest) = ok ((start, first, e', last_block), left)
         \<longrightarrow> first = n \<and> e' = e \<and> left = rest)"
proof -
  have pair: "sound_bundle (blockPair ([x, y] @ left))"
    "blockPair ([x, y] @ left) = ok ((a, b), left') \<Longrightarrow> left' = left \<and> b = answer y \<and> quantity (jget b ''number'') = ok n"
    if "recorded x (block_call (JStr (hex (n - 1))))" "recorded y (block_call (JStr (hex n)))" "0 < n" "n < 16 ^ 64" for x y n left a b left'
    using blockPair_recorded [OF that] by (auto simp: BUNDLE_FAULTS_def intro!: sound_bundle_bind split: if_splits)
  have check: "first = n" if "checkBoundary a b t = ok first" "quantity (jget b ''number'') = ok n" for a b t first n
    using checkBoundary_ok [OF that(1)] that(2) by simp
  from e show ?thesis
  proof (elim disjE exE conjE)
    assume h: "e = None" "absent (jget r ''until'')" "ends = []"
    show ?thesis
      using pair [OF x] check
      by (auto simp: h boundaries_def intro!: sound_bundle_bind sound_checkBoundary)
  next
    fix z w m
    assume h: "e = Some m" "\<not> absent (jget r ''until'')" "ends = [z, w]"
      "recorded z (block_call (JStr (hex (m - 1))))" "recorded w (block_call (JStr (hex m)))" "0 < m" "m < 16 ^ 64"
    show ?thesis
      using pair [OF x, of "[z, w] @ rest"] pair [OF h(4-7), of rest] check
      by (auto simp: h(1-3) boundaries_def BUNDLE_FAULTS_def intro!: sound_bundle_bind sound_checkBoundary [unfolded BUNDLE_FAULTS_def] split: if_splits)
  qed
qed

lemma collect_ok:
  assumes "collect net url rule = ok s"
  obtains c x y ends xs first e calls n where "eg_exchanges s = [c, x, y] @ ends @ xs" "recorded c (''eth_chainId'', [])"
    "quantity (answer c) = ok n" "int n = jint_val (jget (sl_reader rule) ''chainId'')"
    "recorded x (block_call (JStr (hex (first - 1))))" "recorded y (block_call (JStr (hex first)))" "0 < first" "first < 16 ^ 64"
    "metricRequests (sl_reader rule) first e = ok calls" "list_all2 recorded xs calls"
    "e = None \<and> absent (jget (sl_reader rule) ''until'') \<and> ends = [] \<or> (\<exists>z w m. e = Some m \<and> \<not> absent (jget (sl_reader rule) ''until'')
      \<and> ends = [z, w] \<and> recorded z (block_call (JStr (hex (m - 1)))) \<and> recorded w (block_call (JStr (hex m))) \<and> 0 < m \<and> m < 16 ^ 64)"
proof -
  let ?r = "sl_reader rule"
  let ?until = "jget ?r ''until''" and ?at = "jint_val (jget ?r ''at'')"
  obtain chain s1 n head s2 hn first s3 e s5 calls where
    a: "record_call net url (''eth_chainId'', []) \<lparr>eg_id = 1, eg_exchanges = []\<rparr> = ok (chain, s1)" "quantity chain = ok n"
      "int n = jint_val (jget ?r ''chainId'')" "ask net url (block_call (JStr ''latest'')) s1 = ok (head, s2)"
      "quantity (jget head ''number'') = ok hn" "pair_at net url hn ?at s2 = ok (first, s3)"
      "(if absent ?until then ok (None, s3) else bindE (pair_at net url hn (jint_val ?until) s3) (\<lambda>(e, s4). ok (Some e, s4))) = ok (e, s5)"
      "metricRequests ?r first e = ok calls" "record_all net url calls s5 = ok s"
    using assms by (auto simp: collect_def Let_def split: if_splits)
  obtain c where c: "recorded c (''eth_chainId'', [])" "eg_exchanges s1 = [c]" "chain = answer c" by (rule record_call_ok [OF a(1)]) simp
  have s2: "eg_exchanges s2 = [c]" using a(4) c(2) by (auto simp: ask_def)
  have hn: "hn < 16 ^ 64" by (rule quantity_bound [OF a(5)])
  obtain x y where xy: "0 < first" "first \<le> hn" "recorded x (block_call (JStr (hex (first - 1))))" "recorded y (block_call (JStr (hex first)))"
    "eg_exchanges s3 = [c, x, y]"
    by (rule pair_at_ok [OF a(6)]) (simp add: s2)
  obtain xs where xs: "list_all2 recorded xs calls" "eg_exchanges s = eg_exchanges s5 @ xs" using record_all_ok [OF a(9)] by blast
  show thesis
  proof (cases "absent ?until")
    case True
    then have "e = None" "eg_exchanges s5 = [c, x, y]" using a(7) xy(5) by auto
    then show thesis using that [of c x y "[]" xs n first e calls] c xy a hn xs True by simp
  next
    case False
    then obtain m where m: "pair_at net url hn (jint_val ?until) s3 = ok (m, s5)" "e = Some m" using a(7) by auto
    obtain z w where zw: "0 < m" "m \<le> hn" "recorded z (block_call (JStr (hex (m - 1))))" "recorded w (block_call (JStr (hex m)))"
      "eg_exchanges s5 = [c, x, y] @ [z, w]"
      by (rule pair_at_ok [OF m(1)]) (simp add: xy(5))
    show thesis using that [of c x y "[z, w]" xs n first e calls] c xy a hn xs zw m(2) False by simp
  qed
qed

lemma bundle_of_capture:
  assumes "rh_json h (cp_body c) = Some (capture_bundle rule (cp_requestedUrl c) xs)"
  shows "bundle_of h rule c = ok xs"
  using assms by (simp add: bundle_of_def capture_bundle_def jget_def)

lemma evmRpc_sound_bundle:
  assumes "collect net url rule = ok s" "bundle_of h rule c = ok (eg_exchanges s)"
  shows "sound_bundle (evmRpc h rule c)"
proof -
  let ?r = "sl_reader rule"
  obtain c0 x y ends xs first e calls n where k: "eg_exchanges s = [c0, x, y] @ ends @ xs" "recorded c0 (''eth_chainId'', [])"
    "quantity (answer c0) = ok n" "int n = jint_val (jget ?r ''chainId'')"
    "recorded x (block_call (JStr (hex (first - 1))))" "recorded y (block_call (JStr (hex first)))" "0 < first" "first < 16 ^ 64"
    "metricRequests ?r first e = ok calls" "list_all2 recorded xs calls"
    "e = None \<and> absent (jget ?r ''until'') \<and> ends = [] \<or> (\<exists>z w m. e = Some m \<and> \<not> absent (jget ?r ''until'')
      \<and> ends = [z, w] \<and> recorded z (block_call (JStr (hex (m - 1)))) \<and> recorded w (block_call (JStr (hex m))) \<and> 0 < m \<and> m < 16 ^ 64)"
    by (rule collect_ok [OF assms(1)])
  define left where "left = [x, y] @ ends @ xs"
  have chain: "take_exchange (''eth_chainId'', []) (eg_exchanges s) = ok (answer c0, left)"
    using take_recorded [OF k(2)] by (simp add: k(1) left_def)
  have b: "sound_bundle (boundaries ?r left)"
    "\<And>start first' e' last_block rest. boundaries ?r left = ok ((start, first', e', last_block), rest) \<Longrightarrow> first' = first \<and> e' = e \<and> rest = xs"
    using boundaries_recorded [OF k(5-8,11)] unfolding left_def by blast+
  have all: "take_all calls xs = ok (map answer xs, [])" using take_all_recorded [OF k(10), of "[]"] by simp
  have none: "xs = []" if "jget ?r ''metric'' = JStr ''block-field''" using k(9,10) that by (auto simp: metricRequests_def Let_def)
  show ?thesis
    unfolding evmRpc_def Let_def
    by (auto simp: assms(2) chain k(3,4,9) all none BUNDLE_FAULTS_def dest!: b(2) split: if_splits
      intro!: sound_bundle_bind b(1) sound_fromUnits sound_total_of sound_block_field sound_quantity)
qed

lemma signed_256: "0 \<le> k \<Longrightarrow> k < 2 ^ 256 \<Longrightarrow> signed_take_bit 255 k = (if k \<ge> 2 ^ 255 then k - 2 ^ 256 else (k :: int))"
proof -
  assume k: "0 \<le> k" "k < 2 ^ 256"
  show ?thesis
  proof (cases "k \<ge> 2 ^ 255")
    case True
    have "signed_take_bit 255 k = signed_take_bit 255 (k - 2 ^ 256)"
      by (simp add: signed_take_bit_eq_iff_take_bit_eq take_bit_eq_mod)
    also have "\<dots> = k - 2 ^ 256" using True k by (intro signed_take_bit_int_eq_self) simp_all
    finally show ?thesis using True by simp
  next
    case False
    then show ?thesis using k by (simp add: signed_take_bit_int_eq_self)
  qed
qed

section \<open>A small chain\<close>

text \<open>Six blocks, twenty seconds apart, on a source that answers every call; the head is block 5.\<close>

definition demo_block :: "nat \<Rightarrow> json" where
  "demo_block n = JObj [(''number'', JStr (hex n)), (''hash'', JStr (hex n)), (''parentHash'', JStr (hex (n - 1))),
     (''timestamp'', JStr (hex (20 * n)))]"

definition demo_answer :: "json \<Rightarrow> json" where
  "demo_answer request =
     (if jget request ''method'' = JStr ''eth_chainId'' then JStr ''0x1''
      else if jget request ''method'' = JStr ''eth_getBlockByNumber''
        then (case jget request ''params'' of JArr (JStr s # _) \<Rightarrow> demo_block (if s = ''latest'' then 5 else hex_val (drop 2 s)) | _ \<Rightarrow> JNull)
      else JStr ''0x7'')"

definition demo_network :: network where
  "demo_network url request attempt = ok \<lparr>pl_status = 200, pl_redirected = False, pl_bytes = 100,
     pl_parsed = Some (JObj [(''jsonrpc'', JStr ''2.0''), (''id'', jget request ''id''), (''result'', demo_answer request)])\<rparr>"

definition chain_rule :: "(string \<times> json) list \<Rightarrow> settlement_rule" where
  "chain_rule settings = reader_rule ''evm-rpc.v1'' ([(''chainId'', JInt 1), (''at'', JInt 70), (''finalitySeconds'', JInt 10)] @ settings)"

definition demo_nonce :: settlement_rule where
  "demo_nonce = chain_rule [(''metric'', JStr ''nonce''), (''address'', JStr ''0x00000000000000000000000000000000000000aa'')]"

definition collected :: "settlement_rule \<Rightarrow> capture" where
  "collected rule = (case retrieveEvmCapture (\<lambda>s. ''digest'') demo_network 200 rule ''https://api.example.org/v'' of Inr c \<Rightarrow> c)"

text \<open>A capture whose body stands for the bundle; the host below reads every body as what was collected.\<close>

definition short_capture :: capture where
  "short_capture = \<lparr>cp_requestedUrl = ''https://api.example.org/v'', cp_finalUrl = ''https://api.example.org/v'', cp_fetchedAt = 200,
     cp_status = 200, cp_complete = True, cp_body = ''{}'', cp_bytes = 2, cp_sha256 = ''digest'', cp_contentType = Some ''application/json''\<rparr>"

definition replaying_host :: "settlement_rule \<Rightarrow> reader_host" where
  "replaying_host rule = demo_reader_host\<lparr>rh_json := (\<lambda>_. case collect demo_network ''https://api.example.org/v'' rule of
     Inl _ \<Rightarrow> None | Inr s \<Rightarrow> Some (capture_bundle rule ''https://api.example.org/v'' (eg_exchanges s)))\<rparr>"

text \<open>
  A metric is looked up in an object literal, which also has what its prototype has: \<open>constructor\<close> passes the
  check meant to refuse unknown metrics, and the reader then answers 0 for it.
\<close>

lemma inherited_metric_accepted:
  "validateReaderConfig demo_reader_host (chain_rule [(''metric'', JStr ''constructor'')]) = ok ()
   \<and> evmRpc (replaying_host (chain_rule [(''metric'', JStr ''constructor'')])) (chain_rule [(''metric'', JStr ''constructor'')])
       short_capture = ok (reading_of (JStr ''0'') None)"
  by (rule conjI; code_simp)

section \<open>Properties\<close>

text \<open>C25: the search for a rule's block ends, and ends at the boundary: on a chain whose head has reached the
  time, the block it returns is at or after the time and the block before it, when there is one, is earlier.\<close>

theorem first_block_found:
  assumes "\<And>n s. n \<le> head \<Longrightarrow> \<exists>s'. p n s = ok (ts n, s')" and "target \<le> ts head"
  shows "\<exists>n s'. firstAtOrAfter p head target s = ok (n, s') \<and> n \<le> head \<and> target \<le> ts n \<and> (n = 0 \<or> ts (n - 1) < target)"
proof -
  obtain low h s1 where b: "back_off p target head 0 s = ok ((low, h), s1)" "h \<le> head" "target \<le> ts h"
    "case low of None \<Rightarrow> h = 0 | Some l \<Rightarrow> l < h \<and> ts l < target"
    using back_off_finds [where p = p and ts = ts and head = head and high = head, OF assms(1)] assms(2) by blast
  show ?thesis
  proof (cases low)
    case None
    then show ?thesis using b by (simp add: firstAtOrAfter_def)
  next
    case (Some l)
    then have "l < h" "ts l < target" using b(4) by simp_all
    then obtain n s2 where "bisect p target l h s1 = ok (n, s2)" "l < n" "n \<le> h" "target \<le> ts n" "ts (n - 1) < target"
      using bisect_finds [where p = p and ts = ts and head = head and low = l and high = h, OF assms(1)] b(2,3) by blast
    then show ?thesis using b Some by (auto simp: firstAtOrAfter_def)
  qed
qed

lemma first_block_found_witness: "\<exists>s'. firstAtOrAfter (\<lambda>n (s :: nat). ok (10 * int n, s + 1)) 100 425 0 = ok (43, s')"
proof -
  obtain n s' where "firstAtOrAfter (\<lambda>n (s :: nat). ok (10 * int n, s + 1)) 100 425 0 = ok (n, s')" "425 \<le> 10 * int n"
    "n = 0 \<or> 10 * int (n - 1) < 425"
    using first_block_found [of 100 "\<lambda>n (s :: nat). ok (10 * int n, s + 1)" "\<lambda>n. 10 * int n" 425 0] by auto
  then have "n = 43" by linarith
  then show ?thesis using \<open>firstAtOrAfter (\<lambda>n s. ok (10 * int n, s + 1)) 100 425 0 = ok (n, s')\<close> by auto
qed



text \<open>C10: what the collector records is what the reader replays: a capture it returns never fails for the bundle's own
  shape, order, chain or size, whatever the source answered, provided JSON text reads back as it was written.\<close>

theorem collected_bundle_replays:
  assumes "retrieveEvmCapture digest net now rule url = ok c"
    and "\<And>s. collect net url rule = ok s \<Longrightarrow> rh_json h (cp_body c) = Some (capture_bundle rule url (eg_exchanges s))"
  shows "\<forall>reason\<in>set BUNDLE_FAULTS. evmRpc h rule c \<noteq> issue reason"
proof -
  obtain s where s: "collect net url rule = ok s" "cp_requestedUrl c = url"
    using assms(1) by (auto simp: retrieveEvmCapture_def Let_def split: if_splits)
  have "bundle_of h rule c = ok (eg_exchanges s)" using bundle_of_capture assms(2) s by blast
  then show ?thesis using evmRpc_sound_bundle [OF s(1)] by (simp add: sound_bundle_def)
qed

lemma collected_bundle_replays_witness:
  "retrieveEvmCapture (\<lambda>s. ''digest'') demo_network 200 demo_nonce ''https://api.example.org/v'' = ok (collected demo_nonce)
   \<and> list_all (\<lambda>reason. evmRpc (replaying_host demo_nonce) demo_nonce (collected demo_nonce) \<noteq> issue reason) BUNDLE_FAULTS"
proof -
  have "retrieveEvmCapture (\<lambda>s. ''digest'') demo_network 200 demo_nonce ''https://api.example.org/v'' = ok (collected demo_nonce)" by code_simp
  moreover have "rh_json (replaying_host demo_nonce) t = Some (capture_bundle demo_nonce ''https://api.example.org/v'' (eg_exchanges s))"
    if "collect demo_network ''https://api.example.org/v'' demo_nonce = ok s" for s t
    using that by (simp add: replaying_host_def)
  ultimately show ?thesis unfolding list_all_iff using collected_bundle_replays by blast
qed

text \<open>the word an \<open>int256\<close> call returns is read as two's complement: its 64 digits are the bits of a 256-bit word and
  the value is that word's signed reading.\<close>

theorem call_value_signed:
  assumes "list_all is_hex ds" "length ds = 64" "jget (jget r ''call'') ''returns'' = JStr ''int256''"
  shows "call_value r (JStr (''0x'' @ ds @ rest)) = ok (sint (word_of_int (int (hex_val ds)) :: 256 word))"
proof -
  define k where "k = int (hex_val ds)"
  have "int (hex_val ds) < int (16 ^ 64)" using hex_val_bound [of ds] assms(2) by (simp only: of_nat_less_iff)
  then have "0 \<le> k" "k < 2 ^ 256" by (simp_all add: k_def)
  then have "sint (word_of_int k :: 256 word) = (if k \<ge> 2 ^ 255 then k - 2 ^ 256 else k)"
    using signed_256 [of k] by (simp add: sint_sbintrunc')
  moreover have "call_value r (JStr (''0x'' @ ds @ rest)) = ok (if k \<ge> 2 ^ 255 then k - 2 ^ 256 else k)"
    using assms by (simp add: call_value_def Let_def k_def)
  ultimately show ?thesis unfolding k_def by (simp only:)
qed

lemma call_value_signed_witness:
  "call_value (JObj [(''call'', JObj [(''returns'', JStr ''int256'')])]) (JStr (''0x'' @ replicate 64 CHR ''f'' @ [])) = ok (-1)"
proof -
  let ?r = "JObj [(''call'', JObj [(''returns'', JStr ''int256'')])]"
  have "list_all is_hex (replicate 64 CHR ''f'')" "jget (jget ?r ''call'') ''returns'' = JStr ''int256''" by code_simp+
  then have "call_value ?r (JStr (''0x'' @ replicate 64 CHR ''f'' @ []))
      = ok (sint (word_of_int (int (hex_val (replicate 64 CHR ''f''))) :: 256 word))"
    by (intro call_value_signed) simp_all
  moreover have "hex_val (replicate 64 CHR ''f'') = 2 ^ 256 - 1" by code_simp
  ultimately show ?thesis by simp
qed

end
