(* ===== verification/General_Records.thy ===== *)
theory General_Records
  imports Evm_Laws Evidence_Laws
begin

text \<open>
  The general readers in their place: the shared evaluator of settlement-evidence.mjs with the configuration check and
  the readers of settlement-readers.mjs, so what it promises holds for every record they read.
\<close>

definition general_readers :: "reader_host \<Rightarrow> readers \<Rightarrow> readers" where
  "general_readers h rd = rd\<lparr>rd_general := readGeneralRecord h, rd_rules := (rd_rules rd)\<lparr>ho_reader := validateReaderConfig h\<rparr>\<rparr>"

lemma validateSettlementRule_general:
  "validateSettlementRule h r = ok u \<Longrightarrow> is_general r \<Longrightarrow> ho_reader h r = ok ()"
  by (auto simp: validateSettlementRule_def split: if_splits)

lemma parseSettlementCapture_general:
  assumes "parseSettlementCapture (general_readers h rd) r c now = ok w" "is_general r"
  shows "validateReaderConfig h r = ok () \<and> (\<exists>raw. readGeneralRecord h r c = ok raw \<and> check_record r c raw = ok w)"
proof -
  let ?rd = "general_readers h rd"
  obtain u raw where v: "validateSettlementRule (rd_rules ?rd) r = ok u" "read_record ?rd r c = ok raw" "check_record r c raw = ok w"
    using assms(1) by (auto simp: parseSettlementCapture_def split: if_splits)
  have "rd_general ?rd = readGeneralRecord h" "ho_reader (rd_rules ?rd) = validateReaderConfig h" by (simp_all add: general_readers_def)
  then show ?thesis using validateSettlementRule_general [OF v(1) assms(2)] v(2,3) assms(2) by (simp add: read_record_def)
qed

lemma check_record_observed:
  "check_record r c (observed r i v t) = ok w \<Longrightarrow> t = JInt (so_publishedAt w) \<and> so_kind w = Initial \<and> so_value w = v
    \<and> i = JStr (so_id w) \<and> so_fetchedAt w = cp_fetchedAt c \<and> value_ok (dn_type (sl_decision r)) v"
  by (auto simp: check_record_def observed_def kind_of_def carries_value_def split: json.splits if_splits)

section \<open>Properties\<close>

text \<open>C15: a record the evaluator accepts from a general reader is exactly what that reader read under a configuration that passed
  its check: the value is the reader's and of the rule's type, and it is published when it was captured for a snapshot
  rule, and when the source says for any other.\<close>

theorem general_record_faithful:
  assumes "parseSettlementCapture (general_readers h rd) r c now = ok w" "is_general r"
  shows "validateReaderConfig h r = ok () \<and> (\<exists>v. read_general h r c = ok v \<and> so_value w = re_value v
    \<and> value_ok (dn_type (sl_decision r)) (re_value v) \<and> so_kind w = Initial
    \<and> (if sl_vintage r = First_snapshot then so_publishedAt w = cp_fetchedAt c \<and> so_id w = sl_adapter r @ '':'' @ cp_sha256 c
       else re_publishedAt v = Some (so_publishedAt w)))"
proof -
  obtain raw where raw: "validateReaderConfig h r = ok ()" "readGeneralRecord h r c = ok raw" "check_record r c raw = ok w"
    using parseSettlementCapture_general [OF assms] by blast
  obtain v where v: "read_general h r c = ok v" using raw(2) by (auto simp: readGeneralRecord_def)
  show ?thesis
  proof (cases "sl_vintage r = First_snapshot")
    case True
    then have "raw = observed r (JStr (sl_adapter r @ '':'' @ cp_sha256 c)) (re_value v) (JInt (cp_fetchedAt c))"
      using raw(2) v by (simp add: readGeneralRecord_def)
    then show ?thesis using True raw(1) v check_record_observed raw(3) by fastforce
  next
    case False
    then obtain t i where "re_publishedAt v = Some t" "raw = observed r i (re_value v) (JInt t)"
      using raw(2) v by (auto simp: readGeneralRecord_def split: option.splits)
    then show ?thesis using False raw(1) v check_record_observed raw(3) by fastforce
  qed
qed

lemma general_record_faithful_witness:
  "\<exists>w. parseSettlementCapture (general_readers (replaying_host demo_nonce) (demo_readers\<lparr>rd_digest := (\<lambda>b. ''digest'')\<rparr>)) demo_nonce short_capture 300 = ok w
    \<and> so_value w = JStr ''7'' \<and> so_publishedAt w = 200"
proof -
  let ?h = "replaying_host demo_nonce"
  have p: "(case parseSettlementCapture (general_readers ?h (demo_readers\<lparr>rd_digest := (\<lambda>b. ''digest'')\<rparr>)) demo_nonce short_capture 300 of Inr w \<Rightarrow> True | Inl _ \<Rightarrow> False)"
    "is_general demo_nonce" "read_general ?h demo_nonce short_capture = ok (reading_of (JStr ''7'') None)"
    "sl_vintage demo_nonce = First_snapshot" "cp_fetchedAt short_capture = 200" "re_value (reading_of (JStr ''7'') None) = JStr ''7''"
    by code_simp+
  then obtain w where w: "parseSettlementCapture (general_readers ?h (demo_readers\<lparr>rd_digest := (\<lambda>b. ''digest'')\<rparr>)) demo_nonce short_capture 300 = ok w"
    by (auto split: sum.splits)
  show ?thesis using general_record_faithful [OF w p(2)] p(3-6) w by auto
qed

end
