(* ===== verification/Indexer.thy ===== *)
theory Indexer
  imports Texts
begin

text \<open>
  The event indexer (packages/envio-indexer/src/handlers/Flurbo.ts). Every handler is a step on the entity
  tables; the listing table generated for Kuru markets is a parameter. Amounts are unbounded integers,
  as the code's are.
\<close>

section \<open>Events\<close>

record log_meta =
  le_address :: string
  le_block :: int
  le_timestamp :: int
  le_index :: int
  le_tx :: string

record claim_log =
  ct_owner :: string
  ct_scope :: int
  ct_mask :: int
  ct_quantity :: int

record kuru_log =
  kl_maker :: string
  kl_taker :: string
  kl_isBuy :: bool
  kl_price :: int
  kl_size :: int

datatype phase = Asserted | Disputed | Finalized | Delivered

datatype chain_event =
    Traded log_meta claim_log bool int
  | Redeemed log_meta claim_log int
  | Resolution log_meta phase "int option" "int option"
  | Wrapped log_meta claim_log bool
  | Kuru_trade log_meta kuru_log
  | Order_created log_meta
  | Order_canceled log_meta

section \<open>Entities\<close>

record pool_row =
  po_tradeCount :: nat
  po_volumeAtoms :: int
  po_redeemedAtoms :: int

record position_row =
  ps_pool :: string
  ps_trader :: string
  ps_costAtoms :: int
  ps_proceedsAtoms :: int
  ps_redeemedAtoms :: int
  ps_netCashflowAtoms :: int
  ps_tradeCount :: nat

datatype side = Side_buy | Side_sell | Side_redeem

record trade_row =
  tw_pool :: string
  tw_trader :: string
  tw_side :: side
  tw_scope :: int
  tw_mask :: int
  tw_quantityAtoms :: int
  tw_amountAtoms :: int
  tw_blockNumber :: int
  tw_timestamp :: int

record resolution_row =
  rr_resolver :: string
  rr_eventIndex :: "int option"
  rr_phase :: phase
  rr_outcome :: "int option"
  rr_blockNumber :: int
  rr_timestamp :: int

record receipt_row =
  rc_pool :: string
  rc_owner :: string
  rc_wrap :: bool
  rc_scope :: int
  rc_mask :: int
  rc_quantityAtoms :: int
  rc_blockNumber :: int
  rc_timestamp :: int
  rc_txHash :: string

record kuru_market_row =
  km_pool :: string
  km_eventIndex :: int
  km_fillCount :: nat
  km_baseVolumeAtoms :: int
  km_ordersCreated :: nat
  km_ordersCanceled :: nat
  km_lastPrice :: "int option"

record kuru_fill_row =
  kf_market :: string
  kf_maker :: string
  kf_taker :: string
  kf_isBuy :: bool
  kf_price :: int
  kf_sizeAtoms :: int
  kf_blockNumber :: int
  kf_timestamp :: int
  kf_txHash :: string

record tables =
  tb_pools :: "string \<rightharpoonup> pool_row"
  tb_positions :: "string \<rightharpoonup> position_row"
  tb_trades :: "string \<rightharpoonup> trade_row"
  tb_resolutions :: "string \<rightharpoonup> resolution_row"
  tb_receipts :: "string \<rightharpoonup> receipt_row"
  tb_markets :: "string \<rightharpoonup> kuru_market_row"
  tb_fills :: "string \<rightharpoonup> kuru_fill_row"

definition empty_tables :: tables where
  "empty_tables = \<lparr>tb_pools = Map.empty, tb_positions = Map.empty, tb_trades = Map.empty, tb_resolutions = Map.empty,
     tb_receipts = Map.empty, tb_markets = Map.empty, tb_fills = Map.empty\<rparr>"

section \<open>Handlers\<close>

definition event_id :: "log_meta \<Rightarrow> string" where
  "event_id m = le_address m @ ''-'' @ int_str (le_block m) @ ''-'' @ int_str (le_index m)"

definition position_id :: "string \<Rightarrow> string \<Rightarrow> string" where
  "position_id trader pool = trader @ ''-'' @ pool"

text \<open>\<open>getOrCreate\<close>.\<close>

definition pool_of :: "tables \<Rightarrow> string \<Rightarrow> pool_row" where
  "pool_of t p = (case tb_pools t p of Some r \<Rightarrow> r | None \<Rightarrow> \<lparr>po_tradeCount = 0, po_volumeAtoms = 0, po_redeemedAtoms = 0\<rparr>)"

definition position_of :: "tables \<Rightarrow> string \<Rightarrow> string \<Rightarrow> position_row" where
  "position_of t trader p = (case tb_positions t (position_id trader p) of Some r \<Rightarrow> r
     | None \<Rightarrow> \<lparr>ps_pool = p, ps_trader = trader, ps_costAtoms = 0, ps_proceedsAtoms = 0, ps_redeemedAtoms = 0,
         ps_netCashflowAtoms = 0, ps_tradeCount = 0\<rparr>)"

definition trade_of :: "log_meta \<Rightarrow> claim_log \<Rightarrow> side \<Rightarrow> int \<Rightarrow> trade_row" where
  "trade_of m c s amount = \<lparr>tw_pool = le_address m, tw_trader = ct_owner c, tw_side = s, tw_scope = ct_scope c, tw_mask = ct_mask c,
     tw_quantityAtoms = ct_quantity c, tw_amountAtoms = amount, tw_blockNumber = le_block m, tw_timestamp = le_timestamp m\<rparr>"

definition on_traded :: "log_meta \<Rightarrow> claim_log \<Rightarrow> bool \<Rightarrow> int \<Rightarrow> tables \<Rightarrow> tables" where
  "on_traded m c isBuy amount t =
     (let p = le_address m; trader = ct_owner c; pool = pool_of t p; position = position_of t trader p in
      t\<lparr>tb_pools := (tb_pools t)(p \<mapsto> pool\<lparr>po_tradeCount := po_tradeCount pool + 1, po_volumeAtoms := po_volumeAtoms pool + amount\<rparr>),
        tb_positions := (tb_positions t)(position_id trader p \<mapsto> position\<lparr>
          ps_costAtoms := ps_costAtoms position + (if isBuy then amount else 0),
          ps_proceedsAtoms := ps_proceedsAtoms position + (if isBuy then 0 else amount),
          ps_netCashflowAtoms := ps_netCashflowAtoms position + (if isBuy then - amount else amount),
          ps_tradeCount := ps_tradeCount position + 1\<rparr>),
        tb_trades := (tb_trades t)(event_id m \<mapsto> trade_of m c (if isBuy then Side_buy else Side_sell) amount)\<rparr>)"

definition on_redeemed :: "log_meta \<Rightarrow> claim_log \<Rightarrow> int \<Rightarrow> tables \<Rightarrow> tables" where
  "on_redeemed m c amount t =
     (let p = le_address m; trader = ct_owner c; pool = pool_of t p; position = position_of t trader p in
      t\<lparr>tb_pools := (tb_pools t)(p \<mapsto> pool\<lparr>po_redeemedAtoms := po_redeemedAtoms pool + amount\<rparr>),
        tb_positions := (tb_positions t)(position_id trader p \<mapsto> position\<lparr>
          ps_redeemedAtoms := ps_redeemedAtoms position + amount,
          ps_netCashflowAtoms := ps_netCashflowAtoms position + amount\<rparr>),
        tb_trades := (tb_trades t)(event_id m \<mapsto> trade_of m c Side_redeem amount)\<rparr>)"

definition on_resolution :: "log_meta \<Rightarrow> phase \<Rightarrow> int option \<Rightarrow> int option \<Rightarrow> tables \<Rightarrow> tables" where
  "on_resolution m ph i result t =
     t\<lparr>tb_resolutions := (tb_resolutions t)(event_id m \<mapsto> \<lparr>rr_resolver = le_address m, rr_eventIndex = (if ph = Delivered then None else i),
         rr_phase = ph, rr_outcome = (if ph = Delivered then None else result), rr_blockNumber = le_block m, rr_timestamp = le_timestamp m\<rparr>)\<rparr>"

definition on_wrapped :: "log_meta \<Rightarrow> claim_log \<Rightarrow> bool \<Rightarrow> tables \<Rightarrow> tables" where
  "on_wrapped m c wrap t =
     t\<lparr>tb_receipts := (tb_receipts t)(event_id m \<mapsto> \<lparr>rc_pool = le_address m, rc_owner = ct_owner c, rc_wrap = wrap, rc_scope = ct_scope c,
         rc_mask = ct_mask c, rc_quantityAtoms = ct_quantity c, rc_blockNumber = le_block m, rc_timestamp = le_timestamp m, rc_txHash = le_tx m\<rparr>)\<rparr>"

type_synonym listings = "string \<rightharpoonup> string \<times> int"

definition kuruMarket :: "listings \<Rightarrow> tables \<Rightarrow> string \<Rightarrow> kuru_market_row option" where
  "kuruMarket ls t m = (case ls m of
     None \<Rightarrow> None
   | Some (p, i) \<Rightarrow> Some (case tb_markets t m of Some r \<Rightarrow> r
       | None \<Rightarrow> \<lparr>km_pool = p, km_eventIndex = i, km_fillCount = 0, km_baseVolumeAtoms = 0, km_ordersCreated = 0, km_ordersCanceled = 0,
           km_lastPrice = None\<rparr>))"

definition on_kuru_trade :: "listings \<Rightarrow> log_meta \<Rightarrow> kuru_log \<Rightarrow> tables \<Rightarrow> tables" where
  "on_kuru_trade ls m k t = (case kuruMarket ls t (le_address m) of
     None \<Rightarrow> t
   | Some r \<Rightarrow> t\<lparr>tb_markets := (tb_markets t)(le_address m \<mapsto> r\<lparr>km_fillCount := km_fillCount r + 1,
         km_baseVolumeAtoms := km_baseVolumeAtoms r + kl_size k, km_lastPrice := Some (kl_price k)\<rparr>),
       tb_fills := (tb_fills t)(event_id m \<mapsto> \<lparr>kf_market = le_address m, kf_maker = kl_maker k, kf_taker = kl_taker k, kf_isBuy = kl_isBuy k,
         kf_price = kl_price k, kf_sizeAtoms = kl_size k, kf_blockNumber = le_block m, kf_timestamp = le_timestamp m, kf_txHash = le_tx m\<rparr>)\<rparr>)"

definition on_order_created :: "listings \<Rightarrow> log_meta \<Rightarrow> tables \<Rightarrow> tables" where
  "on_order_created ls m t = (case kuruMarket ls t (le_address m) of None \<Rightarrow> t
     | Some r \<Rightarrow> t\<lparr>tb_markets := (tb_markets t)(le_address m \<mapsto> r\<lparr>km_ordersCreated := km_ordersCreated r + 1\<rparr>)\<rparr>)"

definition on_order_canceled :: "listings \<Rightarrow> log_meta \<Rightarrow> tables \<Rightarrow> tables" where
  "on_order_canceled ls m t = (case kuruMarket ls t (le_address m) of None \<Rightarrow> t
     | Some r \<Rightarrow> t\<lparr>tb_markets := (tb_markets t)(le_address m \<mapsto> r\<lparr>km_ordersCanceled := km_ordersCanceled r + 1\<rparr>)\<rparr>)"

definition on_event :: "listings \<Rightarrow> chain_event \<Rightarrow> tables \<Rightarrow> tables" where
  "on_event ls e t = (case e of
     Traded m c b amount \<Rightarrow> on_traded m c b amount t
   | Redeemed m c amount \<Rightarrow> on_redeemed m c amount t
   | Resolution m ph i result \<Rightarrow> on_resolution m ph i result t
   | Wrapped m c w \<Rightarrow> on_wrapped m c w t
   | Kuru_trade m k \<Rightarrow> on_kuru_trade ls m k t
   | Order_created m \<Rightarrow> on_order_created ls m t
   | Order_canceled m \<Rightarrow> on_order_canceled ls m t)"

definition index_events :: "listings \<Rightarrow> chain_event list \<Rightarrow> tables" where
  "index_events ls es = fold (on_event ls) es empty_tables"

section \<open>What the events add up to\<close>

text \<open>Reference totals, read off the list of events.\<close>

fun pool_volume :: "string \<Rightarrow> chain_event \<Rightarrow> int" where
  "pool_volume p (Traded m c b amount) = (if le_address m = p then amount else 0)"
| "pool_volume p _ = 0"

fun pool_redeemed :: "string \<Rightarrow> chain_event \<Rightarrow> int" where
  "pool_redeemed p (Redeemed m c amount) = (if le_address m = p then amount else 0)"
| "pool_redeemed p _ = 0"

fun spent :: "string \<Rightarrow> string \<Rightarrow> chain_event \<Rightarrow> int" where
  "spent trader p (Traded m c b amount) = (if le_address m = p \<and> ct_owner c = trader \<and> b then amount else 0)"
| "spent trader p _ = 0"

fun received :: "string \<Rightarrow> string \<Rightarrow> chain_event \<Rightarrow> int" where
  "received trader p (Traded m c b amount) = (if le_address m = p \<and> ct_owner c = trader \<and> \<not> b then amount else 0)"
| "received trader p _ = 0"

fun paid_out :: "string \<Rightarrow> string \<Rightarrow> chain_event \<Rightarrow> int" where
  "paid_out trader p (Redeemed m c amount) = (if le_address m = p \<and> ct_owner c = trader then amount else 0)"
| "paid_out trader p _ = 0"

definition total_over :: "(chain_event \<Rightarrow> int) \<Rightarrow> chain_event list \<Rightarrow> int" where
  "total_over f es = sum_list (map f es)"

text \<open>Addresses have no dash, so a position's id names its trader and its pool.\<close>

fun dashless :: "chain_event \<Rightarrow> bool" where
  "dashless (Traded m c b amount) = (CHR ''-'' \<notin> set (ct_owner c))"
| "dashless (Redeemed m c amount) = (CHR ''-'' \<notin> set (ct_owner c))"
| "dashless _ = True"

lemma split_at_dash: "CHR ''-'' \<notin> set a \<Longrightarrow> CHR ''-'' \<notin> set b \<Longrightarrow> a @ CHR ''-'' # s = b @ CHR ''-'' # t \<Longrightarrow> a = b \<and> s = t"
proof (induction a arbitrary: b)
  case Nil
  then show ?case by (cases b) auto
next
  case (Cons x a)
  then show ?case by (cases b) auto
qed

lemma position_id_inject: "CHR ''-'' \<notin> set a \<Longrightarrow> CHR ''-'' \<notin> set b \<Longrightarrow> position_id a p = position_id b q \<longleftrightarrow> a = b \<and> p = q"
  using split_at_dash [of a b p q] by (auto simp: position_id_def)

lemmas handler_defs = on_traded_def on_redeemed_def on_resolution_def on_wrapped_def on_kuru_trade_def on_order_created_def
  on_order_canceled_def Let_def

lemma total_over_simps [simp]: "total_over f [] = 0" "total_over f (es @ [e]) = total_over f es + f e"
  by (simp_all add: total_over_def)

lemma index_events_snoc: "index_events ls (es @ [e]) = on_event ls e (index_events ls es)"
  by (simp add: index_events_def)

lemma pools_other: "tb_pools (on_event ls e t) = (case e of Traded m c b amount \<Rightarrow> tb_pools (on_traded m c b amount t)
    | Redeemed m c amount \<Rightarrow> tb_pools (on_redeemed m c amount t) | _ \<Rightarrow> tb_pools t)"
  by (auto simp: on_event_def handler_defs split: chain_event.splits option.splits)

lemma positions_other: "tb_positions (on_event ls e t) = (case e of Traded m c b amount \<Rightarrow> tb_positions (on_traded m c b amount t)
    | Redeemed m c amount \<Rightarrow> tb_positions (on_redeemed m c amount t) | _ \<Rightarrow> tb_positions t)"
  by (auto simp: on_event_def handler_defs split: chain_event.splits option.splits)

lemma pool_of_event: "pool_of (on_event ls e t) p = (pool_of t p)
    \<lparr>po_tradeCount := po_tradeCount (pool_of t p) + (case e of Traded m _ _ _ \<Rightarrow> if le_address m = p then 1 else 0 | _ \<Rightarrow> 0),
     po_volumeAtoms := po_volumeAtoms (pool_of t p) + pool_volume p e, po_redeemedAtoms := po_redeemedAtoms (pool_of t p) + pool_redeemed p e\<rparr>"
  by (cases e) (simp_all add: pool_of_def pools_other on_traded_def on_redeemed_def Let_def)

lemma position_of_event:
  assumes "dashless e" "CHR ''-'' \<notin> set trader"
  shows "position_of (on_event ls e t) trader p = (position_of t trader p)
    \<lparr>ps_costAtoms := ps_costAtoms (position_of t trader p) + spent trader p e,
     ps_proceedsAtoms := ps_proceedsAtoms (position_of t trader p) + received trader p e,
     ps_redeemedAtoms := ps_redeemedAtoms (position_of t trader p) + paid_out trader p e,
     ps_netCashflowAtoms := ps_netCashflowAtoms (position_of t trader p) + received trader p e + paid_out trader p e - spent trader p e,
     ps_tradeCount := ps_tradeCount (position_of t trader p)
       + (case e of Traded m c _ _ \<Rightarrow> if le_address m = p \<and> ct_owner c = trader then 1 else 0 | _ \<Rightarrow> 0)\<rparr>"
  using assms by (cases e) (auto simp: position_of_def positions_other on_traded_def on_redeemed_def Let_def position_id_inject)

section \<open>Properties\<close>

text \<open>C27: the indexed ledger is the sum of the events: a position's cost, proceeds and payouts are exactly what its trader spent,
  received and was paid in its pool, its net cash flow is what came in less what went out, and a pool's volume and
  payouts are the totals of its events.\<close>

theorem ledger_adds_up:
  assumes "list_all dashless es" "CHR ''-'' \<notin> set trader"
  shows "ps_costAtoms (position_of (index_events ls es) trader p) = total_over (spent trader p) es
    \<and> ps_proceedsAtoms (position_of (index_events ls es) trader p) = total_over (received trader p) es
    \<and> ps_redeemedAtoms (position_of (index_events ls es) trader p) = total_over (paid_out trader p) es
    \<and> ps_netCashflowAtoms (position_of (index_events ls es) trader p)
        = total_over (received trader p) es + total_over (paid_out trader p) es - total_over (spent trader p) es
    \<and> po_volumeAtoms (pool_of (index_events ls es) p) = total_over (pool_volume p) es
    \<and> po_redeemedAtoms (pool_of (index_events ls es) p) = total_over (pool_redeemed p) es"
  using assms(1)
proof (induction es rule: rev_induct)
  case Nil
  then show ?case by (simp add: index_events_def position_of_def pool_of_def empty_tables_def)
next
  case (snoc e es)
  then show ?case using assms(2) by (simp add: index_events_snoc pool_of_event position_of_event)
qed

definition demo_log :: "int \<Rightarrow> log_meta" where
  "demo_log i = \<lparr>le_address = ''0xp'', le_block = 7, le_timestamp = 70, le_index = i, le_tx = ''0xt''\<rparr>"

definition demo_owner :: claim_log where
  "demo_owner = \<lparr>ct_owner = ''0xa'', ct_scope = 1, ct_mask = 2, ct_quantity = 5\<rparr>"

lemma ledger_adds_up_witness:
  "ps_netCashflowAtoms (position_of (index_events Map.empty [Traded (demo_log 1) demo_owner True 30, Traded (demo_log 2) demo_owner False 12,
     Redeemed (demo_log 3) demo_owner 25]) ''0xa'' ''0xp'') = 7"
proof -
  let ?es = "[Traded (demo_log 1) demo_owner True 30, Traded (demo_log 2) demo_owner False 12, Redeemed (demo_log 3) demo_owner 25]"
  have "list_all dashless ?es" "CHR ''-'' \<notin> set ''0xa''" by (simp_all add: demo_owner_def)
  then have "ps_netCashflowAtoms (position_of (index_events Map.empty ?es) ''0xa'' ''0xp'')
    = total_over (received ''0xa'' ''0xp'') ?es + total_over (paid_out ''0xa'' ''0xp'') ?es - total_over (spent ''0xa'' ''0xp'') ?es"
    using ledger_adds_up [of ?es "''0xa''" Map.empty "''0xp''"] by blast
  then show ?thesis by (simp add: total_over_def demo_log_def demo_owner_def)
qed

end
