(* ===== verification/Agent_Store.thy ===== *)
theory Agent_Store
  imports Texts "HOL-Library.AList"
begin

text \<open>
  Agent persistence (apps/web/server/agents/agent-store.mjs): the state of an agent, its running totals, the
  verified ownership of on-chain transactions, and the one atomic write. The store is a map for each kind of
  key the templates build; a key carries its account's digest, so two accounts never share one. SHA-256 is a
  parameter. Amounts written as decimal strings are integers, and texts for people are left out.
\<close>

section \<open>Data\<close>

record reviewed_tx =
  rx_from :: string
  rx_to :: string
  rx_data :: string
  rx_chainId :: string
  rx_value :: string

text \<open>\<open>compactReview\<close>: what recovery keeps of a review.\<close>

record tx_review =
  rw_action :: string
  rw_amountAtoms :: int
  rw_expiresAt :: int
  rw_transaction :: reviewed_tx

record tracked =
  tk_hash :: string
  tk_action :: string
  tk_status :: string
  tk_review :: tx_review
  tk_statusBefore :: "string option"
  tk_blockNumber :: "int option"
  tk_paidAtoms :: "int option"
  tk_accounted :: bool
  tk_elsewhere :: bool

record agent_proposal =
  pr_id :: string
  pr_version :: int
  pr_updatedAt :: int
  pr_decisionId :: string
  pr_decision :: "json option"
  pr_account :: string
  pr_owner :: string
  pr_status :: string
  pr_reservedUntil :: "int option"
  pr_review :: "tx_review option"
  pr_reviews :: "tx_review list option"
  pr_superseded :: "tx_review list"
  pr_transactions :: "tracked list"

record agent_decision =
  dc_id :: string
  dc_decision :: json
  dc_paperFillId :: "string option"

record fill_claim =
  fc_chainId :: int
  fc_pool :: string
  fc_scope :: int
  fc_mask :: string

record agent_fill =
  fl_claim :: fill_claim
  fl_quantityAtoms :: int
  fl_costAtoms :: int
  fl_snapshotBlock :: int

record paper_record =
  pa_id :: string
  pa_decisionId :: string
  pa_fill :: agent_fill

record paper_claim =
  pk_claim :: fill_claim
  pk_quantityAtoms :: int
  pk_costAtoms :: int
  pk_fills :: nat
  pk_lastBlock :: int

record paper_totals =
  pt_fills :: nat
  pt_costAtoms :: int
  pt_claims :: "string \<rightharpoonup> paper_claim"
  pt_recent :: "paper_record list"
  pt_incomplete :: bool

record live_totals =
  lv_confirmedPurchases :: int
  lv_costAtoms :: int
  lv_unknownCost :: int
  lv_incomplete :: bool

record execution =
  ex_hash :: string
  ex_namespace :: string
  ex_action :: string
  ex_intent :: json
  ex_status :: string
  ex_collateralAtoms :: "int option"

record runtime_totals =
  rt_buys :: nat
  rt_buyCostAtoms :: int
  rt_sells :: nat
  rt_sellProceedsAtoms :: int
  rt_redemptions :: nat
  rt_redeemedAtoms :: int
  rt_approvals :: nat
  rt_reverted :: nat
  rt_mismatched :: nat
  rt_attributedElsewhere :: nat

record runtime_state =
  ru_decisions :: "json list"
  ru_executions :: "execution list"
  ru_totals :: runtime_totals

record agent_state =
  ag_ownership :: int
  ag_decisions :: "agent_decision list"
  ag_proposals :: "agent_proposal list"
  ag_paper :: paper_totals
  ag_live :: live_totals
  ag_runtime :: "runtime_state option"

definition OWNERSHIP :: int where
  "OWNERSHIP = 2"

definition LEGACY_CAP :: nat where
  "LEGACY_CAP = 100"

definition VERIFIED :: "string list" where
  "VERIFIED = [''confirmed'', ''reverted'']"

definition FINAL_EXECUTION :: "string list" where
  "FINAL_EXECUTION = [''confirmed'', ''reverted'', ''mismatch'', ''attributed-elsewhere'']"

definition emptyRuntime :: runtime_state where
  "emptyRuntime = \<lparr>ru_decisions = [], ru_executions = [], ru_totals = \<lparr>rt_buys = 0, rt_buyCostAtoms = 0, rt_sells = 0, rt_sellProceedsAtoms = 0,
     rt_redemptions = 0, rt_redeemedAtoms = 0, rt_approvals = 0, rt_reverted = 0, rt_mismatched = 0, rt_attributedElsewhere = 0\<rparr>\<rparr>"

definition emptyState :: agent_state where
  "emptyState = \<lparr>ag_ownership = OWNERSHIP, ag_decisions = [], ag_proposals = [],
     ag_paper = \<lparr>pt_fills = 0, pt_costAtoms = 0, pt_claims = Map.empty, pt_recent = [], pt_incomplete = False\<rparr>,
     ag_live = \<lparr>lv_confirmedPurchases = 0, lv_costAtoms = 0, lv_unknownCost = 0, lv_incomplete = False\<rparr>, ag_runtime = Some emptyRuntime\<rparr>"

definition transactionDigest :: "(string \<Rightarrow> string) \<Rightarrow> reviewed_tx \<Rightarrow> string" where
  "transactionDigest sha tx = sha (join_with ''|'' (map lower [rx_from tx, rx_to tx, rx_data tx, rx_chainId tx, rx_value tx]))"

section \<open>Totals\<close>

definition paperClaimKey :: "fill_claim \<Rightarrow> string" where
  "paperClaimKey c = int_str (fc_chainId c) @ '':'' @ fc_pool c @ '':'' @ int_str (fc_scope c) @ '':'' @ fc_mask c"

definition addPaperFill :: "paper_totals \<Rightarrow> agent_fill \<Rightarrow> paper_totals" where
  "addPaperFill paper f =
     (let key = paperClaimKey (fl_claim f);
          c = (case pt_claims paper key of Some c \<Rightarrow> c
               | None \<Rightarrow> \<lparr>pk_claim = fl_claim f, pk_quantityAtoms = 0, pk_costAtoms = 0, pk_fills = 0, pk_lastBlock = 0\<rparr>) in
      paper\<lparr>pt_claims := (pt_claims paper)(key \<mapsto> \<lparr>pk_claim = pk_claim c, pk_quantityAtoms = pk_quantityAtoms c + fl_quantityAtoms f,
              pk_costAtoms = pk_costAtoms c + fl_costAtoms f, pk_fills = pk_fills c + 1, pk_lastBlock = max (fl_snapshotBlock f) (pk_lastBlock c)\<rparr>),
            pt_fills := pt_fills paper + 1, pt_costAtoms := pt_costAtoms paper + fl_costAtoms f\<rparr>)"

definition addConfirmedPurchase :: "live_totals \<Rightarrow> tracked \<Rightarrow> tracked \<times> live_totals" where
  "addConfirmedPurchase live t =
     (if tk_accounted t then (t, live)
      else (t\<lparr>tk_accounted := True\<rparr>, (case tk_paidAtoms t of
         None \<Rightarrow> live\<lparr>lv_confirmedPurchases := lv_confirmedPurchases live + 1, lv_unknownCost := lv_unknownCost live + 1\<rparr>
       | Some a \<Rightarrow> live\<lparr>lv_confirmedPurchases := lv_confirmedPurchases live + 1, lv_costAtoms := lv_costAtoms live + a\<rparr>)))"

definition removeConfirmedPurchase :: "live_totals \<Rightarrow> tracked \<Rightarrow> tracked \<times> live_totals" where
  "removeConfirmedPurchase live t =
     (if \<not> tk_accounted t then (t, live)
      else (t\<lparr>tk_accounted := False\<rparr>, (case tk_paidAtoms t of
         None \<Rightarrow> live\<lparr>lv_confirmedPurchases := lv_confirmedPurchases live - 1, lv_unknownCost := lv_unknownCost live - 1\<rparr>
       | Some a \<Rightarrow> live\<lparr>lv_confirmedPurchases := lv_confirmedPurchases live - 1, lv_costAtoms := lv_costAtoms live - a\<rparr>)))"

definition ownsPurchase :: "agent_proposal \<Rightarrow> bool" where
  "ownsPurchase p = list_ex (\<lambda>t. tk_action t = ''buy'' \<and> tk_status t = ''confirmed'' \<and> \<not> tk_elsewhere t) (pr_transactions p)"

section \<open>Reading older states\<close>

definition add_review :: "(string \<Rightarrow> string) \<Rightarrow> tx_review list \<Rightarrow> tx_review \<Rightarrow> tx_review list" where
  "add_review sha out v =
     (if list_ex (\<lambda>x. transactionDigest sha (rw_transaction x) = transactionDigest sha (rw_transaction v)) out then out else out @ [v])"

definition reviewsOf :: "(string \<Rightarrow> string) \<Rightarrow> agent_proposal \<Rightarrow> tx_review list" where
  "reviewsOf sha p = foldl (add_review sha) []
     ((case pr_review p of None \<Rightarrow> [] | Some v \<Rightarrow> [v]) @ pr_superseded p @ map tk_review (pr_transactions p))"

definition normalize_proposal :: "(string \<Rightarrow> string) \<Rightarrow> agent_proposal \<Rightarrow> agent_proposal" where
  "normalize_proposal sha p = p\<lparr>pr_reviews := Some (case pr_reviews p of None \<Rightarrow> reviewsOf sha p | Some vs \<Rightarrow> vs), pr_superseded := []\<rparr>"

definition normalize :: "(string \<Rightarrow> string) \<Rightarrow> agent_state \<Rightarrow> agent_state" where
  "normalize sha s = s\<lparr>ag_proposals := map (normalize_proposal sha) (ag_proposals s),
     ag_runtime := Some (case ag_runtime s of None \<Rightarrow> emptyRuntime | Some r \<Rightarrow> r)\<rparr>"

text \<open>The records of the first store, newest first.\<close>

datatype legacy = Legacy_decision agent_decision | Legacy_paper paper_record | Legacy_proposal agent_proposal

fun legacy_decision :: "legacy \<Rightarrow> agent_decision option" where
  "legacy_decision (Legacy_decision d) = Some d"
| "legacy_decision _ = None"

fun legacy_paper :: "legacy \<Rightarrow> paper_record option" where
  "legacy_paper (Legacy_paper r) = Some r"
| "legacy_paper _ = None"

fun legacy_proposal :: "legacy \<Rightarrow> agent_proposal option" where
  "legacy_proposal (Legacy_proposal p) = Some p"
| "legacy_proposal _ = None"

text \<open>The first decision with the id is the one \<open>find\<close> returns, and the one that is marked.\<close>

fun mark_filled :: "paper_record \<Rightarrow> agent_decision list \<Rightarrow> agent_decision list" where
  "mark_filled r [] = []"
| "mark_filled r (d # ds) = (if dc_id d = pa_decisionId r then d\<lparr>dc_paperFillId := Some (pa_id r)\<rparr> # ds else d # mark_filled r ds)"

fun account_transactions :: "bool \<Rightarrow> live_totals \<Rightarrow> tracked list \<Rightarrow> tracked list \<times> live_totals" where
  "account_transactions confirmed live [] = ([], live)"
| "account_transactions confirmed live (t # ts) =
     (let (t', live') = (if confirmed \<and> tk_action t = ''buy'' \<and> tk_status t = ''confirmed'' then addConfirmedPurchase live t else (t, live));
          (ts', live'') = account_transactions confirmed live' ts in (t' # ts', live''))"

fun account_proposals :: "agent_decision list \<Rightarrow> live_totals \<Rightarrow> agent_proposal list \<Rightarrow> agent_proposal list \<times> live_totals" where
  "account_proposals ds live [] = ([], live)"
| "account_proposals ds live (p # ps) =
     (let (ts, live') = account_transactions (pr_status p = ''confirmed'') live (pr_transactions p);
          source = (case find (\<lambda>d. dc_id d = pr_decisionId p) ds of None \<Rightarrow> None | Some d \<Rightarrow> Some (dc_decision d));
          (ps', live'') = account_proposals ds live' ps in
      (p\<lparr>pr_decision := or_else (pr_decision p) source, pr_transactions := ts\<rparr> # ps', live''))"

definition migrateLegacy :: "legacy list \<Rightarrow> agent_state" where
  "migrateLegacy records =
     (let decisions = List.map_filter legacy_decision records; papers = List.map_filter legacy_paper records;
          marked = foldl (\<lambda>ds r. mark_filled r ds) decisions papers;
          paper = foldl (\<lambda>t r. addPaperFill t (pa_fill r)) (ag_paper emptyState) (rev papers);
          (proposals, live) = account_proposals marked (ag_live emptyState) (List.map_filter legacy_proposal records);
          full = (length records \<ge> LEGACY_CAP) in
      emptyState\<lparr>ag_ownership := 0, ag_decisions := marked, ag_proposals := proposals,
        ag_paper := paper\<lparr>pt_recent := papers, pt_incomplete := full\<rparr>, ag_live := live\<lparr>lv_incomplete := full\<rparr>\<rparr>)"

section \<open>What is kept\<close>

fun keep_executions :: "nat \<Rightarrow> execution list \<Rightarrow> execution list" where
  "keep_executions n [] = []"
| "keep_executions n (e # es) =
     (if \<not> List.member FINAL_EXECUTION (ex_status e) then e # keep_executions n es
      else if n < 500 then e # keep_executions (Suc n) es else keep_executions (Suc n) es)"

fun keep_proposals :: "(agent_proposal \<Rightarrow> bool) \<Rightarrow> nat \<Rightarrow> agent_proposal list \<Rightarrow> agent_proposal list" where
  "keep_proposals unresolved n [] = []"
| "keep_proposals unresolved n (p # ps) =
     (if unresolved p then p # keep_proposals unresolved n ps
      else if n < 50 then p # keep_proposals unresolved (Suc n) ps
      else if pr_reviews p = Some [] then keep_proposals unresolved (Suc n) ps
      else p\<lparr>pr_decision := None\<rparr> # keep_proposals unresolved (Suc n) ps)"

definition retain_runtime :: "runtime_state \<Rightarrow> runtime_state" where
  "retain_runtime r = r\<lparr>ru_decisions := take 100 (ru_decisions r), ru_executions := keep_executions 0 (ru_executions r)\<rparr>"

definition retain :: "(agent_proposal \<Rightarrow> bool) \<Rightarrow> agent_state \<Rightarrow> agent_state" where
  "retain unresolved s = s\<lparr>ag_decisions := take 100 (ag_decisions s),
     ag_paper := (ag_paper s)\<lparr>pt_recent := take 100 (pt_recent (ag_paper s))\<rparr>,
     ag_runtime := map_option retain_runtime (ag_runtime s),
     ag_proposals := keep_proposals unresolved 0 (ag_proposals s)\<rparr>"

section \<open>Ownership\<close>

type_synonym agent_key = "string \<times> string"

record owner_value =
  ow_owner :: string
  ow_agentId :: string
  ow_proposalId :: string
  ow_transaction :: string

text \<open>The reads and claims of one change; \<open>on_found\<close> is what the store answered for a hash when it was asked.\<close>

record ownership =
  on_key :: agent_key
  on_found :: "string \<rightharpoonup> owner_value"
  on_claims :: "(string \<times> owner_value) list"

definition value_for :: "agent_key \<Rightarrow> string \<Rightarrow> string \<Rightarrow> owner_value" where
  "value_for k proposalId digest = \<lparr>ow_owner = fst k, ow_agentId = snd k, ow_proposalId = proposalId, ow_transaction = digest\<rparr>"

definition own_read :: "ownership \<Rightarrow> string \<Rightarrow> owner_value option" where
  "own_read own h = (case map_of (on_claims own) (lower h) of Some v \<Rightarrow> Some v | None \<Rightarrow> on_found own (lower h))"

definition own_owns :: "ownership \<Rightarrow> owner_value \<Rightarrow> string \<Rightarrow> string \<Rightarrow> bool" where
  "own_owns own v proposalId digest = (v = value_for (on_key own) proposalId digest)"

definition own_claim :: "ownership \<Rightarrow> string \<Rightarrow> string \<Rightarrow> string \<Rightarrow> ownership" where
  "own_claim own h proposalId digest =
     own\<lparr>on_claims := AList.update (lower h) (value_for (on_key own) proposalId digest) (on_claims own)\<rparr>"

definition reconcile_tx :: "(string \<Rightarrow> string) \<Rightarrow> string \<Rightarrow> live_totals \<times> ownership \<Rightarrow> tracked \<Rightarrow> tracked \<times> live_totals \<times> ownership" where
  "reconcile_tx sha proposalId = (\<lambda>(live, own) t.
     if \<not> List.member VERIFIED (tk_status t) \<or> tk_elsewhere t then (t, live, own)
     else let digest = transactionDigest sha (rw_transaction (tk_review t)) in
       (case own_read own (tk_hash t) of
         None \<Rightarrow> (t, live, own_claim own (tk_hash t) proposalId digest)
       | Some v \<Rightarrow> if own_owns own v proposalId digest then (t, live, own)
           else let (t', live') = removeConfirmedPurchase live t in (t'\<lparr>tk_elsewhere := True\<rparr>, live', own)))"

fun reconcile_txs :: "(string \<Rightarrow> string) \<Rightarrow> string \<Rightarrow> live_totals \<times> ownership \<Rightarrow> tracked list \<Rightarrow> tracked list \<times> live_totals \<times> ownership" where
  "reconcile_txs sha i a [] = ([], a)"
| "reconcile_txs sha i a (t # ts) = (let (t', a') = reconcile_tx sha i a t; (ts', a'') = reconcile_txs sha i a' ts in (t' # ts', a''))"

definition reconcile_status :: "agent_proposal \<Rightarrow> agent_proposal" where
  "reconcile_status p = (if pr_status p = ''confirmed'' \<and> \<not> ownsPurchase p then p\<lparr>pr_status := ''attributed-elsewhere''\<rparr> else p)"

fun reconcile_proposals :: "(string \<Rightarrow> string) \<Rightarrow> live_totals \<times> ownership \<Rightarrow> agent_proposal list \<Rightarrow> agent_proposal list \<times> live_totals \<times> ownership" where
  "reconcile_proposals sha a [] = ([], a)"
| "reconcile_proposals sha a (p # ps) =
     (let (ts, a') = reconcile_txs sha (pr_id p) a (pr_transactions p); (ps', a'') = reconcile_proposals sha a' ps in
      (reconcile_status (p\<lparr>pr_transactions := ts\<rparr>) # ps', a''))"

definition reconcile :: "(string \<Rightarrow> string) \<Rightarrow> agent_state \<Rightarrow> ownership \<Rightarrow> agent_state \<times> ownership" where
  "reconcile sha s own = (let (ps, live, own') = reconcile_proposals sha (ag_live s, own) (ag_proposals s) in
     (s\<lparr>ag_proposals := ps, ag_live := live, ag_ownership := OWNERSHIP\<rparr>, own'))"

end
