(* ===== verification/Agent_Backend.thy ===== *)
theory Agent_Backend
  imports Agent_Store
begin

text \<open>
  The agent store itself (apps/web/server/agents/agent-store.mjs): the atomic write that compares the
  revision and every ownership record, changes that are re-run when another server wins, and the account's
  operations on profiles, credentials and wallets. An operation that holds the account's lock is one step;
  a change to an agent's state reads, computes and writes in separate steps, since the lock may have lapsed.
\<close>

section \<open>The store\<close>

record wallet_period =
  wp_address :: string
  wp_from :: int
  wp_until :: "int option"

record agent_profile =
  pf_id :: string
  pf_status :: string
  pf_archivedAt :: "int option"
  pf_updatedAt :: int
  pf_wallet :: "string option"
  pf_walletHistory :: "wallet_period list"

record agent_credential =
  ac_credentialId :: string
  ac_secretSha256 :: string
  ac_owner :: string
  ac_agentId :: string
  ac_expiresAt :: int
  ac_revokedAt :: "int option"
  ac_lastUsedAt :: "int option"

record store =
  so_states :: "agent_key \<rightharpoonup> agent_state"
  so_revs :: "agent_key \<Rightarrow> nat"
  so_legacy :: "agent_key \<rightharpoonup> legacy list"
  so_owners :: "string \<rightharpoonup> owner_value"
  so_profiles :: "agent_key \<rightharpoonup> agent_profile"
  so_index :: "string \<Rightarrow> string list"
  so_archived :: "string \<Rightarrow> string list"
  so_wallets :: "string \<rightharpoonup> agent_key"
  so_linked :: "string list"
  so_credentials :: "string \<rightharpoonup> agent_credential"
  so_used :: "string \<rightharpoonup> int"
  so_credentialIds :: "agent_key \<Rightarrow> string list"

text \<open>\<open>/^[0-9a-f-]{36}$/\<close> and \<open>/^0x[0-9a-f]{40}$/\<close> of the lower-case text.\<close>

definition validId :: "string \<Rightarrow> bool" where
  "validId i = chars (\<lambda>c. is_lhex c \<or> c = CHR ''-'') 36 36 i"

definition accountDigest :: "(string \<Rightarrow> string) \<Rightarrow> string \<Rightarrow> string res" where
  "accountDigest sha account = (if is_0x_hex 40 (lower account) \<and> list_all is_lhex (drop 2 (lower account)) then ok (sha (lower account)) else plain_error)"

section \<open>The atomic write\<close>

datatype saved = Saved | Revision_changed | Ownership_conflict

definition owned_elsewhere :: "store \<Rightarrow> string \<times> owner_value \<Rightarrow> bool" where
  "owned_elsewhere s = (\<lambda>(h, v). case so_owners s h of None \<Rightarrow> False | Some w \<Rightarrow> w \<noteq> v)"

definition set_new :: "('k \<times> 'v) list \<Rightarrow> ('k \<rightharpoonup> 'v) \<Rightarrow> ('k \<rightharpoonup> 'v)" where
  "set_new owned m = foldl (\<lambda>m (h, v). if m h = None then m(h \<mapsto> v) else m) m owned"

definition save :: "agent_key \<Rightarrow> nat \<Rightarrow> agent_state \<Rightarrow> (string \<times> owner_value) list \<Rightarrow> store \<Rightarrow> saved \<times> store" where
  "save k expected value owned s =
     (if so_revs s k \<noteq> expected then (Revision_changed, s)
      else if list_ex (owned_elsewhere s) owned then (Ownership_conflict, s)
      else (Saved, s\<lparr>so_owners := set_new owned (so_owners s), so_states := (so_states s)(k \<mapsto> value),
        so_revs := (so_revs s)(k := expected + 1)\<rparr>))"

definition commit :: "(agent_proposal \<Rightarrow> bool) \<Rightarrow> agent_key \<Rightarrow> nat \<Rightarrow> agent_state \<Rightarrow> ownership \<Rightarrow> store \<Rightarrow> saved \<times> store" where
  "commit unresolved k revision st own s = (case save k revision (retain unresolved st) (on_claims own) s of
     (Saved, s') \<Rightarrow> (Saved, s'\<lparr>so_legacy := (so_legacy s')(k := None)\<rparr>)
   | (r, s') \<Rightarrow> (r, s'))"

section \<open>Changes\<close>

definition readState :: "(string \<Rightarrow> string) \<Rightarrow> store \<Rightarrow> agent_key \<Rightarrow> nat \<times> agent_state" where
  "readState sha s k = (so_revs s k, (case so_states s k of
     Some st \<Rightarrow> normalize sha st
   | None \<Rightarrow> (case so_legacy s k of Some l \<Rightarrow> normalize sha (migrateLegacy l) | None \<Rightarrow> emptyState)))"

type_synonym 'r change = "agent_state \<Rightarrow> agent_profile \<Rightarrow> ownership \<Rightarrow> (agent_state \<times> ownership \<times> 'r) res"

text \<open>What a change computes from the state it read; \<open>found\<close> is what it was told of each hash's owner.\<close>

definition compute :: "(string \<Rightarrow> string) \<Rightarrow> 'r change \<Rightarrow> agent_key \<Rightarrow> agent_profile \<Rightarrow> (string \<rightharpoonup> owner_value) \<Rightarrow> agent_state
    \<Rightarrow> (agent_state \<times> ownership \<times> 'r) res" where
  "compute sha change k profile found st =
     (let own = \<lparr>on_key = k, on_found = found, on_claims = []\<rparr>;
          (st', own') = (if ag_ownership st < OWNERSHIP then reconcile sha st own else (st, own)) in
      change st' profile own')"

datatype 'r outcome = Missing | Thrown js_error | Raced | Busy | Changed 'r

text \<open>One attempt: what it read, and the store it writes to.\<close>

definition attempt :: "(string \<Rightarrow> string) \<Rightarrow> (agent_proposal \<Rightarrow> bool) \<Rightarrow> 'r change \<Rightarrow> agent_key \<Rightarrow> store \<Rightarrow> (string \<rightharpoonup> owner_value) \<Rightarrow> store
    \<Rightarrow> 'r outcome \<times> store" where
  "attempt sha unresolved change k earlier found s = (case so_profiles earlier k of
     None \<Rightarrow> (Missing, s)
   | Some profile \<Rightarrow> (let (revision, st) = readState sha earlier k in
       case compute sha change k profile found st of
         Inl e \<Rightarrow> (Thrown e, s)
       | Inr (st', own, r) \<Rightarrow> (case commit unresolved k revision st' own s of
           (Saved, s') \<Rightarrow> (Changed r, s')
         | (Ownership_conflict, s') \<Rightarrow> (Raced, s')
         | (Revision_changed, s') \<Rightarrow> (Busy, s'))))"

text \<open>
  \<open>mutate\<close>: a change that lost an ownership race is re-run, three times at most; \<open>world n\<close> is what attempt
  \<open>n\<close> reads, is told, and writes to.
\<close>

function mutate_from :: "(string \<Rightarrow> string) \<Rightarrow> (agent_proposal \<Rightarrow> bool) \<Rightarrow> 'r change \<Rightarrow> agent_key
    \<Rightarrow> (nat \<Rightarrow> store \<times> (string \<rightharpoonup> owner_value) \<times> store) \<Rightarrow> nat \<Rightarrow> 'r outcome \<times> store" where
  "mutate_from sha unresolved change k world n =
     (let (earlier, found, s) = world n; (r, s') = attempt sha unresolved change k earlier found s in
      if r = Raced \<and> n < 3 then mutate_from sha unresolved change k world (n + 1) else (r, s'))"
  by pat_completeness auto
termination by (relation "measure (\<lambda>(_, _, _, _, _, n). 3 - n)") auto

declare mutate_from.simps [simp del]

definition mutate :: "(string \<Rightarrow> string) \<Rightarrow> (agent_proposal \<Rightarrow> bool) \<Rightarrow> 'r change \<Rightarrow> agent_key
    \<Rightarrow> (nat \<Rightarrow> store \<times> (string \<rightharpoonup> owner_value) \<times> store) \<Rightarrow> 'r outcome \<times> store" where
  "mutate sha unresolved change k world =
     (if \<not> validId (snd k) then (Missing, snd (snd (world 1))) else mutate_from sha unresolved change k world 1)"

section \<open>Profiles\<close>

definition listed_agents :: "store \<Rightarrow> string \<Rightarrow> agent_profile list" where
  "listed_agents s owner = List.map_filter (\<lambda>i. so_profiles s (owner, i)) (so_index s owner)"

definition create_agent :: "string \<Rightarrow> agent_profile \<Rightarrow> string \<Rightarrow> store \<Rightarrow> (agent_profile \<times> store) res" where
  "create_agent owner profile i s =
     (if length (so_index s owner) \<ge> 10 then Inl (Other_error ''AGENT_LIMIT'')
      else if length (so_index s owner) + length (so_archived s owner) \<ge> 50 then Inl (Other_error ''AGENT_LIMIT'')
      else let saved = profile\<lparr>pf_id := i\<rparr> in
        ok (saved, s\<lparr>so_profiles := (so_profiles s)((owner, i) \<mapsto> saved), so_index := (so_index s)(owner := so_index s owner @ [i])\<rparr>))"

definition update_agent :: "string \<Rightarrow> string \<Rightarrow> (agent_profile \<Rightarrow> agent_profile res) \<Rightarrow> store \<Rightarrow> (agent_profile option \<times> store) res" where
  "update_agent owner i change s = (case (if validId i then so_profiles s (owner, i) else None) of
     None \<Rightarrow> ok (None, s)
   | Some p \<Rightarrow> bindE (change p) (\<lambda>p'. ok (Some p', s\<lparr>so_profiles := (so_profiles s)((owner, i) \<mapsto> p')\<rparr>)))"

definition close_periods :: "int \<Rightarrow> wallet_period list \<Rightarrow> wallet_period list" where
  "close_periods now ws = map (\<lambda>w. if wp_until w = None then w\<lparr>wp_until := Some now\<rparr> else w) ws"

text \<open>\<open>claimKeyUnless\<close> and \<open>releaseKey\<close>.\<close>

datatype key_claim = Claimed | Held | Blocked

definition claim_wallet :: "string \<Rightarrow> agent_key \<Rightarrow> bool \<Rightarrow> store \<Rightarrow> key_claim \<times> store" where
  "claim_wallet wallet k check_linked s =
     (if check_linked \<and> List.member (so_linked s) wallet then (Blocked, s)
      else if so_wallets s wallet \<noteq> None \<and> so_wallets s wallet \<noteq> Some k then (Held, s)
      else (Claimed, s\<lparr>so_wallets := (so_wallets s)(wallet \<mapsto> k)\<rparr>))"

definition release_wallet :: "string option \<Rightarrow> agent_key \<Rightarrow> store \<Rightarrow> store" where
  "release_wallet wallet k s = (case wallet of None \<Rightarrow> s
     | Some w \<Rightarrow> if so_wallets s w = Some k then s\<lparr>so_wallets := (so_wallets s)(w := None)\<rparr> else s)"

definition archive_agent :: "string \<Rightarrow> string \<Rightarrow> int \<Rightarrow> store \<Rightarrow> bool \<times> store" where
  "archive_agent owner i now s = (case (if validId i \<and> List.member (so_index s owner) i then so_profiles s (owner, i) else None) of
     None \<Rightarrow> (False, s)
   | Some p \<Rightarrow> (let s' = release_wallet (pf_wallet p) (owner, i) s in
       (True, s'\<lparr>so_profiles := (so_profiles s')((owner, i) \<mapsto> p\<lparr>pf_status := ''archived'', pf_archivedAt := Some now, pf_updatedAt := now,
             pf_wallet := None, pf_walletHistory := close_periods now (pf_walletHistory p)\<rparr>),
           so_archived := (so_archived s')(owner := so_archived s' owner @ [i]),
           so_index := (so_index s')(owner := filter (\<lambda>x. x \<noteq> i) (so_index s' owner))\<rparr>)))"

text \<open>The second part of archiving: the feed is cleared, the rest is kept.\<close>

definition clear_feed :: "unit change" where
  "clear_feed st profile own = ok (st\<lparr>ag_decisions := [], ag_paper := (ag_paper st)\<lparr>pt_recent := []\<rparr>\<rparr>, own, ())"

section \<open>Credentials\<close>

definition is_live :: "int \<Rightarrow> agent_credential \<Rightarrow> bool" where
  "is_live now c = (ac_revokedAt c = None \<and> ac_expiresAt c > now)"

definition issueCredential :: "agent_key \<Rightarrow> agent_credential \<Rightarrow> int \<Rightarrow> store \<Rightarrow> (agent_credential option \<times> store) res" where
  "issueCredential k c now s = (case (if validId (snd k) then so_profiles s k else None) of
     None \<Rightarrow> ok (None, s)
   | Some p \<Rightarrow>
       (if pf_status p = ''archived'' then Inl (Other_error ''AGENT_ARCHIVED'')
        else if length (filter (is_live now) (List.map_filter (so_credentials s) (so_credentialIds s k))) \<ge> 5
          then Inl (Other_error ''CREDENTIAL_LIMIT'')
        else let saved = c\<lparr>ac_owner := fst k, ac_agentId := snd k\<rparr> in
          ok (Some saved, s\<lparr>so_credentials := (so_credentials s)(ac_credentialId c \<mapsto> saved),
            so_credentialIds := (so_credentialIds s)(k := so_credentialIds s k @ [ac_credentialId c])\<rparr>)))"

definition withLastUse :: "int option \<Rightarrow> agent_credential \<Rightarrow> agent_credential" where
  "withLastUse used c = (let t = max (case ac_lastUsedAt c of None \<Rightarrow> 0 | Some t \<Rightarrow> t) (case used of None \<Rightarrow> 0 | Some t \<Rightarrow> t) in
     c\<lparr>ac_lastUsedAt := (if t = 0 then None else Some t)\<rparr>)"

definition credential_id :: "string \<Rightarrow> bool" where
  "credential_id i = chars is_lhex 16 16 i"

definition credentialOf :: "store \<Rightarrow> string \<Rightarrow> agent_credential option" where
  "credentialOf s i = (if credential_id i then map_option (withLastUse (so_used s i)) (so_credentials s i) else None)"

definition credentials_of :: "store \<Rightarrow> agent_key \<Rightarrow> agent_credential list" where
  "credentials_of s k = (if validId (snd k)
     then filter (\<lambda>c. ac_owner c = fst k \<and> ac_agentId c = snd k) (List.map_filter (credentialOf s) (so_credentialIds s k)) else [])"

definition revokeCredential :: "agent_key \<Rightarrow> string \<Rightarrow> int \<Rightarrow> store \<Rightarrow> agent_credential option \<times> store" where
  "revokeCredential k i now s = (case (if validId (snd k) \<and> credential_id i then so_credentials s i else None) of
     None \<Rightarrow> (None, s)
   | Some c \<Rightarrow>
       (if ac_owner c \<noteq> fst k \<or> ac_agentId c \<noteq> snd k then (None, s)
        else if ac_revokedAt c \<noteq> None then (Some (withLastUse (so_used s i) c), s)
        else let c' = c\<lparr>ac_revokedAt := Some now\<rparr> in
          (Some (withLastUse (so_used s i) c'), s\<lparr>so_credentials := (so_credentials s)(i \<mapsto> c')\<rparr>)))"

text \<open>\<open>raise\<close>: the last use only grows, and the credential itself is never written.\<close>

definition touchCredential :: "string \<Rightarrow> int \<Rightarrow> store \<Rightarrow> store" where
  "touchCredential i now s = (if credential_id i \<and> now > (case so_used s i of None \<Rightarrow> 0 | Some t \<Rightarrow> t)
     then s\<lparr>so_used := (so_used s)(i \<mapsto> now)\<rparr> else s)"

section \<open>Wallets\<close>

definition associateWallet :: "agent_key \<Rightarrow> string \<Rightarrow> int \<Rightarrow> bool \<Rightarrow> store \<Rightarrow> (agent_profile option \<times> store) res" where
  "associateWallet k address now check_linked s =
     (let wallet = lower address in
      case (if validId (snd k) then so_profiles s k else None) of
        None \<Rightarrow> ok (None, s)
      | Some p \<Rightarrow>
          (if pf_status p = ''archived'' then Inl (Other_error ''AGENT_ARCHIVED'')
           else if pf_wallet p = Some wallet then ok (Some p, s)
           else (case claim_wallet wallet k check_linked s of
             (Blocked, _) \<Rightarrow> Inl (Other_error ''WALLET_LINKED'')
           | (Held, _) \<Rightarrow> Inl (Other_error ''WALLET_IN_USE'')
           | (Claimed, s') \<Rightarrow>
               (let s'' = release_wallet (pf_wallet p) k s';
                    p' = p\<lparr>pf_wallet := Some wallet, pf_updatedAt := now, pf_walletHistory := close_periods now (pf_walletHistory p)
                      @ [\<lparr>wp_address = wallet, wp_from = now, wp_until = None\<rparr>]\<rparr> in
                ok (Some p', s''\<lparr>so_profiles := (so_profiles s'')(k \<mapsto> p')\<rparr>)))))"

text \<open>Evaluations are counted in hours; the count already includes this one.\<close>

definition allowEvaluation :: "int \<Rightarrow> bool" where
  "allowEvaluation evaluations = (evaluations \<le> 30)"

end
