(* ===== verification/Agent_Tracking.thy ===== *)
theory Agent_Tracking
  imports Agent_Backend
begin

text \<open>
  The changes agents make to their state: a proposal's life from reservation to a verified receipt
  (\<open>propose\<close> and \<open>track\<close> in apps/web/server/agents/agent-api.mjs) and an execution a runtime reported
  (\<open>checkExecution\<close> and \<open>reportExecution\<close> in runtime-api.mjs). What the receipt check found is a value; what
  a change answers, other than an error, is left out.
\<close>

section \<open>Proposals\<close>

definition RESERVATION_SECONDS :: int where
  "RESERVATION_SECONDS = 60"

definition PROPOSAL_TTL_SECONDS :: int where
  "PROPOSAL_TTL_SECONDS = 300"

definition RECOVERY_SECONDS :: int where
  "RECOVERY_SECONDS = 86400"

definition hasSubmitted :: "agent_proposal \<Rightarrow> bool" where
  "hasSubmitted p = list_ex (\<lambda>t. tk_status t = ''submitted'') (pr_transactions p)"

definition reserving :: "int \<Rightarrow> agent_proposal \<Rightarrow> bool" where
  "reserving now p = (pr_status p = ''preparing'' \<and> (case pr_reservedUntil p of None \<Rightarrow> False | Some t \<Rightarrow> now < t))"

definition LIVE :: "string list" where
  "LIVE = [''awaiting-approval'', ''submitted'', ''approval-confirmed'', ''confirmed'']"

definition blocksDecision :: "int \<Rightarrow> agent_proposal \<Rightarrow> bool" where
  "blocksDecision now p = (reserving now p \<or> List.member LIVE (pr_status p))"

definition quote_expiry :: "json option \<Rightarrow> int" where
  "quote_expiry d = (case d of None \<Rightarrow> 0 | Some v \<Rightarrow>
     if is_record (jget v ''proposal'') then jint_val (jget (jget v ''proposal'') ''quoteExpiresAt'') + PROPOSAL_TTL_SECONDS else 0)"

definition decisionDeadline :: "agent_proposal \<Rightarrow> int" where
  "decisionDeadline p = max (quote_expiry (pr_decision p)) (case pr_review p of None \<Rightarrow> 0 | Some v \<Rightarrow> rw_expiresAt v)"

definition unresolvedProposal :: "int \<Rightarrow> agent_proposal \<Rightarrow> bool" where
  "unresolvedProposal now p = (reserving now p \<or> hasSubmitted p
     \<or> List.member [''awaiting-approval'', ''approval-confirmed''] (pr_status p) \<and> now < decisionDeadline p + RECOVERY_SECONDS)"

definition reviews_of :: "agent_proposal \<Rightarrow> tx_review list" where
  "reviews_of p = (case pr_reviews p of None \<Rightarrow> [] | Some vs \<Rightarrow> vs)"

definition reviewCount :: "agent_state \<Rightarrow> nat" where
  "reviewCount st = sum_list (map (\<lambda>p. length (reviews_of p)) (ag_proposals st))"

definition hasReview :: "(string \<Rightarrow> string) \<Rightarrow> agent_proposal \<Rightarrow> tx_review \<Rightarrow> bool" where
  "hasReview sha p v = list_ex (\<lambda>w. transactionDigest sha (rw_transaction w) = transactionDigest sha (rw_transaction v)) (reviews_of p)"

text \<open>The first proposal with the id is edited in place.\<close>

fun edit_proposal :: "string \<Rightarrow> (agent_proposal \<Rightarrow> agent_proposal) \<Rightarrow> agent_proposal list \<Rightarrow> agent_proposal list" where
  "edit_proposal i f [] = []"
| "edit_proposal i f (p # ps) = (if pr_id p = i then f p # ps else p # edit_proposal i f ps)"

definition find_proposal :: "string \<Rightarrow> agent_state \<Rightarrow> agent_proposal option" where
  "find_proposal i st = find (\<lambda>p. pr_id p = i) (ag_proposals st)"

definition edited :: "string \<Rightarrow> (agent_proposal \<Rightarrow> agent_proposal) \<Rightarrow> agent_state \<Rightarrow> agent_state" where
  "edited i f st = st\<lparr>ag_proposals := edit_proposal i f (ag_proposals st)\<rparr>"

definition bumped :: "int \<Rightarrow> agent_proposal \<Rightarrow> agent_proposal" where
  "bumped now p = p\<lparr>pr_version := pr_version p + 1, pr_updatedAt := now\<rparr>"

text \<open>What a decision reads as: whether it proposes, and until when its quote is good.\<close>

type_synonym decode = "json \<Rightarrow> (bool \<times> int) res"

definition expire_reservation :: "int \<Rightarrow> agent_proposal \<Rightarrow> agent_proposal" where
  "expire_reservation now p = (if pr_status p = ''preparing'' \<and> \<not> reserving now p
     then bumped now (p\<lparr>pr_status := ''preparation-expired'', pr_reservedUntil := None\<rparr>) else p)"

definition reserve_change :: "decode \<Rightarrow> int \<Rightarrow> string \<Rightarrow> string \<Rightarrow> string \<Rightarrow> string \<Rightarrow> agent_proposal change" where
  "reserve_change decode now account owner i decisionId st profile own =
     (case find (\<lambda>d. dc_id d = decisionId) (ag_decisions st) of
       None \<Rightarrow> Inl (Other_error ''404'')
     | Some d \<Rightarrow> bindE (decode (dc_decision d)) (\<lambda>(proposes, expiresAt).
         let ps = map (expire_reservation now) (ag_proposals st) in
         if \<not> proposes then Inl (Other_error ''409'')
         else if list_ex (\<lambda>p. pr_decisionId p = decisionId \<and> blocksDecision now p) ps then Inl (Other_error ''PROPOSAL_EXISTS'')
         else if now \<ge> expiresAt + PROPOSAL_TTL_SECONDS then Inl (Other_error ''409'')
         else if reviewCount st \<ge> 200 then Inl (Other_error ''REVIEW_LIMIT'')
         else let p = \<lparr>pr_id = i, pr_version = 1, pr_updatedAt = now, pr_decisionId = decisionId, pr_decision = Some (dc_decision d),
                pr_account = lower account, pr_owner = owner, pr_status = ''preparing'', pr_reservedUntil = Some (now + RESERVATION_SECONDS),
                pr_review = None, pr_reviews = Some [], pr_superseded = [], pr_transactions = []\<rparr> in
           ok (st\<lparr>ag_proposals := p # ps\<rparr>, own, p)))"

text \<open>The reservation becomes a proposal with its review, or ends; \<open>None\<close> is an answer, an error is reported after the write.\<close>

definition activate_change :: "int \<Rightarrow> agent_proposal \<Rightarrow> tx_review res \<Rightarrow> (js_error option) change" where
  "activate_change now reservation review st profile own =
     (let failure = (case review of Inl e \<Rightarrow> Some e
            | Inr _ \<Rightarrow> if pf_status profile = ''archived'' then Some (Other_error ''ARCHIVED'')
                else if reviewCount st \<ge> 200 then Some (Other_error ''REVIEW_LIMIT'') else None) in
      case find_proposal (pr_id reservation) st of
        None \<Rightarrow> ok (st, own, Some (Other_error ''PROPOSAL_CHANGED''))
      | Some r \<Rightarrow>
          if pr_status r \<noteq> ''preparing'' \<or> pr_version r \<noteq> pr_version reservation then ok (st, own, Some (Other_error ''PROPOSAL_CHANGED''))
          else let base = (\<lambda>r. bumped now (r\<lparr>pr_reservedUntil := None\<rparr>)) in
            (case failure of
              Some e \<Rightarrow> ok (edited (pr_id r) (\<lambda>r. (base r)\<lparr>pr_status := ''preparation-failed''\<rparr>) st, own, Some e)
            | None \<Rightarrow>
                if now \<ge> the (pr_reservedUntil reservation)
                then ok (edited (pr_id r) (\<lambda>r. (base r)\<lparr>pr_status := ''preparation-expired''\<rparr>) st, own, Some (Other_error ''RESERVATION_EXPIRED''))
                else (case review of Inl e \<Rightarrow> ok (st, own, Some e)
                  | Inr v \<Rightarrow> ok (edited (pr_id r) (\<lambda>r. (base r)\<lparr>pr_status := ''awaiting-approval'', pr_review := Some v, pr_reviews := Some [v]\<rparr>) st,
                      own, None))))"

text \<open>\<open>update\<close>: an active agent's proposal is edited and its version goes up.\<close>

definition update_change :: "int \<Rightarrow> string \<Rightarrow> (agent_proposal \<Rightarrow> agent_state \<Rightarrow> (agent_proposal \<Rightarrow> agent_proposal) res) \<Rightarrow> unit change" where
  "update_change now i f st profile own = (case find_proposal i st of
     None \<Rightarrow> Inl (Other_error ''404'')
   | Some r \<Rightarrow> if pf_status profile = ''archived'' then Inl (Other_error ''ARCHIVED'')
       else bindE (f r st) (\<lambda>g. ok (edited i (bumped now \<circ> g) st, own, ())))"

definition refresh_change :: "(string \<Rightarrow> string) \<Rightarrow> int \<Rightarrow> string \<Rightarrow> int \<Rightarrow> tx_review \<Rightarrow> unit change" where
  "refresh_change sha now i version v = update_change now i (\<lambda>r st.
     if pr_version r \<noteq> version then Inl (Other_error ''PROPOSAL_CHANGED'')
     else if \<not> hasReview sha r v \<and> reviewCount st \<ge> 200 then Inl (Other_error ''REVIEW_LIMIT'')
     else ok (\<lambda>r. r\<lparr>pr_reviews := Some (reviews_of r @ (if hasReview sha r v then [] else [v])), pr_status := ''awaiting-approval'', pr_review := Some v\<rparr>))"

definition reject_change :: "int \<Rightarrow> string \<Rightarrow> unit change" where
  "reject_change now i = update_change now i (\<lambda>r st.
     if hasSubmitted r \<or> \<not> List.member [''awaiting-approval'', ''approval-confirmed''] (pr_status r) then Inl (Other_error ''409'')
     else ok (\<lambda>r. r\<lparr>pr_status := ''rejected''\<rparr>))"

definition hash_conflict :: "'a res" where
  "hash_conflict = Inl (Other_error ''HASH_CONFLICT'')"

definition owned_by_other :: "ownership \<Rightarrow> string \<Rightarrow> string \<Rightarrow> string \<Rightarrow> bool" where
  "owned_by_other own h i digest = (case own_read own h of None \<Rightarrow> False | Some v \<Rightarrow> \<not> own_owns own v i digest)"

definition tracked_of :: "string \<Rightarrow> tx_review \<Rightarrow> string \<Rightarrow> tracked" where
  "tracked_of h v status = \<lparr>tk_hash = h, tk_action = rw_action v, tk_status = ''submitted'', tk_review = v, tk_statusBefore = Some status,
     tk_blockNumber = None, tk_paidAtoms = None, tk_accounted = False, tk_elsewhere = False\<rparr>"

definition submit_change :: "(string \<Rightarrow> string) \<Rightarrow> int \<Rightarrow> string \<Rightarrow> string \<Rightarrow> reviewed_tx \<Rightarrow> unit change" where
  "submit_change sha now i hash sent st profile own =
     (let h = lower hash; digest = transactionDigest sha sent; reviewed = (\<lambda>v. transactionDigest sha (rw_transaction v) = digest) in
      case find_proposal i st of
        None \<Rightarrow> Inl (Other_error ''404'')
      | Some r \<Rightarrow>
          if owned_by_other own h (pr_id r) digest then hash_conflict
          else (case find (\<lambda>t. tk_hash t = h) (pr_transactions r) of
            Some known \<Rightarrow> if reviewed (tk_review known) then ok (st, own, ()) else hash_conflict
          | None \<Rightarrow>
              if hasSubmitted r then hash_conflict
              else (case find reviewed (reviews_of r) of
                None \<Rightarrow> Inl (Other_error ''REVIEW_MISMATCH'')
              | Some v \<Rightarrow> ok (edited i (\<lambda>r. bumped now (r\<lparr>pr_transactions := pr_transactions r @ [tracked_of h v (pr_status r)],
                  pr_status := ''submitted''\<rparr>)) st, own, ()))))"

section \<open>Verified receipts\<close>

record receipt_check =
  vr_status :: string
  vr_blockNumber :: "int option"
  vr_paidAtoms :: "int option"

text \<open>The transaction with what the check found, the totals with the purchase it counts, and the claim of its hash.\<close>

definition settle_tx :: "(string \<Rightarrow> string) \<Rightarrow> string \<Rightarrow> receipt_check \<Rightarrow> tracked \<Rightarrow> live_totals \<Rightarrow> ownership \<Rightarrow> tracked \<times> live_totals \<times> ownership" where
  "settle_tx sha i result t live own =
     (let seen = t\<lparr>tk_status := vr_status result, tk_blockNumber := vr_blockNumber result, tk_paidAtoms := vr_paidAtoms result\<rparr>;
          digest = transactionDigest sha (rw_transaction (tk_review t)) in
      if \<not> List.member VERIFIED (vr_status result) then (seen, live, own)
      else if owned_by_other own (tk_hash t) i digest then (seen\<lparr>tk_elsewhere := True\<rparr>, live, own)
      else if vr_status result = ''confirmed'' \<and> tk_action t = ''buy''
        then let (done', live') = addConfirmedPurchase live seen in (done', live', own_claim own (tk_hash t) i digest)
        else (seen, live, own_claim own (tk_hash t) i digest))"

definition settled_status :: "receipt_check \<Rightarrow> tracked \<Rightarrow> agent_proposal \<Rightarrow> string" where
  "settled_status result t r =
     (if ownsPurchase r then ''confirmed''
      else if tk_elsewhere t then (case tk_statusBefore t of Some s \<Rightarrow> s | None \<Rightarrow> ''attributed-elsewhere'')
      else if vr_status result = ''confirmed'' then ''approval-confirmed'' else ''failed'')"

definition check_change :: "(string \<Rightarrow> string) \<Rightarrow> int \<Rightarrow> string \<Rightarrow> string \<Rightarrow> receipt_check \<Rightarrow> unit change" where
  "check_change sha now i h result st profile own = (case find_proposal i st of
     None \<Rightarrow> Inl (Other_error ''TypeError'')
   | Some r \<Rightarrow> (case find (\<lambda>t. tk_hash t = h) (pr_transactions r) of
       None \<Rightarrow> ok (st, own, ())
     | Some t \<Rightarrow>
         if tk_status t \<noteq> ''submitted'' then ok (st, own, ())
         else let (done', live, own') = settle_tx sha (pr_id r) result t (ag_live st) own;
                put = (\<lambda>r. r\<lparr>pr_transactions := map (\<lambda>x. if tk_hash x = tk_hash t then done' else x) (pr_transactions r)\<rparr>) in
           ok ((edited i (\<lambda>r. bumped now ((put r)\<lparr>pr_status := settled_status result done' (put r)\<rparr>)) st)\<lparr>ag_live := live\<rparr>, own', ())))"

section \<open>Executions\<close>

record execution_check =
  vx_status :: string
  vx_digest :: string
  vx_collateralAtoms :: "int option"

definition amount_of :: "int option \<Rightarrow> int" where
  "amount_of a = (case a of None \<Rightarrow> 0 | Some v \<Rightarrow> v)"

definition account_execution :: "runtime_totals \<Rightarrow> string \<Rightarrow> string \<Rightarrow> int option \<Rightarrow> runtime_totals" where
  "account_execution t action status collateral =
     (if status = ''confirmed'' then
        (if action = ''buy'' then t\<lparr>rt_buys := rt_buys t + 1, rt_buyCostAtoms := rt_buyCostAtoms t + amount_of collateral\<rparr>
         else if action = ''sell'' then t\<lparr>rt_sells := rt_sells t + 1, rt_sellProceedsAtoms := rt_sellProceedsAtoms t + amount_of collateral\<rparr>
         else if action = ''redeem'' then t\<lparr>rt_redemptions := rt_redemptions t + 1, rt_redeemedAtoms := rt_redeemedAtoms t + amount_of collateral\<rparr>
         else t\<lparr>rt_approvals := rt_approvals t + 1\<rparr>)
      else if status = ''reverted'' then t\<lparr>rt_reverted := rt_reverted t + 1\<rparr>
      else if status = ''mismatch'' then t\<lparr>rt_mismatched := rt_mismatched t + 1\<rparr>
      else if status = ''attributed-elsewhere'' then t\<lparr>rt_attributedElsewhere := rt_attributedElsewhere t + 1\<rparr>
      else t)"

definition runtime_of :: "agent_state \<Rightarrow> runtime_state" where
  "runtime_of st = (case ag_runtime st of Some r \<Rightarrow> r | None \<Rightarrow> emptyRuntime)"

fun edit_execution :: "string \<Rightarrow> (execution \<Rightarrow> execution) \<Rightarrow> execution list \<Rightarrow> execution list" where
  "edit_execution h f [] = []"
| "edit_execution h f (e # es) = (if ex_hash e = h then f e # es else e # edit_execution h f es)"

definition execution_id :: "string \<Rightarrow> string" where
  "execution_id h = ''execution:'' @ h"

definition check_execution_change :: "string \<Rightarrow> execution_check \<Rightarrow> unit change" where
  "check_execution_change h result st profile own =
     (let rt = runtime_of st in
      case find (\<lambda>e. ex_hash e = h) (ru_executions rt) of
        None \<Rightarrow> ok (st, own, ())
      | Some e \<Rightarrow>
          if List.member FINAL_EXECUTION (ex_status e) then ok (st, own, ())
          else if List.member [''unknown'', ''pending'', ''confirming''] (vx_status result)
            then ok (st\<lparr>ag_runtime := Some (rt\<lparr>ru_executions := edit_execution h (\<lambda>e. e\<lparr>ex_status :=
              (if vx_status result = ''unknown'' then ''recorded'' else ''pending'')\<rparr>) (ru_executions rt)\<rparr>)\<rparr>, own, ())
          else let verified = List.member VERIFIED (vx_status result); other = owned_by_other own h (execution_id h) (vx_digest result);
                 status = (if verified \<and> other then ''attributed-elsewhere'' else vx_status result);
                 own' = (if verified \<and> \<not> other then own_claim own h (execution_id h) (vx_digest result) else own);
                 collateral = (if status = ''confirmed'' then vx_collateralAtoms result else None) in
            ok (st\<lparr>ag_runtime := Some (rt\<lparr>
                  ru_executions := edit_execution h (\<lambda>e. e\<lparr>ex_status := status, ex_collateralAtoms := collateral\<rparr>) (ru_executions rt),
                  ru_totals := account_execution (ru_totals rt) (ex_action e) status collateral\<rparr>)\<rparr>, own', ()))"

definition report_execution_change :: "execution \<Rightarrow> unit change" where
  "report_execution_change entry st profile own =
     (let rt = runtime_of st; h = ex_hash entry in
      case find (\<lambda>e. ex_hash e = h) (ru_executions rt) of
        Some e \<Rightarrow> if ex_intent e \<noteq> ex_intent entry \<or> ex_namespace e \<noteq> ex_namespace entry then hash_conflict else ok (st, own, ())
      | None \<Rightarrow>
          if (case own_read own h of None \<Rightarrow> False | Some v \<Rightarrow> \<not> own_owns own v (execution_id h) (ow_transaction v)) then hash_conflict
          else if length (filter (\<lambda>e. \<not> List.member FINAL_EXECUTION (ex_status e)) (ru_executions rt)) \<ge> 50 then Inl (Other_error ''TOO_MANY_PENDING'')
          else ok (st\<lparr>ag_runtime := Some (rt\<lparr>ru_executions := entry\<lparr>ex_status := ''recorded'', ex_collateralAtoms := None\<rparr> # ru_executions rt\<rparr>)\<rparr>, own, ()))"

section \<open>Paper and decisions\<close>

definition decision_change :: "agent_decision \<Rightarrow> unit change" where
  "decision_change d st profile own = ok (st\<lparr>ag_decisions := d # ag_decisions st\<rparr>, own, ())"

text \<open>A paper fill is within the budget of every fill ever recorded, and each decision is filled once.\<close>

definition paper_change :: "(json \<Rightarrow> agent_fill res) \<Rightarrow> int \<Rightarrow> string \<Rightarrow> string \<Rightarrow> unit change" where
  "paper_change record_fill budget i decisionId st profile own =
     (if pf_status profile = ''archived'' then Inl (Other_error ''ARCHIVED'')
      else (case find (\<lambda>d. dc_id d = decisionId) (ag_decisions st) of
        None \<Rightarrow> Inl (Other_error ''404'')
      | Some d \<Rightarrow>
          if dc_paperFillId d \<noteq> None then Inl (Other_error ''409'')
          else bindE (record_fill (dc_decision d)) (\<lambda>f.
            if pt_costAtoms (ag_paper st) + fl_costAtoms f > budget then Inl (Other_error ''409'')
            else let r = \<lparr>pa_id = i, pa_decisionId = decisionId, pa_fill = f\<rparr>; p = ag_paper st in
              ok (st\<lparr>ag_paper := addPaperFill (p\<lparr>pt_recent := r # pt_recent p\<rparr>) f, ag_decisions := mark_filled r (ag_decisions st)\<rparr>, own, ()))))"

end
