(* ===== verification/Agent_Laws.thy ===== *)
theory Agent_Laws
  imports Agent_Tracking
begin

text \<open>
  What the agent store promises whatever order changes are written in: an agent's totals are exactly its counted
  purchases, every verified transaction is backed by the store's one ownership record for its hash, and so no
  transaction is counted twice, by any agent of any account.
\<close>

section \<open>Ledgers\<close>

definition txs_of :: "agent_state \<Rightarrow> tracked list" where
  "txs_of st = concat (map pr_transactions (ag_proposals st))"

definition counted :: "tracked list \<Rightarrow> int" where
  "counted ts = int (length (filter tk_accounted ts))"

definition counted_cost :: "tracked list \<Rightarrow> int" where
  "counted_cost ts = sum_list (map (\<lambda>t. if tk_accounted t then amount_of (tk_paidAtoms t) else 0) ts)"

definition counted_unknown :: "tracked list \<Rightarrow> int" where
  "counted_unknown ts = int (length (filter (\<lambda>t. tk_accounted t \<and> tk_paidAtoms t = None) ts))"

text \<open>The totals are those of the transactions: what is written down is what the list of them adds up to.\<close>

definition exact_totals :: "live_totals \<Rightarrow> tracked list \<Rightarrow> bool" where
  "exact_totals live ts = (lv_confirmedPurchases live = counted ts \<and> lv_costAtoms live = counted_cost ts \<and> lv_unknownCost live = counted_unknown ts)"

definition sound_tx :: "tracked \<Rightarrow> bool" where
  "sound_tx t = (lower (tk_hash t) = tk_hash t \<and> (tk_status t = ''submitted'' \<longrightarrow> \<not> tk_elsewhere t)
     \<and> (tk_accounted t \<longrightarrow> tk_action t = ''buy'' \<and> tk_status t = ''confirmed'' \<and> \<not> tk_elsewhere t))"

definition sound_proposal :: "agent_proposal \<Rightarrow> bool" where
  "sound_proposal p = (distinct (map tk_hash (pr_transactions p)) \<and> list_all sound_tx (pr_transactions p)
     \<and> (pr_reviews p = Some [] \<longrightarrow> pr_transactions p = []) \<and> validId (pr_id p))"

definition ledger_ok :: "agent_state \<Rightarrow> bool" where
  "ledger_ok st = (distinct (map pr_id (ag_proposals st)) \<and> list_all sound_proposal (ag_proposals st)
     \<and> exact_totals (ag_live st) (txs_of st) \<and> list_all (\<lambda>e. lower (ex_hash e) = ex_hash e) (ru_executions (runtime_of st)))"

section \<open>Backing\<close>

definition claims_verified :: "tracked \<Rightarrow> bool" where
  "claims_verified t = (List.member VERIFIED (tk_status t) \<and> \<not> tk_elsewhere t)"

definition tx_digest :: "(string \<Rightarrow> string) \<Rightarrow> tracked \<Rightarrow> string" where
  "tx_digest sha t = transactionDigest sha (rw_transaction (tk_review t))"

definition backed_txs :: "(string \<Rightarrow> string) \<Rightarrow> agent_key \<Rightarrow> (string \<rightharpoonup> owner_value) \<Rightarrow> string \<Rightarrow> tracked list \<Rightarrow> bool" where
  "backed_txs sha k m i ts = list_all (\<lambda>t. claims_verified t \<longrightarrow> m (lower (tk_hash t)) = Some (value_for k i (tx_digest sha t))) ts"

definition backed_proposals :: "(string \<Rightarrow> string) \<Rightarrow> agent_key \<Rightarrow> (string \<rightharpoonup> owner_value) \<Rightarrow> agent_proposal list \<Rightarrow> bool" where
  "backed_proposals sha k m ps = list_all (\<lambda>p. backed_txs sha k m (pr_id p) (pr_transactions p)) ps"

definition backed_executions :: "agent_key \<Rightarrow> (string \<rightharpoonup> owner_value) \<Rightarrow> execution list \<Rightarrow> bool" where
  "backed_executions k m es = list_all (\<lambda>e. List.member VERIFIED (ex_status e) \<longrightarrow>
     (\<exists>digest. m (lower (ex_hash e)) = Some (value_for k (execution_id (ex_hash e)) digest))) es"

definition backed :: "(string \<Rightarrow> string) \<Rightarrow> agent_key \<Rightarrow> (string \<rightharpoonup> owner_value) \<Rightarrow> agent_state \<Rightarrow> bool" where
  "backed sha k m st = (backed_proposals sha k m (ag_proposals st) \<and> backed_executions k m (ru_executions (runtime_of st)))"

text \<open>A map that holds every claim made and everything the change was told.\<close>

definition knows :: "(string \<rightharpoonup> owner_value) \<Rightarrow> ownership \<Rightarrow> bool" where
  "knows m own = (map_of (on_claims own) \<subseteq>\<^sub>m m \<and> on_found own \<subseteq>\<^sub>m m)"

lemma knows_read: "knows m own \<Longrightarrow> own_read own h = Some v \<Longrightarrow> m (lower h) = Some v"
  by (auto simp: knows_def own_read_def map_le_def dom_def split: option.splits)

lemma own_claim_facts [simp]: "on_key (own_claim own h i d) = on_key own" "on_found (own_claim own h i d) = on_found own"
  by (simp_all add: own_claim_def)

lemma knows_claimed: "knows m (own_claim own h i d) \<Longrightarrow> m (lower h) = Some (value_for (on_key own) i d)"
  by (auto simp: knows_def own_claim_def update_conv' map_le_def)

lemma knows_unclaimed:
  assumes "knows m (own_claim own h i d)" "own_read own h = None \<or> own_read own h = Some (value_for (on_key own) i d)"
  shows "knows m own"
proof -
  have "map_of (on_claims own) (lower h) = None \<or> map_of (on_claims own) (lower h) = Some (value_for (on_key own) i d)"
    using assms(2) by (auto simp: own_read_def split: option.splits)
  then have "map_of (on_claims own) \<subseteq>\<^sub>m (map_of (on_claims own))(lower h \<mapsto> value_for (on_key own) i d)"
    by (auto simp: map_le_def)
  then show ?thesis using assms(1) by (auto simp: knows_def own_claim_def update_conv' intro: map_le_trans)
qed

lemma not_owned_by_other:
  "\<not> owned_by_other own h i d \<Longrightarrow> own_read own h = None \<or> own_read own h = Some (value_for (on_key own) i d)"
  by (auto simp: owned_by_other_def own_owns_def split: option.splits)

section \<open>Counting\<close>

lemma counted_simps [simp]:
  "counted [] = 0" "counted (t # ts) = (if tk_accounted t then 1 else 0) + counted ts" "counted (ts @ us) = counted ts + counted us"
  "counted_cost [] = 0" "counted_cost (t # ts) = (if tk_accounted t then amount_of (tk_paidAtoms t) else 0) + counted_cost ts"
  "counted_cost (ts @ us) = counted_cost ts + counted_cost us"
  "counted_unknown [] = 0" "counted_unknown (t # ts) = (if tk_accounted t \<and> tk_paidAtoms t = None then 1 else 0) + counted_unknown ts"
  "counted_unknown (ts @ us) = counted_unknown ts + counted_unknown us"
  by (simp_all add: counted_def counted_cost_def counted_unknown_def)

text \<open>What changing the totals and one transaction together moves.\<close>

definition moves :: "live_totals \<Rightarrow> tracked list \<Rightarrow> live_totals \<Rightarrow> tracked list \<Rightarrow> bool" where
  "moves live ts live' ts' = (lv_confirmedPurchases live' - lv_confirmedPurchases live = counted ts' - counted ts
     \<and> lv_costAtoms live' - lv_costAtoms live = counted_cost ts' - counted_cost ts
     \<and> lv_unknownCost live' - lv_unknownCost live = counted_unknown ts' - counted_unknown ts)"

lemma moves_exact: "moves live ts live' ts' \<Longrightarrow> exact_totals live (us @ ts @ vs) \<Longrightarrow> exact_totals live' (us @ ts' @ vs)"
  by (simp add: moves_def exact_totals_def)

lemma moves_refl [simp]: "moves live ts live ts"
  by (simp add: moves_def)

lemma moves_append: "moves l ts l' ts' \<Longrightarrow> moves l' us l'' us' \<Longrightarrow> moves l (ts @ us) l'' (ts' @ us')"
  by (simp add: moves_def)

lemma moves_add: "addConfirmedPurchase live t = (t', live') \<Longrightarrow> moves live [t] live' [t']"
  by (auto simp: addConfirmedPurchase_def moves_def amount_of_def split: if_splits option.splits)

lemma moves_remove: "removeConfirmedPurchase live t = (t', live') \<Longrightarrow> moves live [t] live' [t']"
  by (auto simp: removeConfirmedPurchase_def moves_def amount_of_def split: if_splits option.splits)

lemma add_fields:
  "addConfirmedPurchase live t = (t', live') \<Longrightarrow> t' = t\<lparr>tk_accounted := True\<rparr>"
  by (auto simp: addConfirmedPurchase_def split: if_splits option.splits)

lemma remove_fields:
  "removeConfirmedPurchase live t = (t', live') \<Longrightarrow> t' = t\<lparr>tk_accounted := False\<rparr>"
  by (auto simp: removeConfirmedPurchase_def split: if_splits option.splits)

section \<open>Reconciling\<close>

definition same_tx :: "tracked \<Rightarrow> tracked \<Rightarrow> bool" where
  "same_tx t t' = (tk_hash t' = tk_hash t \<and> tk_review t' = tk_review t)"

lemma reconcile_tx_keeps:
  assumes "reconcile_tx sha i (live, own) t = (t', live', own')" "sound_tx t"
  shows "same_tx t t' \<and> sound_tx t' \<and> moves live [t] live' [t'] \<and> on_key own' = on_key own \<and> on_found own' = on_found own
    \<and> (\<forall>m. knows m own' \<longrightarrow> knows m own \<and> backed_txs sha (on_key own) m i [t'])"
proof -
  let ?d = "transactionDigest sha (rw_transaction (tk_review t))"
  have eq: "(t', live', own') = (if \<not> claims_verified t then (t, live, own) else (case own_read own (tk_hash t) of
         None \<Rightarrow> (t, live, own_claim own (tk_hash t) i ?d)
       | Some v \<Rightarrow> if own_owns own v i ?d then (t, live, own)
           else let (t', live') = removeConfirmedPurchase live t in (t'\<lparr>tk_elsewhere := True\<rparr>, live', own)))"
    using assms(1) [symmetric] by (simp only: reconcile_tx_def claims_verified_def Let_def prod.case de_Morgan_conj not_not)
  consider (skip) "\<not> claims_verified t" "t' = t" "live' = live" "own' = own"
    | (new) "own_read own (tk_hash t) = None" "t' = t" "live' = live" "own' = own_claim own (tk_hash t) i ?d"
    | (ours) "own_read own (tk_hash t) = Some (value_for (on_key own) i ?d)" "t' = t" "live' = live" "own' = own"
    | (theirs) u where "claims_verified t" "removeConfirmedPurchase live t = (u, live')" "t' = u\<lparr>tk_elsewhere := True\<rparr>" "own' = own"
  proof (cases "claims_verified t")
    case False
    then show thesis using eq skip by simp
  next
    case verified: True
    show thesis
    proof (cases "own_read own (tk_hash t)")
      case None
      then show thesis using eq verified new by simp
    next
      case (Some v)
      show thesis
      proof (cases "own_owns own v i ?d")
        case True
        then show thesis using eq verified Some ours by (simp add: own_owns_def)
      next
        case False
        obtain u l where u: "removeConfirmedPurchase live t = (u, l)" by fastforce
        then show thesis using eq verified Some False theirs by simp
      qed
    qed
  qed
  then show ?thesis
  proof cases
    case skip
    then show ?thesis using assms(2) by (simp add: same_tx_def backed_txs_def)
  next
    case new
    then show ?thesis using assms(2)
      by (auto simp: same_tx_def backed_txs_def tx_digest_def dest: knows_claimed knows_unclaimed)
  next
    case ours
    then show ?thesis using assms(2) by (auto simp: same_tx_def backed_txs_def tx_digest_def dest: knows_read)
  next
    case theirs
    have u: "u = t\<lparr>tk_accounted := False\<rparr>" using remove_fields [OF theirs(2)] .
    have "moves live [t] live' [t']" using moves_remove [OF theirs(2)] by (simp add: moves_def theirs(3) u)
    moreover have "tk_status t \<noteq> ''submitted''" using theirs(1) by (auto simp: claims_verified_def VERIFIED_def)
    ultimately show ?thesis using assms(2) u theirs(3,4) by (simp add: same_tx_def sound_tx_def backed_txs_def claims_verified_def)
  qed
qed

lemma knows_antimono: "knows m own' \<Longrightarrow> (\<And>m. knows m own' \<Longrightarrow> knows m own) \<Longrightarrow> knows m own"
  by blast

lemma sound_tx_hash: "sound_tx t \<Longrightarrow> lower (tk_hash t) = tk_hash t"
  by (simp add: sound_tx_def)

lemma reconcile_txs_keeps:
  assumes "reconcile_txs sha i (live, own) ts = (ts', live', own')" "list_all sound_tx ts"
  shows "list_all2 same_tx ts ts' \<and> list_all sound_tx ts' \<and> moves live ts live' ts' \<and> on_key own' = on_key own \<and> on_found own' = on_found own
    \<and> (\<forall>m. knows m own' \<longrightarrow> knows m own \<and> backed_txs sha (on_key own) m i ts')"
  using assms
proof (induction ts arbitrary: live own ts' live' own')
  case Nil
  then show ?case by (simp add: backed_txs_def)
next
  case (Cons t ts)
  obtain t1 l1 o1 where one: "reconcile_tx sha i (live, own) t = (t1, l1, o1)" using prod_cases3 by blast
  obtain ts1 l2 o2 where rest: "reconcile_txs sha i (l1, o1) ts = (ts1, l2, o2)" using prod_cases3 by blast
  have e: "ts' = t1 # ts1" "live' = l2" "own' = o2" using Cons.prems(1) one rest by auto
  have s: "sound_tx t" "list_all sound_tx ts" using Cons.prems(2) by auto
  note h = reconcile_tx_keeps [OF one s(1)] and r = Cons.IH [OF rest s(2)]
  have "moves live (t # ts) l2 (t1 # ts1)" using h r moves_append [of live "[t]" l1 "[t1]" ts l2 ts1] by simp
  moreover have "knows m own \<and> backed_txs sha (on_key own) m i (t1 # ts1)" if "knows m o2" for m
  proof -
    have "knows m o1" "backed_txs sha (on_key o1) m i ts1" using r that by blast+
    then show ?thesis using h by (simp add: backed_txs_def)
  qed
  ultimately show ?case using h r e by auto
qed

definition same_proposal :: "agent_proposal \<Rightarrow> agent_proposal \<Rightarrow> bool" where
  "same_proposal p p' = (pr_id p' = pr_id p \<and> pr_reviews p' = pr_reviews p \<and> list_all2 same_tx (pr_transactions p) (pr_transactions p'))"

lemma same_hashes: "list_all2 same_tx ts ts' \<Longrightarrow> map tk_hash ts' = map tk_hash ts"
  by (induction rule: list_all2_induct) (simp_all add: same_tx_def)

lemma reconcile_status_fields [simp]: "pr_id (reconcile_status p) = pr_id p" "pr_reviews (reconcile_status p) = pr_reviews p"
  "pr_transactions (reconcile_status p) = pr_transactions p"
  by (simp_all add: reconcile_status_def)

lemma reconcile_proposals_keeps:
  assumes "reconcile_proposals sha (live, own) ps = (ps', live', own')" "list_all sound_proposal ps"
  shows "list_all2 same_proposal ps ps' \<and> list_all sound_proposal ps' \<and> moves live (concat (map pr_transactions ps)) live' (concat (map pr_transactions ps'))
    \<and> on_key own' = on_key own \<and> on_found own' = on_found own
    \<and> (\<forall>m. knows m own' \<longrightarrow> knows m own \<and> backed_proposals sha (on_key own) m ps')"
  using assms
proof (induction ps arbitrary: live own ps' live' own')
  case Nil
  then show ?case by (simp add: backed_proposals_def)
next
  case (Cons p ps)
  obtain ts l1 o1 where one: "reconcile_txs sha (pr_id p) (live, own) (pr_transactions p) = (ts, l1, o1)" using prod_cases3 by blast
  obtain ps1 l2 o2 where rest: "reconcile_proposals sha (l1, o1) ps = (ps1, l2, o2)" using prod_cases3 by blast
  let ?p = "reconcile_status (p\<lparr>pr_transactions := ts\<rparr>)"
  have e: "ps' = ?p # ps1" "live' = l2" "own' = o2" using Cons.prems(1) one rest by auto
  have s: "list_all sound_tx (pr_transactions p)" "sound_proposal p" "list_all sound_proposal ps" using Cons.prems(2) by (simp_all add: sound_proposal_def [of p])
  note h = reconcile_txs_keeps [OF one s(1)] and r = Cons.IH [OF rest s(3)]
  have "moves live (pr_transactions p @ concat (map pr_transactions ps)) l2 (ts @ concat (map pr_transactions ps1))"
    using h r moves_append by blast
  moreover have "same_proposal p ?p" using h by (simp add: same_proposal_def)
  moreover have "sound_proposal ?p"
  proof -
    have "map tk_hash ts = map tk_hash (pr_transactions p)" using h same_hashes by blast
    moreover have "pr_transactions p = [] \<Longrightarrow> ts = []" using h by auto
    ultimately show ?thesis using s(2) h by (auto simp: sound_proposal_def)
  qed
  moreover have "knows m own \<and> backed_proposals sha (on_key own) m (?p # ps1)" if "knows m o2" for m
  proof -
    have "knows m o1" "backed_proposals sha (on_key o1) m ps1" using r that by blast+
    then show ?thesis using h by (simp add: backed_proposals_def)
  qed
  ultimately show ?case using h r e by auto
qed

lemma same_ids: "list_all2 same_proposal ps ps' \<Longrightarrow> map pr_id ps' = map pr_id ps"
  by (induction rule: list_all2_induct) (simp_all add: same_proposal_def)

lemma runtime_of_update [simp]: "runtime_of (st\<lparr>ag_proposals := ps\<rparr>) = runtime_of st" "runtime_of (st\<lparr>ag_live := l\<rparr>) = runtime_of st"
  "runtime_of (st\<lparr>ag_ownership := n\<rparr>) = runtime_of st" "runtime_of (st\<lparr>ag_decisions := ds\<rparr>) = runtime_of st"
  "runtime_of (st\<lparr>ag_paper := pt\<rparr>) = runtime_of st" "runtime_of (st\<lparr>ag_runtime := Some r\<rparr>) = r"
  by (simp_all add: runtime_of_def)

lemma reconcile_keeps:
  assumes "reconcile sha st own = (st', own')" "ledger_ok st"
  shows "ledger_ok st' \<and> ag_ownership st' = OWNERSHIP \<and> on_key own' = on_key own \<and> on_found own' = on_found own \<and> runtime_of st' = runtime_of st
    \<and> map pr_id (ag_proposals st') = map pr_id (ag_proposals st)
    \<and> (\<forall>m. knows m own' \<longrightarrow> knows m own \<and> backed_proposals sha (on_key own) m (ag_proposals st'))"
proof -
  obtain ps live o' where r: "reconcile_proposals sha (ag_live st, own) (ag_proposals st) = (ps, live, o')" using prod_cases3 by blast
  have e: "st' = st\<lparr>ag_proposals := ps, ag_live := live, ag_ownership := OWNERSHIP\<rparr>" "own' = o'"
    using assms(1) r by (simp_all add: reconcile_def)
  have s: "list_all sound_proposal (ag_proposals st)" using assms(2) by (simp add: ledger_ok_def)
  note h = reconcile_proposals_keeps [OF r s]
  have "exact_totals live (concat (map pr_transactions ps))"
    using h moves_exact [of "ag_live st" "concat (map pr_transactions (ag_proposals st))" live _ "[]" "[]"] assms(2)
    by (simp add: ledger_ok_def txs_of_def)
  then show ?thesis using h e assms(2) same_ids [of "ag_proposals st" ps] by (simp add: ledger_ok_def txs_of_def)
qed

section \<open>Editing one proposal\<close>

lemma find_proposal_split:
  assumes "find_proposal i st = Some r"
  obtains us vs where "ag_proposals st = us @ r # vs" "pr_id r = i" "\<And>f. edit_proposal i f (ag_proposals st) = us @ f r # vs"
proof -
  have "\<exists>us vs. ps = us @ r # vs \<and> pr_id r = i \<and> (\<forall>f. edit_proposal i f ps = us @ f r # vs)" if "find (\<lambda>p. pr_id p = i) ps = Some r" for ps
    using that
  proof (induction ps)
    case Nil
    then show ?case by simp
  next
    case (Cons p ps)
    show ?case
    proof (cases "pr_id p = i")
      case True
      then show ?thesis using Cons.prems by (intro exI [of _ "[]"] exI [of _ ps]) simp
    next
      case False
      then obtain us vs where "ps = us @ r # vs" "pr_id r = i" "\<forall>f. edit_proposal i f ps = us @ f r # vs" using Cons by auto
      then show ?thesis using False by (intro exI [of _ "p # us"] exI [of _ vs]) simp
    qed
  qed
  then show thesis using that assms unfolding find_proposal_def by blast
qed

lemma replace_ok:
  assumes "ledger_ok st" "ag_proposals st = us @ r # vs" "pr_id r' = pr_id r" "sound_proposal r'"
    "moves (ag_live st) (pr_transactions r) live (pr_transactions r')"
  shows "ledger_ok (st\<lparr>ag_proposals := us @ r' # vs, ag_live := live\<rparr>)"
  using assms moves_exact [OF assms(5), of "concat (map pr_transactions us)" "concat (map pr_transactions vs)"]
  by (simp add: ledger_ok_def txs_of_def)

lemma replace_backed:
  assumes "backed sha k m st" "ag_proposals st = us @ r # vs" "backed_txs sha k m (pr_id r') (pr_transactions r')"
  shows "backed sha k m (st\<lparr>ag_proposals := us @ r' # vs, ag_live := live\<rparr>)"
  using assms by (simp add: backed_def backed_proposals_def)

lemma edited_split:
  assumes "find_proposal i st = Some r" "ledger_ok st"
  obtains us vs where "ag_proposals st = us @ r # vs" "pr_id r = i" "sound_proposal r"
    "\<And>f l. (edited i f st)\<lparr>ag_live := l\<rparr> = st\<lparr>ag_proposals := us @ f r # vs, ag_live := l\<rparr>"
proof -
  obtain us vs where u: "ag_proposals st = us @ r # vs" "pr_id r = i" "\<And>f. edit_proposal i f (ag_proposals st) = us @ f r # vs"
    using find_proposal_split [OF assms(1)] by blast
  moreover have "sound_proposal r" using assms(2) u(1) by (simp add: ledger_ok_def)
  ultimately show thesis using that by (simp add: edited_def)
qed

text \<open>An edit that leaves a proposal's transactions alone.\<close>

definition quiet :: "(agent_proposal \<Rightarrow> agent_proposal) \<Rightarrow> bool" where
  "quiet f = (\<forall>p. pr_id (f p) = pr_id p \<and> pr_transactions (f p) = pr_transactions p \<and> (pr_reviews (f p) = Some [] \<longrightarrow> pr_reviews p = Some []))"

lemma edited_quiet:
  assumes "quiet f" "find_proposal i st = Some r" "ledger_ok st"
  shows "ledger_ok (edited i f st) \<and> (backed sha k m st \<longrightarrow> backed sha k m (edited i f st))"
proof -
  obtain us vs where u: "ag_proposals st = us @ r # vs" "pr_id r = i" "sound_proposal r"
    "\<And>f l. (edited i f st)\<lparr>ag_live := l\<rparr> = st\<lparr>ag_proposals := us @ f r # vs, ag_live := l\<rparr>"
    using edited_split [OF assms(2,3)] by blast
  have f: "pr_id (f r) = pr_id r" "pr_transactions (f r) = pr_transactions r" "pr_reviews (f r) = Some [] \<longrightarrow> pr_reviews r = Some []"
    using assms(1) by (simp_all add: quiet_def)
  have s: "sound_proposal (f r)" using u(3) f by (simp add: sound_proposal_def)
  have e: "edited i f st = st\<lparr>ag_proposals := us @ f r # vs, ag_live := ag_live st\<rparr>"
    using u(4) [where f = f and l = "ag_live st"] by (simp add: edited_def)
  have l: "ledger_ok (st\<lparr>ag_proposals := us @ f r # vs, ag_live := ag_live st\<rparr>)"
    by (rule replace_ok [OF assms(3) u(1) f(1) s]) (simp add: f(2))
  have b: "backed sha k m (st\<lparr>ag_proposals := us @ f r # vs, ag_live := ag_live st\<rparr>)" if "backed sha k m st"
    by (rule replace_backed [OF that u(1)]) (use that u(1) f(1,2) in \<open>simp add: backed_def backed_proposals_def\<close>)
  show ?thesis unfolding e using l b by blast
qed

lemma edited_ownership [simp]: "ag_ownership (edited i f st) = ag_ownership st" "runtime_of (edited i f st) = runtime_of st"
  by (simp_all add: edited_def)

section \<open>Changes that keep the ledger\<close>

text \<open>
  What the store relies on of a change: it keeps the ledger, and whatever map holds the claims it made and the
  owners it was told backs the new state if it backed the old one. \<open>fresh\<close> is what the change needs of
  the state it meets, an id not in use.
\<close>

locale ledger_change =
  fixes sha :: "string \<Rightarrow> string" and change :: "'r change" and fresh :: "agent_state \<Rightarrow> bool"
  assumes keeps: "change st pf own = ok (st', own', r) \<Longrightarrow> fresh st \<Longrightarrow> ledger_ok st \<Longrightarrow> ledger_ok st'"
    and same: "change st pf own = ok (st', own', r) \<Longrightarrow> on_key own' = on_key own \<and> on_found own' = on_found own \<and> ag_ownership st' = ag_ownership st"
    and backs: "change st pf own = ok (st', own', r) \<Longrightarrow> fresh st \<Longrightarrow> ledger_ok st \<Longrightarrow> knows m own'
      \<Longrightarrow> knows m own \<and> (backed sha (on_key own) m st \<longrightarrow> backed sha (on_key own) m st')"
    and fresh_ids: "map pr_id (ag_proposals st) = map pr_id (ag_proposals st') \<Longrightarrow> fresh st = fresh st'"
begin

lemma compute_keeps:
  assumes "compute sha change k pf found st = ok (st', own', r)" "fresh st" "ledger_ok st"
  shows "ledger_ok st' \<and> OWNERSHIP \<le> ag_ownership st' \<and> on_key own' = k \<and> on_found own' = found
    \<and> (\<forall>m. knows m own' \<longrightarrow> backed_executions k m (ru_executions (runtime_of st)) \<longrightarrow> (OWNERSHIP \<le> ag_ownership st \<longrightarrow> backed sha k m st)
        \<longrightarrow> backed sha k m st')"
proof -
  let ?own = "\<lparr>on_key = k, on_found = found, on_claims = []\<rparr>"
  obtain st1 own1 where one: "(if ag_ownership st < OWNERSHIP then reconcile sha st ?own else (st, ?own)) = (st1, own1)" by fastforce
  have c: "change st1 pf own1 = ok (st', own', r)" using assms(1) one by (simp add: compute_def split: if_splits)
  have a: "ledger_ok st1 \<and> OWNERSHIP \<le> ag_ownership st1 \<and> on_key own1 = k \<and> on_found own1 = found
    \<and> map pr_id (ag_proposals st1) = map pr_id (ag_proposals st)
    \<and> (\<forall>m. knows m own1 \<longrightarrow> backed_executions k m (ru_executions (runtime_of st)) \<longrightarrow> (OWNERSHIP \<le> ag_ownership st \<longrightarrow> backed sha k m st)
        \<longrightarrow> backed sha k m st1)"
  proof (cases "ag_ownership st < OWNERSHIP")
    case True
    then have "reconcile sha st ?own = (st1, own1)" using one by simp
    from reconcile_keeps [OF this assms(3)] show ?thesis by (simp add: backed_def)
  next
    case False
    then show ?thesis using one assms(3) by auto
  qed
  have f: "fresh st1" using fresh_ids [of st st1] a assms(2) by simp
  show ?thesis using keeps [OF c f] same [OF c] backs [OF c f] a by auto
qed

end

lemma quiet_change:
  assumes "st' = edited i f st" "quiet f" "find_proposal i st = Some r" "ledger_ok st"
  shows "ledger_ok st'" "backed sha k m st \<Longrightarrow> backed sha k m st'"
  using edited_quiet [OF assms(2-4)] assms(1) by blast+

lemma quiet_bumped: "quiet g \<Longrightarrow> quiet (bumped now \<circ> g)"
  by (simp add: quiet_def bumped_def)

lemma update_change_ledger:
  assumes "\<And>r st g. f r st = ok g \<Longrightarrow> quiet g"
  shows "ledger_change sha (update_change now i f) (\<lambda>_. True)"
proof
  fix st pf own st' own' r m
  assume "update_change now i f st pf own = ok (st', own', r)"
  then obtain q g where q: "find_proposal i st = Some q" "f q st = ok g" "st' = edited i (bumped now \<circ> g) st" "own' = own"
    by (auto simp: update_change_def split: option.splits if_splits)
  have g: "quiet (bumped now \<circ> g)" using quiet_bumped assms q(2) by blast
  show "on_key own' = on_key own \<and> on_found own' = on_found own \<and> ag_ownership st' = ag_ownership st" using q by simp
  show "ledger_ok st \<Longrightarrow> ledger_ok st'" using quiet_change(1) [OF q(3) g q(1)] by blast
  show "ledger_ok st \<Longrightarrow> knows m own' \<Longrightarrow> knows m own \<and> (backed sha (on_key own) m st \<longrightarrow> backed sha (on_key own) m st')"
    using quiet_change(2) [OF q(3) g q(1)] q(4) by blast
qed simp

interpretation refreshing: ledger_change sha "refresh_change sha now i version v" "\<lambda>_. True" for sha now i version v
  unfolding refresh_change_def
  by (rule update_change_ledger) (auto simp: quiet_def reviews_of_def hasReview_def split: if_splits option.splits)

interpretation rejecting: ledger_change sha "reject_change now i" "\<lambda>_. True" for sha now i
  unfolding reject_change_def by (rule update_change_ledger) (auto simp: quiet_def split: if_splits)

interpretation deciding: ledger_change sha "decision_change d" "\<lambda>_. True" for sha d
  by unfold_locales (auto simp: decision_change_def ledger_ok_def txs_of_def backed_def)

interpretation papering: ledger_change sha "paper_change record_fill budget i decisionId" "\<lambda>_. True" for sha record_fill budget i decisionId
  by unfold_locales (auto simp: paper_change_def Let_def ledger_ok_def txs_of_def backed_def split: if_splits option.splits)

interpretation clearing: ledger_change sha clear_feed "\<lambda>_. True" for sha
  by unfold_locales (auto simp: clear_feed_def ledger_ok_def txs_of_def backed_def)

end
