(* ===== verification/Agent_Changes.thy ===== *)
theory Agent_Changes
  imports Agent_Laws
begin

text \<open>
  Every change the agent interfaces make satisfies the contract of \<open>ledger_change\<close>: a reservation and its
  review, a submitted transaction, a verified receipt, and the executions a runtime reports.
\<close>

section \<open>Reservations\<close>

lemma expire_fields [simp]: "pr_id (expire_reservation now p) = pr_id p" "pr_reviews (expire_reservation now p) = pr_reviews p"
  "pr_transactions (expire_reservation now p) = pr_transactions p"
  by (simp_all add: expire_reservation_def bumped_def)

lemma expire_sound [simp]: "sound_proposal (expire_reservation now p) = sound_proposal p"
  by (simp add: sound_proposal_def)

lemma backed_append: "backed_proposals sha k m (map (expire_reservation now) ps) = backed_proposals sha k m ps"
  by (simp add: backed_proposals_def list_all_iff)

definition unused :: "string \<Rightarrow> agent_state \<Rightarrow> bool" where
  "unused i st = (validId i \<and> i \<notin> set (map pr_id (ag_proposals st)))"

lemma reserved:
  assumes "reserve_change decode now account owner i decisionId st pf own = ok (st', own', p)"
  shows "own' = own \<and> st' = st\<lparr>ag_proposals := p # map (expire_reservation now) (ag_proposals st)\<rparr> \<and> pr_id p = i
    \<and> pr_reviews p = Some [] \<and> pr_transactions p = []"
  using assms by (auto simp: reserve_change_def Let_def split: option.splits if_splits prod.splits)

interpretation reserving: ledger_change sha "reserve_change decode now account owner i decisionId" "unused i"
  for sha decode now account owner i decisionId
proof
  fix st pf own st' own' r m
  assume "reserve_change decode now account owner i decisionId st pf own = ok (st', own', r)"
  note e = reserved [OF this]
  show "on_key own' = on_key own \<and> on_found own' = on_found own \<and> ag_ownership st' = ag_ownership st" using e by simp
  have ids: "map pr_id (map (expire_reservation now) (ag_proposals st)) = map pr_id (ag_proposals st)" by simp
  show "ledger_ok st'" if "unused i st" "ledger_ok st"
    using that e ids by (simp add: ledger_ok_def txs_of_def unused_def sound_proposal_def list_all_iff comp_def)
  show "knows m own \<and> (backed sha (on_key own) m st \<longrightarrow> backed sha (on_key own) m st')" if "knows m own'"
    using that e by (simp add: backed_def backed_proposals_def backed_txs_def list_all_iff)
qed (simp add: unused_def)

section \<open>Reviews\<close>

text \<open>A step that edits at most one proposal and none of its transactions.\<close>

definition quiet_step :: "agent_state \<Rightarrow> agent_state \<Rightarrow> bool" where
  "quiet_step st st' = (st' = st \<or> (\<exists>i f r. st' = edited i f st \<and> quiet f \<and> find_proposal i st = Some r))"

lemma quiet_stepI: "find_proposal i st = Some r \<Longrightarrow> quiet f \<Longrightarrow> quiet_step st (edited i f st)"
  by (auto simp: quiet_step_def)

lemma quiet_step_refl [simp]: "quiet_step st st"
  by (simp add: quiet_step_def)

lemma quiet_step_keeps:
  assumes "quiet_step st st'" "ledger_ok st"
  shows "ledger_ok st' \<and> (backed sha k m st \<longrightarrow> backed sha k m st')"
proof (cases "st' = st")
  case False
  then obtain i f r where e: "st' = edited i f st" "quiet f" "find_proposal i st = Some r"
    using assms(1) unfolding quiet_step_def by blast
  show ?thesis unfolding e(1) by (rule edited_quiet [OF e(2,3) assms(2)])
qed (use assms in simp)

lemma quiet_step_ownership: "quiet_step st st' \<Longrightarrow> ag_ownership st' = ag_ownership st"
  by (auto simp: quiet_step_def)

lemma found_id: "find_proposal i st = Some r \<Longrightarrow> pr_id r = i"
  by (erule find_proposal_split)

lemma activated:
  assumes "activate_change now reservation review st pf own = ok (st', own', p)"
  shows "own' = own \<and> quiet_step st st'"
proof -
  have q: "quiet_step st (edited (pr_id r) f st)" if "find_proposal i st = Some r" "quiet f" for i r f
    using quiet_stepI [OF that] found_id [OF that(1)] by simp
  show ?thesis using assms
    by (auto simp: activate_change_def Let_def quiet_def bumped_def intro!: q split: option.splits if_splits sum.splits)
qed

interpretation activating: ledger_change sha "activate_change now reservation review" "\<lambda>_. True" for sha now reservation review
proof
  fix st pf own st' own' r m
  assume "activate_change now reservation review st pf own = ok (st', own', r)"
  note e = activated [OF this]
  show "on_key own' = on_key own \<and> on_found own' = on_found own \<and> ag_ownership st' = ag_ownership st"
    using e quiet_step_ownership by blast
  show "ledger_ok st'" if "ledger_ok st" using e that quiet_step_keeps by blast
  show "knows m own \<and> (backed sha (on_key own) m st \<longrightarrow> backed sha (on_key own) m st')" if "ledger_ok st" "knows m own'"
    using e that quiet_step_keeps by blast
qed simp

section \<open>Submitted transactions\<close>

lemma lower_lower [simp]: "lower (lower s) = lower s"
  by (induction s) (simp_all add: lower_def)

lemma tracked_of_fields [simp]: "tk_hash (tracked_of h v s) = h" "tk_accounted (tracked_of h v s) = False"
  "tk_status (tracked_of h v s) = ''submitted''" "tk_elsewhere (tracked_of h v s) = False"
  by (simp_all add: tracked_of_def)

lemma unsubmitted_counts [simp]: "moves live ts live (ts @ [tracked_of h v s])"
  by (simp add: moves_def)

lemma bumped_fields [simp]: "pr_id (bumped now p) = pr_id p" "pr_transactions (bumped now p) = pr_transactions p"
  "pr_reviews (bumped now p) = pr_reviews p"
  by (simp_all add: bumped_def)

lemma submitted_unverified [simp]: "''submitted'' \<notin> set VERIFIED"
  by (simp add: VERIFIED_def)

definition with_submitted :: "int \<Rightarrow> string \<Rightarrow> tx_review \<Rightarrow> agent_proposal \<Rightarrow> agent_proposal" where
  "with_submitted now h v r = bumped now (r\<lparr>pr_transactions := pr_transactions r @ [tracked_of h v (pr_status r)], pr_status := ''submitted''\<rparr>)"

lemma submitted:
  assumes "submit_change sha now i hash sent st pf own = ok (st', own', u)"
  shows "own' = own \<and> (st' = st \<or> (\<exists>r v. find_proposal i st = Some r \<and> lower hash \<notin> set (map tk_hash (pr_transactions r))
    \<and> pr_reviews r \<noteq> Some [] \<and> st' = edited i (with_submitted now (lower hash) v) st))"
proof (cases "find_proposal i st")
  case None
  then show ?thesis using assms by (simp add: submit_change_def Let_def)
next
  case found: (Some r)
  let ?d = "transactionDigest sha sent"
  have free: "\<not> owned_by_other own (lower hash) (pr_id r) ?d" using assms found by (auto simp: submit_change_def Let_def hash_conflict_def)
  show ?thesis
  proof (cases "find (\<lambda>t. tk_hash t = lower hash) (pr_transactions r)")
    case (Some t)
    then show ?thesis using assms found free by (auto simp: submit_change_def Let_def hash_conflict_def split: if_splits)
  next
    case new: None
    then obtain v where v: "find (\<lambda>v. transactionDigest sha (rw_transaction v) = ?d) (reviews_of r) = Some v"
      "st' = edited i (with_submitted now (lower hash) v) st" "own' = own"
      using assms found free by (auto simp: submit_change_def Let_def hash_conflict_def with_submitted_def [abs_def] split: if_splits option.splits)
    have "pr_reviews r \<noteq> Some []" using v(1) by (auto simp: reviews_of_def)
    moreover have "lower hash \<notin> set (map tk_hash (pr_transactions r))" using new by (auto simp: find_None_iff)
    ultimately show ?thesis using found v by blast
  qed
qed

lemma with_submitted_ledger:
  assumes "find_proposal i st = Some q" "lower hash \<notin> set (map tk_hash (pr_transactions q))" "pr_reviews q \<noteq> Some []"
    "st' = edited i (with_submitted now (lower hash) v) st" "ledger_ok st"
  shows "ledger_ok st' \<and> (backed sha k m st \<longrightarrow> backed sha k m st')"
proof -
  let ?f = "with_submitted now (lower hash) v"
  obtain us vs where u: "ag_proposals st = us @ q # vs" "pr_id q = i" "sound_proposal q"
    "\<And>f l. (edited i f st)\<lparr>ag_live := l\<rparr> = st\<lparr>ag_proposals := us @ f q # vs, ag_live := l\<rparr>"
    using edited_split [OF assms(1,5)] by blast
  have s: "sound_proposal (?f q)" using u(3) assms(2,3) by (simp add: with_submitted_def sound_proposal_def sound_tx_def)
  have st': "st' = st\<lparr>ag_proposals := us @ ?f q # vs, ag_live := ag_live st\<rparr>"
    using u(4) [where f = ?f and l = "ag_live st"] assms(4) by (simp add: edited_def)
  have "ledger_ok st'" unfolding st' by (rule replace_ok [OF assms(5) u(1) _ s]) (simp_all add: with_submitted_def)
  moreover have "backed sha k m st'" if b: "backed sha k m st"
    unfolding st' by (rule replace_backed [OF b u(1)])
      (use b u(1) in \<open>simp add: with_submitted_def backed_def backed_proposals_def backed_txs_def claims_verified_def\<close>)
  ultimately show ?thesis by blast
qed

interpretation submitting: ledger_change sha "submit_change sha now i hash sent" "\<lambda>_. True" for sha now i hash sent
proof
  fix st pf own st' own' r m
  assume "submit_change sha now i hash sent st pf own = ok (st', own', r)"
  note e = submitted [OF this]
  show "on_key own' = on_key own \<and> on_found own' = on_found own \<and> ag_ownership st' = ag_ownership st" using e by auto
  show "ledger_ok st'" if "ledger_ok st" using e with_submitted_ledger [OF _ _ _ _ that] that by blast
  show "knows m own \<and> (backed sha (on_key own) m st \<longrightarrow> backed sha (on_key own) m st')" if "ledger_ok st" "knows m own'"
    using e with_submitted_ledger [OF _ _ _ _ that(1)] that(2) by blast
qed simp

section \<open>Verified receipts\<close>

lemma not_other_reads:
  "\<not> owned_by_other own h i d \<Longrightarrow> knows m (own_claim own h i d) \<Longrightarrow> knows m own \<and> m (lower h) = Some (value_for (on_key own) i d)"
  using knows_claimed knows_unclaimed not_owned_by_other by blast

lemma settle_keeps:
  assumes "settle_tx sha i result t live own = (t', live', own')" "sound_tx t" "tk_status t = ''submitted''"
  shows "same_tx t t' \<and> sound_tx t' \<and> moves live [t] live' [t'] \<and> on_key own' = on_key own \<and> on_found own' = on_found own
    \<and> (knows m own' \<longrightarrow> knows m own \<and> backed_txs sha (on_key own) m i [t'])"
proof -
  let ?d = "transactionDigest sha (rw_transaction (tk_review t))"
  let ?seen = "t\<lparr>tk_status := vr_status result, tk_blockNumber := vr_blockNumber result, tk_paidAtoms := vr_paidAtoms result\<rparr>"
  have u: "\<not> tk_accounted t" "lower (tk_hash t) = tk_hash t" "\<not> tk_elsewhere t" using assms(2,3) by (auto simp: sound_tx_def)
  have s: "tx_digest sha ?seen = ?d" by (simp add: tx_digest_def)
  consider (pending) "\<not> List.member VERIFIED (vr_status result)" "t' = ?seen" "live' = live" "own' = own"
    | (other) "vr_status result \<noteq> ''submitted''" "t' = ?seen\<lparr>tk_elsewhere := True\<rparr>" "live' = live" "own' = own"
    | (bought) "\<not> owned_by_other own (tk_hash t) i ?d" "vr_status result = ''confirmed''" "tk_action t = ''buy''"
        "(t', live') = addConfirmedPurchase live ?seen" "own' = own_claim own (tk_hash t) i ?d"
    | (seen) "\<not> owned_by_other own (tk_hash t) i ?d" "t' = ?seen" "live' = live" "own' = own_claim own (tk_hash t) i ?d"
  proof (cases "List.member VERIFIED (vr_status result)")
    case False
    then show thesis using assms(1) pending by (simp add: settle_tx_def Let_def)
  next
    case v: True
    then have n: "vr_status result \<noteq> ''submitted''" by (auto simp: VERIFIED_def)
    show thesis
    proof (cases "owned_by_other own (tk_hash t) i ?d")
      case True
      then show thesis using assms(1) other v n by (simp add: settle_tx_def Let_def)
    next
      case False
      show thesis
      proof (cases "vr_status result = ''confirmed'' \<and> tk_action t = ''buy''")
        case True
        obtain d l where "addConfirmedPurchase live ?seen = (d, l)" by fastforce
        with True False v show thesis using assms(1) bought by (simp add: settle_tx_def Let_def)
      next
        case other_action: False
        have "(t', live', own') = (?seen, live, own_claim own (tk_hash t) i ?d)"
          unfolding assms(1) [symmetric] settle_tx_def Let_def if_not_P [OF other_action] using v False by simp
        then show thesis using seen False by simp
      qed
    qed
  qed
  then show ?thesis
  proof cases
    case pending
    then show ?thesis using u by (simp add: same_tx_def sound_tx_def moves_def backed_txs_def claims_verified_def)
  next
    case other
    then show ?thesis using u by (simp add: same_tx_def sound_tx_def moves_def backed_txs_def claims_verified_def)
  next
    case bought
    have a: "t' = ?seen\<lparr>tk_accounted := True\<rparr>" using add_fields bought(4) by metis
    have "moves live [t] live' [t']" using moves_add [OF bought(4) [symmetric]] u(1) by (simp add: moves_def)
    then show ?thesis using a u bought not_other_reads [OF bought(1)]
      by (auto simp: same_tx_def sound_tx_def backed_txs_def tx_digest_def)
  next
    case seen
    then show ?thesis using u not_other_reads [OF seen(1)] by (auto simp: same_tx_def sound_tx_def moves_def backed_txs_def tx_digest_def)
  qed
qed

lemma settle_owner: "settle_tx sha i result t live own = (d, l, own') \<Longrightarrow> on_key own' = on_key own \<and> on_found own' = on_found own"
  by (auto simp: settle_tx_def Let_def split: if_splits prod.splits)

lemma moves_inside: "moves l [t] l' [d] \<Longrightarrow> moves l (us @ t # vs) l' (us @ d # vs)"
  by (simp add: moves_def)

lemma replace_tx:
  assumes "find (\<lambda>t. tk_hash t = h) ts = Some t" "distinct (map tk_hash ts)"
  obtains us vs where "ts = us @ t # vs" "\<And>d. map (\<lambda>x. if tk_hash x = tk_hash t then d else x) ts = us @ d # vs"
proof -
  have "t \<in> set ts" using assms(1) by (metis find_Some_iff nth_mem)
  then obtain us vs where ts: "ts = us @ t # vs" by (meson split_list)
  then have n: "tk_hash t \<notin> set (map tk_hash (us @ vs))" using assms(2) by auto
  have m: "map (\<lambda>x. if tk_hash x = tk_hash t then d else x) ys = ys" if "tk_hash t \<notin> set (map tk_hash ys)" for d ys
    by (rule map_idI) (use that in \<open>auto simp: image_iff\<close>)
  then have "map (\<lambda>x. if tk_hash x = tk_hash t then d else x) ts = us @ d # vs" for d
    using ts n m [of us d] m [of vs d] by simp
  then show thesis using that ts by blast
qed

definition with_settled :: "int \<Rightarrow> receipt_check \<Rightarrow> tracked \<Rightarrow> tracked \<Rightarrow> agent_proposal \<Rightarrow> agent_proposal" where
  "with_settled now result t d r =
     (let r' = r\<lparr>pr_transactions := map (\<lambda>x. if tk_hash x = tk_hash t then d else x) (pr_transactions r)\<rparr> in
      bumped now (r'\<lparr>pr_status := settled_status result d r'\<rparr>))"

lemma with_settled_fields [simp]: "pr_id (with_settled now result t d r) = pr_id r" "pr_reviews (with_settled now result t d r) = pr_reviews r"
  "pr_transactions (with_settled now result t d r) = map (\<lambda>x. if tk_hash x = tk_hash t then d else x) (pr_transactions r)"
  by (simp_all add: with_settled_def Let_def)

lemma checked:
  assumes "check_change sha now i h result st pf own = ok (st', own', u)"
  shows "(st' = st \<and> own' = own) \<or> (\<exists>r t d live. find_proposal i st = Some r \<and> find (\<lambda>t. tk_hash t = h) (pr_transactions r) = Some t
    \<and> tk_status t = ''submitted'' \<and> settle_tx sha (pr_id r) result t (ag_live st) own = (d, live, own')
    \<and> st' = (edited i (with_settled now result t d) st)\<lparr>ag_live := live\<rparr>)"
  using assms
  by (auto simp: check_change_def with_settled_def [abs_def] Let_def split: option.splits if_splits prod.splits)

lemma with_settled_ledger:
  assumes "find_proposal i st = Some r" "find (\<lambda>t. tk_hash t = h) (pr_transactions r) = Some t" "tk_status t = ''submitted''"
    "settle_tx sha (pr_id r) result t (ag_live st) own = (d, live, own')"
    "st' = (edited i (with_settled now result t d) st)\<lparr>ag_live := live\<rparr>" "ledger_ok st"
  shows "ledger_ok st' \<and> on_key own' = on_key own \<and> on_found own' = on_found own \<and> ag_ownership st' = ag_ownership st
    \<and> (knows m own' \<longrightarrow> knows m own \<and> (backed sha (on_key own) m st \<longrightarrow> backed sha (on_key own) m st'))"
proof -
  let ?f = "with_settled now result t d"
  obtain us vs where u: "ag_proposals st = us @ r # vs" "pr_id r = i" "sound_proposal r"
    "\<And>f l. (edited i f st)\<lparr>ag_live := l\<rparr> = st\<lparr>ag_proposals := us @ f r # vs, ag_live := l\<rparr>"
    using edited_split [OF assms(1,6)] by blast
  have dist: "distinct (map tk_hash (pr_transactions r))" using u(3) by (simp add: sound_proposal_def)
  obtain xs ys where x: "pr_transactions r = xs @ t # ys"
    "\<And>d. map (\<lambda>x. if tk_hash x = tk_hash t then d else x) (pr_transactions r) = xs @ d # ys"
    using replace_tx [OF assms(2) dist] by blast
  have f: "pr_transactions (?f r) = xs @ d # ys" "pr_id (?f r) = pr_id r" "pr_reviews (?f r) = pr_reviews r"
    by (simp_all only: with_settled_fields x(2))
  have t: "sound_tx t" using u(3) x(1) by (simp add: sound_proposal_def)
  have k: "same_tx t d" "sound_tx d" "moves (ag_live st) [t] live [d]" "on_key own' = on_key own" "on_found own' = on_found own"
    "knows m own' \<longrightarrow> knows m own \<and> backed_txs sha (on_key own) m (pr_id r) [d]"
    using settle_keeps [OF assms(4) t assms(3), of m] by blast+
  have h: "map tk_hash (xs @ d # ys) = map tk_hash (xs @ t # ys)" using k(1) by (simp add: same_tx_def)
  have s: "sound_proposal (?f r)"
    using u(3) k(2) unfolding sound_proposal_def f x(1) h [symmetric] by simp
  have st': "st' = st\<lparr>ag_proposals := us @ ?f r # vs, ag_live := live\<rparr>" using u(4) assms(5) by simp
  have "ledger_ok st'" unfolding st'
    by (rule replace_ok [OF assms(6) u(1) f(2) s]) (unfold f x(1), rule moves_inside [OF k(3)])
  moreover have "backed sha (on_key own) m st'" if b: "backed sha (on_key own) m st" "knows m own'"
  proof -
    have "backed_txs sha (on_key own) m (pr_id r) (xs @ t # ys)"
      using b(1) unfolding backed_def backed_proposals_def u(1) x(1) [symmetric] by simp
    then have "backed_txs sha (on_key own) m (pr_id (?f r)) (pr_transactions (?f r))"
      using k(6) b(2) unfolding f by (simp add: backed_txs_def)
    then show ?thesis unfolding st' by (rule replace_backed [OF b(1) u(1)])
  qed
  ultimately show ?thesis using k(4-6) by (simp add: st')
qed

interpretation receipts: ledger_change sha "check_change sha now i h result" "\<lambda>_. True" for sha now i h result
proof
  fix st pf own st' own' r m
  assume c: "check_change sha now i h result st pf own = ok (st', own', r)"
  note e = checked [OF c]
  show "ledger_ok st'" if "ledger_ok st" using e with_settled_ledger [OF _ _ _ _ _ that] that by blast
  show "knows m own \<and> (backed sha (on_key own) m st \<longrightarrow> backed sha (on_key own) m st')" if "ledger_ok st" "knows m own'"
    using e with_settled_ledger [OF _ _ _ _ _ that(1)] that(2) by blast
  show "on_key own' = on_key own \<and> on_found own' = on_found own \<and> ag_ownership st' = ag_ownership st"
    using e settle_owner by fastforce
qed simp

section \<open>Executions\<close>

lemma edit_execution_split:
  assumes "find (\<lambda>e. ex_hash e = h) es = Some e"
  obtains us vs where "es = us @ e # vs" "ex_hash e = h" "\<And>f. edit_execution h f es = us @ f e # vs"
proof -
  have "\<exists>us vs. es = us @ e # vs \<and> ex_hash e = h \<and> (\<forall>f. edit_execution h f es = us @ f e # vs)"
    using assms
  proof (induction es)
    case Nil
    then show ?case by simp
  next
    case (Cons x es)
    show ?case
    proof (cases "ex_hash x = h")
      case True
      then show ?thesis using Cons.prems by (intro exI [of _ "[]"] exI [of _ es]) simp
    next
      case False
      then obtain us vs where "es = us @ e # vs" "ex_hash e = h" "\<forall>f. edit_execution h f es = us @ f e # vs" using Cons by auto
      then show ?thesis using False by (intro exI [of _ "x # us"] exI [of _ vs]) simp
    qed
  qed
  then show thesis using that by blast
qed

lemma runtime_replaced:
  assumes "ledger_ok st" "list_all (\<lambda>e. lower (ex_hash e) = ex_hash e) (ru_executions r)"
  shows "ledger_ok (st\<lparr>ag_runtime := Some r\<rparr>)"
  using assms by (simp add: ledger_ok_def txs_of_def)

lemma runtime_backed: "backed sha k m (st\<lparr>ag_runtime := Some r\<rparr>) = (backed_proposals sha k m (ag_proposals st) \<and> backed_executions k m (ru_executions r))"
  by (simp add: backed_def)

text \<open>One execution of the list takes a new status; it is verified only if its hash is claimed for it.\<close>

lemma execution_edit_keeps:
  assumes "find (\<lambda>e. ex_hash e = h) (ru_executions (runtime_of st)) = Some e" "\<And>x. ex_hash (f x) = ex_hash x"
    "ru_executions r = edit_execution h f (ru_executions (runtime_of st))" "ledger_ok st"
  shows "ledger_ok (st\<lparr>ag_runtime := Some r\<rparr>)"
    "backed sha k m st \<Longrightarrow> (List.member VERIFIED (ex_status (f e)) \<Longrightarrow> \<exists>d. m (lower h) = Some (value_for k (execution_id h) d))
      \<Longrightarrow> backed sha k m (st\<lparr>ag_runtime := Some r\<rparr>)"
proof -
  obtain us vs where u: "ru_executions (runtime_of st) = us @ e # vs" "ex_hash e = h"
    "\<And>f. edit_execution h f (ru_executions (runtime_of st)) = us @ f e # vs"
    using edit_execution_split [OF assms(1)] by blast
  have r: "ru_executions r = us @ f e # vs" using assms(3) u(3) by simp
  show "ledger_ok (st\<lparr>ag_runtime := Some r\<rparr>)"
    by (rule runtime_replaced [OF assms(4)]) (use assms(4) u(1) assms(2) r in \<open>simp add: ledger_ok_def\<close>)
  show "backed sha k m (st\<lparr>ag_runtime := Some r\<rparr>)" if "backed sha k m st"
    "List.member VERIFIED (ex_status (f e)) \<Longrightarrow> \<exists>d. m (lower h) = Some (value_for k (execution_id h) d)"
    using that u(1,2) assms(2) r unfolding runtime_backed by (simp add: backed_def backed_executions_def)
qed

definition settled_execution :: "string \<Rightarrow> int option \<Rightarrow> execution \<Rightarrow> execution" where
  "settled_execution status collateral e = e\<lparr>ex_status := status, ex_collateralAtoms := collateral\<rparr>"

lemma settled_execution_fields [simp]: "ex_hash (settled_execution s c e) = ex_hash e" "ex_status (settled_execution s c e) = s"
  by (simp_all add: settled_execution_def)

lemma unverified_words [simp]: "''recorded'' \<notin> set VERIFIED" "''pending'' \<notin> set VERIFIED" "''attributed-elsewhere'' \<notin> set VERIFIED"
  by (simp_all add: VERIFIED_def)

lemma execution_checked:
  assumes "check_execution_change h result st pf own = ok (st', own', u)"
  obtains "st' = st" "own' = own"
  | e f r where "find (\<lambda>e. ex_hash e = h) (ru_executions (runtime_of st)) = Some e" "\<And>x. ex_hash (f x) = ex_hash x"
      "ru_executions r = edit_execution h f (ru_executions (runtime_of st))" "st' = st\<lparr>ag_runtime := Some r\<rparr>"
      "own' = own \<and> \<not> List.member VERIFIED (ex_status (f e)) \<or>
       \<not> owned_by_other own h (execution_id h) (vx_digest result) \<and> own' = own_claim own h (execution_id h) (vx_digest result)"
proof (cases "find (\<lambda>e. ex_hash e = h) (ru_executions (runtime_of st))")
  case None
  then show thesis using assms that(1) by (simp add: check_execution_change_def)
next
  case (Some e)
  let ?other = "owned_by_other own h (execution_id h) (vx_digest result)"
  let ?v = "List.member VERIFIED (vx_status result)"
  let ?status = "if ?v \<and> ?other then ''attributed-elsewhere'' else vx_status result"
  let ?c = "if ?status = ''confirmed'' then vx_collateralAtoms result else None"
  show thesis
  proof (cases "List.member FINAL_EXECUTION (ex_status e)")
    case True
    then show thesis using assms that(1) Some by (simp add: check_execution_change_def Let_def)
  next
    case new: False
    show thesis
    proof (cases "List.member [''unknown'', ''pending'', ''confirming''] (vx_status result)")
      case True
      let ?f = "\<lambda>e. e\<lparr>ex_status := if vx_status result = ''unknown'' then ''recorded'' else ''pending''\<rparr>"
      show thesis
        by (rule that(2) [OF Some, of ?f "runtime_of st\<lparr>ru_executions := edit_execution h ?f (ru_executions (runtime_of st))\<rparr>"])
          (use assms Some new True in \<open>simp_all add: check_execution_change_def Let_def\<close>)
    next
      case False
      let ?f = "settled_execution ?status ?c"
      let ?rt = "runtime_of st\<lparr>ru_executions := edit_execution h ?f (ru_executions (runtime_of st)),
        ru_totals := account_execution (ru_totals (runtime_of st)) (ex_action e) ?status ?c\<rparr>"
      have e: "st' = st\<lparr>ag_runtime := Some ?rt\<rparr>" "own' = (if ?v \<and> \<not> ?other then own_claim own h (execution_id h) (vx_digest result) else own)"
        using assms unfolding check_execution_change_def Let_def Some option.case if_not_P [OF new] if_not_P [OF False]
          settled_execution_def [abs_def] by (simp_all only: sum.inject prod.inject)
      show thesis by (rule that(2) [OF Some _ _ e(1)]) (use e(2) in \<open>auto split: if_splits\<close>)
    qed
  qed
qed

interpretation executing: ledger_change sha "check_execution_change h result" "\<lambda>_. True" for sha h result
proof
  fix st pf own st' own' r m
  assume c: "check_execution_change h result st pf own = ok (st', own', r)"
  show "on_key own' = on_key own \<and> on_found own' = on_found own \<and> ag_ownership st' = ag_ownership st"
    by (rule execution_checked [OF c]) auto
  show "ledger_ok st'" if "ledger_ok st"
    by (rule execution_checked [OF c]) (use that execution_edit_keeps(1) in blast)+
  show "knows m own \<and> (backed sha (on_key own) m st \<longrightarrow> backed sha (on_key own) m st')" if l: "ledger_ok st" and n: "knows m own'"
  proof (rule execution_checked [OF c])
    fix e f r
    assume a: "find (\<lambda>e. ex_hash e = h) (ru_executions (runtime_of st)) = Some e" "\<And>x. ex_hash (f x) = ex_hash x"
      "ru_executions r = edit_execution h f (ru_executions (runtime_of st))" "st' = st\<lparr>ag_runtime := Some r\<rparr>"
      "own' = own \<and> \<not> List.member VERIFIED (ex_status (f e)) \<or>
       \<not> owned_by_other own h (execution_id h) (vx_digest result) \<and> own' = own_claim own h (execution_id h) (vx_digest result)"
    have k: "knows m own" using a(5) n not_other_reads by blast
    have v: "\<exists>d. m (lower h) = Some (value_for (on_key own) (execution_id h) d)" if "List.member VERIFIED (ex_status (f e))"
      using a(5) n that not_other_reads by blast
    have "backed sha (on_key own) m st'" if b: "backed sha (on_key own) m st"
      unfolding a(4) by (rule execution_edit_keeps(2) [where f = f, OF a(1-3) l b v])
    then show ?thesis using k by blast
  qed (use n in simp)
qed simp

lemma execution_reported:
  assumes "report_execution_change entry st pf own = ok (st', own', u)"
  shows "own' = own \<and> (st' = st \<or> (\<exists>r e. st' = st\<lparr>ag_runtime := Some r\<rparr> \<and> ru_executions r = e # ru_executions (runtime_of st)
    \<and> ex_hash e = ex_hash entry \<and> ex_status e = ''recorded''))"
proof (cases "find (\<lambda>e. ex_hash e = ex_hash entry) (ru_executions (runtime_of st))")
  case None
  let ?e = "entry\<lparr>ex_status := ''recorded'', ex_collateralAtoms := None\<rparr>"
  have "own' = own \<and> st' = st\<lparr>ag_runtime := Some (runtime_of st\<lparr>ru_executions := ?e # ru_executions (runtime_of st)\<rparr>)\<rparr>"
    using assms unfolding report_execution_change_def Let_def None option.case(1)
    by (simp add: hash_conflict_def split: if_splits)
  then show ?thesis by fastforce
next
  case (Some e)
  then show ?thesis using assms by (simp add: report_execution_change_def Let_def hash_conflict_def split: if_splits)
qed

interpretation reporting: ledger_change sha "report_execution_change entry" "\<lambda>_. lower (ex_hash entry) = ex_hash entry" for sha entry
proof
  fix st pf own st' own' r m
  assume "report_execution_change entry st pf own = ok (st', own', r)"
  note e = execution_reported [OF this]
  show "on_key own' = on_key own \<and> on_found own' = on_found own \<and> ag_ownership st' = ag_ownership st" using e by auto
  show "ledger_ok st'" if "lower (ex_hash entry) = ex_hash entry" "ledger_ok st"
  proof (cases "st' = st")
    case False
    then obtain q x where q: "st' = st\<lparr>ag_runtime := Some q\<rparr>" "ru_executions q = x # ru_executions (runtime_of st)" "ex_hash x = ex_hash entry"
      using e by blast
    show ?thesis unfolding q(1) by (rule runtime_replaced [OF that(2)]) (use q that in \<open>simp add: ledger_ok_def\<close>)
  qed (use that in simp)
  show "knows m own \<and> (backed sha (on_key own) m st \<longrightarrow> backed sha (on_key own) m st')" if n: "knows m own'"
  proof (cases "st' = st")
    case False
    then obtain q x where q: "st' = st\<lparr>ag_runtime := Some q\<rparr>" "ru_executions q = x # ru_executions (runtime_of st)" "ex_status x = ''recorded''"
      using e by blast
    show ?thesis using n e q(2,3) unfolding q(1) runtime_backed by (simp add: backed_def backed_executions_def)
  qed (use n e in simp)
qed simp

end
