(* ===== verification/Agent_Runs.thy ===== *)
theory Agent_Runs
  imports Agent_Changes
begin

text \<open>
  The store over time: histories of the stores that were ever current, newest first. A change reads the
  profile and the state from any store of the history, is told the owner of each hash from any store of it,
  and writes to the newest one; the account's own operations act on the newest one. Nothing is assumed of
  locks: what is proved rests on the atomic write alone.
\<close>

section \<open>Reading\<close>

definition state_backed :: "(string \<Rightarrow> string) \<Rightarrow> (string \<rightharpoonup> owner_value) \<Rightarrow> agent_key \<Rightarrow> agent_state \<Rightarrow> bool" where
  "state_backed sha m k st = (ledger_ok st \<and> backed_executions k m (ru_executions (runtime_of st))
     \<and> (OWNERSHIP \<le> ag_ownership st \<longrightarrow> backed sha k m st))"

text \<open>Records of the first store: none was counted yet.\<close>

definition legacy_tx :: "tracked \<Rightarrow> bool" where
  "legacy_tx t = (\<not> tk_accounted t \<and> \<not> tk_elsewhere t)"

definition legacy_ok :: "legacy list \<Rightarrow> bool" where
  "legacy_ok l = (let ps = List.map_filter legacy_proposal l in distinct (map pr_id ps) \<and> list_all sound_proposal ps
     \<and> list_all (\<lambda>p. list_all legacy_tx (pr_transactions p)) ps)"

lemma add_review_nonempty: "out \<noteq> [] \<Longrightarrow> foldl (add_review sha) out vs \<noteq> []"
  by (induction vs arbitrary: out) (simp_all add: add_review_def)

lemma add_reviews_empty: "foldl (add_review sha) [] vs = [] \<Longrightarrow> vs = []"
  by (cases vs) (auto simp: add_review_def add_review_nonempty)

lemma no_reviews_no_transactions: "reviewsOf sha p = [] \<Longrightarrow> pr_transactions p = []"
  unfolding reviewsOf_def by (drule add_reviews_empty) simp

lemma normalize_fields [simp]: "pr_id (normalize_proposal sha p) = pr_id p"
  "pr_transactions (normalize_proposal sha p) = pr_transactions p"
  by (simp_all add: normalize_proposal_def)

lemma normalize_sound: "sound_proposal p \<Longrightarrow> sound_proposal (normalize_proposal sha p)"
  by (auto simp: sound_proposal_def normalize_proposal_def dest: no_reviews_no_transactions split: option.splits)

lemma normalize_runtime [simp]: "runtime_of (normalize sha st) = runtime_of st"
  by (simp add: runtime_of_def normalize_def split: option.splits)

lemma normalize_ledger: "ledger_ok st \<Longrightarrow> ledger_ok (normalize sha st)"
  unfolding ledger_ok_def normalize_runtime
  by (auto simp: normalize_def txs_of_def comp_def list_all_iff normalize_sound)

lemma normalize_backed: "backed sha k m (normalize sha st) = backed sha k m st"
  by (simp add: backed_def backed_proposals_def list_all_iff) (simp add: normalize_def)

lemma normalize_state: "state_backed sha m k st \<Longrightarrow> state_backed sha m k (normalize sha st)"
  unfolding state_backed_def normalize_backed normalize_runtime using normalize_ledger by (simp add: normalize_def)

lemma account_transactions_keeps:
  assumes "account_transactions confirmed live ts = (ts', live')" "list_all sound_tx ts" "list_all legacy_tx ts"
  shows "list_all2 same_tx ts ts' \<and> list_all sound_tx ts' \<and> moves live ts live' ts'"
  using assms
proof (induction ts arbitrary: live ts' live')
  case Nil
  then show ?case by simp
next
  case (Cons t ts)
  obtain t1 l1 where one: "(if confirmed \<and> tk_action t = ''buy'' \<and> tk_status t = ''confirmed'' then addConfirmedPurchase live t else (t, live)) = (t1, l1)"
    by fastforce
  obtain ts1 l2 where rest: "account_transactions confirmed l1 ts = (ts1, l2)" by fastforce
  have e: "ts' = t1 # ts1" "live' = l2" using Cons.prems(1) by (simp_all only: account_transactions.simps one rest prod.case Let_def prod.inject)
  have t: "sound_tx t" "legacy_tx t" using Cons.prems(2,3) by simp_all
  have r: "list_all2 same_tx ts ts1 \<and> list_all sound_tx ts1 \<and> moves l1 ts l2 ts1" using Cons.IH [OF rest] Cons.prems(2,3) by simp
  have h: "same_tx t t1 \<and> sound_tx t1 \<and> moves live [t] l1 [t1]"
  proof (cases "confirmed \<and> tk_action t = ''buy'' \<and> tk_status t = ''confirmed''")
    case True
    then have a: "addConfirmedPurchase live t = (t1, l1)" using one by simp
    then show ?thesis using add_fields [OF a] moves_add [OF a] True t by (simp add: same_tx_def sound_tx_def legacy_tx_def)
  next
    case False
    then show ?thesis using one t by (auto simp: same_tx_def)
  qed
  show ?case using h r e moves_append [of live "[t]" l1 "[t1]" ts l2 ts1] by simp
qed

lemma account_proposals_keeps:
  assumes "account_proposals ds live ps = (ps', live')" "list_all sound_proposal ps" "list_all (\<lambda>p. list_all legacy_tx (pr_transactions p)) ps"
  shows "map pr_id ps' = map pr_id ps \<and> list_all sound_proposal ps'
    \<and> moves live (concat (map pr_transactions ps)) live' (concat (map pr_transactions ps'))"
  using assms
proof (induction ps arbitrary: live ps' live')
  case Nil
  then show ?case by simp
next
  case (Cons p ps)
  obtain ts l1 where one: "account_transactions (pr_status p = ''confirmed'') live (pr_transactions p) = (ts, l1)" by fastforce
  obtain ps1 l2 where rest: "account_proposals ds l1 ps = (ps1, l2)" by fastforce
  obtain d where e: "ps' = p\<lparr>pr_decision := d, pr_transactions := ts\<rparr> # ps1" "live' = l2"
    using Cons.prems(1) one rest by (auto simp: Let_def)
  have s: "sound_proposal p" "list_all sound_tx (pr_transactions p)" "list_all legacy_tx (pr_transactions p)"
    using Cons.prems(2,3) by (simp_all add: sound_proposal_def [of p])
  note h = account_transactions_keeps [OF one s(2,3)]
  have r: "map pr_id ps1 = map pr_id ps \<and> list_all sound_proposal ps1
    \<and> moves l1 (concat (map pr_transactions ps)) l2 (concat (map pr_transactions ps1))" using Cons.IH [OF rest] Cons.prems(2,3) by simp
  have "sound_proposal (p\<lparr>pr_decision := d, pr_transactions := ts\<rparr>)"
  proof -
    have "map tk_hash ts = map tk_hash (pr_transactions p)" using h same_hashes by blast
    moreover have "pr_transactions p = [] \<Longrightarrow> ts = []" using h by auto
    ultimately show ?thesis using s(1) h by (auto simp: sound_proposal_def)
  qed
  moreover have "moves live (pr_transactions p @ concat (map pr_transactions ps)) l2 (ts @ concat (map pr_transactions ps1))"
    using h r moves_append by blast
  ultimately show ?case using r e by simp
qed

lemma none_counted: "\<forall>t\<in>set ts. \<not> tk_accounted t \<Longrightarrow> counted ts = 0 \<and> counted_cost ts = 0 \<and> counted_unknown ts = 0"
  by (induction ts) simp_all

lemma migrate_state:
  assumes "legacy_ok l"
  shows "state_backed sha m k (migrateLegacy l)"
proof -
  let ?ps = "List.map_filter legacy_proposal l" and ?marked = "foldl (\<lambda>ds r. mark_filled r ds) (List.map_filter legacy_decision l) (List.map_filter legacy_paper l)"
  obtain ps live where a: "account_proposals ?marked (ag_live emptyState) ?ps = (ps, live)" by fastforce
  have s: "list_all sound_proposal ?ps" "list_all (\<lambda>p. list_all legacy_tx (pr_transactions p)) ?ps" "distinct (map pr_id ?ps)"
    using assms by (simp_all add: legacy_ok_def Let_def)
  note h = account_proposals_keeps [OF a s(1,2)]
  have c: "\<not> tk_accounted t" if "t \<in> set (concat (map pr_transactions ?ps))" for t
    using s(2) that by (auto simp: list_all_iff legacy_tx_def)
  then have z: "counted (concat (map pr_transactions ?ps)) = 0" "counted_cost (concat (map pr_transactions ?ps)) = 0"
    "counted_unknown (concat (map pr_transactions ?ps)) = 0"
    using none_counted [of "concat (map pr_transactions ?ps)"] by blast+
  have live: "ag_live (migrateLegacy l) = live\<lparr>lv_incomplete := length l \<ge> LEGACY_CAP\<rparr>" "ag_proposals (migrateLegacy l) = ps"
    "ag_ownership (migrateLegacy l) = 0" "runtime_of (migrateLegacy l) = emptyRuntime"
    using a by (simp_all add: migrateLegacy_def Let_def emptyState_def runtime_of_def)
  have "exact_totals (ag_live (migrateLegacy l)) (txs_of (migrateLegacy l))"
    using h z unfolding exact_totals_def txs_of_def live by (simp add: moves_def emptyState_def)
  then show ?thesis using h s(3)
    unfolding state_backed_def ledger_ok_def live by (simp add: emptyRuntime_def backed_executions_def OWNERSHIP_def)
qed

lemma empty_state: "state_backed sha m k emptyState"
  by (simp add: state_backed_def ledger_ok_def emptyState_def emptyRuntime_def runtime_of_def txs_of_def exact_totals_def
    backed_def backed_proposals_def backed_executions_def)

section \<open>Writing\<close>

lemma trimmed_sound: "sound_proposal (p\<lparr>pr_decision := None\<rparr>) = sound_proposal p"
  by (simp add: sound_proposal_def)

lemma keep_sound: "list_all sound_proposal ps \<Longrightarrow> list_all sound_proposal (keep_proposals u n ps)"
  by (induction u n ps rule: keep_proposals.induct) (simp_all add: trimmed_sound)

lemma keep_transactions:
  "list_all sound_proposal ps \<Longrightarrow> concat (map pr_transactions (keep_proposals u n ps)) = concat (map pr_transactions ps)"
  by (induction u n ps rule: keep_proposals.induct) (simp_all add: sound_proposal_def)

lemma keep_id: "p \<in> set (keep_proposals u n ps) \<Longrightarrow> pr_id p \<in> pr_id ` set ps"
  by (induction u n ps rule: keep_proposals.induct) (auto split: if_splits)

lemma keep_ids: "set (map pr_id (keep_proposals u n ps)) \<subseteq> set (map pr_id ps)"
  using keep_id by fastforce

lemma keep_distinct: "distinct (map pr_id ps) \<Longrightarrow> distinct (map pr_id (keep_proposals u n ps))"
proof (induction u n ps rule: keep_proposals.induct)
  case (2 u n p ps)
  have "pr_id p \<notin> set (map pr_id (keep_proposals u i ps))" for i using keep_ids [of u i ps] 2(5) by auto
  then show ?case using 2 by simp
qed simp

lemma keep_backed: "backed_proposals sha k m ps \<Longrightarrow> backed_proposals sha k m (keep_proposals u n ps)"
  by (induction u n ps rule: keep_proposals.induct) (simp_all add: backed_proposals_def)

lemma keep_executions_subset: "set (keep_executions n es) \<subseteq> set es"
  by (induction n es rule: keep_executions.induct) auto

lemma retain_runtime_of: "ru_executions (runtime_of (retain u st)) = keep_executions 0 (ru_executions (runtime_of st))"
  by (simp add: runtime_of_def retain_def retain_runtime_def emptyRuntime_def split: option.splits)

lemma retain_fields [simp]: "ag_proposals (retain u st) = keep_proposals u 0 (ag_proposals st)" "ag_live (retain u st) = ag_live st"
  "ag_ownership (retain u st) = ag_ownership st"
  by (simp_all add: retain_def)

lemma keep_all: "list_all P es \<Longrightarrow> list_all P (keep_executions n es)"
  using keep_executions_subset by (fastforce simp: list_all_iff)

lemma retain_state: "state_backed sha m k st \<Longrightarrow> state_backed sha m k (retain u st)"
  unfolding state_backed_def ledger_ok_def backed_def backed_executions_def retain_runtime_of retain_fields txs_of_def
  by (simp add: keep_sound keep_transactions keep_distinct keep_backed keep_all)

text \<open>New owners are added, and none is replaced.\<close>

lemma set_new_eq: "set_new owned m = map_of owned ++ m"
proof -
  have "foldl (\<lambda>m (h, v). if m h = None then m(h \<mapsto> v) else m) m owned = map_of owned ++ m"
  proof (induction owned arbitrary: m)
    case Nil
    then show ?case by simp
  next
    case (Cons c owned)
    obtain h v where c: "c = (h, v)" by fastforce
    have "map_of owned ++ (if m h = None then m(h \<mapsto> v) else m) = (map_of owned)(h \<mapsto> v) ++ m"
      by (auto simp: fun_eq_iff map_add_def split: option.splits)
    then show ?case using Cons.IH [of "if m h = None then m(h \<mapsto> v) else m"] c by (simp add: fun_upd_def)
  qed
  then show ?thesis by (simp add: set_new_def)
qed

lemma set_new_le: "m \<subseteq>\<^sub>m set_new owned m"
  by (simp add: set_new_eq map_le_map_add)

lemma set_new_claims:
  assumes "\<not> list_ex (owned_elsewhere s) owned"
  shows "map_of owned \<subseteq>\<^sub>m set_new owned (so_owners s)"
proof (unfold map_le_def, intro ballI)
  fix h
  assume "h \<in> dom (map_of owned)"
  then obtain v where v: "map_of owned h = Some v" by blast
  then have "(h, v) \<in> set owned" by (rule map_of_SomeD)
  then have "so_owners s h = None \<or> so_owners s h = Some v" using assms by (auto simp: list_ex_iff owned_elsewhere_def split: option.splits)
  then show "map_of owned h = set_new owned (so_owners s) h" using v by (auto simp: set_new_eq map_add_def)
qed

section \<open>One attempt\<close>

definition slot_ok :: "(string \<Rightarrow> string) \<Rightarrow> (string \<rightharpoonup> owner_value) \<Rightarrow> agent_key \<Rightarrow> agent_state option \<Rightarrow> legacy list option \<Rightarrow> bool" where
  "slot_ok sha m k state l = (case state of Some st \<Rightarrow> state_backed sha m k st
     | None \<Rightarrow> (case l of None \<Rightarrow> True | Some l \<Rightarrow> legacy_ok l))"

definition store_ok :: "(string \<Rightarrow> string) \<Rightarrow> store \<Rightarrow> bool" where
  "store_ok sha s = (\<forall>k. slot_ok sha (so_owners s) k (so_states s k) (so_legacy s k))"

text \<open>What an earlier store still says of a later one.\<close>

definition past_of :: "store \<Rightarrow> store \<Rightarrow> bool" where
  "past_of t s = (so_owners t \<subseteq>\<^sub>m so_owners s \<and> (\<forall>k. so_revs t k \<le> so_revs s k
     \<and> (so_revs t k = so_revs s k \<longrightarrow> so_states t k = so_states s k \<and> so_legacy t k = so_legacy s k)))"

lemma past_of_refl [simp]: "past_of s s"
  by (simp add: past_of_def)

lemma past_of_trans: "past_of r s \<Longrightarrow> past_of s t \<Longrightarrow> past_of r t"
  unfolding past_of_def by (metis map_le_trans order_antisym order_trans)

lemma read_state: "store_ok sha s \<Longrightarrow> state_backed sha (so_owners s) k (snd (readState sha s k))"
  unfolding store_ok_def readState_def slot_ok_def
  by (drule spec [of _ k]) (auto simp: normalize_state migrate_state empty_state split: option.splits)

lemma read_past:
  assumes "past_of t s" "so_revs t k = so_revs s k"
  shows "readState sha t k = readState sha s k"
proof -
  have a: "so_states t k = so_states s k" "so_legacy t k = so_legacy s k" using assms unfolding past_of_def by blast+
  show ?thesis unfolding readState_def a assms(2) ..
qed

lemma executions_mono: "m \<subseteq>\<^sub>m m' \<Longrightarrow> backed_executions k m es \<Longrightarrow> backed_executions k m' es"
  unfolding backed_executions_def list_all_iff map_le_def by (metis domI)

lemma backed_mono: "m \<subseteq>\<^sub>m m' \<Longrightarrow> backed sha k m st \<Longrightarrow> backed sha k m' st"
  unfolding backed_def backed_proposals_def backed_txs_def list_all_iff using executions_mono by (simp add: map_le_def) (metis domI)

lemma state_backed_mono: "m \<subseteq>\<^sub>m m' \<Longrightarrow> state_backed sha m k st \<Longrightarrow> state_backed sha m' k st"
  unfolding state_backed_def using backed_mono executions_mono by blast

lemma slot_mono: "m \<subseteq>\<^sub>m m' \<Longrightarrow> slot_ok sha m k x l \<Longrightarrow> slot_ok sha m' k x l"
  unfolding slot_ok_def using state_backed_mono by (auto split: option.splits)

context ledger_change
begin

text \<open>An attempt that is saved computed from the newest state, and leaves every state backed.\<close>

lemma attempt_keeps:
  assumes "store_ok sha s" "past_of earlier s" "found \<subseteq>\<^sub>m so_owners s" "fresh (snd (readState sha earlier k))"
    "attempt sha u change k earlier found s = (out, s')"
  shows "store_ok sha s' \<and> past_of s s' \<and> so_profiles s' = so_profiles s \<and> so_wallets s' = so_wallets s"
proof (cases "s' = s")
  case True
  then show ?thesis using assms(1) by simp
next
  case False
  obtain profile where p: "so_profiles earlier k = Some profile" using assms(5) False by (auto simp: attempt_def split: option.splits)
  obtain revision st where r: "readState sha earlier k = (revision, st)" by fastforce
  obtain st' own' x where c: "compute sha change k profile found st = ok (st', own', x)"
    using assms(5) False p r by (cases "compute sha change k profile found st") (auto simp: attempt_def)
  obtain s1 where w: "save k revision (retain u st') (on_claims own') s = (Saved, s1)" "s' = s1\<lparr>so_legacy := (so_legacy s1)(k := None)\<rparr>"
    using assms(5) False p r c
    by (auto simp: attempt_def commit_def save_def split: if_splits)
  have free: "\<not> list_ex (owned_elsewhere s) (on_claims own')" and rev: "revision = so_revs s k"
    using w(1) by (auto simp: save_def split: if_splits)
  let ?m = "set_new (on_claims own') (so_owners s)"
  have s1: "s1 = s\<lparr>so_owners := ?m, so_states := (so_states s)(k \<mapsto> retain u st'), so_revs := (so_revs s)(k := revision + 1)\<rparr>"
    using w(1) by (auto simp: save_def split: if_splits)
  have "so_revs earlier k = so_revs s k" using r rev by (simp add: readState_def)
  then have "readState sha s k = (revision, st)" using read_past [OF assms(2)] r by simp
  then have now_ok: "state_backed sha (so_owners s) k st" using read_state [OF assms(1), of k] by simp
  have f: "fresh st" using assms(4) r by simp
  have grow: "so_owners s \<subseteq>\<^sub>m ?m" by (rule set_new_le)
  have base: "state_backed sha ?m k st" using state_backed_mono [OF grow now_ok] .
  have l: "ledger_ok st" using base by (simp add: state_backed_def)
  note got = compute_keeps [OF c f l]
  have "knows ?m own'"
    using got set_new_claims [OF free] assms(3) grow by (auto simp: knows_def intro: map_le_trans)
  then have "state_backed sha ?m k st'" using got base by (simp add: state_backed_def backed_def)
  then have new: "state_backed sha ?m k (retain u st')" by (rule retain_state)
  have "slot_ok sha ?m k' (so_states s' k') (so_legacy s' k')" for k'
  proof (cases "k' = k")
    case True
    then show ?thesis using new unfolding w(2) s1 by (simp add: slot_ok_def)
  next
    case False
    have "slot_ok sha (so_owners s) k' (so_states s k') (so_legacy s k')" using assms(1) unfolding store_ok_def by blast
    then show ?thesis using slot_mono [OF grow] False unfolding w(2) s1 by simp
  qed
  then have "store_ok sha s'" unfolding store_ok_def by (simp add: w(2) s1)
  moreover have "past_of s s'" unfolding w(2) s1 past_of_def using grow rev by auto
  ultimately show ?thesis unfolding w(2) s1 by simp
qed

end

end
