(* ===== verification/Agent_Histories.thy ===== *)
theory Agent_Histories
  imports Agent_Runs
begin

text \<open>
  Histories of the agent store under every operation of the agent interfaces, and what holds in all of them:
  a purchase is counted once, by one agent; an execution and a purchase never share a transaction; a wallet
  belongs to one agent.
\<close>

section \<open>Operations\<close>

definition idle_change :: "unit change" where
  "idle_change st profile own = ok (st, own, ())"

text \<open>The store's writes do not depend on what a change answers.\<close>

definition silent :: "'r change \<Rightarrow> unit change" where
  "silent change st profile own = bindE (change st profile own) (\<lambda>(st', own', _). ok (st', own', ()))"

datatype agent_op =
    Load_state
  | Clear_feed
  | Record_decision agent_decision
  | Record_paper string string
  | Reserve_proposal string string string string
  | Activate_proposal agent_proposal "tx_review res"
  | Refresh_review string int tx_review
  | Reject_proposal string
  | Submit_hash string string reviewed_tx
  | Check_receipt string string receipt_check
  | Check_execution string execution_check
  | Report_execution execution

fun op_change :: "(string \<Rightarrow> string) \<Rightarrow> decode \<Rightarrow> (json \<Rightarrow> agent_fill res) \<Rightarrow> int \<Rightarrow> int \<Rightarrow> agent_op \<Rightarrow> unit change" where
  "op_change sha decode record_fill budget now Load_state = idle_change"
| "op_change sha decode record_fill budget now Clear_feed = clear_feed"
| "op_change sha decode record_fill budget now (Record_decision d) = decision_change d"
| "op_change sha decode record_fill budget now (Record_paper i d) = paper_change record_fill budget i d"
| "op_change sha decode record_fill budget now (Reserve_proposal account owner i d) = silent (reserve_change decode now account owner i d)"
| "op_change sha decode record_fill budget now (Activate_proposal reservation review) = silent (activate_change now reservation review)"
| "op_change sha decode record_fill budget now (Refresh_review i version v) = refresh_change sha now i version v"
| "op_change sha decode record_fill budget now (Reject_proposal i) = reject_change now i"
| "op_change sha decode record_fill budget now (Submit_hash i hash sent) = submit_change sha now i hash sent"
| "op_change sha decode record_fill budget now (Check_receipt i h result) = check_change sha now i h result"
| "op_change sha decode record_fill budget now (Check_execution h result) = check_execution_change h result"
| "op_change sha decode record_fill budget now (Report_execution entry) = report_execution_change entry"

text \<open>Random identifiers are new, and a reported hash was put in lower case.\<close>

fun op_fresh :: "agent_op \<Rightarrow> agent_state \<Rightarrow> bool" where
  "op_fresh (Reserve_proposal account owner i d) st = unused i st"
| "op_fresh (Report_execution entry) st = (lower (ex_hash entry) = ex_hash entry)"
| "op_fresh _ st = True"

interpretation idling: ledger_change sha idle_change "\<lambda>_. True" for sha
  by unfold_locales (auto simp: idle_change_def)

lemma silent_result:
  assumes "silent c st pf own = ok (st', own', u)"
  obtains r where "c st pf own = ok (st', own', r)"
  using assms by (auto simp: silent_def)

lemma silent_ledger:
  assumes "ledger_change sha c fresh"
  shows "ledger_change sha (silent c) fresh"
proof
  fix st pf own st' own' u m
  assume "silent c st pf own = ok (st', own', u)"
  then obtain r where r: "c st pf own = ok (st', own', r)" by (rule silent_result)
  show "ledger_ok st'" if "fresh st" "ledger_ok st" using ledger_change.keeps [OF assms r that] .
  show "on_key own' = on_key own \<and> on_found own' = on_found own \<and> ag_ownership st' = ag_ownership st"
    using ledger_change.same [OF assms r] .
  show "knows m own \<and> (backed sha (on_key own) m st \<longrightarrow> backed sha (on_key own) m st')" if "fresh st" "ledger_ok st" "knows m own'"
    using ledger_change.backs [OF assms r that] .
next
  show "fresh st = fresh st'" if "map pr_id (ag_proposals st) = map pr_id (ag_proposals st')" for st st'
    using ledger_change.fresh_ids [OF assms that] .
qed

lemma always_fresh: "(\<And>st. op_fresh op st) \<Longrightarrow> op_fresh op = (\<lambda>_. True)"
  by (simp add: fun_eq_iff)

lemmas steady_ledgers = idling.ledger_change_axioms clearing.ledger_change_axioms deciding.ledger_change_axioms
  papering.ledger_change_axioms refreshing.ledger_change_axioms rejecting.ledger_change_axioms submitting.ledger_change_axioms
  receipts.ledger_change_axioms executing.ledger_change_axioms silent_ledger [OF activating.ledger_change_axioms]

lemma op_ledger: "ledger_change sha (op_change sha decode record_fill budget now op) (op_fresh op)"
proof (cases op)
  case (Reserve_proposal account owner i d)
  have "op_fresh op = unused i" by (simp add: Reserve_proposal fun_eq_iff)
  then show ?thesis using silent_ledger [OF reserving.ledger_change_axioms] by (simp add: Reserve_proposal)
next
  case (Report_execution entry)
  have "op_fresh op = (\<lambda>_. lower (ex_hash entry) = ex_hash entry)" by (simp add: Report_execution fun_eq_iff)
  then show ?thesis using reporting.ledger_change_axioms by (simp add: Report_execution)
qed (simp only: op_change.simps, subst always_fresh, simp, rule steady_ledgers)+

section \<open>Account operations\<close>

inductive account_step :: "store \<Rightarrow> store \<Rightarrow> bool" where
  created: "create_agent owner profile i s = ok (p, s') \<Longrightarrow> so_profiles s (owner, i) = None \<Longrightarrow> pf_wallet profile = None \<Longrightarrow> account_step s s'"
| changed: "update_agent owner i change s = ok (p, s') \<Longrightarrow> (\<And>q q'. change q = ok q' \<Longrightarrow> pf_wallet q' = pf_wallet q) \<Longrightarrow> account_step s s'"
| archived: "archive_agent owner i now s = (b, s') \<Longrightarrow> account_step s s'"
| issued: "issueCredential k c now s = ok (x, s') \<Longrightarrow> account_step s s'"
| revoked: "revokeCredential k i now s = (x, s') \<Longrightarrow> account_step s s'"
| touched: "touchCredential i now s = s' \<Longrightarrow> account_step s s'"
| associated: "associateWallet k address now check_linked s = ok (x, s') \<Longrightarrow> account_step s s'"

text \<open>An agent's wallet is the one the store holds for it.\<close>

definition wallets_ok :: "store \<Rightarrow> bool" where
  "wallets_ok s = (\<forall>k p w. so_profiles s k = Some p \<longrightarrow> pf_wallet p = Some w \<longrightarrow> so_wallets s w = Some k)"

lemma wallets_okD: "wallets_ok s \<Longrightarrow> so_profiles s k = Some p \<Longrightarrow> pf_wallet p = Some w \<Longrightarrow> so_wallets s w = Some k"
  unfolding wallets_ok_def by blast

lemma wallets_swap:
  assumes "wallets_ok s" "\<And>k' w. k' \<noteq> k \<Longrightarrow> so_wallets s w = Some k' \<Longrightarrow> so_wallets s' w = Some k'"
    "so_profiles s' = (so_profiles s)(k \<mapsto> p')" "\<And>w. pf_wallet p' = Some w \<Longrightarrow> so_wallets s' w = Some k"
  shows "wallets_ok s'"
  unfolding wallets_ok_def assms(3) using assms(1,2,4) wallets_okD by simp

lemma release_wallets: "k' \<noteq> k \<Longrightarrow> so_wallets s w = Some k' \<Longrightarrow> so_wallets (release_wallet w' k s) w = Some k'"
  by (auto simp: release_wallet_def split: option.splits)

lemma release_fields [simp]: "so_states (release_wallet w k s) = so_states s" "so_revs (release_wallet w k s) = so_revs s"
  "so_legacy (release_wallet w k s) = so_legacy s" "so_owners (release_wallet w k s) = so_owners s"
  "so_profiles (release_wallet w k s) = so_profiles s"
  by (simp_all add: release_wallet_def split: option.splits)

lemma claim_fields:
  assumes "claim_wallet w k c s = (r, s')"
  shows "so_states s' = so_states s" "so_revs s' = so_revs s" "so_legacy s' = so_legacy s" "so_owners s' = so_owners s"
    "so_profiles s' = so_profiles s"
  using assms by (auto simp: claim_wallet_def split: if_splits)

definition same_states :: "store \<Rightarrow> store \<Rightarrow> bool" where
  "same_states s s' = (so_states s' = so_states s \<and> so_revs s' = so_revs s \<and> so_legacy s' = so_legacy s \<and> so_owners s' = so_owners s)"

lemma account_step_states: "account_step s s' \<Longrightarrow> same_states s s'"
proof (induction rule: account_step.induct)
  case (associated k address now c s x s')
  then show ?case
    by (auto simp: same_states_def associateWallet_def Let_def claim_fields split: option.splits if_splits prod.splits key_claim.splits)
qed (auto simp: same_states_def create_agent_def update_agent_def archive_agent_def issueCredential_def revokeCredential_def
  touchCredential_def Let_def split: option.splits if_splits)

lemma account_step_wallets: "account_step s s' \<Longrightarrow> wallets_ok s \<Longrightarrow> wallets_ok s'"
proof (induction rule: account_step.induct)
  case (created owner profile i s p s')
  then show ?case by (auto simp: wallets_ok_def create_agent_def Let_def split: if_splits)
next
  case (changed owner i change s p s')
  then show ?case by (auto simp: wallets_ok_def update_agent_def split: option.splits if_splits)
next
  case (archived owner i now s b s')
  show ?case
  proof (cases "s' = s")
    case False
    then obtain p where p: "so_profiles s (owner, i) = Some p"
      using archived(1) by (auto simp: archive_agent_def split: option.splits if_splits)
    obtain p' where p': "so_profiles s' = (so_profiles s)((owner, i) \<mapsto> p')" "pf_wallet p' = None"
      "so_wallets s' = so_wallets (release_wallet (pf_wallet p) (owner, i) s)"
      using archived(1) False p by (auto simp: archive_agent_def Let_def split: if_splits)
    show ?thesis by (rule wallets_swap [OF archived(2) _ p'(1)]) (simp_all add: release_wallets p'(2,3))
  qed (use archived in simp)
next
  case (associated k address now c s x s')
  show ?case
  proof (cases "s' = s")
    case False
    let ?w = "lower address"
    obtain p where p: "so_profiles s k = Some p" "pf_wallet p \<noteq> Some ?w"
      using associated(1) False by (auto simp: associateWallet_def Let_def split: option.splits if_splits)
    obtain s1 where c: "claim_wallet ?w k c s = (Claimed, s1)"
      using associated(1) False p by (auto simp: associateWallet_def Let_def split: option.splits if_splits prod.splits key_claim.splits)
    then have s1: "so_wallets s ?w = None \<or> so_wallets s ?w = Some k" "s1 = s\<lparr>so_wallets := (so_wallets s)(?w \<mapsto> k)\<rparr>"
      by (cases "so_wallets s ?w"; auto simp: claim_wallet_def split: if_splits)+
    obtain p' where p': "so_profiles s' = (so_profiles s)(k \<mapsto> p')" "pf_wallet p' = Some ?w"
        "so_wallets s' = so_wallets (release_wallet (pf_wallet p) k s1)"
      using associated(1) False p c s1(2) by (auto simp: associateWallet_def Let_def split: option.splits if_splits)
    have "so_wallets s' ?w = Some k" using p(2) s1(2) p'(3) by (auto simp: release_wallet_def split: option.splits)
    moreover have "so_wallets s' w = Some k'" if "k' \<noteq> k" "so_wallets s w = Some k'" for k' w
    proof -
      have "so_wallets s1 w = Some k'" using that s1 by auto
      then show ?thesis using release_wallets [OF that(1)] p'(3) by simp
    qed
    ultimately show ?thesis using wallets_swap [OF associated(2) _ p'(1)] p'(2) by simp
  qed (use associated in simp)
qed (auto simp: wallets_ok_def issueCredential_def revokeCredential_def touchCredential_def Let_def split: option.splits if_splits)

section \<open>Histories\<close>

definition told_by :: "store list \<Rightarrow> (string \<rightharpoonup> owner_value) \<Rightarrow> bool" where
  "told_by hs found = (\<forall>h v. found h = Some v \<longrightarrow> (\<exists>t\<in>set hs. so_owners t h = Some v))"

text \<open>The store this scheme opens with: older states and records of the first store, no owners and no wallets.\<close>

definition at_first :: "store \<Rightarrow> bool" where
  "at_first s = (so_owners s = Map.empty \<and> (\<forall>k p. so_profiles s k = Some p \<longrightarrow> pf_wallet p = None)
     \<and> (\<forall>k l. so_legacy s k = Some l \<longrightarrow> legacy_ok l)
     \<and> (\<forall>k st. so_states s k = Some st \<longrightarrow> ledger_ok st \<and> ag_ownership st < OWNERSHIP \<and> ru_executions (runtime_of st) = []))"

inductive runs :: "(string \<Rightarrow> string) \<Rightarrow> decode \<Rightarrow> (json \<Rightarrow> agent_fill res) \<Rightarrow> int \<Rightarrow> store list \<Rightarrow> bool"
  for sha decode record_fill budget where
  runs_at_first: "at_first s \<Longrightarrow> runs sha decode record_fill budget [s]"
| runs_change: "runs sha decode record_fill budget (s # hs) \<Longrightarrow> earlier \<in> set (s # hs) \<Longrightarrow> told_by (s # hs) found
    \<Longrightarrow> op_fresh op (snd (readState sha earlier k))
    \<Longrightarrow> attempt sha (unresolvedProposal now) (op_change sha decode record_fill budget now op) k earlier found s = (out, s')
    \<Longrightarrow> runs sha decode record_fill budget (s' # s # hs)"
| runs_account: "runs sha decode record_fill budget (s # hs) \<Longrightarrow> account_step s s' \<Longrightarrow> runs sha decode record_fill budget (s' # s # hs)"

definition history_ok :: "(string \<Rightarrow> string) \<Rightarrow> store list \<Rightarrow> bool" where
  "history_ok sha hs = (hs \<noteq> [] \<and> store_ok sha (hd hs) \<and> wallets_ok (hd hs) \<and> (\<forall>t\<in>set hs. past_of t (hd hs)))"

lemma history_grows:
  assumes "history_ok sha (s # hs)" "store_ok sha s'" "wallets_ok s'" "past_of s s'"
  shows "history_ok sha (s' # s # hs)"
  using assms past_of_trans by (auto simp: history_ok_def)

lemma told_now: "history_ok sha (s # hs) \<Longrightarrow> told_by (s # hs) found \<Longrightarrow> found \<subseteq>\<^sub>m so_owners s"
  unfolding told_by_def history_ok_def past_of_def map_le_def by (metis (no_types, lifting) domD domI list.sel(1))

lemma at_first_ok:
  assumes "at_first s"
  shows "store_ok sha s \<and> wallets_ok s"
proof -
  have "slot_ok sha (so_owners s) k (so_states s k) (so_legacy s k)" for k
  proof (cases "so_states s k")
    case None
    have "legacy_ok l" if "so_legacy s k = Some l" for l using assms that unfolding at_first_def by blast
    then show ?thesis by (simp add: None slot_ok_def split: option.splits)
  next
    case (Some st)
    have "ledger_ok st \<and> ag_ownership st < OWNERSHIP \<and> ru_executions (runtime_of st) = []"
      using assms Some unfolding at_first_def by blast
    then show ?thesis by (simp add: Some slot_ok_def state_backed_def backed_executions_def)
  qed
  moreover have "pf_wallet p = None" if "so_profiles s k = Some p" for k p using assms that unfolding at_first_def by blast
  ultimately show ?thesis unfolding store_ok_def wallets_ok_def by fastforce
qed

lemma runs_history: "runs sha decode record_fill budget hs \<Longrightarrow> history_ok sha hs"
proof (induction rule: runs.induct)
  case (runs_at_first s)
  then show ?case using at_first_ok by (simp add: history_ok_def)
next
  case (runs_change s hs earlier found op k now out s')
  have s: "store_ok sha s" "wallets_ok s" "past_of earlier s" using runs_change.IH runs_change.hyps(2) by (auto simp: history_ok_def)
  have "store_ok sha s' \<and> past_of s s' \<and> so_profiles s' = so_profiles s \<and> so_wallets s' = so_wallets s"
    using ledger_change.attempt_keeps [OF op_ledger s(1,3) told_now [OF runs_change.IH runs_change.hyps(3)] runs_change.hyps(4,5)] .
  moreover from this have "wallets_ok s'" using s(2) by (simp add: wallets_ok_def)
  ultimately show ?case using history_grows [OF runs_change.IH] by blast
next
  case (runs_account s hs s')
  have a: "same_states s s'" using account_step_states runs_account.hyps(2) .
  have s: "store_ok sha s" "wallets_ok s" using runs_account.IH by (auto simp: history_ok_def)
  have "store_ok sha s'" "past_of s s'" using a s(1) by (simp_all add: store_ok_def past_of_def same_states_def)
  then show ?case using history_grows [OF runs_account.IH] account_step_wallets [OF runs_account.hyps(2) s(2)] by blast
qed

section \<open>What always holds\<close>

text \<open>A counted purchase: the proposal and the transaction of an agent's state that was added to its totals.\<close>

definition purchase_in :: "store \<Rightarrow> agent_key \<Rightarrow> agent_proposal \<Rightarrow> tracked \<Rightarrow> bool" where
  "purchase_in s k p t = (case so_states s k of None \<Rightarrow> False
     | Some st \<Rightarrow> OWNERSHIP \<le> ag_ownership st \<and> p \<in> set (ag_proposals st) \<and> t \<in> set (pr_transactions p) \<and> tk_accounted t)"

definition execution_in :: "store \<Rightarrow> agent_key \<Rightarrow> execution \<Rightarrow> bool" where
  "execution_in s k e = (case so_states s k of None \<Rightarrow> False
     | Some st \<Rightarrow> OWNERSHIP \<le> ag_ownership st \<and> e \<in> set (ru_executions (runtime_of st)) \<and> List.member VERIFIED (ex_status e))"

lemma purchase_owned:
  assumes "store_ok sha s" "purchase_in s k p t"
  shows "so_owners s (tk_hash t) = Some (value_for k (pr_id p) (tx_digest sha t)) \<and> validId (pr_id p)"
proof -
  obtain st where st: "so_states s k = Some st" "OWNERSHIP \<le> ag_ownership st" "p \<in> set (ag_proposals st)" "t \<in> set (pr_transactions p)" "tk_accounted t"
    using assms(2) by (auto simp: purchase_in_def split: option.splits)
  have "slot_ok sha (so_owners s) k (so_states s k) (so_legacy s k)" using assms(1) unfolding store_ok_def by blast
  then have b: "state_backed sha (so_owners s) k st" by (simp add: slot_ok_def st(1))
  have p: "sound_proposal p" "backed_txs sha k (so_owners s) (pr_id p) (pr_transactions p)"
    using b st(2,3) by (auto simp: state_backed_def ledger_ok_def backed_def backed_proposals_def list_all_iff)
  have t: "sound_tx t" using p(1) st(4) by (auto simp: sound_proposal_def list_all_iff)
  then have "claims_verified t" "lower (tk_hash t) = tk_hash t" using st(5) by (auto simp: sound_tx_def claims_verified_def VERIFIED_def)
  then show ?thesis using p st(4) by (auto simp: backed_txs_def sound_proposal_def list_all_iff)
qed

lemma purchase_determined:
  assumes "store_ok sha s" "purchase_in s k p t" "purchase_in s k p' t'" "pr_id p = pr_id p'" "tk_hash t = tk_hash t'"
  shows "p = p' \<and> t = t'"
proof -
  obtain st where st: "so_states s k = Some st" "p \<in> set (ag_proposals st)" "t \<in> set (pr_transactions p)"
    "p' \<in> set (ag_proposals st)" "t' \<in> set (pr_transactions p')"
    using assms(2,3) by (auto simp: purchase_in_def split: option.splits)
  have "slot_ok sha (so_owners s) k (so_states s k) (so_legacy s k)" using assms(1) unfolding store_ok_def by blast
  then have l: "ledger_ok st" by (simp add: slot_ok_def st(1) state_backed_def)
  then have "inj_on pr_id (set (ag_proposals st))" by (simp add: ledger_ok_def distinct_map)
  then have p: "p = p'" using st assms(4) by (auto dest: inj_onD)
  have "inj_on tk_hash (set (pr_transactions p))" using l st(2) by (auto simp: ledger_ok_def list_all_iff sound_proposal_def distinct_map)
  then show ?thesis using p st assms(5) by (auto dest: inj_onD)
qed

lemma execution_owned:
  assumes "store_ok sha s" "execution_in s k e"
  shows "\<exists>digest. so_owners s (ex_hash e) = Some (value_for k (execution_id (ex_hash e)) digest)"
proof -
  obtain st where st: "so_states s k = Some st" "e \<in> set (ru_executions (runtime_of st))" "List.member VERIFIED (ex_status e)"
    using assms(2) by (auto simp: execution_in_def split: option.splits)
  have "slot_ok sha (so_owners s) k (so_states s k) (so_legacy s k)" using assms(1) unfolding store_ok_def by blast
  then have "ledger_ok st" "backed_executions k (so_owners s) (ru_executions (runtime_of st))" by (simp_all add: slot_ok_def st(1) state_backed_def)
  then show ?thesis using st(2,3) by (auto simp: ledger_ok_def backed_executions_def list_all_iff)
qed

lemma value_for_inject: "value_for k i d = value_for k' i' d' \<Longrightarrow> k = k' \<and> i = i' \<and> d = d'"
  by (simp add: value_for_def prod_eq_iff)

text \<open>An execution's record id is longer than any proposal's id.\<close>

lemma execution_id_invalid: "\<not> validId (execution_id h)"
proof -
  have "CHR ''x'' \<in> set (execution_id h)" by (simp add: execution_id_def)
  moreover have "\<not> (is_lhex CHR ''x'' \<or> CHR ''x'' = CHR ''-'')" by code_simp
  ultimately show ?thesis unfolding validId_def chars_def list_all_iff by blast
qed

section \<open>A history\<close>

definition example_key :: agent_key where
  "example_key = (''acc'', replicate 36 CHR ''a'')"

definition example_review :: tx_review where
  "example_review = \<lparr>rw_action = ''buy'', rw_amountAtoms = 5, rw_expiresAt = 10,
     rw_transaction = \<lparr>rx_from = ''0xa'', rx_to = ''0xb'', rx_data = ''0x'', rx_chainId = ''10143'', rx_value = ''0''\<rparr>\<rparr>"

definition example_tx :: tracked where
  "example_tx = \<lparr>tk_hash = ''0x1'', tk_action = ''buy'', tk_status = ''confirmed'', tk_review = example_review, tk_statusBefore = None,
     tk_blockNumber = Some 7, tk_paidAtoms = Some 5, tk_accounted = False, tk_elsewhere = False\<rparr>"

definition example_proposal :: agent_proposal where
  "example_proposal = \<lparr>pr_id = replicate 36 CHR ''b'', pr_version = 1, pr_updatedAt = 0, pr_decisionId = ''d'', pr_decision = None,
     pr_account = ''0xa'', pr_owner = ''0xa'', pr_status = ''confirmed'', pr_reservedUntil = None, pr_review = Some example_review,
     pr_reviews = None, pr_superseded = [], pr_transactions = [example_tx]\<rparr>"

definition example_profile :: agent_profile where
  "example_profile = \<lparr>pf_id = snd example_key, pf_status = ''active'', pf_archivedAt = None, pf_updatedAt = 0, pf_wallet = None, pf_walletHistory = []\<rparr>"

definition example_first :: store where
  "example_first = \<lparr>so_states = Map.empty, so_revs = (\<lambda>_. 0), so_legacy = [example_key \<mapsto> [Legacy_proposal example_proposal]],
     so_owners = Map.empty, so_profiles = [example_key \<mapsto> example_profile], so_index = (\<lambda>_. []), so_archived = (\<lambda>_. []),
     so_wallets = Map.empty, so_linked = [], so_credentials = Map.empty, so_used = Map.empty, so_credentialIds = (\<lambda>_. [])\<rparr>"

definition example_execution :: execution where
  "example_execution = \<lparr>ex_hash = ''0x2'', ex_namespace = ''n'', ex_action = ''buy'', ex_intent = JNull, ex_status = ''recorded'', ex_collateralAtoms = None\<rparr>"

definition example_op :: "agent_op \<Rightarrow> store \<Rightarrow> store" where
  "example_op x s = snd (attempt id (unresolvedProposal 0) (op_change id (\<lambda>_. ok (True, 0)) (\<lambda>_. plain_error) 0 0 x) example_key s Map.empty s)"

definition example_second :: store where
  "example_second = example_op Load_state example_first"

definition example_third :: store where
  "example_third = example_op (Report_execution example_execution) example_second"

definition example_last :: store where
  "example_last = example_op (Check_execution ''0x2'' \<lparr>vx_status = ''confirmed'', vx_digest = ''d'', vx_collateralAtoms = Some 3\<rparr>) example_third"

definition counted_tx :: tracked where
  "counted_tx = example_tx\<lparr>tk_accounted := True\<rparr>"

definition counted_proposal :: agent_proposal where
  "counted_proposal = example_proposal\<lparr>pr_reviews := Some [example_review], pr_transactions := [counted_tx]\<rparr>"

definition verified_execution :: execution where
  "verified_execution = example_execution\<lparr>ex_status := ''confirmed'', ex_collateralAtoms := Some 3\<rparr>"

definition example_linked :: store where
  "example_linked = (case associateWallet example_key ''0xAB'' 5 False example_first of Inl e \<Rightarrow> example_first | Inr (_, s) \<Rightarrow> s)"

lemma example_counted: "purchase_in example_last example_key counted_proposal counted_tx"
  by code_simp

lemma example_verified: "execution_in example_last example_key verified_execution"
  by code_simp

lemma example_at_first: "at_first example_first"
proof -
  have "legacy_ok [Legacy_proposal example_proposal]" by code_simp
  then show ?thesis by (simp add: at_first_def example_first_def example_profile_def)
qed

abbreviation example_runs_of :: "store list \<Rightarrow> bool" where
  "example_runs_of \<equiv> runs id (\<lambda>_. ok (True, 0)) (\<lambda>_. plain_error) 0"

lemma example_step:
  assumes "example_runs_of (s # hs)" "op_fresh x (snd (readState id s example_key))"
  shows "example_runs_of (example_op x s # s # hs)"
proof (rule runs_change [OF assms(1) _ _ assms(2)])
  show "s \<in> set (s # hs)" "told_by (s # hs) Map.empty" by (simp_all add: told_by_def)
  show "attempt id (unresolvedProposal 0) (op_change id (\<lambda>_. ok (True, 0)) (\<lambda>_. plain_error) 0 0 x) example_key s Map.empty s
    = (fst (attempt id (unresolvedProposal 0) (op_change id (\<lambda>_. ok (True, 0)) (\<lambda>_. plain_error) 0 0 x) example_key s Map.empty s), example_op x s)"
    by (simp add: example_op_def)
qed

lemma example_runs: "example_runs_of (example_last # [example_third, example_second, example_first])"
proof -
  have one: "example_runs_of [example_second, example_first]"
    unfolding example_second_def by (rule example_step [OF runs_at_first [OF example_at_first]]) simp
  have "lower (ex_hash example_execution) = ex_hash example_execution" by code_simp
  then have "example_runs_of [example_third, example_second, example_first]"
    unfolding example_third_def by (intro example_step [OF one]) simp
  then show ?thesis unfolding example_last_def by (intro example_step) simp_all
qed

lemma example_linked_runs: "example_runs_of (example_linked # [example_first])"
proof -
  have "case associateWallet example_key ''0xAB'' 5 False example_first of Inl _ \<Rightarrow> False | Inr _ \<Rightarrow> True" by code_simp
  then obtain x where "associateWallet example_key ''0xAB'' 5 False example_first = ok (x, example_linked)"
    by (auto simp: example_linked_def split: sum.splits prod.splits)
  then show ?thesis using runs_account [OF runs_at_first [OF example_at_first]] associated by blast
qed

section \<open>Properties\<close>

text \<open>C1: In every history of the store, under any interleaving of reads, lapsed locks and writes, a transaction hash is counted as a purchase at most once: two counted purchases with one hash are the same transaction of the same proposal of the same agent.\<close>

theorem purchases_counted_once:
  assumes "runs sha decode record_fill budget (s # hs)" "purchase_in s k p t" "purchase_in s k' p' t'" "tk_hash t = tk_hash t'"
  shows "k = k' \<and> p = p' \<and> t = t'"
proof -
  have s: "store_ok sha s" using runs_history [OF assms(1)] by (simp add: history_ok_def)
  have "value_for k (pr_id p) (tx_digest sha t) = value_for k' (pr_id p') (tx_digest sha t')"
    using purchase_owned [OF s assms(2)] purchase_owned [OF s assms(3)] assms(4) by simp
  then have "k = k' \<and> pr_id p = pr_id p'" using value_for_inject by blast
  then show ?thesis using purchase_determined [OF s assms(2)] assms(3,4) by blast
qed

theorem purchases_counted_once_witness:
  "purchase_in example_last example_key counted_proposal counted_tx
    \<and> (example_key = example_key \<and> counted_proposal = counted_proposal \<and> counted_tx = counted_tx)"
  by (intro conjI [OF example_counted] purchases_counted_once [OF example_runs example_counted example_counted refl])

text \<open>C20: A transaction verified as a runtime's execution is not counted as a purchase of any agent, and no other agent has it as a verified execution.\<close>

theorem transaction_attributed_once:
  assumes "runs sha decode record_fill budget (s # hs)" "execution_in s k e"
  shows "(purchase_in s k' p t \<longrightarrow> tk_hash t \<noteq> ex_hash e) \<and> (execution_in s k' e' \<and> ex_hash e' = ex_hash e \<longrightarrow> k' = k)"
proof -
  have s: "store_ok sha s" using runs_history [OF assms(1)] by (simp add: history_ok_def)
  obtain d where d: "so_owners s (ex_hash e) = Some (value_for k (execution_id (ex_hash e)) d)" using execution_owned [OF s assms(2)] by blast
  have "tk_hash t \<noteq> ex_hash e" if "purchase_in s k' p t"
  proof
    assume h: "tk_hash t = ex_hash e"
    have w: "so_owners s (tk_hash t) = Some (value_for k' (pr_id p) (tx_digest sha t))" "validId (pr_id p)"
      using purchase_owned [OF s that] by blast+
    have "value_for k' (pr_id p) (tx_digest sha t) = value_for k (execution_id (ex_hash e)) d" using w(1) d h by simp
    then have "pr_id p = execution_id (ex_hash e)" using value_for_inject by blast
    then show False using w(2) execution_id_invalid by simp
  qed
  moreover have "k' = k" if "execution_in s k' e'" "ex_hash e' = ex_hash e"
  proof -
    note o' = execution_owned [OF s that(1)]
    obtain d' where "so_owners s (ex_hash e') = Some (value_for k' (execution_id (ex_hash e')) d')" using o' by blast
    then have "value_for k' (execution_id (ex_hash e')) d' = value_for k (execution_id (ex_hash e)) d" using that(2) d by simp
    then show ?thesis using value_for_inject by blast
  qed
  ultimately show ?thesis by blast
qed

theorem transaction_attributed_once_witness: "tk_hash counted_tx \<noteq> ex_hash verified_execution"
  using transaction_attributed_once [OF example_runs example_verified] example_counted by blast

text \<open>C28: In every history, an agent's confirmed purchases, their cost and the number of unknown costs are exactly what its counted transactions add up to.\<close>

theorem totals_are_the_ledger:
  assumes "runs sha decode record_fill budget (s # hs)" "so_states s k = Some st"
  shows "lv_confirmedPurchases (ag_live st) = counted (txs_of st) \<and> lv_costAtoms (ag_live st) = counted_cost (txs_of st)
    \<and> lv_unknownCost (ag_live st) = counted_unknown (txs_of st)"
proof -
  have "store_ok sha s" using runs_history [OF assms(1)] by (simp add: history_ok_def)
  then have "slot_ok sha (so_owners s) k (so_states s k) (so_legacy s k)" unfolding store_ok_def by blast
  then show ?thesis by (simp add: slot_ok_def assms(2) state_backed_def ledger_ok_def exact_totals_def)
qed

theorem totals_are_the_ledger_witness:
  "\<exists>st. so_states example_last example_key = Some st \<and> lv_confirmedPurchases (ag_live st) = counted (txs_of st)"
proof -
  obtain st where st: "so_states example_last example_key = Some st" using example_counted by (auto simp: purchase_in_def split: option.splits)
  then show ?thesis using totals_are_the_ledger [OF example_runs st] by blast
qed

text \<open>In every history a wallet is the wallet of at most one agent, across all accounts.\<close>

theorem wallet_has_one_agent:
  assumes "runs sha decode record_fill budget (s # hs)" "so_profiles s k = Some p" "so_profiles s k' = Some p'"
    "pf_wallet p = Some w" "pf_wallet p' = Some w"
  shows "k = k'"
proof -
  have "wallets_ok s" using runs_history [OF assms(1)] by (simp add: history_ok_def)
  then show ?thesis using wallets_okD [of s k p w] wallets_okD [of s k' p' w] assms by simp
qed

theorem wallet_has_one_agent_witness:
  "map_option pf_wallet (so_profiles example_linked example_key) = Some (Some ''0xab'') \<and> example_key = example_key"
proof -
  have p: "map_option pf_wallet (so_profiles example_linked example_key) = Some (Some ''0xab'')" by code_simp
  then obtain q where q: "so_profiles example_linked example_key = Some q" "pf_wallet q = Some ''0xab''" by auto
  show ?thesis using p wallet_has_one_agent [OF example_linked_runs q(1) q(1) q(2) q(2)] by blast
qed

section \<open>An execution that was dropped\<close>

lemma drop_oldest: "\<forall>x\<in>set es. List.member FINAL_EXECUTION (ex_status x) \<Longrightarrow> List.member FINAL_EXECUTION (ex_status e)
    \<Longrightarrow> n + length es = 500 \<Longrightarrow> keep_executions n (es @ [e]) = es"
  by (induction es arbitrary: n) simp_all

text \<open>C29: The comment on \<open>retain\<close> says a dropped execution can never be counted a second time. It can: when 500 newer
  verified executions push a confirmed purchase out of the list, its ownership record is still the agent's own, so
  reporting it again is accepted, and the next check adds it to the totals once more.\<close>

theorem dropped_execution_counted_again:
  assumes "ru_executions (runtime_of st) = es @ [e]" "length es = 500" "\<forall>x\<in>set es. List.member FINAL_EXECUTION (ex_status x)"
    "\<forall>x\<in>set es. ex_hash x \<noteq> ex_hash e" "ex_status e = ''confirmed''" "ex_action e = ''buy''"
    "own_read own (ex_hash e) = Some (value_for (on_key own) (execution_id (ex_hash e)) d)"
  shows "\<exists>st1 st2 own'. report_execution_change e (retain u st) pf own = ok (st1, own, ())
    \<and> check_execution_change (ex_hash e) \<lparr>vx_status = ''confirmed'', vx_digest = d, vx_collateralAtoms = c\<rparr> st1 pf own = ok (st2, own', ())
    \<and> rt_buys (ru_totals (runtime_of st2)) = Suc (rt_buys (ru_totals (runtime_of st)))"
proof -
  let ?st = "retain u st" and ?new = "e\<lparr>ex_status := ''recorded'', ex_collateralAtoms := None\<rparr>"
  have k: "ru_executions (runtime_of ?st) = es" "ru_totals (runtime_of ?st) = ru_totals (runtime_of st)"
    using drop_oldest [of es e 0] assms(1-3,5) by (simp_all add: retain_runtime_of FINAL_EXECUTION_def)
      (simp add: runtime_of_def retain_def retain_runtime_def emptyRuntime_def split: option.splits)
  let ?st1 = "?st\<lparr>ag_runtime := Some (runtime_of ?st\<lparr>ru_executions := ?new # es\<rparr>)\<rparr>"
  have "find (\<lambda>x. ex_hash x = ex_hash e) es = None" using assms(4) by (auto simp: find_None_iff)
  moreover have "filter (\<lambda>e. \<not> List.member FINAL_EXECUTION (ex_status e)) es = []" using assms(3) by (simp add: filter_empty_conv)
  ultimately have r: "report_execution_change e ?st pf own = ok (?st1, own, ())"
    using assms(7) by (simp add: report_execution_change_def Let_def k own_owns_def value_for_def)
  have "\<exists>st2 own'. check_execution_change (ex_hash e) \<lparr>vx_status = ''confirmed'', vx_digest = d, vx_collateralAtoms = c\<rparr> ?st1 pf own
      = ok (st2, own', ()) \<and> rt_buys (ru_totals (runtime_of st2)) = Suc (rt_buys (ru_totals (runtime_of st)))"
    using assms(6,7) by (simp add: check_execution_change_def Let_def k owned_by_other_def own_owns_def FINAL_EXECUTION_def VERIFIED_def account_execution_def)
  then show ?thesis using r by blast
qed

definition example_pushed_out :: agent_state where
  "example_pushed_out = emptyState\<lparr>ag_runtime := Some (emptyRuntime\<lparr>
     ru_executions := replicate 500 (verified_execution\<lparr>ex_hash := ''0x3''\<rparr>) @ [verified_execution]\<rparr>)\<rparr>"

definition example_ownership :: ownership where
  "example_ownership = \<lparr>on_key = example_key, on_found = [''0x2'' \<mapsto> value_for example_key (execution_id ''0x2'') ''d''], on_claims = []\<rparr>"

theorem dropped_execution_counted_again_witness:
  "\<exists>st1 st2 own'. report_execution_change verified_execution (retain (unresolvedProposal 0) example_pushed_out) example_profile example_ownership
      = ok (st1, example_ownership, ())
    \<and> check_execution_change ''0x2'' \<lparr>vx_status = ''confirmed'', vx_digest = ''d'', vx_collateralAtoms = Some 3\<rparr> st1 example_profile example_ownership
      = ok (st2, own', ())
    \<and> rt_buys (ru_totals (runtime_of st2)) = Suc (rt_buys (ru_totals (runtime_of example_pushed_out)))"
proof -
  have h: "ex_hash verified_execution = ''0x2''" "ex_status verified_execution = ''confirmed''" "ex_action verified_execution = ''buy''"
    by (simp_all add: verified_execution_def example_execution_def)
  have r: "ru_executions (runtime_of example_pushed_out) = replicate 500 (verified_execution\<lparr>ex_hash := ''0x3''\<rparr>) @ [verified_execution]"
    by (simp add: example_pushed_out_def runtime_of_def emptyState_def)
  have o': "own_read example_ownership ''0x2'' = Some (value_for (on_key example_ownership) (execution_id ''0x2'') ''d'')"
    by code_simp
  show ?thesis
    by (rule dropped_execution_counted_again [OF r, unfolded h]) (use h o' in \<open>simp_all add: FINAL_EXECUTION_def\<close>)
qed

end
