(* ===== verification/Pair_Math.thy ===== *)
theory Pair_Math
  imports Pilot_Calls Claims
begin

text \<open>
  The pool's probabilities with certified rounding (apps/web/server/pair-math.mjs): every weight, sum, ratio
  and product is an interval of integers scaled by \<open>S\<close>, rounded outwards, and a value is reported only when
  both ends round to it. A snapshot's numbers are integers, its amounts decimal strings.
\<close>

section \<open>Snapshots\<close>

definition S :: int where
  "S = 10 ^ 48"

definition ceil_of :: "int \<Rightarrow> int \<Rightarrow> int" where
  "ceil_of a b = tdiv (a + b - 1) b"

text \<open>\<open>/^(0|[1-9][0-9]{0,38})$/\<close> and at most \<open>2^128 - 1\<close>.\<close>

definition atom :: "string \<Rightarrow> int res" where
  "atom v = (if \<not> is_canon_dec_upto 38 v \<or> int (str_nat v) > UINT128_MAX then plain_error else ok (int (str_nat v)))"

record pool_factor =
  fa_scope :: int
  fa_values :: "string list"

record pair_snapshot =
  ss_events :: int
  ss_a :: int
  ss_b :: int
  ss_liquidity :: string
  ss_order :: "int list"
  ss_factors :: "pool_factor list"

definition larger :: "int \<Rightarrow> int \<Rightarrow> int" where
  "larger a b = (if a > b then a else b)"

definition factor_maximum :: "int \<Rightarrow> pool_factor \<Rightarrow> int res" where
  "factor_maximum events f =
     (if fa_scope f < 1 \<or> fa_scope f \<ge> 2 ^ nat events then plain_error
      else if popcount (fa_scope f) > 3 \<or> length (fa_values f) \<noteq> 2 ^ popcount (fa_scope f) then plain_error
      else bindE (mapE atom (fa_values f)) (\<lambda>vs. ok (foldl larger 0 vs)))"

text \<open>The width of the pool's graph: no question may join more than three.\<close>

fun width_ok :: "int list \<Rightarrow> int list \<Rightarrow> bool" where
  "width_ok scopes [] = True"
| "width_ok scopes (event # order) =
     (let b = js_shl 1 (nat event); joined = foldl js_or b (filter (\<lambda>s. js_and s b \<noteq> 0) scopes) in
      if popcount joined > 3 then False
      else width_ok (filter (\<lambda>s. js_and s b = 0) scopes @ [js_and joined (NOT b)]) order)"

definition validatePairSnapshot :: "pair_snapshot \<Rightarrow> unit res" where
  "validatePairSnapshot s =
     (if \<not> List.member [2, 3, 4] (ss_events s) \<or> ss_a s = ss_b s \<or> min (ss_a s) (ss_b s) < 0 \<or> max (ss_a s) (ss_b s) \<ge> ss_events s
      then plain_error
      else bindE (atom (ss_liquidity s)) (\<lambda>liquidity.
        if liquidity = 0 then plain_error
        else if sort (ss_order s) \<noteq> map int [0..<nat (ss_events s)] then plain_error
        else if length (ss_factors s) > 64 then plain_error
        else bindE (mapE (factor_maximum (ss_events s)) (ss_factors s)) (\<lambda>maxima.
          if sum_list maxima > 100 * liquidity then plain_error
          else if \<not> width_ok (map fa_scope (ss_factors s)) (ss_order s) then plain_error
          else ok ())))"

section \<open>Weights\<close>

text \<open>
  \<open>exp(-n/d)\<close> for \<open>0 <= n/d <= 100\<close>: sixty-four Taylor terms of the exponential of a 128th of it, a bound for
  the rest, the reciprocal, and seven squarings.
\<close>

definition term_step :: "int \<Rightarrow> int \<Rightarrow> int \<times> int \<times> int \<times> int \<Rightarrow> nat \<Rightarrow> int \<times> int \<times> int \<times> int" where
  "term_step n d = (\<lambda>(lo, hi, termLo, termHi) k.
     let termLo' = tdiv (termLo * n) (d * 128 * int k); termHi' = ceil_of (termHi * n) (d * 128 * int k) in
     (lo + termLo', hi + termHi', termLo', termHi'))"

definition square :: "int \<times> int \<Rightarrow> int \<times> int" where
  "square = (\<lambda>(lower, upper). (tdiv (lower * lower) S, ceil_of (upper * upper) S))"

definition weight :: "int \<Rightarrow> int \<Rightarrow> int \<times> int" where
  "weight n d =
     (let (lo, hi, _, termHi) = foldl (term_step n d) (S, S, S, S) [1..<65];
          hi' = hi + 2 * ceil_of (termHi * n) (d * 128 * 65) in
      (square ^^ 7) (tdiv (S * S) hi', ceil_of (S * S) lo))"

section \<open>Intervals\<close>

definition sum_of :: "(int \<times> int) list \<Rightarrow> int \<times> int" where
  "sum_of xs = foldl (\<lambda>(a, b) (c, d). (a + c, b + d)) (0, 0) xs"

definition ratio :: "int \<times> int \<Rightarrow> int \<times> int \<Rightarrow> (int \<times> int) res" where
  "ratio = (\<lambda>(a, b) (c, d). if c \<le> 0 then plain_error else ok (tdiv (a * S) d, ceil_of (b * S) c))"

definition product :: "int \<times> int \<Rightarrow> int \<times> int \<Rightarrow> int \<times> int" where
  "product = (\<lambda>(a, b) (c, d). (tdiv (a * c) S, ceil_of (b * d) S))"

definition rounded :: "int \<Rightarrow> int" where
  "rounded v = (if v < 0 then - (tdiv (- v * 1000 + tdiv S 2) S) else tdiv (v * 1000 + tdiv S 2) S)"

section \<open>The distribution\<close>

definition local_of :: "int \<Rightarrow> nat \<Rightarrow> nat \<Rightarrow> int" where
  "local_of scope events state = fst (foldl (\<lambda>(l, b) e.
     if js_bit scope e then (if js_bit (int state) e then js_or l (js_shl 1 b) else l, Suc b) else (l, b)) (0, 0) [0..<events])"

definition score :: "pair_snapshot \<Rightarrow> nat \<Rightarrow> int" where
  "score s state = foldl (\<lambda>q f. q + int (str_nat (fa_values f ! nat (local_of (fa_scope f) (nat (ss_events s)) state)))) 0 (ss_factors s)"

definition states_of :: "pair_snapshot \<Rightarrow> nat list" where
  "states_of s = [0..<2 ^ nat (ss_events s)]"

definition liquidity_of :: "pair_snapshot \<Rightarrow> int" where
  "liquidity_of s = int (str_nat (ss_liquidity s))"

definition pair_distribution :: "pair_snapshot \<Rightarrow> (int \<times> int) list res" where
  "pair_distribution s = bindE (validatePairSnapshot s) (\<lambda>_.
     let scores = map (score s) (states_of s); top = foldl larger 0 scores in
     ok (map (\<lambda>q. weight (top - q) (liquidity_of s)) scores))"

definition select :: "(nat \<Rightarrow> bool) \<Rightarrow> (int \<times> int) list \<Rightarrow> int \<times> int" where
  "select p weights = sum_of (map snd (filter (\<lambda>(x, _). p x) (enumerate 0 weights)))"

section \<open>What is reported\<close>

record certified =
  cf_values :: "(string \<times> int option) list"
  cf_reasons :: "(string \<times> string) list"

definition certified_value :: "(int \<times> int) option \<Rightarrow> int option" where
  "certified_value bounds = (case bounds of None \<Rightarrow> None | Some (l, h) \<Rightarrow> if rounded l = rounded h then Some (rounded l) else None)"

definition certify :: "(string \<times> (int \<times> int) option) list \<Rightarrow> certified" where
  "certify intervals = \<lparr>cf_values = map (\<lambda>(key, bounds). (key, certified_value bounds)) intervals,
     cf_reasons = map (\<lambda>(key, bounds). (key, case bounds of None \<Rightarrow> ''rare_condition'' | Some _ \<Rightarrow> ''rounding_uncertain''))
       (filter (\<lambda>(key, bounds). certified_value bounds = None) intervals)\<rparr>"

definition difference_of :: "int \<times> int \<Rightarrow> int \<times> int \<Rightarrow> int \<times> int" where
  "difference_of = (\<lambda>(a, b) (c, d). (a - d, b - c))"

definition given :: "int \<times> int \<Rightarrow> int \<times> int \<Rightarrow> int \<times> int \<Rightarrow> (int \<times> int) option res" where
  "given chance both condition = (if fst chance \<ge> tdiv S 1000000000 then bindE (ratio both condition) (\<lambda>r. ok (Some r)) else ok None)"

definition certifiedPair :: "pair_snapshot \<Rightarrow> certified res" where
  "certifiedPair s = bindE (pair_distribution s) (\<lambda>weights.
     let in_a = (\<lambda>x. js_bit (int x) (nat (ss_a s))); in_b = (\<lambda>x. js_bit (int x) (nat (ss_b s))); all = sum_of weights;
         wa = select in_a weights; wb = select in_b weights; wnb = select (\<lambda>x. \<not> in_b x) weights;
         wab = select (\<lambda>x. in_a x \<and> in_b x) weights; wanb = select (\<lambda>x. in_a x \<and> \<not> in_b x) weights in
     bindE (ratio wa all) (\<lambda>a. bindE (ratio wb all) (\<lambda>b. bindE (ratio wnb all) (\<lambda>nb. bindE (ratio wab all) (\<lambda>joint.
       let independent = product a b in
       bindE (given b wab wb) (\<lambda>givenYes. bindE (given nb wanb wnb) (\<lambda>givenNo.
         ok (certify [(''a'', Some a), (''b'', Some b), (''joint'', Some joint), (''givenYes'', givenYes), (''givenNo'', givenNo),
           (''independent'', Some independent), (''difference'', Some (difference_of joint independent))])))))))
     )"

definition answer_chances :: "(int \<times> int) list \<Rightarrow> int \<times> int \<Rightarrow> nat \<Rightarrow> ((int \<times> int) \<times> (int \<times> int)) res" where
  "answer_chances weights all event =
     bindE (ratio (select (\<lambda>x. \<not> js_bit (int x) event) weights) all) (\<lambda>no.
     bindE (ratio (select (\<lambda>x. js_bit (int x) event) weights) all) (\<lambda>yes. ok (no, yes)))"

definition local_answers :: "nat list \<Rightarrow> nat \<Rightarrow> nat \<Rightarrow> bool" where
  "local_answers events state x = list_all (\<lambda>(i, event). js_bit (int x) event = js_bit (int state) i) (enumerate 0 events)"

definition local_product :: "((int \<times> int) \<times> (int \<times> int)) list \<Rightarrow> nat \<Rightarrow> int \<times> int" where
  "local_product chances state = foldl (\<lambda>p (i, (no, yes)). product p (if js_bit (int state) i then yes else no)) (S, S) (enumerate 0 chances)"

definition paying_states :: "string \<Rightarrow> nat \<Rightarrow> nat list" where
  "paying_states mask_s legs = filter (\<lambda>state. bit (int (str_nat mask_s)) state) [0..<2 ^ legs]"

definition certifiedClaim :: "pair_snapshot \<Rightarrow> int \<Rightarrow> string \<Rightarrow> certified res" where
  "certifiedClaim s scope mask_s = bindE (validateClaim scope mask_s (ss_events s)) (\<lambda>selected.
     bindE (pair_distribution (s\<lparr>ss_a := 0, ss_b := 1\<rparr>)) (\<lambda>weights.
       let all = sum_of weights; states = paying_states mask_s (length selected) in
       bindE (mapE (answer_chances weights all) selected) (\<lambda>chances.
         let market = sum_of (map (\<lambda>state. select (local_answers selected state) weights) states);
             independent = sum_of (map (local_product chances) states) in
         bindE (ratio market all) (\<lambda>m.
           ok (certify [(''market'', Some m), (''independent'', Some independent), (''difference'', Some (difference_of m independent))])))))"

text \<open>The snapshot as the reference program reads it.\<close>

definition pairInput :: "pair_snapshot \<Rightarrow> string res" where
  "pairInput s = bindE (validatePairSnapshot s) (\<lambda>_. ok (join_with '' '' ([''1'', int_str (ss_events s), int_str (ss_a s), int_str (ss_b s), ss_liquidity s]
     @ map int_str (ss_order s) @ [nat_str (length (ss_factors s))] @ concat (map (\<lambda>f. int_str (fa_scope f) # fa_values f) (ss_factors s)))))"

end
