(* ===== verification/Pair_Laws.thy ===== *)
theory Pair_Laws
  imports Pair_Math Complex_Main
begin

text \<open>
  The certified arithmetic against the real numbers: every interval the code computes contains the quantity it
  stands for, the market's probabilities are those of the logarithmic scoring rule, and so every value that is
  reported is the true one rounded to a thousandth.
\<close>

section \<open>Intervals of reals\<close>

definition encloses :: "int \<times> int \<Rightarrow> real \<Rightarrow> bool" where
  "encloses i r = (of_int (fst i) \<le> of_int S * r \<and> of_int S * r \<le> of_int (snd i))"

lemma S_pos [simp]: "0 < S" "0 \<le> S" "S \<noteq> 0"
  by (simp_all add: S_def)

lemma tdiv_real:
  assumes "0 \<le> a" "0 < b"
  shows "0 \<le> tdiv a b" "of_int (tdiv a b) \<le> (of_int a / of_int b :: real)"
proof -
  have "of_int (a div b) = (of_int \<lfloor>of_int a / of_int b :: real\<rfloor> :: real)" by (simp add: floor_divide_of_int_eq)
  then show "of_int (tdiv a b) \<le> (of_int a / of_int b :: real)" using assms by simp
  show "0 \<le> tdiv a b" using assms by (simp add: pos_imp_zdiv_nonneg_iff)
qed

lemma ceil_real:
  assumes "0 \<le> a" "0 < b"
  shows "(of_int a / of_int b :: real) \<le> of_int (ceil_of a b)" "0 \<le> ceil_of a b"
proof -
  have c: "ceil_of a b = (a + b - 1) div b" using assms by (simp add: ceil_of_def)
  have "a + b - 1 < b * ((a + b - 1) div b) + b" using assms(2) by (metis add_strict_left_mono mult_div_mod_eq pos_mod_bound)
  then have "a \<le> b * ceil_of a b" by (simp add: c)
  then have "(of_int a :: real) \<le> of_int b * of_int (ceil_of a b)" by (metis of_int_le_iff of_int_mult)
  then show "(of_int a / of_int b :: real) \<le> of_int (ceil_of a b)" using assms(2) by (simp add: field_simps)
  show "0 \<le> ceil_of a b" using assms by (simp add: c pos_imp_zdiv_nonneg_iff)
qed

text \<open>Scaling an interval by a fraction, outwards.\<close>

lemma encloses_scale:
  assumes "encloses (l, h) t" "0 \<le> l" "0 \<le> p" "0 < q"
  shows "encloses (tdiv (l * p) q, ceil_of (h * p) q) (t * of_int p / of_int q)" "0 \<le> tdiv (l * p) q"
proof -
  have h: "0 \<le> h" using assms(1,2) unfolding encloses_def by (simp add: order_trans)
  have "of_int (tdiv (l * p) q) \<le> (of_int l * of_int p / of_int q :: real)" using tdiv_real(2) [of "l * p" q] assms by simp
  also have "\<dots> \<le> of_int S * t * of_int p / of_int q"
    using assms by (intro divide_right_mono mult_right_mono) (simp_all add: encloses_def)
  finally have lo: "of_int (tdiv (l * p) q) \<le> of_int S * (t * of_int p / of_int q)" by (simp add: mult.assoc)
  have "of_int S * t * of_int p / of_int q \<le> (of_int h * of_int p / of_int q :: real)"
    using assms by (intro divide_right_mono mult_right_mono) (simp_all add: encloses_def)
  also have "\<dots> \<le> of_int (ceil_of (h * p) q)" using ceil_real(1) [of "h * p" q] assms h by simp
  finally show "encloses (tdiv (l * p) q, ceil_of (h * p) q) (t * of_int p / of_int q)"
    using lo by (simp add: encloses_def mult.assoc)
  show "0 \<le> tdiv (l * p) q" using assms tdiv_real(1) [of "l * p" q] by simp
qed

lemma encloses_add: "encloses (a, b) r \<Longrightarrow> encloses (c, d) s \<Longrightarrow> encloses (a + c, b + d) (r + s)"
  by (simp add: encloses_def distrib_left add_mono)

section \<open>Weights\<close>

definition partial_exp :: "real \<Rightarrow> nat \<Rightarrow> real" where
  "partial_exp x m = (\<Sum>k<Suc m. x ^ k / fact k)"

definition series_ok :: "real \<Rightarrow> nat \<Rightarrow> int \<times> int \<times> int \<times> int \<Rightarrow> bool" where
  "series_ok x m = (\<lambda>(lo, hi, tl, th). 0 \<le> tl \<and> S \<le> lo \<and> encloses (lo, hi) (partial_exp x m) \<and> encloses (tl, th) (x ^ m / fact m))"

lemma series_term:
  "0 < d \<Longrightarrow> (of_int n / (128 * of_int d)) ^ m / fact m * of_int n / of_int (d * 128 * int (Suc m))
     = (of_int n / (128 * of_int d)) ^ Suc m / (fact (Suc m) :: real)"
  by (simp add: field_simps)

lemma series_step:
  assumes "series_ok (of_int n / (128 * of_int d)) m st" "0 \<le> n" "0 < d"
  shows "series_ok (of_int n / (128 * of_int d)) (Suc m) (term_step n d st (Suc m))"
proof -
  let ?x = "of_int n / (128 * of_int d) :: real"
  obtain lo hi tl th where st: "st = (lo, hi, tl, th)" by (cases st)
  have a: "0 \<le> tl" "S \<le> lo" "encloses (lo, hi) (partial_exp ?x m)" "encloses (tl, th) (?x ^ m / fact m)"
    using assms(1) by (simp_all add: series_ok_def st)
  have q: "0 < d * 128 * int (Suc m)" using assms(3) by simp
  note s = encloses_scale [OF a(4,1) assms(2) q, unfolded series_term [OF assms(3)]]
  show ?thesis using a s encloses_add [OF a(3) s(1)]
    by (simp add: series_ok_def st term_step_def Let_def partial_exp_def del: of_nat_Suc)
qed

lemma series_run:
  assumes "0 \<le> n" "0 < d"
  shows "series_ok (of_int n / (128 * of_int d)) m (foldl (term_step n d) (S, S, S, S) [1..<Suc m])"
proof (induction m)
  case 0
  then show ?case by (simp add: series_ok_def encloses_def partial_exp_def)
next
  case (Suc m)
  have "[1..<Suc (Suc m)] = [1..<Suc m] @ [Suc m]" by simp
  then show ?case using series_step [OF Suc assms] by simp
qed

text \<open>The sixty-fifth term, doubled, bounds what sixty-four terms leave out.\<close>

lemma partial_exp_Suc: "partial_exp x (Suc m) = partial_exp x m + x ^ Suc m / fact (Suc m)"
  by (simp add: partial_exp_def)

lemma exp_tail:
  assumes "0 \<le> x" "x < (1 :: real)" "2 \<le> m"
  shows "partial_exp x m \<le> exp x" "exp x \<le> partial_exp x m + 2 * (x ^ Suc m / fact (Suc m))"
proof -
  obtain t where t: "exp x = (\<Sum>k<Suc m. x ^ k / fact k) + exp t / fact (Suc m) * x ^ Suc m"
    using Maclaurin_exp_le [of x "Suc m"] by blast
  show "partial_exp x m \<le> exp x" unfolding t partial_exp_def using assms(1) by simp
  obtain u where u: "\<bar>u\<bar> \<le> \<bar>x\<bar>" "exp x = (\<Sum>k<Suc (Suc m). x ^ k / fact k) + exp u / fact (Suc (Suc m)) * x ^ Suc (Suc m)"
    using Maclaurin_exp_le [of x "Suc (Suc m)"] by blast
  have "exp u \<le> exp 1" using u(1) assms by simp
  also have "\<dots> \<le> 3" using exp_le by simp
  finally have "exp u * x \<le> 3 * 1" using assms by (intro mult_mono) simp_all
  then have "exp u * x \<le> real (Suc (Suc m))" using assms(3) by simp
  then have r: "exp u * x / real (Suc (Suc m)) \<le> 1" by (simp del: of_nat_Suc)
  have "exp u / fact (Suc (Suc m)) * x ^ Suc (Suc m) = exp u * x / real (Suc (Suc m)) * (x ^ Suc m / fact (Suc m))"
    by (simp add: fact_Suc [of "Suc m"] del: of_nat_Suc fact_Suc)
  also have "\<dots> \<le> 1 * (x ^ Suc m / fact (Suc m))" using r assms(1) by (intro mult_right_mono) simp_all
  finally have "exp u / fact (Suc (Suc m)) * x ^ Suc (Suc m) \<le> x ^ Suc m / fact (Suc m)" by simp
  moreover have "(\<Sum>k<Suc (Suc m). x ^ k / fact k) = partial_exp x m + x ^ Suc m / fact (Suc m)"
    unfolding partial_exp_def by (subst sum.lessThan_Suc) (rule refl)
  ultimately show "exp x \<le> partial_exp x m + 2 * (x ^ Suc m / fact (Suc m))" using u(2) by linarith
qed

lemma encloses_product:
  assumes "encloses i r" "encloses j t" "0 \<le> fst i" "0 \<le> fst j"
  shows "encloses (product i j) (r * t)" "0 \<le> fst (product i j)"
proof -
  obtain a b c d where ij: "i = (a, b)" "j = (c, d)" by (cases i, cases j)
  have e: "of_int a \<le> of_int S * r" "of_int S * r \<le> of_int b" "of_int c \<le> of_int S * t" "of_int S * t \<le> of_int d" "0 \<le> a" "0 \<le> c"
    using assms by (simp_all add: encloses_def ij)
  have z: "(0 :: real) \<le> of_int a" "(0 :: real) \<le> of_int c" using e(5,6) by simp_all
  have n: "0 \<le> of_int S * r" "0 \<le> of_int S * t" "(0 :: real) \<le> of_int b" "(0 :: real) \<le> of_int d" using e z by linarith+
  have "of_int (tdiv (a * c) S) \<le> (of_int a * of_int c / of_int S :: real)" using tdiv_real(2) [of "a * c" S] e(5,6) by simp
  also have "\<dots> \<le> (of_int S * r) * (of_int S * t) / of_int S" using e z n by (intro divide_right_mono mult_mono) simp_all
  finally have lo: "of_int (tdiv (a * c) S) \<le> of_int S * (r * t)" by (simp add: field_simps)
  have "(of_int S * r) * (of_int S * t) / of_int S \<le> (of_int b * of_int d / of_int S :: real)" using e n by (intro divide_right_mono mult_mono) simp_all
  also have "\<dots> \<le> of_int (ceil_of (b * d) S)" using ceil_real(1) [of "b * d" S] n(3,4) by simp
  finally have hi: "of_int S * (r * t) \<le> of_int (ceil_of (b * d) S)" by (simp add: field_simps)
  show "encloses (product i j) (r * t)" using lo hi by (simp add: encloses_def product_def ij)
  show "0 \<le> fst (product i j)" using e(5,6) tdiv_real(1) [of "a * c" S] by (simp add: product_def ij)
qed

lemma square_product: "square i = product i i"
  by (cases i) (simp add: square_def product_def)

lemma encloses_squares:
  assumes "encloses i r" "0 \<le> fst i"
  shows "encloses ((square ^^ k) i) (r ^ (2 ^ k)) \<and> 0 \<le> fst ((square ^^ k) i)"
proof (induction k)
  case 0
  then show ?case using assms by simp
next
  case (Suc k)
  have "(square ^^ Suc k) i = product ((square ^^ k) i) ((square ^^ k) i)" by (simp add: square_product [symmetric])
  moreover have "r ^ 2 ^ Suc k = r ^ 2 ^ k * r ^ 2 ^ k" by (simp add: mult_2 power_add)
  ultimately show ?case using encloses_product [of "(square ^^ k) i" "r ^ 2 ^ k" "(square ^^ k) i" "r ^ 2 ^ k"] Suc by simp
qed

lemma encloses_reciprocal:
  assumes "0 < lo" "of_int lo \<le> of_int S * r" "of_int S * r \<le> of_int hi"
  shows "encloses (tdiv (S * S) hi, ceil_of (S * S) lo) (1 / r)" "0 \<le> tdiv (S * S) hi"
proof -
  have p: "(0 :: real) < of_int lo" using assms(1) by simp
  then have r: "0 < of_int S * r" "(0 :: real) < of_int hi" using assms by linarith+
  then have "0 < r" using S_pos(1) by (simp add: zero_less_mult_iff)
  note r = this r
  then have h: "0 < hi" by simp
  have m: "(of_int S * of_int S) / (of_int S * r) = of_int S * (1 / r)" by simp
  have "of_int (tdiv (S * S) hi) \<le> (of_int S * of_int S / of_int hi :: real)" using tdiv_real(2) [of "S * S" hi] h by simp
  also have "\<dots> \<le> (of_int S * of_int S) / (of_int S * r)" using assms r by (intro divide_left_mono) simp_all
  finally have lo: "of_int (tdiv (S * S) hi) \<le> of_int S * (1 / r)" unfolding m .
  have "(of_int S * of_int S) / (of_int S * r) \<le> (of_int S * of_int S / of_int lo :: real)" using assms r p by (intro divide_left_mono) simp_all
  also have "\<dots> \<le> of_int (ceil_of (S * S) lo)" using ceil_real(1) [of "S * S" lo] assms(1) by simp
  finally have hi: "of_int S * (1 / r) \<le> of_int (ceil_of (S * S) lo)" unfolding m .
  show "encloses (tdiv (S * S) hi, ceil_of (S * S) lo) (1 / r)" using lo hi by (simp add: encloses_def)
  show "0 \<le> tdiv (S * S) hi" using tdiv_real(1) [of "S * S" hi] h by simp
qed

lemma weight_encloses:
  assumes "0 \<le> n" "0 < d" "n \<le> 100 * d"
  shows "encloses (weight n d) (exp (- (of_int n / of_int d)))" "0 \<le> fst (weight n d)"
proof -
  let ?x = "of_int n / (128 * of_int d) :: real"
  obtain lo hi tl th where st: "foldl (term_step n d) (S, S, S, S) [1..<65] = (lo, hi, tl, th)" by (cases "foldl (term_step n d) (S, S, S, S) [1..<65]")
  have ok: "series_ok ?x 64 (lo, hi, tl, th)" using series_run [OF assms(1,2), of 64] st by simp
  then have a: "0 \<le> tl" "S \<le> lo" "encloses (lo, hi) (partial_exp ?x 64)" "encloses (tl, th) (?x ^ 64 / fact 64)"
    by (simp_all add: series_ok_def)
  have d: "(0 :: real) < of_int d" "(of_int n :: real) \<le> 100 * of_int d" using assms by (simp, metis assms(3) of_int_le_iff of_int_mult of_int_numeral)
  have x: "0 \<le> ?x" "?x < 1" using assms d by (simp_all add: field_simps)
  have "d * 128 * int (Suc 64) = d * 128 * 65" by simp
  note e = series_term [OF assms(2), of n 64, unfolded this]
  define rest where "rest = ceil_of (th * n) (d * 128 * 65)"
  have rest: "of_int S * (?x ^ Suc 64 / fact (Suc 64)) \<le> of_int rest"
    using encloses_scale(1) [OF a(4,1) assms(1), of "d * 128 * 65", unfolded e] assms(2) unfolding encloses_def rest_def by simp
  note t = exp_tail [OF x, of 64]
  have "of_int lo \<le> of_int S * partial_exp ?x 64" using a(3) by (simp add: encloses_def)
  also have "\<dots> \<le> of_int S * exp ?x" using t(1) by simp
  finally have l: "of_int lo \<le> of_int S * exp ?x" .
  have "of_int S * exp ?x \<le> of_int S * (partial_exp ?x 64 + 2 * (?x ^ Suc 64 / fact (Suc 64)))" using t(2) by simp
  also have "\<dots> = of_int S * partial_exp ?x 64 + 2 * (of_int S * (?x ^ Suc 64 / fact (Suc 64)))" by (simp only: distrib_left mult.left_commute)
  also have "\<dots> \<le> of_int (hi + 2 * rest)" using a(3) rest by (simp add: encloses_def del: fact_Suc power_Suc)
  finally have h: "of_int S * exp ?x \<le> of_int (hi + 2 * rest)" .
  have "0 < lo" using a(2) S_pos(1) by linarith
  note r = encloses_reciprocal [OF this l h]
  have "(1 / exp ?x) ^ 2 ^ 7 = exp (- (of_int n / of_int d))"
    by (simp add: exp_minus [symmetric] inverse_eq_divide [symmetric] exp_of_nat_mult [symmetric])
  moreover have "weight n d = (square ^^ 7) (tdiv (S * S) (hi + 2 * rest), ceil_of (S * S) lo)" unfolding weight_def st rest_def by simp
  ultimately show "encloses (weight n d) (exp (- (of_int n / of_int d)))" "0 \<le> fst (weight n d)"
    using encloses_squares [OF r(1), of 7] r(2) by simp_all
qed

end
