(* ===== verification/Pair_Exact.thy ===== *)
theory Pair_Exact
  imports Pair_Laws Claim_Laws
begin

text \<open>
  From the intervals to the values reported: the code's weights enclose the likelihoods the pool's scores stand
  for, and whatever it reports is the true probability rounded to a thousandth.
\<close>

section \<open>Sums, ratios and rounding\<close>

definition good :: "int \<times> int \<Rightarrow> real \<Rightarrow> bool" where
  "good i r = (encloses i r \<and> 0 \<le> fst i)"

lemma sum_of_eq: "sum_of xs = (sum_list (map fst xs), sum_list (map snd xs))"
proof -
  have "foldl (\<lambda>(a, b) (c, d). (a + c, b + d)) (p, q) xs = (p + sum_list (map fst xs), q + sum_list (map snd xs))" for p q :: int
    by (induction xs arbitrary: p q) auto
  then show ?thesis by (simp add: sum_of_def)
qed

lemma good_sum: "(\<And>x. x \<in> set xs \<Longrightarrow> good (f x) (g x)) \<Longrightarrow> good (sum_of (map f xs)) (\<Sum>x\<leftarrow>xs. g x)"
proof (induction xs)
  case Nil
  then show ?case by (simp add: good_def encloses_def sum_of_def)
next
  case (Cons x xs)
  have "good (sum_of (map f xs)) (\<Sum>x\<leftarrow>xs. g x)" "good (f x) (g x)" using Cons by simp_all
  then show ?case by (simp add: good_def encloses_def sum_of_eq distrib_left add_mono)
qed

lemma select_map: "select p (map f [0..<n]) = sum_of (map f (filter p [0..<n]))"
proof -
  have "enumerate 0 (map f [0..<n]) = map (\<lambda>x. (x, f x)) [0..<n]" by (intro nth_equalityI) (simp_all add: nth_enumerate_eq)
  then show ?thesis by (simp add: select_def filter_map comp_def)
qed

lemma good_ratio:
  assumes "good i r" "good j t" "0 < fst j"
  shows "\<exists>k. ratio i j = ok k \<and> good k (r / t)"
proof -
  obtain a b c d where ij: "i = (a, b)" "j = (c, d)" by (cases i, cases j)
  have e: "of_int a \<le> of_int S * r" "of_int S * r \<le> of_int b" "of_int c \<le> of_int S * t" "of_int S * t \<le> of_int d" "0 \<le> a" "0 < c"
    using assms by (simp_all add: good_def encloses_def ij)
  have z: "(0 :: real) \<le> of_int a" "(0 :: real) < of_int c" using e(5,6) by simp_all
  then have n: "0 \<le> of_int S * r" "0 < of_int S * t" "(0 :: real) \<le> of_int b" "(0 :: real) < of_int d" using e by linarith+
  have m: "of_int S * r * of_int S / (of_int S * t) = of_int S * (r / t)" by simp
  have "of_int (tdiv (a * S) d) \<le> (of_int a * of_int S / of_int d :: real)" using tdiv_real(2) [of "a * S" d] e(5) n(4) by simp
  also have "\<dots> \<le> of_int S * r * of_int S / (of_int S * t)" using e z n by (intro frac_le mult_right_mono) simp_all
  finally have lo: "of_int (tdiv (a * S) d) \<le> of_int S * (r / t)" unfolding m .
  have "of_int S * r * of_int S / (of_int S * t) \<le> (of_int b * of_int S / of_int c :: real)" using e z n by (intro frac_le mult_right_mono) simp_all
  also have "\<dots> \<le> of_int (ceil_of (b * S) c)" using ceil_real(1) [of "b * S" c] n(3) e(6) by simp
  finally have hi: "of_int S * (r / t) \<le> of_int (ceil_of (b * S) c)" unfolding m .
  have "0 \<le> tdiv (a * S) d" using tdiv_real(1) [of "a * S" d] e(5) n(4) by simp
  then show ?thesis using lo hi e(6) by (simp add: good_def encloses_def ratio_def ij)
qed

lemma rounded_near: "\<bar>1000 * (of_int v / of_int S) - (of_int (rounded v) :: real)\<bar> \<le> 1 / 2"
proof -
  have near: "\<bar>1000 * (of_int w / of_int S) - (of_int (tdiv (w * 1000 + tdiv S 2) S) :: real)\<bar> \<le> 1 / 2" if "0 \<le> w" for w
  proof -
    have h: "tdiv S 2 = S div 2" "2 * (S div 2) = S" by (simp_all add: S_def)
    let ?m = "w * 1000 + S div 2"
    have q: "?m div S * S \<le> ?m" "?m < ?m div S * S + S"
      using div_mult_mod_eq [of ?m S] pos_mod_sign [OF S_pos(1), of ?m] pos_mod_bound [OF S_pos(1), of ?m] by linarith+
    have "2 * (?m div S * S) \<le> 2000 * w + S" "2000 * w + S < 2 * (?m div S * S) + 2 * S" using q h(2) by (simp, linarith)
    then have "(of_int (2 * (?m div S * S)) :: real) \<le> of_int (2000 * w + S)" "(of_int (2000 * w + S) :: real) \<le> of_int (2 * (?m div S * S) + 2 * S)"
      by (simp_all only: of_int_le_iff)
    moreover have "(0 :: real) < of_int S" using S_pos(1) by simp
    ultimately have "\<bar>1000 * (of_int w / of_int S) - (of_int (?m div S) :: real)\<bar> \<le> 1 / 2"
      unfolding abs_le_iff by (intro conjI) (simp_all add: field_simps)
    moreover have "0 \<le> ?m" using that by (simp add: S_def)
    ultimately show ?thesis by (simp add: h(1))
  qed
  have neg: "1000 * (of_int v / of_int S) - (of_int (- z) :: real) = - (1000 * (of_int (- v) / of_int S) - of_int z)" for z by simp
  show ?thesis
  proof (cases "v < 0")
    case True
    then show ?thesis unfolding rounded_def if_P [OF True] neg abs_minus_cancel by (intro near) simp
  next
    case False
    then show ?thesis unfolding rounded_def if_not_P [OF False] by (intro near) simp
  qed
qed

text \<open>What it means for a reported value to be right.\<close>

definition near_thousandth :: "int option \<Rightarrow> real \<Rightarrow> bool" where
  "near_thousandth v r = (case v of None \<Rightarrow> True | Some z \<Rightarrow> \<bar>1000 * r - of_int z\<bar> \<le> 1 / 2)"

lemma certified_near: "encloses i r \<Longrightarrow> near_thousandth (certified_value (Some i)) r"
proof (cases i)
  case (Pair l h)
  assume e: "encloses i r"
  have m: "1000 * (of_int l / of_int S) \<le> 1000 * r" "1000 * r \<le> 1000 * (of_int h / of_int S)"
    using e S_pos(1) by (simp_all add: encloses_def Pair field_simps)
  show ?thesis
  proof (cases "rounded l = rounded h")
    case True
    have "\<bar>1000 * r - of_int (rounded l)\<bar> \<le> 1 / 2" using m rounded_near [of l] rounded_near [of h, folded True] by linarith
    then show ?thesis by (simp add: near_thousandth_def certified_value_def Pair True)
  qed (simp add: near_thousandth_def certified_value_def Pair)
qed

lemma difference_encloses: "encloses i r \<Longrightarrow> encloses j t \<Longrightarrow> encloses (difference_of i j) (r - t)"
  by (cases i, cases j) (simp add: encloses_def difference_of_def algebra_simps add_mono)

section \<open>Scores within bounds\<close>

lemma score_eq: "score s x = (\<Sum>f\<leftarrow>ss_factors s. int (str_nat (fa_values f ! nat (local_of (fa_scope f) (nat (ss_events s)) x))))"
proof -
  have "foldl (\<lambda>q f. q + g f) a fs = a + (\<Sum>f\<leftarrow>fs. g f)" for g :: "pool_factor \<Rightarrow> int" and a fs
    by (induction fs arbitrary: a) auto
  then show ?thesis by (simp add: score_def)
qed

lemma larger_ge: "a \<le> foldl larger a xs"
proof (induction xs arbitrary: a)
  case (Cons y ys)
  have "a \<le> larger a y" by (simp add: larger_def)
  then show ?case using Cons [of "larger a y"] by simp
qed simp

lemma larger_mem: "x \<in> set xs \<Longrightarrow> x \<le> foldl larger a xs"
proof (induction xs arbitrary: a)
  case (Cons y ys)
  have "y \<le> larger a y" by (simp add: larger_def)
  then show ?case using Cons larger_ge [of "larger a y" ys] by (cases "x \<in> set ys") auto
qed simp

lemma larger_attained: "foldl larger a xs \<in> insert a (set xs)"
proof (induction xs arbitrary: a)
  case (Cons y ys)
  show ?case using Cons [of "larger a y"] by (auto simp: larger_def split: if_splits)
qed simp

lemma atom_value: "atom v = ok n \<Longrightarrow> n = int (str_nat v)"
  by (simp add: atom_def split: if_splits)

lemma local_of_bounds:
  "nat (local_of scope n x) < 2 ^ length (filter (js_bit scope) [0..<n]) \<and> 0 \<le> local_of scope n x" if n: "n < 31"
proof -
  define step where "step = (\<lambda>(l, b) e. if js_bit scope e then (if js_bit (int x) e then js_or l (js_shl 1 b) else l, Suc b) else (l, b))"
  have "\<exists>l. foldl step (0, 0) [0..<n] = (l, length (filter (js_bit scope) [0..<n])) \<and> 0 \<le> l \<and> l < 2 ^ length (filter (js_bit scope) [0..<n])"
    using n
  proof (induction n)
    case (Suc n)
    obtain l where l: "foldl step (0, 0) [0..<n] = (l, length (filter (js_bit scope) [0..<n]))" "0 \<le> l" "l < 2 ^ length (filter (js_bit scope) [0..<n])"
      using Suc by auto
    have "length (filter (js_bit scope) [0..<n]) \<le> n" using length_filter_le [of _ "[0..<n]"] by simp
    then show ?case using l Suc.prems js_or_pow [OF l(2,3)] by (auto simp: step_def)
  qed simp
  then obtain l where "local_of scope n x = l" "0 \<le> l" "l < 2 ^ length (filter (js_bit scope) [0..<n])"
    by (auto simp: local_of_def step_def)
  then show ?thesis by (simp add: nat_less_iff)
qed

lemma popcount_filter:
  assumes "n = 2 \<or> n = 3 \<or> n = 4" "1 \<le> scope" "scope < 2 ^ n"
  shows "popcount scope = length (filter (js_bit scope) [0..<n])"
proof -
  have "list_all (\<lambda>n. list_all (\<lambda>k. popcount (int k) = length (filter (js_bit (int k)) [0..<n])) [0..<2 ^ n]) [2, 3, 4]"
    by code_simp
  then have "\<forall>k<2 ^ n. popcount (int k) = length (filter (js_bit (int k)) [0..<n])"
    using assms(1) unfolding list.pred_inject(2) list_all_iff atLeastLessThan_upt [symmetric] by (elim disjE) simp_all
  then have "popcount (int k) = length (filter (js_bit (int k)) [0..<n])" if "k < 2 ^ n" for k
    using that by blast
  from this [of "nat scope"] show ?thesis using assms(2,3) by (simp add: nat_less_iff)
qed

lemma factor_value:
  assumes "factor_maximum events f = ok m" "events = 2 \<or> events = 3 \<or> events = 4"
  shows "int (str_nat (fa_values f ! nat (local_of (fa_scope f) (nat events) x))) \<le> m"
proof -
  let ?scope = "fa_scope f" let ?n = "nat events"
  from assms(1) obtain vs where v: "1 \<le> ?scope" "?scope < 2 ^ ?n" "length (fa_values f) = 2 ^ popcount ?scope"
    "mapE atom (fa_values f) = ok vs" "m = foldl larger 0 vs"
    by (auto simp: factor_maximum_def split: if_splits)
  have n: "?n = 2 \<or> ?n = 3 \<or> ?n = 4" using assms(2) by auto
  then have "?n < 31" by auto
  from local_of_bounds [OF this, of ?scope x] popcount_filter [OF n v(1,2)]
  have i: "nat (local_of ?scope ?n x) < length (fa_values f)" by (simp add: v(3))
  have "atom (fa_values f ! nat (local_of ?scope ?n x)) = ok (vs ! nat (local_of ?scope ?n x))"
    using v(4) i by (simp add: mapE_Inr_iff list_all2_conv_all_nth)
  then have "int (str_nat (fa_values f ! nat (local_of ?scope ?n x))) = vs ! nat (local_of ?scope ?n x)" using atom_value by simp
  also have "\<dots> \<in> set vs" using i mapE_length [OF v(4)] by simp
  finally show ?thesis using larger_mem v(5) by simp
qed

lemma sum_list_below: "list_all2 p xs ms \<Longrightarrow> (\<And>x m. p x m \<Longrightarrow> g x \<le> m) \<Longrightarrow> (\<Sum>x\<leftarrow>xs. g x) \<le> (sum_list ms :: int)"
  by (induction rule: list_all2_induct) (auto intro: add_mono)

lemma snapshot_facts:
  assumes "validatePairSnapshot s = ok ()"
  shows "0 < liquidity_of s" "ss_events s = 2 \<or> ss_events s = 3 \<or> ss_events s = 4" "0 \<le> score s x" "score s x \<le> 100 * liquidity_of s"
    "0 \<le> ss_a s" "0 \<le> ss_b s" "ss_a s < ss_events s" "ss_b s < ss_events s"
proof -
  from assms obtain l ms where v: "List.member [2, 3, 4] (ss_events s)" "\<not> (min (ss_a s) (ss_b s) < 0 \<or> max (ss_a s) (ss_b s) \<ge> ss_events s)"
    "atom (ss_liquidity s) = ok l" "l \<noteq> 0" "mapE (factor_maximum (ss_events s)) (ss_factors s) = ok ms" "sum_list ms \<le> 100 * l"
    by (auto simp: validatePairSnapshot_def split: if_splits)
  have l: "l = liquidity_of s" using atom_value [OF v(3)] by (simp add: liquidity_of_def)
  show "0 < liquidity_of s" using v(4) unfolding l by (simp add: liquidity_of_def)
  show e: "ss_events s = 2 \<or> ss_events s = 3 \<or> ss_events s = 4" using v(1) by simp
  show "0 \<le> score s x" unfolding score_eq by (intro sum_list_nonneg) auto
  have "score s x \<le> sum_list ms" unfolding score_eq
    by (rule sum_list_below [OF v(5) [unfolded mapE_Inr_iff]]) (rule factor_value [OF _ e])
  then show "score s x \<le> 100 * liquidity_of s" using v(6) l by simp
  show "0 \<le> ss_a s" "0 \<le> ss_b s" "ss_a s < ss_events s" "ss_b s < ss_events s" using v(2) by auto
qed

section \<open>The market's probabilities\<close>

text \<open>A combination of answers is as likely as the exponential of its score over the liquidity.\<close>

definition likelihood :: "pair_snapshot \<Rightarrow> nat \<Rightarrow> real" where
  "likelihood s x = exp (of_int (score s x) / of_int (liquidity_of s))"

definition chance :: "pair_snapshot \<Rightarrow> (nat \<Rightarrow> bool) \<Rightarrow> real" where
  "chance s p = (\<Sum>x\<leftarrow>filter p (states_of s). likelihood s x) / (\<Sum>x\<leftarrow>states_of s. likelihood s x)"

definition top_score :: "pair_snapshot \<Rightarrow> int" where
  "top_score s = foldl larger 0 (map (score s) (states_of s))"

definition state_mass :: "pair_snapshot \<Rightarrow> nat \<Rightarrow> real" where
  "state_mass s x = exp (- (of_int (top_score s) / of_int (liquidity_of s))) * likelihood s x"

lemma pool_states_nonempty: "states_of s \<noteq> []"
  by (simp add: states_of_def)

lemma top_bounds:
  assumes "validatePairSnapshot s = ok ()" "x \<in> set (states_of s)"
  shows "0 \<le> top_score s - score s x" "top_score s - score s x \<le> 100 * liquidity_of s"
proof -
  show "0 \<le> top_score s - score s x" using larger_mem [of "score s x"] assms(2) by (simp add: top_score_def)
  have "top_score s \<in> insert 0 (set (map (score s) (states_of s)))" unfolding top_score_def by (rule larger_attained)
  then have "top_score s \<le> 100 * liquidity_of s" using snapshot_facts(1,4) [OF assms(1)] by (auto intro: less_imp_le)
  then show "top_score s - score s x \<le> 100 * liquidity_of s" using snapshot_facts(3) [OF assms(1), of x] by linarith
qed

lemma state_weight:
  assumes "validatePairSnapshot s = ok ()" "x \<in> set (states_of s)"
  shows "good (weight (top_score s - score s x) (liquidity_of s)) (state_mass s x)"
proof -
  have "- (of_int (top_score s - score s x) / of_int (liquidity_of s)) = - (of_int (top_score s) / of_int (liquidity_of s)) + (of_int (score s x) / of_int (liquidity_of s) :: real)"
    by (simp add: diff_divide_distrib)
  then have "exp (- (of_int (top_score s - score s x) / of_int (liquidity_of s))) = state_mass s x"
    unfolding state_mass_def likelihood_def exp_add [symmetric] by simp
  then show ?thesis using weight_encloses [OF top_bounds(1) [OF assms] snapshot_facts(1) [OF assms(1)] top_bounds(2) [OF assms]]
    by (simp add: good_def)
qed

lemma weight_zero:
  assumes "0 < d" shows "fst (weight 0 d) = S"
proof -
  have "foldl (term_step 0 d) (S, S, S, S) [1..<Suc m] = (S, S, if m = 0 then S else 0, if m = 0 then S else 0)" for m
  proof (induction m)
    case (Suc m)
    have "[1..<Suc (Suc m)] = [1..<Suc m] @ [Suc m]" by simp
    moreover have "tdiv 0 (d * 128 * int (Suc m)) = 0" "ceil_of 0 (d * 128 * int (Suc m)) = 0"
      using assms by (simp_all add: ceil_of_def del: of_nat_Suc)
    ultimately show ?case using Suc by (simp add: term_step_def Let_def del: upt_Suc of_nat_Suc)
  qed simp
  from this [of 64] have "foldl (term_step 0 d) (S, S, S, S) [1..<65] = (S, S, 0, 0)" by simp
  moreover have "ceil_of 0 (d * 128 * 65) = 0" using assms by (simp add: ceil_of_def)
  moreover have "(square ^^ k) (S, S) = (S, S)" for k
    by (induction k) (simp_all add: square_def ceil_of_def, simp_all add: S_def)
  moreover have "tdiv (S * S) S = S" "ceil_of (S * S) S = S" by (simp_all add: ceil_of_def) (simp_all add: S_def)
  ultimately show ?thesis unfolding weight_def by simp
qed

definition mass :: "pair_snapshot \<Rightarrow> (nat \<Rightarrow> bool) \<Rightarrow> real" where
  "mass s p = (\<Sum>x\<leftarrow>filter p (states_of s). state_mass s x)"

lemma mass_pos: "filter p (states_of s) \<noteq> [] \<Longrightarrow> 0 < mass s p"
proof -
  have "xs \<noteq> [] \<Longrightarrow> 0 < (\<Sum>x\<leftarrow>xs. state_mass s x)" for xs
  proof (induction xs)
    case (Cons x xs)
    have "0 < state_mass s x" by (simp add: state_mass_def likelihood_def)
    then show ?case using Cons by (cases xs) (auto intro: add_pos_pos)
  qed simp
  then show "filter p (states_of s) \<noteq> [] \<Longrightarrow> 0 < mass s p" by (simp add: mass_def)
qed

lemma all_mass: "0 < mass s (\<lambda>_. True)"
  using pool_states_nonempty by (intro mass_pos) simp

lemma chance_mass: "chance s p = mass s p / mass s (\<lambda>_. True)"
  by (simp add: chance_def mass_def state_mass_def sum_list_const_mult)

definition weights_of :: "pair_snapshot \<Rightarrow> (int \<times> int) list" where
  "weights_of s = map (\<lambda>x. weight (top_score s - score s x) (liquidity_of s)) (states_of s)"

lemma pair_distribution_ok: "validatePairSnapshot s = ok () \<Longrightarrow> pair_distribution s = ok (weights_of s)"
  by (simp add: pair_distribution_def weights_of_def top_score_def comp_def)

lemma good_select: "validatePairSnapshot s = ok () \<Longrightarrow> good (select p (weights_of s)) (mass s p)"
  unfolding weights_of_def states_of_def select_map mass_def by (intro good_sum state_weight) (simp_all add: states_of_def)

lemma select_all: "sum_of (weights_of s) = select (\<lambda>_. True) (weights_of s)"
  by (simp add: weights_of_def states_of_def select_map)

lemma mem_le_sum_list: "x \<in> set xs \<Longrightarrow> (\<And>y. y \<in> set xs \<Longrightarrow> 0 \<le> y) \<Longrightarrow> x \<le> (sum_list xs :: int)"
proof (induction xs)
  case (Cons y ys)
  have "0 \<le> sum_list ys" using Cons.prems(2) by (intro sum_list_nonneg) simp
  then show ?case using Cons by force
qed simp

lemma all_weight_pos:
  assumes "validatePairSnapshot s = ok ()"
  shows "0 < fst (sum_of (weights_of s))"
proof -
  have "\<exists>x\<in>set (states_of s). score s x = top_score s"
  proof (cases "top_score s = 0")
    case True
    obtain x where "x \<in> set (states_of s)" using pool_states_nonempty [of s] by (cases "states_of s") auto
    then show ?thesis using True snapshot_facts(3) [OF assms, of x] top_bounds(1) [OF assms, of x] by force
  next
    case False
    have "top_score s \<in> insert 0 (set (map (score s) (states_of s)))" unfolding top_score_def by (rule larger_attained)
    then show ?thesis using False by auto
  qed
  then obtain x where x: "x \<in> set (states_of s)" "score s x = top_score s" by blast
  have "S \<in> set (map fst (weights_of s))" using x weight_zero [OF snapshot_facts(1) [OF assms]]
    by (force simp: weights_of_def image_iff)
  moreover have "0 \<le> y" if "y \<in> set (map fst (weights_of s))" for y
    using that state_weight [OF assms] by (auto simp: weights_of_def good_def)
  ultimately have "S \<le> fst (sum_of (weights_of s))" unfolding sum_of_eq fst_conv by (rule mem_le_sum_list)
  then show ?thesis using S_pos(1) by linarith
qed

text \<open>Every probability the code divides out encloses the true one.\<close>

lemma chance_interval:
  assumes "validatePairSnapshot s = ok ()"
  shows "\<exists>k. ratio (select p (weights_of s)) (sum_of (weights_of s)) = ok k \<and> good k (chance s p)"
  unfolding chance_mass select_all
  by (intro good_ratio good_select [OF assms] all_weight_pos [OF assms, unfolded select_all])

lemma given_interval:
  assumes "validatePairSnapshot s = ok ()" "ratio (select q (weights_of s)) (sum_of (weights_of s)) = ok k"
  shows "\<exists>r. given k (select p (weights_of s)) (select q (weights_of s)) = ok r \<and>
    near_thousandth (certified_value r) (chance s p / chance s q)"
proof (cases "fst k \<ge> tdiv S 1000000000")
  case True
  then have k: "0 < fst k" by (simp add: S_def)
  have "0 < fst (select q (weights_of s))"
  proof (rule ccontr)
    assume "\<not> 0 < fst (select q (weights_of s))"
    then have "fst (select q (weights_of s)) = 0" using good_select [OF assms(1), of q] by (simp add: good_def)
    then have "fst k = tdiv 0 (snd (sum_of (weights_of s)))" using assms(2) by (auto simp: ratio_def split: prod.splits if_splits)
    then show False using k by (simp add: tdiv_def)
  qed
  from good_ratio [OF good_select [OF assms(1), of p] good_select [OF assms(1), of q] this]
  obtain j where j: "ratio (select p (weights_of s)) (select q (weights_of s)) = ok j" "good j (mass s p / mass s q)" by blast
  have "mass s p / mass s q = chance s p / chance s q" using all_mass [of s] by (simp add: chance_mass)
  then show ?thesis using j True certified_near [of j] by (simp add: given_def good_def)
qed (simp add: given_def near_thousandth_def certified_value_def)

section \<open>What the pool's page shows\<close>

definition answered :: "int \<Rightarrow> nat \<Rightarrow> bool" where
  "answered event x = bit x (nat event)"

definition pair_truth :: "pair_snapshot \<Rightarrow> (string \<times> real) list" where
  "pair_truth s = (let A = answered (ss_a s); B = answered (ss_b s);
      both = chance s (\<lambda>x. A x \<and> B x); only = chance s (\<lambda>x. A x \<and> \<not> B x) in
    [(''a'', chance s A), (''b'', chance s B), (''joint'', both), (''givenYes'', both / chance s B),
     (''givenNo'', only / chance s (\<lambda>x. \<not> B x)), (''independent'', chance s A * chance s B),
     (''difference'', both - chance s A * chance s B)])"

definition reports :: "string \<times> int option \<Rightarrow> string \<times> real \<Rightarrow> bool" where
  "reports = (\<lambda>(key, v) (key', r). key = key' \<and> near_thousandth v r)"

lemma js_bit_answered: "0 \<le> event \<Longrightarrow> event < 32 \<Longrightarrow> js_bit (int x) (nat event) = answered event x"
  by (simp add: js_bit_iff answered_def bit_of_nat_iff)

text \<open>C11: whenever the snapshot of a pool is valid the pair page has its probabilities, and every number
  it reports (each question, both together, one given the other, the product and the gap) is the probability of the
  logarithmic scoring rule rounded to a thousandth: integer arithmetic with outward rounding never shows a wrong digit.\<close>

theorem certified_pair_exact:
  assumes "validatePairSnapshot s = ok ()"
  shows "\<exists>c. certifiedPair s = ok c \<and> list_all2 reports (cf_values c) (pair_truth s)"
proof -
  let ?w = "weights_of s"
  have e: "0 \<le> ss_a s" "ss_a s < 32" "0 \<le> ss_b s" "ss_b s < 32" using snapshot_facts(2,5-8) [OF assms] by auto
  note bits = js_bit_answered [OF e(1,2)] js_bit_answered [OF e(3,4)]
  let ?A = "answered (ss_a s)" let ?B = "answered (ss_b s)"
  obtain a where a: "ratio (select ?A ?w) (sum_of ?w) = ok a" "good a (chance s ?A)" using chance_interval [OF assms] by blast
  obtain b where b: "ratio (select ?B ?w) (sum_of ?w) = ok b" "good b (chance s ?B)" using chance_interval [OF assms] by blast
  obtain nb where nb: "ratio (select (\<lambda>x. \<not> ?B x) ?w) (sum_of ?w) = ok nb" using chance_interval [OF assms] by blast
  obtain j where j: "ratio (select (\<lambda>x. ?A x \<and> ?B x) ?w) (sum_of ?w) = ok j" "good j (chance s (\<lambda>x. ?A x \<and> ?B x))"
    using chance_interval [OF assms] by blast
  obtain y where y: "given b (select (\<lambda>x. ?A x \<and> ?B x) ?w) (select ?B ?w) = ok y"
    "near_thousandth (certified_value y) (chance s (\<lambda>x. ?A x \<and> ?B x) / chance s ?B)" using given_interval [OF assms b(1)] by blast
  obtain n where n: "given nb (select (\<lambda>x. ?A x \<and> \<not> ?B x) ?w) (select (\<lambda>x. \<not> ?B x) ?w) = ok n"
    "near_thousandth (certified_value n) (chance s (\<lambda>x. ?A x \<and> \<not> ?B x) / chance s (\<lambda>x. \<not> ?B x))" using given_interval [OF assms nb] by blast
  have i: "encloses (product a b) (chance s ?A * chance s ?B)" using a(2) b(2) unfolding good_def by (intro encloses_product) simp_all
  have g: "encloses a (chance s ?A)" "encloses b (chance s ?B)" "encloses j (chance s (\<lambda>x. ?A x \<and> ?B x))" using a b j by (simp_all add: good_def)
  have "certifiedPair s = ok (certify [(''a'', Some a), (''b'', Some b), (''joint'', Some j), (''givenYes'', y), (''givenNo'', n),
      (''independent'', Some (product a b)), (''difference'', Some (difference_of j (product a b)))])"
    unfolding certifiedPair_def pair_distribution_ok [OF assms] bindE_simps Let_def bits a(1) b(1) nb j(1) y(1) n(1) ..
  moreover have "list_all2 reports (cf_values (certify [(''a'', Some a), (''b'', Some b), (''joint'', Some j), (''givenYes'', y), (''givenNo'', n),
      (''independent'', Some (product a b)), (''difference'', Some (difference_of j (product a b)))])) (pair_truth s)"
    using g y(2) n(2) i difference_encloses [OF g(3) i] by (simp add: certify_def pair_truth_def Let_def reports_def certified_near)
  ultimately show ?thesis by blast
qed

section \<open>What a claim's page shows\<close>

definition row_chance :: "pair_snapshot \<Rightarrow> nat list \<Rightarrow> nat \<Rightarrow> real" where
  "row_chance s selected state =
     (\<Prod>(i, event)\<leftarrow>enumerate 0 selected. chance s (\<lambda>x. bit x event = bit state i))"

definition claim_truth :: "pair_snapshot \<Rightarrow> nat list \<Rightarrow> nat \<Rightarrow> (string \<times> real) list" where
  "claim_truth s selected m =
     (let market = chance s (\<lambda>x. bit m (local_state (int x) selected));
          independent = (\<Sum>state\<leftarrow>filter (bit m) [0..<2 ^ length selected]. row_chance s selected state) in
      [(''market'', market), (''independent'', independent), (''difference'', market - independent)])"

lemma local_answers_iff:
  assumes "list_all (\<lambda>e. e < 32) selected" "length selected \<le> 31" "state < 2 ^ length selected"
  shows "local_answers selected state x \<longleftrightarrow> state = local_state (int x) selected"
proof -
  have "local_answers selected state x \<longleftrightarrow> (\<forall>i<length selected. bit x (selected ! i) = bit state i)"
    using assms(1,2) by (auto simp: local_answers_def list_all_length nth_enumerate_eq js_bit_iff bit_of_nat_iff)
  also have "\<dots> \<longleftrightarrow> state = local_state (int x) selected"
  proof
    assume h: "\<forall>i<length selected. bit x (selected ! i) = bit state i"
    show "state = local_state (int x) selected"
    proof (rule bit_eqI)
      fix i
      have "\<not> bit state i" if "\<not> i < length selected"
        using assms(3) that take_bit_nat_eq_self [OF assms(3)] by (metis bit_take_bit_iff)
      then show "bit state i = bit (local_state (int x) selected) i" using h by (auto simp: bit_local_state bit_of_nat_iff)
    qed
  qed (simp add: bit_local_state bit_of_nat_iff)
  finally show ?thesis .
qed

text \<open>The rows of a truth table split the states.\<close>

lemma sum_rows: "distinct rows \<Longrightarrow> (\<Sum>r\<leftarrow>rows. \<Sum>x\<leftarrow>filter (\<lambda>x. r = g x) xs. f x) = (\<Sum>x\<leftarrow>filter (\<lambda>x. g x \<in> set rows) xs. f x :: real)"
proof (induction xs)
  case (Cons x xs)
  have "(\<Sum>r\<leftarrow>rows. (if r = g x then f x else 0)) = (if g x \<in> set rows then f x else 0)"
    using Cons.prems by (induction rows) auto
  moreover have "(\<Sum>r\<leftarrow>rows. \<Sum>x\<leftarrow>filter (\<lambda>x. r = g x) (x # xs). f x)
      = (\<Sum>r\<leftarrow>rows. (if r = g x then f x else 0)) + (\<Sum>r\<leftarrow>rows. \<Sum>x\<leftarrow>filter (\<lambda>x. r = g x) xs. f x)"
    unfolding sum_list_addf [symmetric] by (intro arg_cong [where f = sum_list] map_cong refl) simp
  ultimately show ?case using Cons by simp
qed simp

lemma good_claim_market:
  assumes "validatePairSnapshot s = ok ()" "list_all (\<lambda>e. e < 32) selected" "length selected \<le> 31"
  shows "good (sum_of (map (\<lambda>state. select (local_answers selected state) (weights_of s)) (paying_states m (length selected))))
    (mass s (\<lambda>x. bit (str_nat m) (local_state (int x) selected)))"
proof -
  let ?rows = "paying_states m (length selected)"
  have "good (sum_of (map (\<lambda>state. select (local_answers selected state) (weights_of s)) ?rows))
      (\<Sum>r\<leftarrow>?rows. \<Sum>x\<leftarrow>filter (\<lambda>x. r = local_state (int x) selected) (states_of s). state_mass s x)"
  proof (rule good_sum)
    fix r assume "r \<in> set ?rows"
    then have "local_answers selected r = (\<lambda>x. r = local_state (int x) selected)"
      using local_answers_iff [OF assms(2,3), of r] by (auto simp: paying_states_def fun_eq_iff)
    then show "good (select (local_answers selected r) (weights_of s)) (\<Sum>x\<leftarrow>filter (\<lambda>x. r = local_state (int x) selected) (states_of s). state_mass s x)"
      using good_select [OF assms(1), of "local_answers selected r"] by (simp add: mass_def)
  qed
  also have "(\<Sum>r\<leftarrow>?rows. \<Sum>x\<leftarrow>filter (\<lambda>x. r = local_state (int x) selected) (states_of s). state_mass s x)
      = (\<Sum>x\<leftarrow>filter (\<lambda>x. local_state (int x) selected \<in> set ?rows) (states_of s). state_mass s x)"
    by (rule sum_rows) (simp add: paying_states_def)
  also have "(\<lambda>x. local_state (int x) selected \<in> set ?rows) = (\<lambda>x. bit (str_nat m) (local_state (int x) selected))"
    using local_state_less by (auto simp: paying_states_def fun_eq_iff bit_of_nat_iff)
  finally show ?thesis by (simp add: mass_def)
qed

definition both_answers :: "pair_snapshot \<Rightarrow> nat \<Rightarrow> (int \<times> int) \<times> (int \<times> int) \<Rightarrow> bool" where
  "both_answers s event = (\<lambda>(no, yes). good no (chance s (\<lambda>x. \<not> bit x event)) \<and> good yes (chance s (\<lambda>x. bit x event)))"

lemma answer_chances_good:
  assumes "validatePairSnapshot s = ok ()" "event < 32"
  shows "\<exists>c. answer_chances (weights_of s) (sum_of (weights_of s)) event = ok c \<and> both_answers s event c"
proof -
  have bits: "js_bit (int x) event = bit x event" for x using assms(2) by (simp add: js_bit_iff bit_of_nat_iff)
  obtain n where n: "ratio (select (\<lambda>x. \<not> bit x event) (weights_of s)) (sum_of (weights_of s)) = ok n" "good n (chance s (\<lambda>x. \<not> bit x event))"
    using chance_interval [OF assms(1)] by blast
  obtain y where y: "ratio (select (\<lambda>x. bit x event) (weights_of s)) (sum_of (weights_of s)) = ok y" "good y (chance s (\<lambda>x. bit x event))"
    using chance_interval [OF assms(1)] by blast
  show ?thesis unfolding answer_chances_def bits n(1) y(1) bindE_simps using n(2) y(2) by (simp add: both_answers_def)
qed

lemma all_chances:
  assumes "validatePairSnapshot s = ok ()" "list_all (\<lambda>e. e < 32) selected"
  shows "\<exists>cs. mapE (answer_chances (weights_of s) (sum_of (weights_of s))) selected = ok cs \<and> list_all2 (both_answers s) selected cs"
  using assms(2)
proof (induction selected)
  case (Cons e es)
  then show ?case using answer_chances_good [OF assms(1), of e] by auto
qed simp

lemma good_product: "good i r \<Longrightarrow> good j t \<Longrightarrow> good (product i j) (r * t)"
  using encloses_product [of i r j t] by (simp add: good_def)

lemma local_product_good:
  assumes "list_all2 (both_answers s) selected cs" "length selected \<le> 31"
  shows "good (local_product cs state) (row_chance s selected state)"
proof -
  have "good p r \<Longrightarrow> good (foldl (\<lambda>p (i, (no, yes)). product p (if js_bit (int state) i then yes else no)) p (enumerate k cs))
      (r * (\<Prod>(i, event)\<leftarrow>enumerate k selected. chance s (\<lambda>x. bit x event = bit state i)))" if "k + length cs < 32" for k p r
    using assms(1) that
  proof (induction arbitrary: k p r rule: list_all2_induct)
    case (Cons e es c cs)
    obtain no yes where c: "c = (no, yes)" by (cases c)
    have "js_bit (int state) k = bit state k" using Cons.prems(2) by (simp add: js_bit_iff bit_of_nat_iff)
    then have "good (if js_bit (int state) k then yes else no) (chance s (\<lambda>x. bit x e = bit state k))"
      using Cons.hyps(1) by (simp add: both_answers_def c)
    from Cons.IH [OF good_product [OF Cons.prems(1) this], of "Suc k"] Cons.prems(2) show ?case by (simp add: c mult.assoc)
  qed simp
  from this [of 0 "(S, S)" 1] show ?thesis using assms(2) list_all2_lengthD [OF assms(1)] unfolding local_product_def row_chance_def
    by (simp add: good_def encloses_def)
qed

text \<open>C14: for every valid claim on a valid pool the claim page has its probabilities, and the market's
  probability of the claim, the product distribution's and their gap, when reported, are the true ones (the
  first over the states that pay, the second from the answers' own probabilities) rounded to a thousandth.\<close>

theorem certified_claim_exact:
  assumes "validatePairSnapshot (s\<lparr>ss_a := 0, ss_b := 1\<rparr>) = ok ()" "validateClaim scope m (ss_events s) = ok selected"
  shows "\<exists>c. certifiedClaim s scope m = ok c \<and> list_all2 reports (cf_values c) (claim_truth s selected (str_nat m))"
proof -
  let ?s = "s\<lparr>ss_a := 0, ss_b := 1\<rparr>" let ?w = "weights_of ?s" let ?rows = "paying_states m (length selected)"
  have sel: "list_all (\<lambda>e. e < 32) selected" "length selected \<le> 3" "length selected \<le> 31"
    using assms(2) scopeEvents_less by (auto simp: validateClaim_iff)
  obtain cs where cs: "mapE (answer_chances ?w (sum_of ?w)) selected = ok cs" "list_all2 (both_answers ?s) selected cs"
    using all_chances [OF assms(1) sel(1)] by blast
  define market where "market = sum_of (map (\<lambda>state. select (local_answers selected state) ?w) ?rows)"
  define independent where "independent = sum_of (map (local_product cs) ?rows)"
  have "good market (mass ?s (\<lambda>x. bit (str_nat m) (local_state (int x) selected)))"
    unfolding market_def using good_claim_market [OF assms(1) sel(1,3)] .
  moreover have "good (sum_of ?w) (mass ?s (\<lambda>_. True))" using good_select [OF assms(1)] by (simp add: select_all)
  ultimately obtain k where k: "ratio market (sum_of ?w) = ok k" "good k (chance ?s (\<lambda>x. bit (str_nat m) (local_state (int x) selected)))"
    using good_ratio all_weight_pos [OF assms(1)] unfolding chance_mass by blast
  have same: "chance ?s = chance s" "row_chance ?s = row_chance s"
    by (simp_all add: fun_eq_iff chance_def row_chance_def likelihood_def score_def states_of_def liquidity_of_def)
  have i: "good independent (\<Sum>state\<leftarrow>?rows. row_chance s selected state)"
    unfolding independent_def using local_product_good [OF cs(2) sel(3)] unfolding same by (intro good_sum)
  have r: "?rows = filter (bit (str_nat m)) [0..<2 ^ length selected]"
    unfolding paying_states_def by (intro filter_cong refl) (simp add: bit_of_nat_iff)
  have g: "encloses k (chance s (\<lambda>x. bit (str_nat m) (local_state (int x) selected)))" "encloses independent (\<Sum>state\<leftarrow>?rows. row_chance s selected state)"
    using k(2) i by (simp_all add: good_def same)
  have "certifiedClaim s scope m = ok (certify [(''market'', Some k), (''independent'', Some independent), (''difference'', Some (difference_of k independent))])"
    unfolding certifiedClaim_def assms(2) pair_distribution_ok [OF assms(1)] bindE_simps Let_def cs(1) market_def [symmetric] independent_def [symmetric] k(1) ..
  moreover have "list_all2 reports (cf_values (certify [(''market'', Some k), (''independent'', Some independent), (''difference'', Some (difference_of k independent))]))
      (claim_truth s selected (str_nat m))"
    using g difference_encloses [OF g] by (simp add: certify_def claim_truth_def Let_def reports_def certified_near r)
  ultimately show ?thesis by blast
qed

section \<open>A pool of two questions\<close>

definition demo_pool :: pair_snapshot where
  "demo_pool = \<lparr>ss_events = 2, ss_a = 0, ss_b = 1, ss_liquidity = ''1000000'', ss_order = [0, 1],
     ss_factors = [\<lparr>fa_scope = 3, fa_values = [''0'', ''0'', ''0'', ''500000'']\<rparr>]\<rparr>"

lemma demo_pool_valid: "validatePairSnapshot demo_pool = ok ()"
  by code_simp

lemma demo_pool_reset: "validatePairSnapshot (demo_pool\<lparr>ss_a := 0, ss_b := 1\<rparr>) = ok ()"
  by code_simp

theorem certified_pair_exact_witness: "\<exists>c. certifiedPair demo_pool = ok c \<and> list_all2 reports (cf_values c) (pair_truth demo_pool)"
  using certified_pair_exact [OF demo_pool_valid] .

lemma demo_claim_valid: "validateClaim 3 ''8'' (ss_events demo_pool) = ok [0, 1]"
  by code_simp

theorem certified_claim_exact_witness:
  "\<exists>c. certifiedClaim demo_pool 3 ''8'' = ok c \<and> list_all2 reports (cf_values c) (claim_truth demo_pool [0, 1] (str_nat ''8''))"
  using certified_claim_exact [of demo_pool 3 "''8''" "[0, 1]", OF demo_pool_reset demo_claim_valid] .

end
