(* ===== verification/Iso_Times.thy ===== *)
theory Iso_Times
  imports Dates
begin

text \<open>
  \<open>new Date(ms).toISOString()\<close>: the year is found by walking down from an upper bound, the month is the last one
  that has begun. What it prints is read back by \<open>Date.parse\<close>.
\<close>

section \<open>Calendar\<close>

lemma div_step: "0 < n \<Longrightarrow> (x + 1) div n = x div n + of_bool (n dvd x + 1)" for n x :: int
proof -
  assume n: "0 < n"
  show ?thesis
  proof (cases "n dvd x + 1")
    case True
    then obtain k where k: "x + 1 = n * k" by blast
    have "x = n * (k - 1) + (n - 1)" using k by (simp add: right_diff_distrib)
    then have "x div n = k - 1" using n by (simp add: div_mult_self4 [of n "k - 1" "n - 1"] add.commute)
    then show ?thesis using True k n by simp
  next
    case False
    have "x mod n \<noteq> n - 1" using False n by (metis add.commute diff_add_cancel dvd_eq_mod_eq_0 mod_add_left_eq mod_self)
    then have r: "0 \<le> x mod n" "x mod n + 1 < n" using n pos_mod_bound [OF n, of x] pos_mod_sign [OF n, of x] by linarith+
    have "x + 1 = (x mod n + 1) + n * (x div n)" by simp
    then have "(x + 1) div n = x div n + (x mod n + 1) div n" using n by (metis add.commute div_mult_self2 less_irrefl)
    then show ?thesis using False r by simp
  qed
qed

lemma year_step: "day_from_year (y + 1) = day_from_year y + 365 + (if leap_year y then 1 else 0)"
proof -
  have m: "(4::int) dvd 1968" "(100::int) dvd 1900" "(400::int) dvd 1600" by simp_all
  have e: "4 dvd y - 1968 \<longleftrightarrow> 4 dvd y" "100 dvd y - 1900 \<longleftrightarrow> 100 dvd y" "400 dvd y - 1600 \<longleftrightarrow> 400 dvd y"
    by (rule dvd_diff_left_iff [OF m(1)] dvd_diff_left_iff [OF m(2)] dvd_diff_left_iff [OF m(3)])+
  have s: "y - 1969 + 1 = y - 1968" "y - 1901 + 1 = y - 1900" "y - 1601 + 1 = y - 1600" by simp_all
  note a = div_step [of 4 "y - 1969", OF zero_less_numeral, unfolded s e] div_step [of 100 "y - 1901", OF zero_less_numeral, unfolded s e]
    div_step [of 400 "y - 1601", OF zero_less_numeral, unfolded s e]
  have h: "400 dvd y \<Longrightarrow> 100 dvd y" "100 dvd y \<Longrightarrow> 4 dvd y" by (rule dvd_trans [rotated], assumption, simp)+
  have n: "y + 1 - 1969 = y - 1968" "y + 1 - 1901 = y - 1900" "y + 1 - 1601 = y - 1600" by simp_all
  have "day_from_year (y + 1) = 365 * (y - 1970) + 365 + ((y - 1969) div 4 + of_bool (4 dvd y)) - ((y - 1901) div 100 + of_bool (100 dvd y))
      + ((y - 1601) div 400 + of_bool (400 dvd y))"
    unfolding day_from_year_def n a by (simp add: algebra_simps)
  moreover have "of_bool (4 dvd y) - of_bool (100 dvd y) + of_bool (400 dvd y) = (if leap_year y then 1 else (0 :: int))"
    unfolding leap_year_def using h by (cases "4 dvd y"; cases "100 dvd y"; cases "400 dvd y") simp_all
  ultimately show ?thesis unfolding day_from_year_def by linarith
qed

lemma year_mono: "day_from_year (y - 1) < day_from_year y"
  using year_step [of "y - 1"] by (simp split: if_splits)

function year_down :: "int \<Rightarrow> int \<Rightarrow> int" where
  "year_down y d = (if day_from_year y > d then year_down (y - 1) d else y)"
  by pat_completeness auto
termination
proof (relation "measure (\<lambda>(y, d). nat (day_from_year y - d))")
  fix y d :: int
  assume "day_from_year y > d"
  then show "((y - 1, d), (y, d)) \<in> measure (\<lambda>(y, d). nat (day_from_year y - d))" using year_mono [of y] by simp
qed simp

declare year_down.simps [simp del]

definition year_of :: "int \<Rightarrow> int" where
  "year_of d = year_down (1970 + max d 0 div 365) d"

definition month_start :: "int \<Rightarrow> int \<Rightarrow> int" where
  "month_start y m = month_days ! nat (m - 1) + (if m > 2 \<and> leap_year y then 1 else 0)"

definition month_of :: "int \<Rightarrow> int \<Rightarrow> int" where
  "month_of y n = int (length (filter (\<lambda>m. month_start y m \<le> n) [1, 2, 3, 4, 5, 6, 7, 8, 9, 10, 11, 12]))"

definition padded :: "nat \<Rightarrow> int \<Rightarrow> string" where
  "padded k n = pad_start k (nat_str (nat n))"

definition year_str :: "int \<Rightarrow> string" where
  "year_str y = (if 0 \<le> y \<and> y \<le> 9999 then padded 4 y else (if y < 0 then ''-'' else ''+'') @ padded 6 (abs y))"

definition max_instant :: int where
  "max_instant = 8640000000000000"

definition toISOString :: "int \<Rightarrow> string res" where
  "toISOString ms =
     (if abs ms > max_instant then Inl (Other_error ''RangeError'')
      else
        let d = ms div 86400000; t = ms mod 86400000; y = year_of d; n = d - day_from_year y; m = month_of y n in
        ok (year_str y @ ''-'' @ padded 2 m @ ''-'' @ padded 2 (n - month_start y m + 1) @ ''T'' @ padded 2 (t div 3600000)
          @ '':'' @ padded 2 (t div 60000 mod 60) @ '':'' @ padded 2 (t div 1000 mod 60) @ ''.'' @ padded 3 (t mod 1000) @ ''Z''))"

section \<open>Reading the text back\<close>

lemma day_from_year_ge: "0 \<le> k \<Longrightarrow> 365 * k \<le> day_from_year (1970 + k)"
proof (induction k rule: int_ge_induct)
  case base
  then show ?case by (simp add: day_from_year_def)
next
  case (step k)
  then show ?case using year_step [of "1970 + k"] by (simp add: add.assoc split: if_splits)
qed

lemma year_down_bounds: "d < day_from_year (y + 1) \<Longrightarrow> day_from_year (year_down y d) \<le> d \<and> d < day_from_year (year_down y d + 1)"
proof (induction y d rule: year_down.induct)
  case (1 y d)
  then show ?case by (cases "day_from_year y > d") (simp_all add: year_down.simps [of y d])
qed

lemma year_of_bounds: "day_from_year (year_of d) \<le> d \<and> d < day_from_year (year_of d + 1)"
proof -
  have "max d 0 < 365 * (max d 0 div 365 + 1)"
    using div_mult_mod_eq [of "max d 0" 365] pos_mod_bound [of 365 "max d 0"] unfolding distrib_left by linarith
  also have "\<dots> \<le> day_from_year (1970 + (max d 0 div 365 + 1))" by (rule day_from_year_ge) (simp add: pos_imp_zdiv_nonneg_iff)
  finally show ?thesis unfolding year_of_def by (intro year_down_bounds) (simp add: add.assoc)
qed

lemma last_begun:
  fixes f :: "nat \<Rightarrow> int"
  assumes "\<And>i j. i < j \<Longrightarrow> j < k \<Longrightarrow> f i < f j" "0 < k" "f 0 \<le> n"
  shows "\<exists>m<k. length (filter (\<lambda>i. f i \<le> n) [0..<k]) = Suc m \<and> f m \<le> n \<and> (Suc m < k \<longrightarrow> n < f (Suc m))"
  using assms
proof (induction k)
  case (Suc k)
  show ?case
  proof (cases "k = 0")
    case True
    then show ?thesis using Suc.prems by simp
  next
    case False
    then obtain m where m: "m < k" "length (filter (\<lambda>i. f i \<le> n) [0..<k]) = Suc m" "f m \<le> n" "Suc m < k \<longrightarrow> n < f (Suc m)"
      using Suc by force
    show ?thesis
    proof (cases "f k \<le> n")
      case True
      have "Suc m = k"
      proof (rule ccontr)
        assume "Suc m \<noteq> k"
        then have "n < f (Suc m)" "f (Suc m) < f k" using m Suc.prems(1) [of "Suc m" k] by auto
        then show False using True by simp
      qed
      then show ?thesis using m True by (intro exI [of _ k]) simp
    next
      case False
      moreover have "Suc m < Suc k \<longrightarrow> n < f (Suc m)" using m False by (cases "Suc m = k") auto
      ultimately show ?thesis using m by (intro exI [of _ m]) simp
    qed
  qed
qed simp

lemma month_gap: "m < 11 \<Longrightarrow> month_start y (int m + 1) < month_start y (2 + int m) \<and> month_start y (2 + int m) \<le> month_start y (int m + 1) + 31"
proof -
  assume "m < 11"
  then have "m \<in> {0, 1, 2, 3, 4, 5, 6, 7, 8, 9, 10}" by (simp add: numeral_eq_Suc less_Suc_eq)
  then show ?thesis by (elim insertE emptyE) (simp_all add: month_start_def month_days_def)
qed

lemma month_increasing: "i < j \<Longrightarrow> j < 12 \<Longrightarrow> month_start y (int i + 1) < month_start y (int j + 1)"
proof (induction j)
  case (Suc j)
  have "month_start y (int j + 1) < month_start y (int (Suc j) + 1)" using month_gap [of j y] Suc.prems by (simp add: add.assoc)
  then show ?case using Suc by (cases "i = j") auto
qed simp

lemma month_of_eq: "month_of y n = int (length (filter (\<lambda>i. month_start y (int i + 1) \<le> n) [0..<12]))"
proof -
  have "[1, 2, 3, 4, 5, 6, 7, 8, 9, 10, 11, 12] = map (\<lambda>i. int i + 1) [0..<12]" by (simp add: upt_rec)
  then show ?thesis by (simp add: month_of_def filter_map comp_def)
qed

lemma month_of_bounds:
  assumes "0 \<le> n" "n < 365 + (if leap_year y then 1 else 0)"
  shows "1 \<le> month_of y n \<and> month_of y n \<le> 12 \<and> month_start y (month_of y n) \<le> n \<and> n - month_start y (month_of y n) + 1 \<le> 31"
proof -
  have "month_start y (int 0 + 1) \<le> n" using assms(1) by (simp add: month_start_def month_days_def)
  then obtain m where m: "m < 12" "length (filter (\<lambda>i. month_start y (int i + 1) \<le> n) [0..<12]) = Suc m"
    "month_start y (int m + 1) \<le> n" "Suc m < 12 \<longrightarrow> n < month_start y (int (Suc m) + 1)"
    using last_begun [of 12 "\<lambda>i. month_start y (int i + 1)" n] month_increasing [of _ _ y] by auto
  have e: "month_of y n = int m + 1" using m(2) by (simp add: month_of_eq)
  have "n - month_start y (int m + 1) + 1 \<le> 31"
  proof (cases "m = 11")
    case True
    then show ?thesis using assms(2) by (simp add: month_start_def month_days_def split: if_splits)
  next
    case False
    then have "n < month_start y (2 + int m)" "month_start y (2 + int m) \<le> month_start y (int m + 1) + 31"
      using m(1,4) month_gap [of m y] by (auto simp: add.assoc)
    then show ?thesis by simp
  qed
  then show ?thesis using m(1,3) e by simp
qed

lemma padded_facts:
  assumes "0 \<le> n" "n < 10 ^ k" "0 < k"
  shows "length (padded k n) = k" "list_all is_dec (padded k n)" "int (str_nat (padded k n)) = n"
proof -
  have "nat n < 10 ^ k" using assms by (simp add: nat_less_iff)
  then have l: "length (nat_str (nat n)) \<le> k" using length_nat_str assms(3) by blast
  show "length (padded k n) = k" using l by (simp add: padded_def length_pad_start)
  show "list_all is_dec (padded k n)" using nat_str_all_dec [of "nat n"] by (auto simp: padded_def pad_start_def list_all_iff)
  have "str_nat (replicate j CHR ''0'') = 0" for j
    using from_base_zeros [of 10 j "[]"] by (simp add: str_nat_def)
  then have "str_nat (padded k n) = nat n" by (simp add: padded_def pad_start_def str_nat_append)
  then show "int (str_nat (padded k n)) = n" using assms(1) by simp
qed

lemma fits_digits: "list_all is_dec s \<Longrightarrow> fits (replicate (length s) CHR ''#'') s"
  by (induction s) (simp_all add: fits_def)

lemma fits_append: "fits p s \<Longrightarrow> fits q t \<Longrightarrow> fits (p @ q) (s @ t)"
  unfolding fits_def by (rule list_all2_appendI)

lemma fits_literal: "CHR ''#'' \<notin> set s \<Longrightarrow> fits s s"
  by (auto simp: fits_def list_all2_same)

lemma number_at_middle: "length p = i \<Longrightarrow> length s = n \<Longrightarrow> number_at i n (p @ s @ q) = int (str_nat s)"
  by (simp add: number_at_def)

text \<open>The parts of the text, at their places.\<close>

lemma iso_parts:
  assumes "length y = 4" "length m = 2" "length d = 2" "length h = 2" "length mi = 2" "length sec = 2" "length ms = 3"
  defines "t \<equiv> y @ ''-'' @ m @ ''-'' @ d @ ''T'' @ h @ '':'' @ mi @ '':'' @ sec @ ''.'' @ ms @ ''Z''"
  shows "number_at 0 4 t = int (str_nat y)" "number_at 5 2 t = int (str_nat m)" "number_at 8 2 t = int (str_nat d)"
    "number_at 11 2 t = int (str_nat h)" "number_at 14 2 t = int (str_nat mi)" "number_at 17 2 t = int (str_nat sec)"
    "length t = 24" "iso_millis t = int (str_nat ms)"
proof -
  show "number_at 0 4 t = int (str_nat y)" unfolding t_def using number_at_middle [of "[]" 0 y 4] assms by simp
  show "number_at 5 2 t = int (str_nat m)" unfolding t_def using number_at_middle [of "y @ ''-''" 5 m 2] assms by simp
  show "number_at 8 2 t = int (str_nat d)" unfolding t_def using number_at_middle [of "y @ ''-'' @ m @ ''-''" 8 d 2] assms by simp
  show "number_at 11 2 t = int (str_nat h)" unfolding t_def using number_at_middle [of "y @ ''-'' @ m @ ''-'' @ d @ ''T''" 11 h 2] assms by simp
  show "number_at 14 2 t = int (str_nat mi)" unfolding t_def
    using number_at_middle [of "y @ ''-'' @ m @ ''-'' @ d @ ''T'' @ h @ '':''" 14 mi 2] assms by simp
  show "number_at 17 2 t = int (str_nat sec)" unfolding t_def
    using number_at_middle [of "y @ ''-'' @ m @ ''-'' @ d @ ''T'' @ h @ '':'' @ mi @ '':''" 17 sec 2] assms by simp
  show l: "length t = 24" unfolding t_def using assms by simp
  have "take (length t - 21) (drop 20 t) = ms" unfolding l unfolding t_def using assms by simp
  then show "iso_millis t = int (str_nat ms)" using assms by (simp add: iso_millis_def pad_end_def)
qed

lemma date_parse_parts:
  assumes "number_at 0 4 t = y" "number_at 5 2 t = m" "number_at 8 2 t = d" "number_at 11 2 t = h" "number_at 14 2 t = mi" "number_at 17 2 t = sec"
    "length t = 24" "iso_millis t = ms" "1 \<le> m" "m \<le> 12" "1 \<le> d" "d \<le> 31" "h < 24" "mi < 60" "sec < 60"
  shows "date_parse t = Some (make_day y m d * 86400000 + make_time h mi sec ms)"
  using assms by (simp add: date_parse_def)

lemma iso_fits:
  assumes "length y = 4" "length m = 2" "length d = 2" "length h = 2" "length mi = 2" "length sec = 2" "length ms = 3"
    "list_all is_dec y" "list_all is_dec m" "list_all is_dec d" "list_all is_dec h" "list_all is_dec mi" "list_all is_dec sec" "list_all is_dec ms"
  shows "is_iso (y @ ''-'' @ m @ ''-'' @ d @ ''T'' @ h @ '':'' @ mi @ '':'' @ sec @ ''.'' @ ms @ ''Z'')"
proof -
  have r: "fits ''####'' y" "fits ''##'' m" "fits ''##'' d" "fits ''##'' h" "fits ''##'' mi" "fits ''##'' sec" "fits ''###'' ms"
    using assms fits_digits [of y] fits_digits [of m] fits_digits [of d] fits_digits [of h] fits_digits [of mi] fits_digits [of sec] fits_digits [of ms]
    by (simp_all add: numeral_eq_Suc)
  have l: "fits ''-'' ''-''" "fits ''T'' ''T''" "fits '':'' '':''" "fits ''.'' ''.''" "fits ''Z'' ''Z''" by (rule fits_literal, simp)+
  have "fits (''####'' @ ''-'' @ ''##'' @ ''-'' @ ''##'' @ ''T'' @ ''##'' @ '':'' @ ''##'' @ '':'' @ ''##'' @ ''.'' @ ''###'' @ ''Z'')
      (y @ ''-'' @ m @ ''-'' @ d @ ''T'' @ h @ '':'' @ mi @ '':'' @ sec @ ''.'' @ ms @ ''Z'')"
    by (intro fits_append r l)
  then show ?thesis by (simp add: is_iso_def ISO_FORMS_def)
qed

text \<open>An instant from 1970 to the year 9999 survives its text: what \<open>toISOString\<close> prints is one of
  the forms the SDK accepts and \<open>Date.parse\<close> reads the same millisecond back, leap years and month ends included.\<close>

lemma iso_reads_back:
  assumes "0 \<le> ms" "ms < 253402300800000"
  shows "\<exists>t. toISOString ms = ok t \<and> is_iso t \<and> date_parse t = Some ms"
proof -
  define d where "d = ms div 86400000"
  define s where "s = ms mod 86400000"
  define y where "y = year_of d"
  define n where "n = d - day_from_year y"
  define m where "m = month_of y n"
  have ms: "ms = d * 86400000 + s" "0 \<le> s" "s < 86400000" by (simp_all add: d_def s_def)
  have yb: "day_from_year y \<le> d" "d < day_from_year (y + 1)" using year_of_bounds [of d] by (simp_all add: y_def)
  have mb: "1 \<le> m" "m \<le> 12" "month_start y m \<le> n" "n - month_start y m + 1 \<le> 31"
    using month_of_bounds [of n y] yb year_step [of y] by (simp_all add: n_def m_def split: if_splits)
  have d: "0 \<le> d" "d < day_from_year 10000" using assms by (simp_all add: d_def day_from_year_def)
  have mono: "a \<le> b \<Longrightarrow> day_from_year a \<le> day_from_year b" for a b
  proof (induction b rule: int_ge_induct)
    case (step i)
    then show ?case using year_mono [of "i + 1"] by simp
  qed simp
  have y: "0 \<le> y" "y < 10000"
  proof -
    show "0 \<le> y"
    proof (rule ccontr)
      assume "\<not> 0 \<le> y"
      then have "day_from_year (y + 1) \<le> day_from_year 1970" by (intro mono) simp
      then show False using d yb by (simp add: day_from_year_def)
    qed
    show "y < 10000"
    proof (rule ccontr)
      assume "\<not> y < 10000"
      then have "day_from_year 10000 \<le> day_from_year y" by (intro mono) simp
      then show False using d yb by simp
    qed
  qed
  let ?dd = "n - month_start y m + 1" and ?h = "s div 3600000" and ?mi = "s div 60000 mod 60" and ?sec = "s div 1000 mod 60" and ?ms = "s mod 1000"
  have b: "0 \<le> ?h" "?h < 24" "0 \<le> ?mi" "?mi < 60" "0 \<le> ?sec" "?sec < 60" "0 \<le> ?ms" "?ms < 1000" using ms(2,3) by auto
  have p: "0 \<le> y" "y < 10 ^ 4" "0 \<le> m" "m < 10 ^ 2" "0 \<le> ?dd" "?dd < 10 ^ 2" "?h < 10 ^ 2" "?mi < 10 ^ 2" "?sec < 10 ^ 2" "?ms < 10 ^ 3"
    using y mb by (simp_all add: order.strict_trans [OF b(2)] order.strict_trans [OF b(4)] order.strict_trans [OF b(6)] order.strict_trans [OF b(8)])
  note f = padded_facts [OF p(1,2)] padded_facts [OF p(3,4)] padded_facts [OF p(5,6)] padded_facts [OF b(1) p(7)] padded_facts [OF b(3) p(8)]
    padded_facts [OF b(5) p(9)] padded_facts [OF b(7) p(10)]
  let ?t = "padded 4 y @ ''-'' @ padded 2 m @ ''-'' @ padded 2 ?dd @ ''T'' @ padded 2 ?h @ '':'' @ padded 2 ?mi @ '':'' @ padded 2 ?sec @ ''.'' @ padded 3 ?ms @ ''Z''"
  have "toISOString ms = ok ?t" using assms y
    by (simp add: toISOString_def max_instant_def Let_def year_str_def d_def [symmetric] s_def [symmetric] y_def [symmetric] n_def [symmetric] m_def [symmetric])
  moreover have "is_iso ?t" by (rule iso_fits) (simp_all add: f)
  moreover have "date_parse ?t = Some ms"
  proof -
    have q: "length (padded 4 y) = 4" "length (padded 2 m) = 2" "length (padded 2 ?dd) = 2" "length (padded 2 ?h) = 2" "length (padded 2 ?mi) = 2"
      "length (padded 2 ?sec) = 2" "length (padded 3 ?ms) = 3" by (simp_all add: f)
    have v: "int (str_nat (padded 4 y)) = y" "int (str_nat (padded 2 m)) = m" "int (str_nat (padded 2 ?dd)) = ?dd" "int (str_nat (padded 2 ?h)) = ?h"
      "int (str_nat (padded 2 ?mi)) = ?mi" "int (str_nat (padded 2 ?sec)) = ?sec" "int (str_nat (padded 3 ?ms)) = ?ms" by (simp_all add: f)
    have MD: "make_day y m ?dd = d" by (simp add: make_day_def month_start_def n_def)
    have MT: "make_time ?h ?mi ?sec ?ms = s"
    proof -
      have e: "s div 60000 = s div 1000 div 60" "s div 3600000 = s div 1000 div 60 div 60"
        using zdiv_zmult2_eq [of 60 s 1000] zdiv_zmult2_eq [of 60 "s div 1000" 60] zdiv_zmult2_eq [of 3600 s 1000] by simp_all
      show ?thesis unfolding make_time_def e div_mult_mod_eq ..
    qed
    have "date_parse ?t = Some (make_day y m ?dd * 86400000 + make_time ?h ?mi ?sec ?ms)"
      using mb(3) by (intro date_parse_parts iso_parts [OF q, unfolded v] mb(1,2,4) b(2,4,6)) simp
    then show ?thesis unfolding MD MT ms(1) [symmetric] .
  qed
  ultimately show ?thesis by blast
qed

end
