(* ===== verification/Research.thy ===== *)
theory Research
  imports Forecast Iso_Times Texts
begin

text \<open>
  The research layer (packages/sdk/src/research.ts, the request budget of packages/sdk/src/node/research.ts): which
  retrieved records may be cited, what is demanded of the evidence, how a model's reply becomes a forecast, and the
  prompt the model sees. Records and replies are untrusted JSON values; \<open>JSON.parse\<close> and \<open>URL\<close> are parameters.
\<close>

section \<open>Evidence\<close>

definition MODEL_SCHEMA :: string where
  "MODEL_SCHEMA = ''flurbo.agent-model-forecast.v1''"

definition EVIDENCE_SCHEMA :: string where
  "EVIDENCE_SCHEMA = ''flurbo.agent-evidence.v2''"

definition MODEL_ABSTAIN_REASONS :: "string list" where
  "MODEL_ABSTAIN_REASONS = [''insufficient_evidence'', ''contradictory_evidence'', ''stale_evidence'', ''ambiguous_rules'', ''other'']"

definition EMPTY_SHA256 :: string where
  "EMPTY_SHA256 = ''e3b0c44298fc1c149afbf4c8996fb92427ae41e4649b934ca495991b7852b855''"

datatype freshness = Release | Background

record requirement =
  rq_event :: int
  rq_freshness :: freshness

record research_context =
  cx_events :: "int list"
  cx_eventCount :: int
  cx_evidence :: "json list"
  cx_now :: int
  cx_maxAge :: int
  cx_requirements :: "requirement list"

datatype research_abstain =
    Malformed_output | Model_abstained string | Events_out_of_scope | Invalid_distribution | No_evidence | Unknown_evidence
  | Stale_evidence | Invalid_evidence | Missing_event_evidence | Provider_failed string | Request_budget_exhausted | No_sources

definition is_text :: "json \<Rightarrow> nat \<Rightarrow> nat \<Rightarrow> bool" where
  "is_text v mn mx = (case v of JStr s \<Rightarrow> mn \<le> length (js_trim s) \<and> length (js_trim s) \<le> mx | _ \<Rightarrow> False)"

definition is_time :: "json \<Rightarrow> bool" where
  "is_time v = (is_safe_int v \<and> jint_val v \<ge> 0)"

definition event_ids :: "json \<Rightarrow> json list" where
  "event_ids e = (case jget e ''eventIds'' of JArr ids \<Rightarrow> ids | _ \<Rightarrow> [])"

definition isCitableEvidence :: "json \<Rightarrow> int \<Rightarrow> int \<Rightarrow> bool" where
  "isCitableEvidence e now eventCount =
     (jget e ''schema'' = JStr EVIDENCE_SCHEMA \<and> is_text (jget e ''id'') 1 64
      \<and> is_jstr (jget e ''url'') \<and> jget e ''url'' = jget e ''finalUrl''
      \<and> is_jstr (jget e ''requestedUrl'') \<and> jstr_of (jget e ''requestedUrl'') \<noteq> [] \<and> jstr_of (jget e ''finalUrl'') \<noteq> []
      \<and> is_jstr (jget e ''title'') \<and> is_jstr (jget e ''publisher'')
      \<and> jget e ''completeDocument'' = JBool True \<and> is_safe_int (jget e ''capturedBytes'') \<and> jint_val (jget e ''capturedBytes'') > 0
      \<and> is_jstr (jget e ''excerpt'') \<and> js_trim (jstr_of (jget e ''excerpt'')) \<noteq> []
      \<and> is_lhex_n 64 (js_string (jget e ''contentSha256'')) \<and> jget e ''contentSha256'' \<noteq> JStr EMPTY_SHA256
      \<and> is_time (jget e ''retrievedAt'') \<and> jint_val (jget e ''retrievedAt'') \<le> now
      \<and> (jget e ''publisherReleasedAt'' = JNull \<or>
           is_time (jget e ''publisherReleasedAt'') \<and> jint_val (jget e ''publisherReleasedAt'') \<le> jint_val (jget e ''retrievedAt''))
      \<and> (jget e ''httpLastModified'' = JNull \<or> is_time (jget e ''httpLastModified''))
      \<and> event_ids e \<noteq> [] \<and> distinct (event_ids e)
      \<and> list_all (\<lambda>i. is_safe_int i \<and> 0 \<le> jint_val i \<and> jint_val i < eventCount) (event_ids e))"

definition freshness_of :: "requirement list \<Rightarrow> int \<Rightarrow> freshness option" where
  "freshness_of reqs event = map_option rq_freshness (find (\<lambda>r. rq_event r = event) reqs)"

definition supports :: "json \<Rightarrow> int \<Rightarrow> bool" where
  "supports e event = (list_ex (\<lambda>i. i = JInt event) (event_ids e))"

text \<open>One record is recent enough for one event.\<close>

definition recent_enough :: "research_context \<Rightarrow> int \<Rightarrow> json \<Rightarrow> bool" where
  "recent_enough cx event e =
     (if \<not> supports e event then False
      else let observed = (case freshness_of (cx_requirements cx) event of
               Some Background \<Rightarrow> jget e ''retrievedAt'' | _ \<Rightarrow> jget e ''publisherReleasedAt'') in
           observed \<noteq> JNull \<and> cx_now cx - jint_val observed \<le> cx_maxAge cx)"

definition evidenceFailure :: "json list \<Rightarrow> research_context \<Rightarrow> research_abstain option" where
  "evidenceFailure cited cx =
     (if \<not> is_time (JInt (cx_now cx)) \<or> \<not> is_time (JInt (cx_maxAge cx))
         \<or> \<not> list_all (\<lambda>e. isCitableEvidence e (cx_now cx) (cx_eventCount cx)) cited then Some Invalid_evidence
      else if list_ex (\<lambda>r. rq_event r < 0 \<or> rq_event r \<ge> cx_eventCount cx) (cx_requirements cx)
         \<or> \<not> distinct (map rq_event (cx_requirements cx)) then Some Invalid_evidence
      else if list_ex (\<lambda>event. \<not> list_ex (\<lambda>e. supports e event) cited) (cx_events cx) then Some Missing_event_evidence
      else if list_ex (\<lambda>event. \<not> list_ex (recent_enough cx event) cited) (cx_events cx) then Some Stale_evidence
      else None)"

text \<open>
  The one age a citation has in a forecast: its retrieval only when every event it supports allows that, its
  publication otherwise.
\<close>

definition evidenceObservedAt :: "json \<Rightarrow> int list \<Rightarrow> requirement list \<Rightarrow> int option" where
  "evidenceObservedAt e events reqs =
     (let supported = filter (supports e) events;
          observed = (if list_all (\<lambda>event. freshness_of reqs event = Some Background) supported
            then jget e ''retrievedAt'' else jget e ''publisherReleasedAt'') in
      if supported = [] then None else if observed = JNull then None else Some (jint_val observed))"

section \<open>The model's reply\<close>

record model_forecast =
  mf_events :: "int list"
  mf_states :: "int list"
  mf_evidence :: "string list"
  mf_assumptions :: "string list"
  mf_uncertainty :: string
  mf_explanation :: string

datatype research_outcome = Accepted model_forecast | Declined research_abstain

definition KEYS :: "string list" where
  "KEYS = [''schema'', ''abstain'', ''abstainReason'', ''events'', ''statesPpm'', ''evidenceIds'', ''assumptions'', ''uncertainty'', ''explanation'']"

definition newline :: char where
  "newline = char_of (10 :: nat)"

text \<open>\<open>/^```(?:json)?\n([\s\S]*)\n```$/\<close>: what stands between the fences.\<close>

definition begins_with :: "string \<Rightarrow> string \<Rightarrow> bool" where
  "begins_with p s = (take (length p) s = p)"

definition ends_in :: "string \<Rightarrow> string \<Rightarrow> bool" where
  "ends_in p s = (length p \<le> length s \<and> drop (length s - length p) s = p)"

definition inside :: "string \<Rightarrow> string \<Rightarrow> string \<Rightarrow> string option" where
  "inside p q s = (if length p + length q \<le> length s \<and> begins_with p s \<and> ends_in q s
     then Some (take (length s - length p - length q) (drop (length p) s)) else None)"

definition fenced :: "string \<Rightarrow> string option" where
  "fenced s = or_else (inside (''```json'' @ [newline]) (newline # ''```'') s) (inside (''```'' @ [newline]) (newline # ''```'') s)"

definition reply_body :: "json \<Rightarrow> string option" where
  "reply_body reply = (case reply of JStr s \<Rightarrow>
       (if length s > 20000 then None
        else let trimmed = js_trim s; body = (case fenced trimmed of Some t \<Rightarrow> js_trim t | None \<Rightarrow> trimmed) in
          if \<not> begins_with ''{'' body \<or> \<not> ends_in ''}'' body then None else Some body)
     | _ \<Rightarrow> None)"

definition object_keys :: "json \<Rightarrow> string list" where
  "object_keys v = (case v of JObj kvs \<Rightarrow> map fst kvs | _ \<Rightarrow> [])"

definition array_all :: "(json \<Rightarrow> bool) \<Rightarrow> json \<Rightarrow> bool" where
  "array_all p v = (case v of JArr xs \<Rightarrow> list_all p xs | _ \<Rightarrow> False)"

definition array_of :: "json \<Rightarrow> json list" where
  "array_of v = (case v of JArr xs \<Rightarrow> xs | _ \<Rightarrow> [])"

text \<open>Every field present, and each of its type and length.\<close>

definition well_shaped :: "json \<Rightarrow> bool" where
  "well_shaped v =
     (list_all (jhas v) KEYS \<and> jget v ''abstainReason'' = JNull
      \<and> array_all is_safe_int (jget v ''events'') \<and> array_all is_safe_int (jget v ''statesPpm'')
      \<and> array_all (\<lambda>i. is_jstr i \<and> 1 \<le> length (jstr_of i) \<and> length (jstr_of i) \<le> 64) (jget v ''evidenceIds'')
      \<and> distinct (array_of (jget v ''evidenceIds''))
      \<and> array_all (\<lambda>a. is_text a 3 300) (jget v ''assumptions'') \<and> length (array_of (jget v ''assumptions'')) \<le> 8
      \<and> is_text (jget v ''uncertainty'') 3 600 \<and> is_text (jget v ''explanation'') 10 1200)"

definition record_id :: "json \<Rightarrow> string" where
  "record_id e = jstr_of (jget e ''id'')"

text \<open>\<open>new Map(evidence.map(e => [e.id, e]))\<close>: a later record replaces an earlier one.\<close>

definition known_records :: "json list \<Rightarrow> (string \<times> json) list" where
  "known_records evidence = rev (map (\<lambda>e. (record_id e, e)) evidence)"

definition check_content :: "json \<Rightarrow> research_context \<Rightarrow> research_outcome" where
  "check_content v cx =
     (let events = map jint_val (array_of (jget v ''events'')); states = map jint_val (array_of (jget v ''statesPpm''));
          ids = map jstr_of (array_of (jget v ''evidenceIds'')); known = map_of (known_records (cx_evidence cx)) in
      if events \<noteq> cx_events cx then Declined Events_out_of_scope
      else if length states \<noteq> 2 ^ length events \<or> list_ex (\<lambda>p. p < 0 \<or> p > PPM) states \<or> sum_list states \<noteq> PPM then Declined Invalid_distribution
      else if ids = [] then Declined No_evidence
      else if list_ex (\<lambda>e. \<not> is_text (jget e ''id'') 1 64) (cx_evidence cx) then Declined Invalid_evidence
      else if list_ex (\<lambda>i. known i = None) ids then Declined Unknown_evidence
      else if \<not> distinct (map record_id (cx_evidence cx)) then Declined Invalid_evidence
      else (case evidenceFailure (map (\<lambda>i. the (known i)) ids) cx of
          Some failure \<Rightarrow> Declined failure
        | None \<Rightarrow> Accepted \<lparr>mf_events = events, mf_states = states, mf_evidence = ids,
            mf_assumptions = map (\<lambda>a. js_trim (jstr_of a)) (array_of (jget v ''assumptions'')),
            mf_uncertainty = js_trim (jstr_of (jget v ''uncertainty'')), mf_explanation = js_trim (jstr_of (jget v ''explanation''))\<rparr>))"

definition validateModelOutput :: "(string \<Rightarrow> json option) \<Rightarrow> json \<Rightarrow> research_context \<Rightarrow> research_outcome" where
  "validateModelOutput parse reply cx =
     (case reply_body reply of None \<Rightarrow> Declined Malformed_output | Some body \<Rightarrow>
      (case parse body of None \<Rightarrow> Declined Malformed_output | Some v \<Rightarrow>
        if \<not> is_record v \<or> jget v ''schema'' \<noteq> JStr MODEL_SCHEMA \<or> \<not> is_jbool (jget v ''abstain'') then Declined Malformed_output
        else if list_ex (\<lambda>k. \<not> list_ex (\<lambda>a. a = k) KEYS) (object_keys v) then Declined Malformed_output
        else if jget v ''abstain'' = JBool True then
          (if list_ex (\<lambda>r. jget v ''abstainReason'' = JStr r) MODEL_ABSTAIN_REASONS
           then Declined (Model_abstained (jstr_of (jget v ''abstainReason''))) else Declined Malformed_output)
        else if \<not> well_shaped v then Declined Malformed_output
        else check_content v cx))"

section \<open>The forecast\<close>

definition blank_control :: "char \<Rightarrow> char" where
  "blank_control c = (if code c \<le> 31 \<or> code c = 127 then CHR '' '' else c)"

definition clip :: "string \<Rightarrow> nat \<Rightarrow> nat \<Rightarrow> string" where
  "clip s mx mn = (let t = take mx (js_trim (map blank_control s)) in
     if length t \<ge> mn then t else t @ replicate (mn - length t) CHR ''.'')"

definition https :: string where
  "https = ''https://''"

text \<open>\<open>/^https:\/\/([^/:?#]+)/.exec(url)?.[1] ?? 'unknown'\<close>\<close>

definition host_of :: "string \<Rightarrow> string" where
  "host_of u = (let h = takeWhile (\<lambda>c. \<not> list_ex (\<lambda>d. d = c) ''/:?#'') (drop 8 u) in
     if begins_with https u \<and> h \<noteq> [] then h else ''unknown'')"

definition iso :: "int \<Rightarrow> string res" where
  "iso s = toISOString (s * 1000)"

definition iso_or :: "json \<Rightarrow> string res" where
  "iso_or v = (if v = JNull then ok ''unknown'' else iso (jint_val v))"

definition field :: "json \<Rightarrow> string \<Rightarrow> string" where
  "field e k = jstr_of (jget e k)"

definition first_filled :: "string \<Rightarrow> string \<Rightarrow> string" where
  "first_filled a b = (if a = [] then b else a)"

record model_input =
  mi_pool :: string
  mi_eventCount :: int
  mi_evidence :: "json list"
  mi_provider :: string
  mi_model :: string
  mi_now :: int
  mi_requirements :: "requirement list"

text \<open>The sentence kept with a citation.\<close>

definition citation_note :: "int list \<Rightarrow> requirement list \<Rightarrow> json \<Rightarrow> string res" where
  "citation_note events reqs e =
     bindE (iso (jint_val (jget e ''retrievedAt''))) (\<lambda>retrieved.
     bindE (iso_or (jget e ''publisherReleasedAt'')) (\<lambda>released.
     bindE (iso_or (jget e ''httpLastModified'')) (\<lambda>modified.
       ok ((if begins_with https (field e ''url'') then [] else ''Source '' @ field e ''url'' @ ''. '')
         @ ''Freshness basis: '' @ (if list_all (\<lambda>event. freshness_of reqs event = Some Background) (filter (supports e) events)
             then ''background retrieval'' else ''publication'')
         @ ''; retrieved '' @ retrieved @ ''; publisher release '' @ released @ ''; HTTP Last-Modified '' @ modified
         @ ''; full capture '' @ int_str (jint_val (jget e ''capturedBytes'')) @ '' bytes; sha256 '' @ js_string (jget e ''contentSha256'')
         @ ''; events '' @ join_with '','' (map js_string (event_ids e)) @ ''.''))))"

definition citation :: "int list \<Rightarrow> requirement list \<Rightarrow> json \<Rightarrow> json res" where
  "citation events reqs e =
     bindE (iso (the (evidenceObservedAt e events reqs))) (\<lambda>observed.
     bindE (citation_note events reqs e) (\<lambda>sentence.
       ok (JObj [(''id'', jget e ''id''), (''title'', JStr (clip (first_filled (field e ''title'') (field e ''url'')) 160 3)),
         (''source'', JStr (clip (first_filled (field e ''publisher'') (host_of (field e ''url''))) 120 2)),
         (''url'', if begins_with https (field e ''url'') then jget e ''url'' else JNull),
         (''observedAt'', JStr observed), (''note'', JStr (clip sentence 600 0))])))"

text \<open>The citations that have an age: a record with none stays out of the forecast.\<close>

definition dated_citations :: "model_forecast \<Rightarrow> model_input \<Rightarrow> json list" where
  "dated_citations out i = filter (\<lambda>e. evidenceObservedAt e (mf_events out) (mi_requirements i) \<noteq> None)
     (map (\<lambda>k. the (find (\<lambda>e. jget e ''id'' = JStr k) (mi_evidence i))) (mf_evidence out))"

definition forecastFromModel :: "url_parser \<Rightarrow> model_forecast \<Rightarrow> model_input \<Rightarrow> forecast res" where
  "forecastFromModel urls out i =
     bindE (mapE (citation (mf_events out) (mi_requirements i)) (dated_citations out i)) (\<lambda>cited.
     bindE (iso (mi_now i)) (\<lambda>created.
       parseForecast urls (JObj
         [(''schema'', JStr ''flurbo.agent-forecast.v1''), (''pool'', JStr (mi_pool i)),
          (''joint'', JObj [(''events'', JArr (map JInt (mf_events out))), (''statesPpm'', JArr (map (\<lambda>p. JStr (int_str p)) (mf_states out)))]),
          (''evidence'', JArr cited), (''assumptions'', JArr (map JStr (mf_assumptions out))),
          (''uncertainty'', JStr (mf_uncertainty out)), (''explanation'', JStr (mf_explanation out)), (''selfReportedConfidence'', JNull),
          (''source'', JObj [(''kind'', JStr ''provider''), (''name'', JStr (clip (mi_provider i @ ''/'' @ mi_model i) 64 1))]),
          (''createdAt'', JStr created)])
         (mi_eventCount i) (mi_pool i) (mi_now i * 1000)))"

section \<open>The prompt\<close>

text \<open>
  Everything from outside is escaped. The fixed instructions of the system message are left out.
\<close>

definition quote_mark :: char where
  "quote_mark = char_of (34 :: nat)"

definition quoted :: "string \<Rightarrow> string" where
  "quoted s = quote_mark # s @ [quote_mark]"

definition escape_char :: "char \<Rightarrow> string" where
  "escape_char c =
     (if is_control c then '' '' else if c = CHR ''&'' then ''&amp;'' else if c = CHR ''<'' then ''&lt;''
      else if c = CHR ''>'' then ''&gt;'' else if c = quote_mark then ''&quot;'' else [c])"

definition escape :: "string \<Rightarrow> string" where
  "escape s = concat (map escape_char s)"

record research_question =
  rs_index :: int
  rs_question :: string
  rs_yesRule :: string
  rs_noRule :: string
  rs_endsAt :: int

definition question_part :: "research_question \<Rightarrow> string res" where
  "question_part q = bindE (iso (rs_endsAt q)) (\<lambda>ends.
     ok (''Event '' @ int_str (rs_index q) @ '': '' @ escape (rs_question q) @ newline # ''  YES rule: '' @ escape (rs_yesRule q)
       @ newline # ''  NO rule: '' @ escape (rs_noRule q) @ newline # ''  Observation ends: '' @ ends))"

definition requirement_part :: "requirement list \<Rightarrow> research_question \<Rightarrow> string" where
  "requirement_part reqs q = ''Event '' @ int_str (rs_index q) @ '' evidence requirement: ''
     @ (case freshness_of reqs (rs_index q) of Some Background \<Rightarrow> ''background'' | _ \<Rightarrow> ''release'') @ ''.''"

definition evidence_block :: "json \<Rightarrow> string res" where
  "evidence_block e =
     bindE (iso_or (jget e ''publisherReleasedAt'')) (\<lambda>released.
     bindE (iso (jint_val (jget e ''retrievedAt''))) (\<lambda>retrieved.
       ok (''<evidence id='' @ quoted (escape (field e ''id'')) @ '' url='' @ quoted (escape (field e ''url''))
         @ '' events='' @ quoted (join_with '','' (map js_string (event_ids e))) @ '' publisherReleasedAt='' @ quoted released
         @ '' retrieved='' @ quoted retrieved @ ''>'' @ newline # escape (field e ''excerpt'') @ newline # ''</evidence>'')))"

definition buildResearchPrompt :: "string \<Rightarrow> research_question list \<Rightarrow> int \<Rightarrow> json list \<Rightarrow> int \<Rightarrow> requirement list \<Rightarrow> string res" where
  "buildResearchPrompt title questions eventCount evidence now reqs =
     bindE (iso now) (\<lambda>current.
     bindE (mapE question_part questions) (\<lambda>parts.
     bindE (mapE evidence_block (filter (\<lambda>e. isCitableEvidence e now eventCount) evidence)) (\<lambda>blocks.
       ok (join_with [newline, newline] ([''Current time: '' @ current, ''Market: '' @ escape title] @ parts
         @ [''Forecast events: ['' @ join_with '', '' (map (\<lambda>q. int_str (rs_index q)) questions) @ '']'']
         @ map (requirement_part reqs) questions @ blocks)))))"

section \<open>One request within the budgets\<close>

record research_budget =
  bg_cycle :: nat
  bg_hour :: "int list"

record research_limits =
  li_perCycle :: nat
  li_perHour :: nat
  li_maxAge :: int

datatype provider_kind = Model_provider | Fixture_provider | Custom_provider

record research_input =
  ri_pool :: string
  ri_title :: string
  ri_eventCount :: int
  ri_questions :: "research_question list"
  ri_requirements :: "requirement list"

datatype research_result = Found forecast | Abstained research_abstain

definition resetCycle :: "research_budget \<Rightarrow> research_budget" where
  "resetCycle b = b\<lparr>bg_cycle := 0\<rparr>"

definition context_of :: "research_limits \<Rightarrow> research_input \<Rightarrow> json list \<Rightarrow> int \<Rightarrow> research_context" where
  "context_of li i evidence t = \<lparr>cx_events = map rs_index (ri_questions i), cx_eventCount = ri_eventCount i, cx_evidence = evidence,
     cx_now = t, cx_maxAge = li_maxAge li, cx_requirements = ri_requirements i\<rparr>"

definition provider_names :: "provider_kind \<times> string \<Rightarrow> string \<times> string" where
  "provider_names = (\<lambda>(kind, name). let parts = split_on CHR ''/'' name in
     (if kind = Fixture_provider then ''fixture'' else hd parts, first_filled (join_with ''/'' (tl parts)) name))"

definition use_reply :: "url_parser \<Rightarrow> (string \<Rightarrow> json option) \<Rightarrow> research_context \<Rightarrow> research_input \<Rightarrow> provider_kind \<times> string \<Rightarrow> string \<Rightarrow> research_result" where
  "use_reply urls parse cx i provider reply =
     (case validateModelOutput parse (JStr reply) cx of
        Declined reason \<Rightarrow> Abstained reason
      | Accepted out \<Rightarrow>
         (case forecastFromModel urls out \<lparr>mi_pool = ri_pool i, mi_eventCount = ri_eventCount i, mi_evidence = cx_evidence cx,
              mi_provider = fst (provider_names provider), mi_model = snd (provider_names provider), mi_now = cx_now cx,
              mi_requirements = ri_requirements i\<rparr> of
            Inl _ \<Rightarrow> Abstained Malformed_output
          | Inr f \<Rightarrow> Found (if fst provider = Fixture_provider then f\<lparr>fc_source := (Fixture_source, snd provider)\<rparr> else f)))"

text \<open>
  One request at time \<open>t\<close>: \<open>provider\<close> is the configured forecaster or why there is none, \<open>retrieved\<close> what
  the retriever finds, \<open>complete\<close> what the model answers to a prompt. The last part of the result is the time the
  model was asked, if it was.
\<close>

definition research :: "url_parser \<Rightarrow> (string \<Rightarrow> json option) \<Rightarrow> research_limits \<Rightarrow> string + provider_kind \<times> string \<Rightarrow>
    (string \<Rightarrow> string + string) \<Rightarrow> json list \<Rightarrow> research_input \<Rightarrow> int \<Rightarrow> research_budget \<Rightarrow> research_result \<times> research_budget \<times> int option" where
  "research urls parse li provider complete retrieved i t b =
     (case provider of Inl reason \<Rightarrow> (Abstained (Provider_failed reason), b, None) | Inr p \<Rightarrow>
      let b1 = b\<lparr>bg_hour := dropWhile (\<lambda>x. x \<le> t - 3600) (bg_hour b)\<rparr> in
      if bg_cycle b1 \<ge> li_perCycle li \<or> length (bg_hour b1) \<ge> li_perHour li then (Abstained Request_budget_exhausted, b1, None)
      else if retrieved = [] then (Abstained No_sources, b1, None)
      else let cx = context_of li i retrieved t; usable = filter (\<lambda>e. isCitableEvidence e t (ri_eventCount i)) retrieved;
               failure = (if usable \<noteq> [] then evidenceFailure usable cx else Some Invalid_evidence) in
        case failure of Some reason \<Rightarrow> (Abstained reason, b1, None) | None \<Rightarrow>
          let b2 = b1\<lparr>bg_cycle := Suc (bg_cycle b1), bg_hour := bg_hour b1 @ [t]\<rparr> in
          (case buildResearchPrompt (ri_title i) (ri_questions i) (ri_eventCount i) usable t (ri_requirements i) of
             Inl _ \<Rightarrow> (Abstained (Provider_failed ''provider_unavailable''), b2, None)
           | Inr prompt \<Rightarrow> (case complete prompt of
               Inl reason \<Rightarrow> (Abstained (Provider_failed reason), b2, Some t)
             | Inr reply \<Rightarrow> (use_reply urls parse cx i p reply, b2, Some t))))"

end
