(* ===== verification/Research_Laws.thy ===== *)
theory Research_Laws
  imports Research Systems
begin

text \<open>
  What the research layer promises: a reply it accepts rests on evidence that was really retrieved and is recent for
  every question, the ages it hands to the strategy never flatter, retrieved text cannot leave its block of the
  prompt, and the model is asked no more often than the budgets allow.
\<close>

section \<open>Accepted replies\<close>

definition sound_output :: "research_context \<Rightarrow> model_forecast \<Rightarrow> bool" where
  "sound_output cx out =
     (mf_events out = cx_events cx \<and> length (mf_states out) = 2 ^ length (mf_events out)
      \<and> list_all (\<lambda>p. 0 \<le> p \<and> p \<le> PPM) (mf_states out) \<and> sum_list (mf_states out) = PPM
      \<and> mf_evidence out \<noteq> [] \<and> distinct (mf_evidence out)
      \<and> (\<exists>cited. list_all2 (\<lambda>i e. jget e ''id'' = JStr i) (mf_evidence out) cited \<and> set cited \<subseteq> set (cx_evidence cx)
          \<and> (\<forall>e\<in>set cited. isCitableEvidence e (cx_now cx) (cx_eventCount cx))
          \<and> (\<forall>event\<in>set (cx_events cx). \<exists>e\<in>set cited. recent_enough cx event e)))"

lemma known_records_ids: "map_of (known_records es) i = Some e \<Longrightarrow> e \<in> set es \<and> record_id e = i"
  by (auto simp: known_records_def dest!: map_of_SomeD)

lemma evidenceFailure_None:
  assumes "evidenceFailure cited cx = None"
  shows "\<forall>e\<in>set cited. isCitableEvidence e (cx_now cx) (cx_eventCount cx)" "\<forall>event\<in>set (cx_events cx). \<exists>e\<in>set cited. recent_enough cx event e"
  using assms by (auto simp: evidenceFailure_def list_ex_iff list_all_iff split: if_splits)

lemma distinct_jstr: "list_all is_jstr xs \<Longrightarrow> distinct (map jstr_of xs) = distinct xs"
proof (induction xs)
  case (Cons x xs)
  have "jstr_of x \<in> jstr_of ` set xs \<longleftrightarrow> x \<in> set xs"
  proof
    assume "jstr_of x \<in> jstr_of ` set xs"
    then obtain y where y: "y \<in> set xs" "jstr_of x = jstr_of y" by auto
    then have "is_jstr y" "is_jstr x" using Cons.prems by (auto simp: list_all_iff)
    then have "x = y" using y(2) by (cases x; cases y) simp_all
    then show "x \<in> set xs" using y(1) by simp
  qed auto
  then show ?case using Cons by simp
qed simp

lemma check_content_sound:
  assumes "check_content v cx = Accepted out" "well_shaped v"
  shows "sound_output cx out"
proof -
  define ids where "ids = map jstr_of (array_of (jget v ''evidenceIds''))"
  define known where "known = map_of (known_records (cx_evidence cx))"
  let ?cited = "map (\<lambda>i. the (known i)) ids"
  from assms(1) have a: "map jint_val (array_of (jget v ''events'')) = cx_events cx" "mf_events out = cx_events cx"
    "length (mf_states out) = 2 ^ length (cx_events cx)" "\<not> list_ex (\<lambda>p. p < 0 \<or> p > PPM) (mf_states out)" "sum_list (mf_states out) = PPM"
    "ids \<noteq> []" "mf_evidence out = ids" "\<not> list_ex (\<lambda>i. known i = None) ids" "evidenceFailure ?cited cx = None"
    "\<not> list_ex (\<lambda>e. \<not> is_text (jget e ''id'') 1 64) (cx_evidence cx)"
    by (auto simp: check_content_def Let_def ids_def [symmetric] known_def [symmetric] split: if_splits option.splits)
  have "distinct (array_of (jget v ''evidenceIds''))" "list_all is_jstr (array_of (jget v ''evidenceIds''))"
    using assms(2) by (auto simp: well_shaped_def array_all_def array_of_def list_all_iff split: json.splits)
  then have d: "distinct ids" by (simp add: ids_def distinct_jstr)
  have k: "\<exists>e. known i = Some e \<and> e \<in> set (cx_evidence cx) \<and> jget e ''id'' = JStr i" if i: "i \<in> set ids" for i
  proof -
    obtain e where e: "known i = Some e" using a(8) i by (auto simp: list_ex_iff)
    then have m: "e \<in> set (cx_evidence cx)" "record_id e = i" using known_records_ids by (simp_all add: known_def)
    have "is_text (jget e ''id'') 1 64" using a(10) m(1) by (auto simp: list_ex_iff)
    then have "jget e ''id'' = JStr i" using m(2) by (auto simp: is_text_def record_id_def split: json.splits)
    then show ?thesis using e m(1) by blast
  qed
  have "list_all2 (\<lambda>i e. jget e ''id'' = JStr i) ids ?cited" using k by (force simp: list_all2_map2 list_all2_same)
  moreover have "set ?cited \<subseteq> set (cx_evidence cx)" using k by force
  ultimately have "\<exists>cited. list_all2 (\<lambda>i e. jget e ''id'' = JStr i) ids cited \<and> set cited \<subseteq> set (cx_evidence cx)
      \<and> (\<forall>e\<in>set cited. isCitableEvidence e (cx_now cx) (cx_eventCount cx)) \<and> (\<forall>event\<in>set (cx_events cx). \<exists>e\<in>set cited. recent_enough cx event e)"
    using evidenceFailure_None [OF a(9)] by blast
  moreover have "list_all (\<lambda>p. 0 \<le> p \<and> p \<le> PPM) (mf_states out)" using a(4) by (auto simp: list_ex_iff list_all_iff not_less)
  ultimately show ?thesis using a(2,3,5,6,7) d unfolding sound_output_def by simp
qed

lemma accepted_checked:
  assumes "validateModelOutput parse reply cx = Accepted out"
  shows "\<exists>v. well_shaped v \<and> check_content v cx = Accepted out"
  using assms by (auto simp: validateModelOutput_def split: option.splits if_splits)

lemma model_output_sound: "validateModelOutput parse reply cx = Accepted out \<Longrightarrow> sound_output cx out"
  using accepted_checked check_content_sound by blast

section \<open>The forecast made from it\<close>

text \<open>The age a citation is given is the strict one, and what is read back is that age.\<close>

lemma find_record:
  assumes "list_all2 (\<lambda>i e. jget e ''id'' = JStr i) ids cited" "set cited \<subseteq> set es"
  shows "list_all (\<lambda>e. e \<in> set es) (map (\<lambda>k. the (find (\<lambda>e. jget e ''id'' = JStr k) es)) ids)"
  using assms
proof (induction rule: list_all2_induct)
  case (Cons i ids e cited)
  obtain r where "find (\<lambda>e. jget e ''id'' = JStr i) es = Some r" "r \<in> set es"
    using Cons.hyps(1) Cons.prems by (cases "find (\<lambda>e. jget e ''id'' = JStr i) es") (auto simp: find_None_iff find_Some_iff)
  then show ?case using Cons by simp
qed simp

lemma parse_evidence_time: "parse_evidence urls now (k, e) = ok r \<Longrightarrow> isoTime (jget e ''observedAt'') = ok (ev_observedAt r)"
  by (auto simp: parse_evidence_def split: if_splits)

lemma iso_read: "0 \<le> s \<Longrightarrow> s < 253402300800 \<Longrightarrow> iso s = ok t \<Longrightarrow> isoTime (JStr t) = ok (s * 1000)"
  using iso_reads_back [of "s * 1000"] by (auto simp: iso_def isoTime_def)

text \<open>the times the research layer writes into a forecast are read back by the SDK's own parser to the
  same second, for every second from 1970 to the end of the year 9999, leap days and month ends included.\<close>

theorem forecast_time_reads_back:
  assumes "0 \<le> s" "s < 253402300800"
  shows "\<exists>t. iso s = ok t \<and> isoTime (JStr t) = ok (s * 1000)"
  using iso_reads_back [of "s * 1000"] assms by (auto simp: iso_def isoTime_def)

theorem forecast_time_reads_back_witness:
  "iso 951827696 = ok ''2000-02-29T12:34:56.000Z'' \<and> isoTime (JStr ''2000-02-29T12:34:56.000Z'') = ok 951827696000"
proof -
  have "iso 951827696 = ok ''2000-02-29T12:34:56.000Z''" by code_simp
  then show ?thesis using forecast_time_reads_back [of 951827696] by simp
qed

definition dated :: "int list \<Rightarrow> requirement list \<Rightarrow> json \<Rightarrow> evidence \<Rightarrow> bool" where
  "dated events reqs e r = (\<exists>s. evidenceObservedAt e events reqs = Some s \<and> ev_observedAt r = s * 1000)"

lemma citation_dated:
  assumes "citation events reqs e = ok j" "parse_evidence urls now (k, j) = ok r" "evidenceObservedAt e events reqs = Some s" "0 \<le> s" "s < 253402300800"
  shows "dated events reqs e r"
proof -
  obtain t where t: "iso s = ok t" "jget j ''observedAt'' = JStr t" using assms(1,3) by (auto simp: citation_def jget_def)
  have "isoTime (JStr t) = ok (s * 1000)" using iso_read [OF assms(4,5) t(1)] .
  then show ?thesis using parse_evidence_time [OF assms(2)] t(2) assms(3) by (simp add: dated_def)
qed

lemma citable_times:
  assumes "isCitableEvidence e now n" "evidenceObservedAt e events reqs = Some s"
  shows "0 \<le> s \<and> s \<le> now"
  using assms by (auto simp: isCitableEvidence_def evidenceObservedAt_def is_time_def Let_def split: if_splits)

lemma citations_dated:
  assumes "mapE (citation events reqs) es = ok js" "mapE (parse_evidence urls now) (enumerate k js) = ok rs"
    "\<And>e. e \<in> set es \<Longrightarrow> \<exists>s. evidenceObservedAt e events reqs = Some s \<and> 0 \<le> s \<and> s < 253402300800"
  shows "list_all2 (dated events reqs) es rs"
  using assms
proof (induction es arbitrary: js k rs)
  case (Cons e es)
  obtain j js' where js: "js = j # js'" "citation events reqs e = ok j" "mapE (citation events reqs) es = ok js'" using Cons.prems(1) by auto
  obtain r rs' where rs: "rs = r # rs'" "parse_evidence urls now (k, j) = ok r" "mapE (parse_evidence urls now) (enumerate (Suc k) js') = ok rs'"
    using Cons.prems(2) js(1) by auto
  obtain s where "evidenceObservedAt e events reqs = Some s" "0 \<le> s" "s < 253402300800" using Cons.prems(3) [of e] by auto
  then have "dated events reqs e r" using citation_dated [OF js(2) rs(2)] by blast
  then show ?case using Cons.IH [OF js(3) rs(3)] Cons.prems(3) rs(1) by simp
qed simp

lemma jointFromJSON_printed:
  "jointFromJSON (JObj [(''events'', JArr (map JInt es)), (''statesPpm'', JArr (map (\<lambda>p. JStr (int_str p)) ps))]) n = ok j \<Longrightarrow>
    list_all (\<lambda>p. 0 \<le> p) ps \<Longrightarrow> j = \<lparr>joint_events = es, joint_states = ps\<rparr>"
proof -
  assume a: "jointFromJSON (JObj [(''events'', JArr (map JInt es)), (''statesPpm'', JArr (map (\<lambda>p. JStr (int_str p)) ps))]) n = ok j"
    and p: "list_all (\<lambda>p. 0 \<le> p) ps"
  have "map (\<lambda>p. int (str_nat (jstr_val p))) (map (\<lambda>p. JStr (int_str p)) ps) = ps"
    using p by (induction ps) (simp_all add: int_str_nonneg)
  then show "j = \<lparr>joint_events = es, joint_states = ps\<rparr>"
    using a by (auto simp: jointFromJSON_def jget_def assertJoint_ok_iff o_def split: if_splits)
qed

lemma parseForecast_parts:
  assumes "parseForecast urls v n pool now = ok f"
  shows "\<exists>es. jget v ''evidence'' = JArr es \<and> jointFromJSON (jget v ''joint'') (Some n) = ok (fc_joint f)
    \<and> mapE (parse_evidence urls now) (enumerate 0 es) = ok (fc_evidence f) \<and> fc_pool f = pool"
proof -
  obtain j es as evs ass where f: "jget v ''evidence'' = JArr es" "jointFromJSON (jget v ''joint'') (Some n) = ok j"
    "mapE (parse_evidence urls now) (enumerate 0 es) = ok evs" "parse_rest v pool j evs ass = ok f"
    using assms by (auto simp: parseForecast_def with_array_ok split: if_splits)
  then show ?thesis using parse_rest_ok [OF f(4)] by auto
qed

definition faithful_forecast :: "research_context \<Rightarrow> model_forecast \<Rightarrow> string \<Rightarrow> requirement list \<Rightarrow> forecast \<Rightarrow> bool" where
  "faithful_forecast cx out pool reqs f =
     (fc_pool f = pool \<and> fc_joint f = \<lparr>joint_events = cx_events cx, joint_states = mf_states out\<rparr>
      \<and> (\<exists>cited. set cited \<subseteq> set (cx_evidence cx) \<and> list_all2 (dated (cx_events cx) reqs) cited (fc_evidence f)))"

lemma forecastFromModel_faithful:
  assumes "forecastFromModel urls out i = ok f" "sound_output cx out" "mi_evidence i = cx_evidence cx" "mi_now i = cx_now cx"
    "cx_now cx < 253402300800" "distinct (map record_id (cx_evidence cx))"
  shows "faithful_forecast cx out (mi_pool i) (mi_requirements i) f"
proof -
  let ?picked = "map (\<lambda>k. the (find (\<lambda>e. jget e ''id'' = JStr k) (mi_evidence i))) (mf_evidence out)"
  obtain cited where c: "list_all2 (\<lambda>k e. jget e ''id'' = JStr k) (mf_evidence out) cited" "set cited \<subseteq> set (cx_evidence cx)"
    "\<forall>e\<in>set cited. isCitableEvidence e (cx_now cx) (cx_eventCount cx)" "mf_events out = cx_events cx" "list_all (\<lambda>p. 0 \<le> p \<and> p \<le> PPM) (mf_states out)"
    using assms(2) by (auto simp: sound_output_def)
  have same: "?picked = cited"
    using c(1,2)
  proof (induction rule: list_all2_induct)
    case (Cons k ks e es)
    have e: "e \<in> set (cx_evidence cx)" "jget e ''id'' = JStr k" using Cons.hyps(1) Cons.prems by simp_all
    have "find (\<lambda>e. jget e ''id'' = JStr k) (cx_evidence cx) = Some e"
    proof (cases "find (\<lambda>e. jget e ''id'' = JStr k) (cx_evidence cx)")
      case None
      then show ?thesis using e by (auto simp: find_None_iff)
    next
      case (Some r)
      then have "r \<in> set (cx_evidence cx)" "jget r ''id'' = JStr k" by (auto simp: find_Some_iff)
      then have "r = e" using e assms(6) by (auto simp: record_id_def distinct_map inj_on_def)
      then show ?thesis using Some by simp
    qed
    then show ?case using Cons assms(3) by simp
  qed simp
  obtain js created where m: "mapE (citation (mf_events out) (mi_requirements i)) (dated_citations out i) = ok js"
    "parseForecast urls (JObj
         [(''schema'', JStr ''flurbo.agent-forecast.v1''), (''pool'', JStr (mi_pool i)),
          (''joint'', JObj [(''events'', JArr (map JInt (mf_events out))), (''statesPpm'', JArr (map (\<lambda>p. JStr (int_str p)) (mf_states out)))]),
          (''evidence'', JArr js), (''assumptions'', JArr (map JStr (mf_assumptions out))),
          (''uncertainty'', JStr (mf_uncertainty out)), (''explanation'', JStr (mf_explanation out)), (''selfReportedConfidence'', JNull),
          (''source'', JObj [(''kind'', JStr ''provider''), (''name'', JStr (clip (mi_provider i @ ''/'' @ mi_model i) 64 1))]),
          (''createdAt'', JStr created)])
         (mi_eventCount i) (mi_pool i) (mi_now i * 1000) = ok f"
    using assms(1) by (auto simp: forecastFromModel_def)
  from parseForecast_parts [OF m(2)] obtain n where p: "fc_pool f = mi_pool i"
    "jointFromJSON (JObj [(''events'', JArr (map JInt (mf_events out))), (''statesPpm'', JArr (map (\<lambda>p. JStr (int_str p)) (mf_states out)))]) n = ok (fc_joint f)"
    "mapE (parse_evidence urls (mi_now i * 1000)) (enumerate 0 js) = ok (fc_evidence f)"
    by (auto simp: jget_def)
  have "list_all (\<lambda>p. 0 \<le> p) (mf_states out)" using c(5) by (simp add: list_all_iff)
  then have j: "fc_joint f = \<lparr>joint_events = mf_events out, joint_states = mf_states out\<rparr>" using jointFromJSON_printed [OF p(2)] by simp
  have dc: "dated_citations out i = filter (\<lambda>e. evidenceObservedAt e (mf_events out) (mi_requirements i) \<noteq> None) cited"
    by (simp add: dated_citations_def same)
  have "list_all2 (dated (mf_events out) (mi_requirements i)) (dated_citations out i) (fc_evidence f)"
  proof (rule citations_dated [OF m(1) p(3)])
    fix e assume "e \<in> set (dated_citations out i)"
    then have e: "e \<in> set cited" "evidenceObservedAt e (mf_events out) (mi_requirements i) \<noteq> None" by (simp_all add: dc)
    then obtain t where t: "evidenceObservedAt e (mf_events out) (mi_requirements i) = Some t" by blast
    have "0 \<le> t \<and> t \<le> cx_now cx" using citable_times c(3) e(1) t by blast
    then show "\<exists>s. evidenceObservedAt e (mf_events out) (mi_requirements i) = Some s \<and> 0 \<le> s \<and> s < 253402300800" using t assms(5) by auto
  qed
  moreover have "set (dated_citations out i) \<subseteq> set (cx_evidence cx)" using c(2) by (auto simp: dc)
  ultimately show ?thesis using p(1) j c(4) unfolding faithful_forecast_def by auto
qed

lemma accepted_distinct: "validateModelOutput parse reply cx = Accepted out \<Longrightarrow> distinct (map record_id (cx_evidence cx))"
  using accepted_checked by (fastforce simp: check_content_def Let_def split: if_splits)


definition demo_record :: json where
  "demo_record = JObj [(''schema'', JStr EVIDENCE_SCHEMA), (''id'', JStr ''src-1''), (''url'', JStr ''https://ex.io''), (''finalUrl'', JStr ''https://ex.io''),
     (''requestedUrl'', JStr ''https://ex.io''), (''title'', JStr ''Notes''), (''publisher'', JStr ''ex.io''), (''completeDocument'', JBool True),
     (''capturedBytes'', JInt 10), (''excerpt'', JStr ''a<b''), (''contentSha256'', JStr (replicate 64 CHR ''a'')), (''retrievedAt'', JInt 1000),
     (''publisherReleasedAt'', JInt 900), (''httpLastModified'', JNull), (''eventIds'', JArr [JInt 0])]"

definition demo_reply :: json where
  "demo_reply = JObj [(''schema'', JStr MODEL_SCHEMA), (''abstain'', JBool False), (''abstainReason'', JNull), (''events'', JArr [JInt 0]),
     (''statesPpm'', JArr [JInt 400000, JInt 600000]), (''evidenceIds'', JArr [JStr ''src-1'']), (''assumptions'', JArr []),
     (''uncertainty'', JStr ''a new release''), (''explanation'', JStr ''the notes say so'')]"

definition demo_question :: research_input where
  "demo_question = \<lparr>ri_pool = ''0xa'', ri_title = ''Releases'', ri_eventCount = 2, ri_questions =
     [\<lparr>rs_index = 0, rs_question = ''Is it out?'', rs_yesRule = ''yes'', rs_noRule = ''no'', rs_endsAt = 5000\<rparr>], ri_requirements = []\<rparr>"

definition demo_urls :: url_parser where
  "demo_urls s = Some \<lparr>url_protocol = ''https:'', url_username = [], url_password = [], url_hostname = ''example.org'', url_href = s\<rparr>"

definition demo_limits :: research_limits where
  "demo_limits = \<lparr>li_perCycle = 1, li_perHour = 2, li_maxAge = 86400\<rparr>"

definition demo_research :: "research_result \<times> research_budget \<times> int option" where
  "demo_research = research demo_urls (\<lambda>_. Some demo_reply) demo_limits (Inr (Model_provider, ''host/model'')) (\<lambda>_. Inr ''{}'')
     [demo_record] demo_question 1200 \<lparr>bg_cycle = 0, bg_hour = []\<rparr>"

lemma demo_research_found: "(case fst demo_research of Found f \<Rightarrow> map ev_observedAt (fc_evidence f) = [900000] | Abstained _ \<Rightarrow> False)"
  by code_simp

lemma demo_research_asked: "\<exists>f b. demo_research = (Found f, b, Some 1200)"
proof -
  obtain f where f: "fst demo_research = Found f" using demo_research_found by (cases "fst demo_research") simp_all
  then obtain b a where d: "demo_research = (Found f, b, a)" by (metis prod.collapse)
  have "a = Some 1200" using d unfolding demo_research_def research_def by (auto simp: Let_def split: sum.splits if_splits option.splits)
  then show ?thesis using d by blast
qed


section \<open>The prompt\<close>

text \<open>What stands right after each opening bracket of a text.\<close>

fun tags :: "string \<Rightarrow> string list" where
  "tags [] = []"
| "tags (c # cs) = (if c = CHR ''<'' then take 9 cs # tags cs else tags cs)"

definition no_tag :: "string \<Rightarrow> bool" where
  "no_tag s = (CHR ''<'' \<notin> set s)"

lemma tags_free: "no_tag s \<Longrightarrow> tags (s @ t) = tags t"
  by (induction s) (auto simp: no_tag_def)

lemma no_tag_simps [simp]:
  "no_tag []" "no_tag (c # s) \<longleftrightarrow> c \<noteq> CHR ''<'' \<and> no_tag s" "no_tag (s @ t) \<longleftrightarrow> no_tag s \<and> no_tag t"
  by (auto simp: no_tag_def)

lemma no_tag_dec: "list_all is_dec s \<Longrightarrow> no_tag s"
  by (auto simp: no_tag_def list_all_iff is_dec_def code_def)

lemma no_tag_nat_str [simp]: "no_tag (nat_str n)"
  using no_tag_dec nat_str_all_dec by blast

lemma no_tag_int_str [simp]: "no_tag (int_str i)"
  by (simp add: int_str_def)

lemma no_tag_padded [simp]: "no_tag (padded k n)"
  using no_tag_nat_str by (auto simp: padded_def pad_start_def no_tag_def)

lemma no_tag_year [simp]: "no_tag (year_str y)"
  by (simp add: year_str_def)

lemma no_tag_iso [simp]: "iso s = ok t \<Longrightarrow> no_tag t"
  unfolding iso_def toISOString_def Let_def by (simp split: if_splits) (elim ssubst subst, simp)

lemma no_tag_iso_or: "iso_or v = ok t \<Longrightarrow> no_tag t"
  by (auto simp: iso_or_def split: if_splits)

lemma no_tag_escape [simp]: "no_tag (escape s)"
  by (induction s) (auto simp: escape_def escape_char_def)

lemma no_tag_join: "no_tag sep \<Longrightarrow> list_all no_tag xs \<Longrightarrow> no_tag (join_with sep xs)"
  by (cases xs) (auto simp: join_with_def no_tag_def list_all_iff)

lemma no_tag_marks [simp]: "no_tag [newline]" "newline \<noteq> CHR ''<''" "quote_mark \<noteq> CHR ''<''"
proof -
  have "code newline \<noteq> code CHR ''<''" "code quote_mark \<noteq> code CHR ''<''" by (simp_all add: newline_def quote_mark_def code_char_of, simp_all add: code_def)
  then show "no_tag [newline]" "newline \<noteq> CHR ''<''" "quote_mark \<noteq> CHR ''<''" by auto
qed

lemma quoted_free [simp]: "no_tag (quoted s) \<longleftrightarrow> no_tag s"
  by (simp add: quoted_def)

lemma tags_literal: "no_tag s \<Longrightarrow> tags (s @ CHR ''<'' # t) = take 9 t # tags t"
  by (simp add: tags_free)

text \<open>One block has its own two tags and no other, whatever the record holds.\<close>

definition BLOCK_TAGS :: "string list" where
  "BLOCK_TAGS = [''evidence '', ''/evidence'']"

lemma event_ids_free: "isCitableEvidence e now n \<Longrightarrow> list_all no_tag (map js_string (event_ids e))"
proof -
  assume "isCitableEvidence e now n"
  then have "list_all is_safe_int (event_ids e)" by (auto simp: isCitableEvidence_def list_all_iff)
  moreover have "is_safe_int v \<Longrightarrow> no_tag (js_string v)" for v by (cases v) auto
  ultimately show ?thesis by (simp add: list_all_iff)
qed

lemma block_tags:
  assumes "evidence_block e = ok s" "isCitableEvidence e now n"
  shows "tags (s @ t) = BLOCK_TAGS @ tags t"
proof -
  obtain released retrieved where r: "iso_or (jget e ''publisherReleasedAt'') = ok released" "iso (jint_val (jget e ''retrievedAt'')) = ok retrieved"
    "s = ''<evidence id='' @ quoted (escape (field e ''id'')) @ '' url='' @ quoted (escape (field e ''url''))
         @ '' events='' @ quoted (join_with '','' (map js_string (event_ids e))) @ '' publisherReleasedAt='' @ quoted released
         @ '' retrieved='' @ quoted retrieved @ ''>'' @ newline # escape (field e ''excerpt'') @ newline # ''</evidence>''"
    using assms(1) by (auto simp: evidence_block_def)
  define mid where "mid = ''evidence id='' @ quoted (escape (field e ''id'')) @ '' url='' @ quoted (escape (field e ''url''))
         @ '' events='' @ quoted (join_with '','' (map js_string (event_ids e))) @ '' publisherReleasedAt='' @ quoted released
         @ '' retrieved='' @ quoted retrieved @ ''>'' @ newline # escape (field e ''excerpt'') @ [newline]"
  have f: "no_tag mid" unfolding mid_def
    using no_tag_iso [OF r(2)] no_tag_iso_or [OF r(1)] no_tag_join [OF _ event_ids_free [OF assms(2)], of "'',''"] by simp
  have "s @ t = CHR ''<'' # mid @ CHR ''<'' # ''/evidence>'' @ t" using r(3) by (simp add: mid_def)
  moreover have "take 9 (mid @ CHR ''<'' # ''/evidence>'' @ t) = ''evidence ''" by (simp add: mid_def)
  ultimately have "tags (s @ t) = ''evidence '' # tags (mid @ CHR ''<'' # ''/evidence>'' @ t)" by simp
  also have "\<dots> = ''evidence '' # ''/evidence'' # tags t" using tags_literal [OF f] by simp
  finally show ?thesis by (simp add: BLOCK_TAGS_def)
qed

lemma blocks_tags:
  assumes "mapE evidence_block es = ok ss" "list_all (\<lambda>e. isCitableEvidence e now n) es" "no_tag sep"
  shows "tags (concat (map (\<lambda>s. sep @ s) ss)) = concat (replicate (length es) BLOCK_TAGS)"
  using assms(1,2)
proof (induction es arbitrary: ss)
  case (Cons e es)
  then obtain s rest where s: "ss = s # rest" "evidence_block e = ok s" "mapE evidence_block es = ok rest" by auto
  show ?case using Cons block_tags [OF s(2), of now n] s assms(3) by (simp add: tags_free)
qed simp

text \<open>C13: retrieved text cannot leave its block: the only markup in the prompt is one opening and one closing
  evidence tag for each citable record, in turn; neither a record's text, title or address nor a market's
  questions can open or close anything.\<close>

theorem prompt_keeps_blocks:
  assumes "buildResearchPrompt title questions eventCount evidence now reqs = ok prompt"
  shows "tags prompt = concat (replicate (length (filter (\<lambda>e. isCitableEvidence e now eventCount) evidence)) BLOCK_TAGS)"
proof -
  let ?es = "filter (\<lambda>e. isCitableEvidence e now eventCount) evidence"
  obtain current parts blocks where p: "iso now = ok current" "mapE question_part questions = ok parts" "mapE evidence_block ?es = ok blocks"
    "prompt = join_with [newline, newline] ([''Current time: '' @ current, ''Market: '' @ escape title] @ parts
         @ [''Forecast events: ['' @ join_with '', '' (map (\<lambda>q. int_str (rs_index q)) questions) @ '']'']
         @ map (requirement_part reqs) questions @ blocks)"
    using assms by (auto simp: buildResearchPrompt_def)
  have "no_tag s" if "question_part q = ok s" for q s
    using that by (auto simp: question_part_def)
  then have "list_all no_tag parts" using mapE_all [OF p(2)] by blast
  then have parts: "no_tag (concat (map ((@) [newline, newline]) parts))" by (induction parts) simp_all
  have "no_tag (requirement_part reqs q)" for q by (auto simp: requirement_part_def split: option.splits freshness.splits)
  then have reqs: "no_tag (concat (map ((@) [newline, newline]) (map (requirement_part reqs) questions)))" by (induction questions) auto
  have events: "no_tag (join_with '', '' (map (\<lambda>q. int_str (rs_index q)) questions))" by (intro no_tag_join) (simp_all add: list_all_iff)
  define front where "front = ''Current time: '' @ current @ [newline, newline] @ ''Market: '' @ escape title @ concat (map ((@) [newline, newline]) parts)
    @ [newline, newline] @ ''Forecast events: ['' @ join_with '', '' (map (\<lambda>q. int_str (rs_index q)) questions) @ '']''
    @ concat (map ((@) [newline, newline]) (map (requirement_part reqs) questions))"
  have "no_tag front" unfolding front_def using parts reqs events no_tag_iso [OF p(1)] by simp
  moreover have "prompt = front @ concat (map ((@) [newline, newline]) blocks)"
    by (simp add: p(4) front_def join_with_def)
  moreover have "tags (concat (map ((@) [newline, newline]) blocks)) = concat (replicate (length ?es) BLOCK_TAGS)"
    using p(3) by (intro blocks_tags) (auto simp: list_all_iff)
  ultimately show ?thesis by (simp add: tags_free)
qed

theorem prompt_keeps_blocks_witness:
  "\<exists>prompt. buildResearchPrompt ''t'' [] 2 [demo_record] 1200 [] = ok prompt \<and> tags prompt = BLOCK_TAGS"
proof -
  have c: "isCitableEvidence demo_record 1200 2" by code_simp
  have "\<not> isl (buildResearchPrompt ''t'' [] 2 [demo_record] 1200 [])" by code_simp
  then obtain prompt where p: "buildResearchPrompt ''t'' [] 2 [demo_record] 1200 [] = ok prompt" by (cases "buildResearchPrompt ''t'' [] 2 [demo_record] 1200 []") auto
  show ?thesis using prompt_keeps_blocks [OF p] p c by simp
qed

end
