(* ===== verification/Research_Budgets.thy ===== *)
theory Research_Budgets
  imports Research_Laws
begin

text \<open>
  The escaping loses nothing but control characters, and however requests and cycles follow each other the model is
  asked at most so often in a cycle and in any hour.
\<close>

section \<open>Reading the escaped text\<close>

fun unescape :: "nat \<Rightarrow> string \<Rightarrow> string" where
  "unescape k [] = []"
| "unescape (Suc k) (c # cs) = unescape k cs"
| "unescape 0 (c # cs) =
     (if begins_with ''&amp;'' (c # cs) then CHR ''&'' # unescape 4 cs
      else if begins_with ''&lt;'' (c # cs) then CHR ''<'' # unescape 3 cs
      else if begins_with ''&gt;'' (c # cs) then CHR ''>'' # unescape 3 cs
      else if begins_with ''&quot;'' (c # cs) then quote_mark # unescape 5 cs
      else c # unescape 0 cs)"

definition without_control :: "string \<Rightarrow> string" where
  "without_control s = map (\<lambda>c. if is_control c then CHR '' '' else c) s"

lemma escape_Cons: "escape (c # cs) = escape_char c @ escape cs"
  by (simp add: escape_def)

lemma unescape_char:
  "unescape 0 (escape_char c @ t) = (if is_control c then CHR '' '' else c) # unescape 0 t"
proof -
  have n: "\<not> is_control CHR ''&''" "\<not> is_control CHR ''<''" "\<not> is_control CHR ''>''" "\<not> is_control quote_mark"
    by (simp_all add: is_control_def quote_mark_def code_char_of) (simp_all add: code_def)
  consider "is_control c" | "c = CHR ''&''" | "c = CHR ''<''" | "c = CHR ''>''" | "c = quote_mark"
    | "\<not> is_control c" "c \<noteq> CHR ''&''" "c \<noteq> CHR ''<''" "c \<noteq> CHR ''>''" "c \<noteq> quote_mark" by blast
  then show ?thesis
  proof cases
    case 5
    have "code quote_mark \<noteq> code CHR ''&''" "code quote_mark \<noteq> code CHR ''>''" "code quote_mark \<noteq> code CHR ''<''"
      by (simp_all add: quote_mark_def code_char_of) (simp_all add: code_def)
    then have "quote_mark \<noteq> CHR ''&''" "quote_mark \<noteq> CHR ''>''" "quote_mark \<noteq> CHR ''<''" by auto
    then show ?thesis using 5 n by (simp add: escape_char_def begins_with_def numeral_eq_Suc)
  qed (use n in \<open>simp_all add: escape_char_def begins_with_def numeral_eq_Suc\<close>)
qed

text \<open>the escaping that keeps evidence inside its block loses nothing else: decoding the four
  entities gives every text back, with control characters blanked.\<close>

theorem escape_reads_back: "unescape 0 (escape s) = without_control s"
  by (induction s) (simp_all add: escape_Cons unescape_char without_control_def, simp add: escape_def)

section \<open>Budgets\<close>

text \<open>The layer's life: a cycle begins, or a request is made at a time that does not go back; \<open>asked\<close> lists when the model was asked.\<close>

record research_life =
  rl_budget :: research_budget
  rl_asked :: "int list"
  rl_inCycle :: nat
  rl_clock :: int

definition research_init :: research_life where
  "research_init = \<lparr>rl_budget = \<lparr>bg_cycle = 0, bg_hour = []\<rparr>, rl_asked = [], rl_inCycle = 0, rl_clock = 0\<rparr>"

inductive research_step :: "research_limits \<Rightarrow> research_life \<Rightarrow> research_life \<Rightarrow> bool" for li where
  new_cycle: "research_step li x (x\<lparr>rl_budget := resetCycle (rl_budget x), rl_inCycle := 0\<rparr>)"
| asked: "research urls parse li provider complete retrieved i t (rl_budget x) = (r, b', Some u) \<Longrightarrow> rl_clock x \<le> t \<Longrightarrow>
    research_step li x (x\<lparr>rl_budget := b', rl_asked := rl_asked x @ [u], rl_inCycle := Suc (rl_inCycle x), rl_clock := t\<rparr>)"
| not_asked: "research urls parse li provider complete retrieved i t (rl_budget x) = (r, b', None) \<Longrightarrow> rl_clock x \<le> t \<Longrightarrow>
    research_step li x (x\<lparr>rl_budget := b', rl_clock := t\<rparr>)"

definition in_hour :: "int \<Rightarrow> int list \<Rightarrow> int list" where
  "in_hour w xs = filter (\<lambda>u. w - 3600 < u \<and> u \<le> w) xs"

definition research_inv :: "research_limits \<Rightarrow> research_life \<Rightarrow> bool" where
  "research_inv li x =
     (rl_inCycle x \<le> bg_cycle (rl_budget x) \<and> bg_cycle (rl_budget x) \<le> li_perCycle li
      \<and> sorted (bg_hour (rl_budget x)) \<and> (\<forall>u\<in>set (bg_hour (rl_budget x)). u \<le> rl_clock x) \<and> (\<forall>u\<in>set (rl_asked x). u \<le> rl_clock x)
      \<and> (\<forall>w\<ge>rl_clock x. length (in_hour w (rl_asked x)) \<le> length (in_hour w (bg_hour (rl_budget x))))
      \<and> length (bg_hour (rl_budget x)) \<le> li_perHour li
      \<and> (\<forall>w. length (in_hour w (rl_asked x)) \<le> li_perHour li))"

lemma dropWhile_past: "sorted xs \<Longrightarrow> dropWhile (\<lambda>u. u \<le> (c::int)) xs = filter (\<lambda>u. c < u) xs"
  by (induction xs) (auto simp: filter_id_conv intro!: sym [OF filter_True])

text \<open>What a request does to the budget.\<close>

lemma research_budget_cases:
  assumes "research urls parse li provider complete retrieved i t b = (r, b', a)"
  defines "h \<equiv> dropWhile (\<lambda>u. u \<le> t - 3600) (bg_hour b)"
  shows "b' = b \<and> a = None \<or> b' = b\<lparr>bg_hour := h\<rparr> \<and> a = None
    \<or> bg_cycle b < li_perCycle li \<and> length h < li_perHour li \<and> b' = b\<lparr>bg_cycle := Suc (bg_cycle b), bg_hour := h @ [t]\<rparr> \<and> (a = None \<or> a = Some t)"
  using assms(1) unfolding research_def h_def
  by (auto simp: Let_def not_le split: sum.splits if_splits option.splits)

lemma in_hour_append: "in_hour w (xs @ ys) = in_hour w xs @ in_hour w ys"
  by (simp add: in_hour_def)

lemma in_hour_recent: "t \<le> w \<Longrightarrow> in_hour w (filter (\<lambda>u. t - 3600 < u) xs) = in_hour w xs"
  by (auto simp: in_hour_def intro!: filter_cong)

lemma in_hour_le: "length (in_hour w xs) \<le> length xs"
  by (simp add: in_hour_def)

lemma research_inv_request:
  assumes "research_inv li x" "research urls parse li provider complete retrieved i t (rl_budget x) = (r, b', a)" "rl_clock x \<le> t"
  shows "research_inv li (x\<lparr>rl_budget := b', rl_asked := rl_asked x @ (case a of None \<Rightarrow> [] | Some u \<Rightarrow> [u]),
    rl_inCycle := rl_inCycle x + (case a of None \<Rightarrow> 0 | Some u \<Rightarrow> 1), rl_clock := t\<rparr>)"
proof -
  let ?b = "rl_budget x" let ?h = "filter (\<lambda>u. t - 3600 < u) (bg_hour ?b)"
  have inv: "rl_inCycle x \<le> bg_cycle ?b" "bg_cycle ?b \<le> li_perCycle li" "sorted (bg_hour ?b)" "\<forall>u\<in>set (bg_hour ?b). u \<le> t"
    "\<forall>u\<in>set (rl_asked x). u \<le> t" "\<forall>w\<ge>t. length (in_hour w (rl_asked x)) \<le> length (in_hour w (bg_hour ?b))"
    "length (bg_hour ?b) \<le> li_perHour li" "\<forall>w. length (in_hour w (rl_asked x)) \<le> li_perHour li"
    using assms(1,3) by (auto simp: research_inv_def intro: order_trans)
  have h: "dropWhile (\<lambda>u. u \<le> t - 3600) (bg_hour ?b) = ?h" using dropWhile_past [OF inv(3)] .
  have kept: "\<forall>w\<ge>t. length (in_hour w (rl_asked x)) \<le> length (in_hour w ?h)" using inv(6) in_hour_recent by simp
  have sh: "sorted ?h" "\<forall>u\<in>set ?h. u \<le> t" "length ?h \<le> li_perHour li"
    using inv(3,4) le_trans [OF length_filter_le inv(7)] by (auto simp: sorted_wrt_filter)
  have pushed: "sorted (?h @ [t])" using sh(1,2) by (simp add: sorted_append)
  have all: "\<forall>w. length (in_hour w (rl_asked x @ [t])) \<le> li_perHour li" if "length ?h < li_perHour li"
  proof
    fix w
    show "length (in_hour w (rl_asked x @ [t])) \<le> li_perHour li"
    proof (cases "t \<le> w")
      case True
      then have "length (in_hour w (rl_asked x @ [t])) \<le> length (in_hour w (?h @ [t]))" using kept by (simp add: in_hour_append)
      also have "\<dots> \<le> length (?h @ [t])" by (rule in_hour_le)
      finally show ?thesis using that by simp
    next
      case False
      then show ?thesis using inv(8) by (simp add: in_hour_append, simp add: in_hour_def)
    qed
  qed
  from research_budget_cases [OF assms(2), unfolded h]
  consider "b' = ?b" "a = None" | "b' = ?b\<lparr>bg_hour := ?h\<rparr>" "a = None"
    | "bg_cycle ?b < li_perCycle li" "length ?h < li_perHour li" "b' = ?b\<lparr>bg_cycle := Suc (bg_cycle ?b), bg_hour := ?h @ [t]\<rparr>" "a = None"
    | "bg_cycle ?b < li_perCycle li" "length ?h < li_perHour li" "b' = ?b\<lparr>bg_cycle := Suc (bg_cycle ?b), bg_hour := ?h @ [t]\<rparr>" "a = Some t"
    by blast
  then show ?thesis
  proof cases
    case 1
    then show ?thesis using inv by (simp add: research_inv_def)
  next
    case 2
    then show ?thesis using inv kept sh by (simp add: research_inv_def)
  next
    case 3
    have "\<forall>w\<ge>t. length (in_hour w (rl_asked x)) \<le> length (in_hour w (?h @ [t]))" using kept by (auto simp: in_hour_append intro: le_SucI trans_le_add1)
    then show ?thesis using 3 inv sh pushed by (simp add: research_inv_def)
  next
    case 4
    have "\<forall>w\<ge>t. length (in_hour w (rl_asked x @ [t])) \<le> length (in_hour w (?h @ [t]))" using kept by (auto simp: in_hour_append)
    then show ?thesis using 4 inv sh pushed all [OF 4(2)] by (simp add: research_inv_def)
  qed
qed

lemma research_inv_step: "research_step li x y \<Longrightarrow> research_inv li x \<Longrightarrow> research_inv li y"
proof (induction rule: research_step.induct)
  case (new_cycle x)
  then show ?case by (auto simp: research_inv_def resetCycle_def)
next
  case (asked urls parse provider complete retrieved i t x r b' u)
  then show ?case using research_inv_request [of li x urls parse provider complete retrieved i t r b' "Some u"] research_budget_cases [OF asked(1)] by auto
next
  case (not_asked urls parse provider complete retrieved i t x r b')
  then show ?case using research_inv_request [of li x urls parse provider complete retrieved i t r b' None] by simp
qed

interpretation research_life: invariant_system "\<lambda>x. x = research_init" "research_step li" "research_inv li" for li
proof unfold_locales
  fix x assume "x = research_init"
  then show "research_inv li x" by (simp add: research_init_def research_inv_def in_hour_def)
qed (rule research_inv_step)

text \<open>however cycles and requests follow each other, whatever the retriever and the model answer, the
  model is asked at most so often in one cycle as the cycle's budget says, and in no hour, wherever it is placed,
  more often than the hour's.\<close>

theorem research_within_budgets:
  assumes "(research_step li)\<^sup>*\<^sup>* research_init x"
  shows "rl_inCycle x \<le> li_perCycle li \<and> (\<forall>w. length (filter (\<lambda>u. w - 3600 < u \<and> u \<le> w) (rl_asked x)) \<le> li_perHour li)"
  using research_life.reachable_inv [OF refl assms] by (auto simp: research_inv_def in_hour_def)

theorem research_within_budgets_witness:
  "\<exists>x. (research_step demo_limits)\<^sup>*\<^sup>* research_init x \<and> rl_asked x = [1200] \<and> rl_inCycle x \<le> 1
    \<and> (\<forall>w. length (filter (\<lambda>u. w - 3600 < u \<and> u \<le> w) (rl_asked x)) \<le> 2)"
proof -
  obtain f b where d: "demo_research = (Found f, b, Some 1200)" using demo_research_asked by blast
  let ?x = "research_init\<lparr>rl_budget := b, rl_asked := rl_asked research_init @ [1200], rl_inCycle := Suc (rl_inCycle research_init), rl_clock := 1200\<rparr>"
  have "research_step demo_limits research_init ?x"
    by (rule research_step.asked) (use d in \<open>simp_all add: demo_research_def research_init_def\<close>)
  then have r: "(research_step demo_limits)\<^sup>*\<^sup>* research_init ?x" by blast
  have "rl_asked ?x = [1200]" by (simp add: research_init_def)
  then show ?thesis using r research_within_budgets [OF r] unfolding demo_limits_def by (intro exI [of _ ?x]) simp
qed

end
