(* ===== verification/Chain_Node.thy ===== *)
theory Chain_Node
  imports Pilot_Calls Effects
begin

text \<open>
  What the server's checks read from a chain node, and the contract reads they make: one at a time, or many
  aggregated by the Multicall3 contract. The node's answers and viem's codecs are parameters; a quantity is the
  integer \<open>BigInt\<close> reads, and an answer it cannot read is an error of the read.
\<close>

record chain_tx =
  ct_hash :: string
  ct_from :: string
  ct_to :: "string option"
  ct_input :: "string option"
  ct_chainId :: "int option"
  ct_value :: "int option"
  ct_blockHash :: "string option"

record mined_receipt =
  cr_transactionHash :: string
  cr_blockHash :: string
  cr_blockNumber :: int
  cr_gasUsed :: "int option"
  cr_effectiveGasPrice :: "int option"
  cr_status :: int
  cr_logs :: "chain_log list"

record chain_block =
  cb_hash :: string
  cb_number :: int
  cb_timestamp :: int

text \<open>\<open>nd_call to data block\<close> is \<open>eth_call\<close>; no block means the latest.\<close>

record chain_node =
  nd_transaction :: "string \<Rightarrow> chain_tx option res"
  nd_receipt :: "string \<Rightarrow> mined_receipt option res"
  nd_block :: "int \<Rightarrow> chain_block option res"
  nd_head :: "chain_block option res"
  nd_call :: "string \<Rightarrow> string \<Rightarrow> int option \<Rightarrow> string res"

text \<open>The view functions that are read, with their arguments, and what viem decodes their result to.\<close>

datatype contract_read =
    Allowance string string
  | Resolved
  | Resolved_state
  | Void_mask
  | Quote_buy int int int
  | Quote_sell int int int
  | Factors
  | Base_token int int
  | Holdings string int int
  | Balance_of string

datatype view_value = V_int int | V_bool bool | V_text string | V_scopes "32 word list"

record read_abi =
  rb_encode :: "contract_read \<Rightarrow> string res"
  rb_decode :: "contract_read \<Rightarrow> string \<Rightarrow> view_value res"
  rb_aggregate :: "(string \<times> bool \<times> string) list \<Rightarrow> string res"
  rb_rows :: "string \<Rightarrow> (bool \<times> string) list res"

definition type_error :: "'a res" where
  "type_error = Inl (Other_error ''TypeError'')"

definition MULTICALL3 :: string where
  "MULTICALL3 = ''0xca11bde05977b3631167028862be2a173976ca11''"

text \<open>One read: encode, call, decode.\<close>

definition read_at :: "read_abi \<Rightarrow> chain_node \<Rightarrow> int option \<Rightarrow> string \<Rightarrow> contract_read \<Rightarrow> view_value res" where
  "read_at ra nd block target r =
     bindE (rb_encode ra r) (\<lambda>data. bindE (nd_call nd target data block) (\<lambda>raw. rb_decode ra r raw))"

text \<open>The rows of one aggregated call.\<close>

definition aggregate3 :: "read_abi \<Rightarrow> chain_node \<Rightarrow> int option \<Rightarrow> (string \<times> bool \<times> string) list \<Rightarrow> (bool \<times> string) list res" where
  "aggregate3 ra nd block calls =
     bindE (rb_aggregate ra calls) (\<lambda>data. bindE (nd_call nd MULTICALL3 data block) (\<lambda>raw. rb_rows ra raw))"

text \<open>\<open>a && b\<close> where \<open>b\<close> may throw.\<close>

definition andE :: "bool res \<Rightarrow> bool res \<Rightarrow> bool res" where
  "andE a b = bindE a (\<lambda>x. if x then b else ok False)"

lemma andE_True [simp]: "andE a b = ok True \<longleftrightarrow> a = ok True \<and> b = ok True"
  by (auto simp: andE_def split: if_splits)

text \<open>
  What the documentation of Multicall3 promises: the rows answer the calls in order, each with the data the
  target returns, and a call that may not fail fails the whole read. \<open>answers\<close> is what the targets return
  at the block.
\<close>

definition multicall_honest :: "read_abi \<Rightarrow> chain_node \<Rightarrow> int option \<Rightarrow> (string \<Rightarrow> string \<Rightarrow> string option) \<Rightarrow> bool" where
  "multicall_honest ra nd block answers \<longleftrightarrow> (\<forall>calls rows. aggregate3 ra nd block calls = ok rows \<longrightarrow>
     list_all2 (\<lambda>(target, may_fail, data) (success, returned). success = (answers target data \<noteq> None)
       \<and> (success \<longrightarrow> answers target data = Some returned)) calls rows)"

lemma honest_row:
  assumes "multicall_honest ra nd block answers" "aggregate3 ra nd block calls = ok rows" "i < length calls"
    "calls ! i = (target, may_fail, data)" "rows ! i = (True, returned)"
  shows "answers target data = Some returned"
proof -
  have "list_all2 (\<lambda>(target, may_fail, data) (success, returned). success = (answers target data \<noteq> None)
       \<and> (success \<longrightarrow> answers target data = Some returned)) calls rows"
    using assms(1,2) by (auto simp: multicall_honest_def)
  from list_all2_nthD [OF this assms(3)] show ?thesis using assms(4,5) by simp
qed

lemma honest_length:
  "multicall_honest ra nd block answers \<Longrightarrow> aggregate3 ra nd block calls = ok rows \<Longrightarrow> length rows = length calls"
  by (auto simp: multicall_honest_def dest!: spec2 list_all2_lengthD)

end
