(* ===== verification/Executions.thy ===== *)
theory Executions
  imports Chain_Node Agent_Tracking "HOL-Library.List_Lexorder" "HOL-Library.Char_ord"
begin

text \<open>
  Transactions a runtime signed itself (apps/web/server/agents/executions.mjs): what a reported intent must look
  like, and whether the chain shows exactly it, from a wallet the agent had at that time.
\<close>

section \<open>Reported intents\<close>

text \<open>The two amounts and the mask keep the value that was sent; \<open>BigInt\<close> reads it later.\<close>

record reported_intent =
  ri_action :: exec_action
  ri_claim :: "(int \<times> json) option"
  ri_quantityAtoms :: json
  ri_limitAtoms :: json
  ri_deadline :: "int option"

definition keys_joined :: "json \<Rightarrow> string" where
  "keys_joined v = (case v of JObj kvs \<Rightarrow> join_with '','' (sort (map fst kvs)) | _ \<Rightarrow> [])"

fun action_of :: "json \<Rightarrow> exec_action option" where
  "action_of (JStr s) = (if s = ''buy'' then Some X_buy else if s = ''sell'' then Some X_sell
     else if s = ''redeem'' then Some X_redeem else if s = ''approve'' then Some X_approve else None)"
| "action_of _ = None"

text \<open>\<open>/^(0|[1-9][0-9]{0,77})$/\<close> and \<open>/^[1-9][0-9]{0,2}$/\<close>; \<open>test\<close> converts its argument with \<open>String\<close>,
  which writes numbers from \<open>10 ^ 21\<close> on with an exponent.\<close>

definition decimal_text :: "json \<Rightarrow> bool" where
  "decimal_text v = (is_canon_dec (js_string v) \<and> length (js_string v) \<le> 78 \<and> (is_jint v \<longrightarrow> jint_val v < 10 ^ 21))"

definition mask_text :: "string \<Rightarrow> bool" where
  "mask_text s = (is_canon_dec s \<and> s \<noteq> ''0'' \<and> length s \<le> 3)"

definition claim_ok :: "json \<Rightarrow> nat \<Rightarrow> bool" where
  "claim_ok c eventCount = (is_record c \<and> keys_joined c = ''mask,scope'' \<and> is_jint (jget c ''scope'')
     \<and> jint_val (jget c ''scope'') \<ge> 1 \<and> jint_val (jget c ''scope'') < 2 ^ eventCount \<and> mask_text (js_string (jget c ''mask'')))"

definition parseIntent :: "json \<Rightarrow> nat \<Rightarrow> reported_intent option" where
  "parseIntent v eventCount =
     (if \<not> is_record v \<or> keys_joined v \<noteq> ''action,claim,deadline,limitAtoms,quantityAtoms'' then None
      else case action_of (jget v ''action'') of
        None \<Rightarrow> None
      | Some a \<Rightarrow>
          let q = jget v ''quantityAtoms''; l = jget v ''limitAtoms''; c = jget v ''claim''; d = jget v ''deadline'' in
          if \<not> decimal_text q \<or> \<not> decimal_text l then None
          else if a = X_approve then
            (if c \<noteq> JNull \<or> d \<noteq> JNull \<or> q \<noteq> JStr ''0'' then None
             else Some \<lparr>ri_action = a, ri_claim = None, ri_quantityAtoms = q, ri_limitAtoms = l, ri_deadline = None\<rparr>)
          else if \<not> claim_ok c eventCount then None
          else if a = X_redeem then
            (if d \<noteq> JNull \<or> l \<noteq> JStr ''0'' then None
             else Some \<lparr>ri_action = a, ri_claim = Some (jint_val (jget c ''scope''), jget c ''mask''),
               ri_quantityAtoms = q, ri_limitAtoms = l, ri_deadline = None\<rparr>)
          else if \<not> is_safe_int d \<or> jint_val d \<le> 0 then None
          else Some \<lparr>ri_action = a, ri_claim = Some (jint_val (jget c ''scope''), jget c ''mask''),
            ri_quantityAtoms = q, ri_limitAtoms = l, ri_deadline = Some (jint_val d)\<rparr>)"

text \<open>The copy as it is stored, and \<open>BigInt\<close> of one of its values.\<close>

definition action_text :: "exec_action \<Rightarrow> string" where
  "action_text a = (case a of X_buy \<Rightarrow> ''buy'' | X_sell \<Rightarrow> ''sell'' | X_redeem \<Rightarrow> ''redeem'' | X_approve \<Rightarrow> ''approve'')"

definition intent_json :: "reported_intent \<Rightarrow> json" where
  "intent_json i = JObj [(''action'', JStr (action_text (ri_action i))),
     (''claim'', (case ri_claim i of None \<Rightarrow> JNull | Some (s, m) \<Rightarrow> JObj [(''scope'', JInt s), (''mask'', m)])),
     (''quantityAtoms'', ri_quantityAtoms i), (''limitAtoms'', ri_limitAtoms i),
     (''deadline'', (case ri_deadline i of None \<Rightarrow> JNull | Some d \<Rightarrow> JInt d))]"

definition big_of :: "json \<Rightarrow> int res" where
  "big_of v = big_of_string (js_string v)"

section \<open>Verification\<close>

definition walletAt :: "wallet_period list \<Rightarrow> string \<Rightarrow> int \<Rightarrow> bool" where
  "walletAt history address timestamp = list_ex (\<lambda>w. wp_address w = address \<and> wp_from w \<le> timestamp
     \<and> (case wp_until w of None \<Rightarrow> True | Some u \<Rightarrow> timestamp < u)) history"

record execution_facts =
  xf_blockNumber :: int
  xf_blockTimestamp :: int
  xf_from :: string
  xf_gasUsed :: int
  xf_effectiveGasPrice :: "int option"
  xf_digest :: string

record execution_result =
  xr_status :: string
  xr_reason :: "string option"
  xr_collateralAtoms :: "string option"
  xr_facts :: "execution_facts option"

definition plain_result :: "string \<Rightarrow> string option \<Rightarrow> execution_facts option \<Rightarrow> execution_result" where
  "plain_result status reason facts = \<lparr>xr_status = status, xr_reason = reason, xr_collateralAtoms = None, xr_facts = facts\<rparr>"

definition or_zero :: "int option \<Rightarrow> int" where
  "or_zero a = (case a of None \<Rightarrow> 0 | Some v \<Rightarrow> v)"

definition lower_or_empty :: "string option \<Rightarrow> string" where
  "lower_or_empty a = (case a of None \<Rightarrow> [] | Some s \<Rightarrow> lower s)"

definition hash_or :: "string \<Rightarrow> string option \<Rightarrow> string" where
  "hash_or none a = (case a of None \<Rightarrow> none | Some h \<Rightarrow> lower h)"

text \<open>The transaction is on chain 10143, moves no native value, and its receipt is its own.\<close>

definition belongs :: "string \<Rightarrow> chain_tx \<Rightarrow> mined_receipt \<Rightarrow> bool" where
  "belongs hash tx rc = (lower (ct_hash tx) = hash \<and> lower (cr_transactionHash rc) = hash
     \<and> or_zero (ct_chainId tx) = 10143 \<and> ct_value tx = Some 0 \<and> lower (cr_blockHash rc) = hash_or ''null'' (ct_blockHash tx))"

text \<open>The receipt's block is still the canonical one and has a block on top of it.\<close>

definition settled_in :: "mined_receipt \<Rightarrow> chain_block option \<Rightarrow> chain_block option \<Rightarrow> bool" where
  "settled_in rc block head = (hash_or ''undefined'' (map_option cb_hash block) = lower (cr_blockHash rc)
     \<and> (case head of None \<Rightarrow> False | Some h \<Rightarrow> cb_number h \<ge> cr_blockNumber rc + 1))"

definition execution_tx :: "chain_tx \<Rightarrow> reviewed_tx" where
  "execution_tx tx = \<lparr>rx_from = lower (ct_from tx), rx_to = lower_or_empty (ct_to tx), rx_data = lower_or_empty (ct_input tx),
     rx_chainId = ''0x279f'', rx_value = ''0x0''\<rparr>"

definition facts_of :: "(string \<Rightarrow> string) \<Rightarrow> chain_tx \<Rightarrow> mined_receipt \<Rightarrow> chain_block \<Rightarrow> execution_facts" where
  "facts_of sha tx rc b = \<lparr>xf_blockNumber = cr_blockNumber rc, xf_blockTimestamp = cb_timestamp b, xf_from = lower (ct_from tx),
     xf_gasUsed = or_zero (cr_gasUsed rc), xf_effectiveGasPrice = cr_effectiveGasPrice rc,
     xf_digest = transactionDigest sha (execution_tx tx)\<rparr>"

definition call_action :: "pilot_call \<Rightarrow> exec_action option" where
  "call_action c = (case c of Approve_cash _ _ \<Rightarrow> Some X_approve | Buy_claim _ _ _ _ _ \<Rightarrow> Some X_buy
     | Sell_claim _ _ _ _ _ \<Rightarrow> Some X_sell | Redeem_claim _ _ _ \<Rightarrow> Some X_redeem | _ \<Rightarrow> None)"

definition is_big :: "int \<Rightarrow> json \<Rightarrow> bool res" where
  "is_big n v = bindE (big_of v) (\<lambda>b. ok (n = b))"

text \<open>The call's pool, claim and quantity are the intent's; then the limit and the deadline.\<close>

definition claim_agrees :: "pilot_manifest \<Rightarrow> string \<Rightarrow> reported_intent \<Rightarrow> int \<Rightarrow> int \<Rightarrow> int \<Rightarrow> bool res" where
  "claim_agrees m to' i scope mask' quantity =
     (if to' \<noteq> pl_pool m then ok False
      else case ri_claim i of
        None \<Rightarrow> type_error
      | Some (s, ms) \<Rightarrow> andE (ok (scope = s)) (andE (is_big mask' ms) (is_big quantity (ri_quantityAtoms i))))"

definition same_terms :: "reported_intent \<Rightarrow> int \<Rightarrow> int \<Rightarrow> bool res" where
  "same_terms i limit deadline = andE (is_big limit (ri_limitAtoms i))
     (case ri_deadline i of None \<Rightarrow> type_error | Some d \<Rightarrow> ok (deadline = d))"

definition call_matches :: "pilot_manifest \<Rightarrow> string \<Rightarrow> reported_intent \<Rightarrow> pilot_call \<Rightarrow> bool res" where
  "call_matches m to' i c = (case c of
     Approve_cash spender amount \<Rightarrow>
       (if to' = pilotCash \<and> lower spender = pl_pool m then is_big amount (ri_limitAtoms i) else ok False)
   | Buy_claim scope mask' quantity limit deadline \<Rightarrow> andE (claim_agrees m to' i scope mask' quantity) (same_terms i limit deadline)
   | Sell_claim scope mask' quantity limit deadline \<Rightarrow> andE (claim_agrees m to' i scope mask' quantity) (same_terms i limit deadline)
   | Redeem_claim scope mask' quantity \<Rightarrow> claim_agrees m to' i scope mask' quantity
   | _ \<Rightarrow> ok False)"

definition effect_intent :: "pilot_manifest \<Rightarrow> string \<Rightarrow> reported_intent \<Rightarrow> exec_intent" where
  "effect_intent m wallet i = \<lparr>xi_action = ri_action i, xi_wallet = wallet, xi_pool = pl_pool m,
     xi_claim = map_option (\<lambda>(s, ms). (s, js_string ms)) (ri_claim i),
     xi_quantity = js_string (ri_quantityAtoms i), xi_limit = js_string (ri_limitAtoms i)\<rparr>"

definition allowance_at :: "read_abi \<Rightarrow> chain_node \<Rightarrow> pilot_manifest \<Rightarrow> string \<Rightarrow> int \<Rightarrow> string res" where
  "allowance_at ra nd m wallet block = bindE (read_at ra nd (Some block) pilotCash (Allowance wallet (pl_pool m)))
     (\<lambda>v. case v of V_int a \<Rightarrow> ok (int_str a) | _ \<Rightarrow> type_error)"

definition verifyExecution ::
    "pilot_abi \<Rightarrow> read_abi \<Rightarrow> (string \<Rightarrow> string) \<Rightarrow> chain_node \<Rightarrow> pilot_manifest \<Rightarrow> wallet_period list \<Rightarrow> string \<Rightarrow> reported_intent \<Rightarrow> execution_result res" where
  "verifyExecution abi ra sha nd m history hash i =
     (if \<not> is_0x_lhex 64 hash then ok (plain_result ''mismatch'' (Some ''invalid_hash'') None)
      else bindE (nd_transaction nd hash) (\<lambda>found. bindE (nd_receipt nd hash) (\<lambda>mined.
        case found of None \<Rightarrow> ok (plain_result ''unknown'' None None) | Some tx \<Rightarrow>
        (case mined of None \<Rightarrow> ok (plain_result ''pending'' None None) | Some rc \<Rightarrow>
        if \<not> belongs hash tx rc then ok (plain_result ''mismatch'' (Some ''not_this_chain_or_value'') None)
        else bindE (nd_block nd (cr_blockNumber rc)) (\<lambda>block. bindE (nd_head nd) (\<lambda>head.
          if \<not> settled_in rc block head then ok (plain_result ''confirming'' None None)
          else case block of None \<Rightarrow> type_error | Some b \<Rightarrow>
          (let facts = facts_of sha tx rc b; wallet = lower (ct_from tx); to' = lower_or_empty (ct_to tx);
               mismatch = (\<lambda>reason. ok (plain_result ''mismatch'' (Some reason) (Some facts))) in
           if \<not> walletAt history wallet (cb_timestamp b) then mismatch ''wallet_not_associated''
           else case pilotCall abi m to' (lower_or_empty (ct_input tx)) of
             None \<Rightarrow> mismatch ''unsupported_call''
           | Some c \<Rightarrow>
             if call_action c \<noteq> Some (ri_action i) then mismatch ''unsupported_call''
             else bindE (call_matches m to' i c) (\<lambda>matches.
               if \<not> matches then mismatch ''intent_mismatch''
               else if cr_status rc \<noteq> 1 then ok (plain_result ''reverted'' None (Some facts))
               else bindE (if ri_action i = X_approve then bindE (allowance_at ra nd m wallet (cr_blockNumber rc)) (\<lambda>a. ok (Some a)) else ok None)
                 (\<lambda>allowance. bindE (verifyEffect (effect_intent m wallet i) 1 (cr_logs rc) allowance) (\<lambda>effect.
                   case effect of
                     Effect_confirmed collateral \<Rightarrow> ok \<lparr>xr_status = ''confirmed'', xr_reason = None, xr_collateralAtoms = collateral, xr_facts = Some facts\<rparr>
                   | Effect_mismatch \<Rightarrow> mismatch ''effect_missing''))))))))))"

text \<open>\<open>checkExecution\<close> of runtime-api.mjs hands the result to the change of the agent's state.\<close>

definition checked :: "execution_result \<Rightarrow> execution_check" where
  "checked r = \<lparr>vx_status = xr_status r, vx_digest = (case xr_facts r of None \<Rightarrow> [] | Some f \<Rightarrow> xf_digest f),
     vx_collateralAtoms = map_option str_int (xr_collateralAtoms r)\<rparr>"

end
