(* ===== verification/Execution_Laws.thy ===== *)
theory Execution_Laws
  imports Executions
begin

text \<open>
  What a verified execution shows: the node's own answers evidence every part of the report, and what an agent's
  totals count of it is bounded by the reported limit.
\<close>

section \<open>Reported intents\<close>

lemma canon_big:
  assumes "is_canon_dec (js_string v)" "length (js_string v) \<le> k"
  obtains n where "big_of v = ok n" "0 \<le> n" "n < 10 ^ k" "n = int (str_nat (js_string v))"
proof
  have "str_nat (js_string v) < 10 ^ length (js_string v)"
    using assms(1) by (intro str_nat_less) (simp add: is_canon_dec_def)
  also have "(10 :: nat) ^ length (js_string v) \<le> 10 ^ k" using assms(2) by (intro power_increasing) auto
  finally show "int (str_nat (js_string v)) < 10 ^ k" by (metis of_nat_less_iff of_nat_numeral of_nat_power)
qed (use assms in \<open>simp_all add: big_of_def big_of_canon\<close>)

lemma mask_text_big:
  assumes "mask_text (js_string v)"
  obtains n where "big_of v = ok n" "0 < n" "n < 1000"
proof -
  have c: "is_canon_dec (js_string v)" "length (js_string v) \<le> 3" "js_string v \<noteq> ''0''" using assms by (auto simp: mask_text_def)
  obtain n where n: "big_of v = ok n" "0 \<le> n" "n < 10 ^ 3" "n = int (str_nat (js_string v))" using canon_big [OF c(1,2)] .
  have "n \<noteq> 0"
  proof
    assume "n = 0"
    then have "nat_str (str_nat (js_string v)) = nat_str 0" using n(4) by simp
    moreover have "nat_str 0 = ''0''" by code_simp
    ultimately show False using c(1,3) by (simp only: nat_str_nat)
  qed
  then show ?thesis using that n by simp
qed

lemma decimal_text_big:
  assumes "decimal_text v"
  obtains n where "big_of v = ok n" "0 \<le> n" "n < 10 ^ 78"
  using assms canon_big [of v 78] unfolding decimal_text_def by blast

lemmas parse_defs = parseIntent_def claim_ok_def Let_def

lemma action_of_text [simp]: "action_of (JStr (action_text a)) = Some a"
  by (cases a) (auto simp: action_text_def)

lemma js_string_0 [simp]: "decimal_text (JStr ''0'')"
  by code_simp

lemma intent_json_get [simp]:
  "jget (intent_json i) ''action'' = JStr (action_text (ri_action i))"
  "jget (intent_json i) ''claim'' = (case ri_claim i of None \<Rightarrow> JNull | Some (s, m) \<Rightarrow> JObj [(''scope'', JInt s), (''mask'', m)])"
  "jget (intent_json i) ''quantityAtoms'' = ri_quantityAtoms i"
  "jget (intent_json i) ''limitAtoms'' = ri_limitAtoms i"
  "jget (intent_json i) ''deadline'' = (case ri_deadline i of None \<Rightarrow> JNull | Some d \<Rightarrow> JInt d)"
  by (simp_all add: jget_def intent_json_def)

lemma intent_json_record [simp]: "is_record (intent_json i)"
  by (simp add: is_record_def intent_json_def)

lemma intent_json_keys [simp]: "keys_joined (intent_json i) = ''action,claim,deadline,limitAtoms,quantityAtoms''"
proof -
  have "join_with '','' (sort [''action'', ''claim'', ''quantityAtoms'', ''limitAtoms'', ''deadline''])
    = ''action,claim,deadline,limitAtoms,quantityAtoms''" by code_simp
  then show ?thesis by (simp add: keys_joined_def intent_json_def)
qed

lemma claim_json_ok:
  "claim_ok (JObj [(''scope'', JInt s), (''mask'', m)]) n \<longleftrightarrow> 1 \<le> s \<and> s < 2 ^ n \<and> mask_text (js_string m)"
proof -
  have "join_with '','' (sort [''scope'', ''mask'']) = ''mask,scope''" by code_simp
  then show ?thesis by (simp add: claim_ok_def is_record_def keys_joined_def jget_def)
qed

lemma claim_json_get:
  "jget (JObj [(''scope'', JInt s), (''mask'', m)]) ''scope'' = JInt s" "jget (JObj [(''scope'', JInt s), (''mask'', m)]) ''mask'' = m"
  by (simp_all add: jget_def)

text \<open>What an accepted intent holds.\<close>

lemma parseIntent_fields:
  assumes "parseIntent v n = Some i"
  shows "decimal_text (ri_quantityAtoms i)" "decimal_text (ri_limitAtoms i)"
    "ri_action i = X_approve \<Longrightarrow> ri_claim i = None \<and> ri_deadline i = None \<and> ri_quantityAtoms i = JStr ''0''"
    "ri_action i \<noteq> X_approve \<Longrightarrow> \<exists>s m. ri_claim i = Some (s, m) \<and> 1 \<le> s \<and> s < 2 ^ n \<and> mask_text (js_string m)"
    "ri_action i = X_redeem \<Longrightarrow> ri_deadline i = None \<and> ri_limitAtoms i = JStr ''0''"
    "ri_action i \<in> {X_buy, X_sell} \<Longrightarrow> \<exists>d. ri_deadline i = Some d \<and> 0 < d \<and> d \<le> max_safe"
  using assms
  by (auto simp: parse_defs split: if_splits option.splits exec_action.splits
      elim: is_safe_int.elims)

lemma intent_json_parses:
  assumes "parseIntent v n = Some i"
  shows "parseIntent (intent_json i) n = Some i"
proof -
  note f = parseIntent_fields [OF assms]
  show ?thesis
  proof (cases "ri_action i")
    case X_approve
    then show ?thesis using f(1,2,3) by (auto simp: parseIntent_def Let_def simp del: action_of.simps)
  next
    case X_redeem
    then show ?thesis using f(1,2,4,5) by (auto simp: parseIntent_def Let_def claim_json_ok claim_json_get simp del: action_of.simps)
  next
    case X_buy
    then show ?thesis using f(1,2,4,6) by (auto simp: parseIntent_def Let_def claim_json_ok claim_json_get max_safe_def simp del: action_of.simps)
  next
    case X_sell
    then show ?thesis using f(1,2,4,6) by (auto simp: parseIntent_def Let_def claim_json_ok claim_json_get max_safe_def simp del: action_of.simps)
  qed
qed

section \<open>Evidence\<close>

text \<open>The node shows the transaction, its own receipt, the canonical block of both and one block more.\<close>

definition mined_in :: "chain_node \<Rightarrow> string \<Rightarrow> chain_tx \<Rightarrow> mined_receipt \<Rightarrow> chain_block \<Rightarrow> bool" where
  "mined_in nd hash tx rc b \<longleftrightarrow> nd_transaction nd hash = ok (Some tx) \<and> nd_receipt nd hash = ok (Some rc)
     \<and> nd_block nd (cr_blockNumber rc) = ok (Some b) \<and> lower (cb_hash b) = lower (cr_blockHash rc)
     \<and> lower (ct_hash tx) = hash \<and> lower (cr_transactionHash rc) = hash \<and> hash_or ''null'' (ct_blockHash tx) = lower (cr_blockHash rc)
     \<and> ct_chainId tx = Some 10143 \<and> ct_value tx = Some 0
     \<and> (\<exists>h. nd_head nd = ok (Some h) \<and> cr_blockNumber rc + 1 \<le> cb_number h)"

lemma or_zero_pos: "n \<noteq> 0 \<Longrightarrow> or_zero a = n \<longleftrightarrow> a = Some n"
  by (auto simp: or_zero_def split: option.splits)

lemma mined_inI:
  assumes "nd_transaction nd hash = ok (Some tx)" "nd_receipt nd hash = ok (Some rc)" "belongs hash tx rc"
    "nd_block nd (cr_blockNumber rc) = ok (Some b)" "nd_head nd = ok head" "settled_in rc (Some b) head"
  shows "mined_in nd hash tx rc b"
  using assms by (auto simp: mined_in_def belongs_def settled_in_def hash_or_def or_zero_pos split: option.splits)

lemma plain_result_status [simp]: "xr_status (plain_result s a f) = s" "xr_collateralAtoms (plain_result s a f) = None"
    "xr_facts (plain_result s a f) = f"
  by (simp_all add: plain_result_def)

text \<open>What every settled result rests on.\<close>

definition settled_by :: "pilot_abi \<Rightarrow> (string \<Rightarrow> string) \<Rightarrow> chain_node \<Rightarrow> pilot_manifest \<Rightarrow> wallet_period list \<Rightarrow> string \<Rightarrow> reported_intent
    \<Rightarrow> execution_result \<Rightarrow> chain_tx \<Rightarrow> mined_receipt \<Rightarrow> chain_block \<Rightarrow> pilot_call \<Rightarrow> bool" where
  "settled_by abi sha nd m history hash i r tx rc b c \<longleftrightarrow> mined_in nd hash tx rc b
     \<and> walletAt history (lower (ct_from tx)) (cb_timestamp b)
     \<and> pilotCall abi m (lower_or_empty (ct_to tx)) (lower_or_empty (ct_input tx)) = Some c \<and> call_action c = Some (ri_action i)
     \<and> call_matches m (lower_or_empty (ct_to tx)) i c = ok True \<and> xr_facts r = Some (facts_of sha tx rc b)"

lemma settled_result:
  assumes "verifyExecution abi ra sha nd m history hash i = ok r" and "xr_status r \<in> {''confirmed'', ''reverted''}"
  obtains tx rc b c where "settled_by abi sha nd m history hash i r tx rc b c"
    "xr_status r = ''reverted'' \<longleftrightarrow> cr_status rc \<noteq> 1"
    "cr_status rc = 1 \<Longrightarrow> \<exists>a. (ri_action i = X_approve \<longrightarrow> (\<exists>t. allowance_at ra nd m (lower (ct_from tx)) (cr_blockNumber rc) = ok t \<and> a = Some t))
       \<and> verifyEffect (effect_intent m (lower (ct_from tx)) i) 1 (cr_logs rc) a = ok (Effect_confirmed (xr_collateralAtoms r))"
proof -
  obtain found mined where q: "nd_transaction nd hash = ok found" "nd_receipt nd hash = ok mined"
    using assms by (auto simp: verifyExecution_def split: if_splits)
  then obtain tx rc where tx: "found = Some tx" "mined = Some rc" "belongs hash tx rc"
    using assms by (auto simp: verifyExecution_def split: if_splits option.splits)
  obtain block head where bl: "nd_block nd (cr_blockNumber rc) = ok block" "nd_head nd = ok head" "settled_in rc block head"
    using assms q tx by (auto simp: verifyExecution_def split: if_splits)
  obtain b where b: "block = Some b"
    using assms q tx bl by (auto simp: verifyExecution_def type_error_def split: if_splits option.splits)
  let ?to = "lower_or_empty (ct_to tx)"
  obtain c where w: "walletAt history (lower (ct_from tx)) (cb_timestamp b)"
      and c: "pilotCall abi m ?to (lower_or_empty (ct_input tx)) = Some c" "call_action c = Some (ri_action i)"
      and ma: "call_matches m ?to i c = ok True"
    using assms q tx bl b by (auto simp: verifyExecution_def Let_def split: if_splits option.splits)
  note all = q tx bl b w c ma
  have "mined_in nd hash tx rc b" using mined_inI q tx bl b by simp
  moreover have "xr_facts r = Some (facts_of sha tx rc b) \<and> (xr_status r = ''reverted'' \<longleftrightarrow> cr_status rc \<noteq> 1)
     \<and> (cr_status rc = 1 \<longrightarrow> (\<exists>a. (ri_action i = X_approve \<longrightarrow> (\<exists>t. allowance_at ra nd m (lower (ct_from tx)) (cr_blockNumber rc) = ok t \<and> a = Some t))
       \<and> verifyEffect (effect_intent m (lower (ct_from tx)) i) 1 (cr_logs rc) a = ok (Effect_confirmed (xr_collateralAtoms r))))"
  proof (cases "cr_status rc = 1")
    case True
    then obtain a effect where "ri_action i = X_approve \<longrightarrow> (\<exists>t. allowance_at ra nd m (lower (ct_from tx)) (cr_blockNumber rc) = ok t \<and> a = Some t)"
        and v: "verifyEffect (effect_intent m (lower (ct_from tx)) i) 1 (cr_logs rc) a = ok effect"
        and "(case effect of Effect_confirmed collateral \<Rightarrow> ok \<lparr>xr_status = ''confirmed'', xr_reason = None, xr_collateralAtoms = collateral,
            xr_facts = Some (facts_of sha tx rc b)\<rparr>
          | Effect_mismatch \<Rightarrow> ok (plain_result ''mismatch'' (Some ''effect_missing'') (Some (facts_of sha tx rc b)))) = ok r"
      using assms all by (auto simp: verifyExecution_def Let_def split: if_splits)
    with True assms(2) show ?thesis by (cases effect) auto
  next
    case False
    then have "r = plain_result ''reverted'' None (Some (facts_of sha tx rc b))"
      using assms all by (auto simp: verifyExecution_def Let_def split: if_splits)
    with False show ?thesis by simp
  qed
  ultimately have "settled_by abi sha nd m history hash i r tx rc b c"
      and rest: "xr_status r = ''reverted'' \<longleftrightarrow> cr_status rc \<noteq> 1"
        "cr_status rc = 1 \<Longrightarrow> \<exists>a. (ri_action i = X_approve \<longrightarrow> (\<exists>t. allowance_at ra nd m (lower (ct_from tx)) (cr_blockNumber rc) = ok t \<and> a = Some t))
       \<and> verifyEffect (effect_intent m (lower (ct_from tx)) i) 1 (cr_logs rc) a = ok (Effect_confirmed (xr_collateralAtoms r))"
    using all by (auto simp: settled_by_def)
  then show ?thesis by (rule that)
qed

text \<open>The call an intent stands for: its values as integers.\<close>

definition int_of :: "json \<Rightarrow> int" where
  "int_of v = value_of (big_of v)"

definition intended_call :: "reported_intent \<Rightarrow> string \<Rightarrow> pilot_call" where
  "intended_call i spender = (let q = int_of (ri_quantityAtoms i); l = int_of (ri_limitAtoms i); d = the (ri_deadline i);
       s = fst (the (ri_claim i)); k = int_of (snd (the (ri_claim i))) in
     (case ri_action i of X_approve \<Rightarrow> Approve_cash spender l | X_buy \<Rightarrow> Buy_claim s k q l d
      | X_sell \<Rightarrow> Sell_claim s k q l d | X_redeem \<Rightarrow> Redeem_claim s k q))"

lemma is_big_True [simp]: "is_big n v = ok True \<longleftrightarrow> big_of v = ok n"
  by (auto simp: is_big_def)

lemma big_int_of: "big_of v = ok n \<Longrightarrow> int_of v = n"
  by (simp add: int_of_def)

lemma claim_agrees_True: "claim_agrees m to' i scope mask' quantity = ok True \<longleftrightarrow> to' = pl_pool m
    \<and> (\<exists>ms. ri_claim i = Some (scope, ms) \<and> big_of ms = ok mask') \<and> big_of (ri_quantityAtoms i) = ok quantity"
  by (auto simp: claim_agrees_def type_error_def split: option.splits)

lemma same_terms_True: "same_terms i limit deadline = ok True \<longleftrightarrow> big_of (ri_limitAtoms i) = ok limit \<and> ri_deadline i = Some deadline"
  by (auto simp: same_terms_def type_error_def split: option.splits)

lemma call_matches_intended:
  assumes "call_matches m to' i c = ok True" "call_action c = Some (ri_action i)"
  shows "\<exists>spender. c = intended_call i spender \<and>
    (if ri_action i = X_approve then to' = pilotCash \<and> lower spender = pl_pool m else to' = pl_pool m)"
  using assms
  by (cases c) (auto simp: call_matches_def call_action_def intended_call_def claim_agrees_True same_terms_True big_int_of Let_def
      split: if_splits exec_action.splits)

lemma walletAt_iff: "walletAt history a t \<longleftrightarrow> (\<exists>w\<in>set history. wp_address w = a \<and> wp_from w \<le> t \<and> (\<forall>u. wp_until w = Some u \<longrightarrow> t < u))"
  by (auto simp: walletAt_def list_ex_iff split: option.splits)

text \<open>A confirmed trade or redemption has a log of the pool that shows it.\<close>

lemma confirmed_log:
  assumes "verifyEffect (effect_intent m wallet i) 1 logs a = ok (Effect_confirmed collateral)" "ri_action i \<noteq> X_approve"
  obtains log s ms amount where "log \<in> set logs" "ri_claim i = Some (s, ms)"
    "log_shows (ri_action i) (lower wallet) (lower (pl_pool m)) s (int_of ms) (int_of (ri_quantityAtoms i)) (int_of (ri_limitAtoms i)) log amount"
    "collateral = Some (int_str amount)"
proof -
  obtain limit scope ms k quantity log amount where "big_of_string (js_string (ri_limitAtoms i)) = ok limit"
      "map_option (\<lambda>(s, ms). (s, js_string ms)) (ri_claim i) = Some (scope, ms)" "big_of_string ms = ok k"
      "big_of_string (js_string (ri_quantityAtoms i)) = ok quantity" "log \<in> set logs"
      "log_shows (ri_action i) (lower wallet) (lower (pl_pool m)) scope k quantity limit log amount" "collateral = Some (int_str amount)"
    using verifyEffect_trade [OF assms(1)] assms(2) by (auto simp: effect_intent_def)
  then show ?thesis using that by (auto simp: int_of_def big_of_def)
qed

lemma confirmed_allowance:
  assumes "verifyEffect (effect_intent m wallet i) 1 logs a = ok (Effect_confirmed collateral)" "ri_action i = X_approve"
  shows "\<exists>t. a = Some t \<and> int (str_nat t) \<ge> int_of (ri_limitAtoms i)"
  using assms by (auto simp: verifyEffect_def effect_intent_def int_of_def big_of_def split: option.splits if_splits)

lemma confirmed_effect:
  assumes "verifyExecution abi ra sha nd m history hash i = ok r" and "xr_status r = ''confirmed''"
  obtains tx rc b c a where "settled_by abi sha nd m history hash i r tx rc b c" "cr_status rc = 1"
    "ri_action i = X_approve \<Longrightarrow> allowance_at ra nd m (lower (ct_from tx)) (cr_blockNumber rc) = ok (the a) \<and> a \<noteq> None"
    "verifyEffect (effect_intent m (lower (ct_from tx)) i) 1 (cr_logs rc) a = ok (Effect_confirmed (xr_collateralAtoms r))"
proof (rule settled_result [OF assms(1)])
  show "xr_status r \<in> {''confirmed'', ''reverted''}" using assms(2) by simp
next
  fix tx rc b c
  assume s: "settled_by abi sha nd m history hash i r tx rc b c" and st: "xr_status r = ''reverted'' \<longleftrightarrow> cr_status rc \<noteq> 1"
    and eff: "cr_status rc = 1 \<Longrightarrow> \<exists>a. (ri_action i = X_approve \<longrightarrow> (\<exists>t. allowance_at ra nd m (lower (ct_from tx)) (cr_blockNumber rc) = ok t \<and> a = Some t))
       \<and> verifyEffect (effect_intent m (lower (ct_from tx)) i) 1 (cr_logs rc) a = ok (Effect_confirmed (xr_collateralAtoms r))"
  have status: "cr_status rc = 1" using st assms(2) by simp
  obtain a where "ri_action i = X_approve \<longrightarrow> (\<exists>t. allowance_at ra nd m (lower (ct_from tx)) (cr_blockNumber rc) = ok t \<and> a = Some t)"
      and v: "verifyEffect (effect_intent m (lower (ct_from tx)) i) 1 (cr_logs rc) a = ok (Effect_confirmed (xr_collateralAtoms r))"
    using eff [OF status] by blast
  then have "ri_action i = X_approve \<Longrightarrow> allowance_at ra nd m (lower (ct_from tx)) (cr_blockNumber rc) = ok (the a) \<and> a \<noteq> None" by auto
  then show ?thesis by (rule that [OF s status _ v])
qed

lemma confirmed_amount:
  assumes "verifyExecution abi ra sha nd m history hash i = ok r" "xr_status r = ''confirmed''" "ri_action i = X_buy"
  obtains amount where "xr_collateralAtoms r = Some (int_str amount)" "0 \<le> amount" "amount \<le> int_of (ri_limitAtoms i)"
proof (rule confirmed_effect [OF assms(1,2)])
  fix tx rc b c a
  assume "verifyEffect (effect_intent m (lower (ct_from tx)) i) 1 (cr_logs rc) a = ok (Effect_confirmed (xr_collateralAtoms r))"
  then show ?thesis
    by (rule confirmed_buy_cost) (use assms(3) that in \<open>auto simp: effect_intent_def int_of_def big_of_def\<close>)
qed

section \<open>Properties\<close>

text \<open>C16: A reported execution is confirmed only on the node's own evidence: the transaction of that hash is mined on
  chain 10143, in a block that is still canonical and has another on top; it came from a wallet the agent had at that
  block's time; its calldata is, byte for byte, the call the intent stands for, to the pool or the test cash; its
  receipt succeeded; and for a trade or redemption the pool logged it, for this wallet, claim and quantity and within the
  limit, while for an approval the allowance at that block covers the limit.\<close>

theorem confirmed_execution_evidenced:
  assumes "verifyExecution abi ra sha nd m history hash i = ok r" and "xr_status r = ''confirmed''"
  shows "\<exists>tx rc b. mined_in nd hash tx rc b \<and> cr_status rc = 1
    \<and> (\<exists>w\<in>set history. wp_address w = lower (ct_from tx) \<and> wp_from w \<le> cb_timestamp b \<and> (\<forall>u. wp_until w = Some u \<longrightarrow> cb_timestamp b < u))
    \<and> (\<exists>spender. pilotCall abi m (lower_or_empty (ct_to tx)) (lower_or_empty (ct_input tx)) = Some (intended_call i spender)
         \<and> (if ri_action i = X_approve then lower_or_empty (ct_to tx) = pilotCash \<and> lower spender = pl_pool m
            else lower_or_empty (ct_to tx) = pl_pool m))
    \<and> (if ri_action i = X_approve
       then \<exists>t. allowance_at ra nd m (lower (ct_from tx)) (cr_blockNumber rc) = ok t \<and> int (str_nat t) \<ge> int_of (ri_limitAtoms i)
       else \<exists>log\<in>set (cr_logs rc). \<exists>s ms amount. ri_claim i = Some (s, ms) \<and> xr_collateralAtoms r = Some (int_str amount)
         \<and> log_shows (ri_action i) (lower (ct_from tx)) (lower (pl_pool m)) s (int_of ms) (int_of (ri_quantityAtoms i))
             (int_of (ri_limitAtoms i)) log amount)"
proof (rule confirmed_effect [OF assms])
  fix tx rc b c a
  assume s: "settled_by abi sha nd m history hash i r tx rc b c" and status: "cr_status rc = 1"
    and a: "ri_action i = X_approve \<Longrightarrow> allowance_at ra nd m (lower (ct_from tx)) (cr_blockNumber rc) = ok (the a) \<and> a \<noteq> None"
    and v: "verifyEffect (effect_intent m (lower (ct_from tx)) i) 1 (cr_logs rc) a = ok (Effect_confirmed (xr_collateralAtoms r))"
  have evidence: "if ri_action i = X_approve
       then \<exists>t. allowance_at ra nd m (lower (ct_from tx)) (cr_blockNumber rc) = ok t \<and> int (str_nat t) \<ge> int_of (ri_limitAtoms i)
       else \<exists>log\<in>set (cr_logs rc). \<exists>s ms amount. ri_claim i = Some (s, ms) \<and> xr_collateralAtoms r = Some (int_str amount)
         \<and> log_shows (ri_action i) (lower (ct_from tx)) (lower (pl_pool m)) s (int_of ms) (int_of (ri_quantityAtoms i))
             (int_of (ri_limitAtoms i)) log amount"
  proof (cases "ri_action i = X_approve")
    case True
    then show ?thesis using a [OF True] confirmed_allowance [OF v] by auto
  next
    case False
    show ?thesis by (rule confirmed_log [OF v False]) (use False in auto)
  qed
  have call: "\<exists>spender. pilotCall abi m (lower_or_empty (ct_to tx)) (lower_or_empty (ct_input tx)) = Some (intended_call i spender)
         \<and> (if ri_action i = X_approve then lower_or_empty (ct_to tx) = pilotCash \<and> lower spender = pl_pool m
            else lower_or_empty (ct_to tx) = pl_pool m)"
    using s call_matches_intended [of m "lower_or_empty (ct_to tx)" i c] by (auto simp: settled_by_def)
  show ?thesis using s status evidence call unfolding settled_by_def walletAt_iff by blast
qed

definition demo_hash :: string where
  "demo_hash = ''0x'' @ replicate 64 CHR ''7''"

definition demo_node :: chain_node where
  "demo_node = \<lparr>
     nd_transaction = (\<lambda>h. ok (Some \<lparr>ct_hash = demo_hash, ct_from = ''0x00000000000000000000000000000000000000Aa'',
       ct_to = Some ''0x00000000000000000000000000000000f1c7a0e0'', ct_input = Some ''0xABC'', ct_chainId = Some 10143, ct_value = Some 0,
       ct_blockHash = Some ''0xb''\<rparr>)),
     nd_receipt = (\<lambda>h. ok (Some \<lparr>cr_transactionHash = demo_hash, cr_blockHash = ''0xB'', cr_blockNumber = 50, cr_gasUsed = Some 21000,
       cr_effectiveGasPrice = None, cr_status = 1, cr_logs = [example_log]\<rparr>)),
     nd_block = (\<lambda>n. ok (Some \<lparr>cb_hash = ''0xb'', cb_number = n, cb_timestamp = 900\<rparr>)),
     nd_head = ok (Some \<lparr>cb_hash = ''0xc'', cb_number = 51, cb_timestamp = 901\<rparr>),
     nd_call = (\<lambda>to' data block. ok [])\<rparr>"

definition demo_pool :: pilot_manifest where
  "demo_pool = demo_pilot\<lparr>pl_pool := ''0x00000000000000000000000000000000f1c7a0e0''\<rparr>"

definition demo_calls :: pilot_abi where
  "demo_calls = demo_abi\<lparr>pb_decode := \<lambda>t p d. Some (Buy_claim 5 13 1000000 400000 1000)\<rparr>"

definition demo_reads :: read_abi where
  "demo_reads = \<lparr>rb_encode = (\<lambda>r. ok []), rb_decode = (\<lambda>r s. ok (V_int 0)), rb_aggregate = (\<lambda>cs. ok []), rb_rows = (\<lambda>s. ok [])\<rparr>"

definition demo_intent :: reported_intent where
  "demo_intent = \<lparr>ri_action = X_buy, ri_claim = Some (5, JStr ''13''), ri_quantityAtoms = JStr ''1000000'', ri_limitAtoms = JStr ''400000'',
     ri_deadline = Some 1000\<rparr>"

definition demo_wallets :: "wallet_period list" where
  "demo_wallets = [\<lparr>wp_address = ''0x00000000000000000000000000000000000000aa'', wp_from = 800, wp_until = Some 1000\<rparr>]"

lemmas demo_defs = demo_hash_def demo_node_def demo_pool_def demo_calls_def demo_reads_def demo_intent_def demo_wallets_def
  demo_pilot_def demo_abi_def example_log_def

lemma demo_execution:
  "verifyExecution demo_calls demo_reads id demo_node demo_pool demo_wallets demo_hash demo_intent
    = ok \<lparr>xr_status = ''confirmed'', xr_reason = None, xr_collateralAtoms = Some ''390000'',
        xr_facts = Some \<lparr>xf_blockNumber = 50, xf_blockTimestamp = 900, xf_from = ''0x00000000000000000000000000000000000000aa'',
          xf_gasUsed = 21000, xf_effectiveGasPrice = None,
          xf_digest = ''0x00000000000000000000000000000000000000aa|0x00000000000000000000000000000000f1c7a0e0|0xabc|0x279f|0x0''\<rparr>\<rparr>"
  unfolding demo_defs by code_simp

theorem confirmed_execution_evidenced_witness:
  "\<exists>tx rc b. mined_in demo_node demo_hash tx rc b \<and> cr_status rc = 1"
  using confirmed_execution_evidenced [OF demo_execution] by auto

lemma runtime_of_put [simp]: "runtime_of (st\<lparr>ag_runtime := Some rt\<rparr>) = rt"
  by (simp add: runtime_of_def)

lemma checked_totals:
  assumes "check_execution_change hash (checked r) st profile own = ok (st', own', ())"
    and "find (\<lambda>e. ex_hash e = hash) (ru_executions (runtime_of st)) = Some e" "ex_action e = action"
  shows "ru_totals (runtime_of st') = ru_totals (runtime_of st)
    \<or> (\<exists>status. status \<noteq> ''confirmed'' \<and> ru_totals (runtime_of st') = account_execution (ru_totals (runtime_of st)) action status None)
    \<or> (xr_status r = ''confirmed'' \<and> ru_totals (runtime_of st') =
         account_execution (ru_totals (runtime_of st)) action ''confirmed'' (map_option str_int (xr_collateralAtoms r)))"
proof -
  define status where "status = (if List.member VERIFIED (xr_status r) \<and> owned_by_other own hash (execution_id hash) (vx_digest (checked r))
    then ''attributed-elsewhere'' else xr_status r)"
  have "ru_totals (runtime_of st') = ru_totals (runtime_of st) \<or> ru_totals (runtime_of st') =
      account_execution (ru_totals (runtime_of st)) action status (if status = ''confirmed'' then map_option str_int (xr_collateralAtoms r) else None)"
    using assms by (auto simp: check_execution_change_def Let_def checked_def status_def split: if_splits)
  moreover have "status = ''confirmed'' \<Longrightarrow> xr_status r = ''confirmed''" by (auto simp: status_def split: if_splits)
  ultimately show ?thesis by (cases "status = ''confirmed''") auto
qed

text \<open>C19: What an agent's totals count of a verified purchase is bounded by the report: checking a reported buy adds at
  most one purchase and at most its limit to the cost, and never lowers either.\<close>

theorem counted_buy_within_limit:
  assumes "find (\<lambda>e. ex_hash e = hash) (ru_executions (runtime_of st)) = Some e"
    and "parseIntent (ex_intent e) n = Some i" "ri_action i = X_buy" "ex_action e = ''buy''"
    and "verifyExecution abi ra sha nd m history hash i = ok r"
    and "check_execution_change hash (checked r) st profile own = ok (st', own', ())"
  shows "rt_buys (ru_totals (runtime_of st)) \<le> rt_buys (ru_totals (runtime_of st'))
    \<and> rt_buys (ru_totals (runtime_of st')) \<le> rt_buys (ru_totals (runtime_of st)) + 1
    \<and> rt_buyCostAtoms (ru_totals (runtime_of st)) \<le> rt_buyCostAtoms (ru_totals (runtime_of st'))
    \<and> rt_buyCostAtoms (ru_totals (runtime_of st')) \<le> rt_buyCostAtoms (ru_totals (runtime_of st)) + int_of (ri_limitAtoms i)"
proof -
  obtain l where l: "big_of (ri_limitAtoms i) = ok l" "0 \<le> l"
    using decimal_text_big [OF parseIntent_fields(2) [OF assms(2)]] by blast
  let ?t = "ru_totals (runtime_of st)" and ?t' = "ru_totals (runtime_of st')"
  have "?t' = ?t \<or> (\<exists>status. status \<noteq> ''confirmed'' \<and> ?t' = account_execution ?t ''buy'' status None)
      \<or> (xr_status r = ''confirmed'' \<and> ?t' = account_execution ?t ''buy'' ''confirmed'' (map_option str_int (xr_collateralAtoms r)))"
    using checked_totals [OF assms(6,1,4)] .
  then consider "?t' = ?t" | status where "status \<noteq> ''confirmed''" "?t' = account_execution ?t ''buy'' status None"
    | "xr_status r = ''confirmed''" "?t' = account_execution ?t ''buy'' ''confirmed'' (map_option str_int (xr_collateralAtoms r))"
    by blast
  then show ?thesis
  proof cases
    case 3
    obtain amount where "xr_collateralAtoms r = Some (int_str amount)" "0 \<le> amount" "amount \<le> int_of (ri_limitAtoms i)"
      using confirmed_amount [OF assms(5) 3(1) assms(3)] .
    then show ?thesis using 3(2) by (simp add: account_execution_def amount_of_def)
  qed (use l in \<open>auto simp: account_execution_def int_of_def\<close>)
qed

definition demo_reported :: agent_state where
  "demo_reported = emptyState\<lparr>ag_runtime := Some (emptyRuntime\<lparr>ru_executions := [\<lparr>ex_hash = demo_hash, ex_namespace = ''pilot'',
     ex_action = ''buy'', ex_intent = intent_json demo_intent, ex_status = ''pending'', ex_collateralAtoms = None\<rparr>]\<rparr>)\<rparr>"

definition demo_owner :: ownership where
  "demo_owner = \<lparr>on_key = (''o'', ''a''), on_found = Map.empty, on_claims = []\<rparr>"

definition demo_profile :: agent_profile where
  "demo_profile = \<lparr>pf_id = ''a'', pf_status = ''active'', pf_archivedAt = None, pf_updatedAt = 0, pf_wallet = None, pf_walletHistory = []\<rparr>"

lemma demo_parsed: "parseIntent (intent_json demo_intent) 3 = Some demo_intent"
  unfolding demo_intent_def by code_simp

theorem counted_buy_within_limit_witness:
  "\<exists>st' own'. check_execution_change demo_hash (checked \<lparr>xr_status = ''confirmed'', xr_reason = None, xr_collateralAtoms = Some ''390000'',
      xr_facts = Some \<lparr>xf_blockNumber = 50, xf_blockTimestamp = 900, xf_from = ''0x00000000000000000000000000000000000000aa'',
        xf_gasUsed = 21000, xf_effectiveGasPrice = None,
        xf_digest = ''0x00000000000000000000000000000000000000aa|0x00000000000000000000000000000000f1c7a0e0|0xabc|0x279f|0x0''\<rparr>\<rparr>)
      demo_reported demo_profile demo_owner = ok (st', own', ())
    \<and> rt_buyCostAtoms (ru_totals (runtime_of st')) \<le> rt_buyCostAtoms (ru_totals (runtime_of demo_reported)) + int_of (ri_limitAtoms demo_intent)"
    (is "\<exists>st' own'. check_execution_change demo_hash (checked ?r) _ _ _ = _ \<and> _")
proof -
  have "find (\<lambda>e. ex_hash e = demo_hash) (ru_executions (runtime_of demo_reported)) = Some \<lparr>ex_hash = demo_hash, ex_namespace = ''pilot'',
     ex_action = ''buy'', ex_intent = intent_json demo_intent, ex_status = ''pending'', ex_collateralAtoms = None\<rparr>"
    by (simp add: demo_reported_def)
  moreover have "\<exists>st' own'. check_execution_change demo_hash (checked ?r) demo_reported demo_profile demo_owner = ok (st', own', ())"
    by (auto simp: check_execution_change_def demo_reported_def Let_def)
  ultimately show ?thesis
    using counted_buy_within_limit [OF _ _ _ _ demo_execution, of demo_reported _ 3] demo_parsed by (fastforce simp: demo_intent_def)
qed

text \<open>An accepted report is stored as it was read: parsing the stored copy gives the same intent back, and all its
  amounts are integers \<open>BigInt\<close> reads, in range.\<close>

theorem stored_intent_reads_back:
  assumes "parseIntent v n = Some i"
  shows "parseIntent (intent_json i) n = Some i
    \<and> (\<exists>q l. big_of (ri_quantityAtoms i) = ok q \<and> big_of (ri_limitAtoms i) = ok l \<and> 0 \<le> q \<and> q < 10 ^ 78 \<and> 0 \<le> l \<and> l < 10 ^ 78)
    \<and> (\<forall>s ms. ri_claim i = Some (s, ms) \<longrightarrow> 1 \<le> s \<and> s < 2 ^ n \<and> (\<exists>k. big_of ms = ok k \<and> 0 < k \<and> k < 1000))"
proof -
  note f = parseIntent_fields [OF assms]
  obtain q l where "big_of (ri_quantityAtoms i) = ok q" "0 \<le> q" "q < 10 ^ 78" "big_of (ri_limitAtoms i) = ok l" "0 \<le> l" "l < 10 ^ 78"
    using decimal_text_big [OF f(1)] decimal_text_big [OF f(2)] by metis
  moreover have "1 \<le> s \<and> s < 2 ^ n \<and> (\<exists>k. big_of ms = ok k \<and> 0 < k \<and> k < 1000)" if "ri_claim i = Some (s, ms)" for s ms
    using f(3,4) that mask_text_big [of ms] by (cases "ri_action i = X_approve") auto
  moreover have "parseIntent (intent_json i) n = Some i"
    using intent_json_parses [OF assms] .
  ultimately show ?thesis by blast
qed

theorem stored_intent_reads_back_witness: "parseIntent (intent_json demo_intent) 3 = Some demo_intent"
  using stored_intent_reads_back [OF demo_parsed] by blast

text \<open>A report may send the decimal strings as numbers or as lists of one; both pass and are stored as they came.\<close>

lemma listed_quantity_accepted:
  "parseIntent (JObj [(''action'', JStr ''redeem''), (''claim'', JObj [(''scope'', JInt 1), (''mask'', JInt 2)]),
      (''quantityAtoms'', JArr [JStr ''5'']), (''limitAtoms'', JStr ''0''), (''deadline'', JNull)]) 2
    = Some \<lparr>ri_action = X_redeem, ri_claim = Some (1, JInt 2), ri_quantityAtoms = JArr [JStr ''5''], ri_limitAtoms = JStr ''0'', ri_deadline = None\<rparr>"
  by code_simp

end
