(* ===== verification/Agent_Market.thy ===== *)
theory Agent_Market
  imports Execution_Laws
begin

text \<open>
  Quotes and receipts for agents (apps/web/server/agents/agent-market.mjs): quotes are the pool's own, read in one
  aggregated call at a pinned block; a proposed transaction counts only as the reviewed one, mined and on top of
  the canonical chain. The service's snapshot and the decoding of events are parameters.
\<close>

section \<open>Quotes\<close>

record pool_snapshot =
  sn_blockNumber :: int
  sn_blockHash :: string
  sn_timestamp :: int

datatype quote_side = Side_buy | Side_sell

record agent_quote =
  aq_pool :: string
  aq_claim :: "int \<times> int"
  aq_side :: quote_side
  aq_quantityAtoms :: int
  aq_amountAtoms :: int
  aq_snapshot :: pool_snapshot
  aq_expiresAt :: int

datatype quote_answer = Quoted agent_quote | Unavailable string

definition QUOTE_TTL_SECONDS :: int where
  "QUOTE_TTL_SECONDS = 60"

definition MAX_QUOTES :: nat where
  "MAX_QUOTES = 24"

definition quote_read :: "quote_side \<Rightarrow> int \<Rightarrow> int \<times> int \<Rightarrow> contract_read" where
  "quote_read side quantity c = (case side of Side_buy \<Rightarrow> Quote_buy (fst c) (snd c) quantity | Side_sell \<Rightarrow> Quote_sell (fst c) (snd c) quantity)"

text \<open>One row of the answer; only a bigint is a usable amount, and a purchase costs something but no more than it pays.\<close>

definition usable_amount :: "quote_side \<Rightarrow> int \<Rightarrow> view_value \<Rightarrow> int option" where
  "usable_amount side quantity v = (case v of
     V_int a \<Rightarrow> if side = Side_buy \<and> (a \<le> 0 \<or> a > quantity) then None else Some a
   | _ \<Rightarrow> None)"

definition quote_row :: "read_abi \<Rightarrow> string \<Rightarrow> quote_side \<Rightarrow> int \<Rightarrow> pool_snapshot \<Rightarrow> (int \<times> int) \<times> (bool \<times> string) \<Rightarrow> quote_answer res" where
  "quote_row ra pool side quantity s row = (case row of (c, success, returned) \<Rightarrow>
     if \<not> success then ok (Unavailable ''quote_unavailable'')
     else bindE (rb_decode ra (quote_read side quantity c) returned) (\<lambda>v. case usable_amount side quantity v of
       None \<Rightarrow> ok (Unavailable ''quote_unavailable'')
     | Some a \<Rightarrow> ok (Quoted \<lparr>aq_pool = pool, aq_claim = c, aq_side = side, aq_quantityAtoms = quantity, aq_amountAtoms = a,
         aq_snapshot = s, aq_expiresAt = sn_timestamp s + QUOTE_TTL_SECONDS\<rparr>)))"

definition quoteClaims ::
    "read_abi \<Rightarrow> chain_node \<Rightarrow> string \<Rightarrow> int \<Rightarrow> pool_snapshot res \<Rightarrow> (int \<times> int) list \<Rightarrow> int \<Rightarrow> quote_side \<Rightarrow> quote_answer list res" where
  "quoteClaims ra nd pool closesAt snapshot claims quantity side =
     (if length claims < 1 \<or> length claims > MAX_QUOTES then plain_error
      else bindE snapshot (\<lambda>s. let closed = map (\<lambda>c. Unavailable ''market_closed'') claims in
        if sn_timestamp s \<ge> closesAt then ok closed
        else bindE (rb_encode ra Resolved) (\<lambda>first. bindE (mapE (\<lambda>c. rb_encode ra (quote_read side quantity c)) claims) (\<lambda>rest.
          bindE (aggregate3 ra nd (Some (sn_blockNumber s)) ((pool, False, first) # map (\<lambda>d. (pool, True, d)) rest)) (\<lambda>rows.
            case rows of
              [] \<Rightarrow> plain_error
            | r # rs \<Rightarrow>
                if length rows \<noteq> Suc (length claims) \<or> \<not> fst r then plain_error
                else bindE (nd_block nd (sn_blockNumber s)) (\<lambda>block.
                  if map_option (lower \<circ> cb_hash) block \<noteq> Some (sn_blockHash s) then plain_error
                  else bindE (rb_decode ra Resolved (snd r)) (\<lambda>resolved.
                    if resolved = V_bool True then ok closed
                    else mapE (quote_row ra pool side quantity s) (zip claims rs))))))))"

section \<open>Receipts\<close>

text \<open>viem's \<open>decodeEventLog\<close>: the side and the arguments of a \<open>Traded\<close> event; anything else is ignored.\<close>

type_synonym trade_decoder = "chain_log \<Rightarrow> (bool \<times> pool_trade) option"

text \<open>The loop over the logs keeps the last matching event.\<close>

definition paid_by :: "trade_decoder \<Rightarrow> string \<Rightarrow> string \<Rightarrow> chain_log \<Rightarrow> int option" where
  "paid_by decode pool wallet log = (if lower (lg_address log) \<noteq> pool then None
     else case decode log of
       Some (isBuy, t) \<Rightarrow> if lower (ev_who t) = lower wallet \<and> isBuy then Some (ev_collateral t) else None
     | None \<Rightarrow> None)"

definition paidAtoms :: "trade_decoder \<Rightarrow> string \<Rightarrow> string \<Rightarrow> chain_log list \<Rightarrow> int option" where
  "paidAtoms decode pool wallet logs = foldl (\<lambda>p log. case paid_by decode pool wallet log of Some a \<Rightarrow> Some a | None \<Rightarrow> p) None logs"

text \<open>The transaction is the reviewed one: every field is compared before the value is read.\<close>

definition is_reviewed :: "string \<Rightarrow> reviewed_tx \<Rightarrow> chain_tx \<Rightarrow> bool res" where
  "is_reviewed hash w tx =
     (if lower (ct_hash tx) \<noteq> hash \<or> (ct_chainId tx \<noteq> None \<and> ct_chainId tx \<noteq> Some 10143) \<or> lower (ct_from tx) \<noteq> lower (rx_from w)
        \<or> map_option lower (ct_to tx) \<noteq> Some (lower (rx_to w)) \<or> map_option lower (ct_input tx) \<noteq> Some (lower (rx_data w)) then ok False
      else case ct_value tx of None \<Rightarrow> type_error | Some v \<Rightarrow> ok (v = 0))"

definition no_check :: "string \<Rightarrow> receipt_check" where
  "no_check status = \<lparr>vr_status = status, vr_blockNumber = None, vr_paidAtoms = None\<rparr>"

definition verifyReceipt ::
    "pilot_abi \<Rightarrow> trade_decoder \<Rightarrow> chain_node \<Rightarrow> pilot_manifest \<Rightarrow> reviewed_tx \<Rightarrow> string \<Rightarrow> receipt_check res" where
  "verifyReceipt abi decode nd m w hash =
     (if \<not> is_0x_lhex 64 hash then plain_error
      else bindE (nd_transaction nd hash) (\<lambda>found. bindE (nd_receipt nd hash) (\<lambda>mined.
        case found of None \<Rightarrow> ok (no_check ''unknown'') | Some tx \<Rightarrow>
        bindE (is_reviewed hash w tx) (\<lambda>reviewed.
          if \<not> reviewed then ok (no_check ''mismatch'')
          else if pilotCall abi m (rx_to w) (rx_data w) = None then ok (no_check ''mismatch'')
          else case mined of None \<Rightarrow> ok (no_check ''pending'') | Some rc \<Rightarrow>
          if lower (cr_transactionHash rc) \<noteq> hash \<or> map_option lower (ct_blockHash tx) \<noteq> Some (lower (cr_blockHash rc))
            then ok (no_check ''mismatch'')
          else bindE (nd_block nd (cr_blockNumber rc)) (\<lambda>block. bindE (nd_head nd) (\<lambda>head.
            if map_option (lower \<circ> cb_hash) block \<noteq> Some (lower (cr_blockHash rc))
               \<or> (case head of None \<Rightarrow> True | Some h \<Rightarrow> cb_number h < cr_blockNumber rc + 1) then ok (no_check ''confirming'')
            else ok \<lparr>vr_status = (if cr_status rc = 1 then ''confirmed'' else ''reverted''), vr_blockNumber = Some (cr_blockNumber rc),
              vr_paidAtoms = (if cr_status rc = 1 then paidAtoms decode (pl_pool m) (rx_from w) (cr_logs rc) else None)\<rparr>))))))"

section \<open>Resolution\<close>

definition read_int :: "view_value res \<Rightarrow> int res" where
  "read_int r = bindE r (\<lambda>v. case v of V_int i \<Rightarrow> ok i | _ \<Rightarrow> type_error)"

definition readResolution :: "read_abi \<Rightarrow> chain_node \<Rightarrow> string \<Rightarrow> (int \<times> int) option res" where
  "readResolution ra nd pool = bindE (read_at ra nd None pool Resolved) (\<lambda>resolved.
     if resolved \<noteq> V_bool True then ok None
     else bindE (read_int (read_at ra nd None pool Resolved_state)) (\<lambda>yes.
       bindE (read_int (read_at ra nd None pool Void_mask)) (\<lambda>void. ok (Some (yes, void)))))"

section \<open>Lemmas\<close>

lemma paid_by_SomeD:
  "paid_by decode pool wallet log = Some a \<Longrightarrow> lower (lg_address log) = pool \<and> (\<exists>t. decode log = Some (True, t) \<and> lower (ev_who t) = lower wallet \<and> ev_collateral t = a)"
  by (auto simp: paid_by_def split: if_splits option.splits prod.splits)

lemma paidAtoms_snoc [simp]:
  "paidAtoms decode pool wallet (logs @ [log]) = (case paid_by decode pool wallet log of Some a \<Rightarrow> Some a | None \<Rightarrow> paidAtoms decode pool wallet logs)"
  by (simp add: paidAtoms_def split: option.splits)

lemma paidAtoms_Nil [simp]: "paidAtoms decode pool wallet [] = None"
  by (simp add: paidAtoms_def)

text \<open>The last purchase of the wallet in the receipt, or none at all.\<close>

lemma paidAtoms_last:
  "(case paidAtoms decode pool wallet logs of
     None \<Rightarrow> \<forall>log\<in>set logs. paid_by decode pool wallet log = None
   | Some a \<Rightarrow> \<exists>before log after. logs = before @ log # after \<and> paid_by decode pool wallet log = Some a
       \<and> (\<forall>l\<in>set after. paid_by decode pool wallet l = None))"
proof (induction logs rule: rev_induct)
  case Nil
  then show ?case by simp
next
  case (snoc log logs)
  show ?case
  proof (cases "paid_by decode pool wallet log")
    case None
    then show ?thesis using snoc by (cases "paidAtoms decode pool wallet logs") fastforce+
  next
    case (Some a)
    then show ?thesis by fastforce
  qed
qed

lemma quoted_row:
  assumes honest: "multicall_honest ra nd block answers" and first: "rb_encode ra Resolved = ok first"
    and rest: "mapE (\<lambda>c. rb_encode ra (quote_read side quantity c)) claims = ok rest"
    and rows: "aggregate3 ra nd block ((pool, False, first) # map (\<lambda>d. (pool, True, d)) rest) = ok rows"
    and r: "rows = r # rs" "length rows = Suc (length claims)" "fst r"
    and qs: "mapE (quote_row ra pool side quantity s) (zip claims rs) = ok qs" and q: "Quoted q \<in> set qs"
  shows "length qs = length claims \<and> aq_claim q \<in> set claims \<and> aq_side q = side \<and> aq_quantityAtoms q = quantity \<and> aq_snapshot q = s
    \<and> aq_expiresAt q = sn_timestamp s + 60 \<and> answers pool first = Some (snd r)
    \<and> (side = Side_buy \<longrightarrow> 0 < aq_amountAtoms q \<and> aq_amountAtoms q \<le> quantity)
    \<and> (\<exists>data raw. rb_encode ra (quote_read side quantity (aq_claim q)) = ok data \<and> answers pool data = Some raw
         \<and> rb_decode ra (quote_read side quantity (aq_claim q)) raw = ok (V_int (aq_amountAtoms q)))"
proof -
  let ?calls = "(pool, False, first) # map (\<lambda>d. (pool, True, d)) rest"
  have len: "length rest = length claims" "length rs = length claims" "length qs = length claims"
    using mapE_length [OF rest] r(1,2) mapE_length [OF qs] by simp_all
  obtain j where j: "j < length claims" "qs ! j = Quoted q" using q len by (metis in_set_conv_nth)
  have row: "quote_row ra pool side quantity s (claims ! j, rs ! j) = ok (Quoted q)"
    using qs j len by (auto simp: mapE_Inr_iff list_all2_conv_all_nth)
  have enc: "rb_encode ra (quote_read side quantity (claims ! j)) = ok (rest ! j)"
    using rest j len by (auto simp: mapE_Inr_iff list_all2_conv_all_nth)
  obtain returned where success: "rs ! j = (True, returned)" using row by (cases "rs ! j") (auto simp: quote_row_def split: if_splits)
  have "answers pool (rest ! j) = Some returned"
    by (rule honest_row [OF honest rows, of "Suc j"]) (use j len success r(1) in auto)
  moreover have "answers pool first = Some (snd r)"
    by (rule honest_row [OF honest rows, of 0]) (use r in \<open>auto simp: prod_eq_iff\<close>)
  moreover have "aq_claim q = claims ! j \<and> aq_side q = side \<and> aq_quantityAtoms q = quantity \<and> aq_snapshot q = s \<and> aq_expiresAt q = sn_timestamp s + 60
      \<and> rb_decode ra (quote_read side quantity (claims ! j)) returned = ok (V_int (aq_amountAtoms q))
      \<and> (side = Side_buy \<longrightarrow> 0 < aq_amountAtoms q \<and> aq_amountAtoms q \<le> quantity)"
    using row success by (auto simp: quote_row_def usable_amount_def QUOTE_TTL_SECONDS_def split: option.splits view_value.splits if_splits)
  ultimately show ?thesis using enc len(3) j(1) by auto
qed

section \<open>Properties\<close>


definition demo_review :: reviewed_tx where
  "demo_review = \<lparr>rx_from = ''0x00000000000000000000000000000000000000aa'', rx_to = ''0x00000000000000000000000000000000f1c7a0e0'',
     rx_data = ''0xabc'', rx_chainId = ''0x279f'', rx_value = ''0x0''\<rparr>"

definition demo_decoder :: trade_decoder where
  "demo_decoder log = (case decodePoolLog log of Some (Ev_Traded isBuy t) \<Rightarrow> Some (isBuy, t) | _ \<Rightarrow> None)"

lemma demo_receipt: "verifyReceipt demo_calls demo_decoder demo_node demo_pool demo_review demo_hash
    = ok \<lparr>vr_status = ''confirmed'', vr_blockNumber = Some 50, vr_paidAtoms = Some 390000\<rparr>"
  unfolding demo_defs demo_review_def by code_simp


text \<open>The claim of the logged purchase is not compared with the reviewed one.\<close>

lemma any_claim_is_paid:
  assumes "decode log = Some (True, t)" "lower (ev_who t) = lower wallet" "lower (lg_address log) = pool"
  shows "paidAtoms decode pool wallet (logs @ [log]) = Some (ev_collateral t)"
  using assms by (simp add: paid_by_def)

text \<open>Every quote answers the claim at its place: under Multicall3's documented behaviour its amount is what the pool
  itself returned for exactly that claim, side and quantity at the snapshot's block, while the pool was unresolved
  there and trading open; the block is still canonical, the quote lives a minute from it, and a purchase costs something
  but never more than it can pay.\<close>

theorem quotes_are_the_pools:
  assumes "quoteClaims ra nd pool closesAt (ok s) claims quantity side = ok qs" and "Quoted q \<in> set qs"
    and "multicall_honest ra nd (Some (sn_blockNumber s)) answers"
  shows "length qs = length claims \<and> aq_claim q \<in> set claims
    \<and> aq_side q = side \<and> aq_quantityAtoms q = quantity \<and> aq_snapshot q = s \<and> aq_expiresAt q = sn_timestamp s + 60 \<and> sn_timestamp s < closesAt
    \<and> (\<exists>data raw. rb_encode ra (quote_read side quantity (aq_claim q)) = ok data \<and> answers pool data = Some raw
         \<and> rb_decode ra (quote_read side quantity (aq_claim q)) raw = ok (V_int (aq_amountAtoms q)))
    \<and> (\<exists>data raw v. rb_encode ra Resolved = ok data \<and> answers pool data = Some raw \<and> rb_decode ra Resolved raw = ok v \<and> v \<noteq> V_bool True)
    \<and> (\<exists>b. nd_block nd (sn_blockNumber s) = ok (Some b) \<and> lower (cb_hash b) = sn_blockHash s)
    \<and> (side = Side_buy \<longrightarrow> 0 < aq_amountAtoms q \<and> aq_amountAtoms q \<le> quantity)"
proof -
  have opened: "sn_timestamp s < closesAt"
    using assms(1,2) by (force simp: quoteClaims_def Let_def split: if_splits)
  obtain first rest rows where enc: "rb_encode ra Resolved = ok first" "mapE (\<lambda>c. rb_encode ra (quote_read side quantity c)) claims = ok rest"
      and rows: "aggregate3 ra nd (Some (sn_blockNumber s)) ((pool, False, first) # map (\<lambda>d. (pool, True, d)) rest) = ok rows"
    using assms(1) opened by (auto simp: quoteClaims_def Let_def split: if_splits)
  obtain r rs where r: "rows = r # rs" "length rows = Suc (length claims)" "fst r"
    using assms(1) opened enc rows by (cases rows) (auto simp: quoteClaims_def Let_def split: if_splits)
  obtain block resolved where b: "nd_block nd (sn_blockNumber s) = ok block" "map_option (lower \<circ> cb_hash) block = Some (sn_blockHash s)"
      and res: "rb_decode ra Resolved (snd r) = ok resolved"
    using assms(1) opened enc rows r by (auto simp: quoteClaims_def Let_def split: if_splits)
  have "resolved \<noteq> V_bool True"
    using assms(1,2) opened enc rows r b res by (auto simp: quoteClaims_def Let_def split: if_splits)
  moreover from this have qs: "mapE (quote_row ra pool side quantity s) (zip claims rs) = ok qs"
    using assms(1) opened enc rows r b res by (auto simp: quoteClaims_def Let_def split: if_splits)
  ultimately show ?thesis using quoted_row [OF assms(3) enc rows r(1,2,3) qs assms(2)] opened b res r enc(1) by fastforce
qed

text \<open>A node whose every contract answers the same word, and its codec.\<close>

definition demo_multicall :: chain_node where
  "demo_multicall = demo_node\<lparr>nd_call := \<lambda>to' data block. ok data\<rparr>"

definition demo_codec :: read_abi where
  "demo_codec = \<lparr>rb_encode = (\<lambda>r. ok ''d''), rb_decode = (\<lambda>r s. ok (if r = Resolved then V_bool False else V_int 390000)),
     rb_aggregate = (\<lambda>cs. ok (replicate (length cs) CHR ''c'')), rb_rows = (\<lambda>s. ok (replicate (length s) (True, ''1'')))\<rparr>"

lemma demo_honest: "multicall_honest demo_codec demo_multicall block (\<lambda>target data. Some ''1'')"
  by (auto simp: multicall_honest_def aggregate3_def demo_codec_def demo_multicall_def list_all2_conv_all_nth)

definition demo_snapshot :: pool_snapshot where
  "demo_snapshot = \<lparr>sn_blockNumber = 50, sn_blockHash = ''0xb'', sn_timestamp = 900\<rparr>"

definition demo_quote :: agent_quote where
  "demo_quote = \<lparr>aq_pool = ''0xpool'', aq_claim = (5, 13), aq_side = Side_buy, aq_quantityAtoms = 1000000, aq_amountAtoms = 390000,
     aq_snapshot = demo_snapshot, aq_expiresAt = 960\<rparr>"

lemma demo_quoted: "quoteClaims demo_codec demo_multicall ''0xpool'' 2000 (ok demo_snapshot) [(5, 13)] 1000000 Side_buy = ok [Quoted demo_quote]"
  unfolding demo_codec_def demo_multicall_def demo_snapshot_def demo_quote_def demo_node_def by code_simp

theorem quotes_are_the_pools_witness: "0 < aq_amountAtoms demo_quote \<and> aq_amountAtoms demo_quote \<le> 1000000 \<and> sn_timestamp demo_snapshot < 2000"
  using quotes_are_the_pools [OF demo_quoted _ demo_honest, of demo_quote] by simp

end
