(* ===== verification/Proposer_Guard.thy ===== *)
theory Proposer_Guard
  imports Chain_Node
begin

text \<open>
  The proposer's holdings guard (apps/web/server/proposer-guard.mjs): an automated proposer must hold no position in
  the pool it proposes for. Every share of every traded scope and every wrapped token is read at one block, in chunks
  of 250 aggregated calls. Node and codecs are the parameters of \<open>Chain_Node\<close>.
\<close>

section \<open>Masks\<close>

text \<open>\<open>for (let s = scope; s; s &= s - 1) size++\<close>, on the contract's uint32.\<close>

lemma clear_lowest_less: "s \<noteq> 0 \<Longrightarrow> unat (s AND (s - 1)) < unat (s :: 'a::len word)"
proof -
  assume s: "s \<noteq> 0"
  have "unat (s AND (s - 1)) \<le> unat (s - 1)" unfolding word_le_nat_alt [symmetric] by (simp add: word_and_le1)
  also have "unat (s - 1) = unat s - 1" using s by (rule unat_minus_one)
  also have "unat s - 1 < unat s" using s by (simp add: unat_gt_0)
  finally show ?thesis .
qed

function scope_size :: "32 word \<Rightarrow> nat" where
  "scope_size s = (if s = 0 then 0 else Suc (scope_size (s AND (s - 1))))"
  by pat_completeness auto
termination by (relation "measure unat") (auto intro: clear_lowest_less)

declare scope_size.simps [simp del]

text \<open>It counts the questions of the scope.\<close>

lemma ones_0 [simp]: "ones 0 = 0"
  by (subst ones.simps) simp

lemma ones_clear_lowest: "0 < n \<Longrightarrow> Suc (ones (n AND (n - 1))) = ones n"
proof (induction n rule: less_induct)
  case (less n)
  have rec: "n AND (n - 1) = of_bool (odd n \<and> odd (n - 1)) + 2 * (n div 2 AND ((n - 1) div 2))" by (rule and_rec)
  show ?case
  proof (cases "odd n")
    case True
    then have "n AND (n - 1) = 2 * (n div 2)" using rec by (auto elim!: oddE)
    then show ?thesis using True by (subst (1 2) ones.simps) (auto elim!: oddE)
  next
    case False
    then obtain m where m: "n = 2 * m" "0 < m" using less.prems by auto
    have "(2 * m - 1) div 2 = m - 1" using m(2) by presburger
    then have "n AND (n - 1) = 2 * (m AND (m - 1))" using rec m(1) by simp
    moreover have "Suc (ones (m AND (m - 1))) = ones m" using less.IH [of m] m by simp
    moreover have "ones (2 * k) = ones k" for k by (subst ones.simps) simp
    ultimately show ?thesis using m(1) by simp
  qed
qed

lemma scope_size_popcount: "scope_size s = popcount (uint s)"
proof -
  have "scope_size s = ones (unat s)"
  proof (induction s rule: scope_size.induct)
    case (1 s)
    show ?case
    proof (cases "s = 0")
      case True
      have "scope_size 0 = 0" by (subst scope_size.simps) simp
      then show ?thesis using True by simp
    next
      case False
      then have "unat (s AND (s - 1)) = unat s AND (unat s - 1)" by (simp only: unsigned_and_eq unat_minus_one [OF False])
      then have "Suc (scope_size (s AND (s - 1))) = ones (unat s)"
        using 1 [OF False] ones_clear_lowest [of "unat s"] unat_gt_0 [of s] False by (simp only: not_False_eq_True)
      moreover have "scope_size s = Suc (scope_size (s AND (s - 1)))" using False by (subst scope_size.simps) simp
      ultimately show ?thesis by simp
    qed
  qed
  moreover have "popcount (uint s) = ones (unat s)" by (simp add: popcount_def)
  ultimately show ?thesis by (simp only:)
qed

definition claimMasks :: "32 word \<Rightarrow> int list res" where
  "claimMasks scope = (let size = scope_size scope in
     if size < 1 \<or> size > 3 then plain_error
     else let limit = 2 ^ (2 ^ size) - 1 in ok (map (\<lambda>i. int i + 1) [0..<nat (limit - 1)]))"

section \<open>Holdings\<close>

definition CHUNK :: nat where
  "CHUNK = 250"

definition ZERO :: string where
  "ZERO = ''0x'' @ replicate 40 CHR ''0''"

text \<open>A call with its encoded data; none may fail.\<close>

type_synonym encoded_call = "string \<times> contract_read \<times> string"

definition guard_call :: "read_abi \<Rightarrow> string \<Rightarrow> contract_read \<Rightarrow> encoded_call res" where
  "guard_call ra target r = bindE (rb_encode ra r) (\<lambda>data. ok (target, r, data))"

definition aggregate_part :: "read_abi \<Rightarrow> chain_node \<Rightarrow> int option \<Rightarrow> encoded_call list \<Rightarrow> view_value list res" where
  "aggregate_part ra nd block part =
     bindE (aggregate3 ra nd block (map (\<lambda>(target, r, data). (target, False, data)) part)) (\<lambda>rows.
       if length rows \<noteq> length part \<or> list_ex (\<lambda>row. \<not> fst row) rows then plain_error
       else mapE (\<lambda>((target, r, data), row). rb_decode ra r (snd row)) (zip part rows))"

function aggregate :: "read_abi \<Rightarrow> chain_node \<Rightarrow> int option \<Rightarrow> encoded_call list \<Rightarrow> view_value list res" where
  "aggregate ra nd block calls = (if calls = [] then ok []
     else bindE (aggregate_part ra nd block (take CHUNK calls)) (\<lambda>out.
       bindE (aggregate ra nd block (drop CHUNK calls)) (\<lambda>rest. ok (out @ rest))))"
  by pat_completeness auto
termination by (relation "measure (\<lambda>(ra, nd, block, calls). length calls)") (auto simp: CHUNK_def)

declare aggregate.simps [simp del]

definition aggregate_reads :: "read_abi \<Rightarrow> chain_node \<Rightarrow> int option \<Rightarrow> (string \<times> contract_read) list \<Rightarrow> view_value list res" where
  "aggregate_reads ra nd block reads = bindE (mapE (\<lambda>(target, r). guard_call ra target r) reads) (aggregate ra nd block)"

text \<open>\<open>[...new Set(xs)]\<close>: the first of each.\<close>

fun distinct_firsts :: "'a list \<Rightarrow> 'a list" where
  "distinct_firsts [] = []"
| "distinct_firsts (x # xs) = x # filter (\<lambda>y. y \<noteq> x) (distinct_firsts xs)"

record wrapped_token =
  wt_event :: nat
  wt_mask :: int
  wt_token :: string

record holdings =
  ho_clear :: bool
  ho_blockNumber :: int
  ho_checkedClaims :: nat
  ho_checkedTokens :: nat
  ho_positions :: "((32 word \<times> int) \<times> int) list"
  ho_wrapped :: "(wrapped_token \<times> int) list"

definition int_values :: "view_value list \<Rightarrow> int list res" where
  "int_values vs = mapE (\<lambda>v. case v of V_int i \<Rightarrow> ok i | _ \<Rightarrow> type_error) vs"

definition text_values :: "view_value list \<Rightarrow> string list res" where
  "text_values vs = mapE (\<lambda>v. case v of V_text s \<Rightarrow> ok s | _ \<Rightarrow> type_error) vs"

definition factor_scopes :: "view_value list \<Rightarrow> 32 word list res" where
  "factor_scopes vs = (case vs of [V_scopes fs] \<Rightarrow> ok fs | _ \<Rightarrow> type_error)"

definition bases :: "nat \<Rightarrow> (nat \<times> int) list" where
  "bases events = concat (map (\<lambda>i. [(i, 2), (i, 1)]) [0..<events])"

definition scope_claims :: "32 word list \<Rightarrow> (32 word \<times> int) list res" where
  "scope_claims scopes = bindE (mapE (\<lambda>s. bindE (claimMasks s) (\<lambda>ms. ok (map (\<lambda>k. (s, k)) ms))) scopes) (\<lambda>css. ok (concat css))"

definition wrapped_tokens :: "(nat \<times> int) list \<Rightarrow> string list \<Rightarrow> wrapped_token list" where
  "wrapped_tokens bs tokens = filter (\<lambda>t. wt_token t \<noteq> ZERO)
     (map (\<lambda>((i, k), t). \<lparr>wt_event = i, wt_mask = k, wt_token = lower t\<rparr>) (zip bs tokens))"

definition summary :: "int \<Rightarrow> (32 word \<times> int) list \<Rightarrow> int list \<Rightarrow> wrapped_token list \<Rightarrow> int list \<Rightarrow> holdings" where
  "summary number claims held tokens balances =
     (let positions = filter (\<lambda>(c, q). q \<noteq> 0) (zip claims held); wrapped = filter (\<lambda>(t, b). b \<noteq> 0) (zip tokens balances) in
      \<lparr>ho_clear = (positions = [] \<and> wrapped = []), ho_blockNumber = number, ho_checkedClaims = length claims,
        ho_checkedTokens = length tokens, ho_positions = positions, ho_wrapped = wrapped\<rparr>)"

definition proposerHoldings :: "read_abi \<Rightarrow> chain_node \<Rightarrow> string \<Rightarrow> nat \<Rightarrow> string \<Rightarrow> holdings res" where
  "proposerHoldings ra nd pool events owner =
     (if \<not> is_0x_lhex 40 owner then plain_error
      else bindE (nd_head nd) (\<lambda>head. case head of
        None \<Rightarrow> plain_error
      | Some b \<Rightarrow>
        if cb_hash b = [] then plain_error
        else let block = Some (cb_number b); reads = aggregate_reads ra nd block in
          bindE (bindE (reads [(pool, Factors)]) factor_scopes) (\<lambda>fs.
          bindE (scope_claims (distinct_firsts fs)) (\<lambda>claims.
          bindE (bindE (reads (map (\<lambda>(i, k). (pool, Base_token (js_shl 1 i) k)) (bases events))) text_values) (\<lambda>tokens.
          bindE (bindE (reads (map (\<lambda>(s, k). (pool, Holdings owner (uint s) k)) claims)) int_values) (\<lambda>held.
          let wts = wrapped_tokens (bases events) tokens in
          bindE (bindE (reads (map (\<lambda>t. (wt_token t, Balance_of owner)) wts)) int_values) (\<lambda>balances.
            ok (summary (cb_number b) claims held wts balances))))))))"

section \<open>Status\<close>

datatype proposer_status =
    Guard_missing
  | Guard_unavailable
  | Clear_of int nat
  | Holds_position int nat nat

text \<open>The guard may be absent; a guard that throws is unavailable, and every answer but a clear one blocks.\<close>

definition proposerStatus :: "holdings res option \<Rightarrow> proposer_status" where
  "proposerStatus guard = (case guard of
     None \<Rightarrow> Guard_missing
   | Some (Inl e) \<Rightarrow> Guard_unavailable
   | Some (Inr h) \<Rightarrow>
       if ho_clear h \<and> ho_positions h = [] \<and> ho_wrapped h = [] then Clear_of (ho_blockNumber h) (ho_checkedClaims h)
       else Holds_position (ho_blockNumber h) (length (ho_positions h)) (length (ho_wrapped h)))"

section \<open>Lemmas\<close>

text \<open>What a contract's view returns, as the codec reads it.\<close>

definition reads_as :: "read_abi \<Rightarrow> (string \<Rightarrow> string \<Rightarrow> string option) \<Rightarrow> string \<Rightarrow> contract_read \<Rightarrow> view_value \<Rightarrow> bool" where
  "reads_as ra answers target r v \<longleftrightarrow> (\<exists>data raw. rb_encode ra r = ok data \<and> answers target data = Some raw \<and> rb_decode ra r raw = ok v)"

lemma aggregate_part_reads:
  assumes honest: "multicall_honest ra nd block answers" and "aggregate_part ra nd block part = ok vs"
    and enc: "\<forall>(target, r, data)\<in>set part. rb_encode ra r = ok data"
  shows "list_all2 (\<lambda>(target, r, data) v. reads_as ra answers target r v) part vs"
proof -
  obtain rows where rows: "aggregate3 ra nd block (map (\<lambda>(target, r, data). (target, False, data)) part) = ok rows"
      and len: "length rows = length part" and fine: "\<forall>row\<in>set rows. fst row"
      and vs: "mapE (\<lambda>((target, r, data), row). rb_decode ra r (snd row)) (zip part rows) = ok vs"
    using assms(2) by (auto simp: aggregate_part_def list_ex_iff split: if_splits)
  have lv: "length vs = length part" using mapE_length [OF vs] len by simp
  show ?thesis
  proof (rule list_all2_all_nthI)
    fix j assume j: "j < length part"
    obtain target r data where p: "part ! j = (target, r, data)" by (cases "part ! j")
    have c: "map (\<lambda>(target, r, data). (target, False, data)) part ! j = (target, False, data)" using j p by simp
    have "fst (rows ! j)" using fine j len by simp
    then have "rows ! j = (True, snd (rows ! j))" by (simp add: prod_eq_iff)
    from honest_row [OF honest rows _ c this] have "answers target data = Some (snd (rows ! j))" using j by simp
    moreover have "rb_decode ra r (snd (rows ! j)) = ok (vs ! j)"
      using vs j len lv p by (auto simp: mapE_Inr_iff list_all2_conv_all_nth)
    moreover have "rb_encode ra r = ok data" using enc j p by (metis (mono_tags) case_prodD nth_mem)
    ultimately show "(case part ! j of (target, r, data) \<Rightarrow> (\<lambda>v. reads_as ra answers target r v)) (vs ! j)"
      using p by (auto simp: reads_as_def)
  qed (simp add: lv)
qed

text \<open>Chunks make no difference: the values are those of the calls, in order.\<close>

lemma aggregate_all:
  assumes "multicall_honest ra nd block answers" "aggregate ra nd block calls = ok vs"
    "\<forall>(target, r, data)\<in>set calls. rb_encode ra r = ok data"
  shows "list_all2 (\<lambda>(target, r, data) v. reads_as ra answers target r v) calls vs"
  using assms
proof (induction ra nd block calls arbitrary: vs rule: aggregate.induct)
  case (1 ra nd block calls)
  show ?case
  proof (cases "calls = []")
    case True
    then show ?thesis using 1(3) by (simp add: aggregate.simps)
  next
    case False
    then obtain out rest where out: "aggregate_part ra nd block (take CHUNK calls) = ok out"
        and rest: "aggregate ra nd block (drop CHUNK calls) = ok rest" and vs: "vs = out @ rest"
      using 1(3) by (subst (asm) aggregate.simps) auto
    have "list_all2 (\<lambda>(target, r, data) v. reads_as ra answers target r v) (take CHUNK calls @ drop CHUNK calls) (out @ rest)"
      by (rule list_all2_appendI, rule aggregate_part_reads [OF 1(2) out], use 1(4) in \<open>blast dest: in_set_takeD\<close>,
          rule 1(1) [OF False out 1(2) rest], use 1(4) in \<open>blast dest: in_set_dropD\<close>)
    then show ?thesis using vs by simp
  qed
qed

lemma reads_all:
  assumes "multicall_honest ra nd block answers" "aggregate_reads ra nd block reads = ok vs"
  shows "list_all2 (\<lambda>(target, r) v. reads_as ra answers target r v) reads vs"
proof -
  obtain calls where calls: "mapE (\<lambda>(target, r). guard_call ra target r) reads = ok calls" and vs: "aggregate ra nd block calls = ok vs"
    using assms(2) by (auto simp: aggregate_reads_def)
  have c: "list_all2 (\<lambda>(target, r) c. \<exists>data. c = (target, r, data) \<and> rb_encode ra r = ok data) reads calls"
    using calls unfolding mapE_Inr_iff by (rule list_all2_mono) (auto simp: guard_call_def)
  then have "\<forall>(target, r, data)\<in>set calls. rb_encode ra r = ok data"
    by (fastforce simp: list_all2_conv_all_nth in_set_conv_nth)
  then have "list_all2 (\<lambda>(target, r, data) v. reads_as ra answers target r v) calls vs"
    using aggregate_all [OF assms(1) vs] by blast
  then show ?thesis using c by (fastforce simp: list_all2_conv_all_nth)
qed

lemma set_distinct_firsts [simp]: "set (distinct_firsts xs) = set xs"
  by (induction xs) auto

lemma claimMasks_set:
  assumes "claimMasks s = ok ms"
  shows "set ms = {1..2 ^ (2 ^ scope_size s) - 2}"
proof -
  let ?l = "2 ^ (2 ^ scope_size s) - 1 :: int"
  have ms: "ms = map (\<lambda>i. int i + 1) [0..<nat (?l - 1)]" using assms by (auto simp: claimMasks_def Let_def split: if_splits)
  show ?thesis
  proof (intro equalityI subsetI)
    fix k assume "k \<in> {1..2 ^ (2 ^ scope_size s) - 2 :: int}"
    then have k: "int (nat (k - 1)) + 1 = k" "nat (k - 1) \<in> set [0..<nat (?l - 1)]" by auto
    show "k \<in> set ms" unfolding ms set_map by (rule image_eqI [where x = "nat (k - 1)"]) (use k in simp_all)
  qed (auto simp: ms)
qed

lemma scope_claims_set:
  assumes "scope_claims scopes = ok claims"
  shows "(s, k) \<in> set claims \<longleftrightarrow> s \<in> set scopes \<and> k \<in> {1..2 ^ (2 ^ scope_size s) - 2}"
proof -
  obtain css where css: "mapE (\<lambda>s. bindE (claimMasks s) (\<lambda>ms. ok (map (\<lambda>k. (s, k)) ms))) scopes = ok css" and claims: "claims = concat css"
    using assms by (auto simp: scope_claims_def)
  from css have "list_all2 (\<lambda>s cs. set cs = (\<lambda>k. (s, k)) ` {1..2 ^ (2 ^ scope_size s) - 2}) scopes css"
    unfolding mapE_Inr_iff by (rule list_all2_mono) (auto dest: claimMasks_set)
  then have "set claims = (\<Union>s\<in>set scopes. (\<lambda>k. (s, k)) ` {1..2 ^ (2 ^ scope_size s) - 2})"
    unfolding claims by (induction rule: list_all2_induct) auto
  then show ?thesis by (simp only:) blast
qed

lemma int_values_iff: "int_values vs = ok is \<longleftrightarrow> vs = map V_int is"
  unfolding int_values_def mapE_Inr_iff
  by (induction vs arbitrary: "is") (auto simp: list_all2_Cons1 type_error_def split: view_value.splits)

lemma text_values_iff: "text_values vs = ok ss \<longleftrightarrow> vs = map V_text ss"
  unfolding text_values_def mapE_Inr_iff
  by (induction vs arbitrary: ss) (auto simp: list_all2_Cons1 type_error_def split: view_value.splits)

lemma factor_scopes_iff: "factor_scopes vs = ok fs \<longleftrightarrow> vs = [V_scopes fs]"
  by (auto simp: factor_scopes_def type_error_def split: list.splits view_value.splits)

lemma reads_of:
  assumes "multicall_honest ra nd block answers" "aggregate_reads ra nd block (map f xs) = ok (map V ys)" "x \<in> set xs"
  shows "\<exists>y. (x, y) \<in> set (zip xs ys) \<and> reads_as ra answers (fst (f x)) (snd (f x)) (V y)"
proof -
  have all: "list_all2 (\<lambda>c v. reads_as ra answers (fst c) (snd c) v) (map f xs) (map V ys)"
    using reads_all [OF assms(1,2)] by (simp add: case_prod_unfold)
  obtain j where j: "j < length xs" "xs ! j = x" using assms(3) by (auto simp: in_set_conv_nth)
  have "length ys = length xs" using all by (auto dest: list_all2_lengthD)
  then have "(x, ys ! j) \<in> set (zip xs ys)" using j by (auto simp: in_set_conv_nth)
  moreover have "reads_as ra answers (fst (f x)) (snd (f x)) (V (ys ! j))"
    using list_all2_nthD [OF all, of j] j \<open>length ys = length xs\<close> by simp
  ultimately show ?thesis by blast
qed

lemma bases_set: "(i, k) \<in> set (bases events) \<longleftrightarrow> i < events \<and> k \<in> {1, 2}"
  by (auto simp: bases_def)

lemma summary_clear:
  assumes "ho_clear (summary number claims held tokens balances)"
  shows "(c, q) \<in> set (zip claims held) \<Longrightarrow> q = 0" "(t, b) \<in> set (zip tokens balances) \<Longrightarrow> b = 0"
  using assms by (auto simp: summary_def Let_def filter_empty_conv)

section \<open>Properties\<close>


definition demo_empty :: chain_node where
  "demo_empty = \<lparr>nd_transaction = (\<lambda>h. ok None), nd_receipt = (\<lambda>h. ok None), nd_block = (\<lambda>n. ok None),
     nd_head = ok (Some \<lparr>cb_hash = ''0xb'', cb_number = 50, cb_timestamp = 900\<rparr>), nd_call = (\<lambda>to' data block. ok data)\<rparr>"

definition demo_views :: read_abi where
  "demo_views = \<lparr>rb_encode = (\<lambda>r. ok ''d''),
     rb_decode = (\<lambda>r s. ok (case r of Factors \<Rightarrow> V_scopes [1] | Base_token i k \<Rightarrow> V_text (if k = 2 then ZERO else ''0xToken'') | _ \<Rightarrow> V_int 0)),
     rb_aggregate = (\<lambda>cs. ok (replicate (length cs) CHR ''c'')), rb_rows = (\<lambda>s. ok (replicate (length s) (True, ''1'')))\<rparr>"

lemma demo_views_honest: "multicall_honest demo_views demo_empty block (\<lambda>target data. Some ''1'')"
  by (auto simp: multicall_honest_def aggregate3_def demo_views_def demo_empty_def list_all2_conv_all_nth)

definition demo_holdings :: holdings where
  "demo_holdings = \<lparr>ho_clear = True, ho_blockNumber = 50, ho_checkedClaims = 2, ho_checkedTokens = 1, ho_positions = [], ho_wrapped = []\<rparr>"

lemma demo_guard: "proposerHoldings demo_views demo_empty ''0xpool'' 1 (''0x'' @ replicate 40 CHR ''a'') = ok demo_holdings"
  unfolding demo_views_def demo_empty_def demo_holdings_def by code_simp


end
