(* ===== verification/Runner.thy ===== *)
theory Runner
  imports Research Executor Paper Semantics Strategy
begin

text \<open>
  The agent runtime (packages/sdk/src/node/runner.ts): one cycle refreshes the published policy, recovers open
  transactions, and takes every pair of questions of every market through research, the reference strategy, and a
  paper fill or an execution; every decision is reported through a local outbox. What is outside answers by the
  number of the interaction, so each call may be answered differently. The executor is the \<open>Executor\<close>
  component behind its permission check; messages for people and the forecast in a report are left out.
\<close>

section \<open>Configuration, outside and state\<close>

record runner_config =
  ru_live :: bool
  ru_hasClient :: bool
  ru_markets :: "string list"
  ru_policy :: policy_config
  ru_policyMaxAge :: int
  ru_paperBudget :: int
  ru_strategy :: strategy_config
  ru_limits :: research_limits
  ru_requirements :: "string \<Rightarrow> requirement list"
  ru_extraSources :: "string \<Rightarrow> (int \<times> string) list"

datatype 'a api_reply = Answer 'a | Api_error string bool | Other_failure

record detail_event =
  dt_index :: nat
  dt_id :: string
  dt_question :: string
  dt_yesRule :: string
  dt_noRule :: string
  dt_endsAt :: int
  dt_url :: "string option"

record market_detail =
  md_title :: string
  md_events :: "detail_event list"

record head_block =
  hb_number :: int
  hb_hash :: string
  hb_time :: int

record live_trade =
  lt_decisionId :: string
  lt_namespace :: string
  lt_pool :: string
  lt_claim :: claim
  lt_quantity :: int
  lt_slippageBps :: int
  lt_quote :: int
  lt_block :: head_block

datatype trade_result =
    Rejected_by_policy "violation list"
  | Blocked_trade string
  | Ran string "string option"

datatype run_state = Is_running | Is_paused | Is_blocked | Is_stopping | Is_stopped

datatype report_reason =
    Why_research research_abstain
  | Why_strategy abstain_reason
  | Why_abstained
  | Why_semantics semantic_refusal
  | Why_fill fill_refusal
  | Why_policy violation
  | Why_blocked string

datatype report_outcome = Reported_abstain | Reported_paper | Reported_trade | Reported_rejected

record decision_report =
  dr_decisionId :: string
  dr_namespace :: string
  dr_createdAt :: int
  dr_outcome :: report_outcome
  dr_reasons :: "report_reason list"
  dr_trade :: "live_trade option"
  dr_execution :: "(string \<times> string) option"

record outside =
  ou_now :: "nat \<Rightarrow> int"
  ou_stop :: "nat \<Rightarrow> bool"
  ou_id :: "nat \<Rightarrow> string"
  ou_policy :: "nat \<Rightarrow> published_policy api_reply"
  ou_heartbeat :: "nat \<Rightarrow> run_state \<Rightarrow> published_policy api_reply"
  ou_decision :: "nat \<Rightarrow> decision_report \<Rightarrow> unit api_reply"
  ou_deployments :: "nat \<Rightarrow> deployment list api_reply"
  ou_market :: "nat \<Rightarrow> string \<Rightarrow> market_detail api_reply"
  ou_analytics :: "nat \<Rightarrow> string \<Rightarrow> json api_reply"
  ou_validate :: "nat \<Rightarrow> expectation \<Rightarrow> json res"
  ou_verify :: "nat \<Rightarrow> deployment \<Rightarrow> unit res"
  ou_block :: "nat \<Rightarrow> head_block res"
  ou_resolved :: "nat \<Rightarrow> string \<Rightarrow> bool res"
  ou_quote :: "nat \<Rightarrow> claim \<Rightarrow> int \<Rightarrow> head_block \<Rightarrow> int option res"
  ou_urls :: url_parser
  ou_parse :: "string \<Rightarrow> json option"
  ou_provider :: "string + provider_kind \<times> string"
  ou_retrieve :: "nat \<Rightarrow> (int \<times> string) list \<Rightarrow> json list"
  ou_complete :: "nat \<Rightarrow> string \<Rightarrow> string + string"
  ou_execute :: "nat \<Rightarrow> policy_config \<Rightarrow> live_trade \<Rightarrow> trade_result res \<times> string option"
  ou_recover :: "nat \<Rightarrow> unit res \<times> string option"

datatype runner_event =
    Considered string
  | Started live_trade
  | Filled book_fill
  | Decided decision_report
  | Delivered decision_report
  | Beat run_state
  | Recovered

record runner =
  rn_tick :: nat
  rn_published :: "published_policy option"
  rn_readAt :: "int option"
  rn_blockedBy :: "string option"
  rn_lastErrorCode :: "string option"
  rn_lastCycleAt :: "int option"
  rn_verified :: "string list"
  rn_stopped :: bool
  rn_budget :: research_budget
  rn_fills :: "book_fill list"
  rn_outbox :: "decision_report list"
  rn_log :: "runner_event list"

section \<open>Programs\<close>

type_synonym 'a run = "runner \<Rightarrow> 'a res \<times> runner"

definition doneR :: "'a \<Rightarrow> 'a run" where
  "doneR x = (\<lambda>s. (ok x, s))"

definition bindR :: "'a run \<Rightarrow> ('a \<Rightarrow> 'b run) \<Rightarrow> 'b run" where
  "bindR m f = (\<lambda>s. case m s of (Inl e, t) \<Rightarrow> (Inl e, t) | (Inr x, t) \<Rightarrow> f x t)"

abbreviation thenR :: "unit run \<Rightarrow> 'b run \<Rightarrow> 'b run" where
  "thenR m n \<equiv> bindR m (\<lambda>_. n)"

definition liftR :: "'a res \<Rightarrow> 'a run" where
  "liftR r = (\<lambda>s. (r, s))"

definition readR :: "(runner \<Rightarrow> 'a) \<Rightarrow> 'a run" where
  "readR f = (\<lambda>s. (ok (f s), s))"

definition updateR :: "(runner \<Rightarrow> runner) \<Rightarrow> unit run" where
  "updateR f = (\<lambda>s. (ok (), f s))"

text \<open>One interaction with the outside.\<close>

definition askR :: "(nat \<Rightarrow> 'a) \<Rightarrow> 'a run" where
  "askR f = (\<lambda>s. (ok (f (rn_tick s)), s\<lparr>rn_tick := Suc (rn_tick s)\<rparr>))"

definition logR :: "runner_event \<Rightarrow> unit run" where
  "logR e = updateR (\<lambda>s. s\<lparr>rn_log := rn_log s @ [e]\<rparr>)"

definition catchR :: "unit run \<Rightarrow> (js_error \<Rightarrow> unit run) \<Rightarrow> unit run" where
  "catchR m h = (\<lambda>s. case m s of (Inl e, t) \<Rightarrow> h e t | (Inr x, t) \<Rightarrow> (ok x, t))"

section \<open>Policy and permission\<close>

definition failed_with :: "string \<Rightarrow> unit run" where
  "failed_with err = updateR (\<lambda>s. s\<lparr>rn_lastErrorCode := Some err\<rparr>)"

definition stop_with :: "string \<Rightarrow> unit run" where
  "stop_with err = updateR (\<lambda>s. s\<lparr>rn_blockedBy := Some err\<rparr>)"

definition onStop :: "string option \<Rightarrow> unit run" where
  "onStop err = (case err of None \<Rightarrow> doneR () | Some c \<Rightarrow> stop_with c)"

definition api :: "runner_config \<Rightarrow> (nat \<Rightarrow> 'a api_reply) \<Rightarrow> 'a option run" where
  "api c f = (if \<not> ru_hasClient c then doneR None
     else bindR (askR f) (\<lambda>r. case r of
       Answer x \<Rightarrow> doneR (Some x)
     | Api_error err stop \<Rightarrow> thenR (failed_with err) (thenR (if stop then stop_with err else doneR ()) (doneR None))
     | Other_failure \<Rightarrow> thenR (failed_with ''UNEXPECTED'') (doneR None)))"

definition effective_now :: "runner_config \<Rightarrow> runner \<Rightarrow> int \<Rightarrow> effective res" where
  "effective_now c s now = effectivePolicy (ru_live c) (pc_maxTradeCost (ru_policy c)) (pc_windows (ru_policy c))
     (rn_published s) (rn_readAt s) now (ru_policyMaxAge c)"

definition policyNow :: "runner_config \<Rightarrow> runner \<Rightarrow> int \<Rightarrow> policy_config res" where
  "policyNow c s now = bindE (effective_now c s now) (\<lambda>e.
     ok ((ru_policy c)\<lparr>pc_maxTradeCost := ef_maxTradeCost e, pc_windows := ef_windows e\<rparr>))"

definition block_text :: "live_block \<Rightarrow> string" where
  "block_text b = (case b of Local_paper_mode \<Rightarrow> ''local_paper_mode'' | Live_disabled \<Rightarrow> ''live_disabled''
     | Paused \<Rightarrow> ''paused'' | Policy_stale \<Rightarrow> ''policy_stale'')"

text \<open>Why no new transaction may begin; None is permission.\<close>

definition liveRefusal :: "runner_config \<Rightarrow> runner \<Rightarrow> bool \<Rightarrow> int \<Rightarrow> string option res" where
  "liveRefusal c s stop now = (case rn_blockedBy s of Some err \<Rightarrow> ok (Some err) | None \<Rightarrow>
     if stop then ok (Some ''stop_requested'')
     else bindE (effective_now c s now) (\<lambda>e. ok (map_option block_text (ef_reason e))))"

definition state_of :: "runner \<Rightarrow> bool \<Rightarrow> run_state" where
  "state_of s stop = (if rn_stopped s then Is_stopped else if stop then Is_stopping
     else if rn_blockedBy s \<noteq> None then Is_blocked
     else (case rn_published s of Some p \<Rightarrow> if fp_paused p then Is_paused else Is_running | None \<Rightarrow> Is_running))"

definition accept :: "outside \<Rightarrow> published_policy \<Rightarrow> unit run" where
  "accept h p = bindR (askR (ou_now h)) (\<lambda>t. updateR (\<lambda>s. s\<lparr>rn_published := Some p, rn_readAt := Some t\<rparr>))"

definition accept_some :: "outside \<Rightarrow> published_policy option \<Rightarrow> unit run" where
  "accept_some h p = (case p of None \<Rightarrow> doneR () | Some x \<Rightarrow> accept h x)"

definition refreshPolicy :: "runner_config \<Rightarrow> outside \<Rightarrow> unit run" where
  "refreshPolicy c h = bindR (api c (ou_policy h)) (accept_some h)"

text \<open>The heartbeat carries the effective policy; when that cannot be computed, nothing is sent.\<close>

definition heartbeat :: "runner_config \<Rightarrow> outside \<Rightarrow> unit run" where
  "heartbeat c h = (if \<not> ru_hasClient c then doneR () else
     bindR (askR (ou_stop h)) (\<lambda>stop. bindR (askR (ou_now h)) (\<lambda>t. bindR (readR (\<lambda>s. (policyNow c s t, state_of s stop))) (\<lambda>(p, st).
       case p of
         Inl e \<Rightarrow> failed_with ''UNEXPECTED''
       | Inr q \<Rightarrow> thenR (logR (Beat st)) (bindR (api c (\<lambda>i. ou_heartbeat h i st)) (accept_some h))))))"

section \<open>Reporting decisions\<close>

text \<open>Waiting reports go first and in order; the first failure keeps the rest waiting.\<close>

fun deliver :: "runner_config \<Rightarrow> outside \<Rightarrow> decision_report list \<Rightarrow> decision_report list run" where
  "deliver c h [] = doneR []"
| "deliver c h (d # ds) = bindR (api c (\<lambda>i. ou_decision h i d)) (\<lambda>r. case r of
     Some _ \<Rightarrow> thenR (logR (Delivered d)) (deliver c h ds)
   | None \<Rightarrow> doneR (d # ds))"

text \<open>\<open>remaining.slice(-200)\<close>.\<close>

definition OUTBOX :: nat where
  "OUTBOX = 200"

definition keep_last :: "'a list \<Rightarrow> 'a list" where
  "keep_last xs = drop (length xs - OUTBOX) xs"

definition reportDecision :: "runner_config \<Rightarrow> outside \<Rightarrow> decision_report \<Rightarrow> unit run" where
  "reportDecision c h d = thenR (logR (Decided d)) (bindR (readR rn_outbox) (\<lambda>outbox. bindR (deliver c h (outbox @ [d])) (\<lambda>remaining.
     updateR (\<lambda>s. s\<lparr>rn_outbox := keep_last remaining\<rparr>))))"

section \<open>One pair of questions\<close>

definition toMarket :: "deployment \<Rightarrow> market_detail \<Rightarrow> head_block \<Rightarrow> bool \<Rightarrow> market" where
  "toMarket d detail head resolved = \<lparr>mk_namespace = dep_namespace d, mk_pool = dep_pool d, mk_rulesHash = JStr (dep_rulesHash d),
     mk_title = JStr (md_title detail), mk_closesAt = dep_closesAt d, mk_open = (\<not> resolved \<and> hb_time head < dep_closesAt d),
     mk_resolved = resolved,
     mk_events = map (\<lambda>e. \<lparr>me_index = dt_index e, me_id = dt_id e, me_question = dt_question e, me_yesRule = JStr (dt_yesRule e),
       me_noRule = JStr (dt_noRule e), me_observationEndsAt = dt_endsAt e, me_source = None\<rparr>) (md_events detail),
     mk_snapshot = \<lparr>sn_chain = 10143, sn_pool = dep_pool d, sn_block = hb_number head, sn_hash = hb_hash head, sn_time = hb_time head\<rparr>,
     mk_prices = map (\<lambda>e. (None, None)) (md_events detail)\<rparr>"

definition question_of :: "detail_event \<Rightarrow> research_question" where
  "question_of e = \<lparr>rs_index = int (dt_index e), rs_question = dt_question e, rs_yesRule = dt_yesRule e, rs_noRule = dt_noRule e,
     rs_endsAt = dt_endsAt e\<rparr>"

definition sources_of :: "runner_config \<Rightarrow> string \<Rightarrow> market_detail \<Rightarrow> nat \<Rightarrow> nat \<Rightarrow> (int \<times> string) list" where
  "sources_of c namespace detail a b =
     List.map_filter (\<lambda>e. if dt_index e = a \<or> dt_index e = b then (case dt_url e of
         Some u \<Rightarrow> if u = [] then None else Some (int (dt_index e), u) | None \<Rightarrow> None) else None) (md_events detail)
     @ filter (\<lambda>(e, u). e = int a \<or> e = int b) (ru_extraSources c namespace)"

text \<open>The quotes of the candidates, in order, all at the head block; only a usable amount is a quote.\<close>

definition quote_of :: "market \<Rightarrow> head_block \<Rightarrow> int \<Rightarrow> claim \<Rightarrow> int option \<Rightarrow> quote_result" where
  "quote_of m head quantity cl amount = (case amount of
     Some a \<Rightarrow> if a \<le> 0 \<or> a > quantity then Unavailable_quote Un_quote_unavailable JUndef
       else Quoted \<lparr>q_claim = cl, q_side = Buy_side, q_quantity = quantity, q_amount = a, q_snapshot = mk_snapshot m,
         q_expires = hb_time head + 60, q_source = Pool_quoteBuy\<rparr>
   | None \<Rightarrow> Unavailable_quote Un_quote_unavailable JUndef)"

fun quote_all :: "outside \<Rightarrow> market \<Rightarrow> head_block \<Rightarrow> int \<Rightarrow> claim list \<Rightarrow> (string \<Rightarrow> quote_result option) \<Rightarrow> (string \<Rightarrow> quote_result option) run" where
  "quote_all h m head quantity [] out = doneR out"
| "quote_all h m head quantity (cl # cs) out =
     bindR (askR (\<lambda>i. ou_quote h i cl quantity head)) (\<lambda>r. bindR (liftR r) (\<lambda>amount.
       quote_all h m head quantity cs (out(claimKey cl \<mapsto> quote_of m head quantity cl amount))))"

text \<open>\<open>jointEdgeStrategy\<close>: the candidates the forecast covers, their quotes, and the decision.\<close>

definition strategy_decide :: "runner_config \<Rightarrow> outside \<Rightarrow> market \<Rightarrow> head_block \<Rightarrow> forecast \<Rightarrow> pair_implied option \<Rightarrow> decision run" where
  "strategy_decide c h m head f implied = bindR (askR (ou_now h)) (\<lambda>t.
     bindR (liftR (candidateClaims (mk_pool m) (int (length (mk_events m))) (joint_events (fc_joint f)) (sc_includeSingles (ru_strategy c)))) (\<lambda>all.
     bindR (quote_all h m head (sc_quantity (ru_strategy c)) (filter (covers (fc_joint f)) all) Map.empty) (\<lambda>quotes.
       liftR (decide \<lparr>di_market = m, di_forecast = f, di_config = ru_strategy c, di_now = t, di_quotes = quotes, di_implied = implied\<rparr>))))"

definition report_of :: "string \<Rightarrow> string \<Rightarrow> int \<Rightarrow> report_outcome \<Rightarrow> report_reason list \<Rightarrow> live_trade option \<Rightarrow> (string \<times> string) option \<Rightarrow> decision_report" where
  "report_of i namespace t outcome reasons trade execution = \<lparr>dr_decisionId = i, dr_namespace = namespace, dr_createdAt = t,
     dr_outcome = outcome, dr_reasons = reasons, dr_trade = trade, dr_execution = execution\<rparr>"

definition expectation_of :: "deployment \<Rightarrow> live_trade \<Rightarrow> expectation" where
  "expectation_of d t = \<lparr>ex_pool = dep_pool d, ex_rulesHash = dep_rulesHash d, ex_eventCount = dep_eventCount d,
     ex_scope = claim_scope (lt_claim t), ex_mask = int_str (claim_mask (lt_claim t)), ex_quantity = int_str (lt_quantity t)\<rparr>"

text \<open>A failed check, or a check that throws, refuses as unavailable.\<close>

definition semantic_now :: "json res \<Rightarrow> expectation \<Rightarrow> int \<Rightarrow> semantic_refusal option" where
  "semantic_now answer e t = (case bindE answer (\<lambda>r. semanticError r e t True) of Inl _ \<Rightarrow> Some SEMANTICS_UNAVAILABLE | Inr reason \<Rightarrow> reason)"

definition fill_of :: "string \<Rightarrow> live_trade \<Rightarrow> int \<Rightarrow> book_fill" where
  "fill_of i t now = \<lparr>bf_id = i, bf_decisionId = lt_decisionId t, bf_namespace = lt_namespace t, bf_scope = claim_scope (lt_claim t),
     bf_mask = int_str (claim_mask (lt_claim t)), bf_quantity = int_str (lt_quantity t), bf_cost = int_str (lt_quote t),
     bf_block = int_str (hb_number (lt_block t)), bf_filledAt = now\<rparr>"

text \<open>\<open>paper.fill\<close>, under the journal's lock: the refusal, or None when the book has the fill.\<close>

definition fill_paper :: "runner_config \<Rightarrow> book_fill \<Rightarrow> fill_refusal option run" where
  "fill_paper c f = bindR (readR rn_fills) (\<lambda>fills. bindR (liftR (book_add (ru_paperBudget c) fills f)) (\<lambda>r. case r of
     Inl refusal \<Rightarrow> doneR (Some refusal)
   | Inr book \<Rightarrow> thenR (updateR (\<lambda>s. s\<lparr>rn_fills := book\<rparr>)) (thenR (logR (Filled f)) (doneR None))))"

definition paper_trade :: "runner_config \<Rightarrow> outside \<Rightarrow> deployment \<Rightarrow> live_trade \<Rightarrow> int \<Rightarrow> unit run" where
  "paper_trade c h d t created =
     (let report = (\<lambda>outcome reasons. reportDecision c h (report_of (lt_decisionId t) (dep_namespace d) created outcome reasons (Some t) None)) in
      bindR (askR (\<lambda>i. ou_validate h i (expectation_of d t))) (\<lambda>answer. bindR (askR (ou_now h)) (\<lambda>now.
        case semantic_now answer (expectation_of d t) now of
          Some reason \<Rightarrow> report Reported_abstain [Why_semantics reason]
        | None \<Rightarrow>
          bindR (askR (ou_now h)) (\<lambda>time'. bindR (askR (ou_id h)) (\<lambda>i. bindR (fill_paper c (fill_of i t time')) (\<lambda>r. case r of
            Some refusal \<Rightarrow> report Reported_abstain [Why_fill refusal]
          | None \<Rightarrow> report Reported_paper []))))))"

text \<open>\<open>execute\<close> of the executor: the permission first, then the rest of it.\<close>

definition execute_live :: "runner_config \<Rightarrow> outside \<Rightarrow> live_trade \<Rightarrow> trade_result run" where
  "execute_live c h t = bindR (askR (ou_stop h)) (\<lambda>stop. bindR (askR (ou_now h)) (\<lambda>now.
     bindR (readR (\<lambda>s. (liveRefusal c s stop now, policyNow c s now))) (\<lambda>(refusal, policy).
     bindR (liftR refusal) (\<lambda>r. case r of
       Some reason \<Rightarrow> doneR (Blocked_trade reason)
     | None \<Rightarrow> bindR (liftR policy) (\<lambda>p.
         thenR (logR (Started t)) (bindR (askR (\<lambda>i. ou_execute h i p t)) (\<lambda>(result, stopped).
           thenR (onStop stopped) (liftR result))))))))"

definition live_trade_now :: "runner_config \<Rightarrow> outside \<Rightarrow> deployment \<Rightarrow> live_trade \<Rightarrow> int \<Rightarrow> unit run" where
  "live_trade_now c h d t created =
     thenR (refreshPolicy c h) (bindR (execute_live c h t) (\<lambda>result.
       reportDecision c h (case result of
         Rejected_by_policy vs \<Rightarrow> report_of (lt_decisionId t) (dep_namespace d) created Reported_rejected (map Why_policy vs) (Some t) None
       | Blocked_trade reason \<Rightarrow> report_of (lt_decisionId t) (dep_namespace d) created Reported_rejected [Why_blocked reason] (Some t) None
       | Ran status hash \<Rightarrow> report_of (lt_decisionId t) (dep_namespace d) created Reported_trade [] (Some t) (map_option (\<lambda>x. (x, status)) hash))))"

definition trade_of :: "string \<Rightarrow> deployment \<Rightarrow> head_block \<Rightarrow> proposal \<Rightarrow> live_trade" where
  "trade_of i d head p = \<lparr>lt_decisionId = i, lt_namespace = dep_namespace d, lt_pool = dep_pool d, lt_claim = pp_claim p,
     lt_quantity = pp_quantity p, lt_slippageBps = pp_slippageBps p, lt_quote = pp_quote p, lt_block = head\<rparr>"

definition act_on :: "runner_config \<Rightarrow> outside \<Rightarrow> deployment \<Rightarrow> head_block \<Rightarrow> string \<Rightarrow> int \<Rightarrow> decision \<Rightarrow> unit run" where
  "act_on c h d head i created dec = (case dc_proposal dec of
     None \<Rightarrow> reportDecision c h (report_of i (dep_namespace d) created Reported_abstain
       (if dc_reasons dec = [] then [Why_abstained] else map Why_strategy (dc_reasons dec)) None None)
   | Some p \<Rightarrow>
       if \<not> List.member [10, 50, 100] (pp_slippageBps p) then liftR (throw Invalid_input)
       else if \<not> ru_live c then paper_trade c h d (trade_of i d head p) created
       else live_trade_now c h d (trade_of i d head p) created)"

definition research_now :: "runner_config \<Rightarrow> outside \<Rightarrow> deployment \<Rightarrow> market_detail \<Rightarrow> nat \<Rightarrow> nat \<Rightarrow> research_result run" where
  "research_now c h d detail a b =
     bindR (askR (ou_now h)) (\<lambda>t. bindR (askR (\<lambda>i. ou_retrieve h i (sources_of c (dep_namespace d) detail a b))) (\<lambda>retrieved.
     bindR (askR (ou_complete h)) (\<lambda>complete. bindR (readR rn_budget) (\<lambda>b0.
       let (result, b1, asked) = research (ou_urls h) (ou_parse h) (ru_limits c) (ou_provider h) complete retrieved
         \<lparr>ri_pool = dep_pool d, ri_title = md_title detail, ri_eventCount = int (length (md_events detail)),
           ri_questions = [question_of (md_events detail ! a), question_of (md_events detail ! b)],
           ri_requirements = ru_requirements c (dep_namespace d)\<rparr> t b0
       in thenR (updateR (\<lambda>s. s\<lparr>rn_budget := b1\<rparr>)) (doneR result)))))"

definition implied_of :: "json option \<Rightarrow> string \<Rightarrow> pair_implied option" where
  "implied_of analytics pool = (case analytics of None \<Rightarrow> None
     | Some v \<Rightarrow> (case parsePairAnalytics v pool of Inl _ \<Rightarrow> None | Inr i \<Rightarrow> Some i))"

definition pair_cycle :: "runner_config \<Rightarrow> outside \<Rightarrow> deployment \<Rightarrow> market_detail \<Rightarrow> market \<Rightarrow> head_block \<Rightarrow> nat \<times> nat \<Rightarrow> unit run" where
  "pair_cycle c h d detail m head = (\<lambda>(a, b).
     bindR (askR (ou_id h)) (\<lambda>i. thenR (logR (Considered i)) (bindR (askR (ou_now h)) (\<lambda>created.
     bindR (research_now c h d detail a b) (\<lambda>found. case found of
       Abstained reason \<Rightarrow> reportDecision c h (report_of i (dep_namespace d) created Reported_abstain [Why_research reason] None None)
     | Found f \<Rightarrow>
         bindR (api c (\<lambda>k. ou_analytics h k (dep_namespace d))) (\<lambda>analytics.
         bindR (strategy_decide c h m head f (implied_of analytics (dep_pool d))) (\<lambda>dec.
           act_on c h d head i created dec)))))))"

fun pair_loop :: "runner_config \<Rightarrow> outside \<Rightarrow> (nat \<times> nat \<Rightarrow> unit run) \<Rightarrow> (nat \<times> nat) list \<Rightarrow> unit run" where
  "pair_loop c h body [] = doneR ()"
| "pair_loop c h body (p # ps) = bindR (askR (ou_stop h)) (\<lambda>stop. bindR (readR rn_blockedBy) (\<lambda>blocked.
     if blocked \<noteq> None \<or> stop then doneR () else thenR (body p) (pair_loop c h body ps)))"

section \<open>Markets and cycles\<close>

definition deployment_key :: "deployment \<Rightarrow> string" where
  "deployment_key d = dep_namespace d @ dep_poolCode d"

definition verify_once :: "outside \<Rightarrow> deployment \<Rightarrow> unit run" where
  "verify_once h d = bindR (readR rn_verified) (\<lambda>known.
     if List.member known (deployment_key d) then doneR ()
     else bindR (askR (\<lambda>i. ou_verify h i d)) (\<lambda>r. thenR (liftR r) (updateR (\<lambda>s. s\<lparr>rn_verified := deployment_key d # rn_verified s\<rparr>))))"

definition marketCycle :: "runner_config \<Rightarrow> outside \<Rightarrow> deployment \<Rightarrow> unit run" where
  "marketCycle c h d = thenR (verify_once h d) (bindR (api c (\<lambda>i. ou_market h i (dep_namespace d))) (\<lambda>reply. case reply of
     None \<Rightarrow> doneR ()
   | Some detail \<Rightarrow>
       bindR (askR (ou_block h)) (\<lambda>rb. bindR (liftR rb) (\<lambda>head. bindR (askR (\<lambda>i. ou_resolved h i (dep_pool d))) (\<lambda>rr. bindR (liftR rr) (\<lambda>resolved.
         let m = toMarket d detail head resolved in
         if \<not> mk_open m then doneR ()
         else bindR (askR (ou_now h)) (\<lambda>t.
           if dep_closesAt d - t < pc_minBeforeClose (ru_policy c) then doneR ()
           else pair_loop c h (pair_cycle c h d detail m head) (pairs_of [0..<length (mk_events m)]))))))))"

definition code_text :: "flurbo_code \<Rightarrow> string" where
  "code_text c = (case c of Unauthenticated \<Rightarrow> ''unauthenticated'' | Invite_required \<Rightarrow> ''invite_required'' | Forbidden \<Rightarrow> ''forbidden''
     | Not_found \<Rightarrow> ''not_found'' | Invalid_input \<Rightarrow> ''invalid_input'' | Conflict \<Rightarrow> ''conflict'' | Unsupported_claim \<Rightarrow> ''unsupported_claim''
     | Cross_pool \<Rightarrow> ''cross_pool'' | Market_closed \<Rightarrow> ''market_closed'' | Quote_unavailable \<Rightarrow> ''quote_unavailable'' | Stale_quote \<Rightarrow> ''stale_quote''
     | Invalid_forecast \<Rightarrow> ''invalid_forecast'' | Rate_limited \<Rightarrow> ''rate_limited'' | Timeout \<Rightarrow> ''timeout'' | Aborted \<Rightarrow> ''aborted''
     | Network \<Rightarrow> ''network'' | Unavailable \<Rightarrow> ''unavailable'' | Invalid_response \<Rightarrow> ''invalid_response''
     | Provider_unavailable \<Rightarrow> ''provider_unavailable'')"

text \<open>The code of a thrown value: a \<open>FlurboError\<close> has one, other errors of the model have none.\<close>

definition error_code :: "js_error \<Rightarrow> string" where
  "error_code e = (case e of Flurbo f \<Rightarrow> code_text (err_code f) | Other_error s \<Rightarrow> ''UNEXPECTED'')"

fun market_loop :: "runner_config \<Rightarrow> outside \<Rightarrow> deployment list \<Rightarrow> unit run" where
  "market_loop c h [] = doneR ()"
| "market_loop c h (d # ds) = thenR (catchR (marketCycle c h d) (\<lambda>e. failed_with (error_code e))) (market_loop c h ds)"

definition recover_now :: "runner_config \<Rightarrow> outside \<Rightarrow> unit run" where
  "recover_now c h = (if \<not> ru_live c then doneR ()
     else thenR (logR Recovered) (bindR (askR (ou_recover h)) (\<lambda>(r, stop). thenR (onStop stop) (liftR r))))"

definition cycle :: "runner_config \<Rightarrow> outside \<Rightarrow> unit run" where
  "cycle c h =
     thenR (updateR (\<lambda>s. s\<lparr>rn_budget := resetCycle (rn_budget s)\<rparr>)) (thenR (refreshPolicy c h) (thenR (heartbeat c h) (thenR (recover_now c h)
     (bindR (askR (ou_stop h)) (\<lambda>stop. bindR (readR rn_blockedBy) (\<lambda>blocked.
       thenR (if blocked = None \<and> \<not> stop \<and> ru_hasClient c
         then bindR (api c (ou_deployments h)) (\<lambda>ds. market_loop c h (filter (\<lambda>x. List.member (ru_markets c) (dep_namespace x))
           (case ds of None \<Rightarrow> [] | Some xs \<Rightarrow> xs)))
         else doneR ())
       (bindR (askR (ou_now h)) (\<lambda>t. thenR (updateR (\<lambda>s. s\<lparr>rn_lastCycleAt := Some t\<rparr>)) (heartbeat c h)))))))))"

text \<open>\<open>recover\<close>: transactions already sent, nothing new.\<close>

definition recover :: "runner_config \<Rightarrow> outside \<Rightarrow> unit run" where
  "recover c h = thenR (refreshPolicy c h) (recover_now c h)"

text \<open>\<open>run\<close> for at most \<open>n\<close> cycles: it ends after one with \<open>once\<close>, when a stop was requested, or when a cycle throws.\<close>

fun run_cycles :: "runner_config \<Rightarrow> outside \<Rightarrow> bool \<Rightarrow> nat \<Rightarrow> unit run" where
  "run_cycles c h once 0 = doneR ()"
| "run_cycles c h once (Suc n) = thenR (cycle c h) (bindR (askR (ou_stop h)) (\<lambda>stop.
     if once \<or> stop then thenR (updateR (\<lambda>s. s\<lparr>rn_stopped := True\<rparr>)) (thenR (heartbeat c h) (updateR (\<lambda>s. s\<lparr>rn_stopped := False\<rparr>)))
     else run_cycles c h once n))"

end
