(* ===== verification/Runner_Laws.thy ===== *)
theory Runner_Laws
  imports Runner Strategy_Laws "HOL-Library.Sublist"
begin

text \<open>
  What every run of the runtime keeps, whatever the outside answers: a stopped runtime starts nothing, what is
  traded is a proposal within the configured limits and in the configured mode, the paper book keeps its budget,
  and reports are delivered in the order they were decided. The interface of a relation that every step keeps is
  stated once, in two parts: what holds around the pairs, and what is needed inside them.
\<close>

section \<open>Relations that programs keep\<close>

definition keeps :: "(runner \<Rightarrow> runner \<Rightarrow> bool) \<Rightarrow> 'a run \<Rightarrow> bool" where
  "keeps R m \<longleftrightarrow> (\<forall>s r t. m s = (r, t) \<longrightarrow> R s t)"

lemma keepsI: "(\<And>s r t. m s = (r, t) \<Longrightarrow> R s t) \<Longrightarrow> keeps R m"
  by (auto simp: keeps_def)

lemma keepsD: "keeps R m \<Longrightarrow> m s = (r, t) \<Longrightarrow> R s t"
  by (auto simp: keeps_def)

text \<open>Quiet changes: time passes, and nothing a relation is about changes but a stop that is set.\<close>

definition quiet :: "runner \<Rightarrow> runner \<Rightarrow> bool" where
  "quiet s t \<longleftrightarrow> rn_tick s \<le> rn_tick t \<and> rn_log t = rn_log s \<and> rn_outbox t = rn_outbox s \<and> rn_fills t = rn_fills s
     \<and> (rn_blockedBy s \<noteq> None \<longrightarrow> rn_blockedBy t \<noteq> None)"

lemma quiet_refl [simp]: "quiet s s"
  by (simp add: quiet_def)

definition plain_event :: "runner_event \<Rightarrow> bool" where
  "plain_event e \<longleftrightarrow> (\<exists>st. e = Beat st) \<or> e = Recovered"

locale run_relation =
  fixes R :: "runner \<Rightarrow> runner \<Rightarrow> bool" and c :: runner_config and h :: outside
  assumes quiet_kept: "quiet s t \<Longrightarrow> R s t"
    and trans_kept: "R s t \<Longrightarrow> R t u \<Longrightarrow> R s u"
    and plain_kept: "plain_event e \<Longrightarrow> R s (s\<lparr>rn_log := rn_log s @ [e]\<rparr>)"
begin

lemma done_kept: "keeps R (doneR x)"
  by (auto simp: keeps_def doneR_def intro: quiet_kept)

lemma lift_kept: "keeps R (liftR r)"
  by (auto simp: keeps_def liftR_def intro: quiet_kept)

lemma read_kept: "keeps R (readR f)"
  by (auto simp: keeps_def readR_def intro: quiet_kept)

lemma ask_kept: "keeps R (askR f)"
  by (auto simp: keeps_def askR_def quiet_def intro!: quiet_kept)

lemma update_kept: "(\<And>s. quiet s (f s)) \<Longrightarrow> keeps R (updateR f)"
  by (auto simp: keeps_def updateR_def intro: quiet_kept)

lemma log_kept: "plain_event e \<Longrightarrow> keeps R (logR e)"
  by (auto simp: keeps_def logR_def updateR_def intro: plain_kept)

lemma bind_kept:
  assumes "keeps R m" "\<And>s x t. m s = (ok x, t) \<Longrightarrow> keeps R (f x)"
  shows "keeps R (bindR m f)"
proof (rule keepsI)
  fix s r u assume run: "bindR m f s = (r, u)"
  obtain q t where m: "m s = (q, t)" by (cases "m s")
  have "R s t" using keepsD [OF assms(1) m] .
  moreover have "R t u" if "q = ok x" for x
    using keepsD [OF assms(2)] run m that by (auto simp: bindR_def)
  ultimately show "R s u" using run m by (cases q) (auto simp: bindR_def intro: trans_kept)
qed

lemma catch_kept:
  assumes "keeps R m" "\<And>e. keeps R (f e)"
  shows "keeps R (catchR m f)"
proof (rule keepsI)
  fix s r u assume run: "catchR m f s = (r, u)"
  obtain q t where m: "m s = (q, t)" by (cases "m s")
  have "R s t" using keepsD [OF assms(1) m] .
  then show "R s u" using run m keepsD [OF assms(2)] by (cases q) (auto simp: catchR_def intro: trans_kept)
qed

lemmas basic_kept = done_kept lift_kept read_kept ask_kept

lemma failed_kept: "keeps R (failed_with err)"
  unfolding failed_with_def by (rule update_kept) (simp add: quiet_def)

lemma stop_kept: "keeps R (stop_with err)"
  unfolding stop_with_def by (rule update_kept) (simp add: quiet_def)

lemma onStop_kept: "keeps R (onStop err)"
  by (cases err) (auto simp: onStop_def intro: done_kept stop_kept)

lemma api_kept: "keeps R (api c f)"
  unfolding api_def by (auto intro!: bind_kept basic_kept failed_kept stop_kept split: api_reply.split)

lemma accept_kept: "keeps R (accept_some h p)"
  unfolding accept_some_def accept_def
  by (auto intro!: bind_kept basic_kept update_kept simp: quiet_def split: option.split)

lemma refresh_kept: "keeps R (refreshPolicy c h)"
  unfolding refreshPolicy_def by (auto intro!: bind_kept api_kept accept_kept)

lemma heartbeat_kept: "keeps R (heartbeat c h)"
  unfolding heartbeat_def
  by (auto intro!: bind_kept basic_kept api_kept accept_kept failed_kept log_kept simp: plain_event_def split: sum.split)

lemma recover_kept: "keeps R (recover_now c h)"
  unfolding recover_now_def by (auto intro!: bind_kept basic_kept onStop_kept log_kept simp: plain_event_def)

lemma verify_kept: "keeps R (verify_once h d)"
  unfolding verify_once_def by (auto intro!: bind_kept basic_kept update_kept simp: quiet_def)

lemma quote_all_kept: "keeps R (quote_all h m head q cs out)"
  by (induction cs arbitrary: out) (auto intro!: bind_kept basic_kept)

lemma strategy_kept: "keeps R (strategy_decide c h m head f implied)"
  unfolding strategy_decide_def by (auto intro!: bind_kept basic_kept quote_all_kept)

lemma research_kept: "keeps R (research_now c h d detail a b)"
  unfolding research_now_def by (auto intro!: bind_kept basic_kept update_kept simp: quiet_def Let_def split: prod.split)

lemma report_parts_kept:
  assumes decided: "\<And>s d. R s (s\<lparr>rn_log := rn_log s @ [Decided d]\<rparr>)" and delivered: "\<And>s d. R s (s\<lparr>rn_log := rn_log s @ [Delivered d]\<rparr>)"
    and outbox: "\<And>s ds. R s (s\<lparr>rn_outbox := ds\<rparr>)"
  shows "keeps R (reportDecision c h d)"
proof -
  have logs: "keeps R (logR (Decided d))" "keeps R (logR (Delivered d))" for d
    using decided delivered by (auto simp: keeps_def logR_def updateR_def)
  have "keeps R (deliver c h ds)" for ds
    by (induction ds) (auto intro!: bind_kept api_kept done_kept logs split: option.split)
  moreover have "keeps R (updateR (\<lambda>s. s\<lparr>rn_outbox := ds\<rparr>))" for ds
    using outbox by (auto simp: keeps_def updateR_def)
  ultimately show ?thesis unfolding reportDecision_def by (auto intro!: bind_kept basic_kept logs)
qed

end

text \<open>Around the pairs: a relation that the guarded loop over the pairs keeps is kept by every run.\<close>

locale run_around = run_relation +
  assumes pairs_kept: "List.member (ru_markets c) (dep_namespace d) \<Longrightarrow> keeps R (pair_loop c h (pair_cycle c h d detail (toMarket d detail head resolved) head) ps)"
begin

lemma market_kept: "List.member (ru_markets c) (dep_namespace d) \<Longrightarrow> keeps R (marketCycle c h d)"
  unfolding marketCycle_def
  by (auto intro!: bind_kept basic_kept verify_kept api_kept pairs_kept simp: Let_def split: option.split)

lemma markets_kept: "list_all (\<lambda>d. List.member (ru_markets c) (dep_namespace d)) ds \<Longrightarrow> keeps R (market_loop c h ds)"
  by (induction ds) (auto intro!: bind_kept catch_kept done_kept market_kept failed_kept)

lemma cycle_kept: "keeps R (cycle c h)"
  unfolding cycle_def
  by (auto intro!: bind_kept basic_kept update_kept refresh_kept heartbeat_kept recover_kept api_kept markets_kept simp: quiet_def list_all_iff)

lemma run_kept: "keeps R (run_cycles c h once n)"
  by (induction n) (auto intro!: bind_kept basic_kept cycle_kept update_kept heartbeat_kept simp: quiet_def)

end

text \<open>A trade within the configured limits.\<close>

definition sound_trade :: "runner_config \<Rightarrow> live_trade \<Rightarrow> bool" where
  "sound_trade c t \<longleftrightarrow> List.member (ru_markets c) (lt_namespace t) \<and> lt_quantity t = sc_quantity (ru_strategy c)
     \<and> lt_slippageBps t = sc_slippageBps (ru_strategy c) \<and> claim_pool (lt_claim t) = lt_pool t
     \<and> buyLimit (lt_quote t) (lt_slippageBps t) \<le> sc_maxCost (ru_strategy c)"

text \<open>What the strategy proposes is sound.\<close>

lemma research_joint:
  assumes "research urls parse li provider complete retrieved i t b = (Found f, b', asked)"
  shows "\<exists>n. wf_joint n (fc_joint f)"
proof -
  obtain cx p reply where "use_reply urls parse cx i p reply = Found f"
    using assms by (auto simp: research_def Let_def split: sum.splits if_splits option.splits)
  then obtain out g inp where "forecastFromModel urls out inp = ok g" "fc_joint f = fc_joint g"
    by (auto simp: use_reply_def split: research_outcome.splits sum.splits if_splits)
  then show ?thesis by (auto simp: forecastFromModel_def wf_forecast_def dest!: parseForecast_wf)
qed

lemma found_joint:
  assumes "research_now c h d detail a b s = (ok (Found f), t)"
  shows "\<exists>n. wf_joint n (fc_joint f)"
  using assms research_joint
  by (auto simp: research_now_def bindR_def askR_def readR_def updateR_def doneR_def Let_def split: prod.splits)

lemma strategy_decided:
  assumes "strategy_decide c h m head f implied s = (ok dec, t)"
  obtains inp where "decide inp = ok dec" "di_market inp = m" "di_forecast inp = f" "di_config inp = ru_strategy c"
  using assms
  by (auto simp: strategy_decide_def bindR_def askR_def liftR_def split: prod.splits sum.splits intro!: that)

lemma proposal_evaluated:
  assumes "decide inp = ok dec" "dc_proposal dec = Some p" "wf_joint m (fc_joint (di_forecast inp))"
  shows "pp_quantity p = sc_quantity (di_config inp) \<and> pp_slippageBps p = sc_slippageBps (di_config inp)
    \<and> claim_pool (pp_claim p) = mk_pool (di_market inp) \<and> buyLimit (pp_quote p) (sc_slippageBps (di_config inp)) \<le> sc_maxCost (di_config inp)"
  using proposal_clears [OF assms] by (auto simp: clears_def Let_def)

lemma decided_sound:
  assumes "research_now c h d detail a b s = (ok (Found f), t)"
    and "strategy_decide c h (toMarket d detail head resolved) head f implied u = (ok dec, v)"
    and "List.member (ru_markets c) (dep_namespace d)" "dc_proposal dec = Some p"
  shows "sound_trade c (trade_of i d head p)"
proof -
  obtain inp where inp: "decide inp = ok dec" "di_market inp = toMarket d detail head resolved" "di_forecast inp = f"
      "di_config inp = ru_strategy c"
    using strategy_decided [OF assms(2)] .
  obtain n where "wf_joint n (fc_joint (di_forecast inp))" using found_joint [OF assms(1)] inp(3) by auto
  from proposal_evaluated [OF inp(1) assms(4) this] show ?thesis
    using assms(3) inp by (simp add: sound_trade_def trade_of_def toMarket_def)
qed

text \<open>Inside the pairs: a relation that reports, sound fills and sound starts keep is kept by the pairs.\<close>

locale run_inside = run_relation +
  assumes considered_kept: "R s (s\<lparr>rn_log := rn_log s @ [Considered i]\<rparr>)"
    and report_kept: "keeps R (reportDecision c h d)"
    and fill_kept: "\<not> ru_live c \<Longrightarrow> sound_trade c t \<Longrightarrow> keeps R (fill_paper c (fill_of i t now))"
    and start_kept: "ru_live c \<Longrightarrow> sound_trade c t \<Longrightarrow> R s (s\<lparr>rn_log := rn_log s @ [Started t]\<rparr>)"
begin

lemma paper_kept: "\<not> ru_live c \<Longrightarrow> sound_trade c t \<Longrightarrow> keeps R (paper_trade c h d t created)"
  unfolding paper_trade_def
  by (auto intro!: bind_kept basic_kept report_kept fill_kept simp: Let_def split: option.split)

lemma execute_kept: "ru_live c \<Longrightarrow> sound_trade c t \<Longrightarrow> keeps R (execute_live c h t)"
proof -
  assume live: "ru_live c" "sound_trade c t"
  have "keeps R (logR (Started t))" using start_kept [OF live] by (auto simp: keeps_def logR_def updateR_def)
  then show ?thesis unfolding execute_live_def
    by (auto intro!: bind_kept basic_kept onStop_kept split: option.split prod.split)
qed

lemma live_kept: "ru_live c \<Longrightarrow> sound_trade c t \<Longrightarrow> keeps R (live_trade_now c h d t created)"
  unfolding live_trade_now_def by (auto intro!: bind_kept refresh_kept execute_kept report_kept split: trade_result.split)

lemma act_kept:
  assumes "\<And>p. dc_proposal dec = Some p \<Longrightarrow> sound_trade c (trade_of i d head p)"
  shows "keeps R (act_on c h d head i created dec)"
  unfolding act_on_def using assms
  by (auto intro!: report_kept lift_kept paper_kept live_kept split: option.split)

lemma pair_kept:
  assumes "List.member (ru_markets c) (dep_namespace d)"
  shows "keeps R (pair_cycle c h d detail (toMarket d detail head resolved) head p)"
proof -
  have log: "keeps R (logR (Considered i))" for i using considered_kept by (auto simp: keeps_def logR_def updateR_def)
  have act: "keeps R (act_on c h d head i created dec)"
    if "research_now c h d detail a b s = (ok (Found f), t)"
      "strategy_decide c h (toMarket d detail head resolved) head f implied u = (ok dec, v)" for a b s f t implied u dec v i created
    using act_kept decided_sound [OF that assms] by blast
  show ?thesis unfolding pair_cycle_def
    by (auto intro!: bind_kept basic_kept log research_kept report_kept api_kept strategy_kept act split: research_result.split prod.split)
qed

lemma pair_loop_kept:
  "List.member (ru_markets c) (dep_namespace d) \<Longrightarrow> keeps R (pair_loop c h (pair_cycle c h d detail (toMarket d detail head resolved) head) ps)"
  by (induction ps) (auto intro!: bind_kept basic_kept pair_kept)

end

end
