(* ===== verification/Runner_Runs.thy ===== *)
theory Runner_Runs
  imports Runner_Laws
begin

text \<open>
  The runtime's promises over whole runs: the relations of \<open>Runner_Laws\<close>, interpreted on the runtime's own log,
  paper book and outbox.
\<close>

section \<open>A stopped runtime starts nothing\<close>

definition begins :: "runner_event \<Rightarrow> bool" where
  "begins e = (case e of Considered _ \<Rightarrow> True | Started _ \<Rightarrow> True | Filled _ \<Rightarrow> True | _ \<Rightarrow> False)"

definition begun :: "runner \<Rightarrow> runner_event list" where
  "begun s = filter begins (rn_log s)"

definition halted :: "outside \<Rightarrow> runner \<Rightarrow> bool" where
  "halted h s \<longleftrightarrow> rn_blockedBy s \<noteq> None \<or> (\<forall>i\<ge>rn_tick s. ou_stop h i)"

definition stays_halted :: "outside \<Rightarrow> runner \<Rightarrow> runner \<Rightarrow> bool" where
  "stays_halted h s t \<longleftrightarrow> (halted h s \<longrightarrow> halted h t \<and> begun t = begun s \<and> rn_fills t = rn_fills s)"

lemma quiet_halted: "quiet s t \<Longrightarrow> stays_halted h s t"
  by (auto simp: stays_halted_def halted_def quiet_def begun_def)

lemma halted_pairs: "keeps (stays_halted h) (pair_loop c h body ps)"
proof (cases ps)
  case Nil
  then show ?thesis by (auto simp: keeps_def doneR_def intro: quiet_halted)
next
  case (Cons p qs)
  have "quiet s t" if "halted h s" "pair_loop c h body ps s = (r, t)" for s r t
    using that Cons by (auto simp: bindR_def askR_def readR_def doneR_def halted_def quiet_def split: if_splits)
  then show ?thesis using quiet_halted unfolding keeps_def by (metis stays_halted_def)
qed

interpretation halts: run_around "stays_halted h" c h for c h
proof unfold_locales
  show "stays_halted h s u" if "stays_halted h s t" "stays_halted h t u" for s t u
    using that by (auto simp: stays_halted_def)
  show "stays_halted h s (s\<lparr>rn_log := rn_log s @ [e]\<rparr>)" if "plain_event e" for e s
    using that by (auto simp: stays_halted_def halted_def plain_event_def begun_def begins_def)
qed (auto intro: quiet_halted halted_pairs)

section \<open>What is traded\<close>

definition event_ok :: "runner_config \<Rightarrow> runner_event \<Rightarrow> bool" where
  "event_ok c e \<longleftrightarrow> (\<forall>t. e = Started t \<longrightarrow> ru_live c \<and> sound_trade c t)
     \<and> (\<forall>f. e = Filled f \<longrightarrow> \<not> ru_live c \<and> (\<exists>t i now. sound_trade c t \<and> f = fill_of i t now))"

definition logs_within :: "runner_config \<Rightarrow> runner \<Rightarrow> runner \<Rightarrow> bool" where
  "logs_within c s t \<longleftrightarrow> (\<exists>new. rn_log t = rn_log s @ new \<and> list_all (event_ok c) new)"

lemma logs_within_event: "event_ok c e \<Longrightarrow> logs_within c s (s\<lparr>rn_log := rn_log s @ [e]\<rparr>)"
  by (auto simp: logs_within_def)

lemma logs_within_quiet: "quiet s t \<Longrightarrow> logs_within c s t"
  by (auto simp: logs_within_def quiet_def)

lemma logs_within_trans: "logs_within c s t \<Longrightarrow> logs_within c t u \<Longrightarrow> logs_within c s u"
  by (auto simp: logs_within_def)

interpretation logs: run_relation "logs_within c" c h for c h
  by unfold_locales (auto intro: logs_within_quiet logs_within_trans logs_within_event simp: event_ok_def plain_event_def)

lemma logs_report: "keeps (logs_within c) (reportDecision c h d)"
  by (rule logs.report_parts_kept) (auto intro: logs_within_event simp: event_ok_def logs_within_def)

lemma logs_fill:
  assumes "\<not> ru_live c" "sound_trade c t"
  shows "keeps (logs_within c) (fill_paper c (fill_of i t now))"
proof -
  have "keeps (logs_within c) (logR (Filled (fill_of i t now)))"
    using assms by (fastforce simp: keeps_def logR_def updateR_def event_ok_def intro!: logs_within_event)
  moreover have "keeps (logs_within c) (updateR (\<lambda>s. s\<lparr>rn_fills := book\<rparr>))" for book
    by (auto simp: keeps_def updateR_def logs_within_def)
  ultimately show ?thesis unfolding fill_paper_def
    by (auto intro!: logs.bind_kept logs.basic_kept split: sum.split)
qed

interpretation logs: run_inside "logs_within c" c h for c h
  by unfold_locales (auto intro: logs_report logs_fill logs_within_event simp: event_ok_def)

interpretation logs: run_around "logs_within c" c h for c h
  by unfold_locales (rule logs.pair_loop_kept)

section \<open>The paper book\<close>

definition books :: "int \<Rightarrow> runner \<Rightarrow> runner \<Rightarrow> bool" where
  "books b s t \<longleftrightarrow> (book_step b)\<^sup>*\<^sup>* (rn_fills s) (rn_fills t)"

lemma books_same: "rn_fills t = rn_fills s \<Longrightarrow> books b s t"
  by (simp add: books_def)

interpretation books: run_relation "books (ru_paperBudget c)" c h for c h
  by unfold_locales (auto simp: books_def quiet_def)

lemma books_fill: "keeps (books (ru_paperBudget c)) (fill_paper c f)"
proof (rule keepsI)
  fix s r t assume run: "fill_paper c f s = (r, t)"
  have "rn_fills t = rn_fills s \<or> book_step (ru_paperBudget c) (rn_fills s) (rn_fills t)"
    using run
    by (auto simp: fill_paper_def bindR_def readR_def liftR_def updateR_def logR_def doneR_def book_step_def
        split: sum.splits prod.splits)
  then show "books (ru_paperBudget c) s t" by (auto simp: books_def)
qed

lemma books_report: "keeps (books (ru_paperBudget c)) (reportDecision c h d)"
  by (rule books.report_parts_kept) (auto intro: books_same)

interpretation books: run_inside "books (ru_paperBudget c)" c h for c h
  by unfold_locales (auto intro: books_report books_fill books_same)

interpretation books: run_around "books (ru_paperBudget c)" c h for c h
  by unfold_locales (rule books.pair_loop_kept)

section \<open>Reports\<close>

definition decided :: "runner_event list \<Rightarrow> decision_report list" where
  "decided es = List.map_filter (\<lambda>e. case e of Decided d \<Rightarrow> Some d | _ \<Rightarrow> None) es"

definition delivered :: "runner_event list \<Rightarrow> decision_report list" where
  "delivered es = List.map_filter (\<lambda>e. case e of Delivered d \<Rightarrow> Some d | _ \<Rightarrow> None) es"

lemma decided_simps [simp]: "decided [] = []" "decided (es @ fs) = decided es @ decided fs"
    "decided (e # es) = (case e of Decided d \<Rightarrow> d # decided es | _ \<Rightarrow> decided es)"
  by (auto simp: decided_def List.map_filter_def split: runner_event.split)

lemma delivered_simps [simp]: "delivered [] = []" "delivered (es @ fs) = delivered es @ delivered fs"
    "delivered (e # es) = (case e of Delivered d \<Rightarrow> d # delivered es | _ \<Rightarrow> delivered es)"
  by (auto simp: delivered_def List.map_filter_def split: runner_event.split)

text \<open>What the server has acknowledged, and after it what still waits.\<close>

definition passed_on :: "runner \<Rightarrow> decision_report list" where
  "passed_on s = delivered (rn_log s) @ rn_outbox s"

definition reports_kept :: "runner \<Rightarrow> runner \<Rightarrow> bool" where
  "reports_kept s t \<longleftrightarrow> (\<exists>new. decided (rn_log t) = decided (rn_log s) @ new \<and> subseq (passed_on t) (passed_on s @ new))
     \<and> (passed_on s = decided (rn_log s) \<and> length (decided (rn_log t)) \<le> OUTBOX \<longrightarrow> passed_on t = decided (rn_log t))"

lemma reports_same:
  "decided (rn_log t) = decided (rn_log s) \<Longrightarrow> passed_on t = passed_on s \<Longrightarrow> reports_kept s t"
  by (simp add: reports_kept_def)

lemma reports_trans:
  assumes "reports_kept s t" "reports_kept t u"
  shows "reports_kept s u"
proof -
  obtain x y where x: "decided (rn_log t) = decided (rn_log s) @ x" "subseq (passed_on t) (passed_on s @ x)"
    and y: "decided (rn_log u) = decided (rn_log t) @ y" "subseq (passed_on u) (passed_on t @ y)"
    using assms unfolding reports_kept_def by blast
  have "subseq (passed_on t @ y) (passed_on s @ x @ y)"
    using list_emb_append_mono [OF x(2), of y y] by simp
  then have "subseq (passed_on u) (passed_on s @ x @ y)" using y(2) subseq_order.order_trans by blast
  moreover have "passed_on u = decided (rn_log u)" if "passed_on s = decided (rn_log s)" "length (decided (rn_log u)) \<le> OUTBOX"
  proof -
    have "length (decided (rn_log t)) \<le> OUTBOX" using that(2) y(1) by simp
    then show ?thesis using assms that by (simp add: reports_kept_def)
  qed
  ultimately show ?thesis using x(1) y(1) by (simp add: reports_kept_def)
qed

lemma reports_event: "(\<And>d. e \<noteq> Decided d) \<Longrightarrow> (\<And>d. e \<noteq> Delivered d) \<Longrightarrow> reports_kept s (s\<lparr>rn_log := rn_log s @ [e]\<rparr>)"
  by (rule reports_same) (auto simp: passed_on_def split: runner_event.split)

interpretation reports: run_relation reports_kept c h for c h
proof unfold_locales
  show "reports_kept s t" if "quiet s t" for s t
    using that by (intro reports_same) (auto simp: quiet_def passed_on_def)
qed (auto intro: reports_trans reports_event simp: plain_event_def)

lemma api_quiet: "api c f s = (r, t) \<Longrightarrow> quiet s t \<and> (\<exists>x. r = ok x)"
  by (auto simp: api_def bindR_def askR_def doneR_def failed_with_def stop_with_def updateR_def quiet_def
      split: if_splits api_reply.splits)

text \<open>Delivering sends a prefix, in order, and keeps the rest.\<close>

lemma deliver_prefix:
  "deliver c h ds s = (r, t) \<Longrightarrow> \<exists>sent left. r = ok left \<and> ds = sent @ left \<and> delivered (rn_log t) = delivered (rn_log s) @ sent
     \<and> decided (rn_log t) = decided (rn_log s) \<and> rn_outbox t = rn_outbox s"
proof (induction ds arbitrary: s)
  case Nil
  then show ?case by (auto simp: doneR_def)
next
  case (Cons d ds)
  obtain q u where a: "api c (\<lambda>i. ou_decision h i d) s = (q, u)" by (cases "api c (\<lambda>i. ou_decision h i d) s")
  obtain x where x: "quiet s u" "q = ok x" using api_quiet [OF a] by auto
  show ?case
  proof (cases x)
    case None
    then show ?thesis using Cons.prems a x by (auto simp: bindR_def doneR_def quiet_def)
  next
    case (Some y)
    let ?v = "u\<lparr>rn_log := rn_log u @ [Delivered d]\<rparr>"
    have "deliver c h ds ?v = (r, t)" using Cons.prems a x Some by (simp add: bindR_def logR_def updateR_def)
    from Cons.IH [OF this] obtain sent left where "r = ok left" "ds = sent @ left"
      "delivered (rn_log t) = delivered (rn_log ?v) @ sent" "decided (rn_log t) = decided (rn_log ?v)" "rn_outbox t = rn_outbox ?v"
      by auto
    then have "r = ok left \<and> d # ds = (d # sent) @ left \<and> delivered (rn_log t) = delivered (rn_log s) @ (d # sent)
       \<and> decided (rn_log t) = decided (rn_log s) \<and> rn_outbox t = rn_outbox s" using x(1) by (simp add: quiet_def)
    then show ?thesis by blast
  qed
qed

lemma subseq_keep_last: "subseq (keep_last xs) xs"
  by (simp add: keep_last_def suffix_imp_subseq suffix_drop)

lemma reports_report: "keeps reports_kept (reportDecision c h d)"
proof (rule keepsI)
  fix s r t assume run: "reportDecision c h d s = (r, t)"
  let ?u = "s\<lparr>rn_log := rn_log s @ [Decided d]\<rparr>"
  obtain q v where dl: "deliver c h (rn_outbox s @ [d]) ?u = (q, v)" by (cases "deliver c h (rn_outbox s @ [d]) ?u")
  obtain sent left where p: "q = ok left" "rn_outbox s @ [d] = sent @ left" "delivered (rn_log v) = delivered (rn_log s) @ sent"
      "decided (rn_log v) = decided (rn_log s) @ [d]"
    using deliver_prefix [OF dl] by auto
  have t: "t = v\<lparr>rn_outbox := keep_last left\<rparr>"
    using run dl p(1) by (simp add: reportDecision_def bindR_def logR_def updateR_def readR_def)
  have eq: "passed_on s @ [d] = delivered (rn_log v) @ left" using p by (simp add: passed_on_def)
  have "subseq (passed_on t) (passed_on s @ [d])"
    unfolding eq using t by (simp add: passed_on_def list_emb_append_mono subseq_keep_last)
  moreover have "passed_on t = decided (rn_log t)" if "passed_on s = decided (rn_log s)" "length (decided (rn_log t)) \<le> OUTBOX"
  proof -
    have "delivered (rn_log v) @ left = decided (rn_log t)" using eq that(1) p(4) t by simp
    then have "length left \<le> OUTBOX" using that(2) by (metis add_leE length_append)
    then show ?thesis using \<open>delivered (rn_log v) @ left = decided (rn_log t)\<close> t by (simp add: passed_on_def keep_last_def)
  qed
  ultimately show "reports_kept s t" using p(4) t by (auto simp: reports_kept_def)
qed

lemma reports_fill: "keeps reports_kept (fill_paper c f)"
proof -
  have "keeps reports_kept (logR (Filled f))" by (auto simp: keeps_def logR_def updateR_def intro: reports_event)
  moreover have "keeps reports_kept (updateR (\<lambda>s. s\<lparr>rn_fills := book\<rparr>))" for book
    by (auto simp: keeps_def updateR_def passed_on_def intro!: reports_same)
  ultimately show ?thesis unfolding fill_paper_def by (auto intro!: reports.bind_kept reports.basic_kept split: sum.split)
qed

interpretation reports: run_inside reports_kept c h for c h
  by unfold_locales (auto intro: reports_report reports_fill reports_event)

interpretation reports: run_around reports_kept c h for c h
  by unfold_locales (rule reports.pair_loop_kept)

section \<open>Properties\<close>

text \<open>C7: Once the service has stopped the runtime, or a stop is requested for good, no later cycle of any run considers a
  pair, starts an execution or fills a paper trade, whatever the outside answers; it only recovers what was sent,
  reports and beats.\<close>

theorem halted_runtime_starts_nothing:
  assumes "run_cycles c h once n s = (r, t)" and "rn_blockedBy s \<noteq> None \<or> (\<forall>i\<ge>rn_tick s. ou_stop h i)"
  shows "(rn_blockedBy t \<noteq> None \<or> (\<forall>i\<ge>rn_tick t. ou_stop h i)) \<and> begun t = begun s \<and> rn_fills t = rn_fills s"
  using keepsD [OF halts.run_kept assms(1)] assms(2) by (auto simp: stays_halted_def halted_def)


text \<open>C8: A new runtime passes its decisions on in the order they were made: what the server acknowledged followed by what
  still waits is always a subsequence of what was decided, and while no more than 200 decisions were made it is exactly
  what was decided, so none is lost, doubled or reordered.\<close>

theorem reports_in_order:
  assumes "run_cycles c h once n s = (r, t)" and "rn_log s = []" "rn_outbox s = []"
  shows "subseq (delivered (rn_log t) @ rn_outbox t) (decided (rn_log t))
    \<and> (length (decided (rn_log t)) \<le> OUTBOX \<longrightarrow> delivered (rn_log t) @ rn_outbox t = decided (rn_log t))"
  using keepsD [OF reports.run_kept assms(1)] assms(2,3) by (auto simp: reports_kept_def passed_on_def)

text \<open>The paper book of a new runtime never costs more than its budget, fills each decision at most once, and a claim's
  fills use ever newer blocks.\<close>

theorem paper_runs_bounded:
  assumes "run_cycles c h once n s = (r, t)" and "rn_fills s = []" "0 \<le> ru_paperBudget c"
  shows "sum_list (map (\<lambda>f. number_in (bf_cost f)) (rn_fills t)) \<le> ru_paperBudget c \<and> distinct (map bf_decisionId (rn_fills t))
    \<and> newer_only (\<lambda>f. (bf_namespace f, book_key f)) (\<lambda>f. number_in (bf_block f)) (rn_fills t)"
proof -
  have "(book_step (int (nat (ru_paperBudget c))))\<^sup>*\<^sup>* [] (rn_fills t)"
    using keepsD [OF books.run_kept assms(1)] assms(2,3) by (simp add: books_def)
  from runtime_book.book_run [OF this] show ?thesis using assms(3) by (simp only: runtime_book.book_ok_def) simp
qed

text \<open>An execution starts only with permission read at that moment: live mode, not stopped by the service or the
  operator, and a published policy that enables live trading, is not paused and is recent enough.\<close>

theorem execution_starts_permitted:
  assumes "execute_live c h tr s = (r, t)" and "Started tr \<in> set (drop (length (rn_log s)) (rn_log t))"
  shows "ru_live c \<and> rn_blockedBy s = None \<and> \<not> ou_stop h (rn_tick s)
    \<and> (\<exists>p read. rn_published s = Some p \<and> fp_liveEnabled p \<and> \<not> fp_paused p \<and> rn_readAt s = Some read
         \<and> ou_now h (Suc (rn_tick s)) - read \<le> ru_policyMaxAge c)"
proof -
  let ?s = "s\<lparr>rn_tick := Suc (Suc (rn_tick s))\<rparr>" and ?stop = "ou_stop h (rn_tick s)" and ?now = "ou_now h (Suc (rn_tick s))"
  have "liveRefusal c ?s ?stop ?now = ok None"
  proof (rule ccontr)
    assume "liveRefusal c ?s ?stop ?now \<noteq> ok None"
    then have "rn_log t = rn_log s"
      using assms(1) by (auto simp: execute_live_def bindR_def askR_def readR_def liftR_def doneR_def split: sum.splits option.splits)
    then show False using assms(2) by simp
  qed
  then show ?thesis
    by (auto simp: liveRefusal_def effective_now_def effectivePolicy_def Let_def split: option.splits if_splits)
qed

section \<open>A run\<close>

definition demo_runner_config :: "bool \<Rightarrow> runner_config" where
  "demo_runner_config live = \<lparr>ru_live = live, ru_hasClient = True, ru_markets = [''flurbo:games:v1''],
     ru_policy = \<lparr>pc_markets = [''flurbo:games:v1''], pc_maxQuantity = ''5000000'', pc_maxTradeCost = ''3000000'', pc_maxSlippageBps = 100,
       pc_spendTotal = ''20000000'', pc_windows = [], pc_maxPosition = ''10000000'', pc_maxWorstCaseLoss = ''10000000'',
       pc_gasMaxFee = ''100000000000'', pc_gasReserve = ''1000000000000000000'', pc_quoteMaxAge = 30, pc_minBeforeClose = 60, pc_maxPending = 1,
       pc_allowSell = False, pc_allowRedeem = False\<rparr>,
     ru_policyMaxAge = 300, ru_paperBudget = 10000000, ru_strategy = DEFAULT_CONFIG\<lparr>sc_includeSingles := False\<rparr>,
     ru_limits = \<lparr>li_perCycle = 1, li_perHour = 2, li_maxAge = 86400\<rparr>, ru_requirements = (\<lambda>_. []), ru_extraSources = (\<lambda>_. [])\<rparr>"

definition demo_published :: "bool \<Rightarrow> published_policy" where
  "demo_published live = \<lparr>fp_paused = False, fp_liveEnabled = live, fp_maxTradeCost = None, fp_windows = []\<rparr>"

definition demo_event :: "nat \<Rightarrow> detail_event" where
  "demo_event i = \<lparr>dt_index = i, dt_id = ''e'', dt_question = ''Is it out?'', dt_yesRule = ''yes'', dt_noRule = ''no'', dt_endsAt = 5000, dt_url = None\<rparr>"

definition demo_market_deployment :: deployment where
  "demo_market_deployment = \<lparr>dep_namespace = ''flurbo:games:v1'', dep_chainId = 10143, dep_pool = ''0x'' @ replicate 40 CHR ''a'', dep_resolver = ''0xb'', dep_collateral = ''0xc'',
     dep_poolCode = ''0x1'', dep_resolverCode = ''0x2'', dep_rulesHash = ''0x3'', dep_closesAt = 100000, dep_eventCount = 2\<rparr>"

text \<open>The server answers, except that it takes no decision before tick 30, in the first cycle; no provider is configured.\<close>

definition demo_outside :: outside where
  "demo_outside = \<lparr>ou_now = (\<lambda>i. 1000 + int i), ou_stop = (\<lambda>_. False), ou_id = (\<lambda>i. replicate i CHR ''d''),
     ou_policy = (\<lambda>_. Answer (demo_published True)), ou_heartbeat = (\<lambda>_ _. Answer (demo_published True)),
     ou_decision = (\<lambda>i _. if i < 30 then Other_failure else Answer ()), ou_deployments = (\<lambda>_. Answer [demo_market_deployment]),
     ou_market = (\<lambda>_ _. Answer \<lparr>md_title = ''Games'', md_events = [demo_event 0, demo_event 1]\<rparr>),
     ou_analytics = (\<lambda>_ _. Other_failure), ou_validate = (\<lambda>_ _. throw Invalid_response), ou_verify = (\<lambda>_ _. ok ()),
     ou_block = (\<lambda>_. ok \<lparr>hb_number = 7, hb_hash = ''0x7'', hb_time = 1000\<rparr>), ou_resolved = (\<lambda>_ _. ok False), ou_quote = (\<lambda>_ _ _ _. ok None),
     ou_urls = (\<lambda>_. None), ou_parse = (\<lambda>_. None), ou_provider = Inl ''provider_unconfigured'', ou_retrieve = (\<lambda>_ _. []),
     ou_complete = (\<lambda>_ _. Inl ''provider_unavailable''), ou_execute = (\<lambda>_ _ _. (ok (Ran ''confirmed'' None), None)), ou_recover = (\<lambda>_. (ok (), None))\<rparr>"

definition new_runner :: runner where
  "new_runner = \<lparr>rn_tick = 0, rn_published = None, rn_readAt = None, rn_blockedBy = None, rn_lastErrorCode = None, rn_lastCycleAt = None,
     rn_verified = [], rn_stopped = False, rn_budget = \<lparr>bg_cycle = 0, bg_hour = []\<rparr>, rn_fills = [], rn_outbox = [], rn_log = []\<rparr>"

definition demo_after :: "nat \<Rightarrow> runner" where
  "demo_after n = snd (run_cycles (demo_runner_config False) demo_outside False n new_runner)"

lemma demo_after_run: "\<exists>r. run_cycles (demo_runner_config False) demo_outside False n new_runner = (r, demo_after n)"
  by (simp add: demo_after_def prod_eq_iff)

lemma demo_run_reports:
  "map (\<lambda>d. length (dr_decisionId d)) (decided (rn_log (demo_after 2))) = [14, 39]
   \<and> map (\<lambda>d. length (dr_decisionId d)) (rn_outbox (demo_after 1)) = [14]"
  by code_simp


theorem reports_in_order_witness:
  "delivered (rn_log (demo_after 2)) @ rn_outbox (demo_after 2) = decided (rn_log (demo_after 2))
    \<and> length (decided (rn_log (demo_after 2))) = 2 \<and> length (rn_outbox (demo_after 1)) = 1"
proof -
  obtain r where run: "run_cycles (demo_runner_config False) demo_outside False 2 new_runner = (r, demo_after 2)"
    using demo_after_run by blast
  have two: "length (decided (rn_log (demo_after 2))) = 2" "length (rn_outbox (demo_after 1)) = 1"
    using demo_run_reports by (auto dest!: arg_cong [where f = length])
  show ?thesis using reports_in_order [OF run] two by (simp add: new_runner_def OUTBOX_def)
qed

theorem paper_runs_bounded_witness:
  "sum_list (map (\<lambda>f. number_in (bf_cost f)) (rn_fills (demo_after 2))) \<le> 10000000 \<and> distinct (map bf_decisionId (rn_fills (demo_after 2)))"
proof -
  obtain r where run: "run_cycles (demo_runner_config False) demo_outside False 2 new_runner = (r, demo_after 2)"
    using demo_after_run by blast
  show ?thesis using paper_runs_bounded [OF run] by (simp add: new_runner_def demo_runner_config_def)
qed


theorem halted_runtime_starts_nothing_witness:
  "\<exists>r t. run_cycles (demo_runner_config False) demo_outside False 3 (new_runner\<lparr>rn_blockedBy := Some ''REVOKED''\<rparr>) = (r, t)
    \<and> begun t = [] \<and> rn_fills t = []"
proof -
  let ?s = "new_runner\<lparr>rn_blockedBy := Some ''REVOKED''\<rparr>"
  obtain r t where run: "run_cycles (demo_runner_config False) demo_outside False 3 ?s = (r, t)"
    by (cases "run_cycles (demo_runner_config False) demo_outside False 3 ?s")
  show ?thesis using halted_runtime_starts_nothing [OF run] run by (simp add: new_runner_def begun_def)
qed

definition demo_ready :: runner where
  "demo_ready = new_runner\<lparr>rn_published := Some (demo_published True), rn_readAt := Some 950\<rparr>"

definition demo_trade :: live_trade where
  "demo_trade = \<lparr>lt_decisionId = ''d1'', lt_namespace = ''flurbo:games:v1'', lt_pool = ''0xa'',
     lt_claim = \<lparr>claim_chain = 10143, claim_pool = ''0xa'', claim_scope = 3, claim_mask = 14\<rparr>, lt_quantity = 1000000, lt_slippageBps = 50,
     lt_quote = 300000, lt_block = \<lparr>hb_number = 7, hb_hash = ''0x7'', hb_time = 1000\<rparr>\<rparr>"

theorem execution_starts_permitted_witness:
  "\<exists>r t. execute_live (demo_runner_config True) demo_outside demo_trade demo_ready = (r, t) \<and> rn_log t = [Started demo_trade]
    \<and> (\<exists>p read. rn_published demo_ready = Some p \<and> fp_liveEnabled p \<and> rn_readAt demo_ready = Some read \<and> 1001 - read \<le> 300)"
proof -
  let ?e = "execute_live (demo_runner_config True) demo_outside demo_trade demo_ready"
  have log: "rn_log (snd ?e) = [Started demo_trade]" by code_simp
  obtain r t where run: "?e = (r, t)" by (cases ?e)
  then have t: "rn_log t = [Started demo_trade]" using log by simp
  show ?thesis using execution_starts_permitted [OF run] run t
    by (simp add: demo_ready_def new_runner_def demo_outside_def demo_runner_config_def)
qed

end
